(* ===== verification/Prelude.thy ===== *)
theory Prelude
  imports Main "HOL-Library.Monad_Syntax"
begin

text \<open>
  The shared vocabulary of the development: the error values of the program and what
  \<^verbatim>\<open>errors.Is\<close>, \<^verbatim>\<open>errors.As\<close> and \<^verbatim>\<open>Error()\<close> observe of them, the
  string functions of the Go standard library that the sources call, and the effect type
  in which every function that talks to a cluster, a node or a clock is written.

  An effectful Go function becomes a function from a world to an optional pair of a
  result and a new world. The world holds the state of everything outside the program
  (an arbitrary type, the parameter of the client operations) and the trace of the calls
  made so far; \<open>None\<close> is a call that does not return. A pair \<open>(T, error)\<close> is a value of
  \<open>goerr + 'a\<close> when the callers look at the value only if the error is nil.
\<close>

section \<open>Lemma collections\<close>

named_theorems io_simps \<open>unfolding rules of the effect combinators\<close>
named_theorems calls_intros \<open>introduction rules for the calls a computation may make\<close>

section \<open>Strings\<close>

text \<open>
  Go strings are byte sequences; they are \<^typ>\<open>string\<close>s here. The functions below are
  those of the packages \<^verbatim>\<open>strings\<close> and \<^verbatim>\<open>strconv\<close> that the sources use, on bytes.
\<close>

definition nl :: char where "nl = CHR 0x0A"
definition dquote :: char where "dquote = CHR 0x22"
definition squote :: char where "squote = CHR 0x27"
definition backslash :: char where "backslash = CHR 0x5C"

definition hasPrefix :: "string \<Rightarrow> string \<Rightarrow> bool" where
  "hasPrefix s p \<longleftrightarrow> take (length p) s = p"

definition hasSuffix :: "string \<Rightarrow> string \<Rightarrow> bool" where
  "hasSuffix s p \<longleftrightarrow> length p \<le> length s \<and> drop (length s - length p) s = p"

fun str_contains :: "string \<Rightarrow> string \<Rightarrow> bool" where
  "str_contains [] p \<longleftrightarrow> p = []"
| "str_contains (c # s) p \<longleftrightarrow> hasPrefix (c # s) p \<or> str_contains s p"

definition trimPrefix :: "string \<Rightarrow> string \<Rightarrow> string" where
  "trimPrefix s p = (if hasPrefix s p then drop (length p) s else s)"

definition trimSuffix :: "string \<Rightarrow> string \<Rightarrow> string" where
  "trimSuffix s p = (if hasSuffix s p then take (length s - length p) s else s)"

definition trimRight :: "char \<Rightarrow> string \<Rightarrow> string" where
  "trimRight c s = rev (dropWhile (\<lambda>x. x = c) (rev s))"

definition trimLeft :: "char \<Rightarrow> string \<Rightarrow> string" where
  "trimLeft c s = dropWhile (\<lambda>x. x = c) s"

definition is_space :: "char \<Rightarrow> bool" where
  "is_space c \<longleftrightarrow> c \<in> {CHR 0x09, CHR 0x0A, CHR 0x0B, CHR 0x0C, CHR 0x0D, CHR 0x20}"

definition trimSpace :: "string \<Rightarrow> string" where
  "trimSpace s = rev (dropWhile is_space (rev (dropWhile is_space s)))"

definition toLower :: "string \<Rightarrow> string" where
  "toLower s = map (\<lambda>c. if 65 \<le> (of_char c :: nat) \<and> (of_char c :: nat) \<le> 90 then char_of (of_char c + 32 :: nat) else c) s"

fun split_on :: "char \<Rightarrow> string \<Rightarrow> string list" where
  "split_on c [] = [[]]"
| "split_on c (x # xs) =
     (if x = c then [] # split_on c xs
      else (case split_on c xs of [] \<Rightarrow> [[x]] | y # ys \<Rightarrow> (x # y) # ys))"

fun str_join :: "string \<Rightarrow> string list \<Rightarrow> string" where
  "str_join sep [] = []"
| "str_join sep [s] = s"
| "str_join sep (s # t # ts) = s @ sep @ str_join sep (t # ts)"

definition digit_char :: "nat \<Rightarrow> char" where
  "digit_char d = char_of (48 + d)"

fun nat_str :: "nat \<Rightarrow> string" where
  "nat_str n = (if n < 10 then [digit_char n] else nat_str (n div 10) @ [digit_char (n mod 10)])"

declare nat_str.simps [simp del]

definition itoa :: "int \<Rightarrow> string" where
  "itoa i = (if i < 0 then CHR ''-'' # nat_str (nat (- i)) else nat_str (nat i))"

text \<open>Integer division of Go truncates towards zero.\<close>

definition go_div :: "int \<Rightarrow> int \<Rightarrow> int" where
  "go_div a b = sgn a * sgn b * (\<bar>a\<bar> div \<bar>b\<bar>)"

text \<open>
  \<^verbatim>\<open>%q\<close>: a double-quoted Go string literal. Bytes from \<open>0x80\<close> on are kept, as those of
  printable runes are.
\<close>

definition hex_digit :: "nat \<Rightarrow> char" where
  "hex_digit d = (if d < 10 then char_of (48 + d) else char_of (87 + d))"

definition quote_char :: "char \<Rightarrow> string" where
  "quote_char c =
     (if c = dquote \<or> c = backslash then [backslash, c]
      else if c = CHR 0x07 then [backslash, CHR ''a'']
      else if c = CHR 0x08 then [backslash, CHR ''b'']
      else if c = CHR 0x0C then [backslash, CHR ''f'']
      else if c = CHR 0x0A then [backslash, CHR ''n'']
      else if c = CHR 0x0D then [backslash, CHR ''r'']
      else if c = CHR 0x09 then [backslash, CHR ''t'']
      else if c = CHR 0x0B then [backslash, CHR ''v'']
      else if of_char c < (32::nat) \<or> c = CHR 0x7F
        then [backslash, CHR ''x'', hex_digit (of_char c div 16), hex_digit (of_char c mod 16)]
      else [c])"

definition go_quote :: "string \<Rightarrow> string" where
  "go_quote s = dquote # concat (map quote_char s) @ [dquote]"

text \<open>
  \<^verbatim>\<open>time.Duration.String()\<close>: hours, minutes and seconds with a fraction without trailing
  zeros; below a second, the largest unit that keeps an integer part (the micro sign is
  \<open>0xC2 0xB5\<close> in UTF-8).
\<close>

fun frac_digits :: "nat \<Rightarrow> nat \<Rightarrow> string" where
  "frac_digits 0 v = []"
| "frac_digits (Suc n) v = frac_digits n (v div 10) @ [digit_char (v mod 10)]"

definition frac_str :: "nat \<Rightarrow> nat \<Rightarrow> string" where
  "frac_str prec v = (let ds = trimRight (CHR ''0'') (frac_digits prec v) in if ds = [] then [] else CHR ''.'' # ds)"

definition dur_str :: "int \<Rightarrow> string" where
  "dur_str d =
     (let u = nat \<bar>d\<bar>; secs = u div 1000000000; mins = secs div 60;
          body = (if u < 1000 then nat_str u @ ''ns''
            else if u < 1000000 then nat_str (u div 1000) @ frac_str 3 u @ [CHR 0xC2, CHR 0xB5, CHR ''s'']
            else if u < 1000000000 then nat_str (u div 1000000) @ frac_str 6 u @ ''ms''
            else (if mins div 60 > 0 then nat_str (mins div 60) @ ''h'' else []) @
                 (if mins > 0 then nat_str (mins mod 60) @ ''m'' else []) @
                 nat_str (secs mod 60) @ frac_str 9 u @ ''s'')
      in if d = 0 then ''0s'' else (if d < 0 then CHR ''-'' # body else body))"

text \<open>\<^verbatim>\<open>%v\<close> of a string slice.\<close>

definition go_list :: "string list \<Rightarrow> string" where
  "go_list xs = ''['' @ str_join '' '' xs @ '']''"

lemma trimSpace_idem: "trimSpace (trimSpace s) = trimSpace s"
proof -
  have "dropWhile is_space (rev (dropWhile is_space (rev t))) = rev (dropWhile is_space (rev t))" if "t = dropWhile is_space s" for t
  proof (cases "dropWhile is_space (rev t)")
    case (Cons a l)
    then have ne: "rev (dropWhile is_space (rev t)) \<noteq> []" by simp
    have "t = rev (dropWhile is_space (rev t)) @ rev (takeWhile is_space (rev t))"
      by (metis rev_append rev_rev_ident takeWhile_dropWhile_id)
    then have "hd (rev (dropWhile is_space (rev t))) = hd t" using ne by (metis hd_append2)
    moreover have "\<not> is_space (hd t)" using that ne by (metis hd_dropWhile dropWhile.simps(1) rev.simps(1))
    ultimately show ?thesis using ne by (metis dropWhile_eq_self_iff)
  next
    case Nil
    then show ?thesis unfolding Nil by simp
  qed
  then show ?thesis by (simp add: trimSpace_def)
qed

lemma hasPrefix_append [simp]: "hasPrefix (p @ s) p"
  by (simp add: hasPrefix_def)

lemma hasPrefix_iff: "hasPrefix s p \<longleftrightarrow> (\<exists>t. s = p @ t)"
proof
  assume "hasPrefix s p"
  then have "s = p @ drop (length p) s"
    by (metis append_take_drop_id hasPrefix_def)
  then show "\<exists>t. s = p @ t" ..
qed (auto simp: hasPrefix_def)

lemma str_contains_iff: "str_contains s p \<longleftrightarrow> (\<exists>a b. s = a @ p @ b)"
proof (induction s)
  case Nil
  then show ?case by simp
next
  case (Cons c s)
  show ?case
  proof
    assume "str_contains (c # s) p"
    then consider "hasPrefix (c # s) p" | "str_contains s p" by auto
    then show "\<exists>a b. c # s = a @ p @ b"
    proof cases
      case 1
      then obtain t where "c # s = [] @ p @ t" by (auto simp: hasPrefix_iff)
      then show ?thesis by blast
    next
      case 2
      with Cons.IH obtain a b where "c # s = (c # a) @ p @ b" by auto
      then show ?thesis by blast
    qed
  next
    assume "\<exists>a b. c # s = a @ p @ b"
    then obtain a b where ab: "c # s = a @ p @ b" by blast
    show "str_contains (c # s) p"
    proof (cases a)
      case Nil
      with ab have "hasPrefix (c # s) p" by (auto simp: hasPrefix_iff)
      then show ?thesis by simp
    next
      case (Cons x a')
      with ab have "s = a' @ p @ b" by simp
      with Cons.IH show ?thesis by auto
    qed
  qed
qed

lemma str_contains_mono: "str_contains s p \<Longrightarrow> str_contains (a @ s @ b) p"
proof -
  assume "str_contains s p"
  then obtain x y where "s = x @ p @ y" by (auto simp: str_contains_iff)
  then have "a @ s @ b = (a @ x) @ p @ (y @ b)" by simp
  then show ?thesis unfolding str_contains_iff by blast
qed

lemma split_on_plain: "c \<notin> set s \<Longrightarrow> split_on c s = [s]"
  by (induction s) auto

lemma split_on_append: "c \<notin> set s \<Longrightarrow> split_on c (s @ c # t) = s # split_on c t"
  by (induction s) auto

lemma split_on_join:
  "xs \<noteq> [] \<Longrightarrow> list_all (\<lambda>s. c \<notin> set s) xs \<Longrightarrow> split_on c (str_join [c] xs) = xs"
  by (induction "[c]" xs rule: str_join.induct) (simp_all add: split_on_plain split_on_append)

lemma split_on_not_Nil [simp]: "split_on c s \<noteq> []"
  by (induction s) (auto split: list.splits)

lemma split_on_pieces: "x \<in> set (split_on c s) \<Longrightarrow> c \<notin> set x"
  by (induction s arbitrary: x) (auto split: if_splits list.splits)

section \<open>Errors\<close>

text \<open>
  A Kubernetes API error as the program sees it: the HTTP code, the reason that the
  helpers of \<^verbatim>\<open>apierrors\<close> report (one constructor per helper the sources call), the
  retry-after hint (\<open>None\<close> when there are no details) and the text. The model never
  computes a reason; it is part of the value that the API returns.
\<close>

datatype status_reason =
    NotFound | AlreadyExists | Conflict | Forbidden | Unauthorized | BadRequest | Invalid
  | MethodNotSupported | ServerTimeout | ServiceUnavailable | TooManyRequests | Timeout
  | InternalError | OtherReason

record api_status =
  st_code :: int
  st_reason :: status_reason
  st_retryAfter :: "int option"
  st_text :: string

datatype goerr =
    ErrText string \<comment> \<open>\<^verbatim>\<open>fmt.Errorf\<close> or \<^verbatim>\<open>errors.New\<close> that wraps nothing\<close>
  | ErrSentinel string \<comment> \<open>a package variable compared with \<^verbatim>\<open>errors.Is\<close>\<close>
  | ErrStatus api_status
  | ErrEOF
  | ErrCanceled
  | ErrDeadline
  | ErrDiscovery string
  | ErrNoKindMatch string
  | ErrNoResourceMatch string
  | ErrExit int string \<comment> \<open>an SSH exit error: status and text\<close>
  | ErrWrap string goerr string \<comment> \<open>\<^verbatim>\<open>fmt.Errorf\<close> with one \<^verbatim>\<open>%w\<close>\<close>
  | ErrWrap2 string goerr string goerr string \<comment> \<open>\<^verbatim>\<open>fmt.Errorf\<close> with two \<^verbatim>\<open>%w\<close>\<close>
  | ErrJoin "goerr list" \<comment> \<open>\<^verbatim>\<open>errors.Join\<close> of a non-empty list\<close>

abbreviation wrapf :: "string \<Rightarrow> goerr \<Rightarrow> goerr" where
  "wrapf pre e \<equiv> ErrWrap pre e []"

fun error_text :: "goerr \<Rightarrow> string" where
  "error_text (ErrText s) = s"
| "error_text (ErrSentinel s) = s"
| "error_text (ErrStatus st) = st_text st"
| "error_text ErrEOF = ''EOF''"
| "error_text ErrCanceled = ''context canceled''"
| "error_text ErrDeadline = ''context deadline exceeded''"
| "error_text (ErrDiscovery s) = s"
| "error_text (ErrNoKindMatch s) = s"
| "error_text (ErrNoResourceMatch s) = s"
| "error_text (ErrExit n s) = s"
| "error_text (ErrWrap a e b) = a @ error_text e @ b"
| "error_text (ErrWrap2 a e b f c) = a @ error_text e @ b @ error_text f @ c"
| "error_text (ErrJoin es) = str_join [nl] (map error_text es)"

text \<open>The error and everything it wraps, in the order \<^verbatim>\<open>errors.As\<close> visits it.\<close>

fun unwrapped :: "goerr \<Rightarrow> goerr list" where
  "unwrapped (ErrWrap a e b) = ErrWrap a e b # unwrapped e"
| "unwrapped (ErrWrap2 a e b f c) = ErrWrap2 a e b f c # unwrapped e @ unwrapped f"
| "unwrapped (ErrJoin es) = ErrJoin es # concat (map unwrapped es)"
| "unwrapped e = [e]"

definition errors_is :: "goerr \<Rightarrow> goerr \<Rightarrow> bool" where
  "errors_is e target \<longleftrightarrow> target \<in> set (unwrapped e)"

fun status_leaf :: "goerr \<Rightarrow> api_status option" where
  "status_leaf (ErrStatus st) = Some st"
| "status_leaf e = None"

fun is_discovery_leaf :: "goerr \<Rightarrow> bool" where
  "is_discovery_leaf (ErrDiscovery s) = True"
| "is_discovery_leaf e = False"

fun is_nomatch_leaf :: "goerr \<Rightarrow> bool" where
  "is_nomatch_leaf (ErrNoKindMatch s) = True"
| "is_nomatch_leaf (ErrNoResourceMatch s) = True"
| "is_nomatch_leaf e = False"

fun is_exit_leaf :: "goerr \<Rightarrow> bool" where
  "is_exit_leaf (ErrExit n s) = True"
| "is_exit_leaf e = False"

definition as_status :: "goerr \<Rightarrow> api_status option" where
  "as_status e = (case List.map_filter status_leaf (unwrapped e) of [] \<Rightarrow> None | st # _ \<Rightarrow> Some st)"

definition as_exit :: "goerr \<Rightarrow> bool" where
  "as_exit e \<longleftrightarrow> list_ex is_exit_leaf (unwrapped e)"

definition has_reason :: "status_reason \<Rightarrow> goerr \<Rightarrow> bool" where
  "has_reason r e \<longleftrightarrow> (case as_status e of None \<Rightarrow> False | Some st \<Rightarrow> st_reason st = r)"

text \<open>The helpers of \<^verbatim>\<open>apierrors\<close> on a possibly nil error.\<close>

definition is_reason :: "status_reason \<Rightarrow> goerr option \<Rightarrow> bool" where
  "is_reason r e \<longleftrightarrow> (case e of None \<Rightarrow> False | Some x \<Rightarrow> has_reason r x)"

lemma as_status_wrap [simp]: "as_status (ErrWrap a e b) = as_status e"
  by (simp add: as_status_def List.map_filter_simps)

lemma as_status_status [simp]: "as_status (ErrStatus st) = Some st"
  by (simp add: as_status_def List.map_filter_simps)

lemma has_reason_wrap [simp]: "has_reason r (ErrWrap a e b) = has_reason r e"
  by (simp add: has_reason_def)

lemma errors_is_wrap: "errors_is e t \<Longrightarrow> errors_is (ErrWrap a e b) t"
  by (simp add: errors_is_def)

lemma is_reason_simps [simp]:
  "is_reason r None = False"
  "is_reason r (Some e) = has_reason r e"
  by (simp_all add: is_reason_def)

lemma is_reason_wrap [simp]: "is_reason q (map_option (wrapf pre) r) = is_reason q r"
  by (cases r) simp_all

section \<open>Effects\<close>

record ('ev, 'e) world =
  tr :: "'ev list"
  est :: 'e

type_synonym ('ev, 'e, 'a) io = "('ev, 'e) world \<Rightarrow> ('a \<times> ('ev, 'e) world) option"

definition io_ret :: "'a \<Rightarrow> ('ev, 'e, 'a) io" where
  "io_ret x = (\<lambda>w. Some (x, w))"

definition io_bind :: "('ev, 'e, 'a) io \<Rightarrow> ('a \<Rightarrow> ('ev, 'e, 'b) io) \<Rightarrow> ('ev, 'e, 'b) io" where
  "io_bind m f = (\<lambda>w. case m w of None \<Rightarrow> None | Some (x, w') \<Rightarrow> f x w')"

text \<open>\<^verbatim>\<open>x, err := m(); if err != nil { return wrap(err) }\<close>, then the rest.\<close>

definition io_try ::
  "('ev, 'e, goerr + 'a) io \<Rightarrow> (goerr \<Rightarrow> goerr) \<Rightarrow> ('a \<Rightarrow> ('ev, 'e, goerr + 'b) io)
   \<Rightarrow> ('ev, 'e, goerr + 'b) io" where
  "io_try m wrap k = io_bind m (\<lambda>r. case r of Inl e \<Rightarrow> io_ret (Inl (wrap e)) | Inr x \<Rightarrow> k x)"

text \<open>A deferred action: it runs after the body and does not change its result.\<close>

definition io_finally :: "('ev, 'e, 'a) io \<Rightarrow> ('ev, 'e, unit) io \<Rightarrow> ('ev, 'e, 'a) io" where
  "io_finally m c = io_bind m (\<lambda>r. io_bind c (\<lambda>_. io_ret r))"

text \<open>
  A call to something outside the program: \<open>f\<close> answers from the outside state, and the
  event \<open>ev\<close>, built from the answer, is appended to the trace.
\<close>

definition call :: "('a \<Rightarrow> 'ev) \<Rightarrow> ('e \<Rightarrow> 'a \<times> 'e) \<Rightarrow> ('ev, 'e, 'a) io" where
  "call ev f = (\<lambda>w. let (r, s) = f (est w) in Some (r, w\<lparr>tr := tr w @ [ev r], est := s\<rparr>))"

text \<open>A question to the outside that is not worth an event (a clock, a context).\<close>

definition ask :: "('e \<Rightarrow> 'a \<times> 'e) \<Rightarrow> ('ev, 'e, 'a) io" where
  "ask f = (\<lambda>w. let (r, s) = f (est w) in Some (r, w\<lparr>est := s\<rparr>))"

definition wrap_left :: "string \<Rightarrow> goerr + 'a \<Rightarrow> goerr + 'a" where
  "wrap_left pre r = (case r of Inl e \<Rightarrow> Inl (wrapf pre e) | Inr x \<Rightarrow> Inr x)"

text \<open>
  The two shapes of a method of an API client: a read whose error is wrapped, and a write whose
  error is wrapped.
\<close>

definition get_op :: "string \<Rightarrow> (goerr + 'a \<Rightarrow> 'ev) \<Rightarrow> ('e \<Rightarrow> (goerr + 'a) \<times> 'e) \<Rightarrow> ('ev, 'e, goerr + 'a) io" where
  "get_op pre ev f = io_bind (call ev f) (\<lambda>r. io_ret (wrap_left pre r))"

definition put_op :: "string \<Rightarrow> (goerr option \<Rightarrow> 'ev) \<Rightarrow> ('e \<Rightarrow> goerr option \<times> 'e) \<Rightarrow> ('ev, 'e, goerr option) io" where
  "put_op pre ev f = io_bind (call ev f) (\<lambda>r. io_ret (map_option (wrapf pre) r))"

lemma io_ret_apply [io_simps]: "io_ret x w = Some (x, w)"
  by (simp add: io_ret_def)

lemma io_bind_apply [io_simps]:
  "io_bind m f w = (case m w of None \<Rightarrow> None | Some (x, w') \<Rightarrow> f x w')"
  by (simp add: io_bind_def)

lemma io_try_apply [io_simps]:
  "io_try m wrap k w =
     (case m w of None \<Rightarrow> None
      | Some (Inl e, w') \<Rightarrow> Some (Inl (wrap e), w')
      | Some (Inr x, w') \<Rightarrow> k x w')"
  by (auto simp: io_try_def io_bind_def io_ret_def split: option.splits sum.splits)

lemma io_finally_apply [io_simps]:
  "io_finally m c w =
     (case m w of None \<Rightarrow> None
      | Some (r, w') \<Rightarrow> (case c w' of None \<Rightarrow> None | Some (_, w'') \<Rightarrow> Some (r, w'')))"
  by (auto simp: io_finally_def io_bind_def io_ret_def split: option.splits)

lemma call_apply [io_simps]:
  "call ev f w = Some (fst (f (est w)), w\<lparr>tr := tr w @ [ev (fst (f (est w)))], est := snd (f (est w))\<rparr>)"
  by (simp add: call_def case_prod_beta Let_def)

lemma ask_apply [io_simps]:
  "ask f w = Some (fst (f (est w)), w\<lparr>est := snd (f (est w))\<rparr>)"
  by (simp add: ask_def case_prod_beta Let_def)

lemma get_op_apply [io_simps]:
  "get_op pre ev f w = Some (wrap_left pre (fst (f (est w))),
     w\<lparr>tr := tr w @ [ev (fst (f (est w)))], est := snd (f (est w))\<rparr>)"
  by (simp add: get_op_def io_bind_apply call_apply io_ret_apply)

lemma put_op_apply [io_simps]:
  "put_op pre ev f w = Some (map_option (wrapf pre) (fst (f (est w))),
     w\<lparr>tr := tr w @ [ev (fst (f (est w)))], est := snd (f (est w))\<rparr>)"
  by (simp add: put_op_def io_bind_apply call_apply io_ret_apply)

text \<open>The monad laws: sequencing in the model is the sequencing of the statements.\<close>

lemma io_bind_ret_left: "io_bind (io_ret x) f = f x"
  by (simp add: fun_eq_iff io_simps)

lemma io_bind_ret_right: "io_bind m io_ret = m"
  by (simp add: fun_eq_iff io_simps split: option.splits)

lemma io_bind_assoc: "io_bind (io_bind m f) g = io_bind m (\<lambda>x. io_bind (f x) g)"
  by (simp add: fun_eq_iff io_simps split: option.splits)

subsection \<open>Loops\<close>

text \<open>
  \<^verbatim>\<open>for { body }\<close>: the body either returns from the function (\<open>Inl\<close>) or goes on with
  new values of the variables it assigns (\<open>Inr\<close>). The loop may not end.
\<close>

partial_function (option) loop ::
  "('s \<Rightarrow> 'w \<Rightarrow> (('r + 's) \<times> 'w) option) \<Rightarrow> 's \<Rightarrow> 'w \<Rightarrow> ('r \<times> 'w) option" where
  "loop body s w =
     Option.bind (body s w) (\<lambda>(x, w'). case x of Inl r \<Rightarrow> Some (r, w') | Inr s' \<Rightarrow> loop body s' w')"

lemma loop_unfold:
  "loop body s w =
     (case body s w of None \<Rightarrow> None
      | Some (Inl r, w') \<Rightarrow> Some (r, w')
      | Some (Inr s', w') \<Rightarrow> loop body s' w')"
  by (subst loop.simps) (auto split: option.splits sum.splits)

lemma loop_stop: "body s w = Some (Inl r, w') \<Longrightarrow> loop body s w = Some (r, w')"
  by (subst loop_unfold) simp

lemma loop_next: "body s w = Some (Inr s', w') \<Longrightarrow> loop body s w = loop body s' w'"
  by (subst loop_unfold) simp

text \<open>Partial correctness: the iterations of a loop that returned.\<close>

lemma loop_induct [consumes 1, case_names stop step]:
  assumes ret: "loop body s w = Some (r, w')"
    and stop: "\<And>s w r w'. body s w = Some (Inl r, w') \<Longrightarrow> P s w r w'"
    and step: "\<And>s w s1 w1 r w'. body s w = Some (Inr s1, w1) \<Longrightarrow> loop body s1 w1 = Some (r, w')
                 \<Longrightarrow> P s1 w1 r w' \<Longrightarrow> P s w r w'"
  shows "P s w r w'"
proof -
  let ?Q = "\<lambda>b s w x. b = body \<longrightarrow> (loop body s w = Some x \<and> P s w (fst x) (snd x))"
  have "?Q body s w (r, w')"
  proof (rule loop.raw_induct [where P = ?Q, OF _ ret])
    fix f b s w x
    assume IH: "\<And>b s w x. f b s w = Some x \<Longrightarrow> ?Q b s w x"
      and eq: "Option.bind (b s w)
         (\<lambda>(x, w'). case x of Inl r \<Rightarrow> Some (r, w') | Inr s' \<Rightarrow> f b s' w') = Some x"
    show "?Q b s w x"
    proof
      assume b: "b = body"
      from eq obtain y w1 where y: "b s w = Some (y, w1)"
        by (auto simp: bind_eq_Some_conv)
      show "loop body s w = Some x \<and> P s w (fst x) (snd x)"
      proof (cases y)
        case (Inl r')
        with eq y have "x = (r', w1)" by simp
        with Inl y b show ?thesis by (auto intro: stop loop_stop)
      next
        case (Inr s')
        with eq y have "f b s' w1 = Some x" by simp
        from IH [OF this] b have "loop body s' w1 = Some x \<and> P s' w1 (fst x) (snd x)" by simp
        with Inr y b show ?thesis
          by (cases x) (auto intro: step simp: loop_next)
      qed
    qed
  qed
  then show ?thesis by simp
qed

text \<open>Total correctness: a measure that every iteration decreases, under an invariant.\<close>

lemma loop_terminates:
  assumes inv: "I s w"
    and body: "\<And>s w. I s w \<Longrightarrow> (\<exists>r w'. body s w = Some (Inl r, w')) \<or>
       (\<exists>s' w'. body s w = Some (Inr s', w') \<and> I s' w' \<and> f s' w' < (f s w :: nat))"
  shows "\<exists>r w'. loop body s w = Some (r, w')"
  using inv
proof (induction "f s w" arbitrary: s w rule: less_induct)
  case less
  from body [OF less.prems] consider
    (stop) r w' where "body s w = Some (Inl r, w')"
    | (step) s' w' where "body s w = Some (Inr s', w')" "I s' w'" "f s' w' < f s w"
    by blast
  then show ?case
  proof cases
    case stop
    then show ?thesis by (auto dest: loop_stop)
  next
    case step
    with less.hyps [of s' w'] show ?thesis by (simp add: loop_next)
  qed
qed

subsection \<open>Which calls a computation makes\<close>

text \<open>
  \<open>only_calls P m\<close>: whenever \<open>m\<close> returns, it has only appended to the trace, and every event
  it appended satisfies \<open>P\<close>.
\<close>

definition only_calls :: "('ev \<Rightarrow> bool) \<Rightarrow> ('ev, 'e, 'a) io \<Rightarrow> bool" where
  "only_calls P m \<longleftrightarrow> (\<forall>w r w'. m w = Some (r, w') \<longrightarrow> (\<exists>t. tr w' = tr w @ t \<and> list_all P t))"

lemma only_callsI:
  "(\<And>w r w'. m w = Some (r, w') \<Longrightarrow> \<exists>t. tr w' = tr w @ t \<and> list_all P t) \<Longrightarrow> only_calls P m"
  by (auto simp: only_calls_def)

lemma only_callsD:
  "only_calls P m \<Longrightarrow> m w = Some (r, w') \<Longrightarrow> \<exists>t. tr w' = tr w @ t \<and> list_all P t"
  by (auto simp: only_calls_def)

lemma only_calls_ret [calls_intros]: "only_calls P (io_ret x)"
  by (auto simp: only_calls_def io_simps)

lemma only_calls_bind [calls_intros]:
  assumes "only_calls P m" and "\<And>x. only_calls P (f x)"
  shows "only_calls P (io_bind m f)"
proof (rule only_callsI)
  fix w r w'
  assume "io_bind m f w = Some (r, w')"
  then obtain x w1 where m: "m w = Some (x, w1)" and f: "f x w1 = Some (r, w')"
    by (auto simp: io_simps split: option.splits)
  from only_callsD [OF assms(1) m] only_callsD [OF assms(2) f]
  show "\<exists>t. tr w' = tr w @ t \<and> list_all P t" by fastforce
qed

lemma only_calls_try [calls_intros]:
  assumes "only_calls P m" and "\<And>x. only_calls P (k x)"
  shows "only_calls P (io_try m wrap k)"
  unfolding io_try_def
  by (rule only_calls_bind [OF assms(1)])
    (auto split: sum.splits intro: only_calls_ret assms(2))

lemma only_calls_finally [calls_intros]:
  "only_calls P m \<Longrightarrow> only_calls P c \<Longrightarrow> only_calls P (io_finally m c)"
  unfolding io_finally_def by (intro calls_intros)

lemma only_calls_call [calls_intros]: "(\<And>r. P (ev r)) \<Longrightarrow> only_calls P (call ev f)"
  by (auto simp: only_calls_def io_simps)

lemma only_calls_get_op [calls_intros]: "(\<And>r. P (ev r)) \<Longrightarrow> only_calls P (get_op pre ev f)"
  unfolding get_op_def by (intro calls_intros)

lemma only_calls_put_op [calls_intros]: "(\<And>r. P (ev r)) \<Longrightarrow> only_calls P (put_op pre ev f)"
  unfolding put_op_def by (intro calls_intros)

lemma only_calls_ask [calls_intros]: "only_calls P (ask f)"
  by (auto simp: only_calls_def io_simps)

lemma only_calls_if [calls_intros]:
  "(b \<Longrightarrow> only_calls P m) \<Longrightarrow> (\<not> b \<Longrightarrow> only_calls P m') \<Longrightarrow> only_calls P (if b then m else m')"
  by simp

lemma only_calls_mono: "only_calls P m \<Longrightarrow> (\<And>x. P x \<Longrightarrow> Q x) \<Longrightarrow> only_calls Q m"
  unfolding only_calls_def by (metis list_all_iff)

lemma only_calls_loop [calls_intros]:
  assumes "\<And>s. only_calls P (body s)"
  shows "only_calls P (loop body s)"
proof (rule only_callsI)
  fix w r w'
  assume "loop body s w = Some (r, w')"
  then show "\<exists>t. tr w' = tr w @ t \<and> list_all P t"
  proof (induction rule: loop_induct)
    case (stop s w r w')
    then show ?case by (rule only_callsD [OF assms])
  next
    case (step s w s1 w1 r w')
    with only_callsD [OF assms step(1)] show ?case by fastforce
  qed
qed


text \<open>
  More generally, \<open>emits Q m\<close>: the events that \<open>m\<close> appends, in order, satisfy \<open>Q\<close>. For a
  property that is closed under concatenation, sequencing preserves it.
\<close>

definition emits :: "('ev list \<Rightarrow> bool) \<Rightarrow> ('ev, 'e, 'a) io \<Rightarrow> bool" where
  "emits Q m \<longleftrightarrow> (\<forall>w r w'. m w = Some (r, w') \<longrightarrow> (\<exists>t. tr w' = tr w @ t \<and> Q t))"

definition closed_trace :: "('ev list \<Rightarrow> bool) \<Rightarrow> bool" where
  "closed_trace Q \<longleftrightarrow> Q [] \<and> (\<forall>s t. Q s \<longrightarrow> Q t \<longrightarrow> Q (s @ t))"

lemma emitsI:
  "(\<And>w r w'. m w = Some (r, w') \<Longrightarrow> \<exists>t. tr w' = tr w @ t \<and> Q t) \<Longrightarrow> emits Q m"
  by (auto simp: emits_def)

lemma emitsD: "emits Q m \<Longrightarrow> m w = Some (r, w') \<Longrightarrow> \<exists>t. tr w' = tr w @ t \<and> Q t"
  by (auto simp: emits_def)

lemma only_calls_emits: "only_calls P m \<longleftrightarrow> emits (list_all P) m"
  by (simp add: only_calls_def emits_def)

lemma closed_trace_list_all: "closed_trace (list_all P)"
  by (simp add: closed_trace_def)

lemma closed_traceD: "closed_trace Q \<Longrightarrow> Q s \<Longrightarrow> Q t \<Longrightarrow> Q (s @ t)"
  by (auto simp: closed_trace_def)

lemma emits_silent:
  "closed_trace Q \<Longrightarrow> (\<And>w r w'. m w = Some (r, w') \<Longrightarrow> tr w' = tr w) \<Longrightarrow> emits Q m"
  by (fastforce simp: emits_def closed_trace_def)

lemma emits_ret: "closed_trace Q \<Longrightarrow> emits Q (io_ret x)"
  by (rule emits_silent) (auto simp: io_simps)

lemma emits_ask: "closed_trace Q \<Longrightarrow> emits Q (ask f)"
  by (rule emits_silent) (auto simp: io_simps)

lemma emits_call: "(\<And>r. Q [ev r]) \<Longrightarrow> emits Q (call ev f)"
  by (auto simp: emits_def io_simps)

lemma emits_bind:
  assumes Q: "closed_trace Q" and m: "emits Q m" and f: "\<And>x. emits Q (f x)"
  shows "emits Q (io_bind m f)"
proof (rule emitsI)
  fix w r w'
  assume "io_bind m f w = Some (r, w')"
  then obtain x w1 where "m w = Some (x, w1)" "f x w1 = Some (r, w')"
    by (auto simp: io_simps split: option.splits)
  with emitsD [OF m] emitsD [OF f] closed_traceD [OF Q] show "\<exists>t. tr w' = tr w @ t \<and> Q t"
    by (metis append_assoc)
qed

lemma emits_loop:
  assumes Q: "closed_trace Q" and body: "\<And>s. emits Q (body s)"
  shows "emits Q (loop body s)"
proof (rule emitsI)
  fix w r w'
  assume "loop body s w = Some (r, w')"
  then show "\<exists>t. tr w' = tr w @ t \<and> Q t"
  proof (induction rule: loop_induct)
    case (stop s w r w')
    then show ?case by (rule emitsD [OF body])
  next
    case (step s w s1 w1 r w')
    with emitsD [OF body step(1)] closed_traceD [OF Q] show ?case by (metis append_assoc)
  qed
qed

end
