(* ===== verification/Cluster_API.thy ===== *)
theory Cluster_API
  imports Prelude Complex_Main "HOL-Library.Word"
begin

text \<open>
  What the program sees of the systems it drives: the Go runtime's clocks and contexts,
  the Kubernetes objects of the base and the test cluster, and the client operations,
  which are parameters of the model (records of functions on an arbitrary outside state).
  An object has the fields the sources read or write; a value of a third-party type is
  represented by what the sources observe of it (a phase by the constant it equals and
  the text it prints, a quantity by its value and its text).
\<close>

section \<open>Time and contexts\<close>

text \<open>Durations and instants are nanoseconds.\<close>

definition second :: int where "second = 1000000000"
definition minute :: int where "minute = 60 * second"

datatype ctx =
    CtxRoot
  | CtxTimeout ctx int \<comment> \<open>\<^verbatim>\<open>context.WithTimeout\<close>\<close>
  | CtxGroup ctx \<comment> \<open>the context of \<^verbatim>\<open>errgroup.WithContext\<close>\<close>
  | CtxWithoutCancel ctx

text \<open>
  The runtime: \<^verbatim>\<open>time.Now()\<close>, \<^verbatim>\<open>ctx.Err()\<close>, and the \<^verbatim>\<open>select\<close> between
  \<^verbatim>\<open>ctx.Done()\<close> and a timer or ticker of the given period, which answers the context's
  error when the first case is taken and nothing when the timer fired. \<open>rt_order\<close> gives the
  priorities by which the goroutines of a group finish.
\<close>

record 'e runtime =
  rt_now :: "'e \<Rightarrow> int \<times> 'e"
  rt_ctxErr :: "ctx \<Rightarrow> 'e \<Rightarrow> goerr option \<times> 'e"
  rt_select :: "ctx \<Rightarrow> int \<Rightarrow> 'e \<Rightarrow> goerr option \<times> 'e"
  rt_order :: "'e \<Rightarrow> nat \<Rightarrow> nat"

section \<open>Objects\<close>

record objmeta =
  om_name :: string
  om_namespace :: string
  om_labels :: "string \<rightharpoonup> string"

text \<open>
  \<^verbatim>\<open>resource.Quantity\<close>: its value in units of \<open>10\<^sup>-\<^sup>9\<close>, the finest it distinguishes,
  and what \<^verbatim>\<open>String()\<close> prints.
\<close>

record quantity =
  q_val :: int
  q_text :: string

type_synonym i32 = "32 word"

text \<open>\<^verbatim>\<open>coordination.k8s.io/v1 Lease\<close>.\<close>

record lease =
  ls_uid :: string
  ls_resourceVersion :: string
  ls_labels :: "string \<rightharpoonup> string"
  ls_annotations :: "string \<rightharpoonup> string"
  ls_holderIdentity :: "string option"
  ls_durationSeconds :: "i32 option"
  ls_acquireTime :: "int option"
  ls_renewTime :: "int option"
  ls_transitions :: "i32 option"

datatype disk_phase = DiskReady | DiskWaitForFirstConsumer | DiskFailed | DiskLost | DiskOther

record condition =
  cond_type :: string
  cond_status :: string
  cond_reason :: string
  cond_message :: string

record vdisk =
  vd_meta :: objmeta
  vd_size :: "quantity option"
  vd_storageClass :: "string option"
  vd_sourceCVI :: "string option"
  vd_phase :: disk_phase
  vd_phaseText :: string
  vd_capacity :: string
  vd_conditions :: "condition list"

datatype ref_kind = RefVirtualDisk | RefOther string

datatype attach_phase = AttachAttached | AttachFailed | AttachOther

record vmbda =
  ba_meta :: objmeta
  ba_vmName :: string
  ba_refKind :: ref_kind
  ba_refName :: string
  ba_phase :: attach_phase
  ba_phaseText :: string

datatype machine_phase = MachineRunning | MachineDegraded | MachineOther

record vmachine =
  vm_meta :: objmeta
  vm_className :: string
  vm_paravirtualization :: bool
  vm_runPolicy :: string
  vm_osType :: string
  vm_bootloader :: string
  vm_migrationPolicy :: string
  vm_cores :: int
  vm_coreFraction :: string
  vm_memory :: quantity
  vm_diskRefs :: "string list"
  vm_userData :: string
  vm_phase :: machine_phase
  vm_ipAddress :: string

datatype image_phase = ImageReady | ImageFailed | ImageLost | ImageOther

record cvimage =
  cvi_meta :: objmeta
  cvi_url :: string
  cvi_phase :: image_phase
  cvi_phaseText :: string

datatype cpu_type = CPUTypeHost | CPUTypeOther string

datatype class_phase = ClassPhaseReady | ClassPhaseTerminating | ClassPhaseOther

text \<open>A class specification: the parts the program overrides, and the rest.\<close>

record vmclass_spec =
  cs_cpu :: cpu_type
  cs_nodeSelector :: "string list"
  cs_tolerations :: "string list"
  cs_rest :: "string list"

record vmclass =
  vc_meta :: objmeta
  vc_spec :: vmclass_spec
  vc_phase :: class_phase

record taint =
  tt_key :: string
  tt_value :: string
  tt_effect :: string

record knode =
  node_name :: string
  node_resourceVersion :: string
  node_labels :: "string \<rightharpoonup> string"
  node_taints :: "taint list"
  node_conditions :: "condition list"

text \<open>
  Pods, volume claims and ConfigMaps; a nil \<^verbatim>\<open>status.capacity\<close> is \<open>None\<close>. An \<^verbatim>\<open>unstructured.Unstructured\<close> object: its resource version, its deletion timestamp in RFC
  3339, its finalizers, and the string at each path of fields.
\<close>

record kpod =
  pod_name :: string
  pod_phase :: string
  pod_reason :: string
  pod_conditions :: "condition list"

record kpvc =
  pvc_name :: string
  pvc_phase :: string
  pvc_capacity :: "(string \<rightharpoonup> quantity) option"

record kconfigmap =
  cm_name :: string
  cm_namespace :: string
  cm_labels :: "string \<rightharpoonup> string"
  cm_data :: "string \<rightharpoonup> string"

record uobj =
  uo_resourceVersion :: string
  uo_deletionTimestamp :: "string option"
  uo_finalizers :: "string list"
  uo_strings :: "string list \<rightharpoonup> string"

text \<open>\<^verbatim>\<open>storage.k8s.io/v1 StorageClass\<close>.\<close>

record kstorageclass =
  sc_name :: string
  sc_labels :: "string \<rightharpoonup> string"
  sc_annotations :: "string \<rightharpoonup> string"
  sc_provisioner :: string
  sc_parameters :: "string \<rightharpoonup> string"
  sc_reclaimPolicy :: string
  sc_allowExpansion :: bool
  sc_bindingMode :: string

text \<open>An object as a manifest has it: what the program reads of it, and the rest.\<close>

record kmanifest =
  km_group :: string
  km_version :: string
  km_kind :: string
  km_name :: string
  km_namespace :: string
  km_resourceVersion :: string
  km_body :: string

text \<open>A decoded JSON or YAML value, the dynamic types behind \<^verbatim>\<open>interface{}\<close>.\<close>

datatype json = JNull | JBool bool | JNum rat | JStr string | JArr "json list" | JObj "(string \<times> json) list"

text \<open>Deckhouse's \<^verbatim>\<open>ModuleConfig\<close>, \<^verbatim>\<open>ModulePullOverride\<close> and \<^verbatim>\<open>Module\<close>.\<close>

record mc_spec =
  mcs_version :: int
  mcs_enabled :: "bool option"
  mcs_settings :: "(string \<times> json) list"

record mc_object =
  mco_name :: string
  mco_resourceVersion :: string
  mco_spec :: mc_spec

record mpo_spec =
  mps_imageTag :: string
  mps_scanInterval :: int
  mps_rollback :: bool

record mpo_object =
  mpo_name :: string
  mpo_resourceVersion :: string
  mpo_spec :: mpo_spec

record dmodule =
  dm_phase :: string
  dm_conditions :: "condition list"

record exec_result =
  er_stdout :: string
  er_stderr :: string
  er_exitCode :: int

text \<open>\<^verbatim>\<open>net/http\<close>: a request as it is sent, and a response with what could be read of its body.\<close>

record http_request =
  rq_method :: string
  rq_url :: string
  rq_headers :: "(string \<times> string) list"
  rq_body :: "string option"

record http_response =
  rs_status :: int
  rs_body :: string
  rs_readErr :: "goerr option"

section \<open>Events\<close>

text \<open>The calls that leave the program, with the answers they got.\<close>

datatype event =
    Waited ctx int
  | LeaseGet "goerr + lease"
  | LeaseCreate lease "goerr option"
  | LeaseUpdate lease "goerr option"
  | LeaseDelete string "goerr option"
  | VDGet string string "goerr + vdisk"
  | VDCreate vdisk "goerr option"
  | VDUpdate vdisk "goerr option"
  | VDDelete string string "goerr option"
  | VDList string "goerr + vdisk list"
  | VMGet string string "goerr + vmachine"
  | VMCreate vmachine "goerr option"
  | VMDelete string string "goerr option"
  | VMList string "goerr + vmachine list"
  | BAGet string string "goerr + vmbda"
  | BACreate vmbda "goerr option"
  | BADelete string string "goerr option"
  | CVIGet string "goerr + cvimage"
  | CVICreate cvimage "goerr option"
  | VCGet string "goerr + vmclass"
  | VCCreate vmclass "goerr option"
  | VMUpdate vmachine "goerr option"
  | BAList string "goerr + vmbda list"
  | BAUpdate vmbda "goerr option"
  | CVIList "goerr + cvimage list"
  | CVIUpdate cvimage "goerr option"
  | CVIDelete string "goerr option"
  | VCList "goerr + vmclass list"
  | VCDelete string "goerr option"
  | NodesList "goerr + knode list"
  | NodeGet string "goerr + knode"
  | NodeUpdate knode "goerr option"
  | PodList string string "goerr + kpod list"
  | PVCList string string "goerr + kpvc list"
  | PVCGet string string "goerr + kpvc"
  | PVCPatch string string string "goerr option"
  | ObjGet string string string "goerr + uobj"
  | ObjCreate string string kmanifest "goerr option"
  | ObjUpdate string string kmanifest "goerr option"
  | CMGet string string "goerr + kconfigmap"
  | CMCreate kconfigmap "goerr option"
  | CMDelete string string "goerr option"
  | SCGet string "goerr + kstorageclass"
  | SCList "goerr + kstorageclass list"
  | SCCreate kstorageclass "goerr option"
  | SecretGet string string "goerr + (string \<rightharpoonup> string)"
  | DeploymentGet string string "goerr + condition list"
  | MCGet string "goerr + mc_object"
  | MCCreate mc_object "goerr option"
  | MCUpdate mc_object "goerr option"
  | MPOGet string "goerr + mpo_object"
  | MPOCreate mpo_object "goerr option"
  | MPOUpdate mpo_object "goerr option"
  | ModuleGet string "goerr + dmodule"
  | Exec string string "exec_result \<times> goerr option"
  | Opened string "goerr option"
  | Closed string
  | KubeOp string "string list" "goerr option"
  | Http http_request "goerr + http_response"

type_synonym ('e, 'a) act = "(event, 'e, 'a) io"

definition ctxErr :: "'e runtime \<Rightarrow> ctx \<Rightarrow> ('e, goerr option) act" where
  "ctxErr rt c = ask (rt_ctxErr rt c)"

definition waitFor :: "'e runtime \<Rightarrow> ctx \<Rightarrow> int \<Rightarrow> ('e, goerr option) act" where
  "waitFor rt c d = call (\<lambda>r. Waited c d) (rt_select rt c d)"

definition timeNow :: "'e runtime \<Rightarrow> ('e, int) act" where
  "timeNow rt = ask (rt_now rt)"

lemma ctxErr_apply [io_simps]:
  "ctxErr rt c w = Some (fst (rt_ctxErr rt c (est w)), w\<lparr>est := snd (rt_ctxErr rt c (est w))\<rparr>)"
  by (simp add: ctxErr_def io_simps)

lemma waitFor_apply [io_simps]:
  "waitFor rt c d w = Some (fst (rt_select rt c d (est w)),
     w\<lparr>tr := tr w @ [Waited c d], est := snd (rt_select rt c d (est w))\<rparr>)"
  by (simp add: waitFor_def io_simps)

lemma timeNow_apply [io_simps]:
  "timeNow rt w = Some (fst (rt_now rt (est w)), w\<lparr>est := snd (rt_now rt (est w))\<rparr>)"
  by (simp add: timeNow_def io_simps)

lemma only_calls_ctxErr [calls_intros]: "only_calls P (ctxErr rt c)"
  by (simp add: ctxErr_def only_calls_ask)

lemma only_calls_waitFor [calls_intros]: "P (Waited c d) \<Longrightarrow> only_calls P (waitFor rt c d)"
  by (simp add: waitFor_def only_calls_call)

lemma only_calls_timeNow [calls_intros]: "only_calls P (timeNow rt)"
  by (simp add: timeNow_def only_calls_ask)

end
