(* ===== verification/Retry.thy ===== *)
theory Retry
  imports Cluster_API Complex_Main
begin

text \<open>
  \<^verbatim>\<open>pkg/retry/retry.go\<close>: the configuration, the classification of transient errors and
  the retry loop. Log lines are left out. \<open>Backoff\<close> is a rational: the products of the
  configurations in use stay far below \<open>2\<^sup>53\<close>, where \<^verbatim>\<open>float64\<close> computes them exactly.
\<close>

section \<open>Configuration\<close>

record retry_config =
  MaxRetries :: int
  InitialWait :: int
  MaxWait :: int
  Backoff :: rat

definition SSHRetryCount :: int where "SSHRetryCount = 10"
definition SSHRetryInitialDelay :: int where "SSHRetryInitialDelay = 2 * second"
definition SSHRetryMaxDelay :: int where "SSHRetryMaxDelay = 60 * second"

definition DefaultConfig :: retry_config where
  "DefaultConfig = \<lparr>MaxRetries = 10, InitialWait = 2 * second, MaxWait = 30 * second, Backoff = 3/2\<rparr>"

definition SSHConfig :: retry_config where
  "SSHConfig = \<lparr>MaxRetries = SSHRetryCount, InitialWait = SSHRetryInitialDelay,
     MaxWait = SSHRetryMaxDelay, Backoff = 2\<rparr>"

definition QuickConfig :: retry_config where
  "QuickConfig = \<lparr>MaxRetries = 3, InitialWait = 1 * second, MaxWait = 5 * second, Backoff = 2\<rparr>"

section \<open>Classification of errors\<close>

definition networkPatterns :: "string list" where
  "networkPatterns =
    [''TLS handshake timeout'', ''connection refused'', ''connection reset'',
     ''connection timed out'', ''i/o timeout'', ''EOF'', ''broken pipe'', ''no route to host'',
     ''network is unreachable'', ''net/http: request canceled'', ''context deadline exceeded'']"

definition k8sPatterns :: "string list" where
  "k8sPatterns =
    [''server is currently unable to handle the request'', ''ServiceUnavailable'',
     ''the server is currently unable to handle the request'',
     ''etcdserver: request timed out'', ''etcdserver: leader changed'',
     ''failed to get server groups'']"

definition sshPatterns :: "string list" where
  "sshPatterns =
    [''failed to create SSH session'', ''ssh: handshake failed'',
     ''ssh: unable to authenticate'', ''ssh: connection lost'', ''failed to dial'',
     ''use of closed network connection'']"

definition webhookPatterns :: "string list" where
  "webhookPatterns = [''failed calling webhook'', ''webhook'']"

definition allPatterns :: "string list" where
  "allPatterns = networkPatterns @ k8sPatterns @ sshPatterns @ webhookPatterns"

definition IsGroupDiscoveryFailedError :: "goerr \<Rightarrow> bool" where
  "IsGroupDiscoveryFailedError e \<longleftrightarrow>
     list_ex is_discovery_leaf (unwrapped e) \<or>
     str_contains (error_text e) ''unable to retrieve the complete list of server APIs''"

definition IsAPINotRegisteredError :: "goerr \<Rightarrow> bool" where
  "IsAPINotRegisteredError e \<longleftrightarrow>
     list_ex is_nomatch_leaf (unwrapped e) \<or> str_contains (error_text e) ''no matches for ''"

text \<open>The part of \<^verbatim>\<open>IsRetryable\<close> that looks at a status error.\<close>

definition retryable_status :: "goerr \<Rightarrow> bool" where
  "retryable_status e \<longleftrightarrow>
     (case as_status e of
        None \<Rightarrow> False
      | Some st \<Rightarrow>
          (st_code st \<ge> 500 \<and> st_code st \<noteq> 501) \<or> st_code st = 429 \<or>
          (case st_retryAfter st of None \<Rightarrow> False | Some n \<Rightarrow> n > 0))"

definition IsRetryable :: "goerr \<Rightarrow> bool" where
  "IsRetryable e \<longleftrightarrow>
     retryable_status e \<or>
     has_reason ServerTimeout e \<or> has_reason ServiceUnavailable e \<or>
     has_reason TooManyRequests e \<or> has_reason Timeout e \<or> has_reason InternalError e \<or>
     IsGroupDiscoveryFailedError e \<or>
     errors_is e ErrEOF \<or>
     list_ex (str_contains (error_text e)) allPatterns"

definition connectionPatterns :: "string list" where
  "connectionPatterns =
    [''failed to create SSH session'', ''ssh: handshake failed'', ''ssh: connection lost'',
     ''use of closed network connection'', ''connection refused'', ''connection reset'',
     ''broken pipe'', ''EOF'', ''i/o timeout'']"

definition IsSSHConnectionError :: "goerr \<Rightarrow> bool" where
  "IsSSHConnectionError e \<longleftrightarrow>
     list_ex (str_contains (error_text e)) connectionPatterns \<or> errors_is e ErrEOF"

definition WithRetryAfter :: "retry_config \<Rightarrow> goerr option \<Rightarrow> retry_config" where
  "WithRetryAfter cfg err =
     (case err of None \<Rightarrow> cfg
      | Some e \<Rightarrow>
         (case as_status e of None \<Rightarrow> cfg
          | Some st \<Rightarrow>
             (case st_retryAfter st of None \<Rightarrow> cfg
              | Some n \<Rightarrow>
                 (if n > 0 \<and> n * second > InitialWait cfg
                  then cfg\<lparr>InitialWait := n * second\<rparr> else cfg))))"

section \<open>The loop\<close>

text \<open>\<^verbatim>\<open>time.Duration(float64(wait) * cfg.Backoff)\<close> truncates towards zero.\<close>

definition trunc_rat :: "rat \<Rightarrow> int" where
  "trunc_rat q = (if q \<ge> 0 then \<lfloor>q\<rfloor> else \<lceil>q\<rceil>)"

definition next_wait :: "retry_config \<Rightarrow> int \<Rightarrow> int" where
  "next_wait cfg wait =
     (let w = trunc_rat (of_int wait * Backoff cfg) in if w > MaxWait cfg then MaxWait cfg else w)"

function do_loop ::
  "'e runtime \<Rightarrow> ctx \<Rightarrow> retry_config \<Rightarrow> ('e, 'a \<times> goerr option) act \<Rightarrow> int \<Rightarrow> int \<Rightarrow> 'a \<Rightarrow> goerr option
   \<Rightarrow> ('e, 'a \<times> goerr option) act" where
  "do_loop rt c cfg fn attempt wait result lastErr =
     (if attempt \<le> MaxRetries cfg then
        io_bind (ctxErr rt c) (\<lambda>ce. case ce of
          Some e \<Rightarrow> io_ret (result, Some e)
        | None \<Rightarrow> io_bind fn (\<lambda>(result', err). case err of
            None \<Rightarrow> io_ret (result', None)
          | Some e \<Rightarrow>
              if \<not> IsRetryable e then io_ret (result', Some e)
              else if attempt < MaxRetries cfg then
                io_bind (waitFor rt c wait) (\<lambda>d. case d of
                  Some e' \<Rightarrow> io_ret (result', Some e')
                | None \<Rightarrow> do_loop rt c cfg fn (attempt + 1) (next_wait cfg wait) result' (Some e))
              else do_loop rt c cfg fn (attempt + 1) wait result' (Some e)))
      else io_ret (result, lastErr))"
  by pat_completeness auto
termination
  by (relation "measure (\<lambda>(rt, c, cfg, fn, attempt, wait, result, lastErr).
        nat (MaxRetries cfg + 1 - attempt))") auto

declare do_loop.simps [simp del]

text \<open>\<^verbatim>\<open>Do\<close>; \<open>zero\<close> is the zero value of the result type.\<close>

definition Do :: "'a \<Rightarrow> 'e runtime \<Rightarrow> ctx \<Rightarrow> retry_config \<Rightarrow> ('e, 'a \<times> goerr option) act
    \<Rightarrow> ('e, 'a \<times> goerr option) act" where
  "Do zero rt c cfg fn = do_loop rt c cfg fn 0 (InitialWait cfg) zero None"

definition DoVoid :: "'e runtime \<Rightarrow> ctx \<Rightarrow> retry_config \<Rightarrow> ('e, goerr option) act
    \<Rightarrow> ('e, goerr option) act" where
  "DoVoid rt c cfg fn =
     io_bind (Do () rt c cfg (io_bind fn (\<lambda>err. io_ret ((), err)))) (\<lambda>(_, err). io_ret err)"

section \<open>Classifiers see through wrapping\<close>

text \<open>
  Callers wrap errors before they reach the loop; a classifier is only useful when
  wrapping does not hide what it looks for.
\<close>

locale error_classifier =
  fixes classify :: "goerr \<Rightarrow> bool"
  assumes under_wrap: "classify e \<Longrightarrow> classify (ErrWrap a e b)"
    and under_wrap2: "classify e \<Longrightarrow> classify (ErrWrap2 a e b f c)"
begin

lemma under_wraps: "classify e \<Longrightarrow> classify (foldr (\<lambda>(a, b) x. ErrWrap a x b) ws e)"
  by (induction ws) (auto intro: under_wrap)

lemma under_prefixes: "classify e \<Longrightarrow> classify (foldr wrapf ps e)"
  by (induction ps) (auto intro: under_wrap)

end

lemma unwrapped_self: "e \<in> set (unwrapped e)"
  by (cases e) auto

lemma as_status_wrap2:
  "as_status e = Some st \<Longrightarrow> as_status (ErrWrap2 a e b f c) = Some st"
  by (auto simp: as_status_def List.map_filter_simps List.map_filter_def split: list.splits)

lemma text_under_wrap:
  "list_ex (str_contains (error_text e)) ps \<Longrightarrow> list_ex (str_contains (error_text (ErrWrap a e b))) ps"
  by (induction ps) (auto intro: str_contains_mono)

lemma text_under_wrap2:
  "list_ex (str_contains (error_text e)) ps
   \<Longrightarrow> list_ex (str_contains (error_text (ErrWrap2 a e b f c))) ps"
  by (induction ps) (auto intro: str_contains_mono)

lemma has_reason_wrap2: "has_reason r e \<Longrightarrow> has_reason r (ErrWrap2 a e b f c)"
  by (auto simp: has_reason_def as_status_wrap2 split: option.splits)

lemma retryable_status_wrap2: "retryable_status e \<Longrightarrow> retryable_status (ErrWrap2 a e b f c)"
  by (auto simp: retryable_status_def as_status_wrap2 split: option.splits)

lemma retryable_status_wrap [simp]: "retryable_status (ErrWrap a e b) = retryable_status e"
  by (simp add: retryable_status_def)

lemma errors_is_wrap2: "errors_is e t \<Longrightarrow> errors_is (ErrWrap2 a e b f c) t"
  by (simp add: errors_is_def)

interpretation discovery: error_classifier IsGroupDiscoveryFailedError
  by unfold_locales
    (auto simp: IsGroupDiscoveryFailedError_def intro: str_contains_mono)

interpretation nomatch: error_classifier IsAPINotRegisteredError
  by unfold_locales (auto simp: IsAPINotRegisteredError_def intro: str_contains_mono)

interpretation sshconn: error_classifier IsSSHConnectionError
  unfolding error_classifier_def IsSSHConnectionError_def
  by (blast intro: text_under_wrap errors_is_wrap text_under_wrap2 errors_is_wrap2)

interpretation retryable: error_classifier IsRetryable
proof
  fix e a b f c
  assume e: "IsRetryable e"
  show "IsRetryable (ErrWrap a e b)"
    using e unfolding IsRetryable_def
    by (auto simp del: error_text.simps
          intro: discovery.under_wrap errors_is_wrap text_under_wrap)
  show "IsRetryable (ErrWrap2 a e b f c)"
    using e unfolding IsRetryable_def
    by (blast intro: retryable_status_wrap2 has_reason_wrap2 discovery.under_wrap2
          errors_is_wrap2 text_under_wrap2)
qed

section \<open>What the loop does\<close>

text \<open>The waits the configuration prescribes, and the errors a context can report.\<close>

fun wait_seq :: "retry_config \<Rightarrow> nat \<Rightarrow> int" where
  "wait_seq cfg 0 = InitialWait cfg"
| "wait_seq cfg (Suc i) = next_wait cfg (wait_seq cfg i)"

fun is_wait :: "event \<Rightarrow> bool" where
  "is_wait (Waited c d) = True"
| "is_wait _ = False"

definition ctx_error :: "'e runtime \<Rightarrow> ctx \<Rightarrow> goerr \<Rightarrow> bool" where
  "ctx_error rt c e \<longleftrightarrow>
     (\<exists>s. fst (rt_ctxErr rt c s) = Some e) \<or> (\<exists>d s. fst (rt_select rt c d s) = Some e)"

text \<open>
  \<open>retry_log cfg c ev a rs k t\<close>: the trace \<open>t\<close> of a run that starts at attempt \<open>a\<close> holds the
  attempts with the outcomes \<open>rs\<close> and \<open>k\<close> waits, every wait is the one prescribed for its
  position, and every attempt but the last failed with a retryable error.
\<close>

definition retry_log ::
  "retry_config \<Rightarrow> ctx \<Rightarrow> ('a \<times> goerr option \<Rightarrow> event) \<Rightarrow> nat \<Rightarrow> ('a \<times> goerr option) list \<Rightarrow> nat
   \<Rightarrow> event list \<Rightarrow> bool" where
  "retry_log cfg c ev a rs k t \<longleftrightarrow>
     filter is_wait t = map (\<lambda>i. Waited c (wait_seq cfg i)) [a..<a + k] \<and>
     filter (\<lambda>x. \<not> is_wait x) t = map ev rs \<and>
     k \<le> length rs \<and> length rs \<le> Suc k \<and> int (a + length rs) \<le> MaxRetries cfg + 1 \<and>
     (\<forall>r \<in> set (butlast rs). \<exists>e. snd r = Some e \<and> IsRetryable e)"

definition retry_outcome ::
  "'e runtime \<Rightarrow> ctx \<Rightarrow> retry_config \<Rightarrow> nat \<Rightarrow> ('a \<times> goerr option) list \<Rightarrow> 'a \<Rightarrow> goerr option \<Rightarrow> bool" where
  "retry_outcome rt c cfg a rs x err \<longleftrightarrow>
     (err = None \<and> rs \<noteq> [] \<and> last rs = (x, None)) \<or>
     (\<exists>e. err = Some e \<and> ctx_error rt c e) \<or>
     (\<exists>e. err = Some e \<and> rs \<noteq> [] \<and> last rs = (x, Some e) \<and>
        (IsRetryable e \<longrightarrow> int (a + length rs) = MaxRetries cfg + 1))"

lemma retry_log_Nil: "int a \<le> MaxRetries cfg + 1 \<Longrightarrow> retry_log cfg c ev a [] 0 []"
  by (simp add: retry_log_def)

lemma retry_log_one:
  "int a \<le> MaxRetries cfg \<Longrightarrow> \<not> is_wait (ev r) \<Longrightarrow> retry_log cfg c ev a [r] 0 [ev r]"
  by (simp add: retry_log_def)

lemma retry_log_one_wait:
  "int a \<le> MaxRetries cfg \<Longrightarrow> \<not> is_wait (ev r)
   \<Longrightarrow> retry_log cfg c ev a [r] 1 [ev r, Waited c (wait_seq cfg a)]"
  by (simp add: retry_log_def)

lemma retry_log_step:
  assumes log: "retry_log cfg c ev (Suc a) rs k t" and r: "snd r = Some e" "IsRetryable e"
    and ev: "\<not> is_wait (ev r)"
  shows "retry_log cfg c ev a (r # rs) (Suc k) (ev r # Waited c (wait_seq cfg a) # t)"
proof -
  have "[a..<a + Suc k] = a # [Suc a..<Suc a + k]"
    by (simp add: upt_conv_Cons)
  with log r ev show ?thesis by (auto simp: retry_log_def)
qed

lemma retry_outcome_step:
  "retry_outcome rt c cfg (Suc a) rs x err \<Longrightarrow> retry_outcome rt c cfg a (r # rs) x err"
  by (auto simp: retry_outcome_def)

lemma ctx_error_ctxErr: "fst (rt_ctxErr rt c s) = Some e \<Longrightarrow> ctx_error rt c e"
  and ctx_error_select: "fst (rt_select rt c d s) = Some e \<Longrightarrow> ctx_error rt c e"
  by (auto simp: ctx_error_def)

text \<open>One iteration, by the way it leaves the body.\<close>

lemma do_loop_ctx:
  assumes "a \<le> MaxRetries cfg" and "fst (rt_ctxErr rt c (est w)) = Some e"
  shows "do_loop rt c cfg fn a d x0 e0 w
     = Some ((x0, Some e), w\<lparr>est := snd (rt_ctxErr rt c (est w))\<rparr>)"
  using assms by (simp add: do_loop.simps [of rt c cfg] io_simps)

lemma do_loop_stop:
  assumes "a \<le> MaxRetries cfg" and "fst (rt_ctxErr rt c (est w)) = None"
    and "fn (w\<lparr>est := snd (rt_ctxErr rt c (est w))\<rparr>) = Some ((x, err), w')"
    and "\<And>e. err = Some e \<Longrightarrow> IsRetryable e \<Longrightarrow> a = MaxRetries cfg"
  shows "do_loop rt c cfg fn a d x0 e0 w = Some ((x, err), w')"
  using assms by (cases err) (auto simp: do_loop.simps [of rt c cfg] io_simps)

lemma do_loop_again:
  assumes "a < MaxRetries cfg" and "fst (rt_ctxErr rt c (est w)) = None"
    and "fn (w\<lparr>est := snd (rt_ctxErr rt c (est w))\<rparr>) = Some ((x, Some e), w1)" and "IsRetryable e"
    and "waitFor rt c d w1 = Some (done, w2)"
  shows "do_loop rt c cfg fn a d x0 e0 w =
     (case done of Some e' \<Rightarrow> Some ((x, Some e'), w2)
      | None \<Rightarrow> do_loop rt c cfg fn (a + 1) (next_wait cfg d) x (Some e) w2)"
  using assms
  by (simp add: do_loop.simps [of rt c cfg fn a] io_bind_apply ctxErr_apply io_ret_apply
        split: option.splits)

definition retry_spec ::
  "'e runtime \<Rightarrow> ctx \<Rightarrow> retry_config \<Rightarrow> ('a \<times> goerr option \<Rightarrow> event) \<Rightarrow> nat \<Rightarrow> event list \<Rightarrow> 'a
   \<Rightarrow> goerr option \<Rightarrow> bool" where
  "retry_spec rt c cfg ev a t x err \<longleftrightarrow>
     (\<exists>rs k. retry_log cfg c ev a rs k t \<and> retry_outcome rt c cfg a rs x err)"

lemma retry_spec_ctx:
  "int a \<le> MaxRetries cfg \<Longrightarrow> ctx_error rt c e \<Longrightarrow> retry_spec rt c cfg ev a [] x (Some e)"
  unfolding retry_spec_def retry_outcome_def using retry_log_Nil [of a cfg c ev] by fastforce

lemma retry_spec_stop:
  assumes "int a \<le> MaxRetries cfg" and "\<not> is_wait (ev (x, err))"
    and "\<And>e. err = Some e \<Longrightarrow> IsRetryable e \<Longrightarrow> int a = MaxRetries cfg"
  shows "retry_spec rt c cfg ev a [ev (x, err)] x err"
proof -
  have "retry_outcome rt c cfg a [(x, err)] x err"
    using assms(3) by (cases err) (auto simp: retry_outcome_def)
  with retry_log_one [OF assms(1), of ev "(x, err)" c] assms(2) show ?thesis
    by (auto simp: retry_spec_def)
qed

lemma retry_spec_done:
  "int a \<le> MaxRetries cfg \<Longrightarrow> \<not> is_wait (ev r) \<Longrightarrow> ctx_error rt c e
   \<Longrightarrow> retry_spec rt c cfg ev a [ev r, Waited c (wait_seq cfg a)] x (Some e)"
  using retry_log_one_wait [of a cfg ev r c] by (auto simp: retry_spec_def retry_outcome_def)

lemma retry_spec_again:
  assumes "retry_spec rt c cfg ev (Suc a) t x err" and "snd r = Some e" "IsRetryable e" "\<not> is_wait (ev r)"
  shows "retry_spec rt c cfg ev a (ev r # Waited c (wait_seq cfg a) # t) x err"
proof -
  from assms(1) obtain rs k where "retry_log cfg c ev (Suc a) rs k t"
    and out: "retry_outcome rt c cfg (Suc a) rs x err"
    by (auto simp: retry_spec_def)
  from retry_log_step [OF this(1) assms(2-4)] retry_outcome_step [OF out, of r]
  show ?thesis by (auto simp: retry_spec_def)
qed

lemma do_loop_spec:
  assumes ev: "\<And>r. \<not> is_wait (ev r)"
  shows "int a \<le> MaxRetries cfg
    \<Longrightarrow> do_loop rt c cfg (call ev f) (int a) (wait_seq cfg a) x0 e0 w = Some ((x, err), w')
    \<Longrightarrow> \<exists>t. tr w' = tr w @ t \<and> retry_spec rt c cfg ev a t x err"
proof (induction "nat (MaxRetries cfg - int a)" arbitrary: a x0 e0 w rule: less_induct)
  case (less a)
  note a = less.prems(1) and run = less.prems(2)
  show ?case
  proof (cases "fst (rt_ctxErr rt c (est w))")
    case (Some e)
    with do_loop_ctx [OF a Some, of "call ev f"] run
      retry_spec_ctx [OF a ctx_error_ctxErr [OF Some], of ev x]
    show ?thesis by auto
  next
    case None
    obtain x1 e1 where r: "fst (f (snd (rt_ctxErr rt c (est w)))) = (x1, e1)" by fastforce
    let ?w1 = "w\<lparr>tr := tr w @ [ev (x1, e1)], est := snd (f (snd (rt_ctxErr rt c (est w))))\<rparr>"
    have fn: "call ev f (w\<lparr>est := snd (rt_ctxErr rt c (est w))\<rparr>) = Some ((x1, e1), ?w1)"
      by (simp add: io_simps r)
    show ?thesis
    proof (cases "\<exists>e. e1 = Some e \<and> IsRetryable e \<and> int a < MaxRetries cfg")
      case False
      with a have last: "\<And>e. e1 = Some e \<Longrightarrow> IsRetryable e \<Longrightarrow> int a = MaxRetries cfg" by force
      from do_loop_stop [where fn = "call ev f", OF a None fn last] run
        retry_spec_stop [where rt = rt and c = c and x = x1 and ev = ev, OF a ev last]
      show ?thesis by auto
    next
      case True
      then obtain e where e: "e1 = Some e" "IsRetryable e" and lt: "int a < MaxRetries cfg" by blast
      obtain d w2 where d: "waitFor rt c (wait_seq cfg a) ?w1 = Some (d, w2)"
        by (simp add: io_simps)
      then have t2: "tr w2 = tr w @ [ev (x1, e1), Waited c (wait_seq cfg a)]"
        and de: "\<And>e'. d = Some e' \<Longrightarrow> ctx_error rt c e'"
        by (auto simp: io_simps intro: ctx_error_select)
      note step = do_loop_again [where fn = "call ev f", OF lt None fn [unfolded e(1)] e(2)
          d [unfolded e(1)], of x0 e0, unfolded run]
      show ?thesis
      proof (cases d)
        case (Some e')
        with step e t2 retry_spec_done [where r = "(x1, e1)" and ev = ev and x = x, OF a ev de] show ?thesis by auto
      next
        case n: None
        with step have "do_loop rt c cfg (call ev f) (int (Suc a)) (wait_seq cfg (Suc a)) x1 (Some e) w2
            = Some ((x, err), w')"
          by (simp add: add.commute)
        with less.hyps [of "Suc a" x1 "Some e" w2] lt
        obtain t where "tr w' = tr w2 @ t" "retry_spec rt c cfg ev (Suc a) t x err" by auto
        with t2 retry_spec_again [where r = "(x1, e1)" and ev = ev, OF _ _ e(2) ev] e(1)
        show ?thesis by auto
      qed
    qed
  qed
qed

lemma do_loop_returns:
  assumes "\<And>w. \<exists>r w'. fn w = Some (r, w')"
  shows "\<exists>r w'. do_loop rt c cfg fn a d x0 e0 w = Some (r, w')"
proof (induction "nat (MaxRetries cfg + 1 - a)" arbitrary: a d x0 e0 w)
  case 0
  then show ?case by (simp add: do_loop.simps [of rt c cfg] io_simps)
next
  case (Suc n)
  then have a: "a \<le> MaxRetries cfg" and n: "n = nat (MaxRetries cfg + 1 - (a + 1))" by auto
  show ?case
  proof (cases "fst (rt_ctxErr rt c (est w))")
    case (Some e)
    with do_loop_ctx [OF a Some, of fn d x0 e0] show ?thesis by blast
  next
    case None
    obtain x err w1 where fn: "fn (w\<lparr>est := snd (rt_ctxErr rt c (est w))\<rparr>) = Some ((x, err), w1)"
      using assms by (metis surj_pair)
    obtain dn w2 where dn: "waitFor rt c d w1 = Some (dn, w2)" by (simp add: io_simps)
    show ?thesis
    proof (cases "\<exists>e. err = Some e \<and> IsRetryable e \<and> a < MaxRetries cfg")
      case False
      with a do_loop_stop [where fn = fn, OF a None fn, of d x0 e0] show ?thesis by force
    next
      case True
      with do_loop_again [where fn = fn, OF _ None _ _ dn] fn Suc(1) [OF n] show ?thesis
        by (auto split: option.splits)
    qed
  qed
qed

text \<open>The loop adds nothing but waits to what the operation does to the trace.\<close>

lemma emits_ctxErr: "closed_trace Q \<Longrightarrow> emits Q (ctxErr rt c)"
  by (simp add: ctxErr_def emits_ask)

lemma emits_waitFor: "Q [Waited c d] \<Longrightarrow> emits Q (waitFor rt c d)"
  by (simp add: waitFor_def emits_call)

lemma emits_do_loop:
  assumes Q: "closed_trace Q" and fn: "emits Q fn" and wait: "\<And>d. Q [Waited c d]"
  shows "emits Q (do_loop rt c cfg fn a d x0 e0)"
proof (induction "nat (MaxRetries cfg + 1 - a)" arbitrary: a d x0 e0)
  case 0
  then show ?case by (simp add: do_loop.simps [of rt c cfg] emits_ret [OF Q])
next
  case (Suc n)
  then have n: "n = nat (MaxRetries cfg + 1 - (a + 1))" by auto
  have beyond: "emits Q (do_loop rt c cfg fn (MaxRetries cfg + 1) d x0 e0)" for d x0 e0
    by (simp add: do_loop.simps [of rt c cfg] emits_ret [OF Q])
  show ?case
    by (subst do_loop.simps)
      (auto split: option.splits
        intro!: emits_bind [OF Q] emits_ret [OF Q] emits_ctxErr [OF Q] emits_waitFor wait fn
          Suc(1) [OF n] beyond)
qed

lemma emits_DoVoid:
  assumes Q: "closed_trace Q" and fn: "emits Q fn" and wait: "\<And>d. Q [Waited c d]"
  shows "emits Q (DoVoid rt c cfg fn)"
  unfolding DoVoid_def Do_def
  by (auto intro!: emits_bind [OF Q] emits_ret [OF Q] emits_do_loop [OF Q] fn wait)

section \<open>Bounds on the waits\<close>

lemma trunc_rat_of_int [simp]: "trunc_rat (of_int i) = i"
  by (simp add: trunc_rat_def)

lemma trunc_rat_ge: "i \<le> trunc_rat q" if "of_int i \<le> q" "0 \<le> i"
  using that by (auto simp: trunc_rat_def le_floor_iff)

lemma next_wait_le: "next_wait cfg d \<le> MaxWait cfg"
  by (simp add: next_wait_def Let_def)

lemma next_wait_ge:
  assumes "1 \<le> Backoff cfg" "0 \<le> d" "d \<le> MaxWait cfg"
  shows "d \<le> next_wait cfg d"
proof -
  have "of_int d * 1 \<le> of_int d * Backoff cfg"
    using assms by (intro mult_left_mono) auto
  then have "d \<le> trunc_rat (of_int d * Backoff cfg)"
    using assms by (intro trunc_rat_ge) auto
  with assms show ?thesis by (simp add: next_wait_def Let_def)
qed

lemma wait_seq_le:
  "InitialWait cfg \<le> MaxWait cfg \<Longrightarrow> wait_seq cfg i \<le> MaxWait cfg"
  by (cases i) (auto simp: next_wait_le)

lemma wait_seq_nonneg:
  assumes "1 \<le> Backoff cfg" "0 \<le> InitialWait cfg" "InitialWait cfg \<le> MaxWait cfg"
  shows "0 \<le> wait_seq cfg i"
proof (induction i)
  case (Suc i)
  with next_wait_ge [OF assms(1) Suc wait_seq_le [OF assms(3)]] show ?case by simp
qed (use assms in simp)

lemma wait_seq_Suc:
  assumes "1 \<le> Backoff cfg" "0 \<le> InitialWait cfg" "InitialWait cfg \<le> MaxWait cfg"
  shows "wait_seq cfg i \<le> wait_seq cfg (Suc i)"
  using next_wait_ge [OF assms(1) wait_seq_nonneg [OF assms] wait_seq_le [OF assms(3)]] by simp


lemma wait_seq_mono:
  assumes "1 \<le> Backoff cfg" "0 \<le> InitialWait cfg" "InitialWait cfg \<le> MaxWait cfg"
  shows "i \<le> j \<Longrightarrow> wait_seq cfg i \<le> wait_seq cfg j"
  by (rule lift_Suc_mono_le) (rule wait_seq_Suc [OF assms])

section \<open>Properties\<close>

text \<open>Sample environment of the witnesses: a clock that never expires the context, and an
  operation that fails with \<^verbatim>\<open>EOF\<close> a given number of times before it succeeds.\<close>

definition sample_rt :: "'e runtime" where
  "sample_rt = \<lparr>rt_now = (\<lambda>s. (0, s)), rt_ctxErr = (\<lambda>c s. (None, s)), rt_select = (\<lambda>c d s. (None, s)),
     rt_order = (\<lambda>s i. 0)\<rparr>"

definition sample_op :: "nat \<Rightarrow> (unit \<times> goerr option) \<times> nat" where
  "sample_op n = (if n = 0 then (((), None), 0) else (((), Some ErrEOF), n - 1))"

definition sample_ev :: "unit \<times> goerr option \<Rightarrow> event" where
  "sample_ev r = KubeOp ''sample'' [] (snd r)"

lemmas sample_defs = sample_rt_def sample_op_def sample_ev_def

lemma IsRetryable_EOF [simp]: "IsRetryable ErrEOF"
  by (simp add: IsRetryable_def errors_is_def)

text \<open>
  C11. What \<^verbatim>\<open>retry.Do\<close> does, for every operation, context and configuration that allows an
  attempt: it runs the operation at most \<open>MaxRetries + 1\<close> times; every run but the last failed
  with a retryable error; between two runs it waits once, for the durations the
  configuration prescribes, in order; and it returns the last run's success, the
  context's error, or the last run's error, where a retryable error means that all the
  attempts were used.
\<close>

theorem retry_do_spec:
  assumes "0 \<le> MaxRetries cfg" and "\<And>r. \<not> is_wait (ev r)"
    and "Do zero rt c cfg (call ev f) w = Some ((x, err), w')"
  shows "\<exists>t rs k. tr w' = tr w @ t \<and>
    filter (\<lambda>e. \<not> is_wait e) t = map ev rs \<and>
    filter is_wait t = map (\<lambda>i. Waited c (wait_seq cfg i)) [0..<k] \<and>
    int (length rs) \<le> MaxRetries cfg + 1 \<and> k \<le> length rs \<and> length rs \<le> Suc k \<and>
    (\<forall>r \<in> set (butlast rs). \<exists>e. snd r = Some e \<and> IsRetryable e) \<and>
    (err = None \<and> rs \<noteq> [] \<and> last rs = (x, None) \<or>
     (\<exists>e. err = Some e \<and> ctx_error rt c e) \<or>
     (\<exists>e. err = Some e \<and> rs \<noteq> [] \<and> last rs = (x, Some e) \<and>
        (IsRetryable e \<longrightarrow> int (length rs) = MaxRetries cfg + 1)))"
proof -
  have "do_loop rt c cfg (call ev f) (int 0) (wait_seq cfg 0) zero None w = Some ((x, err), w')"
    using assms(3) by (simp add: Do_def)
  from do_loop_spec [OF assms(2) _ this] assms(1)
  obtain t where t: "tr w' = tr w @ t" and spec: "retry_spec rt c cfg ev 0 t x err" by auto
  from spec obtain rs k where log: "retry_log cfg c ev 0 rs k t"
    and out: "retry_outcome rt c cfg 0 rs x err"
    unfolding retry_spec_def by blast
  show ?thesis
    by (rule exI [of _ t], rule exI [of _ rs], rule exI [of _ k])
      (use t log out in \<open>simp add: retry_log_def retry_outcome_def\<close>)
qed

theorem retry_do_spec_witness:
  "\<exists>w'. Do () sample_rt CtxRoot QuickConfig (call sample_ev sample_op) \<lparr>tr = [], est = 1\<rparr>
      = Some (((), None), w') \<and>
    (\<exists>t rs k. tr w' = [] @ t \<and> filter (\<lambda>e. \<not> is_wait e) t = map sample_ev rs \<and>
       filter is_wait t = map (\<lambda>i. Waited CtxRoot (wait_seq QuickConfig i)) [0..<k] \<and>
       int (length rs) \<le> MaxRetries QuickConfig + 1 \<and> rs \<noteq> [] \<and> last rs = ((), None))"
proof -
  let ?w = "\<lparr>tr = [], est = 1\<rparr> :: (event, nat) world"
  have run: "Do () sample_rt CtxRoot QuickConfig (call sample_ev sample_op) ?w = Some (((), None),
      \<lparr>tr = [sample_ev ((), Some ErrEOF), Waited CtxRoot second, sample_ev ((), None)], est = 0\<rparr>)"
    by (simp add: Do_def do_loop.simps io_simps QuickConfig_def sample_defs)
  have pos: "0 \<le> MaxRetries QuickConfig" by (simp add: QuickConfig_def)
  have ev: "\<And>r. \<not> is_wait (sample_ev r)" by (simp add: sample_defs)
  show ?thesis
    using retry_do_spec [OF pos ev run] run by fastforce
qed

text \<open>
  \<^verbatim>\<open>retry.Do\<close> terminates: when every run of the operation returns, the loop returns,
  whatever the context, the clock and the configuration.
\<close>

lemma retry_do_returns:
  assumes "\<And>w. \<exists>r w'. fn w = Some (r, w')"
  shows "\<exists>r w'. Do zero rt c cfg fn w = Some (r, w')"
  unfolding Do_def by (rule do_loop_returns [OF assms])

text \<open>
  The waits are bounded and never shrink: with a backoff of at least one and an initial
  wait between zero and the maximum, the \<open>i\<close>-th wait is at most the \<open>j\<close>-th for \<open>i \<le> j\<close>,
  none exceeds \<open>MaxWait\<close>, and \<open>k\<close> waits take at most \<open>k * MaxWait\<close>.
\<close>

lemma retry_wait_bounds:
  assumes "1 \<le> Backoff cfg" and "0 \<le> InitialWait cfg" and "InitialWait cfg \<le> MaxWait cfg"
  shows "(i \<le> j \<longrightarrow> wait_seq cfg i \<le> wait_seq cfg j) \<and>
    0 \<le> wait_seq cfg i \<and> wait_seq cfg i \<le> MaxWait cfg \<and>
    (\<Sum>n<k. wait_seq cfg n) \<le> int k * MaxWait cfg"
proof -
  have "(\<Sum>n<k. wait_seq cfg n) \<le> (\<Sum>n<k. MaxWait cfg)"
    by (intro sum_mono wait_seq_le assms(3))
  then show ?thesis
    using wait_seq_mono [OF assms] wait_seq_nonneg [OF assms] wait_seq_le [OF assms(3)] by simp
qed

end
