(* ===== verification/Lease_Lock.thy ===== *)
theory Lease_Lock
  imports Retry
begin

text \<open>
  \<^verbatim>\<open>internal/kubernetes/clusterlock/lease.go\<close>: the cluster lock kept in a
  \<^verbatim>\<open>coordination.k8s.io/v1\<close> Lease. The clientset's lease operations are a parameter. The
  renewal goroutine is the separate computation \<open>renewLoop\<close>; how it interleaves with other
  runs is the subject of \<open>Lease_Protocol\<close>.
\<close>

section \<open>State and parameters\<close>

definition LeaseName :: string where "LeaseName = ''e2e-cluster-lock''"
definition Namespace :: string where "Namespace = ''default''"
definition DefaultLeaseDuration :: int where "DefaultLeaseDuration = 5 * minute"
definition renewRequestTimeout :: int where "renewRequestTimeout = 30 * second"

definition annotationTestName :: string where
  "annotationTestName = ''storage-e2e.deckhouse.io/test-name''"
definition annotationLockedBy :: string where
  "annotationLockedBy = ''storage-e2e.deckhouse.io/locked-by''"
definition annotationHostname :: string where
  "annotationHostname = ''storage-e2e.deckhouse.io/hostname''"
definition annotationPID :: string where
  "annotationPID = ''storage-e2e.deckhouse.io/pid''"

text \<open>
  The process: \<^verbatim>\<open>os.Hostname\<close>, \<^verbatim>\<open>os.Getenv\<close>, \<^verbatim>\<open>os.Getpid\<close>, and how its time zone
  prints an instant in RFC 3339.
\<close>

record os_env =
  os_hostname :: string
  os_getenv :: "string \<Rightarrow> string"
  os_pid :: int
  os_rfc3339 :: "int \<Rightarrow> string"

record 'e lease_api =
  la_get :: "ctx \<Rightarrow> 'e \<Rightarrow> (goerr + lease) \<times> 'e"
  la_create :: "ctx \<Rightarrow> lease \<Rightarrow> 'e \<Rightarrow> goerr option \<times> 'e"
  la_update :: "ctx \<Rightarrow> lease \<Rightarrow> 'e \<Rightarrow> goerr option \<times> 'e"
  la_delete :: "ctx \<Rightarrow> string \<Rightarrow> 'e \<Rightarrow> goerr option \<times> 'e"

text \<open>\<^verbatim>\<open>LeaseLock\<close>: \<open>ll_released\<close> says that \<^verbatim>\<open>releaseOnce\<close> has run.\<close>

record lease_lock =
  ll_holder :: string
  ll_duration :: int
  ll_renewCancelled :: bool
  ll_released :: bool
  ll_releaseErr :: "goerr option"

definition leaseGet :: "'e lease_api \<Rightarrow> ctx \<Rightarrow> ('e, goerr + lease) act" where
  "leaseGet api c = call LeaseGet (la_get api c)"

definition leaseCreate :: "'e lease_api \<Rightarrow> ctx \<Rightarrow> lease \<Rightarrow> ('e, goerr option) act" where
  "leaseCreate api c l = call (LeaseCreate l) (la_create api c l)"

definition leaseUpdate :: "'e lease_api \<Rightarrow> ctx \<Rightarrow> lease \<Rightarrow> ('e, goerr option) act" where
  "leaseUpdate api c l = call (LeaseUpdate l) (la_update api c l)"

definition leaseDelete :: "'e lease_api \<Rightarrow> ctx \<Rightarrow> string \<Rightarrow> ('e, goerr option) act" where
  "leaseDelete api c uid = call (LeaseDelete uid) (la_delete api c uid)"

lemmas lease_call_defs = leaseGet_def leaseCreate_def leaseUpdate_def leaseDelete_def

section \<open>Operations\<close>

definition currentUser :: "os_env \<Rightarrow> string" where
  "currentUser os =
     (let user = os_getenv os ''USER'';
          user = (if user = [] then os_getenv os ''USERNAME'' else user)
      in if user = [] then ''unknown'' else user)"

definition holderIdentity :: "os_env \<Rightarrow> string" where
  "holderIdentity os = currentUser os @ ''@'' @ os_hostname os @ ''/'' @ itoa (os_pid os)"

definition holderOf :: "lease \<Rightarrow> string" where
  "holderOf l = (case ls_holderIdentity l of None \<Rightarrow> [] | Some h \<Rightarrow> h)"

text \<open>The instant up to which a lease is live; \<open>None\<close> for a lease without timestamps.\<close>

definition lease_until :: "lease \<Rightarrow> int \<Rightarrow> int option" where
  "lease_until l fallback =
     (let renew = (case ls_renewTime l of None \<Rightarrow> ls_acquireTime l | Some t \<Rightarrow> Some t);
          duration = (case ls_durationSeconds l of None \<Rightarrow> fallback | Some s \<Rightarrow> sint s * second)
      in map_option (\<lambda>t. t + duration) renew)"

definition leaseExpired :: "lease \<Rightarrow> int \<Rightarrow> int \<Rightarrow> bool" where
  "leaseExpired l now fallbackDuration \<longleftrightarrow>
     (case lease_until l fallbackDuration of None \<Rightarrow> True | Some t \<Rightarrow> now > t)"

definition applyLeaseSpec :: "os_env \<Rightarrow> lease \<Rightarrow> string \<Rightarrow> string \<Rightarrow> int \<Rightarrow> int \<Rightarrow> lease" where
  "applyLeaseSpec os l holder testName duration now =
     l\<lparr>ls_holderIdentity := Some holder,
       ls_durationSeconds := Some (word_of_int (go_div duration second)),
       ls_acquireTime := Some now,
       ls_renewTime := Some now,
       ls_annotations := (ls_annotations l)
         (annotationTestName \<mapsto> testName, annotationLockedBy \<mapsto> currentUser os,
          annotationHostname \<mapsto> os_hostname os, annotationPID \<mapsto> itoa (os_pid os))\<rparr>"

definition newLease :: "os_env \<Rightarrow> string \<Rightarrow> string \<Rightarrow> int \<Rightarrow> int \<Rightarrow> lease" where
  "newLease os holder testName duration now =
     applyLeaseSpec os
       \<lparr>ls_uid = [], ls_resourceVersion = [],
        ls_labels = [''app.kubernetes.io/managed-by'' \<mapsto> ''storage-e2e'',
                     ''app.kubernetes.io/component'' \<mapsto> ''cluster-lock''],
        ls_annotations = Map.empty, ls_holderIdentity = None, ls_durationSeconds = None,
        ls_acquireTime = None, ls_renewTime = None, ls_transitions = None\<rparr>
       holder testName duration now"

definition annotation :: "lease \<Rightarrow> string \<Rightarrow> string" where
  "annotation l k = (case ls_annotations l k of None \<Rightarrow> [] | Some v \<Rightarrow> v)"

definition leaseHeldError :: "os_env \<Rightarrow> lease \<Rightarrow> goerr" where
  "leaseHeldError os l =
     ErrText (''cluster is already locked (lease '' @ Namespace @ ''/'' @ LeaseName @
       ''): holder='' @ holderOf l @ '', test='' @ annotation l annotationTestName @
       '', locked_by='' @ annotation l annotationLockedBy @
       '', hostname='' @ annotation l annotationHostname @
       '', pid='' @ annotation l annotationPID @
       '', renewed_at='' @ (case ls_renewTime l of None \<Rightarrow> [] | Some t \<Rightarrow> os_rfc3339 os t))"

definition lockedError :: "os_env \<Rightarrow> 'e lease_api \<Rightarrow> ctx \<Rightarrow> ('e, goerr option) act" where
  "lockedError os api c =
     io_bind (leaseGet api c) (\<lambda>g. case g of
       Inl err \<Rightarrow> io_ret (Some (ErrWrap
         ''cluster is already locked by another test (could not retrieve lease details: '' err '')''))
     | Inr l \<Rightarrow> io_ret (Some (leaseHeldError os l)))"

definition takeover :: "os_env \<Rightarrow> lease \<Rightarrow> string \<Rightarrow> string \<Rightarrow> int \<Rightarrow> int \<Rightarrow> lease" where
  "takeover os l holder testName duration now =
     (applyLeaseSpec os l holder testName duration now)
       \<lparr>ls_transitions := Some (case ls_transitions l of None \<Rightarrow> 1 | Some n \<Rightarrow> n + 1)\<rparr>"

definition tryAcquireLease ::
  "os_env \<Rightarrow> 'e runtime \<Rightarrow> 'e lease_api \<Rightarrow> ctx \<Rightarrow> string \<Rightarrow> string \<Rightarrow> int \<Rightarrow> ('e, goerr option) act" where
  "tryAcquireLease os rt api c holder testName duration =
     io_bind (timeNow rt) (\<lambda>now.
     io_bind (leaseGet api c) (\<lambda>g. case g of
       Inl err \<Rightarrow>
         if has_reason NotFound err then
           io_bind (leaseCreate api c (newLease os holder testName duration now)) (\<lambda>createErr.
             if is_reason AlreadyExists createErr then lockedError os api c
             else io_ret (map_option (wrapf ''failed to create cluster lease lock: '') createErr))
         else io_ret (Some (wrapf ''failed to check for existing cluster lease lock: '' err))
     | Inr l \<Rightarrow>
         if \<not> leaseExpired l now duration then io_ret (Some (leaseHeldError os l))
         else
           io_bind (leaseUpdate api c (takeover os l holder testName duration now)) (\<lambda>updErr.
             if is_reason Conflict updErr then lockedError os api c
             else io_ret (map_option
               (wrapf ''failed to take over expired cluster lease lock: '') updErr))))"

definition acquireLease ::
  "os_env \<Rightarrow> 'e runtime \<Rightarrow> 'e lease_api \<Rightarrow> ctx \<Rightarrow> string \<Rightarrow> int \<Rightarrow> ('e, goerr + lease_lock) act" where
  "acquireLease os rt api c testName duration =
     (let holder = holderIdentity os in
      io_bind (DoVoid rt c DefaultConfig (tryAcquireLease os rt api c holder testName duration))
        (\<lambda>err. case err of
           Some e \<Rightarrow> io_ret (Inl e)
         | None \<Rightarrow> io_ret (Inr \<lparr>ll_holder = holder, ll_duration = duration,
             ll_renewCancelled = False, ll_released = False, ll_releaseErr = None\<rparr>)))"

definition renew :: "'e runtime \<Rightarrow> 'e lease_api \<Rightarrow> ctx \<Rightarrow> lease_lock \<Rightarrow> ('e, unit) act" where
  "renew rt api c l =
     (let renewCtx = CtxTimeout c renewRequestTimeout in
      io_bind (leaseGet api renewCtx) (\<lambda>g. case g of
        Inl err \<Rightarrow> io_ret ()
      | Inr cur \<Rightarrow>
          if holderOf cur \<noteq> ll_holder l then io_ret ()
          else io_bind (timeNow rt) (\<lambda>now.
            io_bind (leaseUpdate api renewCtx (cur\<lparr>ls_renewTime := Some now\<rparr>)) (\<lambda>_. io_ret ()))))"

text \<open>\<^verbatim>\<open>time.NewTicker\<close> panics on a period that is not positive.\<close>

definition renewLoop :: "'e runtime \<Rightarrow> 'e lease_api \<Rightarrow> ctx \<Rightarrow> lease_lock \<Rightarrow> ('e, goerr + unit) act" where
  "renewLoop rt api c l =
     (let period = go_div (ll_duration l) 3 in
      if period \<le> 0 then io_ret (Inl (ErrText ''panic: non-positive interval for NewTicker''))
      else loop (\<lambda>_. io_bind (waitFor rt c period) (\<lambda>d. case d of
             Some _ \<Rightarrow> io_ret (Inl (Inr ()))
           | None \<Rightarrow> io_bind (renew rt api c l) (\<lambda>_. io_ret (Inr ())))) ())"

definition releaseAttempt :: "'e lease_api \<Rightarrow> ctx \<Rightarrow> string \<Rightarrow> ('e, goerr option) act" where
  "releaseAttempt api c holder =
     io_bind (leaseGet api c) (\<lambda>g. case g of
       Inl err \<Rightarrow>
         if has_reason NotFound err then io_ret None
         else io_ret (Some (wrapf ''failed to check cluster lease lock before release: '' err))
     | Inr l \<Rightarrow>
         if holderOf l \<noteq> holder then io_ret None
         else io_bind (leaseDelete api c (ls_uid l)) (\<lambda>delErr.
           if is_reason NotFound delErr \<or> is_reason Conflict delErr then io_ret None
           else io_ret (map_option (wrapf ''failed to release cluster lease lock: '') delErr)))"

definition Release ::
  "'e runtime \<Rightarrow> 'e lease_api \<Rightarrow> ctx \<Rightarrow> lease_lock \<Rightarrow> ('e, goerr option \<times> lease_lock) act" where
  "Release rt api c l =
     (if ll_released l then io_ret (ll_releaseErr l, l)
      else io_bind (DoVoid rt c DefaultConfig (releaseAttempt api c (ll_holder l))) (\<lambda>err.
        io_ret (err, l\<lparr>ll_renewCancelled := True, ll_released := True, ll_releaseErr := err\<rparr>)))"


section \<open>Facts about the written leases\<close>

lemma holderOf_applyLeaseSpec [simp]: "holderOf (applyLeaseSpec os l h tn dur now) = h"
  by (simp add: holderOf_def applyLeaseSpec_def)

lemma holderOf_newLease [simp]: "holderOf (newLease os h tn dur now) = h"
  by (simp add: newLease_def)

lemma holderOf_takeover [simp]: "holderOf (takeover os l h tn dur now) = h"
  by (simp add: takeover_def holderOf_def applyLeaseSpec_def)

lemma takeover_identity [simp]:
  "ls_uid (takeover os l h tn dur now) = ls_uid l"
  "ls_resourceVersion (takeover os l h tn dur now) = ls_resourceVersion l"
  by (simp_all add: takeover_def applyLeaseSpec_def)

definition written_until :: "int \<Rightarrow> int \<Rightarrow> int" where
  "written_until dur now = now + sint (word_of_int (go_div dur second) :: i32) * second"

lemma lease_until_applyLeaseSpec [simp]:
  "lease_until (applyLeaseSpec os l h tn dur now) fb = Some (written_until dur now)"
  by (simp add: lease_until_def applyLeaseSpec_def written_until_def)

lemma lease_until_newLease [simp]:
  "lease_until (newLease os h tn dur now) fb = Some (written_until dur now)"
  by (simp add: newLease_def)

lemma lease_until_takeover [simp]:
  "lease_until (takeover os l h tn dur now) fb = Some (written_until dur now)"
  by (simp add: takeover_def lease_until_def applyLeaseSpec_def written_until_def)

lemma written_until_default: "written_until DefaultLeaseDuration now = now + DefaultLeaseDuration"
  by (simp add: written_until_def DefaultLeaseDuration_def minute_def second_def go_div_def)

lemmas lease_io = timeNow_apply io_bind_apply io_ret_apply lease_call_defs call_apply

lemma lockedError_apply:
  "lockedError os api c w = Some (r, w') \<Longrightarrow>
     (\<exists>e. r = Some e) \<and> (\<exists>g. tr w' = tr w @ [LeaseGet g])"
  by (auto simp: lockedError_def lease_io split: sum.splits)

lemma emits_lockedError: "(\<And>g. Q [LeaseGet g]) \<Longrightarrow> emits Q (lockedError os api c)"
  by (rule emitsI) (auto dest: lockedError_apply)


section \<open>Properties\<close>

text \<open>
  One acquisition attempt, for every API server: it reads the lease once; a live lease
  is left alone, with no write and the error that names the holder; the attempt reports
  success only when it created the lease after a not-found answer, or when it replaced a
  lease that had expired at the time read at the start, by an update that carries the
  resource version it read.
\<close>

lemma acquire_attempt_spec:
  assumes "tryAcquireLease os rt api c h tn dur w = Some (r, w')"
  shows "\<exists>g t. tr w' = tr w @ LeaseGet g # t \<and>
    (let now = fst (rt_now rt (est w)) in
     (\<forall>l. g = Inr l \<and> \<not> leaseExpired l now dur \<longrightarrow> t = [] \<and> r = Some (leaseHeldError os l)) \<and>
     (r = None \<longrightarrow>
        (\<exists>e. g = Inl e \<and> has_reason NotFound e \<and> t = [LeaseCreate (newLease os h tn dur now) None]) \<or>
        (\<exists>l. g = Inr l \<and> leaseExpired l now dur \<and>
           t = [LeaseUpdate (takeover os l h tn dur now) None] \<and>
           ls_resourceVersion (takeover os l h tn dur now) = ls_resourceVersion l)))"
  using assms unfolding tryAcquireLease_def
  by (auto simp: lease_io Let_def split: sum.splits if_splits option.splits
        dest!: lockedError_apply)

definition sample_os :: os_env where
  "sample_os = \<lparr>os_hostname = ''host'', os_getenv = (\<lambda>k. if k = ''USER'' then ''ci'' else []),
     os_pid = 7, os_rfc3339 = (\<lambda>t. [])\<rparr>"

definition not_found :: goerr where
  "not_found = ErrStatus \<lparr>st_code = 404, st_reason = NotFound, st_retryAfter = None, st_text = ''not found''\<rparr>"

definition sample_lease_api :: "nat lease_api" where
  "sample_lease_api = \<lparr>la_get = (\<lambda>c s. (Inl not_found, s)), la_create = (\<lambda>c l s. (None, s)),
     la_update = (\<lambda>c l s. (None, s)), la_delete = (\<lambda>c u s. (None, s))\<rparr>"

definition deletes_guarded :: "string \<Rightarrow> event list \<Rightarrow> bool" where
  "deletes_guarded h t \<longleftrightarrow>
     (\<forall>i u e. i < length t \<and> t ! i = LeaseDelete u e \<longrightarrow>
        0 < i \<and> (\<exists>l. t ! (i - 1) = LeaseGet (Inr l) \<and> holderOf l = h \<and> ls_uid l = u)) \<and>
     (\<forall>l e. LeaseCreate l e \<notin> set t \<and> LeaseUpdate l e \<notin> set t)"

lemma deletes_guarded_closed: "closed_trace (deletes_guarded h)"
proof -
  have "0 < i \<and> (\<exists>l. (s @ t) ! (i - 1) = LeaseGet (Inr l) \<and> holderOf l = h \<and> ls_uid l = u)"
    if s: "deletes_guarded h s" and t: "deletes_guarded h t"
      and i: "i < length (s @ t)" "(s @ t) ! i = LeaseDelete u e" for s t i u e
  proof (cases "i < length s")
    case True
    with s i show ?thesis by (auto simp: deletes_guarded_def nth_append)
  next
    case False
    then have "t ! (i - length s) = LeaseDelete u e" "i - length s < length t"
      using i by (auto simp: nth_append)
    with t have "0 < i - length s \<and>
        (\<exists>l. t ! (i - length s - 1) = LeaseGet (Inr l) \<and> holderOf l = h \<and> ls_uid l = u)"
      unfolding deletes_guarded_def by blast
    with False show ?thesis by (auto simp: nth_append)
  qed
  note index = this
  have "deletes_guarded h (s @ t)" if "deletes_guarded h s" "deletes_guarded h t" for s t
  proof -
    have "\<forall>l e. LeaseCreate l e \<notin> set (s @ t) \<and> LeaseUpdate l e \<notin> set (s @ t)"
      using that by (simp add: deletes_guarded_def)
    with index [OF that] show ?thesis unfolding deletes_guarded_def by blast
  qed
  moreover have "deletes_guarded h []" by (simp add: deletes_guarded_def)
  ultimately show ?thesis by (simp add: closed_trace_def)
qed

lemma emits_releaseAttempt: "emits (deletes_guarded h) (releaseAttempt api c h)"
proof (rule emitsI)
  fix w r w'
  assume "releaseAttempt api c h w = Some (r, w')"
  then have "\<exists>g. tr w' = tr w @ [LeaseGet g] \<or>
      (\<exists>l e. g = Inr l \<and> holderOf l = h \<and> tr w' = tr w @ [LeaseGet g, LeaseDelete (ls_uid l) e])"
    unfolding releaseAttempt_def
    by (auto simp: lease_io split: sum.splits if_splits)
  moreover have "deletes_guarded h [LeaseGet g]" for g
    by (auto simp: deletes_guarded_def less_Suc_eq)
  moreover have "deletes_guarded (holderOf l) [LeaseGet (Inr l), LeaseDelete (ls_uid l) e]" for l e
    by (auto simp: deletes_guarded_def less_Suc_eq nth_Cons')
  ultimately show "\<exists>t. tr w' = tr w @ t \<and> deletes_guarded h t" by blast
qed

text \<open>
  \<^verbatim>\<open>Release\<close>, whatever the API server answers and however often it retries: the only
  requests are reads and deletes; every delete follows at once a read that showed the lease
  held by this run, and carries the UID of that lease; and a second \<^verbatim>\<open>Release\<close> makes no
  request and returns the first result.
\<close>

lemma release_only_own:
  assumes "Release rt api c l w = Some ((err, l'), w')" and "\<not> ll_released l"
  shows "(\<exists>t. tr w' = tr w @ t \<and>
      (\<forall>i u e. i < length t \<and> t ! i = LeaseDelete u e \<longrightarrow>
         0 < i \<and> (\<exists>k. t ! (i - 1) = LeaseGet (Inr k) \<and> holderOf k = ll_holder l \<and> ls_uid k = u)) \<and>
      (\<forall>k e. LeaseCreate k e \<notin> set t \<and> LeaseUpdate k e \<notin> set t)) \<and>
    Release rt api c l' w' = Some ((err, l'), w')"
proof -
  have "emits (deletes_guarded (ll_holder l)) (Release rt api c l)"
    unfolding Release_def
    by (auto intro!: emits_bind emits_ret emits_DoVoid deletes_guarded_closed emits_releaseAttempt)
      (auto simp: deletes_guarded_def)
  from emitsD [OF this assms(1)] have "\<exists>t. tr w' = tr w @ t \<and> deletes_guarded (ll_holder l) t" .
  moreover have "ll_released l' \<and> ll_releaseErr l' = err"
    using assms by (auto simp: Release_def io_simps split: option.splits)
  ultimately show ?thesis unfolding deletes_guarded_def by (simp add: Release_def io_simps)
qed

text \<open>
  A renewal writes only the lease this run holds, and only its renew time: the one
  possible write repeats the object just read, with its resource version, UID and holder.
\<close>

lemma renew_only_own:
  assumes "renew rt api c l w = Some (r, w')"
  shows "\<exists>g. tr w' = tr w @ [LeaseGet g] \<or>
    (\<exists>cur t e. g = Inr cur \<and> holderOf cur = ll_holder l \<and>
       tr w' = tr w @ [LeaseGet g, LeaseUpdate (cur\<lparr>ls_renewTime := Some t\<rparr>) e])"
  using assms unfolding renew_def
  by (auto simp: lease_io Let_def split: sum.splits if_splits)

text \<open>
  The error that reports a live lock is itself treated as transient when the holder's
  test name contains one of the patterns of \<^verbatim>\<open>IsRetryable\<close>: against a lock held by a suite
  called, say, \<^verbatim>\<open>webhook-suite\<close>, acquisition does not fail at once but runs through all
  retries.
\<close>

lemma held_lease_error_retryable:
  assumes "p \<in> set allPatterns" and "str_contains (annotation l annotationTestName) p"
  shows "IsRetryable (leaseHeldError os l)"
proof -
  have "str_contains (error_text (leaseHeldError os l)) p"
  proof -
    obtain a b where ab: "error_text (leaseHeldError os l) = a @ annotation l annotationTestName @ b"
      unfolding leaseHeldError_def error_text.simps
      by (metis append_assoc)
    show ?thesis unfolding ab by (rule str_contains_mono [OF assms(2)])
  qed
  with assms(1) show ?thesis by (auto simp: IsRetryable_def list_ex_iff)
qed

end
