(* ===== verification/Lease_Protocol.thy ===== *)
theory Lease_Protocol
  imports Lease_Lock
begin

text \<open>
  Several test runs contend for the lease of \<open>Lease_Lock\<close>. The handlers
  \<^verbatim>\<open>tryAcquireLease\<close>, \<^verbatim>\<open>renew\<close> and \<^verbatim>\<open>Release\<close> are cut at their API requests, so that
  the requests of different runs interleave in any order and time passes between them. The
  API server is a parameter; \<open>lease_server\<close> states what Kubernetes documents of it: a create
  fails on an existing object, an update needs the current resource version, a delete with a
  UID precondition needs the current UID, resource versions are never reused. A request may
  take effect although its answer is an error (a lost reply).
\<close>

section \<open>The API server\<close>

definition same_spec :: "lease \<Rightarrow> lease \<Rightarrow> bool" where
  "same_spec stored sent \<longleftrightarrow>
     stored = sent\<lparr>ls_uid := ls_uid stored, ls_resourceVersion := ls_resourceVersion stored\<rparr>"

text \<open>
  \<open>cur\<close> is the stored lease and \<open>used\<close> the resource versions handed out so far.
\<close>

definition server_gets :: "'s lease_api \<Rightarrow> ('s \<Rightarrow> lease option) \<Rightarrow> ('s \<Rightarrow> string set) \<Rightarrow> bool" where
  "server_gets api cur used \<longleftrightarrow>
     (\<forall>c s r s'. la_get api c s = (r, s') \<longrightarrow>
        cur s' = cur s \<and> used s \<subseteq> used s' \<and>
        (\<forall>l. r = Inr l \<longrightarrow> cur s = Some l) \<and>
        (\<forall>e. r = Inl e \<and> has_reason NotFound e \<longrightarrow> cur s = None))"

definition server_creates :: "'s lease_api \<Rightarrow> ('s \<Rightarrow> lease option) \<Rightarrow> ('s \<Rightarrow> string set) \<Rightarrow> bool" where
  "server_creates api cur used \<longleftrightarrow>
     (\<forall>c l s r s'. la_create api c l s = (r, s') \<longrightarrow>
        used s \<subseteq> used s' \<and>
        (cur s' = cur s \<and> r \<noteq> None \<or>
         cur s = None \<and> (\<exists>l'. cur s' = Some l' \<and> same_spec l' l \<and> ls_resourceVersion l' \<notin> used s)))"

definition server_updates :: "'s lease_api \<Rightarrow> ('s \<Rightarrow> lease option) \<Rightarrow> ('s \<Rightarrow> string set) \<Rightarrow> bool" where
  "server_updates api cur used \<longleftrightarrow>
     (\<forall>c l s r s'. la_update api c l s = (r, s') \<longrightarrow>
        used s \<subseteq> used s' \<and>
        (cur s' = cur s \<and> r \<noteq> None \<or>
         (\<exists>l0 l'. cur s = Some l0 \<and> ls_resourceVersion l0 = ls_resourceVersion l \<and>
            cur s' = Some l' \<and> same_spec l' l \<and> ls_uid l' = ls_uid l0 \<and>
            ls_resourceVersion l' \<notin> used s)))"

definition server_deletes :: "'s lease_api \<Rightarrow> ('s \<Rightarrow> lease option) \<Rightarrow> ('s \<Rightarrow> string set) \<Rightarrow> bool" where
  "server_deletes api cur used \<longleftrightarrow>
     (\<forall>c u s r s'. la_delete api c u s = (r, s') \<longrightarrow>
        used s \<subseteq> used s' \<and>
        (cur s' = cur s \<and> r \<noteq> None \<or>
         (\<exists>l0. cur s = Some l0 \<and> ls_uid l0 = u \<and> cur s' = None)))"

definition server_versions :: "('s \<Rightarrow> lease option) \<Rightarrow> ('s \<Rightarrow> string set) \<Rightarrow> bool" where
  "server_versions cur used \<longleftrightarrow> (\<forall>s l. cur s = Some l \<longrightarrow> ls_resourceVersion l \<in> used s)"

definition lease_server :: "'s lease_api \<Rightarrow> ('s \<Rightarrow> lease option) \<Rightarrow> ('s \<Rightarrow> string set) \<Rightarrow> bool" where
  "lease_server api cur used \<longleftrightarrow>
     server_versions cur used \<and> server_gets api cur used \<and> server_creates api cur used \<and>
     server_updates api cur used \<and> server_deletes api cur used"

section \<open>The interleaved system\<close>

text \<open>
  Where a run stands between two requests. The instant in \<open>Saw\<close> is the \<^verbatim>\<open>time.Now()\<close> at the
  start of the attempt; the one in \<open>Holding\<close> is the end of the period that its last
  successful write bought it. \<open>Releasing\<close> is between two attempts of \<^verbatim>\<open>Release\<close>: the delete may have failed, or
  have taken effect without an answer.
\<close>

datatype phase =
    Idle
  | Saw int "lease option"
  | Holding int
  | RenewSaw int int lease
  | ReleaseSaw int lease
  | Releasing int
  | Finished

record 's proto =
  p_api :: "'s lease_api"
  p_dur :: int
  p_os :: "nat \<Rightarrow> os_env"
  p_id :: "nat \<Rightarrow> string"
  p_tn :: "nat \<Rightarrow> string"

record 's lsys =
  srv :: 's
  now :: int
  ph :: "nat \<Rightarrow> phase"

definition move :: "'s lsys \<Rightarrow> nat \<Rightarrow> phase \<Rightarrow> 's \<Rightarrow> 's lsys" where
  "move s i p v = s\<lparr>srv := v, ph := (ph s)(i := p)\<rparr>"

text \<open>
  One request, in any context, or time passing. With \<open>strict\<close> set, a run sends its delete only while the
  period it holds the lock for has not ended; without it, the delete may come at any time
  after the read, as the code allows. An attempt of \<^verbatim>\<open>Release\<close> that fails is followed by another one, or by the end
  of \<^verbatim>\<open>Release\<close> when the retries are used up, the error is not retryable or the context has ended.
\<close>

definition releasing :: "phase \<Rightarrow> int \<Rightarrow> bool" where
  "releasing p u \<longleftrightarrow> p = Holding u \<or> p = Releasing u"

inductive lstep :: "'s proto \<Rightarrow> bool \<Rightarrow> 's lsys \<Rightarrow> 's lsys \<Rightarrow> bool" for P strict where
  tick: "0 \<le> d \<Longrightarrow> lstep P strict s (s\<lparr>now := now s + d\<rparr>)"
| acq_free: "ph s i = Idle \<Longrightarrow> t \<le> now s \<Longrightarrow> la_get (p_api P) c (srv s) = (Inl e, v)
    \<Longrightarrow> has_reason NotFound e \<Longrightarrow> lstep P strict s (move s i (Saw t None) v)"
| acq_expired: "ph s i = Idle \<Longrightarrow> t \<le> now s \<Longrightarrow> la_get (p_api P) c (srv s) = (Inr l, v)
    \<Longrightarrow> leaseExpired l t (p_dur P) \<Longrightarrow> lstep P strict s (move s i (Saw t (Some l)) v)"
| acq_refused: "ph s i = Idle \<Longrightarrow> la_get (p_api P) c (srv s) = (r, v)
    \<Longrightarrow> lstep P strict s (move s i Idle v)"
| acq_create: "ph s i = Saw t None
    \<Longrightarrow> la_create (p_api P) c (newLease (p_os P i) (p_id P i) (p_tn P i) (p_dur P) t) (srv s) = (r, v)
    \<Longrightarrow> lstep P strict s (move s i
          (case r of None \<Rightarrow> Holding (written_until (p_dur P) t) | Some e \<Rightarrow> Idle) v)"
| acq_update: "ph s i = Saw t (Some l)
    \<Longrightarrow> la_update (p_api P) c (takeover (p_os P i) l (p_id P i) (p_tn P i) (p_dur P) t) (srv s) = (r, v)
    \<Longrightarrow> lstep P strict s (move s i
          (case r of None \<Rightarrow> Holding (written_until (p_dur P) t) | Some e \<Rightarrow> Idle) v)"
| renew_own: "ph s i = Holding u \<Longrightarrow> la_get (p_api P) c (srv s) = (Inr l, v)
    \<Longrightarrow> holderOf l = p_id P i \<Longrightarrow> lstep P strict s (move s i (RenewSaw u (now s) l) v)"
| renew_skip: "ph s i = Holding u \<Longrightarrow> la_get (p_api P) c (srv s) = (r, v)
    \<Longrightarrow> lstep P strict s (move s i (Holding u) v)"
| renew_write: "ph s i = RenewSaw u tg l \<Longrightarrow> tg \<le> t \<Longrightarrow> t \<le> now s
    \<Longrightarrow> la_update (p_api P) c (l\<lparr>ls_renewTime := Some t\<rparr>) (srv s) = (r, v)
    \<Longrightarrow> lstep P strict s (move s i
          (case (r, lease_until (l\<lparr>ls_renewTime := Some t\<rparr>) (p_dur P)) of
             (None, Some u') \<Rightarrow> Holding u' | _ \<Rightarrow> Holding u) v)"
| release_own: "releasing (ph s i) u \<Longrightarrow> la_get (p_api P) c (srv s) = (Inr l, v)
    \<Longrightarrow> holderOf l = p_id P i \<Longrightarrow> lstep P strict s (move s i (ReleaseSaw u l) v)"
| release_none: "releasing (ph s i) u \<Longrightarrow> la_get (p_api P) c (srv s) = (r, v)
    \<Longrightarrow> (case r of Inl e \<Rightarrow> has_reason NotFound e | Inr l \<Rightarrow> holderOf l \<noteq> p_id P i)
    \<Longrightarrow> lstep P strict s (move s i Finished v)"
| release_unread: "releasing (ph s i) u \<Longrightarrow> la_get (p_api P) c (srv s) = (Inl e, v)
    \<Longrightarrow> lstep P strict s (move s i (Releasing u) v)"
| release_delete: "ph s i = ReleaseSaw u l \<Longrightarrow> (strict \<Longrightarrow> now s \<le> u)
    \<Longrightarrow> la_delete (p_api P) c (ls_uid l) (srv s) = (r, v)
    \<Longrightarrow> lstep P strict s (move s i
          (if r = None \<or> is_reason NotFound r \<or> is_reason Conflict r then Finished else Releasing u) v)"
| release_end: "releasing (ph s i) u \<Longrightarrow> lstep P strict s (move s i Finished (srv s))"

inductive lreach :: "'s proto \<Rightarrow> bool \<Rightarrow> 's lsys \<Rightarrow> 's lsys \<Rightarrow> bool" for P strict s0 where
  lreach_init: "lreach P strict s0 s0"
| lreach_step: "lreach P strict s0 s \<Longrightarrow> lstep P strict s s' \<Longrightarrow> lreach P strict s0 s'"

inductive_cases lstep_elim: "lstep P strict s s'"

text \<open>The period a run may rely on the lock for.\<close>

fun claim :: "phase \<Rightarrow> int option" where
  "claim (Holding u) = Some u"
| "claim (RenewSaw u tg l) = Some u"
| "claim (ReleaseSaw u l) = Some u"
| "claim _ = None"

definition owns :: "'s lsys \<Rightarrow> nat \<Rightarrow> bool" where
  "owns s i \<longleftrightarrow> (\<exists>u. claim (ph s i) = Some u \<and> now s \<le> u)"

section \<open>The invariant\<close>

definition seen :: "('s \<Rightarrow> lease option) \<Rightarrow> ('s \<Rightarrow> string set) \<Rightarrow> 's \<Rightarrow> lease \<Rightarrow> bool" where
  "seen cur used v l \<longleftrightarrow>
     ls_resourceVersion l \<in> used v \<and>
     (\<forall>l'. cur v = Some l' \<and> ls_resourceVersion l' = ls_resourceVersion l \<longrightarrow> l' = l)"

definition held_until :: "int \<Rightarrow> lease \<Rightarrow> string \<Rightarrow> int \<Rightarrow> int \<Rightarrow> bool" where
  "held_until dur l h tm u \<longleftrightarrow>
     holderOf l = h \<and> (\<exists>t. ls_renewTime l = Some t \<and> t \<le> tm) \<and>
     (\<exists>x. lease_until l dur = Some x \<and> u \<le> x)"

text \<open>As long as the period lasts, the stored lease names the run and lasts as long.\<close>

definition backed :: "('s \<Rightarrow> lease option) \<Rightarrow> int \<Rightarrow> 's \<Rightarrow> string \<Rightarrow> int \<Rightarrow> int \<Rightarrow> bool" where
  "backed cur dur v h tm u \<longleftrightarrow> tm \<le> u \<longrightarrow> (\<exists>l. cur v = Some l \<and> held_until dur l h tm u)"

text \<open>A run that has sent a delete only knows that a stored lease that names it lasts as long.\<close>

definition backed_if_own :: "('s \<Rightarrow> lease option) \<Rightarrow> int \<Rightarrow> 's \<Rightarrow> string \<Rightarrow> int \<Rightarrow> int \<Rightarrow> bool" where
  "backed_if_own cur dur v h tm u \<longleftrightarrow> (\<forall>l. cur v = Some l \<and> holderOf l = h \<and> tm \<le> u \<longrightarrow> held_until dur l h tm u)"

text \<open>What the phase of one run says about the server and the clock.\<close>

fun phase_ok :: "('s \<Rightarrow> lease option) \<Rightarrow> ('s \<Rightarrow> string set) \<Rightarrow> int \<Rightarrow> 's \<Rightarrow> int \<Rightarrow> string \<Rightarrow> phase \<Rightarrow> bool" where
  "phase_ok cur used dur v tm h Idle = True"
| "phase_ok cur used dur v tm h (Saw t None) = (t \<le> tm)"
| "phase_ok cur used dur v tm h (Saw t (Some l)) =
     (t \<le> tm \<and> leaseExpired l t dur \<and> seen cur used v l)"
| "phase_ok cur used dur v tm h (Holding u) = backed cur dur v h tm u"
| "phase_ok cur used dur v tm h (RenewSaw u tg l) =
     (backed cur dur v h tm u \<and> seen cur used v l \<and> holderOf l = h \<and> tg \<le> tm \<and>
      (tg \<le> u \<longrightarrow> held_until dur l h tg u))"
| "phase_ok cur used dur v tm h (ReleaseSaw u l) = backed cur dur v h tm u"
| "phase_ok cur used dur v tm h (Releasing u) = backed_if_own cur dur v h tm u"
| "phase_ok cur used dur v tm h Finished = True"

definition linv :: "'s proto \<Rightarrow> ('s \<Rightarrow> lease option) \<Rightarrow> ('s \<Rightarrow> string set) \<Rightarrow> 's lsys \<Rightarrow> bool" where
  "linv P cur used s \<longleftrightarrow>
     (\<forall>i. phase_ok cur used (p_dur P) (srv s) (now s) (p_id P i) (ph s i))"

section \<open>Every step keeps the invariant\<close>

text \<open>No run called \<open>h\<close> can be relying on the stored lease.\<close>

definition not_live :: "('s \<Rightarrow> lease option) \<Rightarrow> int \<Rightarrow> 's \<Rightarrow> string \<Rightarrow> int \<Rightarrow> bool" where
  "not_live cur dur v h tm \<longleftrightarrow> (\<forall>l u. cur v = Some l \<and> held_until dur l h tm u \<longrightarrow> u < tm)"

lemma not_live_None: "cur v = None \<Longrightarrow> not_live cur dur v h tm"
  by (simp add: not_live_def)

lemma not_live_other: "cur v = Some l \<Longrightarrow> holderOf l \<noteq> h \<Longrightarrow> not_live cur dur v h tm"
  by (simp add: not_live_def held_until_def)

lemma not_live_expired:
  "cur v = Some l \<Longrightarrow> leaseExpired l t dur \<Longrightarrow> t \<le> tm \<Longrightarrow> not_live cur dur v h tm"
  by (auto simp: not_live_def held_until_def leaseExpired_def)

lemma backed_mono:
  assumes "backed cur dur v h tm u" "cur v' = cur v" "tm \<le> tm'"
  shows "backed cur dur v' h tm' u"
  using assms unfolding backed_def held_until_def by (auto intro: order_trans)

lemma backed_if_own_mono:
  assumes "backed_if_own cur dur v h tm u" "cur v' = cur v" "tm \<le> tm'"
  shows "backed_if_own cur dur v' h tm' u"
  using assms unfolding backed_if_own_def held_until_def by (auto intro: order_trans)

lemma backed_backed_if_own: "backed cur dur v h tm u \<Longrightarrow> backed_if_own cur dur v h tm u"
  by (auto simp: backed_def backed_if_own_def)

lemma seen_frame: "seen cur used v l \<Longrightarrow> cur v' = cur v \<Longrightarrow> used v \<subseteq> used v' \<Longrightarrow> seen cur used v' l"
  by (auto simp: seen_def)

lemma seen_fresh:
  assumes "seen cur used v l" "used v \<subseteq> used v'"
    and "\<And>l'. cur v' = Some l' \<Longrightarrow> ls_resourceVersion l' \<notin> used v"
  shows "seen cur used v' l"
  using assms unfolding seen_def by (metis subsetD)

lemma phase_frame:
  assumes "phase_ok cur used dur v tm h p" "cur v' = cur v" "used v \<subseteq> used v'" "tm \<le> tm'"
  shows "phase_ok cur used dur v' tm' h p"
  using assms
  by (cases "(cur, used, dur, v, tm, h, p)" rule: phase_ok.cases)
    (auto intro: backed_mono backed_if_own_mono seen_frame)

lemma phase_write:
  assumes ok: "phase_ok cur used dur v tm h p" and used: "used v \<subseteq> used v'"
    and fresh: "\<And>l'. cur v' = Some l' \<Longrightarrow> ls_resourceVersion l' \<notin> used v"
    and dead: "not_live cur dur v h tm" and other: "\<And>l'. cur v' = Some l' \<Longrightarrow> holderOf l' \<noteq> h"
  shows "phase_ok cur used dur v' tm h p"
proof -
  have own: "backed_if_own cur dur v' h tm u" for u using other by (auto simp: backed_if_own_def)
  have backed: "backed cur dur v' k tm u" if "backed cur dur v k tm u" "h = k" for u k
    using that dead unfolding backed_def not_live_def by (meson not_le)
  have seen: "seen cur used v' l" if "seen cur used v l" for l
    using seen_fresh [where cur = cur and used = used, OF that used] fresh by blast
  show ?thesis
    using ok
    by (cases "(cur, used, dur, v, tm, h, p)" rule: phase_ok.cases)
      (auto intro: backed seen own)
qed

text \<open>The move of one run: its own new phase, and what the request did to the others.\<close>

lemma linv_move:
  assumes "linv P cur used s"
    and "phase_ok cur used (p_dur P) v (now s) (p_id P i) p"
    and "\<And>j. j \<noteq> i \<Longrightarrow> phase_ok cur used (p_dur P) (srv s) (now s) (p_id P j) (ph s j)
           \<Longrightarrow> phase_ok cur used (p_dur P) v (now s) (p_id P j) (ph s j)"
  shows "linv P cur used (move s i p v)"
  using assms by (simp add: linv_def move_def)

lemma linv_read:
  assumes "linv P cur used s" and "phase_ok cur used (p_dur P) v (now s) (p_id P i) p"
    and "cur v = cur (srv s)" "used (srv s) \<subseteq> used v"
  shows "linv P cur used (move s i p v)"
  by (rule linv_move [OF assms(1,2)]) (rule phase_frame [OF _ assms(3,4) order_refl])

lemma linv_write:
  assumes "linv P cur used s" and "phase_ok cur used (p_dur P) v (now s) (p_id P i) p"
    and "used (srv s) \<subseteq> used v"
    and "\<And>l'. cur v = Some l' \<Longrightarrow> ls_resourceVersion l' \<notin> used (srv s)"
    and "\<And>j. j \<noteq> i \<Longrightarrow> not_live cur (p_dur P) (srv s) (p_id P j) (now s)"
    and "\<And>l'. cur v = Some l' \<Longrightarrow> holderOf l' = p_id P i" and "inj (p_id P)"
  shows "linv P cur used (move s i p v)"
proof (rule linv_move [OF assms(1,2)], rule phase_write [OF _ assms(3-5)])
  show "holderOf l' \<noteq> p_id P j" if "j \<noteq> i" "cur v = Some l'" for j l'
    using assms(6) [OF that(2)] assms(7) that(1) by (simp add: inj_eq)
qed

lemma lease_until_same_spec: "same_spec l' l \<Longrightarrow> lease_until l' dur = lease_until l dur"
  by (cases l, cases l') (auto simp: same_spec_def lease_until_def Let_def split: option.splits)


lemma same_spec_sel:
  assumes "same_spec l' l"
  shows "holderOf l' = holderOf l" "ls_renewTime l' = ls_renewTime l"
  using assms by (cases l, cases l', simp add: same_spec_def holderOf_def)+

lemma held_until_same_spec: "same_spec l' l \<Longrightarrow> held_until dur l' h tm u = held_until dur l h tm u"
  by (simp add: held_until_def same_spec_sel lease_until_same_spec)

lemma held_until_newLease: "t \<le> tm \<Longrightarrow> held_until dur (newLease os h tn dur t) h tm (written_until dur t)"
  by (simp add: held_until_def) (simp add: newLease_def applyLeaseSpec_def)

lemma held_until_takeover:
  "t \<le> tm \<Longrightarrow> held_until dur (takeover os l h tn dur t) h tm (written_until dur t)"
  by (simp add: held_until_def) (simp add: takeover_def applyLeaseSpec_def)

lemma holderOf_renewed: "holderOf (l\<lparr>ls_renewTime := t\<rparr>) = holderOf l"
  by (simp add: holderOf_def)

lemma held_until_renewed:
  "t \<le> tm \<Longrightarrow> lease_until (l\<lparr>ls_renewTime := Some t\<rparr>) dur = Some u
   \<Longrightarrow> held_until dur (l\<lparr>ls_renewTime := Some t\<rparr>) (holderOf l) tm u"
  by (simp add: held_until_def holderOf_def)

lemma held_until_renewed_later:
  "held_until dur l h tg u \<Longrightarrow> tg \<le> t \<Longrightarrow> t \<le> tm
   \<Longrightarrow> held_until dur (l\<lparr>ls_renewTime := Some t\<rparr>) h tm u"
  by (auto simp: held_until_def lease_until_def holderOf_def)


subsection \<open>What one request does\<close>

lemma server_get:
  assumes "lease_server api cur used" "la_get api c s = (r, s')"
  shows "cur s' = cur s" "used s \<subseteq> used s'"
    and "r = Inr l \<Longrightarrow> cur s = Some l" "r = Inl e \<Longrightarrow> has_reason NotFound e \<Longrightarrow> cur s = None"
proof -
  from assms(1) have "server_gets api cur used" by (simp add: lease_server_def)
  with assms(2) show "cur s' = cur s" "used s \<subseteq> used s'" "r = Inr l \<Longrightarrow> cur s = Some l"
    "r = Inl e \<Longrightarrow> has_reason NotFound e \<Longrightarrow> cur s = None"
    unfolding server_gets_def by blast+
qed

lemma server_known:
  "lease_server api cur used \<Longrightarrow> cur s = Some l \<Longrightarrow> ls_resourceVersion l \<in> used s"
  unfolding lease_server_def server_versions_def by simp

lemma server_create:
  assumes "lease_server api cur used" "la_create api c l s = (r, s')"
  shows "used s \<subseteq> used s'"
    and "cur s' = cur s \<and> r \<noteq> None \<or>
      cur s = None \<and> (\<exists>l'. cur s' = Some l' \<and> same_spec l' l \<and> ls_resourceVersion l' \<notin> used s)"
proof -
  from assms(1) have "server_creates api cur used" by (simp add: lease_server_def)
  then show "used s \<subseteq> used s'" "cur s' = cur s \<and> r \<noteq> None \<or>
      cur s = None \<and> (\<exists>l'. cur s' = Some l' \<and> same_spec l' l \<and> ls_resourceVersion l' \<notin> used s)"
    using assms(2) unfolding server_creates_def by simp_all
qed

lemma server_update:
  assumes "lease_server api cur used" "la_update api c l s = (r, s')"
  shows "used s \<subseteq> used s'"
    and "cur s' = cur s \<and> r \<noteq> None \<or>
      (\<exists>l0 l'. cur s = Some l0 \<and> ls_resourceVersion l0 = ls_resourceVersion l \<and>
         cur s' = Some l' \<and> same_spec l' l \<and> ls_uid l' = ls_uid l0 \<and> ls_resourceVersion l' \<notin> used s)"
proof -
  from assms(1) have "server_updates api cur used" by (simp add: lease_server_def)
  then show "used s \<subseteq> used s'" "cur s' = cur s \<and> r \<noteq> None \<or>
      (\<exists>l0 l'. cur s = Some l0 \<and> ls_resourceVersion l0 = ls_resourceVersion l \<and>
         cur s' = Some l' \<and> same_spec l' l \<and> ls_uid l' = ls_uid l0 \<and> ls_resourceVersion l' \<notin> used s)"
    using assms(2) unfolding server_updates_def by simp_all
qed

lemma server_delete:
  assumes "lease_server api cur used" "la_delete api c u s = (r, s')"
  shows "used s \<subseteq> used s'"
    and "cur s' = cur s \<and> r \<noteq> None \<or> (\<exists>l0. cur s = Some l0 \<and> ls_uid l0 = u \<and> cur s' = None)"
proof -
  from assms(1) have "server_deletes api cur used" by (simp add: lease_server_def)
  then show "used s \<subseteq> used s'"
    "cur s' = cur s \<and> r \<noteq> None \<or> (\<exists>l0. cur s = Some l0 \<and> ls_uid l0 = u \<and> cur s' = None)"
    using assms(2) unfolding server_deletes_def by simp_all
qed

lemma seen_current:
  "lease_server api cur used \<Longrightarrow> cur v = Some l \<Longrightarrow> cur v' = cur v \<Longrightarrow> used v \<subseteq> used v'
   \<Longrightarrow> seen cur used v' l"
  using server_known by (fastforce simp: seen_def)

lemma linv_phase: "linv P cur used s \<Longrightarrow> phase_ok cur used (p_dur P) (srv s) (now s) (p_id P i) (ph s i)"
  by (simp add: linv_def)

lemma linv_create:
  assumes inv: "linv P cur used s" and srv: "lease_server (p_api P) cur used" and ids: "inj (p_id P)"
    and ph: "ph s i = Saw t None"
    and req: "la_create (p_api P) c (newLease (p_os P i) (p_id P i) (p_tn P i) (p_dur P) t) (srv s) = (r, v)"
  shows "linv P cur used (move s i
     (case r of None \<Rightarrow> Holding (written_until (p_dur P) t) | Some e \<Rightarrow> Idle) v)"
proof -
  from linv_phase [OF inv, of i] ph have t: "t \<le> now s" by simp
  from server_create(2) [OF srv req] consider
    (no) "cur v = cur (srv s)" "r \<noteq> None"
    | (yes) l' where "cur (srv s) = None" "cur v = Some l'"
        "same_spec l' (newLease (p_os P i) (p_id P i) (p_tn P i) (p_dur P) t)"
        "ls_resourceVersion l' \<notin> used (srv s)"
    by blast
  then show ?thesis
  proof cases
    case no
    then show ?thesis using server_create(1) [OF srv req] by (auto intro!: linv_read [OF inv])
  next
    case yes
    then have "backed cur (p_dur P) v (p_id P i) (now s) (written_until (p_dur P) t)"
      by (simp add: backed_def held_until_same_spec held_until_newLease t)
    with yes server_create(1) [OF srv req] show ?thesis
      by (auto intro!: linv_write [OF inv] not_live_None simp: same_spec_sel ids split: option.splits)
  qed
qed

lemma linv_takeover:
  assumes inv: "linv P cur used s" and srv: "lease_server (p_api P) cur used" and ids: "inj (p_id P)"
    and ph: "ph s i = Saw t (Some l)"
    and req: "la_update (p_api P) c (takeover (p_os P i) l (p_id P i) (p_tn P i) (p_dur P) t) (srv s) = (r, v)"
  shows "linv P cur used (move s i
     (case r of None \<Rightarrow> Holding (written_until (p_dur P) t) | Some e \<Rightarrow> Idle) v)"
proof -
  from linv_phase [OF inv, of i] ph
  have t: "t \<le> now s" and ex: "leaseExpired l t (p_dur P)" and sn: "seen cur used (srv s) l" by auto
  from server_update(2) [OF srv req] consider
    (no) "cur v = cur (srv s)" "r \<noteq> None"
    | (yes) l' where "cur (srv s) = Some l" "cur v = Some l'"
        "same_spec l' (takeover (p_os P i) l (p_id P i) (p_tn P i) (p_dur P) t)"
        "ls_resourceVersion l' \<notin> used (srv s)"
    using sn by (auto simp: seen_def)
  then show ?thesis
  proof cases
    case no
    then show ?thesis using server_update(1) [OF srv req] by (auto intro!: linv_read [OF inv])
  next
    case yes
    then have "backed cur (p_dur P) v (p_id P i) (now s) (written_until (p_dur P) t)"
      by (simp add: backed_def held_until_same_spec held_until_takeover t)
    with yes server_update(1) [OF srv req] show ?thesis
      by (auto intro!: linv_write [OF inv] not_live_expired [OF _ ex t] simp: same_spec_sel ids split: option.splits)
  qed
qed

lemma linv_renew:
  assumes inv: "linv P cur used s" and srv: "lease_server (p_api P) cur used" and ids: "inj (p_id P)"
    and ph: "ph s i = RenewSaw u tg l" and t: "tg \<le> t" "t \<le> now s"
    and req: "la_update (p_api P) c (l\<lparr>ls_renewTime := Some t\<rparr>) (srv s) = (r, v)"
    and u': "lease_until (l\<lparr>ls_renewTime := Some t\<rparr>) (p_dur P) = Some u'"
  shows "linv P cur used (move s i (Holding (if r = None then u' else u)) v)"
proof -
  from linv_phase [OF inv, of i] ph
  have bk: "backed cur (p_dur P) (srv s) (p_id P i) (now s) u" and sn: "seen cur used (srv s) l"
    and h: "holderOf l = p_id P i" and tg: "tg \<le> now s"
    and hu: "tg \<le> u \<Longrightarrow> held_until (p_dur P) l (p_id P i) tg u" by auto
  from server_update(2) [OF srv req] consider
    (no) "cur v = cur (srv s)" "r \<noteq> None"
    | (yes) l' where "cur (srv s) = Some l" "cur v = Some l'" "same_spec l' (l\<lparr>ls_renewTime := Some t\<rparr>)"
        "ls_resourceVersion l' \<notin> used (srv s)"
    using sn by (auto simp: seen_def)
  then show ?thesis
  proof cases
    case no
    then show ?thesis using server_update(1) [OF srv req] bk
      by (auto intro!: linv_read [OF inv] backed_mono [OF bk])
  next
    case yes
    from held_until_renewed [OF t(2) u'] h yes(3)
    have "held_until (p_dur P) l' (p_id P i) (now s) u'" by (simp add: held_until_same_spec)
    moreover have "held_until (p_dur P) l' (p_id P i) (now s) u" if "now s \<le> u"
      using held_until_renewed_later [OF hu t] that tg yes(3) by (simp add: held_until_same_spec)
    ultimately have "backed cur (p_dur P) v (p_id P i) (now s) (if r = None then u' else u)"
      using yes(2) by (auto simp: backed_def)
    moreover have "not_live cur (p_dur P) (srv s) (p_id P j) (now s)" if "j \<noteq> i" for j
      using not_live_other [where cur = cur, OF yes(1)] h ids that by (metis injD)
    ultimately show ?thesis
      using yes server_update(1) [OF srv req] h
      by (auto intro!: linv_write [OF inv] simp: same_spec_sel ids holderOf_renewed)
  qed
qed

lemma linv_delete:
  assumes inv: "linv P cur used s" and srv: "lease_server (p_api P) cur used" and ids: "inj (p_id P)"
    and ph: "ph s i = ReleaseSaw u l" and timely: "now s \<le> u"
    and req: "la_delete (p_api P) c (ls_uid l) (srv s) = (r, v)"
  shows "linv P cur used (move s i Finished v)" and "linv P cur used (move s i (Releasing u) v)"
proof -
  from linv_phase [OF inv, of i] ph timely
  obtain l0 where l0: "cur (srv s) = Some l0" "holderOf l0 = p_id P i"
    and bk: "backed cur (p_dur P) (srv s) (p_id P i) (now s) u"
    by (auto simp: backed_def held_until_def)
  have "linv P cur used (move s i p v)" if p: "p = Finished \<or> p = Releasing u" for p
    using server_delete(2) [OF srv req]
  proof (elim disjE)
    assume same: "cur v = cur (srv s) \<and> r \<noteq> None"
    then have "phase_ok cur used (p_dur P) v (now s) (p_id P i) p"
      using p backed_backed_if_own [OF backed_mono [OF bk, of v "now s"]] by auto
    with same show ?thesis using server_delete(1) [OF srv req] by (auto intro!: linv_read [OF inv])
  next
    assume gone: "\<exists>l0. cur (srv s) = Some l0 \<and> ls_uid l0 = ls_uid l \<and> cur v = None"
    then have "phase_ok cur used (p_dur P) v (now s) (p_id P i) p" using p by (auto simp: backed_if_own_def)
    moreover have "not_live cur (p_dur P) (srv s) (p_id P j) (now s)" if "j \<noteq> i" for j
      using not_live_other [where cur = cur, OF l0(1)] l0(2) ids that by (metis injD)
    ultimately show ?thesis
      using gone server_delete(1) [OF srv req] ids by (auto intro!: linv_write [OF inv])
  qed
  then show "linv P cur used (move s i Finished v)" "linv P cur used (move s i (Releasing u) v)" by blast+
qed

lemma linv_tick: "linv P cur used s \<Longrightarrow> 0 \<le> d \<Longrightarrow> linv P cur used (s\<lparr>now := now s + d\<rparr>)"
  unfolding linv_def by (auto intro: phase_frame)

lemma backed_of_releasing:
  assumes "linv P cur used s" and "releasing (ph s i) u"
  shows "backed_if_own cur (p_dur P) (srv s) (p_id P i) (now s) u"
  using linv_phase [OF assms(1), of i] assms(2) by (auto simp: releasing_def intro: backed_backed_if_own)

lemma linv_step:
  assumes step: "lstep P strict s s'" and strict: strict and inv: "linv P cur used s"
    and srv: "lease_server (p_api P) cur used" and ids: "inj (p_id P)"
  shows "linv P cur used s'"
  using step
proof cases
  case (tick d)
  with inv show ?thesis by (simp add: linv_tick)
next
  case (acq_free i t c e v)
  with server_get(1,2) [OF srv acq_free(4)] show ?thesis by (auto intro!: linv_read [OF inv])
next
  case (acq_expired i t c l v)
  note get = server_get [OF srv acq_expired(4)]
  from seen_current [OF srv get(3) get(1,2)] have "seen cur used v l" by simp
  with acq_expired get(1,2) show ?thesis by (auto intro!: linv_read [OF inv])
next
  case (acq_refused i c r v)
  with server_get(1,2) [OF srv acq_refused(3)] show ?thesis by (auto intro!: linv_read [OF inv])
next
  case (acq_create i t c r v)
  then show ?thesis using linv_create [OF inv srv ids] by simp
next
  case (acq_update i t l c r v)
  then show ?thesis using linv_takeover [OF inv srv ids] by simp
next
  case (renew_own i u c l v)
  note get = server_get [OF srv renew_own(3)]
  from linv_phase [OF inv, of i] renew_own(2) have bk: "backed cur (p_dur P) (srv s) (p_id P i) (now s) u"
    by simp
  from seen_current [OF srv get(3) get(1,2)] have "seen cur used v l" by simp
  moreover have "held_until (p_dur P) l (p_id P i) (now s) u" if "now s \<le> u"
    using bk that get(3) [of l] by (auto simp: backed_def)
  ultimately show ?thesis
    using renew_own get(1,2) bk by (auto intro!: linv_read [OF inv] intro: backed_mono)
next
  case (renew_skip i u c r v)
  with server_get(1,2) [OF srv renew_skip(3)] linv_phase [OF inv, of i] show ?thesis
    by (auto intro!: linv_read [OF inv] intro: backed_mono)
next
  case (renew_write i u tg l t c r v)
  obtain u' where "lease_until (l\<lparr>ls_renewTime := Some t\<rparr>) (p_dur P) = Some u'"
    by (simp add: lease_until_def)
  with renew_write linv_renew [OF inv srv ids renew_write(2-5)] show ?thesis
    by (auto split: option.splits if_splits)
next
  case (release_own i u c l v)
  note get = server_get [OF srv release_own(3)]
  from backed_of_releasing [OF inv release_own(2)] get(3) [of l] release_own(4)
  have "backed cur (p_dur P) (srv s) (p_id P i) (now s) u" by (auto simp: backed_if_own_def backed_def)
  with release_own get(1,2) show ?thesis by (auto intro!: linv_read [OF inv] intro: backed_mono)
next
  case (release_none i u c r v)
  with server_get(1,2) [OF srv release_none(3)] show ?thesis by (auto intro!: linv_read [OF inv])
next
  case (release_unread i u c e v)
  note get = server_get(1,2) [OF srv release_unread(3)]
  from backed_if_own_mono [OF backed_of_releasing [OF inv release_unread(2)] get(1) order_refl] release_unread(1) get show ?thesis
    by (auto intro!: linv_read [OF inv])
next
  case (release_delete i u l c r v)
  then show ?thesis using linv_delete [OF inv srv ids release_delete(2)] strict by simp
next
  case (release_end i u)
  then show ?thesis by (auto intro!: linv_read [OF inv])
qed

lemma linv_reach:
  assumes "lreach P strict s0 s" and strict and "linv P cur used s0"
    and "lease_server (p_api P) cur used" and "inj (p_id P)"
  shows "linv P cur used s"
  using assms by (induction rule: lreach.induct) (auto intro: linv_step)

lemma linv_exclusive:
  assumes inv: "linv P cur used s" and ids: "inj (p_id P)" and own: "owns s i" "owns s j"
  shows "i = j"
proof -
  have holder: "\<exists>l. cur (srv s) = Some l \<and> holderOf l = p_id P k" if "owns s k" for k
  proof -
    from that obtain u where u: "claim (ph s k) = Some u" "now s \<le> u" by (auto simp: owns_def)
    from linv_phase [OF inv, of k] u(1) have "backed cur (p_dur P) (srv s) (p_id P k) (now s) u"
      by (cases "ph s k") auto
    with u(2) show ?thesis by (auto simp: backed_def held_until_def)
  qed
  from holder [OF own(1)] holder [OF own(2)] have "p_id P i = p_id P j" by auto
  with ids show ?thesis by (simp add: inj_eq)
qed


section \<open>An API server in memory\<close>

text \<open>
  A server that satisfies the hypotheses: the stored lease and the number of writes so far.
  Version and UID are that number in unary.
\<close>

type_synonym memory = "lease option \<times> nat"

definition tally :: "nat \<Rightarrow> string" where "tally n = replicate n (CHR ''x'')"

definition mem_cur :: "memory \<Rightarrow> lease option" where
  "mem_cur m = map_option (\<lambda>l. l\<lparr>ls_resourceVersion := tally (snd m)\<rparr>) (fst m)"

definition mem_used :: "memory \<Rightarrow> string set" where
  "mem_used m = tally ` {..snd m}"

definition refused :: "status_reason \<Rightarrow> goerr" where
  "refused r = ErrStatus \<lparr>st_code = 409, st_reason = r, st_retryAfter = None, st_text = ''refused''\<rparr>"

definition mem_api :: "memory lease_api" where
  "mem_api =
    \<lparr>la_get = (\<lambda>c m. (case mem_cur m of None \<Rightarrow> Inl not_found | Some l \<Rightarrow> Inr l, m)),
     la_create = (\<lambda>c l m. case mem_cur m of
         None \<Rightarrow> (None, (Some (l\<lparr>ls_uid := tally (snd m)\<rparr>), Suc (snd m)))
       | Some _ \<Rightarrow> (Some (refused AlreadyExists), m)),
     la_update = (\<lambda>c l m. case mem_cur m of
         None \<Rightarrow> (Some not_found, m)
       | Some l0 \<Rightarrow>
           if ls_resourceVersion l0 = ls_resourceVersion l
           then (None, (Some (l\<lparr>ls_uid := ls_uid l0\<rparr>), Suc (snd m)))
           else (Some (refused Conflict), m)),
     la_delete = (\<lambda>c u m. case mem_cur m of
         None \<Rightarrow> (Some not_found, m)
       | Some l0 \<Rightarrow> if ls_uid l0 = u then (None, (None, Suc (snd m))) else (Some (refused Conflict), m))\<rparr>"

lemma tally_inj [simp]: "tally m = tally n \<longleftrightarrow> m = n"
  by (auto simp: tally_def)

lemma has_reason_not_found [simp]: "has_reason NotFound not_found"
  by (simp add: has_reason_def not_found_def)

lemma same_spec_update:
  "same_spec (l\<lparr>ls_uid := u, ls_resourceVersion := v\<rparr>) l"
  by (cases l) (simp add: same_spec_def)

lemma mem_server: "lease_server mem_api mem_cur mem_used"
proof -
  have "server_versions mem_cur mem_used"
    by (auto simp: server_versions_def mem_cur_def mem_used_def)
  moreover have "server_gets mem_api mem_cur mem_used"
    by (auto simp: server_gets_def mem_api_def split: option.splits)
  moreover have "server_creates mem_api mem_cur mem_used"
    by (auto simp: server_creates_def mem_api_def mem_cur_def mem_used_def same_spec_update
          split: option.splits)
  moreover have "server_updates mem_api mem_cur mem_used"
    by (auto simp: server_updates_def mem_api_def mem_cur_def mem_used_def same_spec_update
          split: option.splits if_splits)
  moreover have "server_deletes mem_api mem_cur mem_used"
    by (auto simp: server_deletes_def mem_api_def mem_cur_def mem_used_def split: option.splits if_splits)
  ultimately show ?thesis by (simp add: lease_server_def)
qed

definition mem_proto :: "memory proto" where
  "mem_proto = \<lparr>p_api = mem_api, p_dur = DefaultLeaseDuration,
     p_os = (\<lambda>i. sample_os), p_id = tally, p_tn = (\<lambda>i. ''suite'')\<rparr>"

definition mem_init :: "memory lsys" where
  "mem_init = \<lparr>srv = (None, 0), now = 0, ph = (\<lambda>i. Idle)\<rparr>"

lemma mem_proto_inj: "inj (p_id mem_proto)"
  by (simp add: mem_proto_def inj_def)

lemma lreach_two: "lstep P st s s1 \<Longrightarrow> lstep P st s1 s2 \<Longrightarrow> lreach P st s s2"
  by (blast intro: lreach.intros)

section \<open>Properties\<close>

text \<open>
  C1. Mutual exclusion. For every API server with the documented semantics, any number of
  runs with different identities, starting with no run inside the protocol and whatever
  lease is stored, under every interleaving of their requests, every delay and every lost
  reply: at no instant do two runs both hold the lock for a period that has not ended. The
  runs' clocks agree, and a run sends its deletes only within the period it holds the lock.
\<close>

theorem lease_mutual_exclusion:
  assumes "lease_server (p_api P) cur used" and "inj (p_id P)"
    and "\<And>i. ph s0 i = Idle" and "lreach P True s0 s"
    and "owns s i" and "owns s j"
  shows "i = j"
proof -
  have "linv P cur used s0" by (simp add: linv_def assms(3))
  from linv_reach [OF assms(4) TrueI this assms(1,2)] show ?thesis
    by (rule linv_exclusive [OF _ assms(2) assms(5,6)])
qed

definition mem_taken :: "memory lsys" where
  "mem_taken =
    \<lparr>srv = (Some ((newLease sample_os (tally 1) ''suite'' DefaultLeaseDuration 0)\<lparr>ls_uid := tally 0\<rparr>), 1),
     now = 0, ph = (\<lambda>i. Idle)(1 := Holding (written_until DefaultLeaseDuration 0))\<rparr>"

lemma mem_taken_reach: "lreach mem_proto strict mem_init mem_taken"
proof -
  let ?s1 = "move mem_init 1 (Saw 0 None) (None, 0)"
  have "lstep mem_proto strict mem_init ?s1"
    by (rule lstep.acq_free [where e = not_found])
      (simp_all add: mem_init_def mem_proto_def mem_api_def mem_cur_def)
  moreover have "lstep mem_proto strict ?s1
     (move ?s1 1 (case None of None \<Rightarrow> Holding (written_until (p_dur mem_proto) 0) | Some (e::goerr) \<Rightarrow> Idle)
        (srv mem_taken))"
    by (rule lstep.acq_create [where t = 0])
      (simp_all add: mem_init_def mem_proto_def mem_api_def mem_cur_def move_def mem_taken_def)
  ultimately have "lreach mem_proto strict mem_init
     (move ?s1 1 (Holding (written_until (p_dur mem_proto) 0)) (srv mem_taken))"
    by (auto intro: lreach_two)
  then show ?thesis by (simp add: move_def mem_taken_def mem_init_def mem_proto_def)
qed

theorem lease_mutual_exclusion_witness:
  "lreach mem_proto True mem_init mem_taken \<and> {j. owns mem_taken j} = {1}"
proof -
  have own: "owns mem_taken 1"
    by (simp add: owns_def mem_taken_def written_until_default)
      (simp add: DefaultLeaseDuration_def minute_def second_def)
  have "j = 1" if "owns mem_taken j" for j
    using lease_mutual_exclusion [of mem_proto mem_cur mem_used mem_init mem_taken j 1] that own
      mem_server mem_proto_inj mem_taken_reach
    by (simp add: mem_proto_def mem_init_def)
  with own mem_taken_reach show ?thesis by blast
qed


definition late :: int where "late = DefaultLeaseDuration + 10 * second"

definition mem_lease :: lease where
  "mem_lease = (newLease sample_os (tally 1) ''suite'' DefaultLeaseDuration 0)
     \<lparr>ls_uid := tally 0, ls_resourceVersion := tally 1\<rparr>"

lemma late_facts: "late > DefaultLeaseDuration" "0 \<le> late" "DefaultLeaseDuration > 0"
  by (simp_all add: late_def DefaultLeaseDuration_def minute_def second_def)

lemma mem_lease_facts [simp]:
  "ls_uid mem_lease = tally 0" "ls_resourceVersion mem_lease = tally 1" "holderOf mem_lease = tally 1"
  "lease_until mem_lease d = Some DefaultLeaseDuration"
proof -
  have "holderOf (l\<lparr>ls_uid := a, ls_resourceVersion := b\<rparr>) = holderOf l"
    "lease_until (l\<lparr>ls_uid := a, ls_resourceVersion := b\<rparr>) d = lease_until l d" for l a b
    by (rule same_spec_sel [OF same_spec_update] lease_until_same_spec [OF same_spec_update])+
  then show "holderOf mem_lease = tally 1" "lease_until mem_lease d = Some DefaultLeaseDuration"
    by (simp_all add: mem_lease_def written_until_default)
qed (simp_all add: mem_lease_def)

lemma mem_sels [simp]:
  "p_api mem_proto = mem_api" "p_dur mem_proto = DefaultLeaseDuration" "p_id mem_proto = tally"
  by (simp_all add: mem_proto_def)

lemma mem_requests:
  "la_get mem_api c (Some (mem_lease\<lparr>ls_resourceVersion := []\<rparr>), Suc 0) =
     (Inr mem_lease, (Some (mem_lease\<lparr>ls_resourceVersion := []\<rparr>), Suc 0))"
  "la_update mem_api c (takeover os mem_lease h tn d t) (Some (mem_lease\<lparr>ls_resourceVersion := []\<rparr>), Suc 0) =
     (None, (Some ((takeover os mem_lease h tn d t)\<lparr>ls_uid := tally 0\<rparr>), 2))"
  "la_delete mem_api c (tally 0) (Some (l\<lparr>ls_uid := tally 0\<rparr>), 2) = (None, (None, 3))"
  "la_get mem_api c (None, n) = (Inl not_found, (None, n))"
  "la_create mem_api c l (None, n) = (None, (Some (l\<lparr>ls_uid := tally n\<rparr>), Suc n))"
  by (simp_all add: mem_api_def mem_cur_def mem_lease_def numeral_2_eq_2 numeral_3_eq_3)

text \<open>
  C23. Without that proviso the code does not guarantee mutual exclusion. \<^verbatim>\<open>Release\<close> protects
  its delete by a UID precondition only, and a takeover is an update, which keeps the UID: a
  run whose delete is delayed past the end of its period removes the live lease of the run
  that took over, and a third run can then acquire the lock as well.
\<close>

theorem late_delete_breaks_exclusion:
  "\<exists>s. lreach mem_proto False mem_init s \<and> owns s 2 \<and> owns s 3"
proof -
  let ?m = "(Some (mem_lease\<lparr>ls_resourceVersion := []\<rparr>), 1) :: memory"
  let ?L = "takeover (p_os mem_proto 2) mem_lease (p_id mem_proto 2) (p_tn mem_proto 2) (p_dur mem_proto) late"
  let ?u = "written_until DefaultLeaseDuration late"
  have srv: "srv mem_taken = ?m" and ph: "ph mem_taken 1 = Holding DefaultLeaseDuration"
    and idle: "ph mem_taken 2 = Idle" "ph mem_taken 3 = Idle"
    by (simp_all add: mem_taken_def mem_lease_def newLease_def applyLeaseSpec_def written_until_default)
  define s1 where "s1 = move mem_taken 1 (ReleaseSaw DefaultLeaseDuration mem_lease) ?m"
  define s2 where "s2 = s1\<lparr>now := now s1 + late\<rparr>"
  define s3 where "s3 = move s2 2 (Saw late (Some mem_lease)) ?m"
  define s4 where "s4 = move s3 2 (Holding ?u) (Some (?L\<lparr>ls_uid := tally 0\<rparr>), 2)"
  define s5 where "s5 = move s4 1 Finished (None, 3)"
  define s6 where "s6 = move s5 3 (Saw late None) (None, 3)"
  define s7 where "s7 = move s6 3 (Holding ?u)
    (Some (newLease (p_os mem_proto 3) (p_id mem_proto 3) (p_tn mem_proto 3) (p_dur mem_proto) late
       \<lparr>ls_uid := tally 3\<rparr>), 4)"
  note s = s1_def s2_def s3_def s4_def s5_def s6_def s7_def
  have now: "now mem_taken = 0" by (simp add: mem_taken_def)
  have "lstep mem_proto False mem_taken s1"
    unfolding s1_def by (rule lstep.release_own) (simp_all add: ph [simplified] releasing_def srv mem_requests)
  moreover have "lstep mem_proto False s1 s2"
    unfolding s2_def by (rule lstep.tick [OF late_facts(2)])
  moreover have "lstep mem_proto False s2 s3"
    unfolding s3_def by (rule lstep.acq_expired)
      (simp_all add: s2_def s1_def move_def idle now mem_requests leaseExpired_def late_facts)
  moreover have "lstep mem_proto False s3 s4"
    unfolding s4_def using lstep.acq_update [of s3 2 late mem_lease mem_proto CtxRoot None] 
    by (simp add: s3_def move_def mem_requests)
  moreover have "lstep mem_proto False s4 s5"
    unfolding s5_def using lstep.release_delete [of s4 1 DefaultLeaseDuration mem_lease False mem_proto CtxRoot None "(None, 3)"]
    by (simp add: s4_def s3_def s2_def s1_def move_def mem_requests)
  moreover have "lstep mem_proto False s5 s6"
    unfolding s6_def by (rule lstep.acq_free [where e = not_found])
      (simp_all add: s5_def s4_def s3_def s2_def s1_def move_def idle now mem_requests)
  moreover have "lstep mem_proto False s6 s7"
    unfolding s7_def using lstep.acq_create [of s6 3 late mem_proto CtxRoot None]
    by (simp add: s6_def move_def mem_requests)
  ultimately have "lreach mem_proto False mem_init s7"
    using mem_taken_reach [of False] by (meson lreach.lreach_step)
  moreover have "owns s7 2" "owns s7 3"
    using late_facts(2,3) by (simp_all add: owns_def s move_def now written_until_default)
  ultimately show ?thesis by blast
qed


section \<open>The handlers take the steps of the protocol\<close>

lemma move_move [simp]: "move (move s i p v) i q u = move s i q u"
  by (simp add: move_def)

lemma move_sels [simp]: "srv (move s i p v) = v" "now (move s i p v) = now s" "ph (move s i p v) i = p"
  by (simp_all add: move_def)

lemma lreach_one: "lstep P st s s1 \<Longrightarrow> lreach P st s s1"
  by (blast intro: lreach.intros)

lemma lockedError_steps:
  assumes "lockedError os (p_api P) c w = Some (r, w')" and "est w = srv s" and "ph s i = Idle"
  shows "lstep P strict s (move s i Idle (est w')) \<and> r \<noteq> None"
  using assms lstep.acq_refused [of s i P c]
  by (cases "la_get (p_api P) c (srv s)")
    (auto simp: lockedError_def lease_io split: sum.splits)

lemma acquire_create_steps:
  assumes run: "io_bind (leaseCreate (p_api P) c (newLease (p_os P i) (p_id P i) (p_tn P i) (p_dur P) t))
      (\<lambda>e. if is_reason AlreadyExists e then lockedError os (p_api P) c else io_ret (map_option f e)) w
      = Some (r, w')"
    and ph: "ph s i = Saw t None" and est: "est w = srv s"
  shows "lreach P strict s (move s i
    (case r of None \<Rightarrow> Holding (written_until (p_dur P) t) | Some e \<Rightarrow> Idle) (est w'))"
proof -
  obtain e w1 where req: "la_create (p_api P) c (newLease (p_os P i) (p_id P i) (p_tn P i) (p_dur P) t) (srv s) = (e, est w1)"
    and rest: "(if is_reason AlreadyExists e then lockedError os (p_api P) c
       else io_ret (map_option f e)) w1 = Some (r, w')"
    using run est by (simp add: lease_io) (metis (no_types, lifting) prod.collapse world.select_convs(2) world.surjective world.update_convs(2))
  let ?s1 = "move s i (case e of None \<Rightarrow> Holding (written_until (p_dur P) t) | Some e \<Rightarrow> Idle) (est w1)"
  have step: "lstep P strict s ?s1" by (rule lstep.acq_create [OF ph req])
  show ?thesis
  proof (cases "is_reason AlreadyExists e")
    case True
    then have "e \<noteq> None" by (cases e) auto
    with lockedError_steps [of os P c w1 r w' ?s1 i strict] True rest
    have "lstep P strict ?s1 (move s i Idle (est w'))" "r \<noteq> None" by auto
    with lreach_two [OF step] show ?thesis by auto
  next
    case False
    with rest step show ?thesis by (auto simp: io_simps intro: lreach_one split: option.splits)
  qed
qed

lemma acquire_update_steps:
  assumes run: "io_bind (leaseUpdate (p_api P) c (takeover (p_os P i) l (p_id P i) (p_tn P i) (p_dur P) t))
      (\<lambda>e. if is_reason Conflict e then lockedError os (p_api P) c else io_ret (map_option f e)) w
      = Some (r, w')"
    and ph: "ph s i = Saw t (Some l)" and est: "est w = srv s"
  shows "lreach P strict s (move s i
    (case r of None \<Rightarrow> Holding (written_until (p_dur P) t) | Some e \<Rightarrow> Idle) (est w'))"
proof -
  obtain e w1 where req: "la_update (p_api P) c (takeover (p_os P i) l (p_id P i) (p_tn P i) (p_dur P) t) (srv s) = (e, est w1)"
    and rest: "(if is_reason Conflict e then lockedError os (p_api P) c
       else io_ret (map_option f e)) w1 = Some (r, w')"
    using run est by (simp add: lease_io) (metis (no_types, lifting) prod.collapse world.select_convs(2) world.surjective world.update_convs(2))
  let ?s1 = "move s i (case e of None \<Rightarrow> Holding (written_until (p_dur P) t) | Some e \<Rightarrow> Idle) (est w1)"
  have step: "lstep P strict s ?s1" by (rule lstep.acq_update [OF ph req])
  show ?thesis
  proof (cases "is_reason Conflict e")
    case True
    then have "e \<noteq> None" by (cases e) auto
    with lockedError_steps [of os P c w1 r w' ?s1 i strict] True rest
    have "lstep P strict ?s1 (move s i Idle (est w'))" "r \<noteq> None" by auto
    with lreach_two [OF step] show ?thesis by auto
  next
    case False
    with rest step show ?thesis by (auto simp: io_simps intro: lreach_one split: option.splits)
  qed
qed

lemma lreach_cons: "lstep P st s s1 \<Longrightarrow> lreach P st s1 s2 \<Longrightarrow> lreach P st s s2"
  by (rotate_tac, induction rule: lreach.induct) (auto intro: lreach.intros)

text \<open>
  C18. The acquisition attempt of the code takes exactly the steps of the protocol: run without
  interruption from an idle run, it ends in the state in which that run holds the lock until
  the end of the lease it wrote when it reports success, and is idle again when it reports an
  error, with the server in the state that its requests left.
\<close>

theorem acquire_attempt_refines:
  assumes run: "tryAcquireLease (p_os P i) rt (p_api P) c (p_id P i) (p_tn P i) (p_dur P) w = Some (r, w')"
    and est: "est w = srv s" and idle: "ph s i = Idle"
    and clock: "\<And>v. rt_now rt v = (now s, v)"
  shows "lreach P strict s (move s i
    (case r of None \<Rightarrow> Holding (written_until (p_dur P) (now s)) | Some e \<Rightarrow> Idle) (est w'))"
proof -
  obtain g v where g: "la_get (p_api P) c (srv s) = (g, v)" by fastforce
  note stay = lreach_one [OF lstep.acq_refused [OF idle g, of strict]]
  note simps = tryAcquireLease_def io_bind_apply [of "timeNow rt"] io_bind_apply [of "call LeaseGet f" for f]
    leaseGet_def call_apply timeNow_apply clock est g io_ret_apply
  show ?thesis
  proof (cases g)
    case (Inl e)
    show ?thesis
    proof (cases "has_reason NotFound e")
      case True
      with idle g Inl have "lstep P strict s (move s i (Saw (now s) None) v)"
        by (auto intro: lstep.acq_free)
      moreover have "lreach P strict (move s i (Saw (now s) None) v) (move s i
         (case r of None \<Rightarrow> Holding (written_until (p_dur P) (now s)) | Some e \<Rightarrow> Idle) (est w'))"
        using run Inl True acquire_create_steps [of P c i "now s" _ _ _ r w' "move s i (Saw (now s) None) v" strict]
        by (auto simp: simps)
      ultimately show ?thesis by (rule lreach_cons)
    next
      case False
      with run Inl stay show ?thesis by (auto simp: simps)
    qed
  next
    case (Inr l)
    show ?thesis
    proof (cases "leaseExpired l (now s) (p_dur P)")
      case True
      with idle g Inr have "lstep P strict s (move s i (Saw (now s) (Some l)) v)"
        by (auto intro: lstep.acq_expired)
      moreover have "lreach P strict (move s i (Saw (now s) (Some l)) v) (move s i
         (case r of None \<Rightarrow> Holding (written_until (p_dur P) (now s)) | Some e \<Rightarrow> Idle) (est w'))"
        using run Inr True acquire_update_steps [of P c i l "now s" _ _ _ r w' "move s i (Saw (now s) (Some l)) v" strict]
        by (auto simp: simps)
      ultimately show ?thesis by (rule lreach_cons)
    next
      case False
      with run Inr stay show ?thesis by (auto simp: simps)
    qed
  qed
qed


theorem acquire_attempt_refines_witness:
  "\<exists>w'. tryAcquireLease sample_os \<lparr>rt_now = (\<lambda>v. (0, v)), rt_ctxErr = (\<lambda>c v. (None, v)),
        rt_select = (\<lambda>c d v. (None, v)), rt_order = (\<lambda>v i. 0)\<rparr> mem_api CtxRoot (tally 1) ''suite'' DefaultLeaseDuration
        \<lparr>tr = [], est = (None, 0)\<rparr> = Some (None, w') \<and>
     lreach mem_proto True mem_init (move mem_init 1 (Holding DefaultLeaseDuration) (est w'))"
proof -
  let ?rt = "\<lparr>rt_now = (\<lambda>v. (0, v)), rt_ctxErr = (\<lambda>c v. (None, v)), rt_select = (\<lambda>c d v. (None, v)), rt_order = (\<lambda>v i. 0)\<rparr>
    :: memory runtime"
  let ?w = "\<lparr>tr = [], est = (None, 0)\<rparr> :: (event, memory) world"
  obtain w' where run: "tryAcquireLease sample_os ?rt mem_api CtxRoot (tally 1) ''suite''
     DefaultLeaseDuration ?w = Some (None, w')"
    by (simp add: tryAcquireLease_def lease_io mem_requests)
  then have "tryAcquireLease (p_os mem_proto 1) ?rt (p_api mem_proto) CtxRoot (p_id mem_proto 1)
     (p_tn mem_proto 1) (p_dur mem_proto) ?w = Some (None, w')"
    by (simp add: mem_proto_def)
  from acquire_attempt_refines [OF this, of mem_init True] run show ?thesis
    by (auto simp: mem_init_def written_until_default)
qed

lemma release_attempt_steps:
  assumes run: "releaseAttempt (p_api P) c (p_id P i) w = Some (r, w')"
    and est: "est w = srv s" and hold: "releasing (ph s i) u" and timely: "strict \<Longrightarrow> now s \<le> u"
  shows "lreach P strict s (move s i (if r = None then Finished else Releasing u) (est w'))"
proof -
  obtain g v where g: "la_get (p_api P) c (srv s) = (g, v)" by fastforce
  show ?thesis
  proof (cases "\<exists>l. g = Inr l \<and> holderOf l = p_id P i")
    case True
    then obtain l where l: "g = Inr l" "holderOf l = p_id P i" by blast
    let ?req = "la_delete (p_api P) c (ls_uid l) v"
    let ?after = "if fst ?req = None \<or> is_reason NotFound (fst ?req) \<or> is_reason Conflict (fst ?req) then Finished else Releasing u"
    have "lstep P strict s (move s i (ReleaseSaw u l) v)"
      using hold g l by (auto intro: lstep.release_own)
    moreover have "lstep P strict (move s i (ReleaseSaw u l) v) (move (move s i (ReleaseSaw u l) v) i ?after (snd ?req))"
      by (rule lstep.release_delete) (use timely in auto)
    ultimately have "lreach P strict s (move s i ?after (snd ?req))" using lreach_two by fastforce
    with run est g l show ?thesis
      by (auto simp: releaseAttempt_def lease_io split: if_splits)
  next
    case False
    have none: "lreach P strict s (move s i Finished v)"
      if "case g of Inl e \<Rightarrow> has_reason NotFound e | Inr l \<Rightarrow> holderOf l \<noteq> p_id P i"
      by (rule lreach_one [OF lstep.release_none [OF hold g that]])
    have unread: "lreach P strict s (move s i (Releasing u) v)" if "g = Inl e" for e
      using lstep.release_unread [OF hold] g that by (auto intro: lreach_one)
    from False run est g none unread show ?thesis
      by (auto simp: releaseAttempt_def lease_io split: sum.splits if_splits)
  qed
qed

text \<open>
  The retry loop around an operation, for what it does to the outside: \<open>I\<close> holds between two attempts, \<open>F\<close> once the loop has
  ended. The runtime (clock, context, timer) leaves the outside alone.
\<close>

definition outside_runtime :: "'e runtime \<Rightarrow> bool" where
  "outside_runtime rt \<longleftrightarrow> (\<forall>c v. snd (rt_ctxErr rt c v) = v) \<and> (\<forall>c d v. snd (rt_select rt c d v) = v)"

lemma do_loop_outside:
  assumes rt: "outside_runtime rt" and stop: "\<And>v. I v \<Longrightarrow> F v"
    and fn: "\<And>w x err w'. fn w = Some ((x, err), w') \<Longrightarrow> I (est w) \<Longrightarrow> if err = None then F (est w') else I (est w')"
  shows "do_loop rt c cfg fn a d x0 e0 w = Some ((x, err), w') \<Longrightarrow> I (est w) \<Longrightarrow> F (est w')"
proof (induction "nat (MaxRetries cfg + 1 - a)" arbitrary: a d x0 e0 w)
  case 0
  then show ?case by (auto simp: do_loop.simps [of rt c cfg] io_simps stop)
next
  case (Suc n)
  then have a: "a \<le> MaxRetries cfg" and n: "n = nat (MaxRetries cfg + 1 - (a + 1))" by auto
  have quiet: "w\<lparr>est := snd (rt_ctxErr rt c (est w))\<rparr> = w" using rt by (simp add: outside_runtime_def)
  show ?case
  proof (cases "fst (rt_ctxErr rt c (est w))")
    case (Some e)
    with Suc.prems do_loop_ctx [OF a Some, of fn d x0 e0] quiet show ?thesis by (auto intro: stop)
  next
    case None
    show ?thesis
    proof (cases "fn w")
      case (Some r)
      then obtain x1 err1 w1 where f: "fn w = Some ((x1, err1), w1)" by (cases r) auto
      obtain dn w2 where dn: "waitFor rt c d w1 = Some (dn, w2)" and w2: "est w2 = est w1"
        using rt by (auto simp: waitFor_apply outside_runtime_def)
      note ok = fn [OF f Suc.prems(2)]
      show ?thesis
      proof (cases "\<exists>e. err1 = Some e \<and> IsRetryable e \<and> a < MaxRetries cfg")
        case False
        then have "do_loop rt c cfg fn a d x0 e0 w = Some ((x1, err1), w1)"
          using a f quiet by (intro do_loop_stop [OF a None]) auto
        with Suc.prems(1) ok show ?thesis by (auto intro: stop split: if_splits)
      next
        case True
        then obtain e where e: "err1 = Some e" "IsRetryable e" "a < MaxRetries cfg" by blast
        have run: "do_loop rt c cfg fn a d x0 e0 w = (case dn of Some e' \<Rightarrow> Some ((x1, Some e'), w2)
            | None \<Rightarrow> do_loop rt c cfg fn (a + 1) (next_wait cfg d) x1 (Some e) w2)"
          using f quiet e by (intro do_loop_again [OF e(3) None _ e(2) dn]) simp
        have "I (est w2)" using ok e(1) w2 by simp
        with Suc.prems(1) run Suc.hyps(1) [OF n] show ?thesis by (cases dn) (auto intro: stop)
      qed
    qed (use Suc.prems(1) a None quiet in \<open>simp add: do_loop.simps [of rt c cfg fn a] io_simps\<close>)
  qed
qed

lemma lreach_trans: "lreach P strict s s1 \<Longrightarrow> lreach P strict s1 s2 \<Longrightarrow> lreach P strict s s2"
  by (rotate_tac, induction rule: lreach.induct) (auto intro: lreach.intros)

lemma release_steps:
  assumes run: "Release rt (p_api P) c l w = Some ((err, l'), w')" and fresh: "\<not> ll_released l" "ll_holder l = p_id P i"
    and rt: "outside_runtime rt" and est: "est w = srv s" and hold: "releasing (ph s i) u" and timely: "strict \<Longrightarrow> now s \<le> u"
  shows "lreach P strict s (move s i Finished (est w'))"
proof -
  let ?I = "\<lambda>v. \<exists>p. releasing p u \<and> lreach P strict s (move s i p v)"
  let ?F = "\<lambda>v. lreach P strict s (move s i Finished v)"
  let ?fn = "io_bind (releaseAttempt (p_api P) c (p_id P i)) (\<lambda>err. io_ret ((), err))"
  have stop: "?F v" if "?I v" for v
  proof -
    from that obtain p where p: "releasing p u" "lreach P strict s (move s i p v)" by blast
    have "lstep P strict (move s i p v) (move s i Finished v)"
      using lstep.release_end [of "move s i p v" i u P strict] p(1) by simp
    with p(2) show ?thesis by (rule lreach.lreach_step)
  qed
  have fn: "if e = None then ?F (est v') else ?I (est v')" if f: "?fn v = Some ((x, e), v')" and I: "?I (est v)" for v x e v'
  proof -
    from I obtain p where p: "releasing p u" "lreach P strict s (move s i p (est v))" by blast
    from f have "releaseAttempt (p_api P) c (p_id P i) v = Some (e, v')" by (auto simp: io_simps split: option.splits)
    from release_attempt_steps [OF this, of "move s i p (est v)" u strict] p(1) timely
    have "lreach P strict (move s i p (est v)) (move s i (if e = None then Finished else Releasing u) (est v'))" by auto
    with p(2) have "lreach P strict s (move s i (if e = None then Finished else Releasing u) (est v'))" by (rule lreach_trans)
    then show ?thesis by (auto simp: releasing_def)
  qed
  have "s = move s i (ph s i) (srv s)" by (simp add: move_def)
  with hold est have start: "?I (est w)" by (metis lreach.lreach_init)
  from run fresh obtain x where "do_loop rt c DefaultConfig ?fn 0 (InitialWait DefaultConfig) () None w = Some ((x, err), w')"
    by (auto simp: Release_def DoVoid_def Do_def io_simps split: option.splits)
  from do_loop_outside [of rt ?I ?F, OF rt stop fn this start] show ?thesis .
qed

lemma renew_steps:
  assumes run: "renew rt (p_api P) c l w = Some (r, w')" and holder: "ll_holder l = p_id P i"
    and est: "est w = srv s" and hold: "ph s i = Holding u" and clock: "\<And>v. rt_now rt v = (now s, v)"
  shows "\<exists>u'. lreach P strict s (move s i (Holding u') (est w'))"
proof -
  let ?c = "CtxTimeout c renewRequestTimeout"
  obtain g v where g: "la_get (p_api P) ?c (srv s) = (g, v)" by fastforce
  have skip: "lreach P strict s (move s i (Holding u) v)"
    by (rule lreach_one [OF lstep.renew_skip [OF hold g]])
  have renewed: "\<exists>u'. lreach P strict s (move s i (Holding u')
       (snd (la_update (p_api P) ?c (k\<lparr>ls_renewTime := Some (now s)\<rparr>) v)))"
    if k: "g = Inr k" "holderOf k = p_id P i" for k
  proof -
    let ?req = "la_update (p_api P) ?c (k\<lparr>ls_renewTime := Some (now s)\<rparr>) v"
    let ?s1 = "move s i (RenewSaw u (now s) k) v"
    have "lstep P strict s ?s1" using hold g k by (auto intro: lstep.renew_own)
    moreover have "lstep P strict ?s1 (move ?s1 i
        (case (fst ?req, lease_until (k\<lparr>ls_renewTime := Some (now s)\<rparr>) (p_dur P)) of
           (None, Some u') \<Rightarrow> Holding u' | _ \<Rightarrow> Holding u) (snd ?req))"
      by (rule lstep.renew_write) auto
    ultimately have "lreach P strict s (move s i
        (case (fst ?req, lease_until (k\<lparr>ls_renewTime := Some (now s)\<rparr>) (p_dur P)) of
           (None, Some u') \<Rightarrow> Holding u' | _ \<Rightarrow> Holding u) (snd ?req))"
      using lreach_two by fastforce
    then show ?thesis by (auto split: option.splits)
  qed
  from run est g skip renewed show ?thesis
    by (auto simp: renew_def lease_io clock holder Let_def split: sum.splits if_splits)
qed

text \<open>
  C19. The renewal and the release of the code take the steps of the protocol as well. After a renewal the run still holds the
  lock. One attempt of \<^verbatim>\<open>Release\<close> ends the release when it returns nil, and leaves the run releasing, to try again, when it returns an error;
  the whole of \<^verbatim>\<open>Release\<close>, with all its attempts, ends with the run finished. The server is in the state that the requests left.
\<close>

theorem release_and_renew_refine:
  assumes est: "est w = srv s" and clock: "\<And>v. rt_now rt v = (now s, v)" and rt: "outside_runtime rt" and holder: "ll_holder l = p_id P i"
  shows "(ph s i = Holding u \<and> renew rt (p_api P) c l w = Some (r, w')
           \<longrightarrow> (\<exists>u'. lreach P strict s (move s i (Holding u') (est w')))) \<and>
     (releasing (ph s i) u \<and> now s \<le> u \<and> releaseAttempt (p_api P) c (p_id P i) w = Some (e, w')
           \<longrightarrow> lreach P strict s (move s i (if e = None then Finished else Releasing u) (est w'))) \<and>
     (releasing (ph s i) u \<and> now s \<le> u \<and> \<not> ll_released l \<and> Release rt (p_api P) c l w = Some ((err, l'), w')
           \<longrightarrow> lreach P strict s (move s i Finished (est w')))"
  using renew_steps [OF _ holder est _ clock] release_attempt_steps [OF _ est] release_steps [OF _ _ holder rt est] by blast

text \<open>
  A server in memory whose first delete takes effect although its answer is lost: \<^verbatim>\<open>Release\<close> tries again, finds no lease, and ends. The outside also
  holds whether a reply was lost.
\<close>

definition lossy_api :: "(memory \<times> bool) lease_api" where
  "lossy_api =
    \<lparr>la_get = (\<lambda>c (m, b). (fst (la_get mem_api c m), m, b)),
     la_create = (\<lambda>c l (m, b). let (r, m') = la_create mem_api c l m in (r, m', b)),
     la_update = (\<lambda>c l (m, b). let (r, m') = la_update mem_api c l m in (r, m', b)),
     la_delete = (\<lambda>c u (m, b). let (r, m') = la_delete mem_api c u m in (if b then r else Some ErrEOF, m', True))\<rparr>"

definition lossy_proto :: "(memory \<times> bool) proto" where
  "lossy_proto = \<lparr>p_api = lossy_api, p_dur = DefaultLeaseDuration, p_os = (\<lambda>i. sample_os), p_id = tally, p_tn = (\<lambda>i. ''suite'')\<rparr>"

definition lossy_taken :: "(memory \<times> bool) lsys" where
  "lossy_taken = \<lparr>srv = (srv mem_taken, False), now = 0, ph = ph mem_taken\<rparr>"

definition still_rt :: "'e runtime" where
  "still_rt = \<lparr>rt_now = (\<lambda>v. (0, v)), rt_ctxErr = (\<lambda>c v. (None, v)), rt_select = (\<lambda>c d v. (None, v)), rt_order = (\<lambda>v i. 0)\<rparr>"

definition held_lock :: lease_lock where
  "held_lock = \<lparr>ll_holder = tally 1, ll_duration = DefaultLeaseDuration, ll_renewCancelled = False, ll_released = False, ll_releaseErr = None\<rparr>"

lemma still_runtime: "outside_runtime still_rt" "rt_now still_rt v = (0, v)"
  by (simp_all add: outside_runtime_def still_rt_def)

lemma lossy_release:
  "Release still_rt lossy_api CtxRoot held_lock \<lparr>tr = [], est = srv lossy_taken\<rparr> =
     Some ((None, held_lock\<lparr>ll_renewCancelled := True, ll_released := True\<rparr>),
       \<lparr>tr = [LeaseGet (Inr mem_lease), LeaseDelete (tally 0) (Some ErrEOF), Waited CtxRoot (InitialWait DefaultConfig), LeaseGet (Inl not_found)],
        est = ((None, 2), True)\<rparr>)"
proof -
  have srv: "srv lossy_taken = ((Some (mem_lease\<lparr>ls_resourceVersion := []\<rparr>), Suc 0), False)"
    by (simp add: lossy_taken_def mem_taken_def mem_lease_def newLease_def applyLeaseSpec_def)
  have requests: "la_get lossy_api c ((Some (mem_lease\<lparr>ls_resourceVersion := []\<rparr>), Suc 0), False) =
       (Inr mem_lease, (Some (mem_lease\<lparr>ls_resourceVersion := []\<rparr>), Suc 0), False)"
    "la_delete lossy_api c (tally 0) ((Some (mem_lease\<lparr>ls_resourceVersion := []\<rparr>), Suc 0), False) = (Some ErrEOF, (None, 2), True)"
    "la_get lossy_api c ((None, 2), True) = (Inl not_found, (None, 2), True)" for c
    by (simp_all add: lossy_api_def mem_requests) (simp add: mem_api_def mem_cur_def numeral_2_eq_2)
  let ?fn = "io_bind (releaseAttempt lossy_api CtxRoot (tally 1)) (\<lambda>err. io_ret ((), err))"
  let ?w1 = "\<lparr>tr = [LeaseGet (Inr mem_lease), LeaseDelete (tally 0) (Some ErrEOF)], est = ((None, 2), True)\<rparr> :: (event, memory \<times> bool) world"
  let ?w2 = "?w1\<lparr>tr := tr ?w1 @ [Waited CtxRoot (InitialWait DefaultConfig)]\<rparr>"
  let ?e = "wrapf ''failed to release cluster lease lock: '' ErrEOF"
  have "\<not> has_reason NotFound ErrEOF" "\<not> has_reason Conflict ErrEOF" by code_simp+
  then have first: "?fn \<lparr>tr = [], est = srv lossy_taken\<rparr> = Some (((), Some ?e), ?w1)"
    by (simp add: releaseAttempt_def lease_io srv requests)
  have second: "?fn ?w2 = Some (((), None), ?w2\<lparr>tr := tr ?w2 @ [LeaseGet (Inl not_found)]\<rparr>)"
    by (simp add: releaseAttempt_def lease_io requests)
  have facts: "0 < MaxRetries DefaultConfig" "rt_ctxErr still_rt c v = (None, v)" "rt_select still_rt c d v = (None, v)"
    for c d and v :: "memory \<times> bool"
    by (simp_all add: DefaultConfig_def still_rt_def)
  have wait: "waitFor still_rt CtxRoot (InitialWait DefaultConfig) ?w1 = Some (None, ?w2)" by (simp add: waitFor_apply facts)
  have "do_loop still_rt CtxRoot DefaultConfig ?fn 0 (InitialWait DefaultConfig) () None \<lparr>tr = [], est = srv lossy_taken\<rparr> =
      do_loop still_rt CtxRoot DefaultConfig ?fn (0 + 1) (next_wait DefaultConfig (InitialWait DefaultConfig)) () (Some ?e) ?w2"
    by (subst do_loop_again [where fn = ?fn and x = "()", OF facts(1) _ _ retryable.under_wrap [OF IsRetryable_EOF] wait]) (simp_all only: facts first fst_conv snd_conv world.select_convs world.update_convs option.case)
  also have "\<dots> = Some (((), None), ?w2\<lparr>tr := tr ?w2 @ [LeaseGet (Inl not_found)]\<rparr>)"
    by (rule do_loop_stop) (use second in \<open>simp_all add: DefaultConfig_def still_rt_def\<close>)
  finally show ?thesis by (simp add: Release_def DoVoid_def Do_def io_simps held_lock_def)
qed

theorem release_and_renew_refine_witness:
  "\<exists>w'. Release still_rt lossy_api CtxRoot held_lock \<lparr>tr = [], est = srv lossy_taken\<rparr>
        = Some ((None, held_lock\<lparr>ll_renewCancelled := True, ll_released := True\<rparr>), w') \<and> length (tr w') = 4 \<and>
     lreach lossy_proto True lossy_taken (move lossy_taken 1 Finished (est w'))"
proof -
  have hold: "releasing (ph lossy_taken 1) DefaultLeaseDuration" "now lossy_taken \<le> DefaultLeaseDuration"
    using late_facts(3) by (simp_all add: lossy_taken_def mem_taken_def releasing_def written_until_default)
  have lock: "\<not> ll_released held_lock" "ll_holder held_lock = p_id lossy_proto 1" "p_api lossy_proto = lossy_api"
    by (simp_all add: held_lock_def lossy_proto_def)
  have clock: "rt_now still_rt v = (now lossy_taken, v)" for v by (simp add: still_runtime lossy_taken_def)
  from release_and_renew_refine [of "\<lparr>tr = [], est = srv lossy_taken\<rparr>" lossy_taken still_rt held_lock lossy_proto 1, OF _ clock still_runtime(1) lock(2)]
    hold lock lossy_release
  show ?thesis by fastforce
qed

end
