(* ===== verification/Cluster_Config.thy ===== *)
theory Cluster_Config
  imports Cluster_API
begin

text \<open>
  \<^verbatim>\<open>internal/config\<close>: the cluster definition, its loading and validation, the expansion of
  \<^verbatim>\<open>${NAME}\<close> references in module pull overrides, the overrides taken from the environment,
  the table of operating systems and the timeouts. The YAML decoder is a parameter; a decoded
  node arrives as the temporary structure of \<^verbatim>\<open>UnmarshalYAML\<close>.
\<close>

section \<open>Data\<close>

datatype HostType = HostTypeVM | HostTypeBareMetal
datatype ClusterRole = NoRole | ClusterRoleSetup

record os_type =
  os_name :: string
  ImageURL :: string
  KernelVersion :: string

record cluster_node =
  Hostname :: string
  IPAddress :: string
  OSType :: os_type
  node_hostType :: HostType
  Role :: ClusterRole
  CPU :: int
  CoreFraction :: "int option"
  RAM :: int
  DiskSize :: int
  Prepared :: bool

record module_config =
  mc_Name :: string
  mc_Version :: int
  mc_Enabled :: bool
  mc_Settings :: "(string \<times> json) list option"
  mc_Dependencies :: "string list"
  mc_ModulePullOverride :: string

record dkp_parameters =
  KubernetesVersion :: string
  PodSubnetCIDR :: string
  ServiceSubnetCIDR :: string
  ClusterDomain :: string
  RegistryRepo :: string
  DevBranch :: string
  Modules :: "module_config option list" \<comment> \<open>\<open>None\<close> is a nil pointer\<close>

record cluster_definition =
  Masters :: "cluster_node list"
  Workers :: "cluster_node list"
  Setup :: "cluster_node option"
  DKPParameters :: dkp_parameters

section \<open>Operating systems, the default setup VM and the timeouts\<close>

definition os_entry :: "string \<Rightarrow> string \<Rightarrow> os_type" where
  "os_entry url kver = \<lparr>os_name = [], ImageURL = url, KernelVersion = kver\<rparr>"

definition OSTypeMap :: "(string \<times> os_type) list" where
  "OSTypeMap =
    [(''Ubuntu 22.04 6.2.0-39-generic'', os_entry
       ''https://cloud-images.ubuntu.com/jammy/current/jammy-server-cloudimg-amd64.img'' ''6.2.0-39-generic''),
     (''Ubuntu 24.04 6.8.0-53-generic'', os_entry
       ''https://cloud-images.ubuntu.com/noble/current/noble-server-cloudimg-amd64.img'' ''6.8.0-53-generic''),
     (''RedOS 8.0 6.6.26-1.red80.x86_64'', os_entry
       ''https://89d64382-20df-4581-8cc7-80df331f67fa.selstorage.ru/redos/redos-8-1.x86_64.qcow2''
       ''6.6.26-1.red80.x86_64''),
     (''RedOS 7.3.6 5.15.78-2.el7.3.x86_64'', os_entry
       ''https://89d64382-20df-4581-8cc7-80df331f67fa.selstorage.ru/redos/RO732_MIN-STD.qcow2''
       ''5.15.78-2.el7.3.x86_64''),
     (''Debian 12'', os_entry
       ''https://cloud.debian.org/images/cloud/bookworm/latest/debian-12-genericcloud-amd64.qcow2''
       ''6.1.0-41-cloud-amd64''),
     (''Debian 13'', os_entry
       ''https://cdimage.debian.org/images/cloud/trixie/latest/debian-13-generic-amd64.qcow2''
       ''6.12.57+deb13-amd64''),
     (''AltLinux Server 10.4'', os_entry
       ''https://89d64382-20df-4581-8cc7-80df331f67fa.selstorage.ru/flant-cloud/altlinux/altlinux-10-4-p10.qcow2''
       ''6.1.130-un-def-alt1''),
     (''AltLinux Server 11'', os_entry
       ''https://89d64382-20df-4581-8cc7-80df331f67fa.selstorage.ru/flant-cloud/altlinux/altlinux-11-0-p11.qcow2''
       ''6.12.34-6.12-alt1'')]"

text \<open>A map index without a comma-ok: the zero value when the key is absent.\<close>

definition osTypeOf :: "string \<Rightarrow> os_type" where
  "osTypeOf k = (case map_of OSTypeMap k of None \<Rightarrow> os_entry [] [] | Some t \<Rightarrow> t)"

definition DefaultSetupVM :: cluster_node where
  "DefaultSetupVM =
    \<lparr>Hostname = ''bootstrap-node'', IPAddress = [], OSType = osTypeOf ''Ubuntu 22.04 6.2.0-39-generic'',
     node_hostType = HostTypeVM, Role = ClusterRoleSetup, CPU = 2, CoreFraction = Some 50, RAM = 4,
     DiskSize = 20, Prepared = False\<rparr>"

definition VMsRunningTimeout :: int where "VMsRunningTimeout = 20 * minute"
definition ClusterVirtualImageReadinessTimeout :: int where
  "ClusterVirtualImageReadinessTimeout = 15 * minute"
definition VirtualMachineClassReadinessTimeout :: int where
  "VirtualMachineClassReadinessTimeout = 15 * minute"
definition NodesReadyTimeout :: int where "NodesReadyTimeout = 15 * minute"
definition SetupNodeSSHReadyTimeout :: int where "SetupNodeSSHReadyTimeout = 5 * minute"
definition DKPDeployTimeout :: int where "DKPDeployTimeout = 30 * minute"
definition DockerInstallTimeout :: int where "DockerInstallTimeout = 10 * minute"
definition BootstrapUploadTimeout :: int where "BootstrapUploadTimeout = 5 * minute"
definition SecretsWaitTimeout :: int where "SecretsWaitTimeout = 10 * minute"
definition ClusterHealthTimeout :: int where "ClusterHealthTimeout = 15 * minute"
definition ModuleDeployTimeout :: int where "ModuleDeployTimeout = 15 * minute"
definition ClusterCreationTimeout :: int where "ClusterCreationTimeout = 90 * minute"

section \<open>Decoding\<close>

record node_tmp =
  tmp_Hostname :: string
  tmp_IPAddress :: string
  tmp_OSType :: string
  tmp_HostType :: string
  tmp_Role :: string
  tmp_CPU :: int
  tmp_CoreFraction :: "int option"
  tmp_RAM :: int
  tmp_DiskSize :: int
  tmp_Prepared :: bool

definition UnmarshalNode :: "node_tmp \<Rightarrow> goerr + cluster_node" where
  "UnmarshalNode t =
     (if tmp_HostType t \<noteq> ''vm'' \<and> tmp_HostType t \<noteq> ''bare-metal''
      then Inl (ErrText (''invalid hostType: '' @ tmp_HostType t))
      else if tmp_Role t \<noteq> [] \<and> tmp_Role t \<noteq> ''setup''
      then Inl (ErrText (''invalid role: '' @ tmp_Role t @
        '' (only '' @ [squote] @ ''setup'' @ [squote] @
        '' is valid, masters/workers are determined by section)''))
      else (case map_of OSTypeMap (tmp_OSType t) of
        None \<Rightarrow> Inl (ErrText (''unknown osType: '' @ tmp_OSType t))
      | Some os \<Rightarrow> Inr
          \<lparr>Hostname = tmp_Hostname t, IPAddress = tmp_IPAddress t, OSType = os,
           node_hostType = (if tmp_HostType t = ''vm'' then HostTypeVM else HostTypeBareMetal),
           Role = (if tmp_Role t = [] then NoRole else ClusterRoleSetup),
           CPU = tmp_CPU t, CoreFraction = tmp_CoreFraction t, RAM = tmp_RAM t,
           DiskSize = tmp_DiskSize t, Prepared = tmp_Prepared t\<rparr>))"

fun unmarshal_nodes :: "node_tmp list \<Rightarrow> goerr + cluster_node list" where
  "unmarshal_nodes [] = Inr []"
| "unmarshal_nodes (t # ts) =
     (case UnmarshalNode t of Inl e \<Rightarrow> Inl e
      | Inr n \<Rightarrow> (case unmarshal_nodes ts of Inl e \<Rightarrow> Inl e | Inr ns \<Rightarrow> Inr (n # ns)))"

text \<open>
  The document: a definition, or a mapping whose entries are looked through for the key
  \<^verbatim>\<open>clusterDefinition\<close>, the first of which is decoded.
\<close>

record def_tmp =
  dt_Masters :: "node_tmp list"
  dt_Workers :: "node_tmp list"
  dt_Setup :: "node_tmp option"
  dt_DKPParameters :: dkp_parameters

definition decode_def :: "def_tmp \<Rightarrow> goerr + cluster_definition" where
  "decode_def d =
     (case unmarshal_nodes (dt_Masters d) of Inl e \<Rightarrow> Inl e | Inr ms \<Rightarrow>
      case unmarshal_nodes (dt_Workers d) of Inl e \<Rightarrow> Inl e | Inr ws \<Rightarrow>
      case dt_Setup d of
        None \<Rightarrow> Inr \<lparr>Masters = ms, Workers = ws, Setup = None, DKPParameters = dt_DKPParameters d\<rparr>
      | Some s \<Rightarrow> (case UnmarshalNode s of Inl e \<Rightarrow> Inl e | Inr n \<Rightarrow>
          Inr \<lparr>Masters = ms, Workers = ws, Setup = Some n, DKPParameters = dt_DKPParameters d\<rparr>))"

record yaml_doc =
  yd_entries :: "(string \<times> (goerr + def_tmp)) list"
  yd_direct :: "goerr + def_tmp"

definition UnmarshalDefinition :: "yaml_doc \<Rightarrow> goerr + cluster_definition" where
  "UnmarshalDefinition y =
     (case (case map_of (yd_entries y) ''clusterDefinition'' of Some v \<Rightarrow> v | None \<Rightarrow> yd_direct y) of
        Inl e \<Rightarrow> Inl e | Inr d \<Rightarrow> decode_def d)"

section \<open>Pull overrides\<close>

definition ref_start :: string where "ref_start = ''${''"

fun ValidateModulePullOverrides :: "module_config option list \<Rightarrow> goerr option" where
  "ValidateModulePullOverrides [] = None"
| "ValidateModulePullOverrides (None # ms) = ValidateModulePullOverrides ms"
| "ValidateModulePullOverrides (Some m # ms) =
     (if str_contains (mc_ModulePullOverride m) ref_start then Some (ErrText
        (''module '' @ go_quote (mc_Name m) @ '': modulePullOverride must be a literal image tag'' @
         '' (e.g. pr123, mr55, main); ${VAR} env templating is not supported'' @
         '' '' @ [CHR 0xE2, CHR 0x80, CHR 0x94] @ '' set the tag directly in cluster_config.yml''))
      else ValidateModulePullOverrides ms)"

definition char_in :: "char \<Rightarrow> char \<Rightarrow> char \<Rightarrow> bool" where
  "char_in lo hi c \<longleftrightarrow> of_char lo \<le> (of_char c :: nat) \<and> of_char c \<le> (of_char hi :: nat)"

definition name_start :: "char \<Rightarrow> bool" where
  "name_start c \<longleftrightarrow> char_in (CHR ''A'') (CHR ''Z'') c \<or> char_in (CHR ''a'') (CHR ''z'') c \<or> c = CHR ''_''"

definition name_char :: "char \<Rightarrow> bool" where
  "name_char c \<longleftrightarrow> name_start c \<or> char_in (CHR ''0'') (CHR ''9'') c"

text \<open>\<^verbatim>\<open>envRefPattern\<close> at the beginning of a text: the name, and what follows the reference.\<close>

definition match_ref :: "string \<Rightarrow> (string \<times> string) option" where
  "match_ref s =
     (if hasPrefix s ref_start then
        (let body = drop 2 s; name = takeWhile name_char body; rest = dropWhile name_char body
         in if name \<noteq> [] \<and> name_start (hd name) \<and> rest \<noteq> [] \<and> hd rest = CHR ''}''
            then Some (name, tl rest) else None)
      else None)"

lemma match_ref_shorter:
  assumes "match_ref s = Some (n, rest)"
  shows "length rest < length s"
proof -
  have "length (dropWhile name_char (drop 2 s)) \<le> length s - 2"
    by (metis length_drop length_dropWhile_le)
  moreover from assms have "s \<noteq> []" by (auto simp: match_ref_def hasPrefix_def ref_start_def)
  ultimately show ?thesis using assms
    by (cases s) (auto simp: match_ref_def Let_def split: if_splits)
qed

text \<open>\<^verbatim>\<open>ReplaceAllStringFunc\<close>, and the names referenced, in order.\<close>

function expand_refs :: "(string \<Rightarrow> string) \<Rightarrow> string \<Rightarrow> string" where
  "expand_refs f [] = []"
| "expand_refs f (c # s) =
     (case match_ref (c # s) of
        Some (n, rest) \<Rightarrow> f n @ expand_refs f rest
      | None \<Rightarrow> c # expand_refs f s)"
  by pat_completeness auto
termination
  by (relation "measure (\<lambda>(f, s). length s)") (auto dest: match_ref_shorter)

function ref_names :: "string \<Rightarrow> string list" where
  "ref_names [] = []"
| "ref_names (c # s) =
     (case match_ref (c # s) of
        Some (n, rest) \<Rightarrow> n # ref_names rest
      | None \<Rightarrow> ref_names s)"
  by pat_completeness auto
termination
  by (relation "measure length") (auto dest: match_ref_shorter)

definition lookup_or_empty :: "(string \<Rightarrow> string option) \<Rightarrow> string \<Rightarrow> string" where
  "lookup_or_empty lookup n = (case lookup n of None \<Rightarrow> [] | Some v \<Rightarrow> v)"

definition malformed_override :: "string \<Rightarrow> bool" where
  "malformed_override s \<longleftrightarrow> str_contains (expand_refs (\<lambda>_. []) s) ref_start"

text \<open>One module: its new value and the problems it adds.\<close>

definition resolve_module ::
  "(string \<Rightarrow> string option) \<Rightarrow> module_config option \<Rightarrow> module_config option \<times> string list" where
  "resolve_module lookup mo =
     (case mo of None \<Rightarrow> (None, [])
      | Some m \<Rightarrow>
         (let original = mc_ModulePullOverride m;
              unset = map (\<lambda>n. ''module '' @ go_quote (mc_Name m) @ '' references unset ${'' @ n @ ''}'')
                        (filter (\<lambda>n. lookup n = None) (ref_names original))
          in if original = [] then (mo, [])
             else if malformed_override original then
               (mo, unset @ [''module '' @ go_quote (mc_Name m) @ '' has malformed modulePullOverride '' @
                  go_quote original @ '' (only ${NAME} with letters, digits, and underscores is supported)''])
             else (Some (m\<lparr>mc_ModulePullOverride := expand_refs (lookup_or_empty lookup) original\<rparr>), unset)))"

definition ResolveModulePullOverrides ::
  "(string \<Rightarrow> string option) \<Rightarrow> cluster_definition \<Rightarrow> cluster_definition \<times> goerr option" where
  "ResolveModulePullOverrides lookup def =
     (let rs = map (resolve_module lookup) (Modules (DKPParameters def));
          problems = concat (map snd rs)
      in (def\<lparr>DKPParameters := (DKPParameters def)\<lparr>Modules := map fst rs\<rparr>\<rparr>,
          if problems \<noteq> []
          then Some (ErrText (''modulePullOverride resolution failed: '' @ str_join ''; '' problems))
          else None))"

definition Validate :: "cluster_definition \<Rightarrow> goerr option" where
  "Validate c =
     (let dkp = DKPParameters c in
      if Masters c = [] then Some (ErrText ''at least one master node is required'')
      else if PodSubnetCIDR dkp = [] then Some (ErrText ''dkpParameters.podSubnetCIDR is required'')
      else if ServiceSubnetCIDR dkp = [] then Some (ErrText ''dkpParameters.serviceSubnetCIDR is required'')
      else if ClusterDomain dkp = [] then Some (ErrText ''dkpParameters.clusterDomain is required'')
      else if RegistryRepo dkp = [] then Some (ErrText ''dkpParameters.registryRepo is required'')
      else None)"

text \<open>
  \<open>readFile\<close> is the file system, \<open>parse\<close> the YAML parser and \<open>lookup\<close> is \<^verbatim>\<open>os.LookupEnv\<close>.
\<close>

definition LoadClusterDefinition ::
  "(string \<Rightarrow> goerr + string) \<Rightarrow> (string \<Rightarrow> goerr + yaml_doc) \<Rightarrow> (string \<Rightarrow> string option) \<Rightarrow> string
   \<Rightarrow> goerr + cluster_definition" where
  "LoadClusterDefinition readFile parse lookup path =
     (case readFile path of
        Inl e \<Rightarrow> Inl (wrapf (''read cluster config '' @ go_quote path @ '': '') e)
      | Inr data \<Rightarrow>
     (case (case parse data of Inl e \<Rightarrow> Inl e | Inr y \<Rightarrow> UnmarshalDefinition y) of
        Inl e \<Rightarrow> Inl (wrapf (''parse cluster config '' @ go_quote path @ '': '') e)
      | Inr def \<Rightarrow>
     (case ResolveModulePullOverrides lookup def of
        (_, Some e) \<Rightarrow> Inl (wrapf (''resolve cluster config '' @ go_quote path @ '': '') e)
      | (def', None) \<Rightarrow>
     (case Validate def' of
        Some e \<Rightarrow> Inl (wrapf (''invalid cluster config '' @ go_quote path @ '': '') e)
      | None \<Rightarrow> Inr def'))))"

section \<open>Overrides from the environment\<close>

text \<open>
  \<^verbatim>\<open>strings.Map\<close> works on runes: the continuation bytes of a multi-byte rune disappear
  with it into the one underscore that replaces it.
\<close>

definition env_rune :: "char \<Rightarrow> char" where
  "env_rune c =
     (if char_in (CHR ''a'') (CHR ''z'') c then char_of (of_char c - 32 :: nat)
      else if char_in (CHR ''A'') (CHR ''Z'') c \<or> char_in (CHR ''0'') (CHR ''9'') c then c
      else CHR ''_'')"

definition continuation :: "char \<Rightarrow> bool" where
  "continuation c \<longleftrightarrow> char_in (CHR 0x80) (CHR 0xBF) c"

definition EnvKeyForModulePullOverride :: "string \<Rightarrow> string" where
  "EnvKeyForModulePullOverride moduleName =
     map env_rune (filter (\<lambda>c. \<not> continuation c) moduleName) @ ''_MODULE_PULL_OVERRIDE''"

record override_change =
  ch_Module :: string
  ch_EnvVar :: string
  ch_FromYAML :: string
  ch_ToEnv :: string

fun apply_override_env ::
  "(string \<Rightarrow> string) \<Rightarrow> module_config option list \<Rightarrow> module_config option list \<times> override_change list" where
  "apply_override_env getenv [] = ([], [])"
| "apply_override_env getenv (None # ms) =
     (let (ms', chs) = apply_override_env getenv ms in (None # ms', chs))"
| "apply_override_env getenv (Some m # ms) =
     (let key = EnvKeyForModulePullOverride (mc_Name m);
          val = trimSpace (getenv key);
          (ms', chs) = apply_override_env getenv ms
      in if val = [] \<or> val = mc_ModulePullOverride m then (Some m # ms', chs)
         else (Some (m\<lparr>mc_ModulePullOverride := val\<rparr>) # ms',
               \<lparr>ch_Module = mc_Name m, ch_EnvVar = key, ch_FromYAML = mc_ModulePullOverride m, ch_ToEnv = val\<rparr>
               # chs))"

definition ApplyModulePullOverrideEnv ::
  "(string \<Rightarrow> string) \<Rightarrow> cluster_definition \<Rightarrow> cluster_definition \<times> override_change list" where
  "ApplyModulePullOverrideEnv getenv def =
     (let (ms, chs) = apply_override_env getenv (Modules (DKPParameters def))
      in (def\<lparr>DKPParameters := (DKPParameters def)\<lparr>Modules := ms\<rparr>\<rparr>, chs))"


section \<open>What loading guarantees\<close>

lemma contains_ref_Cons:
  "str_contains (c # s) ref_start \<longleftrightarrow> (c = CHR ''$'' \<and> s \<noteq> [] \<and> hd s = CHR ''{'') \<or> str_contains s ref_start"
  by (cases s) (auto simp: hasPrefix_def ref_start_def)

lemma contains_ref_append:
  assumes "CHR ''$'' \<notin> set v"
  shows "str_contains (v @ s) ref_start \<longleftrightarrow> str_contains s ref_start"
  using assms by (induction v) (auto simp del: str_contains.simps(2) simp: contains_ref_Cons)

lemma expand_hd:
  "(\<And>n. CHR ''{'' \<notin> set (f n)) \<Longrightarrow> expand_refs f s \<noteq> [] \<Longrightarrow> hd (expand_refs f s) = CHR ''{''
    \<Longrightarrow> expand_refs (\<lambda>_. []) s \<noteq> [] \<and> hd (expand_refs (\<lambda>_. []) s) = CHR ''{''"
proof (induction f s rule: expand_refs.induct)
  case (1 f)
  then show ?case by simp
next
  case (2 f c s)
  show ?case
  proof (cases "match_ref (c # s)")
    case None
    with 2 show ?thesis by simp
  next
    case (Some p)
    obtain n rest where p: "p = (n, rest)" by fastforce
    have "f n = []"
    proof (rule ccontr)
      assume "f n \<noteq> []"
      with 2(4,5) Some p have "hd (f n) = CHR ''{''" by simp
      with 2(3) [of n] \<open>f n \<noteq> []\<close> show False by (metis hd_in_set)
    qed
    with 2 Some p show ?thesis by simp
  qed
qed

lemma expand_literal:
  "(\<And>n. CHR ''$'' \<notin> set (f n) \<and> CHR ''{'' \<notin> set (f n)) \<Longrightarrow> \<not> malformed_override s
    \<Longrightarrow> \<not> str_contains (expand_refs f s) ref_start"
proof (induction f s rule: expand_refs.induct)
  case (1 f)
  then show ?case by (simp add: ref_start_def)
next
  case (2 f c s)
  show ?case
  proof (cases "match_ref (c # s)")
    case None
    with 2(4) have ok: "\<not> malformed_override s"
      "\<not> (c = CHR ''$'' \<and> expand_refs (\<lambda>_. []) s \<noteq> [] \<and> hd (expand_refs (\<lambda>_. []) s) = CHR ''{'')"
      by (auto simp: malformed_override_def contains_ref_Cons simp del: str_contains.simps(2))
    from 2(1) [OF None 2(3) ok(1)] ok(2) expand_hd [of f s] 2(3) None show ?thesis
      by (auto simp: contains_ref_Cons simp del: str_contains.simps(2))
  next
    case (Some p)
    obtain n rest where p: "p = (n, rest)" by fastforce
    with 2(4) Some have "\<not> malformed_override rest" by (simp add: malformed_override_def)
    from 2(2) [OF Some p [symmetric] 2(3) this] 2(3) [of n] Some p show ?thesis
      by (simp add: contains_ref_append)
  qed
qed

lemma validate_overrides_iff:
  "ValidateModulePullOverrides ms = None \<longleftrightarrow>
     (\<forall>m. Some m \<in> set ms \<longrightarrow> \<not> str_contains (mc_ModulePullOverride m) ref_start)"
  by (induction ms rule: ValidateModulePullOverrides.induct) auto

lemma resolve_module_literal:
  assumes "resolve_module lookup mo = (Some m, [])"
    and "\<And>n v. lookup n = Some v \<Longrightarrow> CHR ''$'' \<notin> set v \<and> CHR ''{'' \<notin> set v"
  shows "\<not> str_contains (mc_ModulePullOverride m) ref_start"
proof -
  have "CHR ''$'' \<notin> set (lookup_or_empty lookup n) \<and> CHR ''{'' \<notin> set (lookup_or_empty lookup n)" for n
    using assms(2) [of n] by (auto simp: lookup_or_empty_def split: option.splits)
  note expand_literal [of "lookup_or_empty lookup", OF this]
  with assms(1) show ?thesis
    by (auto simp: resolve_module_def Let_def ref_start_def split: option.splits if_splits)
qed

lemma unmarshal_nodes_os:
  "unmarshal_nodes ts = Inr ns \<Longrightarrow> n \<in> set ns \<Longrightarrow> \<exists>t \<in> set ts. UnmarshalNode t = Inr n"
  by (induction ts arbitrary: ns) (auto split: sum.splits)

lemma UnmarshalNode_os: "UnmarshalNode t = Inr n \<Longrightarrow> OSType n \<in> snd ` set OSTypeMap"
  by (auto simp: UnmarshalNode_def split: if_splits option.splits dest: map_of_SomeD intro: rev_image_eqI)

lemma decode_def_os:
  "decode_def d = Inr c \<Longrightarrow> n \<in> set (Masters c @ Workers c) \<union> set_option (Setup c)
   \<Longrightarrow> OSType n \<in> snd ` set OSTypeMap"
  by (auto simp: decode_def_def split: sum.splits option.splits
      dest!: unmarshal_nodes_os dest: UnmarshalNode_os)

text \<open>
  C20. What a successful load guarantees: at least one master, the network parameters and the
  registry are set, every node that is listed has one of the two host types and a known
  operating system, and every pull override is a literal tag, as long as the values of the
  environment are free of dollar signs and opening braces.
\<close>

theorem loaded_definition_valid:
  assumes load: "LoadClusterDefinition readFile parse lookup path = Inr def"
    and env: "\<forall>n v. lookup n = Some v \<longrightarrow> CHR ''$'' \<notin> set v \<and> CHR ''{'' \<notin> set v"
  shows "Validate def = None \<and> Masters def \<noteq> [] \<and> PodSubnetCIDR (DKPParameters def) \<noteq> [] \<and>
      ServiceSubnetCIDR (DKPParameters def) \<noteq> [] \<and> ClusterDomain (DKPParameters def) \<noteq> [] \<and>
      RegistryRepo (DKPParameters def) \<noteq> [] \<and>
      (\<forall>n \<in> set (Masters def @ Workers def) \<union> set_option (Setup def). OSType n \<in> snd ` set OSTypeMap) \<and>
      ValidateModulePullOverrides (Modules (DKPParameters def)) = None"
proof -
  from load obtain y c where y: "UnmarshalDefinition y = Inr c"
    and r: "ResolveModulePullOverrides lookup c = (def, None)" and v: "Validate def = None"
    unfolding LoadClusterDefinition_def
    by (auto split: sum.splits prod.splits option.splits)
  from y obtain d where "decode_def d = Inr c"
    by (auto simp: UnmarshalDefinition_def split: sum.splits option.splits)
  from decode_def_os [OF this] r
  have os: "\<forall>n \<in> set (Masters def @ Workers def) \<union> set_option (Setup def). OSType n \<in> snd ` set OSTypeMap"
    by (auto simp: ResolveModulePullOverrides_def Let_def)
  from r have ms: "Modules (DKPParameters def) = map (fst \<circ> resolve_module lookup) (Modules (DKPParameters c))"
    and np: "\<forall>m \<in> set (Modules (DKPParameters c)). snd (resolve_module lookup m) = []"
    by (auto simp: ResolveModulePullOverrides_def Let_def split: if_splits)
  have "ValidateModulePullOverrides (Modules (DKPParameters def)) = None"
    unfolding validate_overrides_iff ms
  proof (intro allI impI)
    fix m assume "Some m \<in> set (map (fst \<circ> resolve_module lookup) (Modules (DKPParameters c)))"
    then obtain mo where "mo \<in> set (Modules (DKPParameters c))" "fst (resolve_module lookup mo) = Some m"
      by auto
    with np have "resolve_module lookup mo = (Some m, [])" by (metis prod.collapse)
    from resolve_module_literal [OF this] env show "\<not> str_contains (mc_ModulePullOverride m) ref_start" by blast
  qed
  with os v show ?thesis by (simp add: Validate_def Let_def split: if_splits)
qed

definition sample_node_tmp :: node_tmp where
  "sample_node_tmp = \<lparr>tmp_Hostname = ''m'', tmp_IPAddress = [], tmp_OSType = ''Debian 12'', tmp_HostType = ''vm'',
     tmp_Role = [], tmp_CPU = 2, tmp_CoreFraction = None, tmp_RAM = 4, tmp_DiskSize = 10, tmp_Prepared = False\<rparr>"

definition sample_module :: module_config where
  "sample_module = \<lparr>mc_Name = ''m'', mc_Version = 1, mc_Enabled = True, mc_Settings = None,
     mc_Dependencies = [], mc_ModulePullOverride = ''v${T}-x''\<rparr>"

definition sample_def_tmp :: def_tmp where
  "sample_def_tmp = \<lparr>dt_Masters = [sample_node_tmp], dt_Workers = [], dt_Setup = None, dt_DKPParameters =
     \<lparr>KubernetesVersion = ''1.31'', PodSubnetCIDR = ''10.0.0.0/16'', ServiceSubnetCIDR = ''10.1.0.0/16'',
      ClusterDomain = ''c'', RegistryRepo = ''r'', DevBranch = [], Modules = [Some sample_module]\<rparr>\<rparr>"

definition sample_env :: "string \<Rightarrow> string option" where
  "sample_env n = (if n = ''T'' then Some ''12'' else None)"

definition sample_load :: "goerr + cluster_definition" where
  "sample_load = LoadClusterDefinition (\<lambda>p. Inr ''y'')
     (\<lambda>t. Inr \<lparr>yd_entries = [], yd_direct = Inr sample_def_tmp\<rparr>)
     sample_env ''f''"

lemma match_ref_sample: "match_ref ''${T}-x'' = Some (''T'', ''-x'')"
  by (simp add: match_ref_def hasPrefix_def ref_start_def name_char_def name_start_def char_in_def)

lemma match_ref_not: "hd s \<noteq> CHR ''$'' \<Longrightarrow> match_ref s = None"
  by (cases s) (simp_all add: match_ref_def hasPrefix_def ref_start_def)

theorem loaded_definition_valid_witness:
  "\<exists>def. sample_load = Inr def \<and>
     map (map_option mc_ModulePullOverride) (Modules (DKPParameters def)) = [Some ''v12-x''] \<and>
     ValidateModulePullOverrides (Modules (DKPParameters def)) = None"
proof -
  have os: "map_of OSTypeMap ''Debian 12'' \<noteq> None" by (simp add: OSTypeMap_def)
  have refs: "ref_names ''v${T}-x'' = [''T'']" "expand_refs f ''v${T}-x'' = ''v'' @ f ''T'' @ ''-x''" for f
    by (simp_all add: match_ref_sample match_ref_not)
  from os obtain def where def: "sample_load = Inr def"
    and tag: "map (map_option mc_ModulePullOverride) (Modules (DKPParameters def)) = [Some ''v12-x'']"
    by (auto simp: sample_load_def sample_env_def LoadClusterDefinition_def UnmarshalDefinition_def decode_def_def
        sample_def_tmp_def UnmarshalNode_def sample_node_tmp_def ResolveModulePullOverrides_def
        resolve_module_def sample_module_def malformed_override_def refs Let_def Validate_def
        lookup_or_empty_def ref_start_def hasPrefix_def simp del: ref_names.simps expand_refs.simps)
  have "\<forall>n v. sample_env n = Some v \<longrightarrow> CHR ''$'' \<notin> set v \<and> CHR ''{'' \<notin> set v"
    by (auto simp: sample_env_def split: if_splits)
  from loaded_definition_valid [OF def [unfolded sample_load_def] this]
  have "ValidateModulePullOverrides (Modules (DKPParameters def)) = None" by simp
  with def tag show ?thesis by (intro exI [of _ def] conjI)
qed

lemma apply_override_env_again:
  "apply_override_env getenv ms = (ms', chs) \<Longrightarrow> apply_override_env getenv ms' = (ms', [])"
proof (induction getenv ms arbitrary: ms' chs rule: apply_override_env.induct)
  case (3 getenv m ms)
  then show ?case
    by (auto simp: Let_def split: if_splits prod.splits)
qed (auto split: prod.splits)

lemma apply_override_env_tags:
  "apply_override_env getenv ms = (ms', chs) \<Longrightarrow> list_all2 (\<lambda>a b.
     b = map_option (\<lambda>m. let val = trimSpace (getenv (EnvKeyForModulePullOverride (mc_Name m)))
           in if val = [] then m else m\<lparr>mc_ModulePullOverride := val\<rparr>) a) ms ms'"
  by (induction getenv ms arbitrary: ms' chs rule: apply_override_env.induct)
    (auto simp: Let_def split: if_splits prod.splits)

definition change_ok :: "(string \<Rightarrow> string) \<Rightarrow> override_change \<Rightarrow> bool" where
  "change_ok getenv ch \<longleftrightarrow> ch_FromYAML ch \<noteq> ch_ToEnv ch \<and> ch_ToEnv ch = trimSpace (getenv (ch_EnvVar ch)) \<and>
     ch_EnvVar ch = EnvKeyForModulePullOverride (ch_Module ch)"

lemma change_ok_new:
  "trimSpace (getenv (EnvKeyForModulePullOverride (mc_Name m))) \<noteq> mc_ModulePullOverride m \<Longrightarrow>
   change_ok getenv \<lparr>ch_Module = mc_Name m, ch_EnvVar = EnvKeyForModulePullOverride (mc_Name m),
     ch_FromYAML = mc_ModulePullOverride m,
     ch_ToEnv = trimSpace (getenv (EnvKeyForModulePullOverride (mc_Name m)))\<rparr>"
  by (auto simp: change_ok_def)

lemma apply_override_env_changes:
  "apply_override_env getenv ms = (ms', chs) \<Longrightarrow> list_all (change_ok getenv) chs"
  by (induction getenv ms arbitrary: ms' chs rule: apply_override_env.induct)
    (auto simp: Let_def change_ok_new split: if_splits prod.splits)

text \<open>
  The environment channel: every module whose variable is set to something other than
  blanks ends up with that tag and every other module keeps its own, each reported change
  really changes a value to the one in the variable it names, and a second application
  finds nothing to do.
\<close>

lemma override_env_spec:
  assumes "ApplyModulePullOverrideEnv getenv def = (def', chs)"
  shows "list_all2 (\<lambda>a b. b = map_option
           (\<lambda>m. let val = trimSpace (getenv (EnvKeyForModulePullOverride (mc_Name m)))
                in if val = [] then m else m\<lparr>mc_ModulePullOverride := val\<rparr>) a)
           (Modules (DKPParameters def)) (Modules (DKPParameters def')) \<and>
     list_all (change_ok getenv) chs \<and>
     ApplyModulePullOverrideEnv getenv def' = (def', [])"
proof -
  from assms obtain ms where ms: "apply_override_env getenv (Modules (DKPParameters def)) = (ms, chs)"
    and def': "def' = def\<lparr>DKPParameters := (DKPParameters def)\<lparr>Modules := ms\<rparr>\<rparr>"
    by (auto simp: ApplyModulePullOverrideEnv_def split: prod.splits)
  have "ApplyModulePullOverrideEnv getenv def' = (def', [])"
    using apply_override_env_again [OF ms] by (simp add: ApplyModulePullOverrideEnv_def def')
  with apply_override_env_tags [OF ms] apply_override_env_changes [OF ms] show ?thesis
    by (simp add: def')
qed

end
