(* ===== verification/Module_Levels.thy ===== *)
theory Module_Levels
  imports Cluster_Config "HOL-Library.List_Lexorder" "HOL-Library.Char_ord" "HOL-Library.Multiset"
begin

text \<open>
  The order in which modules are enabled. \<^verbatim>\<open>internal/provisioning/dvp/modules.go\<close> and
  \<^verbatim>\<open>pkg/kubernetes/modules.go\<close> each sort the modules into levels by their dependencies, with
  different bookkeeping; the locale \<open>dep_graph\<close> holds what both rely on, and both are
  interpretations of it. \<^verbatim>\<open>sort.Strings\<close> is \<^const>\<open>sort\<close> for the lexicographic order on bytes.
\<close>

section \<open>Counting unmet dependencies\<close>

definition dec :: "string \<Rightarrow> (string \<rightharpoonup> int) \<Rightarrow> (string \<rightharpoonup> int)" where
  "dec n ind = (case ind n of None \<Rightarrow> ind | Some d \<Rightarrow> ind(n \<mapsto> d - 1))"

definition drop_key :: "string \<Rightarrow> (string \<rightharpoonup> int) \<Rightarrow> (string \<rightharpoonup> int)" where
  "drop_key n ind = ind(n := None)"

lemma fold_dec: "fold dec xs ind n = map_option (\<lambda>d. d - int (count_list xs n)) (ind n)"
  by (induction xs arbitrary: ind) (auto simp: dec_def option.map_comp o_def map_option_case split: option.splits)

lemma fold_drop_key: "fold drop_key xs ind n = (if n \<in> set xs then None else ind n)"
  by (induction xs arbitrary: ind) (auto simp: drop_key_def)

lemma fold_dec_concat:
  "fold (\<lambda>x. fold dec (f x)) xs ind n = map_option (\<lambda>d. d - (\<Sum>x\<leftarrow>xs. int (count_list (f x) n))) (ind n)"
  by (induction xs arbitrary: ind)
    (auto simp: fold_dec option.map_comp o_def algebra_simps option.map_ident)

section \<open>Layers of a dependency graph\<close>

text \<open>
  \<open>N\<close> are the nodes, \<open>D n\<close> what \<open>n\<close> depends on, with repetitions, and \<open>dpd d\<close> lists who depends
  on \<open>d\<close>, as often as they name it.
\<close>

locale dep_graph =
  fixes N :: "string list" and D :: "string \<Rightarrow> string list" and dpd :: "string \<Rightarrow> string list"
  assumes nodes: "distinct N"
    and known: "n \<in> set N \<Longrightarrow> set (D n) \<subseteq> set N"
    and dependents: "n \<in> set N \<Longrightarrow> count_list (dpd d) n = count_list (D n) d"
begin

definition ready :: "string set \<Rightarrow> string set" where
  "ready S = {n \<in> set N - S. set (D n) \<subseteq> S}"

fun layered :: "string set \<Rightarrow> string list list \<Rightarrow> bool" where
  "layered S [] \<longleftrightarrow> set N \<subseteq> S"
| "layered S (L # Ls) \<longleftrightarrow> distinct L \<and> L \<noteq> [] \<and> set L = ready S \<and> layered (S \<union> set L) Ls"

definition counts :: "string set \<Rightarrow> (string \<rightharpoonup> int) \<Rightarrow> bool" where
  "counts S ind \<longleftrightarrow> (\<forall>n. ind n =
     (if n \<in> set N - S then Some (int (length (filter (\<lambda>d. d \<notin> S) (D n)))) else None))"

definition ranked :: bool where
  "ranked \<longleftrightarrow> (\<exists>rank :: string \<Rightarrow> nat. \<forall>n \<in> set N. \<forall>d \<in> set (D n). rank d < rank n)"

lemma counts_ready: "counts S ind \<Longrightarrow> {n. ind n = Some 0} = ready S"
  by (auto simp: counts_def ready_def filter_empty_conv split: if_splits)

lemma counts_dom: "counts S ind \<Longrightarrow> dom ind = set N - S"
  by (auto simp: counts_def split: if_splits)

lemma counts_initial:
  "(\<And>n. n \<in> set N \<Longrightarrow> ind n = Some (int (length (D n)))) \<Longrightarrow> (\<And>n. n \<notin> set N \<Longrightarrow> ind n = None)
   \<Longrightarrow> counts {} ind"
  by (auto simp: counts_def)

lemma sum_count_list:
  "distinct L \<Longrightarrow> (\<Sum>x\<leftarrow>L. int (count_list xs x)) = int (length (filter (\<lambda>d. d \<in> set L) xs))"
proof (induction L)
  case (Cons a L)
  have "count_list xs a = length (filter (\<lambda>d. d = a) xs)"
    by (induction xs) auto
  moreover have "length (filter (\<lambda>d. d = a \<or> d \<in> set L) xs)
      = length (filter (\<lambda>d. d = a) xs) + length (filter (\<lambda>d. d \<in> set L) xs)"
    using Cons.prems by (induction xs) auto
  ultimately show ?case using Cons by simp
qed simp

text \<open>One round: drop the ready nodes and count down their dependents.\<close>

lemma counts_round:
  assumes S: "counts S ind" and L: "distinct L" "set L = ready S"
    and ind': "\<And>n. ind' n = (if n \<in> set L then None
       else map_option (\<lambda>d. d - (\<Sum>x\<leftarrow>L. int (count_list (dpd x) n))) (ind n))"
  shows "counts (S \<union> set L) ind'"
  unfolding counts_def
proof
  fix n
  show "ind' n = (if n \<in> set N - (S \<union> set L)
     then Some (int (length (filter (\<lambda>d. d \<notin> S \<union> set L) (D n)))) else None)"
  proof (cases "n \<in> set N - (S \<union> set L)")
    case True
    then have "(\<Sum>x\<leftarrow>L. int (count_list (dpd x) n)) = int (length (filter (\<lambda>d. d \<in> set L) (D n)))"
      using sum_count_list [OF L(1)] by (simp add: dependents)
    moreover have "length (filter (\<lambda>d. d \<notin> S) xs) =
        length (filter (\<lambda>d. d \<in> set L) xs) + length (filter (\<lambda>d. d \<notin> S \<and> d \<notin> set L) xs)" for xs
      using L(2) by (induction xs) (auto simp: ready_def)
    moreover have "ind n = Some (int (length (filter (\<lambda>d. d \<notin> S) (D n))))"
      using S True by (simp add: counts_def)
    ultimately show ?thesis using True by (simp add: ind')
  next
    case False
    with S show ?thesis by (auto simp: ind' counts_def)
  qed
qed

text \<open>A set of nodes none of which can ever be ready contradicts a ranking.\<close>

lemma stuck_not_ranked:
  assumes "ready S = {}" and "\<not> set N \<subseteq> S"
  shows "\<not> ranked"
proof
  assume ranked
  then obtain rank :: "string \<Rightarrow> nat" where rank: "\<forall>n \<in> set N. \<forall>d \<in> set (D n). rank d < rank n"
    by (auto simp: ranked_def)
  let ?n = "arg_min_on rank (set N - S)"
  have "?n \<in> set N - S" using assms(2) by (intro arg_min_if_finite(1)) auto
  with assms(1) obtain d where d: "d \<in> set (D ?n)" "d \<notin> S" by (auto simp: ready_def)
  with rank \<open>?n \<in> set N - S\<close> have "rank d < rank ?n" by blast
  moreover have "d \<in> set N - S" using d known \<open>?n \<in> set N - S\<close> by auto
  ultimately show False
    using arg_min_least [of "set N - S" d rank] by auto
qed

lemma layered_nodes: "layered S Ls \<Longrightarrow> distinct (concat Ls) \<and> set (concat Ls) = set N - S"
proof (induction Ls arbitrary: S)
  case (Cons L Ls)
  then have IH: "distinct (concat Ls)" "set (concat Ls) = set N - (S \<union> set L)" by auto
  have "set L \<subseteq> set N - S" using Cons.prems by (auto simp: ready_def)
  with IH Cons.prems show ?case by auto
qed simp

lemma layered_deps:
  "layered S Ls \<Longrightarrow> i < length Ls \<Longrightarrow> n \<in> set (Ls ! i) \<Longrightarrow> d \<in> set (D n) \<Longrightarrow>
     d \<in> S \<or> (\<exists>j < i. d \<in> set (Ls ! j))"
proof (induction Ls arbitrary: S i)
  case (Cons L Ls)
  show ?case
  proof (cases i)
    case 0
    with Cons.prems show ?thesis by (auto simp: ready_def)
  next
    case (Suc k)
    with Cons.prems have "d \<in> S \<union> set L \<or> (\<exists>j<k. d \<in> set (Ls ! j))"
      by (intro Cons.IH) auto
    then show ?thesis
    proof
      assume "d \<in> S \<union> set L"
      with Suc show ?thesis by (auto intro!: exI [of _ 0])
    next
      assume "\<exists>j<k. d \<in> set (Ls ! j)"
      then obtain j where "j < k" "d \<in> set (Ls ! j)" by blast
      with Suc show ?thesis by (intro disjI2 exI [of _ "Suc j"]) simp
    qed
  qed
qed simp

lemma layered_tight:
  "layered S Ls \<Longrightarrow> Suc i < length Ls \<Longrightarrow> n \<in> set (Ls ! Suc i) \<Longrightarrow> \<exists>d \<in> set (D n). d \<in> set (Ls ! i)"
proof (induction Ls arbitrary: S i)
  case (Cons L Ls)
  show ?case
  proof (cases i)
    case 0
    with Cons.prems obtain L' Ls' where Ls: "Ls = L' # Ls'" by (cases Ls) auto
    with Cons.prems 0 show ?thesis by (auto simp: ready_def)
  next
    case (Suc k)
    with Cons show ?thesis by auto
  qed
qed simp

lemma layered_unique:
  "layered S Ls \<Longrightarrow> layered S Ls' \<Longrightarrow> list_all2 (\<lambda>a b. mset a = mset b) Ls Ls'"
proof (induction Ls arbitrary: S Ls')
  case Nil
  then have "ready S = {}" by (auto simp: ready_def)
  with Nil show ?case by (cases Ls') auto
next
  case (Cons L Ls)
  have "ready S \<noteq> {}" using Cons.prems(1) by (metis layered.simps(2) set_empty)
  then have "\<not> set N \<subseteq> S" by (auto simp: ready_def)
  with Cons.prems(2) obtain L' Ls'' where Ls': "Ls' = L' # Ls''" by (cases Ls') auto
  with Cons.prems have "set L = set L'" "distinct L" "distinct L'" by auto
  then have "mset L = mset L'" by (simp add: set_eq_iff_mset_eq_distinct)
  with Cons Ls' \<open>set L = set L'\<close> show ?case by auto
qed

lemma layered_ranked:
  assumes "layered {} Ls"
  shows ranked
proof -
  define rank where "rank n = (LEAST i. i < length Ls \<and> n \<in> set (Ls ! i))" for n
  have "rank d < rank n" if n: "n \<in> set N" and d: "d \<in> set (D n)" for n d
  proof -
    from layered_nodes [OF assms] n have "\<exists>L \<in> set Ls. n \<in> set L" by auto
    then have "\<exists>i. i < length Ls \<and> n \<in> set (Ls ! i)" by (metis in_set_conv_nth)
    then have r: "rank n < length Ls" "n \<in> set (Ls ! rank n)"
      unfolding rank_def by (metis (mono_tags, lifting) LeastI)+
    from layered_deps [OF assms r d] obtain j where "j < rank n" "d \<in> set (Ls ! j)" by auto
    then have "rank d \<le> j" unfolding rank_def [of d] using r(1) by (intro Least_le) simp
    with \<open>j < rank n\<close> show ?thesis by simp
  qed
  then show ?thesis unfolding ranked_def by blast
qed

end

section \<open>\<^verbatim>\<open>buildModuleLevels\<close>\<close>

fun index_modules ::
  "module_config option list \<Rightarrow> (string \<rightharpoonup> module_config) \<Rightarrow> goerr + (string \<rightharpoonup> module_config)" where
  "index_modules [] byName = Inr byName"
| "index_modules (None # ms) byName = Inl (ErrText ''nil module config'')"
| "index_modules (Some m # ms) byName =
     (if byName (mc_Name m) \<noteq> None then Inl (ErrText (''duplicate module '' @ go_quote (mc_Name m)))
      else index_modules ms (byName(mc_Name m \<mapsto> m)))"

text \<open>The in-degrees and the dependents collected so far.\<close>

type_synonym edges = "(string \<rightharpoonup> int) \<times> (string \<Rightarrow> string list)"

definition zero_or :: "int option \<Rightarrow> int" where
  "zero_or v = (case v of None \<Rightarrow> 0 | Some d \<Rightarrow> d)"

fun add_deps ::
  "(string \<rightharpoonup> module_config) \<Rightarrow> string \<Rightarrow> string list \<Rightarrow> string set \<Rightarrow> edges \<Rightarrow> goerr + edges" where
  "add_deps byName name [] seen es = Inr es"
| "add_deps byName name (dep # deps) seen (indegree, dependents) =
     (if dep = name then Inl (ErrText (''module '' @ go_quote name @ '' depends on itself''))
      else if byName dep = None then
        Inl (ErrText (''module '' @ go_quote name @ '' depends on unknown module '' @ go_quote dep))
      else if dep \<in> seen then add_deps byName name deps seen (indegree, dependents)
      else add_deps byName name deps (insert dep seen)
        (indegree(name \<mapsto> zero_or (indegree name) + 1), dependents(dep := dependents dep @ [name])))"

fun add_modules ::
  "(string \<rightharpoonup> module_config) \<Rightarrow> module_config list \<Rightarrow> edges \<Rightarrow> goerr + edges" where
  "add_modules byName [] es = Inr es"
| "add_modules byName (m # ms) es =
     (case add_deps byName (mc_Name m) (mc_Dependencies m) {} es of
        Inl e \<Rightarrow> Inl e | Inr es' \<Rightarrow> add_modules byName ms es')"

definition zero_degrees :: "string list \<Rightarrow> (string \<rightharpoonup> int)" where
  "zero_degrees ns = (\<lambda>n. if n \<in> set ns then Some 0 else None)"

definition present :: "module_config option list \<Rightarrow> module_config list" where
  "present ms = List.map_filter id ms"

definition module_edges ::
  "module_config option list \<Rightarrow> goerr + (string \<rightharpoonup> module_config) \<times> edges" where
  "module_edges ms =
     (case index_modules ms Map.empty of Inl e \<Rightarrow> Inl e
      | Inr byName \<Rightarrow>
         (case add_modules byName (present ms) (zero_degrees (map mc_Name (present ms)), \<lambda>_. []) of
            Inl e \<Rightarrow> Inl e | Inr es \<Rightarrow> Inr (byName, es)))"

text \<open>
  The keys of \<^verbatim>\<open>indegree\<close> are always names of modules, and the names are sorted before use,
  so the random iteration order of the map does not show. Every name of a level is a key of
  \<^verbatim>\<open>byName\<close>.
\<close>

function levels_loop ::
  "(string \<rightharpoonup> module_config) \<Rightarrow> (string \<Rightarrow> string list) \<Rightarrow> string list \<Rightarrow> (string \<rightharpoonup> int) \<Rightarrow> int
   \<Rightarrow> module_config list list \<Rightarrow> goerr + module_config list list" where
  "levels_loop byName dependents keys indegree remaining levels =
     (if remaining > 0 then
        (let names = sort (filter (\<lambda>n. indegree n = Some 0) keys) in
         if names = [] then
           Inl (ErrText (''circular dependency among modules: '' @
             go_list (sort (filter (\<lambda>n. indegree n \<noteq> None) keys))))
         else
           levels_loop byName dependents keys
             (fold (\<lambda>n. fold dec (dependents n)) names (fold drop_key names indegree))
             (remaining - int (length names))
             (levels @ [List.map_filter byName names]))
      else Inr levels)"
  by pat_completeness auto
termination
  by (relation "measure (\<lambda>(byName, dependents, keys, indegree, remaining, levels). nat remaining)")
    (auto simp: Let_def simp flip: length_greater_0_conv)

declare levels_loop.simps [simp del]

definition buildModuleLevels :: "module_config option list \<Rightarrow> goerr + module_config list list" where
  "buildModuleLevels ms =
     (case module_edges ms of Inl e \<Rightarrow> Inl e
      | Inr (byName, indegree, dependents) \<Rightarrow>
          levels_loop byName dependents (map mc_Name (present ms)) indegree (int (length ms)) [])"

subsection \<open>The graph that the first half builds\<close>

lemma index_modules_spec:
  "index_modules ms byName = Inr byName' \<Longrightarrow>
     map Some (present ms) = ms \<and> distinct (map mc_Name (present ms)) \<and>
     dom byName \<inter> mc_Name ` set (present ms) = {} \<and>
     byName' = byName ++ map_of (map (\<lambda>m. (mc_Name m, m)) (present ms))"
proof (induction ms byName rule: index_modules.induct)
  case (1 byName)
  then show ?case by (simp add: present_def List.map_filter_simps)
next
  case (3 m ms byName)
  from 3(2) have free: "\<not> byName (mc_Name m) \<noteq> None"
    and rest: "index_modules ms (byName(mc_Name m \<mapsto> m)) = Inr byName'" by (auto split: if_splits)
  from 3(1) [OF this] have IH: "map Some (present ms) = ms" "distinct (map mc_Name (present ms))"
    "dom (byName(mc_Name m \<mapsto> m)) \<inter> mc_Name ` set (present ms) = {}"
    "byName' = byName(mc_Name m \<mapsto> m) ++ map_of (map (\<lambda>m. (mc_Name m, m)) (present ms))"
    unfolding fun_upd_def by simp_all
  have p: "present (Some m # ms) = m # present ms" by (simp add: present_def List.map_filter_simps)
  from IH(3) have new: "mc_Name m \<notin> mc_Name ` set (present ms)" by auto
  have "map_of (map (\<lambda>m. (mc_Name m, m)) (present ms)) (mc_Name m) = None"
    using new by (auto simp: map_of_eq_None_iff image_image)
  then have eq: "byName(mc_Name m \<mapsto> m) ++ map_of (map (\<lambda>m. (mc_Name m, m)) (present ms)) =
      byName ++ map_of (map (\<lambda>m. (mc_Name m, m)) (m # present ms))"
    by (auto simp: fun_eq_iff map_add_def split: option.splits)
  have "byName' = byName ++ map_of (map (\<lambda>m. (mc_Name m, m)) (m # present ms))"
    by (simp only: IH(4) eq)
  moreover have "map Some (m # present ms) = Some m # ms" "distinct (map mc_Name (m # present ms))"
    "dom byName \<inter> mc_Name ` set (m # present ms) = {}"
    using IH(1-3) new free by auto
  ultimately show ?case unfolding p by blast
qed simp

text \<open>What one module adds, and what all modules add.\<close>

lemma add_deps_spec:
  "add_deps byName name deps seen (ind, dpd) = Inr (ind', dpd') \<Longrightarrow>
     name \<notin> set deps \<and> (\<forall>d \<in> set deps. byName d \<noteq> None) \<and>
     (\<forall>n. n \<noteq> name \<longrightarrow> ind' n = ind n \<and> (\<forall>d. count_list (dpd' d) n = count_list (dpd d) n)) \<and>
     (ind name \<noteq> None \<longrightarrow> ind' name = Some (zero_or (ind name) + int (card (set deps - seen)))) \<and>
     (\<forall>d. count_list (dpd' d) name =
        count_list (dpd d) name + (if d \<in> set deps - seen then 1 else 0))"
proof (induction byName name deps seen "(ind, dpd)" arbitrary: ind dpd rule: add_deps.induct)
  case (1 byName name seen)
  then show ?case by (auto simp: zero_or_def split: option.splits)
next
  case (2 byName name dep deps seen ind dpd)
  from 2(3) have ok: "dep \<noteq> name" "byName dep \<noteq> None" by (auto split: if_splits)
  show ?case
  proof (cases "dep \<in> seen")
    case True
    then have eq: "set (dep # deps) - seen = set deps - seen" by auto
    from 2(3) ok True have "add_deps byName name deps seen (ind, dpd) = Inr (ind', dpd')" by simp
    from 2(1) [OF ok(1) _ True this] ok eq show ?thesis by simp
  next
    case False
    have "set (dep # deps) - seen = insert dep (set deps - insert dep seen)" using False by auto
    then have "card (set (dep # deps) - seen) = Suc (card (set deps - insert dep seen))" by simp
    note card = this
    from 2(3) ok False have "add_deps byName name deps (insert dep seen)
      (ind(name \<mapsto> zero_or (ind name) + 1), dpd(dep := dpd dep @ [name])) = Inr (ind', dpd')" by simp
    from 2(2) [OF ok(1) _ False this] ok(2) have IH: "name \<notin> set deps" "\<forall>d \<in> set deps. byName d \<noteq> None"
      "\<And>n. n \<noteq> name \<Longrightarrow> ind' n = ind n" "\<And>n d. n \<noteq> name \<Longrightarrow> count_list (dpd' d) n = count_list (dpd d) n"
      "ind' name = Some (zero_or (ind name) + 1 + int (card (set deps - insert dep seen)))"
      "\<And>d. count_list (dpd' d) name = count_list ((dpd(dep := dpd dep @ [name])) d) name +
         (if d \<in> set deps - insert dep seen then 1 else 0)"
      by (simp_all add: zero_or_def)
    have "\<forall>d. count_list (dpd' d) name =
        count_list (dpd d) name + (if d \<in> set (dep # deps) - seen then 1 else 0)"
      using False by (auto simp: IH(6))
    with IH(1-5) ok card show ?thesis by simp
  qed
qed

lemma add_modules_spec:
  "add_modules byName ms (ind, dpd) = Inr (ind', dpd') \<Longrightarrow> distinct (map mc_Name ms) \<Longrightarrow>
     (\<forall>m \<in> set ms. mc_Name m \<notin> set (mc_Dependencies m) \<and> (\<forall>d \<in> set (mc_Dependencies m). byName d \<noteq> None) \<and>
        (ind (mc_Name m) \<noteq> None \<longrightarrow>
           ind' (mc_Name m) = Some (zero_or (ind (mc_Name m)) + int (card (set (mc_Dependencies m))))) \<and>
        (\<forall>d. count_list (dpd' d) (mc_Name m) =
           count_list (dpd d) (mc_Name m) + (if d \<in> set (mc_Dependencies m) then 1 else 0))) \<and>
     (\<forall>n. n \<notin> mc_Name ` set ms \<longrightarrow> ind' n = ind n \<and> (\<forall>d. count_list (dpd' d) n = count_list (dpd d) n))"
proof (induction byName ms "(ind, dpd)" arbitrary: ind dpd rule: add_modules.induct)
  case (2 byName m ms ind dpd)
  from 2(2) obtain ind1 dpd1 where one: "add_deps byName (mc_Name m) (mc_Dependencies m) {} (ind, dpd) = Inr (ind1, dpd1)"
    and rest: "add_modules byName ms (ind1, dpd1) = Inr (ind', dpd')"
    by (auto split: sum.splits)
  note m = add_deps_spec [OF one]
  from 2(3) have new: "mc_Name m \<notin> mc_Name ` set ms" and dist: "distinct (map mc_Name ms)" by auto
  note IH = 2(1) [OF one rest dist]
  have other: "ind1 (mc_Name k) = ind (mc_Name k)"
    "count_list (dpd1 d) (mc_Name k) = count_list (dpd d) (mc_Name k)" if "k \<in> set ms" for k d
    using m new that by (metis imageI)+
  have self: "ind' (mc_Name m) = ind1 (mc_Name m)"
    "count_list (dpd' d) (mc_Name m) = count_list (dpd1 d) (mc_Name m)" for d
    using IH new by blast+
  have "\<forall>n. n \<notin> mc_Name ` set (m # ms) \<longrightarrow> ind' n = ind n \<and> (\<forall>d. count_list (dpd' d) n = count_list (dpd d) n)"
    using IH m by auto
  with IH m other self show ?case by simp
qed simp

text \<open>
  The dependency graph of a module list: empty when the first half of
  \<^verbatim>\<open>buildModuleLevels\<close> reports an error.
\<close>

definition graph_nodes :: "module_config option list \<Rightarrow> string list" where
  "graph_nodes ms = (case module_edges ms of Inl e \<Rightarrow> [] | Inr _ \<Rightarrow> map mc_Name (present ms))"

definition graph_deps :: "module_config option list \<Rightarrow> string \<Rightarrow> string list" where
  "graph_deps ms n = (case map_of (map (\<lambda>m. (mc_Name m, m)) (present ms)) n of
     None \<Rightarrow> [] | Some m \<Rightarrow> remdups (mc_Dependencies m))"

definition graph_dependents :: "module_config option list \<Rightarrow> string \<Rightarrow> string list" where
  "graph_dependents ms = (case module_edges ms of Inl e \<Rightarrow> (\<lambda>_. []) | Inr (byName, ind, dpd) \<Rightarrow> dpd)"

lemma module_edges_spec:
  assumes "module_edges ms = Inr (byName, ind, dpd)"
  shows "ms = map Some (present ms)" "distinct (map mc_Name (present ms))"
    and "byName = map_of (map (\<lambda>m. (mc_Name m, m)) (present ms))"
    and "\<And>m. m \<in> set (present ms) \<Longrightarrow> mc_Name m \<notin> set (mc_Dependencies m) \<and>
       set (mc_Dependencies m) \<subseteq> mc_Name ` set (present ms) \<and>
       ind (mc_Name m) = Some (int (card (set (mc_Dependencies m)))) \<and>
       (\<forall>d. count_list (dpd d) (mc_Name m) = (if d \<in> set (mc_Dependencies m) then 1 else 0))"
    and "\<And>n. n \<notin> mc_Name ` set (present ms) \<Longrightarrow> ind n = None"
proof -
  let ?ns = "map mc_Name (present ms)"
  from assms have idx: "index_modules ms Map.empty = Inr byName"
    and add: "add_modules byName (present ms) (zero_degrees ?ns, \<lambda>_. []) = Inr (ind, dpd)"
    by (auto simp: module_edges_def split: sum.splits)
  note ix = index_modules_spec [OF idx]
  then show "ms = map Some (present ms)" "distinct (map mc_Name (present ms))"
    and byName: "byName = map_of (map (\<lambda>m. (mc_Name m, m)) (present ms))" by simp_all
  from ix have dist: "distinct ?ns" by simp
  note am = add_modules_spec [OF add dist]
  have known: "byName d \<noteq> None \<longleftrightarrow> d \<in> mc_Name ` set (present ms)" for d
    by (simp add: byName map_of_eq_None_iff image_image)
  show "mc_Name m \<notin> set (mc_Dependencies m) \<and> set (mc_Dependencies m) \<subseteq> mc_Name ` set (present ms) \<and>
       ind (mc_Name m) = Some (int (card (set (mc_Dependencies m)))) \<and>
       (\<forall>d. count_list (dpd d) (mc_Name m) = (if d \<in> set (mc_Dependencies m) then 1 else 0))"
    if m: "m \<in> set (present ms)" for m
  proof -
    have "zero_degrees ?ns (mc_Name m) = Some 0" using m by (simp add: zero_degrees_def)
    moreover have "set (mc_Dependencies m) \<subseteq> mc_Name ` set (present ms)"
      using am m known by blast
    ultimately show ?thesis using am m by (simp add: zero_or_def)
  qed
  show "ind n = None" if "n \<notin> mc_Name ` set (present ms)" for n
    using am that by (simp add: zero_degrees_def)
qed

lemma graph_deps_present:
  assumes "distinct (map mc_Name (present ms))" "m \<in> set (present ms)"
  shows "graph_deps ms (mc_Name m) = remdups (mc_Dependencies m)"
proof -
  have "map_of (map (\<lambda>m. (mc_Name m, m)) (present ms)) (mc_Name m) = Some m"
    using assms by (intro map_of_is_SomeI) (auto simp: o_def)
  then show ?thesis by (simp add: graph_deps_def)
qed

lemma count_list_remdups: "count_list (remdups xs) x = (if x \<in> set xs then 1 else 0)"
  by (induction xs) auto

interpretation dvp: dep_graph "graph_nodes ms" "graph_deps ms" "graph_dependents ms" for ms
proof (cases "module_edges ms")
  case (Inl e)
  then show "dep_graph (graph_nodes ms) (graph_deps ms) (graph_dependents ms)"
    by unfold_locales (simp_all add: graph_nodes_def)
next
  case (Inr r)
  obtain byName ind dpd where r: "r = (byName, ind, dpd)" by (metis prod_cases3)
  note spec = module_edges_spec [OF Inr [unfolded r]]
  have nodes: "graph_nodes ms = map mc_Name (present ms)" and dpd: "graph_dependents ms = dpd"
    by (simp_all add: graph_nodes_def graph_dependents_def Inr r)
  show "dep_graph (graph_nodes ms) (graph_deps ms) (graph_dependents ms)"
  proof
    show "distinct (graph_nodes ms)" using spec(2) nodes by simp
    fix n assume "n \<in> set (graph_nodes ms)"
    then obtain m where m: "m \<in> set (present ms)" "n = mc_Name m" by (auto simp: nodes)
    note ds = graph_deps_present [OF spec(2) m(1)]
    show "set (graph_deps ms n) \<subseteq> set (graph_nodes ms)"
      using spec(4) [OF m(1)] by (simp add: nodes m ds)
    show "count_list (graph_dependents ms d) n = count_list (graph_deps ms n) d" for d
      using spec(4) [OF m(1)] by (simp add: dpd m ds count_list_remdups)
  qed
qed


subsection \<open>The second half computes the layers\<close>

context dep_graph
begin

lemma round_names:
  assumes "counts S ind"
  shows "distinct (sort (filter (\<lambda>n. ind n = Some 0) N))"
    and "set (sort (filter (\<lambda>n. ind n = Some 0) N)) = ready S"
proof -
  show "distinct (sort (filter (\<lambda>n. ind n = Some 0) N))" using nodes by simp
  have "ready S \<subseteq> set N" by (auto simp: ready_def)
  then show "set (sort (filter (\<lambda>n. ind n = Some 0) N)) = ready S"
    unfolding set_sort set_filter using counts_ready [OF assms] by blast
qed

lemma ready_card:
  assumes "set L = ready S" "distinct L"
  shows "int (card (set N - S)) - int (length L) = int (card (set N - (S \<union> set L)))"
proof -
  have "set N - (S \<union> set L) = (set N - S) - set L" by auto
  moreover have "set L \<subseteq> set N - S" using assms by (auto simp: ready_def)
  ultimately show ?thesis
    using assms(2) by (simp add: card_Diff_subset card_mono distinct_card [symmetric] of_nat_diff)
qed

lemma levels_loop_layers:
  "counts S ind \<Longrightarrow>
    (\<exists>Ls. levels_loop byName dpd N ind (int (card (set N - S))) lv
        = Inr (lv @ map (List.map_filter byName) Ls) \<and> layered S Ls \<and> (\<forall>L \<in> set Ls. sorted L)) \<or>
    (\<exists>e. levels_loop byName dpd N ind (int (card (set N - S))) lv = Inl e \<and> \<not> ranked)"
proof (induction "card (set N - S)" arbitrary: S ind lv rule: less_induct)
  case less
  let ?L = "sort (filter (\<lambda>n. ind n = Some 0) N)"
  let ?ind = "fold (\<lambda>n. fold dec (dpd n)) ?L (fold drop_key ?L ind)"
  note L = round_names [OF less.prems]
  note unfold = levels_loop.simps [of byName dpd N ind "int (card (set N - S))" lv]
  show ?case
  proof (cases "card (set N - S) > 0")
    case False
    then have "levels_loop byName dpd N ind (int (card (set N - S))) lv = Inr lv"
      by (simp only: unfold of_nat_0_less_iff if_False)
    moreover from False have "set N \<subseteq> S" by auto
    ultimately show ?thesis by (auto intro!: exI [of _ "[]"])
  next
    case pos: True
    then have left: "\<not> set N \<subseteq> S" by (metis Diff_eq_empty_iff card.empty less_irrefl)
    show ?thesis
    proof (cases "?L = []")
      case True
      with L(2) left have "\<not> ranked" by (intro stuck_not_ranked) auto
      with True pos unfold show ?thesis by auto
    next
      case False
      have counts: "counts (S \<union> set ?L) ?ind"
        by (rule counts_round [OF less.prems L]) (simp add: fold_dec_concat fold_drop_key)
      note card = ready_card [OF L(2,1)]
      have "length ?L > 0" using False by (simp only: length_greater_0_conv not_False_eq_True)
      with card have smaller: "card (set N - (S \<union> set ?L)) < card (set N - S)" by linarith
      have step: "levels_loop byName dpd N ind (int (card (set N - S))) lv =
          levels_loop byName dpd N ?ind (int (card (set N - (S \<union> set ?L))))
            (lv @ [List.map_filter byName ?L])"
        using unfold pos False card by (simp only: Let_def if_True if_False of_nat_0_less_iff)
      have sorted: "sorted ?L" by simp
      from less.hyps [OF smaller counts, of "lv @ [List.map_filter byName ?L]"] show ?thesis
      proof
        assume "\<exists>Ls. levels_loop byName dpd N ?ind (int (card (set N - (S \<union> set ?L))))
             (lv @ [List.map_filter byName ?L]) =
           Inr ((lv @ [List.map_filter byName ?L]) @ map (List.map_filter byName) Ls) \<and>
           layered (S \<union> set ?L) Ls \<and> (\<forall>L \<in> set Ls. sorted L)"
        then obtain Ls where "levels_loop byName dpd N ?ind (int (card (set N - (S \<union> set ?L))))
             (lv @ [List.map_filter byName ?L]) =
           Inr (lv @ map (List.map_filter byName) (?L # Ls))"
          "layered (S \<union> set ?L) Ls" "\<forall>L \<in> set Ls. sorted L" by auto
        note this(1)
        moreover from \<open>layered (S \<union> set ?L) Ls\<close> L False have "layered S (?L # Ls)"
          by (simp only: layered.simps not_False_eq_True simp_thms)
        moreover from \<open>\<forall>L \<in> set Ls. sorted L\<close> sorted have "\<forall>L \<in> set (?L # Ls). sorted L"
          by (simp only: set_simps ball_simps)
        ultimately show ?thesis unfolding step by (intro disjI1 exI [of _ "?L # Ls"] conjI)
      qed (simp only: step simp_thms)
    qed
  qed
qed

end


subsection \<open>What \<^verbatim>\<open>buildModuleLevels\<close> returns\<close>

lemma levels_of_edges:
  assumes "module_edges ms = Inr (byName, ind, dpd)"
  shows "(\<exists>Ls. buildModuleLevels ms = Inr (map (List.map_filter byName) Ls) \<and>
           dvp.layered ms {} Ls \<and> (\<forall>L \<in> set Ls. sorted L)) \<or>
         (\<exists>e. buildModuleLevels ms = Inl e \<and> \<not> dvp.ranked ms)"
proof -
  note spec = module_edges_spec [OF assms]
  have nodes: "graph_nodes ms = map mc_Name (present ms)" and dpd: "graph_dependents ms = dpd"
    by (simp_all add: graph_nodes_def graph_dependents_def assms)
  have "dvp.counts ms {} ind"
    by (rule dvp.counts_initial)
      (auto simp: nodes spec(4,5) graph_deps_present [OF spec(2)] length_remdups_card_conv)
  from dvp.levels_loop_layers [OF this, of byName "[]"]
  have "(\<exists>Ls. levels_loop byName dpd (map mc_Name (present ms)) ind (int (length (present ms))) []
        = Inr (map (List.map_filter byName) Ls) \<and> dvp.layered ms {} Ls \<and> (\<forall>L \<in> set Ls. sorted L)) \<or>
    (\<exists>e. levels_loop byName dpd (map mc_Name (present ms)) ind (int (length (present ms))) [] = Inl e \<and>
       \<not> dvp.ranked ms)"
    using distinct_card [OF spec(2)] by (simp add: nodes dpd)
  moreover have "length ms = length (present ms)" using spec(1) by (metis length_map)
  ultimately show ?thesis using assms by (simp add: buildModuleLevels_def)
qed

lemma map_filter_names:
  assumes "distinct (map mc_Name cs)" "set L \<subseteq> mc_Name ` set cs"
    and "f = map_of (map (\<lambda>m. (mc_Name m, m)) cs)"
  shows "map mc_Name (List.map_filter f L) = L" and "set (List.map_filter f L) = {m \<in> set cs. mc_Name m \<in> set L}"
proof -
  have f: "f n = Some m \<longleftrightarrow> m \<in> set cs \<and> mc_Name m = n" for n m
  proof
    assume "f n = Some m"
    then show "m \<in> set cs \<and> mc_Name m = n" unfolding assms(3) by (auto dest!: map_of_SomeD)
  next
    assume "m \<in> set cs \<and> mc_Name m = n"
    then show "f n = Some m" unfolding assms(3) using assms(1)
      by (intro map_of_is_SomeI) (auto simp: o_def)
  qed
  show "map mc_Name (List.map_filter f L) = L"
    using assms(2)
  proof (induction L)
    case (Cons n L)
    then obtain m where "f n = Some m" "mc_Name m = n" using f by auto
    with Cons show ?case by (simp add: List.map_filter_simps)
  qed (simp add: List.map_filter_simps)
  show "set (List.map_filter f L) = {m \<in> set cs. mc_Name m \<in> set L}"
  proof -
    have "set (List.map_filter f xs) = {m. \<exists>n \<in> set xs. f n = Some m}" for xs
      by (induction xs) (auto simp: List.map_filter_simps split: option.splits)
    then show ?thesis by (auto simp: f)
  qed
qed

lemma concat_map_filter: "concat (map (List.map_filter f) Ls) = List.map_filter f (concat Ls)"
  by (induction Ls) (simp_all add: List.map_filter_def List.map_filter_simps)

lemma distinct_from_names: "distinct (map g xs) \<Longrightarrow> distinct xs"
  by (simp add: distinct_map)

lemma buildModuleLevels_spec:
  assumes "buildModuleLevels ms = Inr levels"
  shows "mset (map Some (concat levels)) = mset ms" (is ?all)
    and "\<forall>L \<in> set levels. sorted (map mc_Name L)" (is ?sorted)
    and "i < length levels \<Longrightarrow> m \<in> set (levels ! i) \<Longrightarrow> d \<in> set (mc_Dependencies m) \<Longrightarrow>
       \<exists>j < i. d \<in> mc_Name ` set (levels ! j)"
    and "Suc i < length levels \<Longrightarrow> m \<in> set (levels ! Suc i) \<Longrightarrow>
       \<exists>d \<in> set (mc_Dependencies m). d \<in> mc_Name ` set (levels ! i)"
    and "distinct (map mc_Name (concat levels))"
proof -
  from assms obtain byName ind dpd where edges: "module_edges ms = Inr (byName, ind, dpd)"
    by (auto simp: buildModuleLevels_def split: sum.splits)
  note spec = module_edges_spec [OF edges]
  from levels_of_edges [OF edges] assms obtain Ls where
    levels: "levels = map (List.map_filter byName) Ls" and lay: "dvp.layered ms {} Ls"
    and srt: "\<forall>L \<in> set Ls. sorted L" by auto
  have nodes: "graph_nodes ms = map mc_Name (present ms)" by (simp add: graph_nodes_def edges)
  note all = dvp.layered_nodes [OF lay, unfolded nodes]
  have sub: "set L \<subseteq> mc_Name ` set (present ms)" if "L \<in> set Ls" for L using all that by auto
  note mf = map_filter_names [OF spec(2) _ spec(3)]
  have names: "map mc_Name (levels ! i) = Ls ! i" if "i < length levels" for i
    using that levels mf(1) [OF sub] by simp
  have mem: "m \<in> set (present ms)" "mc_Name m \<in> set (Ls ! i)" if "i < length levels" "m \<in> set (levels ! i)" for i m
    using that levels mf(2) [OF sub, of "Ls ! i"] by auto
  have cmf: "map mc_Name (concat levels) = concat Ls" "set (concat levels) = set (present ms)"
    unfolding levels concat_map_filter using mf [of "concat Ls"] all by auto
  have "mset (concat levels) = mset (present ms)"
    using cmf all spec(2) by (intro iffD1 [OF set_eq_iff_mset_eq_distinct])
      (auto intro: distinct_from_names [of mc_Name])
  then have "mset (map Some (concat levels)) = mset (map Some (present ms))" by (simp only: mset_map)
  with arg_cong [OF spec(1), of mset] show ?all by (simp only:)
  show "\<forall>L \<in> set levels. sorted (map mc_Name L)"
    using srt mf(1) [OF sub] by (auto simp: levels)
  show "\<exists>j < i. d \<in> mc_Name ` set (levels ! j)"
    if i: "i < length levels" and m: "m \<in> set (levels ! i)" and d: "d \<in> set (mc_Dependencies m)" for i m d
  proof -
    have "d \<in> set (graph_deps ms (mc_Name m))" using graph_deps_present [OF spec(2) mem(1) [OF i m]] d by simp
    from dvp.layered_deps [OF lay _ mem(2) [OF i m] this] i levels obtain j where "j < i" "d \<in> set (Ls ! j)" by auto
    with names [of j] i show ?thesis by (metis image_set order.strict_trans)
  qed
  show "\<exists>d \<in> set (mc_Dependencies m). d \<in> mc_Name ` set (levels ! i)"
    if i: "Suc i < length levels" and m: "m \<in> set (levels ! Suc i)" for i m
  proof -
    from dvp.layered_tight [OF lay _ mem(2) [OF i m]] i levels
    obtain d where "d \<in> set (graph_deps ms (mc_Name m))" "d \<in> set (Ls ! i)" by auto
    with names [of i] i graph_deps_present [OF spec(2) mem(1) [OF i m]] show ?thesis
      by (metis Suc_lessD image_set set_remdups)
  qed
  show "distinct (map mc_Name (concat levels))" using cmf(1) all by simp
qed

text \<open>
  C15. When \<^verbatim>\<open>buildModuleLevels\<close> succeeds, the levels hold every module exactly once, each level
  is sorted by name, everything a module depends on is in an earlier level, and a module
  waits for no more than it must: one of its dependencies is in the level just before.
\<close>

theorem module_levels_spec:
  assumes "buildModuleLevels ms = Inr levels"
  shows "mset (map Some (concat levels)) = mset ms \<and>
    (\<forall>L \<in> set levels. sorted (map mc_Name L)) \<and>
    (\<forall>i < length levels. \<forall>m \<in> set (levels ! i). \<forall>d \<in> set (mc_Dependencies m).
       \<exists>j < i. d \<in> mc_Name ` set (levels ! j)) \<and>
    (\<forall>i. Suc i < length levels \<longrightarrow> (\<forall>m \<in> set (levels ! Suc i). \<exists>d \<in> set (mc_Dependencies m).
       d \<in> mc_Name ` set (levels ! i)))"
  using buildModuleLevels_spec [OF assms] by blast

definition sample_modules :: "module_config option list" where
  "sample_modules = map (\<lambda>(n, ds). Some (sample_module\<lparr>mc_Name := n, mc_Dependencies := ds\<rparr>))
     [(''c'', [''a'', ''b'']), (''b'', [''a'', ''a'']), (''a'', [])]"

definition level_names :: "goerr + module_config list list \<Rightarrow> string list list" where
  "level_names r = (case r of Inl e \<Rightarrow> [] | Inr ls \<Rightarrow> map (map mc_Name) ls)"

lemma sample_levels: "level_names (buildModuleLevels sample_modules) = [[''a''], [''b''], [''c'']]"
  by code_simp

theorem module_levels_spec_witness:
  "\<exists>levels. buildModuleLevels sample_modules = Inr levels \<and>
     mset (map Some (concat levels)) = mset sample_modules \<and> length levels = 3"
proof -
  from sample_levels obtain levels where r: "buildModuleLevels sample_modules = Inr levels"
    and "length (map (map mc_Name) levels) = 3"
    by (cases "buildModuleLevels sample_modules") (auto simp: level_names_def)
  with module_levels_spec [OF r] show ?thesis by (intro exI [of _ levels]) simp
qed

lemma index_modules_succeeds:
  "None \<notin> set ms \<Longrightarrow> distinct (map mc_Name (present ms)) \<Longrightarrow> dom byName \<inter> mc_Name ` set (present ms) = {}
   \<Longrightarrow> \<exists>b. index_modules ms byName = Inr b"
proof (induction ms arbitrary: byName)
  case (Cons mo ms)
  then obtain m where m: "mo = Some m" by (cases mo) auto
  have p: "present (Some m # ms) = m # present ms" by (simp add: present_def List.map_filter_simps)
  have "dom (byName(mc_Name m \<mapsto> m)) = insert (mc_Name m) (dom byName)" by simp
  with Cons.prems have "dom (byName(mc_Name m \<mapsto> m)) \<inter> mc_Name ` set (present ms) = {}"
    unfolding m p by simp
  moreover from Cons.prems have "None \<notin> set ms" "distinct (map mc_Name (present ms))"
    unfolding m p by simp_all
  ultimately have "\<exists>b. index_modules ms (byName(mc_Name m \<mapsto> m)) = Inr b"
    using Cons.IH [of "byName(mc_Name m \<mapsto> m)"] by blast
  then show ?case using Cons.prems unfolding m p by auto
qed simp

lemma add_deps_succeeds:
  "name \<notin> set deps \<Longrightarrow> (\<forall>d \<in> set deps. byName d \<noteq> None) \<Longrightarrow> \<exists>r. add_deps byName name deps seen es = Inr r"
  by (induction byName name deps seen es rule: add_deps.induct) auto

lemma add_modules_succeeds:
  "\<forall>m \<in> set ms. mc_Name m \<notin> set (mc_Dependencies m) \<and> (\<forall>d \<in> set (mc_Dependencies m). byName d \<noteq> None)
   \<Longrightarrow> \<exists>r. add_modules byName ms es = Inr r"
proof (induction ms arbitrary: es)
  case (Cons m ms)
  with add_deps_succeeds [of "mc_Name m" "mc_Dependencies m" byName "{}" es] show ?case by auto
qed simp

lemma module_edges_succeeds:
  assumes "None \<notin> set ms" "distinct (map mc_Name (present ms))"
    and deps: "\<And>m d. m \<in> set (present ms) \<Longrightarrow> d \<in> set (mc_Dependencies m) \<Longrightarrow>
       d \<noteq> mc_Name m \<and> d \<in> mc_Name ` set (present ms)"
  shows "\<exists>r. module_edges ms = Inr r"
proof -
  from index_modules_succeeds [OF assms(1,2), of Map.empty] obtain byName where
    idx: "index_modules ms Map.empty = Inr byName" by auto
  have "byName d \<noteq> None" if "d \<in> mc_Name ` set (present ms)" for d
    using that index_modules_spec [OF idx] by (simp add: map_of_eq_None_iff image_image)
  with deps have "\<forall>m \<in> set (present ms). mc_Name m \<notin> set (mc_Dependencies m) \<and>
      (\<forall>d \<in> set (mc_Dependencies m). byName d \<noteq> None)" by blast
  from add_modules_succeeds [OF this] obtain es where
    "add_modules byName (present ms) (zero_degrees (map mc_Name (present ms)), \<lambda>_. []) = Inr es" by blast
  with idx show ?thesis by (simp add: module_edges_def)
qed

lemma ranked_iff:
  assumes "module_edges ms = Inr r"
  shows "dvp.ranked ms \<longleftrightarrow>
    (\<exists>rank :: string \<Rightarrow> nat. \<forall>m \<in> set (present ms). \<forall>d \<in> set (mc_Dependencies m). rank d < rank (mc_Name m))"
proof -
  obtain byName ind dpd where r: "r = (byName, ind, dpd)" by (metis prod_cases3)
  have "graph_nodes ms = map mc_Name (present ms)" by (simp add: graph_nodes_def assms)
  then show ?thesis
    using graph_deps_present [OF module_edges_spec(2) [OF assms [unfolded r]]]
    unfolding dvp.ranked_def by simp
qed

text \<open>
  C16. \<^verbatim>\<open>buildModuleLevels\<close> always returns, and it succeeds exactly on the module lists that can
  be ordered: no nil entry, no name twice, every dependency a listed module, and no cycle,
  that is, the modules can be numbered so that every dependency has a smaller number.
\<close>

theorem module_levels_complete:
  "(\<exists>levels. buildModuleLevels ms = Inr levels) \<longleftrightarrow>
     None \<notin> set ms \<and> distinct (map mc_Name (present ms)) \<and>
     (\<forall>m \<in> set (present ms). set (mc_Dependencies m) \<subseteq> mc_Name ` set (present ms)) \<and>
     (\<exists>rank :: string \<Rightarrow> nat. \<forall>m \<in> set (present ms). \<forall>d \<in> set (mc_Dependencies m). rank d < rank (mc_Name m))"
  (is "?l \<longleftrightarrow> ?r")
proof
  assume ?l
  then obtain levels byName ind dpd where l: "buildModuleLevels ms = Inr levels"
    and edges: "module_edges ms = Inr (byName, ind, dpd)"
    by (auto simp: buildModuleLevels_def split: sum.splits)
  note spec = module_edges_spec [OF edges]
  from levels_of_edges [OF edges] l have "dvp.ranked ms" using dvp.layered_ranked by auto
  moreover have "None \<notin> set ms" using spec(1) by (metis (no_types) imageE list.set_map option.distinct(1))
  ultimately show ?r using spec(2,4) ranked_iff [OF edges] by blast
next
  assume r: ?r
  then have "\<exists>r. module_edges ms = Inr r" by (intro module_edges_succeeds) (fastforce | blast)+
  then obtain byName ind dpd where edges: "module_edges ms = Inr (byName, ind, dpd)" by (metis prod_cases3)
  with r have "dvp.ranked ms" by (simp add: ranked_iff)
  with levels_of_edges [OF edges] show ?l by blast
qed

theorem module_levels_complete_witness:
  "(\<exists>levels. buildModuleLevels sample_modules = Inr levels) \<and>
   \<not> (\<exists>levels. buildModuleLevels [Some (sample_module\<lparr>mc_Dependencies := [''m'']\<rparr>)] = Inr levels)"
proof -
  have "present [Some (sample_module\<lparr>mc_Dependencies := [''m'']\<rparr>)] = [sample_module\<lparr>mc_Dependencies := [''m'']\<rparr>]"
    by (simp add: present_def List.map_filter_simps)
  then have "\<not> (\<exists>levels. buildModuleLevels [Some (sample_module\<lparr>mc_Dependencies := [''m'']\<rparr>)] = Inr levels)"
    unfolding module_levels_complete by (simp add: sample_module_def)
  moreover have "\<exists>levels. buildModuleLevels sample_modules = Inr levels"
    using sample_levels by (cases "buildModuleLevels sample_modules") (auto simp: level_names_def)
  ultimately show ?thesis by blast
qed


section \<open>The levels of \<^verbatim>\<open>pkg/kubernetes/modules.go\<close>\<close>

record module_graph =
  mg_modules :: "string \<rightharpoonup> module_config"
  mg_dependencies :: "string \<Rightarrow> string list"
  mg_reverseDeps :: "string \<Rightarrow> string list"

definition graph_add :: "module_config \<Rightarrow> module_graph \<Rightarrow> module_graph" where
  "graph_add m g =
     \<lparr>mg_modules = (mg_modules g)(mc_Name m \<mapsto> m),
      mg_dependencies = (mg_dependencies g)(mc_Name m := mc_Dependencies m),
      mg_reverseDeps = fold (\<lambda>d r. r(d := r d @ [mc_Name m])) (mc_Dependencies m) (mg_reverseDeps g)\<rparr>"

fun missing_dep :: "(string \<rightharpoonup> module_config) \<Rightarrow> module_config list \<Rightarrow> (string \<times> string) option" where
  "missing_dep known [] = None"
| "missing_dep known (m # ms) =
     (case find (\<lambda>d. known d = None) (mc_Dependencies m) of
        Some d \<Rightarrow> Some (d, mc_Name m) | None \<Rightarrow> missing_dep known ms)"

definition buildModuleGraph :: "module_config list \<Rightarrow> goerr + module_graph" where
  "buildModuleGraph ms =
     (let g = fold graph_add ms \<lparr>mg_modules = Map.empty, mg_dependencies = (\<lambda>_. []), mg_reverseDeps = (\<lambda>_. [])\<rparr>
      in case missing_dep (mg_modules g) ms of
           Some (d, n) \<Rightarrow> Inl (ErrText (''dependency module '' @ d @ '' not found for module '' @ n))
         | None \<Rightarrow> Inr g)"

text \<open>
  The levels come in the iteration order of a Go map, which is arbitrary: \<open>ord\<close> assigns
  priorities to the names, freely for each level.
\<close>

definition level_order :: "(nat \<Rightarrow> string \<Rightarrow> nat) \<Rightarrow> string list \<Rightarrow> (string \<rightharpoonup> int) \<Rightarrow> string list" where
  "level_order ord keys ind =
     sort_key (ord (length (filter (\<lambda>n. ind n \<noteq> None) keys))) (filter (\<lambda>n. ind n = Some 0) keys)"

definition remove_and_count :: "(string \<Rightarrow> string list) \<Rightarrow> string list \<Rightarrow> (string \<rightharpoonup> int) \<Rightarrow> (string \<rightharpoonup> int)" where
  "remove_and_count rd names ind = fold (\<lambda>n i. fold dec (rd n) (drop_key n i)) names ind"

lemma remove_and_count_apply:
  "remove_and_count rd names ind n =
     (if n \<in> set names then None
      else map_option (\<lambda>d. d - (\<Sum>x\<leftarrow>names. int (count_list (rd x) n))) (ind n))"
  unfolding remove_and_count_def
proof (induction names arbitrary: ind)
  case (Cons x xs)
  then show ?case by (cases "ind n") (auto simp: fold_dec drop_key_def)
qed (simp add: option.map_ident)

lemma remove_and_count_fewer:
  assumes "level_order ord keys ind \<noteq> []"
  shows "length (filter (\<lambda>n. \<exists>y. remove_and_count rd (level_order ord keys ind) ind n = Some y) keys)
     < length (filter (\<lambda>n. \<exists>y. ind n = Some y) keys)"
proof -
  from assms obtain k where k: "k \<in> set (level_order ord keys ind)" by (cases "level_order ord keys ind") auto
  then have "k \<in> set keys" "ind k = Some 0" by (auto simp: level_order_def)
  moreover have "remove_and_count rd (level_order ord keys ind) ind k = None"
    using k by (simp add: remove_and_count_apply)
  ultimately have "{i. i < length keys \<and> (\<exists>y. remove_and_count rd (level_order ord keys ind) ind (keys ! i) = Some y)}
      \<subset> {i. i < length keys \<and> (\<exists>y. ind (keys ! i) = Some y)}"
    by (auto simp: remove_and_count_apply in_set_conv_nth split: if_splits)
  then show ?thesis
    unfolding length_filter_conv_card by (intro psubset_card_mono) simp_all
qed

function topo_loop ::
  "(nat \<Rightarrow> string \<Rightarrow> nat) \<Rightarrow> module_graph \<Rightarrow> string list \<Rightarrow> (string \<rightharpoonup> int) \<Rightarrow> module_config list list
   \<Rightarrow> goerr + module_config list list" where
  "topo_loop ord g keys ind levels =
     (if filter (\<lambda>n. ind n \<noteq> None) keys = [] then Inr levels
      else
        (let names = level_order ord keys ind in
         if names = [] then
           Inl (ErrText (''circular dependency detected among modules: '' @
             go_list (filter (\<lambda>n. ind n \<noteq> None) keys)))
         else topo_loop ord g keys (remove_and_count (mg_reverseDeps g) names ind)
                (levels @ [List.map_filter (mg_modules g) names])))"
  by pat_completeness auto
termination
  by (relation "measure (\<lambda>(ord, g, keys, ind, levels). length (filter (\<lambda>n. \<exists>y. ind n = Some y) keys))")
    (auto intro: remove_and_count_fewer)

declare topo_loop.simps [simp del]

definition topologicalSortLevels ::
  "(nat \<Rightarrow> string \<Rightarrow> nat) \<Rightarrow> string list \<Rightarrow> module_graph \<Rightarrow> goerr + module_config list list" where
  "topologicalSortLevels ord keys g =
     topo_loop ord g keys
       (\<lambda>n. if mg_modules g n = None then None else Some (int (length (mg_dependencies g n)))) []"

text \<open>The two calls as \<^verbatim>\<open>EnableAndConfigureModules\<close> and \<^verbatim>\<open>WaitForModulesReady\<close> make them.\<close>

definition module_sort :: "(nat \<Rightarrow> string \<Rightarrow> nat) \<Rightarrow> module_config list \<Rightarrow> goerr + module_config list list" where
  "module_sort ord ms =
     (case buildModuleGraph ms of
        Inl e \<Rightarrow> Inl (wrapf ''failed to build module graph: '' e)
      | Inr g \<Rightarrow>
         (case topologicalSortLevels ord (remdups (map mc_Name ms)) g of
            Inl e \<Rightarrow> Inl (wrapf ''failed to sort modules: '' e) | Inr ls \<Rightarrow> Inr ls))"


context dep_graph
begin

lemma level_order_names:
  assumes "counts S ind"
  shows "distinct (level_order ord N ind)" and "set (level_order ord N ind) = ready S"
  using round_names [OF assms] nodes by (simp_all add: level_order_def)

lemma topo_loop_layers:
  assumes rd: "mg_reverseDeps g = dpd"
  shows "counts S ind \<Longrightarrow>
    (\<exists>Ls. topo_loop ord g N ind lv = Inr (lv @ map (List.map_filter (mg_modules g)) Ls) \<and> layered S Ls) \<or>
    (\<exists>e. topo_loop ord g N ind lv = Inl e \<and> \<not> ranked)"
proof (induction "card (set N - S)" arbitrary: S ind lv rule: less_induct)
  case less
  let ?L = "level_order ord N ind"
  let ?ind = "remove_and_count (mg_reverseDeps g) ?L ind"
  note L = level_order_names [OF less.prems, of ord]
  note unfold = topo_loop.simps [of ord g N ind lv]
  have empty: "filter (\<lambda>n. ind n \<noteq> None) N = [] \<longleftrightarrow> set N \<subseteq> S"
    using counts_dom [OF less.prems] unfolding filter_empty_conv by blast
  show ?case
  proof (cases "set N \<subseteq> S")
    case True
    with empty unfold have "topo_loop ord g N ind lv = Inr lv" by simp
    with True show ?thesis by (intro disjI1 exI [of _ "[]"]) simp
  next
    case left: False
    show ?thesis
    proof (cases "?L = []")
      case True
      with L(2) left have "\<not> ranked" by (intro stuck_not_ranked) auto
      with True left empty unfold show ?thesis by (simp add: Let_def)
    next
      case False
      have counts: "counts (S \<union> set ?L) ?ind"
        by (rule counts_round [OF less.prems L]) (simp add: remove_and_count_apply rd)
      have "length ?L > 0" using False by simp
      with ready_card [OF L(2,1)] have smaller: "card (set N - (S \<union> set ?L)) < card (set N - S)" by linarith
      have step: "topo_loop ord g N ind lv = topo_loop ord g N ?ind (lv @ [List.map_filter (mg_modules g) ?L])"
        using unfold left empty False by (simp add: Let_def)
      from less.hyps [OF smaller counts, of "lv @ [List.map_filter (mg_modules g) ?L]"] show ?thesis
        unfolding step
      proof (elim disjE exE conjE)
        fix Ls
        assume res: "topo_loop ord g N ?ind (lv @ [List.map_filter (mg_modules g) ?L]) =
           Inr ((lv @ [List.map_filter (mg_modules g) ?L]) @ map (List.map_filter (mg_modules g)) Ls)"
          and lay: "layered (S \<union> set ?L) Ls"
        from lay L False have "layered S (?L # Ls)" by simp
        with res show "(\<exists>Ls. topo_loop ord g N ?ind (lv @ [List.map_filter (mg_modules g) ?L]) =
            Inr (lv @ map (List.map_filter (mg_modules g)) Ls) \<and> layered S Ls) \<or>
          (\<exists>e. topo_loop ord g N ?ind (lv @ [List.map_filter (mg_modules g) ?L]) = Inl e \<and> \<not> ranked)"
          by (intro disjI1 exI [of _ "?L # Ls"]) (simp only: list.map append_assoc append_Cons append_Nil simp_thms)
      qed blast
    qed
  qed
qed

end

subsection \<open>The graph it builds\<close>

lemma fold_append_at:
  "count_list (fold (\<lambda>d r. r(d := r d @ [x])) ds r d) n =
     count_list (r d) n + (if n = x then count_list ds d else 0)"
  by (induction ds arbitrary: r) auto

lemma graph_add_sels [simp]:
  "mg_modules (graph_add m g) = (mg_modules g)(mc_Name m \<mapsto> m)"
  "mg_dependencies (graph_add m g) = (mg_dependencies g)(mc_Name m := mc_Dependencies m)"
  "mg_reverseDeps (graph_add m g) =
     fold (\<lambda>d r. r(d := r d @ [mc_Name m])) (mc_Dependencies m) (mg_reverseDeps g)"
  by (simp_all add: graph_add_def)

lemma graph_fold:
  assumes "distinct (map mc_Name ms)"
  shows "mg_modules (fold graph_add ms g) = mg_modules g ++ map_of (map (\<lambda>m. (mc_Name m, m)) ms)"
    and "m \<in> set ms \<Longrightarrow> mg_dependencies (fold graph_add ms g) (mc_Name m) = mc_Dependencies m"
    and "m \<in> set ms \<Longrightarrow> count_list (mg_reverseDeps (fold graph_add ms g) d) (mc_Name m) =
       count_list (mg_reverseDeps g d) (mc_Name m) + count_list (mc_Dependencies m) d"
    and "n \<notin> mc_Name ` set ms \<Longrightarrow> mg_dependencies (fold graph_add ms g) n = mg_dependencies g n \<and>
       count_list (mg_reverseDeps (fold graph_add ms g) d) n = count_list (mg_reverseDeps g d) n"
  using assms
proof (induction ms arbitrary: g m n)
  case (Cons k ms)
  {
    case 1
    with Cons have "mg_modules (fold graph_add ms (graph_add k g)) =
      mg_modules (graph_add k g) ++ map_of (map (\<lambda>m. (mc_Name m, m)) ms)" by simp
    moreover from 1 have "map_of (map (\<lambda>m. (mc_Name m, m)) ms) (mc_Name k) = None"
      by (auto simp: map_of_eq_None_iff image_image)
    ultimately show ?case by (auto simp: fun_eq_iff map_add_def split: option.splits)
  next
    case 2
    with Cons show ?case by auto
  next
    case 3
    then have "m \<in> set ms \<Longrightarrow> mc_Name m \<noteq> mc_Name k" by (metis distinct.simps(2) image_eqI list.set_map list.simps(9))
    with 3 Cons show ?case by (auto simp: fold_append_at)
  next
    case 4
    with Cons show ?case by (auto simp: fold_append_at)
  }
qed simp_all


lemma missing_dep_None:
  "missing_dep known ms = None \<longleftrightarrow> (\<forall>m \<in> set ms. \<forall>d \<in> set (mc_Dependencies m). known d \<noteq> None)"
proof (induction ms)
  case (Cons m ms)
  have "missing_dep known (m # ms) = None \<longleftrightarrow>
      find (\<lambda>d. known d = None) (mc_Dependencies m) = None \<and> missing_dep known ms = None"
    by (cases "find (\<lambda>d. known d = None) (mc_Dependencies m)") auto
  with Cons show ?case by (auto simp: find_None_iff)
qed simp

definition legacy_nodes :: "module_config list \<Rightarrow> string list" where
  "legacy_nodes ms =
     (if distinct (map mc_Name ms) \<and> (\<exists>g. buildModuleGraph ms = Inr g) then map mc_Name ms else [])"

definition legacy_graph :: "module_config list \<Rightarrow> module_graph" where
  "legacy_graph ms = fold graph_add ms \<lparr>mg_modules = Map.empty, mg_dependencies = (\<lambda>_. []), mg_reverseDeps = (\<lambda>_. [])\<rparr>"

lemma buildModuleGraph_result:
  "buildModuleGraph ms = (case missing_dep (mg_modules (legacy_graph ms)) ms of
     Some (d, n) \<Rightarrow> Inl (ErrText (''dependency module '' @ d @ '' not found for module '' @ n))
   | None \<Rightarrow> Inr (legacy_graph ms))"
  unfolding buildModuleGraph_def legacy_graph_def Let_def by (rule refl)

lemma legacy_graph_spec:
  assumes "distinct (map mc_Name ms)"
  shows "mg_modules (legacy_graph ms) = map_of (map (\<lambda>m. (mc_Name m, m)) ms)"
    and "m \<in> set ms \<Longrightarrow> mg_dependencies (legacy_graph ms) (mc_Name m) = mc_Dependencies m"
    and "m \<in> set ms \<Longrightarrow> count_list (mg_reverseDeps (legacy_graph ms) d) (mc_Name m) = count_list (mc_Dependencies m) d"
  using graph_fold [OF assms] by (simp_all add: legacy_graph_def)

lemma legacy_known: "distinct (map mc_Name ms) \<Longrightarrow> mg_modules (legacy_graph ms) d = None \<longleftrightarrow> d \<notin> mc_Name ` set ms"
  by (simp add: legacy_graph_spec map_of_eq_None_iff image_image)

lemma buildModuleGraph_ok:
  assumes "distinct (map mc_Name ms)"
  shows "(\<exists>g. buildModuleGraph ms = Inr g) \<longleftrightarrow> (\<forall>m \<in> set ms. set (mc_Dependencies m) \<subseteq> mc_Name ` set ms)"
proof -
  have "(\<exists>g. buildModuleGraph ms = Inr g) \<longleftrightarrow> missing_dep (mg_modules (legacy_graph ms)) ms = None"
    by (auto simp: buildModuleGraph_result split: option.splits)
  also have "\<dots> \<longleftrightarrow> (\<forall>m \<in> set ms. set (mc_Dependencies m) \<subseteq> mc_Name ` set ms)"
    unfolding missing_dep_None legacy_known [OF assms] by blast
  finally show ?thesis .
qed

interpretation legacy: dep_graph "legacy_nodes ms" "mg_dependencies (legacy_graph ms)" "mg_reverseDeps (legacy_graph ms)"
  for ms
proof (cases "distinct (map mc_Name ms) \<and> (\<exists>g. buildModuleGraph ms = Inr g)")
  case False
  then have "legacy_nodes ms = []" by (simp only: legacy_nodes_def if_False)
  then show "dep_graph (legacy_nodes ms) (mg_dependencies (legacy_graph ms)) (mg_reverseDeps (legacy_graph ms))"
    by unfold_locales simp_all
next
  case True
  then have nodes: "legacy_nodes ms = map mc_Name ms" and dist: "distinct (map mc_Name ms)"
    by (simp_all add: legacy_nodes_def)
  from True buildModuleGraph_ok have deps: "\<forall>m \<in> set ms. set (mc_Dependencies m) \<subseteq> mc_Name ` set ms" by blast
  show "dep_graph (legacy_nodes ms) (mg_dependencies (legacy_graph ms)) (mg_reverseDeps (legacy_graph ms))"
  proof
    show "distinct (legacy_nodes ms)" using dist nodes by simp
    fix n assume "n \<in> set (legacy_nodes ms)"
    then obtain m where m: "m \<in> set ms" "n = mc_Name m" by (auto simp: nodes)
    show "set (mg_dependencies (legacy_graph ms) n) \<subseteq> set (legacy_nodes ms)"
      using deps m legacy_graph_spec(2) [OF dist] by (simp add: nodes)
    show "count_list (mg_reverseDeps (legacy_graph ms) d) n = count_list (mg_dependencies (legacy_graph ms) n) d" for d
      using m legacy_graph_spec(2,3) [OF dist] by simp
  qed
qed

lemma module_sort_layers:
  assumes dist: "distinct (map mc_Name ms)" and g: "buildModuleGraph ms = Inr g"
  shows "(\<exists>Ls. module_sort ord ms = Inr (map (List.map_filter (mg_modules g)) Ls) \<and> legacy.layered ms {} Ls) \<or>
    (\<exists>e. module_sort ord ms = Inl e \<and> \<not> legacy.ranked ms)"
proof -
  have eq: "g = legacy_graph ms" using g by (auto simp: buildModuleGraph_result split: option.splits)
  have nodes: "legacy_nodes ms = map mc_Name ms" using dist g by (simp add: legacy_nodes_def)
  let ?ind = "\<lambda>n. if mg_modules g n = None then None else Some (int (length (mg_dependencies g n)))"
  have "legacy.counts ms {} ?ind"
    by (rule legacy.counts_initial) (simp_all add: nodes eq legacy_known [OF dist])
  note layers = legacy.topo_loop_layers [OF _ this, of g ord "[]", unfolded nodes append_Nil]
  have "module_sort ord ms = (case topo_loop ord g (map mc_Name ms) ?ind [] of
      Inl e \<Rightarrow> Inl (wrapf ''failed to sort modules: '' e) | Inr ls \<Rightarrow> Inr ls)"
    using g dist by (simp add: module_sort_def topologicalSortLevels_def distinct_remdups_id)
  then show ?thesis using layers by (auto simp: eq nodes)
qed

text \<open>The layers depend only on which dependencies there are.\<close>

lemma layered_cong:
  assumes "distinct (map mc_Name ms)" "module_edges (map Some ms) = Inr r" "buildModuleGraph ms = Inr g"
  shows "dvp.layered (map Some ms) S Ls \<longleftrightarrow> legacy.layered ms S Ls"
    and "dvp.ranked (map Some ms) \<longleftrightarrow> legacy.ranked ms"
proof -
  have p: "present (map Some ms) = ms" by (induction ms) (simp_all add: present_def List.map_filter_simps)
  have nodes: "graph_nodes (map Some ms) = map mc_Name ms" "legacy_nodes ms = map mc_Name ms"
    using assms by (simp_all add: graph_nodes_def legacy_nodes_def p)
  have deps: "set (graph_deps (map Some ms) (mc_Name m)) = set (mg_dependencies (legacy_graph ms) (mc_Name m))"
    if "m \<in> set ms" for m
    using that graph_deps_present [of "map Some ms" m] legacy_graph_spec(2) [OF assms(1)] assms(1) by (simp add: p)
  have ready: "dvp.ready (map Some ms) S = legacy.ready ms S" for S
    unfolding dvp.ready_def legacy.ready_def unfolding nodes using deps by auto
  show "dvp.layered (map Some ms) S Ls \<longleftrightarrow> legacy.layered ms S Ls"
  proof (induction Ls arbitrary: S)
    case Nil
    show ?case unfolding dvp.layered.simps legacy.layered.simps unfolding nodes by simp
  next
    case (Cons L Ls)
    show ?case unfolding dvp.layered.simps legacy.layered.simps ready Cons.IH ..
  qed
  show "dvp.ranked (map Some ms) \<longleftrightarrow> legacy.ranked ms"
    unfolding dvp.ranked_def legacy.ranked_def unfolding nodes using deps by simp
qed


definition same_levels :: "goerr + module_config list list \<Rightarrow> goerr + module_config list list \<Rightarrow> bool" where
  "same_levels a b =
     (case (a, b) of
        (Inr xs, Inr ys) \<Rightarrow> list_all2 (\<lambda>x y. mset x = mset y) xs ys
      | (Inl _, Inl _) \<Rightarrow> True
      | _ \<Rightarrow> False)"

lemma mset_map_filter: "mset xs = mset ys \<Longrightarrow> mset (List.map_filter f xs) = mset (List.map_filter f ys)"
  by (metis List.map_filter_def mset_filter mset_map)

lemma list_all2_map_filter:
  "list_all2 (\<lambda>a b. mset a = mset b) xs ys \<Longrightarrow>
     list_all2 (\<lambda>a b. mset a = mset b) (map (List.map_filter f) xs) (map (List.map_filter f) ys)"
  by (induction rule: list_all2_induct) (auto intro: mset_map_filter)

lemma present_map_Some: "present (map Some ms) = ms"
  by (induction ms) (simp_all add: present_def List.map_filter_simps)

lemma self_dep_not_ranked:
  assumes "distinct (map mc_Name ms)" "buildModuleGraph ms = Inr g" "m \<in> set ms" "mc_Name m \<in> set (mc_Dependencies m)"
  shows "\<not> legacy.ranked ms"
proof -
  have "legacy_nodes ms = map mc_Name ms" using assms by (simp add: legacy_nodes_def)
  then have "mc_Name m \<in> set (legacy_nodes ms)" using assms(3) by simp
  moreover have "mc_Name m \<in> set (mg_dependencies (legacy_graph ms) (mc_Name m))"
    using legacy_graph_spec(2) [OF assms(1,3)] assms(4) by simp
  ultimately show ?thesis unfolding legacy.ranked_def by (meson less_irrefl)
qed

text \<open>
  C17. The two implementations agree on modules with different names: both fail, or both
  return the same levels, up to the order inside a level, which in
  \<^verbatim>\<open>topologicalSortLevels\<close> is that of a Go map. A module that depends on itself, which only
  \<^verbatim>\<open>buildModuleLevels\<close> checks for, is reported as a cycle by the other.
\<close>

theorem module_sorts_agree:
  assumes dist: "distinct (map mc_Name ms)"
  shows "same_levels (buildModuleLevels (map Some ms)) (module_sort ord ms)"
proof (cases "buildModuleGraph ms")
  case (Inl e)
  then have "\<not> (\<forall>m \<in> set ms. set (mc_Dependencies m) \<subseteq> mc_Name ` set ms)"
    using buildModuleGraph_ok [OF dist] by (metis sum.distinct(1))
  then have "\<nexists>r. module_edges (map Some ms) = Inr r"
    using module_edges_spec(4) [of "map Some ms"] by (metis present_map_Some prod_cases3)
  then obtain e' where "module_edges (map Some ms) = Inl e'" by (cases "module_edges (map Some ms)") auto
  with Inl show ?thesis by (simp add: same_levels_def buildModuleLevels_def module_sort_def)
next
  case (Inr g)
  note srt = module_sort_layers [OF dist Inr, of ord]
  show ?thesis
  proof (cases "module_edges (map Some ms)")
    case (Inl e)
    have "\<exists>m \<in> set ms. mc_Name m \<in> set (mc_Dependencies m)"
    proof (rule ccontr)
      assume "\<not> (\<exists>m \<in> set ms. mc_Name m \<in> set (mc_Dependencies m))"
      moreover have "\<forall>m \<in> set ms. set (mc_Dependencies m) \<subseteq> mc_Name ` set ms"
        using Inr buildModuleGraph_ok [OF dist] by blast
      ultimately have "d \<noteq> mc_Name m \<and> d \<in> mc_Name ` set (present (map Some ms))"
        if "m \<in> set (present (map Some ms))" "d \<in> set (mc_Dependencies m)" for m d
        using that unfolding present_map_Some by blast
      then have "\<exists>r. module_edges (map Some ms) = Inr r"
        by (intro module_edges_succeeds) (auto simp: present_map_Some dist)
      with Inl show False by simp
    qed
    with self_dep_not_ranked [OF dist Inr] have "\<not> legacy.ranked ms" by blast
    with srt legacy.layered_ranked have "\<exists>e. module_sort ord ms = Inl e" by blast
    with Inl show ?thesis by (auto simp: same_levels_def buildModuleLevels_def)
  next
    case edges: (Inr r)
    obtain byName ind dpd where r: "r = (byName, ind, dpd)" by (metis prod_cases3)
    note cong = layered_cong [OF dist edges Inr]
    have maps: "byName = mg_modules g"
      using module_edges_spec(3) [OF edges [unfolded r]] legacy_graph_spec(1) [OF dist] Inr
      by (auto simp: present_map_Some buildModuleGraph_result split: option.splits)
    have agree: "list_all2 (\<lambda>x y. mset x = mset y) (map (List.map_filter (mg_modules g)) a)
        (map (List.map_filter (mg_modules g)) b)" if "legacy.layered ms {} a" "legacy.layered ms {} b" for a b
      by (rule list_all2_map_filter [OF legacy.layered_unique [OF that]])
    from levels_of_edges [OF edges [unfolded r]] srt show ?thesis
      using dvp.layered_ranked legacy.layered_ranked by (auto simp: same_levels_def cong maps agree)
  qed
qed

theorem module_sorts_agree_witness:
  "same_levels (buildModuleLevels sample_modules) (module_sort (\<lambda>_ _. 0) (present sample_modules))"
proof -
  have "distinct (map mc_Name (present sample_modules))" "map Some (present sample_modules) = sample_modules"
    by (simp_all add: sample_modules_def present_def List.map_filter_simps)
  with module_sorts_agree [of "present sample_modules" "\<lambda>_ _. 0"] show ?thesis by simp
qed


end
