(* ===== verification/Concurrency.thy ===== *)
theory Concurrency
  imports Retry "HOL-Library.Multiset"
begin

text \<open>
  Two things that the provisioning code does everywhere: it waits for an object by polling,
  and it runs a group of goroutines and waits for them (\<^verbatim>\<open>golang.org/x/sync/errgroup\<close>).
  The goroutines of a group run one after another here, in an arbitrary order; each of them
  works on objects of its own. As in the package, all of them run, and the group reports the
  first error.
\<close>

section \<open>Groups of goroutines\<close>

definition arrange :: "(nat \<Rightarrow> nat) \<Rightarrow> 'a list \<Rightarrow> 'a list" where
  "arrange prio ts = map snd (sort_key (\<lambda>p. prio (fst p)) (enumerate 0 ts))"

lemma mset_arrange [simp]: "mset (arrange prio ts) = mset ts"
  by (simp add: arrange_def) (metis map_snd_enumerate mset_map)

lemma set_arrange [simp]: "set (arrange prio ts) = set ts"
  by (rule mset_eq_setD) simp

lemma length_arrange [simp]: "length (arrange prio ts) = length ts"
  by (rule mset_eq_length) simp

fun run_all ::
  "('t \<Rightarrow> ('e, goerr option \<times> 'r) act) \<Rightarrow> 't list \<Rightarrow> ('e, goerr option \<times> ('t \<times> 'r) list) act" where
  "run_all f [] = io_ret (None, [])"
| "run_all f (t # ts) =
     io_bind (f t) (\<lambda>(e, r).
     io_bind (run_all f ts) (\<lambda>(e', rs).
       io_ret (case e of Some x \<Rightarrow> Some x | None \<Rightarrow> e', (t, r) # rs)))"

text \<open>A group whose goroutines also leave a result behind, and one whose do not.\<close>

definition errgroup_results ::
  "'e runtime \<Rightarrow> ('t \<Rightarrow> ('e, goerr option \<times> 'r) act) \<Rightarrow> 't list
   \<Rightarrow> ('e, goerr option \<times> ('t \<times> 'r) list) act" where
  "errgroup_results rt f ts = (\<lambda>w. run_all f (arrange (rt_order rt (est w)) ts) w)"

definition errgroup :: "'e runtime \<Rightarrow> ('t \<Rightarrow> ('e, goerr option) act) \<Rightarrow> 't list \<Rightarrow> ('e, goerr option) act" where
  "errgroup rt f ts =
     io_bind (errgroup_results rt (\<lambda>t. io_bind (f t) (\<lambda>e. io_ret (e, ()))) ts) (\<lambda>(e, rs). io_ret e)"

lemma run_all_Cons:
  assumes "run_all f (t # ts) w = Some ((e, rs), w')"
  obtains e1 r w1 e2 rs2 where "f t w = Some ((e1, r), w1)" "run_all f ts w1 = Some ((e2, rs2), w')"
    "e = (case e1 of Some x \<Rightarrow> Some x | None \<Rightarrow> e2)" "rs = (t, r) # rs2"
  using assms by (auto simp: io_simps split: option.splits prod.splits)

lemma run_all_tasks: "run_all f ts w = Some ((e, rs), w') \<Longrightarrow> map fst rs = ts"
proof (induction ts arbitrary: w e rs)
  case (Cons t ts)
  from Cons.prems show ?case by (elim run_all_Cons) (auto dest: Cons.IH)
qed (simp add: io_simps)

text \<open>
  What a group guarantees about its tasks: if each task establishes a fact that the others
  keep, a group without error establishes it for all.
\<close>

lemma run_all_establishes:
  assumes task: "\<And>t w e r w'. t \<in> set ts \<Longrightarrow> I w \<Longrightarrow> f t w = Some ((e, r), w') \<Longrightarrow>
        I w' \<and> (e = None \<longrightarrow> Q t r w')"
    and keep: "\<And>t t' r' w e r w'. t \<in> set ts \<Longrightarrow> I w \<Longrightarrow> Q t' r' w \<Longrightarrow> f t w = Some ((e, r), w') \<Longrightarrow> Q t' r' w'"
  shows "I w \<Longrightarrow> run_all f ts w = Some ((e, rs), w') \<Longrightarrow>
    I w' \<and> (e = None \<longrightarrow> (\<forall>(t, r) \<in> set rs. Q t r w')) \<and> (\<forall>t' r'. Q t' r' w \<longrightarrow> Q t' r' w')"
  using assms
proof (induction ts arbitrary: w e rs)
  case (Cons t ts)
  from Cons.prems(2) obtain e1 r w1 e2 rs2 where one: "f t w = Some ((e1, r), w1)"
    and rest: "run_all f ts w1 = Some ((e2, rs2), w')"
    and e: "e = (case e1 of Some x \<Rightarrow> Some x | None \<Rightarrow> e2)" and rs: "rs = (t, r) # rs2"
    by (rule run_all_Cons)
  have "t \<in> set (t # ts)" by simp
  note t = Cons.prems(3) [OF this Cons.prems(1) one]
  note k = Cons.prems(4) [OF \<open>t \<in> set (t # ts)\<close> Cons.prems(1) _ one]
  have "I w' \<and> (e2 = None \<longrightarrow> (\<forall>(t, r) \<in> set rs2. Q t r w')) \<and> (\<forall>t' r'. Q t' r' w1 \<longrightarrow> Q t' r' w')"
  proof (rule Cons.IH [OF _ rest])
    show "I w1" using t by simp
  next
    fix t' w e r w'' assume "t' \<in> set ts" "I w" "f t' w = Some ((e, r), w'')"
    then show "I w'' \<and> (e = None \<longrightarrow> Q t' r w'')" using Cons.prems(3) [of t' w e r w''] by simp
  next
    fix t1 t' r' w e r w'' assume "t1 \<in> set ts" "I w" "Q t' r' w" "f t1 w = Some ((e, r), w'')"
    then show "Q t' r' w''" using Cons.prems(4) [of t1 w t' r' e r w''] by simp
  qed
  with t k e rs show ?case by (auto split: option.splits)
next
  case Nil
  from Nil.prems(2) have "e = None" "rs = []" "w' = w" by (auto simp: io_ret_apply)
  with Nil.prems(1) show ?case by simp
qed

lemma run_all_error:
  "run_all f ts w = Some ((Some x, rs), w') \<Longrightarrow> \<exists>t \<in> set ts. \<exists>w1 r w2. f t w1 = Some ((Some x, r), w2)"
proof (induction ts arbitrary: w rs)
  case (Cons t ts)
  from Cons.prems show ?case
    by (elim run_all_Cons) (fastforce dest: Cons.IH split: option.splits)
qed (simp add: io_simps)

lemma run_all_returns:
  assumes "\<And>t w. t \<in> set ts \<Longrightarrow> I w \<Longrightarrow> \<exists>r w'. f t w = Some (r, w') \<and> I w'"
  shows "I w \<Longrightarrow> \<exists>r w'. run_all f ts w = Some (r, w') \<and> I w'"
  using assms
proof (induction ts arbitrary: w)
  case (Cons t ts)
  from Cons.prems(2) [of t w] Cons.prems(1) obtain e r w1 where one: "f t w = Some ((e, r), w1)" "I w1"
    by fastforce
  from Cons.IH [of w1] one Cons.prems(2) obtain x w2 where "run_all f ts w1 = Some (x, w2)" "I w2"
    by (metis list.set_intros(2))
  with one show ?case by (cases x) (simp add: io_simps)
qed (simp add: io_simps)

lemma only_calls_case_prod:
  "(\<And>a b. only_calls P (f a b)) \<Longrightarrow> only_calls P (case x of (a, b) \<Rightarrow> f a b)"
  by (cases x) simp

lemma only_calls_run_all:
  "(\<And>t. t \<in> set ts \<Longrightarrow> only_calls P (f t)) \<Longrightarrow> only_calls P (run_all f ts)"
  by (induction ts) (auto intro!: calls_intros only_calls_case_prod)

lemma only_calls_errgroup_results [calls_intros]:
  assumes "\<And>t. t \<in> set ts \<Longrightarrow> only_calls P (f t)"
  shows "only_calls P (errgroup_results rt f ts)"
proof (rule only_callsI)
  fix w r w'
  assume run: "errgroup_results rt f ts w = Some (r, w')"
  have "only_calls P (run_all f (arrange (rt_order rt (est w)) ts))"
    by (rule only_calls_run_all) (simp add: assms)
  from only_callsD [OF this run [unfolded errgroup_results_def]] show "\<exists>t. tr w' = tr w @ t \<and> list_all P t" .
qed

lemma only_calls_errgroup [calls_intros]:
  "(\<And>t. t \<in> set ts \<Longrightarrow> only_calls P (f t)) \<Longrightarrow> only_calls P (errgroup rt f ts)"
  unfolding errgroup_def
  by (intro calls_intros only_calls_case_prod) (auto intro: calls_intros)

section \<open>Polling\<close>

text \<open>
  The body shared by the polling loops: read, remember a failed read, ask the condition,
  and wait for the next tick or the end of the context. The condition is a closure; \<open>'s\<close> are
  the variables of the caller that it assigns. \<open>done_err\<close> builds the error reported when the
  context ends, from its error and the last failed read.
\<close>

definition poll_body ::
  "'e runtime \<Rightarrow> ctx \<Rightarrow> int \<Rightarrow> (goerr \<Rightarrow> goerr option \<Rightarrow> goerr) \<Rightarrow> ('e, goerr + 'a) act
   \<Rightarrow> ('s \<Rightarrow> goerr + 'a \<Rightarrow> ('e, (goerr + bool) \<times> 's) act)
   \<Rightarrow> goerr option \<times> 's \<Rightarrow> ('e, (goerr option \<times> 's) + (goerr option \<times> 's)) act" where
  "poll_body rt c interval done_err get cond v =
     io_bind get (\<lambda>g.
     io_bind (cond (snd v) g) (\<lambda>(r, s').
       let lastErr = (case g of Inl e \<Rightarrow> Some e | Inr _ \<Rightarrow> fst v) in
       case r of
         Inl err \<Rightarrow> io_ret (Inl (Some err, s'))
       | Inr True \<Rightarrow> io_ret (Inl (None, s'))
       | Inr False \<Rightarrow> io_bind (waitFor rt c interval) (\<lambda>d. case d of
           Some ctxe \<Rightarrow> io_ret (Inl (Some (done_err ctxe lastErr), s'))
         | None \<Rightarrow> io_ret (Inr (lastErr, s')))))"

definition ticker_panic :: goerr where
  "ticker_panic = ErrText ''panic: non-positive interval for NewTicker''"

definition wait_done_err :: "goerr \<Rightarrow> goerr option \<Rightarrow> goerr" where
  "wait_done_err ctxe lastErr =
     (case lastErr of Some e \<Rightarrow> ErrWrap2 [] ctxe '' (last error: '' e '')'' | None \<Rightarrow> ctxe)"

definition poll_done_err :: "string \<Rightarrow> goerr \<Rightarrow> goerr option \<Rightarrow> goerr" where
  "poll_done_err what ctxe lastErr =
     (case lastErr of
        Some e \<Rightarrow> ErrWrap2 (''waiting for '' @ what @ '': '') ctxe '' (last error: '' e '')''
      | None \<Rightarrow> ErrWrap (''waiting for '' @ what @ '': '') ctxe [])"

text \<open>\<^verbatim>\<open>waitForCondition\<close> of \<^verbatim>\<open>internal/provisioning/dvp/vm/wait.go\<close>.\<close>

definition waitForCondition ::
  "'e runtime \<Rightarrow> ctx \<Rightarrow> int \<Rightarrow> ('e, goerr + 'a) act
   \<Rightarrow> ('s \<Rightarrow> goerr + 'a \<Rightarrow> ('e, (goerr + bool) \<times> 's) act) \<Rightarrow> 's \<Rightarrow> ('e, goerr option \<times> 's) act" where
  "waitForCondition rt c interval get cond s =
     (if interval \<le> 0 then io_ret (Some ticker_panic, s)
      else loop (poll_body rt c interval wait_done_err get cond) (None, s))"

text \<open>\<^verbatim>\<open>pollObject\<close> of \<^verbatim>\<open>internal/provisioning/dvp/disks.go\<close>.\<close>

definition pollObject ::
  "'e runtime \<Rightarrow> ctx \<Rightarrow> int \<Rightarrow> string \<Rightarrow> ('e, goerr + 'a) act
   \<Rightarrow> ('s \<Rightarrow> goerr + 'a \<Rightarrow> ('e, (goerr + bool) \<times> 's) act) \<Rightarrow> 's \<Rightarrow> ('e, goerr option \<times> 's) act" where
  "pollObject rt c interval what get cond s =
     (if interval \<le> 0 then io_ret (Some ticker_panic, s)
      else loop (poll_body rt c interval (poll_done_err what) get cond) (None, s))"

text \<open>
  What a client may rely on. \<open>poll\<close> stands for a polling loop with everything but the read,
  the condition and the closure variables fixed. The laws speak about one read and what the
  condition said about it.
\<close>

locale poller =
  fixes poll :: "'e runtime \<Rightarrow> ctx \<Rightarrow> int \<Rightarrow> ('e, goerr + 'a) act
      \<Rightarrow> ('s \<Rightarrow> goerr + 'a \<Rightarrow> ('e, (goerr + bool) \<times> 's) act) \<Rightarrow> 's \<Rightarrow> ('e, goerr option \<times> 's) act"
    and done_err :: "goerr \<Rightarrow> goerr option \<Rightarrow> goerr"
  assumes ticker: "interval \<le> 0 \<Longrightarrow> poll rt c interval get cond s = io_ret (Some ticker_panic, s)"
    and unfold_loop: "interval > 0 \<Longrightarrow>
       poll rt c interval get cond s = loop (poll_body rt c interval done_err get cond) (None, s)"
begin

text \<open>Success means that the last thing done was a read of which the condition said yes.\<close>

lemma success:
  assumes "poll rt c interval get cond s w = Some ((None, s'), w')"
  shows "\<exists>s0 w0 g w1. get w0 = Some (g, w1) \<and> cond s0 g w1 = Some ((Inr True, s'), w')"
proof -
  from assms have pos: "interval > 0"
    by (cases "interval > 0") (auto simp: ticker io_simps not_less)
  have "\<exists>s0 w0 g w1. get w0 = Some (g, w1) \<and> cond s0 g w1 = Some ((Inr True, snd r), w')"
    if "loop (poll_body rt c interval done_err get cond) v w = Some (r, w')" "fst r = None"
    for v :: "goerr option \<times> 's" and r w'
    using that
  proof (induction rule: loop_induct)
    case (stop v w r w')
    then show ?case
      by (auto simp: poll_body_def io_simps Let_def split: option.splits sum.splits bool.splits) blast+
  qed simp
  from this [of "(None, s)" "(None, s')"] assms pos show ?thesis by (simp add: unfold_loop)
qed

lemma calls:
  assumes "only_calls P get" "\<And>s g. only_calls P (cond s g)" "P (Waited c interval)"
  shows "only_calls P (poll rt c interval get cond s)"
proof (cases "interval > 0")
  case True
  have "only_calls P (poll_body rt c interval done_err get cond v)" for v
    unfolding poll_body_def Let_def
    by (intro calls_intros only_calls_case_prod assms)
      (auto split: sum.splits bool.splits option.splits intro!: calls_intros assms)
  then show ?thesis unfolding unfold_loop [OF True] by (intro calls_intros)
qed (simp add: ticker only_calls_ret)

text \<open>
  Liveness: the loop returns when the outside bounds how often the timer can fire before the
  context ends (\<open>left\<close>), and reads and conditions return.
\<close>

lemma returns:
  assumes get: "\<And>w. I w \<Longrightarrow> \<exists>g w'. get w = Some (g, w') \<and> I w' \<and> left (est w') \<le> left (est w)"
    and cond: "\<And>s g w. I w \<Longrightarrow> \<exists>r w'. cond s g w = Some (r, w') \<and> I w' \<and> left (est w') \<le> left (est w)"
    and tick: "\<And>w. I w \<Longrightarrow> fst (rt_select rt c interval (est w)) = None \<Longrightarrow>
       left (snd (rt_select rt c interval (est w))) < (left (est w) :: nat)"
    and inv: "\<And>w d w'. I w \<Longrightarrow> waitFor rt c interval w = Some (d, w') \<Longrightarrow> I w'"
    and start: "I w"
  shows "\<exists>r w'. poll rt c interval get cond s w = Some (r, w')"
proof (cases "interval > 0")
  case True
  have "\<exists>r w'. loop (poll_body rt c interval done_err get cond) (None, s) w = Some (r, w')"
  proof (rule loop_terminates [where I = "\<lambda>_. I" and f = "\<lambda>_ w. left (est w)", OF start])
    fix v :: "goerr option \<times> 's" and w assume I: "I w"
    from get [OF I] obtain g w1 where g: "get w = Some (g, w1)" "I w1" "left (est w1) \<le> left (est w)" by blast
    from cond [OF g(2), of "snd v" g] obtain r s' w2
      where r: "cond (snd v) g w1 = Some ((r, s'), w2)" "I w2" "left (est w2) \<le> left (est w1)" by fastforce
    obtain d w3 where d: "waitFor rt c interval w2 = Some (d, w3)" by (simp add: io_simps)
    have "d = None \<Longrightarrow> left (est w3) < left (est w2)"
      using d tick [OF r(2)] by (auto simp: io_simps)
    then show "(\<exists>r w'. poll_body rt c interval done_err get cond v w = Some (Inl r, w')) \<or>
       (\<exists>v' w'. poll_body rt c interval done_err get cond v w = Some (Inr v', w') \<and> I w' \<and>
          left (est w') < left (est w))"
      using g r d inv [OF r(2) d]
      by (cases r; cases d) (auto simp: poll_body_def io_bind_apply io_ret_apply Let_def split: bool.splits)
  qed
  then show ?thesis by (simp add: unfold_loop True)
qed (simp add: ticker io_simps)

end

interpretation wait_condition: poller waitForCondition wait_done_err
  by unfold_locales (simp_all add: waitForCondition_def)

interpretation poll_object: poller "\<lambda>rt c interval. pollObject rt c interval what" "poll_done_err what" for what
  by unfold_locales (simp_all add: pollObject_def)

end
