(* ===== verification/Hoare_IO.thy ===== *)
theory Hoare_IO
  imports Concurrency
begin

text \<open>
  Partial-correctness triples for effectful functions, over the trace of calls. A call records
  its answer, so an assertion about the trace says what was written, in which order, and after
  which observations; nothing is assumed about the outside. One rule per combinator of the
  model (calls, sequencing, loops, retries, groups of goroutines, polling): the proofs of the
  components apply them syntax-directed.
\<close>

named_theorems triple_intros \<open>syntax-directed rules for triples\<close>

definition triple :: "('ev list \<Rightarrow> bool) \<Rightarrow> ('ev, 'e, 'a) io \<Rightarrow> ('a \<Rightarrow> 'ev list \<Rightarrow> bool) \<Rightarrow> bool" where
  "triple P m Q \<longleftrightarrow> (\<forall>w r w'. P (tr w) \<longrightarrow> m w = Some (r, w') \<longrightarrow> Q r (tr w'))"

lemma tripleI: "(\<And>w r w'. P (tr w) \<Longrightarrow> m w = Some (r, w') \<Longrightarrow> Q r (tr w')) \<Longrightarrow> triple P m Q"
  by (auto simp: triple_def)

lemma tripleD: "triple P m Q \<Longrightarrow> m w = Some (r, w') \<Longrightarrow> P (tr w) \<Longrightarrow> Q r (tr w')"
  by (auto simp: triple_def)

lemma triple_conseq:
  "triple P m Q \<Longrightarrow> (\<And>t. P' t \<Longrightarrow> P t) \<Longrightarrow> (\<And>r t. Q r t \<Longrightarrow> Q' r t) \<Longrightarrow> triple P' m Q'"
  unfolding triple_def by metis

lemma triple_pre: "triple P m Q \<Longrightarrow> (\<And>t. P' t \<Longrightarrow> P t) \<Longrightarrow> triple P' m Q"
  by (rule triple_conseq)

lemma triple_post: "triple P m Q \<Longrightarrow> (\<And>r t. Q r t \<Longrightarrow> Q' r t) \<Longrightarrow> triple P m Q'"
  by (rule triple_conseq)

lemma triple_conj:
  "triple P m Q \<Longrightarrow> triple P' m Q' \<Longrightarrow> triple (\<lambda>t. P t \<and> P' t) m (\<lambda>r t. Q r t \<and> Q' r t)"
  unfolding triple_def by metis

lemma triple_assume: "(A \<Longrightarrow> triple P m Q) \<Longrightarrow> triple (\<lambda>t. A \<and> P t) m Q"
  unfolding triple_def by blast

section \<open>Sequencing and branches\<close>

lemma triple_ret: "(\<And>t. P t \<Longrightarrow> Q x t) \<Longrightarrow> triple P (io_ret x) Q"
  by (auto simp: triple_def io_simps)

lemma triple_bind: "triple P m R \<Longrightarrow> (\<And>x. triple (R x) (f x) Q) \<Longrightarrow> triple P (io_bind m f) Q"
  by (rule tripleI) (auto simp: io_simps split: option.splits dest!: tripleD)

lemma triple_try:
  "triple P m R \<Longrightarrow> (\<And>e t. R (Inl e) t \<Longrightarrow> Q (Inl (wrap e)) t) \<Longrightarrow> (\<And>x. triple (R (Inr x)) (k x) Q)
   \<Longrightarrow> triple P (io_try m wrap k) Q"
  unfolding io_try_def by (rule triple_bind, assumption) (auto split: sum.splits intro: triple_ret)

lemma triple_finally:
  "triple P m R \<Longrightarrow> (\<And>x. triple (R x) c (\<lambda>_. Q x)) \<Longrightarrow> triple P (io_finally m c) Q"
  unfolding io_finally_def by (rule triple_bind, assumption, rule triple_bind) (auto intro: triple_ret)

lemma triple_call: "(\<And>t r. P t \<Longrightarrow> Q r (t @ [ev r])) \<Longrightarrow> triple P (call ev f) Q"
  by (auto simp: triple_def io_simps)

lemma triple_ask: "(\<And>t r. P t \<Longrightarrow> Q r t) \<Longrightarrow> triple P (ask f) Q"
  by (auto simp: triple_def io_simps)

lemma triple_get_op: "(\<And>t r. P t \<Longrightarrow> Q (wrap_left pre r) (t @ [ev r])) \<Longrightarrow> triple P (get_op pre ev f) Q"
  by (auto simp: triple_def io_simps)

lemma triple_put_op: "(\<And>t r. P t \<Longrightarrow> Q (map_option (wrapf pre) r) (t @ [ev r])) \<Longrightarrow> triple P (put_op pre ev f) Q"
  by (auto simp: triple_def io_simps)

lemma triple_ctxErr: "(\<And>t r. P t \<Longrightarrow> Q r t) \<Longrightarrow> triple P (ctxErr rt c) Q"
  by (simp add: ctxErr_def triple_ask)

lemma triple_timeNow: "(\<And>t r. P t \<Longrightarrow> Q r t) \<Longrightarrow> triple P (timeNow rt) Q"
  by (simp add: timeNow_def triple_ask)

lemma triple_waitFor: "(\<And>t r. P t \<Longrightarrow> Q r (t @ [Waited c d])) \<Longrightarrow> triple P (waitFor rt c d) Q"
  by (simp add: waitFor_def triple_call)

lemma triple_if [triple_intros]:
  "(b \<Longrightarrow> triple P m Q) \<Longrightarrow> (\<not> b \<Longrightarrow> triple P m' Q) \<Longrightarrow> triple P (if b then m else m') Q"
  by simp

lemma triple_option [triple_intros]:
  "(x = None \<Longrightarrow> triple P m Q) \<Longrightarrow> (\<And>y. x = Some y \<Longrightarrow> triple P (f y) Q)
   \<Longrightarrow> triple P (case x of None \<Rightarrow> m | Some y \<Rightarrow> f y) Q"
  by (cases x) auto

lemma triple_sum [triple_intros]:
  "(\<And>y. x = Inl y \<Longrightarrow> triple P (f y) Q) \<Longrightarrow> (\<And>y. x = Inr y \<Longrightarrow> triple P (g y) Q)
   \<Longrightarrow> triple P (case x of Inl y \<Rightarrow> f y | Inr y \<Rightarrow> g y) Q"
  by (cases x) auto

lemma triple_prod [triple_intros]:
  "(\<And>a b. x = (a, b) \<Longrightarrow> triple P (f a b) Q) \<Longrightarrow> triple P (case x of (a, b) \<Rightarrow> f a b) Q"
  by (cases x) auto

lemma triple_bool [triple_intros]:
  "(x \<Longrightarrow> triple P m Q) \<Longrightarrow> (\<not> x \<Longrightarrow> triple P m' Q) \<Longrightarrow> triple P (case x of True \<Rightarrow> m | False \<Rightarrow> m') Q"
  by (cases x) auto

lemma triple_list [triple_intros]:
  "(x = [] \<Longrightarrow> triple P m Q) \<Longrightarrow> (\<And>y ys. x = y # ys \<Longrightarrow> triple P (f y ys) Q)
   \<Longrightarrow> triple P (case x of [] \<Rightarrow> m | y # ys \<Rightarrow> f y ys) Q"
  by (cases x) auto

section \<open>What any computation keeps\<close>

text \<open>A computation only appends to the trace, so it keeps what no event can undo.\<close>

abbreviation appends :: "('ev, 'e, 'a) io \<Rightarrow> bool" where
  "appends m \<equiv> only_calls (\<lambda>_. True) m"

lemma triple_keeps:
  "only_calls A m \<Longrightarrow> (\<And>s ev. I s \<Longrightarrow> A ev \<Longrightarrow> I (s @ [ev])) \<Longrightarrow> triple I m (\<lambda>_. I)"
proof (rule tripleI)
  fix w r w'
  assume m: "only_calls A m" and step: "\<And>s ev. I s \<Longrightarrow> A ev \<Longrightarrow> I (s @ [ev])"
    and I: "I (tr w)" and run: "m w = Some (r, w')"
  have "I (tr w @ u)" if "list_all A u" for u
    using that
  proof (induction u rule: rev_induct)
    case (snoc ev u)
    with step [of "tr w @ u" ev] show ?case by simp
  qed (simp add: I)
  with only_callsD [OF m run] show "I (tr w')" by auto
qed

lemma triple_frame:
  "triple P m Q \<Longrightarrow> only_calls A m \<Longrightarrow> (\<And>s ev. I s \<Longrightarrow> A ev \<Longrightarrow> I (s @ [ev]))
   \<Longrightarrow> triple (\<lambda>t. P t \<and> I t) m (\<lambda>r t. Q r t \<and> I t)"
  by (intro triple_conj triple_keeps)

section \<open>Loops and retries\<close>

lemma triple_loop:
  assumes "\<And>s. triple (I s) (body s) (\<lambda>x t. case x of Inl r \<Rightarrow> Q r t | Inr s' \<Rightarrow> I s' t)"
  shows "triple (I s) (loop body s) Q"
proof (rule tripleI)
  fix w r w'
  assume "I s (tr w)" and "loop body s w = Some (r, w')"
  from this(2,1) show "Q r (tr w')"
  proof (induction rule: loop_induct)
    case (stop s w r w')
    with tripleD [OF assms stop(1)] show ?case by simp
  next
    case (step s w s1 w1 r w')
    with tripleD [OF assms step(1)] show ?case by simp
  qed
qed

text \<open>Assertions on the two outcomes of a Go function: no error, or an error.\<close>

definition ok_or :: "('a \<Rightarrow> 't \<Rightarrow> bool) \<Rightarrow> ('t \<Rightarrow> bool) \<Rightarrow> 'a \<times> goerr option \<Rightarrow> 't \<Rightarrow> bool" where
  "ok_or Q I r t = (case snd r of None \<Rightarrow> Q (fst r) t | Some _ \<Rightarrow> I t)"

definition nil_or :: "('t \<Rightarrow> bool) \<Rightarrow> ('t \<Rightarrow> bool) \<Rightarrow> goerr option \<Rightarrow> 't \<Rightarrow> bool" where
  "nil_or Q I e t = (case e of None \<Rightarrow> Q t | Some _ \<Rightarrow> I t)"

definition res_or :: "('a \<Rightarrow> 't \<Rightarrow> bool) \<Rightarrow> ('t \<Rightarrow> bool) \<Rightarrow> goerr + 'a \<Rightarrow> 't \<Rightarrow> bool" where
  "res_or Q I r t = (case r of Inr x \<Rightarrow> Q x t | Inl _ \<Rightarrow> I t)"

lemma outcome_simps [simp]:
  "ok_or Q I (x, None) t = Q x t" "ok_or Q I (x, Some err) t = I t"
  "nil_or P I None t = P t" "nil_or P I (Some err) t = I t"
  "res_or R I (Inr y) t = R y t" "res_or R I (Inl err) t = I t"
  by (simp_all add: ok_or_def nil_or_def res_or_def)

lemma triple_do_loop:
  assumes fn: "triple I fn (ok_or Q I)"
    and wait: "\<And>t d. I t \<Longrightarrow> I (t @ [Waited c d])"
  shows "a \<le> MaxRetries cfg \<or> e0 \<noteq> None \<Longrightarrow> triple I (do_loop rt c cfg fn a d x0 e0) (ok_or Q I)"
proof (induction "nat (MaxRetries cfg + 1 - a)" arbitrary: a d x0 e0)
  case 0
  then have "\<not> a \<le> MaxRetries cfg" by simp
  with 0 show ?case by (subst do_loop.simps) (auto intro!: triple_ret)
next
  case (Suc n)
  then have n: "n = nat (MaxRetries cfg + 1 - (a + 1))" by auto
  have again: "triple I (do_loop rt c cfg fn (a + 1) d x0 (Some e)) (ok_or Q I)" for d x0 e
    by (rule Suc(1) [OF n]) simp
  have a: "a \<le> MaxRetries cfg" using Suc(2) by auto
  have wait: "triple I (waitFor rt c d) (\<lambda>_. I)" for d by (rule triple_waitFor) (rule wait)
  show ?case
    apply (subst do_loop.simps, simp only: a if_True)
    apply (rule triple_bind [where R = "\<lambda>_. I"], rule triple_ctxErr, assumption)
    apply (rule triple_option, rule triple_bind, rule fn, rule triple_prod, rule triple_option)
      apply (rule triple_ret, simp)
     apply (rule triple_if, rule triple_ret, simp)
     apply (rule triple_if, rule triple_bind [where R = "\<lambda>_. I"], rule triple_conseq, rule wait, simp, assumption)
      apply (rule triple_option, rule again, rule triple_ret, simp)
     apply (rule triple_conseq, rule again, simp, assumption)
    apply (rule triple_ret, simp)
    done
qed

lemma triple_Do:
  assumes "triple I fn (ok_or Q I)"
    and "\<And>t d. I t \<Longrightarrow> I (t @ [Waited c d])" and "0 \<le> MaxRetries cfg"
  shows "triple I (Do zero rt c cfg fn) (ok_or Q I)"
  unfolding Do_def by (rule triple_do_loop) (use assms in auto)

lemma triple_DoVoid:
  assumes fn: "triple I fn (nil_or Q I)"
    and wait: "\<And>t d. I t \<Longrightarrow> I (t @ [Waited c d])" and "0 \<le> MaxRetries cfg"
  shows "triple I (DoVoid rt c cfg fn) (nil_or Q I)"
  unfolding DoVoid_def
proof (rule triple_bind)
  show "triple I (Do () rt c cfg (io_bind fn (\<lambda>err. io_ret ((), err)))) (ok_or (\<lambda>_. Q) I)"
  proof (rule triple_Do)
    show "triple I (io_bind fn (\<lambda>err. io_ret ((), err))) (ok_or (\<lambda>_. Q) I)"
      by (rule triple_bind [OF fn], rule triple_ret) (simp add: ok_or_def nil_or_def)
  qed (use assms in auto)
qed (intro triple_intros triple_ret, simp add: ok_or_def nil_or_def)

lemma only_calls_do_loop [calls_intros]:
  assumes "only_calls P fn" "\<And>d. P (Waited c d)"
  shows "only_calls P (do_loop rt c cfg fn a d x0 e0)"
  using assms emits_do_loop [OF closed_trace_list_all] unfolding only_calls_emits by fastforce

lemma only_calls_Do [calls_intros]:
  "only_calls P fn \<Longrightarrow> (\<And>d. P (Waited c d)) \<Longrightarrow> only_calls P (Do zero rt c cfg fn)"
  unfolding Do_def by (intro calls_intros)

lemma only_calls_DoVoid [calls_intros]:
  "only_calls P fn \<Longrightarrow> (\<And>d. P (Waited c d)) \<Longrightarrow> only_calls P (DoVoid rt c cfg fn)"
  unfolding DoVoid_def by (intro calls_intros only_calls_case_prod)

lemma only_calls_option [calls_intros]:
  "(x = None \<Longrightarrow> only_calls P m) \<Longrightarrow> (\<And>y. x = Some y \<Longrightarrow> only_calls P (f y))
   \<Longrightarrow> only_calls P (case x of None \<Rightarrow> m | Some y \<Rightarrow> f y)"
  by (cases x) auto

lemma only_calls_sum [calls_intros]:
  "(\<And>y. x = Inl y \<Longrightarrow> only_calls P (f y)) \<Longrightarrow> (\<And>y. x = Inr y \<Longrightarrow> only_calls P (g y))
   \<Longrightarrow> only_calls P (case x of Inl y \<Rightarrow> f y | Inr y \<Rightarrow> g y)"
  by (cases x) auto

lemma only_calls_list [calls_intros]:
  "(x = [] \<Longrightarrow> only_calls P m) \<Longrightarrow> (\<And>y ys. x = y # ys \<Longrightarrow> only_calls P (f y ys))
   \<Longrightarrow> only_calls P (case x of [] \<Rightarrow> m | y # ys \<Rightarrow> f y ys)"
  by (cases x) auto

lemma only_calls_bool [calls_intros]:
  "(x \<Longrightarrow> only_calls P m) \<Longrightarrow> (\<not> x \<Longrightarrow> only_calls P m') \<Longrightarrow> only_calls P (case x of True \<Rightarrow> m | False \<Rightarrow> m')"
  by (cases x) auto

declare only_calls_case_prod [calls_intros]

section \<open>Groups and polling\<close>

text \<open>
  A group without error establishes what each of its goroutines establishes, if no event
  undoes it; the invariant holds whatever the outcome.
\<close>

lemma triple_run_all:
  assumes "\<And>x. x \<in> set ts \<Longrightarrow> triple I (f x) (\<lambda>y t. I t \<and> (fst y = None \<longrightarrow> Q x (snd y) t))"
    and "\<And>x. x \<in> set ts \<Longrightarrow> only_calls A (f x)"
    and "\<And>x r s ev. Q x r s \<Longrightarrow> A ev \<Longrightarrow> Q x r (s @ [ev])"
  shows "triple I (run_all f ts) (\<lambda>y t. I t \<and> (fst y = None \<longrightarrow> (\<forall>(x, r) \<in> set (snd y). Q x r t)))"
proof (rule tripleI)
  fix w y w'
  assume I: "I (tr w)" and run: "run_all f ts w = Some (y, w')"
  obtain e rs where y: "y = (e, rs)" by (cases y)
  have "I (tr w') \<and> (e = None \<longrightarrow> (\<forall>(x, r) \<in> set rs. Q x r (tr w'))) \<and>
     (\<forall>x r. Q x r (tr w) \<longrightarrow> Q x r (tr w'))"
  proof (rule run_all_establishes [where I = "\<lambda>w. I (tr w)" and Q = "\<lambda>x r w. Q x r (tr w)", OF _ _ _ run [unfolded y]])
    fix x w e r w' assume "x \<in> set ts" "I (tr w)" "f x w = Some ((e, r), w')"
    then show "I (tr w') \<and> (e = None \<longrightarrow> Q x r (tr w'))" using tripleD [OF assms(1)] by fastforce
  next
    fix x x' r' w e r w' assume x: "x \<in> set ts" and q: "Q x' r' (tr w)" and r: "f x w = Some ((e, r), w')"
    have "triple (Q x' r') (f x) (\<lambda>_. Q x' r')" using assms(2) [OF x] by (rule triple_keeps) (rule assms(3))
    from tripleD [OF this r q] show "Q x' r' (tr w')" .
  qed (rule I)
  then show "I (tr w') \<and> (fst y = None \<longrightarrow> (\<forall>(x, r) \<in> set (snd y). Q x r (tr w')))"
    unfolding y by simp
qed

lemma triple_errgroup_results:
  assumes "\<And>x. x \<in> set ts \<Longrightarrow> triple I (f x) (\<lambda>y t. I t \<and> (fst y = None \<longrightarrow> Q x (snd y) t))"
    and "\<And>x. x \<in> set ts \<Longrightarrow> only_calls A (f x)"
    and "\<And>x r s ev. Q x r s \<Longrightarrow> A ev \<Longrightarrow> Q x r (s @ [ev])"
  shows "triple I (errgroup_results rt f ts)
     (\<lambda>y t. I t \<and> mset (map fst (snd y)) = mset ts \<and> (fst y = None \<longrightarrow> (\<forall>(x, r) \<in> set (snd y). Q x r t)))"
proof (rule tripleI)
  fix w y w'
  assume I: "I (tr w)" and run: "errgroup_results rt f ts w = Some (y, w')"
  let ?ts = "arrange (rt_order rt (est w)) ts"
  have run': "run_all f ?ts w = Some (y, w')" using run by (simp add: errgroup_results_def)
  have "triple I (run_all f ?ts) (\<lambda>y t. I t \<and> (fst y = None \<longrightarrow> (\<forall>(x, r) \<in> set (snd y). Q x r t)))"
    by (rule triple_run_all [where A = A]) (simp_all add: assms)
  from tripleD [OF this run' I] run_all_tasks [of f ?ts w "fst y" "snd y" w'] run'
  show "I (tr w') \<and> mset (map fst (snd y)) = mset ts \<and>
      (fst y = None \<longrightarrow> (\<forall>(x, r) \<in> set (snd y). Q x r (tr w')))"
    by (cases y) (auto simp flip: mset_map)
qed

lemma triple_errgroup:
  assumes task: "\<And>x. x \<in> set ts \<Longrightarrow> triple I (f x) (\<lambda>e t. I t \<and> (e = None \<longrightarrow> Q x t))"
    and calls: "\<And>x. x \<in> set ts \<Longrightarrow> only_calls A (f x)"
    and keep: "\<And>x s ev. Q x s \<Longrightarrow> A ev \<Longrightarrow> Q x (s @ [ev])"
  shows "triple I (errgroup rt f ts) (\<lambda>e t. I t \<and> (e = None \<longrightarrow> (\<forall>x \<in> set ts. Q x t)))"
proof -
  let ?f = "\<lambda>t. io_bind (f t) (\<lambda>e. io_ret (e, ()))"
  have "triple I (errgroup_results rt ?f ts)
     (\<lambda>y t. I t \<and> mset (map fst (snd y)) = mset ts \<and> (fst y = None \<longrightarrow> (\<forall>(x, r) \<in> set (snd y). Q x t)))"
    by (rule triple_errgroup_results [where A = A])
      (auto intro!: triple_bind [OF task] triple_ret calls_intros calls keep)
  then show ?thesis
    unfolding errgroup_def
  proof (rule triple_bind, intro triple_intros triple_ret)
    fix y e rs t
    assume "y = (e, rs)" "I t \<and> mset (map fst (snd y)) = mset ts \<and> (fst y = None \<longrightarrow> (\<forall>(x, r) \<in> set (snd y). Q x t))"
    then have t: "I t" "mset (map fst rs) = mset ts" "e = None \<longrightarrow> (\<forall>(x, r) \<in> set rs. Q x t)" by auto
    from mset_eq_setD [OF t(2)] have "set ts = fst ` set rs" by simp
    with t show "I t \<and> (e = None \<longrightarrow> (\<forall>x \<in> set ts. Q x t))" by auto
  qed
qed

context poller
begin

lemma poll_triple:
  assumes get: "\<And>s. triple (I s) get (J s)"
    and cond: "\<And>s g. triple (J s g) (cond s g)
        (\<lambda>y t. case fst y of Inl e \<Rightarrow> K (snd y) t | Inr b \<Rightarrow> if b then Q (snd y) t else I (snd y) t)"
    and wait: "\<And>s t. I s t \<Longrightarrow> I s (t @ [Waited c interval])"
    and init: "\<And>s t. I s t \<Longrightarrow> K s t"
  shows "triple (I s) (poll rt c interval get cond s) (\<lambda>x t. if fst x = None then Q (snd x) t else K (snd x) t)"
proof (cases "interval > 0")
  case True
  have "triple (\<lambda>t. I (snd v) t) (poll_body rt c interval done_err get cond v)
      (\<lambda>x t. case x of Inl y \<Rightarrow> (if fst y = None then Q (snd y) t else K (snd y) t) | Inr v' \<Rightarrow> I (snd v') t)" for v
    unfolding poll_body_def Let_def
    apply (rule triple_bind [OF get], rule triple_bind [OF cond], rule triple_prod, rule triple_sum)
     apply (rule triple_ret, simp)
    apply (rule triple_bool, rule triple_ret, simp)
    apply (rule triple_bind, rule triple_waitFor [where Q = "\<lambda>_. I _"], rule wait, simp)
    apply (intro triple_intros triple_ret)
     apply (simp_all add: init)
    done
  from triple_loop [where I = "\<lambda>v t. I (snd v) t", OF this, of "(None, s)"] show ?thesis
    unfolding unfold_loop [OF True] by simp
next
  case False
  then show ?thesis by (simp add: ticker) (rule triple_ret, simp add: init)
qed

end

section \<open>Traces since a moment\<close>

text \<open>
  \<open>since t0 P\<close>: the trace extends \<open>t0\<close>, and what was appended satisfies \<open>P\<close>.
\<close>

definition since :: "'ev list \<Rightarrow> ('ev list \<Rightarrow> bool) \<Rightarrow> 'ev list \<Rightarrow> bool" where
  "since t0 P t \<longleftrightarrow> (\<exists>u. t = t0 @ u \<and> P u)"

lemma since_step:
  "since t0 P t \<Longrightarrow> (\<And>u. P u \<Longrightarrow> Q (u @ [ev])) \<Longrightarrow> since t0 Q (t @ [ev])"
  by (auto simp: since_def)

lemma since_imp: "since t0 P t \<Longrightarrow> (\<And>u. P u \<Longrightarrow> Q u) \<Longrightarrow> since t0 Q t"
  by (auto simp: since_def)

lemma since_conj: "since t0 P t \<Longrightarrow> since t0 Q t \<Longrightarrow> since t0 (\<lambda>u. P u \<and> Q u) t"
  by (auto simp: since_def)

lemma since_ball: "since t0 P t \<Longrightarrow> \<forall>x \<in> A. since t0 (Q x) t \<Longrightarrow> since t0 (\<lambda>u. P u \<and> (\<forall>x \<in> A. Q x u)) t"
  by (fastforce simp: since_def)

text \<open>The error of a goroutine is wrapped; that does not change when there is one.\<close>

lemma triple_wrapped:
  "triple P m (\<lambda>e t. I t \<and> (e = None \<longrightarrow> Q t)) \<Longrightarrow>
     triple P (io_bind m (\<lambda>e. io_ret (map_option f e))) (\<lambda>e t. I t \<and> (e = None \<longrightarrow> Q t))"
  by (rule triple_bind, assumption, rule triple_ret) simp

text \<open>A call whose answers have a known form.\<close>

lemma triple_call_known:
  "(\<And>s r s'. f s = (r, s') \<Longrightarrow> A r) \<Longrightarrow> (\<And>t r. P t \<Longrightarrow> A r \<Longrightarrow> Q r (t @ [ev r])) \<Longrightarrow> triple P (call ev f) Q"
  unfolding triple_def by (simp add: io_simps) (metis prod.collapse)

lemma only_calls_call_known:
  "(\<And>s r s'. f s = (r, s') \<Longrightarrow> P (ev r)) \<Longrightarrow> only_calls P (call ev f)"
  unfolding only_calls_def by (simp add: io_simps) (metis prod.collapse)

lemma only_calls_call_bind:
  assumes "\<And>s r s'. f s = (r, s') \<Longrightarrow> A r \<and> P (ev r)" and "\<And>r. A r \<Longrightarrow> only_calls P (k r)"
  shows "only_calls P (io_bind (call ev f) k)"
proof (rule only_callsI)
  fix w x w' assume run: "io_bind (call ev f) k w = Some (x, w')"
  obtain r s where f: "f (est w) = (r, s)" by (cases "f (est w)")
  with run have k: "k r (w\<lparr>tr := tr w @ [ev r], est := s\<rparr>) = Some (x, w')" by (simp add: io_simps)
  from only_callsD [OF assms(2) k] assms(1) [OF f]
  show "\<exists>t. tr w' = tr w @ t \<and> list_all P t" by auto
qed


lemma since_any_step [simp]: "since t0 (\<lambda>_. True) t \<Longrightarrow> since t0 (\<lambda>_. True) (t @ [ev])"
  by (auto simp: since_def)

lemma since_ex_step: "since t0 (list_ex P) t \<Longrightarrow> since t0 (list_ex P) (t @ [ev])"
  by (auto simp: since_def)

lemma since_ex_now: "since t0 (\<lambda>_. True) t \<Longrightarrow> P ev \<Longrightarrow> since t0 (list_ex P) (t @ [ev])"
  by (auto simp: since_def)

lemma since_forget: "since t0 P t \<Longrightarrow> since t0 (\<lambda>_. True) t"
  by (auto simp: since_def)

lemma since_refl: "since t (\<lambda>_. True) t"
  by (simp add: since_def)

text \<open>A single write, after which the object is stored or the write failed.\<close>

lemma triple_write:
  fixes ev :: "goerr option \<Rightarrow> 'ev"
  assumes "P (ev None)"
  shows "triple (since t0 (\<lambda>_. True)) (io_bind (call ev f) (\<lambda>r. io_ret (map_option wrap r)))
    (nil_or (since t0 (list_ex P)) (since t0 (\<lambda>_. True)))"
  by (rule triple_bind [where R = "nil_or (since t0 (list_ex P)) (since t0 (\<lambda>_. True))"], rule triple_call)
    (auto simp: nil_or_def assms intro!: since_ex_now triple_ret split: option.splits)

text \<open>The read before an update returns the object to update.\<close>

lemma triple_read_write:
  fixes ev' :: "'a \<Rightarrow> goerr option \<Rightarrow> 'ev"
  assumes "\<And>s r s'. f s = (Inr r, s') \<Longrightarrow> A r" and "\<And>obj. A obj \<Longrightarrow> P (ev' obj None)"
  shows "triple (since t0 (\<lambda>_. True)) (io_bind (call ev f) (\<lambda>g. case g of
       Inl e \<Rightarrow> io_ret (Some (wrap e))
     | Inr obj \<Rightarrow> io_bind (call (ev' obj) (f' obj)) (\<lambda>r. io_ret (map_option wrap' r))))
    (nil_or (since t0 (list_ex P)) (since t0 (\<lambda>_. True)))"
proof (rule triple_bind)
  show "triple (since t0 (\<lambda>_. True)) (call ev f) (\<lambda>r t. (\<forall>obj. r = Inr obj \<longrightarrow> A obj) \<and> since t0 (\<lambda>_. True) t)"
    by (rule triple_call_known [where A = "\<lambda>r. \<forall>obj. r = Inr obj \<longrightarrow> A obj"]) (auto simp: assms)
qed (auto intro!: triple_assume triple_intros triple_ret triple_write assms(2))

text \<open>Every event of a trace is allowed by what happened before it.\<close>

definition history :: "('ev list \<Rightarrow> 'ev \<Rightarrow> bool) \<Rightarrow> 'ev list \<Rightarrow> bool" where
  "history P u \<longleftrightarrow> (\<forall>i < length u. P (take i u) (u ! i))"

lemma history_Nil [simp]: "history P []"
  by (simp add: history_def)

lemma history_snoc [simp]: "history P (u @ [ev]) \<longleftrightarrow> history P u \<and> P u ev"
  by (auto simp: history_def nth_append less_Suc_eq)

lemma history_split: "history P u \<longleftrightarrow> (\<forall>a ev b. u = a @ ev # b \<longrightarrow> P a ev)"
proof
  assume h: "history P u"
  have "P a ev" if "u = a @ ev # b" for a ev b
    using h [unfolded history_def, rule_format, of "length a"] that by simp
  then show "\<forall>a ev b. u = a @ ev # b \<longrightarrow> P a ev" by blast
next
  assume *: "\<forall>a ev b. u = a @ ev # b \<longrightarrow> P a ev"
  show "history P u" unfolding history_def
  proof (intro allI impI)
    fix i assume "i < length u"
    then have "u = take i u @ u ! i # drop (Suc i) u" by (rule id_take_nth_drop)
    with * show "P (take i u) (u ! i)" by blast
  qed
qed

lemma triple_history:
  "only_calls A m \<Longrightarrow> (\<And>u ev. history P u \<Longrightarrow> A ev \<Longrightarrow> P u ev) \<Longrightarrow>
     triple (since t0 (history P)) m (\<lambda>_. since t0 (history P))"
  by (erule triple_keeps) (auto elim!: since_step)

lemma since_historyI: "since t (history P) t"
  by (simp add: since_def)

section \<open>Concrete runs\<close>

text \<open>From state \<open>s\<close>, \<open>m\<close> returns \<open>r\<close> and leaves \<open>s'\<close>, whatever happened before.\<close>

definition yields :: "'e \<Rightarrow> ('e, 'r) act \<Rightarrow> 'r \<Rightarrow> 'e \<Rightarrow> bool" where
  "yields s m r s' \<longleftrightarrow> (\<forall>t. \<exists>u. m \<lparr>tr = t, est = s\<rparr> = Some (r, \<lparr>tr = t @ u, est = s'\<rparr>))"

lemma yields_ret: "yields s (io_ret r) r s"
  by (simp add: yields_def io_ret_apply)

lemma yields_call: "f s = (r, s') \<Longrightarrow> yields s (call ev f) r s'"
  by (simp add: yields_def call_apply)

lemma yields_bind:
  assumes "yields s m x s1" "yields s1 (k x) r s'"
  shows "yields s (io_bind m k) r s'"
  unfolding yields_def
proof
  fix t
  from assms(1) obtain u where u: "m \<lparr>tr = t, est = s\<rparr> = Some (x, \<lparr>tr = t @ u, est = s1\<rparr>)" unfolding yields_def by blast
  from assms(2) obtain v where "k x \<lparr>tr = t @ u, est = s1\<rparr> = Some (r, \<lparr>tr = (t @ u) @ v, est = s'\<rparr>)" unfolding yields_def by blast
  with u show "\<exists>u. io_bind m k \<lparr>tr = t, est = s\<rparr> = Some (r, \<lparr>tr = t @ u, est = s'\<rparr>)" by (auto simp: io_bind_apply)
qed

lemma yields_finally: "yields s m r s1 \<Longrightarrow> yields s1 c () s' \<Longrightarrow> yields s (io_finally m c) r s'"
  unfolding io_finally_def by (rule yields_bind, assumption, rule yields_bind, assumption, rule yields_ret)

lemma yields_Do:
  assumes "yields s fn (x, None) s'" "0 \<le> MaxRetries cfg"
  shows "yields s (Do z sample_rt c cfg fn) (x, None) s'"
  unfolding yields_def
proof
  fix t
  from assms(1) obtain u where "fn \<lparr>tr = t, est = s\<rparr> = Some ((x, None), \<lparr>tr = t @ u, est = s'\<rparr>)" unfolding yields_def by blast
  then have "Do z sample_rt c cfg fn \<lparr>tr = t, est = s\<rparr> = Some ((x, None), \<lparr>tr = t @ u, est = s'\<rparr>)"
    unfolding Do_def by (intro do_loop_stop) (use assms(2) in \<open>auto simp: sample_rt_def\<close>)
  then show "\<exists>u. Do z sample_rt c cfg fn \<lparr>tr = t, est = s\<rparr> = Some ((x, None), \<lparr>tr = t @ u, est = s'\<rparr>)" by blast
qed

lemma yields_DoVoid:
  assumes "yields s fn None s'"
  shows "yields s (DoVoid sample_rt c DefaultConfig fn) None s'"
  unfolding DoVoid_def
  by (rule yields_bind, rule yields_Do, rule yields_bind [OF assms], rule yields_ret) (auto simp: DefaultConfig_def intro: yields_ret)

lemma yields_group:
  assumes "\<And>x. x \<in> set ts \<Longrightarrow> yields s (f x) (None, g x) s"
  shows "yields s (run_all f ts) (None, map (\<lambda>x. (x, g x)) ts) s"
  using assms
proof (induction ts)
  case (Cons x ts)
  have rest: "yields s (run_all f ts) (None, map (\<lambda>x. (x, g x)) ts) s" by (rule Cons.IH) (simp add: Cons.prems)
  have "yields s (f x) (None, g x) s" by (rule Cons.prems) simp
  then show ?case
    unfolding run_all.simps by (rule yields_bind) (simp, rule yields_bind [OF rest], simp add: yields_ret)
qed (simp add: yields_ret)

lemma yields_results:
  assumes "\<And>x. x \<in> set ts \<Longrightarrow> yields s (f x) (None, g x) s"
  shows "yields s (errgroup_results rt f ts) (None, map (\<lambda>x. (x, g x)) (arrange (rt_order rt s) ts)) s"
proof -
  have "yields s (run_all f (arrange (rt_order rt s) ts)) (None, map (\<lambda>x. (x, g x)) (arrange (rt_order rt s) ts)) s"
    by (rule yields_group) (simp add: assms)
  then show ?thesis unfolding yields_def errgroup_results_def by simp
qed

lemma yields_errgroup:
  assumes "\<And>x. x \<in> set ts \<Longrightarrow> yields s (f x) None s"
  shows "yields s (errgroup rt f ts) None s"
  unfolding errgroup_def
  by (rule yields_bind, rule yields_results [where g = "\<lambda>_. ()"], rule yields_bind, erule assms, rule yields_ret)
    (simp add: yields_ret)

end
