(* ===== verification/Module_Enable.thy ===== *)
theory Module_Enable
  imports Module_Levels Hoare_IO
begin

text \<open>
  Enabling Deckhouse modules level by level: \<^verbatim>\<open>internal/provisioning/dvp/modules.go\<close>, the
  client functions it calls (\<^verbatim>\<open>internal/kubernetes/deckhouse/client.go\<close> and \<^verbatim>\<open>modules.go\<close>) and
  \<^verbatim>\<open>WaitForModuleReady\<close> of \<^verbatim>\<open>pkg/kubernetes/modules.go\<close>. The locale \<open>module_applier\<close> is the
  contract of the Go interface of that name; the ordering of writes and observations is proved
  for every applier, and the default applier is an instance.
\<close>

section \<open>The Deckhouse client\<close>

text \<open>
  The Deckhouse API behind a \<^verbatim>\<open>rest.Config\<close>: scheme registration, client construction and
  the requests; and the two constants of the API package that the sources compare with.
\<close>

record 'e deckhouse_api =
  da_addV1 :: "goerr option"
  da_addV2 :: "goerr option"
  da_new :: "'e \<Rightarrow> goerr option \<times> 'e"
  da_getModule :: "ctx \<Rightarrow> string \<Rightarrow> 'e \<Rightarrow> (goerr + dmodule) \<times> 'e"
  da_getMC :: "ctx \<Rightarrow> string \<Rightarrow> 'e \<Rightarrow> (goerr + mc_object) \<times> 'e"
  da_createMC :: "ctx \<Rightarrow> mc_object \<Rightarrow> 'e \<Rightarrow> goerr option \<times> 'e"
  da_updateMC :: "ctx \<Rightarrow> mc_object \<Rightarrow> 'e \<Rightarrow> goerr option \<times> 'e"
  da_getMPO :: "ctx \<Rightarrow> string \<Rightarrow> 'e \<Rightarrow> (goerr + mpo_object) \<times> 'e"
  da_createMPO :: "ctx \<Rightarrow> mpo_object \<Rightarrow> 'e \<Rightarrow> goerr option \<times> 'e"
  da_updateMPO :: "ctx \<Rightarrow> mpo_object \<Rightarrow> 'e \<Rightarrow> goerr option \<times> 'e"
  da_phaseReady :: string
  da_condIsReady :: string

definition deckhouse_NewClient :: "'e runtime \<Rightarrow> 'e deckhouse_api \<Rightarrow> ctx \<Rightarrow> ('e, goerr option) act" where
  "deckhouse_NewClient rt api c =
     io_bind (Do () rt c DefaultConfig
       (case da_addV1 api of
          Some e \<Rightarrow> io_ret ((), Some (wrapf ''failed to add deckhouse v1alpha1 scheme: '' e))
        | None \<Rightarrow> (case da_addV2 api of
            Some e \<Rightarrow> io_ret ((), Some (wrapf ''failed to add deckhouse v1alpha2 scheme: '' e))
          | None \<Rightarrow> io_bind (call (Opened ''deckhouse'') (da_new api)) (\<lambda>r.
              io_ret ((), map_option (wrapf ''failed to create controller-runtime client: '') r)))))
       (\<lambda>(_, e). io_ret e)"

text \<open>\<^verbatim>\<open>cl, err := NewClient(ctx, config)\<close> at the head of every function of the package.\<close>

definition with_client ::
  "'e runtime \<Rightarrow> 'e deckhouse_api \<Rightarrow> ctx \<Rightarrow> (goerr \<Rightarrow> 'r) \<Rightarrow> ('e, 'r) act \<Rightarrow> ('e, 'r) act" where
  "with_client rt api c fail k =
     io_bind (deckhouse_NewClient rt api c) (\<lambda>e. case e of
       Some err \<Rightarrow> io_ret (fail (wrapf ''failed to create deckhouse client: '' err))
     | None \<Rightarrow> k)"

definition GetModule :: "'e runtime \<Rightarrow> 'e deckhouse_api \<Rightarrow> ctx \<Rightarrow> string \<Rightarrow> ('e, goerr + dmodule) act" where
  "GetModule rt api c n = with_client rt api c Inl
     (io_bind (call (ModuleGet n) (da_getModule api c n)) (\<lambda>r.
        io_ret (wrap_left (''failed to get module '' @ n @ '': '') r)))"

definition GetModuleConfig :: "'e runtime \<Rightarrow> 'e deckhouse_api \<Rightarrow> ctx \<Rightarrow> string \<Rightarrow> ('e, goerr + mc_object) act" where
  "GetModuleConfig rt api c n = with_client rt api c Inl
     (io_bind (call (MCGet n) (da_getMC api c n)) (\<lambda>r.
        io_ret (wrap_left (''failed to get moduleconfig '' @ n @ '': '') r)))"

definition GetModulePullOverride ::
  "'e runtime \<Rightarrow> 'e deckhouse_api \<Rightarrow> ctx \<Rightarrow> string \<Rightarrow> ('e, goerr + mpo_object) act" where
  "GetModulePullOverride rt api c n = with_client rt api c Inl
     (io_bind (call (MPOGet n) (da_getMPO api c n)) (\<lambda>r.
        io_ret (wrap_left (''failed to get modulepulloverride '' @ n @ '': '') r)))"

definition CreateModuleConfig :: "'e runtime \<Rightarrow> 'e deckhouse_api \<Rightarrow> ctx \<Rightarrow> string \<Rightarrow> mc_spec \<Rightarrow> ('e, goerr option) act" where
  "CreateModuleConfig rt api c n spec = with_client rt api c Some
     (let obj = \<lparr>mco_name = n, mco_resourceVersion = [], mco_spec = spec\<rparr> in
      io_bind (call (MCCreate obj) (da_createMC api c obj)) (\<lambda>r.
        io_ret (map_option (wrapf (''failed to create moduleconfig '' @ n @ '': '')) r)))"

definition UpdateModuleConfig :: "'e runtime \<Rightarrow> 'e deckhouse_api \<Rightarrow> ctx \<Rightarrow> string \<Rightarrow> mc_spec \<Rightarrow> ('e, goerr option) act" where
  "UpdateModuleConfig rt api c n spec = with_client rt api c Some
     (io_bind (call (MCGet n) (da_getMC api c n)) (\<lambda>g. case g of
        Inl e \<Rightarrow> io_ret (Some (wrapf (''failed to get moduleconfig '' @ n @ '': '') e))
      | Inr existing \<Rightarrow>
          let obj = existing\<lparr>mco_spec := spec\<rparr> in
          io_bind (call (MCUpdate obj) (da_updateMC api c obj)) (\<lambda>r.
            io_ret (map_option (wrapf (''failed to update moduleconfig '' @ n @ '': '')) r))))"

definition pull_spec :: "string \<Rightarrow> mpo_spec" where
  "pull_spec tag = \<lparr>mps_imageTag = tag, mps_scanInterval = minute, mps_rollback = False\<rparr>"

definition CreateModulePullOverride :: "'e runtime \<Rightarrow> 'e deckhouse_api \<Rightarrow> ctx \<Rightarrow> string \<Rightarrow> string \<Rightarrow> ('e, goerr option) act" where
  "CreateModulePullOverride rt api c n tag = with_client rt api c Some
     (let obj = \<lparr>mpo_name = n, mpo_resourceVersion = [], mpo_spec = pull_spec tag\<rparr> in
      io_bind (call (MPOCreate obj) (da_createMPO api c obj)) (\<lambda>r.
        io_ret (map_option (wrapf (''failed to create modulepulloverride '' @ n @ '': '')) r)))"

definition UpdateModulePullOverride :: "'e runtime \<Rightarrow> 'e deckhouse_api \<Rightarrow> ctx \<Rightarrow> string \<Rightarrow> string \<Rightarrow> ('e, goerr option) act" where
  "UpdateModulePullOverride rt api c n tag = with_client rt api c Some
     (io_bind (call (MPOGet n) (da_getMPO api c n)) (\<lambda>g. case g of
        Inl e \<Rightarrow> io_ret (Some (wrapf (''failed to get modulepulloverride '' @ n @ '': '') e))
      | Inr existing \<Rightarrow>
          let obj = existing\<lparr>mpo_spec := pull_spec tag\<rparr> in
          io_bind (call (MPOUpdate obj) (da_updateMPO api c obj)) (\<lambda>r.
            io_ret (map_option (wrapf (''failed to update modulepulloverride '' @ n @ '': '')) r))))"

section \<open>Waiting for a module\<close>

definition moduleReadyPollInterval :: int where "moduleReadyPollInterval = 2 * second"

fun moduleReadyConditionMessage :: "string \<Rightarrow> condition list \<Rightarrow> string" where
  "moduleReadyConditionMessage ty [] = []"
| "moduleReadyConditionMessage ty (cond # cs) =
     (if cond_type cond \<noteq> ty then moduleReadyConditionMessage ty cs
      else if cond_reason cond \<noteq> [] \<or> cond_message cond \<noteq> [] then
        ''IsReady='' @ cond_status cond @ '' reason='' @ go_quote (cond_reason cond) @
        '' message='' @ go_quote (cond_message cond)
      else ''IsReady='' @ cond_status cond)"

definition moduleConditionSuffix :: "string \<Rightarrow> string" where
  "moduleConditionSuffix condition = (if condition = [] then [] else '', '' @ condition)"

text \<open>The closure \<^verbatim>\<open>ready\<close>; its variables are the last phase and the last condition.\<close>

definition module_ready ::
  "'e runtime \<Rightarrow> 'e deckhouse_api \<Rightarrow> ctx \<Rightarrow> string \<Rightarrow> string \<times> string \<Rightarrow> ('e, bool \<times> string \<times> string) act" where
  "module_ready rt api c n v =
     io_bind (GetModule rt api c n) (\<lambda>r. case r of
       Inl e \<Rightarrow> io_ret (False, [], snd v)
     | Inr m \<Rightarrow> io_ret (dm_phase m = da_phaseReady api, dm_phase m,
                   moduleReadyConditionMessage (da_condIsReady api) (dm_conditions m)))"

definition ready_err :: "string \<Rightarrow> int \<Rightarrow> string \<times> string \<Rightarrow> goerr \<Rightarrow> goerr" where
  "ready_err n timeout v ctxe =
     (let tail = '' (last phase '' @ go_quote (fst v) @ moduleConditionSuffix (snd v) @ ''): '' in
      if errors_is ctxe ErrCanceled
      then wrapf (''canceled while waiting for module '' @ n @ '' to become ready'' @ tail) ctxe
      else wrapf (''timeout waiting for module '' @ n @ '' to become ready after '' @ dur_str timeout @ tail) ctxe)"

definition WaitForModuleReady ::
  "'e runtime \<Rightarrow> 'e deckhouse_api \<Rightarrow> ctx \<Rightarrow> string \<Rightarrow> int \<Rightarrow> ('e, goerr option) act" where
  "WaitForModuleReady rt api c0 n timeout =
     (let c = CtxTimeout c0 timeout in
      io_bind (module_ready rt api c n ([], [])) (\<lambda>(b, v).
        if b then io_ret None
        else loop (\<lambda>v. io_bind (waitFor rt c moduleReadyPollInterval) (\<lambda>d. case d of
               Some ctxe \<Rightarrow> io_ret (Inl (Some (ready_err n timeout v ctxe)))
             | None \<Rightarrow> io_bind (module_ready rt api c n v) (\<lambda>(b, v').
                 io_ret (if b then Inl None else Inr v')))) v))"

section \<open>Applying a module\<close>

definition devRegistryPrefix :: string where "devRegistryPrefix = ''dev-''"
definition defaultModulePullTag :: string where "defaultModulePullTag = ''main''"

definition moduleApplyRetry :: retry_config where
  "moduleApplyRetry = \<lparr>MaxRetries = 30, InitialWait = 2 * second, MaxWait = 30 * second, Backoff = 3 / 2\<rparr>"

text \<open>The specification that a module asks for; settings that are absent are empty.\<close>

definition wanted_spec :: "module_config \<Rightarrow> mc_spec" where
  "wanted_spec mc = \<lparr>mcs_version = mc_Version mc, mcs_enabled = Some (mc_Enabled mc),
     mcs_settings = (case mc_Settings mc of None \<Rightarrow> [] | Some s \<Rightarrow> s)\<rparr>"

definition upsertModuleConfig :: "'e runtime \<Rightarrow> 'e deckhouse_api \<Rightarrow> ctx \<Rightarrow> module_config \<Rightarrow> ('e, goerr option) act" where
  "upsertModuleConfig rt api c mc =
     DoVoid rt c moduleApplyRetry
       (io_bind (GetModuleConfig rt api c (mc_Name mc)) (\<lambda>r. case r of
          Inl err \<Rightarrow> if has_reason NotFound err
            then CreateModuleConfig rt api c (mc_Name mc) (wanted_spec mc) else io_ret (Some err)
        | Inr _ \<Rightarrow> UpdateModuleConfig rt api c (mc_Name mc) (wanted_spec mc)))"

definition pull_tag :: "module_config \<Rightarrow> string" where
  "pull_tag mc = (if mc_ModulePullOverride mc = [] then defaultModulePullTag else mc_ModulePullOverride mc)"

definition upsertModulePullOverride ::
  "'e runtime \<Rightarrow> 'e deckhouse_api \<Rightarrow> ctx \<Rightarrow> module_config \<Rightarrow> string \<Rightarrow> ('e, goerr option) act" where
  "upsertModulePullOverride rt api c mc registryRepo =
     (if \<not> hasPrefix registryRepo devRegistryPrefix then io_ret None
      else DoVoid rt c moduleApplyRetry
        (io_bind (GetModulePullOverride rt api c (mc_Name mc)) (\<lambda>r. case r of
           Inl err \<Rightarrow> if has_reason NotFound err
             then CreateModulePullOverride rt api c (mc_Name mc) (pull_tag mc) else io_ret (Some err)
         | Inr _ \<Rightarrow> UpdateModulePullOverride rt api c (mc_Name mc) (pull_tag mc))))"

text \<open>The methods of \<^verbatim>\<open>defaultModuleApplier\<close>.\<close>

definition applier_apply ::
  "'e runtime \<Rightarrow> 'e deckhouse_api \<Rightarrow> ctx \<Rightarrow> module_config \<Rightarrow> string \<Rightarrow> ('e, goerr option) act" where
  "applier_apply rt api c mc registryRepo =
     io_bind (upsertModuleConfig rt api c mc) (\<lambda>e. case e of
       Some err \<Rightarrow> io_ret (Some err)
     | None \<Rightarrow> upsertModulePullOverride rt api c mc registryRepo)"

definition applier_waitReady :: "'e runtime \<Rightarrow> 'e deckhouse_api \<Rightarrow> ctx \<Rightarrow> string \<Rightarrow> int \<Rightarrow> ('e, goerr option) act" where
  "applier_waitReady rt api c n timeout = WaitForModuleReady rt api c n timeout"

section \<open>Level by level\<close>

text \<open>
  \<^verbatim>\<open>enableModulesInLevels\<close>, with the two methods of the \<^verbatim>\<open>moduleApplier\<close> interface as
  arguments.
\<close>

fun enable_levels ::
  "'e runtime \<Rightarrow> (ctx \<Rightarrow> module_config \<Rightarrow> string \<Rightarrow> ('e, goerr option) act)
   \<Rightarrow> (ctx \<Rightarrow> string \<Rightarrow> int \<Rightarrow> ('e, goerr option) act) \<Rightarrow> ctx \<Rightarrow> string \<Rightarrow> int \<Rightarrow> int
   \<Rightarrow> module_config list list \<Rightarrow> ('e, goerr option) act" where
  "enable_levels rt apply waitReady c repo levelTimeout levelIdx [] = io_ret None"
| "enable_levels rt apply waitReady c repo levelTimeout levelIdx (level # levels) =
     io_bind (errgroup rt (\<lambda>mc. io_bind (apply (CtxGroup c) mc repo) (\<lambda>e. io_ret (map_option
         (wrapf (''apply module '' @ go_quote (mc_Name mc) @ '' (level '' @ itoa levelIdx @ ''): '')) e))) level)
       (\<lambda>e. case e of
          Some err \<Rightarrow> io_ret (Some err)
        | None \<Rightarrow> io_bind (errgroup rt (\<lambda>mc. io_bind (waitReady (CtxGroup c) (mc_Name mc) levelTimeout) (\<lambda>e.
              io_ret (map_option (wrapf (''module '' @ go_quote (mc_Name mc) @ '' not ready (level '' @
                itoa levelIdx @ ''): '')) e))) (filter mc_Enabled level))
            (\<lambda>e. case e of
               Some err \<Rightarrow> io_ret (Some err)
             | None \<Rightarrow> enable_levels rt apply waitReady c repo levelTimeout (levelIdx + 1) levels))"

definition enableModulesInLevels ::
  "'e runtime \<Rightarrow> (ctx \<Rightarrow> module_config \<Rightarrow> string \<Rightarrow> ('e, goerr option) act)
   \<Rightarrow> (ctx \<Rightarrow> string \<Rightarrow> int \<Rightarrow> ('e, goerr option) act) \<Rightarrow> ctx \<Rightarrow> module_config option list \<Rightarrow> string \<Rightarrow> int
   \<Rightarrow> ('e, goerr option) act" where
  "enableModulesInLevels rt apply waitReady c modules registryRepo levelTimeout =
     (if modules = [] then io_ret None
      else case buildModuleLevels modules of
        Inl e \<Rightarrow> io_ret (Some (wrapf ''order modules: '' e))
      | Inr levels \<Rightarrow> enable_levels rt apply waitReady c registryRepo levelTimeout 0 levels)"

definition enableModules ::
  "'e runtime \<Rightarrow> 'e deckhouse_api \<Rightarrow> ctx \<Rightarrow> cluster_definition \<Rightarrow> ('e, goerr option) act" where
  "enableModules rt api c def =
     enableModulesInLevels rt (applier_apply rt api) (applier_waitReady rt api) c
       (Modules (DKPParameters def)) (RegistryRepo (DKPParameters def)) ModuleDeployTimeout"

section \<open>The contract of an applier\<close>

text \<open>
  An applier is a value \<open>p\<close>. \<open>writes p ev\<close> is the module whose configuration the event \<open>ev\<close>
  writes, \<open>ready p n ev\<close> says that \<open>ev\<close> is an observation of module \<open>n\<close> as ready, and
  \<open>applied p m repo u\<close> that the events \<open>u\<close> brought the configuration of \<open>m\<close> to the cluster.
\<close>

locale module_applier =
  fixes valid :: "'p \<Rightarrow> bool"
    and apply_module :: "'p \<Rightarrow> ctx \<Rightarrow> module_config \<Rightarrow> string \<Rightarrow> ('e, goerr option) act"
    and wait_ready :: "'p \<Rightarrow> ctx \<Rightarrow> string \<Rightarrow> int \<Rightarrow> ('e, goerr option) act"
    and writes :: "'p \<Rightarrow> event \<Rightarrow> string option"
    and ready :: "'p \<Rightarrow> string \<Rightarrow> event \<Rightarrow> bool"
    and applied :: "'p \<Rightarrow> module_config \<Rightarrow> string \<Rightarrow> event list \<Rightarrow> bool"
  assumes apply_own: "valid p \<Longrightarrow> only_calls (\<lambda>ev. writes p ev \<in> {None, Some (mc_Name m)}) (apply_module p c m repo)"
    and apply_done: "valid p \<Longrightarrow> triple (\<lambda>t. t = t0) (apply_module p c m repo)
        (\<lambda>e t. e = None \<longrightarrow> since t0 (applied p m repo) t)"
    and wait_silent: "valid p \<Longrightarrow> only_calls (\<lambda>ev. writes p ev = None) (wait_ready p c n timeout)"
    and wait_done: "valid p \<Longrightarrow> triple (\<lambda>t. t = t0) (wait_ready p c n timeout)
        (\<lambda>e t. e = None \<longrightarrow> since t0 (\<lambda>u. \<exists>ev \<in> set u. ready p n ev) t)"
    and applied_mono: "applied p m repo u \<Longrightarrow> applied p m repo (v @ u @ v')"
begin

text \<open>
  A module is settled when its configuration was applied, it was seen ready afterwards, and
  its configuration has not been written since.
\<close>

definition settled :: "'p \<Rightarrow> string \<Rightarrow> module_config \<Rightarrow> event list \<Rightarrow> bool" where
  "settled p repo m u \<longleftrightarrow> (\<exists>a ev b. u = a @ ev # b \<and> applied p m repo a \<and> ready p (mc_Name m) ev \<and>
     (\<forall>x \<in> set b. writes p x \<noteq> Some (mc_Name m)))"

text \<open>Every write to a module comes after all its enabled dependencies are settled.\<close>

definition in_order :: "'p \<Rightarrow> string \<Rightarrow> module_config set \<Rightarrow> event list \<Rightarrow> bool" where
  "in_order p repo M u \<longleftrightarrow> (\<forall>a ev b n. u = a @ ev # b \<longrightarrow> writes p ev = Some n \<longrightarrow>
     (\<exists>m \<in> M. mc_Name m = n \<and> (\<forall>d \<in> M. mc_Enabled d \<longrightarrow> mc_Name d \<in> set (mc_Dependencies m) \<longrightarrow> settled p repo d a)))"

lemma settled_step: "settled p repo m u \<Longrightarrow> writes p ev \<noteq> Some (mc_Name m) \<Longrightarrow> settled p repo m (u @ [ev])"
proof -
  assume "settled p repo m u" and ev: "writes p ev \<noteq> Some (mc_Name m)"
  then obtain a x b where "u @ [ev] = a @ x # (b @ [ev])" "applied p m repo a" "ready p (mc_Name m) x"
    "\<forall>y \<in> set (b @ [ev]). writes p y \<noteq> Some (mc_Name m)" by (auto simp: settled_def)
  then show ?thesis unfolding settled_def by blast
qed

lemma in_order_step:
  assumes "in_order p repo M u"
    and "\<And>n. writes p ev = Some n \<Longrightarrow> \<exists>m \<in> M. mc_Name m = n \<and>
      (\<forall>d \<in> M. mc_Enabled d \<longrightarrow> mc_Name d \<in> set (mc_Dependencies m) \<longrightarrow> settled p repo d u)"
  shows "in_order p repo M (u @ [ev])"
  unfolding in_order_def
proof (intro allI impI)
  fix a x b n assume split: "u @ [ev] = a @ x # b" and w: "writes p x = Some n"
  show "\<exists>m \<in> M. mc_Name m = n \<and> (\<forall>d \<in> M. mc_Enabled d \<longrightarrow> mc_Name d \<in> set (mc_Dependencies m) \<longrightarrow> settled p repo d a)"
  proof (cases b rule: rev_cases)
    case Nil
    with split have "a = u" "x = ev" by auto
    with assms(2) w show ?thesis by blast
  next
    case (snoc b' y)
    with split have "u = a @ x # b'" by (simp add: append_eq_append_conv2 butlast_append)
    with assms(1) w show ?thesis unfolding in_order_def by blast
  qed
qed

lemma settled_by_wait:
  assumes "applied p m repo u" "list_all (\<lambda>ev. writes p ev = None) v" "\<exists>ev \<in> set v. ready p (mc_Name m) ev"
  shows "settled p repo m (u @ v)"
proof -
  from assms(3) obtain a ev b where v: "v = a @ ev # b" and ev: "ready p (mc_Name m) ev"
    by (metis split_list)
  have "applied p m repo (u @ a)" using applied_mono [OF assms(1), of "[]" a] by simp
  moreover have "\<forall>x \<in> set b. writes p x \<noteq> Some (mc_Name m)" using assms(2) v by (auto simp: list_all_iff)
  ultimately show ?thesis using v ev unfolding settled_def by (metis append.assoc)
qed

end


context module_applier
begin

definition level_inv :: "'p \<Rightarrow> string \<Rightarrow> module_config set \<Rightarrow> module_config set \<Rightarrow> event list \<Rightarrow> bool" where
  "level_inv p repo M S u \<longleftrightarrow> in_order p repo M u \<and>
     (\<forall>m \<in> S. applied p m repo u \<and> (mc_Enabled m \<longrightarrow> settled p repo m u))"

lemma applied_step: "applied p m repo u \<Longrightarrow> applied p m repo (u @ [ev])"
  using applied_mono [of p m repo u "[]" "[ev]"] by simp

lemma level_inv_step:
  assumes inv: "level_inv p repo M S u" and inj: "inj_on mc_Name M" and sub: "S \<subseteq> M"
    and x: "x \<in> M - S" "set (mc_Dependencies x) \<subseteq> mc_Name ` S"
    and ev: "writes p ev \<in> {None, Some (mc_Name x)}"
  shows "level_inv p repo M S (u @ [ev])"
proof -
  have "settled p repo d u" if "d \<in> M" "mc_Enabled d" "mc_Name d \<in> set (mc_Dependencies x)" for d
  proof -
    from that x(2) obtain d' where "d' \<in> S" "mc_Name d' = mc_Name d" by auto
    with inj sub that(1) have "d \<in> S" by (metis inj_onD subsetD)
    with inv that(2) show ?thesis by (simp add: level_inv_def)
  qed
  then have "in_order p repo M (u @ [ev])"
    using inv ev x(1) by (intro in_order_step) (auto simp: level_inv_def)
  moreover have "writes p ev \<noteq> Some (mc_Name m)" if "m \<in> S" for m
    using that x(1) ev sub inj_onD [OF inj, of x m] by auto
  ultimately show ?thesis
    using inv by (auto simp: level_inv_def intro: settled_step applied_step)
qed

lemma level_inv_silent: "level_inv p repo M S u \<Longrightarrow> writes p ev = None \<Longrightarrow> level_inv p repo M S (u @ [ev])"
  by (auto simp: level_inv_def intro: settled_step applied_step in_order_step)

lemma apply_since:
  "valid p \<Longrightarrow> triple (since t0 (\<lambda>_. True)) (apply_module p c m repo) (\<lambda>e t. e = None \<longrightarrow> since t0 (applied p m repo) t)"
proof (rule tripleI, rule impI)
  fix w r w' assume p: "valid p" and s: "since t0 (\<lambda>_. True) (tr w)"
    and run: "apply_module p c m repo w = Some (r, w')" and ok: "r = None"
  from s obtain u where u: "tr w = t0 @ u" by (auto simp: since_def)
  from tripleD [OF apply_done [OF p, of "tr w"] run] ok obtain v where "tr w' = tr w @ v" "applied p m repo v"
    by (auto simp: since_def)
  then show "since t0 (applied p m repo) (tr w')"
    using u applied_mono [of p m repo v u "[]"] by (auto simp: since_def)
qed

lemma wait_since:
  "valid p \<Longrightarrow> triple (since t0 (applied p m repo)) (wait_ready p c (mc_Name m) timeout)
     (\<lambda>e t. e = None \<longrightarrow> since t0 (settled p repo m) t)"
proof (rule tripleI, rule impI)
  fix w r w' assume p: "valid p" and s: "since t0 (applied p m repo) (tr w)"
    and run: "wait_ready p c (mc_Name m) timeout w = Some (r, w')" and ok: "r = None"
  from s obtain u where u: "tr w = t0 @ u" "applied p m repo u" by (auto simp: since_def)
  from tripleD [OF wait_done [OF p, of "tr w"] run] ok
  obtain v where v: "tr w' = tr w @ v" "\<exists>ev \<in> set v. ready p (mc_Name m) ev" by (auto simp: since_def)
  from only_callsD [OF wait_silent [OF p] run] v(1) have "list_all (\<lambda>ev. writes p ev = None) v" by simp
  from settled_by_wait [OF u(2) this v(2)] u v show "since t0 (settled p repo m) (tr w')" by (simp add: since_def)
qed

end


fun ordered_levels :: "module_config set \<Rightarrow> module_config list list \<Rightarrow> bool" where
  "ordered_levels S [] \<longleftrightarrow> True"
| "ordered_levels S (L # Ls) \<longleftrightarrow>
     (\<forall>m \<in> set L. set (mc_Dependencies m) \<subseteq> mc_Name ` S) \<and> ordered_levels (S \<union> set L) Ls"

context module_applier
begin

lemma apply_level:
  assumes p: "valid p" and inj: "inj_on mc_Name M" and sub: "S \<subseteq> M" and L: "set L \<subseteq> M - S"
    and deps: "\<forall>m \<in> set L. set (mc_Dependencies m) \<subseteq> mc_Name ` S"
  shows "triple (since t0 (level_inv p repo M S))
     (errgroup rt (\<lambda>m. io_bind (apply_module p (c' m) m repo) (\<lambda>e. io_ret (map_option (f m) e))) L)
     (\<lambda>e t. since t0 (level_inv p repo M S) t \<and> (e = None \<longrightarrow> (\<forall>m \<in> set L. since t0 (applied p m repo) t)))"
proof (rule triple_errgroup [where A = "\<lambda>_. True"])
  fix m assume m: "m \<in> set L"
  let ?A = "\<lambda>ev. writes p ev \<in> {None, Some (mc_Name m)}"
  have "triple (\<lambda>t. since t0 (\<lambda>_. True) t \<and> since t0 (level_inv p repo M S) t) (apply_module p (c' m) m repo)
     (\<lambda>e t. (e = None \<longrightarrow> since t0 (applied p m repo) t) \<and> since t0 (level_inv p repo M S) t)"
  proof (rule triple_frame [OF apply_since [OF p] apply_own [OF p]])
    fix s ev assume s: "since t0 (level_inv p repo M S) s" and ev: "?A ev"
    show "since t0 (level_inv p repo M S) (s @ [ev])"
      by (rule since_step [OF s], rule level_inv_step [OF _ inj sub _ _ ev]) (use m L deps in auto)
  qed
  then show "triple (since t0 (level_inv p repo M S)) (io_bind (apply_module p (c' m) m repo) (\<lambda>e. io_ret (map_option (f m) e)))
     (\<lambda>e t. since t0 (level_inv p repo M S) t \<and> (e = None \<longrightarrow> since t0 (applied p m repo) t))"
    by (intro triple_wrapped) (erule triple_conseq, auto elim: since_imp)
next
  fix m
  show "only_calls (\<lambda>_. True) (io_bind (apply_module p (c' m) m repo) (\<lambda>e. io_ret (map_option (f m) e)))"
    by (intro calls_intros only_calls_mono [OF apply_own [OF p]] TrueI)
qed (auto elim!: since_step intro: applied_step)

lemma wait_level:
  assumes p: "valid p"
  shows "triple (since t0 (\<lambda>u. level_inv p repo M S u \<and> (\<forall>m \<in> set L. applied p m repo u)))
     (errgroup rt (\<lambda>m. io_bind (wait_ready p c (mc_Name m) timeout) (\<lambda>e. io_ret (map_option (f m) e))) (filter mc_Enabled L))
     (\<lambda>e t. since t0 (level_inv p repo M S) t \<and>
        (e = None \<longrightarrow> since t0 (level_inv p repo M (S \<union> set L)) t))"
proof -
  let ?I = "since t0 (\<lambda>u. level_inv p repo M S u \<and> (\<forall>m \<in> set L. applied p m repo u))"
  let ?A = "\<lambda>ev. writes p ev = None"
  have keep: "?I (s @ [ev])" if "?I s" "?A ev" for s ev
    using that by (elim since_step) (auto intro: level_inv_silent applied_step)
  have "triple ?I (errgroup rt (\<lambda>m. io_bind (wait_ready p c (mc_Name m) timeout)
        (\<lambda>e. io_ret (map_option (f m) e))) (filter mc_Enabled L))
     (\<lambda>e t. ?I t \<and> (e = None \<longrightarrow> (\<forall>m \<in> set (filter mc_Enabled L). since t0 (settled p repo m) t)))"
  proof (rule triple_errgroup [where A = ?A])
    fix m assume m: "m \<in> set (filter mc_Enabled L)"
    have "triple (\<lambda>t. since t0 (applied p m repo) t \<and> ?I t) (wait_ready p c (mc_Name m) timeout)
       (\<lambda>e t. (e = None \<longrightarrow> since t0 (settled p repo m) t) \<and> ?I t)"
      by (rule triple_frame [OF wait_since [OF p] wait_silent [OF p]]) (rule keep)
    then show "triple ?I (io_bind (wait_ready p c (mc_Name m) timeout) (\<lambda>e. io_ret (map_option (f m) e)))
       (\<lambda>e t. ?I t \<and> (e = None \<longrightarrow> since t0 (settled p repo m) t))"
      by (intro triple_wrapped) (erule triple_conseq, use m in \<open>auto elim: since_imp\<close>)
  next
    fix m
    show "only_calls ?A (io_bind (wait_ready p c (mc_Name m) timeout) (\<lambda>e. io_ret (map_option (f m) e)))"
      by (intro calls_intros wait_silent [OF p])
  qed (auto elim!: since_step intro: settled_step)
  then show ?thesis
  proof (rule triple_conseq)
    fix e t assume "?I t \<and> (e = None \<longrightarrow> (\<forall>m \<in> set (filter mc_Enabled L). since t0 (settled p repo m) t))"
    then have I: "?I t" and s: "e = None \<Longrightarrow> \<forall>m \<in> set (filter mc_Enabled L). since t0 (settled p repo m) t" by auto
    have "since t0 (level_inv p repo M (S \<union> set L)) t" if "e = None"
      by (rule since_imp [OF since_ball [OF I s [OF that]]]) (auto simp: level_inv_def)
    with I show "since t0 (level_inv p repo M S) t \<and> (e = None \<longrightarrow> since t0 (level_inv p repo M (S \<union> set L)) t)"
      by (auto elim: since_imp)
  qed
qed

text \<open>One level, followed by the rest of the levels.\<close>

lemma level_then:
  assumes p: "valid p" and inj: "inj_on mc_Name M" and sub: "S \<subseteq> M" and L: "set L \<subseteq> M - S"
    and deps: "\<forall>m \<in> set L. set (mc_Dependencies m) \<subseteq> mc_Name ` S"
    and rest: "triple (since t0 (level_inv p repo M (S \<union> set L))) rest
      (\<lambda>e. since t0 (\<lambda>u. in_order p repo M u \<and> (e = None \<longrightarrow> level_inv p repo M X u)))"
  shows "triple (since t0 (level_inv p repo M S))
    (io_bind (errgroup rt (\<lambda>m. io_bind (apply_module p (c' m) m repo) (\<lambda>e. io_ret (map_option (f m) e))) L)
      (\<lambda>e. case e of Some err \<Rightarrow> io_ret (Some err)
       | None \<Rightarrow> io_bind (errgroup rt (\<lambda>m. io_bind (wait_ready p c (mc_Name m) timeout) (\<lambda>e. io_ret (map_option (g m) e)))
             (filter mc_Enabled L))
           (\<lambda>e. case e of Some err \<Rightarrow> io_ret (Some err) | None \<Rightarrow> rest)))
    (\<lambda>e. since t0 (\<lambda>u. in_order p repo M u \<and> (e = None \<longrightarrow> level_inv p repo M X u)))"
proof -
  have fail: "since t0 (level_inv p repo M S') t \<Longrightarrow> since t0 (\<lambda>u. in_order p repo M u \<and>
      (Some err = None \<longrightarrow> level_inv p repo M X u)) t" for S' t err
    by (auto simp: level_inv_def elim!: since_imp)
  show ?thesis
    apply (rule triple_bind, rule apply_level [OF p inj sub L deps])
    apply (rule triple_option)
     apply (rule triple_bind, rule triple_pre, rule wait_level [OF p, of t0 repo M S L], rule since_ball, simp, simp)
     apply (rule triple_option)
      apply (rule triple_pre, rule rest, simp)
     apply (rule triple_ret, simp only:, rule fail, simp)
    apply (rule triple_ret, simp only:, rule fail, simp)
    done
qed

lemma levels_in_order:
  assumes p: "valid p" and inj: "inj_on mc_Name M"
  shows "S \<subseteq> M \<Longrightarrow> set (concat Ls) \<subseteq> M - S \<Longrightarrow> distinct (concat Ls) \<Longrightarrow> ordered_levels S Ls \<Longrightarrow>
    triple (since t0 (level_inv p repo M S))
      (enable_levels rt (apply_module p) (wait_ready p) c repo timeout idx Ls)
      (\<lambda>e. since t0 (\<lambda>u. in_order p repo M u \<and> (e = None \<longrightarrow> level_inv p repo M (S \<union> set (concat Ls)) u)))"
proof (induction Ls arbitrary: S idx)
  case Nil
  show ?case by (simp, rule triple_ret) (auto simp: level_inv_def elim!: since_imp)
next
  case (Cons L Ls)
  have "S \<union> set L \<subseteq> M" "set (concat Ls) \<subseteq> M - (S \<union> set L)" "distinct (concat Ls)"
    "ordered_levels (S \<union> set L) Ls" using Cons.prems by auto
  from Cons.IH [OF this, of "idx + 1"] have IH: "triple (since t0 (level_inv p repo M (S \<union> set L)))
      (enable_levels rt (apply_module p) (wait_ready p) c repo timeout (idx + 1) Ls)
      (\<lambda>e. since t0 (\<lambda>u. in_order p repo M u \<and> (e = None \<longrightarrow> level_inv p repo M (S \<union> set (concat (L # Ls))) u)))"
    by (simp add: Un_assoc)
  show ?case
    unfolding enable_levels.simps
    by (rule level_then [OF p inj Cons.prems(1) _ _ IH]) (use Cons.prems in auto)
qed

end


section \<open>The default applier\<close>

text \<open>
  What the applier relies on: a read of a named object returns the object of that name.
\<close>

definition api_names :: "'e deckhouse_api \<Rightarrow> bool" where
  "api_names api \<longleftrightarrow>
     (\<forall>c n s o' s'. da_getMC api c n s = (Inr o', s') \<longrightarrow> mco_name o' = n) \<and>
     (\<forall>c n s o' s'. da_getMPO api c n s = (Inr o', s') \<longrightarrow> mpo_name o' = n)"

lemma api_namesD:
  "api_names api \<Longrightarrow> da_getMC api c n s = (Inr obj, s') \<Longrightarrow> mco_name obj = n"
  "api_names api \<Longrightarrow> da_getMPO api c n s = (Inr obj', s') \<Longrightarrow> mpo_name obj' = n"
  unfolding api_names_def by blast+

fun module_written :: "event \<Rightarrow> string option" where
  "module_written (MCCreate obj r) = Some (mco_name obj)"
| "module_written (MCUpdate obj r) = Some (mco_name obj)"
| "module_written (MPOCreate obj r) = Some (mpo_name obj)"
| "module_written (MPOUpdate obj r) = Some (mpo_name obj)"
| "module_written ev = None"

fun seen_ready :: "string \<Rightarrow> string \<Rightarrow> event \<Rightarrow> bool" where
  "seen_ready phase n (ModuleGet n' (Inr m)) \<longleftrightarrow> n' = n \<and> dm_phase m = phase"
| "seen_ready phase n ev \<longleftrightarrow> False"

fun config_stored :: "module_config \<Rightarrow> event \<Rightarrow> bool" where
  "config_stored m (MCCreate obj None) \<longleftrightarrow> mco_name obj = mc_Name m \<and> mco_spec obj = wanted_spec m"
| "config_stored m (MCUpdate obj None) \<longleftrightarrow> mco_name obj = mc_Name m \<and> mco_spec obj = wanted_spec m"
| "config_stored m ev \<longleftrightarrow> False"

fun override_stored :: "module_config \<Rightarrow> event \<Rightarrow> bool" where
  "override_stored m (MPOCreate obj None) \<longleftrightarrow> mpo_name obj = mc_Name m \<and> mpo_spec obj = pull_spec (pull_tag m)"
| "override_stored m (MPOUpdate obj None) \<longleftrightarrow> mpo_name obj = mc_Name m \<and> mpo_spec obj = pull_spec (pull_tag m)"
| "override_stored m ev \<longleftrightarrow> False"

definition module_stored :: "module_config \<Rightarrow> string \<Rightarrow> event list \<Rightarrow> bool" where
  "module_stored m repo u \<longleftrightarrow> list_ex (config_stored m) u \<and>
     (hasPrefix repo devRegistryPrefix \<longrightarrow> list_ex (override_stored m) u)"

lemma only_calls_NewClient [calls_intros]:
  "(\<And>d. P (Waited c d)) \<Longrightarrow> (\<And>r. P (Opened ''deckhouse'' r)) \<Longrightarrow> only_calls P (deckhouse_NewClient rt api c)"
  unfolding deckhouse_NewClient_def by (intro calls_intros)

lemma only_calls_with_client [calls_intros]:
  "(\<And>d. P (Waited c d)) \<Longrightarrow> (\<And>r. P (Opened ''deckhouse'' r)) \<Longrightarrow> only_calls P k \<Longrightarrow>
     only_calls P (with_client rt api c fail k)"
  unfolding with_client_def by (intro calls_intros)

text \<open>Opening a client keeps every assertion that waits and openings keep.\<close>

lemma triple_with_client:
  assumes "\<And>t d. I t \<Longrightarrow> I (t @ [Waited c d])" "\<And>t r. I t \<Longrightarrow> I (t @ [Opened ''deckhouse'' r])"
    and "triple I k Q" "\<And>e t. I t \<Longrightarrow> Q (fail e) t"
  shows "triple I (with_client rt api c fail k) Q"
proof -
  have "triple I (deckhouse_NewClient rt api c) (\<lambda>_. I)"
    by (rule triple_keeps [where A = "\<lambda>ev. (\<exists>d. ev = Waited c d) \<or> (\<exists>r. ev = Opened ''deckhouse'' r)"])
      (auto intro: calls_intros assms)
  then show ?thesis unfolding with_client_def
    by (rule triple_bind) (intro triple_intros triple_ret assms)
qed

lemma CreateModuleConfig_stores:
  "triple (since t0 (\<lambda>_. True)) (CreateModuleConfig rt api c (mc_Name m) (wanted_spec m))
     (nil_or (since t0 (list_ex (config_stored m))) (since t0 (\<lambda>_. True)))"
  unfolding CreateModuleConfig_def Let_def by (rule triple_with_client) (auto intro!: triple_write)

lemma CreateModulePullOverride_stores:
  "triple (since t0 (\<lambda>_. True)) (CreateModulePullOverride rt api c (mc_Name m) (pull_tag m))
     (nil_or (since t0 (list_ex (override_stored m))) (since t0 (\<lambda>_. True)))"
  unfolding CreateModulePullOverride_def Let_def by (rule triple_with_client) (auto intro!: triple_write)

lemma UpdateModuleConfig_stores:
  "api_names api \<Longrightarrow> triple (since t0 (\<lambda>_. True)) (UpdateModuleConfig rt api c (mc_Name m) (wanted_spec m))
     (nil_or (since t0 (list_ex (config_stored m))) (since t0 (\<lambda>_. True)))"
  unfolding UpdateModuleConfig_def Let_def
  by (rule triple_with_client)
    (auto dest: api_namesD intro!: triple_read_write [where A = "\<lambda>obj. mco_name obj = mc_Name m"])

lemma UpdateModulePullOverride_stores:
  "api_names api \<Longrightarrow> triple (since t0 (\<lambda>_. True)) (UpdateModulePullOverride rt api c (mc_Name m) (pull_tag m))
     (nil_or (since t0 (list_ex (override_stored m))) (since t0 (\<lambda>_. True)))"
  unfolding UpdateModulePullOverride_def Let_def
  by (rule triple_with_client)
    (auto dest: api_namesD intro!: triple_read_write [where A = "\<lambda>obj. mpo_name obj = mc_Name m"])

text \<open>Create where the object is absent, update where it is there, and try again.\<close>

lemma triple_upsert:
  assumes "only_calls (\<lambda>_. True) get"
    and "triple (since t0 (\<lambda>_. True)) create (nil_or (since t0 (list_ex P)) (since t0 (\<lambda>_. True)))"
    and "triple (since t0 (\<lambda>_. True)) update (nil_or (since t0 (list_ex P)) (since t0 (\<lambda>_. True)))"
  shows "triple (since t0 (\<lambda>_. True)) (DoVoid rt c moduleApplyRetry (io_bind get (\<lambda>r. case r of
       Inl err \<Rightarrow> if has_reason NotFound err then create else io_ret (Some err) | Inr _ \<Rightarrow> update)))
    (nil_or (since t0 (list_ex P)) (since t0 (\<lambda>_. True)))"
proof (rule triple_DoVoid)
  have "triple (since t0 (\<lambda>_. True)) get (\<lambda>_. since t0 (\<lambda>_. True))"
    by (rule triple_keeps [OF assms(1)]) simp
  then show "triple (since t0 (\<lambda>_. True)) (io_bind get (\<lambda>r. case r of
       Inl err \<Rightarrow> if has_reason NotFound err then create else io_ret (Some err) | Inr _ \<Rightarrow> update))
    (nil_or (since t0 (list_ex P)) (since t0 (\<lambda>_. True)))"
    by (rule triple_bind) (intro triple_intros triple_ret assms(2,3), simp)
qed (simp_all add: moduleApplyRetry_def)

lemma upsertModuleConfig_stores:
  assumes "api_names api"
  shows "triple (since t0 (\<lambda>_. True)) (upsertModuleConfig rt api c m)
    (nil_or (since t0 (list_ex (config_stored m))) (since t0 (\<lambda>_. True)))"
  unfolding upsertModuleConfig_def
  by (rule triple_upsert [OF _ CreateModuleConfig_stores UpdateModuleConfig_stores [OF assms]])
    (auto simp: GetModuleConfig_def intro!: calls_intros)

lemma upsertModulePullOverride_stores:
  assumes "api_names api"
  shows "triple (since t0 (\<lambda>_. True)) (upsertModulePullOverride rt api c m repo)
    (nil_or (\<lambda>t. hasPrefix repo devRegistryPrefix \<longrightarrow> since t0 (list_ex (override_stored m)) t) (since t0 (\<lambda>_. True)))"
  unfolding upsertModulePullOverride_def
  apply (intro triple_intros triple_ret)
   apply simp
  apply (rule triple_post)
   apply (rule triple_upsert [OF _ CreateModulePullOverride_stores UpdateModulePullOverride_stores [OF assms]])
   apply (auto simp: GetModulePullOverride_def nil_or_def intro!: calls_intros split: option.splits)
  done


text \<open>The configuration, then the override.\<close>

lemma triple_store_both:
  assumes config: "triple (since t0 (\<lambda>_. True)) config (nil_or (since t0 (list_ex (config_stored m))) (since t0 (\<lambda>_. True)))"
    and override: "triple (since t0 (\<lambda>_. True)) override
      (nil_or (\<lambda>t. hasPrefix repo devRegistryPrefix \<longrightarrow> since t0 (list_ex (override_stored m)) t) (since t0 (\<lambda>_. True)))"
    and "appends override"
  shows "triple (\<lambda>t. t = t0) (io_bind config (\<lambda>e. case e of Some err \<Rightarrow> io_ret (Some (f err)) | None \<Rightarrow> override))
    (\<lambda>e t. e = None \<longrightarrow> since t0 (module_stored m repo) t)"
proof (rule triple_bind)
  show "triple (\<lambda>t. t = t0) config (nil_or (since t0 (list_ex (config_stored m))) (since t0 (\<lambda>_. True)))"
    by (rule triple_pre [OF config]) (simp add: since_refl)
  let ?over = "\<lambda>t. hasPrefix repo devRegistryPrefix \<longrightarrow> since t0 (list_ex (override_stored m)) t"
  have pull: "triple (\<lambda>t. since t0 (\<lambda>_. True) t \<and> since t0 (list_ex (config_stored m)) t) override
      (\<lambda>e t. nil_or ?over (since t0 (\<lambda>_. True)) e t \<and> since t0 (list_ex (config_stored m)) t)"
    by (rule triple_frame [OF override assms(3)]) (rule since_ex_step)
  fix e
  show "triple (nil_or (since t0 (list_ex (config_stored m))) (since t0 (\<lambda>_. True)) e)
      (case e of None \<Rightarrow> override | Some err \<Rightarrow> io_ret (Some (f err)))
      (\<lambda>e t. e = None \<longrightarrow> since t0 (module_stored m repo) t)"
  proof (intro triple_intros)
    assume "e = None"
    then show "triple (nil_or (since t0 (list_ex (config_stored m))) (since t0 (\<lambda>_. True)) e)
        override (\<lambda>e t. e = None \<longrightarrow> since t0 (module_stored m repo) t)"
      by (intro triple_conseq [OF pull]) (auto intro: since_forget simp: module_stored_def since_def)
  qed (rule triple_ret, simp)
qed

lemma applier_apply_stores:
  assumes "api_names api"
  shows "triple (\<lambda>t. t = t0) (applier_apply rt api c m repo) (\<lambda>e t. e = None \<longrightarrow> since t0 (module_stored m repo) t)"
  unfolding applier_apply_def
proof (rule triple_store_both [OF upsertModuleConfig_stores [OF assms] upsertModulePullOverride_stores [OF assms]])
  show "appends (upsertModulePullOverride rt api c m repo)"
    unfolding upsertModulePullOverride_def GetModulePullOverride_def CreateModulePullOverride_def
      UpdateModulePullOverride_def Let_def by (auto intro!: calls_intros)
qed

lemma applier_apply_own:
  assumes "api_names api"
  shows "only_calls (\<lambda>ev. module_written ev \<in> {None, Some (mc_Name m)}) (applier_apply rt api c m repo)"
  unfolding applier_apply_def upsertModuleConfig_def upsertModulePullOverride_def GetModuleConfig_def
    GetModulePullOverride_def CreateModuleConfig_def UpdateModuleConfig_def CreateModulePullOverride_def
    UpdateModulePullOverride_def Let_def
  by (intro calls_intros only_calls_call_bind [where f = "da_getMC api c (mc_Name m)"
        and A = "\<lambda>r. \<forall>obj. r = Inr obj \<longrightarrow> mco_name obj = mc_Name m"]
      only_calls_call_bind [where f = "da_getMPO api c (mc_Name m)"
        and A = "\<lambda>r. \<forall>obj. r = Inr obj \<longrightarrow> mpo_name obj = mc_Name m"])
    (auto dest: api_namesD [OF assms])

lemma module_ready_calls:
  "only_calls (\<lambda>ev. module_written ev = None) (module_ready rt api c n v)"
  unfolding module_ready_def GetModule_def by (auto intro!: calls_intros)

lemma WaitForModuleReady_silent:
  "only_calls (\<lambda>ev. module_written ev = None) (WaitForModuleReady rt api c n timeout)"
  unfolding WaitForModuleReady_def Let_def
  by (intro calls_intros module_ready_calls) (simp_all split: prod.splits)

lemma module_ready_seen:
  "triple (since t0 (\<lambda>_. True)) (module_ready rt api c n v)
     (\<lambda>x t. since t0 (\<lambda>_. True) t \<and> (fst x \<longrightarrow> since t0 (list_ex (seen_ready (da_phaseReady api) n)) t))"
proof -
  let ?ok = "\<lambda>m t. dm_phase m = da_phaseReady api \<longrightarrow> since t0 (list_ex (seen_ready (da_phaseReady api) n)) t"
  let ?Q = "\<lambda>r t. since t0 (\<lambda>_. True) t \<and> (case r of Inl e \<Rightarrow> True | Inr m \<Rightarrow> ?ok m t)"
  have "triple (since t0 (\<lambda>_. True)) (GetModule rt api c n) ?Q"
    unfolding GetModule_def
  proof (rule triple_with_client)
    show "triple (since t0 (\<lambda>_. True)) (io_bind (call (ModuleGet n) (da_getModule api c n))
        (\<lambda>r. io_ret (wrap_left (''failed to get module '' @ n @ '': '') r))) ?Q"
      by (rule triple_bind [where R = ?Q], rule triple_call)
        (auto simp: wrap_left_def intro!: triple_ret since_ex_now split: sum.splits)
  qed simp_all
  then show ?thesis unfolding module_ready_def
    by (rule triple_bind) (intro triple_intros triple_ret, auto)
qed

lemma WaitForModuleReady_seen:
  "triple (\<lambda>t. t = t0) (WaitForModuleReady rt api c n timeout)
     (\<lambda>e t. e = None \<longrightarrow> since t0 (list_ex (seen_ready (da_phaseReady api) n)) t)"
  unfolding WaitForModuleReady_def Let_def
  apply (rule triple_bind [OF triple_pre [OF module_ready_seen [of t0]]], simp add: since_refl)
  apply (intro triple_intros, rule triple_ret, simp)
  apply (rule triple_pre, rule triple_loop [where I = "\<lambda>_. since t0 (\<lambda>_. True)"])
   apply (rule triple_bind [OF triple_waitFor [where Q = "\<lambda>_. since t0 (\<lambda>_. True)"]], simp)
   apply (intro triple_intros)
    apply (rule triple_bind [OF module_ready_seen], intro triple_intros triple_ret, simp)
   apply (rule triple_ret, simp)
  apply simp
  done

interpretation default_applier: module_applier "\<lambda>p. api_names (snd p)" "\<lambda>p. applier_apply (fst p) (snd p)"
  "\<lambda>p. applier_waitReady (fst p) (snd p)" "\<lambda>_. module_written" "\<lambda>p. seen_ready (da_phaseReady (snd p))" "\<lambda>_. module_stored"
proof
  fix p :: "'e runtime \<times> 'e deckhouse_api" and c m n repo timeout t0 u v v'
  show "only_calls (\<lambda>ev. module_written ev = None) (applier_waitReady (fst p) (snd p) c n timeout)"
    unfolding applier_waitReady_def by (rule WaitForModuleReady_silent)
  show "triple (\<lambda>t. t = t0) (applier_waitReady (fst p) (snd p) c n timeout)
     (\<lambda>e t. e = None \<longrightarrow> since t0 (\<lambda>u. \<exists>ev \<in> set u. seen_ready (da_phaseReady (snd p)) n ev) t)"
    unfolding applier_waitReady_def
    by (rule triple_post [OF WaitForModuleReady_seen]) (simp add: list_ex_iff [abs_def])
  show "module_stored m repo u \<Longrightarrow> module_stored m repo (v @ u @ v')" by (auto simp: module_stored_def)
qed (rule applier_apply_own applier_apply_stores, assumption)+


section \<open>Properties\<close>

lemma ordered_levels_of_index:
  assumes "\<And>i m d. i < length Ls \<Longrightarrow> m \<in> set (Ls ! i) \<Longrightarrow> d \<in> set (mc_Dependencies m) \<Longrightarrow>
      d \<in> mc_Name ` S \<or> (\<exists>j < i. d \<in> mc_Name ` set (Ls ! j))"
  shows "ordered_levels S Ls"
  using assms
proof (induction Ls arbitrary: S)
  case (Cons L Ls)
  have "ordered_levels (S \<union> set L) Ls"
  proof (rule Cons.IH)
    fix i m d assume "i < length Ls" "m \<in> set (Ls ! i)" "d \<in> set (mc_Dependencies m)"
    then have "d \<in> mc_Name ` S \<or> (\<exists>j < Suc i. d \<in> mc_Name ` set ((L # Ls) ! j))"
      using Cons.prems [of "Suc i" m d] by auto
    then show "d \<in> mc_Name ` (S \<union> set L) \<or> (\<exists>j < i. d \<in> mc_Name ` set (Ls ! j))"
      unfolding Ex_less_Suc2 by (auto simp: image_Un)
  qed
  moreover have "set (mc_Dependencies m) \<subseteq> mc_Name ` S" if "m \<in> set L" for m
    using Cons.prems [of 0 m] that by auto
  ultimately show ?case by auto
qed simp

lemma levels_run_in_order:
  assumes "buildModuleLevels ms = Inr levels" and "api_names api"
  shows "triple (since t0 (\<lambda>u. u = []))
     (enable_levels rt (applier_apply rt api) (applier_waitReady rt api) c repo timeout idx levels)
     (\<lambda>e. since t0 (\<lambda>u. default_applier.in_order (rt, api) repo (set (concat levels)) u \<and>
        (e = None \<longrightarrow> (\<forall>m \<in> set (concat levels). module_stored m repo u \<and>
           (mc_Enabled m \<longrightarrow> default_applier.settled (rt, api) repo m u)))))"
proof -
  note spec = buildModuleLevels_spec [OF assms(1)]
  have "ordered_levels {} levels"
    using spec(3) by (intro ordered_levels_of_index) blast
  moreover have inj: "inj_on mc_Name (set (concat levels))" and "distinct (concat levels)"
    using spec(5) by (simp_all add: distinct_map)
  ultimately have "triple (since t0 (default_applier.level_inv (rt, api) repo (set (concat levels)) {}))
      (enable_levels rt (applier_apply rt api) (applier_waitReady rt api) c repo timeout idx levels)
      (\<lambda>e. since t0 (\<lambda>u. default_applier.in_order (rt, api) repo (set (concat levels)) u \<and>
        (e = None \<longrightarrow> default_applier.level_inv (rt, api) repo (set (concat levels)) ({} \<union> set (concat levels)) u)))"
    using default_applier.levels_in_order [of "(rt, api)" "set (concat levels)" "{}" levels t0 repo rt c timeout idx] assms(2)
    by simp
  then show ?thesis
    by (rule triple_conseq) (auto simp: default_applier.level_inv_def default_applier.in_order_def elim!: since_imp)
qed


text \<open>
  Since the events \<open>u\<close> began, module \<open>m\<close> was stored, then seen ready, and not written again.
\<close>

definition module_settled :: "string \<Rightarrow> string \<Rightarrow> module_config \<Rightarrow> event list \<Rightarrow> bool" where
  "module_settled phase repo m u \<longleftrightarrow> (\<exists>a ev b. u = a @ ev # b \<and> module_stored m repo a \<and>
     seen_ready phase (mc_Name m) ev \<and> (\<forall>x \<in> set b. module_written x \<noteq> Some (mc_Name m)))"

lemma default_settled: "default_applier.settled (rt, api) = module_settled (da_phaseReady api)"
  by (intro ext) (simp add: default_applier.settled_def module_settled_def)

lemma in_levels_iff: "buildModuleLevels ms = Inr levels \<Longrightarrow> m \<in> set (concat levels) \<longleftrightarrow> Some m \<in> set ms"
  using mset_eq_setD [OF buildModuleLevels_spec(1) [of ms levels]] by (metis image_iff list.set_map option.inject)

text \<open>
  C24. Enabling the modules of a cluster: whatever the API answers and in whatever order the goroutines
  of a level run, a module's configuration or pull override is written only for a
  module of the definition, and only after each of its enabled dependencies was stored, then
  observed Ready, and not written again. When the operation succeeds, every module of
  the definition was stored with the version, switch and settings it asks for (and, on a
  development registry, with its pull tag), and every enabled one was seen Ready
  afterwards.
\<close>

theorem modules_enabled_in_order:
  assumes names: "api_names api" and run: "enableModules rt api c def w = Some (err, w')"
  shows "\<exists>u. tr w' = tr w @ u \<and>
    (\<forall>a ev b n. u = a @ ev # b \<longrightarrow> module_written ev = Some n \<longrightarrow>
       (\<exists>m. Some m \<in> set (Modules (DKPParameters def)) \<and> mc_Name m = n \<and>
          (\<forall>d. Some d \<in> set (Modules (DKPParameters def)) \<longrightarrow> mc_Enabled d \<longrightarrow>
             mc_Name d \<in> set (mc_Dependencies m) \<longrightarrow>
             module_settled (da_phaseReady api) (RegistryRepo (DKPParameters def)) d a))) \<and>
    (err = None \<longrightarrow> (\<forall>m. Some m \<in> set (Modules (DKPParameters def)) \<longrightarrow>
       module_stored m (RegistryRepo (DKPParameters def)) u \<and>
       (mc_Enabled m \<longrightarrow> module_settled (da_phaseReady api) (RegistryRepo (DKPParameters def)) m u)))"
proof (cases "Modules (DKPParameters def) = [] \<or> (\<exists>e. buildModuleLevels (Modules (DKPParameters def)) = Inl e)")
  case True
  with run have "tr w' = tr w @ []" "err = None \<longrightarrow> Modules (DKPParameters def) = []"
    by (auto simp: enableModules_def enableModulesInLevels_def io_simps split: if_splits)
  then show ?thesis by (intro exI [of _ "[]"]) simp
next
  case False
  then obtain levels where levels: "buildModuleLevels (Modules (DKPParameters def)) = Inr levels"
    by (cases "buildModuleLevels (Modules (DKPParameters def))") auto
  let ?repo = "RegistryRepo (DKPParameters def)"
  have "enable_levels rt (applier_apply rt api) (applier_waitReady rt api) c ?repo ModuleDeployTimeout 0 levels w
      = Some (err, w')"
    using run False levels by (simp add: enableModules_def enableModulesInLevels_def)
  from tripleD [OF levels_run_in_order [OF levels names, of "tr w"] this]
  obtain u where "tr w' = tr w @ u" "default_applier.in_order (rt, api) ?repo (set (concat levels)) u"
    "err = None \<longrightarrow> (\<forall>m \<in> set (concat levels). module_stored m ?repo u \<and>
       (mc_Enabled m \<longrightarrow> default_applier.settled (rt, api) ?repo m u))"
    by (auto simp: since_def)
  then show ?thesis
    unfolding default_applier.in_order_def default_settled Ball_def Bex_def in_levels_iff [OF levels]
    by (intro exI [of _ u]) simp
qed


text \<open>A cluster without module configurations, in which every module is ready at once.\<close>

definition sample_deckhouse :: "'e deckhouse_api" where
  "sample_deckhouse = \<lparr>da_addV1 = None, da_addV2 = None, da_new = (\<lambda>s. (None, s)),
     da_getModule = (\<lambda>c n s. (Inr \<lparr>dm_phase = ''Ready'', dm_conditions = []\<rparr>, s)),
     da_getMC = (\<lambda>c n s. (Inl (ErrStatus \<lparr>st_code = 404, st_reason = NotFound, st_retryAfter = None, st_text = []\<rparr>), s)),
     da_createMC = (\<lambda>c obj s. (None, s)), da_updateMC = (\<lambda>c obj s. (None, s)),
     da_getMPO = (\<lambda>c n s. (Inl (ErrStatus \<lparr>st_code = 404, st_reason = NotFound, st_retryAfter = None, st_text = []\<rparr>), s)),
     da_createMPO = (\<lambda>c obj s. (None, s)), da_updateMPO = (\<lambda>c obj s. (None, s)),
     da_phaseReady = ''Ready'', da_condIsReady = ''IsReady''\<rparr>"

definition sample_cluster :: cluster_definition where
  "sample_cluster = \<lparr>Masters = [], Workers = [], Setup = None, DKPParameters =
     (dt_DKPParameters sample_def_tmp)\<lparr>Modules := [Some (sample_module\<lparr>mc_Name := ''b'', mc_Dependencies := [''a'']\<rparr>),
        Some (sample_module\<lparr>mc_Name := ''a''\<rparr>)]\<rparr>\<rparr>"

lemma sample_cluster_levels:
  "buildModuleLevels (Modules (DKPParameters sample_cluster)) =
     Inr [[sample_module\<lparr>mc_Name := ''a''\<rparr>], [sample_module\<lparr>mc_Name := ''b'', mc_Dependencies := [''a'']\<rparr>]]"
  by code_simp

lemma sample_client: "deckhouse_NewClient sample_rt sample_deckhouse c w =
    Some (None, w\<lparr>tr := tr w @ [Opened ''deckhouse'' None]\<rparr>)"
  by (simp add: deckhouse_NewClient_def Do_def do_loop.simps io_simps sample_deckhouse_def sample_rt_def DefaultConfig_def)

lemma sample_deckhouse_sels:
  "fst (da_getMC sample_deckhouse c n s) = Inl (ErrStatus \<lparr>st_code = 404, st_reason = NotFound, st_retryAfter = None, st_text = []\<rparr>)"
  "fst (da_createMC sample_deckhouse c obj s) = None"
  "fst (da_getModule sample_deckhouse c n s) = Inr \<lparr>dm_phase = ''Ready'', dm_conditions = []\<rparr>"
  "da_phaseReady sample_deckhouse = ''Ready''"
  "fst (rt_ctxErr sample_rt c s) = None"
  "snd (da_getMC sample_deckhouse c n s) = s" "snd (da_createMC sample_deckhouse c obj s) = s"
  "snd (da_getModule sample_deckhouse c n s) = s" "snd (rt_ctxErr sample_rt c s) = s"
  by (simp_all add: sample_deckhouse_def sample_rt_def)

lemma sample_apply:
  "applier_apply sample_rt sample_deckhouse c m ''r'' w = Some (None, w\<lparr>tr := tr w @
     [Opened ''deckhouse'' None, MCGet (mc_Name m) (fst (da_getMC sample_deckhouse c (mc_Name m) (est w))),
      Opened ''deckhouse'' None,
      MCCreate \<lparr>mco_name = mc_Name m, mco_resourceVersion = [], mco_spec = wanted_spec m\<rparr> None]\<rparr>)"
  by (simp add: applier_apply_def upsertModuleConfig_def upsertModulePullOverride_def DoVoid_def Do_def do_loop.simps
      moduleApplyRetry_def GetModuleConfig_def with_client_def CreateModuleConfig_def wrap_left_def io_simps
      sample_client sample_deckhouse_sels has_reason_def hasPrefix_def devRegistryPrefix_def Let_def)

lemma sample_wait:
  "applier_waitReady sample_rt sample_deckhouse c n d w = Some (None, w\<lparr>tr := tr w @
     [Opened ''deckhouse'' None, ModuleGet n (Inr \<lparr>dm_phase = ''Ready'', dm_conditions = []\<rparr>)]\<rparr>)"
  by (simp add: applier_waitReady_def WaitForModuleReady_def module_ready_def GetModule_def Let_def wrap_left_def
      with_client_def io_simps sample_client sample_deckhouse_sels)

abbreviation mod_a :: module_config where "mod_a \<equiv> sample_module\<lparr>mc_Name := ''a''\<rparr>"
abbreviation mod_b :: module_config where "mod_b \<equiv> sample_module\<lparr>mc_Name := ''b'', mc_Dependencies := [''a'']\<rparr>"

lemma sample_enable:
  "\<exists>w'. enableModules sample_rt sample_deckhouse CtxRoot sample_cluster \<lparr>tr = [], est = ()\<rparr> = Some (None, w') \<and>
     MCCreate \<lparr>mco_name = ''b'', mco_resourceVersion = [], mco_spec = wanted_spec mod_b\<rparr> None \<in> set (tr w')"
  unfolding enableModules_def enableModulesInLevels_def sample_cluster_levels
  by (simp add: sample_cluster_def sample_def_tmp_def io_simps errgroup_def errgroup_results_def arrange_def
      enumerate_eq_zip sample_apply sample_wait sample_module_def)

theorem modules_enabled_in_order_witness:
  "api_names (sample_deckhouse :: unit deckhouse_api) \<and>
   (\<exists>w'. enableModules sample_rt sample_deckhouse CtxRoot sample_cluster \<lparr>tr = [], est = ()\<rparr> = Some (None, w') \<and>
      (\<forall>m \<in> {mod_a, mod_b}. module_stored m ''r'' (tr w') \<and> module_settled ''Ready'' ''r'' m (tr w')) \<and>
      (\<exists>x obj y. tr w' = x @ MCCreate obj None # y \<and> mco_name obj = ''b'' \<and> module_settled ''Ready'' ''r'' mod_a x))"
proof -
  obtain w' ob where run: "enableModules sample_rt sample_deckhouse CtxRoot sample_cluster \<lparr>tr = [], est = ()\<rparr> = Some (None, w')"
    and ev: "MCCreate ob None \<in> set (tr w')" "mco_name ob = ''b''"
    using sample_enable by fastforce
  have names: "api_names (sample_deckhouse :: unit deckhouse_api)" by (simp add: api_names_def sample_deckhouse_def)
  have mods: "set (Modules (DKPParameters sample_cluster)) = {Some mod_a, Some mod_b}" "mc_Enabled mod_a" "mc_Enabled mod_b"
    "RegistryRepo (DKPParameters sample_cluster) = ''r''"
    by (auto simp: sample_cluster_def sample_module_def sample_def_tmp_def)
  from modules_enabled_in_order [OF names run, unfolded sample_deckhouse_sels mods(1,4)]
  obtain u where "tr w' = tr \<lparr>tr = [], est = ()\<rparr> @ u"
    and order: "\<forall>a ev b n. u = a @ ev # b \<longrightarrow> module_written ev = Some n \<longrightarrow>
       (\<exists>m. Some m \<in> {Some mod_a, Some mod_b} \<and> mc_Name m = n \<and> (\<forall>d. Some d \<in> {Some mod_a, Some mod_b} \<longrightarrow> mc_Enabled d \<longrightarrow>
          mc_Name d \<in> set (mc_Dependencies m) \<longrightarrow> module_settled ''Ready'' ''r'' d a))"
    and settled: "\<forall>m. Some m \<in> {Some mod_a, Some mod_b} \<longrightarrow> module_stored m ''r'' u \<and> (mc_Enabled m \<longrightarrow> module_settled ''Ready'' ''r'' m u)"
    using refl [of None] by (elim exE conjE) (rule that, assumption, assumption, erule mp)
  then have u: "tr w' = u" by simp
  from ev(1) obtain x y where xy: "u = x @ MCCreate ob None # y" unfolding u by (meson split_list)
  have "module_written (MCCreate ob None) = Some ''b''" using ev(2) by simp
  from order [rule_format, OF xy this] have "module_settled ''Ready'' ''r'' mod_a x" using mods(2) by auto
  with xy ev(2) u have late: "\<exists>x obj y. tr w' = x @ MCCreate obj None # y \<and> mco_name obj = ''b'' \<and> module_settled ''Ready'' ''r'' mod_a x"
    by (intro exI [of _ x] exI [of _ ob] exI [of _ y]) simp
  have "\<forall>m \<in> {mod_a, mod_b}. module_stored m ''r'' (tr w') \<and> module_settled ''Ready'' ''r'' m (tr w')"
    using settled mods(2,3) unfolding u by simp
  with late run names show ?thesis by (intro conjI exI [of _ w'])
qed

end
