(* ===== verification/Virtualization.thy ===== *)
theory Virtualization
  imports Hoare_IO
begin

text \<open>
  The virtualization client of \<^verbatim>\<open>internal/kubernetes/virtualization\<close>: one wrapper per
  resource and verb around the controller-runtime client, which is a parameter. The
  wrappers add context to an error and never hide its reason. \<^verbatim>\<open>VirtualImage\<close>s, which
  nothing in the modelled code uses, are left out.
\<close>

record ('e, 'o) kind_ops =
  ko_get :: "ctx \<Rightarrow> string \<Rightarrow> string \<Rightarrow> 'e \<Rightarrow> (goerr + 'o) \<times> 'e"
  ko_list :: "ctx \<Rightarrow> string \<Rightarrow> 'e \<Rightarrow> (goerr + 'o list) \<times> 'e"
  ko_create :: "ctx \<Rightarrow> 'o \<Rightarrow> 'e \<Rightarrow> goerr option \<times> 'e"
  ko_update :: "ctx \<Rightarrow> 'o \<Rightarrow> 'e \<Rightarrow> goerr option \<times> 'e"
  ko_delete :: "ctx \<Rightarrow> string \<Rightarrow> string \<Rightarrow> 'e \<Rightarrow> goerr option \<times> 'e"

text \<open>
  The API behind a \<^verbatim>\<open>rest.Config\<close>. A cluster-scoped kind is addressed with an empty
  namespace; so is a list over all namespaces. \<open>va_readyType\<close> and \<open>va_kindVirtualDisk\<close> are the
  constants \<^verbatim>\<open>vdcondition.ReadyType\<close> and \<^verbatim>\<open>VMBDAObjectRefKindVirtualDisk\<close> of the API packages.
\<close>

record 'e virt_api =
  va_addV2 :: "goerr option"
  va_addV3 :: "goerr option"
  va_new :: "'e \<Rightarrow> goerr option \<times> 'e"
  va_vm :: "('e, vmachine) kind_ops"
  va_vd :: "('e, vdisk) kind_ops"
  va_cvi :: "('e, cvimage) kind_ops"
  va_class :: "('e, vmclass) kind_ops"
  va_ba :: "('e, vmbda) kind_ops"
  va_readyType :: string
  va_kindVirtualDisk :: string

definition virt_NewClient :: "'e runtime \<Rightarrow> 'e virt_api \<Rightarrow> ctx \<Rightarrow> ('e, goerr option) act" where
  "virt_NewClient rt api c =
     io_bind (Do () rt c DefaultConfig
       (case va_addV2 api of
          Some e \<Rightarrow> io_ret ((), Some (wrapf ''failed to add virtualization v1alpha2 scheme: '' e))
        | None \<Rightarrow> (case va_addV3 api of
            Some e \<Rightarrow> io_ret ((), Some (wrapf ''failed to add virtualization v1alpha3 scheme: '' e))
          | None \<Rightarrow> io_bind (call (Opened ''virtualization'') (va_new api)) (\<lambda>r.
              io_ret ((), map_option (wrapf ''failed to create controller-runtime client: '') r)))))
       (\<lambda>(_, e). io_ret e)"

abbreviation nn :: "string \<Rightarrow> string \<Rightarrow> string" where
  "nn ns n \<equiv> ns @ ''/'' @ n"

section \<open>Virtual disks\<close>

definition VD_Get :: "'e virt_api \<Rightarrow> ctx \<Rightarrow> string \<Rightarrow> string \<Rightarrow> ('e, goerr + vdisk) act" where
  "VD_Get api c ns n = get_op (''failed to get VirtualDisk '' @ nn ns n @ '': '') (VDGet ns n) (ko_get (va_vd api) c ns n)"

definition VD_List :: "'e virt_api \<Rightarrow> ctx \<Rightarrow> string \<Rightarrow> ('e, goerr + vdisk list) act" where
  "VD_List api c ns = get_op ''failed to list VirtualDisks: '' (VDList ns) (ko_list (va_vd api) c ns)"

definition VD_Create :: "'e virt_api \<Rightarrow> ctx \<Rightarrow> vdisk \<Rightarrow> ('e, goerr option) act" where
  "VD_Create api c vd = put_op (''failed to create VirtualDisk '' @ nn (om_namespace (vd_meta vd)) (om_name (vd_meta vd)) @ '': '')
     (VDCreate vd) (ko_create (va_vd api) c vd)"

definition VD_Update :: "'e virt_api \<Rightarrow> ctx \<Rightarrow> vdisk \<Rightarrow> ('e, goerr option) act" where
  "VD_Update api c vd = put_op (''failed to update VirtualDisk '' @ nn (om_namespace (vd_meta vd)) (om_name (vd_meta vd)) @ '': '')
     (VDUpdate vd) (ko_update (va_vd api) c vd)"

definition VD_Delete :: "'e virt_api \<Rightarrow> ctx \<Rightarrow> string \<Rightarrow> string \<Rightarrow> ('e, goerr option) act" where
  "VD_Delete api c ns n = put_op (''failed to delete VirtualDisk '' @ nn ns n @ '': '') (VDDelete ns n) (ko_delete (va_vd api) c ns n)"

section \<open>Virtual machines\<close>

definition VM_Get :: "'e virt_api \<Rightarrow> ctx \<Rightarrow> string \<Rightarrow> string \<Rightarrow> ('e, goerr + vmachine) act" where
  "VM_Get api c ns n = get_op (''failed to get VirtualMachine '' @ nn ns n @ '': '') (VMGet ns n) (ko_get (va_vm api) c ns n)"

definition VM_List :: "'e virt_api \<Rightarrow> ctx \<Rightarrow> string \<Rightarrow> ('e, goerr + vmachine list) act" where
  "VM_List api c ns = get_op ''failed to list VirtualMachines: '' (VMList ns) (ko_list (va_vm api) c ns)"

definition VM_Create :: "'e virt_api \<Rightarrow> ctx \<Rightarrow> vmachine \<Rightarrow> ('e, goerr option) act" where
  "VM_Create api c vm = put_op (''failed to create VirtualMachine '' @ nn (om_namespace (vm_meta vm)) (om_name (vm_meta vm)) @ '': '')
     (VMCreate vm) (ko_create (va_vm api) c vm)"

definition VM_Update :: "'e virt_api \<Rightarrow> ctx \<Rightarrow> vmachine \<Rightarrow> ('e, goerr option) act" where
  "VM_Update api c vm = put_op (''failed to update VirtualMachine '' @ nn (om_namespace (vm_meta vm)) (om_name (vm_meta vm)) @ '': '')
     (VMUpdate vm) (ko_update (va_vm api) c vm)"

definition VM_Delete :: "'e virt_api \<Rightarrow> ctx \<Rightarrow> string \<Rightarrow> string \<Rightarrow> ('e, goerr option) act" where
  "VM_Delete api c ns n = put_op (''failed to delete VirtualMachine '' @ nn ns n @ '': '') (VMDelete ns n) (ko_delete (va_vm api) c ns n)"

section \<open>Block device attachments\<close>

definition BA_Get :: "'e virt_api \<Rightarrow> ctx \<Rightarrow> string \<Rightarrow> string \<Rightarrow> ('e, goerr + vmbda) act" where
  "BA_Get api c ns n = get_op (''failed to get VirtualMachineBlockDeviceAttachment '' @ nn ns n @ '': '') (BAGet ns n)
     (ko_get (va_ba api) c ns n)"

definition BA_List :: "'e virt_api \<Rightarrow> ctx \<Rightarrow> string \<Rightarrow> ('e, goerr + vmbda list) act" where
  "BA_List api c ns = get_op ''failed to list VirtualMachineBlockDeviceAttachments: '' (BAList ns) (ko_list (va_ba api) c ns)"

definition BA_Create :: "'e virt_api \<Rightarrow> ctx \<Rightarrow> vmbda \<Rightarrow> ('e, goerr option) act" where
  "BA_Create api c ba = put_op (''failed to create VirtualMachineBlockDeviceAttachment '' @
     nn (om_namespace (ba_meta ba)) (om_name (ba_meta ba)) @ '': '') (BACreate ba) (ko_create (va_ba api) c ba)"

definition BA_Update :: "'e virt_api \<Rightarrow> ctx \<Rightarrow> vmbda \<Rightarrow> ('e, goerr option) act" where
  "BA_Update api c ba = put_op (''failed to update VirtualMachineBlockDeviceAttachment '' @
     nn (om_namespace (ba_meta ba)) (om_name (ba_meta ba)) @ '': '') (BAUpdate ba) (ko_update (va_ba api) c ba)"

definition BA_Delete :: "'e virt_api \<Rightarrow> ctx \<Rightarrow> string \<Rightarrow> string \<Rightarrow> ('e, goerr option) act" where
  "BA_Delete api c ns n = put_op (''failed to delete VirtualMachineBlockDeviceAttachment '' @ nn ns n @ '': '')
     (BADelete ns n) (ko_delete (va_ba api) c ns n)"

section \<open>Cluster-scoped kinds\<close>

definition CVI_Get :: "'e virt_api \<Rightarrow> ctx \<Rightarrow> string \<Rightarrow> ('e, goerr + cvimage) act" where
  "CVI_Get api c n = get_op (''failed to get ClusterVirtualImage '' @ n @ '': '') (CVIGet n) (ko_get (va_cvi api) c [] n)"

definition CVI_List :: "'e virt_api \<Rightarrow> ctx \<Rightarrow> ('e, goerr + cvimage list) act" where
  "CVI_List api c = get_op ''failed to list ClusterVirtualImages: '' CVIList (ko_list (va_cvi api) c [])"

definition CVI_Create :: "'e virt_api \<Rightarrow> ctx \<Rightarrow> cvimage \<Rightarrow> ('e, goerr option) act" where
  "CVI_Create api c cvi = put_op (''failed to create ClusterVirtualImage '' @ om_name (cvi_meta cvi) @ '': '') (CVICreate cvi)
     (ko_create (va_cvi api) c cvi)"

definition CVI_Update :: "'e virt_api \<Rightarrow> ctx \<Rightarrow> cvimage \<Rightarrow> ('e, goerr option) act" where
  "CVI_Update api c cvi = put_op (''failed to update ClusterVirtualImage '' @ om_name (cvi_meta cvi) @ '': '') (CVIUpdate cvi)
     (ko_update (va_cvi api) c cvi)"

definition CVI_Delete :: "'e virt_api \<Rightarrow> ctx \<Rightarrow> string \<Rightarrow> ('e, goerr option) act" where
  "CVI_Delete api c n = put_op (''failed to delete ClusterVirtualImage '' @ n @ '': '') (CVIDelete n) (ko_delete (va_cvi api) c [] n)"

definition Class_Get :: "'e virt_api \<Rightarrow> ctx \<Rightarrow> string \<Rightarrow> ('e, goerr + vmclass) act" where
  "Class_Get api c n = get_op (''failed to get VirtualMachineClass '' @ n @ '': '') (VCGet n) (ko_get (va_class api) c [] n)"

definition Class_List :: "'e virt_api \<Rightarrow> ctx \<Rightarrow> ('e, goerr + vmclass list) act" where
  "Class_List api c = get_op ''failed to list VirtualMachineClasses: '' VCList (ko_list (va_class api) c [])"

definition Class_Create :: "'e virt_api \<Rightarrow> ctx \<Rightarrow> vmclass \<Rightarrow> ('e, goerr option) act" where
  "Class_Create api c vc = put_op (''failed to create VirtualMachineClass '' @ om_name (vc_meta vc) @ '': '') (VCCreate vc)
     (ko_create (va_class api) c vc)"

definition Class_Delete :: "'e virt_api \<Rightarrow> ctx \<Rightarrow> string \<Rightarrow> ('e, goerr option) act" where
  "Class_Delete api c n = put_op (''failed to delete VirtualMachineClass '' @ n @ '': '') (VCDelete n) (ko_delete (va_class api) c [] n)"

lemmas virt_ops = VD_Get_def VD_List_def VD_Create_def VD_Update_def VD_Delete_def
  VM_Get_def VM_List_def VM_Create_def VM_Update_def VM_Delete_def
  BA_Get_def BA_List_def BA_Create_def BA_Update_def BA_Delete_def
  CVI_Get_def CVI_List_def CVI_Create_def CVI_Update_def CVI_Delete_def
  Class_Get_def Class_List_def Class_Create_def Class_Delete_def

lemma only_calls_virt_ops [calls_intros]:
  "(\<And>r. P (VDGet ns n r)) \<Longrightarrow> only_calls P (VD_Get api c ns n)"
  "(\<And>r. P (VDList ns r)) \<Longrightarrow> only_calls P (VD_List api c ns)"
  "(\<And>r. P (VDCreate vd r)) \<Longrightarrow> only_calls P (VD_Create api c vd)"
  "(\<And>r. P (VDUpdate vd r)) \<Longrightarrow> only_calls P (VD_Update api c vd)"
  "(\<And>r. P (VDDelete ns n r)) \<Longrightarrow> only_calls P (VD_Delete api c ns n)"
  "(\<And>r. P (VMGet ns n r)) \<Longrightarrow> only_calls P (VM_Get api c ns n)"
  "(\<And>r. P (VMList ns r)) \<Longrightarrow> only_calls P (VM_List api c ns)"
  "(\<And>r. P (VMCreate vm r)) \<Longrightarrow> only_calls P (VM_Create api c vm)"
  "(\<And>r. P (VMDelete ns n r)) \<Longrightarrow> only_calls P (VM_Delete api c ns n)"
  "(\<And>r. P (BAGet ns n r)) \<Longrightarrow> only_calls P (BA_Get api c ns n)"
  "(\<And>r. P (BACreate ba r)) \<Longrightarrow> only_calls P (BA_Create api c ba)"
  "(\<And>r. P (BADelete ns n r)) \<Longrightarrow> only_calls P (BA_Delete api c ns n)"
  "(\<And>r. P (CVIGet n r)) \<Longrightarrow> only_calls P (CVI_Get api c n)"
  "(\<And>r. P (CVICreate cvi r)) \<Longrightarrow> only_calls P (CVI_Create api c cvi)"
  "(\<And>r. P (VCGet n r)) \<Longrightarrow> only_calls P (Class_Get api c n)"
  "(\<And>r. P (VCCreate vc r)) \<Longrightarrow> only_calls P (Class_Create api c vc)"
  unfolding virt_ops by (intro calls_intros; simp)+

lemma has_reason_wrap_left: "wrap_left pre r = Inl e \<Longrightarrow> \<exists>e'. r = Inl e' \<and> has_reason q e = has_reason q e'"
  by (auto simp: wrap_left_def split: sum.splits)

lemma wrap_left_Inr [simp]: "wrap_left pre r = Inr x \<longleftrightarrow> r = Inr x"
  by (auto simp: wrap_left_def split: sum.splits)

end
