(* ===== verification/Kube_Access.thy ===== *)
theory Kube_Access
  imports Module_Enable Virtualization
begin

text \<open>
  Access to a cluster: the clients of \<^verbatim>\<open>pkg/kubernetes/client.go\<close>, the namespaces of
  \<^verbatim>\<open>namespace.go\<close>, the node groups of \<^verbatim>\<open>nodegroup.go\<close> and \<^verbatim>\<open>internal/kubernetes/deckhouse\<close>, and
  \<^verbatim>\<open>internal/kubernetes/kubeaccess\<close>, which turns a kubeconfig into a \<^verbatim>\<open>rest.Config\<close>. The API server,
  \<^verbatim>\<open>clientcmd\<close> and the polling helper of \<^verbatim>\<open>k8s.io/apimachinery/pkg/util/wait\<close> are parameters.
\<close>

section \<open>The API behind a rest.Config\<close>

record 'e kube_api =
  ka_newForConfig :: "'e \<Rightarrow> goerr option \<times> 'e"
  ka_serverVersion :: "'e \<Rightarrow> goerr option \<times> 'e"
  ka_newDynamic :: "'e \<Rightarrow> goerr option \<times> 'e"
  ka_getVersion :: "ctx \<Rightarrow> 'e \<Rightarrow> goerr option \<times> 'e"
  ka_getNamespace :: "ctx \<Rightarrow> string \<Rightarrow> 'e \<Rightarrow> goerr option \<times> 'e"
  ka_createNamespace :: "ctx \<Rightarrow> string \<Rightarrow> 'e \<Rightarrow> goerr option \<times> 'e"
  ka_deleteNamespace :: "ctx \<Rightarrow> string \<Rightarrow> 'e \<Rightarrow> goerr option \<times> 'e"
  ka_getNodeGroup :: "ctx \<Rightarrow> string \<Rightarrow> 'e \<Rightarrow> goerr option \<times> 'e"
  ka_createNodeGroup :: "ctx \<Rightarrow> string \<Rightarrow> string \<Rightarrow> 'e \<Rightarrow> goerr option \<times> 'e"
  ka_nodes :: "ctx \<Rightarrow> 'e \<Rightarrow> (goerr + knode list) \<times> 'e"
  ka_secret :: "ctx \<Rightarrow> string \<Rightarrow> string \<Rightarrow> 'e \<Rightarrow> (goerr + (string \<rightharpoonup> string)) \<times> 'e"
  ka_deployment :: "ctx \<Rightarrow> string \<Rightarrow> string \<Rightarrow> 'e \<Rightarrow> (goerr + condition list) \<times> 'e"
  ka_virt :: "'e virt_api"
  ka_deckhouse :: "'e deckhouse_api"

definition NewClientsetWithRetry :: "'e runtime \<Rightarrow> 'e kube_api \<Rightarrow> ctx \<Rightarrow> ('e, goerr option) act" where
  "NewClientsetWithRetry rt api c =
     io_bind (Do () rt c DefaultConfig
       (io_bind (call (Opened ''clientset'') (ka_newForConfig api)) (\<lambda>e. case e of
          Some err \<Rightarrow> io_ret ((), Some (wrapf ''failed to create kubernetes clientset: '' err))
        | None \<Rightarrow> io_bind (call (KubeOp ''server version'' []) (ka_serverVersion api)) (\<lambda>e.
            io_ret ((), map_option (wrapf ''failed to verify cluster connectivity: '') e)))))
       (\<lambda>(_, e). io_ret e)"

definition NewDynamicClientWithRetry :: "'e runtime \<Rightarrow> 'e kube_api \<Rightarrow> ctx \<Rightarrow> ('e, goerr option) act" where
  "NewDynamicClientWithRetry rt api c =
     io_bind (Do () rt c DefaultConfig
       (io_bind (call (Opened ''dynamic client'') (ka_newDynamic api)) (\<lambda>e.
          io_ret ((), map_option (wrapf ''failed to create dynamic client: '') e))))
       (\<lambda>(_, e). io_ret e)"

section \<open>Namespaces\<close>

definition namespaceDeletePollInterval :: int where "namespaceDeletePollInterval = 2 * second"

definition CreateNamespaceIfNotExists :: "'e runtime \<Rightarrow> 'e kube_api \<Rightarrow> ctx \<Rightarrow> string \<Rightarrow> ('e, goerr option) act" where
  "CreateNamespaceIfNotExists rt api c name =
     io_bind (NewClientsetWithRetry rt api c) (\<lambda>e. case e of
       Some err \<Rightarrow> io_ret (Some (wrapf ''failed to create kubernetes clientset: '' err))
     | None \<Rightarrow> io_bind (call (KubeOp ''get namespace'' [name]) (ka_getNamespace api c name)) (\<lambda>g. case g of
         None \<Rightarrow> io_ret None
       | Some err \<Rightarrow>
           if has_reason NotFound err then call (KubeOp ''create namespace'' [name]) (ka_createNamespace api c name)
           else io_ret (Some (wrapf (''failed to get namespace '' @ name @ '': '') err))))"

text \<open>
  \<^verbatim>\<open>wait.PollUntilContextCancel\<close>, as far as it is documented: it evaluates the condition and waits,
  over and over; it returns nil only when the condition has just said that it is done, and an error
  when the condition has failed or the context has ended.
\<close>

type_synonym 'e poll_lib = "ctx \<Rightarrow> int \<Rightarrow> ('e, goerr + bool) act \<Rightarrow> ('e, goerr option) act"

definition poll_lib_ok :: "'e poll_lib \<Rightarrow> bool" where
  "poll_lib_ok poll \<longleftrightarrow>
     (\<forall>c d cond I Q K. triple I cond (\<lambda>r t. case r of Inl _ \<Rightarrow> K t | Inr b \<Rightarrow> if b then Q t else I t) \<longrightarrow>
        (\<forall>t. I t \<longrightarrow> I (t @ [Waited c d]) \<and> K t) \<longrightarrow>
        triple I (poll c d cond) (\<lambda>e t. if e = None then Q t else K t))"

definition namespace_gone_cond :: "'e kube_api \<Rightarrow> ctx \<Rightarrow> string \<Rightarrow> ('e, goerr + bool) act" where
  "namespace_gone_cond api c name =
     io_bind (call (KubeOp ''get namespace'' [name]) (ka_getNamespace api c name)) (\<lambda>g. io_ret (case g of
       None \<Rightarrow> Inr False
     | Some err \<Rightarrow> if has_reason NotFound err then Inr True
         else Inl (wrapf (''failed to get namespace '' @ name @ '': '') err)))"

definition DeleteNamespace :: "'e runtime \<Rightarrow> 'e poll_lib \<Rightarrow> 'e kube_api \<Rightarrow> ctx \<Rightarrow> string \<Rightarrow> ('e, goerr option) act" where
  "DeleteNamespace rt poll api c name =
     io_bind (NewClientsetWithRetry rt api c) (\<lambda>e. case e of
       Some err \<Rightarrow> io_ret (Some (wrapf ''failed to create kubernetes clientset: '' err))
     | None \<Rightarrow> io_bind (call (KubeOp ''delete namespace'' [name]) (ka_deleteNamespace api c name)) (\<lambda>d.
         if d \<noteq> None \<and> \<not> is_reason NotFound d
         then io_ret (map_option (wrapf (''failed to delete namespace '' @ name @ '': '')) d)
         else io_bind (poll c namespaceDeletePollInterval (namespace_gone_cond api c name)) (\<lambda>w.
           io_ret (map_option (wrapf (''waiting for namespace '' @ name @ '' deletion: '')) w))))"

section \<open>Node groups\<close>

definition GetNodeGroup :: "'e runtime \<Rightarrow> 'e kube_api \<Rightarrow> ctx \<Rightarrow> string \<Rightarrow> ('e, goerr option) act" where
  "GetNodeGroup rt api c name = with_client rt (ka_deckhouse api) c Some
     (io_bind (call (KubeOp ''get nodegroup'' [name]) (ka_getNodeGroup api c name)) (\<lambda>e.
        io_ret (map_option (wrapf (''failed to get nodegroup '' @ name @ '': '')) e)))"

definition CreateNodeGroup :: "'e runtime \<Rightarrow> 'e kube_api \<Rightarrow> ctx \<Rightarrow> string \<Rightarrow> string \<Rightarrow> ('e, goerr option) act" where
  "CreateNodeGroup rt api c name nodeType = with_client rt (ka_deckhouse api) c Some
     (io_bind (call (KubeOp ''create nodegroup'' [name, nodeType]) (ka_createNodeGroup api c name nodeType)) (\<lambda>e.
        io_ret (map_option (wrapf (''failed to create nodegroup '' @ name @ '': '')) e)))"

definition nodeGroupRetry :: retry_config where
  "nodeGroupRetry = \<lparr>MaxRetries = 30, InitialWait = 2 * second, MaxWait = 15 * second, Backoff = 3 / 2\<rparr>"

definition CreateStaticNodeGroup :: "'e runtime \<Rightarrow> 'e kube_api \<Rightarrow> ctx \<Rightarrow> string \<Rightarrow> ('e, goerr option) act" where
  "CreateStaticNodeGroup rt api c name =
     DoVoid rt c nodeGroupRetry
       (io_bind (GetNodeGroup rt api c name) (\<lambda>g. case g of
          None \<Rightarrow> io_ret None
        | Some err \<Rightarrow>
            if \<not> has_reason NotFound err
            then io_ret (Some (wrapf (''failed to check if nodegroup '' @ name @ '' exists: '') err))
            else io_bind (CreateNodeGroup rt api c name ''Static'') (\<lambda>e.
              io_ret (map_option (wrapf (''failed to create nodegroup '' @ name @ '': '')) e))))"

section \<open>Kubeconfigs\<close>

type_synonym 'e executor = "ctx \<Rightarrow> string \<Rightarrow> ('e, exec_result \<times> goerr option) act"

definition getKubeconfigRemoteShell :: string where
  "getKubeconfigRemoteShell = ''sudo -n /bin/cat /etc/kubernetes/super-admin.conf 2>/dev/null '' @
     ''|| sudo -n /bin/cat /etc/kubernetes/admin.conf''"

definition FetchKubeconfig :: "ctx \<Rightarrow> 'e executor \<Rightarrow> ('e, goerr + string) act" where
  "FetchKubeconfig c exec =
     io_bind (exec c getKubeconfigRemoteShell) (\<lambda>(res, err). io_ret (case err of
       Some e \<Rightarrow> Inl (ErrWrap ''read kubeconfig over ssh: '' e ('' (stderr: '' @ trimSpace (er_stderr res) @ '')''))
     | None \<Rightarrow> if er_stdout res = []
         then Inl (ErrText (''empty kubeconfig from master (stderr: '' @ trimSpace (er_stderr res) @ '')''))
         else Inr (er_stdout res)))"

definition is_server_line :: "string \<Rightarrow> bool" where
  "is_server_line line \<longleftrightarrow> hasPrefix (trimSpace line) ''server:''"

definition line_indent :: "string \<Rightarrow> string" where
  "line_indent line = takeWhile (\<lambda>c. c = CHR 0x20 \<or> c = CHR 0x09) line"

definition rewrite_line :: "string \<Rightarrow> string \<Rightarrow> string" where
  "rewrite_line localAddr line =
     (if is_server_line line then line_indent line @ ''server: https://'' @ localAddr else line)"

definition RewriteServer :: "string \<Rightarrow> string \<Rightarrow> goerr + string" where
  "RewriteServer kubeconfig localAddr =
     (let lines = split_on nl kubeconfig in
      if \<not> list_ex is_server_line lines then Inl (ErrText ''no server field found in kubeconfig'')
      else Inr (str_join [nl] (map (rewrite_line localAddr) lines)))"

text \<open>
  \<^verbatim>\<open>clientcmd\<close>: a parsed kubeconfig is an arbitrary value; a \<^verbatim>\<open>rest.Config\<close> is what the library
  builds from it (\<open>rc_base\<close>) and the transport wrapper that the code installs.
\<close>

record http_transport =
  TLSHandshakeTimeout :: int
  ResponseHeaderTimeout :: int
  IdleConnTimeout :: int

datatype round_tripper = HTTPTransport http_transport | OtherRoundTripper string

record 'c rest_config =
  rc_base :: 'c
  WrapTransport :: "(round_tripper \<Rightarrow> round_tripper) option"

record config_overrides =
  ov_Server :: string
  ov_Timeout :: string

record ('a, 'c) clientcmd =
  cc_Load :: "string \<Rightarrow> goerr + 'a"
  cc_ClientConfig :: "'a \<Rightarrow> config_overrides \<Rightarrow> goerr + 'c rest_config"

definition configureTunnelTimeouts :: "'c rest_config \<Rightarrow> 'c rest_config" where
  "configureTunnelTimeouts cfg =
     (let prev = WrapTransport cfg in
      cfg\<lparr>WrapTransport := Some (\<lambda>rt.
        case (case prev of None \<Rightarrow> rt | Some f \<Rightarrow> f rt) of
          HTTPTransport t \<Rightarrow> HTTPTransport (t\<lparr>TLSHandshakeTimeout := 30 * second,
            ResponseHeaderTimeout := 60 * second, IdleConnTimeout := 90 * second\<rparr>)
        | OtherRoundTripper s \<Rightarrow> OtherRoundTripper s)\<rparr>)"

definition buildRestConfig :: "('a, 'c) clientcmd \<Rightarrow> string \<Rightarrow> config_overrides \<Rightarrow> goerr + 'c rest_config" where
  "buildRestConfig cc kubeconfig overrides =
     (case cc_Load cc kubeconfig of Inl e \<Rightarrow> Inl (wrapf ''parsing kubeconfig: '' e)
      | Inr a \<Rightarrow> (case cc_ClientConfig cc a overrides of
          Inl e \<Rightarrow> Inl (wrapf ''creating client config: '' e)
        | Inr cfg \<Rightarrow> Inr (configureTunnelTimeouts cfg)))"

definition BuildRestConfig :: "('a, 'c) clientcmd \<Rightarrow> string \<Rightarrow> string \<Rightarrow> goerr + 'c rest_config" where
  "BuildRestConfig cc kubeconfig overrideAddr = buildRestConfig cc kubeconfig
     \<lparr>ov_Server = ''https://'' @ overrideAddr, ov_Timeout = dur_str (2 * minute)\<rparr>"

definition BuildRestConfigDirect :: "('a, 'c) clientcmd \<Rightarrow> string \<Rightarrow> goerr + 'c rest_config" where
  "BuildRestConfigDirect cc kubeconfig = buildRestConfig cc kubeconfig
     \<lparr>ov_Server = [], ov_Timeout = dur_str (2 * minute)\<rparr>"

definition directProbeTimeout :: int where "directProbeTimeout = 5 * second"

definition DirectReachable :: "'e kube_api \<Rightarrow> ctx \<Rightarrow> ('e, bool) act" where
  "DirectReachable api c =
     io_bind (call (Opened ''clientset'') (ka_newForConfig api)) (\<lambda>e. case e of
       Some _ \<Rightarrow> io_ret False
     | None \<Rightarrow> io_bind (call (KubeOp ''version'' []) (ka_getVersion api (CtxTimeout c directProbeTimeout))) (\<lambda>e.
         io_ret (e = None)))"

section \<open>Properties\<close>

lemma trim_right_keeps:
  "\<not> P c \<Longrightarrow> \<exists>z. rev (dropWhile P (rev (x @ c # y))) = x @ c # z"
  by (induction y rule: rev_induct) auto

lemma rewritten_is_server_line: "is_server_line (line_indent line @ ''server: https://'' @ a)"
proof -
  have "is_space c" if "c \<in> set (line_indent line)" for c
    using that by (auto simp: line_indent_def is_space_def dest: set_takeWhileD)
  then have "dropWhile is_space (line_indent line @ ''server: https://'' @ a) = ''server: https://'' @ a"
    by (subst dropWhile_append2) (simp_all add: is_space_def)
  moreover have "\<exists>z. rev (dropWhile is_space (rev (''server: https:/'' @ CHR ''/'' # a))) = ''server: https:/'' @ CHR ''/'' # z"
    by (rule trim_right_keeps) (simp add: is_space_def)
  ultimately show ?thesis unfolding is_server_line_def trimSpace_def hasPrefix_def by auto
qed

lemma rewrite_line_again: "rewrite_line b (rewrite_line a line) = rewrite_line b line"
proof (cases "is_server_line line")
  case True
  have "line_indent (line_indent line @ ''server: https://'' @ a) = line_indent line"
    unfolding line_indent_def by (subst takeWhile_append2) (auto dest: set_takeWhileD)
  with True rewritten_is_server_line [of line a] show ?thesis by (simp add: rewrite_line_def)
qed (simp add: rewrite_line_def)

lemma rewrite_line_server: "is_server_line (rewrite_line a line) = is_server_line line"
  using rewritten_is_server_line [of line a] by (simp add: rewrite_line_def)

text \<open>
  \<^verbatim>\<open>RewriteServer\<close> fails exactly on a kubeconfig without a server line. Otherwise it keeps every
  other line, replaces every server line by the local address under the same indentation, and can be
  applied again to move the tunnel: only the last address stays.\<close>

lemma rewrite_server_spec:
  assumes "nl \<notin> set a"
  shows "case RewriteServer kubeconfig a of
      Inl e \<Rightarrow> \<not> list_ex is_server_line (split_on nl kubeconfig)
    | Inr k \<Rightarrow> list_ex is_server_line (split_on nl kubeconfig) \<and>
        list_all2 (\<lambda>old new. if is_server_line old
            then is_server_line new \<and> new = line_indent old @ ''server: https://'' @ a else new = old)
          (split_on nl kubeconfig) (split_on nl k) \<and>
        RewriteServer k b = RewriteServer kubeconfig b"
proof (cases "list_ex is_server_line (split_on nl kubeconfig)")
  case True
  let ?lines = "split_on nl kubeconfig" and ?new = "map (rewrite_line a) (split_on nl kubeconfig)"
  have "nl \<notin> set (rewrite_line a l)" if "l \<in> set ?lines" for l
    using split_on_pieces [OF that] assms
    by (auto simp: rewrite_line_def line_indent_def nl_def dest: set_takeWhileD)
  then have "split_on nl (str_join [nl] ?new) = ?new" by (intro split_on_join) (auto simp: list_all_iff)
  moreover have "RewriteServer kubeconfig a = Inr (str_join [nl] ?new)"
    using True by (simp add: RewriteServer_def)
  moreover have "list_ex is_server_line ?new" using True by (auto simp: list_ex_iff rewrite_line_server)
  moreover have "RewriteServer (str_join [nl] ?new) b = RewriteServer kubeconfig b"
    using calculation True by (simp add: RewriteServer_def rewrite_line_again o_def)
  moreover have "list_all2 (\<lambda>old new. if is_server_line old
      then is_server_line new \<and> new = line_indent old @ ''server: https://'' @ a else new = old) ?lines ?new"
    using rewritten_is_server_line by (simp add: list_all2_conv_all_nth rewrite_line_def)
  ultimately show ?thesis using True by simp
qed (simp add: RewriteServer_def)

end
