(* ===== verification/Install.thy ===== *)
theory Install
  imports Kube_Access Cluster_Config
begin

text \<open>
  The waits of the installation of Deckhouse, from \<^verbatim>\<open>internal/provisioning/dvp/install.go\<close> and
  \<^verbatim>\<open>setupnode.go\<close>: the health check of a cluster, the bootstrap secrets, the nodes and the Docker daemon
  of the setup node. The waits are polling loops; the rules of the locale \<open>poller\<close> carry their proofs.
\<close>

section \<open>Constants\<close>

definition bootstrapSecretNamespace :: string where "bootstrapSecretNamespace = ''d8-cloud-instance-manager''"
definition masterBootstrapSecret :: string where "masterBootstrapSecret = ''manual-bootstrap-for-master''"
definition workerBootstrapSecret :: string where "workerBootstrapSecret = ''manual-bootstrap-for-worker''"
definition bootstrapScriptKey :: string where "bootstrapScriptKey = ''bootstrap.sh''"
definition workerNodeGroupName :: string where "workerNodeGroupName = ''worker''"
definition deckhouseNamespace :: string where "deckhouseNamespace = ''d8-system''"
definition deckhouseDeploymentName :: string where "deckhouseDeploymentName = ''deckhouse''"
definition installPollInterval :: int where "installPollInterval = 5 * second"
definition existingInstallReadyTimeout :: int where "existingInstallReadyTimeout = 10 * minute"

definition controlPlaneNodeLabels :: "string list" where
  "controlPlaneNodeLabels = [''node-role.kubernetes.io/control-plane'', ''node-role.kubernetes.io/master'']"

section \<open>Polling\<close>

text \<open>
  The loop behind every wait of this package: evaluate, stop or wait for the next tick. A wait that
  has nothing to read polls its check only.
\<close>

definition poll_loop ::
  "'e runtime \<Rightarrow> ctx \<Rightarrow> int \<Rightarrow> (goerr \<Rightarrow> goerr option \<Rightarrow> goerr) \<Rightarrow> ('e, goerr + 'a) act
   \<Rightarrow> ('s \<Rightarrow> goerr + 'a \<Rightarrow> ('e, (goerr + bool) \<times> 's) act) \<Rightarrow> 's \<Rightarrow> ('e, goerr option \<times> 's) act" where
  "poll_loop rt c interval done_err get cond s =
     (if interval \<le> 0 then io_ret (Some ticker_panic, s)
      else loop (poll_body rt c interval done_err get cond) (None, s))"

interpretation any_poll: poller "\<lambda>rt c interval. poll_loop rt c interval done_err" done_err for done_err
  by unfold_locales (simp_all add: poll_loop_def)

text \<open>
  \<^verbatim>\<open>pollUntil\<close>: the check is a closure; \<open>'s\<close> are the variables of the caller that it assigns.
\<close>

definition until_body ::
  "'e runtime \<Rightarrow> ctx \<Rightarrow> int \<Rightarrow> string \<Rightarrow> ('s \<Rightarrow> ('e, (goerr + bool) \<times> 's) act) \<Rightarrow> 's
   \<Rightarrow> ('e, (goerr option \<times> 's) + 's) act" where
  "until_body rt c timeout what check s =
     io_bind (waitFor rt c installPollInterval) (\<lambda>d. case d of
       Some ctxe \<Rightarrow> io_ret (Inl (Some (wrapf (''waiting for '' @ what @ '' within '' @ dur_str timeout @ '': '') ctxe), s))
     | None \<Rightarrow> io_bind (check s) (\<lambda>(r, s'). io_ret (case r of
         Inl err \<Rightarrow> Inl (Some err, s')
       | Inr True \<Rightarrow> Inl (None, s')
       | Inr False \<Rightarrow> Inr s')))"

definition pollUntil ::
  "'e runtime \<Rightarrow> ctx \<Rightarrow> int \<Rightarrow> string \<Rightarrow> ('s \<Rightarrow> ('e, (goerr + bool) \<times> 's) act) \<Rightarrow> 's \<Rightarrow> ('e, goerr option \<times> 's) act" where
  "pollUntil rt c0 timeout what check s =
     (let c = CtxTimeout c0 timeout in
      io_bind (check s) (\<lambda>(r, s'). case r of
        Inl err \<Rightarrow> io_ret (Some err, s')
      | Inr True \<Rightarrow> io_ret (None, s')
      | Inr False \<Rightarrow> loop (until_body rt c timeout what check) s'))"

section \<open>Health\<close>

definition isNodeReady :: "knode \<Rightarrow> bool" where
  "isNodeReady n = (case find (\<lambda>cond. cond_type cond = ''Ready'') (node_conditions n) of
     Some cond \<Rightarrow> cond_status cond = ''True'' | None \<Rightarrow> False)"

definition isControlPlaneNode :: "knode \<Rightarrow> bool" where
  "isControlPlaneNode n \<longleftrightarrow> list_ex (\<lambda>label. node_labels n label \<noteq> None) controlPlaneNodeLabels"

definition isDeploymentAvailable :: "condition list \<Rightarrow> bool" where
  "isDeploymentAvailable conds = (case find (\<lambda>cond. cond_type cond = ''Available'') conds of
     Some cond \<Rightarrow> cond_status cond = ''True'' | None \<Rightarrow> False)"

fun check_control_plane :: "knode list \<Rightarrow> nat \<Rightarrow> goerr + nat" where
  "check_control_plane [] controlPlane = Inr controlPlane"
| "check_control_plane (n # ns) controlPlane =
     (if \<not> isControlPlaneNode n then check_control_plane ns controlPlane
      else if \<not> isNodeReady n then Inl (ErrText (''control-plane node '' @ node_name n @ '' is not Ready''))
      else check_control_plane ns (controlPlane + 1))"

definition checkHealthClient :: "'e kube_api \<Rightarrow> ctx \<Rightarrow> ('e, goerr option) act" where
  "checkHealthClient api c =
     io_bind (call NodesList (ka_nodes api c)) (\<lambda>g. case g of
       Inl e \<Rightarrow> io_ret (Some (wrapf ''list nodes: '' e))
     | Inr nodes \<Rightarrow>
     (case check_control_plane nodes 0 of
       Inl e \<Rightarrow> io_ret (Some e)
     | Inr controlPlane \<Rightarrow>
     if controlPlane = 0 then io_ret (Some (ErrText ''no control-plane nodes found''))
     else io_bind (call (DeploymentGet deckhouseNamespace deckhouseDeploymentName)
         (ka_deployment api c deckhouseNamespace deckhouseDeploymentName)) (\<lambda>d. io_ret (case d of
       Inl e \<Rightarrow> Some (wrapf (''get '' @ deckhouseNamespace @ ''/'' @ deckhouseDeploymentName @ '' deployment: '') e)
     | Inr dep \<Rightarrow> if isDeploymentAvailable dep then None else Some (ErrText ''deckhouse deployment is not Available'')))))"

definition last_check_err :: "goerr option \<times> goerr option \<Rightarrow> goerr option" where
  "last_check_err r = (case r of
     (Some err, Some lastErr) \<Rightarrow> Some (ErrWrap2 [] err '' (last check: '' lastErr '')'')
   | (err, _) \<Rightarrow> err)"

definition waitClusterHealthyClient :: "'e runtime \<Rightarrow> 'e kube_api \<Rightarrow> ctx \<Rightarrow> int \<Rightarrow> ('e, goerr option) act" where
  "waitClusterHealthyClient rt api c timeout =
     io_bind (pollUntil rt c timeout ''cluster to become healthy''
       (\<lambda>lastErr. io_bind (checkHealthClient api c) (\<lambda>e. io_ret (Inr (e = None), e))) None)
       (\<lambda>r. io_ret (last_check_err r))"

text \<open>\<^verbatim>\<open>cs, err := kubernetes.NewClientsetWithRetry(ctx, kube)\<close> at the head of the waits.\<close>

definition with_clientset :: "'e runtime \<Rightarrow> 'e kube_api \<Rightarrow> ctx \<Rightarrow> ('e, goerr option) act \<Rightarrow> ('e, goerr option) act" where
  "with_clientset rt api c k =
     io_bind (NewClientsetWithRetry rt api c) (\<lambda>e. case e of
       Some err \<Rightarrow> io_ret (Some (wrapf ''create clientset: '' err)) | None \<Rightarrow> k)"

definition waitClusterHealthy :: "'e runtime \<Rightarrow> 'e kube_api \<Rightarrow> ctx \<Rightarrow> int \<Rightarrow> ('e, goerr option) act" where
  "waitClusterHealthy rt api c timeout = with_clientset rt api c (waitClusterHealthyClient rt api c timeout)"

section \<open>Secrets and nodes\<close>

definition bootstrapSecrets :: "string list" where
  "bootstrapSecrets = [masterBootstrapSecret, workerBootstrapSecret]"

abbreviation getSecret :: "'e kube_api \<Rightarrow> ctx \<Rightarrow> string \<Rightarrow> ('e, goerr + (string \<rightharpoonup> string)) act" where
  "getSecret api c name \<equiv> call (SecretGet bootstrapSecretNamespace name) (ka_secret api c bootstrapSecretNamespace name)"

fun secrets_present :: "'e kube_api \<Rightarrow> ctx \<Rightarrow> string list \<Rightarrow> ('e, goerr + bool) act" where
  "secrets_present api c [] = io_ret (Inr True)"
| "secrets_present api c (name # names) =
     io_bind (getSecret api c name) (\<lambda>g. case g of
       Inl e \<Rightarrow> io_ret (if has_reason NotFound e then Inr False
         else Inl (wrapf (''get secret '' @ bootstrapSecretNamespace @ ''/'' @ name @ '': '') e))
     | Inr _ \<Rightarrow> secrets_present api c names)"

definition waitBootstrapSecretsClient :: "'e runtime \<Rightarrow> 'e kube_api \<Rightarrow> ctx \<Rightarrow> int \<Rightarrow> ('e, goerr option) act" where
  "waitBootstrapSecretsClient rt api c timeout =
     io_bind (pollUntil rt c timeout ''bootstrap secrets''
       (\<lambda>_. io_bind (secrets_present api c bootstrapSecrets) (\<lambda>r. io_ret (r, ()))) ()) (\<lambda>(e, _). io_ret e)"

definition waitBootstrapSecrets :: "'e runtime \<Rightarrow> 'e kube_api \<Rightarrow> ctx \<Rightarrow> int \<Rightarrow> ('e, goerr option) act" where
  "waitBootstrapSecrets rt api c timeout = with_clientset rt api c (waitBootstrapSecretsClient rt api c timeout)"

fun secrets_readable :: "'e kube_api \<Rightarrow> ctx \<Rightarrow> string list \<Rightarrow> ('e, bool) act" where
  "secrets_readable api c [] = io_ret True"
| "secrets_readable api c (name # names) =
     io_bind (getSecret api c name) (\<lambda>g. case g of Inl _ \<Rightarrow> io_ret False | Inr _ \<Rightarrow> secrets_readable api c names)"

definition waitExistingInstallReadyClient :: "'e runtime \<Rightarrow> 'e kube_api \<Rightarrow> ctx \<Rightarrow> int \<Rightarrow> ('e, goerr option) act" where
  "waitExistingInstallReadyClient rt api c timeout =
     io_bind (pollUntil rt c timeout ''existing Deckhouse installation to become healthy''
       (\<lambda>_. io_bind (checkHealthClient api c) (\<lambda>e. case e of
          Some _ \<Rightarrow> io_ret (Inr False, ())
        | None \<Rightarrow> io_bind (secrets_readable api c bootstrapSecrets) (\<lambda>b. io_ret (Inr b, ())))) ()) (\<lambda>(e, _). io_ret e)"

definition waitExistingInstallReady :: "'e runtime \<Rightarrow> 'e kube_api \<Rightarrow> ctx \<Rightarrow> int \<Rightarrow> ('e, goerr option) act" where
  "waitExistingInstallReady rt api c timeout = with_clientset rt api c (waitExistingInstallReadyClient rt api c timeout)"

definition nodes_want :: "cluster_definition \<Rightarrow> nat" where
  "nodes_want def = length (Masters def) + length (Workers def)"

definition waitNodesReadyClient ::
  "'e runtime \<Rightarrow> 'e kube_api \<Rightarrow> ctx \<Rightarrow> cluster_definition \<Rightarrow> int \<Rightarrow> ('e, goerr option) act" where
  "waitNodesReadyClient rt api c def timeout =
     (if nodes_want def = 0 then io_ret (Some (ErrText ''cluster definition declares no nodes''))
      else io_bind (pollUntil rt c timeout (nat_str (nodes_want def) @ '' nodes ready'')
        (\<lambda>_. io_bind (call NodesList (ka_nodes api c)) (\<lambda>g. io_ret (case g of
           Inl e \<Rightarrow> (Inl (wrapf ''list nodes: '' e), ())
         | Inr nodes \<Rightarrow> (Inr (length (filter isNodeReady nodes) \<ge> nodes_want def), ())))) ()) (\<lambda>(e, _). io_ret e))"

definition waitNodesReady ::
  "'e runtime \<Rightarrow> 'e kube_api \<Rightarrow> ctx \<Rightarrow> cluster_definition \<Rightarrow> int \<Rightarrow> ('e, goerr option) act" where
  "waitNodesReady rt api c def timeout = with_clientset rt api c (waitNodesReadyClient rt api c def timeout)"

section \<open>Docker on the setup node\<close>

definition dockerReadyPoll :: int where "dockerReadyPoll = 10 * second"
definition dockerReadyTimeout :: int where "dockerReadyTimeout = 5 * minute"

definition buildDockerReadyCommand :: string where
  "buildDockerReadyCommand = ''sudo docker info >/dev/null 2>&1''"

definition docker_body ::
  "'e runtime \<Rightarrow> 'e executor \<Rightarrow> ctx \<Rightarrow> int \<Rightarrow> int \<Rightarrow> unit \<Rightarrow> ('e, goerr option + unit) act" where
  "docker_body rt exec c poll timeout u =
     io_bind (exec c buildDockerReadyCommand) (\<lambda>(res, err).
       if err = None \<and> er_exitCode res = 0 then io_ret (Inl None)
       else io_bind (waitFor rt c poll) (\<lambda>d. io_ret (case d of
         Some ctxe \<Rightarrow> Inl (Some (wrapf (''waiting for docker to become ready within '' @ dur_str timeout @ '': '') ctxe))
       | None \<Rightarrow> Inr ())))"

definition waitDockerReady :: "'e runtime \<Rightarrow> 'e executor \<Rightarrow> ctx \<Rightarrow> int \<Rightarrow> int \<Rightarrow> ('e, goerr option) act" where
  "waitDockerReady rt exec c poll timeout =
     (if poll \<le> 0 then io_ret (Some ticker_panic)
      else loop (docker_body rt exec (CtxTimeout c timeout) poll timeout) ())"

section \<open>Polling first, polling last\<close>

text \<open>
  \<^verbatim>\<open>pollUntil\<close> checks once before its loop and then after every tick. That is the same as checking at the
  head of a loop that waits at its end, so the rules of the locale \<open>poller\<close> apply to it.
\<close>

definition until_err :: "int \<Rightarrow> string \<Rightarrow> goerr \<Rightarrow> goerr option \<Rightarrow> goerr" where
  "until_err timeout what ctxe _ = wrapf (''waiting for '' @ what @ '' within '' @ dur_str timeout @ '': '') ctxe"

abbreviation until_loop ::
  "'e runtime \<Rightarrow> ctx \<Rightarrow> int \<Rightarrow> string \<Rightarrow> ('s \<Rightarrow> ('e, (goerr + bool) \<times> 's) act) \<Rightarrow> 's \<Rightarrow> ('e, goerr option \<times> 's) act" where
  "until_loop rt c timeout what check s \<equiv>
     loop (poll_body rt c installPollInterval (until_err timeout what) (io_ret (Inr ())) (\<lambda>s _. check s)) (None, s)"

definition until_from ::
  "'e runtime \<Rightarrow> ctx \<Rightarrow> int \<Rightarrow> string \<Rightarrow> ('s \<Rightarrow> ('e, (goerr + bool) \<times> 's) act) \<Rightarrow> 's \<Rightarrow> ('e, goerr option \<times> 's) act" where
  "until_from rt c timeout what check s = io_bind (check s) (\<lambda>(r, s'). case r of
     Inl err \<Rightarrow> io_ret (Some err, s')
   | Inr True \<Rightarrow> io_ret (None, s')
   | Inr False \<Rightarrow> loop (until_body rt c timeout what check) s')"

lemma until_step:
  "poll_body rt c installPollInterval (until_err timeout what) (io_ret (Inr ())) (\<lambda>s _. check s) (None, s) w =
     (case check s w of None \<Rightarrow> None
      | Some ((Inl err, s'), w1) \<Rightarrow> Some (Inl (Some err, s'), w1)
      | Some ((Inr True, s'), w1) \<Rightarrow> Some (Inl (None, s'), w1)
      | Some ((Inr False, s'), w1) \<Rightarrow> (case waitFor rt c installPollInterval w1 of
          None \<Rightarrow> None
        | Some (Some ctxe, w2) \<Rightarrow> Some (Inl (Some (until_err timeout what ctxe None), s'), w2)
        | Some (None, w2) \<Rightarrow> Some (Inr (None, s'), w2)))"
  by (auto simp: poll_body_def io_simps Let_def split: option.splits sum.splits bool.splits prod.splits)

lemma until_from_step:
  "until_from rt c timeout what check s w =
     (case check s w of None \<Rightarrow> None
      | Some ((Inl err, s'), w1) \<Rightarrow> Some ((Some err, s'), w1)
      | Some ((Inr True, s'), w1) \<Rightarrow> Some ((None, s'), w1)
      | Some ((Inr False, s'), w1) \<Rightarrow> (case waitFor rt c installPollInterval w1 of
          None \<Rightarrow> None
        | Some (Some ctxe, w2) \<Rightarrow> Some ((Some (until_err timeout what ctxe None), s'), w2)
        | Some (None, w2) \<Rightarrow> until_from rt c timeout what check s' w2))"
proof (cases "check s w")
  case (Some x)
  obtain r s' w1 where x: "x = ((r, s'), w1)" by (metis prod.collapse)
  obtain d w2 where d: "waitFor rt c installPollInterval w1 = Some (d, w2)" by (simp add: io_simps)
  show ?thesis
  proof (cases r)
    case (Inr b)
    show ?thesis
    proof (cases b)
      case False
      have "loop (until_body rt c timeout what check) s' w1 =
          (case d of Some ctxe \<Rightarrow> Some ((Some (until_err timeout what ctxe None), s'), w2)
           | None \<Rightarrow> until_from rt c timeout what check s' w2)"
        by (subst loop_unfold)
          (auto simp: until_body_def until_from_def until_err_def io_bind_apply io_ret_apply d
            split: option.splits sum.splits bool.splits prod.splits)
      with Some x Inr False d show ?thesis
        by (subst until_from_def) (auto simp: io_bind_apply split: option.splits)
    qed (use Some x Inr in \<open>simp add: until_from_def io_simps\<close>)
  qed (use Some x in \<open>simp add: until_from_def io_simps\<close>)
qed (simp add: until_from_def io_simps)

lemma until_loop_complete:
  assumes "until_from rt c timeout what check s w = Some x"
  shows "until_loop rt c timeout what check s w = Some x"
proof -
  have tail: "until_loop rt c timeout what check s1 w1 = Some (r, w')"
    if "loop (until_body rt c timeout what check) s' w0 = Some (r, w')"
      "waitFor rt c installPollInterval w0 = Some (None, w1)" "s1 = s'" for s' w0 r w' s1 w1
    using that
  proof (induction arbitrary: w1 s1 rule: loop_induct)
    case (stop s w r w')
    then show ?case
      by (subst loop_unfold)
        (auto simp: until_body_def until_step io_bind_apply io_ret_apply split: option.splits sum.splits bool.splits prod.splits)
  next
    case (step s w s2 w2 r w')
    from step(1) step.prems have "check s w1 = Some ((Inr False, s2), w2)"
      by (auto simp: until_body_def io_bind_apply io_ret_apply split: option.splits sum.splits bool.splits prod.splits)
    moreover obtain d w3 where d: "waitFor rt c installPollInterval w2 = Some (d, w3)" by (simp add: io_simps)
    moreover have "d = Some ctxe \<Longrightarrow> r = (Some (until_err timeout what ctxe None), s2) \<and> w' = w3" for ctxe
      using step(2) d by (subst (asm) loop_unfold) (auto simp: until_body_def until_err_def io_bind_apply io_ret_apply)
    ultimately show ?case
      using step.IH [of w3 s2] step.prems by (subst loop_unfold) (auto simp: until_step split: option.splits)
  qed
  show ?thesis
  proof (cases "\<exists>s' w1. check s w = Some ((Inr False, s'), w1)")
    case True
    then obtain s' w1 where c: "check s w = Some ((Inr False, s'), w1)" by blast
    obtain d w2 where d: "waitFor rt c installPollInterval w1 = Some (d, w2)" by (simp add: io_simps)
    have rest: "loop (until_body rt c timeout what check) s' w1 = Some x"
      using assms c by (simp add: until_from_def io_bind_apply)
    have "d = Some ctxe \<Longrightarrow> x = ((Some (until_err timeout what ctxe None), s'), w2)" for ctxe
      using rest d by (subst (asm) loop_unfold) (auto simp: until_body_def until_err_def io_bind_apply io_ret_apply)
    with c d rest tail [of s' w1 "fst x" "snd x" w2 s'] show ?thesis
      by (subst loop_unfold) (auto simp: until_step split: option.splits)
  next
    case False
    with assms show ?thesis
      by (subst loop_unfold) (auto simp: until_step until_from_step split: option.splits sum.splits bool.splits prod.splits)
  qed
qed

lemma until_loop_sound:
  assumes "until_loop rt c timeout what check s w = Some (r, w')"
  shows "until_from rt c timeout what check s w = Some (r, w')"
proof -
  have "until_from rt c timeout what check (snd v) w = Some (r, w')"
    if "loop (poll_body rt c installPollInterval (until_err timeout what) (io_ret (Inr ())) (\<lambda>s _. check s)) v w = Some (r, w')"
      "fst v = None" for v w r w'
    using that
  proof (induction rule: loop_induct)
    case (stop v w r w')
    then have "v = (None, snd v)" by (metis prod.collapse)
    with stop(1) have "poll_body rt c installPollInterval (until_err timeout what) (io_ret (Inr ())) (\<lambda>s _. check s) (None, snd v) w =
        Some (Inl r, w')" by metis
    then show ?case
      by (subst until_from_step) (auto simp: until_step split: option.splits sum.splits bool.splits prod.splits)
  next
    case (step v w v1 w1 r w')
    then have "v = (None, snd v)" by (metis prod.collapse)
    with step(1) have b: "poll_body rt c installPollInterval (until_err timeout what) (io_ret (Inr ())) (\<lambda>s _. check s) (None, snd v) w =
        Some (Inr v1, w1)" by metis
    then have "fst v1 = None"
      by (auto simp: until_step split: option.splits sum.splits bool.splits prod.splits)
    with step.IH b show ?case
      by (subst until_from_step) (auto simp: until_step split: option.splits sum.splits bool.splits prod.splits)
  qed
  from this [of "(None, s)"] assms show ?thesis by simp
qed

lemma pollUntil_poll_loop:
  "pollUntil rt c timeout what check s =
     poll_loop rt (CtxTimeout c timeout) installPollInterval (until_err timeout what) (io_ret (Inr ())) (\<lambda>s _. check s) s"
proof
  fix w
  let ?c = "CtxTimeout c timeout"
  have "until_from rt ?c timeout what check s w = until_loop rt ?c timeout what check s w"
  proof (cases "until_loop rt ?c timeout what check s w")
    case None
    with until_loop_complete [of rt ?c timeout what check s w] show ?thesis
      by (cases "until_from rt ?c timeout what check s w") auto
  next
    case (Some x)
    with until_loop_sound [of rt ?c timeout what check s w "fst x" "snd x"] show ?thesis by simp
  qed
  then show "pollUntil rt c timeout what check s w =
      poll_loop rt ?c installPollInterval (until_err timeout what) (io_ret (Inr ())) (\<lambda>s _. check s) s w"
    by (simp add: pollUntil_def until_from_def poll_loop_def installPollInterval_def second_def Let_def)
qed

lemma pollUntil_calls [calls_intros]:
  "(\<And>s. only_calls P (check s)) \<Longrightarrow> P (Waited (CtxTimeout c timeout) installPollInterval) \<Longrightarrow>
     only_calls P (pollUntil rt c timeout what check s)"
  unfolding pollUntil_poll_loop by (intro any_poll.calls calls_intros)

lemma pollUntil_triple:
  assumes "\<And>s. triple (I s) (check s) (\<lambda>y t. case fst y of Inl e \<Rightarrow> K (snd y) t | Inr b \<Rightarrow> if b then Q (snd y) t else I (snd y) t)"
    and "\<And>s t. I s t \<Longrightarrow> I s (t @ [Waited (CtxTimeout c timeout) installPollInterval])"
    and "\<And>s t. I s t \<Longrightarrow> K s t"
  shows "triple (I s) (pollUntil rt c timeout what check s) (\<lambda>x t. if fst x = None then Q (snd x) t else K (snd x) t)"
  unfolding pollUntil_poll_loop
  by (rule any_poll.poll_triple [where J = "\<lambda>s _. I s"]) (use assms in \<open>auto intro: triple_ret\<close>)

text \<open>It returns when the outside bounds the number of ticks before the context ends.\<close>

lemma pollUntil_returns:
  assumes check: "\<And>s w. I w \<Longrightarrow> \<exists>r w'. check s w = Some (r, w') \<and> I w' \<and> left (est w') \<le> left (est w)"
    and tick: "\<And>w. I w \<Longrightarrow> fst (rt_select rt (CtxTimeout c timeout) installPollInterval (est w)) = None \<Longrightarrow>
       left (snd (rt_select rt (CtxTimeout c timeout) installPollInterval (est w))) < (left (est w) :: nat)"
    and inv: "\<And>w d w'. I w \<Longrightarrow> waitFor rt (CtxTimeout c timeout) installPollInterval w = Some (d, w') \<Longrightarrow> I w'"
    and start: "I w"
  shows "\<exists>r w'. pollUntil rt c timeout what check s w = Some (r, w')"
  unfolding pollUntil_poll_loop
  by (rule any_poll.returns [where I = I and left = left]) (use assms in \<open>auto simp: io_ret_apply\<close>)

section \<open>What the waits have seen\<close>

lemma check_control_plane_ok:
  "check_control_plane ns k = Inr m \<Longrightarrow>
     (\<forall>n \<in> set ns. isControlPlaneNode n \<longrightarrow> isNodeReady n) \<and> m = k + length (filter isControlPlaneNode ns)"
proof (induction ns arbitrary: k)
  case (Cons n ns)
  then show ?case by (cases "isControlPlaneNode n"; cases "isNodeReady n") force+
qed simp

definition healthy_pair :: "event list \<Rightarrow> bool" where
  "healthy_pair t \<longleftrightarrow> (\<exists>a nodes dep. t = a @ [NodesList (Inr nodes), DeploymentGet deckhouseNamespace deckhouseDeploymentName (Inr dep)] \<and>
     (\<exists>n \<in> set nodes. isControlPlaneNode n) \<and> (\<forall>n \<in> set nodes. isControlPlaneNode n \<longrightarrow> isNodeReady n) \<and>
     isDeploymentAvailable dep)"

lemma healthy_pair_after: "healthy_pair u \<Longrightarrow> healthy_pair (v @ u)"
  unfolding healthy_pair_def by (metis append_assoc)

lemma checkHealth_trace:
  assumes "checkHealthClient api c w = Some (None, w')"
  shows "\<exists>u. tr w' = tr w @ u \<and> healthy_pair u"
proof -
  from assms obtain nodes dep cp where "tr w' = tr w @ [NodesList (Inr nodes), DeploymentGet deckhouseNamespace deckhouseDeploymentName (Inr dep)]"
    "check_control_plane nodes 0 = Inr cp" "cp > 0" "isDeploymentAvailable dep"
    by (auto simp: checkHealthClient_def io_simps split: sum.splits if_splits)
  with check_control_plane_ok [of nodes 0 cp] show ?thesis
    by (auto simp: healthy_pair_def filter_empty_conv)
qed

lemma check_health_triple:
  "triple (\<lambda>_. True) (checkHealthClient api c) (\<lambda>e t. e = None \<longrightarrow> healthy_pair t)"
proof (rule tripleI, rule impI)
  fix w e w'
  assume "checkHealthClient api c w = Some (e, w')" and "e = None"
  with checkHealth_trace obtain u where "tr w' = tr w @ u" "healthy_pair u" by metis
  then show "healthy_pair (tr w')" by (simp add: healthy_pair_after)
qed

lemma waitClusterHealthyClient_triple:
  "triple (\<lambda>_. True) (waitClusterHealthyClient rt api c timeout) (\<lambda>e t. e = None \<longrightarrow> healthy_pair t)"
  unfolding waitClusterHealthyClient_def
proof (rule triple_bind)
  show "triple (\<lambda>_. True) (pollUntil rt c timeout ''cluster to become healthy''
      (\<lambda>lastErr. io_bind (checkHealthClient api c) (\<lambda>e. io_ret (Inr (e = None), e))) None)
      (\<lambda>x t. if fst x = None then healthy_pair t else True)"
    by (rule pollUntil_triple [where I = "\<lambda>_ _. True" and Q = "\<lambda>_. healthy_pair" and K = "\<lambda>_ _. True"])
      (auto intro!: triple_bind [OF check_health_triple] triple_ret)
qed (auto intro!: triple_ret simp: last_check_err_def split: prod.splits option.splits)

definition secrets_seen :: "string list \<Rightarrow> event list \<Rightarrow> bool" where
  "secrets_seen names t \<longleftrightarrow> (\<exists>a ds. length ds = length names \<and>
     t = a @ map2 (\<lambda>n d. SecretGet bootstrapSecretNamespace n (Inr d)) names ds)"

lemma secrets_present_trace:
  "secrets_present api c names w = Some (Inr True, w') \<Longrightarrow>
     \<exists>ds. length ds = length names \<and> tr w' = tr w @ map2 (\<lambda>n d. SecretGet bootstrapSecretNamespace n (Inr d)) names ds"
proof (induction names arbitrary: w)
  case (Cons n names)
  let ?w1 = "\<lambda>d. w\<lparr>tr := tr w @ [SecretGet bootstrapSecretNamespace n (Inr d)],
    est := snd (ka_secret api c bootstrapSecretNamespace n (est w))\<rparr>"
  from Cons.prems obtain d where "secrets_present api c names (?w1 d) = Some (Inr True, w')"
    by (auto simp: io_simps split: sum.splits if_splits)
  from Cons.IH [OF this] obtain ds where "length (d # ds) = length (n # names)"
    "tr w' = tr w @ map2 (\<lambda>n d. SecretGet bootstrapSecretNamespace n (Inr d)) (n # names) (d # ds)" by auto
  then show ?case by blast
qed (simp add: io_simps)

lemma secrets_readable_trace:
  "secrets_readable api c names w = Some (True, w') \<Longrightarrow>
     \<exists>ds. length ds = length names \<and> tr w' = tr w @ map2 (\<lambda>n d. SecretGet bootstrapSecretNamespace n (Inr d)) names ds"
proof (induction names arbitrary: w)
  case (Cons n names)
  let ?w1 = "\<lambda>d. w\<lparr>tr := tr w @ [SecretGet bootstrapSecretNamespace n (Inr d)],
    est := snd (ka_secret api c bootstrapSecretNamespace n (est w))\<rparr>"
  from Cons.prems obtain d where "secrets_readable api c names (?w1 d) = Some (True, w')"
    by (auto simp: io_simps split: sum.splits if_splits)
  from Cons.IH [OF this] obtain ds where "length (d # ds) = length (n # names)"
    "tr w' = tr w @ map2 (\<lambda>n d. SecretGet bootstrapSecretNamespace n (Inr d)) (n # names) (d # ds)" by auto
  then show ?case by blast
qed (simp add: io_simps)

lemma waitBootstrapSecretsClient_triple:
  "triple (\<lambda>_. True) (waitBootstrapSecretsClient rt api c timeout) (\<lambda>e t. e = None \<longrightarrow> secrets_seen bootstrapSecrets t)"
  unfolding waitBootstrapSecretsClient_def
proof (rule triple_bind)
  have "triple (\<lambda>_. True) (secrets_present api c bootstrapSecrets)
      (\<lambda>r t. r = Inr True \<longrightarrow> secrets_seen bootstrapSecrets t)"
    unfolding secrets_seen_def by (rule tripleI) (blast dest: secrets_present_trace)
  then show "triple (\<lambda>_. True) (pollUntil rt c timeout ''bootstrap secrets''
      (\<lambda>_. io_bind (secrets_present api c bootstrapSecrets) (\<lambda>r. io_ret (r, ()))) ())
      (\<lambda>x t. if fst x = None then secrets_seen bootstrapSecrets t else True)"
    by (intro pollUntil_triple [where I = "\<lambda>_ _. True" and Q = "\<lambda>_. secrets_seen bootstrapSecrets" and K = "\<lambda>_ _. True"])
      (auto intro!: triple_bind triple_ret split: sum.splits)
qed (auto intro!: triple_ret triple_intros split: prod.splits)

text \<open>An existing installation is ready: the reads of the secrets directly follow those of a healthy cluster.\<close>

definition existing_ready :: "event list \<Rightarrow> bool" where
  "existing_ready t \<longleftrightarrow> (\<exists>a ds. healthy_pair a \<and> length ds = length bootstrapSecrets \<and>
     t = a @ map2 (\<lambda>n d. SecretGet bootstrapSecretNamespace n (Inr d)) bootstrapSecrets ds)"

lemma waitExistingInstallReadyClient_triple:
  "triple (\<lambda>_. True) (waitExistingInstallReadyClient rt api c timeout) (\<lambda>e t. e = None \<longrightarrow> existing_ready t)"
  unfolding waitExistingInstallReadyClient_def
proof (rule triple_bind)
  have "triple healthy_pair (secrets_readable api c bootstrapSecrets) (\<lambda>b t. b \<longrightarrow> existing_ready t)"
    by (rule tripleI) (use secrets_readable_trace in \<open>fastforce simp: existing_ready_def\<close>)
  then have "triple (\<lambda>t. e = None \<longrightarrow> healthy_pair t) (case e of Some _ \<Rightarrow> io_ret (Inr False, ())
      | None \<Rightarrow> io_bind (secrets_readable api c bootstrapSecrets) (\<lambda>b. io_ret (Inr b, ())))
      (\<lambda>y t. case fst y of Inl _ \<Rightarrow> True | Inr b \<Rightarrow> if b then existing_ready t else True)" for e :: "goerr option"
    by (cases e) (auto intro!: triple_bind triple_ret)
  from triple_bind [OF check_health_triple this]
  show "triple (\<lambda>_. True) (pollUntil rt c timeout ''existing Deckhouse installation to become healthy''
      (\<lambda>_. io_bind (checkHealthClient api c) (\<lambda>e. case e of Some _ \<Rightarrow> io_ret (Inr False, ())
        | None \<Rightarrow> io_bind (secrets_readable api c bootstrapSecrets) (\<lambda>b. io_ret (Inr b, ())))) ())
      (\<lambda>x t. if fst x = None then existing_ready t else True)"
    by (intro pollUntil_triple [where I = "\<lambda>_ _. True" and Q = "\<lambda>_. existing_ready" and K = "\<lambda>_ _. True"])
      (assumption | simp)+
qed (auto intro!: triple_ret split: prod.splits)

definition nodes_seen_ready :: "nat \<Rightarrow> event list \<Rightarrow> bool" where
  "nodes_seen_ready k t \<longleftrightarrow> (\<exists>a nodes. t = a @ [NodesList (Inr nodes)] \<and> k \<le> length (filter isNodeReady nodes))"

lemma waitNodesReadyClient_triple:
  "triple (\<lambda>_. True) (waitNodesReadyClient rt api c def timeout)
     (\<lambda>e t. e = None \<longrightarrow> 0 < nodes_want def \<and> nodes_seen_ready (nodes_want def) t)"
  unfolding waitNodesReadyClient_def
proof (rule triple_if)
  assume pos: "nodes_want def \<noteq> 0"
  let ?check = "\<lambda>_ :: unit. io_bind (call NodesList (ka_nodes api c)) (\<lambda>g. io_ret (case g of
           Inl e \<Rightarrow> (Inl (wrapf ''list nodes: '' e), ())
         | Inr nodes \<Rightarrow> (Inr (length (filter isNodeReady nodes) \<ge> nodes_want def), ())))"
  have "triple (\<lambda>_. True) (?check s)
     (\<lambda>y t. case fst y of Inl e \<Rightarrow> True | Inr b \<Rightarrow> if b then nodes_seen_ready (nodes_want def) t else True)" for s
    by (rule tripleI) (auto simp: io_simps nodes_seen_ready_def split: sum.splits)
  then have "triple (\<lambda>_. True) (pollUntil rt c timeout what ?check ())
      (\<lambda>x t. if fst x = None then nodes_seen_ready (nodes_want def) t else True)" for what
    by (rule pollUntil_triple [where I = "\<lambda>_ _. True" and Q = "\<lambda>_. nodes_seen_ready (nodes_want def)" and K = "\<lambda>_ _. True"]) auto
  then show "triple (\<lambda>_. True) (io_bind (pollUntil rt c timeout (nat_str (nodes_want def) @ '' nodes ready'') ?check ())
      (\<lambda>(e, _). io_ret e)) (\<lambda>e t. e = None \<longrightarrow> 0 < nodes_want def \<and> nodes_seen_ready (nodes_want def) t)"
    by (rule triple_bind) (use pos in \<open>auto intro!: triple_ret split: prod.splits\<close>)
qed (auto intro: triple_ret)

text \<open>
  C31. What each of the four waits of the installation has just observed when it succeeds: a healthy cluster has a
  control plane whose nodes are all Ready, and then an Available Deckhouse deployment; the bootstrap
  secrets were both read, one right after the other; an existing installation was healthy in this sense and both
  secrets were read directly after that; and at least as many nodes as the definition
  declares were Ready in one list.\<close>

theorem install_waits_sound:
  "(waitClusterHealthyClient rt api c timeout w = Some (None, w') \<longrightarrow> healthy_pair (tr w')) \<and>
   (waitBootstrapSecretsClient rt api c timeout w = Some (None, w') \<longrightarrow> secrets_seen bootstrapSecrets (tr w')) \<and>
   (waitExistingInstallReadyClient rt api c timeout w = Some (None, w') \<longrightarrow> existing_ready (tr w')) \<and>
   (waitNodesReadyClient rt api c def timeout w = Some (None, w') \<longrightarrow>
      0 < nodes_want def \<and> nodes_seen_ready (nodes_want def) (tr w'))"
  using tripleD [OF waitClusterHealthyClient_triple [of rt api c timeout]]
    tripleD [OF waitBootstrapSecretsClient_triple [of rt api c timeout]]
    tripleD [OF waitExistingInstallReadyClient_triple [of rt api c timeout]]
    tripleD [OF waitNodesReadyClient_triple [of rt api c def timeout]] by blast


section \<open>The waits end\<close>

text \<open>
  \<open>bounded_ticks left rt c\<close>: the timer of the waits fires at most \<open>left\<close> more times before the context is
  done. \<open>reads_keep left api c\<close>: answering a request does not give the waits more time.
\<close>

definition bounded_ticks :: "('e \<Rightarrow> nat) \<Rightarrow> 'e runtime \<Rightarrow> ctx \<Rightarrow> bool" where
  "bounded_ticks left rt c \<longleftrightarrow> (\<forall>s. fst (rt_select rt c installPollInterval s) = None \<longrightarrow>
     left (snd (rt_select rt c installPollInterval s)) < left s)"

definition reads_keep :: "('e \<Rightarrow> nat) \<Rightarrow> 'e kube_api \<Rightarrow> ctx \<Rightarrow> bool" where
  "reads_keep left api c \<longleftrightarrow> (\<forall>s. left (snd (ka_nodes api c s)) \<le> left s \<and>
     (\<forall>ns n. left (snd (ka_deployment api c ns n s)) \<le> left s) \<and> (\<forall>ns n. left (snd (ka_secret api c ns n s)) \<le> left s))"

lemma check_health_returns:
  "reads_keep left api c \<Longrightarrow> \<exists>r w'. checkHealthClient api c w = Some (r, w') \<and> left (est w') \<le> left (est w)"
  by (auto simp: checkHealthClient_def io_simps reads_keep_def split: sum.splits)
    (metis le_trans)+

lemma secrets_present_returns:
  "reads_keep left api c \<Longrightarrow> \<exists>r w'. secrets_present api c names w = Some (r, w') \<and> left (est w') \<le> left (est w)"
proof (induction names arbitrary: w)
  case (Cons n names)
  let ?w1 = "\<lambda>d. w\<lparr>tr := tr w @ [SecretGet bootstrapSecretNamespace n (Inr d)],
    est := snd (ka_secret api c bootstrapSecretNamespace n (est w))\<rparr>"
  have le: "left (est (?w1 d)) \<le> left (est w)" for d using Cons.prems by (simp add: reads_keep_def)
  show ?case
  proof (cases "fst (ka_secret api c bootstrapSecretNamespace n (est w))")
    case (Inr d)
    from Cons.IH [OF Cons.prems, of "?w1 d"] Inr le [of d] show ?thesis
      by (auto simp: io_bind_apply call_apply intro: order_trans)
  qed (use le in \<open>simp add: io_simps\<close>)
qed (simp add: io_simps)

lemma returns_bind:
  "\<exists>r w'. m w = Some (r, w') \<Longrightarrow> (\<And>r w. \<exists>x w'. f r w = Some (x, w')) \<Longrightarrow> \<exists>x w'. io_bind m f w = Some (x, w')"
  by (auto simp: io_bind_apply)

lemma pollUntil_ends:
  assumes "bounded_ticks left rt (CtxTimeout c timeout)"
    and "\<And>s w. \<exists>r w'. check s w = Some (r, w') \<and> left (est w') \<le> left (est w)"
  shows "\<exists>r w'. pollUntil rt c timeout what check s w = Some (r, w')"
  by (rule pollUntil_returns [where I = "\<lambda>_. True" and left = left]) (use assms in \<open>auto simp: bounded_ticks_def\<close>)

text \<open>
  Every wait of the installation ends: whatever the cluster answers, if the timer can only fire
  finitely often before the context is done, the waits for a healthy cluster, for the bootstrap
  secrets and for the nodes return.\<close>

lemma install_waits_return:
  assumes ticks: "bounded_ticks left rt (CtxTimeout c timeout)" and reads: "reads_keep left api c"
  shows "(\<exists>e w'. waitClusterHealthyClient rt api c timeout w = Some (e, w')) \<and>
    (\<exists>e w'. waitBootstrapSecretsClient rt api c timeout w = Some (e, w')) \<and>
    (\<exists>e w'. waitNodesReadyClient rt api c def timeout w = Some (e, w'))"
proof (intro conjI)
  let ?check = "\<lambda>lastErr. io_bind (checkHealthClient api c) (\<lambda>e. io_ret (Inr (e = None), e))"
  have "\<exists>r w'. ?check s w = Some (r, w') \<and> left (est w') \<le> left (est w)" for s :: "goerr option" and w
    using check_health_returns [OF reads, of w] by (auto simp: io_bind_apply io_ret_apply)
  from pollUntil_ends [OF ticks this, of "''cluster to become healthy''" None w]
  show "\<exists>e w'. waitClusterHealthyClient rt api c timeout w = Some (e, w')"
    unfolding waitClusterHealthyClient_def by (rule returns_bind) (simp add: io_ret_apply)
next
  let ?check = "\<lambda>_. io_bind (secrets_present api c bootstrapSecrets) (\<lambda>r. io_ret (r, ()))"
  have "\<exists>r w'. ?check s w = Some (r, w') \<and> left (est w') \<le> left (est w)" for s :: unit and w
    using secrets_present_returns [OF reads, of bootstrapSecrets w] by (auto simp: io_bind_apply io_ret_apply)
  from pollUntil_ends [OF ticks this, of "''bootstrap secrets''" "()" w]
  show "\<exists>e w'. waitBootstrapSecretsClient rt api c timeout w = Some (e, w')"
    unfolding waitBootstrapSecretsClient_def by (rule returns_bind) (simp add: io_ret_apply split: prod.splits)
next
  let ?check = "\<lambda>_ :: unit. io_bind (call NodesList (ka_nodes api c)) (\<lambda>g. io_ret (case g of
           Inl e \<Rightarrow> (Inl (wrapf ''list nodes: '' e), ())
         | Inr nodes \<Rightarrow> (Inr (length (filter isNodeReady nodes) \<ge> nodes_want def), ())))"
  have "\<exists>r w'. ?check s w = Some (r, w') \<and> left (est w') \<le> left (est w)" for s w
    using reads by (simp add: io_simps reads_keep_def split: sum.splits)
  from pollUntil_ends [OF ticks this, of "nat_str (nodes_want def) @ '' nodes ready''" "()" w]
  have "\<exists>e w'. io_bind (pollUntil rt c timeout (nat_str (nodes_want def) @ '' nodes ready'') ?check ()) (\<lambda>(e, _). io_ret e) w = Some (e, w')"
    by (rule returns_bind) (simp add: io_ret_apply split: prod.splits)
  then show "\<exists>e w'. waitNodesReadyClient rt api c def timeout w = Some (e, w')"
    unfolding waitNodesReadyClient_def by (simp add: io_ret_apply del: io_bind_apply)
qed

subsection \<open>A cluster that becomes healthy\<close>

text \<open>The outside counts the ticks that are left; the nodes become Ready when three are left.\<close>

definition countdown_rt :: "nat runtime" where
  "countdown_rt = \<lparr>rt_now = (\<lambda>s. (0, s)), rt_ctxErr = (\<lambda>c s. (None, s)),
     rt_select = (\<lambda>c d s. (if s = 0 then Some ErrDeadline else None, s - 1)), rt_order = (\<lambda>s i. i)\<rparr>"

definition no_kind :: "('e, 'o) kind_ops" where
  "no_kind = \<lparr>ko_get = (\<lambda>c ns n s. (Inl ErrEOF, s)), ko_list = (\<lambda>c ns s. (Inl ErrEOF, s)),
     ko_create = (\<lambda>c x s. (Some ErrEOF, s)), ko_update = (\<lambda>c x s. (Some ErrEOF, s)), ko_delete = (\<lambda>c ns n s. (Some ErrEOF, s))\<rparr>"

definition no_virt :: "'e virt_api" where
  "no_virt = \<lparr>va_addV2 = None, va_addV3 = None, va_new = (\<lambda>s. (None, s)), va_vm = no_kind, va_vd = no_kind,
     va_cvi = no_kind, va_class = no_kind, va_ba = no_kind, va_readyType = [], va_kindVirtualDisk = []\<rparr>"

definition no_deckhouse :: "'e deckhouse_api" where
  "no_deckhouse = \<lparr>da_addV1 = None, da_addV2 = None, da_new = (\<lambda>s. (None, s)), da_getModule = (\<lambda>c n s. (Inl ErrEOF, s)),
     da_getMC = (\<lambda>c n s. (Inl ErrEOF, s)), da_createMC = (\<lambda>c x s. (Some ErrEOF, s)), da_updateMC = (\<lambda>c x s. (Some ErrEOF, s)),
     da_getMPO = (\<lambda>c n s. (Inl ErrEOF, s)), da_createMPO = (\<lambda>c x s. (Some ErrEOF, s)), da_updateMPO = (\<lambda>c x s. (Some ErrEOF, s)),
     da_phaseReady = ''Ready'', da_condIsReady = ''IsReady''\<rparr>"

definition master_node :: "bool \<Rightarrow> knode" where
  "master_node ok = \<lparr>node_name = ''m'', node_resourceVersion = [], node_labels = [''node-role.kubernetes.io/control-plane'' \<mapsto> []], node_taints = [],
     node_conditions = [\<lparr>cond_type = ''Ready'', cond_status = (if ok then ''True'' else ''False''), cond_reason = [], cond_message = []\<rparr>]\<rparr>"

definition available :: "condition list" where
  "available = [\<lparr>cond_type = ''Available'', cond_status = ''True'', cond_reason = [], cond_message = []\<rparr>]"

definition healing_kube :: "nat kube_api" where
  "healing_kube = \<lparr>ka_newForConfig = (\<lambda>s. (None, s)), ka_serverVersion = (\<lambda>s. (None, s)), ka_newDynamic = (\<lambda>s. (None, s)),
     ka_getVersion = (\<lambda>c s. (None, s)), ka_getNamespace = (\<lambda>c n s. (None, s)), ka_createNamespace = (\<lambda>c n s. (None, s)),
     ka_deleteNamespace = (\<lambda>c n s. (None, s)), ka_getNodeGroup = (\<lambda>c n s. (None, s)), ka_createNodeGroup = (\<lambda>c n ty s. (None, s)),
     ka_nodes = (\<lambda>c s. (Inr [master_node (s \<le> 3)], s)),
     ka_secret = (\<lambda>c ns n s. (Inr [bootstrapScriptKey \<mapsto> ''true''], s)),
     ka_deployment = (\<lambda>c ns n s. (Inr available, s)), ka_virt = no_virt, ka_deckhouse = no_deckhouse\<rparr>"

lemma healing_ticks: "bounded_ticks (\<lambda>s. s) countdown_rt (CtxTimeout CtxRoot second)"
  by (simp add: bounded_ticks_def countdown_rt_def)

lemma healing_reads: "reads_keep (\<lambda>s. s) healing_kube CtxRoot"
  by (simp add: reads_keep_def healing_kube_def)

lemmas healing_defs = pollUntil_def loop_unfold until_body_def checkHealthClient_def
  healing_kube_def countdown_rt_def master_node_def available_def isNodeReady_def isControlPlaneNode_def
  controlPlaneNodeLabels_def isDeploymentAvailable_def last_check_err_def bootstrapSecrets_def io_simps Let_def

theorem install_waits_sound_witness:
  "(\<exists>w'. waitClusterHealthyClient countdown_rt healing_kube CtxRoot second \<lparr>tr = [], est = 4\<rparr> = Some (None, w') \<and> healthy_pair (tr w')) \<and>
   (\<exists>w'. waitBootstrapSecretsClient countdown_rt healing_kube CtxRoot second \<lparr>tr = [], est = 4\<rparr> = Some (None, w') \<and>
      secrets_seen bootstrapSecrets (tr w')) \<and>
   (\<exists>w'. waitExistingInstallReadyClient countdown_rt healing_kube CtxRoot second \<lparr>tr = [], est = 4\<rparr> = Some (None, w') \<and>
      existing_ready (tr w'))"
proof (intro conjI)
  have "\<exists>w'. waitClusterHealthyClient countdown_rt healing_kube CtxRoot second \<lparr>tr = [], est = 4\<rparr> = Some (None, w')"
    by (simp add: waitClusterHealthyClient_def healing_defs)
  with install_waits_sound
  show "\<exists>w'. waitClusterHealthyClient countdown_rt healing_kube CtxRoot second \<lparr>tr = [], est = 4\<rparr> = Some (None, w') \<and> healthy_pair (tr w')"
    by blast
  have "\<exists>w'. waitBootstrapSecretsClient countdown_rt healing_kube CtxRoot second \<lparr>tr = [], est = 4\<rparr> = Some (None, w')"
    by (simp add: waitBootstrapSecretsClient_def healing_defs)
  with install_waits_sound
  show "\<exists>w'. waitBootstrapSecretsClient countdown_rt healing_kube CtxRoot second \<lparr>tr = [], est = 4\<rparr> = Some (None, w') \<and>
      secrets_seen bootstrapSecrets (tr w')" by blast
  have "\<exists>w'. waitExistingInstallReadyClient countdown_rt healing_kube CtxRoot second \<lparr>tr = [], est = 4\<rparr> = Some (None, w')"
    by (simp add: waitExistingInstallReadyClient_def healing_defs)
  with install_waits_sound
  show "\<exists>w'. waitExistingInstallReadyClient countdown_rt healing_kube CtxRoot second \<lparr>tr = [], est = 4\<rparr> = Some (None, w') \<and>
      existing_ready (tr w')" by blast
qed

end
