(* ===== verification/Node_Join.thy ===== *)
theory Node_Join
  imports Install
begin

text \<open>
  \<^verbatim>\<open>internal/provisioning/dvp/nodes.go\<close>: the nodes of a cluster that are not registered yet run the
  bootstrap script of their group. Connections to machines are opened through the interface
  \<^verbatim>\<open>baseConnector\<close>, whose contract is the locale \<open>base_connector\<close>; the account of open connections that
  the provider is checked against starts here.
\<close>

section \<open>Joining nodes\<close>

text \<open>
  \<^verbatim>\<open>baseConnector.VMExecutor\<close>: an open session is a function that runs commands and one that closes it.
\<close>

type_synonym 'e vm_executor = "ctx \<Rightarrow> string \<Rightarrow> ('e, goerr + ('e executor \<times> ('e, unit) act)) act"

definition joinRetryCount :: nat where "joinRetryCount = 10"
definition joinRetryInitialDelay :: int where "joinRetryInitialDelay = 2 * second"
definition joinRetryMaxDelay :: int where "joinRetryMaxDelay = 60 * second"

definition joinRetryMarkers :: "string list" where
  "joinRetryMarkers = [''HTTP Error 401'', ''Unauthorized'', ''Connection refused'']"

definition buildNodeBootstrapCommand :: "string \<Rightarrow> string" where
  "buildNodeBootstrapCommand script =
     ''sudo bash <<'' @ [squote] @ ''BOOTSTRAP_EOF'' @ [squote, nl] @ script @ [nl] @ ''BOOTSTRAP_EOF''"

definition isRetryableJoinError :: "exec_result \<Rightarrow> goerr option \<Rightarrow> bool" where
  "isRetryableJoinError res err \<longleftrightarrow> err \<noteq> None \<and>
     list_ex (str_contains (er_stdout res @ [nl] @ er_stderr res)) joinRetryMarkers"

definition join_backoff :: "nat \<Rightarrow> int" where
  "join_backoff attempt = min (joinRetryInitialDelay * 2 ^ (attempt - 1)) joinRetryMaxDelay"

definition join_failed :: "string \<Rightarrow> nat \<Rightarrow> goerr \<Rightarrow> goerr" where
  "join_failed host attempt e = wrapf (''join node '' @ host @ '' after '' @ nat_str attempt @ '' attempt(s): '') e"

text \<open>\<open>left\<close> iterations of the loop remain; after the last one the error is returned inside the loop.\<close>

fun join_attempts ::
  "'e runtime \<Rightarrow> 'e executor \<Rightarrow> ctx \<Rightarrow> string \<Rightarrow> string \<Rightarrow> nat \<Rightarrow> nat \<Rightarrow> goerr option \<Rightarrow> ('e, goerr option) act" where
  "join_attempts rt exec c host cmd attempt 0 lastErr =
     io_ret (Some (join_failed host joinRetryCount (case lastErr of None \<Rightarrow> ErrText ''%!w(<nil>)'' | Some e \<Rightarrow> e)))"
| "join_attempts rt exec c host cmd attempt (Suc left) lastErr =
     io_bind (exec c cmd) (\<lambda>(res, execErr).
       if execErr = None \<and> er_exitCode res = 0 then io_ret None
       else let lastErr' = (case execErr of Some e \<Rightarrow> e
           | None \<Rightarrow> ErrText (''bootstrap script exited with code '' @ itoa (er_exitCode res))) in
         if \<not> isRetryableJoinError res execErr \<or> attempt = joinRetryCount
         then io_ret (Some (join_failed host attempt lastErr'))
         else io_bind (waitFor rt c (join_backoff attempt)) (\<lambda>d. case d of
             Some ctxe \<Rightarrow> io_ret (Some (wrapf (''join node '' @ host @ '': '') ctxe))
           | None \<Rightarrow> join_attempts rt exec c host cmd (attempt + 1) left (Some lastErr')))"

definition joinNode :: "'e runtime \<Rightarrow> 'e vm_executor \<Rightarrow> ctx \<Rightarrow> cluster_node \<Rightarrow> string \<Rightarrow> ('e, goerr option) act" where
  "joinNode rt vmExecutor c node script =
     (if IPAddress node = [] then io_ret (Some (ErrText (''join node '' @ Hostname node @ '': IP address is not set'')))
      else io_bind (vmExecutor c (IPAddress node)) (\<lambda>r. case r of
        Inl e \<Rightarrow> io_ret (Some (wrapf (''join node '' @ Hostname node @ '': connect: '') e))
      | Inr (exec, closeExec) \<Rightarrow> io_finally
          (join_attempts rt exec c (Hostname node) (buildNodeBootstrapCommand script) 1 joinRetryCount None) closeExec))"

definition registeredNodeNames :: "'e kube_api \<Rightarrow> ctx \<Rightarrow> ('e, goerr + string list) act" where
  "registeredNodeNames api c =
     io_bind (call NodesList (ka_nodes api c)) (\<lambda>g. io_ret (case g of
       Inl e \<Rightarrow> Inl (wrapf ''list cluster nodes: '' e) | Inr nodes \<Rightarrow> Inr (map node_name nodes)))"

definition getBootstrapScript :: "'e kube_api \<Rightarrow> ctx \<Rightarrow> string \<Rightarrow> ('e, goerr + string) act" where
  "getBootstrapScript api c secretName =
     (let id = bootstrapSecretNamespace @ ''/'' @ secretName in
      io_bind (getSecret api c secretName) (\<lambda>g. io_ret (case g of
        Inl e \<Rightarrow> if has_reason NotFound e then Inl (ErrText (''bootstrap secret '' @ id @ '' not found''))
          else Inl (wrapf (''get bootstrap secret '' @ id @ '': '') e)
      | Inr data \<Rightarrow> (case data bootstrapScriptKey of
          Some script \<Rightarrow> if script = [] then Inl (ErrText (''bootstrap secret '' @ id @ '' has no '' @ go_quote bootstrapScriptKey @ '' key''))
            else Inr script
        | None \<Rightarrow> Inl (ErrText (''bootstrap secret '' @ id @ '' has no '' @ go_quote bootstrapScriptKey @ '' key''))))))"

definition pending_nodes :: "string list \<Rightarrow> cluster_node list \<Rightarrow> cluster_node list" where
  "pending_nodes registered nodes = filter (\<lambda>n. Hostname n \<notin> set registered) nodes"

text \<open>The joins of one group of nodes: none, or all with the script of their secret.\<close>

definition group_joins ::
  "'e kube_api \<Rightarrow> ctx \<Rightarrow> string \<Rightarrow> cluster_node list \<Rightarrow> ('e, goerr + (cluster_node \<times> string) list) act" where
  "group_joins api c secretName nodes =
     (if nodes = [] then io_ret (Inr [])
      else io_bind (getBootstrapScript api c secretName) (\<lambda>r. io_ret (case r of
        Inl e \<Rightarrow> Inl e | Inr script \<Rightarrow> Inr (map (\<lambda>n. (n, script)) nodes))))"

definition joinNodesWithClient ::
  "'e runtime \<Rightarrow> 'e vm_executor \<Rightarrow> 'e kube_api \<Rightarrow> ctx \<Rightarrow> cluster_definition \<Rightarrow> ('e, goerr option) act" where
  "joinNodesWithClient rt vmExecutor api c def =
     (let extraMasters = tl (Masters def) in
      if extraMasters = [] \<and> Workers def = [] then io_ret None
      else io_bind (registeredNodeNames api c) (\<lambda>r. case r of
        Inl e \<Rightarrow> io_ret (Some e)
      | Inr registered \<Rightarrow>
          io_bind (group_joins api c workerBootstrapSecret (pending_nodes registered (Workers def))) (\<lambda>w. case w of
            Inl e \<Rightarrow> io_ret (Some e)
          | Inr workers \<Rightarrow>
              io_bind (group_joins api c masterBootstrapSecret (pending_nodes registered extraMasters)) (\<lambda>m. case m of
                Inl e \<Rightarrow> io_ret (Some e)
              | Inr masters \<Rightarrow>
                  errgroup rt (\<lambda>j. joinNode rt vmExecutor (CtxGroup c) (fst j) (snd j)) (workers @ masters)))))"

definition joinNodes ::
  "'e runtime \<Rightarrow> 'e vm_executor \<Rightarrow> 'e kube_api \<Rightarrow> ctx \<Rightarrow> cluster_definition \<Rightarrow> ('e, goerr option) act" where
  "joinNodes rt vmExecutor api c def =
     io_bind (CreateStaticNodeGroup rt api c workerNodeGroupName) (\<lambda>e. case e of
       Some err \<Rightarrow> io_ret (Some (wrapf ''create worker nodegroup: '' err))
     | None \<Rightarrow> with_clientset rt api c (joinNodesWithClient rt vmExecutor api c def))"



section \<open>The account of open connections\<close>

text \<open>
  A connection is an SSH client or a tunnel. \<open>opens t n\<close> is the number of times the connection \<open>n\<close> was
  opened in \<open>t\<close>, less the number of times it was closed.
\<close>

definition ssh_conn :: "string \<Rightarrow> string" where "ssh_conn ip = ''ssh '' @ ip"
definition tunnel_conn :: "string \<Rightarrow> string" where "tunnel_conn ip = ''tunnel '' @ ip"

definition is_conn :: "string \<Rightarrow> bool" where
  "is_conn n \<longleftrightarrow> hasPrefix n ''ssh '' \<or> hasPrefix n ''tunnel ''"

definition conn_delta :: "string \<Rightarrow> event \<Rightarrow> int" where
  "conn_delta n ev = (if \<not> is_conn n then 0
     else (case ev of Opened m r \<Rightarrow> if r = None \<and> m = n then 1 else 0 | Closed m \<Rightarrow> if m = n then - 1 else 0 | _ \<Rightarrow> 0))"

definition opens :: "event list \<Rightarrow> string \<Rightarrow> int" where
  "opens t n = sum_list (map (conn_delta n) t)"

definition quiet :: "event \<Rightarrow> bool" where
  "quiet ev \<longleftrightarrow> (\<forall>n. conn_delta n ev = 0)"

lemma is_conn_names [simp]: "is_conn (ssh_conn ip)" "is_conn (tunnel_conn ip)"
  by (simp_all add: is_conn_def ssh_conn_def tunnel_conn_def hasPrefix_def)

lemma opens_snoc: "opens (t @ [ev]) = (\<lambda>n. opens t n + conn_delta n ev)"
  by (simp add: opens_def fun_eq_iff)

lemma opens_quiet [simp]: "quiet ev \<Longrightarrow> opens (t @ [ev]) = opens t"
  by (simp add: opens_snoc quiet_def)

lemma conn_delta_simps [simp]:
  "conn_delta n (Opened m None) = (if m = n \<and> is_conn n then 1 else 0)"
  "conn_delta n (Opened m (Some e)) = 0"
  "conn_delta n (Closed m) = (if m = n \<and> is_conn n then - 1 else 0)"
  by (auto simp: conn_delta_def)

lemma quiet_clients [simp]:
  "quiet (Opened ''clientset'' r)" "quiet (Opened ''dynamic client'' r)" "quiet (Opened ''virtualization'' r)"
  "quiet (Opened ''deckhouse'' r)" "quiet (Opened n (Some e))"
  by (auto simp: quiet_def conn_delta_def is_conn_def hasPrefix_def)

lemma quiet_requests [simp]:
  "quiet (Waited c d)" "quiet (LeaseGet g)" "quiet (LeaseCreate l r)" "quiet (LeaseUpdate l r)" "quiet (LeaseDelete n r)"
  "quiet (VDGet ns n vdg)" "quiet (VDCreate vd r)" "quiet (VDUpdate vd r)" "quiet (VDDelete ns n r)" "quiet (VDList ns vdl)"
  "quiet (VMGet ns n vmg)" "quiet (VMCreate vm r)" "quiet (VMUpdate vm r)" "quiet (VMDelete ns n r)" "quiet (VMList ns vml)"
  "quiet (BAGet ns n bag)" "quiet (BACreate ba r)" "quiet (BADelete ns n r)"
  "quiet (CVIGet n cg)" "quiet (CVICreate cv r)" "quiet (VCGet n vg)" "quiet (VCCreate vc r)"
  "quiet (NodesList nl')" "quiet (SecretGet ns n sg)" "quiet (DeploymentGet ns n dg)"
  "quiet (MCGet n mg)" "quiet (MCCreate mc r)" "quiet (MCUpdate mc r)" "quiet (MPOGet n pg)" "quiet (MPOCreate mp r)" "quiet (MPOUpdate mp r)"
  "quiet (ModuleGet n dm)" "quiet (Exec ip cmd x)" "quiet (KubeOp what args r)"
  by (simp_all add: quiet_def conn_delta_def)

lemma triple_quiet: "only_calls quiet m \<Longrightarrow> triple (\<lambda>t. opens t = opn) m (\<lambda>_ t. opens t = opn)"
  by (erule triple_keeps) simp

section \<open>The contract of a connector\<close>

text \<open>
  A session on a machine records the commands it runs and its end. \<^verbatim>\<open>VMExecutor\<close> records its attempts: those
  that failed, the waits between them, and the one that opened the session.
\<close>

definition session_on :: "string \<Rightarrow> 'e executor \<Rightarrow> ('e, unit) act \<Rightarrow> bool" where
  "session_on ip exec close \<longleftrightarrow>
     (\<forall>c cmd w r w'. exec c cmd w = Some (r, w') \<longrightarrow> tr w' = tr w @ [Exec ip cmd r]) \<and>
     (\<forall>w r w'. close w = Some (r, w') \<longrightarrow> tr w' = tr w @ [Closed (ssh_conn ip)])"

definition dial_event :: "string \<Rightarrow> event \<Rightarrow> bool" where
  "dial_event ip ev \<longleftrightarrow> (\<exists>e. ev = Opened (ssh_conn ip) (Some e)) \<or> (\<exists>c d. ev = Waited c d)"

lemma dial_event_quiet: "dial_event ip ev \<Longrightarrow> quiet ev"
  by (auto simp: dial_event_def)

locale base_connector =
  fixes vmExecutor :: "'e vm_executor"
  assumes refused: "vmExecutor c ip w = Some (Inl e, w') \<Longrightarrow> \<exists>u. tr w' = tr w @ u \<and> list_all (dial_event ip) u"
    and opened: "vmExecutor c ip w = Some (Inr (exec, close), w') \<Longrightarrow>
      (\<exists>u. tr w' = tr w @ u @ [Opened (ssh_conn ip) None] \<and> list_all (dial_event ip) u) \<and> session_on ip exec close"
begin

lemma vmExecutor_triple:
  assumes dial: "\<And>t ev. P t \<Longrightarrow> dial_event ip ev \<Longrightarrow> P (t @ [ev])"
    and fail: "\<And>t e. P t \<Longrightarrow> Q (Inl e) t"
    and ok: "\<And>t exec close. P t \<Longrightarrow> session_on ip exec close \<Longrightarrow> Q (Inr (exec, close)) (t @ [Opened (ssh_conn ip) None])"
  shows "triple P (vmExecutor c ip) Q"
proof (rule tripleI)
  fix w r w' assume P: "P (tr w)" and run: "vmExecutor c ip w = Some (r, w')"
  have dials: "P (tr w @ u)" if "list_all (dial_event ip) u" for u
    using that by (induction u rule: rev_induct) (auto simp: P dial simp flip: append_assoc)
  show "Q r (tr w')"
  proof (cases r)
    case (Inl e)
    with refused run obtain u where "tr w' = tr w @ u" "list_all (dial_event ip) u" by blast
    with Inl fail dials show ?thesis by simp
  next
    case (Inr s)
    obtain exec close where s: "s = (exec, close)" by (cases s)
    with opened run Inr obtain u where u: "tr w' = (tr w @ u) @ [Opened (ssh_conn ip) None]" "list_all (dial_event ip) u"
      and ses: "session_on ip exec close" by fastforce
    show ?thesis unfolding Inr s u(1) by (rule ok [OF dials [OF u(2)] ses])
  qed
qed

lemma vmExecutor_calls:
  assumes P: "\<And>ev. dial_event ip ev \<Longrightarrow> P ev" "P (Opened (ssh_conn ip) None)" and fail: "\<And>e. only_calls P (f (Inl e))"
    and ok: "\<And>exec close. session_on ip exec close \<Longrightarrow> only_calls P (f (Inr (exec, close)))"
  shows "only_calls P (io_bind (vmExecutor c ip) f)"
proof (rule only_callsI)
  fix w r w'
  assume "io_bind (vmExecutor c ip) f w = Some (r, w')"
  then obtain x w1 where x: "vmExecutor c ip w = Some (x, w1)" and f: "f x w1 = Some (r, w')"
    by (auto simp: io_bind_apply split: option.splits)
  have dials: "list_all (dial_event ip) u \<Longrightarrow> list_all P u" for u using P(1) by (auto simp: list_all_iff)
  show "\<exists>t. tr w' = tr w @ t \<and> list_all P t"
  proof (cases x)
    case (Inl e)
    with refused x obtain u where "tr w1 = tr w @ u" "list_all P u" using dials by blast
    with only_callsD [OF fail, of e w1 r w'] f Inl show ?thesis by auto
  next
    case (Inr s)
    obtain exec close where s: "s = (exec, close)" by (cases s)
    with opened x Inr obtain u where u: "tr w1 = tr w @ u @ [Opened (ssh_conn ip) None]" "list_all P u"
      and ses: "session_on ip exec close" using dials by blast
    with only_callsD [OF ok [OF ses], of w1 r w'] f Inr s P(2) show ?thesis by auto
  qed
qed

text \<open>Opening a session, using it quietly and closing it leaves the account as it was.\<close>

lemma session_balanced:
  assumes body: "\<And>exec close. session_on ip exec close \<Longrightarrow> only_calls quiet (body exec)" and fail: "\<And>e. only_calls quiet (fail e)"
  shows "triple (\<lambda>t. opens t = opn) (io_bind (vmExecutor c ip) (\<lambda>r. case r of
     Inl e \<Rightarrow> fail e | Inr (exec, close) \<Rightarrow> io_finally (body exec) close)) (\<lambda>_ t. opens t = opn)"
proof (rule triple_bind)
  let ?up = "\<lambda>n. opn n + (if n = ssh_conn ip then 1 else 0)"
  show "triple (\<lambda>t. opens t = opn) (vmExecutor c ip)
      (\<lambda>r t. case r of Inl e \<Rightarrow> opens t = opn | Inr (exec, close) \<Rightarrow> session_on ip exec close \<and> opens t = ?up)"
    by (rule vmExecutor_triple) (auto simp: opens_snoc fun_eq_iff quiet_def dest: dial_event_quiet)
  fix r
  show "triple (\<lambda>t. case r of Inl e \<Rightarrow> opens t = opn | Inr (exec, close) \<Rightarrow> session_on ip exec close \<and> opens t = ?up)
     (case r of Inl e \<Rightarrow> fail e | Inr (exec, close) \<Rightarrow> io_finally (body exec) close) (\<lambda>_ t. opens t = opn)"
  proof (cases r)
    case (Inr s)
    obtain exec close where s: "s = (exec, close)" by (cases s)
    have "triple (\<lambda>t. opens t = ?up) (io_finally (body exec) close) (\<lambda>_ t. opens t = opn)" if "session_on ip exec close"
    proof (rule triple_finally)
      show "triple (\<lambda>t. opens t = ?up) (body exec) (\<lambda>_ t. opens t = ?up)" by (rule triple_quiet [OF body [OF that]])
      show "triple (\<lambda>t. opens t = ?up) close (\<lambda>_ t. opens t = opn)"
        using that by (intro tripleI) (auto simp: session_on_def opens_snoc fun_eq_iff)
    qed
    then show ?thesis by (simp add: Inr s triple_assume)
  qed (simp add: triple_quiet fail)
qed

end


section \<open>Which commands run where\<close>

text \<open>
  What the trace must show before a bootstrap script runs on a machine: a list of the registered nodes
  without it, and the secret of its group with that script.
\<close>

definition script_read :: "string \<Rightarrow> string \<Rightarrow> event list \<Rightarrow> bool" where
  "script_read secret script a \<longleftrightarrow> (\<exists>data. SecretGet bootstrapSecretNamespace secret (Inr data) \<in> set a \<and>
     data bootstrapScriptKey = Some script \<and> script \<noteq> [])"

definition not_registered :: "string \<Rightarrow> event list \<Rightarrow> bool" where
  "not_registered host a \<longleftrightarrow> (\<exists>nodes. NodesList (Inr nodes) \<in> set a \<and> host \<notin> node_name ` set nodes)"

definition group_secret :: "cluster_definition \<Rightarrow> (cluster_node \<times> string) set" where
  "group_secret def = set (Workers def) \<times> {workerBootstrapSecret} \<union> set (tl (Masters def)) \<times> {masterBootstrapSecret}"

definition join_justified :: "cluster_definition \<Rightarrow> event list \<Rightarrow> event \<Rightarrow> bool" where
  "join_justified def a ev \<longleftrightarrow> (case ev of
     Exec ip cmd r \<Rightarrow> \<exists>(n, secret) \<in> group_secret def. \<exists>script. IPAddress n = ip \<and> ip \<noteq> [] \<and>
       cmd = buildNodeBootstrapCommand script \<and> not_registered (Hostname n) a \<and> script_read secret script a
   | _ \<Rightarrow> True)"

definition joined :: "string \<Rightarrow> string \<Rightarrow> event \<Rightarrow> bool" where
  "joined ip cmd ev \<longleftrightarrow> (\<exists>res. ev = Exec ip cmd (res, None) \<and> er_exitCode res = 0)"

definition join_event :: "string \<Rightarrow> string \<Rightarrow> event \<Rightarrow> bool" where
  "join_event ip cmd ev \<longleftrightarrow> (case ev of
     Exec ip' cmd' r \<Rightarrow> ip' = ip \<and> cmd' = cmd \<and> ip \<noteq> [] | Waited c d \<Rightarrow> True | Opened n r \<Rightarrow> n = ssh_conn ip
   | Closed n \<Rightarrow> n = ssh_conn ip | _ \<Rightarrow> False)"

lemma session_only_calls:
  "session_on ip exec close \<Longrightarrow> ip \<noteq> [] \<Longrightarrow> only_calls (join_event ip cmd) (exec c cmd)"
  "session_on ip exec close \<Longrightarrow> only_calls (join_event ip cmd) close"
  by (auto simp: only_calls_def session_on_def join_event_def)

lemma join_attempts_calls:
  "session_on ip exec close \<Longrightarrow> ip \<noteq> [] \<Longrightarrow> only_calls (join_event ip cmd) (join_attempts rt exec c host cmd k left e)"
  by (induction left arbitrary: k e)
    (auto simp: Let_def join_event_def intro!: calls_intros session_only_calls(1) [simplified join_event_def])

lemma join_attempts_success:
  assumes "session_on ip exec close"
  shows "join_attempts rt exec c host cmd k left e w = Some (None, w') \<Longrightarrow> \<exists>u. tr w' = tr w @ u \<and> list_ex (joined ip cmd) u"
proof (induction left arbitrary: k e w)
  case (Suc left)
  from Suc.prems obtain res err w1 where x: "exec c cmd w = Some ((res, err), w1)"
    by (auto simp: io_bind_apply split: option.splits)
  then have t1: "tr w1 = tr w @ [Exec ip cmd (res, err)]" using assms by (auto simp: session_on_def)
  show ?case
  proof (cases "err = None \<and> er_exitCode res = 0")
    case True
    with Suc.prems x t1 show ?thesis by (auto simp: io_bind_apply io_ret_apply joined_def)
  next
    case False
    with Suc.prems x obtain k' e' w2 where w2: "waitFor rt c (join_backoff k) w1 = Some (None, w2)"
      and rest: "join_attempts rt exec c host cmd k' left e' w2 = Some (None, w')"
      by (auto simp: io_bind_apply io_ret_apply Let_def split: option.splits if_splits)
    from w2 have "tr w2 = tr w1 @ [Waited c (join_backoff k)]" by (auto simp: io_simps)
    with Suc.IH [OF rest] t1 show ?thesis by auto
  qed
qed (simp add: io_ret_apply)

context base_connector
begin

lemma joinNode_calls: "only_calls (join_event (IPAddress n) (buildNodeBootstrapCommand script)) (joinNode rt vmExecutor c n script)"
  unfolding joinNode_def
proof (rule only_calls_if)
  assume ip: "IPAddress n \<noteq> []"
  show "only_calls (join_event (IPAddress n) (buildNodeBootstrapCommand script)) (io_bind (vmExecutor c (IPAddress n)) (\<lambda>r. case r of
        Inl e \<Rightarrow> io_ret (Some (wrapf (''join node '' @ Hostname n @ '': connect: '') e))
      | Inr (exec, closeExec) \<Rightarrow> io_finally
          (join_attempts rt exec c (Hostname n) (buildNodeBootstrapCommand script) 1 joinRetryCount None) closeExec))"
    by (rule vmExecutor_calls) (auto simp: join_event_def dial_event_def
        intro: only_calls_ret intro!: only_calls_finally session_only_calls(2) join_attempts_calls [OF _ ip])
qed (rule only_calls_ret)

lemma joinNode_success:
  assumes "joinNode rt vmExecutor c n script w = Some (None, w')"
  shows "\<exists>u. tr w' = tr w @ u \<and> list_ex (joined (IPAddress n) (buildNodeBootstrapCommand script)) u"
proof -
  from assms obtain exec close w1 w2 where x: "vmExecutor c (IPAddress n) w = Some (Inr (exec, close), w1)"
    and j: "join_attempts rt exec c (Hostname n) (buildNodeBootstrapCommand script) 1 joinRetryCount None w1 = Some (None, w2)"
    and cl: "\<exists>r. close w2 = Some (r, w')"
    by (auto simp: joinNode_def io_bind_apply io_finally_apply io_ret_apply split: if_splits option.splits sum.splits)
  note o = opened [OF x]
  from join_attempts_success [OF conjunct2 [OF o] j] o cl show ?thesis by (force simp: session_on_def)
qed

end

section \<open>All pending nodes join\<close>

text \<open>What the reads before the joins have shown, for the rest of the run.\<close>

definition seen_names :: "string list \<Rightarrow> event list \<Rightarrow> bool" where
  "seen_names names u \<longleftrightarrow> (\<exists>nodes. NodesList (Inr nodes) \<in> set u \<and> map node_name nodes = names)"

definition scripts_read :: "string \<Rightarrow> (cluster_node \<times> string) list \<Rightarrow> event list \<Rightarrow> bool" where
  "scripts_read secret js u \<longleftrightarrow> (\<forall>j \<in> set js. script_read secret (snd j) u)"

lemma seen_stable:
  "seen_names names u \<Longrightarrow> seen_names names (u @ [ev])"
  "script_read secret script u \<Longrightarrow> script_read secret script (u @ [ev])"
  "scripts_read secret js u \<Longrightarrow> scripts_read secret js (u @ [ev])"
  "not_registered host u \<Longrightarrow> not_registered host (u @ [ev])"
  by (auto simp: seen_names_def script_read_def scripts_read_def not_registered_def)

lemma not_exec_justified: "(\<forall>ip cmd r. ev \<noteq> Exec ip cmd r) \<Longrightarrow> join_justified def a ev"
  by (cases ev) (simp_all add: join_justified_def)

lemma triple_try_opt:
  "triple P m (res_or R E) \<Longrightarrow> (\<And>e t. E t \<Longrightarrow> Q (Some (wrap e)) t) \<Longrightarrow> (\<And>x. triple (R x) (k x) Q) \<Longrightarrow>
     triple P (io_bind m (\<lambda>r. case r of Inl e \<Rightarrow> io_ret (Some (wrap e)) | Inr x \<Rightarrow> k x)) Q"
  by (rule triple_bind, assumption) (auto simp: triple_def io_ret_apply res_or_def split: sum.splits)

lemma registered_triple:
  "triple (since t0 (history (join_justified def))) (registeredNodeNames api c)
     (res_or (\<lambda>names. since t0 (\<lambda>u. history (join_justified def) u \<and> seen_names names u)) (since t0 (history (join_justified def))))"
proof (rule tripleI)
  fix w r w'
  assume "since t0 (history (join_justified def)) (tr w)" and run: "registeredNodeNames api c w = Some (r, w')"
  then obtain u where u: "tr w = t0 @ u" "history (join_justified def) u" by (auto simp: since_def)
  let ?ev = "NodesList (fst (ka_nodes api c (est w)))"
  have "tr w' = t0 @ (u @ [?ev])" using run u by (auto simp: registeredNodeNames_def io_simps)
  moreover have "join_justified def u ?ev" by (rule not_exec_justified) simp
  moreover have "r = Inr names \<Longrightarrow> seen_names names (u @ [?ev])" for names
    using run by (auto simp: registeredNodeNames_def io_simps seen_names_def split: sum.splits)
  ultimately show "res_or (\<lambda>names. since t0 (\<lambda>u. history (join_justified def) u \<and> seen_names names u))
      (since t0 (history (join_justified def))) r (tr w')"
    unfolding since_def using u(2) by (cases r) auto
qed

lemma group_joins_triple:
  assumes stable: "\<And>u ev. F u \<Longrightarrow> F (u @ [ev])"
  shows "triple (since t0 (\<lambda>u. history (join_justified def) u \<and> F u)) (group_joins api c secret ns)
     (res_or (\<lambda>js. since t0 (\<lambda>u. history (join_justified def) u \<and> F u \<and> map fst js = ns \<and> scripts_read secret js u))
        (since t0 (history (join_justified def))))"
proof (rule tripleI)
  fix w r w'
  assume pre: "since t0 (\<lambda>u. history (join_justified def) u \<and> F u) (tr w)" and run: "group_joins api c secret ns w = Some (r, w')"
  then obtain u where u: "tr w = t0 @ u" "history (join_justified def) u" "F u" by (auto simp: since_def)
  show "res_or (\<lambda>js. since t0 (\<lambda>u. history (join_justified def) u \<and> F u \<and> map fst js = ns \<and> scripts_read secret js u))
        (since t0 (history (join_justified def))) r (tr w')"
  proof (cases "ns = []")
    case True
    with run u show ?thesis by (auto simp: group_joins_def io_simps since_def scripts_read_def)
  next
    case False
    let ?ev = "SecretGet bootstrapSecretNamespace secret (fst (ka_secret api c bootstrapSecretNamespace secret (est w)))"
    have "tr w' = t0 @ (u @ [?ev])" using run False u by (auto simp: group_joins_def getBootstrapScript_def io_simps Let_def)
    moreover have "history (join_justified def) (u @ [?ev]) \<and> F (u @ [?ev])" using u stable by (simp add: not_exec_justified)
    moreover have "map fst js = ns \<and> scripts_read secret js (u @ [?ev])" if "r = Inr js" for js
      using run False that
      by (auto simp: group_joins_def getBootstrapScript_def io_simps Let_def scripts_read_def script_read_def o_def
          split: sum.splits option.splits if_splits)
    ultimately show ?thesis unfolding since_def by (cases r) auto
  qed
qed

definition node_settled :: "cluster_node \<Rightarrow> string \<Rightarrow> event list \<Rightarrow> bool" where
  "node_settled n secret u \<longleftrightarrow> (\<exists>nodes. NodesList (Inr nodes) \<in> set u \<and> Hostname n \<in> node_name ` set nodes) \<or>
     (\<exists>script. script_read secret script u \<and> list_ex (joined (IPAddress n) (buildNodeBootstrapCommand script)) u)"

definition joins_ok :: "cluster_definition \<Rightarrow> string list \<Rightarrow> (cluster_node \<times> string) list \<Rightarrow> (cluster_node \<times> string) list \<Rightarrow> event list \<Rightarrow> bool" where
  "joins_ok def names ws ms u \<longleftrightarrow> seen_names names u \<and> scripts_read workerBootstrapSecret ws u \<and> scripts_read masterBootstrapSecret ms u \<and>
     map fst ws = pending_nodes names (Workers def) \<and> map fst ms = pending_nodes names (tl (Masters def))"

lemma joins_ok_step: "joins_ok def names ws ms u \<Longrightarrow> joins_ok def names ws ms (u @ [ev])"
  by (auto simp: joins_ok_def seen_stable)

lemma joins_ok_member:
  assumes "joins_ok def names ws ms u" "j \<in> set (ws @ ms)"
  shows "\<exists>secret. (fst j, secret) \<in> group_secret def \<and> script_read secret (snd j) u \<and> not_registered (Hostname (fst j)) u"
proof -
  from assms have "fst j \<in> set (pending_nodes names (Workers def)) \<and> script_read workerBootstrapSecret (snd j) u \<or>
      fst j \<in> set (pending_nodes names (tl (Masters def))) \<and> script_read masterBootstrapSecret (snd j) u"
    unfolding joins_ok_def scripts_read_def by (metis UnE imageI list.set_map set_append)
  moreover have "n \<in> set (pending_nodes names ns) \<Longrightarrow> n \<in> set ns \<and> not_registered (Hostname n) u" for n ns
    using assms(1) by (fastforce simp: joins_ok_def pending_nodes_def seen_names_def not_registered_def)
  ultimately show ?thesis by (auto simp: group_secret_def)
qed

lemma joins_ok_justified:
  assumes "joins_ok def names ws ms u" "j \<in> set (ws @ ms)"
    and "join_event (IPAddress (fst j)) (buildNodeBootstrapCommand (snd j)) ev"
  shows "join_justified def u ev"
proof (cases "\<exists>ip cmd r. ev = Exec ip cmd r")
  case True
  with joins_ok_member [OF assms(1,2)] assms(3) show ?thesis
    by (fastforce simp: join_event_def join_justified_def)
qed (simp add: not_exec_justified)


lemma joins_ok_settled:
  assumes "joins_ok def names ws ms u" "(n, secret) \<in> group_secret def"
    and "\<And>j. j \<in> set (ws @ ms) \<Longrightarrow> list_ex (joined (IPAddress (fst j)) (buildNodeBootstrapCommand (snd j))) u"
  shows "node_settled n secret u"
proof (cases "Hostname n \<in> set names")
  case True
  then show ?thesis using assms(1) by (auto simp: joins_ok_def seen_names_def node_settled_def)
next
  case False
  then have pending: "n \<in> set ns \<Longrightarrow> n \<in> set (pending_nodes names ns)" for ns by (simp add: pending_nodes_def)
  have "\<exists>j \<in> set (ws @ ms). fst j = n \<and> script_read secret (snd j) u"
  proof (cases "secret = workerBootstrapSecret \<and> n \<in> set (Workers def)")
    case True
    with pending assms(1) have "n \<in> set (map fst ws)" by (simp add: joins_ok_def)
    then obtain j where "j \<in> set ws" "fst j = n" by auto
    with True assms(1) show ?thesis by (auto simp: joins_ok_def scripts_read_def)
  next
    case False
    with assms(2) have "n \<in> set (tl (Masters def))" "secret = masterBootstrapSecret" by (auto simp: group_secret_def)
    with pending assms(1) have "n \<in> set (map fst ms)" "secret = masterBootstrapSecret" by (simp_all add: joins_ok_def)
    then obtain j where "j \<in> set ms" "fst j = n" by auto
    with \<open>secret = masterBootstrapSecret\<close> assms(1) show ?thesis by (auto simp: joins_ok_def scripts_read_def)
  qed
  with assms(3) show ?thesis by (auto simp: node_settled_def)
qed

context base_connector
begin

lemma joins_triple:
  assumes jok: "\<And>u. F u \<Longrightarrow> joins_ok def names ws ms u" and stable: "\<And>u ev. F u \<Longrightarrow> F (u @ [ev])"
  shows "triple (since t0 (\<lambda>u. history (join_justified def) u \<and> F u))
     (errgroup rt (\<lambda>j. joinNode rt vmExecutor c (fst j) (snd j)) (ws @ ms))
     (\<lambda>e t. since t0 (\<lambda>u. history (join_justified def) u \<and> F u) t \<and>
        (e = None \<longrightarrow> (\<forall>j \<in> set (ws @ ms). since t0 (list_ex (joined (IPAddress (fst j)) (buildNodeBootstrapCommand (snd j)))) t)))"
proof (rule triple_errgroup [where A = "\<lambda>_. True"])
  fix j assume j: "j \<in> set (ws @ ms)"
  let ?I = "since t0 (\<lambda>u. history (join_justified def) u \<and> F u)"
  have keeps: "triple ?I (joinNode rt vmExecutor c (fst j) (snd j)) (\<lambda>_. ?I)"
    by (rule triple_keeps [OF joinNode_calls])
      (auto elim!: since_step intro: stable joins_ok_justified [OF jok j])
  show "triple ?I (joinNode rt vmExecutor c (fst j) (snd j))
      (\<lambda>e t. ?I t \<and> (e = None \<longrightarrow> since t0 (list_ex (joined (IPAddress (fst j)) (buildNodeBootstrapCommand (snd j)))) t))"
  proof (rule tripleI, intro conjI impI)
    fix w e w' assume I: "?I (tr w)" and run: "joinNode rt vmExecutor c (fst j) (snd j) w = Some (e, w')"
    show "?I (tr w')" by (rule tripleD [OF keeps run I])
    assume "e = None"
    with joinNode_success run obtain v where "tr w' = tr w @ v"
      "list_ex (joined (IPAddress (fst j)) (buildNodeBootstrapCommand (snd j))) v" by blast
    moreover from I obtain u where "tr w = t0 @ u" by (auto simp: since_def)
    ultimately show "since t0 (list_ex (joined (IPAddress (fst j)) (buildNodeBootstrapCommand (snd j)))) (tr w')"
      by (auto simp: since_def)
  qed
  show "only_calls (\<lambda>_. True) (joinNode rt vmExecutor c (fst j) (snd j))"
    by (rule only_calls_mono [OF joinNode_calls]) simp
qed (auto simp: since_ex_step)

lemma joinNodesWithClient_triple:
  "triple (since t0 (history (join_justified def))) (joinNodesWithClient rt vmExecutor api c def)
     (\<lambda>e. since t0 (\<lambda>u. history (join_justified def) u \<and>
        (e = None \<longrightarrow> (\<forall>(n, secret) \<in> group_secret def. node_settled n secret u))))"
  unfolding joinNodesWithClient_def Let_def
proof (rule triple_if)
  assume "tl (Masters def) = [] \<and> Workers def = []"
  then have "group_secret def = {}" by (simp add: group_secret_def)
  then show "triple (since t0 (history (join_justified def))) (io_ret None) (\<lambda>e. since t0 (\<lambda>u. history (join_justified def) u \<and>
      (e = None \<longrightarrow> (\<forall>(n, secret) \<in> group_secret def. node_settled n secret u))))"
    by (intro triple_ret) simp
next
  let ?H = "history (join_justified def)"
  let ?post = "\<lambda>e. since t0 (\<lambda>u. ?H u \<and> (e = None \<longrightarrow> (\<forall>(n, secret) \<in> group_secret def. node_settled n secret u)))"
  have fail: "since t0 ?H t \<Longrightarrow> ?post (Some e) t" for e t by (auto elim: since_imp)
  have group: "triple (since t0 (\<lambda>u. ?H u \<and> joins_ok def names ws ms u))
      (errgroup rt (\<lambda>j. joinNode rt vmExecutor (CtxGroup c) (fst j) (snd j)) (ws @ ms)) ?post" for names ws ms
  proof (rule triple_post [OF joins_triple [where F = "joins_ok def names ws ms"]])
    fix e t
    assume *: "since t0 (\<lambda>u. ?H u \<and> joins_ok def names ws ms u) t \<and> (e = None \<longrightarrow> (\<forall>j \<in> set (ws @ ms).
        since t0 (list_ex (joined (IPAddress (fst j)) (buildNodeBootstrapCommand (snd j)))) t))"
    then obtain u where u: "t = t0 @ u" "?H u" "joins_ok def names ws ms u" by (auto simp: since_def)
    have "node_settled n secret u" if "e = None" "(n, secret) \<in> group_secret def" for n secret
      by (rule joins_ok_settled [OF u(3) that(2)]) (use * that(1) u(1) in \<open>auto simp: since_def\<close>)
    with u show "?post e t" by (auto simp: since_def)
  qed (auto intro: joins_ok_step)
  show "triple (since t0 ?H) (io_bind (registeredNodeNames api c) (\<lambda>r. case r of
        Inl e \<Rightarrow> io_ret (Some e)
      | Inr registered \<Rightarrow>
          io_bind (group_joins api c workerBootstrapSecret (pending_nodes registered (Workers def))) (\<lambda>w. case w of
            Inl e \<Rightarrow> io_ret (Some e)
          | Inr workers \<Rightarrow>
              io_bind (group_joins api c masterBootstrapSecret (pending_nodes registered (tl (Masters def)))) (\<lambda>m. case m of
                Inl e \<Rightarrow> io_ret (Some e)
              | Inr masters \<Rightarrow> errgroup rt (\<lambda>j. joinNode rt vmExecutor (CtxGroup c) (fst j) (snd j)) (workers @ masters))))) ?post"
  proof (rule triple_try_opt, rule registered_triple, erule fail,
      rule triple_try_opt, rule group_joins_triple, erule seen_stable(1), erule fail,
      rule triple_try_opt, rule group_joins_triple, simp add: seen_stable, erule fail)
    fix names ws ms
    show "triple (since t0 (\<lambda>u. ?H u \<and> (seen_names names u \<and> map fst ws = pending_nodes names (Workers def) \<and>
          scripts_read workerBootstrapSecret ws u) \<and> map fst ms = pending_nodes names (tl (Masters def)) \<and>
          scripts_read masterBootstrapSecret ms u))
        (errgroup rt (\<lambda>j. joinNode rt vmExecutor (CtxGroup c) (fst j) (snd j)) (ws @ ms)) ?post"
      by (rule triple_pre [OF group]) (auto simp: joins_ok_def elim: since_imp)
  qed
qed

end

lemma session_quiet: "session_on ip exec close \<Longrightarrow> only_calls quiet (exec c cmd)"
  by (auto simp: only_calls_def session_on_def)

lemma join_attempts_quiet: "session_on ip exec close \<Longrightarrow> only_calls quiet (join_attempts rt exec c host cmd k left e)"
  by (induction left arbitrary: k e) (auto simp: Let_def intro!: calls_intros session_quiet)

lemma clients_quiet [calls_intros]:
  "only_calls quiet (NewClientsetWithRetry rt api c)"
  "only_calls quiet (deckhouse_NewClient rt dapi c)"
  "only_calls quiet (virt_NewClient rt vapi c)"
  unfolding NewClientsetWithRetry_def deckhouse_NewClient_def virt_NewClient_def by (intro calls_intros; simp)+

lemma node_group_quiet [calls_intros]: "only_calls quiet (CreateStaticNodeGroup rt api c name)"
  unfolding CreateStaticNodeGroup_def GetNodeGroup_def CreateNodeGroup_def with_client_def by (intro calls_intros; simp)+

lemma with_clientset_quiet [calls_intros]: "only_calls quiet k \<Longrightarrow> only_calls quiet (with_clientset rt api c k)"
  unfolding with_clientset_def by (intro calls_intros)

context base_connector
begin

lemma joinNode_balanced: "triple (\<lambda>t. opens t = opn) (joinNode rt vmExecutor c n script) (\<lambda>_ t. opens t = opn)"
  unfolding joinNode_def
  by (intro triple_if triple_ret session_balanced join_attempts_quiet calls_intros)

lemma joinNodes_balanced:
  "triple (\<lambda>t. opens t = opn) (joinNodes rt vmExecutor api c def) (\<lambda>_ t. opens t = opn)"
proof -
  let ?I = "\<lambda>t. opens t = opn"
  have group: "triple ?I (errgroup rt (\<lambda>j. joinNode rt vmExecutor c' (fst j) (snd j)) js) (\<lambda>_. ?I)" for c' js
  proof (rule triple_post [OF triple_errgroup [where A = "\<lambda>_. True" and Q = "\<lambda>_ _. True"]])
    show "triple ?I (joinNode rt vmExecutor c' (fst j) (snd j)) (\<lambda>e t. ?I t \<and> (e = None \<longrightarrow> True))" for j
      using joinNode_balanced by simp
    show "only_calls (\<lambda>_. True) (joinNode rt vmExecutor c' (fst j) (snd j))" for j
      by (rule only_calls_mono [OF joinNode_calls]) simp
  qed simp_all
  have reads: "only_calls quiet (registeredNodeNames api c)" "only_calls quiet (group_joins api c secret ns)" for secret ns
    unfolding registeredNodeNames_def group_joins_def getBootstrapScript_def Let_def by (intro calls_intros; simp)+
  have join: "triple ?I (joinNodesWithClient rt vmExecutor api c def) (\<lambda>_. ?I)"
    unfolding joinNodesWithClient_def Let_def
    by (intro triple_intros triple_ret triple_bind [OF triple_quiet] reads group; assumption)
  show ?thesis
    unfolding joinNodes_def with_clientset_def
    by (intro triple_intros triple_ret triple_bind [OF triple_quiet] calls_intros join; assumption)
qed

end

section \<open>Resources that outlive the call that opened them\<close>

text \<open>
  \<open>releases d cl\<close>: the clean-up function \<open>cl\<close> closes exactly the connections counted by \<open>d\<close>. A function
  that connects either leaves the account as it was and fails, or returns a clean-up function for
  what it has opened.
\<close>

definition releases :: "(string \<Rightarrow> int) \<Rightarrow> ('e, unit) act \<Rightarrow> bool" where
  "releases d cl \<longleftrightarrow> (\<forall>opn. triple (\<lambda>t. opens t = opn) cl (\<lambda>_ t. opens t = (\<lambda>n. opn n - d n)))"

definition acquired :: "(string \<Rightarrow> int) \<Rightarrow> goerr + 'x \<times> ('e, unit) act \<Rightarrow> event list \<Rightarrow> bool" where
  "acquired opn r t = (case r of Inl _ \<Rightarrow> opens t = opn
     | Inr (x, cl) \<Rightarrow> \<exists>d. opens t = (\<lambda>n. opn n + d n) \<and> releases d cl)"

definition acquires :: "('e, goerr + 'x \<times> ('e, unit) act) act \<Rightarrow> bool" where
  "acquires m \<longleftrightarrow> (\<forall>opn. triple (\<lambda>t. opens t = opn) m (acquired opn))"

lemma acquired_simps [simp]:
  "acquired opn (Inl e) t \<longleftrightarrow> opens t = opn"
  "acquired opn (Inr (x, cl)) t \<longleftrightarrow> (\<exists>d. opens t = (\<lambda>n. opn n + d n) \<and> releases d cl)"
  by (simp_all add: acquired_def)

lemma releasesD: "releases d cl \<Longrightarrow> triple (\<lambda>t. opens t = (\<lambda>n. opn n + d n)) cl (\<lambda>_ t. opens t = opn)"
  unfolding releases_def by (rule triple_post, erule allE, assumption) simp

lemma releases_zero: "only_calls quiet cl \<Longrightarrow> releases (\<lambda>_. 0) cl"
  unfolding releases_def by (simp add: triple_quiet)

lemma releases_seq:
  assumes "releases d cl" "releases d' cl'"
  shows "releases (\<lambda>n. d n + d' n) (io_bind cl (\<lambda>_. cl'))"
  unfolding releases_def
proof
  fix opn
  show "triple (\<lambda>t. opens t = opn) (io_bind cl (\<lambda>_. cl')) (\<lambda>_ t. opens t = (\<lambda>n. opn n - (d n + d' n)))"
    by (rule triple_bind, rule assms(1) [unfolded releases_def, rule_format])
      (rule triple_post [OF assms(2) [unfolded releases_def, rule_format]], simp add: algebra_simps)
qed

text \<open>Using what was acquired and releasing it leaves the account as it was.\<close>

lemma acquire_use_release:
  assumes "acquires m" and fail: "\<And>e. only_calls quiet (fail e)"
    and use: "\<And>x cl opn. triple (\<lambda>t. opens t = opn) (use x) (\<lambda>_ t. opens t = opn)"
  shows "triple (\<lambda>t. opens t = opn) (io_bind m (\<lambda>r. case r of Inl e \<Rightarrow> fail e
     | Inr (x, cl) \<Rightarrow> io_finally (use x) cl)) (\<lambda>_ t. opens t = opn)"
proof (rule triple_bind [OF assms(1) [unfolded acquires_def, rule_format]])
  fix r
  show "triple (acquired opn r) (case r of Inl e \<Rightarrow> fail e | Inr (x, cl) \<Rightarrow> io_finally (use x) cl) (\<lambda>_ t. opens t = opn)"
  proof (cases r)
    case (Inr s)
    obtain x cl where s: "s = (x, cl)" by (cases s)
    show ?thesis
    proof (rule tripleI)
      fix w y w'
      assume "acquired opn r (tr w)" and run: "(case r of Inl e \<Rightarrow> fail e | Inr (x, cl) \<Rightarrow> io_finally (use x) cl) w = Some (y, w')"
      then obtain d where d: "opens (tr w) = (\<lambda>n. opn n + d n)" "releases d cl" by (auto simp: Inr s)
      have "triple (\<lambda>t. opens t = (\<lambda>n. opn n + d n)) (io_finally (use x) cl) (\<lambda>_ t. opens t = opn)"
        by (rule triple_finally [OF use releasesD [OF d(2)]])
      from tripleD [OF this _ d(1)] run show "opens (tr w') = opn" by (simp add: Inr s)
    qed
  next
    case (Inl e)
    have "triple (acquired opn (Inl e)) (fail e) (\<lambda>_ t. opens t = opn)" by (rule triple_pre [OF triple_quiet [OF fail]]) simp
    then show ?thesis by (simp add: Inl)
  qed
qed


end
