(* ===== verification/Bootstrap.thy ===== *)
theory Bootstrap
  imports Cluster_Config "HOL-Library.Word"
begin

text \<open>
  \<^verbatim>\<open>internal/provisioning/dvp/bootstrap.go\<close>: the parameters of the bootstrap configuration and the
  internal network that contains all virtual machines. Addresses are byte slices, as \<^verbatim>\<open>net.IP\<close>
  is; the functions of the package \<^verbatim>\<open>net\<close> that the code calls are written out.
\<close>

unbundle bit_operations_syntax

section \<open>Addresses\<close>

type_synonym byte = "8 word"
type_synonym ip = "byte list"

definition is_digit :: "char \<Rightarrow> bool" where
  "is_digit c \<longleftrightarrow> char_in (CHR ''0'') (CHR ''9'') c"

definition digit_val :: "char \<Rightarrow> nat" where
  "digit_val c = of_char c - 48"

definition dec_val :: "string \<Rightarrow> nat" where
  "dec_val s = foldl (\<lambda>n c. 10 * n + digit_val c) 0 s"

text \<open>One field of a dotted address: decimal digits without a leading zero, at most 255.\<close>

definition octet :: "string \<Rightarrow> byte option" where
  "octet s = (if s \<noteq> [] \<and> list_all is_digit s \<and> (hd s = CHR ''0'' \<longrightarrow> s = ''0'') \<and> dec_val s \<le> 255
     then Some (of_nat (dec_val s)) else None)"

fun octets :: "string list \<Rightarrow> ip option" where
  "octets [] = Some []"
| "octets (s # ss) = (case octet s of None \<Rightarrow> None
     | Some b \<Rightarrow> (case octets ss of None \<Rightarrow> None | Some bs \<Rightarrow> Some (b # bs)))"

definition parse_ipv4 :: "string \<Rightarrow> ip option" where
  "parse_ipv4 s = (let fs = split_on (CHR ''.'') s in if length fs = 4 then octets fs else None)"

text \<open>
  An address with colons: groups of at most four hexadecimal digits, one \<open>::\<close> that stands for at
  least one group of zeros, and possibly a dotted address at the end. \<open>groups\<close> reads from a
  position at which a group must begin; \<open>bs\<close> are the bytes read and \<open>ell\<close> is the position of the
  ellipsis. The result holds the bytes and that position.
\<close>

definition hex_val :: "char \<Rightarrow> nat option" where
  "hex_val c =
     (if is_digit c then Some (of_char c - 48)
      else if char_in (CHR ''a'') (CHR ''f'') c then Some (of_char c - 87)
      else if char_in (CHR ''A'') (CHR ''F'') c then Some (of_char c - 55) else None)"

definition is_hex :: "char \<Rightarrow> bool" where
  "is_hex c \<longleftrightarrow> hex_val c \<noteq> None"

definition group_val :: "string \<Rightarrow> nat" where
  "group_val s = foldl (\<lambda>n c. 16 * n + (case hex_val c of None \<Rightarrow> 0 | Some d \<Rightarrow> d)) 0 s"

function (sequential) groups :: "string \<Rightarrow> ip \<Rightarrow> nat option \<Rightarrow> (ip \<times> nat option) option" where
  "groups s bs ell =
     (if length bs \<ge> 16 then None else
      let h = takeWhile is_hex s; rest = dropWhile is_hex s in
      if h = [] \<or> length h > 4 then None
      else if rest \<noteq> [] \<and> hd rest = CHR ''.'' then
        (if (ell = None \<and> length bs \<noteq> 12) \<or> length bs > 12 then None
         else (case parse_ipv4 s of None \<Rightarrow> None | Some v \<Rightarrow> Some (bs @ v, ell)))
      else
        let bs' = bs @ [of_nat (group_val h div 256), of_nat (group_val h)] in
        if rest = [] then Some (bs', ell)
        else if hd rest \<noteq> CHR '':'' \<or> tl rest = [] then None
        else if hd (tl rest) = CHR '':'' then
          (if ell \<noteq> None then None
           else if tl (tl rest) = [] then Some (bs', Some (length bs'))
           else groups (tl (tl rest)) bs' (Some (length bs')))
        else groups (tl rest) bs' ell)"
  by pat_completeness auto
termination
  by (relation "measure (\<lambda>(s, bs, ell). 16 - length bs)") auto

text \<open>The expansion of the ellipsis; without one, all 16 bytes must be there.\<close>

definition expand :: "ip \<times> nat option \<Rightarrow> ip option" where
  "expand r = (let (bs, ell) = r in
     case ell of
       None \<Rightarrow> if length bs = 16 then Some bs else None
     | Some k \<Rightarrow> if length bs < 16 then Some (take k bs @ replicate (16 - length bs) 0 @ drop k bs) else None)"

definition parse_ipv6 :: "string \<Rightarrow> ip option" where
  "parse_ipv6 s =
     (if hasPrefix s ''::'' then
        (if drop 2 s = [] then Some (replicate 16 0)
         else (case groups (drop 2 s) [] (Some 0) of None \<Rightarrow> None | Some r \<Rightarrow> expand r))
      else (case groups s [] None of None \<Rightarrow> None | Some r \<Rightarrow> expand r))"

text \<open>
  \<^verbatim>\<open>net.ParseIP\<close>: sixteen bytes; the first of the characters \<open>.\<close>, \<open>:\<close> and \<open>%\<close> decides the
  kind. An address with a zone is rejected.
\<close>

definition v4InV6Prefix :: ip where
  "v4InV6Prefix = replicate 10 0 @ [0xff, 0xff]"

definition ParseIP :: "string \<Rightarrow> ip option" where
  "ParseIP s =
     (case dropWhile (\<lambda>c. c \<noteq> CHR ''.'' \<and> c \<noteq> CHR '':'' \<and> c \<noteq> CHR ''%'') s of
        [] \<Rightarrow> None
      | c # _ \<Rightarrow> if c = CHR ''.'' then map_option (\<lambda>v. v4InV6Prefix @ v) (parse_ipv4 s)
          else if c = CHR '':'' then (if CHR ''%'' \<in> set s then None else parse_ipv6 s)
          else None)"

definition To4 :: "ip \<Rightarrow> ip option" where
  "To4 p = (if length p = 4 then Some p
     else if length p = 16 \<and> take 12 p = v4InV6Prefix then Some (drop 12 p) else None)"

definition ipv4_str :: "ip \<Rightarrow> string" where
  "ipv4_str p = str_join ''.'' (map (\<lambda>b. nat_str (unat b)) p)"

text \<open>\<^verbatim>\<open>net.CIDRMask\<close> for 32 bits, and the mask applied byte by byte.\<close>

fun mask_bytes :: "nat \<Rightarrow> nat \<Rightarrow> ip" where
  "mask_bytes 0 n = []"
| "mask_bytes (Suc k) n =
     (if n \<ge> 8 then 0xff # mask_bytes k (n - 8) else NOT (drop_bit n 0xff) # mask_bytes k 0)"

definition CIDRMask :: "nat \<Rightarrow> ip" where
  "CIDRMask ones = mask_bytes 4 ones"

definition ip_Mask :: "ip \<Rightarrow> ip \<Rightarrow> ip" where
  "ip_Mask p m = map2 (AND) p m"

text \<open>\<^verbatim>\<open>net.ParseCIDR\<close> of a dotted address and a decimal prefix: the network and its mask.\<close>

definition ParseCIDR :: "string \<Rightarrow> (ip \<times> ip) option" where
  "ParseCIDR s =
     (let a = takeWhile (\<lambda>c. c \<noteq> CHR ''/'') s; r = dropWhile (\<lambda>c. c \<noteq> CHR ''/'') s in
      if r = [] then None
      else (case parse_ipv4 a of None \<Rightarrow> None
        | Some v \<Rightarrow> if tl r \<noteq> [] \<and> list_all is_digit (tl r) \<and> dec_val (tl r) \<le> 32
            then Some (ip_Mask v (CIDRMask (dec_val (tl r))), CIDRMask (dec_val (tl r))) else None))"

definition ipNet_Contains :: "ip \<times> ip \<Rightarrow> ip \<Rightarrow> bool" where
  "ipNet_Contains n p \<longleftrightarrow> ip_Mask p (snd n) = ip_Mask (fst n) (snd n)"

fun mask_ones :: "byte \<Rightarrow> nat \<Rightarrow> nat" where
  "mask_ones b 0 = 0"
| "mask_ones b (Suc k) = (if bit b k then Suc (mask_ones b k) else 0)"

text \<open>\<^verbatim>\<open>simpleMaskLength\<close>: the number of leading ones of a contiguous mask.\<close>

fun simpleMaskLength :: "ip \<Rightarrow> nat" where
  "simpleMaskLength [] = 0"
| "simpleMaskLength (b # bs) = (if b = 0xff then 8 + simpleMaskLength bs else mask_ones b 8)"

definition ipNet_String :: "ip \<times> ip \<Rightarrow> string" where
  "ipNet_String n = ipv4_str (fst n) @ ''/'' @ nat_str (simpleMaskLength (snd n))"

section \<open>The internal network\<close>

fun parse_ips :: "string list \<Rightarrow> goerr + ip list" where
  "parse_ips [] = Inr []"
| "parse_ips (s # ss) =
     (case ParseIP s of None \<Rightarrow> Inl (ErrText (''invalid IP address: '' @ s))
      | Some p \<Rightarrow> (case To4 p of None \<Rightarrow> Inl (ErrText (''IP address is not IPv4: '' @ s))
        | Some p4 \<Rightarrow> (case parse_ips ss of Inl e \<Rightarrow> Inl e | Inr ps \<Rightarrow> Inr (p4 # ps))))"

fun find_network :: "ip \<Rightarrow> ip list \<Rightarrow> nat \<Rightarrow> nat \<Rightarrow> goerr + string" where
  "find_network base parsed prefix 0 = Inl (ErrText ''no /16../24 network contains all IPs'')"
| "find_network base parsed prefix (Suc left) =
     (let s = ipv4_str (ip_Mask base (CIDRMask prefix)) @ ''/'' @ nat_str prefix in
      case ParseCIDR s of
        None \<Rightarrow> Inl (ErrText (''parse CIDR: invalid CIDR address: '' @ s))
      | Some n \<Rightarrow> if list_all (ipNet_Contains n) parsed then Inr (ipNet_String n)
          else find_network base parsed (prefix - 1) left)"

definition calculateNetworkCIDR :: "string list \<Rightarrow> goerr + string" where
  "calculateNetworkCIDR vmIPs =
     (if vmIPs = [] then Inl (ErrText ''vmIPs cannot be empty'')
      else (case parse_ips vmIPs of Inl e \<Rightarrow> Inl e
        | Inr parsed \<Rightarrow> find_network ((hd parsed)[3 := 0]) parsed 24 9))"

section \<open>Printing and parsing\<close>

lemma digit_char_facts: "d < 10 \<Longrightarrow> is_digit (digit_char d) \<and> digit_val (digit_char d) = d \<and> (digit_char d = CHR ''0'' \<longleftrightarrow> d = 0)"
  by (auto simp: is_digit_def digit_val_def digit_char_def char_in_def of_char_of char_of_eq_iff take_bit_nat_def)
    
lemma nat_str_facts: "list_all is_digit (nat_str n) \<and> dec_val (nat_str n) = n \<and> nat_str n \<noteq> [] \<and> (hd (nat_str n) = CHR ''0'' \<longleftrightarrow> n = 0)"
proof (induction n rule: nat_str.induct)
  case (1 n)
  show ?case
  proof (cases "n < 10")
    case True
    then show ?thesis by (simp add: nat_str.simps [of n] digit_char_facts dec_val_def)
  next
    case False
    with 1 have IH: "list_all is_digit (nat_str (n div 10))" "dec_val (nat_str (n div 10)) = n div 10"
      "nat_str (n div 10) \<noteq> []" "hd (nat_str (n div 10)) = CHR ''0'' \<longleftrightarrow> n div 10 = 0" by simp_all
    moreover have "nat_str n = nat_str (n div 10) @ [digit_char (n mod 10)]"
      using False by (subst nat_str.simps) simp
    ultimately show ?thesis using False by (simp add: digit_char_facts dec_val_def hd_append)
  qed
qed

lemma octet_nat_str: "octet (nat_str (unat b)) = Some b"
proof -
  have "unat b \<le> 255" using unsigned_less [of b, where 'a = nat] by simp
  moreover have "nat_str 0 = ''0''" by (subst nat_str.simps) (simp add: digit_char_def, code_simp)
  ultimately show ?thesis
    using nat_str_facts [of "unat b"] by (auto simp: octet_def list_all_iff)
qed

lemma octets_nat_str: "octets (map (\<lambda>b. nat_str (unat b)) p) = Some p"
  by (induction p) (simp_all add: octet_nat_str)

lemma digits_plain: "list_all is_digit s \<Longrightarrow> \<not> is_digit c \<Longrightarrow> c \<notin> set s"
  by (auto simp: list_all_iff)

lemma not_digits [simp]: "\<not> is_digit (CHR ''.'')" "\<not> is_digit (CHR ''/'')"
  by (simp_all add: is_digit_def char_in_def)

lemma parse_ipv4_str: "length p = 4 \<Longrightarrow> parse_ipv4 (ipv4_str p) = Some p"
proof -
  assume p: "length p = 4"
  have "split_on (CHR ''.'') (str_join [CHR ''.''] (map (\<lambda>b. nat_str (unat b)) p)) = map (\<lambda>b. nat_str (unat b)) p"
    using p by (intro split_on_join) (auto simp: list_all_iff dest: digits_plain [OF conjunct1 [OF nat_str_facts] not_digits(1), THEN notE])
  then show ?thesis using p by (simp add: parse_ipv4_def ipv4_str_def octets_nat_str)
qed

lemma str_join_set: "set (str_join sep xs) \<subseteq> set sep \<union> (\<Union>x \<in> set xs. set x)"
  by (induction sep xs rule: str_join.induct) auto

lemma ipv4_str_no_slash: "CHR ''/'' \<notin> set (ipv4_str p)"
proof -
  have "CHR ''/'' \<notin> set (nat_str n)" for n using nat_str_facts [of n] by (intro digits_plain) simp_all
  then show ?thesis using str_join_set [of "''.''" "map (\<lambda>b. nat_str (unat b)) p"]
    by (auto simp: ipv4_str_def)
qed

lemma ParseCIDR_str:
  assumes p: "length p = 4" and "k \<le> 32"
  shows "ParseCIDR (ipv4_str p @ ''/'' @ nat_str k) = Some (ip_Mask p (CIDRMask k), CIDRMask k)"
proof -
  have "CHR ''/'' \<noteq> c" if "c \<in> set (ipv4_str p)" for c using that ipv4_str_no_slash by metis
  then have "takeWhile (\<lambda>c. c \<noteq> CHR ''/'') (ipv4_str p @ CHR ''/'' # nat_str k) = ipv4_str p"
    "dropWhile (\<lambda>c. c \<noteq> CHR ''/'') (ipv4_str p @ CHR ''/'' # nat_str k) = CHR ''/'' # nat_str k"
    by (subst takeWhile_append2 dropWhile_append2; force)+
  with assms show ?thesis by (simp add: ParseCIDR_def parse_ipv4_str nat_str_facts Let_def)
qed

lemma prefix_range: "list_all P [16..<25] \<Longrightarrow> 16 \<le> k \<Longrightarrow> k \<le> 24 \<Longrightarrow> P k"
  unfolding list_all_iff set_upt by auto

lemma CIDRMask_bytes: "16 \<le> k \<Longrightarrow> k \<le> 24 \<Longrightarrow> CIDRMask k = [0xff, 0xff, NOT (mask (24 - k)), 0]"
  by (rule prefix_range [where P = "\<lambda>k. CIDRMask k = [0xff, 0xff, NOT (mask (24 - k)), 0]"]) code_simp

lemma simpleMaskLength_CIDRMask: "16 \<le> k \<Longrightarrow> k \<le> 24 \<Longrightarrow> simpleMaskLength (CIDRMask k) = k"
  by (rule prefix_range [where P = "\<lambda>k. simpleMaskLength (CIDRMask k) = k"]) code_simp

subsection \<open>What the network must satisfy\<close>

text \<open>
  The specification counts: the value of an address, and the equality of the first \<open>k\<close> bits of two
  addresses as an equality of quotients.
\<close>

definition ip_val :: "ip \<Rightarrow> nat" where
  "ip_val p = foldl (\<lambda>n b. 256 * n + unat b) 0 p"

definition same_network :: "nat \<Rightarrow> ip \<Rightarrow> ip \<Rightarrow> bool" where
  "same_network k p q \<longleftrightarrow> ip_val p div 2 ^ (32 - k) = ip_val q div 2 ^ (32 - k)"

lemma and_not_mask_eq_iff:
  "x AND NOT (mask n) = y AND NOT (mask n) \<longleftrightarrow> unat x div 2 ^ n = unat y div 2 ^ n" for x y :: byte
proof -
  have "x AND NOT (mask n) = y AND NOT (mask n) \<longleftrightarrow> drop_bit n x = drop_bit n y"
  proof
    have "drop_bit n (z AND NOT (mask n)) = drop_bit n z" for z :: byte
      by (rule bit_eqI) (auto simp: bit_simps dest: bit_imp_le_length)
    then show "x AND NOT (mask n) = y AND NOT (mask n) \<Longrightarrow> drop_bit n x = drop_bit n y" by metis
  next
    have "z AND NOT (mask n) = push_bit n (drop_bit n z)" for z :: byte
      by (rule bit_eqI) (auto simp: bit_simps)
    then show "drop_bit n x = drop_bit n y \<Longrightarrow> x AND NOT (mask n) = y AND NOT (mask n)" by simp
  qed
  also have "\<dots> \<longleftrightarrow> unat x div 2 ^ n = unat y div 2 ^ n"
    by (simp add: word_unat_eq_iff unat_drop_bit_eq drop_bit_nat_def)
  finally show ?thesis .
qed

lemma div_split: "c < 256 \<Longrightarrow> d < 256 \<Longrightarrow> n \<le> 8 \<Longrightarrow>
   (256 * (256 * m + c) + d) div 2 ^ (8 + n) = m * 2 ^ (8 - n) + c div 2 ^ n" for m c d :: nat
proof -
  assume *: "c < 256" "d < 256" "n \<le> 8"
  have "(256 * (256 * m + c) + d) div 2 ^ (8 + n) = (256 * m + c) div 2 ^ n"
  proof -
    have "(256 * (256 * m + c) + d) div 256 = 256 * m + c" using *(2) by simp
    then show ?thesis by (simp only: power_add div_mult2_eq) simp
  qed
  moreover have "256 = (2 ^ (8 - n) * 2 ^ n :: nat)" using * by (simp flip: power_add)
  then have "256 * m = (m * 2 ^ (8 - n)) * 2 ^ n" by (simp only: mult_ac)
  then have "(256 * m + c) div 2 ^ n = m * 2 ^ (8 - n) + c div 2 ^ n" by (simp only: div_mult_self3 [OF power_not_zero [OF zero_neq_numeral [symmetric]]])
  ultimately show ?thesis by simp
qed

lemma div_pair_eq: "c < 256 \<Longrightarrow> c' < 256 \<Longrightarrow> n \<le> 8 \<Longrightarrow>
   m * 2 ^ (8 - n) + c div 2 ^ n = m' * 2 ^ (8 - n) + c' div 2 ^ n \<longleftrightarrow> m = m' \<and> c div 2 ^ n = c' div 2 ^ n" for m m' c c' :: nat
proof -
  assume *: "c < 256" "c' < 256" "n \<le> 8"
  have lt: "x div 2 ^ n < 2 ^ (8 - n)" if "x < 256" for x :: nat
    using that * by (simp add: less_mult_imp_div_less flip: power_add)
  have "(j * 2 ^ (8 - n) + x div 2 ^ n) div 2 ^ (8 - n) = j" if "x < 256" for j x :: nat
    using lt [OF that] by simp
  with *(1,2) show ?thesis by (metis add_left_cancel)
qed

lemma same_network_iff:
  assumes "length p = 4" "length q = 4" "16 \<le> k" "k \<le> 24"
  shows "ip_Mask p (CIDRMask k) = ip_Mask q (CIDRMask k) \<longleftrightarrow> same_network k p q"
proof -
  obtain a b c d where p: "p = [a, b, c, d]" using assms(1) by (auto simp: numeral_eq_Suc length_Suc_conv)
  obtain a' b' c' d' where q: "q = [a', b', c', d']" using assms(2) by (auto simp: numeral_eq_Suc length_Suc_conv)
  have lt: "unat x < 256" for x :: byte using unsigned_less [of x, where 'a = nat] by simp
  have and_ff: "x AND 0xff = x" for x :: byte 
  proof -
    have "(0xff :: byte) = - 1" by code_simp
    then show ?thesis by (metis and.right_neutral)
  qed
  have k: "32 - k = 8 + (24 - k)" "24 - k \<le> 8" using assms by simp_all
  have ab: "256 * unat a + unat b = 256 * unat a' + unat b' \<longleftrightarrow> a = a' \<and> b = b'"
  proof
    assume eq: "256 * unat a + unat b = 256 * unat a' + unat b'"
    then have "(256 * unat a + unat b) div 256 = (256 * unat a' + unat b') div 256" by simp
    then have "unat a = unat a'" using lt [of b] lt [of b'] by simp
    with eq show "a = a' \<and> b = b'" by (simp add: word_unat_eq_iff)
  qed simp
  have "ip_Mask p (CIDRMask k) = ip_Mask q (CIDRMask k) \<longleftrightarrow>
      (a = a' \<and> b = b') \<and> unat c div 2 ^ (24 - k) = unat c' div 2 ^ (24 - k)"
    using assms(3,4) by (simp add: p q ip_Mask_def CIDRMask_bytes and_ff and_not_mask_eq_iff)
  moreover have "ip_val [v, x, y, z] div 2 ^ (32 - k) =
      (256 * unat v + unat x) * 2 ^ (8 - (24 - k)) + unat y div 2 ^ (24 - k)" for v x y z
    unfolding k(1) using div_split [OF lt lt k(2), of "256 * unat v + unat x" y z] by (simp add: ip_val_def)
  ultimately show ?thesis
    unfolding same_network_def p q by (simp only: div_pair_eq [OF lt lt k(2)] ab)
qed

lemma same_network_mono: "same_network j p q \<Longrightarrow> k \<le> j \<Longrightarrow> j \<le> 32 \<Longrightarrow> same_network k p q"
proof -
  assume *: "same_network j p q" "k \<le> j" "j \<le> 32"
  then have "2 ^ (32 - k) = (2 ^ (32 - j) * 2 ^ (j - k) :: nat)" by (simp flip: power_add)
  with *(1) show ?thesis by (simp add: same_network_def div_mult2_eq)
qed

lemma network_address:
  assumes p: "length p = 4" and k: "16 \<le> k" "k \<le> 24"
  shows "length (ip_Mask p (CIDRMask k)) = 4" "ip_Mask (ip_Mask p (CIDRMask k)) (CIDRMask k) = ip_Mask p (CIDRMask k)"
    "same_network k (ip_Mask p (CIDRMask k)) p" "2 ^ (32 - k) dvd ip_val (ip_Mask p (CIDRMask k))"
    "ip_Mask (p[3 := 0]) (CIDRMask k) = ip_Mask p (CIDRMask k)"
proof -
  obtain a b c d where abcd: "p = [a, b, c, d]" using p by (auto simp: numeral_eq_Suc length_Suc_conv)
  show len: "length (ip_Mask p (CIDRMask k)) = 4" by (simp add: abcd ip_Mask_def CIDRMask_bytes k)
  show idem: "ip_Mask (ip_Mask p (CIDRMask k)) (CIDRMask k) = ip_Mask p (CIDRMask k)"
    by (simp add: abcd ip_Mask_def CIDRMask_bytes k and.assoc)
  show "same_network k (ip_Mask p (CIDRMask k)) p" using idem by (simp add: same_network_iff [OF len p k])
  show "ip_Mask (p[3 := 0]) (CIDRMask k) = ip_Mask p (CIDRMask k)"
    by (simp add: abcd ip_Mask_def CIDRMask_bytes k numeral_3_eq_3)
  have "take_bit (24 - k) (c AND NOT (mask (24 - k))) = 0"
    by (rule bit_eqI) (auto simp: bit_simps)
  then have "take_bit (24 - k) (unat (c AND NOT (mask (24 - k)))) = 0"
    by (metis unsigned_take_bit_eq unsigned_0)
  then have c: "2 ^ (24 - k) dvd unat (c AND NOT (mask (24 - k)))"
    by (simp add: take_bit_eq_mod mod_eq_0_iff_dvd)
  have "(2::nat) ^ (24 - k) dvd 2 ^ 8" by (rule le_imp_power_dvd) (use k in simp)
  then have "(2::nat) ^ (24 - k) dvd 256" by simp
  with c have "2 ^ 8 * 2 ^ (24 - k) dvd 256 * (256 * n + unat (c AND NOT (mask (24 - k))))" for n
    by (intro mult_dvd_mono dvd_add) simp_all
  moreover have "32 - k = 8 + (24 - k)" using k by simp
  moreover have "ip_val (ip_Mask p (CIDRMask k)) =
      256 * (256 * (256 * unat (a AND 0xff) + unat (b AND 0xff)) + unat (c AND NOT (mask (24 - k))))"
    by (simp add: abcd ip_Mask_def CIDRMask_bytes [OF k] ip_val_def)
  ultimately show "2 ^ (32 - k) dvd ip_val (ip_Mask p (CIDRMask k))"
    by (simp only: power_add)
qed

definition network :: "ip \<Rightarrow> nat \<Rightarrow> string" where
  "network p k = ipv4_str (ip_Mask p (CIDRMask k)) @ ''/'' @ nat_str k"

lemma find_network_find:
  assumes p: "length p = 4" and ps: "list_all (\<lambda>q. length q = 4) parsed"
  shows "left \<le> 9 \<Longrightarrow> find_network (p[3 := 0]) parsed (15 + left) left =
     (case find (\<lambda>k. list_all (same_network k p) parsed) (rev [16..<16 + left]) of
        None \<Rightarrow> Inl (ErrText ''no /16../24 network contains all IPs'')
      | Some k \<Rightarrow> Inr (network p k))"
proof (induction left)
  case (Suc left)
  let ?k = "15 + Suc left"
  have k: "16 \<le> ?k" "?k \<le> 24" using Suc.prems by simp_all
  note na = network_address [OF p k]
  have "list_all (ipNet_Contains (ip_Mask p (CIDRMask ?k), CIDRMask ?k)) parsed \<longleftrightarrow> list_all (same_network ?k p) parsed"
  proof (rule list.pred_cong [OF refl])
    fix q assume "q \<in> set parsed"
    with ps have "length q = 4" by (simp add: list_all_iff)
    from same_network_iff [OF p this k] show "ipNet_Contains (ip_Mask p (CIDRMask ?k), CIDRMask ?k) q = same_network ?k p q"
      using na(2) by (auto simp: ipNet_Contains_def)
  qed
  moreover have "ParseCIDR (ipv4_str (ip_Mask p (CIDRMask ?k)) @ ''/'' @ nat_str ?k) = Some (ip_Mask p (CIDRMask ?k), CIDRMask ?k)"
    using ParseCIDR_str [OF na(1), of ?k] k na(2) by simp
  moreover have "ipNet_String (ip_Mask p (CIDRMask ?k), CIDRMask ?k) = network p ?k"
    using simpleMaskLength_CIDRMask [OF k] by (simp add: ipNet_String_def network_def)
  moreover have "[16..<17 + left] = [16..<16 + left] @ [16 + left]"
    using upt_Suc_append [of 16 "16 + left"] by simp
  ultimately show ?case
    using Suc by (simp add: Let_def na(5) [simplified])
qed simp

lemma parse_ips_lengths: "parse_ips ss = Inr ps \<Longrightarrow> length ps = length ss \<and> list_all (\<lambda>q. length q = 4) ps"
  by (induction ss arbitrary: ps) (auto simp: To4_def split: option.splits sum.splits if_splits)

text \<open>The prefix lengths for which one network contains all addresses.\<close>

definition fits :: "ip list \<Rightarrow> nat \<Rightarrow> bool" where
  "fits ps k \<longleftrightarrow> (\<forall>q \<in> set ps. same_network k (hd ps) q)"

lemma calculateNetworkCIDR_find:
  assumes "parse_ips ss = Inr ps" "ss \<noteq> []"
  shows "calculateNetworkCIDR ss = (case find (fits ps) (rev [16..<25]) of
     None \<Rightarrow> Inl (ErrText ''no /16../24 network contains all IPs'') | Some k \<Rightarrow> Inr (network (hd ps) k))"
proof -
  from parse_ips_lengths [OF assms(1)] assms(2) have ps: "ps \<noteq> []" "list_all (\<lambda>q. length q = 4) ps" by auto
  then have "length (hd ps) = 4" by (simp add: list_all_iff)
  moreover have "fits ps = (\<lambda>k. list_all (same_network k (hd ps)) ps)" by (auto simp: fits_def list_all_iff)
  ultimately show ?thesis
    using find_network_find [of "hd ps" ps 9] ps assms by (simp add: calculateNetworkCIDR_def del: upt_rec_numeral)
qed

lemma find_rev_upt:
  assumes "find P (rev [a..<b]) = Some k"
  shows "P k" "a \<le> k" "k < b" "\<And>j. k < j \<Longrightarrow> j < b \<Longrightarrow> \<not> P j"
proof -
  from assms obtain i where i: "i < length (rev [a..<b])" "P (rev [a..<b] ! i)" "rev [a..<b] ! i = k"
    "\<And>j. j < i \<Longrightarrow> \<not> P (rev [a..<b] ! j)" by (auto simp: find_Some_iff)
  then show "P k" "a \<le> k" "k < b" by (auto simp: rev_nth)
  fix j assume j: "k < j" "j < b"
  with i have "b - 1 - j < i" "rev [a..<b] ! (b - 1 - j) = j" by (auto simp: rev_nth)
  with i(4) show "\<not> P j" by metis
qed


section \<open>The bootstrap parameters\<close>

record bootstrap_params =
  bp_PodSubnetCIDR :: string
  bp_ServiceSubnetCIDR :: string
  bp_KubernetesVersion :: string
  bp_ClusterDomain :: string
  bp_ImagesRepo :: string
  bp_RegistryDockerCfg :: string
  bp_PublicDomainTemplate :: string
  bp_InternalNetworkCIDR :: string
  bp_DevBranch :: string

text \<open>
  The embedded template consists of literal text and references to fields; executing it on a
  structure that has the fields does not fail. The text of the file is a parameter.
\<close>

type_synonym template = "(string + (bootstrap_params \<Rightarrow> string)) list"

definition renderBootstrapConfig :: "template \<Rightarrow> bootstrap_params \<Rightarrow> string" where
  "renderBootstrapConfig tmpl p = concat (map (\<lambda>x. case x of Inl lit \<Rightarrow> lit | Inr field \<Rightarrow> field p) tmpl)"

definition vm_ips :: "cluster_node list \<Rightarrow> string list" where
  "vm_ips ns = map IPAddress (filter (\<lambda>m. node_hostType m = HostTypeVM \<and> IPAddress m \<noteq> []) ns)"

fun first_missing :: "(string \<times> string) list \<Rightarrow> string option" where
  "first_missing [] = None"
| "first_missing ((v, msg) # rs) = (if v = [] then Some msg else first_missing rs)"

definition required_params :: "dkp_parameters \<Rightarrow> (string \<times> string) list" where
  "required_params d =
     [(PodSubnetCIDR d, ''dkpParameters.podSubnetCIDR is required''),
      (ServiceSubnetCIDR d, ''dkpParameters.serviceSubnetCIDR is required''),
      (KubernetesVersion d, ''dkpParameters.kubernetesVersion is required''),
      (ClusterDomain d, ''dkpParameters.clusterDomain is required''),
      (RegistryRepo d, ''dkpParameters.registryRepo is required'')]"

definition all_vm_ips :: "cluster_definition \<Rightarrow> string list" where
  "all_vm_ips def = vm_ips (Masters def) @ vm_ips (Workers def) @
     (case Setup def of None \<Rightarrow> [] | Some s \<Rightarrow> vm_ips [s])"

definition buildBootstrapParams :: "cluster_definition option \<Rightarrow> string \<Rightarrow> goerr + bootstrap_params" where
  "buildBootstrapParams dopt registryDockerCfg =
     (case dopt of None \<Rightarrow> Inl (ErrText ''cluster definition is nil'')
      | Some def \<Rightarrow>
     case first_missing (required_params (DKPParameters def)) of Some msg \<Rightarrow> Inl (ErrText msg)
      | None \<Rightarrow>
     if all_vm_ips def = [] then Inl (ErrText ''no VM IP addresses in cluster definition (provision VMs first)'')
     else if vm_ips (Masters def) = [] then Inl (ErrText ''no master IP address in cluster definition'')
     else (case calculateNetworkCIDR (all_vm_ips def) of
         Inl e \<Rightarrow> Inl (wrapf ''calculate internal network CIDR: '' e)
       | Inr cidr \<Rightarrow>
           let d = DKPParameters def in
           Inr \<lparr>bp_PodSubnetCIDR = PodSubnetCIDR d, bp_ServiceSubnetCIDR = ServiceSubnetCIDR d,
             bp_KubernetesVersion = KubernetesVersion d, bp_ClusterDomain = ClusterDomain d,
             bp_ImagesRepo = RegistryRepo d, bp_RegistryDockerCfg = registryDockerCfg,
             bp_PublicDomainTemplate = ''%s.'' @ hd (vm_ips (Masters def)) @ ''.sslip.io'',
             bp_InternalNetworkCIDR = cidr,
             bp_DevBranch = (if DevBranch d = [] then ''main'' else DevBranch d)\<rparr>))"

section \<open>Properties\<close>

lemma calculateNetworkCIDR_contains:
  assumes "calculateNetworkCIDR ss = Inr cidr"
  shows "\<exists>n ps. ParseCIDR cidr = Some n \<and> ipNet_String n = cidr \<and> parse_ips ss = Inr ps \<and>
     list_all (ipNet_Contains n) ps"
proof -
  from assms obtain ps where ps: "parse_ips ss = Inr ps" "ss \<noteq> []"
    by (auto simp: calculateNetworkCIDR_def split: if_splits sum.splits)
  from calculateNetworkCIDR_find [OF ps] assms obtain k where
    k: "find (fits ps) (rev [16..<25]) = Some k" and cidr: "cidr = network (hd ps) k"
    by (auto split: option.splits)
  note fk = find_rev_upt [OF k]
  have k24: "k \<le> 24" using fk(3) by simp
  let ?n = "(ip_Mask (hd ps) (CIDRMask k), CIDRMask k)"
  have len: "list_all (\<lambda>q. length q = 4) ps" "length (hd ps) = 4"
    using parse_ips_lengths [OF ps(1)] ps(2) by (cases ps; auto)+
  note na = network_address [OF len(2) fk(2) k24]
  have "ParseCIDR cidr = Some ?n" using ParseCIDR_str [OF na(1), of k] k24 na(2) by (simp add: cidr network_def)
  moreover have "ipNet_String ?n = cidr"
    using simpleMaskLength_CIDRMask [OF fk(2) k24] by (simp add: ipNet_String_def cidr network_def)
  moreover have "ipNet_Contains ?n q" if "q \<in> set ps" for q
    using that len fk(1) same_network_iff [OF len(2) _ fk(2) k24, of q] na(2)
    by (auto simp: ipNet_Contains_def list_all_iff fits_def)
  ultimately show ?thesis using ps(1) by (auto simp: list_all_iff)
qed

lemma parse_ips_mem:
  "parse_ips ss = Inr ps \<Longrightarrow> s \<in> set ss \<Longrightarrow> \<exists>a b. ParseIP s = Some a \<and> To4 a = Some b \<and> b \<in> set ps"
  by (induction ss arbitrary: ps) (fastforce split: option.splits sum.splits)+

lemma first_vm_ip:
  "vm_ips ns \<noteq> [] \<Longrightarrow> \<exists>m ms ip. ns = ms @ m # drop (length ms + 1) ns \<and> vm_ips ms = [] \<and>
     vm_ips [m] = [ip] \<and> hd (vm_ips ns) = ip"
proof (induction ns)
  case (Cons n ns)
  show ?case
  proof (cases "node_hostType n = HostTypeVM \<and> IPAddress n \<noteq> []")
    case True
    then show ?thesis by (intro exI [of _ n] exI [of _ "[]"] exI [of _ "IPAddress n"]) (simp add: vm_ips_def)
  next
    case False
    then have n: "vm_ips (n # xs) = vm_ips xs" for xs by (auto simp: vm_ips_def)
    with Cons obtain m ms where "ns = ms @ m # drop (length ms + 1) ns" "vm_ips ms = []"
      "vm_ips [m] = [hd (vm_ips ns)]" by auto
    with n show ?thesis by (intro exI [of _ m] exI [of _ "n # ms"] exI [of _ "hd (vm_ips ns)"]) simp
  qed
qed (simp add: vm_ips_def)

text \<open>
  C34. \<^verbatim>\<open>calculateNetworkCIDR\<close> finds the smallest network between /16 and /24 that contains all
  addresses: it succeeds exactly when the addresses agree on their first 16 bits, and then prints an
  address without host bits and the longest prefix, at most 24, on which all of them agree.\<close>

theorem network_cidr_spec:
  assumes "parse_ips ss = Inr ps" "ss \<noteq> []"
  shows "if fits ps 16
     then (\<exists>k net. 16 \<le> k \<and> k \<le> 24 \<and> fits ps k \<and> (\<forall>j. fits ps j \<and> j \<le> 24 \<longrightarrow> j \<le> k) \<and>
        length net = 4 \<and> list_all (same_network k net) ps \<and> ip_val net mod 2 ^ (32 - k) = 0 \<and>
        calculateNetworkCIDR ss = Inr (ipv4_str net @ ''/'' @ nat_str k))
     else calculateNetworkCIDR ss = Inl (ErrText ''no /16../24 network contains all IPs'')"
proof (cases "find (fits ps) (rev [16..<25])")
  case None
  then have "\<not> fits ps 16" by (auto split: if_splits)
  with None calculateNetworkCIDR_find [OF assms] show ?thesis by simp
next
  case (Some k)
  note k = find_rev_upt [OF Some]
  have "length (hd ps) = 4" using parse_ips_lengths [OF assms(1)] assms(2)
    by (cases ps) auto
  note na = network_address [OF this k(2)]
  have k24: "k \<le> 24" using k(3) by simp
  have "fits ps 16" using k(1,2) k24 unfolding fits_def by (auto intro: same_network_mono)
  moreover have "\<forall>j. fits ps j \<and> j \<le> 24 \<longrightarrow> j \<le> k" using k(4) by (metis leI le_imp_less_Suc Suc_numeral semiring_norm(5) semiring_norm(8))
  moreover have "list_all (same_network k (ip_Mask (hd ps) (CIDRMask k))) ps"
    using k(1) na(3) [OF k24] by (simp add: fits_def list_all_iff same_network_def)
  moreover have "calculateNetworkCIDR ss = Inr (ipv4_str (ip_Mask (hd ps) (CIDRMask k)) @ ''/'' @ nat_str k)"
    using calculateNetworkCIDR_find [OF assms] Some by (simp add: network_def)
  moreover have "ip_val (ip_Mask (hd ps) (CIDRMask k)) mod 2 ^ (32 - k) = 0"
    using na(4) [OF k24] by (simp only: mod_eq_0_iff_dvd)
  ultimately have "16 \<le> k \<and> k \<le> 24 \<and> fits ps k \<and> (\<forall>j. fits ps j \<and> j \<le> 24 \<longrightarrow> j \<le> k) \<and>
      length (ip_Mask (hd ps) (CIDRMask k)) = 4 \<and> list_all (same_network k (ip_Mask (hd ps) (CIDRMask k))) ps \<and>
      ip_val (ip_Mask (hd ps) (CIDRMask k)) mod 2 ^ (32 - k) = 0 \<and>
      calculateNetworkCIDR ss = Inr (ipv4_str (ip_Mask (hd ps) (CIDRMask k)) @ ''/'' @ nat_str k)"
    using k(1,2) k24 na(1) [OF k24] by - (intro conjI; assumption)
  then show ?thesis
    unfolding if_P [OF \<open>fits ps 16\<close>] by (rule exI [where x = k, OF exI [where x = "ip_Mask (hd ps) (CIDRMask k)"]])
qed

theorem network_cidr_spec_witness:
  "calculateNetworkCIDR [''10.0.5.7'', ''10.0.4.9''] = Inr ''10.0.4.0/23'' \<and>
   calculateNetworkCIDR [''10.0.5.7'', ''10.1.4.9''] = Inl (ErrText ''no /16../24 network contains all IPs'') \<and>
   fits [[10, 0, 5, 7], [10, 0, 4, 9]] 16 \<and> \<not> fits [[10, 0, 5, 7], [10, 1, 4, 9]] 16"
proof -
  have p: "parse_ips [''10.0.5.7'', ''10.0.4.9''] = Inr [[10, 0, 5, 7], [10, 0, 4, 9]]"
    "parse_ips [''10.0.5.7'', ''10.1.4.9''] = Inr [[10, 0, 5, 7], [10, 1, 4, 9]]" by code_simp+
  have f: "fits [[10, 0, 5, 7], [10, 0, 4, 9]] 16" "\<not> fits [[10, 0, 5, 7], [10, 1, 4, 9]] 16"
    by (simp_all add: fits_def same_network_def ip_val_def)
  have "calculateNetworkCIDR [''10.0.5.7'', ''10.0.4.9''] = Inr ''10.0.4.0/23''" by code_simp
  with network_cidr_spec [OF p(1)] network_cidr_spec [OF p(2)] f show ?thesis by simp
qed

text \<open>
  The CIDR that \<^verbatim>\<open>calculateNetworkCIDR\<close> prints is canonical: parsing it gives a network that
  prints as the same text and contains every one of the given addresses.\<close>

lemma network_cidr_roundtrip:
  assumes "calculateNetworkCIDR ss = Inr cidr"
  shows "\<exists>n ps. ParseCIDR cidr = Some n \<and> ipNet_String n = cidr \<and> parse_ips ss = Inr ps \<and>
     list_all (ipNet_Contains n) ps"
  by (rule calculateNetworkCIDR_contains [OF assms])

text \<open>
  When \<^verbatim>\<open>buildBootstrapParams\<close> succeeds, the internal network of the configuration contains the
  address of every virtual machine of the definition, every required parameter is filled in, and
  the public domain is the one of the first master that has an address.\<close>

lemma bootstrap_params_spec:
  assumes "buildBootstrapParams (Some def) dockerCfg = Inr p"
  shows "(\<exists>n. ParseCIDR (bp_InternalNetworkCIDR p) = Some n \<and>
      (\<forall>m \<in> set (Masters def @ Workers def @ (case Setup def of None \<Rightarrow> [] | Some s \<Rightarrow> [s])).
         node_hostType m = HostTypeVM \<and> IPAddress m \<noteq> [] \<longrightarrow>
           (\<exists>a b. ParseIP (IPAddress m) = Some a \<and> To4 a = Some b \<and> ipNet_Contains n b))) \<and>
    [] \<notin> {bp_PodSubnetCIDR p, bp_ServiceSubnetCIDR p, bp_KubernetesVersion p, bp_ClusterDomain p,
      bp_ImagesRepo p, bp_DevBranch p, bp_InternalNetworkCIDR p} \<and>
    (\<exists>m ms ip. Masters def = ms @ m # drop (length ms + 1) (Masters def) \<and> vm_ips ms = [] \<and>
       vm_ips [m] = [ip] \<and> bp_PublicDomainTemplate p = ''%s.'' @ ip @ ''.sslip.io'')"
proof -
  from assms obtain cidr where cidr: "calculateNetworkCIDR (all_vm_ips def) = Inr cidr"
    and masters: "vm_ips (Masters def) \<noteq> []" and p: "bp_InternalNetworkCIDR p = cidr"
      "bp_PublicDomainTemplate p = ''%s.'' @ hd (vm_ips (Masters def)) @ ''.sslip.io''"
    and req: "[] \<notin> {bp_PodSubnetCIDR p, bp_ServiceSubnetCIDR p, bp_KubernetesVersion p, bp_ClusterDomain p,
      bp_ImagesRepo p, bp_DevBranch p}"
    by (auto simp: buildBootstrapParams_def required_params_def Let_def split: option.splits if_splits sum.splits)
  from calculateNetworkCIDR_contains [OF cidr] obtain n ps where n: "ParseCIDR cidr = Some n"
    "parse_ips (all_vm_ips def) = Inr ps" "list_all (ipNet_Contains n) ps" by blast
  have parsed: "\<exists>a b. ParseIP s = Some a \<and> To4 a = Some b \<and> ipNet_Contains n b" if "s \<in> set (all_vm_ips def)" for s
    using parse_ips_mem [OF n(2) that] n(3) by (auto simp: list_all_iff)
  have listed: "IPAddress m \<in> set (all_vm_ips def)"
    if "m \<in> set (Masters def @ Workers def @ (case Setup def of None \<Rightarrow> [] | Some s \<Rightarrow> [s]))"
      "node_hostType m = HostTypeVM \<and> IPAddress m \<noteq> []" for m
    using that by (auto simp: all_vm_ips_def vm_ips_def split: option.splits)
  have "\<forall>m \<in> set (Masters def @ Workers def @ (case Setup def of None \<Rightarrow> [] | Some s \<Rightarrow> [s])).
       node_hostType m = HostTypeVM \<and> IPAddress m \<noteq> [] \<longrightarrow>
         (\<exists>a b. ParseIP (IPAddress m) = Some a \<and> To4 a = Some b \<and> ipNet_Contains n b)"
    by (intro ballI impI parsed listed)
  moreover have "cidr \<noteq> []" using n(1) by (auto simp: ParseCIDR_def)
  moreover obtain m ms ip where "Masters def = ms @ m # drop (length ms + 1) (Masters def)" "vm_ips ms = []"
    "vm_ips [m] = [ip]" "hd (vm_ips (Masters def)) = ip" using first_vm_ip [OF masters] by blast
  ultimately show ?thesis unfolding p using n(1) req by blast
qed

definition sample_bootstrap :: cluster_definition where
  "sample_bootstrap =
    \<lparr>Masters = [DefaultSetupVM\<lparr>Hostname := ''master-1'', IPAddress := ''10.0.5.7''\<rparr>],
     Workers = [DefaultSetupVM\<lparr>Hostname := ''worker-1'', IPAddress := ''10.0.4.9''\<rparr>], Setup = None,
     DKPParameters = \<lparr>KubernetesVersion = ''1.31'', PodSubnetCIDR = ''10.111.0.0/16'',
       ServiceSubnetCIDR = ''10.222.0.0/16'', ClusterDomain = ''cluster.local'',
       RegistryRepo = ''dev-registry.deckhouse.io/sys/deckhouse-oss'', DevBranch = [], Modules = []\<rparr>\<rparr>"

end
