(* ===== verification/Dvp_Config.thy ===== *)
theory Dvp_Config
  imports Cluster_Config
begin

text \<open>
  \<^verbatim>\<open>internal/provisioning/dvp/config.go\<close> and \<^verbatim>\<open>kubeconfig.go\<close>: the settings of the DVP provider, their
  validation, and the credentials they resolve to; and \<^verbatim>\<open>pkg/clusterprovider\<close>'s provider mode. The
  decoder of environment variables (\<^verbatim>\<open>caarlos0/env\<close>) and the SSH key library
  (\<^verbatim>\<open>golang.org/x/crypto/ssh\<close>) are parameters; the environment and the files are what the process
  finds while it resolves the credentials.
\<close>

section \<open>Paths\<close>

text \<open>\<^verbatim>\<open>os.Expand\<close>, with the name that follows a dollar sign and the number of bytes it takes.\<close>

definition isShellSpecialVar :: "char \<Rightarrow> bool" where
  "isShellSpecialVar c \<longleftrightarrow> c \<in> set ''*#$@!?-0123456789''"

definition getShellName :: "string \<Rightarrow> string \<times> nat" where
  "getShellName s =
     (if hd s = CHR ''{'' then
        (if length s > 2 \<and> isShellSpecialVar (s ! 1) \<and> s ! 2 = CHR ''}'' then ([s ! 1], 3)
         else (let n = takeWhile (\<lambda>c. c \<noteq> CHR ''}'') (tl s) in
           if length n = length (tl s) then ([], 1) else if n = [] then ([], 2) else (n, length n + 2)))
      else if isShellSpecialVar (hd s) then ([hd s], 1)
      else (takeWhile name_char s, length (takeWhile name_char s)))"

function os_Expand :: "(string \<Rightarrow> string) \<Rightarrow> string \<Rightarrow> string" where
  "os_Expand m [] = []"
| "os_Expand m (c # s) =
     (if c = CHR ''$'' \<and> s \<noteq> [] then
        (let (n, k) = getShellName s in
         (if n = [] \<and> k > 0 then [] else if n = [] then [c] else m n) @ os_Expand m (drop k s))
      else c # os_Expand m s)"
  by pat_completeness auto
termination
  by (relation "measure (\<lambda>(m, s). length s)") auto

text \<open>\<^verbatim>\<open>filepath.Clean\<close> and \<^verbatim>\<open>filepath.Join\<close> of two elements, on Unix.\<close>

fun clean_steps :: "bool \<Rightarrow> string list \<Rightarrow> string list \<Rightarrow> string list" where
  "clean_steps rooted acc [] = rev acc"
| "clean_steps rooted acc (p # ps) =
     (if p = [] \<or> p = ''.'' then clean_steps rooted acc ps
      else if p = ''..'' then
        (if acc \<noteq> [] \<and> hd acc \<noteq> ''..'' then clean_steps rooted (tl acc) ps
         else if rooted then clean_steps rooted acc ps
         else clean_steps rooted (''..'' # acc) ps)
      else clean_steps rooted (p # acc) ps)"

definition path_Clean :: "string \<Rightarrow> string" where
  "path_Clean s =
     (let rooted = hasPrefix s ''/''; r = str_join ''/'' (clean_steps rooted [] (split_on (CHR ''/'') s)) in
      if rooted then ''/'' @ r else if r = [] then ''.'' else r)"

definition path_Join :: "string \<Rightarrow> string \<Rightarrow> string" where
  "path_Join a b = (if a \<noteq> [] then path_Clean (a @ ''/'' @ b) else if b \<noteq> [] then path_Clean b else [])"

text \<open>\<^verbatim>\<open>path.Dir\<close>: everything up to the last slash, cleaned.\<close>

definition path_Dir :: "string \<Rightarrow> string" where
  "path_Dir s = path_Clean (rev (dropWhile (\<lambda>c. c \<noteq> CHR ''/'') (rev s)))"

section \<open>The configuration\<close>

definition apiServerRemotePort :: int where "apiServerRemotePort = 6445"

definition ErrSSHUserRequired :: goerr where
  "ErrSSHUserRequired = ErrSentinel ''E2E_DVP_BASE_CLUSTER_SSH_USER is required''"
definition ErrSSHHostRequired :: goerr where
  "ErrSSHHostRequired = ErrSentinel ''E2E_DVP_BASE_CLUSTER_SSH_HOST is required''"
definition ErrKubeconfigSource :: goerr where
  "ErrKubeconfigSource = ErrSentinel (''exactly one of E2E_DVP_BASE_CLUSTER_KUBECONFIG_PATH or '' @
     ''E2E_DVP_BASE_CLUSTER_KUBECONFIG must be set'')"
definition ErrSSHKeySource :: goerr where
  "ErrSSHKeySource = ErrSentinel (''exactly one of E2E_DVP_BASE_CLUSTER_SSH_PRIVATE_KEY_PATH or '' @
     ''E2E_DVP_BASE_CLUSTER_SSH_PRIVATE_KEY must be set'')"
definition ErrJumpHostIncomplete :: goerr where
  "ErrJumpHostIncomplete = ErrSentinel (''jump host requires E2E_DVP_BASE_CLUSTER_SSH_JUMP_HOST, '' @
     ''E2E_DVP_BASE_CLUSTER_SSH_JUMP_USER and exactly one of '' @
     ''E2E_DVP_BASE_CLUSTER_SSH_JUMP_PRIVATE_KEY_PATH or E2E_DVP_BASE_CLUSTER_SSH_JUMP_PRIVATE_KEY'')"
definition ErrEmptyKubeconfig :: goerr where
  "ErrEmptyKubeconfig = ErrSentinel ''kubeconfig is empty''"
definition ErrDKPLicenseKeyRequired :: goerr where
  "ErrDKPLicenseKeyRequired = ErrSentinel ''E2E_DVP_DKP_LICENSE_KEY is required for bootstrap''"
definition ErrRegistryDockerCfgRequired :: goerr where
  "ErrRegistryDockerCfgRequired = ErrSentinel ''E2E_DVP_REGISTRY_DOCKER_CFG is required for bootstrap''"

lemmas sentinel_defs = ErrSSHUserRequired_def ErrSSHHostRequired_def ErrKubeconfigSource_def ErrSSHKeySource_def
  ErrJumpHostIncomplete_def ErrEmptyKubeconfig_def ErrDKPLicenseKeyRequired_def ErrRegistryDockerCfgRequired_def

record dvp_config =
  SSHUser :: string
  SSHHost :: string
  SSHPassphrase :: string
  SSHKeyPath :: string
  SSHKeyContent :: string
  SSHJumpHost :: string
  SSHJumpUser :: string
  SSHJumpPassphrase :: string
  SSHJumpKeyPath :: string
  SSHJumpKeyContent :: string
  KubeConfigPath :: string
  KubeConfigContent :: string
  dvp_Namespace :: string
  dvp_StorageClass :: string
  dvp_VMClassName :: string
  dvp_DefaultVMClassName :: string
  VMSSHUser :: string
  DKPLicenseKey :: string
  RegistryDockerCfg :: string

record credentials =
  cred_Kubeconfig :: string
  cred_SSHKey :: string
  cred_JumpKey :: string

definition exactlyOne :: "bool \<Rightarrow> bool \<Rightarrow> bool" where
  "exactlyOne a b \<longleftrightarrow> a \<noteq> b"

text \<open>\<^verbatim>\<open>errors.Join\<close>: nil when there is nothing to join.\<close>

definition errors_Join :: "goerr list \<Rightarrow> goerr option" where
  "errors_Join es = (if es = [] then None else Some (ErrJoin es))"

definition JumpHostConfigured :: "dvp_config \<Rightarrow> bool" where
  "JumpHostConfigured c \<longleftrightarrow> SSHJumpHost c \<noteq> [] \<and> SSHJumpUser c \<noteq> [] \<and>
     exactlyOne (SSHJumpKeyPath c \<noteq> []) (SSHJumpKeyContent c \<noteq> [])"

definition jumpHostMentioned :: "dvp_config \<Rightarrow> bool" where
  "jumpHostMentioned c \<longleftrightarrow> SSHJumpHost c \<noteq> [] \<or> SSHJumpUser c \<noteq> [] \<or> SSHJumpKeyPath c \<noteq> [] \<or>
     SSHJumpKeyContent c \<noteq> []"

definition config_problems :: "dvp_config \<Rightarrow> goerr list" where
  "config_problems c =
     ((if SSHUser c = [] then [ErrSSHUserRequired] else []) @
      (if SSHHost c = [] then [ErrSSHHostRequired] else []) @
      (if \<not> exactlyOne (KubeConfigPath c \<noteq> []) (KubeConfigContent c \<noteq> []) then [ErrKubeconfigSource] else []) @
      (if \<not> exactlyOne (SSHKeyPath c \<noteq> []) (SSHKeyContent c \<noteq> []) then [ErrSSHKeySource] else []) @
      (if jumpHostMentioned c \<and> \<not> JumpHostConfigured c then [ErrJumpHostIncomplete] else []))"

definition Config_Validate :: "dvp_config \<Rightarrow> goerr option" where
  "Config_Validate c = errors_Join (config_problems c)"

definition ValidateForBootstrap :: "dvp_config \<Rightarrow> goerr option" where
  "ValidateForBootstrap c = errors_Join
     ((if DKPLicenseKey c = [] then [ErrDKPLicenseKeyRequired] else []) @
      (if RegistryDockerCfg c = [] then [ErrRegistryDockerCfgRequired] else []))"

definition LoadConfig ::
  "((string \<rightharpoonup> string) \<Rightarrow> goerr + dvp_config) \<Rightarrow> (string \<rightharpoonup> string) \<Rightarrow> goerr + dvp_config" where
  "LoadConfig parse environ =
     (case parse environ of Inl e \<Rightarrow> Inl e
      | Inr cfg \<Rightarrow> (case Config_Validate cfg of Some e \<Rightarrow> Inl e | None \<Rightarrow> Inr cfg))"

section \<open>Credentials\<close>

record os_env =
  os_getenv :: "string \<Rightarrow> string"
  os_readFile :: "string \<Rightarrow> goerr + string"

definition os_UserHomeDir :: "os_env \<Rightarrow> goerr + string" where
  "os_UserHomeDir os = (if os_getenv os ''HOME'' = [] then Inl (ErrText ''$HOME is not defined'')
     else Inr (os_getenv os ''HOME''))"

definition expandUserPath :: "os_env \<Rightarrow> string \<Rightarrow> goerr + string" where
  "expandUserPath os p =
     (let expanded = os_Expand (os_getenv os) p in
      if \<not> hasPrefix expanded ''~'' then Inr expanded
      else (case os_UserHomeDir os of
          Inl e \<Rightarrow> Inl (wrapf (''resolve home directory for '' @ go_quote p @ '': '') e)
        | Inr home \<Rightarrow> if expanded = ''~'' then Inr home
            else Inr (path_Join home (trimPrefix expanded ''~/''))))"

definition resolveBytes :: "os_env \<Rightarrow> string \<Rightarrow> string \<Rightarrow> goerr + string" where
  "resolveBytes os p content =
     (if content \<noteq> [] then Inr content
      else (case expandUserPath os p of Inl e \<Rightarrow> Inl e
        | Inr expanded \<Rightarrow> (case os_readFile os expanded of
            Inl e \<Rightarrow> Inl (wrapf (''read '' @ go_quote expanded @ '': '') e) | Inr raw \<Rightarrow> Inr raw)))"

definition Resolve :: "os_env \<Rightarrow> dvp_config \<Rightarrow> goerr + credentials" where
  "Resolve os c =
     (case resolveBytes os (KubeConfigPath c) (KubeConfigContent c) of
        Inl e \<Rightarrow> Inl (wrapf ''resolving kubeconfig: '' e)
      | Inr kube \<Rightarrow>
      if trimSpace kube = [] then Inl ErrEmptyKubeconfig
      else (case resolveBytes os (SSHKeyPath c) (SSHKeyContent c) of
        Inl e \<Rightarrow> Inl (wrapf ''resolving ssh private key: '' e)
      | Inr key \<Rightarrow>
      if JumpHostConfigured c then
        (case resolveBytes os (SSHJumpKeyPath c) (SSHJumpKeyContent c) of
           Inl e \<Rightarrow> Inl (wrapf ''resolving jump ssh private key: '' e)
         | Inr jump \<Rightarrow> Inr \<lparr>cred_Kubeconfig = kube, cred_SSHKey = key, cred_JumpKey = jump\<rparr>)
      else Inr \<lparr>cred_Kubeconfig = kube, cred_SSHKey = key, cred_JumpKey = []\<rparr>))"

section \<open>Keys\<close>

record 'k key_lib =
  kl_ParsePrivateKey :: "string \<Rightarrow> goerr + 'k"
  kl_passphraseMissing :: "goerr \<Rightarrow> bool"
  kl_ParsePrivateKeyWithPassphrase :: "string \<Rightarrow> string \<Rightarrow> goerr + 'k"
  kl_MarshalAuthorizedKey :: "'k \<Rightarrow> string"

definition parsePrivateKeySigner :: "'k key_lib \<Rightarrow> string \<Rightarrow> string \<Rightarrow> goerr + 'k" where
  "parsePrivateKeySigner kl raw passphrase =
     (case kl_ParsePrivateKey kl raw of Inr k \<Rightarrow> Inr k
      | Inl err \<Rightarrow>
         if \<not> kl_passphraseMissing kl err then Inl (wrapf ''parse private key: '' err)
         else if passphrase = []
         then Inl (ErrText ''private key is passphrase-protected but no passphrase was provided'')
         else (case kl_ParsePrivateKeyWithPassphrase kl raw passphrase of
             Inl e \<Rightarrow> Inl (wrapf ''decrypt private key with passphrase: '' e) | Inr k \<Rightarrow> Inr k))"

definition publicKeyFromPrivateKey :: "'k key_lib \<Rightarrow> string \<Rightarrow> string \<Rightarrow> goerr + string" where
  "publicKeyFromPrivateKey kl pem passphrase =
     (case parsePrivateKeySigner kl pem passphrase of Inl e \<Rightarrow> Inl e
      | Inr k \<Rightarrow> (let key = trimSpace (kl_MarshalAuthorizedKey kl k) in
          if key = [] then Inl (ErrText ''derived SSH public key is empty'') else Inr key))"

section \<open>The provider mode\<close>

definition ModeDVP :: string where "ModeDVP = ''dvp''"
definition ModeCommander :: string where "ModeCommander = ''commander''"

text \<open>\<^verbatim>\<open>UnmarshalText\<close> assigns the receiver on success and leaves it alone on failure.\<close>

definition UnmarshalText :: "string \<Rightarrow> string \<Rightarrow> goerr option \<times> string" where
  "UnmarshalText text old =
     (if text = ModeDVP \<or> text = ModeCommander then (None, text)
      else (Some (ErrText (''invalid MODE: '' @ go_quote text @ '' (allowed: dvp, commander)'')), old))"

definition mode_String :: "string \<Rightarrow> string" where
  "mode_String m = m"

record cluster_config =
  cc_ClusterProvider :: string
  cc_ClusterBootstrapConfigPath :: string

text \<open>\<^verbatim>\<open>env.Parse\<close> is a parameter that calls \<^verbatim>\<open>UnmarshalText\<close> for the mode.\<close>

definition NewClusterConfig :: "((string \<Rightarrow> goerr option \<times> string) \<Rightarrow> goerr + cluster_config) \<Rightarrow> goerr + cluster_config" where
  "NewClusterConfig parse = parse (\<lambda>text. UnmarshalText text [])"

section \<open>Properties\<close>

lemma errors_is_Join: "errors_is (ErrJoin es) t \<longleftrightarrow> ErrJoin es = t \<or> (\<exists>e \<in> set es. errors_is e t)"
  by (auto simp: errors_is_def)

lemma errors_is_sentinel [simp]: "errors_is (ErrSentinel s) t \<longleftrightarrow> t = ErrSentinel s"
  by (auto simp: errors_is_def)

lemma validate_nil:
  "Config_Validate c = None \<longleftrightarrow> SSHUser c \<noteq> [] \<and> SSHHost c \<noteq> [] \<and>
     exactlyOne (KubeConfigPath c \<noteq> []) (KubeConfigContent c \<noteq> []) \<and>
     exactlyOne (SSHKeyPath c \<noteq> []) (SSHKeyContent c \<noteq> []) \<and> (jumpHostMentioned c \<longrightarrow> JumpHostConfigured c)"
  by (auto simp: Config_Validate_def config_problems_def errors_Join_def)

lemma jump_configured_mentioned: "JumpHostConfigured c \<Longrightarrow> jumpHostMentioned c"
  by (simp add: JumpHostConfigured_def jumpHostMentioned_def)

lemma jump_host_decided:
  "Config_Validate c = None \<Longrightarrow> JumpHostConfigured c \<longleftrightarrow> SSHJumpHost c \<noteq> []"
  by (auto simp: validate_nil jumpHostMentioned_def JumpHostConfigured_def)

lemma sentinels_distinct:
  "distinct [ErrSSHUserRequired, ErrSSHHostRequired, ErrKubeconfigSource, ErrSSHKeySource, ErrJumpHostIncomplete]"
  by code_simp

lemma errors_is_problems:
  "errors_is (ErrJoin (config_problems c)) ErrSSHUserRequired \<longleftrightarrow> SSHUser c = []"
  "errors_is (ErrJoin (config_problems c)) ErrSSHHostRequired \<longleftrightarrow> SSHHost c = []"
  "errors_is (ErrJoin (config_problems c)) ErrKubeconfigSource \<longleftrightarrow>
     \<not> exactlyOne (KubeConfigPath c \<noteq> []) (KubeConfigContent c \<noteq> [])"
  "errors_is (ErrJoin (config_problems c)) ErrSSHKeySource \<longleftrightarrow>
     \<not> exactlyOne (SSHKeyPath c \<noteq> []) (SSHKeyContent c \<noteq> [])"
  "errors_is (ErrJoin (config_problems c)) ErrJumpHostIncomplete \<longleftrightarrow> jumpHostMentioned c \<and> \<not> JumpHostConfigured c"
proof -
  have is_sentinel: "\<exists>s. ErrSSHUserRequired = ErrSentinel s" "\<exists>s. ErrSSHHostRequired = ErrSentinel s"
    "\<exists>s. ErrKubeconfigSource = ErrSentinel s" "\<exists>s. ErrSSHKeySource = ErrSentinel s"
    "\<exists>s. ErrJumpHostIncomplete = ErrSentinel s" by (simp_all add: sentinel_defs)
  then have "\<exists>s. e = ErrSentinel s" if "e \<in> set (config_problems c)" for e
    using that unfolding config_problems_def by (auto split: if_splits)
  then have "errors_is (ErrJoin (config_problems c)) t \<longleftrightarrow> t \<in> set (config_problems c)" if "\<exists>s. t = ErrSentinel s" for t
    using that unfolding errors_is_Join by (metis errors_is_sentinel goerr.distinct(45))
  note mem = is_sentinel [THEN this]
  show "errors_is (ErrJoin (config_problems c)) ErrSSHUserRequired \<longleftrightarrow> SSHUser c = []"
    "errors_is (ErrJoin (config_problems c)) ErrSSHHostRequired \<longleftrightarrow> SSHHost c = []"
    "errors_is (ErrJoin (config_problems c)) ErrKubeconfigSource \<longleftrightarrow>
       \<not> exactlyOne (KubeConfigPath c \<noteq> []) (KubeConfigContent c \<noteq> [])"
    "errors_is (ErrJoin (config_problems c)) ErrSSHKeySource \<longleftrightarrow>
       \<not> exactlyOne (SSHKeyPath c \<noteq> []) (SSHKeyContent c \<noteq> [])"
    "errors_is (ErrJoin (config_problems c)) ErrJumpHostIncomplete \<longleftrightarrow> jumpHostMentioned c \<and> \<not> JumpHostConfigured c"
    unfolding mem unfolding config_problems_def using sentinels_distinct by auto
qed

text \<open>
  Validation reports every problem at once and nothing else: \<^verbatim>\<open>errors.Is\<close> finds each of the five
  errors in the result exactly when the setting it names is wrong, and the result is nil exactly when
  none is. A jump host is either complete or not mentioned at all.\<close>

lemma validation_reports_everything:
  "(case Config_Validate c of
      None \<Rightarrow> SSHUser c \<noteq> [] \<and> SSHHost c \<noteq> [] \<and> (KubeConfigPath c = []) \<noteq> (KubeConfigContent c = []) \<and>
        (SSHKeyPath c = []) \<noteq> (SSHKeyContent c = []) \<and> jumpHostMentioned c = JumpHostConfigured c
    | Some e \<Rightarrow> (errors_is e ErrSSHUserRequired \<longleftrightarrow> SSHUser c = []) \<and>
        (errors_is e ErrSSHHostRequired \<longleftrightarrow> SSHHost c = []) \<and>
        (errors_is e ErrKubeconfigSource \<longleftrightarrow> (KubeConfigPath c = []) = (KubeConfigContent c = [])) \<and>
        (errors_is e ErrSSHKeySource \<longleftrightarrow> (SSHKeyPath c = []) = (SSHKeyContent c = [])) \<and>
        (errors_is e ErrJumpHostIncomplete \<longleftrightarrow> jumpHostMentioned c \<noteq> JumpHostConfigured c) \<and>
        \<not> (SSHUser c \<noteq> [] \<and> SSHHost c \<noteq> [] \<and> (KubeConfigPath c = []) \<noteq> (KubeConfigContent c = []) \<and>
          (SSHKeyPath c = []) \<noteq> (SSHKeyContent c = []) \<and> jumpHostMentioned c = JumpHostConfigured c))"
proof (cases "Config_Validate c")
  case None
  from iffD1 [OF validate_nil this] show ?thesis
    unfolding None option.case(1) using jump_configured_mentioned by (auto simp: exactlyOne_def)
next
  case (Some e)
  then have e: "e = ErrJoin (config_problems c)" by (auto simp: Config_Validate_def errors_Join_def split: if_splits)
  have "\<not> (SSHUser c \<noteq> [] \<and> SSHHost c \<noteq> [] \<and> (KubeConfigPath c = []) \<noteq> (KubeConfigContent c = []) \<and>
      (SSHKeyPath c = []) \<noteq> (SSHKeyContent c = []) \<and> jumpHostMentioned c = JumpHostConfigured c)"
    using Some validate_nil [of c] by (auto simp: exactlyOne_def)
  then show ?thesis
    unfolding Some option.case(2) e using jump_configured_mentioned [of c] by (auto simp: errors_is_problems exactlyOne_def)
qed

text \<open>
  What a loaded configuration resolves to: the kubeconfig and the SSH key come from their only
  source, the kubeconfig is not blank, and there is a jump key, from its only source, exactly when a
  jump host is set. Nothing else makes \<^verbatim>\<open>Resolve\<close> succeed.\<close>

lemma resolved_credentials:
  assumes "LoadConfig parse environ = Inr c"
  shows "Resolve os c = Inr creds \<longleftrightarrow>
    resolveBytes os (KubeConfigPath c) (KubeConfigContent c) = Inr (cred_Kubeconfig creds) \<and>
    trimSpace (cred_Kubeconfig creds) \<noteq> [] \<and>
    resolveBytes os (SSHKeyPath c) (SSHKeyContent c) = Inr (cred_SSHKey creds) \<and>
    (if SSHJumpHost c = [] then cred_JumpKey creds = []
     else resolveBytes os (SSHJumpKeyPath c) (SSHJumpKeyContent c) = Inr (cred_JumpKey creds)) \<and>
    (KubeConfigPath c = []) \<noteq> (KubeConfigContent c = []) \<and> (SSHKeyPath c = []) \<noteq> (SSHKeyContent c = []) \<and>
    (SSHJumpHost c = [] \<longleftrightarrow> SSHJumpKeyPath c = [] \<and> SSHJumpKeyContent c = [])"
proof -
  from assms have valid: "Config_Validate c = None"
    by (auto simp: LoadConfig_def split: sum.splits option.splits)
  have "Resolve os c = Inr creds \<longleftrightarrow>
    resolveBytes os (KubeConfigPath c) (KubeConfigContent c) = Inr (cred_Kubeconfig creds) \<and>
    trimSpace (cred_Kubeconfig creds) \<noteq> [] \<and>
    resolveBytes os (SSHKeyPath c) (SSHKeyContent c) = Inr (cred_SSHKey creds) \<and>
    (if JumpHostConfigured c then resolveBytes os (SSHJumpKeyPath c) (SSHJumpKeyContent c) = Inr (cred_JumpKey creds)
     else cred_JumpKey creds = [])"
    by (cases creds) (auto simp: Resolve_def split: sum.splits)
  moreover have "(KubeConfigPath c = []) \<noteq> (KubeConfigContent c = [])" "(SSHKeyPath c = []) \<noteq> (SSHKeyContent c = [])"
    "SSHJumpHost c = [] \<longleftrightarrow> SSHJumpKeyPath c = [] \<and> SSHJumpKeyContent c = []"
    using valid by (auto simp: validate_nil exactlyOne_def jumpHostMentioned_def JumpHostConfigured_def)
  ultimately show ?thesis using jump_host_decided [OF valid] by auto
qed

definition sample_dvp :: dvp_config where
  "sample_dvp = \<lparr>SSHUser = ''ubuntu'', SSHHost = ''base.example'', SSHPassphrase = [], SSHKeyPath = ''~/.ssh/id_rsa'',
     SSHKeyContent = [], SSHJumpHost = [], SSHJumpUser = [], SSHJumpPassphrase = [], SSHJumpKeyPath = [],
     SSHJumpKeyContent = [], KubeConfigPath = [], KubeConfigContent = ''apiVersion: v1'',
     dvp_Namespace = ''e2e-test-cluster'', dvp_StorageClass = ''local'', dvp_VMClassName = ''generic'',
     dvp_DefaultVMClassName = ''generic'', VMSSHUser = ''cloud'', DKPLicenseKey = ''key'', RegistryDockerCfg = ''e30=''\<rparr>"

definition sample_os :: os_env where
  "sample_os = \<lparr>os_getenv = (\<lambda>n. if n = ''HOME'' then ''/home/ci'' else []),
     os_readFile = (\<lambda>p. if p = ''/home/ci/.ssh/id_rsa'' then Inr ''KEY'' else Inl (ErrText ''no such file''))\<rparr>"

end
