(* ===== verification/Dhctl.thy ===== *)
theory Dhctl
  imports Node_Join Bootstrap Dvp_Config
begin

text \<open>
  \<^verbatim>\<open>internal/provisioning/dvp/dhctl.go\<close>: the bootstrap of the first master from the setup node. The
  commands that are run on the setup node are built here character by character; the first half of
  the theory is about their quoting. The YAML encoder is a parameter. Saving the log to a local
  file, whose outcome is only logged, is left out.
\<close>

section \<open>Commands\<close>

definition dhctlContainerSSHKeyPath :: string where "dhctlContainerSSHKeyPath = ''/root/.ssh/id_rsa''"
definition writeFileHeredocMarker :: string where "writeFileHeredocMarker = ''STORAGE_E2E_B64_EOF''"
definition dhctlContainerName :: string where "dhctlContainerName = ''storage-e2e-dhctl-bootstrap''"

definition masterKubeconfigProbeCmd :: string where
  "masterKubeconfigProbeCmd = ''sudo -n test -f /etc/kubernetes/super-admin.conf'' @
     '' || sudo -n test -f /etc/kubernetes/admin.conf''"

record dhctl_params =
  dp_InstallImage :: string
  dp_VMSSHUser :: string
  dp_MasterIP :: string
  dp_RemoteLogPath :: string
  dp_UsePassphrase :: bool

definition remoteConfigPath :: "string \<Rightarrow> string" where
  "remoteConfigPath user = ''/home/'' @ user @ ''/config.yml''"
definition remoteKeyPath :: "string \<Rightarrow> string" where
  "remoteKeyPath user = ''/home/'' @ user @ ''/.ssh/id_rsa''"
definition remoteConnConfigPath :: "string \<Rightarrow> string" where
  "remoteConnConfigPath user = ''/home/'' @ user @ ''/.config/storage-e2e/dhctl-connection.yaml''"

definition buildDockerLoginCommand :: "string \<Rightarrow> string \<Rightarrow> string" where
  "buildDockerLoginCommand registryHost licenseKey =
     ''echo '' @ go_quote licenseKey @ '' | sudo docker login -u license-token --password-stdin '' @ registryHost"

text \<open>\<^verbatim>\<open>base64.StdEncoding\<close>, three bytes at a time, with padding.\<close>

definition b64_alphabet :: string where
  "b64_alphabet = ''ABCDEFGHIJKLMNOPQRSTUVWXYZabcdefghijklmnopqrstuvwxyz0123456789+/''"

definition b64_char :: "nat \<Rightarrow> char" where
  "b64_char d = b64_alphabet ! d"

definition b64_first :: "nat \<Rightarrow> char" where "b64_first a = b64_char (a div 4)"
definition b64_second :: "nat \<Rightarrow> nat \<Rightarrow> char" where "b64_second a b = b64_char (16 * (a mod 4) + b div 16)"
definition b64_third :: "nat \<Rightarrow> nat \<Rightarrow> char" where "b64_third b c = b64_char (4 * (b mod 16) + c div 64)"
definition b64_fourth :: "nat \<Rightarrow> char" where "b64_fourth c = b64_char (c mod 64)"

fun base64 :: "string \<Rightarrow> string" where
  "base64 (a # b # c # s) =
     b64_first (of_char a) # b64_second (of_char a) (of_char b) # b64_third (of_char b) (of_char c) # b64_fourth (of_char c) # base64 s"
| "base64 [a, b] = [b64_first (of_char a), b64_second (of_char a) (of_char b), b64_third (of_char b) 0, CHR ''='']"
| "base64 [a] = [b64_first (of_char a), b64_second (of_char a) 0, CHR ''='', CHR ''='']"
| "base64 [] = []"

definition buildWriteFileCommand :: "string \<Rightarrow> string \<Rightarrow> string \<Rightarrow> string" where
  "buildWriteFileCommand remotePath content mode =
     str_join [nl]
       [''set -eu'', ''umask 077'', ''mkdir -p '' @ go_quote (path_Dir remotePath), ''sudo rm -rf -- '' @ go_quote remotePath,
        ''base64 -d > '' @ go_quote remotePath @ '' <<'' @ [squote] @ writeFileHeredocMarker @ [squote],
        base64 content, writeFileHeredocMarker, ''chmod '' @ mode @ '' '' @ go_quote remotePath]"

definition buildBindMount :: "string \<Rightarrow> string \<Rightarrow> bool \<Rightarrow> string" where
  "buildBindMount src dst readonly =
     ''--mount '' @ go_quote (''type=bind,src='' @ src @ '',dst='' @ dst @ (if readonly then '',readonly'' else []))"

text \<open>A single-quoted shell word; a quote inside closes the word, is escaped, and opens it again.\<close>

definition shellSingleQuote :: "string \<Rightarrow> string" where
  "shellSingleQuote s =
     [squote] @ concat (map (\<lambda>c. if c = squote then [squote, backslash, squote, squote] else [c]) s) @ [squote]"

definition dhctl_inner :: "dhctl_params \<Rightarrow> string" where
  "dhctl_inner p =
     (let user = dp_VMSSHUser p;
          configMount = buildBindMount (remoteConfigPath user) ''/config.yml'' False;
          (volFlags, sshArgs) =
            (if dp_UsePassphrase p
             then (configMount @ '' '' @ buildBindMount (remoteConnConfigPath user) ''/dhctl-connection.yaml'' True,
                   ''--connection-config=/dhctl-connection.yaml --config=/config.yml'')
             else (configMount @ '' '' @ buildBindMount (remoteKeyPath user) dhctlContainerSSHKeyPath True,
                   ''--ssh-host='' @ dp_MasterIP p @ '' --ssh-user='' @ user @ '' --ssh-agent-private-keys='' @
                   dhctlContainerSSHKeyPath @ '' --config=/config.yml''))
      in ''sudo docker run --name '' @ dhctlContainerName @ '' --network=host --pull=always '' @ volFlags @ '' '' @
         dp_InstallImage p @ '' dhctl bootstrap '' @ sshArgs @ '' > '' @ dp_RemoteLogPath p @ '' 2>&1'')"

definition buildDhctlBootstrapCommand :: "dhctl_params \<Rightarrow> string" where
  "buildDhctlBootstrapCommand p = ''sudo -u '' @ dp_VMSSHUser p @ '' bash -c '' @ shellSingleQuote (dhctl_inner p)"

section \<open>The connection configuration\<close>

record ssh_config_manifest =
  sm_APIVersion :: string
  sm_Kind :: string
  sm_SSHUser :: string
  sm_SSHPort :: int
  sm_SSHAgentPrivateKeys :: "(string \<times> string) list" \<comment> \<open>key and passphrase\<close>

record ssh_host_manifest =
  hm_APIVersion :: string
  hm_Kind :: string
  hm_Host :: string

record yaml_lib =
  yl_sshConfig :: "ssh_config_manifest \<Rightarrow> goerr + string"
  yl_sshHost :: "ssh_host_manifest \<Rightarrow> goerr + string"

definition buildDHCTLSSHConnectionConfig :: "yaml_lib \<Rightarrow> string \<Rightarrow> string \<Rightarrow> string \<Rightarrow> string \<Rightarrow> goerr + string" where
  "buildDHCTLSSHConnectionConfig yl privateKeyPEM user masterIP passphrase =
     (if trimSpace privateKeyPEM = [] then Inl (ErrText ''private key PEM is empty'')
      else if user = [] then Inl (ErrText ''ssh user is empty'')
      else if masterIP = [] then Inl (ErrText ''master IP is empty'')
      else (case yl_sshConfig yl \<lparr>sm_APIVersion = ''dhctl.deckhouse.io/v1'', sm_Kind = ''SSHConfig'', sm_SSHUser = user,
          sm_SSHPort = 22, sm_SSHAgentPrivateKeys = [(trimSpace privateKeyPEM @ [nl], passphrase)]\<rparr> of
        Inl e \<Rightarrow> Inl (wrapf ''marshal SSHConfig: '' e)
      | Inr cfgBytes \<Rightarrow>
      (case yl_sshHost yl \<lparr>hm_APIVersion = ''dhctl.deckhouse.io/v1'', hm_Kind = ''SSHHost'', hm_Host = masterIP\<rparr> of
        Inl e \<Rightarrow> Inl (wrapf ''marshal SSHHost: '' e)
      | Inr hostBytes \<Rightarrow> Inr (''---'' @ [nl] @ trimSuffix cfgBytes [nl] @ [nl] @ ''---'' @ [nl] @ trimSuffix hostBytes [nl] @ [nl]))))"

section \<open>The bootstrap\<close>

definition firstMasterVMIP :: "cluster_definition option \<Rightarrow> goerr + string" where
  "firstMasterVMIP dopt =
     (case dopt of None \<Rightarrow> Inl (ErrText ''cluster definition is nil'')
      | Some def \<Rightarrow> (case find (\<lambda>m. node_hostType m = HostTypeVM \<and> IPAddress m \<noteq> []) (Masters def) of
          Some m \<Rightarrow> Inr (IPAddress m)
        | None \<Rightarrow> Inl (ErrText ''no master VM with an IP address in cluster definition'')))"

definition inspectCommand :: "string \<Rightarrow> string" where
  "inspectCommand name = ''sudo docker inspect -f '' @ [squote] @ ''{{.State.Status}}'' @ [squote] @ '' '' @ go_quote name @ '' 2>/dev/null || true''"

definition waitCommand :: "string \<Rightarrow> string" where
  "waitCommand name = ''sudo docker wait '' @ go_quote name"

definition removeCommand :: "string \<Rightarrow> string" where
  "removeCommand name = ''sudo docker rm -f '' @ go_quote name @ '' >/dev/null 2>&1 || true''"

definition dockerContainerStatus :: "ctx \<Rightarrow> 'e executor \<Rightarrow> string \<Rightarrow> ('e, goerr + string) act" where
  "dockerContainerStatus c exec name =
     io_bind (exec c (inspectCommand name))
       (\<lambda>(res, err). io_ret (case err of
          Some e \<Rightarrow> Inl (wrapf (''inspect container '' @ go_quote name @ '': '') e)
        | None \<Rightarrow> Inr (trimSpace (er_stdout res))))"

text \<open>\<^verbatim>\<open>strconv.Atoi\<close>: an optional sign and decimal digits.\<close>

definition atoi :: "string \<Rightarrow> int option" where
  "atoi s = (let neg = hasPrefix s ''-''; ds = (if neg \<or> hasPrefix s ''+'' then tl s else s) in
     if ds \<noteq> [] \<and> list_all is_digit ds then
       (let v = (if neg then - int (dec_val ds) else int (dec_val ds)) in
        if - (2 ^ 63) \<le> v \<and> v < 2 ^ 63 then Some v else None)
     else None)"

definition dockerWaitContainer :: "ctx \<Rightarrow> 'e executor \<Rightarrow> string \<Rightarrow> ('e, goerr + int) act" where
  "dockerWaitContainer c exec name =
     io_bind (exec c (waitCommand name)) (\<lambda>(res, err). io_ret (case err of
       Some e \<Rightarrow> Inl (wrapf (''docker wait '' @ go_quote name @ '': '') e)
     | None \<Rightarrow> (let out = trimSpace (er_stdout res) in
         case atoi out of Some code \<Rightarrow> Inr code
         | None \<Rightarrow> Inl (ErrText (''docker wait '' @ go_quote name @ '': unexpected output '' @ go_quote out)))))"

text \<open>\<^verbatim>\<open>masterConnector.connectToMaster\<close>.\<close>

type_synonym ('e, 'c) master_connect = "ctx \<Rightarrow> string \<Rightarrow> ('e, goerr + ('c rest_config \<times> ('e, unit) act)) act"

record ('e, 'c) dhctl_deps =
  dd_rt :: "'e runtime"
  dd_vmExecutor :: "'e vm_executor"
  dd_connectToMaster :: "('e, 'c) master_connect"
  dd_api :: "'c rest_config \<Rightarrow> 'e kube_api"
  dd_yaml :: yaml_lib
  dd_tmpl :: template
  dd_conf :: dvp_config
  dd_creds :: credentials

text \<open>The second half of \<^verbatim>\<open>deckhouseAlreadyInstalled\<close>: the master has a kubeconfig.\<close>

definition existing_install :: "('e, 'c) dhctl_deps \<Rightarrow> ctx \<Rightarrow> string \<Rightarrow> ('e, goerr + bool) act" where
  "existing_install d c masterIP =
     io_bind (dd_connectToMaster d c masterIP) (\<lambda>r. case r of
       Inl e \<Rightarrow> io_ret (Inl (wrapf (''master '' @ masterIP @ '' has a kubeconfig but its API server is unreachable; '' @
         ''the VM is half-bootstrapped and dhctl cannot resume it '' @ [CHR 0xE2, CHR 0x80, CHR 0x94] @ '' recreate the cluster VMs: '') e))
     | Inr (target, cleanup) \<Rightarrow> io_finally
         (io_bind (waitExistingInstallReady (dd_rt d) (dd_api d target) c existingInstallReadyTimeout) (\<lambda>e. io_ret (case e of
            Some err \<Rightarrow> Inl (wrapf (''master '' @ masterIP @ '' has a kubeconfig but Deckhouse never became healthy; '' @
              ''the VM is half-bootstrapped '' @ [CHR 0xE2, CHR 0x80, CHR 0x94] @ '' recreate the cluster VMs or inspect `sudo docker logs '' @
              dhctlContainerName @ ''` on the setup node: '') err)
          | None \<Rightarrow> Inr True))) cleanup)"

definition deckhouseAlreadyInstalled :: "('e, 'c) dhctl_deps \<Rightarrow> ctx \<Rightarrow> string \<Rightarrow> ('e, goerr + bool) act" where
  "deckhouseAlreadyInstalled d c masterIP =
     io_bind (dd_vmExecutor d c masterIP) (\<lambda>r. case r of
       Inl e \<Rightarrow> io_ret (Inl (wrapf (''dhctl bootstrap: probe master '' @ masterIP @ '': connect: '') e))
     | Inr (exec, closeExec) \<Rightarrow>
         io_bind (io_finally (exec c masterKubeconfigProbeCmd) closeExec) (\<lambda>(res, probeErr). case probeErr of
           Some e \<Rightarrow> io_ret (if er_exitCode res \<noteq> 0 then Inr False
             else Inl (wrapf (''dhctl bootstrap: probe master '' @ masterIP @ '' for kubeconfig: '') e))
         | None \<Rightarrow> existing_install d c masterIP))"

definition collectRemoteLog :: "ctx \<Rightarrow> 'e executor \<Rightarrow> string \<Rightarrow> ('e, string) act" where
  "collectRemoteLog c exec remoteLog =
     io_bind (exec c (''sudo cat '' @ go_quote remoteLog @ '' 2>/dev/null || true'')) (\<lambda>(res, _).
     io_bind (exec c (''sudo rm -f '' @ go_quote remoteLog)) (\<lambda>_. io_ret (er_stdout res)))"

text \<open>\<^verbatim>\<open>if res, err := exec.Exec(ctx, cmd); err != nil { return ... }\<close>, with the captured stderr.\<close>

definition run_step :: "ctx \<Rightarrow> 'e executor \<Rightarrow> string \<Rightarrow> string \<Rightarrow> ('e, goerr option) act \<Rightarrow> ('e, goerr option) act" where
  "run_step c exec cmd what k =
     io_bind (exec c cmd) (\<lambda>(res, err). case err of
       Some e \<Rightarrow> io_ret (Some (ErrWrap (''dhctl bootstrap: '' @ what @ '': '') e ('' (stderr: '' @ er_stderr res @ '')'')))
     | None \<Rightarrow> k)"

definition bootstrap_failed :: "goerr \<Rightarrow> string \<Rightarrow> goerr" where
  "bootstrap_failed e logContent = (if logContent \<noteq> [] then ErrWrap ''dhctl bootstrap failed: '' e ([nl, nl] @ ''bootstrap log:'' @ [nl] @ logContent)
     else wrapf ''dhctl bootstrap failed: '' e)"

text \<open>The part after the files are in place: remove a leftover container, bootstrap, clean up.\<close>

definition run_container :: "('e, 'c) dhctl_deps \<Rightarrow> ctx \<Rightarrow> 'e executor \<Rightarrow> string \<Rightarrow> string \<Rightarrow> ('e, goerr option) act" where
  "run_container d c exec installImage masterIP =
     (let user = VMSSHUser (dd_conf d); usePassphrase = SSHPassphrase (dd_conf d) \<noteq> []; cleanupCtx = CtxWithoutCancel c in
      io_bind (exec c (removeCommand dhctlContainerName)) (\<lambda>_.
      io_bind (timeNow (dd_rt d)) (\<lambda>now.
      let remoteLog = ''/tmp/dhctl-bootstrap-'' @ itoa now @ ''.log'' in
      io_bind (exec c (buildDhctlBootstrapCommand \<lparr>dp_InstallImage = installImage, dp_VMSSHUser = user, dp_MasterIP = masterIP,
        dp_RemoteLogPath = remoteLog, dp_UsePassphrase = usePassphrase\<rparr>)) (\<lambda>(_, bootstrapErr).
      io_bind (if usePassphrase then io_bind (exec cleanupCtx (''sudo rm -rf -- '' @ go_quote (remoteConnConfigPath user))) (\<lambda>_. io_ret ())
        else io_ret ()) (\<lambda>_.
      io_bind (collectRemoteLog cleanupCtx exec remoteLog) (\<lambda>logContent. io_ret (case bootstrapErr of
        Some e \<Rightarrow> Some (bootstrap_failed e logContent) | None \<Rightarrow> None)))))))"

definition runDhctlBootstrap :: "('e, 'c) dhctl_deps \<Rightarrow> ctx \<Rightarrow> 'e executor \<Rightarrow> cluster_definition \<Rightarrow> ('e, goerr option) act" where
  "runDhctlBootstrap d c exec def =
     (case firstMasterVMIP (Some def) of
        Inl e \<Rightarrow> io_ret (Some (wrapf ''dhctl bootstrap: '' e))
      | Inr masterIP \<Rightarrow>
     let registryRepo = RegistryRepo (DKPParameters def) in
     if registryRepo = [] then io_ret (Some (ErrText ''dhctl bootstrap: dkpParameters.registryRepo is required''))
     else
     let registryHost = takeWhile (\<lambda>ch. ch \<noteq> CHR ''/'') registryRepo;
         devBranch = (if DevBranch (DKPParameters def) = [] then ''main'' else DevBranch (DKPParameters def));
         installImage = registryRepo @ ''/install:'' @ devBranch in
     case buildBootstrapParams (Some def) (RegistryDockerCfg (dd_conf d)) of
       Inl e \<Rightarrow> io_ret (Some (wrapf ''dhctl bootstrap: build config params: '' e))
     | Inr params \<Rightarrow>
     let configYML = renderBootstrapConfig (dd_tmpl d) params; user = VMSSHUser (dd_conf d); key = cred_SSHKey (dd_creds d);
         container = run_container d c exec installImage masterIP in
     run_step c exec (buildWriteFileCommand (remoteConfigPath user) configYML ''0644'') ''write config.yml to setup node''
       (run_step c exec (buildWriteFileCommand (remoteKeyPath user) key ''0600'') ''write private key to setup node''
         (run_step c exec (buildDockerLoginCommand registryHost (DKPLicenseKey (dd_conf d))) (''registry login to '' @ registryHost)
           (if SSHPassphrase (dd_conf d) = [] then container
            else (case buildDHCTLSSHConnectionConfig (dd_yaml d) key user masterIP (SSHPassphrase (dd_conf d)) of
                Inl e \<Rightarrow> io_ret (Some (wrapf ''dhctl bootstrap: build connection-config: '' e))
              | Inr connYAML \<Rightarrow> run_step c exec (buildWriteFileCommand (remoteConnConfigPath user) connYAML ''0600'')
                  ''write connection-config to setup node'' container)))))"

definition ensureDhctlBootstrapped :: "('e, 'c) dhctl_deps \<Rightarrow> ctx \<Rightarrow> 'e executor \<Rightarrow> cluster_definition \<Rightarrow> ('e, goerr option) act" where
  "ensureDhctlBootstrapped d c exec def =
     (case firstMasterVMIP (Some def) of
        Inl e \<Rightarrow> io_ret (Some (wrapf ''dhctl bootstrap: '' e))
      | Inr masterIP \<Rightarrow>
     io_bind (dockerContainerStatus c exec dhctlContainerName) (\<lambda>s. case s of
       Inl e \<Rightarrow> io_ret (Some (wrapf ''dhctl bootstrap: check for in-flight bootstrap container: '' e))
     | Inr status \<Rightarrow>
     io_bind (if status = ''running'' then io_bind (dockerWaitContainer c exec dhctlContainerName) (\<lambda>r. io_ret (case r of
         Inl e \<Rightarrow> Some (wrapf ''dhctl bootstrap: wait for in-flight bootstrap container: '' e) | Inr _ \<Rightarrow> None))
       else io_ret None) (\<lambda>e. case e of
       Some err \<Rightarrow> io_ret (Some err)
     | None \<Rightarrow>
     io_bind (deckhouseAlreadyInstalled d c masterIP) (\<lambda>r. case r of
       Inl e \<Rightarrow> io_ret (Some e)
     | Inr installed \<Rightarrow> if installed then io_ret None else runDhctlBootstrap d c exec def))))"

definition dhctlBootstrap :: "('e, 'c) dhctl_deps \<Rightarrow> ctx \<Rightarrow> cluster_definition \<Rightarrow> ('e, goerr option) act" where
  "dhctlBootstrap d c def =
     (case Setup def of
        None \<Rightarrow> io_ret (Some (ErrText ''dhctl bootstrap: setup node IP is not set''))
      | Some setup \<Rightarrow>
          if IPAddress setup = [] then io_ret (Some (ErrText ''dhctl bootstrap: setup node IP is not set''))
          else io_bind (dd_vmExecutor d c (IPAddress setup)) (\<lambda>r. case r of
            Inl e \<Rightarrow> io_ret (Some (wrapf ''dhctl bootstrap: connect to setup node: '' e))
          | Inr (exec, closeExec) \<Rightarrow> io_finally (ensureDhctlBootstrapped d c exec def) closeExec))"

section \<open>What the shell makes of the commands\<close>

text \<open>
  A reading of a command by the shell: blanks separate words, everything between single quotes stands
  for itself, a backslash outside quotes keeps the next character. A command with a character that has
  another meaning to the shell outside quotes is not read.
\<close>

definition sh_special :: "char \<Rightarrow> bool" where
  "sh_special c \<longleftrightarrow> c \<in> set ''|&;<>()$`*?[#~=%{}!'' \<or> c = dquote \<or> c = nl \<or> c = CHR 0x09"

definition sh_plain :: "char \<Rightarrow> bool" where
  "sh_plain c \<longleftrightarrow> \<not> sh_special c \<and> c \<noteq> squote \<and> c \<noteq> backslash \<and> c \<noteq> CHR '' ''"

definition word_so_far :: "string option \<Rightarrow> string" where
  "word_so_far cur = (case cur of None \<Rightarrow> [] | Some w \<Rightarrow> w)"

fun sh_split :: "bool \<Rightarrow> string option \<Rightarrow> string \<Rightarrow> string list option" where
  "sh_split True cur [] = None"
| "sh_split False cur [] = Some (case cur of None \<Rightarrow> [] | Some w \<Rightarrow> [w])"
| "sh_split True cur (c # s) =
     (if c = squote then sh_split False (Some (word_so_far cur)) s else sh_split True (Some (word_so_far cur @ [c])) s)"
| "sh_split False cur (c # s) =
     (if c = squote then sh_split True (Some (word_so_far cur)) s
      else if c = CHR '' '' then map_option (\<lambda>ws. case cur of None \<Rightarrow> ws | Some w \<Rightarrow> w # ws) (sh_split False None s)
      else if c = backslash then (case s of [] \<Rightarrow> None | d # s' \<Rightarrow> sh_split False (Some (word_so_far cur @ [d])) s')
      else if sh_special c then None
      else sh_split False (Some (word_so_far cur @ [c])) s)"

definition sh_words :: "string \<Rightarrow> string list option" where
  "sh_words cmd = sh_split False None cmd"

lemma word_so_far_simps [simp]: "word_so_far None = []" "word_so_far (Some w) = w"
  by (simp_all add: word_so_far_def)

lemma sh_split_plain:
  "list_all sh_plain s \<Longrightarrow> s \<noteq> [] \<Longrightarrow> sh_split False cur (s @ rest) = sh_split False (Some (word_so_far cur @ s)) rest"
proof (induction s arbitrary: cur)
  case (Cons c s)
  then show ?case by (cases "s = []") (simp_all add: sh_plain_def)
qed simp

lemma sh_split_blank: "sh_split False (Some w) (CHR '' '' # rest) = map_option (Cons w) (sh_split False None rest)"
  by (simp add: squote_def)

lemma sh_split_word:
  "list_all sh_plain s \<Longrightarrow> s \<noteq> [] \<Longrightarrow> sh_split False None (s @ '' '' @ rest) = map_option (Cons s) (sh_split False None rest)"
  by (simp add: sh_split_plain sh_split_blank del: sh_split.simps)

lemma sh_split_escaped:
  "sh_split True (Some w) (concat (map (\<lambda>c. if c = squote then [squote, backslash, squote, squote] else [c]) s) @ squote # rest) =
     sh_split False (Some (w @ s)) rest"
  by (induction s arbitrary: w) (simp_all add: squote_def backslash_def)

lemma sh_split_quoted: "sh_split False None (shellSingleQuote s @ rest) = sh_split False (Some s) rest"
  using sh_split_escaped [of "[]" s rest] by (simp add: shellSingleQuote_def)

text \<open>
  C32. The shell reads the bootstrap command as one invocation of \<^verbatim>\<open>bash -c\<close> with exactly the text of
  \<^verbatim>\<open>docker run\<close> as its argument, whatever quotes the paths, the image and the address contain, if the
  user name has no character the shell treats specially.\<close>

theorem bootstrap_command_words:
  assumes "dp_VMSSHUser p \<noteq> []" and "list_all sh_plain (dp_VMSSHUser p)"
  shows "sh_words (buildDhctlBootstrapCommand p) =
    Some [''sudo'', ''-u'', dp_VMSSHUser p, ''bash'', ''-c'', dhctl_inner p]"
proof -
  have plain: "list_all sh_plain ''sudo''" "list_all sh_plain ''-u''" "list_all sh_plain ''bash''" "list_all sh_plain ''-c''"
    by code_simp+
  have "buildDhctlBootstrapCommand p = ''sudo'' @ '' '' @ ''-u'' @ '' '' @ dp_VMSSHUser p @ '' '' @ ''bash'' @ '' '' @ ''-c'' @ '' '' @
      shellSingleQuote (dhctl_inner p) @ []"
    by (simp add: buildDhctlBootstrapCommand_def)
  then show ?thesis
    using assms by (simp only: sh_words_def sh_split_word plain sh_split_quoted list.distinct not_False_eq_True simp_thms) simp
qed

theorem bootstrap_command_words_witness:
  "sh_words (buildDhctlBootstrapCommand \<lparr>dp_InstallImage = ''registry.local/ee/install:main'', dp_VMSSHUser = ''ubuntu'',
     dp_MasterIP = ''10.0.0.2'', dp_RemoteLogPath = ''/tmp/o'' @ [squote] @ ''brien.log'', dp_UsePassphrase = True\<rparr>) =
   Some [''sudo'', ''-u'', ''ubuntu'', ''bash'', ''-c'', dhctl_inner \<lparr>dp_InstallImage = ''registry.local/ee/install:main'', dp_VMSSHUser = ''ubuntu'',
     dp_MasterIP = ''10.0.0.2'', dp_RemoteLogPath = ''/tmp/o'' @ [squote] @ ''brien.log'', dp_UsePassphrase = True\<rparr>]"
proof -
  have "list_all sh_plain ''ubuntu''" by code_simp
  then show ?thesis
    using bootstrap_command_words [of "\<lparr>dp_InstallImage = ''registry.local/ee/install:main'', dp_VMSSHUser = ''ubuntu'',
     dp_MasterIP = ''10.0.0.2'', dp_RemoteLogPath = ''/tmp/o'' @ [squote] @ ''brien.log'', dp_UsePassphrase = True\<rparr>"]
    by (simp only: dhctl_params.select_convs) simp
qed

section \<open>Files written through a here document\<close>

text \<open>\<^verbatim>\<open>base64 -d\<close> on one line of the standard alphabet.\<close>

fun b64_index :: "string \<Rightarrow> char \<Rightarrow> nat" where
  "b64_index [] c = 0"
| "b64_index (x # xs) c = (if x = c then 0 else Suc (b64_index xs c))"

definition b64_val :: "char \<Rightarrow> nat" where
  "b64_val c = b64_index b64_alphabet c"

fun unbase64 :: "string \<Rightarrow> string" where
  "unbase64 (p # q # r # s # t) =
     (let a = char_of (4 * b64_val p + b64_val q div 16); b = char_of (16 * (b64_val q mod 16) + b64_val r div 4);
          c = char_of (64 * (b64_val r mod 4) + b64_val s) in
      if r = CHR ''='' then [a] else if s = CHR ''='' then [a, b] else a # b # c # unbase64 t)"
| "unbase64 t = []"

text \<open>The lines of a here document in the lines of a command.\<close>

definition here_doc :: "string \<Rightarrow> string list \<Rightarrow> string list" where
  "here_doc marker ls =
     takeWhile (\<lambda>l. l \<noteq> marker) (tl (dropWhile (\<lambda>l. \<not> hasSuffix l (''<<'' @ [squote] @ marker @ [squote])) ls))"

definition b64_safe :: "char \<Rightarrow> bool" where
  "b64_safe c \<longleftrightarrow> c \<noteq> CHR ''_'' \<and> c \<noteq> nl"

lemma b64_digits: "\<forall>d < 64. b64_val (b64_char d) = d \<and> b64_char d \<noteq> CHR ''='' \<and> b64_safe (b64_char d)"
  by code_simp

lemma b64_digit [simp]:
  "d < 64 \<Longrightarrow> b64_val (b64_char d) = d" "d < 64 \<Longrightarrow> b64_char d \<noteq> CHR ''=''" "d < 64 \<Longrightarrow> b64_safe (b64_char d)"
  using b64_digits by metis+

lemma b64_bytes [simp]:
  fixes a b c :: nat
  shows "a < 256 \<Longrightarrow> b64_val (b64_first a) = a div 4" "b < 256 \<Longrightarrow> b64_val (b64_second a b) = 16 * (a mod 4) + b div 16"
    and "c < 256 \<Longrightarrow> b64_val (b64_third b c) = 4 * (b mod 16) + c div 64" "b64_val (b64_fourth c) = c mod 64"
    and "c < 256 \<Longrightarrow> b64_third b c \<noteq> CHR ''=''" "b64_fourth c \<noteq> CHR ''=''"
    and "a < 256 \<Longrightarrow> b64_safe (b64_first a)" "b < 256 \<Longrightarrow> b64_safe (b64_second a b)"
    and "c < 256 \<Longrightarrow> b64_safe (b64_third b c)" "b64_safe (b64_fourth c)"
proof -
  have "b div 16 < 16 \<Longrightarrow> 16 * (a mod 4) + b div 16 < 64" using mod_less_divisor [of 4 a] by linarith
  moreover have "c div 64 < 4 \<Longrightarrow> 4 * (b mod 16) + c div 64 < 64" using mod_less_divisor [of 16 b] by linarith
  ultimately show "a < 256 \<Longrightarrow> b64_val (b64_first a) = a div 4" "b < 256 \<Longrightarrow> b64_val (b64_second a b) = 16 * (a mod 4) + b div 16"
    "c < 256 \<Longrightarrow> b64_val (b64_third b c) = 4 * (b mod 16) + c div 64" "b64_val (b64_fourth c) = c mod 64"
    "c < 256 \<Longrightarrow> b64_third b c \<noteq> CHR ''=''" "b64_fourth c \<noteq> CHR ''=''"
    "a < 256 \<Longrightarrow> b64_safe (b64_first a)" "b < 256 \<Longrightarrow> b64_safe (b64_second a b)"
    "c < 256 \<Longrightarrow> b64_safe (b64_third b c)" "b64_safe (b64_fourth c)"
    by (simp_all add: b64_first_def b64_second_def b64_third_def b64_fourth_def less_mult_imp_div_less)
qed

lemma byte_parts [simp]:
  "b < 256 \<Longrightarrow> b div 16 div 16 = (0::nat)" "c < 256 \<Longrightarrow> c div 64 div 4 = (0::nat)"
  "b < 256 \<Longrightarrow> 16 * (b div 16 mod 16) + b mod 16 = (b::nat)" "c < 256 \<Longrightarrow> 64 * (c div 64 mod 4) + c mod 64 = (c::nat)"
  by (simp_all add: div_mult2_eq [symmetric] less_mult_imp_div_less)

lemma unbase64_base64: "unbase64 (base64 s) = s"
  by (induction s rule: base64.induct) (simp_all add: Let_def)

lemma base64_safe: "list_all (\<lambda>c. b64_safe c) (base64 s)"
  by (induction s rule: base64.induct) (simp_all, simp_all add: b64_safe_def nl_def)

lemma hex_digit_line: "d < 16 \<Longrightarrow> hex_digit d \<noteq> nl"
  by (auto simp: hex_digit_def nl_def dest!: arg_cong [where f = "of_char :: char \<Rightarrow> nat"])

lemma quote_char_line: "nl \<notin> set (quote_char c)"
proof -
  have "hex_digit (of_char c div 16) \<noteq> nl \<and> hex_digit (of_char c mod 16) \<noteq> nl" if "of_char c < (256::nat)"
    using that by (simp add: less_mult_imp_div_less hex_digit_line)
  then show ?thesis by (auto simp: quote_char_def nl_def backslash_def dquote_def)
qed

lemma go_quote_line: "nl \<notin> set (go_quote s)"
  using quote_char_line by (auto simp: go_quote_def nl_def dquote_def)

lemma hasSuffix_append: "hasSuffix (s @ p) p"
  by (simp add: hasSuffix_def)

lemma not_opener: "\<not> hasSuffix (s @ go_quote p) (''<<'' @ [squote] @ marker @ [squote])"
  by (auto simp: hasSuffix_def go_quote_def dquote_def squote_def dest!: arg_cong [where f = last])

text \<open>
  C33. Writing a file through the shell is lossless: the here document of the command has the base64
  text of the content as its only line (the marker can never end it early), and decoding that line
  gives the content back, byte for byte, for every content and every path.\<close>

theorem written_file_roundtrip:
  assumes "nl \<notin> set mode"
  shows "here_doc writeFileHeredocMarker (split_on nl (buildWriteFileCommand path content mode)) = [base64 content] \<and>
    unbase64 (base64 content) = content"
proof -
  let ?m = writeFileHeredocMarker and ?q = "go_quote path"
  let ?lines = "[''set -eu'', ''umask 077'', ''mkdir -p '' @ go_quote (path_Dir path), ''sudo rm -rf -- '' @ ?q,
    ''base64 -d > '' @ ?q @ '' <<'' @ [squote] @ ?m @ [squote], base64 content, ?m, ''chmod '' @ mode @ '' '' @ ?q]"
  have "nl \<notin> set (base64 content)" "nl \<notin> set ?m"
    using base64_safe [of content] by (auto simp: list_all_iff b64_safe_def writeFileHeredocMarker_def nl_def)
  then have "list_all (\<lambda>l. nl \<notin> set l) ?lines"
    using assms go_quote_line by (auto simp: nl_def squote_def)
  then have "split_on nl (buildWriteFileCommand path content mode) = ?lines"
    unfolding buildWriteFileCommand_def by (intro split_on_join) simp_all
  moreover have "base64 content \<noteq> ?m"
  proof
    assume "base64 content = ?m"
    with base64_safe [of content] show False by (simp add: writeFileHeredocMarker_def b64_safe_def)
  qed
  moreover have "\<not> hasSuffix ''set -eu'' (''<<'' @ [squote] @ ?m @ [squote])" "\<not> hasSuffix ''umask 077'' (''<<'' @ [squote] @ ?m @ [squote])"
    by code_simp+
  moreover have "hasSuffix (''base64 -d > '' @ ?q @ '' <<'' @ [squote] @ ?m @ [squote]) (''<<'' @ [squote] @ ?m @ [squote])"
    using hasSuffix_append [of "''base64 -d > '' @ ?q @ '' ''" "''<<'' @ [squote] @ ?m @ [squote]"] by simp
  ultimately show ?thesis
    using not_opener [of "''mkdir -p ''" "path_Dir path" ?m] not_opener [of "''sudo rm -rf -- ''" path ?m]
    by (simp only: here_doc_def dropWhile.simps takeWhile.simps list.sel simp_thms if_True if_False unbase64_base64)
qed

theorem written_file_roundtrip_witness:
  "here_doc writeFileHeredocMarker (split_on nl (buildWriteFileCommand ''/home/ubuntu/config.yml'' (''STORAGE_E2E_B64_EOF'' @ [nl]) ''0644'')) =
     [base64 (''STORAGE_E2E_B64_EOF'' @ [nl])] \<and> unbase64 (base64 (''STORAGE_E2E_B64_EOF'' @ [nl])) = ''STORAGE_E2E_B64_EOF'' @ [nl]"
  by (rule written_file_roundtrip) (simp add: nl_def)

section \<open>When the bootstrap runs\<close>

text \<open>
  The contract of \<^verbatim>\<open>masterConnector\<close>: it runs nothing on the master but the command that reads the
  kubeconfig, and what it opens is closed by the clean-up function it returns.
\<close>

definition no_exec :: "event \<Rightarrow> bool" where
  "no_exec ev \<longleftrightarrow> (\<forall>ip cmd r. ev \<noteq> Exec ip cmd r)"

definition master_event :: "string \<Rightarrow> event \<Rightarrow> bool" where
  "master_event ip ev \<longleftrightarrow> (\<forall>ip' cmd r. ev = Exec ip' cmd r \<longrightarrow> ip' = ip \<and> cmd = getKubeconfigRemoteShell)"

locale master_connector = base_connector vmExecutor for vmExecutor :: "'e vm_executor" +
  fixes connectToMaster :: "('e, 'c) master_connect"
  assumes connect_acquires: "acquires (connectToMaster c ip)"
    and connect_calls: "only_calls (master_event ip) (connectToMaster c ip)"
    and cleanup_calls: "connectToMaster c ip w = Some (Inr (cfg, cl), w') \<Longrightarrow> only_calls (master_event ip) cl"

text \<open>What must have been observed before the program changes anything on the setup node.\<close>

definition no_kubeconfig :: "string \<Rightarrow> event list \<Rightarrow> bool" where
  "no_kubeconfig masterIP a \<longleftrightarrow>
     (\<exists>res e. Exec masterIP masterKubeconfigProbeCmd (res, Some e) \<in> set a \<and> er_exitCode res \<noteq> 0)"

definition container_idle :: "string \<Rightarrow> event list \<Rightarrow> bool" where
  "container_idle setupIP a \<longleftrightarrow> (\<exists>res. Exec setupIP (inspectCommand dhctlContainerName) (res, None) \<in> set a \<and>
     (trimSpace (er_stdout res) \<noteq> ''running'' \<or> (\<exists>res'. Exec setupIP (waitCommand dhctlContainerName) (res', None) \<in> set a)))"

definition dhctl_justified :: "string \<Rightarrow> string \<Rightarrow> event list \<Rightarrow> event \<Rightarrow> bool" where
  "dhctl_justified setupIP masterIP a ev \<longleftrightarrow> (\<forall>ip cmd r. ev = Exec ip cmd r \<longrightarrow>
     ip = masterIP \<and> cmd \<in> {masterKubeconfigProbeCmd, getKubeconfigRemoteShell} \<or>
     ip = setupIP \<and> cmd \<in> {inspectCommand dhctlContainerName, waitCommand dhctlContainerName} \<or>
     ip = setupIP \<and> no_kubeconfig masterIP a \<and> container_idle setupIP a)"

text \<open>What a run without error has done: bootstrapped the master, or found a healthy installation on it.\<close>

definition ready_seen :: "event list \<Rightarrow> bool" where
  "ready_seen u \<longleftrightarrow> (\<exists>a ds b. healthy_pair a \<and> length ds = length bootstrapSecrets \<and>
     u = a @ map2 (\<lambda>n d. SecretGet bootstrapSecretNamespace n (Inr d)) bootstrapSecrets ds @ b)"

text \<open>
  With a passphrase the address of the master is not in the command: dhctl reads it from the connection configuration, the file that the
  last command but one has written. Its second document is the host.
\<close>

definition connection_written :: "yaml_lib \<Rightarrow> dvp_config \<Rightarrow> string \<Rightarrow> string \<Rightarrow> event list \<Rightarrow> bool" where
  "connection_written yl conf setupIP masterIP u \<longleftrightarrow> (\<exists>a cfg hostBytes res.
     u = a @ [Exec setupIP (buildWriteFileCommand (remoteConnConfigPath (VMSSHUser conf))
       (cfg @ ''---'' @ [nl] @ trimSuffix hostBytes [nl] @ [nl]) ''0600'') (res, None)] \<and>
     yl_sshHost yl \<lparr>hm_APIVersion = ''dhctl.deckhouse.io/v1'', hm_Kind = ''SSHHost'', hm_Host = masterIP\<rparr> = Inr hostBytes)"

definition ran_bootstrap :: "yaml_lib \<Rightarrow> dvp_config \<Rightarrow> string \<Rightarrow> string \<Rightarrow> event list \<Rightarrow> bool" where
  "ran_bootstrap yl conf setupIP masterIP u \<longleftrightarrow> (\<exists>a r p res b.
     u = a @ Exec setupIP (removeCommand dhctlContainerName) r # Exec setupIP (buildDhctlBootstrapCommand p) (res, None) # b \<and>
     dp_MasterIP p = masterIP \<and> dp_VMSSHUser p = VMSSHUser conf \<and> dp_UsePassphrase p = (SSHPassphrase conf \<noteq> []) \<and>
     (SSHPassphrase conf \<noteq> [] \<longrightarrow> connection_written yl conf setupIP masterIP a))"

definition bootstrapped :: "yaml_lib \<Rightarrow> dvp_config \<Rightarrow> string \<Rightarrow> string \<Rightarrow> event list \<Rightarrow> bool" where
  "bootstrapped yl conf setupIP masterIP u \<longleftrightarrow>
     ran_bootstrap yl conf setupIP masterIP u \<or> (\<exists>res. Exec masterIP masterKubeconfigProbeCmd (res, None) \<in> set u) \<and> ready_seen u"

definition install_known :: "yaml_lib \<Rightarrow> dvp_config \<Rightarrow> string \<Rightarrow> string \<Rightarrow> bool \<Rightarrow> event list \<Rightarrow> bool" where
  "install_known yl conf setupIP masterIP installed u =
     (if installed then bootstrapped yl conf setupIP masterIP u else no_kubeconfig masterIP u)"

lemma no_exec_simps [simp]:
  "no_exec (Waited c d)" "no_exec (Opened n r)" "no_exec (Closed n)" "no_exec (NodesList g)" "no_exec (SecretGet ns n sg)"
  "no_exec (DeploymentGet ns n dg)" "no_exec (KubeOp what args kr)" "no_exec (ModuleGet n dm)"
  by (simp_all add: no_exec_def)

lemma ready_seen_append: "ready_seen u \<Longrightarrow> ready_seen (u @ v)"
  unfolding ready_seen_def by (metis append_assoc)

lemma ready_seen_after: "ready_seen u \<Longrightarrow> ready_seen (v @ u)"
proof -
  have "healthy_pair a \<Longrightarrow> healthy_pair (v @ a)" for a unfolding healthy_pair_def by (metis append_assoc)
  then show "ready_seen u \<Longrightarrow> ready_seen (v @ u)" unfolding ready_seen_def by (metis append_assoc)
qed

lemma ran_bootstrap_step: "ran_bootstrap yl conf s masterIP u \<Longrightarrow> ran_bootstrap yl conf s masterIP (u @ [ev])"
  unfolding ran_bootstrap_def by (elim exE conjE) (intro exI conjI, auto)

lemma dhctl_stable:
  "no_kubeconfig ip u \<Longrightarrow> no_kubeconfig ip (u @ [ev])" "container_idle ip u \<Longrightarrow> container_idle ip (u @ [ev])"
  "bootstrapped yl conf ip ip' u \<Longrightarrow> bootstrapped yl conf ip ip' (u @ [ev])"
  by (auto simp: no_kubeconfig_def container_idle_def bootstrapped_def intro: ready_seen_append ran_bootstrap_step)

lemma install_calls [calls_intros]:
  "only_calls no_exec (NewClientsetWithRetry rt api c)" "only_calls no_exec (checkHealthClient api c)"
  "only_calls no_exec (secrets_readable api c names)"
proof -
  show "only_calls no_exec (secrets_readable api c names)" by (induction names) (auto intro!: calls_intros)
qed (unfold NewClientsetWithRetry_def checkHealthClient_def, (intro calls_intros; simp)+)

lemma existing_ready_triple:
  "triple (since t0 (\<lambda>_. True)) (waitExistingInstallReadyClient rt api c timeout)
     (\<lambda>e t. since t0 (\<lambda>_. True) t \<and> (e = None \<longrightarrow> since t0 ready_seen t))"
  unfolding waitExistingInstallReadyClient_def
proof (rule triple_bind)
  let ?check = "\<lambda>_. io_bind (checkHealthClient api c) (\<lambda>e. case e of
    Some _ \<Rightarrow> io_ret (Inr False, ()) | None \<Rightarrow> io_bind (secrets_readable api c bootstrapSecrets) (\<lambda>b. io_ret (Inr b, ())))"
  have check: "\<exists>u. tr w' = tr w @ u \<and> (fst y = Inr True \<longrightarrow> ready_seen u) \<and> (\<exists>b. fst y = Inr b)"
    if run: "?check s w = Some (y, w')" for s w y w'
  proof -
    from run obtain e w1 where h: "checkHealthClient api c w = Some (e, w1)" by (auto simp: io_bind_apply split: option.splits)
    show ?thesis
    proof (cases e)
      case (Some err)
      with h run only_callsD [OF install_calls(2) h] show ?thesis by (auto simp: io_bind_apply io_ret_apply)
    next
      case None
      with h run obtain b where s: "secrets_readable api c bootstrapSecrets w1 = Some (b, w')" and y: "y = (Inr b, ())"
        by (auto simp: io_bind_apply io_ret_apply split: option.splits)
      from checkHealth_trace h None obtain a where a: "tr w1 = tr w @ a" "healthy_pair a" by metis
      show ?thesis
      proof (cases b)
        case True
        with secrets_readable_trace s a y show ?thesis by (fastforce simp: ready_seen_def)
      next
        case False
        with only_callsD [OF install_calls(3) s] a y show ?thesis by auto
      qed
    qed
  qed
  show "triple (since t0 (\<lambda>_. True)) (pollUntil rt c timeout ''existing Deckhouse installation to become healthy'' ?check ())
      (\<lambda>x t. if fst x = None then since t0 ready_seen t else since t0 (\<lambda>_. True) t)"
  proof (rule pollUntil_triple [where I = "\<lambda>_. since t0 (\<lambda>_. True)" and K = "\<lambda>_. since t0 (\<lambda>_. True)" and Q = "\<lambda>_. since t0 ready_seen"])
    fix s
    show "triple (since t0 (\<lambda>_. True)) (?check s) (\<lambda>y t. case fst y of Inl e \<Rightarrow> since t0 (\<lambda>_. True) t
        | Inr b \<Rightarrow> if b then since t0 ready_seen t else since t0 (\<lambda>_. True) t)"
    proof (rule tripleI)
      fix w y w' assume "since t0 (\<lambda>_. True) (tr w)" and run: "?check s w = Some (y, w')"
      then obtain u0 where "tr w = t0 @ u0" by (auto simp: since_def)
      moreover from check [OF run] obtain u b where "tr w' = tr w @ u" "b \<longrightarrow> ready_seen u" "fst y = Inr b" by auto
      ultimately show "case fst y of Inl e \<Rightarrow> since t0 (\<lambda>_. True) (tr w')
          | Inr b \<Rightarrow> if b then since t0 ready_seen (tr w') else since t0 (\<lambda>_. True) (tr w')"
        by (auto simp: since_def ready_seen_after)
    qed
  qed simp_all
qed (auto intro!: triple_ret split: prod.splits dest: since_forget)

lemma existing_ready_calls: "only_calls no_exec (waitExistingInstallReady rt api c timeout)"
  unfolding waitExistingInstallReady_def with_clientset_def waitExistingInstallReadyClient_def
  by (intro calls_intros pollUntil_calls; simp)

lemma existing_install_triple:
  "triple (since t0 (\<lambda>_. True)) (waitExistingInstallReady rt api c timeout)
     (\<lambda>e t. e = None \<longrightarrow> since t0 ready_seen t)"
  unfolding waitExistingInstallReady_def with_clientset_def
proof (rule triple_bind)
  show "triple (since t0 (\<lambda>_. True)) (NewClientsetWithRetry rt api c) (\<lambda>_. since t0 (\<lambda>_. True))"
    by (rule triple_keeps [OF install_calls(1)]) simp
qed (intro triple_intros triple_ret triple_post [OF existing_ready_triple]; simp)

lemma justified_keeps:
  assumes "only_calls A m" and "\<And>u ev. F u \<Longrightarrow> A ev \<Longrightarrow> dhctl_justified s k u ev" and "\<And>u ev. F u \<Longrightarrow> F (u @ [ev])"
  shows "triple (since t0 (\<lambda>u. history (dhctl_justified s k) u \<and> F u)) m (\<lambda>_. since t0 (\<lambda>u. history (dhctl_justified s k) u \<and> F u))"
  by (rule triple_keeps [OF assms(1)]) (auto elim!: since_step intro: assms)

lemma triple_when: "(A \<Longrightarrow> triple P m Q) \<Longrightarrow> triple (\<lambda>t. P t \<and> A) m Q"
  unfolding triple_def by blast

lemma master_keeps:
  assumes "only_calls (master_event m) k" and "\<And>u ev. F u \<Longrightarrow> F (u @ [ev])"
  shows "triple (since t0 (\<lambda>u. history (dhctl_justified s m) u \<and> F u)) k (\<lambda>_. since t0 (\<lambda>u. history (dhctl_justified s m) u \<and> F u))"
  by (rule justified_keeps [OF assms(1)]) (auto simp: master_event_def dhctl_justified_def intro: assms(2))

lemma session_triple:
  "session_on ip exec close \<Longrightarrow> (\<And>t r. P t \<Longrightarrow> Q r (t @ [Exec ip cmd r])) \<Longrightarrow> triple P (exec c cmd) Q"
  by (rule tripleI) (auto simp: session_on_def)

definition status_seen :: "string \<Rightarrow> string \<Rightarrow> event list \<Rightarrow> bool" where
  "status_seen ip status u \<longleftrightarrow> (\<exists>res. Exec ip (inspectCommand dhctlContainerName) (res, None) \<in> set u \<and> trimSpace (er_stdout res) = status)"

lemma status_triple:
  assumes "session_on s exec close"
  shows "triple (since t0 (history (dhctl_justified s k))) (dockerContainerStatus c exec dhctlContainerName)
    (res_or (\<lambda>st. since t0 (\<lambda>u. history (dhctl_justified s k) u \<and> status_seen s st u)) (since t0 (history (dhctl_justified s k))))"
  unfolding dockerContainerStatus_def
proof (rule triple_bind)
  show "triple (since t0 (history (dhctl_justified s k))) (exec c (inspectCommand dhctlContainerName))
      (\<lambda>r. since t0 (\<lambda>u. history (dhctl_justified s k) u \<and> Exec s (inspectCommand dhctlContainerName) r \<in> set u))"
    by (rule session_triple [OF assms]) (auto elim!: since_step simp: dhctl_justified_def)
qed (rule triple_prod, rule triple_ret, auto simp: status_seen_def elim!: since_imp split: option.splits)

lemma in_flight_triple:
  assumes "session_on s exec close"
  shows "triple (since t0 (\<lambda>u. history (dhctl_justified s k) u \<and> status_seen s st u))
    (if st = ''running'' then io_bind (dockerWaitContainer c exec dhctlContainerName) (\<lambda>r. io_ret (case r of
         Inl e \<Rightarrow> Some (wrapf ''dhctl bootstrap: wait for in-flight bootstrap container: '' e) | Inr _ \<Rightarrow> None))
       else io_ret None)
    (nil_or (since t0 (\<lambda>u. history (dhctl_justified s k) u \<and> container_idle s u)) (since t0 (history (dhctl_justified s k))))"
proof (rule triple_if)
  let ?H = "history (dhctl_justified s k)"
  let ?Q = "\<lambda>r :: goerr + int. since t0 (\<lambda>u. ?H u \<and> ((\<exists>x. r = Inr x) \<longrightarrow> container_idle s u))"
  have "triple (since t0 (\<lambda>u. ?H u \<and> status_seen s st u)) (exec c (waitCommand dhctlContainerName))
      (\<lambda>r. since t0 (\<lambda>u. ?H u \<and> status_seen s st u \<and> Exec s (waitCommand dhctlContainerName) r \<in> set u))"
    by (rule session_triple [OF assms]) (auto elim!: since_step simp: dhctl_justified_def status_seen_def)
  then have "triple (since t0 (\<lambda>u. ?H u \<and> status_seen s st u)) (dockerWaitContainer c exec dhctlContainerName) ?Q"
    unfolding dockerWaitContainer_def
    by (rule triple_bind) (rule triple_prod, rule triple_ret, auto simp: status_seen_def container_idle_def Let_def elim!: since_imp split: option.splits)
  then show "triple (since t0 (\<lambda>u. ?H u \<and> status_seen s st u)) (io_bind (dockerWaitContainer c exec dhctlContainerName) (\<lambda>r. io_ret (case r of
         Inl e \<Rightarrow> Some (wrapf ''dhctl bootstrap: wait for in-flight bootstrap container: '' e) | Inr _ \<Rightarrow> None)))
      (nil_or (since t0 (\<lambda>u. ?H u \<and> container_idle s u)) (since t0 ?H))"
    by (rule triple_bind, intro triple_ret) (auto elim: since_imp split: sum.splits)
qed (rule triple_ret, auto simp: status_seen_def container_idle_def elim!: since_imp)

definition exec_on :: "string \<Rightarrow> event \<Rightarrow> bool" where
  "exec_on ip ev \<longleftrightarrow> (\<exists>cmd r. ev = Exec ip cmd r)"

lemma session_exec_on: "session_on ip exec close \<Longrightarrow> only_calls (exec_on ip) (exec c cmd)"
  by (auto simp: only_calls_def session_on_def exec_on_def)

lemma run_container_calls:
  "session_on s exec close \<Longrightarrow> only_calls (exec_on s) (run_container d c exec img masterIP)"
  unfolding run_container_def collectRemoteLog_def Let_def by (intro calls_intros session_exec_on)

lemma run_bootstrap_calls:
  "session_on s exec close \<Longrightarrow> only_calls (exec_on s) (runDhctlBootstrap d c exec def)"
  unfolding runDhctlBootstrap_def run_step_def Let_def by (intro calls_intros session_exec_on run_container_calls)

text \<open>Before the container is run, the last command has written the connection configuration, if one is needed.\<close>

definition connection_ready :: "yaml_lib \<Rightarrow> dvp_config \<Rightarrow> string \<Rightarrow> string \<Rightarrow> event list \<Rightarrow> bool" where
  "connection_ready yl conf setupIP masterIP u \<longleftrightarrow> SSHPassphrase conf \<noteq> [] \<longrightarrow> connection_written yl conf setupIP masterIP u"

lemma run_container_triple:
  assumes s: "session_on s exec close"
  shows "triple (since t0 (connection_ready (dd_yaml d) (dd_conf d) s masterIP)) (run_container d c exec img masterIP)
    (\<lambda>e t. e = None \<longrightarrow> since t0 (ran_bootstrap (dd_yaml d) (dd_conf d) s masterIP) t)"
proof -
  let ?C = "connection_ready (dd_yaml d) (dd_conf d) s masterIP" and ?B = "ran_bootstrap (dd_yaml d) (dd_conf d) s masterIP"
  let ?R = "since t0 (\<lambda>u. \<exists>a r. u = a @ [Exec s (removeCommand dhctlContainerName) r] \<and> ?C a)"
  let ?K = "\<lambda>E t. E \<longrightarrow> since t0 ?B t"
  have rmc: "triple (since t0 ?C) (exec c (removeCommand dhctlContainerName)) (\<lambda>_. ?R)"
    by (rule session_triple [OF s], erule since_step) auto
  have keep: "triple (?K E) (exec c' cmd) (\<lambda>_. ?K E)" for E c' cmd
    by (rule session_triple [OF s]) (auto elim: since_step ran_bootstrap_step)
  have boot: "triple ?R (exec c' (buildDhctlBootstrapCommand p)) (\<lambda>r. ?K (snd r = None))"
    if p: "dp_MasterIP p = masterIP" "dp_VMSSHUser p = VMSSHUser (dd_conf d)" "dp_UsePassphrase p = (SSHPassphrase (dd_conf d) \<noteq> [])" for c' p
  proof (rule session_triple [OF s], rule impI)
    fix t and r :: "exec_result \<times> goerr option" assume "?R t" "snd r = None"
    then obtain a r' res where "t = t0 @ a @ [Exec s (removeCommand dhctlContainerName) r']" "?C a" "r = (res, None)"
      by (cases r) (auto simp: since_def)
    moreover from this(2) p have "?B (a @ [Exec s (removeCommand dhctlContainerName) r', Exec s (buildDhctlBootstrapCommand p) (res, None)])"
      unfolding ran_bootstrap_def connection_ready_def by blast
    ultimately show "since t0 ?B (t @ [Exec s (buildDhctlBootstrapCommand p) r])" by (auto simp: since_def)
  qed
  have log: "triple (?K E) (collectRemoteLog c' exec path) (\<lambda>_. ?K E)" for E c' path
    unfolding collectRemoteLog_def
    by (rule triple_bind [OF keep], rule triple_prod, rule triple_bind [OF keep], rule triple_ret)
  have rm: "triple (?K E) (if b then io_bind (exec c' cmd) (\<lambda>_. io_ret ()) else io_ret ()) (\<lambda>_. ?K E)" for E b c' cmd
    by (rule triple_if, rule triple_bind [OF keep], (rule triple_ret, assumption)+)
  show ?thesis
    unfolding run_container_def Let_def
    apply (rule triple_bind [OF rmc], rule triple_bind [where R = "\<lambda>_. ?R"], rule triple_timeNow, assumption)
    apply (rule triple_bind, rule boot, simp, simp, simp, rule triple_prod, simp only: snd_conv)
    apply (rule triple_bind [OF rm], rule triple_bind [OF log], rule triple_ret)
    apply (simp split: option.splits)
    done
qed

lemma connection_config_host:
  assumes "buildDHCTLSSHConnectionConfig yl key user masterIP pass = Inr doc"
  obtains cfg hostBytes where "doc = cfg @ ''---'' @ [nl] @ trimSuffix hostBytes [nl] @ [nl]"
    "yl_sshHost yl \<lparr>hm_APIVersion = ''dhctl.deckhouse.io/v1'', hm_Kind = ''SSHHost'', hm_Host = masterIP\<rparr> = Inr hostBytes"
proof -
  from assms obtain cfgBytes hostBytes where
    "doc = ''---'' @ [nl] @ trimSuffix cfgBytes [nl] @ [nl] @ ''---'' @ [nl] @ trimSuffix hostBytes [nl] @ [nl]"
    "yl_sshHost yl \<lparr>hm_APIVersion = ''dhctl.deckhouse.io/v1'', hm_Kind = ''SSHHost'', hm_Host = masterIP\<rparr> = Inr hostBytes"
    by (auto simp: buildDHCTLSSHConnectionConfig_def split: if_splits sum.splits)
  then show thesis using that [of "''---'' @ [nl] @ trimSuffix cfgBytes [nl] @ [nl]" hostBytes] by simp
qed

lemma run_bootstrap_triple:
  assumes s: "session_on s exec close" and m: "firstMasterVMIP (Some def) = Inr masterIP"
  shows "triple (since t0 (\<lambda>_. True)) (runDhctlBootstrap d c exec def)
    (\<lambda>e t. e = None \<longrightarrow> since t0 (ran_bootstrap (dd_yaml d) (dd_conf d) s masterIP) t)"
proof -
  let ?T = "since t0 (\<lambda>_. True)" and ?C = "since t0 (connection_ready (dd_yaml d) (dd_conf d) s masterIP)"
  let ?Q = "\<lambda>e t. e = (None :: goerr option) \<longrightarrow> since t0 (ran_bootstrap (dd_yaml d) (dd_conf d) s masterIP) t"
  have step: "triple ?T (run_step c exec cmd what k) ?Q" if "triple ?T k ?Q" for cmd what k
    unfolding run_step_def
    by (rule triple_bind [where R = "\<lambda>_. ?T"], rule session_triple [OF s], simp)
      (intro triple_intros triple_ret that; simp)
  have conn: "triple ?T (run_step c exec (buildWriteFileCommand (remoteConnConfigPath (VMSSHUser (dd_conf d))) doc ''0600'') what k) ?Q"
    if k: "triple ?C k ?Q" and doc: "buildDHCTLSSHConnectionConfig (dd_yaml d) key (VMSSHUser (dd_conf d)) masterIP pass = Inr doc" for what k key pass doc
    unfolding run_step_def
  proof (rule triple_bind [where R = "\<lambda>r t. snd r = None \<longrightarrow> ?C t"], rule session_triple [OF s])
    fix t and r :: "exec_result \<times> goerr option" assume "?T t"
    then obtain u where t: "t = t0 @ u" by (auto simp: since_def)
    show "snd r = None \<longrightarrow> ?C (t @ [Exec s (buildWriteFileCommand (remoteConnConfigPath (VMSSHUser (dd_conf d))) doc ''0600'') r])"
    proof
      assume "snd r = None"
      then obtain res where r: "r = (res, None)" by (cases r) auto
      obtain cfg hostBytes where "doc = cfg @ ''---'' @ [nl] @ trimSuffix hostBytes [nl] @ [nl]"
        "yl_sshHost (dd_yaml d) \<lparr>hm_APIVersion = ''dhctl.deckhouse.io/v1'', hm_Kind = ''SSHHost'', hm_Host = masterIP\<rparr> = Inr hostBytes"
        using doc by (rule connection_config_host)
      then have "connection_ready (dd_yaml d) (dd_conf d) s masterIP
          (u @ [Exec s (buildWriteFileCommand (remoteConnConfigPath (VMSSHUser (dd_conf d))) doc ''0600'') r])"
        unfolding connection_ready_def connection_written_def r by blast
      then show "?C (t @ [Exec s (buildWriteFileCommand (remoteConnConfigPath (VMSSHUser (dd_conf d))) doc ''0600'') r])"
        by (auto simp: t since_def)
    qed
  qed (auto intro!: triple_ret triple_pre [OF k] split: prod.splits option.splits)
  have container: "triple ?C (run_container d c exec img masterIP) ?Q" for img by (rule run_container_triple [OF s])
  have plain: "triple ?T (run_container d c exec img masterIP) ?Q" if "SSHPassphrase (dd_conf d) = []" for img
    by (rule triple_pre [OF container]) (use that in \<open>auto simp: connection_ready_def elim: since_imp\<close>)
  show ?thesis
    unfolding runDhctlBootstrap_def m sum.case Let_def
    by (intro triple_intros triple_ret step conn container plain; simp)
qed

context master_connector
begin

lemma connect_triple:
  assumes "\<And>t ev. P t \<Longrightarrow> master_event ip ev \<Longrightarrow> P (t @ [ev])"
  shows "triple P (connectToMaster c ip) (\<lambda>r t. P t \<and> (\<forall>cfg cl. r = Inr (cfg, cl) \<longrightarrow> only_calls (master_event ip) cl))"
proof -
  have "triple P (connectToMaster c ip) (\<lambda>_. P)" by (rule triple_keeps [OF connect_calls]) (rule assms)
  then show ?thesis by (auto intro!: tripleI dest: tripleD cleanup_calls)
qed

lemma existing_install_spec:
  assumes d: "dd_connectToMaster d = connectToMaster" and stable: "\<And>u ev. F u \<Longrightarrow> F (u @ [ev])"
  shows "triple (since t0 (\<lambda>u. history (dhctl_justified s m) u \<and> F u)) (existing_install d c m)
    (\<lambda>r. since t0 (\<lambda>u. history (dhctl_justified s m) u \<and> F u \<and> (\<forall>b. r = Inr b \<longrightarrow> b \<and> ready_seen u)))"
proof -
  let ?H = "history (dhctl_justified s m)"
  let ?post = "\<lambda>r. since t0 (\<lambda>u. ?H u \<and> F u \<and> (\<forall>b. r = Inr b \<longrightarrow> b \<and> ready_seen u))"
  have "triple (\<lambda>t. since t0 (\<lambda>u. ?H u \<and> F u) t \<and> since t0 (\<lambda>_. True) t) (waitExistingInstallReady rt api c timeout)
      (\<lambda>e t. since t0 (\<lambda>u. ?H u \<and> F u) t \<and> (e = None \<longrightarrow> since t0 ready_seen t))" for rt api timeout
    by (intro triple_conj existing_install_triple master_keeps only_calls_mono [OF existing_ready_calls] stable)
      (auto simp: no_exec_def master_event_def)
  then have ready: "triple (since t0 (\<lambda>u. ?H u \<and> F u)) (waitExistingInstallReady rt api c timeout)
      (\<lambda>e. since t0 (\<lambda>u. ?H u \<and> F u \<and> (e = None \<longrightarrow> ready_seen u)))" for rt api timeout
    by (rule triple_conseq) (auto simp: since_def)
  have installed: "triple (since t0 (\<lambda>u. ?H u \<and> F u)) (io_finally
      (io_bind (waitExistingInstallReady rt api c timeout) (\<lambda>e. io_ret (case e of Some err \<Rightarrow> Inl (wrap err) | None \<Rightarrow> Inr True))) cl) ?post"
    if "only_calls (master_event m) cl" for rt api timeout wrap cl
  proof (rule triple_finally)
    show "triple (since t0 (\<lambda>u. ?H u \<and> F u)) (io_bind (waitExistingInstallReady rt api c timeout)
        (\<lambda>e. io_ret (case e of Some err \<Rightarrow> Inl (wrap err) | None \<Rightarrow> Inr True))) ?post"
      by (rule triple_bind [OF ready], rule triple_ret) (auto elim!: since_imp split: option.splits)
    show "triple (?post r) cl (\<lambda>_. ?post r)" for r
      by (rule master_keeps [OF that]) (auto simp: stable intro: ready_seen_append)
  qed
  have connected: "triple (since t0 (\<lambda>u. ?H u \<and> F u)) (connectToMaster c m)
      (\<lambda>r t. since t0 (\<lambda>u. ?H u \<and> F u) t \<and> (\<forall>cfg cl. r = Inr (cfg, cl) \<longrightarrow> only_calls (master_event m) cl))"
    by (rule connect_triple) (auto elim!: since_step simp: stable master_event_def dhctl_justified_def)
  show ?thesis
    unfolding existing_install_def d
    by (rule triple_bind [OF connected], rule triple_sum)
      (auto intro!: triple_ret triple_when installed elim: since_imp split: prod.splits)
qed

lemma installed_triple:
  assumes d: "dd_vmExecutor d = vmExecutor" "dd_connectToMaster d = connectToMaster"
    and stable: "\<And>u ev. F u \<Longrightarrow> F (u @ [ev])"
  shows "triple (since t0 (\<lambda>u. history (dhctl_justified s m) u \<and> F u)) (deckhouseAlreadyInstalled d c m)
    (res_or (\<lambda>b. since t0 (\<lambda>u. history (dhctl_justified s m) u \<and> F u \<and> install_known (dd_yaml d) (dd_conf d) s m b u))
       (since t0 (history (dhctl_justified s m))))"
proof -
  let ?H = "history (dhctl_justified s m)"
  let ?post = "res_or (\<lambda>b. since t0 (\<lambda>u. ?H u \<and> F u \<and> install_known (dd_yaml d) (dd_conf d) s m b u)) (since t0 ?H)"
  let ?probed = "\<lambda>r u. F u \<and> Exec m masterKubeconfigProbeCmd r \<in> set u"
  have opened: "triple (since t0 (\<lambda>u. ?H u \<and> F u)) (vmExecutor c m)
      (\<lambda>r t. since t0 (\<lambda>u. ?H u \<and> F u) t \<and> (\<forall>ex cl. r = Inr (ex, cl) \<longrightarrow> session_on m ex cl))"
    by (rule vmExecutor_triple) (auto elim!: since_step simp: stable dhctl_justified_def dial_event_def)
  have probe: "triple (since t0 (\<lambda>u. ?H u \<and> F u)) (io_finally (ex c masterKubeconfigProbeCmd) cl)
      (\<lambda>r. since t0 (\<lambda>u. ?H u \<and> ?probed r u))" if "session_on m ex cl" for ex cl
  proof (rule triple_finally)
    show "triple (since t0 (\<lambda>u. ?H u \<and> F u)) (ex c masterKubeconfigProbeCmd) (\<lambda>r. since t0 (\<lambda>u. ?H u \<and> ?probed r u))"
      by (rule session_triple [OF that]) (auto elim!: since_step simp: stable dhctl_justified_def)
    have "only_calls (master_event m) cl" using that by (auto simp: only_calls_def session_on_def master_event_def)
    then show "triple (since t0 (\<lambda>u. ?H u \<and> ?probed r u)) cl (\<lambda>_. since t0 (\<lambda>u. ?H u \<and> ?probed r u))" for r
      by (rule master_keeps) (auto simp: stable)
  qed
  have ex: "triple (since t0 (\<lambda>u. ?H u \<and> ?probed (res, None) u)) (existing_install d c m) ?post" for res
    by (rule triple_post [OF existing_install_spec [OF d(2)]])
      (auto simp: stable res_or_def bootstrapped_def install_known_def elim!: since_imp split: sum.splits)
  have after: "triple (since t0 (\<lambda>u. ?H u \<and> F u)) (io_bind (io_finally (ex c masterKubeconfigProbeCmd) cl) (\<lambda>(res, probeErr). case probeErr of
       Some e \<Rightarrow> io_ret (if er_exitCode res \<noteq> 0 then Inr False else Inl (wrap e)) | None \<Rightarrow> existing_install d c m)) ?post"
    if "session_on m ex cl" for ex cl wrap
  proof (rule triple_bind [OF probe [OF that]], rule triple_prod, rule triple_option)
    fix r :: "exec_result \<times> goerr option" and res e err
    assume r: "r = (res, e)"
    show "e = None \<Longrightarrow> triple (since t0 (\<lambda>u. ?H u \<and> ?probed r u)) (existing_install d c m) ?post"
      using ex r by simp
    show "e = Some err \<Longrightarrow> triple (since t0 (\<lambda>u. ?H u \<and> ?probed r u))
        (io_ret (if er_exitCode res \<noteq> 0 then Inr False else Inl (wrap err))) ?post"
      using r by (intro triple_ret) (auto elim!: since_imp simp: no_kubeconfig_def install_known_def)
  qed
  show ?thesis
    unfolding deckhouseAlreadyInstalled_def d
    by (rule triple_bind [OF opened], rule triple_sum)
      (auto intro!: triple_ret triple_when after elim: since_imp split: prod.splits)
qed

lemma ensure_triple:
  assumes d: "dd_vmExecutor d = vmExecutor" "dd_connectToMaster d = connectToMaster"
    and m: "firstMasterVMIP (Some def) = Inr m" and s: "session_on s exec close"
  shows "triple (since t0 (history (dhctl_justified s m))) (ensureDhctlBootstrapped d c exec def)
    (\<lambda>e. since t0 (\<lambda>u. history (dhctl_justified s m) u \<and> (e = None \<longrightarrow> bootstrapped (dd_yaml d) (dd_conf d) s m u)))"
proof -
  let ?H = "history (dhctl_justified s m)"
  let ?post = "\<lambda>e. since t0 (\<lambda>u. ?H u \<and> (e = None \<longrightarrow> bootstrapped (dd_yaml d) (dd_conf d) s m u))"
  let ?G = "\<lambda>u. container_idle s u \<and> no_kubeconfig m u"
  have fail: "since t0 ?H t \<Longrightarrow> ?post (Some e) t" for e t by (auto elim: since_imp)
  have "triple (\<lambda>t. since t0 (\<lambda>u. ?H u \<and> ?G u) t \<and> since t0 (\<lambda>_. True) t) (runDhctlBootstrap d c exec def)
      (\<lambda>e t. since t0 (\<lambda>u. ?H u \<and> ?G u) t \<and> (e = None \<longrightarrow> since t0 (ran_bootstrap (dd_yaml d) (dd_conf d) s m) t))"
    by (intro triple_conj justified_keeps [OF run_bootstrap_calls [OF s]] run_bootstrap_triple [OF s m])
      (auto simp: exec_on_def dhctl_justified_def intro: dhctl_stable)
  then have run: "triple (since t0 (\<lambda>u. ?H u \<and> ?G u)) (runDhctlBootstrap d c exec def) ?post"
    by (rule triple_conseq) (auto simp: since_def bootstrapped_def)
  have rest: "triple (since t0 (\<lambda>u. ?H u \<and> container_idle s u)) (io_bind (deckhouseAlreadyInstalled d c m) (\<lambda>r. case r of
       Inl e \<Rightarrow> io_ret (Some e)
     | Inr installed \<Rightarrow> if installed then io_ret None else runDhctlBootstrap d c exec def)) ?post"
    by (rule triple_try_opt [where wrap = "\<lambda>e. e"], rule installed_triple [OF d], erule dhctl_stable, erule fail)
      (auto intro!: triple_ret triple_pre [OF run] triple_if simp: install_known_def elim: since_imp)
  show ?thesis
    unfolding ensureDhctlBootstrapped_def m sum.case
  proof (rule triple_try_opt, rule status_triple [OF s], erule fail, rule triple_bind, rule in_flight_triple [OF s], rule triple_option)
    fix x :: "goerr option" and y
    show "x = None \<Longrightarrow> triple (nil_or (since t0 (\<lambda>u. ?H u \<and> container_idle s u)) (since t0 ?H) x)
       (io_bind (deckhouseAlreadyInstalled d c m) (\<lambda>r. case r of Inl e \<Rightarrow> io_ret (Some e)
     | Inr installed \<Rightarrow> if installed then io_ret None else runDhctlBootstrap d c exec def)) ?post"
      using triple_pre [OF rest, of "nil_or (since t0 (\<lambda>u. ?H u \<and> container_idle s u)) (since t0 ?H) x"] by simp
    show "x = Some y \<Longrightarrow> triple (nil_or (since t0 (\<lambda>u. ?H u \<and> container_idle s u)) (since t0 ?H) x) (io_ret (Some y)) ?post"
      by (rule triple_ret) (auto intro: fail)
  qed
qed

lemma dhctl_bootstrap_triple:
  assumes d: "dd_vmExecutor d = vmExecutor" "dd_connectToMaster d = connectToMaster"
    and m: "firstMasterVMIP (Some def) = Inr m" and s: "Setup def = Some n" "IPAddress n = s"
  shows "triple (since t0 (history (dhctl_justified s m))) (dhctlBootstrap d c def)
    (\<lambda>e. since t0 (\<lambda>u. history (dhctl_justified s m) u \<and> (e = None \<longrightarrow> bootstrapped (dd_yaml d) (dd_conf d) s m u)))"
proof -
  let ?H = "history (dhctl_justified s m)"
  let ?post = "\<lambda>e. since t0 (\<lambda>u. ?H u \<and> (e = None \<longrightarrow> bootstrapped (dd_yaml d) (dd_conf d) s m u))"
  have opened: "triple (since t0 ?H) (vmExecutor c s) (\<lambda>r t. since t0 ?H t \<and> (\<forall>ex cl. r = Inr (ex, cl) \<longrightarrow> session_on s ex cl))"
    by (rule vmExecutor_triple) (auto elim!: since_step simp: dhctl_justified_def dial_event_def)
  have run: "triple (since t0 ?H) (io_finally (ensureDhctlBootstrapped d c ex def) cl) ?post" if "session_on s ex cl" for ex cl
  proof (rule triple_finally [OF ensure_triple [OF d m that]])
    have "only_calls (master_event m) cl" using that by (auto simp: only_calls_def session_on_def master_event_def)
    then show "triple (?post e) cl (\<lambda>_. ?post e)" for e by (rule master_keeps) (auto intro: dhctl_stable)
  qed
  show ?thesis
    unfolding dhctlBootstrap_def s option.case d
  proof (rule triple_if, rule triple_ret, force elim: since_imp, rule triple_bind [OF opened], rule triple_sum)
    fix r :: "goerr + 'e executor \<times> ('e, unit) act" and e assume "r = Inl e"
    then show "triple (\<lambda>t. since t0 ?H t \<and> (\<forall>ex cl. r = Inr (ex, cl) \<longrightarrow> session_on s ex cl))
      (io_ret (Some (wrapf ''dhctl bootstrap: connect to setup node: '' e))) ?post"
      by (intro triple_ret) (auto elim: since_imp)
  next
    fix r :: "goerr + 'e executor \<times> ('e, unit) act" and y assume "r = Inr y"
    then show "triple (\<lambda>t. since t0 ?H t \<and> (\<forall>ex cl. r = Inr (ex, cl) \<longrightarrow> session_on s ex cl))
      (case y of (exec, closeExec) \<Rightarrow> io_finally (ensureDhctlBootstrapped d c exec def) closeExec) ?post"
      by (cases y) (auto intro!: triple_when run)
  qed
qed

end

section \<open>Connections\<close>

text \<open>The bootstrap closes every connection it opens.\<close>

abbreviation balanced :: "('e, 'a) act \<Rightarrow> bool" where
  "balanced m \<equiv> (\<forall>opn. triple (\<lambda>t. opens t = opn) m (\<lambda>_ t. opens t = opn))"

lemma balanced_quiet: "only_calls quiet m \<Longrightarrow> balanced m"
  by (simp add: triple_quiet)

lemma balanced_bind: "balanced m \<Longrightarrow> (\<And>x. balanced (f x)) \<Longrightarrow> balanced (io_bind m f)"
  by (blast intro: triple_bind)

lemma balanced_if: "balanced m \<Longrightarrow> balanced m' \<Longrightarrow> balanced (if b then m else m')"
  by simp

lemma balanced_option: "balanced m \<Longrightarrow> (\<And>y. balanced (f y)) \<Longrightarrow> balanced (case x of None \<Rightarrow> m | Some y \<Rightarrow> f y)"
  by (cases x) auto

lemma balanced_sum: "(\<And>y. balanced (f y)) \<Longrightarrow> (\<And>y. balanced (g y)) \<Longrightarrow> balanced (case x of Inl y \<Rightarrow> f y | Inr y \<Rightarrow> g y)"
  by (cases x) auto

lemma balanced_prod: "(\<And>a b. balanced (f a b)) \<Longrightarrow> balanced (case x of (a, b) \<Rightarrow> f a b)"
  by (cases x) auto

lemma balanced_ret: "balanced (io_ret x)"
  by (simp add: triple_ret)

lemmas balanced_intros = balanced_bind balanced_if balanced_option balanced_sum balanced_prod balanced_ret

lemma existing_ready_quiet: "only_calls quiet (waitExistingInstallReady rt api c timeout)"
proof -
  have "only_calls quiet (secrets_readable api c names)" for names by (induction names) (auto intro!: calls_intros)
  then show ?thesis
    unfolding waitExistingInstallReady_def waitExistingInstallReadyClient_def checkHealthClient_def
    by (intro calls_intros; simp)
qed

lemma run_bootstrap_quiet: "session_on s exec close \<Longrightarrow> only_calls quiet (runDhctlBootstrap d c exec def)"
  by (rule only_calls_mono [OF run_bootstrap_calls]) (auto simp: exec_on_def)

context base_connector
begin

lemma session_then:
  assumes body: "\<And>exec close. session_on ip exec close \<Longrightarrow> balanced (body exec)"
    and k: "\<And>x. triple (\<lambda>t. opens t = opn) (k x) Q" and fail: "\<And>e. triple (\<lambda>t. opens t = opn) (fail e) Q"
  shows "triple (\<lambda>t. opens t = opn) (io_bind (vmExecutor c ip) (\<lambda>r. case r of
     Inl e \<Rightarrow> fail e | Inr (exec, close) \<Rightarrow> io_bind (io_finally (body exec) close) k)) Q"
proof -
  let ?up = "\<lambda>n. opn n + (if n = ssh_conn ip then 1 else 0)"
  let ?R = "\<lambda>r t. case r of Inl e \<Rightarrow> opens t = opn | Inr (exec, close) \<Rightarrow> session_on ip exec close \<and> opens t = ?up"
  have opened: "triple (\<lambda>t. opens t = opn) (vmExecutor c ip) ?R"
    by (rule vmExecutor_triple) (auto simp: opens_snoc fun_eq_iff quiet_def dest: dial_event_quiet)
  have used: "triple (\<lambda>t. opens t = ?up) (io_bind (io_finally (body exec) close) k) Q" if "session_on ip exec close" for exec close
  proof (rule triple_bind, rule triple_finally)
    show "triple (\<lambda>t. opens t = ?up) (body exec) (\<lambda>_ t. opens t = ?up)" using body [OF that] by blast
    show "triple (\<lambda>t. opens t = ?up) close (\<lambda>_ t. opens t = opn)"
      using that by (intro tripleI) (auto simp: session_on_def opens_snoc fun_eq_iff)
    show "triple (\<lambda>t. opens t = opn) (k x) Q" for x by (rule k)
  qed
  show ?thesis
  proof (rule triple_bind [OF opened])
    fix r
    show "triple (?R r) (case r of Inl e \<Rightarrow> fail e | Inr (exec, close) \<Rightarrow> io_bind (io_finally (body exec) close) k) Q"
      using fail by (cases r) (auto intro: triple_assume used)
  qed
qed

lemma session_bracket:
  assumes "\<And>exec close. session_on ip exec close \<Longrightarrow> balanced (body exec)" and "\<And>x. balanced (k x)" and "\<And>e. balanced (fail e)"
  shows "balanced (io_bind (vmExecutor c ip) (\<lambda>r. case r of
     Inl e \<Rightarrow> fail e | Inr (exec, close) \<Rightarrow> io_bind (io_finally (body exec) close) k))"
  using assms by (blast intro: session_then)

end

context master_connector
begin

lemma existing_install_balanced:
  assumes "dd_connectToMaster d = connectToMaster"
  shows "balanced (existing_install d c m)"
  unfolding existing_install_def assms
  by (intro allI acquire_use_release connect_acquires calls_intros triple_quiet existing_ready_quiet)

lemma already_installed_balanced:
  assumes "dd_vmExecutor d = vmExecutor" "dd_connectToMaster d = connectToMaster"
  shows "balanced (deckhouseAlreadyInstalled d c m)"
  unfolding deckhouseAlreadyInstalled_def assms
  by (intro session_bracket balanced_intros existing_install_balanced [OF assms(2)] balanced_quiet session_quiet)

lemma ensure_balanced:
  assumes "dd_vmExecutor d = vmExecutor" "dd_connectToMaster d = connectToMaster" "session_on s exec close"
  shows "balanced (ensureDhctlBootstrapped d c exec def)"
  unfolding ensureDhctlBootstrapped_def dockerContainerStatus_def dockerWaitContainer_def Let_def
  by (intro balanced_intros already_installed_balanced [OF assms(1,2)] balanced_quiet [OF run_bootstrap_quiet [OF assms(3)]]
      balanced_quiet [OF session_quiet [OF assms(3)]])

lemma dhctl_bootstrap_balanced:
  assumes "dd_vmExecutor d = vmExecutor" "dd_connectToMaster d = connectToMaster"
  shows "balanced (dhctlBootstrap d c def)"
proof -
  have "balanced (io_bind (vmExecutor c ip) (\<lambda>r. case r of
      Inl e \<Rightarrow> io_ret (Some (wrap e))
    | Inr (exec, close) \<Rightarrow> io_bind (io_finally (ensureDhctlBootstrapped d c exec def) close) io_ret))" for wrap ip
    by (intro session_bracket balanced_ret ensure_balanced [OF assms])
  then show ?thesis
    unfolding dhctlBootstrap_def assms io_bind_ret_right by (auto intro: triple_ret split: option.splits)
qed

end

end
