(* ===== verification/Connector.thy ===== *)
theory Connector
  imports Dhctl
begin

text \<open>
  How the provider reaches machines and API servers: \<^verbatim>\<open>internal/provisioning/dvp/connect.go\<close>,
  \<^verbatim>\<open>node_executor.go\<close>, \<^verbatim>\<open>vm_ip_resolver.go\<close>, the tunnel of \<^verbatim>\<open>internal/kubernetes/kubeaccess\<close>, and of
  \<^verbatim>\<open>internal/infrastructure/ssh/v2\<close> the addresses, the options and the retried connect. The operations of a
  connected SSH client (run a command, open and close a tunnel, close) are the record \<open>ssh_lib\<close>, keyed by
  the route of the client; each is one event of the trace. The end of the theory shows that the
  connector keeps the contracts of the locales \<open>base_connector\<close> and \<open>master_connector\<close>.
\<close>

section \<open>Addresses\<close>

record endpoint =
  ep_User :: string
  ep_Addr :: string
  ep_KeyData :: string
  ep_Passphrase :: string

text \<open>Whether \<^verbatim>\<open>net.SplitHostPort\<close> accepts an address.\<close>

fun before_last :: "char \<Rightarrow> string \<Rightarrow> string" where
  "before_last c [] = []"
| "before_last c (x # xs) = (if c \<in> set xs then x # before_last c xs else [])"

definition splits_host_port :: "string \<Rightarrow> bool" where
  "splits_host_port s \<longleftrightarrow> CHR '':'' \<in> set s \<and>
     (if hasPrefix s ''[''
      then let inner = takeWhile (\<lambda>c. c \<noteq> CHR '']'') (tl s); rest = drop (length inner + 2) s in
        CHR '']'' \<in> set (tl s) \<and> before_last (CHR '':'') s = ''['' @ inner @ '']'' \<and>
        CHR ''['' \<notin> set (tl s) \<and> CHR '']'' \<notin> set rest
      else let host = before_last (CHR '':'') s in
        CHR '':'' \<notin> set host \<and> CHR ''['' \<notin> set s \<and> CHR '']'' \<notin> set s)"

definition joinHostPort :: "string \<Rightarrow> string \<Rightarrow> string" where
  "joinHostPort host port = (if CHR '':'' \<in> set host then ''['' @ host @ '']:'' @ port else host @ '':'' @ port)"

definition endpoint_addr :: "endpoint \<Rightarrow> string" where
  "endpoint_addr e =
     (if ep_Addr e = [] then [] else if splits_host_port (ep_Addr e) then ep_Addr e else joinHostPort (ep_Addr e) ''22'')"

definition endpoint_label :: "endpoint \<Rightarrow> string" where
  "endpoint_label e = ep_User e @ ''@'' @ endpoint_addr e"

definition Route :: "endpoint \<Rightarrow> endpoint list \<Rightarrow> endpoint list" where
  "Route firstHop moreHops = firstHop # moreHops"

definition Describe :: "endpoint list \<Rightarrow> string" where
  "Describe hops = str_join '' -> '' (map endpoint_label hops)"

section \<open>SSH clients\<close>

definition SSHRetryCount :: int where "SSHRetryCount = 10"
definition defaultDialTimeout :: int where "defaultDialTimeout = 30 * second"

record ssh_options =
  so_keepalive :: int
  so_keepaliveTimeout :: int
  so_retries :: int
  so_insecureHostKey :: bool
  so_dialTimeout :: int

definition defaultOptions :: ssh_options where
  "defaultOptions = \<lparr>so_keepalive = 0, so_keepaliveTimeout = 0, so_retries = SSHRetryCount, so_insecureHostKey = True,
     so_dialTimeout = defaultDialTimeout\<rparr>"

definition WithKeepalive :: "int \<Rightarrow> ssh_options \<Rightarrow> ssh_options" where
  "WithKeepalive d opts = opts\<lparr>so_keepalive := d\<rparr>"

definition WithInsecureIgnoreHostKey :: "ssh_options \<Rightarrow> ssh_options" where
  "WithInsecureIgnoreHostKey opts = opts\<lparr>so_insecureHostKey := True\<rparr>"

text \<open>The outcomes of a \<^verbatim>\<open>select\<close> between a context, a deadline and a timer.\<close>

datatype select3 = SelectDone goerr | SelectDeadline | SelectTick

record 'e ssh_lib =
  sl_New :: "ctx \<Rightarrow> endpoint list \<Rightarrow> ssh_options \<Rightarrow> 'e \<Rightarrow> goerr option \<times> 'e"
  sl_select :: "ctx \<Rightarrow> int \<Rightarrow> int \<Rightarrow> 'e \<Rightarrow> select3 \<times> 'e"
  sl_Exec :: "endpoint list \<Rightarrow> ctx \<Rightarrow> string \<Rightarrow> 'e \<Rightarrow> (exec_result \<times> goerr option) \<times> 'e"
  sl_OpenTunnel :: "endpoint list \<Rightarrow> ctx \<Rightarrow> int \<Rightarrow> 'e \<Rightarrow> (goerr + int) \<times> 'e"
  sl_CloseTunnel :: "endpoint list \<Rightarrow> 'e \<Rightarrow> goerr option \<times> 'e"
  sl_Close :: "endpoint list \<Rightarrow> 'e \<Rightarrow> goerr option \<times> 'e"

definition target_addr :: "endpoint list \<Rightarrow> string" where
  "target_addr hops = ep_Addr (last hops)"

definition ssh_New :: "'e ssh_lib \<Rightarrow> ctx \<Rightarrow> endpoint list \<Rightarrow> ssh_options \<Rightarrow> ('e, goerr option) act" where
  "ssh_New ssh c hops opts = call (Opened (ssh_conn (target_addr hops))) (sl_New ssh c hops opts)"

definition client_Close :: "'e ssh_lib \<Rightarrow> endpoint list \<Rightarrow> ('e, goerr option) act" where
  "client_Close ssh hops = call (\<lambda>_. Closed (ssh_conn (target_addr hops))) (sl_Close ssh hops)"

definition OpenTunnel :: "'e ssh_lib \<Rightarrow> endpoint list \<Rightarrow> ctx \<Rightarrow> int \<Rightarrow> ('e, goerr + int) act" where
  "OpenTunnel ssh hops c remotePort =
     call (\<lambda>r. Opened (tunnel_conn (target_addr hops)) (case r of Inl e \<Rightarrow> Some e | Inr _ \<Rightarrow> None)) (sl_OpenTunnel ssh hops c remotePort)"

definition tunnel_Close :: "'e ssh_lib \<Rightarrow> endpoint list \<Rightarrow> ('e, goerr option) act" where
  "tunnel_Close ssh hops = call (\<lambda>_. Closed (tunnel_conn (target_addr hops))) (sl_CloseTunnel ssh hops)"

definition LocalAddr :: "int \<Rightarrow> string" where
  "LocalAddr localPort = ''127.0.0.1:'' @ itoa localPort"

definition retry_connect :: "'e ssh_lib \<Rightarrow> ctx \<Rightarrow> endpoint list \<Rightarrow> int \<Rightarrow> int \<Rightarrow> ssh_options \<Rightarrow> unit \<Rightarrow> ('e, goerr option + unit) act" where
  "retry_connect ssh c hops retryEvery timeout opts u =
     io_bind (ssh_New ssh c hops opts) (\<lambda>e. case e of
       None \<Rightarrow> io_ret (Inl None)
     | Some err \<Rightarrow> io_bind (call (\<lambda>_. Waited c retryEvery) (sl_select ssh c timeout retryEvery)) (\<lambda>d. io_ret (case d of
         SelectDone ctxe \<Rightarrow> Inl (Some ctxe)
       | SelectDeadline \<Rightarrow> Inl (Some (wrapf (''ssh: connect to '' @ Describe hops @ '' within '' @ dur_str timeout @ '': '') err))
       | SelectTick \<Rightarrow> Inr ())))"

definition NewWithRetry :: "'e ssh_lib \<Rightarrow> ctx \<Rightarrow> endpoint list \<Rightarrow> int \<Rightarrow> int \<Rightarrow> ssh_options \<Rightarrow> ('e, goerr option) act" where
  "NewWithRetry ssh c hops retryEvery timeout opts = loop (retry_connect ssh c hops retryEvery timeout opts) ()"

section \<open>The connector\<close>

definition setupNodeConnectPoll :: int where "setupNodeConnectPoll = 10 * second"
definition setupNodeConnectTimeout :: int where "setupNodeConnectTimeout = 5 * minute"

record ('e, 'a, 'c) connector =
  cn_ssh :: "'e ssh_lib"
  cn_clientcmd :: "('a, 'c) clientcmd"
  cn_api :: "'c rest_config \<Rightarrow> 'e kube_api"
  cn_conf :: dvp_config
  cn_creds :: credentials

text \<open>\<^verbatim>\<open>runCleanups\<close> and the run of a \<^verbatim>\<open>cleanupStack\<close>: last in, first out.\<close>

primrec run_in_order :: "('e, unit) act list \<Rightarrow> ('e, unit) act" where
  "run_in_order [] = io_ret ()"
| "run_in_order (f # fs) = io_bind f (\<lambda>_. run_in_order fs)"

definition runCleanups :: "('e, unit) act list \<Rightarrow> ('e, unit) act" where
  "runCleanups fns = run_in_order (rev fns)"

definition baseEndpoints :: "('e, 'a, 'c) connector \<Rightarrow> endpoint list" where
  "baseEndpoints cn =
     (let conf = cn_conf cn; creds = cn_creds cn;
          base = \<lparr>ep_User = SSHUser conf, ep_Addr = SSHHost conf, ep_KeyData = cred_SSHKey creds, ep_Passphrase = SSHPassphrase conf\<rparr> in
      if JumpHostConfigured conf
      then [\<lparr>ep_User = SSHJumpUser conf, ep_Addr = SSHJumpHost conf, ep_KeyData = cred_JumpKey creds,
             ep_Passphrase = SSHJumpPassphrase conf\<rparr>, base]
      else [base])"

text \<open>The hops to a machine behind the base endpoints.\<close>

definition vm_hops :: "('e, 'a, 'c) connector \<Rightarrow> string \<Rightarrow> endpoint list" where
  "vm_hops cn vmIP = baseEndpoints cn @
     [\<lparr>ep_User = VMSSHUser (cn_conf cn), ep_Addr = vmIP, ep_KeyData = cred_SSHKey (cn_creds cn), ep_Passphrase = SSHPassphrase (cn_conf cn)\<rparr>]"

definition buildSSHClient :: "('e, 'a, 'c) connector \<Rightarrow> ctx \<Rightarrow> ('e, goerr option) act" where
  "buildSSHClient cn c =
     (let hops = baseEndpoints cn in
      io_bind (ssh_New (cn_ssh cn) c (Route (hd hops) (tl hops)) (WithKeepalive (30 * second) defaultOptions)) (\<lambda>e.
        io_ret (map_option (wrapf ''creating ssh client: '') e)))"

definition connect_vm :: "('e, 'a, 'c) connector \<Rightarrow> ctx \<Rightarrow> string \<Rightarrow> ('e, goerr option) act" where
  "connect_vm cn c vmIP =
     (let hops = vm_hops cn vmIP in
      io_bind (NewWithRetry (cn_ssh cn) c (Route (hd hops) (tl hops)) setupNodeConnectPoll setupNodeConnectTimeout
          (WithInsecureIgnoreHostKey defaultOptions)) (\<lambda>e.
        io_ret (map_option (wrapf (''connecting to VM '' @ vmIP @ '': '')) e)))"

definition VMExecutor :: "('e, 'a, 'c) connector \<Rightarrow> 'e vm_executor" where
  "VMExecutor cn c vmIP =
     (let hops = vm_hops cn vmIP in
      io_bind (connect_vm cn c vmIP) (\<lambda>e. io_ret (case e of
        Some err \<Rightarrow> Inl err
      | None \<Rightarrow> Inr (\<lambda>c cmd. call (Exec vmIP cmd) (sl_Exec (cn_ssh cn) hops c cmd),
          io_bind (client_Close (cn_ssh cn) hops) (\<lambda>_. io_ret ())))))"

text \<open>\<^verbatim>\<open>kubeaccess.TunnelRestConfig\<close>.\<close>

definition TunnelRestConfig ::
  "'e ssh_lib \<Rightarrow> ('a, 'c) clientcmd \<Rightarrow> ctx \<Rightarrow> endpoint list \<Rightarrow> string \<Rightarrow> int
   \<Rightarrow> ('e, goerr + ('c rest_config \<times> ('e, goerr option) act)) act" where
  "TunnelRestConfig ssh cc c hops kubeconfig remotePort =
     io_bind (OpenTunnel ssh hops c remotePort) (\<lambda>r. case r of
       Inl e \<Rightarrow> io_ret (Inl (wrapf ''creating tunnel: '' e))
     | Inr localPort \<Rightarrow> (case BuildRestConfig cc kubeconfig (LocalAddr localPort) of
         Inl e \<Rightarrow> io_bind (tunnel_Close ssh hops) (\<lambda>_. io_ret (Inl (wrapf ''creating rest config: '' e)))
       | Inr cfg \<Rightarrow> io_ret (Inr (cfg, tunnel_Close ssh hops))))"

definition ignore_err :: "('e, goerr option) act \<Rightarrow> ('e, unit) act" where
  "ignore_err m = io_bind m (\<lambda>_. io_ret ())"

definition connect_tunnel :: "('e, 'a, 'c) connector \<Rightarrow> ctx \<Rightarrow> ('e, goerr + ('c rest_config \<times> ('e, unit) act)) act" where
  "connect_tunnel cn c =
     (let hops = baseEndpoints cn; closeClient = ignore_err (client_Close (cn_ssh cn) hops) in
      io_bind (buildSSHClient cn c) (\<lambda>e. case e of
        Some err \<Rightarrow> io_ret (Inl (wrapf ''creating ssh client: '' err))
      | None \<Rightarrow> io_bind (TunnelRestConfig (cn_ssh cn) (cn_clientcmd cn) c hops (cred_Kubeconfig (cn_creds cn)) apiServerRemotePort) (\<lambda>r. case r of
          Inl err \<Rightarrow> io_bind (runCleanups [closeClient]) (\<lambda>_. io_ret (Inl err))
        | Inr (restConfig, closeTunnel) \<Rightarrow> io_ret (Inr (restConfig, runCleanups [closeClient, ignore_err closeTunnel])))))"

definition Connect :: "('e, 'a, 'c) connector \<Rightarrow> ctx \<Rightarrow> ('e, goerr + ('c rest_config \<times> ('e, unit) act)) act" where
  "Connect cn c =
     (case BuildRestConfigDirect (cn_clientcmd cn) (cred_Kubeconfig (cn_creds cn)) of
        Inl _ \<Rightarrow> connect_tunnel cn c
      | Inr directConfig \<Rightarrow> io_bind (DirectReachable (cn_api cn directConfig) c) (\<lambda>ok.
          if ok then io_ret (Inr (directConfig, io_ret ())) else connect_tunnel cn c))"

definition openTunnelToVM ::
  "('e, 'a, 'c) connector \<Rightarrow> ctx \<Rightarrow> string \<Rightarrow> int \<Rightarrow> ('e, goerr + (string \<times> ('e, goerr option) act)) act" where
  "openTunnelToVM cn c vmIP remotePort =
     (let hops = vm_hops cn vmIP; ssh = cn_ssh cn in
      io_bind (connect_vm cn c vmIP) (\<lambda>e. case e of
        Some err \<Rightarrow> io_ret (Inl err)
      | None \<Rightarrow> io_bind (OpenTunnel ssh hops c remotePort) (\<lambda>r. case r of
          Inl err \<Rightarrow> io_bind (client_Close ssh hops) (\<lambda>_. io_ret (Inl (wrapf (''opening tunnel to VM '' @ vmIP @ '': '') err)))
        | Inr localPort \<Rightarrow> io_ret (Inr (LocalAddr localPort,
            io_bind (tunnel_Close ssh hops) (\<lambda>tunErr. io_bind (client_Close ssh hops) (\<lambda>clientErr.
              io_ret (case tunErr of Some e \<Rightarrow> Some e | None \<Rightarrow> clientErr))))))))"

definition connectToMaster :: "('e, 'a, 'c) connector \<Rightarrow> ('e, 'c) master_connect" where
  "connectToMaster cn c masterIP =
     io_bind (VMExecutor cn c masterIP) (\<lambda>r. case r of
       Inl e \<Rightarrow> io_ret (Inl (wrapf (''connecting to master '' @ masterIP @ '': '') e))
     | Inr (exec, closeExec) \<Rightarrow> io_bind (io_finally (FetchKubeconfig c exec) closeExec) (\<lambda>k. case k of
         Inl e \<Rightarrow> io_ret (Inl (wrapf (''fetching kubeconfig from master '' @ masterIP @ '': '') e))
       | Inr kubeconfig \<Rightarrow> io_bind (openTunnelToVM cn c masterIP apiServerRemotePort) (\<lambda>t. case t of
           Inl e \<Rightarrow> io_ret (Inl e)
         | Inr (localAddr, closeTunnel) \<Rightarrow> (case RewriteServer kubeconfig localAddr of
             Inl e \<Rightarrow> io_bind closeTunnel (\<lambda>_. io_ret (Inl (wrapf ''rewriting master kubeconfig: '' e)))
           | Inr rewritten \<Rightarrow> (case BuildRestConfigDirect (cn_clientcmd cn) rewritten of
               Inl e \<Rightarrow> io_bind closeTunnel (\<lambda>_. io_ret (Inl (wrapf ''building master rest config: '' e)))
             | Inr restConfig \<Rightarrow> io_ret (Inr (restConfig, ignore_err closeTunnel)))))))"

section \<open>Commands on the nodes\<close>

definition vmIP_Resolve :: "'e virt_api \<Rightarrow> string \<Rightarrow> ctx \<Rightarrow> string \<Rightarrow> ('e, goerr + string) act" where
  "vmIP_Resolve virt namespace c nodeName =
     io_bind (VM_Get virt c namespace nodeName) (\<lambda>g. io_ret (case g of
       Inl e \<Rightarrow> Inl (wrapf (''get VM '' @ namespace @ ''/'' @ nodeName @ '': '') e)
     | Inr machine \<Rightarrow> if vm_ipAddress machine = []
         then Inl (ErrText (''VM '' @ namespace @ ''/'' @ nodeName @ '' has no IP address in status''))
         else Inr (vm_ipAddress machine)))"

definition empty_result :: exec_result where
  "empty_result = \<lparr>er_stdout = [], er_stderr = [], er_exitCode = 0\<rparr>"

definition node_Exec ::
  "('e, 'a, 'c) connector \<Rightarrow> 'e virt_api \<Rightarrow> string \<Rightarrow> ctx \<Rightarrow> string \<Rightarrow> string \<Rightarrow> ('e, exec_result \<times> goerr option) act" where
  "node_Exec cn virt namespace c nodeName command =
     io_bind (vmIP_Resolve virt namespace c nodeName) (\<lambda>r. case r of
       Inl e \<Rightarrow> io_ret (empty_result, Some e)
     | Inr ip \<Rightarrow> io_bind (VMExecutor cn c ip) (\<lambda>s. case s of
         Inl e \<Rightarrow> io_ret (empty_result, Some (wrapf (''connect to node '' @ nodeName @ '' ('' @ ip @ ''): '') e))
       | Inr (exec, closeExec) \<Rightarrow> io_finally (io_bind (exec c command) (\<lambda>(res, err). io_ret (res, case err of
           None \<Rightarrow> None
         | Some e \<Rightarrow> if as_exit e then None else Some (wrapf (''exec on node '' @ nodeName @ '' ('' @ ip @ ''): '') e)))) closeExec))"

section \<open>The contracts\<close>

lemma hops_cons [simp]: "Route (hd (baseEndpoints cn)) (tl (baseEndpoints cn)) = baseEndpoints cn"
  "Route (hd (vm_hops cn ip)) (tl (vm_hops cn ip)) = vm_hops cn ip"
  by (simp_all add: Route_def baseEndpoints_def vm_hops_def Let_def)

lemma target_addr_simps [simp]: "target_addr (vm_hops cn ip) = ip"
  by (simp add: target_addr_def vm_hops_def)

lemma run_in_order_calls: "list_all (only_calls P) fns \<Longrightarrow> only_calls P (run_in_order fns)"
  by (induction fns) (auto intro!: calls_intros)

lemma run_cleanups_calls: "list_all (only_calls P) fns \<Longrightarrow> only_calls P (runCleanups fns)"
  by (simp add: runCleanups_def run_in_order_calls)

lemma retry_trace:
  "NewWithRetry ssh c hops every timeout opts w = Some (r, w') \<Longrightarrow>
     \<exists>u. list_all (dial_event (target_addr hops)) u \<and>
       tr w' = tr w @ u @ (if r = None then [Opened (ssh_conn (target_addr hops)) None] else [])"
  unfolding NewWithRetry_def
proof (induction rule: loop_induct)
  case (stop s w r w')
  then show ?case
    by (fastforce simp: retry_connect_def ssh_New_def io_simps dial_event_def split: option.splits select3.splits)
next
  case (step s w s1 w1 r w')
  then obtain e c' d where "tr w1 = tr w @ [Opened (ssh_conn (target_addr hops)) (Some e), Waited c' d]"
    by (auto simp: retry_connect_def ssh_New_def io_simps split: option.splits select3.splits)
  with step.IH show ?case by (fastforce simp: dial_event_def)
qed

lemma connect_vm_trace:
  assumes "connect_vm cn c ip w = Some (r, w')"
  shows "\<exists>u. list_all (dial_event ip) u \<and> tr w' = tr w @ u @ (if r = None then [Opened (ssh_conn ip) None] else [])"
proof -
  from assms obtain r' where run: "NewWithRetry (cn_ssh cn) c (vm_hops cn ip) setupNodeConnectPoll setupNodeConnectTimeout
      (WithInsecureIgnoreHostKey defaultOptions) w = Some (r', w')" and r: "r = map_option (wrapf (''connecting to VM '' @ ip @ '': '')) r'"
    by (auto simp: connect_vm_def Let_def io_simps split: option.splits)
  from retry_trace [OF run] show ?thesis unfolding r by (cases r') simp_all
qed

interpretation vm_conn: base_connector "VMExecutor cn" for cn :: "('e, 'a, 'c) connector"
proof
  fix c ip w e w'
  assume "VMExecutor cn c ip w = Some (Inl e, w')"
  then show "\<exists>u. tr w' = tr w @ u \<and> list_all (dial_event ip) u"
    by (fastforce simp: VMExecutor_def Let_def io_simps split: option.splits dest: connect_vm_trace)
next
  fix c ip w exec close w'
  assume "VMExecutor cn c ip w = Some (Inr (exec, close), w')"
  then have run: "connect_vm cn c ip w = Some (None, w')"
    and "exec = (\<lambda>c cmd. call (Exec ip cmd) (sl_Exec (cn_ssh cn) (vm_hops cn ip) c cmd))"
      "close = io_bind (client_Close (cn_ssh cn) (vm_hops cn ip)) (\<lambda>_. io_ret ())"
    by (auto simp: VMExecutor_def Let_def io_simps split: option.splits)
  then have "session_on ip exec close" by (auto simp: session_on_def client_Close_def io_simps)
  with connect_vm_trace [OF run] show "(\<exists>u. tr w' = tr w @ u @ [Opened (ssh_conn ip) None] \<and> list_all (dial_event ip) u) \<and>
      session_on ip exec close" by auto
qed

subsection \<open>What is opened and closed\<close>

definition one :: "string \<Rightarrow> string \<Rightarrow> int" where
  "one n m = (if m = n then 1 else 0)"

text \<open>The account is \<open>opn\<close> and the connections \<open>d\<close>.\<close>

abbreviation held :: "(string \<Rightarrow> int) \<Rightarrow> (string \<Rightarrow> int) \<Rightarrow> event list \<Rightarrow> bool" where
  "held opn d t \<equiv> opens t = (\<lambda>n. opn n + d n)"

lemma opens_append: "opens (t @ u) = (\<lambda>n. opens t n + opens u n)"
  by (simp add: opens_def fun_eq_iff)

lemma opens_dials: "list_all (dial_event ip) u \<Longrightarrow> opens u = (\<lambda>_. 0)"
proof (induction u)
  case (Cons ev u)
  then show ?case by (auto simp: opens_def fun_eq_iff quiet_def dest: dial_event_quiet)
qed (simp add: opens_def fun_eq_iff)

lemma opens_one:
  "is_conn n \<Longrightarrow> opens (t @ [Opened n None]) = (\<lambda>m. opens t m + one n m)"
  "is_conn n \<Longrightarrow> opens (t @ [Closed n]) = (\<lambda>m. opens t m - one n m)"
  by (auto simp: opens_snoc fun_eq_iff one_def)

lemma retry_opens:
  "triple (held opn d) (NewWithRetry ssh c hops every timeout opts)
     (\<lambda>e. held opn (case e of None \<Rightarrow> (\<lambda>n. d n + one (ssh_conn (target_addr hops)) n) | Some _ \<Rightarrow> d))"
proof (rule tripleI)
  fix w e w'
  let ?ip = "target_addr hops"
  assume opn: "held opn d (tr w)" and run: "NewWithRetry ssh c hops every timeout opts w = Some (e, w')"
  from retry_trace [OF run] obtain u where u: "list_all (dial_event ?ip) u"
    and t: "tr w' = tr w @ u @ (if e = None then [Opened (ssh_conn ?ip) None] else [])" by blast
  have "opens (tr w @ u) = opens (tr w)" using opens_dials [OF u] by (simp add: opens_append)
  with opn t opens_one(1) [of "ssh_conn ?ip" "tr w @ u"]
  show "held opn (case e of None \<Rightarrow> (\<lambda>n. d n + one (ssh_conn ?ip) n) | Some _ \<Rightarrow> d) (tr w')"
    by (cases e) (auto simp: fun_eq_iff)
qed

lemma connect_vm_opens:
  "triple (held opn d) (connect_vm cn c ip)
     (\<lambda>e. held opn (case e of None \<Rightarrow> (\<lambda>n. d n + one (ssh_conn ip) n) | Some _ \<Rightarrow> d))"
  unfolding connect_vm_def Let_def
  by (rule triple_bind, simp only: hops_cons, rule retry_opens, rule triple_ret) (auto split: option.splits)

lemma ssh_New_opens:
  "triple (held opn d) (ssh_New ssh c hops opts)
     (\<lambda>e. held opn (case e of None \<Rightarrow> (\<lambda>n. d n + one (ssh_conn (target_addr hops)) n) | Some _ \<Rightarrow> d))"
  unfolding ssh_New_def by (rule triple_call) (auto simp: opens_one split: option.splits)

lemma OpenTunnel_opens:
  "triple (held opn d) (OpenTunnel ssh hops c port)
     (\<lambda>r. held opn (case r of Inr _ \<Rightarrow> (\<lambda>n. d n + one (tunnel_conn (target_addr hops)) n) | Inl _ \<Rightarrow> d))"
  unfolding OpenTunnel_def by (rule triple_call) (auto simp: opens_one split: sum.splits)

lemma close_releases:
  "triple (held opn (\<lambda>n. d n + one (ssh_conn (target_addr hops)) n)) (client_Close ssh hops) (\<lambda>_. held opn d)"
  "triple (held opn (\<lambda>n. d n + one (tunnel_conn (target_addr hops)) n)) (tunnel_Close ssh hops) (\<lambda>_. held opn d)"
  unfolding client_Close_def tunnel_Close_def by (rule triple_call, simp add: opens_one)+

lemma releases_ignore:
  assumes "\<And>opn d'. triple (held opn (\<lambda>n. d' n + d n)) m (\<lambda>_. held opn d')"
  shows "releases d (ignore_err m)"
  unfolding releases_def ignore_err_def
proof (rule allI, rule triple_bind [where R = "\<lambda>_ t. opens t = (\<lambda>n. _ n - d n)"])
  fix opn
  show "triple (\<lambda>t. opens t = opn) m (\<lambda>_ t. opens t = (\<lambda>n. opn n - d n))"
    using assms [of opn "\<lambda>n. - d n"] by simp
qed (simp add: triple_ret)

lemma releases_run:
  "releases d f \<Longrightarrow> releases d (runCleanups [f])"
  "releases d f \<Longrightarrow> releases d' g \<Longrightarrow> releases (\<lambda>n. d n + d' n) (runCleanups [f, g])"
proof -
  show "releases d f \<Longrightarrow> releases d (runCleanups [f])"
    using releases_seq [OF _ releases_zero [OF only_calls_ret], of d f "()"] by (simp add: runCleanups_def)
  show "releases d f \<Longrightarrow> releases d' g \<Longrightarrow> releases (\<lambda>n. d n + d' n) (runCleanups [f, g])"
    using releases_seq [of d' g "\<lambda>n. d n + 0" "io_bind f (\<lambda>_. io_ret ())"] releases_seq [OF _ releases_zero [OF only_calls_ret], of d f "()"]
    by (simp add: runCleanups_def add.commute)
qed

lemma tunnel_config_opens:
  "triple (held opn d) (TunnelRestConfig ssh cc c hops k port)
     (\<lambda>r t. case r of Inl _ \<Rightarrow> held opn d t
      | Inr (cfg, cl) \<Rightarrow> held opn (\<lambda>n. d n + one (tunnel_conn (target_addr hops)) n) t \<and> cl = tunnel_Close ssh hops)"
  unfolding TunnelRestConfig_def
proof (rule triple_bind [OF OpenTunnel_opens], rule triple_sum, rule triple_ret, simp, rule triple_sum)
  fix r p e
  assume "r = Inr p"
  then show "triple (held opn (case r of Inl _ \<Rightarrow> d | Inr _ \<Rightarrow> (\<lambda>n. d n + one (tunnel_conn (target_addr hops)) n)))
      (io_bind (tunnel_Close ssh hops) (\<lambda>_. io_ret (Inl (wrapf ''creating rest config: '' e))))
      (\<lambda>r t. case r of Inl _ \<Rightarrow> held opn d t
        | Inr (cfg, cl) \<Rightarrow> held opn (\<lambda>n. d n + one (tunnel_conn (target_addr hops)) n) t \<and> cl = tunnel_Close ssh hops)"
    by simp (rule triple_bind [OF close_releases(2)], rule triple_ret, simp)
qed (rule triple_ret, simp)

lemma acquires_pre: "(\<And>opn. triple (held opn (\<lambda>_. 0)) m (acquired opn)) \<Longrightarrow> acquires m"
  by (simp add: acquires_def)

lemma close_client_releases: "releases (one (ssh_conn (target_addr hops))) (ignore_err (client_Close ssh hops))"
  by (rule releases_ignore) (rule close_releases)

lemma close_tunnel_releases: "releases (one (tunnel_conn (target_addr hops))) (ignore_err (tunnel_Close ssh hops))"
  by (rule releases_ignore) (rule close_releases)

lemma tunnel_with_client:
  fixes ssh :: "'e ssh_lib" and cc :: "('a, 'c) clientcmd"
  shows "triple (held opn (one (ssh_conn (target_addr hops)))) (io_bind (TunnelRestConfig ssh cc c hops k port) (\<lambda>r. case r of
    Inl err \<Rightarrow> io_bind (runCleanups [ignore_err (client_Close ssh hops)]) (\<lambda>_. io_ret (Inl err))
  | Inr (restConfig, closeTunnel) \<Rightarrow> io_ret (Inr (restConfig, runCleanups [ignore_err (client_Close ssh hops), ignore_err closeTunnel]))))
  (acquired opn)"
proof (rule triple_bind [OF tunnel_config_opens], rule triple_sum)
  fix r :: "goerr + 'c rest_config \<times> ('e, goerr option) act" and e
  assume "r = Inl e"
  then show "triple (\<lambda>t. case r of Inl _ \<Rightarrow> held opn (one (ssh_conn (target_addr hops))) t
        | Inr (cfg, cl) \<Rightarrow> held opn (\<lambda>n. (one (ssh_conn (target_addr hops))) n + one (tunnel_conn (target_addr hops)) n) t \<and> cl = tunnel_Close ssh hops)
      (io_bind (runCleanups [ignore_err (client_Close ssh hops)]) (\<lambda>_. io_ret (Inl e))) (acquired opn)"
    by simp (rule triple_bind [OF releasesD [OF releases_run(1) [OF close_client_releases]]], rule triple_ret, simp)
next
  fix r :: "goerr + 'c rest_config \<times> ('e, goerr option) act" and s
  assume r: "r = Inr s"
  obtain cfg cl where s: "s = (cfg, cl)" by (cases s)
  have "releases (\<lambda>n. (one (ssh_conn (target_addr hops))) n + one (tunnel_conn (target_addr hops)) n)
      (runCleanups [ignore_err (client_Close ssh hops), ignore_err (tunnel_Close ssh hops)])"
    by (intro releases_run close_client_releases close_tunnel_releases)
  then show "triple (\<lambda>t. case r of Inl _ \<Rightarrow> held opn (one (ssh_conn (target_addr hops))) t
        | Inr (cfg, cl) \<Rightarrow> held opn (\<lambda>n. (one (ssh_conn (target_addr hops))) n + one (tunnel_conn (target_addr hops)) n) t \<and> cl = tunnel_Close ssh hops)
      (case s of (restConfig, closeTunnel) \<Rightarrow>
        io_ret (Inr (restConfig, runCleanups [ignore_err (client_Close ssh hops), ignore_err closeTunnel]))) (acquired opn)"
    unfolding r s by simp (rule triple_ret, auto)
qed

lemma connect_tunnel_acquires: "acquires (connect_tunnel cn c)"
proof (rule acquires_pre)
  fix opn :: "string \<Rightarrow> int"
  let ?hops = "baseEndpoints cn" and ?ssh = "cn_ssh cn"
  let ?d = "one (ssh_conn (target_addr ?hops))"
  have client: "triple (held opn (\<lambda>_. 0)) (buildSSHClient cn c) (\<lambda>e. held opn (case e of None \<Rightarrow> ?d | Some _ \<Rightarrow> (\<lambda>_. 0)))"
    unfolding buildSSHClient_def Let_def
    by (rule triple_bind, simp only: hops_cons, rule ssh_New_opens, rule triple_ret) (auto split: option.splits)
  show "triple (held opn (\<lambda>_. 0)) (connect_tunnel cn c) (acquired opn)"
    unfolding connect_tunnel_def Let_def
    by (rule triple_bind [OF client], rule triple_option) (auto intro!: tunnel_with_client triple_ret)
qed

lemma direct_quiet: "only_calls quiet (DirectReachable api c)"
  unfolding DirectReachable_def by (intro calls_intros; simp)

lemma Connect_acquires: "acquires (Connect cn c)"
proof (rule acquires_pre)
  fix opn :: "string \<Rightarrow> int"
  have tunnel: "triple (held opn (\<lambda>_. 0)) (connect_tunnel cn c) (acquired opn)"
    using connect_tunnel_acquires [of cn c] by (simp add: acquires_def)
  have none: "releases (\<lambda>_. 0) (io_ret ())" by (rule releases_zero [OF only_calls_ret])
  show "triple (held opn (\<lambda>_. 0)) (Connect cn c) (acquired opn)"
    unfolding Connect_def
    by (intro triple_sum tunnel triple_bind [OF triple_quiet [OF direct_quiet]] triple_if triple_ret)
      (auto intro!: exI [of _ "\<lambda>_. 0"] none)
qed

definition vm_held :: "string \<Rightarrow> string \<Rightarrow> int" where
  "vm_held ip n = one (ssh_conn ip) n + one (tunnel_conn ip) n"

definition gives_back :: "(string \<Rightarrow> int) \<Rightarrow> ('e, goerr option) act \<Rightarrow> bool" where
  "gives_back d cl \<longleftrightarrow> (\<forall>opn. triple (held opn d) cl (\<lambda>_ t. opens t = opn))"

lemma open_tunnel_opens:
  "triple (\<lambda>t. opens t = opn) (openTunnelToVM cn c ip port)
     (\<lambda>r t. case r of Inl _ \<Rightarrow> opens t = opn | Inr (addr, cl) \<Rightarrow> held opn (vm_held ip) t \<and> gives_back (vm_held ip) cl)"
proof -
  let ?hops = "vm_hops cn ip" and ?ssh = "cn_ssh cn"
  let ?post = "\<lambda>r t. case r of Inl _ \<Rightarrow> opens t = opn | Inr (addr :: string, cl) \<Rightarrow> held opn (vm_held ip) t \<and> gives_back (vm_held ip) cl"
  let ?cl = "io_bind (tunnel_Close ?ssh ?hops) (\<lambda>tunErr. io_bind (client_Close ?ssh ?hops) (\<lambda>clientErr.
    io_ret (case tunErr of Some e \<Rightarrow> Some e | None \<Rightarrow> clientErr)))"
  have given: "gives_back (vm_held ip) ?cl"
    unfolding gives_back_def vm_held_def
    using close_releases(1) [of _ "\<lambda>_. 0" ?hops ?ssh] close_releases(2) [of _ "one (ssh_conn ip)" ?hops ?ssh]
    by (auto intro!: triple_bind triple_ret)
  have failed: "triple (held opn (one (ssh_conn ip))) (io_bind (client_Close ?ssh ?hops) (\<lambda>_. io_ret (Inl e))) ?post" for e
    using close_releases(1) [of opn "\<lambda>_. 0" ?hops ?ssh] by (auto intro!: triple_bind triple_ret)
  have tunnel: "triple (held opn (one (ssh_conn ip))) (io_bind (OpenTunnel ?ssh ?hops c port) (\<lambda>r. case r of
      Inl err \<Rightarrow> io_bind (client_Close ?ssh ?hops) (\<lambda>_. io_ret (Inl (wrapf (''opening tunnel to VM '' @ ip @ '': '') err)))
    | Inr localPort \<Rightarrow> io_ret (Inr (LocalAddr localPort, ?cl)))) ?post"
    by (rule triple_bind [OF OpenTunnel_opens], rule triple_sum) (auto intro!: failed triple_ret given simp: vm_held_def)
  have connected: "triple (\<lambda>t. opens t = opn) (connect_vm cn c ip) (\<lambda>e. held opn (case e of None \<Rightarrow> one (ssh_conn ip) | Some _ \<Rightarrow> (\<lambda>_. 0)))"
    using connect_vm_opens [of opn "\<lambda>_. 0" cn c ip] by (simp cong: option.case_cong)
  show ?thesis
    unfolding openTunnelToVM_def Let_def
    by (rule triple_bind [OF connected], rule triple_option, simp only: option.case, rule tunnel) (rule triple_ret, simp)
qed

lemma fetch_quiet: "session_on ip exec close \<Longrightarrow> only_calls quiet (FetchKubeconfig c exec)"
  unfolding FetchKubeconfig_def by (intro calls_intros session_quiet)

lemma connectToMaster_acquires: "acquires (connectToMaster cn c ip)"
  unfolding acquires_def
proof
  fix opn :: "string \<Rightarrow> int"
  have closed: "triple (held opn (vm_held ip)) (io_bind cl (\<lambda>_. io_ret (Inl e))) (acquired opn)" if "gives_back (vm_held ip) cl" for cl e
    using that by (auto simp: gives_back_def intro!: triple_bind triple_ret)
  have kept: "triple (held opn (vm_held ip)) (io_ret (Inr (cfg, ignore_err cl))) (acquired opn)" if "gives_back (vm_held ip) cl" for cfg cl
  proof (rule triple_ret)
    have "releases (vm_held ip) (ignore_err cl)"
    proof (rule releases_ignore)
      fix opn d'
      show "triple (held opn (\<lambda>n. d' n + vm_held ip n)) cl (\<lambda>_. held opn d')"
        using that [unfolded gives_back_def, rule_format, of "\<lambda>n. opn n + d' n"] by (simp add: add.assoc)
    qed
    then show "held opn (vm_held ip) t \<Longrightarrow> acquired opn (Inr (cfg, ignore_err cl)) t" for t by auto
  qed
  have rest: "triple (\<lambda>t. opens t = opn) (io_bind (openTunnelToVM cn c ip apiServerRemotePort) (\<lambda>t. case t of
       Inl e \<Rightarrow> io_ret (Inl e)
     | Inr (localAddr, closeTunnel) \<Rightarrow> (case RewriteServer kubeconfig localAddr of
         Inl e \<Rightarrow> io_bind closeTunnel (\<lambda>_. io_ret (Inl (wrapf ''rewriting master kubeconfig: '' e)))
       | Inr rewritten \<Rightarrow> (case BuildRestConfigDirect (cn_clientcmd cn) rewritten of
           Inl e \<Rightarrow> io_bind closeTunnel (\<lambda>_. io_ret (Inl (wrapf ''building master rest config: '' e)))
         | Inr restConfig \<Rightarrow> io_ret (Inr (restConfig, ignore_err closeTunnel)))))) (acquired opn)" for kubeconfig
    by (rule triple_bind [OF open_tunnel_opens], rule triple_sum)
      (auto intro!: triple_ret triple_when triple_sum closed kept split: prod.splits)
  show "triple (\<lambda>t. opens t = opn) (connectToMaster cn c ip) (acquired opn)"
    unfolding connectToMaster_def
    by (intro vm_conn.session_then triple_sum rest triple_ret balanced_quiet fetch_quiet) auto
qed

subsection \<open>What the connection to a master runs there\<close>

lemma master_event_simps [simp]:
  "master_event ip (Waited c d)" "master_event ip (Opened n r)" "master_event ip (Closed n)"
  by (simp_all add: master_event_def)

lemma connect_vm_master: "only_calls (master_event ip) (connect_vm cn c ip')"
proof (rule only_callsI)
  fix w r w' assume "connect_vm cn c ip' w = Some (r, w')"
  then obtain u where "list_all (dial_event ip') u" "tr w' = tr w @ u @ (if r = None then [Opened (ssh_conn ip') None] else [])"
    using connect_vm_trace by blast
  moreover have "dial_event ip' ev \<Longrightarrow> master_event ip ev" for ev by (auto simp: dial_event_def)
  ultimately show "\<exists>t. tr w' = tr w @ t \<and> list_all (master_event ip) t" by (auto simp: list_all_iff)
qed

lemma tunnel_ops_master [calls_intros]:
  "only_calls (master_event ip) (OpenTunnel ssh hops c port)" "only_calls (master_event ip) (tunnel_Close ssh hops)"
  "only_calls (master_event ip) (client_Close ssh hops)"
  unfolding OpenTunnel_def tunnel_Close_def client_Close_def by (intro calls_intros; simp)+

lemma fetch_master:
  "session_on ip exec close \<Longrightarrow> only_calls (master_event ip) (FetchKubeconfig c exec)"
  "session_on ip exec close \<Longrightarrow> only_calls (master_event ip) close"
proof -
  assume s: "session_on ip exec close"
  then have "only_calls (master_event ip) (exec c getKubeconfigRemoteShell)"
    by (auto simp: only_calls_def session_on_def master_event_def)
  then show "only_calls (master_event ip) (FetchKubeconfig c exec)"
    unfolding FetchKubeconfig_def by (intro calls_intros)
  from s show "only_calls (master_event ip) close" by (auto simp: only_calls_def session_on_def)
qed

lemma open_tunnel_master: "only_calls (master_event ip) (openTunnelToVM cn c ip port)"
  unfolding openTunnelToVM_def Let_def by (intro calls_intros connect_vm_master)

lemma open_tunnel_close:
  "openTunnelToVM cn c ip port w = Some (Inr (addr, cl), w') \<Longrightarrow> only_calls (master_event ip) cl"
  by (auto simp: openTunnelToVM_def Let_def io_simps split: option.splits sum.splits intro!: calls_intros)

lemma connectToMaster_calls: "only_calls (master_event ip) (connectToMaster cn c ip)"
  unfolding connectToMaster_def
proof (rule vm_conn.vmExecutor_calls)
  fix exec :: "'a executor" and close
  assume s: "session_on ip exec close"
  have cl: "only_calls (master_event ip) (io_bind (openTunnelToVM cn c ip apiServerRemotePort) k)"
    if "\<And>r. (\<And>addr cl. r = Inr (addr, cl) \<Longrightarrow> only_calls (master_event ip) cl) \<Longrightarrow> only_calls (master_event ip) (k r)" for k
  proof (rule only_callsI)
    fix w x w' assume "io_bind (openTunnelToVM cn c ip apiServerRemotePort) k w = Some (x, w')"
    then obtain r w1 where r: "openTunnelToVM cn c ip apiServerRemotePort w = Some (r, w1)" and k: "k r w1 = Some (x, w')"
      by (auto simp: io_simps split: option.splits)
    have "only_calls (master_event ip) (k r)" by (rule that) (use r open_tunnel_close in blast)
    from only_callsD [OF this k] only_callsD [OF open_tunnel_master r]
    show "\<exists>t. tr w' = tr w @ t \<and> list_all (master_event ip) t" by fastforce
  qed
  show "only_calls (master_event ip) (case Inr (exec, close) of
       Inl e \<Rightarrow> io_ret (Inl (wrapf (''connecting to master '' @ ip @ '': '') e))
     | Inr (exec, closeExec) \<Rightarrow> io_bind (io_finally (FetchKubeconfig c exec) closeExec) (\<lambda>k. case k of
         Inl e \<Rightarrow> io_ret (Inl (wrapf (''fetching kubeconfig from master '' @ ip @ '': '') e))
       | Inr kubeconfig \<Rightarrow> io_bind (openTunnelToVM cn c ip apiServerRemotePort) (\<lambda>t. case t of
           Inl e \<Rightarrow> io_ret (Inl e)
         | Inr (localAddr, closeTunnel) \<Rightarrow> (case RewriteServer kubeconfig localAddr of
             Inl e \<Rightarrow> io_bind closeTunnel (\<lambda>_. io_ret (Inl (wrapf ''rewriting master kubeconfig: '' e)))
           | Inr rewritten \<Rightarrow> (case BuildRestConfigDirect (cn_clientcmd cn) rewritten of
               Inl e \<Rightarrow> io_bind closeTunnel (\<lambda>_. io_ret (Inl (wrapf ''building master rest config: '' e)))
             | Inr restConfig \<Rightarrow> io_ret (Inr (restConfig, ignore_err closeTunnel)))))))"
    unfolding sum.case prod.case
    by (rule only_calls_bind, intro only_calls_finally fetch_master [OF s], rule only_calls_sum, rule only_calls_ret, rule cl)
      (auto intro!: calls_intros split: sum.splits prod.splits)
qed (auto simp: dial_event_def intro: only_calls_ret)

lemma connectToMaster_cleanup:
  assumes "connectToMaster cn c ip w = Some (Inr (cfg, cl), w')"
  shows "only_calls (master_event ip) cl"
proof -
  from assms obtain addr ct w1 w2 where "openTunnelToVM cn c ip apiServerRemotePort w1 = Some (Inr (addr, ct), w2)"
    and cl: "cl = ignore_err ct"
    by (auto simp: connectToMaster_def io_simps split: option.splits sum.splits)
  from open_tunnel_close [OF this(1)] show ?thesis unfolding cl ignore_err_def by (intro calls_intros)
qed

interpretation master_conn: master_connector "VMExecutor cn" "connectToMaster cn" for cn :: "('e, 'a, 'c) connector"
  by unfold_locales (auto intro: connectToMaster_acquires connectToMaster_calls connectToMaster_cleanup)

section \<open>Properties\<close>

lemma acquires_account:
  assumes "acquires m" and "m w = Some (r, w')"
  shows "case r of Inl _ \<Rightarrow> opens (tr w') = opens (tr w)
    | Inr (x, cleanup) \<Rightarrow> \<forall>w1 y w2 n. cleanup w1 = Some (y, w2) \<longrightarrow>
        opens (tr w2) n = opens (tr w1) n - (opens (tr w') n - opens (tr w) n)"
proof -
  have t: "triple (\<lambda>t. opens t = opens (tr w)) m (acquired (opens (tr w)))" using assms(1) by (simp add: acquires_def)
  have acq: "acquired (opens (tr w)) r (tr w')" by (rule tripleD [OF t assms(2)]) simp
  show ?thesis
  proof (cases r)
    case (Inr s)
    obtain x cl where s: "s = (x, cl)" by (cases s)
    from acq obtain d where d: "opens (tr w') = (\<lambda>n. opens (tr w) n + d n)" "releases d cl"
      by (auto simp: Inr s)
    have "opens (tr w2) = (\<lambda>n. opens (tr w1) n - d n)" if "cl w1 = Some (y, w2)" for w1 y w2
      using tripleD [OF d(2) [unfolded releases_def, rule_format] that refl] .
    with d(1) show ?thesis by (auto simp: Inr s)
  qed (use acq in simp)
qed

lemma node_Exec_balanced: "balanced (node_Exec cn virt ns c node command)"
proof -
  have session: "balanced (io_bind (VMExecutor cn c ip) (\<lambda>s. case s of Inl e \<Rightarrow> io_ret (fail e)
      | Inr (exec, close) \<Rightarrow> io_bind (io_finally (io_bind (exec c command) (\<lambda>(res, err). io_ret (f res err))) close) io_ret))" for ip fail f
    by (intro vm_conn.session_bracket balanced_intros balanced_quiet session_quiet)
  have "only_calls quiet (vmIP_Resolve virt ns c node)"
    unfolding vmIP_Resolve_def VM_Get_def by (intro calls_intros; simp)
  then have r: "balanced (vmIP_Resolve virt ns c node)" by (rule balanced_quiet)
  show ?thesis
    unfolding node_Exec_def
    by (rule balanced_bind [OF r], rule balanced_sum, rule balanced_ret) (rule session [unfolded io_bind_ret_right])
qed

lemma balancedD: "balanced m \<Longrightarrow> m w = Some (r, w') \<Longrightarrow> opens (tr w') = opens (tr w)"
  by (auto dest: tripleD)

text \<open>
  No connection is lost. A failed \<^verbatim>\<open>Connect\<close> or \<^verbatim>\<open>connectToMaster\<close> leaves the same SSH clients and tunnels
  open as before it; after a successful one, the clean-up function it returned closes, whenever it is
  run, exactly what was opened. Running a command on a node closes what it opens.\<close>

lemma connections_accounted:
  "(Connect cn c w = Some (r, w1) \<longrightarrow> (case r of Inl _ \<Rightarrow> opens (tr w1) = opens (tr w)
      | Inr (cfg, cleanup) \<Rightarrow> \<forall>v y v' n. cleanup v = Some (y, v') \<longrightarrow>
          opens (tr v') n = opens (tr v) n - (opens (tr w1) n - opens (tr w) n))) \<and>
   (connectToMaster cn c ip w = Some (r', w2) \<longrightarrow> (case r' of Inl _ \<Rightarrow> opens (tr w2) = opens (tr w)
      | Inr (cfg, cleanup) \<Rightarrow> \<forall>v y v' n. cleanup v = Some (y, v') \<longrightarrow>
          opens (tr v') n = opens (tr v) n - (opens (tr w2) n - opens (tr w) n))) \<and>
   (node_Exec cn virt ns c node command w = Some (x, w3) \<longrightarrow> opens (tr w3) = opens (tr w))"
  using acquires_account [OF Connect_acquires] acquires_account [OF connectToMaster_acquires] balancedD [OF node_Exec_balanced]
  by (intro conjI impI) blast+

definition sample_ssh :: "nat ssh_lib" where
  "sample_ssh = \<lparr>sl_New = (\<lambda>c hops opts s. (None, s)), sl_select = (\<lambda>c t d s. (SelectTick, s)),
     sl_Exec = (\<lambda>hops c cmd s. (if target_addr hops = ''10.0.5.7''
       then (\<lparr>er_stdout = [], er_stderr = [], er_exitCode = 1\<rparr>, Some (ErrText ''exit status 1''))
       else (empty_result, None), s)),
     sl_OpenTunnel = (\<lambda>hops c p s. (Inr 40001, s)), sl_CloseTunnel = (\<lambda>hops s. (None, s)), sl_Close = (\<lambda>hops s. (None, s))\<rparr>"

definition sample_connector :: "(nat, unit, unit) connector" where
  "sample_connector = \<lparr>cn_ssh = sample_ssh,
     cn_clientcmd = \<lparr>cc_Load = (\<lambda>k. Inr ()), cc_ClientConfig = (\<lambda>a ov. if ov_Server ov = [] then Inl (ErrText ''no server'')
       else Inr \<lparr>rc_base = (), WrapTransport = None\<rparr>)\<rparr>,
     cn_api = (\<lambda>_. healing_kube), cn_conf = sample_dvp,
     cn_creds = \<lparr>cred_Kubeconfig = ''apiVersion: v1'', cred_SSHKey = ''KEY'', cred_JumpKey = []\<rparr>\<rparr>"

lemmas sample_connector_defs = sample_connector_def sample_ssh_def sample_dvp_def baseEndpoints_def vm_hops_def target_addr_def
  Route_def JumpHostConfigured_def

end
