(* ===== verification/Naming.thy ===== *)
theory Naming
  imports Cluster_Config
begin

unbundle bit_operations_syntax

text \<open>
  Names of the objects on the base cluster: \<^verbatim>\<open>internal/provisioning/dvp/vm/naming.go\<close> and
  \<^verbatim>\<open>attachmentName\<close> of \<^verbatim>\<open>internal/provisioning/dvp/disks.go\<close>. Both shorten long names with a
  prefix of a SHA-256 digest, so \<^verbatim>\<open>crypto/sha256\<close> is part of the model. URLs are taken to be
  valid UTF-8.
\<close>

section \<open>SHA-256\<close>

type_synonym w32 = "32 word"

definition sha_k :: "w32 list" where
  "sha_k =
    [0x428A2F98, 0x71374491, 0xB5C0FBCF, 0xE9B5DBA5, 0x3956C25B, 0x59F111F1,
     0x923F82A4, 0xAB1C5ED5, 0xD807AA98, 0x12835B01, 0x243185BE, 0x550C7DC3,
     0x72BE5D74, 0x80DEB1FE, 0x9BDC06A7, 0xC19BF174, 0xE49B69C1, 0xEFBE4786,
     0x0FC19DC6, 0x240CA1CC, 0x2DE92C6F, 0x4A7484AA, 0x5CB0A9DC, 0x76F988DA,
     0x983E5152, 0xA831C66D, 0xB00327C8, 0xBF597FC7, 0xC6E00BF3, 0xD5A79147,
     0x06CA6351, 0x14292967, 0x27B70A85, 0x2E1B2138, 0x4D2C6DFC, 0x53380D13,
     0x650A7354, 0x766A0ABB, 0x81C2C92E, 0x92722C85, 0xA2BFE8A1, 0xA81A664B,
     0xC24B8B70, 0xC76C51A3, 0xD192E819, 0xD6990624, 0xF40E3585, 0x106AA070,
     0x19A4C116, 0x1E376C08, 0x2748774C, 0x34B0BCB5, 0x391C0CB3, 0x4ED8AA4A,
     0x5B9CCA4F, 0x682E6FF3, 0x748F82EE, 0x78A5636F, 0x84C87814, 0x8CC70208,
     0x90BEFFFA, 0xA4506CEB, 0xBEF9A3F7, 0xC67178F2]"

definition sha_h0 :: "w32 list" where
  "sha_h0 =
    [0x6A09E667, 0xBB67AE85, 0x3C6EF372, 0xA54FF53A, 0x510E527F, 0x9B05688C,
     0x1F83D9AB, 0x5BE0CD19]"

definition rotr :: "nat \<Rightarrow> w32 \<Rightarrow> w32" where "rotr n x = word_rotr n x"

definition big_sigma0 :: "w32 \<Rightarrow> w32" where "big_sigma0 x = rotr 2 x XOR rotr 13 x XOR rotr 22 x"
definition big_sigma1 :: "w32 \<Rightarrow> w32" where "big_sigma1 x = rotr 6 x XOR rotr 11 x XOR rotr 25 x"
definition small_sigma0 :: "w32 \<Rightarrow> w32" where "small_sigma0 x = rotr 7 x XOR rotr 18 x XOR drop_bit 3 x"
definition small_sigma1 :: "w32 \<Rightarrow> w32" where "small_sigma1 x = rotr 17 x XOR rotr 19 x XOR drop_bit 10 x"

definition sha_ch :: "w32 \<Rightarrow> w32 \<Rightarrow> w32 \<Rightarrow> w32" where
  "sha_ch x y z = (x AND y) XOR (NOT x AND z)"
definition sha_maj :: "w32 \<Rightarrow> w32 \<Rightarrow> w32 \<Rightarrow> w32" where
  "sha_maj x y z = (x AND y) XOR (x AND z) XOR (y AND z)"

definition byte_of :: "nat \<Rightarrow> nat \<Rightarrow> nat" where
  "byte_of i n = n div 256 ^ i mod 256"

definition sha_pad :: "nat list \<Rightarrow> nat list" where
  "sha_pad bs =
     (let n = length bs; z = (119 - n mod 64) mod 64
      in bs @ [128] @ replicate z 0 @ map (\<lambda>i. byte_of i (8 * n)) [7, 6, 5, 4, 3, 2, 1, 0])"

fun words_of :: "nat list \<Rightarrow> w32 list" where
  "words_of (a # b # c # d # bs) = of_nat (((a * 256 + b) * 256 + c) * 256 + d) # words_of bs"
| "words_of _ = []"

definition sha_schedule :: "w32 list \<Rightarrow> w32 list" where
  "sha_schedule ws0 =
     fold (\<lambda>t ws. ws @ [small_sigma1 (ws ! (t - 2)) + ws ! (t - 7) + small_sigma0 (ws ! (t - 15)) + ws ! (t - 16)])
       [16..<64] ws0"

fun sha_round :: "w32 \<times> w32 \<Rightarrow> w32 list \<Rightarrow> w32 list" where
  "sha_round (k, w) [a, b, c, d, e, f, g, h] =
     (let t1 = h + big_sigma1 e + sha_ch e f g + k + w; t2 = big_sigma0 a + sha_maj a b c
      in [t1 + t2, a, b, c, d + t1, e, f, g])"
| "sha_round kw st = st"

definition sha_block :: "w32 list \<Rightarrow> w32 list \<Rightarrow> w32 list" where
  "sha_block st ws = map2 (+) st (fold sha_round (zip sha_k (sha_schedule ws)) st)"

function sha_blocks :: "w32 list \<Rightarrow> w32 list \<Rightarrow> w32 list" where
  "sha_blocks st ws = (if ws = [] then st else sha_blocks (sha_block st (take 16 ws)) (drop 16 ws))"
  by pat_completeness auto
termination by (relation "measure (\<lambda>(st, ws). length ws)") auto

declare sha_blocks.simps [simp del]

definition sha256 :: "string \<Rightarrow> nat list" where
  "sha256 s = concat (map (\<lambda>w. map (\<lambda>i. byte_of i (unat w)) [3, 2, 1, 0])
     (sha_blocks sha_h0 (words_of (sha_pad (map of_char s)))))"

definition hex_encode :: "nat list \<Rightarrow> string" where
  "hex_encode bs = concat (map (\<lambda>b. [hex_digit (b div 16), hex_digit (b mod 16)]) bs)"

section \<open>Names\<close>

definition cviNameMaxLen :: nat where "cviNameMaxLen = 63"
definition cviHashLen :: nat where "cviHashLen = 8"
definition cviBaseMaxLen :: nat where "cviBaseMaxLen = cviNameMaxLen - cviHashLen - 1"

definition lower_alnum :: "char \<Rightarrow> bool" where
  "lower_alnum c \<longleftrightarrow> char_in (CHR ''a'') (CHR ''z'') c \<or> char_in (CHR ''0'') (CHR ''9'') c"

definition dns_rune :: "char \<Rightarrow> char" where
  "dns_rune c =
     (let l = (if char_in (CHR ''A'') (CHR ''Z'') c then char_of (of_char c + 32 :: nat) else c)
      in if lower_alnum l then l else CHR ''-'')"

text \<open>
  \<^verbatim>\<open>strings.ToLower\<close> and then \<^verbatim>\<open>strings.Map\<close>, rune by rune: the Kelvin sign and the dotted
  capital I have ASCII lower-case forms, every other multi-byte rune becomes one dash.
\<close>

fun lower_and_map :: "string \<Rightarrow> string" where
  "lower_and_map [] = []"
| "lower_and_map (c # s) =
     (if hasPrefix (c # s) [CHR 0xE2, CHR 0x84, CHR 0xAA] then CHR ''k'' # lower_and_map s
      else if hasPrefix (c # s) [CHR 0xC4, CHR 0xB0] then CHR ''i'' # lower_and_map s
      else if continuation c then lower_and_map s
      else dns_rune c # lower_and_map s)"

definition double_dash :: string where "double_dash = ''--''"

fun replace_dashes :: "string \<Rightarrow> string" where
  "replace_dashes (x # y # s) =
     (if x = CHR ''-'' \<and> y = CHR ''-'' then CHR ''-'' # replace_dashes s else x # replace_dashes (y # s))"
| "replace_dashes s = s"

lemma replace_dashes_le: "length (replace_dashes s) \<le> length s"
  by (induction s rule: replace_dashes.induct) auto

lemma replace_dashes_less: "str_contains s double_dash \<Longrightarrow> length (replace_dashes s) < length s"
proof (induction s rule: replace_dashes.induct)
  case (1 x y s)
  then show ?case using replace_dashes_le [of s]
    by (auto simp: double_dash_def hasPrefix_def)
qed (auto simp: double_dash_def hasPrefix_def)

function squeeze_dashes :: "string \<Rightarrow> string" where
  "squeeze_dashes s = (if str_contains s double_dash then squeeze_dashes (replace_dashes s) else s)"
  by pat_completeness auto
termination by (relation "measure length") (auto simp: replace_dashes_less)

declare squeeze_dashes.simps [simp del]

definition image_exts :: "string list" where
  "image_exts = [''.img'', ''.qcow2'', ''.raw'', ''.iso'', ''.vmdk'', ''.vdi'', ''.gz'', ''.xz'']"

definition sanitizeCVIBase :: "string \<Rightarrow> string" where
  "sanitizeCVIBase imageURL =
     (let name = last (split_on (CHR ''/'') imageURL);
          name = foldl trimSuffix name image_exts;
          name = squeeze_dashes (lower_and_map name);
          name = trimRight (CHR ''-'') (trimLeft (CHR ''-'') name)
      in if name = [] then ''image''
         else if length name > cviBaseMaxLen then
           (let name = trimRight (CHR ''-'') (take cviBaseMaxLen name)
            in if name = [] then ''image'' else name)
         else name)"

definition cviNameFromImageURL :: "string \<Rightarrow> string" where
  "cviNameFromImageURL imageURL =
     sanitizeCVIBase imageURL @ ''-'' @ take cviHashLen (hex_encode (sha256 imageURL))"

definition systemDiskName :: "string \<Rightarrow> string" where
  "systemDiskName vmName = vmName @ ''-system''"

definition attachmentNameMaxLen :: nat where "attachmentNameMaxLen = 63"
definition attachmentHashLen :: nat where "attachmentHashLen = 8"

definition attachmentName :: "string \<Rightarrow> string \<Rightarrow> string" where
  "attachmentName diskName nodeName =
     (let name = diskName @ ''-'' @ nodeName in
      if length name \<le> attachmentNameMaxLen then name
      else trimRight (CHR ''-'') (take (attachmentNameMaxLen - attachmentHashLen - 1) name) @ ''-'' @
           take attachmentHashLen (hex_encode (sha256 name)))"

section \<open>Valid labels\<close>

definition dns_label :: "string \<Rightarrow> bool" where
  "dns_label s \<longleftrightarrow> s \<noteq> [] \<and> length s \<le> 63 \<and> list_all (\<lambda>c. lower_alnum c \<or> c = CHR ''-'') s \<and>
     lower_alnum (hd s) \<and> lower_alnum (last s)"

text \<open>
  A function that derives object names: what it makes of acceptable arguments is a DNS-1123
  label. A client that joins two of its names with a separator only has to look at lengths.
\<close>

locale label_maker =
  fixes ok :: "'k \<Rightarrow> bool" and mk :: "'k \<Rightarrow> string"
  assumes valid: "ok k \<Longrightarrow> dns_label (mk k)"
begin

lemma length_le: "ok k \<Longrightarrow> 0 < length (mk k) \<and> length (mk k) \<le> 63"
  using valid [of k] by (simp add: dns_label_def)

lemma no_slash: "ok k \<Longrightarrow> CHR ''/'' \<notin> set (mk k)"
  using valid [of k] by (auto simp: dns_label_def list_all_iff lower_alnum_def char_in_def)

lemma with_suffix:
  assumes "ok k" "list_all lower_alnum t" "t \<noteq> []" "length (mk k) + 1 + length t \<le> 63"
  shows "dns_label (mk k @ ''-'' @ t)"
  using valid [OF assms(1)] assms(2-4) by (auto simp: dns_label_def list_all_iff)

end

lemma hex_encode_length: "length (hex_encode bs) = 2 * length bs"
  by (induction bs) (simp_all add: hex_encode_def)

lemma hex_digit_alnum: "d < 16 \<Longrightarrow> lower_alnum (hex_digit d)"
proof -
  assume "d < 16"
  then have "d \<in> {0..15}" by simp
  then have "d \<in> set [0..<16]" by auto
  then show ?thesis
    by (simp add: upt_rec lower_alnum_def char_in_def hex_digit_def) auto
qed

lemma hex_encode_alnum: "\<forall>b \<in> set bs. b < 256 \<Longrightarrow> list_all lower_alnum (hex_encode bs)"
  by (induction bs) (auto simp: hex_encode_def intro!: hex_digit_alnum)

lemma sha_round_length: "length st = 8 \<Longrightarrow> length (sha_round kw st) = 8"
  by (cases "(kw, st)" rule: sha_round.cases) (auto simp: Let_def)

lemma sha_block_length: "length st = 8 \<Longrightarrow> length (sha_block st ws) = 8"
proof -
  assume "length st = 8"
  have "length (fold sha_round ks s) = 8" if "length s = 8" for ks s
    using that by (induction ks arbitrary: s) (auto simp: sha_round_length)
  with \<open>length st = 8\<close> show ?thesis by (simp add: sha_block_def)
qed

lemma sha_blocks_length: "length st = 8 \<Longrightarrow> length (sha_blocks st ws) = 8"
proof (induction st ws rule: sha_blocks.induct)
  case (1 st ws)
  then show ?case by (subst sha_blocks.simps) (auto simp: sha_block_length)
qed

lemma sha256_bytes: "length (sha256 s) = 32" "\<forall>b \<in> set (sha256 s). b < 256"
proof -
  have "length sha_h0 = 8" by (simp add: sha_h0_def)
  then have len: "length (sha_blocks sha_h0 (words_of (sha_pad (map of_char s)))) = 8"
    by (rule sha_blocks_length)
  have "length (concat (map (\<lambda>w. map (\<lambda>i. byte_of i (unat w)) [3, 2, 1, 0]) (xs :: w32 list))) = 4 * length xs" for xs
    by (induction xs) simp_all
  then show "length (sha256 s) = 32" by (simp add: sha256_def len del: concat.simps)
  show "\<forall>b \<in> set (sha256 s). b < 256" by (auto simp: sha256_def byte_of_def)
qed

lemma hash_prefix:
  "length (take 8 (hex_encode (sha256 s))) = 8" "list_all lower_alnum (take 8 (hex_encode (sha256 s)))"
proof -
  show "length (take 8 (hex_encode (sha256 s))) = 8" by (simp add: hex_encode_length sha256_bytes)
  have "list_all lower_alnum (hex_encode (sha256 s))" by (rule hex_encode_alnum [OF sha256_bytes(2)])
  then show "list_all lower_alnum (take 8 (hex_encode (sha256 s)))"
    by (auto simp: list_all_iff dest: in_set_takeD)
qed


abbreviation label_char :: "char \<Rightarrow> bool" where
  "label_char c \<equiv> lower_alnum c \<or> c = CHR ''-''"

text \<open>A fragment of a label: allowed characters, alphanumeric at both ends.\<close>

definition label_part :: "string \<Rightarrow> bool" where
  "label_part s \<longleftrightarrow> s \<noteq> [] \<and> list_all label_char s \<and> lower_alnum (hd s) \<and> lower_alnum (last s)"

lemma dns_label_iff: "dns_label s \<longleftrightarrow> label_part s \<and> length s \<le> 63"
  by (auto simp: dns_label_def label_part_def)

lemma label_part_join: "label_part a \<Longrightarrow> label_part b \<Longrightarrow> label_part (a @ ''-'' @ b)"
  by (auto simp: label_part_def)

lemma label_part_alnum: "list_all lower_alnum t \<Longrightarrow> t \<noteq> [] \<Longrightarrow> label_part t"
  by (auto simp: label_part_def list_all_iff)

lemma lower_and_map_chars: "list_all label_char (lower_and_map s)"
  by (induction s) (auto simp: dns_rune_def Let_def lower_alnum_def char_in_def)

lemma replace_dashes_chars: "set (replace_dashes s) \<subseteq> set s"
  by (induction s rule: replace_dashes.induct) auto

lemma squeeze_dashes_chars: "set (squeeze_dashes s) \<subseteq> set s"
proof (induction s rule: squeeze_dashes.induct)
  case (1 s)
  then show ?case using replace_dashes_chars [of s] by (subst squeeze_dashes.simps) auto
qed

lemma trimRight_last: "trimRight c s \<noteq> [] \<Longrightarrow> last (trimRight c s) \<noteq> c"
  using hd_dropWhile [of "\<lambda>x. x = c" "rev s"] by (simp add: trimRight_def last_rev del: dropWhile_eq_Nil_conv)

lemma trimLeft_hd: "trimLeft c s \<noteq> [] \<Longrightarrow> hd (trimLeft c s) \<noteq> c"
  using hd_dropWhile [of "\<lambda>x. x = c" s] by (simp add: trimLeft_def del: dropWhile_eq_Nil_conv)

lemma trimRight_take: "\<exists>n. trimRight c s = take n s"
proof -
  have "trimRight c s = take (length (dropWhile (\<lambda>x. x = c) (rev s))) s"
    by (simp add: trimRight_def) (metis append_eq_conv_conj dropWhile_eq_drop length_drop length_rev rev_drop rev_rev_ident)
  then show ?thesis by blast
qed

lemma trimRight_hd: "trimRight c s \<noteq> [] \<Longrightarrow> hd (trimRight c s) = hd s"
  using trimRight_take [of c s] by (metis hd_take neq0_conv take_eq_Nil)

lemma trimRight_set: "set (trimRight c s) \<subseteq> set s"
  using trimRight_take [of c s] by (metis set_take_subset)

lemma trimRight_length: "length (trimRight c s) \<le> length s"
  using trimRight_take [of c s] by (metis length_take min.cobounded1)

lemma trimLeft_set: "set (trimLeft c s) \<subseteq> set s"
  unfolding trimLeft_def by (auto dest: set_dropWhileD)

lemma label_part_trimRight:
  assumes "list_all label_char s" "s \<noteq> []" "lower_alnum (hd s)"
  shows "label_part (trimRight (CHR ''-'') s)"
proof -
  have ne: "trimRight (CHR ''-'') s \<noteq> []"
  proof
    assume "trimRight (CHR ''-'') s = []"
    then have "\<forall>x \<in> set s. x = CHR ''-''" by (simp add: trimRight_def)
    with assms(2,3) have "lower_alnum (CHR ''-'')" by (metis hd_in_set)
    then show False by (simp add: lower_alnum_def char_in_def)
  qed
  moreover have "list_all label_char (trimRight (CHR ''-'') s)"
    using assms(1) trimRight_set by (fastforce simp: list_all_iff)
  moreover from this last_in_set [OF ne] trimRight_last [OF ne] have "lower_alnum (last (trimRight (CHR ''-'') s))"
    unfolding list_all_iff by blast
  ultimately show ?thesis using assms(3) trimRight_hd [OF ne] by (simp add: label_part_def)
qed

lemma sanitizeCVIBase_part:
  "label_part (sanitizeCVIBase u) \<and> length (sanitizeCVIBase u) \<le> cviBaseMaxLen"
proof -
  define m where "m = squeeze_dashes (lower_and_map (foldl trimSuffix (last (split_on (CHR ''/'') u)) image_exts))"
  define n where "n = trimRight (CHR ''-'') (trimLeft (CHR ''-'') m)"
  have image: "label_part ''image'' \<and> length ''image'' \<le> cviBaseMaxLen"
    by (simp add: label_part_def lower_alnum_def char_in_def cviBaseMaxLen_def cviNameMaxLen_def cviHashLen_def)
  have m: "list_all label_char m"
    using lower_and_map_chars squeeze_dashes_chars unfolding m_def by (fastforce simp: list_all_iff)
  have n: "label_part n" if "n \<noteq> []"
  proof -
    have ne: "trimLeft (CHR ''-'') m \<noteq> []" using that trimRight_take [of "CHR ''-''" "trimLeft (CHR ''-'') m"] n_def by auto
    have cs: "list_all label_char (trimLeft (CHR ''-'') m)" using m trimLeft_set by (fastforce simp: list_all_iff)
    with hd_in_set [OF ne] trimLeft_hd [OF ne] have "lower_alnum (hd (trimLeft (CHR ''-'') m))"
      unfolding list_all_iff by blast
    then show ?thesis unfolding n_def using cs ne by (rule label_part_trimRight [rotated 2])
  qed
  have t: "label_part (trimRight (CHR ''-'') (take cviBaseMaxLen n))" if "n \<noteq> []"
  proof (rule label_part_trimRight)
    show "list_all label_char (take cviBaseMaxLen n)"
      using n [OF that] by (auto simp: label_part_def list_all_iff dest: in_set_takeD)
    show ne: "take cviBaseMaxLen n \<noteq> []" using that by (simp add: cviBaseMaxLen_def cviNameMaxLen_def cviHashLen_def)
    show "lower_alnum (hd (take cviBaseMaxLen n))" using n [OF that] ne by (simp add: label_part_def hd_take)
  qed
  have len: "length (trimRight (CHR ''-'') (take cviBaseMaxLen n)) \<le> cviBaseMaxLen"
    using trimRight_length [of "CHR ''-''" "take cviBaseMaxLen n"] by simp
  have "sanitizeCVIBase u = (if n = [] then ''image''
     else if length n > cviBaseMaxLen then
       (if trimRight (CHR ''-'') (take cviBaseMaxLen n) = [] then ''image''
        else trimRight (CHR ''-'') (take cviBaseMaxLen n)) else n)"
    by (simp add: sanitizeCVIBase_def Let_def n_def m_def)
  with image n t len show ?thesis by auto
qed

lemma hash_part: "label_part (take 8 (hex_encode (sha256 s)))"
  using hash_prefix [of s] by (intro label_part_alnum) auto

interpretation cvi: label_maker "\<lambda>_. True" cviNameFromImageURL
proof
  fix u :: string
  have "label_part (cviNameFromImageURL u)"
    unfolding cviNameFromImageURL_def using label_part_join sanitizeCVIBase_part hash_part
    by (simp add: cviHashLen_def)
  moreover have "length (cviNameFromImageURL u) \<le> 63"
    using sanitizeCVIBase_part [of u] hash_prefix(1) [of u]
    by (simp add: cviNameFromImageURL_def cviHashLen_def cviBaseMaxLen_def cviNameMaxLen_def)
  ultimately show "dns_label (cviNameFromImageURL u)" by (simp add: dns_label_iff)
qed

interpretation attachment: label_maker "\<lambda>(d, n). dns_label d \<and> dns_label n" "\<lambda>(d, n). attachmentName d n"
proof (unfold_locales, clarify)
  fix d n assume dn: "dns_label d" "dns_label n"
  let ?name = "d @ ''-'' @ n"
  have part: "label_part ?name" using dn by (intro label_part_join) (simp_all add: dns_label_iff)
  show "dns_label (attachmentName d n)"
  proof (cases "length ?name \<le> 63")
    case True
    with part show ?thesis by (simp add: attachmentName_def attachmentNameMaxLen_def dns_label_iff)
  next
    case False
    let ?b = "trimRight (CHR ''-'') (take 54 ?name)"
    have "label_part ?b"
    proof (rule label_part_trimRight)
      show "list_all label_char (take 54 ?name)"
        using part unfolding label_part_def list_all_iff by (blast dest: in_set_takeD)
      show ne: "take 54 ?name \<noteq> []" by simp
      have "hd (take 54 ?name) = hd ?name" by (rule hd_take) simp
      with part show "lower_alnum (hd (take 54 ?name))" by (simp only: label_part_def)
    qed
    then have "label_part (?b @ ''-'' @ take 8 (hex_encode (sha256 ?name)))"
      by (intro label_part_join hash_part)
    moreover have "length ?b \<le> 54" using trimRight_length [of "CHR ''-''" "take 54 ?name"] by simp
    moreover have "attachmentName d n = ?b @ ''-'' @ take 8 (hex_encode (sha256 ?name))"
      using False by (simp add: attachmentName_def attachmentNameMaxLen_def attachmentHashLen_def)
    ultimately show ?thesis using hash_prefix(1) [of ?name] by (simp add: dns_label_iff)
  qed
qed

interpretation system_disk: label_maker "\<lambda>h. dns_label h \<and> length h \<le> 56" systemDiskName
proof
  fix h assume "dns_label h \<and> length h \<le> 56"
  moreover have "label_part ''system''" by (simp add: label_part_def lower_alnum_def char_in_def)
  ultimately show "dns_label (systemDiskName h)"
    using label_part_join [of h "''system''"] by (simp add: systemDiskName_def dns_label_iff)
qed


section \<open>Properties\<close>

text \<open>
  C30. Whatever the URL of an image, the name derived for its ClusterVirtualImage is a valid
  DNS label (lower-case letters, digits and dashes, alphanumeric at both ends, at most 63
  characters), of at least the eight hash characters and their dash; and an attachment of
  a disk to a node, both named by DNS labels, is named by a DNS label too, truncated and
  marked with a hash where the joined name would be too long.
\<close>

theorem derived_names_valid:
  assumes "dns_label disk" "dns_label node"
  shows "dns_label (cviNameFromImageURL url) \<and>
     hasSuffix (cviNameFromImageURL url) (CHR ''-'' # take 8 (hex_encode (sha256 url))) \<and>
     dns_label (attachmentName disk node) \<and>
     (length disk + length node \<le> 62 \<longrightarrow> attachmentName disk node = disk @ ''-'' @ node)"
proof (intro conjI)
  show "dns_label (cviNameFromImageURL url)" using cvi.valid [of url] by simp
  show "hasSuffix (cviNameFromImageURL url) (CHR ''-'' # take 8 (hex_encode (sha256 url)))"
    by (simp add: cviNameFromImageURL_def cviHashLen_def hasSuffix_def hash_prefix(1))
  show "dns_label (attachmentName disk node)" using attachment.valid [of "(disk, node)"] assms by simp
  show "length disk + length node \<le> 62 \<longrightarrow> attachmentName disk node = disk @ ''-'' @ node"
    by (simp add: attachmentName_def attachmentNameMaxLen_def)
qed

theorem derived_names_valid_witness:
  "dns_label (cviNameFromImageURL ''https://example.org/Debian_12.qcow2'') \<and>
   attachmentName ''data'' ''worker-1'' = ''data-worker-1'' \<and> dns_label (attachmentName ''data'' ''worker-1'')"
proof -
  have "dns_label ''data''" "dns_label ''worker-1''"
    by (simp_all add: dns_label_def lower_alnum_def char_in_def)
  from derived_names_valid [OF this, of "''https://example.org/Debian_12.qcow2''"] show ?thesis by auto
qed

end
