(* ===== verification/VM_Provision.thy ===== *)
theory VM_Provision
  imports Virtualization Naming
begin

text \<open>
  \<^verbatim>\<open>internal/provisioning/dvp/vm\<close>: what is created on the base cluster for the nodes of a
  definition, in which order, what is waited for, and what teardown deletes. The client is
  the virtualization client; quantities are a parameter (\<^verbatim>\<open>resource.NewQuantity\<close> and
  \<^verbatim>\<open>resource.ParseQuantity\<close>). Constants of the API packages that are only stored are
  represented by their Go names. Logging is left out.
\<close>

section \<open>Labels\<close>

definition ManagedByLabelKey :: string where "ManagedByLabelKey = ''storage-e2e.deckhouse.io/managed-by''"
definition ManagedByLabelValue :: string where "ManagedByLabelValue = ''storage-e2e''"

definition ManagedLabels :: "string \<rightharpoonup> string" where
  "ManagedLabels = [ManagedByLabelKey \<mapsto> ManagedByLabelValue]"

definition isManaged :: "objmeta \<Rightarrow> bool" where
  "isManaged m \<longleftrightarrow> (case om_labels m ManagedByLabelKey of None \<Rightarrow> [] | Some v \<Rightarrow> v) = ManagedByLabelValue"

section \<open>Objects\<close>

record quantity_api =
  qa_new :: "int \<Rightarrow> quantity"
  qa_parse :: "string \<Rightarrow> goerr + quantity"

definition bytesPerGiB :: int where "bytesPerGiB = 1024 * 1024 * 1024"
definition defaultCoreFraction :: string where "defaultCoreFraction = ''100%''"

text \<open>\<^verbatim>\<open>int64(diskSizeGi)*bytesPerGiB\<close> wraps.\<close>

definition gib_bytes :: "int \<Rightarrow> int" where
  "gib_bytes n = sint (word_of_int (n * bytesPerGiB) :: 64 word)"

definition buildClusterVirtualImage :: "string \<Rightarrow> string \<Rightarrow> (string \<rightharpoonup> string) \<Rightarrow> cvimage" where
  "buildClusterVirtualImage name imageURL labels =
     \<lparr>cvi_meta = \<lparr>om_name = name, om_namespace = [], om_labels = labels\<rparr>, cvi_url = imageURL,
      cvi_phase = ImageOther, cvi_phaseText = []\<rparr>"

definition buildVirtualDisk ::
  "quantity_api \<Rightarrow> string \<Rightarrow> string \<Rightarrow> string \<Rightarrow> string \<Rightarrow> int \<Rightarrow> (string \<rightharpoonup> string) \<Rightarrow> goerr + vdisk" where
  "buildVirtualDisk qa namespace name cviName storageClass diskSizeGi labels =
     (if diskSizeGi \<le> 0 then Inl (ErrText (''disk size must be greater than 0, got '' @ itoa diskSizeGi))
      else Inr \<lparr>vd_meta = \<lparr>om_name = name, om_namespace = namespace, om_labels = labels\<rparr>,
        vd_size = Some (qa_new qa (gib_bytes diskSizeGi)),
        vd_storageClass = (if storageClass = [] then None else Some storageClass),
        vd_sourceCVI = Some cviName, vd_phase = DiskOther, vd_phaseText = [], vd_capacity = [], vd_conditions = []\<rparr>)"

record vm_params =
  vp_Namespace :: string
  vp_Name :: string
  vp_VMClassName :: string
  vp_DiskName :: string
  vp_CloudInit :: string
  vp_CPU :: int
  vp_RAMGi :: int
  vp_CoreFraction :: "int option"
  vp_Labels :: "string \<rightharpoonup> string"

definition buildVirtualMachine :: "quantity_api \<Rightarrow> vm_params \<Rightarrow> goerr + vmachine" where
  "buildVirtualMachine qa p =
     (if vp_CPU p \<le> 0 then Inl (ErrText (''vm '' @ go_quote (vp_Name p) @ '': cpu must be greater than 0, got '' @ itoa (vp_CPU p)))
      else if vp_RAMGi p \<le> 0 then Inl (ErrText (''vm '' @ go_quote (vp_Name p) @ '': ram must be greater than 0, got '' @ itoa (vp_RAMGi p)))
      else case qa_parse qa (itoa (vp_RAMGi p) @ ''Gi'') of
        Inl e \<Rightarrow> Inl (wrapf (''vm '' @ go_quote (vp_Name p) @ '': parse memory quantity: '') e)
      | Inr memory \<Rightarrow> Inr
         \<lparr>vm_meta = \<lparr>om_name = vp_Name p, om_namespace = vp_Namespace p, om_labels = vp_Labels p\<rparr>,
          vm_className = vp_VMClassName p, vm_paravirtualization = True, vm_runPolicy = ''AlwaysOnPolicy'',
          vm_osType = ''GenericOs'', vm_bootloader = ''BIOS'', vm_migrationPolicy = ''PreferSafeMigrationPolicy'',
          vm_cores = vp_CPU p,
          vm_coreFraction = (case vp_CoreFraction p of None \<Rightarrow> defaultCoreFraction | Some f \<Rightarrow> itoa f @ ''%''),
          vm_memory = memory, vm_diskRefs = [vp_DiskName p], vm_userData = vp_CloudInit p,
          vm_phase = MachineOther, vm_ipAddress = []\<rparr>)"

definition buildVirtualMachineClass :: "string \<Rightarrow> vmclass_spec \<Rightarrow> (string \<rightharpoonup> string) \<Rightarrow> vmclass" where
  "buildVirtualMachineClass name template labels =
     \<lparr>vc_meta = \<lparr>om_name = name, om_namespace = [], om_labels = labels\<rparr>,
      vc_spec = template\<lparr>cs_cpu := CPUTypeHost, cs_nodeSelector := [], cs_tolerations := []\<rparr>,
      vc_phase = ClassPhaseOther\<rparr>"

section \<open>Cloud-init\<close>

definition unlines :: "string list \<Rightarrow> string" where
  "unlines ls = concat (map (\<lambda>l. l @ [nl]) ls)"

definition cloudInitAptMirror :: string where
  "cloudInitAptMirror = unlines
     [''apt:'', ''  primary:'', ''    - arches: [default]'', ''      uri: http://mirror.yandex.ru/ubuntu'',
      ''  security:'', ''    - arches: [default]'', ''      uri: http://mirror.yandex.ru/ubuntu'']"

definition cloudInitForceIPv4Apt :: string where
  "cloudInitForceIPv4Apt = unlines
     [''  - path: /etc/apt/apt.conf.d/99force-ipv4'', ''    content: |'',
      ''      Acquire::ForceIPv4 '' @ [dquote] @ ''true'' @ [dquote] @ '';'']"

definition cloudInitKubectlAliases :: string where
  "cloudInitKubectlAliases = unlines
     [''  - path: /root/.kubectl_aliases'', ''    content: |'', ''      alias k=kubectl'',
      ''      complete -o default -F __start_kubectl k'']"

record cloud_init_options =
  ci_hostname :: string
  ci_sshAuthorizedKey :: string
  ci_withStorageTools :: bool
  ci_withDocker :: bool

definition basePackages :: "string list" where
  "basePackages = [''tmux'', ''htop'', ''qemu-guest-agent'', ''iputils-ping'', ''jq'', ''curl'']"

definition storageToolPackages :: "string list" where
  "storageToolPackages = [''stress-ng'', ''yq'', ''rsync'', ''fio'']"

definition ci_packages :: "cloud_init_options \<Rightarrow> string list" where
  "ci_packages opts = basePackages @ (if ci_withStorageTools opts then storageToolPackages else []) @
     (if ci_withDocker opts then [''docker.io''] else [])"

definition ci_runcmd :: "cloud_init_options \<Rightarrow> string list" where
  "ci_runcmd opts =
     [''systemctl restart ssh'', ''hostnamectl set-hostname '' @ [squote] @ ci_hostname opts @ [squote],
      ''systemctl daemon-reload'', ''systemctl enable --now qemu-guest-agent.service''] @
     (if ci_withStorageTools opts
      then [''echo '' @ [squote] @ ''source /root/.kubectl_aliases'' @ [squote] @ '' >> /root/.bashrc''] else []) @
     (if ci_withDocker opts then [''systemctl enable --now docker.service''] else [])"

definition buildCloudInit :: "cloud_init_options \<Rightarrow> string" where
  "buildCloudInit opts =
     (let item = (\<lambda>s. ''  - '' @ s);
          pkgList = unlines (map item (ci_packages opts));
          runcmdList = unlines (map item (ci_runcmd opts));
          writeFiles = cloudInitForceIPv4Apt @ (if ci_withStorageTools opts then cloudInitKubectlAliases else [])
      in unlines [''#cloud-config''] @ cloudInitAptMirror @
         unlines [''package_update: true'', ''packages:'', trimRight nl pkgList, ''ssh_pwauth: false'', ''users:'',
           ''  - name: cloud'', ''    shell: /bin/bash'', ''    sudo: ALL=(ALL) NOPASSWD:ALL'',
           ''    ssh_authorized_keys:'', ''      - '' @ [dquote] @ ci_sshAuthorizedKey opts @ [dquote], ''write_files:''] @
         writeFiles @
         unlines [''  - path: /etc/ssh/sshd_config.d/allow_tcp_forwarding.conf'', ''    content: |'',
           ''      AllowTcpForwarding yes'', ''runcmd:''] @
         runcmdList)"

section \<open>Create if absent\<close>

definition ignoreAlreadyExists :: "goerr option \<Rightarrow> goerr option" where
  "ignoreAlreadyExists err = (if err = None \<or> is_reason AlreadyExists err then None else err)"

definition createIfAbsentClusterVirtualImage :: "'e virt_api \<Rightarrow> ctx \<Rightarrow> cvimage \<Rightarrow> ('e, goerr option) act" where
  "createIfAbsentClusterVirtualImage api c cvi =
     io_bind (CVI_Get api c (om_name (cvi_meta cvi))) (\<lambda>g. case g of
       Inr _ \<Rightarrow> io_ret None
     | Inl err \<Rightarrow>
         if \<not> has_reason NotFound err
         then io_ret (Some (wrapf (''get ClusterVirtualImage '' @ go_quote (om_name (cvi_meta cvi)) @ '': '') err))
         else io_bind (CVI_Create api c cvi) (\<lambda>r. io_ret (map_option
           (wrapf (''create ClusterVirtualImage '' @ go_quote (om_name (cvi_meta cvi)) @ '': '')) (ignoreAlreadyExists r))))"

definition createIfAbsentVirtualDisk :: "'e virt_api \<Rightarrow> ctx \<Rightarrow> vdisk \<Rightarrow> ('e, goerr option) act" where
  "createIfAbsentVirtualDisk api c vd =
     (let id = nn (om_namespace (vd_meta vd)) (om_name (vd_meta vd)) in
      io_bind (VD_Get api c (om_namespace (vd_meta vd)) (om_name (vd_meta vd))) (\<lambda>g. case g of
        Inr _ \<Rightarrow> io_ret None
      | Inl err \<Rightarrow>
          if \<not> has_reason NotFound err then io_ret (Some (wrapf (''get VirtualDisk '' @ id @ '': '') err))
          else io_bind (VD_Create api c vd) (\<lambda>r. io_ret (map_option
            (wrapf (''create VirtualDisk '' @ id @ '': '')) (ignoreAlreadyExists r)))))"

definition createIfAbsentVirtualMachine :: "'e virt_api \<Rightarrow> ctx \<Rightarrow> vmachine \<Rightarrow> ('e, goerr option) act" where
  "createIfAbsentVirtualMachine api c machine =
     (let id = nn (om_namespace (vm_meta machine)) (om_name (vm_meta machine)) in
      io_bind (VM_Get api c (om_namespace (vm_meta machine)) (om_name (vm_meta machine))) (\<lambda>g. case g of
        Inr _ \<Rightarrow> io_ret None
      | Inl err \<Rightarrow>
          if \<not> has_reason NotFound err then io_ret (Some (wrapf (''get VirtualMachine '' @ id @ '': '') err))
          else io_bind (VM_Create api c machine) (\<lambda>r. io_ret (map_option
            (wrapf (''create VirtualMachine '' @ id @ '': '')) (ignoreAlreadyExists r)))))"

definition createIfAbsentVirtualMachineClass :: "'e virt_api \<Rightarrow> ctx \<Rightarrow> vmclass \<Rightarrow> ('e, goerr option) act" where
  "createIfAbsentVirtualMachineClass api c class =
     io_bind (Class_Get api c (om_name (vc_meta class))) (\<lambda>g. case g of
       Inr _ \<Rightarrow> io_ret None
     | Inl err \<Rightarrow>
         if \<not> has_reason NotFound err
         then io_ret (Some (wrapf (''get VirtualMachineClass '' @ go_quote (om_name (vc_meta class)) @ '': '') err))
         else io_bind (Class_Create api c class) (\<lambda>r. io_ret (map_option
           (wrapf (''create VirtualMachineClass '' @ go_quote (om_name (vc_meta class)) @ '': '')) (ignoreAlreadyExists r))))"

section \<open>Conditions\<close>

definition terminalGetErr :: "goerr \<Rightarrow> bool" where
  "terminalGetErr err \<longleftrightarrow> has_reason Forbidden err \<or> has_reason Unauthorized err \<or> has_reason BadRequest err \<or>
     has_reason Invalid err \<or> has_reason MethodNotSupported err"

definition clusterVirtualImageReady :: "goerr + cvimage \<Rightarrow> goerr + bool" where
  "clusterVirtualImageReady g =
     (case g of
        Inl e \<Rightarrow> if terminalGetErr e then Inl e else Inr False
      | Inr cvi \<Rightarrow> (case cvi_phase cvi of
          ImageReady \<Rightarrow> Inr True
        | ImageOther \<Rightarrow> Inr False
        | _ \<Rightarrow> Inl (ErrText (''ClusterVirtualImage '' @ go_quote (om_name (cvi_meta cvi)) @
                 '' reached phase '' @ cvi_phaseText cvi))))"

definition virtualMachineClassReady :: "goerr + vmclass \<Rightarrow> goerr + bool" where
  "virtualMachineClassReady g =
     (case g of
        Inl e \<Rightarrow> if terminalGetErr e then Inl e else Inr False
      | Inr class \<Rightarrow> (case vc_phase class of
          ClassPhaseReady \<Rightarrow> Inr True
        | ClassPhaseTerminating \<Rightarrow> Inl (ErrText (''VirtualMachineClass '' @ go_quote (om_name (vc_meta class)) @ '' is terminating''))
        | ClassPhaseOther \<Rightarrow> Inr False))"

definition virtualMachineRunning :: "goerr + vmachine \<Rightarrow> goerr + bool" where
  "virtualMachineRunning g =
     (case g of
        Inl e \<Rightarrow> if terminalGetErr e then Inl e else Inr False
      | Inr machine \<Rightarrow> (case vm_phase machine of
          MachineRunning \<Rightarrow> Inr (vm_ipAddress machine \<noteq> [])
        | MachineDegraded \<Rightarrow> Inl (ErrText (''VirtualMachine '' @ go_quote (om_name (vm_meta machine)) @ '' is degraded''))
        | MachineOther \<Rightarrow> Inr False))"

definition virtualDiskFailure :: "string \<Rightarrow> vdisk \<Rightarrow> bool \<times> string \<times> string" where
  "virtualDiskFailure readyType vd =
     (if vd_phase vd = DiskFailed \<or> vd_phase vd = DiskLost
      then (case filter (\<lambda>cond. cond_type cond = readyType) (vd_conditions vd) of
              cond # _ \<Rightarrow> (True, cond_reason cond, cond_message cond)
            | [] \<Rightarrow> (True, [], []))
      else (False, [], []))"

definition resourceDeleted :: "goerr + 'a \<Rightarrow> goerr + bool" where
  "resourceDeleted g = (case g of Inl e \<Rightarrow> Inr (has_reason NotFound e) | Inr _ \<Rightarrow> Inr False)"

text \<open>A condition without effects and without variables of its own.\<close>

definition pure_cond :: "(goerr + 'a \<Rightarrow> goerr + bool) \<Rightarrow> unit \<Rightarrow> goerr + 'a \<Rightarrow> ('e, (goerr + bool) \<times> unit) act" where
  "pure_cond f s g = io_ret (f g, ())"

definition wait_pure ::
  "'e runtime \<Rightarrow> ctx \<Rightarrow> int \<Rightarrow> ('e, goerr + 'a) act \<Rightarrow> (goerr + 'a \<Rightarrow> goerr + bool) \<Rightarrow> ('e, goerr option) act" where
  "wait_pure rt c interval get f =
     io_bind (waitForCondition rt c interval get (pure_cond f) ()) (\<lambda>(e, _). io_ret e)"

section \<open>The provisioner\<close>

record vm_timeouts =
  PollInterval :: int
  ClusterVirtualImageReadyTimeout :: int
  VMClassReadyTimeout :: int
  VMRunningTimeout :: int
  DeleteTimeout :: int

record vm_config =
  vmc_Namespace :: string
  vmc_StorageClass :: string
  vmc_SSHPublicKey :: string
  vmc_VMClassName :: string
  vmc_DefaultVMClassName :: string
  vmc_Timeouts :: vm_timeouts

text \<open>Which runtime, API and configuration a provisioner works with.\<close>

record 'e provisioner =
  pr_rt :: "'e runtime"
  pr_api :: "'e virt_api"
  pr_qa :: quantity_api
  pr_cfg :: vm_config

text \<open>A pointer to a node of the definition.\<close>

datatype node_ref = MasterRef nat | WorkerRef nat | SetupRef

record planned_vm =
  pv_ref :: node_ref
  pv_node :: cluster_node
  pv_withStorageTools :: bool
  pv_withDocker :: bool
  pv_cviName :: string

definition plan_node :: "node_ref \<Rightarrow> cluster_node \<Rightarrow> planned_vm list" where
  "plan_node ref n =
     (if node_hostType n \<noteq> HostTypeVM then []
      else [\<lparr>pv_ref = ref, pv_node = n, pv_withStorageTools = Role n \<noteq> ClusterRoleSetup,
             pv_withDocker = (Role n = ClusterRoleSetup), pv_cviName = cviNameFromImageURL (ImageURL (OSType n))\<rparr>])"

definition plan :: "cluster_definition \<Rightarrow> planned_vm list" where
  "plan def =
     concat (map (\<lambda>(i, n). plan_node (MasterRef i) n) (enumerate 0 (Masters def))) @
     concat (map (\<lambda>(i, n). plan_node (WorkerRef i) n) (enumerate 0 (Workers def))) @
     (case Setup def of None \<Rightarrow> [] | Some n \<Rightarrow> plan_node SetupRef n)"

text \<open>\<^verbatim>\<open>pl.node.IPAddress = ip\<close>, through the pointer.\<close>

fun set_ip :: "node_ref \<Rightarrow> string \<Rightarrow> cluster_definition \<Rightarrow> cluster_definition" where
  "set_ip (MasterRef i) ip def = def\<lparr>Masters := (Masters def)[i := (Masters def ! i)\<lparr>IPAddress := ip\<rparr>]\<rparr>"
| "set_ip (WorkerRef i) ip def = def\<lparr>Workers := (Workers def)[i := (Workers def ! i)\<lparr>IPAddress := ip\<rparr>]\<rparr>"
| "set_ip SetupRef ip def = def\<lparr>Setup := map_option (\<lambda>n. n\<lparr>IPAddress := ip\<rparr>) (Setup def)\<rparr>"

definition waitVMClassReady :: "'e provisioner \<Rightarrow> ctx \<Rightarrow> string \<Rightarrow> ('e, goerr option) act" where
  "waitVMClassReady p c name =
     (let waitCtx = CtxTimeout c (VMClassReadyTimeout (vmc_Timeouts (pr_cfg p))) in
      io_bind (wait_pure (pr_rt p) waitCtx (PollInterval (vmc_Timeouts (pr_cfg p)))
          (Class_Get (pr_api p) waitCtx name) virtualMachineClassReady)
        (\<lambda>e. io_ret (map_option
           (wrapf (''wait for VirtualMachineClass '' @ go_quote name @ '' to become Ready: '')) e)))"

definition provisionVMClass :: "'e provisioner \<Rightarrow> ctx \<Rightarrow> ('e, goerr option) act" where
  "provisionVMClass p c =
     (let name = vmc_VMClassName (pr_cfg p); dflt = vmc_DefaultVMClassName (pr_cfg p) in
      io_bind (Class_Get (pr_api p) c name) (\<lambda>g. case g of
        Inr _ \<Rightarrow> waitVMClassReady p c name
      | Inl err \<Rightarrow>
          if \<not> has_reason NotFound err
          then io_ret (Some (wrapf (''get VirtualMachineClass '' @ go_quote name @ '': '') err))
          else if name = dflt then io_ret (Some (ErrText (''VirtualMachineClass '' @ go_quote name @
            '' not found on the base cluster; enable the virtualization module and ensure this class exists before running tests'')))
          else io_bind (Class_Get (pr_api p) c dflt) (\<lambda>t. case t of
            Inl err \<Rightarrow>
              if has_reason NotFound err
              then io_ret (Some (ErrText (''VirtualMachineClass '' @ go_quote name @ '' is missing and template class '' @
                go_quote dflt @ '' was not found; cannot auto-create the class'')))
              else io_ret (Some (wrapf (''get template VirtualMachineClass '' @ go_quote dflt @ '': '') err))
          | Inr template \<Rightarrow>
              io_bind (createIfAbsentVirtualMachineClass (pr_api p) c
                  (buildVirtualMachineClass name (vc_spec template) ManagedLabels)) (\<lambda>e. case e of
                Some err \<Rightarrow> io_ret (Some err)
              | None \<Rightarrow> waitVMClassReady p c name))))"

text \<open>The map from image names to URLs, and its keys (the order of iteration is arbitrary).\<close>

definition uniqueImages :: "planned_vm list \<Rightarrow> (string \<rightharpoonup> string)" where
  "uniqueImages planned = fold (\<lambda>pl m. m(pv_cviName pl \<mapsto> ImageURL (OSType (pv_node pl)))) planned Map.empty"

definition image_list :: "planned_vm list \<Rightarrow> (string \<times> string) list" where
  "image_list planned = map (\<lambda>n. (n, the (uniqueImages planned n))) (remdups (map pv_cviName planned))"

definition provisionImage :: "'e provisioner \<Rightarrow> ctx \<Rightarrow> string \<times> string \<Rightarrow> ('e, goerr option) act" where
  "provisionImage p gctx img =
     (let name = fst img; waitCtx = CtxTimeout gctx (ClusterVirtualImageReadyTimeout (vmc_Timeouts (pr_cfg p))) in
      io_bind (createIfAbsentClusterVirtualImage (pr_api p) gctx (buildClusterVirtualImage name (snd img) ManagedLabels))
        (\<lambda>e. case e of
           Some err \<Rightarrow> io_ret (Some err)
         | None \<Rightarrow> io_bind (wait_pure (pr_rt p) waitCtx (PollInterval (vmc_Timeouts (pr_cfg p)))
               (CVI_Get (pr_api p) waitCtx name) clusterVirtualImageReady)
             (\<lambda>e. io_ret (map_option
                (wrapf (''wait for ClusterVirtualImage '' @ go_quote name @ '' to become Ready: '')) e))))"

definition provisionClusterVirtualImages :: "'e provisioner \<Rightarrow> ctx \<Rightarrow> planned_vm list \<Rightarrow> ('e, goerr option) act" where
  "provisionClusterVirtualImages p c planned =
     errgroup (pr_rt p) (provisionImage p (CtxGroup c)) (image_list planned)"

definition createDiskAndVM :: "'e provisioner \<Rightarrow> ctx \<Rightarrow> planned_vm \<Rightarrow> ('e, goerr option) act" where
  "createDiskAndVM p c pl =
     (let cfg = pr_cfg p; node = pv_node pl; diskName = systemDiskName (Hostname node) in
      case buildVirtualDisk (pr_qa p) (vmc_Namespace cfg) diskName (pv_cviName pl) (vmc_StorageClass cfg) (DiskSize node) ManagedLabels of
        Inl err \<Rightarrow> io_ret (Some err)
      | Inr vd \<Rightarrow> io_bind (createIfAbsentVirtualDisk (pr_api p) c vd) (\<lambda>e. case e of
          Some err \<Rightarrow> io_ret (Some err)
        | None \<Rightarrow>
            (case buildVirtualMachine (pr_qa p)
               \<lparr>vp_Namespace = vmc_Namespace cfg, vp_Name = Hostname node, vp_VMClassName = vmc_VMClassName cfg,
                vp_DiskName = diskName,
                vp_CloudInit = buildCloudInit \<lparr>ci_hostname = Hostname node, ci_sshAuthorizedKey = vmc_SSHPublicKey cfg,
                  ci_withStorageTools = pv_withStorageTools pl, ci_withDocker = pv_withDocker pl\<rparr>,
                vp_CPU = CPU node, vp_RAMGi = RAM node, vp_CoreFraction = CoreFraction node, vp_Labels = ManagedLabels\<rparr> of
               Inl err \<Rightarrow> io_ret (Some err)
             | Inr machine \<Rightarrow> createIfAbsentVirtualMachine (pr_api p) c machine)))"

definition provisionDisksAndVMs :: "'e provisioner \<Rightarrow> ctx \<Rightarrow> planned_vm list \<Rightarrow> ('e, goerr option) act" where
  "provisionDisksAndVMs p c planned = errgroup (pr_rt p) (createDiskAndVM p (CtxGroup c)) planned"

definition warnOnDiskFailure :: "'e provisioner \<Rightarrow> ctx \<Rightarrow> string \<Rightarrow> string \<Rightarrow> ('e, string) act" where
  "warnOnDiskFailure p c diskName lastLogged =
     io_bind (VD_Get (pr_api p) c (vmc_Namespace (pr_cfg p)) diskName) (\<lambda>g. io_ret (case g of
       Inl err \<Rightarrow> lastLogged
     | Inr vd \<Rightarrow> if \<not> fst (virtualDiskFailure (va_readyType (pr_api p)) vd) then []
                 else if lastLogged = vd_phaseText vd then lastLogged else vd_phaseText vd))"

text \<open>The condition of the wait; its variables are the address and the last logged phase.\<close>

definition running_cond ::
  "'e provisioner \<Rightarrow> ctx \<Rightarrow> string \<Rightarrow> string \<times> string \<Rightarrow> goerr + vmachine \<Rightarrow> ('e, (goerr + bool) \<times> string \<times> string) act" where
  "running_cond p waitCtx diskName v g =
     io_bind (warnOnDiskFailure p waitCtx diskName (snd v)) (\<lambda>logged.
       io_ret (virtualMachineRunning g,
         (case (virtualMachineRunning g, g) of (Inr True, Inr m) \<Rightarrow> vm_ipAddress m | _ \<Rightarrow> fst v), logged))"

definition waitRunning :: "'e provisioner \<Rightarrow> ctx \<Rightarrow> planned_vm \<Rightarrow> ('e, goerr option \<times> string option) act" where
  "waitRunning p gctx pl =
     (let cfg = pr_cfg p; host = Hostname (pv_node pl); waitCtx = CtxTimeout gctx (VMRunningTimeout (vmc_Timeouts cfg)) in
      io_bind (waitForCondition (pr_rt p) waitCtx (PollInterval (vmc_Timeouts cfg))
          (VM_Get (pr_api p) waitCtx (vmc_Namespace cfg) host) (running_cond p waitCtx (systemDiskName host)) ([], []))
        (\<lambda>(e, v). io_ret (case e of
           Some err \<Rightarrow> (Some (wrapf (''wait for VM '' @ go_quote host @ '' to become Running: '') err), None)
         | None \<Rightarrow> (None, Some (fst v)))))"

definition store_ips :: "(planned_vm \<times> string option) list \<Rightarrow> cluster_definition \<Rightarrow> cluster_definition" where
  "store_ips rs def = fold (\<lambda>(pl, r) d. case r of None \<Rightarrow> d | Some ip \<Rightarrow> set_ip (pv_ref pl) ip d) rs def"

definition waitRunningAndCollectIPs ::
  "'e provisioner \<Rightarrow> ctx \<Rightarrow> planned_vm list \<Rightarrow> cluster_definition \<Rightarrow> ('e, goerr option \<times> cluster_definition) act" where
  "waitRunningAndCollectIPs p c planned def =
     io_bind (errgroup_results (pr_rt p) (waitRunning p (CtxGroup c)) planned) (\<lambda>(e, rs). io_ret (e, store_ips rs def))"

definition Provision :: "'e provisioner \<Rightarrow> ctx \<Rightarrow> cluster_definition \<Rightarrow> ('e, goerr option \<times> cluster_definition) act" where
  "Provision p c def =
     (let planned = plan def in
      if planned = [] then io_ret (Some (ErrText ''no VM nodes to provision''), def)
      else io_bind (provisionVMClass p c) (\<lambda>e. case e of
        Some err \<Rightarrow> io_ret (Some err, def)
      | None \<Rightarrow> io_bind (provisionClusterVirtualImages p c planned) (\<lambda>e. case e of
          Some err \<Rightarrow> io_ret (Some err, def)
        | None \<Rightarrow> io_bind (provisionDisksAndVMs p c planned) (\<lambda>e. case e of
            Some err \<Rightarrow> io_ret (Some err, def)
          | None \<Rightarrow> waitRunningAndCollectIPs p c planned def))))"

section \<open>Deletion\<close>

definition waitDeleted ::
  "'e runtime \<Rightarrow> ctx \<Rightarrow> int \<Rightarrow> int \<Rightarrow> (ctx \<Rightarrow> ('e, goerr + 'a) act) \<Rightarrow> string \<Rightarrow> string \<Rightarrow> ('e, goerr option) act" where
  "waitDeleted rt c interval timeout get kind name =
     (let waitCtx = CtxTimeout c timeout in
      io_bind (wait_pure rt waitCtx interval (get waitCtx) resourceDeleted) (\<lambda>e.
        io_ret (map_option (wrapf (''wait for '' @ kind @ '' '' @ go_quote name @ '' deletion: '')) e)))"

definition deleteVirtualMachine :: "'e provisioner \<Rightarrow> ctx \<Rightarrow> string \<Rightarrow> string \<Rightarrow> ('e, goerr option) act" where
  "deleteVirtualMachine p c namespace name =
     io_bind (VM_Delete (pr_api p) c namespace name) (\<lambda>e.
       if e \<noteq> None \<and> \<not> is_reason NotFound e
       then io_ret (map_option (wrapf (''delete VirtualMachine '' @ nn namespace name @ '': '')) e)
       else waitDeleted (pr_rt p) c (PollInterval (vmc_Timeouts (pr_cfg p))) (DeleteTimeout (vmc_Timeouts (pr_cfg p)))
         (\<lambda>c. VM_Get (pr_api p) c namespace name) ''VirtualMachine'' name)"

definition deleteVirtualDisk :: "'e provisioner \<Rightarrow> ctx \<Rightarrow> string \<Rightarrow> string \<Rightarrow> ('e, goerr option) act" where
  "deleteVirtualDisk p c namespace name =
     io_bind (VD_Delete (pr_api p) c namespace name) (\<lambda>e.
       if e \<noteq> None \<and> \<not> is_reason NotFound e
       then io_ret (map_option (wrapf (''delete VirtualDisk '' @ nn namespace name @ '': '')) e)
       else waitDeleted (pr_rt p) c (PollInterval (vmc_Timeouts (pr_cfg p))) (DeleteTimeout (vmc_Timeouts (pr_cfg p)))
         (\<lambda>c. VD_Get (pr_api p) c namespace name) ''VirtualDisk'' name)"

definition teardownVirtualMachines :: "'e provisioner \<Rightarrow> ctx \<Rightarrow> ('e, goerr option) act" where
  "teardownVirtualMachines p c =
     io_bind (VM_List (pr_api p) c (vmc_Namespace (pr_cfg p))) (\<lambda>g. case g of
       Inl err \<Rightarrow> io_ret (Some (wrapf ''list VirtualMachines: '' err))
     | Inr vms \<Rightarrow> errgroup (pr_rt p)
         (\<lambda>m. deleteVirtualMachine p (CtxGroup c) (om_namespace (vm_meta m)) (om_name (vm_meta m)))
         (filter (\<lambda>m. isManaged (vm_meta m)) vms))"

definition teardownVirtualDisks :: "'e provisioner \<Rightarrow> ctx \<Rightarrow> ('e, goerr option) act" where
  "teardownVirtualDisks p c =
     io_bind (VD_List (pr_api p) c (vmc_Namespace (pr_cfg p))) (\<lambda>g. case g of
       Inl err \<Rightarrow> io_ret (Some (wrapf ''list VirtualDisks: '' err))
     | Inr vds \<Rightarrow> errgroup (pr_rt p)
         (\<lambda>d. deleteVirtualDisk p (CtxGroup c) (om_namespace (vd_meta d)) (om_name (vd_meta d)))
         (filter (\<lambda>d. isManaged (vd_meta d)) vds))"

definition Teardown :: "'e provisioner \<Rightarrow> ctx \<Rightarrow> ('e, goerr option) act" where
  "Teardown p c = io_bind (teardownVirtualMachines p c) (\<lambda>e. case e of
     Some err \<Rightarrow> io_ret (Some err) | None \<Rightarrow> teardownVirtualDisks p c)"

definition DeleteNode :: "'e provisioner \<Rightarrow> ctx \<Rightarrow> string \<Rightarrow> ('e, goerr option) act" where
  "DeleteNode p c hostname =
     io_bind (deleteVirtualMachine p c (vmc_Namespace (pr_cfg p)) hostname) (\<lambda>e. case e of
       Some err \<Rightarrow> io_ret (Some err)
     | None \<Rightarrow> deleteVirtualDisk p c (vmc_Namespace (pr_cfg p)) (systemDiskName hostname))"


section \<open>What creation guarantees\<close>

fun created_meta :: "event \<Rightarrow> objmeta option" where
  "created_meta (VDCreate vd r) = Some (vd_meta vd)"
| "created_meta (VMCreate vm r) = Some (vm_meta vm)"
| "created_meta (CVICreate cvi r) = Some (cvi_meta cvi)"
| "created_meta (VCCreate vc r) = Some (vc_meta vc)"
| "created_meta (BACreate ba r) = Some (ba_meta ba)"
| "created_meta ev = None"

datatype obj_kind = KindVD | KindVM | KindCVI | KindClass | KindBA

fun absent_read :: "event \<Rightarrow> (obj_kind \<times> string \<times> string) option" where
  "absent_read (VDGet ns n (Inl e)) = (if has_reason NotFound e then Some (KindVD, ns, n) else None)"
| "absent_read (VMGet ns n (Inl e)) = (if has_reason NotFound e then Some (KindVM, ns, n) else None)"
| "absent_read (BAGet ns n (Inl e)) = (if has_reason NotFound e then Some (KindBA, ns, n) else None)"
| "absent_read (CVIGet n (Inl e)) = (if has_reason NotFound e then Some (KindCVI, [], n) else None)"
| "absent_read (VCGet n (Inl e)) = (if has_reason NotFound e then Some (KindClass, [], n) else None)"
| "absent_read ev = None"

fun create_key :: "event \<Rightarrow> (obj_kind \<times> string \<times> string) option" where
  "create_key (VDCreate vd r) = Some (KindVD, om_namespace (vd_meta vd), om_name (vd_meta vd))"
| "create_key (VMCreate vm r) = Some (KindVM, om_namespace (vm_meta vm), om_name (vm_meta vm))"
| "create_key (BACreate ba r) = Some (KindBA, om_namespace (ba_meta ba), om_name (ba_meta ba))"
| "create_key (CVICreate cvi r) = Some (KindCVI, [], om_name (cvi_meta cvi))"
| "create_key (VCCreate vc r) = Some (KindClass, [], om_name (vc_meta vc))"
| "create_key ev = None"

text \<open>The first event reads that the object which the second creates is absent.\<close>

definition absent_before :: "event \<Rightarrow> event \<Rightarrow> bool" where
  "absent_before ev ev' \<longleftrightarrow> create_key ev' \<noteq> None \<and> absent_read ev = create_key ev'"

abbreviation guarded :: "event list \<Rightarrow> event \<Rightarrow> bool" where
  "guarded a ev \<equiv> create_key ev \<noteq> None \<longrightarrow> a \<noteq> [] \<and> absent_before (last a) ev"

text \<open>
  The contract of the \<^verbatim>\<open>createIfAbsent\<close> functions: \<open>got\<close> and \<open>created\<close> are the events of the
  read and of the creation of an object.
\<close>

locale absent_creator =
  fixes create_absent :: "'e virt_api \<Rightarrow> ctx \<Rightarrow> 'o \<Rightarrow> ('e, goerr option) act"
    and got :: "'o \<Rightarrow> goerr + 'o \<Rightarrow> event" and created :: "'o \<Rightarrow> goerr option \<Rightarrow> event"
  assumes run: "create_absent api c obj w = Some (e, w') \<Longrightarrow>
      (\<exists>x. tr w' = tr w @ [got obj (Inr x)] \<and> e = None) \<or>
      (\<exists>err. tr w' = tr w @ [got obj (Inl err)] \<and> \<not> has_reason NotFound err \<and> e \<noteq> None) \<or>
      (\<exists>err r. tr w' = tr w @ [got obj (Inl err), created obj r] \<and> has_reason NotFound err \<and>
         (e = None \<longleftrightarrow> r = None \<or> is_reason AlreadyExists r))"
    and returns: "\<exists>e w'. create_absent api c obj w = Some (e, w')"
    and guard: "has_reason NotFound err \<Longrightarrow> absent_before (got obj (Inl err)) (created obj r)"
    and reads: "create_key (got obj g) = None"
begin

text \<open>The object is known to exist: it was read, created, or created by someone else.\<close>

definition known :: "'o \<Rightarrow> event \<Rightarrow> bool" where
  "known obj ev \<longleftrightarrow> (\<exists>x. ev = got obj (Inr x)) \<or> (\<exists>r. ev = created obj r \<and> (r = None \<or> is_reason AlreadyExists r))"

lemma exists_after:
  "triple (since t0 (\<lambda>_. True)) (create_absent api c obj) (\<lambda>e t. e = None \<longrightarrow> since t0 (list_ex (known obj)) t)"
proof (rule tripleI, rule impI)
  fix w e w' assume "since t0 (\<lambda>_. True) (tr w)" and m: "create_absent api c obj w = Some (e, w')" and "e = None"
  then obtain u where "tr w = t0 @ u" by (auto simp: since_def)
  with run [OF m] \<open>e = None\<close> show "since t0 (list_ex (known obj)) (tr w')"
    unfolding since_def by (auto simp: known_def)
qed

lemma keeps_guarded:
  "triple (since t0 (history guarded)) (create_absent api c obj) (\<lambda>_. since t0 (history guarded))"
proof (rule tripleI)
  fix w e w' assume "since t0 (history guarded) (tr w)" and m: "create_absent api c obj w = Some (e, w')"
  then obtain u where u: "tr w = t0 @ u" "history guarded u" by (auto simp: since_def)
  have get: "history guarded (u @ [got obj g])" for g using u(2) by (simp add: reads)
  moreover have "history guarded ((u @ [got obj (Inl err)]) @ [created obj r])" if "has_reason NotFound err" for err r
    using get guard [OF that] by (simp only: history_snoc) simp
  ultimately show "since t0 (history guarded) (tr w')"
    using run [OF m] u(1) unfolding since_def by fastforce
qed

lemma calls:
  assumes "\<And>g. P (got obj g)" "\<And>r. P (created obj r)"
  shows "only_calls P (create_absent api c obj)"
proof (rule only_callsI)
  fix w r w' assume "create_absent api c obj w = Some (r, w')"
  from run [OF this] assms show "\<exists>t. tr w' = tr w @ t \<and> list_all P t" by fastforce
qed

end

lemma has_reason_wrap_left_iff [simp]:
  "wrap_left pre r = Inl e \<longleftrightarrow> (\<exists>e'. r = Inl e' \<and> e = wrapf pre e')"
  by (auto simp: wrap_left_def split: sum.splits)

lemma wrap_left_simps [simp]: "wrap_left pre (Inr x) = Inr x" "wrap_left pre (Inl e) = Inl (wrapf pre e)"
  by (simp_all add: wrap_left_def)

lemma ignoreAlreadyExists_None [simp]:
  "ignoreAlreadyExists (map_option (wrapf pre) r) = None \<longleftrightarrow> r = None \<or> is_reason AlreadyExists r"
  by (cases r) (auto simp: ignoreAlreadyExists_def)

lemma ignoreAlreadyExists_nil [simp]: "ignoreAlreadyExists None = None"
  by (simp add: ignoreAlreadyExists_def)

lemmas create_absent_defs = createIfAbsentClusterVirtualImage_def createIfAbsentVirtualDisk_def
  createIfAbsentVirtualMachine_def createIfAbsentVirtualMachineClass_def

interpretation cvi_creator: absent_creator createIfAbsentClusterVirtualImage
  "\<lambda>obj. CVIGet (om_name (cvi_meta obj))" CVICreate
  by unfold_locales
    (auto simp: create_absent_defs virt_ops io_simps Let_def absent_before_def split: sum.splits if_splits)

interpretation vd_creator: absent_creator createIfAbsentVirtualDisk
  "\<lambda>obj. VDGet (om_namespace (vd_meta obj)) (om_name (vd_meta obj))" VDCreate
  by unfold_locales
    (auto simp: create_absent_defs virt_ops io_simps Let_def absent_before_def split: sum.splits if_splits)

interpretation vm_creator: absent_creator createIfAbsentVirtualMachine
  "\<lambda>obj. VMGet (om_namespace (vm_meta obj)) (om_name (vm_meta obj))" VMCreate
  by unfold_locales
    (auto simp: create_absent_defs virt_ops io_simps Let_def absent_before_def split: sum.splits if_splits)

interpretation class_creator: absent_creator createIfAbsentVirtualMachineClass
  "\<lambda>obj. VCGet (om_name (vc_meta obj))" VCCreate
  by unfold_locales
    (auto simp: create_absent_defs virt_ops io_simps Let_def absent_before_def split: sum.splits if_splits)


lemma isManaged_ManagedLabels [simp]: "isManaged \<lparr>om_name = n, om_namespace = ns, om_labels = ManagedLabels\<rparr>"
  by (simp add: isManaged_def ManagedLabels_def)

section \<open>What provisioning does\<close>

fun removes_or_updates :: "event \<Rightarrow> bool" where
  "removes_or_updates (VDUpdate vd r) \<longleftrightarrow> True"
| "removes_or_updates (VDDelete ns n r) \<longleftrightarrow> True"
| "removes_or_updates (VMUpdate vm r) \<longleftrightarrow> True"
| "removes_or_updates (VMDelete ns n r) \<longleftrightarrow> True"
| "removes_or_updates (BAUpdate ba r) \<longleftrightarrow> True"
| "removes_or_updates (BADelete ns n r) \<longleftrightarrow> True"
| "removes_or_updates (CVIUpdate cvi r) \<longleftrightarrow> True"
| "removes_or_updates (CVIDelete n r) \<longleftrightarrow> True"
| "removes_or_updates (VCDelete n r) \<longleftrightarrow> True"
| "removes_or_updates ev \<longleftrightarrow> False"

definition provision_event :: "string \<Rightarrow> event \<Rightarrow> bool" where
  "provision_event ns ev \<longleftrightarrow> \<not> removes_or_updates ev \<and>
     (case created_meta ev of None \<Rightarrow> True | Some m \<Rightarrow> isManaged m \<and> om_namespace m \<in> {[], ns})"

lemma provision_event_simps [simp]:
  "provision_event ns (Waited c d)" "provision_event ns (VDGet ns' n g)" "provision_event ns (VMGet ns' n h)"
  "provision_event ns (CVIGet n i)" "provision_event ns (VCGet n j)"
  by (simp_all add: provision_event_def)

lemma only_calls_wait_pure [calls_intros]:
  "only_calls P get \<Longrightarrow> P (Waited c interval) \<Longrightarrow> only_calls P (wait_pure rt c interval get f)"
  unfolding wait_pure_def
  by (intro calls_intros wait_condition.calls) (simp_all add: pure_cond_def only_calls_ret)

lemma wait_pure_triple:
  assumes get: "triple I get (\<lambda>g t. I t \<and> (f g = Inr True \<longrightarrow> Q t))"
    and wait: "\<And>t. I t \<Longrightarrow> I (t @ [Waited c interval])"
  shows "triple I (wait_pure rt c interval get f) (\<lambda>e t. I t \<and> (e = None \<longrightarrow> Q t))"
  unfolding wait_pure_def
proof (rule triple_bind)
  show "triple I (waitForCondition rt c interval get (pure_cond f) ())
     (\<lambda>x t. if fst x = None then I t \<and> Q t else I t)"
    by (rule wait_condition.poll_triple [where I = "\<lambda>_. I" and J = "\<lambda>_ g t. I t \<and> (f g = Inr True \<longrightarrow> Q t)"
          and K = "\<lambda>_. I" and Q = "\<lambda>_ t. I t \<and> Q t"])
      (auto simp: pure_cond_def wait intro!: get triple_ret split: sum.splits)
qed (intro triple_intros triple_ret, auto split: if_splits)

lemma provision_class_calls: "only_calls (provision_event ns) (provisionVMClass p c)"
  unfolding provisionVMClass_def waitVMClassReady_def Let_def
  by (intro calls_intros class_creator.calls) (simp_all add: provision_event_def buildVirtualMachineClass_def)

lemma provision_image_calls: "only_calls (provision_event ns) (provisionImage p c img)"
  unfolding provisionImage_def Let_def
  by (intro calls_intros cvi_creator.calls) (simp_all add: provision_event_def buildClusterVirtualImage_def)

lemma buildVirtualDisk_meta:
  "buildVirtualDisk qa ns n cvi sc g ls = Inr vd \<Longrightarrow> vd_meta vd = \<lparr>om_name = n, om_namespace = ns, om_labels = ls\<rparr>"
  by (auto simp: buildVirtualDisk_def split: if_splits)

lemma buildVirtualMachine_meta:
  "buildVirtualMachine qa p = Inr vm \<Longrightarrow>
     vm_meta vm = \<lparr>om_name = vp_Name p, om_namespace = vp_Namespace p, om_labels = vp_Labels p\<rparr>"
  by (auto simp: buildVirtualMachine_def split: if_splits sum.splits)

lemma create_disk_vm_calls: "only_calls (provision_event (vmc_Namespace (pr_cfg p))) (createDiskAndVM p c pl)"
  unfolding createDiskAndVM_def Let_def
  by (intro calls_intros vd_creator.calls vm_creator.calls)
    (auto simp: provision_event_def dest!: buildVirtualDisk_meta buildVirtualMachine_meta)

lemma wait_running_calls: "only_calls (provision_event ns) (waitRunning p c pl)"
  unfolding waitRunning_def running_cond_def warnOnDiskFailure_def Let_def
  by (intro calls_intros wait_condition.calls) simp_all

lemma provision_calls: "only_calls (provision_event (vmc_Namespace (pr_cfg p))) (Provision p c def)"
  unfolding Provision_def provisionClusterVirtualImages_def provisionDisksAndVMs_def waitRunningAndCollectIPs_def Let_def
  by (intro calls_intros provision_class_calls provision_image_calls create_disk_vm_calls wait_running_calls)

text \<open>Reads and waits keep the history in order.\<close>

lemma reads_keep_guarded:
  "only_calls (\<lambda>ev. create_key ev = None) m \<Longrightarrow> triple (since t0 (history guarded)) m (\<lambda>_. since t0 (history guarded))"
  by (erule triple_history) simp

lemma wait_keeps_guarded:
  "only_calls (\<lambda>ev. create_key ev = None) get \<Longrightarrow>
     triple (since t0 (history guarded)) (wait_pure rt c interval get f) (\<lambda>_. since t0 (history guarded))"
  by (intro reads_keep_guarded calls_intros) simp_all

lemma provision_class_guarded:
  "triple (since t0 (history guarded)) (provisionVMClass p c) (\<lambda>_. since t0 (history guarded))"
proof -
  have get: "triple (since t0 (history guarded)) (Class_Get api c n) (\<lambda>_. since t0 (history guarded))" for api c n
    by (intro reads_keep_guarded calls_intros) simp
  have wait: "triple (since t0 (history guarded)) (waitVMClassReady p c n) (\<lambda>_. since t0 (history guarded))" for n
    unfolding waitVMClassReady_def Let_def
    by (intro reads_keep_guarded calls_intros) simp_all
  show ?thesis unfolding provisionVMClass_def Let_def
    by (intro triple_bind [OF get] triple_intros triple_ret wait triple_bind [OF class_creator.keeps_guarded]) assumption+
qed

lemma provision_image_guarded:
  "triple (since t0 (history guarded)) (provisionImage p c img) (\<lambda>_. since t0 (history guarded))"
  unfolding provisionImage_def Let_def
  by (intro triple_bind [OF cvi_creator.keeps_guarded] triple_intros triple_ret, rule reads_keep_guarded, intro calls_intros)
    simp_all

lemma create_disk_vm_guarded:
  "triple (since t0 (history guarded)) (createDiskAndVM p c pl) (\<lambda>_. since t0 (history guarded))"
  unfolding createDiskAndVM_def Let_def
  by (intro triple_intros triple_ret triple_bind [OF vd_creator.keeps_guarded] vm_creator.keeps_guarded) assumption+

lemma errgroup_keeps:
  "(\<And>x. triple I (f x) (\<lambda>_. I)) \<Longrightarrow> (\<And>x. appends (f x)) \<Longrightarrow> triple I (errgroup rt f ts) (\<lambda>_. I)"
  by (rule triple_post [OF triple_errgroup [where Q = "\<lambda>_ _. True" and A = "\<lambda>_. True"]]) (auto intro: triple_post)

lemma provision_guarded:
  "triple (since t0 (history guarded)) (Provision p c def) (\<lambda>_. since t0 (history guarded))"
proof -
  note app = only_calls_mono [where Q = "\<lambda>_. True", OF provision_image_calls [of "[]"] TrueI]
    only_calls_mono [where Q = "\<lambda>_. True", OF create_disk_vm_calls TrueI]
  have wait: "triple (since t0 (history guarded)) (waitRunningAndCollectIPs p c planned def) (\<lambda>_. since t0 (history guarded))"
    for planned
    unfolding waitRunningAndCollectIPs_def waitRunning_def running_cond_def warnOnDiskFailure_def Let_def
    by (intro reads_keep_guarded calls_intros wait_condition.calls) simp_all
  have grp: "triple (since t0 (history guarded)) (provisionClusterVirtualImages p c planned) (\<lambda>_. since t0 (history guarded))"
    "triple (since t0 (history guarded)) (provisionDisksAndVMs p c planned) (\<lambda>_. since t0 (history guarded))" for planned
    unfolding provisionClusterVirtualImages_def provisionDisksAndVMs_def
    by (intro errgroup_keeps provision_image_guarded create_disk_vm_guarded app)+
  show ?thesis unfolding Provision_def Let_def
    by (intro triple_intros triple_ret triple_bind [OF provision_class_guarded] triple_bind [OF grp(1)]
        triple_bind [OF grp(2)] wait) assumption+
qed


section \<open>The addresses\<close>

fun node_at :: "node_ref \<Rightarrow> cluster_definition \<Rightarrow> cluster_node option" where
  "node_at (MasterRef i) def = (if i < length (Masters def) then Some (Masters def ! i) else None)"
| "node_at (WorkerRef i) def = (if i < length (Workers def) then Some (Workers def ! i) else None)"
| "node_at SetupRef def = Setup def"

lemma node_at_set_ip:
  "node_at r (set_ip r' ip def) =
     (if r = r' then map_option (\<lambda>n. n\<lparr>IPAddress := ip\<rparr>) (node_at r def) else node_at r def)"
  by (cases r; cases r') (auto simp: nth_list_update)

lemma set_ip_parameters [simp]: "DKPParameters (set_ip r ip def) = DKPParameters def"
  by (cases r) simp_all

lemma plan_node_ref: "pl \<in> set (plan_node r n) \<Longrightarrow> pv_ref pl = r \<and> pv_node pl = n"
  by (auto simp: plan_node_def split: if_splits)

lemma plan_nodes: "pl \<in> set (plan def) \<Longrightarrow> node_at (pv_ref pl) def = Some (pv_node pl)"
  by (auto simp: plan_def enumerate_eq_zip in_set_zip split: option.splits dest!: plan_node_ref)

abbreviation part_refs :: "(nat \<Rightarrow> node_ref) \<Rightarrow> nat \<Rightarrow> cluster_node list \<Rightarrow> node_ref list" where
  "part_refs f k ns \<equiv> map pv_ref (concat (map (\<lambda>(i, n). plan_node (f i) n) (enumerate k ns)))"

lemma plan_node_refs: "map pv_ref (plan_node r n) \<in> {[], [r]}"
  by (simp add: plan_node_def)

lemma part_refs_from: "r \<in> set (part_refs f k ns) \<Longrightarrow> \<exists>i \<ge> k. r = f i"
proof (induction ns arbitrary: k)
  case (Cons n ns)
  then consider "r \<in> set (map pv_ref (plan_node (f k) n))" | "r \<in> set (part_refs f (Suc k) ns)" by auto
  then show ?case
  proof cases
    case 1
    with plan_node_refs [of "f k" n] show ?thesis by (auto simp: plan_node_def)
  next
    case 2
    from Cons.IH [OF this] obtain i where "i \<ge> Suc k" "r = f i" by blast
    then show ?thesis by (intro exI [of _ i]) simp
  qed
qed simp

lemma part_refs_distinct:
  assumes "inj f"
  shows "distinct (part_refs f k ns)"
proof (induction ns arbitrary: k)
  case (Cons n ns)
  have "f k \<notin> set (part_refs f (Suc k) ns)"
  proof
    assume "f k \<in> set (part_refs f (Suc k) ns)"
    from part_refs_from [OF this] obtain i where "i \<ge> Suc k" "f k = f i" by blast
    with injD [OF assms, of k i] show False by simp
  qed
  moreover have "part_refs f k (n # ns) = map pv_ref (plan_node (f k) n) @ part_refs f (Suc k) ns" by simp
  ultimately show ?case
    using plan_node_refs [of "f k" n] Cons.IH [of "Suc k"] by (auto simp only: distinct_append set_simps) auto
qed simp

lemma plan_refs_distinct: "distinct (map pv_ref (plan def))"
proof -
  have inj: "inj MasterRef" "inj WorkerRef" by (auto simp: inj_def)
  note m = part_refs_from [of _ MasterRef 0 "Masters def"] and w = part_refs_from [of _ WorkerRef 0 "Workers def"]
  have s: "distinct (map pv_ref (case Setup def of None \<Rightarrow> [] | Some n \<Rightarrow> plan_node SetupRef n))"
    "set (map pv_ref (case Setup def of None \<Rightarrow> [] | Some n \<Rightarrow> plan_node SetupRef n)) \<subseteq> {SetupRef}"
    by (auto simp: plan_node_def split: option.splits)
  show ?thesis unfolding plan_def map_append distinct_append
    using part_refs_distinct [OF inj(1)] part_refs_distinct [OF inj(2)] s
    by (intro conjI) (auto dest!: plan_node_ref)
qed

lemma store_ips_node:
  "distinct (map (pv_ref \<circ> fst) rs) \<Longrightarrow>
     node_at r (store_ips rs def) =
       (case List.find (\<lambda>x. pv_ref (fst x) = r) rs of
          Some (pl, Some ip) \<Rightarrow> map_option (\<lambda>n. n\<lparr>IPAddress := ip\<rparr>) (node_at r def)
        | _ \<Rightarrow> node_at r def)"
proof (induction rs arbitrary: def)
  case (Cons x rs)
  obtain pl o' where x: "x = (pl, o')" by (cases x)
  have none: "List.find (\<lambda>x. pv_ref (fst x) = pv_ref pl) rs = None"
    unfolding find_None_iff
  proof
    assume "\<exists>y. y \<in> set rs \<and> pv_ref (fst y) = pv_ref pl"
    then have "pv_ref pl \<in> set (map (pv_ref \<circ> fst) rs)" by force
    with Cons.prems x show False by simp
  qed
  show ?case using Cons.IH Cons.prems x none
    by (auto simp: store_ips_def node_at_set_ip split: option.splits prod.splits)
qed (simp add: store_ips_def)

lemma store_ips_parameters [simp]: "DKPParameters (store_ips rs def) = DKPParameters def"
  unfolding store_ips_def by (induction rs arbitrary: def) (auto split: option.splits)

fun running_seen :: "string \<Rightarrow> string \<Rightarrow> string \<Rightarrow> event \<Rightarrow> bool" where
  "running_seen ns n ip (VMGet ns' n' (Inr m)) \<longleftrightarrow>
     ns' = ns \<and> n' = n \<and> vm_phase m = MachineRunning \<and> vm_ipAddress m = ip \<and> ip \<noteq> []"
| "running_seen ns n ip ev \<longleftrightarrow> False"

lemma virtualMachineRunning_True:
  "virtualMachineRunning g = Inr True \<longleftrightarrow> (\<exists>m. g = Inr m \<and> vm_phase m = MachineRunning \<and> vm_ipAddress m \<noteq> [])"
  by (auto simp: virtualMachineRunning_def split: sum.splits machine_phase.splits if_splits)

lemma waitRunning_address:
  "triple (since t0 (\<lambda>_. True)) (waitRunning p c pl)
     (\<lambda>x t. since t0 (\<lambda>_. True) t \<and> (fst x = None \<longrightarrow> (\<exists>ip. snd x = Some ip \<and>
        since t0 (list_ex (running_seen (vmc_Namespace (pr_cfg p)) (Hostname (pv_node pl)) ip)) t)))"
proof -
  let ?ns = "vmc_Namespace (pr_cfg p)" and ?host = "Hostname (pv_node pl)"
  let ?c = "CtxTimeout c (VMRunningTimeout (vmc_Timeouts (pr_cfg p)))"
  let ?J = "\<lambda>(g :: goerr + vmachine) t. since t0 (\<lambda>_. True) t \<and>
      (virtualMachineRunning g = Inr True \<longrightarrow> (\<exists>m. g = Inr m \<and> since t0 (list_ex (running_seen ?ns ?host (vm_ipAddress m))) t))"
  have get: "triple (since t0 (\<lambda>_. True)) (VM_Get (pr_api p) ?c ?ns ?host) ?J"
    unfolding VM_Get_def by (rule triple_get_op) (auto simp: virtualMachineRunning_True intro!: since_ex_now)
  have warn: "triple (?J g) (warnOnDiskFailure p ?c d l) (\<lambda>_. ?J g)" for g d l
    by (rule triple_keeps [where A = "\<lambda>_. True"])
      (auto simp: warnOnDiskFailure_def since_ex_step intro!: calls_intros)
  have cond: "triple (?J g) (running_cond p ?c (systemDiskName ?host) v g)
      (\<lambda>y t. case fst y of Inl e \<Rightarrow> since t0 (\<lambda>_. True) t
         | Inr b \<Rightarrow> if b then since t0 (list_ex (running_seen ?ns ?host (fst (snd y)))) t else since t0 (\<lambda>_. True) t)" for v g
    unfolding running_cond_def
    by (rule triple_bind [OF warn], rule triple_ret) (auto split: sum.splits bool.splits)
  have "triple (since t0 (\<lambda>_. True)) (waitForCondition (pr_rt p) ?c (PollInterval (vmc_Timeouts (pr_cfg p)))
       (VM_Get (pr_api p) ?c ?ns ?host) (running_cond p ?c (systemDiskName ?host)) ([], []))
     (\<lambda>x t. if fst x = None then since t0 (list_ex (running_seen ?ns ?host (fst (snd x)))) t else since t0 (\<lambda>_. True) t)"
    by (rule wait_condition.poll_triple [where I = "\<lambda>_. since t0 (\<lambda>_. True)" and J = "\<lambda>_. ?J", OF get cond]) simp_all
  then show ?thesis unfolding waitRunning_def Let_def
    by (rule triple_bind) (intro triple_intros triple_ret, auto intro: since_forget split: option.splits if_splits)
qed

lemma collect_addresses:
  "triple (since t0 (\<lambda>_. True)) (waitRunningAndCollectIPs p c planned def)
     (\<lambda>x t. fst x = None \<longrightarrow> (\<exists>rs. mset (map fst rs) = mset planned \<and> snd x = store_ips rs def \<and>
        (\<forall>(pl, r) \<in> set rs. \<exists>ip. r = Some ip \<and>
           since t0 (list_ex (running_seen (vmc_Namespace (pr_cfg p)) (Hostname (pv_node pl)) ip)) t)))"
  unfolding waitRunningAndCollectIPs_def
proof (rule triple_bind)
  show "triple (since t0 (\<lambda>_. True)) (errgroup_results (pr_rt p) (waitRunning p (CtxGroup c)) planned)
     (\<lambda>y t. since t0 (\<lambda>_. True) t \<and> mset (map fst (snd y)) = mset planned \<and> (fst y = None \<longrightarrow>
       (\<forall>(pl, r) \<in> set (snd y). \<exists>ip. r = Some ip \<and>
           since t0 (list_ex (running_seen (vmc_Namespace (pr_cfg p)) (Hostname (pv_node pl)) ip)) t)))"
    by (rule triple_errgroup_results [where A = "\<lambda>_. True", OF waitRunning_address])
      (auto intro: since_ex_step only_calls_mono [OF wait_running_calls [of "[]"]])
qed (intro triple_intros triple_ret, auto)


lemma find_distinct:
  assumes "(a, b) \<in> set xs" "distinct (map (f \<circ> fst) xs)"
  shows "List.find (\<lambda>x. f (fst x) = f a) xs = Some (a, b)"
  using assms by (induction xs) (auto simp: image_iff split: if_splits)

section \<open>Properties of provisioning\<close>

lemma provision_addresses:
  "triple (since t0 (\<lambda>_. True)) (Provision p c def)
     (\<lambda>x t. fst x = None \<longrightarrow> (\<exists>rs. mset (map fst rs) = mset (plan def) \<and> snd x = store_ips rs def \<and>
        (\<forall>(pl, r) \<in> set rs. \<exists>ip. r = Some ip \<and>
           since t0 (list_ex (running_seen (vmc_Namespace (pr_cfg p)) (Hostname (pv_node pl)) ip)) t)))"
proof -
  note any = triple_keeps [where A = "\<lambda>_. True" and I = "since t0 (\<lambda>_. True)", OF _ since_any_step]
  have step: "appends (provisionVMClass p c)" "appends (provisionClusterVirtualImages p c planned)"
    "appends (provisionDisksAndVMs p c planned)" for planned
    unfolding provisionClusterVirtualImages_def provisionDisksAndVMs_def
    by (intro calls_intros only_calls_mono [OF provision_class_calls [of "[]"]] only_calls_mono [OF provision_image_calls [of "[]"]]
        only_calls_mono [OF create_disk_vm_calls] TrueI)+
  show ?thesis unfolding Provision_def Let_def
    by (intro triple_intros triple_ret triple_bind [OF any [OF step(1)]] triple_bind [OF any [OF step(2)]]
        triple_bind [OF any [OF step(3)]] collect_addresses) simp_all
qed

text \<open>
  C25. Provisioning never overwrites, updates or deletes anything on the base cluster: whatever
  it returns, every object it asked to create carries the managed-by label and lies in the
  configured namespace (or has none), and the request just before it read that this very
  object is absent.
\<close>

theorem provision_never_overwrites:
  assumes "Provision p c def w = Some (r, w')"
  shows "\<exists>u. tr w' = tr w @ u \<and> list_all (provision_event (vmc_Namespace (pr_cfg p))) u \<and>
    (\<forall>a ev b. u = a @ ev # b \<longrightarrow> create_key ev \<noteq> None \<longrightarrow> a \<noteq> [] \<and> absent_before (last a) ev)"
proof -
  from only_callsD [OF provision_calls assms] obtain u where u: "tr w' = tr w @ u"
    "list_all (provision_event (vmc_Namespace (pr_cfg p))) u" by blast
  from tripleD [OF provision_guarded assms since_historyI] u(1) have "history guarded u" by (auto simp: since_def)
  with u show ?thesis unfolding history_split by blast
qed

lemma provision_sets_addresses:
  assumes "Provision p c def w = Some ((None, def'), w')"
  shows "DKPParameters def' = DKPParameters def \<and>
    (\<forall>pl \<in> set (plan def). \<exists>ip. node_at (pv_ref pl) def' = Some ((pv_node pl)\<lparr>IPAddress := ip\<rparr>) \<and>
       list_ex (running_seen (vmc_Namespace (pr_cfg p)) (Hostname (pv_node pl)) ip) (drop (length (tr w)) (tr w'))) \<and>
    (\<forall>r. r \<notin> pv_ref ` set (plan def) \<longrightarrow> node_at r def' = node_at r def)"
proof -
  from tripleD [OF provision_addresses assms, of "tr w"] obtain rs where
    rs: "mset (map fst rs) = mset (plan def)" "def' = store_ips rs def"
    and ip: "\<forall>(pl, r) \<in> set rs. \<exists>ip. r = Some ip \<and>
           since (tr w) (list_ex (running_seen (vmc_Namespace (pr_cfg p)) (Hostname (pv_node pl)) ip)) (tr w')"
    by (auto simp: since_refl)
  have dist: "distinct (map (pv_ref \<circ> fst) rs)"
    using plan_refs_distinct [of def] rs(1) by (metis distinct_map map_map mset_eq_imp_distinct_iff mset_map)
  have set_eq: "fst ` set rs = set (plan def)" using mset_eq_setD [OF rs(1)] by simp
  have "\<exists>ip. node_at (pv_ref pl) def' = Some ((pv_node pl)\<lparr>IPAddress := ip\<rparr>) \<and>
       list_ex (running_seen (vmc_Namespace (pr_cfg p)) (Hostname (pv_node pl)) ip) (drop (length (tr w)) (tr w'))"
    if pl: "pl \<in> set (plan def)" for pl
  proof -
    from pl set_eq obtain r where r: "(pl, r) \<in> set rs" by force
    with ip obtain a where a: "r = Some a"
      "list_ex (running_seen (vmc_Namespace (pr_cfg p)) (Hostname (pv_node pl)) a) (drop (length (tr w)) (tr w'))"
      by (fastforce simp: since_def)
    have "List.find (\<lambda>x. pv_ref (fst x) = pv_ref pl) rs = Some (pl, r)"
      using r dist by (rule find_distinct)
    with a pl plan_nodes [OF pl] show ?thesis by (auto simp: rs(2) store_ips_node [OF dist])
  qed
  moreover have "node_at r def' = node_at r def" if "r \<notin> pv_ref ` set (plan def)" for r
  proof -
    have "List.find (\<lambda>x. pv_ref (fst x) = r) rs = None"
      using that unfolding set_eq [symmetric] by (force simp: find_None_iff)
    then show ?thesis by (simp add: rs(2) store_ips_node [OF dist])
  qed
  ultimately show ?thesis using rs(2) by simp
qed

text \<open>
  When provisioning succeeds, every planned node has got an address: the non-empty one of
  a read of its virtual machine in phase Running. Nothing else of the definition changes,
  and nodes that were not planned keep theirs.
\<close>

lemma provision_collects_addresses:
  assumes "Provision p c def w = Some ((None, def'), w')"
  shows "DKPParameters def' = DKPParameters def \<and>
    (\<forall>pl \<in> set (plan def). \<exists>ip. node_at (pv_ref pl) def' = Some ((pv_node pl)\<lparr>IPAddress := ip\<rparr>) \<and>
       list_ex (running_seen (vmc_Namespace (pr_cfg p)) (Hostname (pv_node pl)) ip) (drop (length (tr w)) (tr w'))) \<and>
    (\<forall>r. r \<notin> pv_ref ` set (plan def) \<longrightarrow> node_at r def' = node_at r def)"
  by (rule provision_sets_addresses [OF assms])


text \<open>
  A base cluster for the witnesses, in which every object exists and is ready until something
  is deleted.
\<close>

definition not_found :: goerr where
  "not_found = ErrStatus \<lparr>st_code = 404, st_reason = NotFound, st_retryAfter = None, st_text = []\<rparr>"

definition sample_meta :: objmeta where
  "sample_meta = \<lparr>om_name = ''m'', om_namespace = ''ns'', om_labels = ManagedLabels\<rparr>"

definition sample_vm :: vmachine where
  "sample_vm = \<lparr>vm_meta = sample_meta, vm_className = [], vm_paravirtualization = True, vm_runPolicy = [], vm_osType = [],
     vm_bootloader = [], vm_migrationPolicy = [], vm_cores = 1, vm_coreFraction = [], vm_memory = \<lparr>q_val = 0, q_text = []\<rparr>,
     vm_diskRefs = [], vm_userData = [], vm_phase = MachineRunning, vm_ipAddress = ''10.0.0.5''\<rparr>"

definition sample_vd :: vdisk where
  "sample_vd = \<lparr>vd_meta = sample_meta, vd_size = Some \<lparr>q_val = 5, q_text = ''5n''\<rparr>, vd_storageClass = None, vd_sourceCVI = None, vd_phase = DiskReady,
     vd_phaseText = [], vd_capacity = [], vd_conditions = []\<rparr>"

definition sample_cvi :: cvimage where
  "sample_cvi = \<lparr>cvi_meta = sample_meta, cvi_url = [], cvi_phase = ImageReady, cvi_phaseText = []\<rparr>"

definition sample_class :: vmclass where
  "sample_class = \<lparr>vc_meta = sample_meta, vc_spec = \<lparr>cs_cpu = CPUTypeHost, cs_nodeSelector = [], cs_tolerations = [], cs_rest = []\<rparr>,
     vc_phase = ClassPhaseReady\<rparr>"

definition sample_ba :: vmbda where
  "sample_ba = \<lparr>ba_meta = sample_meta, ba_vmName = [], ba_refKind = RefVirtualDisk, ba_refName = [],
     ba_phase = AttachAttached, ba_phaseText = []\<rparr>"

definition sample_kind :: "'o \<Rightarrow> (bool, 'o) kind_ops" where
  "sample_kind obj = \<lparr>ko_get = (\<lambda>c ns n s. (if s then Inl not_found else Inr obj, s)), ko_list = (\<lambda>c ns s. (Inr [obj], s)),
     ko_create = (\<lambda>c x s. (None, s)), ko_update = (\<lambda>c x s. (None, s)), ko_delete = (\<lambda>c ns n s. (None, True))\<rparr>"

definition sample_virt :: "bool virt_api" where
  "sample_virt = \<lparr>va_addV2 = None, va_addV3 = None, va_new = (\<lambda>s. (None, s)), va_vm = sample_kind sample_vm,
     va_vd = sample_kind sample_vd, va_cvi = sample_kind sample_cvi, va_class = sample_kind sample_class,
     va_ba = sample_kind sample_ba, va_readyType = ''Ready'', va_kindVirtualDisk = ''VirtualDisk''\<rparr>"

definition sample_prov :: "bool provisioner" where
  "sample_prov = \<lparr>pr_rt = sample_rt, pr_api = sample_virt,
     pr_qa = \<lparr>qa_new = (\<lambda>n. \<lparr>q_val = n * 1000000000, q_text = itoa n\<rparr>), qa_parse = (\<lambda>s. Inr \<lparr>q_val = 0, q_text = s\<rparr>)\<rparr>,
     pr_cfg = \<lparr>vmc_Namespace = ''ns'', vmc_StorageClass = [], vmc_SSHPublicKey = ''key'', vmc_VMClassName = ''cls'',
       vmc_DefaultVMClassName = ''generic'', vmc_Timeouts = \<lparr>PollInterval = second, ClusterVirtualImageReadyTimeout = minute,
       VMClassReadyTimeout = minute, VMRunningTimeout = minute, DeleteTimeout = minute\<rparr>\<rparr>\<rparr>"

definition sample_node :: cluster_node where
  "sample_node = \<lparr>Hostname = ''m'', IPAddress = [], OSType = os_entry ''u'' [], node_hostType = HostTypeVM, Role = NoRole,
     CPU = 2, CoreFraction = None, RAM = 4, DiskSize = 20, Prepared = False\<rparr>"

definition sample_nodes :: cluster_definition where
  "sample_nodes = \<lparr>Masters = [sample_node], Workers = [], Setup = None, DKPParameters = dt_DKPParameters sample_def_tmp\<rparr>"

lemma sample_kind_sels [simp]:
  "ko_get (sample_kind obj) c ns n s = (if s then Inl not_found else Inr obj, s)" "ko_list (sample_kind obj) c ns s = (Inr [obj], s)"
  "ko_delete (sample_kind obj) c ns n s = (None, True)" "ko_create (sample_kind obj) c x s = (None, s)"
  by (simp_all add: sample_kind_def)

lemma sample_virt_sels [simp]:
  "va_vm sample_virt = sample_kind sample_vm" "va_vd sample_virt = sample_kind sample_vd"
  "va_cvi sample_virt = sample_kind sample_cvi" "va_class sample_virt = sample_kind sample_class"
  "va_ba sample_virt = sample_kind sample_ba"
  by (simp_all add: sample_virt_def)

lemma sample_prov_sels [simp]:
  "pr_rt sample_prov = sample_rt" "pr_api sample_prov = sample_virt" "vmc_Namespace (pr_cfg sample_prov) = ''ns''"
  "vmc_VMClassName (pr_cfg sample_prov) = ''cls''" "vmc_StorageClass (pr_cfg sample_prov) = []"
  "PollInterval (vmc_Timeouts (pr_cfg sample_prov)) = second"
  by (simp_all add: sample_prov_def)

lemma sample_reason_not_found [simp]: "has_reason NotFound not_found"
  by (simp add: not_found_def has_reason_def)

lemma second_pos [simp]: "0 < second" "\<not> second \<le> 0"
  by (simp_all add: second_def)

lemma sample_plan: "plan sample_nodes = [\<lparr>pv_ref = MasterRef 0, pv_node = sample_node, pv_withStorageTools = True,
    pv_withDocker = False, pv_cviName = cviNameFromImageURL ''u''\<rparr>]"
  by (simp add: plan_def sample_nodes_def plan_node_def sample_node_def os_entry_def)

lemma one_task:
  "f x w = Some ((e, r), w') \<Longrightarrow> errgroup_results rt f [x] w = Some ((e, [(x, r)]), w')"
  by (cases e) (simp_all add: errgroup_results_def arrange_def io_simps)

lemma one_task_group: "f x w = Some (e, w') \<Longrightarrow> errgroup rt f [x] w = Some (e, w')"
  by (cases e) (simp_all add: errgroup_def errgroup_results_def arrange_def io_simps)

abbreviation sample_pl :: planned_vm where
  "sample_pl \<equiv> \<lparr>pv_ref = MasterRef 0, pv_node = sample_node, pv_withStorageTools = True,
    pv_withDocker = False, pv_cviName = cviNameFromImageURL ''u''\<rparr>"

lemma one_node_provision:
  assumes "provisionVMClass p c w = Some (None, w1)"
    and "provisionImage p (CtxGroup c) (cviNameFromImageURL ''u'', ''u'') w1 = Some (None, w2)"
    and "createDiskAndVM p (CtxGroup c) sample_pl w2 = Some (None, w3)"
    and "waitRunning p (CtxGroup c) sample_pl w3 = Some ((None, Some ip), w4)"
  shows "Provision p c sample_nodes w = Some ((None, set_ip (MasterRef 0) ip sample_nodes), w4)"
proof -
  have imgs: "image_list [sample_pl] = [(cviNameFromImageURL ''u'', ''u'')]"
    by (simp add: image_list_def uniqueImages_def sample_node_def os_entry_def)
  show ?thesis
    using one_task_group [where f = "provisionImage p (CtxGroup c)", OF assms(2)]
      one_task_group [where f = "createDiskAndVM p (CtxGroup c)", OF assms(3)]
      one_task [where f = "waitRunning p (CtxGroup c)", OF assms(4)]
    by (simp add: Provision_def sample_plan provisionClusterVirtualImages_def imgs provisionDisksAndVMs_def
        waitRunningAndCollectIPs_def io_simps assms(1) store_ips_def Let_def)
qed

text \<open>
  A base cluster without the disk and without the machine, which runs as soon as it is created (then the state is \<open>True\<close>).
\<close>

definition fresh_virt :: "bool virt_api" where
  "fresh_virt = sample_virt\<lparr>va_vd := (sample_kind sample_vd)\<lparr>ko_get := (\<lambda>c ns n s. (Inl not_found, s))\<rparr>,
     va_class := (sample_kind sample_class)\<lparr>ko_get := (\<lambda>c ns n s. (Inr sample_class, s))\<rparr>,
     va_cvi := (sample_kind sample_cvi)\<lparr>ko_get := (\<lambda>c ns n s. (Inr sample_cvi, s))\<rparr>,
     va_vm := (sample_kind sample_vm)\<lparr>ko_get := (\<lambda>c ns n s. (if s then Inr sample_vm else Inl not_found, s)), ko_create := (\<lambda>c x s. (None, True))\<rparr>\<rparr>"

definition fresh_prov :: "bool provisioner" where "fresh_prov = sample_prov\<lparr>pr_api := fresh_virt\<rparr>"

lemma fresh_provision:
  "\<exists>u. Provision fresh_prov CtxRoot sample_nodes \<lparr>tr = [], est = False\<rparr> =
     Some ((None, set_ip (MasterRef 0) ''10.0.0.5'' sample_nodes), \<lparr>tr = u, est = True\<rparr>) \<and>
     (\<exists>d. VDCreate d None \<in> set u) \<and> (\<exists>m. VMCreate m None \<in> set u)"
proof -
  note defs = Let_def virt_ops io_simps wait_pure_def waitForCondition_def loop_unfold poll_body_def pure_cond_def create_absent_defs
    fresh_prov_def fresh_virt_def
  have "\<exists>u. provisionVMClass fresh_prov CtxRoot \<lparr>tr = [], est = False\<rparr> = Some (None, \<lparr>tr = u, est = False\<rparr>)"
    by (simp add: provisionVMClass_def waitVMClassReady_def virtualMachineClassReady_def sample_class_def defs)
  then obtain u1 where u1: "provisionVMClass fresh_prov CtxRoot \<lparr>tr = [], est = False\<rparr> = Some (None, \<lparr>tr = u1, est = False\<rparr>)" by blast
  have "\<exists>u. provisionImage fresh_prov c img \<lparr>tr = t, est = False\<rparr> = Some (None, \<lparr>tr = u, est = False\<rparr>)" for c img t
    by (simp add: provisionImage_def clusterVirtualImageReady_def sample_cvi_def defs)
  then obtain u2 where u2: "provisionImage fresh_prov (CtxGroup CtxRoot) (cviNameFromImageURL ''u'', ''u'') \<lparr>tr = u1, est = False\<rparr> =
      Some (None, \<lparr>tr = u2, est = False\<rparr>)" by blast
  have "\<exists>u d m. createDiskAndVM fresh_prov c sample_pl \<lparr>tr = t, est = False\<rparr> = Some (None, \<lparr>tr = u, est = True\<rparr>) \<and>
      {VDCreate d None, VMCreate m None} \<subseteq> set u" for c t
    by (simp add: createDiskAndVM_def buildVirtualDisk_def buildVirtualMachine_def sample_node_def sample_prov_def defs) auto
  then obtain u3 d m where u3: "createDiskAndVM fresh_prov (CtxGroup CtxRoot) sample_pl \<lparr>tr = u2, est = False\<rparr> =
      Some (None, \<lparr>tr = u3, est = True\<rparr>)" "{VDCreate d None, VMCreate m None} \<subseteq> set u3" by blast
  have "\<exists>u. waitRunning fresh_prov c sample_pl \<lparr>tr = t, est = True\<rparr> = Some ((None, Some ''10.0.0.5''), \<lparr>tr = t @ u, est = True\<rparr>)" for c t
    by (simp add: waitRunning_def running_cond_def warnOnDiskFailure_def virtualMachineRunning_def sample_vm_def defs)
  then obtain u4 where u4: "waitRunning fresh_prov (CtxGroup CtxRoot) sample_pl \<lparr>tr = u3, est = True\<rparr> =
      Some ((None, Some ''10.0.0.5''), \<lparr>tr = u3 @ u4, est = True\<rparr>)" by blast
  from one_node_provision [OF u1 u2 u3(1) u4] u3(2) show ?thesis by auto
qed

theorem provision_never_overwrites_witness:
  "\<exists>u. Provision fresh_prov CtxRoot sample_nodes \<lparr>tr = [], est = False\<rparr> =
     Some ((None, set_ip (MasterRef 0) ''10.0.0.5'' sample_nodes), \<lparr>tr = u, est = True\<rparr>) \<and>
   list_all (provision_event ''ns'') u \<and>
   (\<exists>a d b. u = a @ VDCreate d None # b \<and> a \<noteq> [] \<and> absent_before (last a) (VDCreate d None)) \<and>
   (\<exists>a m b. u = a @ VMCreate m None # b \<and> a \<noteq> [] \<and> absent_before (last a) (VMCreate m None))"
proof -
  obtain u d m where run: "Provision fresh_prov CtxRoot sample_nodes \<lparr>tr = [], est = False\<rparr> =
      Some ((None, set_ip (MasterRef 0) ''10.0.0.5'' sample_nodes), \<lparr>tr = u, est = True\<rparr>)"
    and ev: "VDCreate d None \<in> set u" "VMCreate m None \<in> set u"
    using fresh_provision by blast
  from provision_never_overwrites [OF run] have all: "list_all (provision_event ''ns'') u"
    and absent: "\<And>a ev b. u = a @ ev # b \<Longrightarrow> create_key ev \<noteq> None \<Longrightarrow> a \<noteq> [] \<and> absent_before (last a) ev"
    by (auto simp: fresh_prov_def)
  from ev(1) obtain a b where "u = a @ VDCreate d None # b" by (meson split_list)
  moreover from ev(2) obtain a' b' where "u = a' @ VMCreate m None # b'" by (meson split_list)
  moreover have "create_key (VDCreate d None) \<noteq> None" "create_key (VMCreate m None) \<noteq> None" by simp_all
  ultimately show ?thesis using run all absent by blast
qed

section \<open>Properties of teardown\<close>

text \<open>A deletion is allowed when a list of the namespace showed the object with the managed label.\<close>

definition listed_managed :: "string \<Rightarrow> event list \<Rightarrow> event \<Rightarrow> bool" where
  "listed_managed ns a ev =
     (case ev of
        VMDelete ns' n r \<Rightarrow> list_ex (\<lambda>e. case e of VMList l (Inr ms) \<Rightarrow> l = ns \<and>
          list_ex (\<lambda>m. isManaged (vm_meta m) \<and> om_namespace (vm_meta m) = ns' \<and> om_name (vm_meta m) = n) ms | _ \<Rightarrow> False) a
      | VDDelete ns' n r \<Rightarrow> list_ex (\<lambda>e. case e of VDList l (Inr ds) \<Rightarrow> l = ns \<and>
          list_ex (\<lambda>d. isManaged (vd_meta d) \<and> om_namespace (vd_meta d) = ns' \<and> om_name (vd_meta d) = n) ds | _ \<Rightarrow> False) a
      | _ \<Rightarrow> create_key ev = None \<and> \<not> removes_or_updates ev)"

text \<open>The object was seen to be gone.\<close>

fun vm_gone :: "objmeta \<Rightarrow> event \<Rightarrow> bool" where
  "vm_gone m (VMGet ns n (Inl e)) \<longleftrightarrow> ns = om_namespace m \<and> n = om_name m \<and> has_reason NotFound e"
| "vm_gone m ev \<longleftrightarrow> False"

fun vd_gone :: "objmeta \<Rightarrow> event \<Rightarrow> bool" where
  "vd_gone m (VDGet ns n (Inl e)) \<longleftrightarrow> ns = om_namespace m \<and> n = om_name m \<and> has_reason NotFound e"
| "vd_gone m ev \<longleftrightarrow> False"

text \<open>
  An object of the list \<open>lst\<close> was removed: after the list its deletion was asked for, and accepted or answered by not found, and after that it
  was read as gone.
\<close>

definition removed_after :: "event \<Rightarrow> (goerr option \<Rightarrow> event) \<Rightarrow> (event \<Rightarrow> bool) \<Rightarrow> event list \<Rightarrow> bool" where
  "removed_after lst del gone u \<longleftrightarrow> (\<exists>a r b. u = a @ del r # b \<and> lst \<in> set a \<and> (r = None \<or> is_reason NotFound r) \<and> list_ex gone b)"

abbreviation vm_removed :: "event \<Rightarrow> objmeta \<Rightarrow> event list \<Rightarrow> bool" where
  "vm_removed lst m \<equiv> removed_after lst (VMDelete (om_namespace m) (om_name m)) (vm_gone m)"

abbreviation vd_removed :: "event \<Rightarrow> objmeta \<Rightarrow> event list \<Rightarrow> bool" where
  "vd_removed lst m \<equiv> removed_after lst (VDDelete (om_namespace m) (om_name m)) (vd_gone m)"

lemma removed_after_step:
  assumes "removed_after lst del gone u"
  shows "removed_after lst del gone (u @ [ev])"
proof -
  from assms obtain a r b where "u @ [ev] = a @ del r # (b @ [ev])" "lst \<in> set a" "r = None \<or> is_reason NotFound r" "list_ex gone (b @ [ev])"
    by (auto simp: removed_after_def)
  then show ?thesis unfolding removed_after_def by blast
qed

lemma since_removed_step: "since t0 (removed_after lst del gone) t \<Longrightarrow> since t0 (removed_after lst del gone) (t @ [ev])"
  by (erule since_step) (rule removed_after_step)

lemma resourceDeleted_True: "resourceDeleted g = Inr True \<longleftrightarrow> (\<exists>e. g = Inl e \<and> has_reason NotFound e)"
  by (auto simp: resourceDeleted_def split: sum.splits)

lemma deleteVirtualMachine_calls:
  "P (Waited (CtxTimeout c (DeleteTimeout (vmc_Timeouts (pr_cfg p)))) (PollInterval (vmc_Timeouts (pr_cfg p)))) \<Longrightarrow>
   (\<And>r. P (VMDelete ns n r)) \<Longrightarrow> (\<And>g. P (VMGet ns n g)) \<Longrightarrow> only_calls P (deleteVirtualMachine p c ns n)"
  unfolding deleteVirtualMachine_def waitDeleted_def Let_def by (intro calls_intros)

lemma deleteVirtualDisk_calls:
  "P (Waited (CtxTimeout c (DeleteTimeout (vmc_Timeouts (pr_cfg p)))) (PollInterval (vmc_Timeouts (pr_cfg p)))) \<Longrightarrow>
   (\<And>r. P (VDDelete ns n r)) \<Longrightarrow> (\<And>g. P (VDGet ns n g)) \<Longrightarrow> only_calls P (deleteVirtualDisk p c ns n)"
  unfolding deleteVirtualDisk_def waitDeleted_def Let_def by (intro calls_intros)

lemma wait_gone:
  assumes "\<And>e. has_reason NotFound e \<Longrightarrow> gone (ev (Inl e))"
  shows "triple (since t0 (\<lambda>_. True)) (waitDeleted rt c interval timeout (\<lambda>c. get_op pre ev (f c)) kind name)
     (\<lambda>e t. e = None \<longrightarrow> since t0 (list_ex gone) t)"
proof -
  have "triple (since t0 (\<lambda>_. True)) (get_op pre ev (f c'))
      (\<lambda>g t. since t0 (\<lambda>_. True) t \<and> (resourceDeleted g = Inr True \<longrightarrow> since t0 (list_ex gone) t))" for c'
    by (rule triple_get_op) (auto simp: resourceDeleted_True intro!: since_ex_now assms)
  from wait_pure_triple [OF this] show ?thesis unfolding waitDeleted_def Let_def
    by (rule triple_bind) (simp, rule triple_ret, simp)
qed

lemma removed_triple:
  assumes "\<And>e. has_reason NotFound e \<Longrightarrow> gone (ev (Inl e))"
  shows "triple (since t0 (\<lambda>u. lst \<in> set u)) (io_bind (put_op pre del fd) (\<lambda>e. if e \<noteq> None \<and> \<not> is_reason NotFound e then io_ret (map_option wrap e)
       else waitDeleted rt c interval timeout (\<lambda>c. get_op pre' ev (f c)) kind name))
     (\<lambda>e t. e = None \<longrightarrow> since t0 (removed_after lst del gone) t)"
proof (rule triple_bind [where R = "\<lambda>e t. \<exists>a r. t = t0 @ a @ [del r] \<and> lst \<in> set a \<and> e = map_option (wrapf pre) r"])
  show "triple (since t0 (\<lambda>u. lst \<in> set u)) (put_op pre del fd) (\<lambda>e t. \<exists>a r. t = t0 @ a @ [del r] \<and> lst \<in> set a \<and> e = map_option (wrapf pre) r)"
    by (rule triple_put_op) (auto simp: since_def)
  have wait: "triple (\<lambda>t. \<exists>a r. t = t0 @ a @ [del r] \<and> lst \<in> set a \<and> (r = None \<or> is_reason NotFound r))
      (waitDeleted rt c interval timeout (\<lambda>c. get_op pre' ev (f c)) kind name) (\<lambda>e t. e = None \<longrightarrow> since t0 (removed_after lst del gone) t)"
  proof (rule tripleI, rule impI)
    fix w e w' assume "\<exists>a r. tr w = t0 @ a @ [del r] \<and> lst \<in> set a \<and> (r = None \<or> is_reason NotFound r)" "e = None"
      and run: "waitDeleted rt c interval timeout (\<lambda>c. get_op pre' ev (f c)) kind name w = Some (e, w')"
    then obtain a r where w: "tr w = t0 @ a @ [del r]" "lst \<in> set a" "r = None \<or> is_reason NotFound r" by blast
    from tripleD [OF wait_gone [where gone = gone and ev = ev, OF assms] run since_refl] \<open>e = None\<close> obtain b where "tr w' = tr w @ b" "list_ex gone b" by (auto simp: since_def)
    with w have "tr w' = t0 @ a @ del r # b" "removed_after lst del gone (a @ del r # b)" by (auto simp: removed_after_def)
    then show "since t0 (removed_after lst del gone) (tr w')" by (auto simp: since_def)
  qed
  show "triple (\<lambda>t. \<exists>a r. t = t0 @ a @ [del r] \<and> lst \<in> set a \<and> e = map_option (wrapf pre) r)
      (if e \<noteq> None \<and> \<not> is_reason NotFound e then io_ret (map_option wrap e)
       else waitDeleted rt c interval timeout (\<lambda>c. get_op pre' ev (f c)) kind name)
      (\<lambda>e t. e = None \<longrightarrow> since t0 (removed_after lst del gone) t)" for e
  proof (rule triple_if)
    assume "e \<noteq> None \<and> \<not> is_reason NotFound e"
    then show "triple (\<lambda>t. \<exists>a r. t = t0 @ a @ [del r] \<and> lst \<in> set a \<and> e = map_option (wrapf pre) r) (io_ret (map_option wrap e))
        (\<lambda>e t. e = None \<longrightarrow> since t0 (removed_after lst del gone) t)" by (intro triple_ret) auto
  next
    assume "\<not> (e \<noteq> None \<and> \<not> is_reason NotFound e)"
    then show "triple (\<lambda>t. \<exists>a r. t = t0 @ a @ [del r] \<and> lst \<in> set a \<and> e = map_option (wrapf pre) r)
        (waitDeleted rt c interval timeout (\<lambda>c. get_op pre' ev (f c)) kind name) (\<lambda>e t. e = None \<longrightarrow> since t0 (removed_after lst del gone) t)"
      by (intro triple_pre [OF wait]) (auto split: option.splits)
  qed
qed

lemma deleteVirtualMachine_removed:
  "triple (since t0 (\<lambda>u. lst \<in> set u)) (deleteVirtualMachine p c (om_namespace m) (om_name m))
     (\<lambda>e t. e = None \<longrightarrow> since t0 (vm_removed lst m) t)"
  unfolding deleteVirtualMachine_def VM_Get_def VM_Delete_def by (rule removed_triple) simp

lemma deleteVirtualDisk_removed:
  "triple (since t0 (\<lambda>u. lst \<in> set u)) (deleteVirtualDisk p c (om_namespace m) (om_name m))
     (\<lambda>e t. e = None \<longrightarrow> since t0 (vd_removed lst m) t)"
  unfolding deleteVirtualDisk_def VD_Get_def VD_Delete_def by (rule removed_triple) simp

lemma listed_managed_simps [simp]:
  "listed_managed ns a (Waited c d)" "listed_managed ns a (VMGet ns' n g)" "listed_managed ns a (VDGet ns' n h)"
  "listed_managed ns a (VMList l i)" "listed_managed ns a (VDList l j)"
  by (simp_all add: listed_managed_def)

lemma delete_group:
  assumes task: "\<And>x c. x \<in> set xs \<Longrightarrow> triple (since t0 (\<lambda>u. lst \<in> set u)) (f c x) (\<lambda>e t. e = None \<longrightarrow> since t0 (gone x) t)"
    and stable: "\<And>x u ev. gone x u \<Longrightarrow> gone x (u @ [ev])"
    and calls: "\<And>x c. x \<in> set xs \<Longrightarrow> only_calls (A x) (f c x)"
    and ok: "\<And>x u ev. x \<in> set xs \<Longrightarrow> lst \<in> set u \<Longrightarrow> A x ev \<Longrightarrow> listed_managed ns u ev"
  shows "triple (since t0 (\<lambda>u. history (listed_managed ns) u \<and> lst \<in> set u)) (errgroup rt (f c) xs)
    (\<lambda>e t. since t0 (\<lambda>u. history (listed_managed ns) u \<and> lst \<in> set u) t \<and>
       (e = None \<longrightarrow> (\<forall>x \<in> set xs. since t0 (gone x) t)))"
proof (rule triple_errgroup [where A = "\<lambda>_. True"])
  fix x assume x: "x \<in> set xs"
  let ?I = "since t0 (\<lambda>u. history (listed_managed ns) u \<and> lst \<in> set u)"
  have "triple (\<lambda>t. since t0 (\<lambda>u. lst \<in> set u) t \<and> ?I t) (f c x) (\<lambda>e t. (e = None \<longrightarrow> since t0 (gone x) t) \<and> ?I t)"
    by (rule triple_frame [OF task [OF x] calls [OF x]]) (auto elim!: since_step intro: ok [OF x])
  then show "triple ?I (f c x) (\<lambda>e t. ?I t \<and> (e = None \<longrightarrow> since t0 (gone x) t))"
    by (rule triple_conseq) (auto elim: since_imp)
  show "appends (f c x)" by (rule only_calls_mono [OF calls [OF x] TrueI])
qed (auto elim: since_step intro: stable)


lemma teardown_vms:
  "triple (since t0 (history (listed_managed (vmc_Namespace (pr_cfg p))))) (teardownVirtualMachines p c)
     (\<lambda>e t. since t0 (history (listed_managed (vmc_Namespace (pr_cfg p)))) t \<and>
       (e = None \<longrightarrow> (\<exists>ms. since t0 (\<lambda>u. VMList (vmc_Namespace (pr_cfg p)) (Inr ms) \<in> set u) t \<and>
          (\<forall>m \<in> set ms. isManaged (vm_meta m) \<longrightarrow> since t0 (vm_removed (VMList (vmc_Namespace (pr_cfg p)) (Inr ms)) (vm_meta m)) t))))"
proof -
  let ?ns = "vmc_Namespace (pr_cfg p)" and ?H = "history (listed_managed (vmc_Namespace (pr_cfg p)))"
  have lst: "triple (since t0 ?H) (VM_List (pr_api p) c ?ns)
     (\<lambda>g. since t0 (\<lambda>u. ?H u \<and> (\<forall>ms. g = Inr ms \<longrightarrow> VMList ?ns (Inr ms) \<in> set u)))"
    unfolding VM_List_def by (rule triple_get_op) (auto simp: elim!: since_step)
  have grp: "triple (since t0 (\<lambda>u. ?H u \<and> VMList ?ns (Inr ms) \<in> set u)) (errgroup (pr_rt p)
       (\<lambda>m. deleteVirtualMachine p (CtxGroup c) (om_namespace (vm_meta m)) (om_name (vm_meta m)))
         (filter (\<lambda>m. isManaged (vm_meta m)) ms))
     (\<lambda>e t. since t0 (\<lambda>u. ?H u \<and> VMList ?ns (Inr ms) \<in> set u) t \<and>
       (e = None \<longrightarrow> (\<forall>m \<in> set (filter (\<lambda>m. isManaged (vm_meta m)) ms). since t0 (vm_removed (VMList (vmc_Namespace (pr_cfg p)) (Inr ms)) (vm_meta m)) t)))" for ms
  proof (rule delete_group [where A = "\<lambda>m ev. (\<exists>c d. ev = Waited c d) \<or>
        (\<exists>g. ev = VMGet (om_namespace (vm_meta m)) (om_name (vm_meta m)) g) \<or>
        (\<exists>r. ev = VMDelete (om_namespace (vm_meta m)) (om_name (vm_meta m)) r)"])
    fix m u ev assume "m \<in> set (filter (\<lambda>m. isManaged (vm_meta m)) ms)" "VMList ?ns (Inr ms) \<in> set u"
      "(\<exists>c d. ev = Waited c d) \<or> (\<exists>g. ev = VMGet (om_namespace (vm_meta m)) (om_name (vm_meta m)) g) \<or>
        (\<exists>r. ev = VMDelete (om_namespace (vm_meta m)) (om_name (vm_meta m)) r)"
    then show "listed_managed ?ns u ev" by (force simp: listed_managed_def list_ex_iff)
  qed (auto intro!: deleteVirtualMachine_removed deleteVirtualMachine_calls removed_after_step)
  show ?thesis unfolding teardownVirtualMachines_def
    apply (rule triple_bind [OF lst], rule triple_sum)
     apply (rule triple_ret, auto elim: since_imp)[1]
    apply (rule triple_conseq [OF grp])
     apply (auto elim: since_imp)
    done
qed


lemma teardown_vds:
  "triple (since t0 (history (listed_managed (vmc_Namespace (pr_cfg p))))) (teardownVirtualDisks p c)
     (\<lambda>e t. since t0 (history (listed_managed (vmc_Namespace (pr_cfg p)))) t \<and>
       (e = None \<longrightarrow> (\<exists>ms. since t0 (\<lambda>u. VDList (vmc_Namespace (pr_cfg p)) (Inr ms) \<in> set u) t \<and>
          (\<forall>m \<in> set ms. isManaged (vd_meta m) \<longrightarrow> since t0 (vd_removed (VDList (vmc_Namespace (pr_cfg p)) (Inr ms)) (vd_meta m)) t))))"
proof -
  let ?ns = "vmc_Namespace (pr_cfg p)" and ?H = "history (listed_managed (vmc_Namespace (pr_cfg p)))"
  have lst: "triple (since t0 ?H) (VD_List (pr_api p) c ?ns)
     (\<lambda>g. since t0 (\<lambda>u. ?H u \<and> (\<forall>ms. g = Inr ms \<longrightarrow> VDList ?ns (Inr ms) \<in> set u)))"
    unfolding VD_List_def by (rule triple_get_op) (auto simp: elim!: since_step)
  have grp: "triple (since t0 (\<lambda>u. ?H u \<and> VDList ?ns (Inr ms) \<in> set u)) (errgroup (pr_rt p)
       (\<lambda>m. deleteVirtualDisk p (CtxGroup c) (om_namespace (vd_meta m)) (om_name (vd_meta m)))
         (filter (\<lambda>m. isManaged (vd_meta m)) ms))
     (\<lambda>e t. since t0 (\<lambda>u. ?H u \<and> VDList ?ns (Inr ms) \<in> set u) t \<and>
       (e = None \<longrightarrow> (\<forall>m \<in> set (filter (\<lambda>m. isManaged (vd_meta m)) ms). since t0 (vd_removed (VDList (vmc_Namespace (pr_cfg p)) (Inr ms)) (vd_meta m)) t)))" for ms
  proof (rule delete_group [where A = "\<lambda>m ev. (\<exists>c d. ev = Waited c d) \<or>
        (\<exists>g. ev = VDGet (om_namespace (vd_meta m)) (om_name (vd_meta m)) g) \<or>
        (\<exists>r. ev = VDDelete (om_namespace (vd_meta m)) (om_name (vd_meta m)) r)"])
    fix m u ev assume "m \<in> set (filter (\<lambda>m. isManaged (vd_meta m)) ms)" "VDList ?ns (Inr ms) \<in> set u"
      "(\<exists>c d. ev = Waited c d) \<or> (\<exists>g. ev = VDGet (om_namespace (vd_meta m)) (om_name (vd_meta m)) g) \<or>
        (\<exists>r. ev = VDDelete (om_namespace (vd_meta m)) (om_name (vd_meta m)) r)"
    then show "listed_managed ?ns u ev" by (force simp: listed_managed_def list_ex_iff)
  qed (auto intro!: deleteVirtualDisk_removed deleteVirtualDisk_calls removed_after_step)
  show ?thesis unfolding teardownVirtualDisks_def
    apply (rule triple_bind [OF lst], rule triple_sum)
     apply (rule triple_ret, auto elim: since_imp)[1]
    apply (rule triple_conseq [OF grp])
     apply (auto elim: since_imp)
    done
qed


text \<open>
  C26. Teardown deletes nothing that it did not see labelled: every deletion names a virtual
  machine or disk that an earlier list of the configured namespace returned with the
  managed-by label, and there is no other write. When teardown succeeds, for every labelled
  machine and disk of those lists there is, in this order, the list, a deletion request that was accepted or
  answered by not found, and a read that found the object gone.
\<close>

theorem teardown_only_managed:
  assumes "Teardown p c w = Some (e, w')"
  shows "\<exists>u. tr w' = tr w @ u \<and>
    (\<forall>a ev b. u = a @ ev # b \<longrightarrow> listed_managed (vmc_Namespace (pr_cfg p)) a ev) \<and>
    (e = None \<longrightarrow> (\<exists>ms ds. VMList (vmc_Namespace (pr_cfg p)) (Inr ms) \<in> set u \<and>
       VDList (vmc_Namespace (pr_cfg p)) (Inr ds) \<in> set u \<and>
       (\<forall>m \<in> set ms. isManaged (vm_meta m) \<longrightarrow> vm_removed (VMList (vmc_Namespace (pr_cfg p)) (Inr ms)) (vm_meta m) u) \<and>
       (\<forall>d \<in> set ds. isManaged (vd_meta d) \<longrightarrow> vd_removed (VDList (vmc_Namespace (pr_cfg p)) (Inr ds)) (vd_meta d) u)))"
proof -
  let ?ns = "vmc_Namespace (pr_cfg p)" and ?H = "history (listed_managed (vmc_Namespace (pr_cfg p)))"
  let ?R = "\<lambda>t. \<exists>ms. since (tr w) (\<lambda>u. VMList ?ns (Inr ms) \<in> set u) t \<and>
          (\<forall>m \<in> set ms. isManaged (vm_meta m) \<longrightarrow> since (tr w) (vm_removed (VMList (vmc_Namespace (pr_cfg p)) (Inr ms)) (vm_meta m)) t)"
  let ?D = "\<lambda>t. \<exists>ds. since (tr w) (\<lambda>u. VDList ?ns (Inr ds) \<in> set u) t \<and>
          (\<forall>d \<in> set ds. isManaged (vd_meta d) \<longrightarrow> since (tr w) (vd_removed (VDList (vmc_Namespace (pr_cfg p)) (Inr ds)) (vd_meta d)) t)"
  have vds: "triple (\<lambda>t. since (tr w) ?H t \<and> ?R t) (teardownVirtualDisks p c)
     (\<lambda>e t. (since (tr w) ?H t \<and> (e = None \<longrightarrow> ?D t)) \<and> ?R t)"
  proof (rule triple_frame [OF teardown_vds])
    show "appends (teardownVirtualDisks p c)"
      unfolding teardownVirtualDisks_def by (intro calls_intros deleteVirtualDisk_calls TrueI)
    fix s ev assume "?R s"
    then obtain ms where "since (tr w) (\<lambda>u. VMList ?ns (Inr ms) \<in> set u) s"
      "\<forall>m \<in> set ms. isManaged (vm_meta m) \<longrightarrow> since (tr w) (vm_removed (VMList (vmc_Namespace (pr_cfg p)) (Inr ms)) (vm_meta m)) s" by blast
    then show "?R (s @ [ev])" by (intro exI [of _ ms]) (auto elim: since_step intro: since_removed_step)
  qed
  have "triple (since (tr w) ?H) (Teardown p c) (\<lambda>e t. since (tr w) ?H t \<and> (e = None \<longrightarrow> ?R t \<and> ?D t))"
    unfolding Teardown_def
    apply (rule triple_bind [OF teardown_vms], rule triple_option)
     apply (rule triple_conseq [OF vds])
      apply blast
     apply blast
    apply (rule triple_ret, blast)
    done
  from tripleD [OF this assms since_historyI] have H: "since (tr w) ?H (tr w')" and RD: "e = None \<longrightarrow> ?R (tr w') \<and> ?D (tr w')"
    by blast+
  from H obtain u where u: "tr w' = tr w @ u" "?H u" by (auto simp: since_def)
  with RD show ?thesis unfolding history_split [symmetric] by (intro exI [of _ u]) (simp add: since_def, blast)
qed

lemma sample_teardown:
  "\<exists>w'. Teardown sample_prov CtxRoot \<lparr>tr = [], est = False\<rparr> = Some (None, w') \<and>
     (\<forall>ms. VMList ''ns'' (Inr ms) \<in> set (tr w') \<longrightarrow> ms = [sample_vm]) \<and> (\<forall>ds. VDList ''ns'' (Inr ds) \<in> set (tr w') \<longrightarrow> ds = [sample_vd])"
  by (simp add: Teardown_def teardownVirtualMachines_def teardownVirtualDisks_def deleteVirtualMachine_def
      deleteVirtualDisk_def waitDeleted_def Let_def virt_ops io_simps errgroup_def errgroup_results_def arrange_def
      wait_pure_def waitForCondition_def loop_unfold poll_body_def pure_cond_def resourceDeleted_def
      isManaged_def sample_vm_def sample_vd_def sample_meta_def ManagedLabels_def)

theorem teardown_only_managed_witness:
  "\<exists>w'. Teardown sample_prov CtxRoot \<lparr>tr = [], est = False\<rparr> = Some (None, w') \<and>
     (\<forall>a n r b. tr w' = a @ VMDelete ''ns'' n r # b \<longrightarrow> listed_managed ''ns'' a (VMDelete ''ns'' n r)) \<and>
     vm_removed (VMList ''ns'' (Inr [sample_vm])) sample_meta (tr w') \<and> vd_removed (VDList ''ns'' (Inr [sample_vd])) sample_meta (tr w')"
proof -
  obtain w' where run: "Teardown sample_prov CtxRoot \<lparr>tr = [], est = False\<rparr> = Some (None, w')"
    and lists: "\<And>ms. VMList ''ns'' (Inr ms) \<in> set (tr w') \<Longrightarrow> ms = [sample_vm]" "\<And>ds. VDList ''ns'' (Inr ds) \<in> set (tr w') \<Longrightarrow> ds = [sample_vd]"
    using sample_teardown by blast
  have meta: "vm_meta sample_vm = sample_meta" "vd_meta sample_vd = sample_meta" "isManaged sample_meta"
    by (simp_all add: sample_vm_def sample_vd_def sample_meta_def)
  from teardown_only_managed [OF run] obtain ms ds where
    guard: "\<forall>a ev b. tr w' = a @ ev # b \<longrightarrow> listed_managed ''ns'' a ev"
    and l: "VMList ''ns'' (Inr ms) \<in> set (tr w')" "VDList ''ns'' (Inr ds) \<in> set (tr w')"
    and gone: "\<forall>m \<in> set ms. isManaged (vm_meta m) \<longrightarrow> vm_removed (VMList ''ns'' (Inr ms)) (vm_meta m) (tr w')"
      "\<forall>d \<in> set ds. isManaged (vd_meta d) \<longrightarrow> vd_removed (VDList ''ns'' (Inr ds)) (vd_meta d) (tr w')" by auto
  from gone lists(1) [OF l(1)] lists(2) [OF l(2)] meta
  have "vm_removed (VMList ''ns'' (Inr [sample_vm])) sample_meta (tr w')" "vd_removed (VDList ''ns'' (Inr [sample_vd])) sample_meta (tr w')"
    by simp_all
  with run guard show ?thesis by blast
qed

text \<open>
  C27. The byte size asked for a disk is the size of the definition in GiB, and sizes the
  64-bit product can hold are not changed by it; larger ones wrap, possibly to a
  negative size, and are sent to the cluster as they are.
\<close>

theorem disk_size_bounds:
  assumes "0 < n"
  shows "(n < 2 ^ 33 \<longrightarrow> gib_bytes n = n * 2 ^ 30) \<and>
    gib_bytes (2 ^ 33) = - (2 ^ 63) \<and> gib_bytes (2 ^ 34 + 5) = 5 * 2 ^ 30 \<and>
    (\<exists>vd. buildVirtualDisk qa ns name cvi sc n ls = Inr vd \<and> vd_size vd = Some (qa_new qa (gib_bytes n)))"
proof -
  have "gib_bytes n = n * 2 ^ 30" if "n < 2 ^ 33"
    unfolding gib_bytes_def int_word_sint using that assms by (simp add: bytesPerGiB_def)
  moreover have "gib_bytes (2 ^ 33) = - (2 ^ 63)" "gib_bytes (2 ^ 34 + 5) = 5 * 2 ^ 30"
    by (simp_all add: gib_bytes_def bytesPerGiB_def)
  ultimately show ?thesis using assms by (simp add: buildVirtualDisk_def)
qed

theorem disk_size_bounds_witness: "gib_bytes 20 = 20 * 2 ^ 30 \<and> gib_bytes (2 ^ 33) = - (2 ^ 63)"
  using disk_size_bounds [of 20] by simp


end
