(* ===== verification/Disks.thy ===== *)
theory Disks
  imports VM_Provision
begin

text \<open>
  Additional disks: \<^verbatim>\<open>internal/provisioning/dvp/disks.go\<close>, the interface of
  \<^verbatim>\<open>pkg/clusterprovider/disks.go\<close> and the manager of \<^verbatim>\<open>pkg/e2e/cluster.go\<close> for providers
  without disks. The locale \<open>disk_manager\<close> is the contract of the Go interface; both managers
  are instances.
\<close>

record disk_spec =
  ds_Name :: string
  ds_Size :: quantity
  ds_StorageClass :: string

record disk =
  dk_Name :: string
  dk_Size :: quantity
  dk_StorageClass :: string
  dk_Phase :: string

record 'e dvp_disk_manager =
  dm_rt :: "'e runtime"
  dm_virt :: "'e virt_api"
  dm_qa :: quantity_api
  dm_namespace :: string
  dm_defaultStorageClass :: string
  dm_pollInterval :: int

text \<open>\<^verbatim>\<open>Sign()\<close> and \<^verbatim>\<open>Cmp()\<close> of a quantity; the zero quantity prints as \<^verbatim>\<open>0\<close>.\<close>

definition q_sign :: "quantity \<Rightarrow> int" where "q_sign q = sgn (q_val q)"
definition q_cmp :: "quantity \<Rightarrow> quantity \<Rightarrow> int" where "q_cmp a b = sgn (q_val a - q_val b)"
definition q_zero :: quantity where "q_zero = \<lparr>q_val = 0, q_text = ''0''\<rparr>"

definition diskFromVirtualDisk :: "vdisk \<Rightarrow> disk" where
  "diskFromVirtualDisk vd =
     \<lparr>dk_Name = om_name (vd_meta vd),
      dk_Size = (case vd_size vd of None \<Rightarrow> q_zero | Some q \<Rightarrow> q),
      dk_StorageClass = (case vd_storageClass vd of None \<Rightarrow> [] | Some s \<Rightarrow> s),
      dk_Phase = vd_phaseText vd\<rparr>"

section \<open>Creation and deletion\<close>

definition new_disk :: "'e dvp_disk_manager \<Rightarrow> disk_spec \<Rightarrow> vdisk" where
  "new_disk m spec =
     (let sc = (if ds_StorageClass spec = [] then dm_defaultStorageClass m else ds_StorageClass spec) in
      \<lparr>vd_meta = \<lparr>om_name = ds_Name spec, om_namespace = dm_namespace m, om_labels = ManagedLabels\<rparr>,
       vd_size = Some (ds_Size spec), vd_storageClass = (if sc = [] then None else Some sc), vd_sourceCVI = None,
       vd_phase = DiskOther, vd_phaseText = [], vd_capacity = [], vd_conditions = []\<rparr>)"

definition disk_failed :: "'e dvp_disk_manager \<Rightarrow> string \<Rightarrow> vdisk \<Rightarrow> goerr" where
  "disk_failed m name got = ErrText (''VirtualDisk '' @ nn (dm_namespace m) name @ '' entered phase '' @ vd_phaseText got)"

text \<open>The condition of the wait; its variable is the disk last observed.\<close>

definition created_cond ::
  "'e dvp_disk_manager \<Rightarrow> string \<Rightarrow> vdisk option \<Rightarrow> goerr + vdisk \<Rightarrow> ('e, (goerr + bool) \<times> vdisk option) act" where
  "created_cond m name observed g =
     io_ret (case g of
       Inl _ \<Rightarrow> (Inr False, observed)
     | Inr got \<Rightarrow>
         ((case vd_phase got of
             DiskReady \<Rightarrow> Inr True
           | DiskWaitForFirstConsumer \<Rightarrow> Inr True
           | DiskOther \<Rightarrow> Inr False
           | _ \<Rightarrow> Inl (disk_failed m name got)), Some got))"

text \<open>
  The dereference of a nil pointer cannot happen here: the wait only succeeds after a disk was
  observed. The model has the case all the same.
\<close>

definition nil_deref :: goerr where
  "nil_deref = ErrText ''panic: invalid memory address or nil pointer dereference''"

definition CreateDisk :: "'e dvp_disk_manager \<Rightarrow> ctx \<Rightarrow> disk_spec \<Rightarrow> ('e, goerr + disk) act" where
  "CreateDisk m c spec =
     (let name = ds_Name spec; id = nn (dm_namespace m) name in
      if name = [] then io_ret (Inl (ErrText ''create disk: name is required''))
      else if q_sign (ds_Size spec) \<le> 0 then io_ret (Inl (ErrText (''create disk '' @ go_quote name @
        '': size must be greater than 0, got '' @ q_text (ds_Size spec))))
      else io_bind (VD_Create (dm_virt m) c (new_disk m spec)) (\<lambda>e. case e of
        Some err \<Rightarrow> io_ret (Inl (wrapf (''create VirtualDisk '' @ id @ '': '') err))
      | None \<Rightarrow> io_bind (pollObject (dm_rt m) c (dm_pollInterval m) (''VirtualDisk '' @ id @ '' ready'')
            (VD_Get (dm_virt m) c (dm_namespace m) name) (created_cond m name) None) (\<lambda>(e, observed). io_ret (case e of
          Some err \<Rightarrow> Inl err
        | None \<Rightarrow> (case observed of None \<Rightarrow> Inl nil_deref | Some vd \<Rightarrow> Inr (diskFromVirtualDisk vd))))))"

definition poll_pure ::
  "'e dvp_disk_manager \<Rightarrow> ctx \<Rightarrow> string \<Rightarrow> ('e, goerr + 'a) act \<Rightarrow> (goerr + 'a \<Rightarrow> goerr + bool) \<Rightarrow> ('e, goerr option) act" where
  "poll_pure m c what get f =
     io_bind (pollObject (dm_rt m) c (dm_pollInterval m) what get (pure_cond f) ()) (\<lambda>(e, _). io_ret e)"

definition DeleteDisk :: "'e dvp_disk_manager \<Rightarrow> ctx \<Rightarrow> string \<Rightarrow> ('e, goerr option) act" where
  "DeleteDisk m c diskName =
     (let id = nn (dm_namespace m) diskName in
      io_bind (VD_Delete (dm_virt m) c (dm_namespace m) diskName) (\<lambda>e.
        if e \<noteq> None \<and> \<not> is_reason NotFound e then io_ret (map_option (wrapf (''delete VirtualDisk '' @ id @ '': '')) e)
        else poll_pure m c (''VirtualDisk '' @ id @ '' gone'') (VD_Get (dm_virt m) c (dm_namespace m) diskName) resourceDeleted))"

section \<open>Attachment\<close>

definition new_attachment :: "'e dvp_disk_manager \<Rightarrow> string \<Rightarrow> string \<Rightarrow> vmbda" where
  "new_attachment m nodeName diskName =
     \<lparr>ba_meta = \<lparr>om_name = attachmentName diskName nodeName, om_namespace = dm_namespace m, om_labels = ManagedLabels\<rparr>,
      ba_vmName = nodeName, ba_refKind = RefVirtualDisk, ba_refName = diskName, ba_phase = AttachOther, ba_phaseText = []\<rparr>"

definition binds :: "string \<Rightarrow> string \<Rightarrow> vmbda \<Rightarrow> bool" where
  "binds nodeName diskName ba \<longleftrightarrow> ba_vmName ba = nodeName \<and> ba_refKind ba = RefVirtualDisk \<and> ba_refName ba = diskName"

definition kind_text :: "'e virt_api \<Rightarrow> ref_kind \<Rightarrow> string" where
  "kind_text api k = (case k of RefVirtualDisk \<Rightarrow> va_kindVirtualDisk api | RefOther s \<Rightarrow> s)"

definition attached_cond :: "string \<Rightarrow> goerr + vmbda \<Rightarrow> goerr + bool" where
  "attached_cond oid g =
     (case g of
        Inl _ \<Rightarrow> Inr False
      | Inr got \<Rightarrow> (case ba_phase got of
          AttachAttached \<Rightarrow> Inr True
        | AttachFailed \<Rightarrow> Inl (ErrText (''attachment '' @ oid @ '' entered phase '' @ ba_phaseText got))
        | AttachOther \<Rightarrow> Inr False))"

definition AttachDisk :: "'e dvp_disk_manager \<Rightarrow> ctx \<Rightarrow> string \<Rightarrow> string \<Rightarrow> ('e, goerr option) act" where
  "AttachDisk m c nodeName diskName =
     (let name = attachmentName diskName nodeName; id = nn (dm_namespace m) name; kind = kind_text (dm_virt m);
          wait = poll_pure m c (''attachment '' @ id @ '' attached'') (BA_Get (dm_virt m) c (dm_namespace m) name) (attached_cond id)
      in io_bind (BA_Create (dm_virt m) c (new_attachment m nodeName diskName)) (\<lambda>e. case e of
           None \<Rightarrow> wait
         | Some err \<Rightarrow>
             if \<not> has_reason AlreadyExists err
             then io_ret (Some (wrapf (''create VirtualMachineBlockDeviceAttachment '' @ id @ '': '') err))
             else io_bind (BA_Get (dm_virt m) c (dm_namespace m) name) (\<lambda>g. case g of
               Inl getErr \<Rightarrow> io_ret (Some (wrapf (''get existing VirtualMachineBlockDeviceAttachment '' @ id @ '': '') getErr))
             | Inr existing \<Rightarrow>
                 if \<not> binds nodeName diskName existing
                 then io_ret (Some (ErrText (''attachment '' @ id @ '' already exists but binds '' @
                   kind (ba_refKind existing) @ '' '' @ go_quote (ba_refName existing) @ '' to VM '' @ go_quote (ba_vmName existing) @
                   '', not '' @ kind RefVirtualDisk @ '' '' @ go_quote diskName @ '' to VM '' @ go_quote nodeName)))
                 else wait)))"

definition DetachDisk :: "'e dvp_disk_manager \<Rightarrow> ctx \<Rightarrow> string \<Rightarrow> string \<Rightarrow> ('e, goerr option) act" where
  "DetachDisk m c nodeName diskName =
     (let name = attachmentName diskName nodeName; id = nn (dm_namespace m) name in
      io_bind (BA_Delete (dm_virt m) c (dm_namespace m) name) (\<lambda>e.
        if e \<noteq> None \<and> \<not> is_reason NotFound e
        then io_ret (map_option (wrapf (''delete VirtualMachineBlockDeviceAttachment '' @ id @ '': '')) e)
        else poll_pure m c (''attachment '' @ id @ '' gone'') (BA_Get (dm_virt m) c (dm_namespace m) name) resourceDeleted))"

section \<open>Resizing\<close>

definition resizeApplied :: "quantity_api \<Rightarrow> vdisk \<Rightarrow> quantity \<Rightarrow> bool" where
  "resizeApplied qa vd newSize =
     (let by_spec = (case vd_size vd of None \<Rightarrow> False | Some sz \<Rightarrow> q_cmp sz newSize \<ge> 0) in
      if vd_capacity vd \<noteq> []
      then (case qa_parse qa (vd_capacity vd) of Inr got \<Rightarrow> q_cmp got newSize \<ge> 0 | Inl _ \<Rightarrow> by_spec)
      else by_spec)"

definition resized_cond :: "'e dvp_disk_manager \<Rightarrow> string \<Rightarrow> quantity \<Rightarrow> goerr + vdisk \<Rightarrow> goerr + bool" where
  "resized_cond m name newSize g =
     (case g of
        Inl _ \<Rightarrow> Inr False
      | Inr got \<Rightarrow> (case vd_phase got of
          DiskReady \<Rightarrow> Inr (resizeApplied (dm_qa m) got newSize)
        | DiskWaitForFirstConsumer \<Rightarrow> Inr (resizeApplied (dm_qa m) got newSize)
        | DiskOther \<Rightarrow> Inr False
        | _ \<Rightarrow> Inl (disk_failed m name got)))"

definition ResizeDisk :: "'e dvp_disk_manager \<Rightarrow> ctx \<Rightarrow> string \<Rightarrow> quantity \<Rightarrow> ('e, goerr option) act" where
  "ResizeDisk m c diskName newSize =
     (let id = nn (dm_namespace m) diskName; pre = ''resize disk '' @ go_quote diskName @ '': '';
          grow = (\<lambda>vd. io_bind (VD_Update (dm_virt m) c (vd\<lparr>vd_size := Some newSize\<rparr>)) (\<lambda>e. case e of
            Some err \<Rightarrow> io_ret (Some (wrapf (pre @ ''update VirtualDisk '' @ id @ '': '') err))
          | None \<Rightarrow> poll_pure m c (''VirtualDisk '' @ id @ '' resized to '' @ q_text newSize)
              (VD_Get (dm_virt m) c (dm_namespace m) diskName) (resized_cond m diskName newSize)))
      in if diskName = [] then io_ret (Some (ErrText ''resize disk: name is required''))
         else if q_sign newSize \<le> 0 then io_ret (Some (ErrText (pre @ ''size must be greater than 0, got '' @ q_text newSize)))
         else io_bind (VD_Get (dm_virt m) c (dm_namespace m) diskName) (\<lambda>g. case g of
           Inl err \<Rightarrow> io_ret (Some (if has_reason NotFound err then wrapf (pre @ ''VirtualDisk '' @ id @ '' not found: '') err
                                   else wrapf (pre @ ''get VirtualDisk '' @ id @ '': '') err))
         | Inr vd \<Rightarrow> (case vd_size vd of
             None \<Rightarrow> grow vd
           | Some cur \<Rightarrow>
               if q_cmp newSize cur = 0 then io_ret None
               else if q_cmp newSize cur = - 1 then io_ret (Some (ErrText (pre @ ''cannot shrink from '' @ q_text cur @
                 '' to '' @ q_text newSize @ '' (PVC expansion only grows)'')))
               else grow vd)))"

section \<open>Providers without disks\<close>

text \<open>\<^verbatim>\<open>unsupportedDiskManager\<close> of \<^verbatim>\<open>pkg/e2e/cluster.go\<close>; its value is the provider's name.\<close>

definition ErrDisksUnsupported :: goerr where
  "ErrDisksUnsupported = ErrSentinel ''cluster provider does not support disk management''"

definition unsupported_err :: "string \<Rightarrow> goerr" where
  "unsupported_err provider = wrapf (''provider '' @ go_quote provider @ '': '') ErrDisksUnsupported"

definition unsupported_CreateDisk :: "string \<Rightarrow> ctx \<Rightarrow> disk_spec \<Rightarrow> ('e, goerr + disk) act" where
  "unsupported_CreateDisk u c spec = io_ret (Inl (unsupported_err u))"

definition unsupported_DeleteDisk :: "string \<Rightarrow> ctx \<Rightarrow> string \<Rightarrow> ('e, goerr option) act" where
  "unsupported_DeleteDisk u c d = io_ret (Some (unsupported_err u))"

definition unsupported_AttachDisk :: "string \<Rightarrow> ctx \<Rightarrow> string \<Rightarrow> string \<Rightarrow> ('e, goerr option) act" where
  "unsupported_AttachDisk u c n d = io_ret (Some (unsupported_err u))"

definition unsupported_DetachDisk :: "string \<Rightarrow> ctx \<Rightarrow> string \<Rightarrow> string \<Rightarrow> ('e, goerr option) act" where
  "unsupported_DetachDisk u c n d = io_ret (Some (unsupported_err u))"

definition unsupported_ResizeDisk :: "string \<Rightarrow> ctx \<Rightarrow> string \<Rightarrow> quantity \<Rightarrow> ('e, goerr option) act" where
  "unsupported_ResizeDisk u c d q = io_ret (Some (unsupported_err u))"

section \<open>The contract of a disk manager\<close>

text \<open>
  What the interface promises: an operation that reports success has observed its target state.
  The observations of a manager \<open>m\<close> are given by \<open>usable\<close> (a disk can be attached),
  \<open>removed\<close> (it is gone), \<open>plugged\<close> and \<open>unplugged\<close> (its attachment to a node).
\<close>

locale disk_manager =
  fixes create :: "'m \<Rightarrow> ctx \<Rightarrow> disk_spec \<Rightarrow> ('e, goerr + disk) act"
    and delete :: "'m \<Rightarrow> ctx \<Rightarrow> string \<Rightarrow> ('e, goerr option) act"
    and attach :: "'m \<Rightarrow> ctx \<Rightarrow> string \<Rightarrow> string \<Rightarrow> ('e, goerr option) act"
    and detach :: "'m \<Rightarrow> ctx \<Rightarrow> string \<Rightarrow> string \<Rightarrow> ('e, goerr option) act"
    and usable :: "'m \<Rightarrow> string \<Rightarrow> disk \<Rightarrow> event \<Rightarrow> bool"
    and removed :: "'m \<Rightarrow> string \<Rightarrow> event \<Rightarrow> bool"
    and plugged :: "'m \<Rightarrow> string \<Rightarrow> string \<Rightarrow> event \<Rightarrow> bool"
    and unplugged :: "'m \<Rightarrow> string \<Rightarrow> string \<Rightarrow> event \<Rightarrow> bool"
  assumes create_observes: "triple (since t0 (\<lambda>_. True)) (create m c spec)
      (\<lambda>r t. \<forall>d. r = Inr d \<longrightarrow> since t0 (list_ex (usable m (ds_Name spec) d)) t)"
    and delete_observes: "triple (since t0 (\<lambda>_. True)) (delete m c d) (\<lambda>e t. e = None \<longrightarrow> since t0 (list_ex (removed m d)) t)"
    and attach_observes: "triple (since t0 (\<lambda>_. True)) (attach m c n d) (\<lambda>e t. e = None \<longrightarrow> since t0 (list_ex (plugged m n d)) t)"
    and detach_observes: "triple (since t0 (\<lambda>_. True)) (detach m c n d) (\<lambda>e t. e = None \<longrightarrow> since t0 (list_ex (unplugged m n d)) t)"
begin

text \<open>
  The life of a disk in a test: created, attached, detached, deleted. When all of it succeeds, each operation has observed its target state,
  and the disk that creation returned is the one it has observed.
\<close>

lemma observed_run:
  assumes "triple (since (tr w) (\<lambda>_. True)) op (\<lambda>r t. ok r \<longrightarrow> since (tr w) P t)" and "op w = Some (r, w')" and "ok r"
  shows "\<exists>u. tr w' = tr w @ u \<and> P u"
  using tripleD [OF assms(1,2) since_refl] assms(3) by (auto simp: since_def)

lemma lifecycle_observed:
  assumes "create m c spec w = Some (Inr d, w1)" and "attach m c n (ds_Name spec) w1 = Some (None, w2)"
    and "detach m c n (ds_Name spec) w2 = Some (None, w3)" and "delete m c (ds_Name spec) w3 = Some (None, w4)"
  shows "\<exists>u1 u2 u3 u4. tr w1 = tr w @ u1 \<and> list_ex (usable m (ds_Name spec) d) u1 \<and>
    tr w2 = tr w1 @ u2 \<and> list_ex (plugged m n (ds_Name spec)) u2 \<and>
    tr w3 = tr w2 @ u3 \<and> list_ex (unplugged m n (ds_Name spec)) u3 \<and>
    tr w4 = tr w3 @ u4 \<and> list_ex (removed m (ds_Name spec)) u4"
proof -
  have "\<exists>u. tr w1 = tr w @ u \<and> list_ex (usable m (ds_Name spec) d) u"
    by (rule observed_run [where ok = "\<lambda>r. r = Inr d", OF triple_post [OF create_observes] assms(1)]) auto
  moreover note observed_run [where ok = "\<lambda>e. e = None", OF attach_observes assms(2)]
    observed_run [where ok = "\<lambda>e. e = None", OF detach_observes assms(3)] observed_run [where ok = "\<lambda>e. e = None", OF delete_observes assms(4)]
  ultimately show ?thesis by blast
qed

end

section \<open>The managers keep the contract\<close>

fun disk_usable :: "string \<Rightarrow> string \<Rightarrow> disk \<Rightarrow> event \<Rightarrow> bool" where
  "disk_usable ns name d (VDGet ns' n (Inr vd)) \<longleftrightarrow> ns' = ns \<and> n = name \<and>
     (vd_phase vd = DiskReady \<or> vd_phase vd = DiskWaitForFirstConsumer) \<and> d = diskFromVirtualDisk vd"
| "disk_usable ns name d ev \<longleftrightarrow> False"

fun disk_gone :: "string \<Rightarrow> string \<Rightarrow> event \<Rightarrow> bool" where
  "disk_gone ns name (VDGet ns' n (Inl e)) \<longleftrightarrow> ns' = ns \<and> n = name \<and> has_reason NotFound e"
| "disk_gone ns name ev \<longleftrightarrow> False"

fun attachment_seen :: "string \<Rightarrow> string \<Rightarrow> event \<Rightarrow> bool" where
  "attachment_seen ns name (BAGet ns' n (Inr ba)) \<longleftrightarrow> ns' = ns \<and> n = name \<and> ba_phase ba = AttachAttached"
| "attachment_seen ns name ev \<longleftrightarrow> False"

fun attachment_gone :: "string \<Rightarrow> string \<Rightarrow> event \<Rightarrow> bool" where
  "attachment_gone ns name (BAGet ns' n (Inl e)) \<longleftrightarrow> ns' = ns \<and> n = name \<and> has_reason NotFound e"
| "attachment_gone ns name ev \<longleftrightarrow> False"

lemma poll_pure_triple:
  assumes get: "triple I get (\<lambda>g t. I t \<and> (f g = Inr True \<longrightarrow> Q t))"
    and wait: "\<And>t. I t \<Longrightarrow> I (t @ [Waited c (dm_pollInterval m)])"
  shows "triple I (poll_pure m c what get f) (\<lambda>e t. I t \<and> (e = None \<longrightarrow> Q t))"
  unfolding poll_pure_def
proof (rule triple_bind)
  show "triple I (pollObject (dm_rt m) c (dm_pollInterval m) what get (pure_cond f) ())
     (\<lambda>x t. if fst x = None then I t \<and> Q t else I t)"
    by (rule poll_object.poll_triple [where I = "\<lambda>_. I" and J = "\<lambda>_ g t. I t \<and> (f g = Inr True \<longrightarrow> Q t)"
          and K = "\<lambda>_. I" and Q = "\<lambda>_ t. I t \<and> Q t"])
      (auto simp: pure_cond_def wait intro!: get triple_ret split: sum.splits)
qed (intro triple_intros triple_ret, auto split: if_splits)

lemma only_calls_poll_pure [calls_intros]:
  "only_calls P get \<Longrightarrow> P (Waited c (dm_pollInterval m)) \<Longrightarrow> only_calls P (poll_pure m c what get f)"
  unfolding poll_pure_def
  by (intro calls_intros poll_object.calls) (simp_all add: pure_cond_def only_calls_ret)

text \<open>A poll that succeeds has seen what its condition looks for.\<close>

lemma poll_sees:
  assumes "\<And>r. f (wrap_left pre r) = Inr True \<Longrightarrow> P (ev r)"
  shows "triple (since t0 (\<lambda>_. True)) (poll_pure m c what (get_op pre ev g) f) (\<lambda>e t. e = None \<longrightarrow> since t0 (list_ex P) t)"
proof -
  have "triple (since t0 (\<lambda>_. True)) (get_op pre ev g)
      (\<lambda>r t. since t0 (\<lambda>_. True) t \<and> (f r = Inr True \<longrightarrow> since t0 (list_ex P) t))"
    by (rule triple_get_op) (auto intro!: since_ex_now assms)
  from poll_pure_triple [OF this] show ?thesis by (rule triple_post) auto
qed

lemma op_any: "appends op \<Longrightarrow> triple (since t0 (\<lambda>_. True)) op (\<lambda>_. since t0 (\<lambda>_. True))"
  by (erule triple_keeps) simp

lemma attached_cond_True: "attached_cond i g = Inr True \<longleftrightarrow> (\<exists>ba. g = Inr ba \<and> ba_phase ba = AttachAttached)"
  by (auto simp: attached_cond_def split: sum.splits attach_phase.splits)

lemma DeleteDisk_observes:
  "triple (since t0 (\<lambda>_. True)) (DeleteDisk m c d) (\<lambda>e t. e = None \<longrightarrow> since t0 (list_ex (disk_gone (dm_namespace m) d)) t)"
  unfolding DeleteDisk_def Let_def VD_Get_def
  apply (rule triple_bind, rule op_any, intro calls_intros TrueI)
  apply (intro triple_intros triple_ret poll_sees)
   apply (auto simp: resourceDeleted_True)
  done

lemma DetachDisk_observes:
  "triple (since t0 (\<lambda>_. True)) (DetachDisk m c n d)
     (\<lambda>e t. e = None \<longrightarrow> since t0 (list_ex (attachment_gone (dm_namespace m) (attachmentName d n))) t)"
  unfolding DetachDisk_def Let_def BA_Get_def
  apply (rule triple_bind, rule op_any, intro calls_intros TrueI)
  apply (intro triple_intros triple_ret poll_sees)
   apply (auto simp: resourceDeleted_True)
  done

lemma AttachDisk_observes:
  "triple (since t0 (\<lambda>_. True)) (AttachDisk m c n d)
     (\<lambda>e t. e = None \<longrightarrow> since t0 (list_ex (attachment_seen (dm_namespace m) (attachmentName d n))) t)"
proof -
  have wait: "triple (since t0 (\<lambda>_. True)) (poll_pure m c what (BA_Get (dm_virt m) c (dm_namespace m) (attachmentName d n)) (attached_cond i))
     (\<lambda>e t. e = None \<longrightarrow> since t0 (list_ex (attachment_seen (dm_namespace m) (attachmentName d n))) t)" for what i
    unfolding BA_Get_def by (rule poll_sees) (auto simp: attached_cond_True)
  show ?thesis unfolding AttachDisk_def Let_def
    apply (rule triple_bind, rule op_any, intro calls_intros TrueI)
    apply (rule triple_option, rule wait)
    apply (rule triple_if, rule triple_ret, simp)
    apply (rule triple_bind, rule op_any, intro calls_intros TrueI)
    apply (intro triple_intros wait triple_ret)
     apply simp_all
    done
qed

lemma CreateDisk_observes:
  "triple (since t0 (\<lambda>_. True)) (CreateDisk m c spec)
     (\<lambda>r t. \<forall>d. r = Inr d \<longrightarrow> since t0 (list_ex (disk_usable (dm_namespace m) (ds_Name spec) d)) t)"
proof -
  let ?name = "ds_Name spec" and ?ns = "dm_namespace m"
  let ?ok = "\<lambda>o' t. \<exists>vd. o' = Some vd \<and> since t0 (list_ex (disk_usable ?ns ?name (diskFromVirtualDisk vd))) t"
  let ?J = "\<lambda>(g :: goerr + vdisk) t. since t0 (\<lambda>_. True) t \<and> (\<forall>vd. g = Inr vd \<longrightarrow>
      vd_phase vd = DiskReady \<or> vd_phase vd = DiskWaitForFirstConsumer \<longrightarrow> ?ok (Some vd) t)"
  have get: "triple (since t0 (\<lambda>_. True)) (VD_Get (dm_virt m) c ?ns ?name) ?J"
    unfolding VD_Get_def by (rule triple_get_op) (auto intro!: since_ex_now)
  have cond: "triple (?J g) (created_cond m ?name s g)
      (\<lambda>y t. case fst y of Inl e \<Rightarrow> since t0 (\<lambda>_. True) t | Inr b \<Rightarrow> if b then ?ok (snd y) t else since t0 (\<lambda>_. True) t)" for s g
    unfolding created_cond_def by (rule triple_ret) (auto split: sum.splits disk_phase.splits)
  have "triple (since t0 (\<lambda>_. True)) (pollObject (dm_rt m) c (dm_pollInterval m) what
      (VD_Get (dm_virt m) c ?ns ?name) (created_cond m ?name) None)
     (\<lambda>x t. if fst x = None then ?ok (snd x) t else since t0 (\<lambda>_. True) t)" for what
    by (rule poll_object.poll_triple [where I = "\<lambda>_. since t0 (\<lambda>_. True)" and J = "\<lambda>_. ?J", OF get cond]) simp_all
  then show ?thesis unfolding CreateDisk_def Let_def
    apply (intro triple_intros triple_ret)
      apply (simp_all)[2]
    apply (rule triple_bind, rule op_any, intro calls_intros TrueI)
    apply (rule triple_option, rule triple_bind, assumption)
     apply (intro triple_intros triple_ret, auto split: if_splits option.splits)
    apply (rule triple_ret, simp)
    done
qed

interpretation dvp_disks: disk_manager CreateDisk DeleteDisk AttachDisk DetachDisk
  "\<lambda>m. disk_usable (dm_namespace m)" "\<lambda>m. disk_gone (dm_namespace m)"
  "\<lambda>m n d. attachment_seen (dm_namespace m) (attachmentName d n)"
  "\<lambda>m n d. attachment_gone (dm_namespace m) (attachmentName d n)"
  by unfold_locales (rule CreateDisk_observes DeleteDisk_observes AttachDisk_observes DetachDisk_observes)+

interpretation no_disks: disk_manager unsupported_CreateDisk unsupported_DeleteDisk unsupported_AttachDisk unsupported_DetachDisk
  "\<lambda>_ _ _ _. False" "\<lambda>_ _ _. False" "\<lambda>_ _ _ _. False" "\<lambda>_ _ _ _. False"
  by unfold_locales (auto simp: unsupported_CreateDisk_def unsupported_DeleteDisk_def unsupported_AttachDisk_def
      unsupported_DetachDisk_def intro!: triple_ret)


section \<open>Properties\<close>

text \<open>
  Attaching never adopts a foreign attachment: a successful attach asked to create the
  attachment of exactly this disk to this node, and either created it or found one of its
  name that binds this disk to this node; and afterwards it saw the attachment attached.
\<close>

lemma attach_adopts_only_own:
  assumes "AttachDisk m c n d w = Some (None, w')"
  shows "\<exists>r v. tr w' = tr w @ BACreate (new_attachment m n d) r # v \<and>
     (r = None \<or> is_reason AlreadyExists r \<and>
        (\<exists>ba v'. v = BAGet (dm_namespace m) (attachmentName d n) (Inr ba) # v' \<and> binds n d ba)) \<and>
     list_ex (attachment_seen (dm_namespace m) (attachmentName d n)) v"
proof -
  let ?name = "attachmentName d n" and ?new = "BACreate (new_attachment m n d)"
  let ?G = "\<lambda>t. \<exists>r v. t = tr w @ ?new r # v \<and> (r = None \<or> is_reason AlreadyExists r \<and>
        (\<exists>ba v'. v = BAGet (dm_namespace m) ?name (Inr ba) # v' \<and> binds n d ba)) \<and>
     list_ex (attachment_seen (dm_namespace m) ?name) v"
  have wait: "triple (\<lambda>t. t = t1) (poll_pure m c what (BA_Get (dm_virt m) c (dm_namespace m) ?name) (attached_cond i))
     (\<lambda>e t. e = None \<longrightarrow> since t1 (list_ex (attachment_seen (dm_namespace m) ?name)) t)" for t1 what i
    unfolding BA_Get_def
    by (rule triple_pre [OF poll_sees]) (auto simp: attached_cond_True since_refl)
  have direct: "triple (\<lambda>t. t = tr w @ [?new None])
      (poll_pure m c what (BA_Get (dm_virt m) c (dm_namespace m) ?name) (attached_cond i)) (\<lambda>e t. e = None \<longrightarrow> ?G t)" for what i
    by (rule triple_post [OF wait]) (fastforce simp: since_def)
  have adopted: "triple (\<lambda>t. t = (tr w @ [?new r]) @ [BAGet (dm_namespace m) ?name (Inr ba)])
      (poll_pure m c what (BA_Get (dm_virt m) c (dm_namespace m) ?name) (attached_cond i)) (\<lambda>e t. e = None \<longrightarrow> ?G t)"
    if "is_reason AlreadyExists r" "binds n d ba" for what i r ba
    by (rule triple_post [OF wait]) (use that in \<open>fastforce simp: since_def\<close>)
  have look: "triple (\<lambda>t. \<exists>r. is_reason AlreadyExists r \<and> t = tr w @ [?new r]) (BA_Get (dm_virt m) c (dm_namespace m) ?name)
     (\<lambda>g t. \<forall>ba. g = Inr ba \<longrightarrow> (\<exists>r. is_reason AlreadyExists r \<and>
        t = (tr w @ [?new r]) @ [BAGet (dm_namespace m) ?name (Inr ba)]))"
    unfolding BA_Get_def by (rule triple_get_op) auto
  have adopt: "triple (\<lambda>t. \<forall>ba. g = Inr ba \<longrightarrow> (\<exists>r. is_reason AlreadyExists r \<and>
        t = (tr w @ [?new r]) @ [BAGet (dm_namespace m) ?name (Inr ba)]))
     (case g of Inl e \<Rightarrow> io_ret (Some (f e)) | Inr ex \<Rightarrow> if \<not> binds n d ex then io_ret (Some (h ex)) else
        poll_pure m c what (BA_Get (dm_virt m) c (dm_namespace m) ?name) (attached_cond i)) (\<lambda>e t. e = None \<longrightarrow> ?G t)" for g f h what i
    using tripleD [OF adopted] by (intro triple_intros triple_ret) (simp_all, rule tripleI, blast)
  have "triple (\<lambda>t. t = tr w) (AttachDisk m c n d) (\<lambda>e t. e = None \<longrightarrow> ?G t)"
    unfolding AttachDisk_def Let_def
  proof (rule triple_bind)
    show "triple (\<lambda>t. t = tr w) (BA_Create (dm_virt m) c (new_attachment m n d))
       (\<lambda>e t. (e = None \<longrightarrow> t = tr w @ [?new None]) \<and>
         (is_reason AlreadyExists e \<longrightarrow> (\<exists>r. is_reason AlreadyExists r \<and> t = tr w @ [?new r])))"
      unfolding BA_Create_def by (rule triple_put_op) (auto split: option.splits)
  qed (intro triple_intros triple_ret triple_pre [OF direct] triple_bind [OF triple_pre [OF look]] adopt; simp)
  from tripleD [OF this assms] show ?thesis by simp
qed


text \<open>What each operation asks for first.\<close>

lemma poll_appends: "poll_pure m c what (get_op pre ev g) f w = Some (e, w') \<Longrightarrow> \<exists>v. tr w' = tr w @ v"
  by (drule only_callsD [where P = "\<lambda>_. True", rotated]) (auto intro!: calls_intros)

lemma create_asks:
  assumes "CreateDisk m c spec w = Some (Inr d, w')"
  shows "\<exists>v. tr w' = tr w @ VDCreate (new_disk m spec) None # v"
proof -
  let ?w = "\<lambda>s. w\<lparr>tr := tr w @ [VDCreate (new_disk m spec) None], est := s\<rparr>"
  let ?poll = "pollObject (dm_rt m) c (dm_pollInterval m) (''VirtualDisk '' @ nn (dm_namespace m) (ds_Name spec) @ '' ready'')
    (VD_Get (dm_virt m) c (dm_namespace m) (ds_Name spec)) (created_cond m (ds_Name spec)) None"
  from assms obtain s r where run: "?poll (?w s) = Some (r, w')"
    by (auto simp: CreateDisk_def Let_def VD_Create_def io_simps split: if_splits option.splits prod.splits)
  have "appends ?poll" unfolding VD_Get_def by (intro calls_intros poll_object.calls TrueI) (simp add: created_cond_def only_calls_ret)
  from only_callsD [OF this run] show ?thesis by auto
qed

lemma delete_asks:
  assumes "DeleteDisk m c d w = Some (None, w')"
  shows "\<exists>r v. tr w' = tr w @ VDDelete (dm_namespace m) d r # v \<and> (r = None \<or> is_reason NotFound r)"
  using assms
  by (auto simp: DeleteDisk_def Let_def VD_Delete_def VD_Get_def io_simps dest!: poll_appends split: if_splits option.splits)

lemma detach_asks:
  assumes "DetachDisk m c n d w = Some (e, w')"
  shows "\<exists>r v. tr w' = tr w @ BADelete (dm_namespace m) (attachmentName d n) r # v \<and> (e = None \<longrightarrow> r = None \<or> is_reason NotFound r)"
  using assms
  by (auto simp: DetachDisk_def Let_def BA_Delete_def BA_Get_def io_simps dest!: poll_appends split: if_splits option.splits)

text \<open>
  C28. A disk's life in a test: when creation, attachment, detachment and deletion succeed one
  after the other, then creation asked for the disk of the specification and afterwards read it Ready (or waiting for its
  first consumer), and what it returned describes the disk of that read; attaching asked for the attachment of this disk to this node,
  created it or found one that binds just them, and read it attached; detaching deleted the attachment and read it as gone; and
  deletion deleted the disk and read it as gone. A deletion may be answered by not found.
\<close>

theorem disk_lifecycle:
  assumes "CreateDisk m c spec w = Some (Inr d, w1)" and "AttachDisk m c n (ds_Name spec) w1 = Some (None, w2)"
    and "DetachDisk m c n (ds_Name spec) w2 = Some (None, w3)" and "DeleteDisk m c (ds_Name spec) w3 = Some (None, w4)"
  shows "(\<exists>v. tr w1 = tr w @ VDCreate (new_disk m spec) None # v \<and> list_ex (disk_usable (dm_namespace m) (ds_Name spec) d) v) \<and>
    (\<exists>r v. tr w2 = tr w1 @ BACreate (new_attachment m n (ds_Name spec)) r # v \<and>
       (r = None \<or> is_reason AlreadyExists r \<and> (\<exists>ba v'. v = BAGet (dm_namespace m) (attachmentName (ds_Name spec) n) (Inr ba) # v' \<and>
          binds n (ds_Name spec) ba)) \<and>
       list_ex (attachment_seen (dm_namespace m) (attachmentName (ds_Name spec) n)) v) \<and>
    (\<exists>r v. tr w3 = tr w2 @ BADelete (dm_namespace m) (attachmentName (ds_Name spec) n) r # v \<and> (r = None \<or> is_reason NotFound r) \<and>
       list_ex (attachment_gone (dm_namespace m) (attachmentName (ds_Name spec) n)) v) \<and>
    (\<exists>r v. tr w4 = tr w3 @ VDDelete (dm_namespace m) (ds_Name spec) r # v \<and> (r = None \<or> is_reason NotFound r) \<and>
       list_ex (disk_gone (dm_namespace m) (ds_Name spec)) v)"
  using dvp_disks.lifecycle_observed [OF assms] create_asks [OF assms(1)] attach_adopts_only_own [OF assms(2)]
    detach_asks [OF assms(3)] delete_asks [OF assms(4)]
  by (intro conjI) fastforce+

definition sample_manager :: "bool dvp_disk_manager" where
  "sample_manager = \<lparr>dm_rt = sample_rt, dm_virt = sample_virt, dm_qa = pr_qa sample_prov, dm_namespace = ''ns'',
     dm_defaultStorageClass = [], dm_pollInterval = second\<rparr>"

definition sample_spec :: disk_spec where
  "sample_spec = \<lparr>ds_Name = ''data'', ds_Size = \<lparr>q_val = 5, q_text = ''5n''\<rparr>, ds_StorageClass = []\<rparr>"

lemma sample_manager_sels [simp]:
  "dm_rt sample_manager = sample_rt" "dm_virt sample_manager = sample_virt" "dm_namespace sample_manager = ''ns''"
  "dm_pollInterval sample_manager = second"
  by (simp_all add: sample_manager_def)

lemma sample_create_ok: "ko_create (sample_kind x) c y s = (None, s)"
  by (simp add: sample_kind_def)

lemmas sample_poll = poll_pure_def pollObject_def loop_unfold poll_body_def pure_cond_def io_simps virt_ops Let_def
  sample_create_ok

lemma sample_cycle:
  "\<exists>d w1 w2 w3 w4. CreateDisk sample_manager CtxRoot sample_spec \<lparr>tr = [], est = False\<rparr> = Some (Inr d, w1) \<and>
     AttachDisk sample_manager CtxRoot ''m'' (ds_Name sample_spec) w1 = Some (None, w2) \<and>
     DetachDisk sample_manager CtxRoot ''m'' (ds_Name sample_spec) w2 = Some (None, w3) \<and>
     DeleteDisk sample_manager CtxRoot (ds_Name sample_spec) w3 = Some (None, w4)"
  by (simp add: CreateDisk_def AttachDisk_def DetachDisk_def DeleteDisk_def sample_poll sample_spec_def q_sign_def
      created_cond_def attached_cond_def resourceDeleted_def sample_vd_def sample_ba_def)

theorem disk_lifecycle_witness:
  "\<exists>d w1 w2 w3 w4. CreateDisk sample_manager CtxRoot sample_spec \<lparr>tr = [], est = False\<rparr> = Some (Inr d, w1) \<and>
     AttachDisk sample_manager CtxRoot ''m'' (ds_Name sample_spec) w1 = Some (None, w2) \<and>
     DetachDisk sample_manager CtxRoot ''m'' (ds_Name sample_spec) w2 = Some (None, w3) \<and>
     DeleteDisk sample_manager CtxRoot (ds_Name sample_spec) w3 = Some (None, w4) \<and>
     (\<exists>v. tr w1 = VDCreate (new_disk sample_manager sample_spec) None # v \<and> list_ex (disk_usable ''ns'' ''data'' d) v) \<and>
     (\<exists>r v. tr w4 = tr w3 @ VDDelete ''ns'' ''data'' r # v \<and> list_ex (disk_gone ''ns'' ''data'') v)"
proof -
  obtain d w1 w2 w3 w4 where run: "CreateDisk sample_manager CtxRoot sample_spec \<lparr>tr = [], est = False\<rparr> = Some (Inr d, w1)"
    "AttachDisk sample_manager CtxRoot ''m'' (ds_Name sample_spec) w1 = Some (None, w2)"
    "DetachDisk sample_manager CtxRoot ''m'' (ds_Name sample_spec) w2 = Some (None, w3)"
    "DeleteDisk sample_manager CtxRoot (ds_Name sample_spec) w3 = Some (None, w4)"
    using sample_cycle by blast
  have name: "ds_Name sample_spec = ''data''" by (simp add: sample_spec_def)
  from disk_lifecycle [OF run] run show ?thesis unfolding name by auto
qed

fun resize_seen :: "'e dvp_disk_manager \<Rightarrow> string \<Rightarrow> quantity \<Rightarrow> event \<Rightarrow> bool" where
  "resize_seen m name newSize (VDGet ns n (Inr vd)) \<longleftrightarrow> ns = dm_namespace m \<and> n = name \<and>
     (vd_phase vd = DiskReady \<or> vd_phase vd = DiskWaitForFirstConsumer) \<and> resizeApplied (dm_qa m) vd newSize"
| "resize_seen m name newSize ev \<longleftrightarrow> False"

lemma resized_cond_True:
  "resized_cond m name q g = Inr True \<longleftrightarrow> (\<exists>vd. g = Inr vd \<and>
     (vd_phase vd = DiskReady \<or> vd_phase vd = DiskWaitForFirstConsumer) \<and> resizeApplied (dm_qa m) vd q)"
  by (auto simp: resized_cond_def split: sum.splits disk_phase.splits)

lemma sgn_grows: "a \<noteq> b \<Longrightarrow> sgn (a - b) \<noteq> - 1 \<Longrightarrow> b < a" for a b :: int
  by (auto simp: sgn_if split: if_splits)

definition resize_log :: "'e dvp_disk_manager \<Rightarrow> string \<Rightarrow> quantity \<Rightarrow> goerr option \<Rightarrow> event list \<Rightarrow> bool" where
  "resize_log m name newSize e u \<longleftrightarrow>
    (\<forall>vd r. VDUpdate vd r \<in> set u \<longrightarrow> (\<exists>old v. u = VDGet (dm_namespace m) name (Inr old) # v \<and>
       vd = old\<lparr>vd_size := Some newSize\<rparr> \<and> (\<forall>cur. vd_size old = Some cur \<longrightarrow> q_val cur < q_val newSize))) \<and>
    (e = None \<longrightarrow> (\<exists>old cur. u = [VDGet (dm_namespace m) name (Inr old)] \<and> vd_size old = Some cur \<and> q_val cur = q_val newSize) \<or>
       list_ex (resize_seen m name newSize) u)"

lemma resize_wait:
  assumes old: "\<forall>cur. vd_size old = Some cur \<longrightarrow> q_val cur < q_val newSize"
  shows "triple (\<lambda>t. t = t0 @ [VDGet (dm_namespace m) name (Inr old), VDUpdate (old\<lparr>vd_size := Some newSize\<rparr>) None])
    (poll_pure m c what (VD_Get (dm_virt m) c (dm_namespace m) name) (resized_cond m name newSize))
    (\<lambda>e. since t0 (resize_log m name newSize e))"
proof (rule tripleI)
  let ?poll = "poll_pure m c what (VD_Get (dm_virt m) c (dm_namespace m) name) (resized_cond m name newSize)"
  let ?two = "[VDGet (dm_namespace m) name (Inr old), VDUpdate (old\<lparr>vd_size := Some newSize\<rparr>) None]"
  fix w r w' assume w: "tr w = t0 @ ?two" and run: "?poll w = Some (r, w')"
  have "only_calls (\<lambda>ev. \<forall>vd r. ev \<noteq> VDUpdate vd r) ?poll" by (intro calls_intros) simp_all
  from only_callsD [OF this run] obtain v where v: "tr w' = tr w @ v" "list_all (\<lambda>ev. \<forall>vd r. ev \<noteq> VDUpdate vd r) v" by blast
  have "triple (since (tr w) (\<lambda>_. True)) ?poll (\<lambda>e t. e = None \<longrightarrow> since (tr w) (list_ex (resize_seen m name newSize)) t)"
    unfolding VD_Get_def by (rule poll_sees) (auto simp: resized_cond_True)
  from tripleD [OF this run since_refl] v(1) have "r = None \<longrightarrow> list_ex (resize_seen m name newSize) v" by (auto simp: since_def)
  with v old w show "since t0 (resize_log m name newSize r) (tr w')" unfolding since_def resize_log_def
    by (intro exI [of _ "?two @ v"]) (auto simp: list_all_iff)
qed

lemma resize_grow:
  assumes old: "\<forall>cur. vd_size old = Some cur \<longrightarrow> q_val cur < q_val newSize"
  shows "triple (\<lambda>t. t = t0 @ [VDGet (dm_namespace m) name (Inr old)])
      (io_bind (VD_Update (dm_virt m) c (old\<lparr>vd_size := Some newSize\<rparr>)) (\<lambda>e. case e of
         Some err \<Rightarrow> io_ret (Some (f err))
       | None \<Rightarrow> poll_pure m c what (VD_Get (dm_virt m) c (dm_namespace m) name) (resized_cond m name newSize)))
      (\<lambda>e. since t0 (resize_log m name newSize e))"
proof (rule triple_bind)
  let ?log = "\<lambda>r. [VDGet (dm_namespace m) name (Inr old), VDUpdate (old\<lparr>vd_size := Some newSize\<rparr>) r]"
  show "triple (\<lambda>t. t = t0 @ [VDGet (dm_namespace m) name (Inr old)]) (VD_Update (dm_virt m) c (old\<lparr>vd_size := Some newSize\<rparr>))
      (\<lambda>e t. (e = None \<longrightarrow> t = t0 @ ?log None) \<and> (\<exists>r. t = t0 @ ?log r))"
    unfolding VD_Update_def by (rule triple_put_op) auto
  fix e
  show "triple (\<lambda>t. (e = None \<longrightarrow> t = t0 @ ?log None) \<and> (\<exists>r. t = t0 @ ?log r))
      (case e of Some err \<Rightarrow> io_ret (Some (f err))
       | None \<Rightarrow> poll_pure m c what (VD_Get (dm_virt m) c (dm_namespace m) name) (resized_cond m name newSize))
      (\<lambda>e. since t0 (resize_log m name newSize e))"
    by (intro triple_intros triple_pre [OF resize_wait [OF old]] triple_ret)
      (use old in \<open>auto simp: since_def resize_log_def\<close>)
qed

text \<open>
  Resizing never shrinks: an update is sent only for the disk just read, changes nothing
  but its size, and only to a size larger than the one read (or where none was set). On
  success the disk read already had the asked size, or a later read of it, in phase Ready
  or WaitForFirstConsumer, shows at least that size.
\<close>

lemma resize_never_shrinks:
  assumes "ResizeDisk m c name newSize w = Some (e, w')"
  shows "\<exists>u. tr w' = tr w @ u \<and>
    (\<forall>vd r. VDUpdate vd r \<in> set u \<longrightarrow> (\<exists>old v. u = VDGet (dm_namespace m) name (Inr old) # v \<and>
       vd = old\<lparr>vd_size := Some newSize\<rparr> \<and> (\<forall>cur. vd_size old = Some cur \<longrightarrow> q_val cur < q_val newSize))) \<and>
    (e = None \<longrightarrow> (\<exists>old cur. u = [VDGet (dm_namespace m) name (Inr old)] \<and> vd_size old = Some cur \<and> q_val cur = q_val newSize) \<or>
       list_ex (resize_seen m name newSize) u)"
proof -
  let ?log = "\<lambda>e. since (tr w) (resize_log m name newSize e)"
  let ?read = "\<lambda>g t. (\<forall>old. g = Inr old \<longrightarrow> t = tr w @ [VDGet (dm_namespace m) name (Inr old)]) \<and>
      (\<exists>h. t = tr w @ [VDGet (dm_namespace m) name h])"
  have get: "triple (\<lambda>t. t = tr w) (VD_Get (dm_virt m) c (dm_namespace m) name) ?read"
    unfolding VD_Get_def by (rule triple_get_op) auto
  have step: "triple (?read g) (k g) ?log"
    if k: "\<And>err. \<exists>x. k (Inl err) = io_ret (Some x)"
      and k': "\<And>old. triple (\<lambda>t. t = tr w @ [VDGet (dm_namespace m) name (Inr old)]) (k (Inr old)) ?log"
    for g and k :: "goerr + vdisk \<Rightarrow> ('a, goerr option) act"
  proof (cases g)
    case (Inl err)
    with k [of err] show ?thesis by (auto intro!: triple_ret simp: since_def resize_log_def)
  next
    case (Inr old)
    show ?thesis unfolding Inr by (rule triple_pre [OF k']) simp
  qed
  have "triple (\<lambda>t. t = tr w) (ResizeDisk m c name newSize) ?log"
    unfolding ResizeDisk_def Let_def
    apply (intro triple_if)
      apply (rule triple_ret, simp add: since_def resize_log_def)
     apply (rule triple_ret, simp add: since_def resize_log_def)
    apply (rule triple_bind [OF get], rule step)
     apply (simp, blast)
    apply (simp only: sum.case, intro triple_intros resize_grow triple_ret)
       apply (auto simp: since_def resize_log_def q_cmp_def sgn_0_0 intro: sgn_grows)
    done
  from tripleD [OF this assms] show ?thesis by (auto simp: since_def resize_log_def)
qed

text \<open>
  C29. Detaching goes by the attachment's name alone. The disk \<open>x-y\<close> on the node \<open>z\<close> and the disk \<open>x\<close> on the node \<open>y-z\<close> have attachments
  of the same name (unless it is so long that it is hashed), so whatever is attached, detaching the first pair first asks to delete the attachment
  that attaching the second pair creates, which does not bind the first pair, and it succeeds only when that one was read as gone.
\<close>

theorem detach_by_name_only:
  assumes "length x + length y + length z \<le> 61" and run: "DetachDisk m c z (x @ ''-'' @ y) w = Some (e, w')"
  shows "let other = new_attachment m (y @ ''-'' @ z) x in \<not> binds z (x @ ''-'' @ y) other \<and>
    (\<exists>r v. tr w' = tr w @ BADelete (om_namespace (ba_meta other)) (om_name (ba_meta other)) r # v \<and>
       (e = None \<longrightarrow> list_ex (attachment_gone (om_namespace (ba_meta other)) (om_name (ba_meta other))) v))"
proof -
  have name: "attachmentName (x @ ''-'' @ y) z = attachmentName x (y @ ''-'' @ z)" by (simp add: attachmentName_def)
  have "\<exists>u. tr w' = tr w @ u \<and> list_ex (attachment_gone (dm_namespace m) (attachmentName (x @ ''-'' @ y) z)) u" if "e = None"
    by (rule dvp_disks.observed_run [where ok = "\<lambda>e. e = None", OF dvp_disks.detach_observes run that])
  with detach_asks [OF run] show ?thesis unfolding name Let_def new_attachment_def binds_def by fastforce
qed

text \<open>A cluster that keeps attachments by their names.\<close>

definition store_ba :: "(string \<rightharpoonup> vmbda, vmbda) kind_ops" where
  "store_ba = \<lparr>ko_get = (\<lambda>c ns n s. (case s n of None \<Rightarrow> Inl not_found | Some ba \<Rightarrow> Inr ba, s)), ko_list = (\<lambda>c ns s. (Inr [], s)),
     ko_create = (\<lambda>c ba s. (None, s(om_name (ba_meta ba) \<mapsto> ba\<lparr>ba_phase := AttachAttached\<rparr>))), ko_update = (\<lambda>c x s. (None, s)),
     ko_delete = (\<lambda>c ns n s. (None, s(n := None)))\<rparr>"

definition none_kind :: "'o \<Rightarrow> ('e, 'o) kind_ops" where
  "none_kind obj = \<lparr>ko_get = (\<lambda>c ns n s. (Inl not_found, s)), ko_list = (\<lambda>c ns s. (Inr [], s)),
     ko_create = (\<lambda>c x s. (None, s)), ko_update = (\<lambda>c x s. (None, s)), ko_delete = (\<lambda>c ns n s. (None, s))\<rparr>"

definition store_manager :: "(string \<rightharpoonup> vmbda) dvp_disk_manager" where
  "store_manager = \<lparr>dm_rt = sample_rt, dm_virt = \<lparr>va_addV2 = None, va_addV3 = None, va_new = (\<lambda>s. (None, s)), va_vm = none_kind sample_vm,
     va_vd = none_kind sample_vd, va_cvi = none_kind sample_cvi, va_class = none_kind sample_class, va_ba = store_ba, va_readyType = ''Ready'',
     va_kindVirtualDisk = ''VirtualDisk''\<rparr>, dm_qa = pr_qa sample_prov, dm_namespace = ''ns'', dm_defaultStorageClass = [], dm_pollInterval = second\<rparr>"

text \<open>The disk \<^verbatim>\<open>data\<close> is attached to the node \<^verbatim>\<open>1-worker\<close>; detaching \<^verbatim>\<open>data-1\<close> from \<^verbatim>\<open>worker\<close> removes that attachment.\<close>

theorem detach_by_name_only_witness:
  "\<exists>w1 w2 ba v. AttachDisk store_manager CtxRoot ''1-worker'' ''data'' \<lparr>tr = [], est = Map.empty\<rparr> = Some (None, w1) \<and>
     est w1 ''data-1-worker'' = Some ba \<and> binds ''1-worker'' ''data'' ba \<and> \<not> binds ''worker'' ''data-1'' ba \<and>
     DetachDisk store_manager CtxRoot ''worker'' ''data-1'' w1 = Some (None, w2) \<and> est w2 ''data-1-worker'' = None \<and>
     tr w2 = tr w1 @ BADelete ''ns'' ''data-1-worker'' None # v \<and> list_ex (attachment_gone ''ns'' ''data-1-worker'') v"
proof -
  note defs = sample_poll store_manager_def store_ba_def attached_cond_def resourceDeleted_def new_attachment_def attachmentName_def
    attachmentNameMaxLen_def binds_def
  obtain w1 ba where attach: "AttachDisk store_manager CtxRoot ''1-worker'' ''data'' \<lparr>tr = [], est = Map.empty\<rparr> = Some (None, w1)"
    "est w1 ''data-1-worker'' = Some ba" "binds ''1-worker'' ''data'' ba"
    by (simp add: AttachDisk_def defs)
  obtain w2 v where detach: "DetachDisk store_manager CtxRoot ''worker'' ''data-1'' w1 = Some (None, w2)" "est w2 ''data-1-worker'' = None"
    "tr w2 = tr w1 @ BADelete ''ns'' ''data-1-worker'' None # v"
    by (simp add: DetachDisk_def defs)
  have "list_ex (attachment_gone ''ns'' ''data-1-worker'') v"
    using detach_by_name_only [of "''data''" "''1''" "''worker''" store_manager CtxRoot w1 None w2] detach(1,3)
    by (simp add: store_manager_def new_attachment_def attachmentName_def attachmentNameMaxLen_def)
  with attach detach show ?thesis by (auto simp: binds_def)
qed

end
