(* ===== verification/Provider.thy ===== *)
theory Provider
  imports Connector Disks
begin

text \<open>
  The DVP provider: \<^verbatim>\<open>internal/provisioning/dvp/provider.go\<close>, \<^verbatim>\<open>deps.go\<close>, \<^verbatim>\<open>connect_test_cluster.go\<close> and
  \<^verbatim>\<open>virt.go\<close>. This is where the components meet: the provider loads the definition, connects to the base
  cluster, provisions machines, bootstraps the first master, joins the nodes, enables the modules, and
  tears everything down again.
\<close>

section \<open>The provider\<close>

definition ModuleCheckTimeout :: int where "ModuleCheckTimeout = 60 * second"
definition NamespaceTimeout :: int where "NamespaceTimeout = 30 * second"
definition NodeGroupTimeout :: int where "NodeGroupTimeout = 4 * minute"
definition ClusterCleanupTimeout :: int where "ClusterCleanupTimeout = 10 * minute"
definition vmProvisionPollInterval :: int where "vmProvisionPollInterval = 5 * second"

text \<open>
  The provider with its default dependencies. Reading and parsing the definition, the YAML encoder,
  the key library, the quantity parser and \<^verbatim>\<open>wait.PollUntilContextCancel\<close> are parameters.
\<close>

record ('e, 'a, 'c, 'k) provider =
  dp_rt :: "'e runtime"
  dp_connector :: "('e, 'a, 'c) connector"
  dp_readFile :: "string \<Rightarrow> goerr + string"
  dp_parse :: "string \<Rightarrow> goerr + yaml_doc"
  dp_lookupEnv :: "string \<Rightarrow> string option"
  dp_yaml :: yaml_lib
  dp_tmpl :: template
  dp_keys :: "'k key_lib"
  dp_qa :: quantity_api
  dp_poll :: "'e poll_lib"
  dp_cfg :: cluster_config

abbreviation dp_conf :: "('e, 'a, 'c, 'k) provider \<Rightarrow> dvp_config" where "dp_conf p \<equiv> cn_conf (dp_connector p)"
abbreviation dp_creds :: "('e, 'a, 'c, 'k) provider \<Rightarrow> credentials" where "dp_creds p \<equiv> cn_creds (dp_connector p)"
abbreviation dp_api :: "('e, 'a, 'c, 'k) provider \<Rightarrow> 'c rest_config \<Rightarrow> 'e kube_api" where "dp_api p \<equiv> cn_api (dp_connector p)"

definition NewDVPProvider ::
  "((string \<rightharpoonup> string) \<Rightarrow> goerr + dvp_config) \<Rightarrow> (string \<rightharpoonup> string) \<Rightarrow> os_env \<Rightarrow> ('e, 'a, 'c, 'k) provider
   \<Rightarrow> goerr + ('e, 'a, 'c, 'k) provider" where
  "NewDVPProvider parse environ os base =
     (case LoadConfig parse environ of Inl e \<Rightarrow> Inl e
      | Inr dvpConf \<Rightarrow> (case Resolve os dvpConf of Inl e \<Rightarrow> Inl (wrapf ''resolving credentials: '' e)
          | Inr creds \<Rightarrow> Inr (base\<lparr>dp_connector := (dp_connector base)\<lparr>cn_conf := dvpConf, cn_creds := creds\<rparr>\<rparr>)))"

definition dhctl_deps_of :: "('e, 'a, 'c, 'k) provider \<Rightarrow> ('e, 'c) dhctl_deps" where
  "dhctl_deps_of p = \<lparr>dd_rt = dp_rt p, dd_vmExecutor = VMExecutor (dp_connector p), dd_connectToMaster = connectToMaster (dp_connector p),
     dd_api = dp_api p, dd_yaml = dp_yaml p, dd_tmpl = dp_tmpl p, dd_conf = dp_conf p, dd_creds = dp_creds p\<rparr>"

section \<open>Operations on a cluster\<close>

definition CheckReachable :: "'e runtime \<Rightarrow> 'e kube_api \<Rightarrow> ctx \<Rightarrow> ('e, goerr option) act" where
  "CheckReachable rt api c = io_bind (NewClientsetWithRetry rt api c) (\<lambda>e.
     io_ret (map_option (wrapf ''cluster connectivity check failed: '') e))"

definition WaitModuleReady :: "'e runtime \<Rightarrow> 'e kube_api \<Rightarrow> ctx \<Rightarrow> string \<Rightarrow> int \<Rightarrow> ('e, goerr option) act" where
  "WaitModuleReady rt api c modName timeout = io_bind (WaitForModuleReady rt (ka_deckhouse api) c modName timeout) (\<lambda>e.
     io_ret (map_option (wrapf (modName @ '' module not ready: '')) e))"

definition EnsureNamespace :: "'e runtime \<Rightarrow> 'e kube_api \<Rightarrow> ctx \<Rightarrow> string \<Rightarrow> ('e, goerr option) act" where
  "EnsureNamespace rt api c namespace = io_bind (CreateNamespaceIfNotExists rt api c namespace) (\<lambda>e.
     io_ret (map_option (wrapf (''ensure namespace '' @ go_quote namespace @ '': '')) e))"

definition kube_DeleteNamespace :: "'e runtime \<Rightarrow> 'e poll_lib \<Rightarrow> 'e kube_api \<Rightarrow> ctx \<Rightarrow> string \<Rightarrow> ('e, goerr option) act" where
  "kube_DeleteNamespace rt poll api c namespace = io_bind (DeleteNamespace rt poll api c namespace) (\<lambda>e.
     io_ret (map_option (wrapf (''delete namespace '' @ go_quote namespace @ '': '')) e))"

definition provisionerConfig :: "dvp_config \<Rightarrow> string \<Rightarrow> vm_config" where
  "provisionerConfig conf sshPublicKey =
     \<lparr>vmc_Namespace = dvp_Namespace conf, vmc_StorageClass = dvp_StorageClass conf, vmc_SSHPublicKey = sshPublicKey,
      vmc_VMClassName = dvp_VMClassName conf, vmc_DefaultVMClassName = dvp_DefaultVMClassName conf,
      vmc_Timeouts = \<lparr>PollInterval = vmProvisionPollInterval, ClusterVirtualImageReadyTimeout = ClusterVirtualImageReadinessTimeout,
        VMClassReadyTimeout = VirtualMachineClassReadinessTimeout, VMRunningTimeout = VMsRunningTimeout,
        DeleteTimeout = ClusterCleanupTimeout\<rparr>\<rparr>"

definition fleet_New :: "('e, 'a, 'c, 'k) provider \<Rightarrow> ctx \<Rightarrow> 'c rest_config \<Rightarrow> string \<Rightarrow> ('e, goerr + 'e provisioner) act" where
  "fleet_New p c kube sshPublicKey =
     io_bind (virt_NewClient (dp_rt p) (ka_virt (dp_api p kube)) c) (\<lambda>e. io_ret (case e of
       Some err \<Rightarrow> Inl (wrapf ''create virtualization client: '' err)
     | None \<Rightarrow> Inr \<lparr>pr_rt = dp_rt p, pr_api = ka_virt (dp_api p kube), pr_qa = dp_qa p, pr_cfg = provisionerConfig (dp_conf p) sshPublicKey\<rparr>))"

definition virt_New :: "('e, 'a, 'c, 'k) provider \<Rightarrow> ctx \<Rightarrow> 'c rest_config \<Rightarrow> ('e, goerr + 'e virt_api) act" where
  "virt_New p c kube =
     io_bind (virt_NewClient (dp_rt p) (ka_virt (dp_api p kube)) c) (\<lambda>e. io_ret (case e of
       Some err \<Rightarrow> Inl (wrapf ''create virtualization client: '' err) | None \<Rightarrow> Inr (ka_virt (dp_api p kube))))"

section \<open>Bootstrap\<close>

definition dp_LoadClusterDefinition :: "('e, 'a, 'c, 'k) provider \<Rightarrow> goerr + cluster_definition" where
  "dp_LoadClusterDefinition p =
     LoadClusterDefinition (dp_readFile p) (dp_parse p) (dp_lookupEnv p) (cc_ClusterBootstrapConfigPath (dp_cfg p))"

text \<open>\<^verbatim>\<open>if err := step; err != nil { return nil, nil, wrap(err) }\<close>.\<close>

definition do_step :: "('e, goerr option) act \<Rightarrow> (goerr \<Rightarrow> goerr) \<Rightarrow> ('e, goerr + 'x) act \<Rightarrow> ('e, goerr + 'x) act" where
  "do_step m wrap k = io_bind m (\<lambda>e. case e of Some err \<Rightarrow> io_ret (Inl (wrap err)) | None \<Rightarrow> k)"

text \<open>The end of \<^verbatim>\<open>provision\<close>: the setup node answers over SSH and runs Docker.\<close>

definition wait_setup_node :: "('e, 'a, 'c, 'k) provider \<Rightarrow> ctx \<Rightarrow> string \<Rightarrow> ('e, goerr option) act" where
  "wait_setup_node p c setupIP =
     io_bind (VMExecutor (dp_connector p) c setupIP) (\<lambda>r. case r of
       Inl e \<Rightarrow> io_ret (Some (wrapf ''setup node ssh not ready: '' e))
     | Inr (exec, closeExec) \<Rightarrow>
         io_bind (io_finally (waitDockerReady (dp_rt p) exec c dockerReadyPoll dockerReadyTimeout) closeExec) (\<lambda>e.
           io_ret (map_option (wrapf ''setup node docker not ready: '') e)))"

text \<open>The part of \<^verbatim>\<open>provision\<close> after the connection to the base cluster is open.\<close>

definition provision_on ::
  "('e, 'a, 'c, 'k) provider \<Rightarrow> ctx \<Rightarrow> cluster_definition \<Rightarrow> string \<Rightarrow> 'c rest_config
   \<Rightarrow> ('e, goerr + (cluster_definition \<times> 'e provisioner)) act" where
  "provision_on p c clusterDef sshPublicKey kube =
     (let rt = dp_rt p; api = dp_api p kube; ns = dvp_Namespace (dp_conf p) in
      do_step (CheckReachable rt api c) (\<lambda>e. e)
       (do_step (WaitModuleReady rt api c ''virtualization'' ModuleCheckTimeout) (\<lambda>e. e)
         (do_step (EnsureNamespace rt api (CtxTimeout c NamespaceTimeout) ns) (\<lambda>e. e)
           (io_bind (fleet_New p c kube sshPublicKey) (\<lambda>f. case f of
             Inl e \<Rightarrow> io_ret (Inl e)
           | Inr fleet \<Rightarrow>
               let def = (case Setup clusterDef of None \<Rightarrow> clusterDef\<lparr>Setup := Some DefaultSetupVM\<rparr> | Some _ \<Rightarrow> clusterDef) in
               io_bind (Provision fleet c def) (\<lambda>(e, def'). case e of
                 Some err \<Rightarrow> io_ret (Inl (wrapf ''provision virtual machines: '' err))
               | None \<Rightarrow>
                   do_step (wait_setup_node p c (case Setup def' of None \<Rightarrow> [] | Some n \<Rightarrow> IPAddress n)) (\<lambda>e. e)
                     (io_ret (Inr (def', fleet)))))))))"

text \<open>\<^verbatim>\<open>provision\<close> with the clean-up functions it has pushed.\<close>

definition provision ::
  "('e, 'a, 'c, 'k) provider \<Rightarrow> ctx \<Rightarrow> ('e, (goerr + (cluster_definition \<times> 'e provisioner)) \<times> ('e, unit) act list) act" where
  "provision p c =
     (case dp_LoadClusterDefinition p of
        Inl e \<Rightarrow> io_ret (Inl (wrapf ''load cluster bootstrap config: '' e), [])
      | Inr clusterDef \<Rightarrow>
     (case publicKeyFromPrivateKey (dp_keys p) (cred_SSHKey (dp_creds p)) (SSHPassphrase (dp_conf p)) of
        Inl e \<Rightarrow> io_ret (Inl (wrapf ''derive ssh public key: '' e), [])
      | Inr sshPublicKey \<Rightarrow>
     io_bind (Connect (dp_connector p) c) (\<lambda>r. case r of
        Inl e \<Rightarrow> io_ret (Inl e, [])
      | Inr (kube, baseCleanup) \<Rightarrow> io_bind (provision_on p c clusterDef sshPublicKey kube) (\<lambda>x. io_ret (x, [baseCleanup])))))"

definition deleteSetupNode :: "ctx \<Rightarrow> 'e provisioner \<Rightarrow> cluster_definition \<Rightarrow> ('e, unit) act" where
  "deleteSetupNode c fleet def =
     (case Setup def of None \<Rightarrow> io_ret ()
      | Some n \<Rightarrow> io_bind (DeleteNode fleet c (Hostname n)) (\<lambda>_. io_ret ()))"

definition then_step :: "('e, goerr option) act \<Rightarrow> string \<Rightarrow> ('e, goerr option) act \<Rightarrow> ('e, goerr option) act" where
  "then_step m what k = io_bind m (\<lambda>e. case e of Some err \<Rightarrow> io_ret (Some (wrapf what err)) | None \<Rightarrow> k)"

text \<open>The part of \<^verbatim>\<open>installDeckhouse\<close> that talks to the new master.\<close>

definition install_on :: "('e, 'a, 'c, 'k) provider \<Rightarrow> ctx \<Rightarrow> cluster_definition \<Rightarrow> 'c rest_config \<Rightarrow> ('e, goerr option) act" where
  "install_on p c def target =
     (let rt = dp_rt p; api = dp_api p target in
      then_step (CreateStaticNodeGroup rt api (CtxTimeout c NodeGroupTimeout) workerNodeGroupName) ''create worker nodegroup: ''
       (then_step (waitBootstrapSecrets rt api c SecretsWaitTimeout) ''wait bootstrap secrets: ''
         (then_step (waitClusterHealthy rt api c ClusterHealthTimeout) ''cluster health check: ''
           (then_step (joinNodes rt (VMExecutor (dp_connector p)) api c def) ''join nodes: ''
             (then_step (waitNodesReady rt api c def NodesReadyTimeout) ''wait nodes ready: ''
               (then_step (enableModules rt (ka_deckhouse api) c def) ''enable modules: '' (io_ret None)))))))"

definition installDeckhouse ::
  "('e, 'a, 'c, 'k) provider \<Rightarrow> ctx \<Rightarrow> 'e provisioner \<Rightarrow> cluster_definition \<Rightarrow> ('e, unit) act list
   \<Rightarrow> ('e, goerr option \<times> ('e, unit) act list) act" where
  "installDeckhouse p c fleet def cleanups =
     (case firstMasterVMIP (Some def) of
        Inl e \<Rightarrow> io_ret (Some (wrapf ''install: '' e), cleanups)
      | Inr firstMasterIP \<Rightarrow>
     io_bind (dhctlBootstrap (dhctl_deps_of p) c def) (\<lambda>e. case e of
        Some err \<Rightarrow> io_ret (Some (wrapf ''dhctl bootstrap: '' err), cleanups)
      | None \<Rightarrow>
     io_bind (deleteSetupNode c fleet def) (\<lambda>_.
     io_bind (connectToMaster (dp_connector p) c firstMasterIP) (\<lambda>r. case r of
        Inl e \<Rightarrow> io_ret (Some (wrapf (''connect to master '' @ firstMasterIP @ '': '') e), cleanups)
      | Inr (target, masterCleanup) \<Rightarrow>
          io_bind (install_on p c def target) (\<lambda>e. io_ret (e, cleanups @ [masterCleanup]))))))"

definition Bootstrap :: "('e, 'a, 'c, 'k) provider \<Rightarrow> ctx \<Rightarrow> ('e, goerr option) act" where
  "Bootstrap p c =
     (case ValidateForBootstrap (dp_conf p) of
        Some e \<Rightarrow> io_ret (Some (wrapf ''bootstrap config validation: '' e))
      | None \<Rightarrow> io_bind (provision p c) (\<lambda>(r, cleanups). case r of
          Inl e \<Rightarrow> io_bind (runCleanups cleanups) (\<lambda>_. io_ret (Some e))
        | Inr (clusterDef, fleet) \<Rightarrow> io_bind (installDeckhouse p c fleet clusterDef cleanups) (\<lambda>(e, cleanups').
            io_bind (runCleanups cleanups') (\<lambda>_. io_ret e))))"

section \<open>Removal\<close>

definition remove_on :: "('e, 'a, 'c, 'k) provider \<Rightarrow> ctx \<Rightarrow> 'c rest_config \<Rightarrow> ('e, goerr option) act" where
  "remove_on p c kube =
     io_bind (fleet_New p c kube []) (\<lambda>f. case f of
       Inl e \<Rightarrow> io_ret (Some e)
     | Inr fleet \<Rightarrow> then_step (Teardown fleet c) ''teardown virtual machines: ''
         (kube_DeleteNamespace (dp_rt p) (dp_poll p) (dp_api p kube) (CtxTimeout c NamespaceTimeout) (dvp_Namespace (dp_conf p))))"

definition Remove :: "('e, 'a, 'c, 'k) provider \<Rightarrow> ctx \<Rightarrow> ('e, goerr option) act" where
  "Remove p c =
     io_bind (Connect (dp_connector p) c) (\<lambda>r. case r of
       Inl e \<Rightarrow> io_ret (Some e)
     | Inr (kube, cleanup) \<Rightarrow> io_finally (remove_on p c kube) cleanup)"

section \<open>Connecting to the test cluster\<close>

record ('e, 'c) test_cluster =
  tc_RESTConfig :: "'c rest_config"
  tc_Exec :: "ctx \<Rightarrow> string \<Rightarrow> string \<Rightarrow> ('e, exec_result \<times> goerr option) act"
  tc_Disks :: "'e dvp_disk_manager"

definition ConnectTestCluster ::
  "('e, 'a, 'c, 'k) provider \<Rightarrow> ctx \<Rightarrow> ('e, goerr + (('e, 'c) test_cluster \<times> ('e, unit) act)) act" where
  "ConnectTestCluster p c0 =
     (let c = CtxWithoutCancel c0; ns = dvp_Namespace (dp_conf p) in
      case dp_LoadClusterDefinition p of
        Inl e \<Rightarrow> io_ret (Inl (wrapf ''load cluster bootstrap config: '' e))
      | Inr clusterDef \<Rightarrow>
      (case Masters clusterDef of
        [] \<Rightarrow> io_ret (Inl (ErrText ''cluster definition declares no master nodes''))
      | master # _ \<Rightarrow>
      io_bind (Connect (dp_connector p) c) (\<lambda>r. case r of
        Inl e \<Rightarrow> io_ret (Inl (wrapf ''connect to DVP base cluster: '' e))
      | Inr (baseKube, baseCleanup) \<Rightarrow>
      io_bind (virt_New p c baseKube) (\<lambda>v. case v of
        Inl e \<Rightarrow> io_bind (runCleanups [baseCleanup]) (\<lambda>_. io_ret (Inl (wrapf ''create virtualization client: '' e)))
      | Inr vc \<Rightarrow>
      io_bind (vmIP_Resolve vc ns c (Hostname master)) (\<lambda>m. case m of
        Inl e \<Rightarrow> io_bind (runCleanups [baseCleanup]) (\<lambda>_. io_ret (Inl (wrapf ''resolve first master VM: '' e)))
      | Inr masterIP \<Rightarrow>
      io_bind (connectToMaster (dp_connector p) c masterIP) (\<lambda>t. case t of
        Inl e \<Rightarrow> io_bind (runCleanups [baseCleanup]) (\<lambda>_. io_ret (Inl (wrapf (''connect to master '' @ masterIP @ '': '') e)))
      | Inr (target, masterCleanup) \<Rightarrow> io_ret (Inr (
          \<lparr>tc_RESTConfig = target, tc_Exec = node_Exec (dp_connector p) vc ns,
           tc_Disks = \<lparr>dm_rt = dp_rt p, dm_virt = vc, dm_qa = dp_qa p, dm_namespace = ns,
             dm_defaultStorageClass = dvp_StorageClass (dp_conf p), dm_pollInterval = vmProvisionPollInterval\<rparr>\<rparr>,
          runCleanups [baseCleanup, masterCleanup]))))))))"

section \<open>No connection is lost\<close>

lemma provision_quiet: "only_calls quiet (Provision fleet c def)"
  unfolding Provision_def provisionClusterVirtualImages_def provisionDisksAndVMs_def waitRunningAndCollectIPs_def
    provisionVMClass_def waitVMClassReady_def provisionImage_def createDiskAndVM_def waitRunning_def running_cond_def
    warnOnDiskFailure_def Let_def
  by (intro calls_intros class_creator.calls cvi_creator.calls vd_creator.calls vm_creator.calls wait_condition.calls) simp_all

lemma delete_quiet: "only_calls quiet (DeleteNode fleet c host)" "only_calls quiet (Teardown fleet c)"
  unfolding DeleteNode_def Teardown_def teardownVirtualMachines_def teardownVirtualDisks_def
  by (intro calls_intros deleteVirtualMachine_calls deleteVirtualDisk_calls; simp)+

lemma module_quiet: "only_calls quiet (WaitForModuleReady rt api c n timeout)"
  unfolding WaitForModuleReady_def module_ready_def GetModule_def Let_def by (intro calls_intros; simp)

lemma enable_quiet: "only_calls quiet (enableModules rt api c def)"
proof -
  have "only_calls quiet (applier_apply rt api c mc repo)" for c mc repo
    unfolding applier_apply_def upsertModuleConfig_def upsertModulePullOverride_def GetModuleConfig_def CreateModuleConfig_def
      UpdateModuleConfig_def GetModulePullOverride_def CreateModulePullOverride_def UpdateModulePullOverride_def Let_def
    by (intro calls_intros; simp)
  then have "only_calls quiet (enable_levels rt (applier_apply rt api) (applier_waitReady rt api) c repo t i ls)" for repo t i ls
    by (induction ls arbitrary: i) (auto intro!: calls_intros module_quiet simp: applier_waitReady_def)
  then show ?thesis
    unfolding enableModules_def enableModulesInLevels_def by (intro calls_intros)
qed

lemma waits_quiet:
  "only_calls quiet (waitBootstrapSecrets rt api c timeout)" "only_calls quiet (waitClusterHealthy rt api c timeout)"
  "only_calls quiet (waitNodesReady rt api c def timeout)"
proof -
  have "only_calls quiet (secrets_present api c names)" for names by (induction names) (auto intro!: calls_intros)
  then show "only_calls quiet (waitBootstrapSecrets rt api c timeout)" "only_calls quiet (waitClusterHealthy rt api c timeout)"
    "only_calls quiet (waitNodesReady rt api c def timeout)"
    unfolding waitBootstrapSecrets_def waitBootstrapSecretsClient_def waitClusterHealthy_def waitClusterHealthyClient_def
      waitNodesReady_def waitNodesReadyClient_def checkHealthClient_def
    by (intro calls_intros; simp)+
qed

lemma docker_quiet: "session_on ip exec close \<Longrightarrow> only_calls quiet (waitDockerReady rt exec c poll timeout)"
  unfolding waitDockerReady_def docker_body_def by (intro calls_intros session_quiet; simp)

lemma kube_ops_quiet:
  "only_calls quiet (CheckReachable rt api c)" "only_calls quiet (WaitModuleReady rt api c n timeout)"
  "only_calls quiet (EnsureNamespace rt api c ns)" "only_calls quiet (fleet_New p c kube key)" "only_calls quiet (virt_New p c kube)"
  unfolding CheckReachable_def WaitModuleReady_def EnsureNamespace_def CreateNamespaceIfNotExists_def fleet_New_def virt_New_def
  by (intro calls_intros module_quiet; simp)+

definition stacked :: "(string \<Rightarrow> int) \<Rightarrow> ('e, unit) act list \<Rightarrow> event list \<Rightarrow> bool" where
  "stacked opn cls t \<longleftrightarrow> (\<exists>d. held opn d t \<and> releases d (runCleanups cls))"

lemma runCleanups_snoc: "runCleanups (cls @ [cl]) = io_bind cl (\<lambda>_. runCleanups cls)"
  by (simp add: runCleanups_def)

lemma stacked_Nil: "opens t = opn \<Longrightarrow> stacked opn [] t"
  unfolding stacked_def by (intro exI [of _ "\<lambda>_. 0"]) (simp add: runCleanups_def releases_zero only_calls_ret)

lemma stacked_push: "stacked opn cls t \<Longrightarrow> held (opens t) d t' \<Longrightarrow> releases d cl \<Longrightarrow> stacked opn (cls @ [cl]) t'"
proof -
  assume "stacked opn cls t" and t': "held (opens t) d t'" and cl: "releases d cl"
  then obtain d0 where d0: "held opn d0 t" "releases d0 (runCleanups cls)" by (auto simp: stacked_def)
  have "releases (\<lambda>n. d n + d0 n) (runCleanups (cls @ [cl]))"
    unfolding runCleanups_snoc by (rule releases_seq [OF cl d0(2)])
  moreover have "held opn (\<lambda>n. d n + d0 n) t'" using t' d0(1) by (simp add: fun_eq_iff)
  ultimately show ?thesis by (auto simp: stacked_def intro!: exI [of _ "\<lambda>n. d n + d0 n"])
qed

lemma stacked_keep: "balanced m \<Longrightarrow> triple (stacked opn cls) m (\<lambda>_. stacked opn cls)"
proof (rule tripleI)
  fix w r w'
  assume "balanced m" "stacked opn cls (tr w)" "m w = Some (r, w')"
  with balancedD [of m w r w'] show "stacked opn cls (tr w')" by (auto simp: stacked_def)
qed

lemma stacked_run: "triple (stacked opn cls) (runCleanups cls) (\<lambda>_ t. opens t = opn)"
proof (rule tripleI)
  fix w r w' assume "stacked opn cls (tr w)" and run: "runCleanups cls w = Some (r, w')"
  then obtain d where d: "held opn d (tr w)" "releases d (runCleanups cls)" by (auto simp: stacked_def)
  from tripleD [OF releasesD [OF d(2)] run d(1)] show "opens (tr w') = opn" .
qed

lemma stacked_acquire:
  assumes "acquires m"
  shows "triple (stacked opn cls) m (\<lambda>r. case r of Inl _ \<Rightarrow> stacked opn cls | Inr (x, cl) \<Rightarrow> stacked opn (cls @ [cl]))"
proof (rule tripleI)
  fix w r w' assume st: "stacked opn cls (tr w)" and run: "m w = Some (r, w')"
  have t: "triple (\<lambda>t. opens t = opens (tr w)) m (acquired (opens (tr w)))" using assms by (simp add: acquires_def)
  have acq: "acquired (opens (tr w)) r (tr w')" by (rule tripleD [OF t run]) simp
  show "(case r of Inl _ \<Rightarrow> stacked opn cls | Inr (x, cl) \<Rightarrow> stacked opn (cls @ [cl])) (tr w')"
  proof (cases r)
    case (Inl e)
    with acq st show ?thesis by (simp add: stacked_def)
  next
    case (Inr s)
    then show ?thesis using acq by (cases s) (auto intro: stacked_push [OF st])
  qed
qed

lemma do_step_balanced: "balanced m \<Longrightarrow> balanced k \<Longrightarrow> balanced (do_step m wrap k)"
  unfolding do_step_def by (intro balanced_intros)

lemma then_step_balanced: "balanced m \<Longrightarrow> balanced k \<Longrightarrow> balanced (then_step m what k)"
  unfolding then_step_def by (intro balanced_intros)

lemma wait_setup_balanced: "balanced (wait_setup_node p c ip)"
  unfolding wait_setup_node_def
  by (intro vm_conn.session_bracket balanced_ret balanced_quiet docker_quiet)

lemma provision_on_balanced: "balanced (provision_on p c def key kube)"
  unfolding provision_on_def Let_def
  by (intro do_step_balanced balanced_intros wait_setup_balanced balanced_quiet kube_ops_quiet provision_quiet)

lemma provider_join_balanced: "balanced (joinNodes rt (VMExecutor cn) api c def)"
  by (intro allI vm_conn.joinNodes_balanced)

lemma install_on_balanced: "balanced (install_on p c def target)"
  unfolding install_on_def Let_def
  by (intro then_step_balanced balanced_ret provider_join_balanced balanced_quiet node_group_quiet waits_quiet enable_quiet)

lemma dhctl_balanced: "balanced (dhctlBootstrap (dhctl_deps_of p) c def)"
  by (rule master_conn.dhctl_bootstrap_balanced) (simp_all add: dhctl_deps_of_def)

lemma provision_stacked: "triple (\<lambda>t. opens t = opn) (provision p c) (\<lambda>(r, cls). stacked opn cls)"
proof -
  note connect = triple_pre [OF stacked_acquire [OF Connect_acquires, of opn "[]" "dp_connector p" c] stacked_Nil]
  have on: "triple (stacked opn [cl]) (io_bind (provision_on p c def key kube) (\<lambda>x. io_ret (x, [cl]))) (\<lambda>(r, cls). stacked opn cls)"
    for cl def key kube by (rule triple_bind [OF stacked_keep [OF provision_on_balanced]], rule triple_ret) simp
  show ?thesis
    unfolding provision_def
    by (intro triple_sum triple_bind [OF connect] triple_ret) (auto simp: stacked_Nil intro!: on triple_ret split: prod.splits)
qed

lemma install_stacked:
  "triple (stacked opn cls) (installDeckhouse p c fleet def cls) (\<lambda>(e, cls'). stacked opn cls')"
proof -
  have del: "balanced (deleteSetupNode c fleet def)"
    unfolding deleteSetupNode_def by (intro balanced_intros balanced_quiet delete_quiet)
  have on: "triple (stacked opn cls) (io_bind (install_on p c def target) (\<lambda>e. io_ret (e, cls))) (\<lambda>(e, cls'). stacked opn cls')" for target cls
    by (rule triple_bind [OF stacked_keep [OF install_on_balanced]], rule triple_ret) simp
  have rest: "triple (stacked opn cls) (io_bind (connectToMaster (dp_connector p) c ip) (\<lambda>r. case r of
        Inl e \<Rightarrow> io_ret (wrap e, cls)
      | Inr (target, masterCleanup) \<Rightarrow> io_bind (install_on p c def target) (\<lambda>e. io_ret (e, cls @ [masterCleanup]))))
      (\<lambda>(e, cls'). stacked opn cls')" for ip wrap
    by (rule triple_bind [OF stacked_acquire [OF connectToMaster_acquires]], rule triple_sum)
      (auto intro!: on triple_ret split: prod.splits)
  show ?thesis
    unfolding installDeckhouse_def
    by (intro triple_sum triple_option triple_ret rest triple_bind [OF stacked_keep [OF dhctl_balanced]] triple_bind [OF stacked_keep [OF del]])
      simp_all
qed

lemma bootstrap_balanced: "balanced (Bootstrap p c)"
proof
  fix opn :: "string \<Rightarrow> int"
  have closed: "triple (stacked opn cls) (io_bind (runCleanups cls) (\<lambda>_. io_ret e)) (\<lambda>_ t. opens t = opn)" for cls :: "('a, unit) act list" and e
    by (rule triple_bind [OF stacked_run], rule triple_ret)
  have install: "triple (stacked opn cls) (io_bind (installDeckhouse p c fleet def cls) (\<lambda>(e, cls').
      io_bind (runCleanups cls') (\<lambda>_. io_ret e))) (\<lambda>_ t. opens t = opn)" for fleet def cls
    by (rule triple_bind [OF install_stacked], rule triple_prod) (auto intro: closed)
  show "triple (\<lambda>t. opens t = opn) (Bootstrap p c) (\<lambda>_ t. opens t = opn)"
    unfolding Bootstrap_def
    by (intro triple_option triple_ret triple_bind [OF provision_stacked] triple_prod triple_sum) (auto intro: closed install)
qed

lemma poll_lib_okD:
  assumes "poll_lib_ok poll" and "triple I cond (\<lambda>r t. case r of Inl _ \<Rightarrow> K t | Inr b \<Rightarrow> if b then Q t else I t)"
    and "\<And>t. I t \<Longrightarrow> I (t @ [Waited c d])" and "\<And>t. I t \<Longrightarrow> K t"
  shows "triple I (poll c d cond) (\<lambda>e t. if e = None then Q t else K t)"
  using assms unfolding poll_lib_ok_def by blast

lemma delete_namespace_balanced: "poll_lib_ok poll \<Longrightarrow> balanced (kube_DeleteNamespace rt poll api c ns)"
proof -
  assume ok: "poll_lib_ok poll"
  have "balanced (poll c' d (namespace_gone_cond api c ns))" for c' d
  proof
    fix opn :: "string \<Rightarrow> int"
    have "only_calls quiet (namespace_gone_cond api c ns)"
      unfolding namespace_gone_cond_def by (intro calls_intros; simp)
    then have "triple (\<lambda>t. opens t = opn) (namespace_gone_cond api c ns) (\<lambda>r t. case r of Inl _ \<Rightarrow> opens t = opn
        | Inr b \<Rightarrow> if b then opens t = opn else opens t = opn)"
      by (intro triple_post [OF triple_quiet]) (auto split: sum.splits)
    then have "triple (\<lambda>t. opens t = opn) (poll c' d (namespace_gone_cond api c ns)) (\<lambda>e t. if e = None then opens t = opn else opens t = opn)"
      by (rule poll_lib_okD [OF ok]) simp_all
    then show "triple (\<lambda>t. opens t = opn) (poll c' d (namespace_gone_cond api c ns)) (\<lambda>_ t. opens t = opn)" by simp
  qed
  then show ?thesis
    unfolding kube_DeleteNamespace_def DeleteNamespace_def
    by (intro balanced_bind balanced_option balanced_if balanced_ret) (auto intro!: triple_quiet calls_intros)
qed

lemma remove_balanced: "poll_lib_ok (dp_poll p) \<Longrightarrow> balanced (Remove p c)"
proof
  fix opn :: "string \<Rightarrow> int"
  assume ok: "poll_lib_ok (dp_poll p)"
  have "balanced (remove_on p c kube)" for kube
    unfolding remove_on_def
    by (intro balanced_intros then_step_balanced delete_namespace_balanced [OF ok] balanced_quiet kube_ops_quiet delete_quiet)
  then show "triple (\<lambda>t. opens t = opn) (Remove p c) (\<lambda>_ t. opens t = opn)"
    unfolding Remove_def by (intro acquire_use_release Connect_acquires only_calls_ret) blast
qed

lemma stacked_NilD:
  assumes "stacked opn ([] :: ('e, unit) act list) t"
  shows "opens t = opn"
proof -
  from assms obtain d where t: "held opn d t" and d: "releases d (io_ret () :: ('e, unit) act)"
    unfolding stacked_def by (auto simp: runCleanups_def)
  have "triple (\<lambda>t. opens t = opens t') (io_ret () :: ('e, unit) act) (\<lambda>_ t. opens t = (\<lambda>n. opens t' n - d n))" for t'
    using d by (simp add: releases_def)
  from tripleD [OF this [of "[]"], of "\<lparr>tr = [], est = undefined\<rparr>"] have "d n = 0" for n
    by (simp add: io_ret_apply opens_def fun_eq_iff)
  with t show ?thesis by simp
qed

lemma stacked_acquired: "stacked opn cls t \<Longrightarrow> acquired opn (Inr (x, runCleanups cls)) t"
  by (auto simp: stacked_def)

lemma connect_test_acquires: "acquires (ConnectTestCluster p c0)"
  unfolding acquires_def
proof
  fix opn :: "string \<Rightarrow> int"
  let ?c = "CtxWithoutCancel c0" and ?cn = "dp_connector p" and ?ns = "dvp_Namespace (dp_conf p)"
  have fail: "triple (stacked opn cls) (io_bind (runCleanups cls) (\<lambda>_. io_ret (Inl e))) (acquired opn)" for cls e
    by (rule triple_bind [OF stacked_run], rule triple_ret) simp
  have master: "triple (stacked opn [cl]) (io_bind (connectToMaster ?cn ?c ip) (\<lambda>t. case t of
      Inl e \<Rightarrow> io_bind (runCleanups [cl]) (\<lambda>_. io_ret (Inl (wrap e)))
    | Inr (target, mcl) \<Rightarrow> io_ret (Inr (f target, runCleanups [cl, mcl])))) (acquired opn)" for cl ip wrap f
    by (rule triple_bind [OF stacked_acquire [OF connectToMaster_acquires]], rule triple_sum)
      (auto intro!: fail triple_ret stacked_acquired simp del: acquired_simps split: prod.splits)
  have resolve: "balanced (vmIP_Resolve vc ?ns ?c host)" for vc host
    unfolding vmIP_Resolve_def by (intro balanced_quiet calls_intros; simp)
  note keep = triple_bind [OF stacked_keep [OF balanced_quiet [OF kube_ops_quiet(5)]]] triple_bind [OF stacked_keep [OF resolve]]
  note connect = triple_pre [OF stacked_acquire [OF Connect_acquires, of opn "[]" ?cn ?c] stacked_Nil]
  show "triple (\<lambda>t. opens t = opn) (ConnectTestCluster p c0) (acquired opn)"
    unfolding ConnectTestCluster_def Let_def
    apply (rule triple_sum, rule triple_ret, simp)
    apply (rule triple_list, rule triple_ret, simp)
    apply (rule triple_bind, rule connect, assumption)
    apply (rule triple_sum, rule triple_ret, simp add: stacked_NilD)
    apply (rule triple_prod, hypsubst, simp only: sum.case prod.case append_Nil)
    apply (rule keep(1), rule triple_sum, rule fail, rule keep(2), rule triple_sum, rule fail, rule master)
    done
qed

section \<open>The order of an installation\<close>

text \<open>
  \<open>achieves m P\<close>: a run of \<open>m\<close> without error has appended events that satisfy \<open>P\<close>. \<open>phases Ps\<close>: disjoint
  parts of a trace that satisfy the \<open>Ps\<close>, in this order.
\<close>

definition achieves :: "('e, goerr option) act \<Rightarrow> (event list \<Rightarrow> bool) \<Rightarrow> bool" where
  "achieves m P \<longleftrightarrow> (\<forall>w w'. m w = Some (None, w') \<longrightarrow> (\<exists>u. tr w' = tr w @ u \<and> P u))"

fun phases :: "(event list \<Rightarrow> bool) list \<Rightarrow> event list \<Rightarrow> bool" where
  "phases [] u = True"
| "phases (P # Ps) u = (\<exists>g a b. u = g @ a @ b \<and> P a \<and> phases Ps b)"

lemma phases_gap: "phases Ps v \<Longrightarrow> phases Ps (u @ v)"
proof (cases Ps)
  case (Cons P Qs)
  assume "phases Ps v"
  with Cons obtain g a b where "u @ v = (u @ g) @ a @ b" "P a" "phases Qs b" by auto
  then show ?thesis unfolding Cons phases.simps by blast
qed simp

lemma phases_append: "phases Ps u \<Longrightarrow> phases Qs v \<Longrightarrow> phases (Ps @ Qs) (u @ v)"
proof (induction Ps arbitrary: u)
  case (Cons P Ps)
  then obtain g a b where "u = g @ a @ b" "P a" "phases Ps b" by auto
  with Cons have "u @ v = g @ a @ (b @ v)" "P a" "phases (Ps @ Qs) (b @ v)" by auto
  then show ?case unfolding append_Cons phases.simps by blast
qed (simp add: phases_gap)

lemma achievesI:
  assumes "\<And>t0. triple (since t0 (\<lambda>_. True)) m (\<lambda>e t. e = None \<longrightarrow> since t0 P t)"
  shows "achieves m P"
  unfolding achieves_def
proof (intro allI impI)
  fix w w' assume run: "m w = Some (None, w')"
  have "None = (None :: goerr option) \<longrightarrow> since (tr w) P (tr w')" by (rule tripleD [OF assms run]) (rule since_refl)
  then show "\<exists>u. tr w' = tr w @ u \<and> P u" by (auto simp: since_def)
qed

lemma achievesD: "achieves m P \<Longrightarrow> m w = Some (None, w') \<Longrightarrow> \<exists>u. tr w' = tr w @ u \<and> P u"
  by (auto simp: achieves_def)

lemma achieves_one: "achieves m P \<Longrightarrow> achieves m (phases [P])"
proof -
  have "P u \<Longrightarrow> phases [P] u" for u
    unfolding phases.simps by (intro exI [of _ "[]"] exI [of _ u] conjI) simp_all
  then show "achieves m P \<Longrightarrow> achieves m (phases [P])" unfolding achieves_def by blast
qed

lemma achieves_nothing: "only_calls Q m \<Longrightarrow> achieves m (phases [])"
  by (fastforce simp: achieves_def dest: only_callsD)

lemma achieves_step:
  assumes m: "achieves m (phases Ps)" and k: "achieves k (phases Qs)"
  shows "achieves (then_step m what k) (phases (Ps @ Qs))"
  unfolding achieves_def
proof (intro allI impI)
  fix w w' assume "then_step m what k w = Some (None, w')"
  then obtain w1 where "m w = Some (None, w1)" "k w1 = Some (None, w')"
    by (auto simp: then_step_def io_simps split: option.splits)
  then obtain u v where "tr w1 = tr w @ u" "phases Ps u" "tr w' = tr w1 @ v" "phases Qs v"
    using achievesD [OF m] achievesD [OF k] by blast
  then have "tr w' = tr w @ (u @ v)" "phases (Ps @ Qs) (u @ v)" by (simp_all add: phases_append)
  then show "\<exists>u. tr w' = tr w @ u \<and> phases (Ps @ Qs) u" by blast
qed

lemma achieves_done: "achieves (io_ret None) (phases [])"
  by (simp add: achieves_def io_ret_apply)

lemma achieves_client:
  assumes "achieves k (phases Ps)"
  shows "achieves (with_clientset rt api c k) (phases Ps)"
  using achieves_step [OF achieves_nothing [OF clients_quiet(1) [of rt api c]] assms, of "''create clientset: ''"]
  by (simp add: with_clientset_def then_step_def)

lemma secrets_achieved: "achieves (waitBootstrapSecretsClient rt api c timeout) (secrets_seen bootstrapSecrets)"
proof (rule achievesI)
  fix t0
  let ?T = "since t0 (\<lambda>_. True)" and ?Q = "since t0 (secrets_seen bootstrapSecrets)"
  have check: "triple ?T (secrets_present api c bootstrapSecrets) (\<lambda>r t. case r of Inl e \<Rightarrow> ?T t | Inr b \<Rightarrow> if b then ?Q t else ?T t)"
  proof (rule tripleI)
    fix w r w' assume "?T (tr w)" and run: "secrets_present api c bootstrapSecrets w = Some (r, w')"
    then obtain u where u: "tr w = t0 @ u" by (auto simp: since_def)
    have "only_calls (\<lambda>_. True) (secrets_present api c names)" for names by (induction names) (auto intro!: calls_intros)
    from only_callsD [OF this run] u have any: "?T (tr w')" by (auto simp: since_def)
    show "case r of Inl e \<Rightarrow> ?T (tr w') | Inr b \<Rightarrow> if b then ?Q (tr w') else ?T (tr w')"
    proof (cases "r = Inr True")
      case True
      from secrets_present_trace [OF run [unfolded True]] u have "?Q (tr w')"
        unfolding since_def secrets_seen_def by (metis append_assoc)
      with True show ?thesis by simp
    qed (use any in \<open>auto split: sum.splits\<close>)
  qed
  show "triple ?T (waitBootstrapSecretsClient rt api c timeout) (\<lambda>e t. e = None \<longrightarrow> ?Q t)"
    unfolding waitBootstrapSecretsClient_def
    by (rule triple_bind, rule pollUntil_triple [where I = "\<lambda>_. ?T" and K = "\<lambda>_. ?T" and Q = "\<lambda>_. ?Q"],
        rule triple_bind [OF check])
      (auto intro!: triple_ret split: prod.splits sum.splits)
qed

lemma health_achieved: "achieves (waitClusterHealthyClient rt api c timeout) healthy_pair"
proof (rule achievesI)
  fix t0
  let ?T = "since t0 (\<lambda>_. True)" and ?Q = "since t0 healthy_pair"
  have check: "triple ?T (checkHealthClient api c) (\<lambda>e t. if e = None then ?Q t else ?T t)"
  proof (rule tripleI)
    fix w e w' assume "?T (tr w)" and run: "checkHealthClient api c w = Some (e, w')"
    then obtain u where u: "tr w = t0 @ u" by (auto simp: since_def)
    show "if e = None then ?Q (tr w') else ?T (tr w')"
    proof (cases e)
      case None
      with checkHealth_trace run u obtain v where v: "tr w' = t0 @ u @ v" "healthy_pair v" by fastforce
      then have "healthy_pair (u @ v)" unfolding healthy_pair_def by (metis append_assoc)
      with v None show ?thesis by (auto simp: since_def)
    qed (use only_callsD [OF install_calls(2) run] u in \<open>auto simp: since_def\<close>)
  qed
  show "triple ?T (waitClusterHealthyClient rt api c timeout) (\<lambda>e t. e = None \<longrightarrow> ?Q t)"
    unfolding waitClusterHealthyClient_def
    by (rule triple_bind, rule pollUntil_triple [where I = "\<lambda>_. ?T" and K = "\<lambda>_. ?T" and Q = "\<lambda>_. ?Q"],
        rule triple_bind [OF check])
      (auto intro!: triple_ret simp: last_check_err_def split: prod.splits option.splits)
qed

lemma nodes_achieved: "achieves (waitNodesReadyClient rt api c def timeout) (nodes_seen_ready (nodes_want def))"
proof (rule achievesI)
  fix t0
  let ?T = "since t0 (\<lambda>_. True)" and ?Q = "since t0 (nodes_seen_ready (nodes_want def))"
  have check: "triple ?T (io_bind (call NodesList (ka_nodes api c)) (\<lambda>g. io_ret (f g)))
      (\<lambda>y t. case fst y of Inl e \<Rightarrow> ?T t | Inr b \<Rightarrow> if b then ?Q t else ?T t)"
    if "\<And>g. case fst (f g) of Inr True \<Rightarrow> \<exists>nodes. g = Inr nodes \<and> nodes_want def \<le> length (filter isNodeReady nodes) | _ \<Rightarrow> True"
    for f :: "goerr + knode list \<Rightarrow> (goerr + bool) \<times> unit"
  proof (rule triple_bind, rule triple_call [where Q = "\<lambda>g. since t0 (\<lambda>u. \<exists>a. u = a @ [NodesList g])"], force simp: since_def, rule triple_ret)
    fix g t assume "since t0 (\<lambda>u. \<exists>a. u = a @ [NodesList g]) t"
    with that [of g] show "case fst (f g) of Inl e \<Rightarrow> ?T t | Inr b \<Rightarrow> if b then ?Q t else ?T t"
      by (auto simp: since_def nodes_seen_ready_def split: sum.splits bool.splits)
  qed
  show "triple ?T (waitNodesReadyClient rt api c def timeout) (\<lambda>e t. e = None \<longrightarrow> ?Q t)"
    unfolding waitNodesReadyClient_def
    by (rule triple_if, rule triple_ret, simp, rule triple_bind,
        rule pollUntil_triple [where I = "\<lambda>_. ?T" and K = "\<lambda>_. ?T" and Q = "\<lambda>_. ?Q"], rule check)
      (auto intro!: triple_ret split: prod.splits sum.splits bool.splits)
qed

definition nodes_joined :: "cluster_definition \<Rightarrow> event list \<Rightarrow> bool" where
  "nodes_joined def u \<longleftrightarrow> history (join_justified def) u \<and> (\<forall>(n, secret) \<in> group_secret def. node_settled n secret u)"

lemma join_achieved: "achieves (joinNodes rt (VMExecutor cn) api c def) (phases [nodes_joined def])"
proof -
  have "achieves (joinNodesWithClient rt (VMExecutor cn) api c def) (nodes_joined def)"
    unfolding achieves_def nodes_joined_def
  proof (intro allI impI)
    fix w w' assume run: "joinNodesWithClient rt (VMExecutor cn) api c def w = Some (None, w')"
    from tripleD [OF vm_conn.joinNodesWithClient_triple run, of "tr w"]
    show "\<exists>u. tr w' = tr w @ u \<and> history (join_justified def) u \<and> (\<forall>(n, secret) \<in> group_secret def. node_settled n secret u)"
      by (auto simp: since_def)
  qed
  from achieves_step [OF achieves_nothing [OF node_group_quiet [of rt api c workerNodeGroupName]]
      achieves_client [OF achieves_one [OF this]], of "''create worker nodegroup: ''" rt api c]
  show ?thesis by (simp add: joinNodes_def then_step_def)
qed

definition modules_enabled :: "string \<Rightarrow> cluster_definition \<Rightarrow> event list \<Rightarrow> bool" where
  "modules_enabled ready def u \<longleftrightarrow> (\<forall>m. Some m \<in> set (Modules (DKPParameters def)) \<longrightarrow>
     module_stored m (RegistryRepo (DKPParameters def)) u \<and>
     (mc_Enabled m \<longrightarrow> module_settled ready (RegistryRepo (DKPParameters def)) m u))"

lemma modules_achieved:
  assumes names: "api_names api"
  shows "achieves (enableModules rt api c def) (modules_enabled (da_phaseReady api) def)"
  unfolding achieves_def modules_enabled_def
proof (intro allI impI)
  fix w w' assume run: "enableModules rt api c def w = Some (None, w')"
  let ?ms = "Modules (DKPParameters def)" and ?repo = "RegistryRepo (DKPParameters def)"
  show "\<exists>u. tr w' = tr w @ u \<and> (\<forall>m. Some m \<in> set ?ms \<longrightarrow> module_stored m ?repo u \<and>
      (mc_Enabled m \<longrightarrow> module_settled (da_phaseReady api) ?repo m u))"
  proof (cases "?ms = []")
    case True
    with run show ?thesis by (auto simp: enableModules_def enableModulesInLevels_def io_simps)
  next
    case False
    with run obtain levels where levels: "buildModuleLevels ?ms = Inr levels"
      and "enable_levels rt (applier_apply rt api) (applier_waitReady rt api) c ?repo ModuleDeployTimeout 0 levels w = Some (None, w')"
      by (auto simp: enableModules_def enableModulesInLevels_def io_simps split: sum.splits)
    from tripleD [OF levels_run_in_order [OF levels names, of "tr w"] this(2)] in_levels_iff [OF levels]
    show ?thesis by (auto simp: since_def default_settled)
  qed
qed

lemma install_on_achieved:
  assumes "api_names (ka_deckhouse (dp_api p target))"
  shows "achieves (install_on p c def target)
    (phases [secrets_seen bootstrapSecrets, healthy_pair, nodes_joined def, nodes_seen_ready (nodes_want def),
       modules_enabled (da_phaseReady (ka_deckhouse (dp_api p target))) def])"
proof -
  let ?api = "dp_api p target" and ?rt = "dp_rt p"
  have "achieves (waitBootstrapSecrets ?rt ?api c t) (phases [secrets_seen bootstrapSecrets])"
    "achieves (waitClusterHealthy ?rt ?api c t) (phases [healthy_pair])"
    "achieves (waitNodesReady ?rt ?api c def t) (phases [nodes_seen_ready (nodes_want def)])" for t
    unfolding waitBootstrapSecrets_def waitClusterHealthy_def waitNodesReady_def
    by (intro achieves_client achieves_one secrets_achieved health_achieved nodes_achieved)+
  note waits = this achieves_nothing [OF node_group_quiet] join_achieved achieves_one [OF modules_achieved [OF assms]] achieves_done
  have "achieves (install_on p c def target) (phases ([] @ [secrets_seen bootstrapSecrets] @ [healthy_pair] @ [nodes_joined def] @
      [nodes_seen_ready (nodes_want def)] @ [modules_enabled (da_phaseReady (ka_deckhouse ?api)) def] @ []))"
    unfolding install_on_def Let_def by (intro achieves_step waits)
  then show ?thesis by simp
qed

end
