(* ===== verification/Provider_Runs.thy ===== *)
theory Provider_Runs
  imports Provider
begin

text \<open>
  Whole runs of the provider: what a successful \<^verbatim>\<open>Bootstrap\<close> has done and in which order, when the setup
  node is touched, that no run keeps a connection open, and a concrete run that succeeds.
\<close>

section \<open>Steps of a run\<close>

lemma phases_more: "phases Ps u \<Longrightarrow> phases Ps (u @ v)"
  using phases_append [of Ps u "[]" v] by simp

lemma only_calls_any: "only_calls P m \<Longrightarrow> only_calls (\<lambda>_. True) m"
  by (rule only_calls_mono) auto

lemma appended: "only_calls P m \<Longrightarrow> m w = Some (r, w') \<Longrightarrow> \<exists>u. tr w' = tr w @ u"
  by (auto dest: only_callsD)

lemma connect_cleanup_calls:
  assumes "Connect cn c w = Some (Inr (cfg, cl), w')"
  shows "only_calls (\<lambda>_. True) cl"
proof -
  have tunnel: "only_calls (\<lambda>_. True) cl" if "connect_tunnel cn c v = Some (Inr (cfg, cl), v')" for v v'
    using that
    by (auto simp: connect_tunnel_def TunnelRestConfig_def Let_def io_simps runCleanups_def ignore_err_def tunnel_Close_def client_Close_def
        split: option.splits sum.splits intro!: calls_intros)
  from assms show ?thesis
    by (auto simp: Connect_def io_simps split: option.splits sum.splits if_splits dest: tunnel intro!: calls_intros)
qed

lemma tunnel_ops_calls:
  "only_calls (\<lambda>_. True) (ssh_New ssh c hops opts)" "only_calls (\<lambda>_. True) (OpenTunnel ssh hops c port)"
  "only_calls (\<lambda>_. True) (tunnel_Close ssh hops)" "only_calls (\<lambda>_. True) (client_Close ssh hops)"
  unfolding ssh_New_def OpenTunnel_def tunnel_Close_def client_Close_def by (intro calls_intros TrueI)+

lemma connect_calls: "only_calls (\<lambda>_. True) (Connect cn c)"
  unfolding Connect_def connect_tunnel_def buildSSHClient_def TunnelRestConfig_def DirectReachable_def Let_def ignore_err_def
  by (intro calls_intros tunnel_ops_calls run_cleanups_calls TrueI) (auto intro!: calls_intros tunnel_ops_calls)

text \<open>The Docker daemon of the setup node has answered.\<close>

definition docker_seen :: "string \<Rightarrow> event list \<Rightarrow> bool" where
  "docker_seen ip u \<longleftrightarrow> (\<exists>res. Exec ip buildDockerReadyCommand (res, None) \<in> set u \<and> er_exitCode res = 0)"

lemma docker_achieved:
  assumes "session_on ip exec close"
  shows "triple (since t0 (\<lambda>_. True)) (waitDockerReady rt exec c poll timeout) (\<lambda>e t. since t0 (\<lambda>u. e = None \<longrightarrow> docker_seen ip u) t)"
proof -
  note any = since_any_step
  have exec: "triple (since t0 (\<lambda>_. True)) (exec c' cmd) (\<lambda>r. since t0 (\<lambda>u. Exec ip cmd r \<in> set u))" for c' cmd
    using assms by (force simp: triple_def session_on_def since_def)
  have body: "triple (since t0 (\<lambda>_. True)) (docker_body rt exec c' poll timeout s)
      (\<lambda>x t. case x of Inl e \<Rightarrow> since t0 (\<lambda>u. e = None \<longrightarrow> docker_seen ip u) t | Inr s' \<Rightarrow> since t0 (\<lambda>_. True) t)" for c' s
    unfolding docker_body_def
    apply (rule triple_bind [OF exec], rule triple_prod, rule triple_if)
     apply (rule triple_ret, force simp: since_def docker_seen_def)
    apply (rule triple_bind [OF triple_waitFor [where Q = "\<lambda>_. since t0 (\<lambda>_. True)"]])
     apply (auto simp: since_def intro!: triple_ret split: option.splits)
    done
  show ?thesis
    unfolding waitDockerReady_def by (rule triple_if, rule triple_ret, force simp: since_def, rule triple_loop [OF body])
qed

section \<open>What a successful run has done\<close>

text \<open>
  The parts of an installation in their order: the first master is bootstrapped, the bootstrap secrets
  are there, the control plane is healthy, the other nodes have joined, all are Ready, the modules run.
\<close>

definition install_order ::
  "('e, 'c, 'cc, 'k) provider \<Rightarrow> string \<Rightarrow> string \<Rightarrow> string \<Rightarrow> cluster_definition \<Rightarrow> (event list \<Rightarrow> bool) list" where
  "install_order p setupIP masterIP ready def =
     [bootstrapped (dp_yaml p) (dp_conf p) setupIP masterIP, secrets_seen bootstrapSecrets, healthy_pair, nodes_joined def,
      nodes_seen_ready (nodes_want def), modules_enabled ready def]"

lemma bootstrap_setup:
  assumes "dhctlBootstrap d c def w = Some (None, w')"
  obtains n where "Setup def = Some n"
  using assms by (cases "Setup def") (auto simp: dhctlBootstrap_def io_simps)

lemma install_run:
  assumes names: "\<And>cfg. api_names (ka_deckhouse (dp_api p cfg))"
    and run: "installDeckhouse p c fleet def cls w = Some ((None, cls'), w')"
  obtains m n cfg u mcl where "firstMasterVMIP (Some def) = Inr m" "Setup def = Some n" "tr w' = tr w @ u"
    "phases (install_order p (IPAddress n) m (da_phaseReady (ka_deckhouse (dp_api p cfg))) def) u"
    "cls' = cls @ [mcl]" "only_calls (\<lambda>_. True) mcl"
proof -
  from run obtain m w1 w2 w3 cfg mcl where m: "firstMasterVMIP (Some def) = Inr m"
    and boot: "dhctlBootstrap (dhctl_deps_of p) c def w = Some (None, w1)"
    and del: "deleteSetupNode c fleet def w1 = Some ((), w2)"
    and conn: "connectToMaster (dp_connector p) c m w2 = Some (Inr (cfg, mcl), w3)"
    and inst: "install_on p c def cfg w3 = Some (None, w')" and cls: "cls' = cls @ [mcl]"
    by (auto simp: installDeckhouse_def io_simps split: option.splits sum.splits prod.splits)
  from bootstrap_setup [OF boot] obtain n where n: "Setup def = Some n" .
  have d: "dd_vmExecutor (dhctl_deps_of p) = VMExecutor (dp_connector p)"
    "dd_connectToMaster (dhctl_deps_of p) = connectToMaster (dp_connector p)" by (simp_all add: dhctl_deps_of_def)
  have conf: "dd_yaml (dhctl_deps_of p) = dp_yaml p" "dd_conf (dhctl_deps_of p) = dp_conf p" by (simp_all add: dhctl_deps_of_def)
  from tripleD [OF master_conn.dhctl_bootstrap_triple [OF d m n refl, unfolded conf] boot, of "tr w"]
  obtain a where a: "tr w1 = tr w @ a" "bootstrapped (dp_yaml p) (dp_conf p) (IPAddress n) m a" by (auto simp: since_def)
  have "only_calls quiet (deleteSetupNode c fleet def)"
    unfolding deleteSetupNode_def by (intro calls_intros delete_quiet)
  from appended [OF this del] appended [OF connectToMaster_calls conn] a(1)
  obtain g where g: "tr w3 = tr w @ a @ g" by auto
  from achievesD [OF install_on_achieved [OF names] inst] obtain b where b: "tr w' = tr w3 @ b"
    "phases (tl (install_order p (IPAddress n) m (da_phaseReady (ka_deckhouse (dp_api p cfg))) def)) b"
    unfolding install_order_def list.sel by blast
  have "phases (install_order p (IPAddress n) m (da_phaseReady (ka_deckhouse (dp_api p cfg))) def) ([] @ a @ g @ b)"
    using a(2) phases_gap [OF b(2), of g] unfolding install_order_def list.sel phases.simps(2) [of "bootstrapped (dp_yaml p) (dp_conf p) (IPAddress n) m"] by blast
  with that [OF m n _ _ cls only_calls_any [OF connectToMaster_cleanup [OF conn]]] b(1) g show thesis by simp
qed

text \<open>The definition that is provisioned: the loaded one, with the default setup node if it has none.\<close>

definition with_setup :: "cluster_definition \<Rightarrow> cluster_definition" where
  "with_setup def = (case Setup def of None \<Rightarrow> def\<lparr>Setup := Some DefaultSetupVM\<rparr> | Some _ \<Rightarrow> def)"

text \<open>
  Every node of \<open>def\<close> that is a virtual machine runs and has the address that was read, in \<open>def'\<close>; nothing
  else of \<open>def\<close> is changed.
\<close>

definition machines_run :: "string \<Rightarrow> cluster_definition \<Rightarrow> cluster_definition \<Rightarrow> event list \<Rightarrow> bool" where
  "machines_run ns def def' u \<longleftrightarrow> DKPParameters def' = DKPParameters def \<and>
     (\<forall>pl \<in> set (plan def). \<exists>ip. node_at (pv_ref pl) def' = Some ((pv_node pl)\<lparr>IPAddress := ip\<rparr>) \<and>
        list_ex (running_seen ns (Hostname (pv_node pl)) ip) u) \<and>
     (\<forall>r. r \<notin> pv_ref ` set (plan def) \<longrightarrow> node_at r def' = node_at r def)"

lemma setup_node_seen:
  assumes "wait_setup_node p c ip w = Some (None, w')"
  shows "\<exists>u. tr w' = tr w @ u \<and> docker_seen ip u"
proof -
  have cl: "triple (since t0 (\<lambda>u. e = None \<longrightarrow> docker_seen ip u)) cl (\<lambda>_. since t0 (\<lambda>u. e = None \<longrightarrow> docker_seen ip u))"
    if "session_on ip ex cl" for ex cl t0 and e :: "goerr option"
    using that unfolding triple_def session_on_def since_def docker_seen_def by (auto 0 4)
  let ?T = "since (tr w) (\<lambda>_. True)"
  have opened: "triple ?T (VMExecutor (dp_connector p) c ip) (\<lambda>r t. ?T t \<and> (\<forall>ex cl. r = Inr (ex, cl) \<longrightarrow> session_on ip ex cl))"
    by (rule vm_conn.vmExecutor_triple) (auto elim: since_any_step)
  have "triple ?T (wait_setup_node p c ip) (\<lambda>e. since (tr w) (\<lambda>u. e = None \<longrightarrow> docker_seen ip u))"
    unfolding wait_setup_node_def
  proof (rule triple_bind [OF opened], rule triple_sum)
    fix r :: "goerr + 'a executor \<times> ('a, unit) act" and e
    show "triple (\<lambda>t. ?T t \<and> (\<forall>ex cl. r = Inr (ex, cl) \<longrightarrow> session_on ip ex cl)) (io_ret (Some (wrapf ''setup node ssh not ready: '' e)))
      (\<lambda>e. since (tr w) (\<lambda>u. e = None \<longrightarrow> docker_seen ip u))"
      by (rule triple_ret) (auto elim: since_imp)
  next
    fix r :: "goerr + 'a executor \<times> ('a, unit) act" and y assume r: "r = Inr y"
    have "triple ?T (io_bind (io_finally (waitDockerReady (dp_rt p) ex c dockerReadyPoll dockerReadyTimeout) cl)
        (\<lambda>e. io_ret (map_option (wrapf ''setup node docker not ready: '') e)))
      (\<lambda>e. since (tr w) (\<lambda>u. e = None \<longrightarrow> docker_seen ip u))" if "session_on ip ex cl" for ex cl
      by (rule triple_bind [OF triple_finally [OF docker_achieved [OF that] cl [OF that]]], rule triple_ret) (auto elim: since_imp)
    then show "triple (\<lambda>t. ?T t \<and> (\<forall>ex cl. r = Inr (ex, cl) \<longrightarrow> session_on ip ex cl))
        (case y of (exec, closeExec) \<Rightarrow> io_bind (io_finally (waitDockerReady (dp_rt p) exec c dockerReadyPoll dockerReadyTimeout) closeExec)
          (\<lambda>e. io_ret (map_option (wrapf ''setup node docker not ready: '') e)))
      (\<lambda>e. since (tr w) (\<lambda>u. e = None \<longrightarrow> docker_seen ip u))"
      unfolding r triple_def by (cases y) fastforce
  qed
  from tripleD [OF this assms since_refl] show ?thesis by (auto simp: since_def)
qed

definition setup_ip :: "cluster_definition \<Rightarrow> string" where
  "setup_ip def = (case Setup def of None \<Rightarrow> [] | Some n \<Rightarrow> IPAddress n)"

text \<open>The parts of the provisioning in their order.\<close>

definition provision_order ::
  "string \<Rightarrow> string \<Rightarrow> cluster_definition \<Rightarrow> cluster_definition \<Rightarrow> (event list \<Rightarrow> bool) list" where
  "provision_order ready ns loaded def =
     [list_ex (seen_ready ready ''virtualization''), machines_run ns (with_setup loaded) def, docker_seen (setup_ip def)]"

lemma provision_on_run:
  assumes run: "provision_on p c loaded key kube w = Some (Inr (def, fleet), w')"
  shows "\<exists>u. tr w' = tr w @ u \<and>
    phases (provision_order (da_phaseReady (ka_deckhouse (dp_api p kube))) (dvp_Namespace (dp_conf p)) loaded def) u"
proof -
  let ?api = "dp_api p kube" and ?ns = "dvp_Namespace (dp_conf p)"
  from run obtain w1 w2 w3 w4 w5 where check: "CheckReachable (dp_rt p) ?api c w = Some (None, w1)"
    and virt: "WaitModuleReady (dp_rt p) ?api c ''virtualization'' ModuleCheckTimeout w1 = Some (None, w2)"
    and ns: "EnsureNamespace (dp_rt p) ?api (CtxTimeout c NamespaceTimeout) ?ns w2 = Some (None, w3)"
    and fl: "fleet_New p c kube key w3 = Some (Inr fleet, w4)"
    and prov: "Provision fleet c (with_setup loaded) w4 = Some ((None, def), w5)"
    and sn: "wait_setup_node p c (setup_ip def) w5 = Some (None, w')"
    by (auto simp: provision_on_def do_step_def Let_def io_simps with_setup_def setup_ip_def split: option.splits sum.splits prod.splits)
  from virt have "WaitForModuleReady (dp_rt p) (ka_deckhouse ?api) c ''virtualization'' ModuleCheckTimeout w1 = Some (None, w2)"
    by (auto simp: WaitModuleReady_def io_simps split: option.splits)
  from tripleD [OF WaitForModuleReady_seen this refl] obtain a where
    a: "tr w2 = tr w1 @ a" "list_ex (seen_ready (da_phaseReady (ka_deckhouse ?api)) ''virtualization'') a" by (auto simp: since_def)
  have "pr_cfg fleet = provisionerConfig (dp_conf p) key"
    using fl by (auto simp: fleet_New_def io_simps split: option.splits)
  then have cfg: "vmc_Namespace (pr_cfg fleet) = ?ns" by (simp add: provisionerConfig_def)
  from appended [OF provision_calls prov] obtain b where b: "tr w5 = tr w4 @ b" by blast
  from provision_sets_addresses [OF prov] have m: "machines_run ?ns (with_setup loaded) def b"
    unfolding machines_run_def by (simp add: b cfg)
  from setup_node_seen [OF sn] obtain d where d: "tr w' = tr w5 @ d" "docker_seen (setup_ip def) d" by blast
  from appended [OF kube_ops_quiet(1) check] obtain g1 where g1: "tr w1 = tr w @ g1" by blast
  from appended [OF kube_ops_quiet(3) ns] appended [OF kube_ops_quiet(4) fl] obtain g2 where g2: "tr w4 = tr w2 @ g2" by auto
  have "phases [docker_seen (setup_ip def)] ([] @ d @ [])"
    using d(2) unfolding phases.simps by blast
  then have "phases [machines_run ?ns (with_setup loaded) def, docker_seen (setup_ip def)] (g2 @ b @ d)"
    using m unfolding phases.simps by fastforce
  then have "phases (provision_order (da_phaseReady (ka_deckhouse ?api)) ?ns loaded def) (g1 @ a @ g2 @ b @ d)"
    using a(2) unfolding provision_order_def phases.simps(2) [of "list_ex p" for p] by blast
  then show ?thesis using a(1) b d(1) g1 g2 by auto
qed

lemma provision_run:
  assumes run: "provision p c w = Some ((Inr (def, fleet), cls), w')"
  obtains loaded kube u where "dp_LoadClusterDefinition p = Inr loaded" "tr w' = tr w @ u"
    "phases (provision_order (da_phaseReady (ka_deckhouse (dp_api p kube))) (dvp_Namespace (dp_conf p)) loaded def) u"
    "list_all (only_calls (\<lambda>_. True)) cls"
proof -
  from run obtain loaded key kube cl w1 where l: "dp_LoadClusterDefinition p = Inr loaded"
    and conn: "Connect (dp_connector p) c w = Some (Inr (kube, cl), w1)"
    and on: "provision_on p c loaded key kube w1 = Some (Inr (def, fleet), w')" and cls: "cls = [cl]"
    by (auto simp: provision_def io_simps split: option.splits sum.splits prod.splits)
  from appended [OF connect_calls conn] provision_on_run [OF on] obtain g u where
    "tr w' = tr w @ g @ u" "phases (provision_order (da_phaseReady (ka_deckhouse (dp_api p kube))) (dvp_Namespace (dp_conf p)) loaded def) u"
    by auto
  from that [OF l this(1) phases_gap [OF this(2)]] connect_cleanup_calls [OF conn] cls show thesis by simp
qed

text \<open>
  C2. A \<^verbatim>\<open>Bootstrap\<close> that returns no error has done everything, in this order. On the base cluster it saw the
  virtualization module Ready, then every machine of the loaded definition (with the default setup
  node, if it has none) in phase Running, with the address the nodes now have, and then Docker on the
  setup node. After that the first master was bootstrapped (by dhctl on the setup node, or it was found
  with a healthy installation), then both bootstrap secrets were read, then a healthy control plane,
  then every other node was joined with the script of its group or seen registered, then as many
  nodes as declared were Ready in one list, and last every module of the definition was stored and
  every enabled one seen Ready.\<close>

theorem bootstrap_in_order:
  assumes names: "\<And>cfg. api_names (ka_deckhouse (dp_api p cfg))"
    and run: "Bootstrap p c w = Some (None, w')"
  shows "\<exists>loaded def m kube target u. dp_LoadClusterDefinition p = Inr loaded \<and> firstMasterVMIP (Some def) = Inr m \<and>
    tr w' = tr w @ u \<and>
    phases (provision_order (da_phaseReady (ka_deckhouse (dp_api p kube))) (dvp_Namespace (dp_conf p)) loaded def @
      install_order p (setup_ip def) m (da_phaseReady (ka_deckhouse (dp_api p target))) def) u"
proof -
  from run obtain def fleet cls cls' w1 w2 where prov: "provision p c w = Some ((Inr (def, fleet), cls), w1)"
    and inst: "installDeckhouse p c fleet def cls w1 = Some ((None, cls'), w2)" and cl: "runCleanups cls' w2 = Some ((), w')"
    by (auto simp: Bootstrap_def io_simps split: option.splits sum.splits prod.splits)
  from prov obtain loaded kube a where loaded: "dp_LoadClusterDefinition p = Inr loaded" and a: "tr w1 = tr w @ a"
    "phases (provision_order (da_phaseReady (ka_deckhouse (dp_api p kube))) (dvp_Namespace (dp_conf p)) loaded def) a"
    "list_all (only_calls (\<lambda>_. True)) cls" by (rule provision_run)
  from names inst obtain m n target b mcl where m: "firstMasterVMIP (Some def) = Inr m" and n: "Setup def = Some n"
    and b: "tr w2 = tr w1 @ b" "phases (install_order p (IPAddress n) m (da_phaseReady (ka_deckhouse (dp_api p target))) def) b"
    and cls': "cls' = cls @ [mcl]" "only_calls (\<lambda>_. True) mcl" by (rule install_run)
  from a(3) cls' have "list_all (only_calls (\<lambda>_. True)) cls'" by simp
  from appended [OF run_cleanups_calls [OF this] cl] obtain d where d: "tr w' = tr w2 @ d" by blast
  have n': "setup_ip def = IPAddress n" by (simp add: setup_ip_def n)
  note in_order = phases_more [OF phases_append [OF a(2) b(2)], of d, folded n']
  have "tr w' = tr w @ (a @ b) @ d" using a(1) b(1) d by simp
  with loaded m in_order show ?thesis by blast
qed

text \<open>
  C4. No operation of the provider keeps a connection: whatever it returns, after \<^verbatim>\<open>Bootstrap\<close> and \<^verbatim>\<open>Remove\<close>
  exactly the SSH clients and tunnels are open that were open before. \<^verbatim>\<open>ConnectTestCluster\<close> either fails
  and keeps nothing open, or hands out a clean-up function that closes exactly what it has opened.\<close>

theorem provider_keeps_nothing_open:
  assumes poll: "poll_lib_ok (dp_poll p)"
  shows "(Bootstrap p c w = Some (r, w1) \<longrightarrow> opens (tr w1) = opens (tr w)) \<and>
    (Remove p c w = Some (r', w2) \<longrightarrow> opens (tr w2) = opens (tr w)) \<and>
    (ConnectTestCluster p c w = Some (x, w3) \<longrightarrow> (case x of Inl _ \<Rightarrow> opens (tr w3) = opens (tr w)
      | Inr (cluster, cleanup) \<Rightarrow> \<forall>v y v' n. cleanup v = Some (y, v') \<longrightarrow>
          opens (tr v') n = opens (tr v) n - (opens (tr w3) n - opens (tr w) n)))"
  using balancedD [OF bootstrap_balanced] balancedD [OF remove_balanced [OF poll]] acquires_account [OF connect_test_acquires]
  by (intro conjI impI) blast+

text \<open>
  C3. The setup node is touched only when it must be. Before any command other than the inspection of (or
  the wait for) a bootstrap container runs on it, the probe of the first master has failed with an
  exit code, so there is no kubeconfig on it, and no container of an earlier run is active. Nothing
  else is ever run on the master but the probe and the command that reads its kubeconfig. A success
  means that dhctl ran against this master, or that a healthy installation was found there. The command names the master;
  with a passphrase it does not, and then the commands just before it have written the connection configuration whose host is
  this master, and removed a leftover container.\<close>

theorem dhctl_bootstrap_guarded:
  assumes "firstMasterVMIP (Some def) = Inr m" and "Setup def = Some n"
    and run: "dhctlBootstrap (dhctl_deps_of p) c def w = Some (e, w')"
  shows "\<exists>u. tr w' = tr w @ u \<and> (e = None \<longrightarrow> bootstrapped (dp_yaml p) (dp_conf p) (IPAddress n) m u) \<and>
    (\<forall>a ip cmd r b. u = a @ Exec ip cmd r # b \<longrightarrow>
       ip = m \<and> cmd \<in> {masterKubeconfigProbeCmd, getKubeconfigRemoteShell} \<or>
       ip = IPAddress n \<and> (cmd \<in> {inspectCommand dhctlContainerName, waitCommand dhctlContainerName} \<or>
          no_kubeconfig m a \<and> container_idle (IPAddress n) a))"
proof -
  have d: "dd_vmExecutor (dhctl_deps_of p) = VMExecutor (dp_connector p)"
    "dd_connectToMaster (dhctl_deps_of p) = connectToMaster (dp_connector p)" by (simp_all add: dhctl_deps_of_def)
  have conf: "dd_yaml (dhctl_deps_of p) = dp_yaml p" "dd_conf (dhctl_deps_of p) = dp_conf p" by (simp_all add: dhctl_deps_of_def)
  from tripleD [OF master_conn.dhctl_bootstrap_triple [OF d assms(1,2) refl, unfolded conf] run since_historyI] obtain u where
    u: "tr w' = tr w @ u" "history (dhctl_justified (IPAddress n) m) u" "e = None \<longrightarrow> bootstrapped (dp_yaml p) (dp_conf p) (IPAddress n) m u"
    by (auto simp: since_def)
  from u(2) have "dhctl_justified (IPAddress n) m a ev" if "u = a @ ev # b" for a ev b
    using that unfolding history_split by blast
  then show ?thesis using u(1,3) unfolding dhctl_justified_def by blast
qed

section \<open>A run that succeeds\<close>

text \<open>
  An outside for a master, a worker and a module: the machines of the base cluster run until they are
  deleted (then the state is \<open>True\<close>), the first master has no kubeconfig, so that dhctl runs (with a passphrase), the cluster is healthy then,
  the worker has to be joined and the module has no configuration. Every other request succeeds.
\<close>

lemma yields_until:
  assumes "yields s (check z) (Inr True, z') s'"
  shows "yields s (pollUntil rt c timeout what check z) (None, z') s'"
  unfolding pollUntil_def Let_def by (rule yields_bind [OF assms]) (simp add: yields_ret)

definition run_ip :: "string \<Rightarrow> string" where
  "run_ip n = (if n = ''m'' then ''10.0.0.5'' else if n = ''w'' then ''10.0.0.7'' else ''10.0.0.6'')"

lemma run_ip_set [simp]: "run_ip n \<noteq> []"
  by (simp add: run_ip_def)

definition run_virt :: "bool virt_api" where
  "run_virt = sample_virt\<lparr>va_vm := (sample_kind sample_vm)\<lparr>ko_get := (\<lambda>c ns n s.
     (if s then Inl not_found else Inr (sample_vm\<lparr>vm_ipAddress := run_ip n\<rparr>), s))\<rparr>\<rparr>"

definition run_kube :: "bool kube_api" where
  "run_kube = \<lparr>ka_newForConfig = (\<lambda>s. (None, s)), ka_serverVersion = (\<lambda>s. (None, s)), ka_newDynamic = (\<lambda>s. (None, s)),
     ka_getVersion = (\<lambda>c s. (None, s)), ka_getNamespace = (\<lambda>c n s. (None, s)), ka_createNamespace = (\<lambda>c n s. (None, s)),
     ka_deleteNamespace = (\<lambda>c n s. (None, s)), ka_getNodeGroup = (\<lambda>c n s. (None, s)), ka_createNodeGroup = (\<lambda>c n ty s. (None, s)),
     ka_nodes = (\<lambda>c s. (Inr [master_node True, (master_node True)\<lparr>node_name := ''w.local'', node_labels := Map.empty\<rparr>], s)), ka_secret = (\<lambda>c ns n s. (Inr [bootstrapScriptKey \<mapsto> ''true''], s)),
     ka_deployment = (\<lambda>c ns n s. (Inr available, s)), ka_virt = run_virt, ka_deckhouse = sample_deckhouse\<rparr>"

definition run_result :: exec_result where
  "run_result = \<lparr>er_stdout = ''server: x'', er_stderr = [], er_exitCode = 0\<rparr>"

definition run_answer :: "string \<Rightarrow> exec_result \<times> goerr option" where
  "run_answer cmd = (if cmd = masterKubeconfigProbeCmd then (run_result\<lparr>er_exitCode := 1\<rparr>, Some (ErrText ''exit status 1'')) else (run_result, None))"

definition run_conf :: dvp_config where "run_conf = sample_dvp\<lparr>SSHPassphrase := ''pw''\<rparr>"

definition run_connector :: "(bool, unit, unit) connector" where
  "run_connector =
    \<lparr>cn_ssh = \<lparr>sl_New = (\<lambda>c hops opts s. (None, s)), sl_select = (\<lambda>c t d s. (SelectTick, s)),
       sl_Exec = (\<lambda>hops c cmd s. (run_answer cmd, s)), sl_OpenTunnel = (\<lambda>hops c p s. (Inr 40001, s)),
       sl_CloseTunnel = (\<lambda>hops s. (None, s)), sl_Close = (\<lambda>hops s. (None, s))\<rparr>,
     cn_clientcmd = \<lparr>cc_Load = (\<lambda>k. Inr ()), cc_ClientConfig = (\<lambda>a ov. Inr \<lparr>rc_base = (), WrapTransport = None\<rparr>)\<rparr>,
     cn_api = (\<lambda>_. run_kube), cn_conf = run_conf,
     cn_creds = \<lparr>cred_Kubeconfig = ''apiVersion: v1'', cred_SSHKey = ''KEY'', cred_JumpKey = []\<rparr>\<rparr>"

text \<open>A poll as the documentation of \<^verbatim>\<open>wait.PollUntilContextCancel\<close> describes it.\<close>

definition run_poll :: "bool poll_lib" where
  "run_poll c d cond = loop (\<lambda>_. io_bind cond (\<lambda>r. case r of Inl e \<Rightarrow> io_ret (Inl (Some e))
     | Inr b \<Rightarrow> if b then io_ret (Inl None) else io_bind (waitFor sample_rt c d) (\<lambda>_. io_ret (Inr ())))) ()"

lemma run_poll_ok: "poll_lib_ok run_poll"
  unfolding poll_lib_ok_def run_poll_def
proof (intro allI impI)
  fix c d and cond :: "(bool, goerr + bool) act" and I Q K
  assume cond: "triple I cond (\<lambda>r t. case r of Inl _ \<Rightarrow> K t | Inr b \<Rightarrow> if b then Q t else I t)"
    and I: "\<forall>t. I t \<longrightarrow> I (t @ [Waited c d]) \<and> K t"
  show "triple I (loop (\<lambda>_. io_bind cond (\<lambda>r. case r of Inl e \<Rightarrow> io_ret (Inl (Some e))
     | Inr b \<Rightarrow> if b then io_ret (Inl None) else io_bind (waitFor sample_rt c d) (\<lambda>_. io_ret (Inr ())))) ())
     (\<lambda>e t. if e = None then Q t else K t)"
    by (rule triple_loop [where I = "\<lambda>_. I"], rule triple_bind [OF cond], intro triple_sum triple_if triple_ret
        triple_bind [OF triple_waitFor [where Q = "\<lambda>_. I"]]) (use I in auto)
qed

definition run_mod :: module_config where "run_mod = sample_module\<lparr>mc_ModulePullOverride := []\<rparr>"

definition run_tmp :: def_tmp where
  "run_tmp = sample_def_tmp\<lparr>dt_Workers := [sample_node_tmp\<lparr>tmp_Hostname := ''w''\<rparr>],
     dt_DKPParameters := (dt_DKPParameters sample_def_tmp)\<lparr>Modules := [Some run_mod]\<rparr>\<rparr>"

definition run_provider :: "(bool, unit, unit, unit) provider" where
  "run_provider =
    \<lparr>dp_rt = sample_rt, dp_connector = run_connector, dp_readFile = (\<lambda>p. Inr []),
     dp_parse = (\<lambda>t. Inr \<lparr>yd_entries = [], yd_direct = Inr run_tmp\<rparr>),
     dp_lookupEnv = (\<lambda>_. None), dp_yaml = \<lparr>yl_sshConfig = (\<lambda>_. Inr []), yl_sshHost = (\<lambda>h. Inr (''host: '' @ hm_Host h @ [nl]))\<rparr>, dp_tmpl = [],
     dp_keys = \<lparr>kl_ParsePrivateKey = (\<lambda>_. Inr ()), kl_passphraseMissing = (\<lambda>_. False),
       kl_ParsePrivateKeyWithPassphrase = (\<lambda>_ _. Inr ()), kl_MarshalAuthorizedKey = (\<lambda>_. ''ssh-rsa KEY'')\<rparr>,
     dp_qa = pr_qa sample_prov, dp_poll = run_poll, dp_cfg = \<lparr>cc_ClusterProvider = ModeDVP, cc_ClusterBootstrapConfigPath = ''cluster.yml''\<rparr>\<rparr>"

lemma run_sels:
  "dp_rt run_provider = sample_rt" "dp_connector run_provider = run_connector" "cn_api run_connector cfg = run_kube"
  "cn_conf run_connector = run_conf" "ka_virt run_kube = run_virt" "ka_deckhouse run_kube = sample_deckhouse"
  by (simp_all add: run_provider_def run_connector_def run_kube_def)

lemma run_client: "yields s (NewClientsetWithRetry sample_rt run_kube c) None s"
  unfolding NewClientsetWithRetry_def
  by (rule yields_bind, rule yields_Do [where x = "()"]) (auto simp: yields_def io_simps run_kube_def DefaultConfig_def)

lemma run_deckhouse_client: "yields s (deckhouse_NewClient sample_rt sample_deckhouse c) None s"
  by (simp add: yields_def sample_client)

lemma run_module: "yields s (WaitModuleReady sample_rt run_kube c n d) None s"
  by (simp add: yields_def WaitModuleReady_def run_sels io_simps sample_wait [unfolded applier_waitReady_def])

lemma run_namespace: "yields s (EnsureNamespace sample_rt run_kube c ns) None s"
  unfolding EnsureNamespace_def CreateNamespaceIfNotExists_def
  by (intro yields_bind [OF yields_bind [OF run_client]]) (auto simp: yields_def io_simps run_kube_def)

lemma run_virt_client: "yields s (virt_NewClient sample_rt run_virt c) None s"
  unfolding virt_NewClient_def
  by (rule yields_bind, rule yields_Do [where x = "()"])
    (auto simp: yields_def io_simps run_virt_def sample_virt_def DefaultConfig_def)

abbreviation run_exec :: "string \<Rightarrow> bool executor" where
  "run_exec ip \<equiv> (\<lambda>c cmd. call (Exec ip cmd) (sl_Exec (cn_ssh run_connector) (vm_hops run_connector ip) c cmd))"

abbreviation run_close :: "string \<Rightarrow> (bool, unit) act" where
  "run_close ip \<equiv> io_bind (client_Close (cn_ssh run_connector) (vm_hops run_connector ip)) (\<lambda>_. io_ret ())"

lemma run_session:
  "yields s (run_exec ip c cmd) (run_answer cmd) s" "yields s (run_close ip) () s"
  by (simp_all add: yields_def io_simps client_Close_def run_connector_def)

text \<open>Every command but the probe of the master succeeds.\<close>

lemma run_command: "cmd \<noteq> masterKubeconfigProbeCmd \<Longrightarrow> yields s (run_exec ip c cmd) (run_result, None) s"
  using run_session(1) [of s ip cmd c] by (simp add: run_answer_def)

lemma run_dial: "yields s (connect_vm run_connector c ip) None s"
  unfolding connect_vm_def Let_def
  by (rule yields_bind [where x = None])
    (simp_all add: yields_def NewWithRetry_def loop_stop retry_connect_def ssh_New_def io_simps run_connector_def)

lemma run_executor: "yields s (VMExecutor run_connector c ip) (Inr (run_exec ip, run_close ip)) s"
  unfolding VMExecutor_def Let_def by (rule yields_bind [OF run_dial]) (simp add: yields_ret)

lemma run_docker: "yields s (waitDockerReady rt (run_exec ip) c dockerReadyPoll t) None s"
  by (simp add: yields_def waitDockerReady_def dockerReadyPoll_def second_def loop_stop docker_body_def io_simps run_connector_def
      run_answer_def run_result_def buildDockerReadyCommand_def masterKubeconfigProbeCmd_def)

abbreviation run_config :: "unit rest_config" where
  "run_config \<equiv> configureTunnelTimeouts \<lparr>rc_base = (), WrapTransport = None\<rparr>"

lemma run_direct: "BuildRestConfigDirect (cn_clientcmd run_connector) k = Inr run_config"
  by (simp add: BuildRestConfigDirect_def buildRestConfig_def run_connector_def)

lemma run_connect: "yields s (Connect run_connector c) (Inr (run_config, io_ret ())) s"
proof -
  have "yields s (DirectReachable (cn_api run_connector cfg) c) True s" for cfg
    by (simp add: yields_def DirectReachable_def io_simps run_connector_def run_kube_def)
  then show ?thesis unfolding Connect_def run_direct sum.case by (rule yields_bind) (simp add: yields_ret)
qed

lemma run_rewrite: "\<exists>k. RewriteServer ''server: x'' (LocalAddr 40001) = Inr k"
proof -
  have "list_ex is_server_line (split_on nl ''server: x'')" by code_simp
  then show ?thesis by (simp add: RewriteServer_def)
qed

definition run_tunnel_close :: "string \<Rightarrow> (bool, unit) act" where
  "run_tunnel_close ip = (let ssh = cn_ssh run_connector; hops = vm_hops run_connector ip in
     ignore_err (io_bind (tunnel_Close ssh hops) (\<lambda>tunErr. io_bind (client_Close ssh hops) (\<lambda>clientErr.
       io_ret (case tunErr of Some e \<Rightarrow> Some e | None \<Rightarrow> clientErr)))))"

lemma run_master:
  "yields s (connectToMaster run_connector c ip) (Inr (run_config, run_tunnel_close ip)) s" "yields s (run_tunnel_close ip) () s"
proof -
  let ?ssh = "cn_ssh run_connector" and ?hops = "vm_hops run_connector ip"
  let ?ct = "io_bind (tunnel_Close ?ssh ?hops) (\<lambda>tunErr. io_bind (client_Close ?ssh ?hops) (\<lambda>clientErr.
      io_ret (case tunErr of Some e \<Rightarrow> Some e | None \<Rightarrow> clientErr)))"
  have fetch: "yields s (io_finally (FetchKubeconfig c (run_exec ip)) (run_close ip)) (Inr ''server: x'') s"
    unfolding FetchKubeconfig_def
    by (rule yields_finally [OF yields_bind [OF run_command] run_session(2)])
      (simp_all add: getKubeconfigRemoteShell_def masterKubeconfigProbeCmd_def run_result_def yields_ret)
  have open': "yields s (OpenTunnel ?ssh ?hops c port) (Inr 40001) s" for port
    by (simp add: yields_def OpenTunnel_def io_simps run_connector_def)
  have tunnel: "yields s (openTunnelToVM run_connector c ip port) (Inr (LocalAddr 40001, ?ct)) s" for port
    unfolding openTunnelToVM_def Let_def
    by (rule yields_bind [OF run_dial], simp only: option.case, rule yields_bind [OF open'], simp only: sum.case yields_ret)
  obtain k where k: "RewriteServer ''server: x'' (LocalAddr 40001) = Inr k" using run_rewrite by blast
  show "yields s (connectToMaster run_connector c ip) (Inr (run_config, run_tunnel_close ip)) s"
    unfolding connectToMaster_def run_tunnel_close_def Let_def
    apply (rule yields_bind [OF run_executor], simp only: sum.case prod.case)
    apply (rule yields_bind [OF fetch], simp only: sum.case)
    apply (rule yields_bind [OF tunnel], simp only: sum.case prod.case k run_direct yields_ret)
    done
  show "yields s (run_tunnel_close ip) () s"
    by (simp add: yields_def run_tunnel_close_def Let_def ignore_err_def tunnel_Close_def client_Close_def io_simps run_connector_def)
qed

lemma run_health: "yields s (checkHealthClient run_kube c) None s"
  by (simp add: yields_def checkHealthClient_def run_kube_def master_node_def available_def isNodeReady_def isControlPlaneNode_def
      controlPlaneNodeLabels_def isDeploymentAvailable_def io_simps)

lemma run_waits:
  "yields s (waitClusterHealthy sample_rt run_kube c t) None s"
  "yields s (waitBootstrapSecrets sample_rt run_kube c t) None s"
  "yields s (waitExistingInstallReady sample_rt run_kube c t) None s"
  "nodes_want def = 2 \<Longrightarrow> yields s (waitNodesReady sample_rt run_kube c def t) None s"
proof -
  have client: "yields s (with_clientset sample_rt run_kube c k) None s" if "yields s k None s" for k
    unfolding with_clientset_def by (rule yields_bind [OF run_client]) (simp add: that)
  have poll: "yields s (io_bind (pollUntil sample_rt c t what check z) (\<lambda>(e, _). io_ret e)) None s"
    if "yields s (check z) (Inr True, z') s" for what and check :: "'z \<Rightarrow> (bool, (goerr + bool) \<times> 'z) act" and z z'
    by (rule yields_bind, rule yields_until, rule that) (simp add: yields_ret)
  have "yields s (pollUntil sample_rt c t ''cluster to become healthy''
      (\<lambda>lastErr. io_bind (checkHealthClient run_kube c) (\<lambda>e. io_ret (Inr (e = None), e))) None) (None, None) s"
    by (intro yields_until yields_bind [OF run_health]) (simp add: yields_ret)
  then show "yields s (waitClusterHealthy sample_rt run_kube c t) None s"
    unfolding waitClusterHealthy_def waitClusterHealthyClient_def
    by (intro client) (rule yields_bind, assumption, simp add: last_check_err_def yields_ret)
  show "yields s (waitBootstrapSecrets sample_rt run_kube c t) None s"
    unfolding waitBootstrapSecrets_def waitBootstrapSecretsClient_def
    by (intro client poll) (simp add: yields_def bootstrapSecrets_def io_simps run_kube_def)
  have "yields s (secrets_readable run_kube c bootstrapSecrets) True s"
    by (simp add: yields_def bootstrapSecrets_def io_simps run_kube_def)
  then show "yields s (waitExistingInstallReady sample_rt run_kube c t) None s"
    unfolding waitExistingInstallReady_def waitExistingInstallReadyClient_def
    by (intro client poll yields_bind [OF run_health]) (simp, rule yields_bind, assumption, simp add: yields_ret)
  show "yields s (waitNodesReady sample_rt run_kube c def t) None s" if "nodes_want def = 2"
    unfolding waitNodesReady_def waitNodesReadyClient_def that
    by (intro client, simp, intro poll) (simp add: yields_def io_simps run_kube_def master_node_def isNodeReady_def)
qed

lemma run_node_group: "yields s (CreateStaticNodeGroup sample_rt run_kube c n) None s"
proof -
  have "yields s (GetNodeGroup sample_rt run_kube c n) None s"
    unfolding GetNodeGroup_def with_client_def run_sels
    by (rule yields_bind [OF run_deckhouse_client]) (simp add: yields_def io_simps run_kube_def)
  then show ?thesis
    unfolding CreateStaticNodeGroup_def DoVoid_def
    by (intro yields_bind [OF yields_Do [where x = "()"]] yields_bind [OF yields_bind]) (auto simp: nodeGroupRetry_def intro: yields_ret)
qed

text \<open>The machines of the sample definition and the definition with their addresses.\<close>

definition run_node :: cluster_node where "run_node = sample_node\<lparr>OSType := osTypeOf ''Debian 12'', DiskSize := 10\<rparr>"

definition run_loaded :: cluster_definition where
  "run_loaded = \<lparr>Masters = [run_node], Workers = [run_node\<lparr>Hostname := ''w''\<rparr>], Setup = None,
     DKPParameters = (dt_DKPParameters sample_def_tmp)\<lparr>Modules := [Some run_mod]\<rparr>\<rparr>"

definition run_def :: cluster_definition where
  "run_def = set_ip SetupRef ''10.0.0.6'' (set_ip (WorkerRef 0) ''10.0.0.7'' (set_ip (MasterRef 0) ''10.0.0.5'' (with_setup run_loaded)))"

lemma run_load: "dp_LoadClusterDefinition run_provider = Inr run_loaded"
proof -
  have "map_of OSTypeMap ''Debian 12'' = Some (osTypeOf ''Debian 12'')" by (simp add: OSTypeMap_def osTypeOf_def)
  then show ?thesis
    by (simp add: dp_LoadClusterDefinition_def run_provider_def LoadClusterDefinition_def UnmarshalDefinition_def decode_def_def
        run_tmp_def run_mod_def sample_module_def sample_def_tmp_def UnmarshalNode_def sample_node_tmp_def ResolveModulePullOverrides_def Let_def Validate_def
        run_loaded_def run_node_def sample_node_def lookup_or_empty_def resolve_module_def)
qed

lemma run_plan: "\<exists>a b d. plan (with_setup run_loaded) = [a, b, d] \<and> pv_ref a = MasterRef 0 \<and> Hostname (pv_node a) = ''m'' \<and>
    pv_ref b = WorkerRef 0 \<and> Hostname (pv_node b) = ''w'' \<and> pv_ref d = SetupRef \<and> Hostname (pv_node d) = ''bootstrap-node'' \<and>
    (\<forall>pl \<in> {a, b, d}. CPU (pv_node pl) = 2 \<and> RAM (pv_node pl) = 4 \<and> 0 < DiskSize (pv_node pl))"
  by (simp add: plan_def with_setup_def run_loaded_def run_node_def plan_node_def sample_node_def DefaultSetupVM_def)

abbreviation run_fleet :: "string \<Rightarrow> bool provisioner" where
  "run_fleet key \<equiv> \<lparr>pr_rt = sample_rt, pr_api = run_virt, pr_qa = pr_qa sample_prov, pr_cfg = provisionerConfig run_conf key\<rparr>"

lemma run_intervals: "0 < PollInterval (vmc_Timeouts (provisionerConfig run_conf key))"
  "vmc_Namespace (provisionerConfig run_conf key) = ''e2e-test-cluster''"
  by (simp_all add: provisionerConfig_def vmProvisionPollInterval_def second_def run_conf_def sample_dvp_def)

lemma run_class: "yields False (provisionVMClass (run_fleet key) c) None False"
  using run_intervals(1) [of key]
  by (simp add: yields_def provisionVMClass_def waitVMClassReady_def Let_def virt_ops io_simps wait_pure_def waitForCondition_def
      loop_unfold poll_body_def pure_cond_def virtualMachineClassReady_def sample_class_def run_virt_def)

lemma run_image: "yields False (provisionImage (run_fleet key) c img) None False"
  using run_intervals(1) [of key]
  by (simp add: yields_def provisionImage_def create_absent_defs Let_def virt_ops io_simps wait_pure_def waitForCondition_def
      loop_unfold poll_body_def pure_cond_def clusterVirtualImageReady_def sample_cvi_def run_virt_def)

lemma run_create:
  assumes "CPU (pv_node pl) = 2" "RAM (pv_node pl) = 4" "0 < DiskSize (pv_node pl)"
  shows "yields False (createDiskAndVM (run_fleet key) c pl) None False"
  using assms
  by (simp add: yields_def createDiskAndVM_def create_absent_defs Let_def virt_ops io_simps buildVirtualDisk_def
      buildVirtualMachine_def sample_prov_def run_virt_def)

lemma run_running:
  "yields False (waitRunning (run_fleet key) c pl)
     (None, Some (run_ip (Hostname (pv_node pl)))) False"
  using run_intervals(1) [of key]
  by (simp add: yields_def waitRunning_def running_cond_def warnOnDiskFailure_def Let_def virt_ops io_simps waitForCondition_def
      loop_unfold poll_body_def virtualMachineRunning_def sample_vm_def run_virt_def)

lemma run_provision: "yields False (Provision (run_fleet key) c (with_setup run_loaded)) (None, run_def) False"
proof -
  obtain a b d where pl: "plan (with_setup run_loaded) = [a, b, d]" "pv_ref a = MasterRef 0" "Hostname (pv_node a) = ''m''"
    "pv_ref b = WorkerRef 0" "Hostname (pv_node b) = ''w''" "pv_ref d = SetupRef" "Hostname (pv_node d) = ''bootstrap-node''"
    and size: "\<forall>pl \<in> {a, b, d}. CPU (pv_node pl) = 2 \<and> RAM (pv_node pl) = 4 \<and> 0 < DiskSize (pv_node pl)"
    using run_plan by blast
  have "arrange (rt_order sample_rt False) [a, b, d] = [a, b, d]" by (simp add: arrange_def sample_rt_def)
  then have store: "store_ips (map (\<lambda>pl. (pl, Some (run_ip (Hostname (pv_node pl)))))
      (arrange (rt_order sample_rt False) [a, b, d])) (with_setup run_loaded) = run_def"
    using pl by (simp add: store_ips_def run_def_def run_ip_def)
  have "yields False (waitRunningAndCollectIPs (run_fleet key) c [a, b, d] (with_setup run_loaded)) (None, run_def) False"
    unfolding waitRunningAndCollectIPs_def
    by (rule yields_bind, rule yields_results, rule run_running) (simp add: store yields_ret)
  moreover have "yields False (provisionDisksAndVMs (run_fleet key) c [a, b, d]) None False"
    unfolding provisionDisksAndVMs_def by (rule yields_errgroup, rule run_create) (use size in auto)
  moreover have "yields False (provisionClusterVirtualImages (run_fleet key) c [a, b, d]) None False"
    unfolding provisionClusterVirtualImages_def by (rule yields_errgroup) (rule run_image)
  ultimately show ?thesis
    unfolding Provision_def Let_def pl(1)
    by (simp, intro yields_bind [OF run_class]) (simp, rule yields_bind, assumption, simp, rule yields_bind, assumption, simp)
qed

lemma run_def_facts: "Setup run_def = Some (DefaultSetupVM\<lparr>IPAddress := ''10.0.0.6''\<rparr>)" "firstMasterVMIP (Some run_def) = Inr ''10.0.0.5''"
  "nodes_want run_def = 2" "tl (Masters run_def) = []" "Workers run_def = [run_node\<lparr>Hostname := ''w'', IPAddress := ''10.0.0.7''\<rparr>]"
  "Modules (DKPParameters run_def) = [Some run_mod]" "RegistryRepo (DKPParameters run_def) = ''r''"
  by (simp_all add: run_def_def with_setup_def run_loaded_def run_node_def firstMasterVMIP_def sample_node_def nodes_want_def sample_def_tmp_def)

lemma run_params: "\<exists>params. buildBootstrapParams (Some run_def) (RegistryDockerCfg run_conf) = Inr params"
proof -
  have ips: "all_vm_ips run_def = [''10.0.0.5'', ''10.0.0.7'', ''10.0.0.6'']" "vm_ips (Masters run_def) = [''10.0.0.5'']"
    by (simp_all add: all_vm_ips_def vm_ips_def run_def_def with_setup_def run_loaded_def run_node_def sample_node_def DefaultSetupVM_def)
  have "calculateNetworkCIDR [''10.0.0.5'', ''10.0.0.7'', ''10.0.0.6''] = Inr ''10.0.0.0/24''" by code_simp
  moreover have "first_missing (required_params (DKPParameters run_def)) = None"
    by (simp add: required_params_def run_def_def with_setup_def run_loaded_def sample_def_tmp_def)
  ultimately show ?thesis by (simp add: buildBootstrapParams_def ips Let_def)
qed

text \<open>A run with this result whose calls show an event like this.\<close>

definition yields_seen :: "(event \<Rightarrow> bool) \<Rightarrow> 'e \<Rightarrow> ('e, 'r) act \<Rightarrow> 'r \<Rightarrow> 'e \<Rightarrow> bool" where
  "yields_seen P s m r s' \<longleftrightarrow> (\<forall>t. \<exists>u. m \<lparr>tr = t, est = s\<rparr> = Some (r, \<lparr>tr = t @ u, est = s'\<rparr>) \<and> list_ex P u)"

lemma seen_yields: "yields_seen P s m r s' \<Longrightarrow> yields s m r s'"
  unfolding yields_seen_def yields_def by blast

lemma seen_later:
  assumes "yields s m x s1" "yields_seen P s1 (k x) r s'"
  shows "yields_seen P s (io_bind m k) r s'"
  unfolding yields_seen_def
proof
  fix t
  from assms(1) obtain u where "m \<lparr>tr = t, est = s\<rparr> = Some (x, \<lparr>tr = t @ u, est = s1\<rparr>)" unfolding yields_def by blast
  moreover from assms(2) obtain v where "k x \<lparr>tr = t @ u, est = s1\<rparr> = Some (r, \<lparr>tr = (t @ u) @ v, est = s'\<rparr>)" "list_ex P v"
    unfolding yields_seen_def by blast
  ultimately show "\<exists>u. io_bind m k \<lparr>tr = t, est = s\<rparr> = Some (r, \<lparr>tr = t @ u, est = s'\<rparr>) \<and> list_ex P u"
    by (intro exI [of _ "u @ v"]) (simp add: io_bind_apply)
qed

lemma seen_first:
  assumes "yields_seen P s m x s1" "yields s1 (k x) r s'"
  shows "yields_seen P s (io_bind m k) r s'"
  unfolding yields_seen_def
proof
  fix t
  from assms(1) obtain u where "m \<lparr>tr = t, est = s\<rparr> = Some (x, \<lparr>tr = t @ u, est = s1\<rparr>)" "list_ex P u" unfolding yields_seen_def by blast
  moreover from assms(2) obtain v where "k x \<lparr>tr = t @ u, est = s1\<rparr> = Some (r, \<lparr>tr = (t @ u) @ v, est = s'\<rparr>)"
    unfolding yields_def by blast
  ultimately show "\<exists>u. io_bind m k \<lparr>tr = t, est = s\<rparr> = Some (r, \<lparr>tr = t @ u, est = s'\<rparr>) \<and> list_ex P u"
    by (intro exI [of _ "u @ v"]) (simp add: io_bind_apply)
qed

lemma seen_finally: "yields_seen P s m r s1 \<Longrightarrow> yields s1 cl () s' \<Longrightarrow> yields_seen P s (io_finally m cl) r s'"
  unfolding io_finally_def by (rule seen_first, assumption, rule yields_bind, assumption, rule yields_ret)

text \<open>The command that runs dhctl.\<close>

definition dhctl_run :: "string \<Rightarrow> event \<Rightarrow> bool" where
  "dhctl_run ip ev \<longleftrightarrow> (\<exists>p res. ev = Exec ip (buildDhctlBootstrapCommand p) (res, None))"

lemma run_file_step:
  assumes "cmd \<noteq> masterKubeconfigProbeCmd" "yields_seen P s k r s'"
  shows "yields_seen P s (run_step c (run_exec ip) cmd what k) r s'"
  unfolding run_step_def by (rule seen_later [OF run_command [OF assms(1)]]) (simp add: assms(2))

lemma run_commands_differ:
  "buildWriteFileCommand path content mode \<noteq> masterKubeconfigProbeCmd" "buildDockerLoginCommand host key \<noteq> masterKubeconfigProbeCmd"
  "removeCommand name \<noteq> masterKubeconfigProbeCmd" "buildDhctlBootstrapCommand p \<noteq> masterKubeconfigProbeCmd"
  "''sudo rm '' @ cmd \<noteq> masterKubeconfigProbeCmd" "''sudo cat '' @ cmd \<noteq> masterKubeconfigProbeCmd"
  by (simp_all add: masterKubeconfigProbeCmd_def buildWriteFileCommand_def buildDockerLoginCommand_def removeCommand_def buildDhctlBootstrapCommand_def)

lemma run_bootstrap_container: "yields_seen (dhctl_run ip) s (runDhctlBootstrap (dhctl_deps_of run_provider) c (run_exec ip) run_def) None s"
proof -
  let ?d = "dhctl_deps_of run_provider"
  have d: "dd_conf ?d = run_conf" "dd_rt ?d = sample_rt" "SSHPassphrase run_conf \<noteq> []" by (simp_all add: dhctl_deps_of_def run_sels run_conf_def)
  obtain params where params: "buildBootstrapParams (Some run_def) (RegistryDockerCfg run_conf) = Inr params" using run_params by blast
  have "trimSpace ''KEY'' = ''KEY''" by code_simp
  then obtain doc where doc: "buildDHCTLSSHConnectionConfig (dd_yaml ?d) (cred_SSHKey (dd_creds ?d)) (VMSSHUser run_conf) ''10.0.0.5'' (SSHPassphrase run_conf) = Inr doc"
    by (simp add: buildDHCTLSSHConnectionConfig_def dhctl_deps_of_def run_provider_def run_connector_def run_conf_def sample_dvp_def)
  have log: "yields s (collectRemoteLog c' (run_exec ip) path) ''server: x'' s" for c' path
    unfolding collectRemoteLog_def
    by (rule yields_bind [OF run_command], rule run_commands_differ, simp only: prod.case,
        rule yields_bind [OF run_command]) (simp_all add: run_commands_differ(5) [of "''-f '' @ x" for x, simplified] run_result_def yields_ret)
  have rm: "yields s (io_bind (run_exec ip c' (''sudo rm -rf -- '' @ path)) (\<lambda>_. io_ret ())) () s" for c' path
    by (rule yields_bind [OF run_command yields_ret]) (simp add: masterKubeconfigProbeCmd_def)
  have boot: "yields_seen (dhctl_run ip) s (run_exec ip c (buildDhctlBootstrapCommand p)) (run_result, None) s" for p
    using run_commands_differ(4) [of p] by (simp add: yields_seen_def io_simps run_connector_def run_answer_def dhctl_run_def) blast
  have "yields_seen (dhctl_run ip) s (run_container ?d c (run_exec ip) img m) None s" for img m
    unfolding run_container_def d(1,2) Let_def
    apply (rule seen_later [OF run_command [OF run_commands_differ(3)]])
    apply (rule seen_later [where x = 0], simp add: yields_def timeNow_def io_simps sample_rt_def)
    apply (rule seen_first [OF boot], simp only: prod.case d(3) if_True not_False_eq_True)
    apply (rule yields_bind [OF rm])
    apply (rule yields_bind [OF log], simp add: yields_ret)
    done
  then show ?thesis
    unfolding runDhctlBootstrap_def run_def_facts(2,7) sum.case Let_def d(1) params doc
    using d(3) by (simp, intro conjI impI run_file_step run_commands_differ) simp_all
qed

lemma run_dhctl: "yields_seen (dhctl_run ''10.0.0.6'') s (dhctlBootstrap (dhctl_deps_of run_provider) c run_def) None s"
proof -
  let ?d = "dhctl_deps_of run_provider" and ?m = "''10.0.0.5''" and ?s = "''10.0.0.6''"
  have d: "dd_vmExecutor ?d = VMExecutor run_connector" "dd_connectToMaster ?d = connectToMaster run_connector"
    "dd_rt ?d = sample_rt" "dd_api ?d cfg = run_kube" for cfg by (simp_all add: dhctl_deps_of_def run_sels)
  have inst: "yields s (deckhouseAlreadyInstalled ?d c ?m) (Inr False) s"
    unfolding deckhouseAlreadyInstalled_def d
    by (intro yields_bind [OF run_executor]) (simp only: sum.case prod.case, rule yields_bind [OF yields_finally [OF run_session]],
        simp add: run_answer_def yields_ret)
  have status: "yields s (dockerContainerStatus c (run_exec ?s) dhctlContainerName) (Inr ''server: x'') s"
    unfolding dockerContainerStatus_def
  proof (rule yields_bind [OF run_command])
    show "inspectCommand dhctlContainerName \<noteq> masterKubeconfigProbeCmd" by (simp add: inspectCommand_def masterKubeconfigProbeCmd_def)
    have "trimSpace (er_stdout run_result) = ''server: x''" unfolding run_result_def by code_simp
    then show "yields s (case (run_result, None) of (res, err) \<Rightarrow> io_ret (case err of
        Some e \<Rightarrow> Inl (wrapf (''inspect container '' @ go_quote dhctlContainerName @ '': '') e) | None \<Rightarrow> Inr (trimSpace (er_stdout res)))) (Inr ''server: x'') s"
      by (simp add: yields_ret)
  qed
  have idle: "''server: x'' \<noteq> ''running''" by simp
  have "yields_seen (dhctl_run ?s) s (ensureDhctlBootstrapped ?d c (run_exec ?s) run_def) None s"
    unfolding ensureDhctlBootstrapped_def run_def_facts(2) sum.case
    apply (rule seen_later [OF status], simp only: sum.case idle if_False)
    apply (rule seen_later [OF yields_ret], simp only: option.case)
    apply (rule seen_later [OF inst], simp only: sum.case if_False run_bootstrap_container)
    done
  from seen_finally [OF this run_session(2)] show ?thesis
    unfolding dhctlBootstrap_def run_def_facts(1) option.case d
    by (simp, intro seen_later [OF run_executor]) simp
qed

lemma run_delete: "yields False (deleteSetupNode c (run_fleet key) run_def) () True"
  unfolding deleteSetupNode_def run_def_facts option.case using run_intervals(1) [of key]
  by (simp add: yields_def DeleteNode_def deleteVirtualMachine_def deleteVirtualDisk_def waitDeleted_def Let_def virt_ops io_simps
      wait_pure_def waitForCondition_def loop_unfold poll_body_def pure_cond_def resourceDeleted_def run_virt_def)

lemma run_then: "yields s m None s1 \<Longrightarrow> yields s1 k None s' \<Longrightarrow> yields s (then_step m what k) None s'"
  unfolding then_step_def by (rule yields_bind, assumption, simp)

lemma run_do: "yields s m None s1 \<Longrightarrow> yields s1 k r s' \<Longrightarrow> yields s (do_step m wrap k) r s'"
  unfolding do_step_def by (rule yields_bind, assumption, simp)

lemma run_join_node:
  assumes "IPAddress n \<noteq> []"
  shows "yields s (joinNode sample_rt (VMExecutor run_connector) c n ''true'') None s"
proof -
  have "buildNodeBootstrapCommand ''true'' \<noteq> masterKubeconfigProbeCmd" by (simp add: buildNodeBootstrapCommand_def masterKubeconfigProbeCmd_def)
  from run_command [OF this]
  have "yields s (join_attempts sample_rt (run_exec ip) c' host (buildNodeBootstrapCommand ''true'') 1 (Suc k) None) None s" for ip c' host k
    unfolding join_attempts.simps by (rule yields_bind) (simp add: run_result_def yields_ret)
  from this [of _ _ _ 9] have "yields s (join_attempts sample_rt (run_exec ip) c' host (buildNodeBootstrapCommand ''true'') 1 joinRetryCount None) None s" for ip c' host
    by (simp add: joinRetryCount_def eval_nat_numeral)
  then show ?thesis unfolding joinNode_def using assms
    by (simp, intro yields_bind [OF run_executor]) (simp only: sum.case prod.case, rule yields_finally [OF _ run_session(2)])
qed

lemma run_join: "yields s (joinNodes sample_rt (VMExecutor run_connector) run_kube c run_def) None s"
proof -
  have names: "yields s (registeredNodeNames run_kube c) (Inr [''m'', ''w.local'']) s"
    by (simp add: yields_def registeredNodeNames_def io_simps run_kube_def master_node_def)
  have script: "yields s (getBootstrapScript run_kube c secret) (Inr ''true'') s" for secret
    by (simp add: yields_def getBootstrapScript_def io_simps run_kube_def Let_def)
  have "yields s (joinNodesWithClient sample_rt (VMExecutor run_connector) run_kube c run_def) None s"
    unfolding joinNodesWithClient_def Let_def run_def_facts
    apply (simp, rule yields_bind [OF names], simp add: pending_nodes_def group_joins_def)
    apply (rule yields_bind [where x = "Inr [(run_node\<lparr>Hostname := ''w'', IPAddress := ''10.0.0.7''\<rparr>, ''true'')]"])
     apply (rule yields_bind [OF script], simp, rule yields_ret)
    apply (simp, rule yields_bind [where x = "Inr []"], rule yields_ret)
    apply (simp, rule yields_errgroup, simp add: run_join_node)
    done
  then show ?thesis unfolding joinNodes_def with_clientset_def
    by (intro yields_bind [OF run_node_group], simp) (rule yields_bind [OF run_client], simp)
qed

lemma run_enable: "yields s (enableModules sample_rt sample_deckhouse c run_def) None s"
proof -
  have levels: "buildModuleLevels [Some run_mod] = Inr [[run_mod]]" by code_simp
  show ?thesis unfolding enableModules_def enableModulesInLevels_def run_def_facts
    by (simp add: levels yields_def io_simps errgroup_def errgroup_results_def arrange_def sample_apply sample_wait)
qed

lemma run_install_on: "yields s (install_on run_provider c run_def cfg) None s"
  unfolding install_on_def Let_def run_sels
  by (rule run_then [OF run_node_group run_then [OF run_waits(2) run_then [OF run_waits(1) run_then [OF run_join
        run_then [OF run_waits(4) [OF run_def_facts(3)] run_then [OF run_enable yields_ret]]]]]])

lemma run_bootstrap: "yields False (Bootstrap run_provider CtxRoot) None True"
proof -
  have valid: "ValidateForBootstrap run_conf = None"
    by (simp add: ValidateForBootstrap_def run_conf_def sample_dvp_def errors_Join_def)
  have key: "publicKeyFromPrivateKey (dp_keys run_provider) pem pass = Inr ''ssh-rsa KEY''" for pem pass
  proof -
    have "trimSpace ''ssh-rsa KEY'' = ''ssh-rsa KEY''" by code_simp
    then show ?thesis by (simp add: publicKeyFromPrivateKey_def parsePrivateKeySigner_def run_provider_def Let_def)
  qed
  have fleet: "yields False (fleet_New run_provider c cfg key) (Inr (run_fleet key)) False" for c cfg key
    unfolding fleet_New_def run_sels
    by (rule yields_bind [OF run_virt_client]) (simp add: yields_ret run_provider_def)
  have setup_node: "yields False (wait_setup_node run_provider c ip) None False" for c ip
    unfolding wait_setup_node_def run_sels
    by (rule yields_bind [OF run_executor], simp only: sum.case prod.case)
      (rule yields_bind [OF yields_finally [OF run_docker run_session(2)]], simp add: yields_ret)
  have check: "yields False (CheckReachable sample_rt run_kube c) None False" for c
    unfolding CheckReachable_def by (rule yields_bind [OF run_client]) (simp add: yields_ret)
  have on: "yields False (provision_on run_provider c run_loaded key cfg) (Inr (run_def, run_fleet key)) False" for c key cfg
    unfolding provision_on_def Let_def run_sels
    apply (intro run_do [OF check] run_do [OF run_module] run_do [OF run_namespace])
    apply (rule yields_bind [OF fleet], simp only: sum.case with_setup_def [symmetric])
    apply (rule yields_bind [OF run_provision], simp only: prod.case option.case, rule run_do [OF setup_node], rule yields_ret)
    done
  have prov: "yields False (provision run_provider CtxRoot) (Inr (run_def, run_fleet ''ssh-rsa KEY''), [io_ret ()]) False"
    unfolding provision_def run_load key sum.case run_sels
    by (rule yields_bind [OF run_connect], simp only: sum.case prod.case) (rule yields_bind [OF on], rule yields_ret)
  let ?cl = "run_tunnel_close ''10.0.0.5''"
  have inst: "yields False (installDeckhouse run_provider CtxRoot (run_fleet key) run_def [io_ret ()]) (None, [io_ret (), ?cl]) True" for key
    unfolding installDeckhouse_def run_def_facts sum.case run_sels
    apply (rule yields_bind [OF seen_yields [OF run_dhctl]], simp only: option.case)
    apply (rule yields_bind [OF run_delete], rule yields_bind [OF run_master(1)], simp only: sum.case prod.case)
    apply (rule yields_bind [OF run_install_on], simp add: yields_ret)
    done
  have clean: "yields True (runCleanups [io_ret (), ?cl]) () True"
    unfolding runCleanups_def rev.simps append.simps run_in_order.simps
    by (rule yields_bind [OF run_master(2)], rule yields_bind [OF yields_ret], rule yields_ret)
  show ?thesis
    unfolding Bootstrap_def run_sels valid option.case
    apply (rule yields_bind [OF prov], simp only: prod.case sum.case)
    apply (rule yields_bind [OF inst], simp only: prod.case, rule yields_bind [OF clean], rule yields_ret)
    done
qed

theorem bootstrap_in_order_witness:
  "(\<forall>cfg. api_names (ka_deckhouse (dp_api run_provider cfg))) \<and>
   (\<exists>def m u. Bootstrap run_provider CtxRoot \<lparr>tr = [], est = False\<rparr> = Some (None, \<lparr>tr = u, est = True\<rparr>) \<and>
     dp_LoadClusterDefinition run_provider = Inr run_loaded \<and> Workers run_loaded \<noteq> [] \<and> Modules (DKPParameters run_loaded) = [Some run_mod] \<and>
     firstMasterVMIP (Some def) = Inr m \<and>
     phases (provision_order ''Ready'' ''e2e-test-cluster'' run_loaded def @ install_order run_provider (setup_ip def) m ''Ready'' def) u)"
proof -
  from run_bootstrap obtain u where run: "Bootstrap run_provider CtxRoot \<lparr>tr = [], est = False\<rparr> = Some (None, \<lparr>tr = u, est = True\<rparr>)"
    unfolding yields_def by (metis append_Nil)
  have names: "api_names (ka_deckhouse (dp_api run_provider cfg))" for cfg
    by (simp add: run_sels api_names_def sample_deckhouse_def)
  have ready: "da_phaseReady (ka_deckhouse (dp_api run_provider cfg)) = ''Ready''" "dvp_Namespace (dp_conf run_provider) = ''e2e-test-cluster''" for cfg
    by (simp_all add: run_sels sample_deckhouse_def run_conf_def sample_dvp_def)
  have loaded: "Workers run_loaded \<noteq> []" "Modules (DKPParameters run_loaded) = [Some run_mod]" by (simp_all add: run_loaded_def)
  from bootstrap_in_order [OF names run, unfolded ready run_load] obtain def m where "firstMasterVMIP (Some def) = Inr m"
    "phases (provision_order ''Ready'' ''e2e-test-cluster'' run_loaded def @ install_order run_provider (setup_ip def) m ''Ready'' def) u" by auto
  with run names loaded run_load show ?thesis by blast
qed

theorem dhctl_bootstrap_guarded_witness:
  "firstMasterVMIP (Some run_def) = Inr ''10.0.0.5'' \<and> Setup run_def = Some (DefaultSetupVM\<lparr>IPAddress := ''10.0.0.6''\<rparr>) \<and> SSHPassphrase (dp_conf run_provider) \<noteq> [] \<and>
   (\<exists>u. dhctlBootstrap (dhctl_deps_of run_provider) CtxRoot run_def \<lparr>tr = [], est = False\<rparr> = Some (None, \<lparr>tr = u, est = False\<rparr>) \<and>
     list_ex (dhctl_run ''10.0.0.6'') u \<and> bootstrapped (dp_yaml run_provider) (dp_conf run_provider) ''10.0.0.6'' ''10.0.0.5'' u \<and>
     (\<forall>a r b. u = a @ Exec ''10.0.0.6'' (removeCommand dhctlContainerName) r # b \<longrightarrow> no_kubeconfig ''10.0.0.5'' a \<and> container_idle ''10.0.0.6'' a))"
proof -
  from run_dhctl obtain u where run: "dhctlBootstrap (dhctl_deps_of run_provider) CtxRoot run_def \<lparr>tr = [], est = False\<rparr> =
      Some (None, \<lparr>tr = u, est = False\<rparr>)" "list_ex (dhctl_run ''10.0.0.6'') u" unfolding yields_seen_def by (metis append_Nil)
  have pass: "SSHPassphrase (dp_conf run_provider) \<noteq> []" by (simp add: run_sels run_conf_def)
  have other: "removeCommand dhctlContainerName \<notin> {masterKubeconfigProbeCmd, getKubeconfigRemoteShell, inspectCommand dhctlContainerName, waitCommand dhctlContainerName}"
    by (simp add: removeCommand_def masterKubeconfigProbeCmd_def getKubeconfigRemoteShell_def inspectCommand_def waitCommand_def)
  have ip: "IPAddress (DefaultSetupVM\<lparr>IPAddress := ''10.0.0.6''\<rparr>) = ''10.0.0.6''" by simp
  from dhctl_bootstrap_guarded [OF run_def_facts(2,1) run(1), unfolded ip] have
    "bootstrapped (dp_yaml run_provider) (dp_conf run_provider) ''10.0.0.6'' ''10.0.0.5'' u"
    "\<forall>a r b. u = a @ Exec ''10.0.0.6'' (removeCommand dhctlContainerName) r # b \<longrightarrow> no_kubeconfig ''10.0.0.5'' a \<and> container_idle ''10.0.0.6'' a"
    unfolding world.select_convs append_Nil using other by (blast, blast)
  with run pass run_def_facts(1,2) show ?thesis by blast
qed

theorem provider_keeps_nothing_open_witness:
  "\<exists>w'. Bootstrap run_provider CtxRoot \<lparr>tr = [], est = False\<rparr> = Some (None, w') \<and> opens (tr w') = opens []"
proof -
  from run_bootstrap obtain u where run: "Bootstrap run_provider CtxRoot \<lparr>tr = [], est = False\<rparr> = Some (None, \<lparr>tr = [] @ u, est = True\<rparr>)"
    unfolding yields_def by blast
  have "poll_lib_ok (dp_poll run_provider)" by (simp add: run_provider_def run_poll_ok)
  from provider_keeps_nothing_open [OF this] run show ?thesis by fastforce
qed

end
