(* ===== verification/Commander_Client.thy ===== *)
theory Commander_Client
  imports Connector "HOL-Library.AList"
begin

text \<open>
  The client of the Deckhouse Commander API, \<^verbatim>\<open>internal/kubernetes/commander\<close>: its requests, and what it makes of the
  responses. An HTTP exchange is one call; the response body is read and closed with it. The text of a body
  is turned into values by \<^verbatim>\<open>encoding/json\<close>, which is a parameter (\<open>json_lib\<close>), one function per target type. Values of
  type \<^verbatim>\<open>interface{}\<close> are \<open>json\<close> trees; an object is an association list with distinct keys.
\<close>

section \<open>Data\<close>

text \<open>The type assertions \<^verbatim>\<open>v.(map[string]interface{})\<close>, \<^verbatim>\<open>v.([]interface{})\<close>, \<^verbatim>\<open>v.(string)\<close> and \<^verbatim>\<open>v.(float64)\<close>.\<close>

fun as_object :: "json \<Rightarrow> (string \<times> json) list option" where
  "as_object (JObj kvs) = Some kvs"
| "as_object v = None"

fun as_array :: "json \<Rightarrow> json list option" where
  "as_array (JArr vs) = Some vs"
| "as_array v = None"

fun as_string :: "json \<Rightarrow> string option" where
  "as_string (JStr s) = Some s"
| "as_string v = None"

fun as_number :: "json \<Rightarrow> rat option" where
  "as_number (JNum x) = Some x"
| "as_number v = None"

text \<open>\<^verbatim>\<open>m[k].(string)\<close> and the like; an absent key is a nil value.\<close>

definition field :: "(json \<Rightarrow> 'a option) \<Rightarrow> (string \<times> json) list \<Rightarrow> string \<Rightarrow> 'a option" where
  "field as m k = Option.bind (map_of m k) as"

text \<open>\<^verbatim>\<open>int(x)\<close> of a float: towards zero.\<close>

definition float_int :: "rat \<Rightarrow> int" where
  "float_int x = (if x < 0 then - \<lfloor>- x\<rfloor> else \<lfloor>x\<rfloor>)"

record cluster_response =
  cr_ID :: string
  cr_CurrentRevision :: int
  cr_Name :: string
  cr_Status :: string
  cr_Values :: json
  cr_ClusterTemplateVersionID :: string
  cr_RegistryID :: string
  cr_RegistryMode :: string
  cr_ClusterAgentData :: json
  cr_ConnectionHosts :: json
  cr_Phase :: string
  cr_SSHHost :: string
  cr_SSHUser :: string
  cr_SSHPort :: int
  cr_Message :: string

record cluster_status =
  cs_Phase :: string
  cs_Message :: string
  cs_APIEndpoint :: string

record commander_cluster =
  cc_Name :: string
  cc_Status :: cluster_status

record template_version =
  tv_ID :: string
  tv_Name :: string

record cluster_template =
  ct_ID :: string
  ct_Name :: string
  ct_CurrentVersionID :: string
  ct_ClusterTemplateVersions :: "template_version list"
  ct_Versions :: "template_version list"

record registry_response =
  rg_ID :: string
  rg_Name :: string

record create_request =
  cq_Name :: string
  cq_ClusterTemplateVersionID :: string
  cq_RegistryID :: string
  cq_Values :: "(string \<times> json) list"

record update_request =
  uq_Name :: string
  uq_ClusterTemplateVersionID :: string
  uq_RegistryID :: string
  uq_RegistryMode :: string
  uq_CurrentRevision :: int
  uq_Values :: "(string \<times> json) list"

record change_request =
  ch_ID :: string
  ch_ClusterID :: string
  ch_Status :: string

record connection_info =
  ci_Kubeconfig :: string
  ci_APIEndpoint :: string
  ci_SSHHost :: string
  ci_SSHUser :: string
  ci_SSHPort :: int

text \<open>The phases, and the errors callers compare with.\<close>

definition ClusterPhaseDraft :: string where "ClusterPhaseDraft = ''Draft''"
definition ClusterPhaseCreating :: string where "ClusterPhaseCreating = ''Creating''"
definition ClusterPhaseReadyToJoin :: string where "ClusterPhaseReadyToJoin = ''ReadyToJoin''"
definition ClusterPhaseJoining :: string where "ClusterPhaseJoining = ''Joining''"
definition ClusterPhaseReady :: string where "ClusterPhaseReady = ''Ready''"
definition ClusterPhaseUpdating :: string where "ClusterPhaseUpdating = ''Updating''"
definition ClusterPhaseDeleting :: string where "ClusterPhaseDeleting = ''Deleting''"
definition ClusterPhaseFailed :: string where "ClusterPhaseFailed = ''Failed''"

definition ErrClusterNotFound :: goerr where "ErrClusterNotFound = ErrSentinel ''cluster not found''"
definition ErrTemplateNotFound :: goerr where "ErrTemplateNotFound = ErrSentinel ''template not found''"
definition ErrRevisionConflict :: goerr where "ErrRevisionConflict = ErrSentinel ''cluster revision conflict''"
definition ErrClusterCannotConverge :: goerr where "ErrClusterCannotConverge = ErrSentinel ''cluster cannot be converged''"

definition mapStatusToPhase :: "string \<Rightarrow> string" where
  "mapStatusToPhase status =
     (let s = toLower status in
      if s \<in> {''in_sync'', ''insync'', ''ready'', ''running'', ''active''} then ClusterPhaseReady
      else if s = ''new'' then ClusterPhaseDraft
      else if s \<in> {''creating'', ''provisioning'', ''bootstrapping''} then ClusterPhaseCreating
      else if s \<in> {''updating'', ''upgrading''} then ClusterPhaseUpdating
      else if s \<in> {''deleting'', ''terminating''} then ClusterPhaseDeleting
      else if s \<in> {''failed'', ''error''} then ClusterPhaseFailed
      else if s = ''joining'' then ClusterPhaseJoining
      else if s \<in> {''ready_to_join'', ''readytojoin''} then ClusterPhaseReadyToJoin
      else status)"


section \<open>The libraries\<close>

text \<open>
  \<^verbatim>\<open>net/http\<close> and \<^verbatim>\<open>net/url\<close>: the check of a request's address, the exchange, the serialisation of a cookie, the two
  escapings; \<open>hl_select\<close> is the \<^verbatim>\<open>select\<close> between a context, a timer and a ticker. Files and certificates for
  \<^verbatim>\<open>NewClientWithOptions\<close>.
\<close>

record http_client =
  hc_timeout :: int
  hc_insecureSkipVerify :: bool
  hc_rootCAs :: "string option"

record 'e http_lib =
  hl_newRequest :: "string \<Rightarrow> string \<Rightarrow> goerr option"
  hl_Do :: "http_client \<Rightarrow> ctx \<Rightarrow> http_request \<Rightarrow> 'e \<Rightarrow> (goerr + http_response) \<times> 'e"
  hl_cookie :: "string \<Rightarrow> string \<Rightarrow> string"
  hl_PathEscape :: "string \<Rightarrow> string"
  hl_QueryEscape :: "string \<Rightarrow> string"
  hl_ReadFile :: "string \<Rightarrow> goerr + string"
  hl_AppendCertsFromPEM :: "string \<Rightarrow> bool"
  hl_select :: "ctx \<Rightarrow> int \<Rightarrow> int \<Rightarrow> 'e \<Rightarrow> select3 \<times> 'e"

text \<open>
  \<^verbatim>\<open>encoding/json\<close>. The functions on responses are \<^verbatim>\<open>Decoder.Decode\<close>, which reads the body itself; those on strings are
  \<^verbatim>\<open>Unmarshal\<close>. A pair of lists is an object with \<^verbatim>\<open>items\<close> and \<^verbatim>\<open>data\<close>. \<open>jl_values\<close> decodes into a map, which is nil (\<open>None\<close>) for
  the text \<^verbatim>\<open>null\<close>. \<open>jl_show\<close> is what \<^verbatim>\<open>%v\<close> prints.
\<close>

record json_lib =
  jl_decodeCluster :: "http_response \<Rightarrow> goerr + cluster_response"
  jl_decodeCommanderCluster :: "http_response \<Rightarrow> goerr + commander_cluster"
  jl_decodeTemplate :: "http_response \<Rightarrow> goerr + string"
  jl_decodeTemplateList :: "http_response \<Rightarrow> goerr + string list"
  jl_cluster :: "string \<Rightarrow> goerr + cluster_response"
  jl_clusters :: "string \<Rightarrow> goerr + cluster_response list"
  jl_clusterList :: "string \<Rightarrow> goerr + cluster_response list \<times> cluster_response list"
  jl_templates :: "string \<Rightarrow> goerr + cluster_template list"
  jl_templateList :: "string \<Rightarrow> goerr + cluster_template list \<times> cluster_template list"
  jl_versions :: "string \<Rightarrow> goerr + template_version list"
  jl_versionList :: "string \<Rightarrow> goerr + template_version list \<times> template_version list"
  jl_registries :: "string \<Rightarrow> goerr + registry_response list"
  jl_registryList :: "string \<Rightarrow> goerr + registry_response list \<times> registry_response list"
  jl_changes :: "string \<Rightarrow> goerr + change_request list"
  jl_changeList :: "string \<Rightarrow> goerr + change_request list \<times> change_request list"
  jl_kubeconfig :: "string \<Rightarrow> goerr + string \<times> string \<times> string"
  jl_values :: "string \<Rightarrow> goerr + (string \<times> json) list option"
  jl_marshalCreate :: "create_request \<Rightarrow> goerr + string"
  jl_marshalUpdate :: "update_request \<Rightarrow> goerr + string"
  jl_marshalCluster :: "commander_cluster \<Rightarrow> goerr + string"
  jl_show :: "json \<Rightarrow> string"

section \<open>The client\<close>

definition AuthMethodBearer :: string where "AuthMethodBearer = ''bearer''"
definition AuthMethodToken :: string where "AuthMethodToken = ''token''"
definition AuthMethodXAuthToken :: string where "AuthMethodXAuthToken = ''x-auth-token''"
definition AuthMethodCookie :: string where "AuthMethodCookie = ''cookie''"
definition AuthMethodBasic :: string where "AuthMethodBasic = ''basic''"

record commander_client =
  cl_baseURL :: string
  cl_apiPrefix :: string
  cl_token :: string
  cl_authMethod :: string
  cl_authUser :: string
  cl_httpClient :: http_client

record client_options =
  op_InsecureSkipTLSVerify :: bool
  op_CACertPath :: string
  op_AuthMethod :: string
  op_AuthUser :: string
  op_APIPrefix :: string
  op_RequestTimeout :: int

definition loadRootCAs :: "'e http_lib \<Rightarrow> client_options \<Rightarrow> goerr + string option" where
  "loadRootCAs lib opts =
     (if op_InsecureSkipTLSVerify opts \<or> op_CACertPath opts = [] then Inr None
      else case hl_ReadFile lib (op_CACertPath opts) of
        Inl e \<Rightarrow> Inl (wrapf (''failed to read CA certificate from '' @ op_CACertPath opts @ '': '') e)
      | Inr caCert \<Rightarrow> if \<not> hl_AppendCertsFromPEM lib caCert
          then Inl (ErrText (''failed to parse CA certificate from '' @ op_CACertPath opts))
          else Inr (Some caCert))"

definition NewClientWithOptions :: "'e http_lib \<Rightarrow> string \<Rightarrow> string \<Rightarrow> client_options \<Rightarrow> goerr + commander_client" where
  "NewClientWithOptions lib baseURL token opts =
     (if baseURL = [] then Inl (ErrText ''baseURL cannot be empty'')
      else if token = [] then Inl (ErrText ''token cannot be empty'')
      else case loadRootCAs lib opts of
        Inl e \<Rightarrow> Inl e
      | Inr cas \<Rightarrow> Inr
          \<lparr>cl_baseURL = trimSuffix baseURL ''/'',
           cl_apiPrefix = trimSuffix (if op_APIPrefix opts = [] then ''/api/v1'' else op_APIPrefix opts) ''/'',
           cl_token = token,
           cl_authMethod = (if op_AuthMethod opts = [] then AuthMethodXAuthToken else op_AuthMethod opts),
           cl_authUser = op_AuthUser opts,
           cl_httpClient = \<lparr>hc_timeout = (if op_RequestTimeout opts \<le> 0 then 120 * second else op_RequestTimeout opts),
             hc_insecureSkipVerify = op_InsecureSkipTLSVerify opts, hc_rootCAs = cas\<rparr>\<rparr>)"

definition setAuthHeaders :: "'e http_lib \<Rightarrow> commander_client \<Rightarrow> (string \<times> string) list" where
  "setAuthHeaders lib cl =
     [if cl_authMethod cl = AuthMethodToken then (''Authorization'', ''Token '' @ cl_token cl)
      else if cl_authMethod cl = AuthMethodXAuthToken then (''X-Auth-Token'', cl_token cl)
      else if cl_authMethod cl = AuthMethodCookie then (''Cookie'', hl_cookie lib ''token'' (cl_token cl))
      else if cl_authMethod cl = AuthMethodBasic then (''Authorization'', ''Basic '' @ base64 (cl_authUser cl @ '':'' @ cl_token cl))
      else (''Authorization'', ''Bearer '' @ cl_token cl),
      (''Accept'', ''application/json'')]"

text \<open>
  What every method begins with: the request is built, given its headers (and the content type when it
  has a body), and sent.
\<close>

definition api_url :: "commander_client \<Rightarrow> string \<Rightarrow> string" where
  "api_url cl path = cl_baseURL cl @ cl_apiPrefix cl @ path"

definition request_of :: "'e http_lib \<Rightarrow> commander_client \<Rightarrow> string \<Rightarrow> string \<Rightarrow> string option \<Rightarrow> http_request" where
  "request_of lib cl verb path body = \<lparr>rq_method = verb, rq_url = api_url cl path,
     rq_headers = setAuthHeaders lib cl @ (case body of None \<Rightarrow> [] | Some _ \<Rightarrow> [(''Content-Type'', ''application/json'')]), rq_body = body\<rparr>"

definition send :: "'e http_lib \<Rightarrow> commander_client \<Rightarrow> ctx \<Rightarrow> string \<Rightarrow> string \<Rightarrow> string option \<Rightarrow> ('e, goerr + http_response) act" where
  "send lib cl c verb path body =
     (case hl_newRequest lib verb (api_url cl path) of
        Some e \<Rightarrow> io_ret (Inl (wrapf ''failed to create request: '' e))
      | None \<Rightarrow> io_bind (call (Http (request_of lib cl verb path body)) (hl_Do lib (cl_httpClient cl) c (request_of lib cl verb path body))) (\<lambda>r.
          io_ret (wrap_left ''failed to send request: '' r)))"

definition unexpected_status :: "http_response \<Rightarrow> goerr" where
  "unexpected_status resp = ErrText (''unexpected status code '' @ itoa (rs_status resp) @ '': '' @ rs_body resp)"

text \<open>The body as an array, or as an object with the list under \<^verbatim>\<open>items\<close> or \<^verbatim>\<open>data\<close>.\<close>

definition items_or_data :: "'a list \<times> 'a list \<Rightarrow> 'a list" where
  "items_or_data p = (if fst p \<noteq> [] then fst p else snd p)"

definition decode_list :: "(string \<Rightarrow> goerr + 'a list) \<Rightarrow> (string \<Rightarrow> goerr + 'a list \<times> 'a list) \<Rightarrow> string \<Rightarrow> goerr + 'a list" where
  "decode_list arr obj body =
     (case arr body of
        Inr xs \<Rightarrow> Inr xs
      | Inl _ \<Rightarrow> (case obj body of Inl e \<Rightarrow> Inl (wrapf ''failed to decode response: '' e) | Inr p \<Rightarrow> Inr (items_or_data p)))"

text \<open>A \<^verbatim>\<open>GET\<close> of a list.\<close>

definition list_response :: "(string \<Rightarrow> goerr + 'a list) \<Rightarrow> http_response \<Rightarrow> goerr + 'a list" where
  "list_response decode resp =
     (if rs_status resp \<noteq> 200 then Inl (unexpected_status resp)
      else case rs_readErr resp of
        Some e \<Rightarrow> Inl (wrapf ''failed to read response body: '' e)
      | None \<Rightarrow> decode (rs_body resp))"

section \<open>Reading\<close>

definition GetClusterByID :: "'e http_lib \<Rightarrow> json_lib \<Rightarrow> commander_client \<Rightarrow> ctx \<Rightarrow> string \<Rightarrow> ('e, goerr + cluster_response) act" where
  "GetClusterByID lib js cl c cid =
     io_try (send lib cl c ''GET'' (''/clusters/'' @ cid) None) (\<lambda>e. e) (\<lambda>resp. io_ret (
       if rs_status resp = 404 then Inl ErrClusterNotFound
       else if rs_status resp \<noteq> 200 then Inl (unexpected_status resp)
       else wrap_left ''failed to decode response: '' (jl_decodeCluster js resp)))"

definition body_preview :: "string \<Rightarrow> string" where
  "body_preview body = (if length body > 500 then take 500 body @ ''...'' else body)"

definition decode_clusters :: "json_lib \<Rightarrow> string \<Rightarrow> goerr + cluster_response list" where
  "decode_clusters js body =
     (case jl_clusters js body of
        Inr xs \<Rightarrow> Inr xs
      | Inl arrayErr \<Rightarrow> (case jl_clusterList js body of
          Inr p \<Rightarrow> Inr (items_or_data p)
        | Inl objectErr \<Rightarrow> Inl (ErrText (''failed to decode response (array error: '' @ error_text arrayErr @ '', object error: '' @
            error_text objectErr @ '', body preview: '' @ body_preview body @ '')''))))"

definition ListClustersAPI :: "'e http_lib \<Rightarrow> json_lib \<Rightarrow> commander_client \<Rightarrow> ctx \<Rightarrow> ('e, goerr + cluster_response list) act" where
  "ListClustersAPI lib js cl c =
     io_try (send lib cl c ''GET'' ''/clusters'' None) (\<lambda>e. e) (\<lambda>resp. io_ret (list_response (decode_clusters js) resp))"

definition GetClusterByName :: "'e http_lib \<Rightarrow> json_lib \<Rightarrow> commander_client \<Rightarrow> ctx \<Rightarrow> string \<Rightarrow> ('e, goerr + cluster_response) act" where
  "GetClusterByName lib js cl c name =
     io_try (ListClustersAPI lib js cl c) (wrapf ''failed to list clusters: '') (\<lambda>clusters. io_ret (
       case find (\<lambda>x. cr_Name x = name) clusters of Some x \<Rightarrow> Inr x | None \<Rightarrow> Inl ErrClusterNotFound))"

definition api_endpoint :: "json \<Rightarrow> string" where
  "api_endpoint hosts = (case Option.bind (as_object hosts) (\<lambda>m. field as_string m ''api_endpoint'') of Some s \<Rightarrow> s | None \<Rightarrow> [])"

definition to_cluster :: "cluster_response \<Rightarrow> commander_cluster" where
  "to_cluster x = \<lparr>cc_Name = cr_Name x, cc_Status = \<lparr>cs_Phase = mapStatusToPhase (cr_Status x), cs_Message = cr_Message x,
     cs_APIEndpoint = api_endpoint (cr_ConnectionHosts x)\<rparr>\<rparr>"

definition GetCluster :: "'e http_lib \<Rightarrow> json_lib \<Rightarrow> commander_client \<Rightarrow> ctx \<Rightarrow> string \<Rightarrow> ('e, goerr + commander_cluster) act" where
  "GetCluster lib js cl c name = io_try (GetClusterByName lib js cl c name) (\<lambda>e. e) (\<lambda>x. io_ret (Inr (to_cluster x)))"

definition ListClusters :: "'e http_lib \<Rightarrow> json_lib \<Rightarrow> commander_client \<Rightarrow> ctx \<Rightarrow> ('e, goerr + commander_cluster list) act" where
  "ListClusters lib js cl c = io_try (ListClustersAPI lib js cl c) (\<lambda>e. e) (\<lambda>xs. io_ret (Inr (map to_cluster xs)))"

definition ListClusterTemplates :: "'e http_lib \<Rightarrow> json_lib \<Rightarrow> commander_client \<Rightarrow> ctx \<Rightarrow> ('e, goerr + cluster_template list) act" where
  "ListClusterTemplates lib js cl c =
     io_try (send lib cl c ''GET'' ''/cluster_templates'' None) (\<lambda>e. e) (\<lambda>resp.
       io_ret (list_response (decode_list (jl_templates js) (jl_templateList js)) resp))"

definition GetClusterTemplateByName :: "'e http_lib \<Rightarrow> json_lib \<Rightarrow> commander_client \<Rightarrow> ctx \<Rightarrow> string \<Rightarrow> ('e, goerr + cluster_template) act" where
  "GetClusterTemplateByName lib js cl c name =
     io_try (ListClusterTemplates lib js cl c) (wrapf ''failed to list templates: '') (\<lambda>ts. io_ret (
       case find (\<lambda>t. ct_Name t = name) ts of Some t \<Rightarrow> Inr t | None \<Rightarrow> Inl ErrTemplateNotFound))"

definition GetClusterTemplateVersions :: "'e http_lib \<Rightarrow> json_lib \<Rightarrow> commander_client \<Rightarrow> ctx \<Rightarrow> string \<Rightarrow> ('e, goerr + template_version list) act" where
  "GetClusterTemplateVersions lib js cl c templateID =
     io_try (send lib cl c ''GET'' (''/cluster_templates/'' @ templateID @ ''/versions'') None) (\<lambda>e. e) (\<lambda>resp.
       io_ret (list_response (decode_list (jl_versions js) (jl_versionList js)) resp))"

definition GetTemplate :: "'e http_lib \<Rightarrow> json_lib \<Rightarrow> commander_client \<Rightarrow> ctx \<Rightarrow> string \<Rightarrow> ('e, goerr + string) act" where
  "GetTemplate lib js cl c name =
     io_try (send lib cl c ''GET'' (''/cluster_templates/'' @ hl_PathEscape lib name) None) (\<lambda>e. e) (\<lambda>resp. io_ret (
       if rs_status resp = 404 then Inl ErrTemplateNotFound
       else if rs_status resp \<noteq> 200 then Inl (unexpected_status resp)
       else wrap_left ''failed to decode response: '' (jl_decodeTemplate js resp)))"

definition ListTemplates :: "'e http_lib \<Rightarrow> json_lib \<Rightarrow> commander_client \<Rightarrow> ctx \<Rightarrow> ('e, goerr + string list) act" where
  "ListTemplates lib js cl c =
     io_try (send lib cl c ''GET'' ''/cluster_templates'' None) (\<lambda>e. e) (\<lambda>resp. io_ret (
       if rs_status resp \<noteq> 200 then Inl (unexpected_status resp)
       else wrap_left ''failed to decode response: '' (jl_decodeTemplateList js resp)))"

definition ListRegistries :: "'e http_lib \<Rightarrow> json_lib \<Rightarrow> commander_client \<Rightarrow> ctx \<Rightarrow> ('e, goerr + registry_response list) act" where
  "ListRegistries lib js cl c =
     io_try (send lib cl c ''GET'' ''/registries'' None) (\<lambda>e. e) (\<lambda>resp.
       io_ret (list_response (decode_list (jl_registries js) (jl_registryList js)) resp))"

text \<open>The registry of that name, else the first whose name contains it.\<close>

definition pick_registry :: "string \<Rightarrow> registry_response list \<Rightarrow> registry_response option" where
  "pick_registry name rs =
     (case find (\<lambda>r. rg_Name r = name) rs of Some r \<Rightarrow> Some r | None \<Rightarrow> find (\<lambda>r. str_contains (rg_Name r) name) rs)"

definition GetRegistryByName :: "'e http_lib \<Rightarrow> json_lib \<Rightarrow> commander_client \<Rightarrow> ctx \<Rightarrow> string \<Rightarrow> ('e, goerr + registry_response) act" where
  "GetRegistryByName lib js cl c name =
     io_try (ListRegistries lib js cl c) (wrapf ''failed to list registries: '') (\<lambda>rs. io_ret (
       case pick_registry name rs of Some r \<Rightarrow> Inr r | None \<Rightarrow> Inl (ErrText (''registry '' @ [squote] @ name @ [squote] @ '' not found''))))"



section \<open>Creating and deleting\<close>

definition CreateCluster :: "'e http_lib \<Rightarrow> json_lib \<Rightarrow> commander_client \<Rightarrow> ctx \<Rightarrow> commander_cluster \<Rightarrow> ('e, goerr + commander_cluster) act" where
  "CreateCluster lib js cl c cluster =
     (case jl_marshalCluster js cluster of
        Inl e \<Rightarrow> io_ret (Inl (wrapf ''failed to marshal cluster: '' e))
      | Inr body \<Rightarrow> io_try (send lib cl c ''POST'' ''/clusters'' (Some body)) (\<lambda>e. e) (\<lambda>resp. io_ret (
          if rs_status resp \<noteq> 201 \<and> rs_status resp \<noteq> 200 then Inl (unexpected_status resp)
          else wrap_left ''failed to decode response: '' (jl_decodeCommanderCluster js resp))))"

definition CreateClusterFromTemplate ::
  "'e http_lib \<Rightarrow> json_lib \<Rightarrow> commander_client \<Rightarrow> ctx \<Rightarrow> string \<Rightarrow> string \<Rightarrow> string \<Rightarrow> (string \<times> json) list \<Rightarrow> ('e, goerr + cluster_response) act" where
  "CreateClusterFromTemplate lib js cl c name templateVersionID registryID values =
     (case jl_marshalCreate js \<lparr>cq_Name = name, cq_ClusterTemplateVersionID = templateVersionID, cq_RegistryID = registryID, cq_Values = values\<rparr> of
        Inl e \<Rightarrow> io_ret (Inl (wrapf ''failed to marshal request: '' e))
      | Inr body \<Rightarrow> io_try (send lib cl c ''POST'' ''/clusters'' (Some body)) (\<lambda>e. e) (\<lambda>resp. io_ret (
          if rs_status resp \<noteq> 201 \<and> rs_status resp \<noteq> 200 then Inl (unexpected_status resp)
          else wrap_left ''failed to decode response: '' (jl_decodeCluster js resp))))"

definition DeleteClusterByID :: "'e http_lib \<Rightarrow> commander_client \<Rightarrow> ctx \<Rightarrow> string \<Rightarrow> ('e, goerr option) act" where
  "DeleteClusterByID lib cl c cid =
     io_bind (send lib cl c ''DELETE'' (''/clusters/'' @ cid) None) (\<lambda>r. io_ret (case r of
       Inl e \<Rightarrow> Some e
     | Inr resp \<Rightarrow> if rs_status resp \<noteq> 200 \<and> rs_status resp \<noteq> 204 \<and> rs_status resp \<noteq> 202 then Some (unexpected_status resp) else None))"

definition DeleteCluster :: "'e http_lib \<Rightarrow> json_lib \<Rightarrow> commander_client \<Rightarrow> ctx \<Rightarrow> string \<Rightarrow> ('e, goerr option) act" where
  "DeleteCluster lib js cl c name =
     io_bind (GetClusterByName lib js cl c name) (\<lambda>r. case r of
       Inl e \<Rightarrow> io_ret (Some (wrapf (''failed to find cluster '' @ [squote] @ name @ [squote] @ '': '') e))
     | Inr cluster \<Rightarrow> DeleteClusterByID lib cl c (cr_ID cluster))"

section \<open>How to reach a cluster\<close>

definition kubeconfig_in :: "(string \<times> json) list \<Rightarrow> string option" where
  "kubeconfig_in m = (case field as_string m ''kubeconfig'' of Some s \<Rightarrow> if s \<noteq> [] then Some s else None | None \<Rightarrow> None)"

text \<open>The places where the details of a cluster may hold its kubeconfig, in the order they are searched.\<close>

definition kubeconfig_places :: "cluster_response \<Rightarrow> string option list" where
  "kubeconfig_places x =
     (let agent = as_object (cr_ClusterAgentData x) in
      [Option.bind agent (\<lambda>m. Option.bind (field as_object m ''data'') kubeconfig_in),
       Option.bind agent kubeconfig_in,
       Option.bind (as_object (cr_ConnectionHosts x)) kubeconfig_in,
       Option.bind (as_object (cr_Values x)) kubeconfig_in])"

definition getKubeconfigFromClusterDetails :: "'e http_lib \<Rightarrow> json_lib \<Rightarrow> commander_client \<Rightarrow> ctx \<Rightarrow> string \<Rightarrow> ('e, goerr + string) act" where
  "getKubeconfigFromClusterDetails lib js cl c cid =
     io_try (GetClusterByID lib js cl c cid) (wrapf ''failed to get cluster details: '') (\<lambda>x. io_ret (
       case List.map_filter (\<lambda>p. p) (kubeconfig_places x) of
         k # _ \<Rightarrow> Inr k
       | [] \<Rightarrow> Inl (ErrText (''kubeconfig not found in cluster response (cluster id: '' @ cid @ '', status: '' @ cr_Status x @
           ''). The /clusters/{id}/kubeconfig endpoint may not be available in this Commander version''))))"

text \<open>A body that looks like an object may carry the kubeconfig in one of three fields; otherwise it is the body.\<close>

definition kubeconfig_of_body :: "json_lib \<Rightarrow> string \<Rightarrow> string" where
  "kubeconfig_of_body js body =
     (if hasPrefix (trimSpace body) ''{'' then
        (case jl_kubeconfig js body of
           Inl _ \<Rightarrow> body
         | Inr (k, d, t) \<Rightarrow> if k \<noteq> [] then k else if d \<noteq> [] then d else if t \<noteq> [] then t else body)
      else body)"

definition GetClusterKubeconfigByID :: "'e http_lib \<Rightarrow> json_lib \<Rightarrow> commander_client \<Rightarrow> ctx \<Rightarrow> string \<Rightarrow> ('e, goerr + string) act" where
  "GetClusterKubeconfigByID lib js cl c cid =
     io_try (send lib cl c ''GET'' (''/clusters/'' @ cid @ ''/kubeconfig'') None) (\<lambda>e. e) (\<lambda>resp.
       if rs_status resp = 404 then getKubeconfigFromClusterDetails lib js cl c cid
       else if rs_status resp \<noteq> 200 then io_ret (Inl (unexpected_status resp))
       else io_ret (Inr (kubeconfig_of_body js (rs_body resp))))"

definition GetClusterKubeconfig :: "'e http_lib \<Rightarrow> json_lib \<Rightarrow> commander_client \<Rightarrow> ctx \<Rightarrow> string \<Rightarrow> ('e, goerr + string) act" where
  "GetClusterKubeconfig lib js cl c name =
     io_try (GetClusterByName lib js cl c name) (\<lambda>e. e) (\<lambda>x. GetClusterKubeconfigByID lib js cl c (cr_ID x))"

text \<open>Host, user and port from an object, where it has them.\<close>

definition ssh_from :: "string \<Rightarrow> string \<Rightarrow> string \<Rightarrow> (string \<times> json) list \<Rightarrow> connection_info \<Rightarrow> connection_info" where
  "ssh_from hostKey userKey portKey m info =
     info\<lparr>ci_SSHHost := (case field as_string m hostKey of Some s \<Rightarrow> s | None \<Rightarrow> ci_SSHHost info),
          ci_SSHUser := (case field as_string m userKey of Some s \<Rightarrow> s | None \<Rightarrow> ci_SSHUser info),
          ci_SSHPort := (case field as_number m portKey of Some x \<Rightarrow> float_int x | None \<Rightarrow> ci_SSHPort info)\<rparr>"

definition info_from_hosts :: "json \<Rightarrow> connection_info \<Rightarrow> connection_info" where
  "info_from_hosts hosts info =
     (case as_object hosts of
        None \<Rightarrow> info
      | Some m \<Rightarrow>
          (let info1 = info\<lparr>ci_APIEndpoint := (case field as_string m ''api_endpoint'' of Some s \<Rightarrow> s | None \<Rightarrow> ci_APIEndpoint info)\<rparr>;
               info2 = (case field as_array m ''masters'' of
                   Some (v # _) \<Rightarrow> (case as_object v of Some mm \<Rightarrow> ssh_from ''host'' ''user'' ''port'' mm info1 | None \<Rightarrow> info1)
                 | _ \<Rightarrow> info1) in
           if ci_SSHHost info2 = [] then ssh_from ''ssh_host'' ''ssh_user'' ''ssh_port'' m info2 else info2))"

definition info_from_agent :: "json \<Rightarrow> connection_info \<Rightarrow> connection_info" where
  "info_from_agent agent info =
     (if ci_SSHHost info = [] then
        (case Option.bind (as_object agent) (\<lambda>m. field as_object m ''data'') of
           Some d \<Rightarrow> ssh_from ''ssh_host'' ''ssh_user'' ''ssh_port'' d info | None \<Rightarrow> info)
      else info)"

definition info_from_legacy :: "cluster_response \<Rightarrow> connection_info \<Rightarrow> connection_info" where
  "info_from_legacy x info =
     (if ci_SSHHost info = [] \<and> cr_SSHHost x \<noteq> []
      then info\<lparr>ci_SSHHost := cr_SSHHost x, ci_SSHUser := cr_SSHUser x, ci_SSHPort := cr_SSHPort x\<rparr> else info)"

definition default_port :: "connection_info \<Rightarrow> connection_info" where
  "default_port info = (if ci_SSHHost info \<noteq> [] \<and> ci_SSHPort info = 0 then info\<lparr>ci_SSHPort := 22\<rparr> else info)"

definition connection_of :: "cluster_response \<Rightarrow> string \<Rightarrow> connection_info" where
  "connection_of x kubeconfig =
     default_port (info_from_legacy x (info_from_agent (cr_ClusterAgentData x) (info_from_hosts (cr_ConnectionHosts x)
       \<lparr>ci_Kubeconfig = kubeconfig, ci_APIEndpoint = [], ci_SSHHost = [], ci_SSHUser = [], ci_SSHPort = 0\<rparr>)))"

definition GetClusterConnectionInfo :: "'e http_lib \<Rightarrow> json_lib \<Rightarrow> commander_client \<Rightarrow> ctx \<Rightarrow> string \<Rightarrow> ('e, goerr + connection_info) act" where
  "GetClusterConnectionInfo lib js cl c name =
     io_try (GetClusterByName lib js cl c name) (\<lambda>e. e) (\<lambda>x.
       io_bind (GetClusterKubeconfigByID lib js cl c (cr_ID x)) (\<lambda>k.
         let info = connection_of x (case k of Inl _ \<Rightarrow> [] | Inr s \<Rightarrow> s) in
         io_ret (case k of
           Inl e \<Rightarrow> if ci_SSHHost info = []
             then Inl (wrapf ''failed to get kubeconfig and no SSH connection info available: '' e) else Inr info
         | Inr _ \<Rightarrow> Inr info)))"

section \<open>Waiting for a cluster\<close>

text \<open>The body of the loop of \<^verbatim>\<open>WaitForClusterReady\<close>; its variable is the last status.\<close>

definition wait_ready_body ::
  "'e http_lib \<Rightarrow> json_lib \<Rightarrow> commander_client \<Rightarrow> ctx \<Rightarrow> string \<Rightarrow> int \<Rightarrow> string \<Rightarrow> ('e, (goerr + commander_cluster) + string) act" where
  "wait_ready_body lib js cl c name timeout lastStatus =
     io_bind (call (\<lambda>_. Waited c (10 * second)) (hl_select lib c timeout (10 * second))) (\<lambda>d. case d of
       SelectDone ctxe \<Rightarrow> io_ret (Inl (Inl ctxe))
     | SelectDeadline \<Rightarrow> io_ret (Inl (Inl (ErrText (''timeout waiting for cluster '' @ name @ '' to become ready (last status: '' @ lastStatus @ '')''))))
     | SelectTick \<Rightarrow> io_bind (GetClusterByName lib js cl c name) (\<lambda>r. case r of
         Inl _ \<Rightarrow> io_ret (Inr lastStatus)
       | Inr x \<Rightarrow>
           if mapStatusToPhase (cr_Status x) = ClusterPhaseReady
           then io_ret (Inl (Inr \<lparr>cc_Name = cr_Name x, cc_Status = \<lparr>cs_Phase = mapStatusToPhase (cr_Status x), cs_Message = cr_Message x, cs_APIEndpoint = []\<rparr>\<rparr>))
           else if mapStatusToPhase (cr_Status x) = ClusterPhaseFailed
           then io_ret (Inl (Inl (ErrText (''cluster '' @ name @ '' failed (status: '' @ cr_Status x @ ''): '' @ cr_Message x))))
           else io_ret (Inr (cr_Status x))))"

definition WaitForClusterReady ::
  "'e http_lib \<Rightarrow> json_lib \<Rightarrow> commander_client \<Rightarrow> ctx \<Rightarrow> string \<Rightarrow> int \<Rightarrow> ('e, goerr + commander_cluster) act" where
  "WaitForClusterReady lib js cl c name timeout = loop (wait_ready_body lib js cl c name timeout) []"


end
