(* ===== verification/Commander_Update.thy ===== *)
theory Commander_Update
  imports Commander_Client
begin

text \<open>
  Changing a cluster through Commander, \<^verbatim>\<open>internal/kubernetes/commander/update.go\<close>: the update with an expected revision, its
  repetition on a conflict, the approval of change requests, and the wait for the cluster to converge.
\<close>

section \<open>The operations\<close>

definition updateRevisionRetries :: nat where "updateRevisionRetries = 5"
definition defaultRegistryMode :: string where "defaultRegistryMode = ''Direct''"
definition waitPollInterval :: int where "waitPollInterval = 10 * second"
definition failureStatusPolls :: nat where "failureStatusPolls = 12"

definition zero_cluster :: cluster_response where
  "zero_cluster = \<lparr>cr_ID = [], cr_CurrentRevision = 0, cr_Name = [], cr_Status = [], cr_Values = JNull, cr_ClusterTemplateVersionID = [],
     cr_RegistryID = [], cr_RegistryMode = [], cr_ClusterAgentData = JNull, cr_ConnectionHosts = JNull, cr_Phase = [], cr_SSHHost = [],
     cr_SSHUser = [], cr_SSHPort = 0, cr_Message = []\<rparr>"

definition UpdateCluster :: "'e http_lib \<Rightarrow> json_lib \<Rightarrow> commander_client \<Rightarrow> ctx \<Rightarrow> string \<Rightarrow> update_request \<Rightarrow> ('e, goerr + cluster_response) act" where
  "UpdateCluster lib js cl c cid req =
     (case jl_marshalUpdate js req of
        Inl e \<Rightarrow> io_ret (Inl (wrapf ''failed to marshal update request: '' e))
      | Inr body \<Rightarrow> io_try (send lib cl c ''PUT'' (''/clusters/'' @ cid) (Some body)) (\<lambda>e. e) (\<lambda>resp. io_ret (
          if rs_status resp = 409 then Inl (ErrWrap [] ErrRevisionConflict ('': '' @ trimSpace (rs_body resp)))
          else if rs_status resp \<noteq> 200 \<and> rs_status resp \<noteq> 201 then Inl (unexpected_status resp)
          else if rs_body resp = [] then Inr zero_cluster
          else wrap_left ''failed to decode response: '' (jl_cluster js (rs_body resp)))))"

definition registryModeOrDefault :: "string \<Rightarrow> string" where
  "registryModeOrDefault mode = (if mode = [] then defaultRegistryMode else mode)"

definition valuesToMap :: "json \<Rightarrow> (string \<times> json) list" where
  "valuesToMap v = (case as_object v of Some m \<Rightarrow> m | None \<Rightarrow> [])"

text \<open>The request \<^verbatim>\<open>UpdateClusterValues\<close> makes of the cluster it has read.\<close>

definition update_of :: "cluster_response \<Rightarrow> ((string \<times> json) list \<Rightarrow> (string \<times> json) list) \<Rightarrow> update_request" where
  "update_of x mutate = \<lparr>uq_Name = cr_Name x, uq_ClusterTemplateVersionID = cr_ClusterTemplateVersionID x, uq_RegistryID = cr_RegistryID x,
     uq_RegistryMode = registryModeOrDefault (cr_RegistryMode x), uq_CurrentRevision = cr_CurrentRevision x,
     uq_Values = mutate (valuesToMap (cr_Values x))\<rparr>"

primrec update_loop ::
  "'e http_lib \<Rightarrow> json_lib \<Rightarrow> commander_client \<Rightarrow> ctx \<Rightarrow> string \<Rightarrow> ((string \<times> json) list \<Rightarrow> (string \<times> json) list) \<Rightarrow> nat \<Rightarrow> goerr option
   \<Rightarrow> ('e, goerr + cluster_response) act" where
  "update_loop lib js cl c name mutate 0 lastErr = io_ret (Inl (case lastErr of
     Some e \<Rightarrow> wrapf (''update cluster '' @ go_quote name @ '' values: exhausted '' @ itoa (int updateRevisionRetries) @ '' revision-conflict retries: '') e
   | None \<Rightarrow> ErrText (''update cluster '' @ go_quote name @ '' values: exhausted '' @ itoa (int updateRevisionRetries) @ '' revision-conflict retries: %!w(<nil>)'')))"
| "update_loop lib js cl c name mutate (Suc n) lastErr =
     io_try (GetClusterByName lib js cl c name) (wrapf (''get cluster '' @ go_quote name @ '': '')) (\<lambda>byName.
     io_try (GetClusterByID lib js cl c (cr_ID byName)) (wrapf (''get cluster '' @ go_quote name @ '' by id '' @ go_quote (cr_ID byName) @ '': '')) (\<lambda>x.
     io_bind (UpdateCluster lib js cl c (cr_ID x) (update_of x mutate)) (\<lambda>r. case r of
       Inr updated \<Rightarrow> io_ret (Inr updated)
     | Inl err \<Rightarrow> if \<not> errors_is err ErrRevisionConflict then io_ret (Inl err)
         else update_loop lib js cl c name mutate n (Some err))))"

definition UpdateClusterValues ::
  "'e http_lib \<Rightarrow> json_lib \<Rightarrow> commander_client \<Rightarrow> ctx \<Rightarrow> string \<Rightarrow> ((string \<times> json) list \<Rightarrow> (string \<times> json) list) \<Rightarrow> ('e, goerr + cluster_response) act" where
  "UpdateClusterValues lib js cl c name mutate = update_loop lib js cl c name mutate updateRevisionRetries None"

definition decode_changes :: "json_lib \<Rightarrow> string \<Rightarrow> goerr + change_request list" where
  "decode_changes js body =
     (case jl_changes js body of
        Inr xs \<Rightarrow> Inr xs
      | Inl _ \<Rightarrow> (case jl_changeList js body of
          Inr p \<Rightarrow> Inr (items_or_data p)
        | Inl _ \<Rightarrow> Inl (ErrText (''failed to decode change requests response: '' @ body))))"

definition ListClusterChangeRequests :: "'e http_lib \<Rightarrow> json_lib \<Rightarrow> commander_client \<Rightarrow> ctx \<Rightarrow> string \<Rightarrow> ('e, goerr + change_request list) act" where
  "ListClusterChangeRequests lib js cl c clusterID =
     io_try (send lib cl c ''GET'' (''/cluster_change_requests?cluster_id='' @ hl_QueryEscape lib clusterID) None) (\<lambda>e. e) (\<lambda>resp. io_ret (
       if rs_status resp \<noteq> 200 then Inl (unexpected_status resp) else decode_changes js (rs_body resp)))"

definition ApproveClusterChangeRequest :: "'e http_lib \<Rightarrow> commander_client \<Rightarrow> ctx \<Rightarrow> string \<Rightarrow> ('e, goerr option) act" where
  "ApproveClusterChangeRequest lib cl c rid =
     io_bind (send lib cl c ''POST'' (''/cluster_change_requests/'' @ hl_PathEscape lib rid @ ''/approve'') None) (\<lambda>r. io_ret (case r of
       Inl e \<Rightarrow> Some e
     | Inr resp \<Rightarrow>
         (let lower = toLower (rs_body resp) in
          if rs_status resp \<ge> 200 \<and> rs_status resp < 300 then None
          else if rs_status resp = 409 \<and> (str_contains lower ''already_approved'' \<or> str_contains lower ''already_completed'') then None
          else if rs_status resp = 409 \<and> str_contains lower ''cluster_cannot_be_converged''
          then Some (ErrWrap [] ErrClusterCannotConverge ('': change request '' @ rid @ '': '' @ trimSpace (rs_body resp)))
          else Some (ErrText (''approve change request '' @ rid @ '': unexpected status '' @ itoa (rs_status resp) @ '': '' @ rs_body resp)))))"

text \<open>The approvals of one round: only the report that the cluster cannot converge ends the wait.\<close>

fun approve_all :: "'e http_lib \<Rightarrow> commander_client \<Rightarrow> ctx \<Rightarrow> change_request list \<Rightarrow> ('e, goerr option) act" where
  "approve_all lib cl c [] = io_ret None"
| "approve_all lib cl c (cr # crs) =
     io_bind (ApproveClusterChangeRequest lib cl c (ch_ID cr)) (\<lambda>e. case e of
       Some err \<Rightarrow> if errors_is err ErrClusterCannotConverge then io_ret (Some err) else approve_all lib cl c crs
     | None \<Rightarrow> approve_all lib cl c crs)"

definition approve_pending :: "'e http_lib \<Rightarrow> json_lib \<Rightarrow> commander_client \<Rightarrow> ctx \<Rightarrow> string \<Rightarrow> ('e, goerr option) act" where
  "approve_pending lib js cl c clusterID =
     (if clusterID = [] then io_ret None
      else io_bind (ListClusterChangeRequests lib js cl c clusterID) (\<lambda>r. case r of
        Inl _ \<Rightarrow> io_ret None
      | Inr crs \<Rightarrow> approve_all lib cl c crs))"

definition isFailureStatus :: "string \<Rightarrow> bool" where
  "isFailureStatus status = str_contains (toLower status) ''fail''"

definition messageOrUnset :: "string \<Rightarrow> string" where
  "messageOrUnset message = (if trimSpace message = [] then ''<none reported>'' else message)"

record wait_state =
  ws_clusterID :: string
  ws_lastStatus :: string
  ws_lastMessage :: string
  ws_statuses :: "string list"
  ws_failingPolls :: nat

text \<open>What a poll that has read the cluster makes of it: the new variables, and the outcome if there is one.\<close>

definition seen_status :: "cluster_response \<Rightarrow> wait_state \<Rightarrow> wait_state" where
  "seen_status x st =
     st\<lparr>ws_statuses := (if cr_Status x \<noteq> ws_lastStatus st then ws_statuses st @ [cr_Status x] else ws_statuses st),
        ws_failingPolls := (if cr_Status x \<noteq> ws_lastStatus st then 0 else ws_failingPolls st),
        ws_lastStatus := cr_Status x, ws_lastMessage := cr_Message x,
        ws_clusterID := (if ws_clusterID st = [] then cr_ID x else ws_clusterID st)\<rparr>"

definition poll_outcome :: "json_lib \<Rightarrow> string \<Rightarrow> string \<Rightarrow> json \<Rightarrow> cluster_response \<Rightarrow> wait_state \<Rightarrow> goerr option + wait_state" where
  "poll_outcome js name key val x st =
     (let st' = seen_status x st in
      if mapStatusToPhase (cr_Status x) = ClusterPhaseReady then Inl None
      else if mapStatusToPhase (cr_Status x) = ClusterPhaseFailed
      then Inl (Some (ErrText (''cluster '' @ go_quote name @ '' failed to converge (status '' @ go_quote (cr_Status x) @ ''): '' @ cr_Message x)))
      else if isFailureStatus (cr_Status x)
      then (if Suc (ws_failingPolls st') \<ge> failureStatusPolls
        then Inl (Some (ErrText (''cluster '' @ go_quote name @ '' stayed in '' @ go_quote (cr_Status x) @ '' for '' @
          dur_str (int failureStatusPolls * waitPollInterval) @ '' after setting '' @ go_quote key @ ''='' @ jl_show js val @ '': '' @
          messageOrUnset (cr_Message x) @ '' (statuses seen: '' @ str_join '' -> '' (ws_statuses st') @ '')'')))
        else Inr (st'\<lparr>ws_failingPolls := Suc (ws_failingPolls st')\<rparr>))
      else Inr st')"

definition converge_body ::
  "'e http_lib \<Rightarrow> json_lib \<Rightarrow> commander_client \<Rightarrow> ctx \<Rightarrow> string \<Rightarrow> string \<Rightarrow> json \<Rightarrow> int \<Rightarrow> wait_state \<Rightarrow> ('e, goerr option + wait_state) act" where
  "converge_body lib js cl c name key val timeout st =
     io_bind (approve_pending lib js cl c (ws_clusterID st)) (\<lambda>e. case e of
       Some err \<Rightarrow> io_ret (Inl (Some err))
     | None \<Rightarrow> io_bind (GetClusterByName lib js cl c name) (\<lambda>r.
         case (case r of Inl _ \<Rightarrow> Inr st | Inr x \<Rightarrow> poll_outcome js name key val x st) of
           Inl out \<Rightarrow> io_ret (Inl out)
         | Inr st' \<Rightarrow> io_bind (call (\<lambda>_. Waited c waitPollInterval) (hl_select lib c timeout waitPollInterval)) (\<lambda>d. io_ret (case d of
             SelectDone ctxe \<Rightarrow> Inl (Some ctxe)
           | SelectDeadline \<Rightarrow> Inl (Some (ErrText (''timeout waiting for cluster '' @ go_quote name @ '' to converge after setting '' @ go_quote key @ ''='' @
               jl_show js val @ '' (last status: '' @ ws_lastStatus st' @ '', message: '' @ messageOrUnset (ws_lastMessage st') @ '', statuses seen: '' @
               str_join '' -> '' (ws_statuses st') @ '')'')))
           | SelectTick \<Rightarrow> Inr st'))))"

definition SetClusterInputValueAndWait ::
  "'e http_lib \<Rightarrow> json_lib \<Rightarrow> commander_client \<Rightarrow> ctx \<Rightarrow> string \<Rightarrow> string \<Rightarrow> json \<Rightarrow> int \<Rightarrow> ('e, goerr option) act" where
  "SetClusterInputValueAndWait lib js cl c name key val timeout =
     io_bind (UpdateClusterValues lib js cl c name (AList.update key val)) (\<lambda>r. case r of
       Inl e \<Rightarrow> io_ret (Some (wrapf (''set '' @ go_quote key @ ''='' @ jl_show js val @ '' on cluster '' @ go_quote name @ '': '') e))
     | Inr updated \<Rightarrow> loop (converge_body lib js cl c name key val timeout)
         \<lparr>ws_clusterID = cr_ID updated, ws_lastStatus = [], ws_lastMessage = [], ws_statuses = [], ws_failingPolls = 0\<rparr>)"


section \<open>What the requests leave in the trace\<close>

definition is_put :: "event \<Rightarrow> bool" where
  "is_put ev = (case ev of Http rq r \<Rightarrow> rq_method rq = ''PUT'' | _ \<Rightarrow> False)"

definition refused :: "event \<Rightarrow> bool" where
  "refused ev = (case ev of Http rq (Inr resp) \<Rightarrow> rs_status resp = 409 | _ \<Rightarrow> False)"

text \<open>The list of clusters was read and has a cluster of this name with this identifier.\<close>

definition listed :: "'e http_lib \<Rightarrow> json_lib \<Rightarrow> commander_client \<Rightarrow> string \<Rightarrow> cluster_response \<Rightarrow> event \<Rightarrow> bool" where
  "listed lib js cl name x ev \<longleftrightarrow> (\<exists>resp xs. ev = Http (request_of lib cl ''GET'' ''/clusters'' None) (Inr resp) \<and>
     rs_status resp = 200 \<and> decode_clusters js (rs_body resp) = Inr xs \<and> find (\<lambda>y. cr_Name y = name) xs = Some x)"

lemma send_cases:
  assumes "send lib cl c verb path body w = Some (r, w')"
  obtains (unsent) e where "r = Inl e" "w' = w"
  | (sent) r0 s' where "hl_Do lib (cl_httpClient cl) c (request_of lib cl verb path body) (est w) = (r0, s')"
      "w' = w\<lparr>tr := tr w @ [Http (request_of lib cl verb path body) r0], est := s'\<rparr>" "r = wrap_left ''failed to send request: '' r0"
  using assms by (cases "hl_Do lib (cl_httpClient cl) c (request_of lib cl verb path body) (est w)")
    (auto simp: send_def io_simps split: option.splits)

lemma GetClusterByID_read:
  assumes "GetClusterByID lib js cl c cid w = Some (Inr x, w')"
  shows "\<exists>resp. hl_Do lib (cl_httpClient cl) c (request_of lib cl ''GET'' (''/clusters/'' @ cid) None) (est w) = (Inr resp, est w') \<and>
    tr w' = tr w @ [Http (request_of lib cl ''GET'' (''/clusters/'' @ cid) None) (Inr resp)] \<and>
    rs_status resp = 200 \<and> jl_decodeCluster js resp = Inr x"
  using assms unfolding GetClusterByID_def
  by (auto simp: io_simps split: option.splits sum.splits if_splits elim!: send_cases)

lemma GetClusterByName_read:
  assumes "GetClusterByName lib js cl c name w = Some (Inr x, w')"
  shows "\<exists>ev. tr w' = tr w @ [ev] \<and> listed lib js cl name x ev"
  using assms unfolding GetClusterByName_def ListClustersAPI_def list_response_def
  by (auto simp: io_simps listed_def split: option.splits sum.splits if_splits elim!: send_cases)

lemma send_only: "only_calls (\<lambda>ev. \<exists>r. ev = Http (request_of lib cl verb path body) r) (send lib cl c verb path body)"
  unfolding send_def by (auto intro!: calls_intros)

lemma UpdateCluster_accepted:
  assumes "UpdateCluster lib js cl c cid u w = Some (Inr x, w')"
  shows "\<exists>body resp. jl_marshalUpdate js u = Inr body \<and> rs_status resp \<in> {200, 201} \<and>
      hl_Do lib (cl_httpClient cl) c (request_of lib cl ''PUT'' (''/clusters/'' @ cid) (Some body)) (est w) = (Inr resp, est w') \<and>
      tr w' = tr w @ [Http (request_of lib cl ''PUT'' (''/clusters/'' @ cid) (Some body)) (Inr resp)]"
  using assms unfolding UpdateCluster_def
  by (auto simp: io_simps split: option.splits sum.splits if_splits elim!: send_cases)

text \<open>The error \<^verbatim>\<open>ErrRevisionConflict\<close> is made by \<^verbatim>\<open>UpdateCluster\<close> only: neither the transport nor the codec returns it.\<close>

definition conflict_is_ours :: "'e http_lib \<Rightarrow> json_lib \<Rightarrow> bool" where
  "conflict_is_ours lib js \<longleftrightarrow>
     (\<forall>verb url e. hl_newRequest lib verb url = Some e \<longrightarrow> \<not> errors_is e ErrRevisionConflict) \<and>
     (\<forall>hc c rq s e s'. hl_Do lib hc c rq s = (Inl e, s') \<longrightarrow> \<not> errors_is e ErrRevisionConflict) \<and>
     (\<forall>u e. jl_marshalUpdate js u = Inl e \<longrightarrow> \<not> errors_is e ErrRevisionConflict) \<and>
     (\<forall>body e. jl_cluster js body = Inl e \<longrightarrow> \<not> errors_is e ErrRevisionConflict)"

lemma not_conflict [simp]:
  "errors_is (wrapf pre e) ErrRevisionConflict = errors_is e ErrRevisionConflict"
  "\<not> errors_is (unexpected_status resp) ErrRevisionConflict"
  by (simp_all add: errors_is_def ErrRevisionConflict_def unexpected_status_def)

lemma UpdateCluster_conflict:
  assumes ours: "conflict_is_ours lib js" and run: "UpdateCluster lib js cl c cid u w = Some (Inl e, w')"
    and "errors_is e ErrRevisionConflict"
  shows "\<exists>ev. tr w' = tr w @ [ev] \<and> is_put ev \<and> refused ev"
  using run assms(3) ours [unfolded conflict_is_ours_def] unfolding UpdateCluster_def send_def
  by (auto simp: io_simps wrap_left_def is_put_def refused_def request_of_def split: option.splits sum.splits if_splits)
    (metis prod.collapse)+


section \<open>No change is lost\<close>

text \<open>
  What is documented of the server. \<open>content cid n\<close> are the values of cluster \<open>cid\<close> at revision \<open>n\<close>: a cluster that is read
  by its identifier has that identifier, and its values are those of its revision. \<open>rev_at s cid\<close> is the revision in force when a
  request that finds the server in state \<open>s\<close> takes effect, after whatever others did before it: an update is
  accepted only if it names that revision.
\<close>

definition revision_history ::
  "'e http_lib \<Rightarrow> json_lib \<Rightarrow> commander_client \<Rightarrow> (string \<Rightarrow> int \<Rightarrow> json) \<Rightarrow> ('e \<Rightarrow> string \<Rightarrow> int) \<Rightarrow> bool" where
  "revision_history lib js cl content rev_at \<longleftrightarrow>
     (\<forall>c cid s resp s' x. hl_Do lib (cl_httpClient cl) c (request_of lib cl ''GET'' (''/clusters/'' @ cid) None) s = (Inr resp, s') \<longrightarrow>
        rs_status resp = 200 \<longrightarrow> jl_decodeCluster js resp = Inr x \<longrightarrow> cr_ID x = cid \<and> cr_Values x = content cid (cr_CurrentRevision x)) \<and>
     (\<forall>c cid u body s resp s'. jl_marshalUpdate js u = Inr body \<longrightarrow>
        hl_Do lib (cl_httpClient cl) c (request_of lib cl ''PUT'' (''/clusters/'' @ cid) (Some body)) s = (Inr resp, s') \<longrightarrow>
        rs_status resp \<in> {200, 201} \<longrightarrow> uq_CurrentRevision u = rev_at s cid)"

lemma reads_only_get:
  "only_calls (\<lambda>ev. \<not> is_put ev) (GetClusterByName lib js cl c name)" "only_calls (\<lambda>ev. \<not> is_put ev) (GetClusterByID lib js cl c cid)"
  unfolding GetClusterByName_def ListClustersAPI_def GetClusterByID_def
  by (intro calls_intros only_calls_mono [OF send_only], auto simp: is_put_def request_of_def)+

lemma update_loop_accepted:
  assumes ours: "conflict_is_ours lib js" and hist: "revision_history lib js cl content rev_at"
  shows "update_loop lib js cl c name mutate n l w = Some (Inr updated, w') \<Longrightarrow>
    \<exists>pre x u body s resp. tr w' = tr w @ pre @ [Http (request_of lib cl ''PUT'' (''/clusters/'' @ cr_ID x) (Some body)) (Inr resp)] \<and>
      list_all (\<lambda>ev. is_put ev \<longrightarrow> refused ev) pre \<and> length (filter is_put pre) < n \<and>
      list_ex (listed lib js cl name x) pre \<and> jl_marshalUpdate js u = Inr body \<and>
      hl_Do lib (cl_httpClient cl) c (request_of lib cl ''PUT'' (''/clusters/'' @ cr_ID x) (Some body)) s = (Inr resp, est w') \<and>
      rs_status resp \<in> {200, 201} \<and> uq_CurrentRevision u = rev_at s (cr_ID x) \<and>
      uq_Values u = mutate (valuesToMap (content (cr_ID x) (rev_at s (cr_ID x))))"
proof (induction n arbitrary: l w)
  case 0
  then show ?case by (simp add: io_simps)
next
  case (Suc n)
  from Suc.prems obtain x w1 y w2 r w3 where
    x: "GetClusterByName lib js cl c name w = Some (Inr x, w1)" and y: "GetClusterByID lib js cl c (cr_ID x) w1 = Some (Inr y, w2)"
    and r: "UpdateCluster lib js cl c (cr_ID y) (update_of y mutate) w2 = Some (r, w3)"
    and rest: "(case r of Inr updated \<Rightarrow> io_ret (Inr updated)
       | Inl err \<Rightarrow> if \<not> errors_is err ErrRevisionConflict then io_ret (Inl err)
           else update_loop lib js cl c name mutate n (Some err)) w3 = Some (Inr updated, w')"
    by (auto simp: io_simps split: option.splits sum.splits)
  from GetClusterByName_read [OF x] obtain ev where ev: "tr w1 = tr w @ [ev]" "listed lib js cl name x ev" by blast
  from GetClusterByID_read [OF y] obtain resp where get: "rs_status resp = 200" "jl_decodeCluster js resp = Inr y"
    "hl_Do lib (cl_httpClient cl) c (request_of lib cl ''GET'' (''/clusters/'' @ cr_ID x) None) (est w1) = (Inr resp, est w2)"
    "tr w2 = tr w1 @ [Http (request_of lib cl ''GET'' (''/clusters/'' @ cr_ID x) None) (Inr resp)]" by blast
  have same: "cr_ID y = cr_ID x" "cr_Values y = content (cr_ID x) (cr_CurrentRevision y)"
    using hist get unfolding revision_history_def by blast+
  let ?get = "Http (request_of lib cl ''GET'' (''/clusters/'' @ cr_ID x) None) (Inr resp)"
  have quiet: "\<not> is_put ev" "\<not> is_put ?get"
    using ev(2) by (auto simp: is_put_def listed_def request_of_def)
  show ?case
  proof (cases r)
    case (Inr z)
    from UpdateCluster_accepted [OF r [unfolded Inr]] obtain body resp' where put: "jl_marshalUpdate js (update_of y mutate) = Inr body"
      "rs_status resp' \<in> {200, 201}"
      "hl_Do lib (cl_httpClient cl) c (request_of lib cl ''PUT'' (''/clusters/'' @ cr_ID x) (Some body)) (est w2) = (Inr resp', est w3)"
      "tr w3 = tr w2 @ [Http (request_of lib cl ''PUT'' (''/clusters/'' @ cr_ID x) (Some body)) (Inr resp')]" unfolding same(1) by blast
    have rev: "uq_CurrentRevision (update_of y mutate) = rev_at (est w2) (cr_ID x)"
      using hist put(1-3) unfolding revision_history_def by blast
    moreover from rev have "uq_Values (update_of y mutate) = mutate (valuesToMap (content (cr_ID x) (rev_at (est w2) (cr_ID x))))"
      using same(2) by (simp add: update_of_def)
    moreover have "w' = w3" using rest Inr by (simp add: io_simps)
    ultimately show ?thesis using put ev get(4) quiet
      by (intro exI [of _ "[ev, ?get]"] exI [of _ x] exI [of _ "update_of y mutate"] exI [of _ body] exI [of _ "est w2"] exI [of _ resp']) simp
  next
    case (Inl e)
    with rest have "errors_is e ErrRevisionConflict" "update_loop lib js cl c name mutate n (Some e) w3 = Some (Inr updated, w')"
      by (auto simp: io_simps split: if_splits)
    from UpdateCluster_conflict [OF ours r [unfolded Inl] this(1)] Suc.IH [OF this(2)] obtain put pre x' u body s resp' where
      "tr w3 = tr w2 @ [put]" "is_put put" "refused put"
      "tr w' = tr w3 @ pre @ [Http (request_of lib cl ''PUT'' (''/clusters/'' @ cr_ID x') (Some body)) (Inr resp')]"
      "list_all (\<lambda>ev. is_put ev \<longrightarrow> refused ev) pre" "length (filter is_put pre) < n"
      "list_ex (listed lib js cl name x') pre" "jl_marshalUpdate js u = Inr body"
      "hl_Do lib (cl_httpClient cl) c (request_of lib cl ''PUT'' (''/clusters/'' @ cr_ID x') (Some body)) s = (Inr resp', est w')"
      "rs_status resp' \<in> {200, 201}" "uq_CurrentRevision u = rev_at s (cr_ID x')"
      "uq_Values u = mutate (valuesToMap (content (cr_ID x') (rev_at s (cr_ID x'))))" by blast
    then show ?thesis using ev(1) get(4) quiet
      by (intro exI [of _ "[ev, ?get, put] @ pre"] exI [of _ x'] exI [of _ u] exI [of _ body] exI [of _ s] exI [of _ resp']) simp
  qed
qed

text \<open>
  C10. \<^verbatim>\<open>UpdateClusterValues\<close> loses no concurrent change. When it succeeds, its last request is an update that the server
  accepted, of the cluster that the list names; at most four earlier ones were sent and each was refused as stale;
  and the values it wrote are the change applied to the values in force at the moment the server accepted it,
  whatever others wrote between the read and the update.\<close>

theorem update_loses_nothing:
  assumes "conflict_is_ours lib js" and "revision_history lib js cl content rev_at"
    and "UpdateClusterValues lib js cl c name mutate w = Some (Inr updated, w')"
  shows "\<exists>pre x u body s resp. tr w' = tr w @ pre @ [Http (request_of lib cl ''PUT'' (''/clusters/'' @ cr_ID x) (Some body)) (Inr resp)] \<and>
      list_all (\<lambda>ev. is_put ev \<longrightarrow> refused ev) pre \<and> length (filter is_put pre) < 5 \<and>
      list_ex (listed lib js cl name x) pre \<and> jl_marshalUpdate js u = Inr body \<and>
      hl_Do lib (cl_httpClient cl) c (request_of lib cl ''PUT'' (''/clusters/'' @ cr_ID x) (Some body)) s = (Inr resp, est w') \<and>
      rs_status resp \<in> {200, 201} \<and> uq_CurrentRevision u = rev_at s (cr_ID x) \<and>
      uq_Values u = mutate (valuesToMap (content (cr_ID x) (rev_at s (cr_ID x))))"
  using update_loop_accepted [OF assms(1,2) assms(3) [unfolded UpdateClusterValues_def]]
  unfolding updateRevisionRetries_def .


section \<open>Waiting for convergence\<close>

text \<open>Every approval after the update is of a change request that was listed before.\<close>

definition is_post :: "event \<Rightarrow> bool" where
  "is_post ev = (case ev of Http rq r \<Rightarrow> rq_method rq = ''POST'' | _ \<Rightarrow> False)"

definition approval :: "'e http_lib \<Rightarrow> commander_client \<Rightarrow> string \<Rightarrow> http_request" where
  "approval lib cl rid = request_of lib cl ''POST'' (''/cluster_change_requests/'' @ hl_PathEscape lib rid @ ''/approve'') None"

definition change_listed :: "'e http_lib \<Rightarrow> json_lib \<Rightarrow> commander_client \<Rightarrow> string \<Rightarrow> event \<Rightarrow> bool" where
  "change_listed lib js cl rid ev \<longleftrightarrow> (\<exists>cid resp crs.
     ev = Http (request_of lib cl ''GET'' (''/cluster_change_requests?cluster_id='' @ hl_QueryEscape lib cid) None) (Inr resp) \<and>
     rs_status resp = 200 \<and> decode_changes js (rs_body resp) = Inr crs \<and> rid \<in> ch_ID ` set crs)"

definition justified :: "'e http_lib \<Rightarrow> json_lib \<Rightarrow> commander_client \<Rightarrow> event list \<Rightarrow> bool" where
  "justified lib js cl u \<longleftrightarrow> (\<forall>a ev b. u = a @ ev # b \<longrightarrow> \<not> is_put ev \<and>
     (is_post ev \<longrightarrow> (\<exists>rid r. ev = Http (approval lib cl rid) r \<and> list_ex (change_listed lib js cl rid) a)))"

lemma justified_closed: "closed_trace (justified lib js cl)"
  unfolding closed_trace_def justified_def
proof (intro conjI allI impI)
  fix s t a ev b
  assume s: "\<forall>a ev b. s = a @ ev # b \<longrightarrow> \<not> is_put ev \<and> (is_post ev \<longrightarrow> (\<exists>rid r. ev = Http (approval lib cl rid) r \<and> list_ex (change_listed lib js cl rid) a))"
    and t: "\<forall>a ev b. t = a @ ev # b \<longrightarrow> \<not> is_put ev \<and> (is_post ev \<longrightarrow> (\<exists>rid r. ev = Http (approval lib cl rid) r \<and> list_ex (change_listed lib js cl rid) a))"
    and eq: "s @ t = a @ ev # b"
  have ok: "\<not> is_put ev \<and> (is_post ev \<longrightarrow> (\<exists>rid r. ev = Http (approval lib cl rid) r \<and> list_ex (change_listed lib js cl rid) a))"
  proof -
    from eq consider (right) us where "a = s @ us" "t = us @ ev # b" | (left) us where "s = a @ ev # us"
      by (auto simp: append_eq_append_conv2 append_eq_Cons_conv)
    then show ?thesis
    proof cases
      case right
      with t show ?thesis by (metis list_ex_append)
    next
      case left
      with s show ?thesis by blast
    qed
  qed
  then show "\<not> is_put ev" "is_post ev \<Longrightarrow> \<exists>rid r. ev = Http (approval lib cl rid) r \<and> list_ex (change_listed lib js cl rid) a" by blast+
qed simp_all


lemma justified_after:
  assumes "\<not> is_put ev0" "\<not> is_post ev0" and "\<forall>ev \<in> set v. \<exists>rid r. ev = Http (approval lib cl rid) r \<and> change_listed lib js cl rid ev0"
  shows "justified lib js cl (ev0 # v)"
  unfolding justified_def
proof (intro allI impI)
  fix a ev b assume eq: "ev0 # v = a @ ev # b"
  show "\<not> is_put ev \<and> (is_post ev \<longrightarrow> (\<exists>rid r. ev = Http (approval lib cl rid) r \<and> list_ex (change_listed lib js cl rid) a))"
  proof (cases a)
    case Nil
    with eq assms(1,2) show ?thesis by simp
  next
    case (Cons x a')
    with eq have x: "x = ev0" and "ev \<in> set v" by auto
    with assms(3) obtain rid r where "ev = Http (approval lib cl rid) r" "change_listed lib js cl rid ev0" by blast
    with Cons x show ?thesis by (auto simp: is_put_def approval_def request_of_def)
  qed
qed

lemma emits_quiet: "only_calls (\<lambda>ev. \<not> is_put ev \<and> \<not> is_post ev) m \<Longrightarrow> emits (justified lib js cl) m"
  by (fastforce simp: only_calls_def emits_def justified_def list_all_iff)

lemma approve_all_only:
  "only_calls (\<lambda>ev. \<exists>rid \<in> ch_ID ` set crs. \<exists>r. ev = Http (approval lib cl rid) r) (approve_all lib cl c crs)"
proof (induction crs)
  case (Cons cr crs)
  have "only_calls (\<lambda>ev. \<exists>r. ev = Http (approval lib cl (ch_ID cr)) r) (ApproveClusterChangeRequest lib cl c (ch_ID cr))"
    unfolding ApproveClusterChangeRequest_def approval_def by (intro calls_intros send_only)
  then have "only_calls (\<lambda>ev. \<exists>rid \<in> ch_ID ` set (cr # crs). \<exists>r. ev = Http (approval lib cl rid) r) (ApproveClusterChangeRequest lib cl c (ch_ID cr))"
    by (rule only_calls_mono) auto
  then show ?case by (auto intro!: calls_intros only_calls_mono [OF Cons.IH] split: option.splits)
qed (auto intro: calls_intros)

lemma list_changes_run:
  assumes "ListClusterChangeRequests lib js cl c cid w = Some (r, w')"
  shows "\<exists>t. tr w' = tr w @ t \<and> list_all (\<lambda>ev. \<not> is_put ev \<and> \<not> is_post ev) t \<and>
    (\<forall>crs. r = Inr crs \<longrightarrow> (\<exists>ev. t = [ev] \<and> (\<forall>rid \<in> ch_ID ` set crs. change_listed lib js cl rid ev)))"
  using assms unfolding ListClusterChangeRequests_def
  by (fastforce simp: io_simps is_put_def is_post_def request_of_def change_listed_def wrap_left_def
      split: option.splits sum.splits if_splits elim!: send_cases)

lemma approve_pending_justified: "emits (justified lib js cl) (approve_pending lib js cl c cid)"
proof (rule emitsI)
  fix w r w' assume run: "approve_pending lib js cl c cid w = Some (r, w')"
  show "\<exists>t. tr w' = tr w @ t \<and> justified lib js cl t"
  proof (cases "cid = []")
    case True
    with run show ?thesis by (auto simp: approve_pending_def io_simps justified_def)
  next
    case False
    with run obtain l w1 where l: "ListClusterChangeRequests lib js cl c cid w = Some (l, w1)"
      and rest: "(case l of Inl _ \<Rightarrow> io_ret None | Inr crs \<Rightarrow> approve_all lib cl c crs) w1 = Some (r, w')"
      by (auto simp: approve_pending_def io_simps split: option.splits)
    from list_changes_run [OF l] obtain t where t: "tr w1 = tr w @ t" "list_all (\<lambda>ev. \<not> is_put ev \<and> \<not> is_post ev) t"
      "\<forall>crs. l = Inr crs \<longrightarrow> (\<exists>ev. t = [ev] \<and> (\<forall>rid \<in> ch_ID ` set crs. change_listed lib js cl rid ev))" by (elim exE conjE) (rule that)
    show ?thesis
    proof (cases l)
      case (Inl e)
      with rest t show ?thesis by (fastforce simp: io_simps justified_def list_all_iff)
    next
      case (Inr crs)
      with t(3) obtain ev where ev: "t = [ev]" "\<forall>rid \<in> ch_ID ` set crs. change_listed lib js cl rid ev" by blast
      from only_callsD [OF approve_all_only, of lib cl c crs w1 r w'] rest Inr obtain v where v: "tr w' = tr w1 @ v"
        "list_all (\<lambda>ev. \<exists>rid \<in> ch_ID ` set crs. \<exists>r. ev = Http (approval lib cl rid) r) v" by auto
      have "justified lib js cl (ev # v)"
        by (rule justified_after) (use t(2) ev v(2) in \<open>fastforce simp: list_all_iff\<close>)+
      with t(1) v(1) ev(1) show ?thesis by auto
    qed
  qed
qed

lemma name_quiet: "only_calls (\<lambda>ev. \<not> is_put ev \<and> \<not> is_post ev) (GetClusterByName lib js cl c name)"
  unfolding GetClusterByName_def ListClustersAPI_def
  by (intro calls_intros only_calls_mono [OF send_only]) (auto simp: is_put_def is_post_def request_of_def)

lemma emits_split:
  "(\<And>y. x = Inl y \<Longrightarrow> emits Q (f y)) \<Longrightarrow> (\<And>y. x = Inr y \<Longrightarrow> emits Q (g y)) \<Longrightarrow> emits Q (case x of Inl y \<Rightarrow> f y | Inr y \<Rightarrow> g y)"
  "(e = None \<Longrightarrow> emits Q m) \<Longrightarrow> (\<And>y. e = Some y \<Longrightarrow> emits Q (k y)) \<Longrightarrow> emits Q (case e of None \<Rightarrow> m | Some y \<Rightarrow> k y)"
  by (cases x; simp) (cases e; simp)

lemma converge_body_justified: "emits (justified lib js cl) (converge_body lib js cl c name key val timeout st)"
  unfolding converge_body_def
  by (intro emits_bind justified_closed approve_pending_justified emits_split emits_ret emits_quiet [OF name_quiet]
      emits_quiet [OF only_calls_call]) (simp_all add: is_put_def is_post_def)

lemma poll_outcome_done: "poll_outcome js name key val x st = Inl None \<Longrightarrow> mapStatusToPhase (cr_Status x) = ClusterPhaseReady"
  by (auto simp: poll_outcome_def Let_def split: if_splits)

lemma converge_body_done:
  assumes "converge_body lib js cl c name key val timeout st w = Some (Inl None, w')"
  shows "\<exists>t ev x. tr w' = t @ [ev] \<and> listed lib js cl name x ev \<and> mapStatusToPhase (cr_Status x) = ClusterPhaseReady"
proof -
  from assms obtain w1 r w2 where r: "GetClusterByName lib js cl c name w1 = Some (r, w2)"
    and out: "(case (case r of Inl _ \<Rightarrow> Inr st | Inr x \<Rightarrow> poll_outcome js name key val x st) of
           Inl out \<Rightarrow> io_ret (Inl out)
         | Inr st' \<Rightarrow> io_bind (call (\<lambda>_. Waited c waitPollInterval) (hl_select lib c timeout waitPollInterval)) (\<lambda>d. io_ret (case d of
             SelectDone ctxe \<Rightarrow> Inl (Some ctxe)
           | SelectDeadline \<Rightarrow> Inl (Some (ErrText (''timeout waiting for cluster '' @ go_quote name @ '' to converge after setting '' @ go_quote key @ ''='' @
               jl_show js val @ '' (last status: '' @ ws_lastStatus st' @ '', message: '' @ messageOrUnset (ws_lastMessage st') @ '', statuses seen: '' @
               str_join '' -> '' (ws_statuses st') @ '')'')))
           | SelectTick \<Rightarrow> Inr st'))) w2 = Some (Inl None, w')"
    unfolding converge_body_def by (auto simp: io_bind_apply io_ret_apply split: option.splits)
  from out obtain x where "r = Inr x" "poll_outcome js name key val x st = Inl None" "w' = w2"
    by (auto simp: io_simps split: sum.splits select3.splits)
  with GetClusterByName_read [of lib js cl c name w1 x w2] r poll_outcome_done show ?thesis by metis
qed

text \<open>
  \<^verbatim>\<open>SetClusterInputValueAndWait\<close> returns without error only after an update with the new value was accepted for the
  values then in force, and its last request is a list that shows the cluster in a status that means Ready. In
  between it sends no further update, and every approval it sends is of a change request listed before.\<close>

lemma set_value_converged:
  assumes "conflict_is_ours lib js" and "revision_history lib js cl content rev_at"
    and "SetClusterInputValueAndWait lib js cl c name key val timeout w = Some (None, w')"
  shows "\<exists>pre put u cid mid ev x. tr w' = tr w @ pre @ put # mid @ [ev] \<and> list_all (\<lambda>ev. is_put ev \<longrightarrow> refused ev) pre \<and>
     (\<exists>body resp s s'. put = Http (request_of lib cl ''PUT'' (''/clusters/'' @ cid) (Some body)) (Inr resp) \<and> jl_marshalUpdate js u = Inr body \<and>
        hl_Do lib (cl_httpClient cl) c (request_of lib cl ''PUT'' (''/clusters/'' @ cid) (Some body)) s = (Inr resp, s') \<and>
        rs_status resp \<in> {200, 201} \<and> uq_Values u = AList.update key val (valuesToMap (content cid (rev_at s cid)))) \<and>
     justified lib js cl (mid @ [ev]) \<and> listed lib js cl name x ev \<and> mapStatusToPhase (cr_Status x) = ClusterPhaseReady"
proof -
  from assms(3) obtain updated w1 where upd: "UpdateClusterValues lib js cl c name (AList.update key val) w = Some (Inr updated, w1)"
    and wait: "loop (converge_body lib js cl c name key val timeout)
      \<lparr>ws_clusterID = cr_ID updated, ws_lastStatus = [], ws_lastMessage = [], ws_statuses = [], ws_failingPolls = 0\<rparr> w1 = Some (None, w')"
    unfolding SetClusterInputValueAndWait_def by (auto simp: io_bind_apply io_ret_apply split: option.splits sum.splits)
  from update_loop_accepted [OF assms(1,2) upd [unfolded UpdateClusterValues_def]]
  obtain pre and x0 :: cluster_response and u body s resp where put: "tr w1 = tr w @ pre @ [Http (request_of lib cl ''PUT'' (''/clusters/'' @ cr_ID x0) (Some body)) (Inr resp)]"
    "list_all (\<lambda>ev. is_put ev \<longrightarrow> refused ev) pre" "jl_marshalUpdate js u = Inr body" "rs_status resp \<in> {200, 201}"
    "hl_Do lib (cl_httpClient cl) c (request_of lib cl ''PUT'' (''/clusters/'' @ cr_ID x0) (Some body)) s = (Inr resp, est w1)"
    "uq_Values u = AList.update key val (valuesToMap (content (cr_ID x0) (rev_at s (cr_ID x0))))" by blast
  have "\<exists>t ev x. tr w' = t @ [ev] \<and> listed lib js cl name x ev \<and> mapStatusToPhase (cr_Status x) = ClusterPhaseReady"
    if "loop (converge_body lib js cl c name key val timeout) st w1 = Some (r, w')" "r = None" for st w1 r
    using that
  proof (induction rule: loop_induct)
    case (stop st w r w')
    then show ?case using converge_body_done by (metis (no_types))
  qed blast
  from this [OF wait] obtain t ev x where last: "tr w' = t @ [ev]" "listed lib js cl name x ev" "mapStatusToPhase (cr_Status x) = ClusterPhaseReady"
    by blast
  from emitsD [OF emits_loop [OF justified_closed converge_body_justified] wait] obtain v where v: "tr w' = tr w1 @ v" "justified lib js cl v" by blast
  have "v \<noteq> []"
  proof
    assume "v = []"
    with v(1) last(1) put(1) last(2) show False by (auto simp: listed_def request_of_def)
  qed
  then obtain mid where "v = mid @ [ev]" using v(1) last(1) by (metis append_butlast_last_id last_appendR last_snoc)
  then have "tr w' = tr w @ pre @ Http (request_of lib cl ''PUT'' (''/clusters/'' @ cr_ID x0) (Some body)) (Inr resp) # mid @ [ev]"
    and "justified lib js cl (mid @ [ev])" using put(1) v by simp_all
  with put(2-) last(2,3) show ?thesis by blast
qed


section \<open>A failure that stays is reported\<close>

lemma requests_return:
  "\<exists>r w'. send lib cl c verb path body w = Some (r, w')"
  "\<exists>r w'. GetClusterByName lib js cl c name w = Some (r, w')"
  "\<exists>r w'. GetClusterByID lib js cl c cid w = Some (r, w')"
  "\<exists>r w'. UpdateCluster lib js cl c cid u w = Some (r, w')"
  "\<exists>r w'. ListClusterChangeRequests lib js cl c cid w = Some (r, w')"
  "\<exists>r w'. ApproveClusterChangeRequest lib cl c rid w = Some (r, w')"
  by (auto simp: send_def GetClusterByName_def ListClustersAPI_def GetClusterByID_def UpdateCluster_def ListClusterChangeRequests_def
      ApproveClusterChangeRequest_def io_simps split: option.splits sum.splits)

lemma approve_all_returns: "\<exists>r w'. approve_all lib cl c crs w = Some (r, w')"
proof (induction crs arbitrary: w)
  case (Cons cr crs)
  from requests_return(6) [of lib cl c "ch_ID cr" w] obtain r w1 where "ApproveClusterChangeRequest lib cl c (ch_ID cr) w = Some (r, w1)" by blast
  with Cons.IH [of w1] show ?case by (auto simp: io_bind_apply io_ret_apply split: option.splits)
qed (simp add: io_simps)

lemma approve_pending_returns: "\<exists>r w'. approve_pending lib js cl c cid w = Some (r, w')"
proof -
  obtain r w1 where "ListClusterChangeRequests lib js cl c cid w = Some (r, w1)" using requests_return(5) by blast
  with approve_all_returns [of lib cl c _ w1] show ?thesis by (cases r) (auto simp: approve_pending_def io_bind_apply io_ret_apply)
qed

lemma update_loop_returns: "\<exists>r w'. update_loop lib js cl c name mutate n l w = Some (r, w')"
proof (induction n arbitrary: l w)
  case (Suc n)
  obtain r w1 where r: "GetClusterByName lib js cl c name w = Some (r, w1)" using requests_return(2) by blast
  show ?case
  proof (cases r)
    case (Inr x)
    obtain q w2 where q: "GetClusterByID lib js cl c (cr_ID x) w1 = Some (q, w2)" using requests_return(3) by blast
    show ?thesis
    proof (cases q)
      case y: (Inr y)
      obtain p w3 where "UpdateCluster lib js cl c (cr_ID y) (update_of y mutate) w2 = Some (p, w3)" using requests_return(4) by blast
      with r q Inr y Suc.IH show ?thesis by (cases p) (simp_all add: io_simps)
    qed (use r q Inr in \<open>simp add: io_simps\<close>)
  qed (use r in \<open>simp add: io_simps\<close>)
qed (simp add: io_simps)

text \<open>Every read of the cluster shows this status.\<close>

definition always_shows :: "'e http_lib \<Rightarrow> json_lib \<Rightarrow> commander_client \<Rightarrow> ctx \<Rightarrow> string \<Rightarrow> string \<Rightarrow> bool" where
  "always_shows lib js cl c name status \<longleftrightarrow>
     (\<forall>w r w'. GetClusterByName lib js cl c name w = Some (r, w') \<longrightarrow> (\<exists>x. r = Inr x \<and> cr_Status x = status))"

text \<open>How many polls a failure status is still given.\<close>

definition polls_left :: "string \<Rightarrow> wait_state \<Rightarrow> nat" where
  "polls_left bad st = (if ws_lastStatus st = bad then failureStatusPolls - ws_failingPolls st else failureStatusPolls)"

lemma poll_outcome_bad:
  assumes "isFailureStatus bad" "mapStatusToPhase bad \<noteq> ClusterPhaseReady" "mapStatusToPhase bad \<noteq> ClusterPhaseFailed" "cr_Status x = bad"
  shows "(\<exists>err. poll_outcome js name key val x st = Inl (Some err)) \<or>
    (\<exists>st'. poll_outcome js name key val x st = Inr st' \<and> polls_left bad st' < polls_left bad st \<and> 0 < polls_left bad st')"
  using assms by (auto simp: poll_outcome_def seen_status_def polls_left_def Let_def failureStatusPolls_def)

abbreviation poll_wait :: "ctx \<Rightarrow> event" where "poll_wait c \<equiv> Waited c waitPollInterval"

lemma requests_do_not_wait:
  "only_calls (\<lambda>ev. ev \<noteq> poll_wait c) (GetClusterByName lib js cl c name)" "only_calls (\<lambda>ev. ev \<noteq> poll_wait c) (approve_pending lib js cl c cid)"
proof -
  show "only_calls (\<lambda>ev. ev \<noteq> poll_wait c) (GetClusterByName lib js cl c name)"
    unfolding GetClusterByName_def ListClustersAPI_def by (intro calls_intros only_calls_mono [OF send_only]) auto
  have "only_calls (\<lambda>ev. ev \<noteq> poll_wait c) (approve_all lib cl c crs)" for crs
    by (rule only_calls_mono [OF approve_all_only]) auto
  then show "only_calls (\<lambda>ev. ev \<noteq> poll_wait c) (approve_pending lib js cl c cid)"
    unfolding approve_pending_def ListClusterChangeRequests_def
    by (intro calls_intros only_calls_mono [OF send_only]) (auto split: sum.splits intro: calls_intros)
qed

lemma update_does_not_wait: "only_calls (\<lambda>ev. ev \<noteq> poll_wait c) (UpdateClusterValues lib js cl c name mutate)"
proof -
  have "only_calls (\<lambda>ev. ev \<noteq> poll_wait c) (update_loop lib js cl c name mutate n l)" for n l
    by (induction n arbitrary: l)
      (auto intro!: calls_intros requests_do_not_wait only_calls_mono [OF send_only] simp: GetClusterByID_def UpdateCluster_def split: sum.splits)
  then show ?thesis by (simp add: UpdateClusterValues_def)
qed

lemma bad_round:
  assumes bad: "isFailureStatus bad" "mapStatusToPhase bad \<noteq> ClusterPhaseReady" "mapStatusToPhase bad \<noteq> ClusterPhaseFailed"
    and reads: "always_shows lib js cl c name bad"
  obtains r w' v where "converge_body lib js cl c name key val timeout st w = Some (r, w')" "tr w' = tr w @ v"
    "(\<exists>err. r = Inl (Some err) \<and> filter (\<lambda>ev. ev = poll_wait c) v = []) \<or>
     (\<exists>err. r = Inl (Some err) \<and> filter (\<lambda>ev. ev = poll_wait c) v = [poll_wait c] \<and> 1 < polls_left bad st) \<or>
     (\<exists>st'. r = Inr st' \<and> filter (\<lambda>ev. ev = poll_wait c) v = [poll_wait c] \<and> polls_left bad st' < polls_left bad st \<and> 0 < polls_left bad st')"
proof -
  from approve_pending_returns obtain e w1 where e: "approve_pending lib js cl c (ws_clusterID st) w = Some (e, w1)" by blast
  from only_callsD [OF requests_do_not_wait(2) e] obtain v1 where v1: "tr w1 = tr w @ v1" "filter (\<lambda>ev. ev = poll_wait c) v1 = []"
    by (auto simp: list_all_iff filter_empty_conv)
  show thesis
  proof (cases e)
    case (Some err)
    with e v1 show thesis by (intro that [of "Inl (Some err)" w1 v1]) (simp_all add: converge_body_def io_bind_apply io_ret_apply)
  next
    case None
    from requests_return(2) obtain g w2 where g: "GetClusterByName lib js cl c name w1 = Some (g, w2)" by blast
    from only_callsD [OF requests_do_not_wait(1) g] obtain v2 where v2: "tr w2 = tr w1 @ v2" "filter (\<lambda>ev. ev = poll_wait c) v2 = []"
      by (auto simp: list_all_iff filter_empty_conv)
    from reads g obtain x where x: "g = Inr x" "cr_Status x = bad" unfolding always_shows_def by blast
    note steps = converge_body_def io_bind_apply io_ret_apply e None g x(1)
    from poll_outcome_bad [OF bad x(2), of js name key val st] consider
      (stop) err where "poll_outcome js name key val x st = Inl (Some err)"
      | (go) st' where "poll_outcome js name key val x st = Inr st'" "polls_left bad st' < polls_left bad st" "0 < polls_left bad st'" by blast
    then show thesis
    proof cases
      case stop
      with v1 v2 show thesis by (intro that [of "Inl (Some err)" w2 "v1 @ v2"]) (simp_all add: steps)
    next
      case go
      obtain d s' where d: "hl_select lib c timeout waitPollInterval (est w2) = (d, s')" by fastforce
      let ?w = "w2\<lparr>tr := tr w2 @ [poll_wait c], est := s'\<rparr>"
      have "\<exists>r. converge_body lib js cl c name key val timeout st w = Some (r, ?w) \<and> ((\<exists>err. r = Inl (Some err)) \<or> r = Inr st')"
        using go(1) d by (cases d) (simp_all add: steps call_apply)
      then obtain r where "converge_body lib js cl c name key val timeout st w = Some (r, ?w)" "(\<exists>err. r = Inl (Some err)) \<or> r = Inr st'" by blast
      with go v1 v2 show thesis by (intro that [of r ?w "v1 @ v2 @ [poll_wait c]"]) auto
    qed
  qed
qed

lemma bad_status_ends:
  assumes bad: "isFailureStatus bad" "mapStatusToPhase bad \<noteq> ClusterPhaseReady" "mapStatusToPhase bad \<noteq> ClusterPhaseFailed"
    and reads: "always_shows lib js cl c name bad"
  shows "\<exists>err w' v. loop (converge_body lib js cl c name key val timeout) st w = Some (Some err, w') \<and> tr w' = tr w @ v \<and>
    length (filter (\<lambda>ev. ev = poll_wait c) v) \<le> polls_left bad st - 1"
proof (induction "polls_left bad st" arbitrary: st w rule: less_induct)
  case less
  obtain r w1 v where r: "converge_body lib js cl c name key val timeout st w = Some (r, w1)" and v: "tr w1 = tr w @ v"
    and cases: "(\<exists>err. r = Inl (Some err) \<and> filter (\<lambda>ev. ev = poll_wait c) v = []) \<or>
     (\<exists>err. r = Inl (Some err) \<and> filter (\<lambda>ev. ev = poll_wait c) v = [poll_wait c] \<and> 1 < polls_left bad st) \<or>
     (\<exists>st'. r = Inr st' \<and> filter (\<lambda>ev. ev = poll_wait c) v = [poll_wait c] \<and> polls_left bad st' < polls_left bad st \<and> 0 < polls_left bad st')"
    by (rule bad_round [OF bad reads])
  from cases show ?case
  proof (elim disjE exE conjE)
    fix st' assume st': "r = Inr st'" "filter (\<lambda>ev. ev = poll_wait c) v = [poll_wait c]" "polls_left bad st' < polls_left bad st" "0 < polls_left bad st'"
    from less.hyps [OF st'(3), of w1] obtain err w' v' where "loop (converge_body lib js cl c name key val timeout) st' w1 = Some (Some err, w')"
      "tr w' = tr w1 @ v'" "length (filter (\<lambda>ev. ev = poll_wait c) v') \<le> polls_left bad st' - 1" by blast
    with r v st' show ?thesis
      by (intro exI [of _ err] exI [of _ w'] exI [of _ "v @ v'"]) (simp add: loop_next)
  qed (use r v in \<open>auto dest!: loop_stop\<close>)
qed


text \<open>
  A failure status that stays is reported, independent of the timeout. If every read of the cluster shows the same
  status, one that names a failure and is neither Ready nor Failed, the operation returns an error, after
  fewer than twelve waits.\<close>

lemma failure_status_ends_wait:
  assumes "isFailureStatus bad" "mapStatusToPhase bad \<notin> {ClusterPhaseReady, ClusterPhaseFailed}"
    and "always_shows lib js cl c name bad"
  shows "\<exists>err w' u v. SetClusterInputValueAndWait lib js cl c name key val timeout w = Some (Some err, w') \<and> tr w' = tr w @ u @ v \<and>
    poll_wait c \<notin> set u \<and> length (filter (\<lambda>ev. ev = poll_wait c) v) < 12"
proof -
  obtain r w1 where r: "UpdateClusterValues lib js cl c name (AList.update key val) w = Some (r, w1)"
    using update_loop_returns unfolding UpdateClusterValues_def by blast
  from only_callsD [OF update_does_not_wait r] obtain u where u: "tr w1 = tr w @ u" "poll_wait c \<notin> set u"
    by (auto simp: list_all_iff)
  show ?thesis
  proof (cases r)
    case (Inl e)
    with r u show ?thesis unfolding SetClusterInputValueAndWait_def
      by (intro exI [of _ "wrapf (''set '' @ go_quote key @ ''='' @ jl_show js val @ '' on cluster '' @ go_quote name @ '': '') e"] exI [of _ w1] exI [of _ u] exI [of _ "[]"])
        (simp add: io_simps)
  next
    case (Inr updated)
    let ?st = "\<lparr>ws_clusterID = cr_ID updated, ws_lastStatus = [], ws_lastMessage = [], ws_statuses = [], ws_failingPolls = 0\<rparr>"
    have bad: "isFailureStatus bad" "mapStatusToPhase bad \<noteq> ClusterPhaseReady" "mapStatusToPhase bad \<noteq> ClusterPhaseFailed" using assms(1,2) by auto
    from bad_status_ends [OF bad assms(3), of key val timeout ?st w1] obtain err w' v where
      "loop (converge_body lib js cl c name key val timeout) ?st w1 = Some (Some err, w')" "tr w' = tr w1 @ v"
      "length (filter (\<lambda>ev. ev = poll_wait c) v) \<le> polls_left bad ?st - 1" by blast
    moreover have "polls_left bad ?st \<le> 12" by (simp add: polls_left_def failureStatusPolls_def)
    ultimately show ?thesis using r Inr u
      by (intro exI [of _ err] exI [of _ w'] exI [of _ u] exI [of _ v]) (simp add: SetClusterInputValueAndWait_def io_bind_apply)
  qed
qed

section \<open>A server\<close>

text \<open>
  Cluster \<^verbatim>\<open>a\<close> is read at revision 7; before the first update arrives, someone else writes revision 8; the accepted update makes
  revision 9. State 0 is before the foreign write, 1 after it, 2 after the accepted update. \<open>status\<close> is what the list shows.
\<close>

definition demo_client :: commander_client where
  "demo_client = \<lparr>cl_baseURL = ''http://c'', cl_apiPrefix = ''/api/v1'', cl_token = ''t'', cl_authMethod = AuthMethodXAuthToken, cl_authUser = [],
     cl_httpClient = \<lparr>hc_timeout = 120 * second, hc_insecureSkipVerify = False, hc_rootCAs = None\<rparr>\<rparr>"

definition demo_values :: "int \<Rightarrow> json" where
  "demo_values n = JObj (if n = 7 then [(''a'', JStr ''old'')] else if n = 8 then [(''a'', JStr ''theirs'')]
     else [(''a'', JStr ''theirs''), (''b'', JStr ''ours'')])"

text \<open>The revision in force when a request that finds the server in this state takes effect.\<close>

definition demo_rev :: "nat \<Rightarrow> string \<Rightarrow> int" where "demo_rev s cid = (if s \<le> 1 then 8 else 9)"

definition demo_cluster :: "int \<Rightarrow> string \<Rightarrow> cluster_response" where
  "demo_cluster n status = zero_cluster\<lparr>cr_ID := ''a'', cr_CurrentRevision := n, cr_Name := ''n'', cr_Status := status, cr_Values := demo_values n\<rparr>"

definition reply :: "int \<Rightarrow> string \<Rightarrow> goerr + http_response" where
  "reply code body = Inr \<lparr>rs_status = code, rs_body = body, rs_readErr = None\<rparr>"

definition demo_Do :: "http_request \<Rightarrow> nat \<Rightarrow> (goerr + http_response) \<times> nat" where
  "demo_Do rq s =
     (if rq_url rq = ''http://c/api/v1/clusters'' then (reply 200 ''list'', s)
      else if rq_url rq \<noteq> ''http://c/api/v1/clusters/a'' then (reply 404 [], s)
      else if rq_method rq = ''GET'' then (reply 200 (if s = 0 then ''7'' else if s = 1 then ''8'' else ''9''), s)
      else if s = 1 \<and> rq_body rq = Some ''8'' then (reply 200 [], 2)
      else (reply 409 ''stale'', max 1 s))"

definition demo_lib :: "nat http_lib" where
  "demo_lib = \<lparr>hl_newRequest = (\<lambda>_ _. None), hl_Do = (\<lambda>_ _. demo_Do), hl_cookie = (\<lambda>a b. a @ ''='' @ b), hl_PathEscape = (\<lambda>s. s),
     hl_QueryEscape = (\<lambda>s. s), hl_ReadFile = (\<lambda>_. Inr []), hl_AppendCertsFromPEM = (\<lambda>_. True), hl_select = (\<lambda>_ _ _ s. (SelectTick, s))\<rparr>"

definition json_bad :: "goerr + 'a" where "json_bad = Inl (ErrText ''json'')"

definition demo_js :: "string \<Rightarrow> json_lib" where
  "demo_js status = 
     \<lparr>jl_decodeCluster = (\<lambda>resp. if rs_body resp = ''7'' then Inr (demo_cluster 7 status) else if rs_body resp = ''8'' then Inr (demo_cluster 8 status)
        else if rs_body resp = ''9'' then Inr (demo_cluster 9 status) else json_bad),
      jl_decodeCommanderCluster = (\<lambda>_. json_bad), jl_decodeTemplate = (\<lambda>_. json_bad), jl_decodeTemplateList = (\<lambda>_. json_bad),
      jl_cluster = (\<lambda>_. json_bad), jl_clusters = (\<lambda>_. Inr [demo_cluster 8 status]), jl_clusterList = (\<lambda>_. json_bad), jl_templates = (\<lambda>_. json_bad),
      jl_templateList = (\<lambda>_. json_bad), jl_versions = (\<lambda>_. json_bad), jl_versionList = (\<lambda>_. json_bad), jl_registries = (\<lambda>_. json_bad),
      jl_registryList = (\<lambda>_. json_bad), jl_changes = (\<lambda>_. Inr []), jl_changeList = (\<lambda>_. json_bad), jl_kubeconfig = (\<lambda>_. json_bad), jl_values = (\<lambda>_. json_bad),
      jl_marshalCreate = (\<lambda>_. json_bad), jl_marshalUpdate = (\<lambda>u. Inr (if uq_CurrentRevision u = 8 then ''8'' else ''stale'')),
      jl_marshalCluster = (\<lambda>_. json_bad), jl_show = (\<lambda>_. [])\<rparr>"

lemma demo_server: "conflict_is_ours demo_lib (demo_js status)" "revision_history demo_lib (demo_js status) demo_client (\<lambda>_. demo_values) demo_rev"
  by (auto simp: conflict_is_ours_def revision_history_def demo_lib_def demo_js_def demo_Do_def demo_client_def request_of_def api_url_def
      reply_def errors_is_def ErrRevisionConflict_def demo_cluster_def json_bad_def zero_cluster_def demo_rev_def split: if_splits)

lemma demo_requests:
  "GetClusterByName demo_lib (demo_js status) demo_client c ''n'' w =
     Some (Inr (demo_cluster 8 status), w\<lparr>tr := tr w @ [Http (request_of demo_lib demo_client ''GET'' ''/clusters'' None) (reply 200 ''list'')]\<rparr>)"
  "GetClusterByID demo_lib (demo_js status) demo_client c ''a'' w =
     Some (Inr (demo_cluster (if est w = 0 then 7 else if est w = 1 then 8 else 9) status), w\<lparr>tr := tr w @
       [Http (request_of demo_lib demo_client ''GET'' ''/clusters/a'' None) (reply 200 (if est w = 0 then ''7'' else if est w = 1 then ''8'' else ''9''))]\<rparr>)"
  by (simp_all add: GetClusterByName_def ListClustersAPI_def GetClusterByID_def send_def io_simps demo_lib_def demo_js_def demo_Do_def
      demo_client_def request_of_def api_url_def reply_def wrap_left_def list_response_def decode_clusters_def demo_cluster_def)


lemma demo_update:
  "UpdateCluster demo_lib (demo_js status) demo_client c ''a'' u w =
     (let body = (if uq_CurrentRevision u = 8 then ''8'' else ''stale''); rq = request_of demo_lib demo_client ''PUT'' ''/clusters/a'' (Some body) in
      if est w = 1 \<and> uq_CurrentRevision u = 8 then Some (Inr zero_cluster, w\<lparr>tr := tr w @ [Http rq (reply 200 [])], est := 2\<rparr>)
      else Some (Inl (ErrWrap [] ErrRevisionConflict '': stale''), w\<lparr>tr := tr w @ [Http rq (reply 409 ''stale'')], est := max 1 (est w)\<rparr>))"
  by (simp add: UpdateCluster_def send_def io_simps demo_lib_def demo_js_def demo_Do_def demo_client_def request_of_def api_url_def reply_def
      wrap_left_def trimSpace_def is_space_def Let_def)

lemma demo_run:
  "\<exists>w'. UpdateClusterValues demo_lib (demo_js status) demo_client c ''n'' mutate \<lparr>tr = [], est = 0\<rparr> = Some (Inr zero_cluster, w') \<and> est w' = 2 \<and>
     length (filter is_put (tr w')) = 2"
  by (simp add: UpdateClusterValues_def updateRevisionRetries_def numeral_eq_Suc io_simps demo_requests demo_update update_of_def
      demo_cluster_def errors_is_def ErrRevisionConflict_def is_put_def request_of_def Let_def)

text \<open>The only state in which an update is accepted is that after the foreign write.\<close>

lemma demo_accepts:
  assumes "hl_Do demo_lib hc c (request_of demo_lib demo_client ''PUT'' (''/clusters/'' @ cid) (Some body)) s = (Inr resp, s')" "rs_status resp \<in> {200, 201}"
  shows "s = 1"
  using assms by (auto simp: demo_lib_def demo_Do_def demo_client_def request_of_def api_url_def reply_def split: if_splits)

theorem update_loses_nothing_witness:
  "conflict_is_ours demo_lib (demo_js []) \<and> revision_history demo_lib (demo_js []) demo_client (\<lambda>_. demo_values) demo_rev \<and>
   (\<exists>w'. UpdateClusterValues demo_lib (demo_js []) demo_client CtxRoot ''n'' (AList.update ''b'' (JStr ''ours'')) \<lparr>tr = [], est = 0\<rparr> =
        Some (Inr zero_cluster, w') \<and> demo_rev (est w') ''a'' = 9 \<and> length (filter is_put (tr w')) = 2 \<and>
      (\<exists>pre (x :: cluster_response) u body resp. tr w' = pre @ [Http (request_of demo_lib demo_client ''PUT'' (''/clusters/'' @ cr_ID x) (Some body)) (Inr resp)] \<and>
        list_all (\<lambda>ev. is_put ev \<longrightarrow> refused ev) pre \<and> jl_marshalUpdate (demo_js []) u = Inr body \<and> uq_CurrentRevision u = 8 \<and>
        uq_Values u = [(''a'', JStr ''theirs''), (''b'', JStr ''ours'')]))"
proof -
  obtain w' where run: "UpdateClusterValues demo_lib (demo_js []) demo_client CtxRoot ''n'' (AList.update ''b'' (JStr ''ours'')) \<lparr>tr = [], est = 0\<rparr> =
      Some (Inr zero_cluster, w')" and w': "est w' = 2" "length (filter is_put (tr w')) = 2"
    using demo_run by blast
  from update_loses_nothing [OF demo_server run] obtain pre and x :: cluster_response and u body s resp where
    u: "tr w' = pre @ [Http (request_of demo_lib demo_client ''PUT'' (''/clusters/'' @ cr_ID x) (Some body)) (Inr resp)]"
      "list_all (\<lambda>ev. is_put ev \<longrightarrow> refused ev) pre" "jl_marshalUpdate (demo_js []) u = Inr body"
    and put: "hl_Do demo_lib (cl_httpClient demo_client) CtxRoot (request_of demo_lib demo_client ''PUT'' (''/clusters/'' @ cr_ID x) (Some body)) s = (Inr resp, est w')"
      "rs_status resp \<in> {200, 201}"
    and v: "uq_CurrentRevision u = demo_rev s (cr_ID x)"
      "uq_Values u = AList.update ''b'' (JStr ''ours'') (valuesToMap (demo_values (demo_rev s (cr_ID x))))"
    unfolding world.select_convs append_Nil by blast
  from v demo_accepts [OF put] have "uq_CurrentRevision u = 8" "uq_Values u = [(''a'', JStr ''theirs''), (''b'', JStr ''ours'')]"
    by (simp_all add: demo_rev_def demo_values_def valuesToMap_def)
  moreover have "demo_rev (est w') ''a'' = 9" by (simp add: demo_rev_def w'(1))
  ultimately show ?thesis using demo_server run u w'(2) by blast
qed

text \<open>
  The status that is read first may still be the one from before the update: a server that shows \<^verbatim>\<open>in_sync\<close> until it
  starts to converge ends the wait at once.\<close>

lemma set_value_may_not_wait:
  "\<exists>w'. SetClusterInputValueAndWait demo_lib (demo_js ''in_sync'') demo_client c ''n'' key val timeout \<lparr>tr = [], est = 0\<rparr> = Some (None, w') \<and>
     poll_wait c \<notin> set (tr w')"
proof -
  have ready: "mapStatusToPhase ''in_sync'' = ClusterPhaseReady" by code_simp
  obtain w' where w': "UpdateClusterValues demo_lib (demo_js ''in_sync'') demo_client c ''n'' (AList.update key val) \<lparr>tr = [], est = 0\<rparr> = Some (Inr zero_cluster, w')"
    using demo_run by blast
  from only_callsD [OF update_does_not_wait w'] have "poll_wait c \<notin> set (tr w')" by (auto simp: list_all_iff)
  moreover have "converge_body demo_lib (demo_js ''in_sync'') demo_client c ''n'' key val timeout
      \<lparr>ws_clusterID = cr_ID zero_cluster, ws_lastStatus = [], ws_lastMessage = [], ws_statuses = [], ws_failingPolls = 0\<rparr> w' =
      Some (Inl None, w'\<lparr>tr := tr w' @ [Http (request_of demo_lib demo_client ''GET'' ''/clusters'' None) (reply 200 ''list'')]\<rparr>)"
    by (simp add: converge_body_def approve_pending_def zero_cluster_def io_simps demo_requests poll_outcome_def demo_cluster_def ready Let_def)
  ultimately show ?thesis using w' by (auto simp: SetClusterInputValueAndWait_def io_bind_apply dest: loop_stop)
qed

end
