(* ===== verification/Module_Configure.thy ===== *)
theory Module_Configure
  imports Module_Enable
begin

text \<open>
  The other way modules are enabled, used by the Commander provider and by test suites:
  \<^verbatim>\<open>EnableAndConfigureModules\<close>, \<^verbatim>\<open>WaitForModulesReady\<close> and their variants for module specifications, in
  \<^verbatim>\<open>pkg/kubernetes/modules.go\<close>. Its writes have retry loops of their own. It is a second instance of the contract
  \<open>module_applier\<close>, which gives the same order of writes and observations.
\<close>

section \<open>Module specifications\<close>

record module_spec =
  ms_Name :: string
  ms_Version :: int
  ms_Enabled :: bool
  ms_Settings :: "(string \<times> json) list option"
  ms_Dependencies :: "string list"
  ms_ModulePullOverride :: string

definition convertModuleSpecsToConfigs :: "module_spec list \<Rightarrow> module_config list" where
  "convertModuleSpecsToConfigs modules = map (\<lambda>spec.
     \<lparr>mc_Name = ms_Name spec, mc_Version = ms_Version spec, mc_Enabled = ms_Enabled spec,
      mc_Settings = Some (case ms_Settings spec of None \<Rightarrow> [] | Some s \<Rightarrow> s),
      mc_Dependencies = ms_Dependencies spec, mc_ModulePullOverride = ms_ModulePullOverride spec\<rparr>) modules"

section \<open>Writing a configuration\<close>

definition isRetryableModuleConfigError :: "goerr \<Rightarrow> bool" where
  "isRetryableModuleConfigError err \<longleftrightarrow> IsRetryable err \<or> IsAPINotRegisteredError err"

definition configMaxRetries :: int where "configMaxRetries = 60"
definition configMaxRetryDelay :: int where "configMaxRetryDelay = 30 * second"

text \<open>
  The loop of \<^verbatim>\<open>configureModuleConfig\<close>. The delays \<^verbatim>\<open>2s * 1.5\<^sup>n\<close> below the cap are whole numbers of nanoseconds,
  so the conversion through \<^verbatim>\<open>float64\<close> is exact.
\<close>

function configure_loop ::
  "'e runtime \<Rightarrow> 'e deckhouse_api \<Rightarrow> ctx \<Rightarrow> module_config \<Rightarrow> int \<Rightarrow> int \<Rightarrow> goerr option \<Rightarrow> ('e, goerr option) act" where
  "configure_loop rt api c mc attempt retryDelay lastErr =
     (if attempt < configMaxRetries then
        io_bind (GetModuleConfig rt api c (mc_Name mc)) (\<lambda>g.
          io_bind (case g of
              Inl _ \<Rightarrow> CreateModuleConfig rt api c (mc_Name mc) (wanted_spec mc)
            | Inr _ \<Rightarrow> UpdateModuleConfig rt api c (mc_Name mc) (wanted_spec mc)) (\<lambda>e. case e of
            None \<Rightarrow> io_ret None
          | Some err \<Rightarrow>
              if isRetryableModuleConfigError err \<and> attempt < configMaxRetries - 1 then
                io_bind (waitFor rt c retryDelay) (\<lambda>d. case d of
                  Some ctxe \<Rightarrow> io_ret (Some ctxe)
                | None \<Rightarrow> configure_loop rt api c mc (attempt + 1) (min configMaxRetryDelay (retryDelay * 3 div 2)) (Some err))
              else io_ret (Some (wrapf ((case g of Inl _ \<Rightarrow> ''failed to create moduleconfig '' | Inr _ \<Rightarrow> ''failed to update moduleconfig '')
                @ mc_Name mc @ '': '') err))))
      else io_ret (Some (case lastErr of
          Some err \<Rightarrow> wrapf (''failed to configure moduleconfig '' @ mc_Name mc @ '' after '' @ itoa configMaxRetries @ '' attempts: '') err
        | None \<Rightarrow> ErrText (''failed to configure moduleconfig '' @ mc_Name mc @ '' after '' @ itoa configMaxRetries @ '' attempts: %!w(<nil>)''))))"
  by pat_completeness auto
termination
  by (relation "measure (\<lambda>(rt, api, c, mc, attempt, d, l). nat (configMaxRetries - attempt))") auto

declare configure_loop.simps [simp del]

definition configureModuleConfig :: "'e runtime \<Rightarrow> 'e deckhouse_api \<Rightarrow> ctx \<Rightarrow> module_config \<Rightarrow> ('e, goerr option) act" where
  "configureModuleConfig rt api c mc = configure_loop rt api c mc 0 (2 * second) None"

definition overrideMaxRetries :: int where "overrideMaxRetries = 5"

text \<open>The loop of \<^verbatim>\<open>configureModulePullOverride\<close>, which waits before an attempt and not after it.\<close>

function override_loop ::
  "'e runtime \<Rightarrow> 'e deckhouse_api \<Rightarrow> ctx \<Rightarrow> module_config \<Rightarrow> string \<Rightarrow> int \<Rightarrow> int \<Rightarrow> goerr option \<Rightarrow> ('e, goerr option) act" where
  "override_loop rt api c mc imageTag attempt retryDelay lastErr =
     (if attempt < overrideMaxRetries then
        io_bind (if attempt > 0 then waitFor rt c retryDelay else io_ret None) (\<lambda>d. case d of
          Some ctxe \<Rightarrow> io_ret (Some (wrapf (''context cancelled while retrying ModulePullOverride for '' @ mc_Name mc @ '': '') ctxe))
        | None \<Rightarrow>
            let delay' = (if attempt > 0 then retryDelay * 2 else retryDelay) in
            io_bind (GetModulePullOverride rt api c (mc_Name mc)) (\<lambda>g.
              io_bind (case g of
                  Inl _ \<Rightarrow> CreateModulePullOverride rt api c (mc_Name mc) imageTag
                | Inr _ \<Rightarrow> UpdateModulePullOverride rt api c (mc_Name mc) imageTag) (\<lambda>e. case e of
                None \<Rightarrow> io_ret None
              | Some err \<Rightarrow>
                  if IsRetryable err \<and> attempt < overrideMaxRetries - 1
                  then override_loop rt api c mc imageTag (attempt + 1) delay' (Some err)
                  else io_ret (Some (wrapf ((case g of Inl _ \<Rightarrow> ''failed to create ModulePullOverride for ''
                      | Inr _ \<Rightarrow> ''failed to update ModulePullOverride for '') @ mc_Name mc @ '': '') err)))))
      else io_ret (map_option (wrapf (''failed to configure ModulePullOverride for '' @ mc_Name mc @ '' after '' @
          itoa overrideMaxRetries @ '' attempts: '')) lastErr))"
  by pat_completeness auto
termination
  by (relation "measure (\<lambda>(rt, api, c, mc, tag, attempt, d, l). nat (overrideMaxRetries - attempt))") auto

declare override_loop.simps [simp del]

definition configureModulePullOverride ::
  "'e runtime \<Rightarrow> 'e deckhouse_api \<Rightarrow> ctx \<Rightarrow> module_config \<Rightarrow> string \<Rightarrow> ('e, goerr option) act" where
  "configureModulePullOverride rt api c mc registryRepo =
     (if hasPrefix registryRepo ''dev-''
      then override_loop rt api c mc (if mc_ModulePullOverride mc \<noteq> [] then mc_ModulePullOverride mc else ''main'') 0 (2 * second) None
      else io_ret None)"

section \<open>Level by level\<close>

text \<open>The goroutine that configures one module.\<close>

definition configureModule ::
  "'e runtime \<Rightarrow> 'e deckhouse_api \<Rightarrow> ctx \<Rightarrow> module_config \<Rightarrow> string \<Rightarrow> ('e, goerr option) act" where
  "configureModule rt api c mc registryRepo =
     io_bind (configureModuleConfig rt api c mc) (\<lambda>e. case e of
       Some err \<Rightarrow> io_ret (Some (wrapf (''failed to create ModuleConfig for module '' @ mc_Name mc @ '': '') err))
     | None \<Rightarrow> io_bind (configureModulePullOverride rt api c mc registryRepo) (\<lambda>e.
         io_ret (map_option (wrapf (''failed to create ModulePullOverride for module '' @ mc_Name mc @ '': '')) e)))"

text \<open>
  The levels in turn. A \<^verbatim>\<open>sync.WaitGroup\<close> with a buffered channel of errors is a group that runs all its goroutines
  and reports the first error, as \<open>errgroup\<close>, but does not cancel the context.
\<close>

fun configure_levels ::
  "'e runtime \<Rightarrow> (ctx \<Rightarrow> module_config \<Rightarrow> string \<Rightarrow> ('e, goerr option) act)
   \<Rightarrow> (ctx \<Rightarrow> string \<Rightarrow> int \<Rightarrow> ('e, goerr option) act) \<Rightarrow> ctx \<Rightarrow> string \<Rightarrow> int \<Rightarrow> module_config list list \<Rightarrow> ('e, goerr option) act" where
  "configure_levels rt apply waitReady c repo levelIndex [] = io_ret None"
| "configure_levels rt apply waitReady c repo levelIndex (level # levels) =
     io_bind (errgroup rt (\<lambda>mc. apply c mc repo) level) (\<lambda>e. case e of
       Some err \<Rightarrow> io_ret (Some err)
     | None \<Rightarrow> io_bind (errgroup rt (\<lambda>mc. io_bind (waitReady c (mc_Name mc) ModuleDeployTimeout) (\<lambda>e.
           io_ret (map_option (wrapf (''module '' @ mc_Name mc @ '' in level '' @ itoa (levelIndex + 1) @ '' failed to become ready: '')) e)))
           (filter mc_Enabled level)) (\<lambda>e. case e of
         Some err \<Rightarrow> io_ret (Some err)
       | None \<Rightarrow> configure_levels rt apply waitReady c repo (levelIndex + 1) levels))"

definition nil_panic :: goerr where
  "nil_panic = ErrText ''panic: runtime error: invalid memory address or nil pointer dereference''"

text \<open>\<open>ord\<close> is the iteration order of the Go maps, as in \<open>module_sort\<close>.\<close>

definition EnableAndConfigureModules ::
  "'e runtime \<Rightarrow> (nat \<Rightarrow> string \<Rightarrow> nat) \<Rightarrow> 'e deckhouse_api \<Rightarrow> ctx \<Rightarrow> module_config option list \<Rightarrow> string \<Rightarrow> ('e, goerr option) act" where
  "EnableAndConfigureModules rt ord api c modules repo =
     (if modules = [] then io_ret None
      else if None \<in> set modules then io_ret (Some nil_panic)
      else case module_sort ord (present modules) of
        Inl e \<Rightarrow> io_ret (Some e)
      | Inr levels \<Rightarrow> configure_levels rt (configureModule rt api) (WaitForModuleReady rt api) c repo 0 levels)"

fun wait_modules :: "'e runtime \<Rightarrow> 'e deckhouse_api \<Rightarrow> ctx \<Rightarrow> int \<Rightarrow> module_config list \<Rightarrow> ('e, goerr option) act" where
  "wait_modules rt api c timeout [] = io_ret None"
| "wait_modules rt api c timeout (mc # mcs) =
     (if mc_Enabled mc then
        io_bind (WaitForModuleReady rt api c (mc_Name mc) timeout) (\<lambda>e. case e of
          Some err \<Rightarrow> io_ret (Some (wrapf (''failed to wait for module '' @ mc_Name mc @ '' to be ready: '') err))
        | None \<Rightarrow> wait_modules rt api c timeout mcs)
      else wait_modules rt api c timeout mcs)"

definition WaitForModulesReady ::
  "'e runtime \<Rightarrow> (nat \<Rightarrow> string \<Rightarrow> nat) \<Rightarrow> 'e deckhouse_api \<Rightarrow> ctx \<Rightarrow> module_config option list \<Rightarrow> int \<Rightarrow> ('e, goerr option) act" where
  "WaitForModulesReady rt ord api c modules timeout =
     (if modules = [] then io_ret None
      else if None \<in> set modules then io_ret (Some nil_panic)
      else case module_sort ord (present modules) of
        Inl e \<Rightarrow> io_ret (Some e)
      | Inr levels \<Rightarrow> wait_modules rt api c timeout (concat levels))"

text \<open>The variants for specifications; without a cluster definition the registry is the default one.\<close>

definition spec_registry :: "cluster_definition option \<Rightarrow> string" where
  "spec_registry def = (case def of None \<Rightarrow> ''dev-registry.deckhouse.io/sys/deckhouse-oss'' | Some d \<Rightarrow> RegistryRepo (DKPParameters d))"

definition EnableModulesWithSpecs ::
  "'e runtime \<Rightarrow> (nat \<Rightarrow> string \<Rightarrow> nat) \<Rightarrow> 'e deckhouse_api \<Rightarrow> ctx \<Rightarrow> cluster_definition option \<Rightarrow> module_spec list \<Rightarrow> ('e, goerr option) act" where
  "EnableModulesWithSpecs rt ord api c def modules =
     EnableAndConfigureModules rt ord api c (map Some (convertModuleSpecsToConfigs modules)) (spec_registry def)"

definition WaitForModulesReadyWithSpecs ::
  "'e runtime \<Rightarrow> (nat \<Rightarrow> string \<Rightarrow> nat) \<Rightarrow> 'e deckhouse_api \<Rightarrow> ctx \<Rightarrow> module_spec list \<Rightarrow> int \<Rightarrow> ('e, goerr option) act" where
  "WaitForModulesReadyWithSpecs rt ord api c modules timeout =
     WaitForModulesReady rt ord api c (map Some (convertModuleSpecsToConfigs modules)) timeout"

definition EnableModulesAndWait ::
  "'e runtime \<Rightarrow> (nat \<Rightarrow> string \<Rightarrow> nat) \<Rightarrow> 'e deckhouse_api \<Rightarrow> ctx \<Rightarrow> cluster_definition option \<Rightarrow> module_spec list \<Rightarrow> int \<Rightarrow> ('e, goerr option) act" where
  "EnableModulesAndWait rt ord api c def modules timeout =
     io_bind (EnableModulesWithSpecs rt ord api c def modules) (\<lambda>e. case e of
       Some err \<Rightarrow> io_ret (Some err)
     | None \<Rightarrow> WaitForModulesReadyWithSpecs rt ord api c modules timeout)"


section \<open>The contract\<close>

context module_applier
begin

lemma configured_in_order:
  assumes p: "valid p" and inj: "inj_on mc_Name M"
  shows "S \<subseteq> M \<Longrightarrow> set (concat Ls) \<subseteq> M - S \<Longrightarrow> distinct (concat Ls) \<Longrightarrow> ordered_levels S Ls \<Longrightarrow>
    triple (since t0 (level_inv p repo M S))
      (configure_levels rt (apply_module p) (wait_ready p) c repo idx Ls)
      (\<lambda>e. since t0 (\<lambda>u. in_order p repo M u \<and> (e = None \<longrightarrow> level_inv p repo M (S \<union> set (concat Ls)) u)))"
proof (induction Ls arbitrary: S idx)
  case Nil
  show ?case by (simp, rule triple_ret) (auto simp: level_inv_def elim!: since_imp)
next
  case (Cons L Ls)
  have "S \<union> set L \<subseteq> M" "set (concat Ls) \<subseteq> M - (S \<union> set L)" "distinct (concat Ls)"
    "ordered_levels (S \<union> set L) Ls" using Cons.prems by auto
  from Cons.IH [OF this, of "idx + 1"] have IH: "triple (since t0 (level_inv p repo M (S \<union> set L)))
      (configure_levels rt (apply_module p) (wait_ready p) c repo (idx + 1) Ls)
      (\<lambda>e. since t0 (\<lambda>u. in_order p repo M u \<and> (e = None \<longrightarrow> level_inv p repo M (S \<union> set (concat (L # Ls))) u)))"
    by (simp add: Un_assoc)
  have same: "(\<lambda>mc. apply_module p c mc repo) = (\<lambda>m. io_bind (apply_module p c m repo) (\<lambda>e. io_ret (map_option (\<lambda>x. x) e)))"
    by (simp add: fun_eq_iff io_simps option.map_ident split: option.splits)
  show ?case
    unfolding configure_levels.simps same
    by (rule level_then [OF p inj Cons.prems(1) _ _ IH]) (use Cons.prems in auto)
qed

end

lemma pull_tag_configure: "(if mc_ModulePullOverride m \<noteq> [] then mc_ModulePullOverride m else ''main'') = pull_tag m"
  by (simp add: pull_tag_def defaultModulePullTag_def)

lemma configure_loop_stores:
  assumes "api_names api"
  shows "triple (since t0 (\<lambda>_. True)) (configure_loop rt api c m attempt d l)
    (nil_or (since t0 (list_ex (config_stored m))) (since t0 (\<lambda>_. True)))"
proof (induction "nat (configMaxRetries - attempt)" arbitrary: attempt d l)
  case 0
  then show ?case by (subst configure_loop.simps) (auto intro!: triple_ret simp: nil_or_def)
next
  case (Suc k)
  note again = Suc.hyps(1) [of "attempt + 1"]
  have k: "k = nat (configMaxRetries - (attempt + 1))" using Suc.hyps(2) by simp
  have get: "triple (since t0 (\<lambda>_. True)) (GetModuleConfig rt api c (mc_Name m)) (\<lambda>_. since t0 (\<lambda>_. True))"
    by (rule triple_keeps [where A = "\<lambda>_. True"]) (auto simp: GetModuleConfig_def intro!: calls_intros)
  show ?case
    apply (subst configure_loop.simps)
    apply (rule triple_if)
     apply (rule triple_bind [OF get])
     apply (rule triple_bind [where R = "nil_or (since t0 (list_ex (config_stored m))) (since t0 (\<lambda>_. True))"])
      apply (auto split: sum.splits intro: CreateModuleConfig_stores UpdateModuleConfig_stores [OF assms])[1]
     apply (rule triple_option)
      apply (rule triple_ret, simp)
     apply (rule triple_if)
      apply (rule triple_bind, rule triple_waitFor [where Q = "\<lambda>_. since t0 (\<lambda>_. True)"], simp add: nil_or_def)
      apply (rule triple_option)
       apply (rule again [OF k])
      apply (rule triple_ret, simp add: nil_or_def)
     apply (rule triple_ret, simp add: nil_or_def)
    apply (rule triple_ret, simp add: nil_or_def)
    done
qed


lemma override_loop_stores:
  assumes "api_names api"
  shows "attempt = 0 \<or> l \<noteq> None \<Longrightarrow> triple (since t0 (\<lambda>_. True)) (override_loop rt api c m (pull_tag m) attempt d l)
    (nil_or (since t0 (list_ex (override_stored m))) (since t0 (\<lambda>_. True)))"
proof (induction "nat (overrideMaxRetries - attempt)" arbitrary: attempt d l)
  case 0
  then have "\<not> attempt < overrideMaxRetries" "l \<noteq> None" by (auto simp: overrideMaxRetries_def)
  then show ?case by (subst override_loop.simps) (auto intro!: triple_ret simp: nil_or_def)
next
  case (Suc k)
  have k: "k = nat (overrideMaxRetries - (attempt + 1))" using Suc.hyps(2) by simp
  note again = Suc.hyps(1) [OF k]
  have get: "triple (since t0 (\<lambda>_. True)) (GetModulePullOverride rt api c (mc_Name m)) (\<lambda>_. since t0 (\<lambda>_. True))"
    by (rule triple_keeps [where A = "\<lambda>_. True"]) (auto simp: GetModulePullOverride_def intro!: calls_intros)
  have wait: "triple (since t0 (\<lambda>_. True)) (if attempt > 0 then waitFor rt c d else io_ret None) (\<lambda>_. since t0 (\<lambda>_. True))"
    by (rule triple_if, rule triple_waitFor, simp, rule triple_ret)
  show ?case
    apply (subst override_loop.simps)
    apply (rule triple_if)
     apply (rule triple_bind [OF wait])
     apply (rule triple_option)
      apply (simp only: Let_def)
      apply (rule triple_bind [OF get])
      apply (rule triple_bind [where R = "nil_or (since t0 (list_ex (override_stored m))) (since t0 (\<lambda>_. True))"])
       apply (auto split: sum.splits intro: CreateModulePullOverride_stores UpdateModulePullOverride_stores [OF assms])[1]
      apply (rule triple_option)
       apply (rule triple_ret, simp)
      apply (rule triple_if)
       apply (rule triple_pre, rule again, simp, simp add: nil_or_def)
      apply (rule triple_ret, simp add: nil_or_def)
     apply (rule triple_ret, simp add: nil_or_def)
    apply (use Suc.hyps(2) in simp)
    done
qed

lemmas module_requests = GetModuleConfig_def GetModulePullOverride_def CreateModuleConfig_def UpdateModuleConfig_def
  CreateModulePullOverride_def UpdateModulePullOverride_def Let_def

lemma configure_loop_own:
  assumes "api_names api"
  shows "only_calls (\<lambda>ev. module_written ev \<in> {None, Some (mc_Name m)}) (configure_loop rt api c m attempt d l)"
proof (induction "nat (configMaxRetries - attempt)" arbitrary: attempt d l)
  case 0
  then show ?case by (subst configure_loop.simps) (auto intro!: calls_intros)
next
  case (Suc k)
  have k: "k = nat (configMaxRetries - (attempt + 1))" using Suc.hyps(2) by simp
  show ?case
    apply (subst configure_loop.simps)
    unfolding module_requests
    by (intro calls_intros Suc.hyps(1) [OF k] only_calls_call_bind [where f = "da_getMC api c (mc_Name m)"
        and A = "\<lambda>r. \<forall>obj. r = Inr obj \<longrightarrow> mco_name obj = mc_Name m"])
      (auto dest: api_namesD [OF assms])
qed

lemma override_loop_own:
  assumes "api_names api"
  shows "only_calls (\<lambda>ev. module_written ev \<in> {None, Some (mc_Name m)}) (override_loop rt api c m tag attempt d l)"
proof (induction "nat (overrideMaxRetries - attempt)" arbitrary: attempt d l)
  case 0
  then show ?case by (subst override_loop.simps) (auto intro!: calls_intros)
next
  case (Suc k)
  have k: "k = nat (overrideMaxRetries - (attempt + 1))" using Suc.hyps(2) by simp
  show ?case
    apply (subst override_loop.simps)
    unfolding module_requests
    by (intro calls_intros Suc.hyps(1) [OF k] only_calls_call_bind [where f = "da_getMPO api c (mc_Name m)"
        and A = "\<lambda>r. \<forall>obj. r = Inr obj \<longrightarrow> mpo_name obj = mc_Name m"])
      (auto dest: api_namesD [OF assms])
qed

lemma configureModule_own:
  "api_names api \<Longrightarrow> only_calls (\<lambda>ev. module_written ev \<in> {None, Some (mc_Name m)}) (configureModule rt api c m repo)"
  unfolding configureModule_def configureModuleConfig_def configureModulePullOverride_def
  by (intro calls_intros configure_loop_own override_loop_own)

lemma configureModule_stores:
  assumes "api_names api"
  shows "triple (\<lambda>t. t = t0) (configureModule rt api c m repo) (\<lambda>e t. e = None \<longrightarrow> since t0 (module_stored m repo) t)"
  unfolding configureModule_def
proof (rule triple_store_both)
  show "triple (since t0 (\<lambda>_. True)) (configureModuleConfig rt api c m)
    (nil_or (since t0 (list_ex (config_stored m))) (since t0 (\<lambda>_. True)))"
    unfolding configureModuleConfig_def by (rule configure_loop_stores [OF assms])
  have "triple (since t0 (\<lambda>_. True)) (configureModulePullOverride rt api c m repo)
      (nil_or (\<lambda>t. hasPrefix repo devRegistryPrefix \<longrightarrow> since t0 (list_ex (override_stored m)) t) (since t0 (\<lambda>_. True)))"
    unfolding configureModulePullOverride_def pull_tag_configure devRegistryPrefix_def
    by (rule triple_if, rule triple_post, rule override_loop_stores [OF assms])
      (auto simp: nil_or_def split: option.splits intro!: triple_ret)
  then show "triple (since t0 (\<lambda>_. True)) (io_bind (configureModulePullOverride rt api c m repo) (\<lambda>e. io_ret (map_option
        (wrapf (''failed to create ModulePullOverride for module '' @ mc_Name m @ '': '')) e)))
      (nil_or (\<lambda>t. hasPrefix repo devRegistryPrefix \<longrightarrow> since t0 (list_ex (override_stored m)) t) (since t0 (\<lambda>_. True)))"
    by (rule triple_bind) (rule triple_ret, simp add: nil_or_def split: option.splits)
  show "appends (io_bind (configureModulePullOverride rt api c m repo) (\<lambda>e. io_ret (map_option
        (wrapf (''failed to create ModulePullOverride for module '' @ mc_Name m @ '': '')) e)))"
    unfolding configureModulePullOverride_def
    by (intro calls_intros only_calls_mono [OF override_loop_own [OF assms]] TrueI)
qed

interpretation spec_applier: module_applier "\<lambda>p. api_names (snd p)" "\<lambda>p. configureModule (fst p) (snd p)"
  "\<lambda>p. WaitForModuleReady (fst p) (snd p)" "\<lambda>_. module_written" "\<lambda>p. seen_ready (da_phaseReady (snd p))" "\<lambda>_. module_stored"
  by unfold_locales (rule configureModule_own configureModule_stores default_applier.wait_silent [unfolded applier_waitReady_def]
      default_applier.wait_done [unfolded applier_waitReady_def] default_applier.applied_mono, assumption)+

lemma spec_settled: "spec_applier.settled (rt, api) = module_settled (da_phaseReady api)"
  by (intro ext) (simp add: spec_applier.settled_def module_settled_def)


section \<open>Properties\<close>

lemma module_sort_levels:
  assumes dist: "distinct (map mc_Name ms)" and srt: "module_sort ord ms = Inr levels"
  shows "ordered_levels {} levels" and "set (concat levels) = set ms" and "distinct (map mc_Name (concat levels))"
proof -
  obtain g where g: "buildModuleGraph ms = Inr g" using srt by (auto simp: module_sort_def split: sum.splits)
  from module_sort_layers [OF dist g, of ord] srt obtain Ls where levels: "levels = map (List.map_filter (mg_modules g)) Ls"
    and lay: "legacy.layered ms {} Ls" by auto
  have eq: "g = legacy_graph ms" using g by (auto simp: buildModuleGraph_result split: option.splits)
  have nodes: "legacy_nodes ms = map mc_Name ms" using dist g by (simp add: legacy_nodes_def)
  note all = legacy.layered_nodes [OF lay, unfolded nodes]
  have sub: "set L \<subseteq> mc_Name ` set ms" if "L \<in> set Ls" for L using all that by auto
  have "mg_modules g = map_of (map (\<lambda>m. (mc_Name m, m)) ms)" using legacy_graph_spec(1) [OF dist] eq by simp
  note mf = map_filter_names [OF dist _ this]
  have names: "map mc_Name (levels ! i) = Ls ! i" if "i < length levels" for i
    using that levels mf(1) [OF sub] by simp
  have mem: "m \<in> set ms" "mc_Name m \<in> set (Ls ! i)" if "i < length levels" "m \<in> set (levels ! i)" for i m
    using that levels mf(2) [OF sub, of "Ls ! i"] by auto
  have cmf: "map mc_Name (concat levels) = concat Ls" "set (concat levels) = set ms"
    unfolding levels concat_map_filter using mf [of "concat Ls"] all by auto
  then show "set (concat levels) = set ms" "distinct (map mc_Name (concat levels))" using all by simp_all
  show "ordered_levels {} levels"
  proof (intro ordered_levels_of_index disjI2)
    fix i m d assume i: "i < length levels" and m: "m \<in> set (levels ! i)" and d: "d \<in> set (mc_Dependencies m)"
    have "d \<in> set (mg_dependencies (legacy_graph ms) (mc_Name m))" using legacy_graph_spec(2) [OF dist mem(1) [OF i m]] d by simp
    from legacy.layered_deps [OF lay _ mem(2) [OF i m] this] i levels obtain j where "j < i" "d \<in> set (Ls ! j)" by auto
    with names [of j] i show "\<exists>j < i. d \<in> mc_Name ` set (levels ! j)" by (metis image_set order.strict_trans)
  qed
qed

lemma configured_levels:
  assumes "distinct (map mc_Name ms)" "module_sort ord ms = Inr levels" and "api_names api"
  shows "triple (since t0 (\<lambda>u. u = []))
     (configure_levels rt (configureModule rt api) (WaitForModuleReady rt api) c repo idx levels)
     (\<lambda>e. since t0 (\<lambda>u. spec_applier.in_order (rt, api) repo (set ms) u \<and>
        (e = None \<longrightarrow> (\<forall>m \<in> set ms. module_stored m repo u \<and> (mc_Enabled m \<longrightarrow> spec_applier.settled (rt, api) repo m u)))))"
proof -
  note levels = module_sort_levels [OF assms(1,2)]
  have inj: "inj_on mc_Name (set ms)" and "distinct (concat levels)"
    using assms(1) levels(3) by (auto simp: distinct_map)
  then have "triple (since t0 (spec_applier.level_inv (rt, api) repo (set ms) {}))
      (configure_levels rt (configureModule rt api) (WaitForModuleReady rt api) c repo idx levels)
      (\<lambda>e. since t0 (\<lambda>u. spec_applier.in_order (rt, api) repo (set ms) u \<and>
        (e = None \<longrightarrow> spec_applier.level_inv (rt, api) repo (set ms) (set ms) u)))"
    using spec_applier.configured_in_order [of "(rt, api)" "set ms" "{}" levels t0 repo rt c idx, unfolded levels(2)] assms(3) levels(1) by simp
  then show ?thesis
    by (rule triple_conseq) (auto simp: spec_applier.level_inv_def spec_applier.in_order_def elim!: since_imp)
qed

lemma mem_present: "Some m \<in> set ms \<longleftrightarrow> m \<in> set (present ms)"
  by (induction ms) (auto simp: present_def List.map_filter_simps split: option.splits)

lemma configured_run:
  assumes names: "api_names api" and dist: "distinct (map mc_Name (present modules))"
    and run: "EnableAndConfigureModules rt ord api c modules repo w = Some (err, w')"
  shows "\<exists>u. tr w' = tr w @ u \<and>
    (\<forall>a ev b n. u = a @ ev # b \<longrightarrow> module_written ev = Some n \<longrightarrow>
       (\<exists>m. Some m \<in> set modules \<and> mc_Name m = n \<and>
          (\<forall>d. Some d \<in> set modules \<longrightarrow> mc_Enabled d \<longrightarrow> mc_Name d \<in> set (mc_Dependencies m) \<longrightarrow>
             module_settled (da_phaseReady api) repo d a))) \<and>
    (err = None \<longrightarrow> (\<forall>m. Some m \<in> set modules \<longrightarrow>
       module_stored m repo u \<and> (mc_Enabled m \<longrightarrow> module_settled (da_phaseReady api) repo m u)))"
proof (cases "modules = [] \<or> None \<in> set modules \<or> (\<exists>e. module_sort ord (present modules) = Inl e)")
  case True
  with run have "tr w' = tr w @ []" "err = None \<longrightarrow> modules = []"
    by (auto simp: EnableAndConfigureModules_def io_simps split: if_splits)
  then show ?thesis by (intro exI [of _ "[]"]) simp
next
  case False
  then obtain levels where levels: "module_sort ord (present modules) = Inr levels"
    by (cases "module_sort ord (present modules)") auto
  have "configure_levels rt (configureModule rt api) (WaitForModuleReady rt api) c repo 0 levels w = Some (err, w')"
    using run False levels by (simp add: EnableAndConfigureModules_def)
  from tripleD [OF configured_levels [OF dist levels names, of "tr w"] this]
  obtain u where "tr w' = tr w @ u" "spec_applier.in_order (rt, api) repo (set (present modules)) u"
    "err = None \<longrightarrow> (\<forall>m \<in> set (present modules). module_stored m repo u \<and> (mc_Enabled m \<longrightarrow> spec_applier.settled (rt, api) repo m u))"
    by (auto simp: since_def)
  then show ?thesis
    unfolding spec_applier.in_order_def spec_settled Ball_def Bex_def mem_present by (intro exI [of _ u]) simp
qed

text \<open>
  The retrying variant keeps the same order. For modules with different names, whatever the API answers, however
  often a write is repeated, and in whatever order the Go maps are iterated and the goroutines of a level finish,
  a configuration or an override is written only for a module of the list, and only after each enabled dependency was
  stored, seen Ready afterwards, and not written since. Success means that every module was stored as it asks for
  and every enabled one was then seen Ready.\<close>

lemma modules_configured_in_order:
  assumes names: "api_names api" and dist: "distinct (map mc_Name (present modules))"
    and run: "EnableAndConfigureModules rt ord api c modules repo w = Some (err, w')"
  shows "\<exists>u. tr w' = tr w @ u \<and>
    (\<forall>a ev b n. u = a @ ev # b \<longrightarrow> module_written ev = Some n \<longrightarrow>
       (\<exists>m. Some m \<in> set modules \<and> mc_Name m = n \<and>
          (\<forall>d. Some d \<in> set modules \<longrightarrow> mc_Enabled d \<longrightarrow> mc_Name d \<in> set (mc_Dependencies m) \<longrightarrow>
             module_settled (da_phaseReady api) repo d a))) \<and>
    (err = None \<longrightarrow> (\<forall>m. Some m \<in> set modules \<longrightarrow>
       module_stored m repo u \<and> (mc_Enabled m \<longrightarrow> module_settled (da_phaseReady api) repo m u)))"
  by (rule configured_run [OF assms])

text \<open>The sample cluster of \<open>Module_Enable\<close>, with this variant.\<close>

lemma sample_configure:
  "configureModule sample_rt sample_deckhouse c m ''r'' w = Some (None, w\<lparr>tr := tr w @
     [Opened ''deckhouse'' None, MCGet (mc_Name m) (fst (da_getMC sample_deckhouse c (mc_Name m) (est w))),
      Opened ''deckhouse'' None,
      MCCreate \<lparr>mco_name = mc_Name m, mco_resourceVersion = [], mco_spec = wanted_spec m\<rparr> None]\<rparr>)"
  by (simp add: configureModule_def configureModuleConfig_def configure_loop.simps configMaxRetries_def configureModulePullOverride_def
      GetModuleConfig_def with_client_def CreateModuleConfig_def wrap_left_def io_simps
      sample_client sample_deckhouse_sels hasPrefix_def Let_def)

definition sample_two :: "module_config option list" where
  "sample_two = [Some (sample_module\<lparr>mc_Name := ''b'', mc_Dependencies := [''a'']\<rparr>), Some (sample_module\<lparr>mc_Name := ''a''\<rparr>)]"

lemma sample_two_levels:
  "module_sort (\<lambda>_ _. 0) (present sample_two) =
     Inr [[sample_module\<lparr>mc_Name := ''a''\<rparr>], [sample_module\<lparr>mc_Name := ''b'', mc_Dependencies := [''a'']\<rparr>]]"
  by code_simp

lemma sample_run: "yields s (EnableAndConfigureModules sample_rt (\<lambda>_ _. 0) sample_deckhouse c sample_two ''r'') None s"
  unfolding EnableAndConfigureModules_def sample_two_levels
  by (simp add: yields_def sample_two_def io_simps errgroup_def errgroup_results_def arrange_def enumerate_eq_zip sample_configure
      sample_wait [unfolded applier_waitReady_def] sample_module_def)

text \<open>
  Unlike \<^verbatim>\<open>upsertModuleConfig\<close>, the loop takes every failed read for an absent object. If the configuration is
  there and one read of it fails, the creation is refused as a duplicate and the module fails at once.\<close>

definition duplicate :: goerr where
  "duplicate = ErrStatus \<lparr>st_code = 409, st_reason = AlreadyExists, st_retryAfter = None, st_text = ''already there''\<rparr>"

lemma duplicate_final: "\<not> isRetryableModuleConfigError (wrapf ''failed to create moduleconfig m: '' duplicate)"
  by code_simp

lemma failed_read_taken_for_absence:
  assumes new: "da_addV1 api = None" "da_addV2 api = None" "\<And>s. da_new api s = (None, s)" "\<And>c s. rt_ctxErr rt c s = (None, s)"
    and read: "\<And>s. da_getMC api c (mc_Name m) s = (Inl err, s)"
    and dup: "\<And>obj s. da_createMC api c obj s = (Some duplicate, s)"
    and name: "mc_Name m = ''m''"
  shows "\<exists>e w'. configureModuleConfig rt api c m w = Some (Some e, w') \<and> has_reason AlreadyExists e \<and>
    length (filter (\<lambda>ev. \<exists>d. ev = Waited c d) (tr w')) = length (filter (\<lambda>ev. \<exists>d. ev = Waited c d) (tr w))"
proof -
  have client: "deckhouse_NewClient rt api c w = Some (None, w\<lparr>tr := tr w @ [Opened ''deckhouse'' None]\<rparr>)" for w
    by (simp add: deckhouse_NewClient_def Do_def do_loop.simps io_simps new DefaultConfig_def)
  have "has_reason AlreadyExists duplicate" by (simp add: duplicate_def has_reason_def)
  with duplicate_final show ?thesis
    by (simp add: configureModuleConfig_def configure_loop.simps [of rt api c m 0] configMaxRetries_def GetModuleConfig_def with_client_def
      CreateModuleConfig_def wrap_left_def io_simps client read [unfolded name] dup Let_def name)
qed

subsection \<open>The calls\<close>

definition module_event :: "event \<Rightarrow> bool" where
  "module_event ev = (case ev of Waited _ _ \<Rightarrow> True | Opened n _ \<Rightarrow> n = ''deckhouse'' | MCGet _ _ \<Rightarrow> True | MCCreate _ _ \<Rightarrow> True
     | MCUpdate _ _ \<Rightarrow> True | MPOGet _ _ \<Rightarrow> True | MPOCreate _ _ \<Rightarrow> True | MPOUpdate _ _ \<Rightarrow> True | ModuleGet _ _ \<Rightarrow> True | _ \<Rightarrow> False)"

lemma module_event_simps [simp]:
  "module_event (Waited c d)" "module_event (Opened ''deckhouse'' r)" "module_event (MCGet n g)" "module_event (MCCreate mc r)"
  "module_event (MCUpdate mc r)" "module_event (MPOGet n mg)" "module_event (MPOCreate mpo r)" "module_event (MPOUpdate mpo r)"
  "module_event (ModuleGet n dm)"
  by (simp_all add: module_event_def)

lemma configure_loop_calls: "only_calls module_event (configure_loop rt api c m attempt d l)"
proof (induction "nat (configMaxRetries - attempt)" arbitrary: attempt d l)
  case 0
  then show ?case by (subst configure_loop.simps) (auto intro!: calls_intros)
next
  case (Suc k)
  have k: "k = nat (configMaxRetries - (attempt + 1))" using Suc.hyps(2) by simp
  show ?case
    by (subst configure_loop.simps, unfold module_requests) (intro calls_intros Suc.hyps(1) [OF k]; simp)
qed

lemma override_loop_calls: "only_calls module_event (override_loop rt api c m tag attempt d l)"
proof (induction "nat (overrideMaxRetries - attempt)" arbitrary: attempt d l)
  case 0
  then show ?case by (subst override_loop.simps) (auto intro!: calls_intros)
next
  case (Suc k)
  have k: "k = nat (overrideMaxRetries - (attempt + 1))" using Suc.hyps(2) by simp
  show ?case
    by (subst override_loop.simps, unfold module_requests) (intro calls_intros Suc.hyps(1) [OF k]; simp)
qed

lemma enable_and_configure_calls: "only_calls module_event (EnableAndConfigureModules rt ord api c modules repo)"
proof -
  have ready: "only_calls module_event (WaitForModuleReady rt api c n timeout)" for c n timeout
    unfolding WaitForModuleReady_def module_ready_def GetModule_def Let_def by (intro calls_intros; simp)
  have one: "only_calls module_event (configureModule rt api c m repo)" for c m
    unfolding configureModule_def configureModuleConfig_def configureModulePullOverride_def
    by (intro calls_intros configure_loop_calls override_loop_calls)
  have "only_calls module_event (configure_levels rt (configureModule rt api) (WaitForModuleReady rt api) c repo i ls)" for i ls
    by (induction ls arbitrary: i) (auto intro!: calls_intros ready one)
  then show ?thesis unfolding EnableAndConfigureModules_def by (intro calls_intros)
qed

end
