(* ===== verification/Commander_Provider.thy ===== *)
theory Commander_Provider
  imports Commander_Update Module_Configure
begin

text \<open>
  The provider that obtains clusters from Deckhouse Commander, \<^verbatim>\<open>internal/provisioning/commander\<close>: its configuration, the
  creation and removal of a cluster, the connection to its master, the enabling of modules, commands on nodes, and
  the change of the number of masters.
\<close>

section \<open>Configuration\<close>

record commander_config =
  cf_URL :: string
  cf_Token :: string
  cf_ClusterName :: string
  cf_TemplateName :: string
  cf_TemplateVersion :: string
  cf_RegistryName :: string
  cf_InputValues :: string
  cf_AuthMethod :: string
  cf_AuthUser :: string
  cf_APIPrefix :: string
  cf_InsecureSkipTLSVerify :: bool
  cf_CACertPath :: string
  cf_WaitTimeout :: int
  cf_SSHUser :: string
  cf_SSHPassphrase :: string
  cf_SSHKeyPath :: string
  cf_SSHKeyContent :: string
  cf_SSHJumpHost :: string
  cf_SSHJumpUser :: string
  cf_SSHJumpPassphrase :: string
  cf_SSHJumpKeyPath :: string
  cf_SSHJumpKeyContent :: string

record commander_creds =
  cd_SSHKey :: string
  cd_JumpKey :: string

definition cmd_ErrSSHKeySource :: goerr where
  "cmd_ErrSSHKeySource = ErrSentinel ''exactly one of E2E_COMMANDER_SSH_PRIVATE_KEY_PATH or E2E_COMMANDER_SSH_PRIVATE_KEY must be set''"
definition cmd_ErrJumpHostIncomplete :: goerr where
  "cmd_ErrJumpHostIncomplete = ErrSentinel ''jump host requires both E2E_COMMANDER_SSH_JUMP_HOST and E2E_COMMANDER_SSH_JUMP_USER''"
definition cmd_ErrJumpKeySource :: goerr where
  "cmd_ErrJumpKeySource = ErrSentinel ''at most one of E2E_COMMANDER_SSH_JUMP_PRIVATE_KEY_PATH or E2E_COMMANDER_SSH_JUMP_PRIVATE_KEY may be set (defaults to the master key)''"

definition cmd_apiServerRemotePort :: int where "cmd_apiServerRemotePort = 6445"

definition cmd_JumpHostConfigured :: "commander_config \<Rightarrow> bool" where
  "cmd_JumpHostConfigured cf \<longleftrightarrow> cf_SSHJumpHost cf \<noteq> [] \<and> cf_SSHJumpUser cf \<noteq> []"

definition cmd_jumpHostMentioned :: "commander_config \<Rightarrow> bool" where
  "cmd_jumpHostMentioned cf \<longleftrightarrow> cf_SSHJumpHost cf \<noteq> [] \<or> cf_SSHJumpUser cf \<noteq> [] \<or> cf_SSHJumpKeyPath cf \<noteq> [] \<or> cf_SSHJumpKeyContent cf \<noteq> []"

definition cmd_exactlyOne :: "bool \<Rightarrow> bool \<Rightarrow> bool" where "cmd_exactlyOne a b \<longleftrightarrow> a \<noteq> b"

definition cmd_Validate :: "commander_config \<Rightarrow> goerr option" where
  "cmd_Validate cf = errors_Join
     ((if \<not> cmd_exactlyOne (cf_SSHKeyPath cf \<noteq> []) (cf_SSHKeyContent cf \<noteq> []) then [cmd_ErrSSHKeySource] else []) @
      (if cmd_jumpHostMentioned cf \<and> \<not> cmd_JumpHostConfigured cf then [cmd_ErrJumpHostIncomplete] else []) @
      (if cf_SSHJumpKeyPath cf \<noteq> [] \<and> cf_SSHJumpKeyContent cf \<noteq> [] then [cmd_ErrJumpKeySource] else []))"

definition cmd_LoadConfig :: "((string \<rightharpoonup> string) \<Rightarrow> goerr + commander_config) \<Rightarrow> (string \<rightharpoonup> string) \<Rightarrow> goerr + commander_config" where
  "cmd_LoadConfig parse environ =
     (case parse environ of Inl e \<Rightarrow> Inl e
      | Inr cf \<Rightarrow> (case cmd_Validate cf of Some e \<Rightarrow> Inl e | None \<Rightarrow> Inr cf))"

definition cmd_expandUserPath :: "os_env \<Rightarrow> string \<Rightarrow> goerr + string" where
  "cmd_expandUserPath os p =
     (let expanded = os_Expand (os_getenv os) p in
      if \<not> hasPrefix expanded ''~'' then Inr expanded
      else case os_UserHomeDir os of
        Inl e \<Rightarrow> Inl (wrapf (''resolve home directory for '' @ go_quote p @ '': '') e)
      | Inr home \<Rightarrow> if expanded = ''~'' then Inr home else Inr (path_Join home (trimPrefix expanded ''~/'')))"

definition cmd_resolveBytes :: "os_env \<Rightarrow> string \<Rightarrow> string \<Rightarrow> goerr + string" where
  "cmd_resolveBytes os p content =
     (if content \<noteq> [] then Inr content
      else case cmd_expandUserPath os p of
        Inl e \<Rightarrow> Inl e
      | Inr expanded \<Rightarrow> wrap_left (''read '' @ go_quote expanded @ '': '') (os_readFile os expanded))"

definition cmd_Resolve :: "os_env \<Rightarrow> commander_config \<Rightarrow> goerr + commander_creds" where
  "cmd_Resolve os cf =
     (case cmd_resolveBytes os (cf_SSHKeyPath cf) (cf_SSHKeyContent cf) of
        Inl e \<Rightarrow> Inl (wrapf ''resolving ssh private key: '' e)
      | Inr key \<Rightarrow>
          if cmd_JumpHostConfigured cf then
            (if cf_SSHJumpKeyPath cf \<noteq> [] \<or> cf_SSHJumpKeyContent cf \<noteq> [] then
               (case cmd_resolveBytes os (cf_SSHJumpKeyPath cf) (cf_SSHJumpKeyContent cf) of
                  Inl e \<Rightarrow> Inl (wrapf ''resolving jump ssh private key: '' e)
                | Inr jump \<Rightarrow> Inr \<lparr>cd_SSHKey = key, cd_JumpKey = jump\<rparr>)
             else Inr \<lparr>cd_SSHKey = key, cd_JumpKey = key\<rparr>)
          else Inr \<lparr>cd_SSHKey = key, cd_JumpKey = []\<rparr>)"

section \<open>The provider\<close>

text \<open>
  The provider with everything it calls: the libraries, the loader of cluster definitions, the Kubernetes clients
  behind a \<^verbatim>\<open>rest.Config\<close>, and discovery: whether a client can be built, and the lists of resources it returns, each a
  group and version with the names of its resources, or nil; whether a clientset can be built, and the types and
  addresses in the status of a node.
\<close>

type_synonym resource_list = "(string \<times> string list) option"

record ('e, 'a, 'c) commander_provider =
  cp_http :: "'e http_lib"
  cp_js :: json_lib
  cp_rt :: "'e runtime"
  cp_ssh :: "'e ssh_lib"
  cp_clientcmd :: "('a, 'c) clientcmd"
  cp_api :: "'c rest_config \<Rightarrow> 'e kube_api"
  cp_discovery :: "'c rest_config \<Rightarrow> goerr option"
  cp_resources :: "'c rest_config \<Rightarrow> 'e \<Rightarrow> (resource_list list \<times> goerr option) \<times> 'e"
  cp_clientset :: "'c rest_config \<Rightarrow> goerr option"
  cp_nodeAddresses :: "'c rest_config \<Rightarrow> ctx \<Rightarrow> string \<Rightarrow> 'e \<Rightarrow> (goerr + (string \<times> string) list) \<times> 'e"
  cp_os :: os_env
  cp_loadDefinition :: "string \<Rightarrow> goerr + cluster_definition"
  cp_order :: "nat \<Rightarrow> string \<Rightarrow> nat"
  cp_cfg :: cluster_config
  cp_conf :: commander_config
  cp_client :: commander_client

definition newAPIClient :: "'e http_lib \<Rightarrow> commander_config \<Rightarrow> goerr + commander_client" where
  "newAPIClient lib cf =
     wrap_left ''create commander client: '' (NewClientWithOptions lib (cf_URL cf) (cf_Token cf)
       \<lparr>op_InsecureSkipTLSVerify = cf_InsecureSkipTLSVerify cf, op_CACertPath = cf_CACertPath cf,
        op_AuthMethod = (if cf_AuthMethod cf = [] then AuthMethodXAuthToken else cf_AuthMethod cf),
        op_AuthUser = cf_AuthUser cf, op_APIPrefix = cf_APIPrefix cf, op_RequestTimeout = 0\<rparr>)"

definition NewCommanderProvider ::
  "(goerr + commander_config) \<Rightarrow> ('e, 'a, 'c) commander_provider \<Rightarrow> goerr + ('e, 'a, 'c) commander_provider" where
  "NewCommanderProvider parsed base =
     (case parsed of
        Inl e \<Rightarrow> Inl (wrapf ''parse commander config: '' e)
      | Inr cf \<Rightarrow> (case newAPIClient (cp_http base) cf of
          Inl e \<Rightarrow> Inl e
        | Inr cl \<Rightarrow> Inr (base\<lparr>cp_conf := cf, cp_client := cl\<rparr>)))"

text \<open>
  \<^verbatim>\<open>buildValues\<close>. The assignment to a nil map, which \<^verbatim>\<open>null\<close> decodes to, panics.
\<close>

definition nil_map_panic :: goerr where "nil_map_panic = ErrText ''panic: assignment to entry in nil map''"

definition buildValues :: "('e, 'a, 'c) commander_provider \<Rightarrow> string \<Rightarrow> goerr + (string \<times> json) list" where
  "buildValues p name =
     (if cf_InputValues (cp_conf p) \<noteq> [] then
        (case jl_values (cp_js p) (cf_InputValues (cp_conf p)) of
           Inl e \<Rightarrow> Inl (wrapf ''parse E2E_COMMANDER_VALUES as JSON: '' e)
         | Inr None \<Rightarrow> Inl nil_map_panic
         | Inr (Some m) \<Rightarrow> Inr (AList.update ''prefix'' (JStr name) m))
      else Inr [(''prefix'', JStr name)])"

definition resolveTemplateVersionID :: "cluster_template \<Rightarrow> string \<Rightarrow> goerr + string" where
  "resolveTemplateVersionID t requested =
     (let versions = (if ct_ClusterTemplateVersions t = [] then ct_Versions t else ct_ClusterTemplateVersions t) in
      if requested \<noteq> [] then
        (case find (\<lambda>v. tv_Name v = requested \<or> tv_ID v = requested) versions of
           Some v \<Rightarrow> Inr (tv_ID v)
         | None \<Rightarrow> Inl (ErrText (''template version '' @ go_quote requested @ '' not found; available: '' @
             go_list (map (\<lambda>v. tv_Name v @ '' ('' @ tv_ID v @ '')'') versions))))
      else if ct_CurrentVersionID t \<noteq> [] then Inr (ct_CurrentVersionID t)
      else case versions of
        v # _ \<Rightarrow> Inr (tv_ID v)
      | [] \<Rightarrow> Inl (ErrText (''template '' @ go_quote (ct_Name t) @ '' has no versions available'')))"

definition resolveRegistry :: "('e, 'a, 'c) commander_provider \<Rightarrow> ctx \<Rightarrow> ('e, goerr + string) act" where
  "resolveRegistry p c =
     (let name = cf_RegistryName (cp_conf p) in
      if name \<noteq> [] then io_try (GetRegistryByName (cp_http p) (cp_js p) (cp_client p) c name)
        (wrapf (''resolve registry '' @ go_quote name @ '': '')) (\<lambda>r. io_ret (Inr (rg_ID r)))
      else io_ret (Inr []))"

definition createCluster :: "('e, 'a, 'c) commander_provider \<Rightarrow> ctx \<Rightarrow> string \<Rightarrow> ('e, goerr + cluster_status) act" where
  "createCluster p c name =
     (if cf_TemplateName (cp_conf p) = []
      then io_ret (Inl (ErrText (''E2E_COMMANDER_TEMPLATE_NAME is required to create cluster '' @ go_quote name)))
      else io_try (GetClusterTemplateByName (cp_http p) (cp_js p) (cp_client p) c (cf_TemplateName (cp_conf p)))
        (wrapf (''resolve template '' @ go_quote (cf_TemplateName (cp_conf p)) @ '': '')) (\<lambda>template.
      case resolveTemplateVersionID template (cf_TemplateVersion (cp_conf p)) of
        Inl e \<Rightarrow> io_ret (Inl e)
      | Inr versionID \<Rightarrow> io_try (resolveRegistry p c) (\<lambda>e. e) (\<lambda>registryID.
          case buildValues p name of
            Inl e \<Rightarrow> io_ret (Inl e)
          | Inr values \<Rightarrow> io_try (CreateClusterFromTemplate (cp_http p) (cp_js p) (cp_client p) c name versionID registryID values) (\<lambda>e. e) (\<lambda>resp.
              io_ret (Inr \<lparr>cs_Phase = (if cr_Status resp = [] then cr_Phase resp else cr_Status resp), cs_Message = cr_Message resp, cs_APIEndpoint = []\<rparr>)))))"

section \<open>Connecting to the master\<close>

definition connectRetryEvery :: int where "connectRetryEvery = 5 * second"
definition connectTimeout :: int where "connectTimeout = 2 * minute"

definition resolveMaster :: "('e, 'a, 'c) commander_provider \<Rightarrow> ctx \<Rightarrow> ('e, goerr + (string \<times> string)) act" where
  "resolveMaster p c =
     (let name = cf_ClusterName (cp_conf p) in
      io_try (GetClusterConnectionInfo (cp_http p) (cp_js p) (cp_client p) c name)
        (wrapf (''get connection info for cluster '' @ go_quote name @ '': '')) (\<lambda>conn. io_ret (
      if ci_SSHHost conn = []
      then Inl (ErrText (''no SSH host for cluster '' @ go_quote name @ '' from Commander (connection_hosts.masters empty)''))
      else let user = (if cf_SSHUser (cp_conf p) = [] then ci_SSHUser conn else cf_SSHUser (cp_conf p)) in
        if user = []
        then Inl (ErrText (''no SSH user for the master of cluster '' @ go_quote name @ '' (set E2E_COMMANDER_SSH_USER)''))
        else Inr (ci_SSHHost conn, user))))"

text \<open>The hops to a host, by way of the jump host when there is one.\<close>

definition cmd_hops :: "('e, 'a, 'c) commander_provider \<Rightarrow> commander_creds \<Rightarrow> string \<Rightarrow> string \<Rightarrow> endpoint list" where
  "cmd_hops p creds host user =
     (let master = \<lparr>ep_User = user, ep_Addr = host, ep_KeyData = cd_SSHKey creds, ep_Passphrase = cf_SSHPassphrase (cp_conf p)\<rparr> in
      if cmd_JumpHostConfigured (cp_conf p)
      then [\<lparr>ep_User = cf_SSHJumpUser (cp_conf p), ep_Addr = cf_SSHJumpHost (cp_conf p), ep_KeyData = cd_JumpKey creds,
             ep_Passphrase = cf_SSHJumpPassphrase (cp_conf p)\<rparr>, master]
      else [master])"

definition cmd_buildSSHClient :: "('e, 'a, 'c) commander_provider \<Rightarrow> commander_creds \<Rightarrow> ctx \<Rightarrow> string \<Rightarrow> string \<Rightarrow> ('e, goerr option) act" where
  "cmd_buildSSHClient p creds c masterHost masterUser =
     (let hops = cmd_hops p creds masterHost masterUser in
      io_bind (NewWithRetry (cp_ssh p) c (Route (hd hops) (tl hops)) connectRetryEvery connectTimeout
          (WithKeepalive (30 * second) (WithInsecureIgnoreHostKey defaultOptions))) (\<lambda>e.
        io_ret (map_option (wrapf ''creating ssh client: '') e)))"

text \<open>The method \<^verbatim>\<open>Connect\<close> of the connector.\<close>

definition connector_Connect ::
  "('e, 'a, 'c) commander_provider \<Rightarrow> commander_creds \<Rightarrow> ctx \<Rightarrow> ('e, goerr + ('c rest_config \<times> ('e, unit) act)) act" where
  "connector_Connect p creds c =
     io_bind (resolveMaster p c) (\<lambda>m. case m of
       Inl e \<Rightarrow> io_ret (Inl e)
     | Inr (host, user) \<Rightarrow>
     (let hops = cmd_hops p creds host user; ssh = cp_ssh p; closeClient = ignore_err (client_Close ssh hops) in
      io_bind (cmd_buildSSHClient p creds c host user) (\<lambda>e. case e of
        Some err \<Rightarrow> io_ret (Inl err)
      | None \<Rightarrow>
      io_bind (FetchKubeconfig c (\<lambda>c cmd. call (Exec host cmd) (sl_Exec ssh hops c cmd))) (\<lambda>k. case k of
        Inl err \<Rightarrow> io_bind (runCleanups [closeClient]) (\<lambda>_. io_ret (Inl err))
      | Inr kubeconfig \<Rightarrow>
      io_bind (TunnelRestConfig ssh (cp_clientcmd p) c hops kubeconfig cmd_apiServerRemotePort) (\<lambda>r. case r of
        Inl err \<Rightarrow> io_bind (runCleanups [closeClient]) (\<lambda>_. io_ret (Inl err))
      | Inr (restConfig, closeTunnel) \<Rightarrow> io_ret (Inr (restConfig, runCleanups [closeClient, ignore_err closeTunnel])))))))"

text \<open>The method \<^verbatim>\<open>Connect\<close> of the provider.\<close>

definition cmd_Connect :: "('e, 'a, 'c) commander_provider \<Rightarrow> ctx \<Rightarrow> ('e, goerr + ('c rest_config \<times> ('e, unit) act)) act" where
  "cmd_Connect p c =
     (case cmd_Resolve (cp_os p) (cp_conf p) of
        Inl e \<Rightarrow> io_ret (Inl (wrapf ''resolve commander credentials: '' e))
      | Inr creds \<Rightarrow> connector_Connect p creds (CtxWithoutCancel c))"

section \<open>Modules\<close>

definition moduleConfigGroupVersion :: string where "moduleConfigGroupVersion = ''deckhouse.io/v1alpha1''"
definition moduleConfigResource :: string where "moduleConfigResource = ''moduleconfigs''"
definition moduleConfigAPITimeout :: int where "moduleConfigAPITimeout = 15 * minute"
definition discoverySettleTimeout :: int where "discoverySettleTimeout = 3 * minute"

definition servesModuleConfigs :: "resource_list list \<Rightarrow> bool" where
  "servesModuleConfigs rls \<longleftrightarrow>
     list_ex (\<lambda>l. case l of None \<Rightarrow> False | Some (gv, rs) \<Rightarrow> gv = moduleConfigGroupVersion \<and> moduleConfigResource \<in> set rs) rls"

text \<open>A round of the loop. The settle deadline is unset until a round sees the resource.\<close>

definition discovery_round ::
  "('e, 'a, 'c) commander_provider \<Rightarrow> 'c rest_config \<Rightarrow> ctx \<Rightarrow> int \<Rightarrow> int option \<Rightarrow> ('e, goerr option + int option) act" where
  "discovery_round p cfg c deadline settle =
     io_bind (call (\<lambda>r. KubeOp ''discover'' (if servesModuleConfigs (fst r) then [moduleConfigResource] else []) (snd r)) (cp_resources p cfg)) (\<lambda>(resources, err).
     let moduleConfigSeen = servesModuleConfigs resources in
     io_bind (if moduleConfigSeen \<and> settle = None then io_bind (timeNow (cp_rt p)) (\<lambda>now. io_ret (Some (now + discoverySettleTimeout)))
              else io_ret settle) (\<lambda>settle'.
     if err = None \<and> moduleConfigSeen then io_ret (Inl None)
     else
       let lastErr = (case err of Some e \<Rightarrow> error_text e | None \<Rightarrow> ''discovery resolved but the moduleconfigs resource is not listed yet'') in
       io_bind (if moduleConfigSeen then io_bind (timeNow (cp_rt p)) (\<lambda>now. io_ret (case settle' of None \<Rightarrow> True | Some d \<Rightarrow> now > d)) else io_ret False) (\<lambda>settled.
       if settled then io_ret (Inl None)
       else io_bind (timeNow (cp_rt p)) (\<lambda>now.
         if now > deadline then io_ret (Inl (Some (ErrText (''timeout waiting for the Deckhouse ModuleConfig API: '' @ lastErr))))
         else io_bind (waitFor (cp_rt p) c (10 * second)) (\<lambda>d. io_ret (case d of
           Some ctxe \<Rightarrow> Inl (Some ctxe)
         | None \<Rightarrow> Inr settle'))))))"

definition waitForModuleConfigAPI :: "('e, 'a, 'c) commander_provider \<Rightarrow> ctx \<Rightarrow> 'c rest_config \<Rightarrow> int \<Rightarrow> ('e, goerr option) act" where
  "waitForModuleConfigAPI p c cfg timeout =
     (case cp_discovery p cfg of
        Some e \<Rightarrow> io_ret (Some e)
      | None \<Rightarrow> io_bind (timeNow (cp_rt p)) (\<lambda>now. loop (discovery_round p cfg c (now + timeout)) None))"

text \<open>The part of \<^verbatim>\<open>enableModules\<close> that uses the connection.\<close>

definition enable_on :: "('e, 'a, 'c) commander_provider \<Rightarrow> ctx \<Rightarrow> cluster_definition \<Rightarrow> 'c rest_config \<Rightarrow> ('e, goerr option) act" where
  "enable_on p c clusterDef restConfig =
     io_bind (waitForModuleConfigAPI p c restConfig moduleConfigAPITimeout) (\<lambda>e. case e of
       Some err \<Rightarrow> io_ret (Some err)
     | None \<Rightarrow> io_bind (EnableAndConfigureModules (cp_rt p) (cp_order p) (ka_deckhouse (cp_api p restConfig)) c
           (Modules (DKPParameters clusterDef)) (RegistryRepo (DKPParameters clusterDef))) (\<lambda>e.
         io_ret (map_option (wrapf ''enable and configure modules: '') e)))"

definition cmd_enableModules :: "('e, 'a, 'c) commander_provider \<Rightarrow> ctx \<Rightarrow> ('e, goerr option) act" where
  "cmd_enableModules p c =
     (let path = cc_ClusterBootstrapConfigPath (cp_cfg p) in
      case cp_loadDefinition p path of
        Inl e \<Rightarrow> io_ret (Some (wrapf (''load cluster definition '' @ go_quote path @ '': '') e))
      | Inr clusterDef \<Rightarrow>
      (case cmd_Resolve (cp_os p) (cp_conf p) of
        Inl e \<Rightarrow> io_ret (Some (wrapf ''resolve commander credentials for module enablement: '' e))
      | Inr creds \<Rightarrow> io_bind (connector_Connect p creds c) (\<lambda>r. case r of
          Inl e \<Rightarrow> io_ret (Some (wrapf ''connect to cluster for module enablement: '' e))
        | Inr (restConfig, cleanup) \<Rightarrow> io_finally (enable_on p c clusterDef restConfig) cleanup)))"

section \<open>Bootstrap and removal\<close>

text \<open>The status of the cluster of that name, which is created when it is not there.\<close>

definition ensure_cluster :: "('e, 'a, 'c) commander_provider \<Rightarrow> ctx \<Rightarrow> string \<Rightarrow> ('e, goerr + cluster_status) act" where
  "ensure_cluster p c name =
     io_bind (GetCluster (cp_http p) (cp_js p) (cp_client p) c name) (\<lambda>r. case r of
       Inr cluster \<Rightarrow> io_ret (Inr (cc_Status cluster))
     | Inl err \<Rightarrow>
         if errors_is err ErrClusterNotFound
         then io_try (createCluster p c name) (wrapf (''create cluster '' @ go_quote name @ '': '')) (\<lambda>st. io_ret (Inr st))
         else io_ret (Inl (wrapf (''look up cluster '' @ go_quote name @ '' in Commander: '') err)))"

definition cmd_Bootstrap :: "('e, 'a, 'c) commander_provider \<Rightarrow> ctx \<Rightarrow> ('e, goerr option) act" where
  "cmd_Bootstrap p c =
     (let name = cf_ClusterName (cp_conf p) in
      io_bind (ensure_cluster p c name) (\<lambda>r. case r of
        Inl e \<Rightarrow> io_ret (Some e)
      | Inr status \<Rightarrow>
          if cs_Phase status = ClusterPhaseReady then cmd_enableModules p c
          else io_bind (WaitForClusterReady (cp_http p) (cp_js p) (cp_client p) c name (cf_WaitTimeout (cp_conf p))) (\<lambda>w. case w of
            Inl e \<Rightarrow> io_ret (Some (wrapf (''wait for cluster '' @ go_quote name @ '' to become Ready: '') e))
          | Inr _ \<Rightarrow> cmd_enableModules p c)))"

definition cmd_Remove :: "('e, 'a, 'c) commander_provider \<Rightarrow> ctx \<Rightarrow> ('e, goerr option) act" where
  "cmd_Remove p c =
     (let name = cf_ClusterName (cp_conf p) in
      io_bind (DeleteCluster (cp_http p) (cp_js p) (cp_client p) c name) (\<lambda>e. io_ret (case e of
        None \<Rightarrow> None
      | Some err \<Rightarrow> if errors_is err ErrClusterNotFound then None else Some (wrapf (''delete cluster '' @ go_quote name @ '': '') err))))"

section \<open>Commands on nodes\<close>

definition internalIP_Resolve :: "('e, 'a, 'c) commander_provider \<Rightarrow> 'c rest_config \<Rightarrow> ctx \<Rightarrow> string \<Rightarrow> ('e, goerr + string) act" where
  "internalIP_Resolve p cfg c nodeName =
     io_bind (call (\<lambda>r. KubeOp ''get node'' [nodeName] (case r of Inl e \<Rightarrow> Some e | Inr _ \<Rightarrow> None)) (cp_nodeAddresses p cfg c nodeName)) (\<lambda>r. io_ret (case r of
       Inl e \<Rightarrow> Inl (wrapf (''get node '' @ nodeName @ '': '') e)
     | Inr addrs \<Rightarrow> (case find (\<lambda>(kind, addr). kind = ''InternalIP'' \<and> addr \<noteq> []) addrs of
         Some (_, addr) \<Rightarrow> Inr addr
       | None \<Rightarrow> Inl (ErrText (''node '' @ nodeName @ '' reports no InternalIP'')))))"

definition cmd_node_Exec ::
  "('e, 'a, 'c) commander_provider \<Rightarrow> commander_creds \<Rightarrow> string \<Rightarrow> 'c rest_config \<Rightarrow> ctx \<Rightarrow> string \<Rightarrow> string
   \<Rightarrow> ('e, exec_result \<times> goerr option) act" where
  "cmd_node_Exec p creds user cfg c nodeName command =
     io_bind (internalIP_Resolve p cfg c nodeName) (\<lambda>r. case r of
       Inl e \<Rightarrow> io_ret (empty_result, Some e)
     | Inr ip \<Rightarrow> io_bind (cmd_buildSSHClient p creds c ip user) (\<lambda>e. case e of
         Some err \<Rightarrow> io_ret (empty_result, Some (wrapf (''connect to node '' @ nodeName @ '' ('' @ ip @ ''): '') err))
       | None \<Rightarrow> io_finally
           (io_bind (call (Exec ip command) (sl_Exec (cp_ssh p) (cmd_hops p creds ip user) c command)) (\<lambda>(res, err). io_ret (res, case err of
             None \<Rightarrow> None
           | Some e \<Rightarrow> if as_exit e then None else Some (wrapf (''exec on node '' @ nodeName @ '' ('' @ ip @ ''): '') e))))
           (ignore_err (client_Close (cp_ssh p) (cmd_hops p creds ip user)))))"

text \<open>\<^verbatim>\<open>ConnectTestCluster\<close>: the configuration, the node executor, and the clean-up function. There are no disks.\<close>

record ('e, 'c) commander_test_cluster =
  kt_RESTConfig :: "'c rest_config"
  kt_Exec :: "ctx \<Rightarrow> string \<Rightarrow> string \<Rightarrow> ('e, exec_result \<times> goerr option) act"

definition cmd_ConnectTestCluster ::
  "('e, 'a, 'c) commander_provider \<Rightarrow> ctx \<Rightarrow> ('e, goerr + (('e, 'c) commander_test_cluster \<times> ('e, unit) act)) act" where
  "cmd_ConnectTestCluster p c0 =
     (let c = CtxWithoutCancel c0 in
      case cmd_Resolve (cp_os p) (cp_conf p) of
        Inl e \<Rightarrow> io_ret (Inl (wrapf ''resolve commander credentials: '' e))
      | Inr creds \<Rightarrow> io_bind (resolveMaster p c) (\<lambda>m. case m of
          Inl e \<Rightarrow> io_ret (Inl e)
        | Inr (_, sshUser) \<Rightarrow> io_bind (connector_Connect p creds c) (\<lambda>r. case r of
            Inl e \<Rightarrow> io_ret (Inl (wrapf ''connect to the commander cluster: '' e))
          | Inr (restConfig, cleanup) \<Rightarrow> (case cp_clientset p restConfig of
              Some e \<Rightarrow> io_bind cleanup (\<lambda>_. io_ret (Inl (wrapf ''build clientset for node address lookups: '' e)))
            | None \<Rightarrow> io_ret (Inr (\<lparr>kt_RESTConfig = restConfig, kt_Exec = cmd_node_Exec p creds sshUser restConfig\<rparr>, cleanup))))))"

section \<open>The number of masters\<close>

definition masterCountInputKey :: string where "masterCountInputKey = ''masterCount''"

definition SetMasterCount ::
  "'e http_lib \<Rightarrow> json_lib \<Rightarrow> (goerr + commander_config) \<Rightarrow> ctx \<Rightarrow> int \<Rightarrow> ('e, goerr option) act" where
  "SetMasterCount lib js parsed c masterCount =
     (if masterCount \<noteq> 1 \<and> masterCount \<noteq> 3 then io_ret (Some (ErrText (''masterCount must be 1 or 3, got '' @ itoa masterCount)))
      else case parsed of
        Inl e \<Rightarrow> io_ret (Some (wrapf ''parse commander config: '' e))
      | Inr cf \<Rightarrow>
          if cf_ClusterName cf = [] then io_ret (Some (ErrText ''E2E_COMMANDER_CLUSTER_NAME is required to set the master count''))
          else case newAPIClient lib cf of
            Inl e \<Rightarrow> io_ret (Some e)
          | Inr cl \<Rightarrow> SetClusterInputValueAndWait lib js cl c (cf_ClusterName cf) masterCountInputKey (JStr (itoa masterCount))
              (if cf_WaitTimeout cf \<le> 0 then 30 * minute else cf_WaitTimeout cf))"


section \<open>Connections\<close>

lemma cmd_hops_simps [simp]:
  "Route (hd (cmd_hops p creds host user)) (tl (cmd_hops p creds host user)) = cmd_hops p creds host user"
  "target_addr (cmd_hops p creds host user) = host"
  by (simp_all add: Route_def cmd_hops_def target_addr_def Let_def)

lemma cmd_client_opens:
  "triple (held opn d) (cmd_buildSSHClient p creds c host user)
     (\<lambda>e. held opn (case e of None \<Rightarrow> (\<lambda>n. d n + one (ssh_conn host) n) | Some _ \<Rightarrow> d))"
  unfolding cmd_buildSSHClient_def Let_def
  by (rule triple_bind, simp only: cmd_hops_simps, rule retry_opens, rule triple_ret) (auto split: option.splits)

text \<open>The requests that only read.\<close>

definition get_event :: "event \<Rightarrow> bool" where
  "get_event ev = (case ev of Waited _ _ \<Rightarrow> True | Http rq _ \<Rightarrow> rq_method rq = ''GET'' | _ \<Rightarrow> False)"

lemma get_event_simps [simp]: "get_event (Waited c d)" "get_event (Http (request_of lib cl verb path body) r) \<longleftrightarrow> verb = ''GET''"
  by (simp_all add: get_event_def request_of_def)

lemma get_event_quiet: "get_event ev \<Longrightarrow> quiet ev"
  by (cases ev) (auto simp: get_event_def quiet_def conn_delta_def)

lemma send_get: "only_calls get_event (send lib cl c ''GET'' path body)"
  by (rule only_calls_mono [OF send_only]) auto

lemma reads_get:
  "only_calls get_event (GetClusterByName lib js cl c name)" "only_calls get_event (GetClusterByID lib js cl c cid)"
  "only_calls get_event (GetClusterTemplateByName lib js cl c name)" "only_calls get_event (GetRegistryByName lib js cl c name)"
  unfolding GetClusterByName_def ListClustersAPI_def GetClusterByID_def GetClusterTemplateByName_def ListClusterTemplates_def
    GetRegistryByName_def ListRegistries_def
  by (intro calls_intros send_get)+

lemma wait_body_get: "only_calls get_event (wait_ready_body lib js cl c name timeout l)"
  unfolding wait_ready_body_def
  by (rule only_calls_bind) (auto intro!: calls_intros reads_get split: select3.splits)

lemma waits_get: "only_calls get_event (WaitForClusterReady lib js cl c name timeout)"
  unfolding WaitForClusterReady_def by (intro calls_intros wait_body_get)

lemma resolveMaster_get: "only_calls get_event (resolveMaster p c)"
  unfolding resolveMaster_def GetClusterConnectionInfo_def GetClusterKubeconfigByID_def getKubeconfigFromClusterDetails_def Let_def
  by (intro calls_intros reads_get send_get)

lemma connector_acquires: "acquires (connector_Connect p creds c)"
proof (rule acquires_pre)
  fix opn :: "string \<Rightarrow> int"
  have master: "triple (held opn (\<lambda>_. 0)) (resolveMaster p c) (\<lambda>_. held opn (\<lambda>_. 0))"
    using triple_quiet [OF only_calls_mono [OF resolveMaster_get get_event_quiet], of opn p c] by simp
  have fetch: "triple (held opn d) (FetchKubeconfig c (\<lambda>c cmd. call (Exec host cmd) (sl_Exec ssh hops c cmd))) (\<lambda>_. held opn d)" for d host ssh hops
    unfolding FetchKubeconfig_def by (rule triple_quiet) (intro calls_intros; simp)
  have client: "triple (held opn (\<lambda>_. 0)) (cmd_buildSSHClient p creds c host user)
      (\<lambda>e. held opn (case e of None \<Rightarrow> one (ssh_conn host) | Some _ \<Rightarrow> (\<lambda>_. 0)))" for host user
    using cmd_client_opens [of opn "\<lambda>_. 0" p creds c host user] by (simp cong: option.case_cong)
  have failed: "triple (held opn (one (ssh_conn host))) (io_bind (runCleanups [ignore_err (client_Close ssh (cmd_hops p creds host user))])
      (\<lambda>_. io_ret (Inl e))) (acquired opn)" for ssh host user e
    using releasesD [OF releases_run(1) [OF close_client_releases], of opn "cmd_hops p creds host user" ssh]
    by (auto intro!: triple_bind triple_ret)
  show "triple (held opn (\<lambda>_. 0)) (connector_Connect p creds c) (acquired opn)"
    unfolding connector_Connect_def Let_def
    apply (rule triple_bind [OF master], rule triple_sum, rule triple_ret, simp)
    apply (rule triple_prod, rule triple_bind [OF client], rule triple_option)
     apply (simp only: option.case, rule triple_bind [OF fetch], rule triple_sum)
      apply (rule failed)
     apply (rule tunnel_with_client [of _ "cmd_hops p creds _ _", unfolded cmd_hops_simps])
    apply (rule triple_ret, simp)
    done
qed

lemma cmd_Connect_acquires: "acquires (cmd_Connect p c)"
  unfolding cmd_Connect_def
proof (cases "cmd_Resolve (cp_os p) (cp_conf p)")
  case (Inl e)
  then show "acquires (case cmd_Resolve (cp_os p) (cp_conf p) of
      Inl e \<Rightarrow> io_ret (Inl (wrapf ''resolve commander credentials: '' e)) | Inr creds \<Rightarrow> connector_Connect p creds (CtxWithoutCancel c))"
    by (simp add: acquires_def triple_ret)
qed (simp add: connector_acquires)

lemma discovery_calls: "only_calls (\<lambda>ev. (\<exists>c d. ev = Waited c d) \<or> (\<exists>x e. ev = KubeOp ''discover'' x e)) (waitForModuleConfigAPI p c cfg timeout)"
proof -
  have "only_calls (\<lambda>ev. (\<exists>c d. ev = Waited c d) \<or> (\<exists>x e. ev = KubeOp ''discover'' x e)) (discovery_round p cfg c deadline settle)" for deadline settle
    unfolding discovery_round_def Let_def by (rule only_calls_bind) (auto intro!: calls_intros)
  then show ?thesis unfolding waitForModuleConfigAPI_def by (intro calls_intros)
qed

lemma enable_on_quiet: "only_calls quiet (enable_on p c def cfg)"
proof -
  have "quiet ev" if "module_event ev" for ev using that by (auto simp: module_event_def split: event.splits)
  then show ?thesis unfolding enable_on_def
    by (intro calls_intros only_calls_mono [OF discovery_calls] only_calls_mono [OF enable_and_configure_calls]) auto
qed

lemma cmd_enable_balanced: "balanced (cmd_enableModules p c)"
  unfolding cmd_enableModules_def Let_def
  by (intro balanced_sum balanced_ret allI acquire_use_release connector_acquires calls_intros triple_quiet enable_on_quiet)


lemma http_quiet: "quiet (Http rq r)"
  by (simp add: quiet_def conn_delta_def)

lemma ensure_quiet: "only_calls quiet (ensure_cluster p c name)"
proof -
  have send: "only_calls quiet (send lib cl c verb path body)" for lib :: "'a http_lib" and cl verb path body
    by (rule only_calls_mono [OF send_only]) (auto simp: http_quiet)
  note get = only_calls_mono [OF reads_get(1) get_event_quiet] only_calls_mono [OF reads_get(3) get_event_quiet]
    only_calls_mono [OF reads_get(4) get_event_quiet]
  show ?thesis
    unfolding ensure_cluster_def GetCluster_def createCluster_def resolveRegistry_def CreateClusterFromTemplate_def Let_def
    by (intro calls_intros get send)
qed

lemma cmd_Bootstrap_balanced: "balanced (cmd_Bootstrap p c)"
  unfolding cmd_Bootstrap_def Let_def
  by (intro balanced_bind balanced_sum balanced_ret balanced_if cmd_enable_balanced balanced_quiet [OF ensure_quiet]
      balanced_quiet [OF only_calls_mono [OF waits_get get_event_quiet]])

lemma cmd_node_Exec_balanced: "balanced (cmd_node_Exec p creds user cfg c node command)"
proof
  fix opn :: "string \<Rightarrow> int"
  have ip: "triple (\<lambda>t. opens t = opn) (internalIP_Resolve p cfg c node) (\<lambda>_ t. opens t = opn)"
    unfolding internalIP_Resolve_def by (rule triple_quiet) (intro calls_intros; simp)
  have client: "triple (\<lambda>t. opens t = opn) (cmd_buildSSHClient p creds c host user)
      (\<lambda>e. held opn (case e of None \<Rightarrow> one (ssh_conn host) | Some _ \<Rightarrow> (\<lambda>_. 0)))" for host
    using cmd_client_opens [of opn "\<lambda>_. 0" p creds c host user] by (simp cong: option.case_cong)
  have closed: "triple (held opn (one (ssh_conn host))) (ignore_err (client_Close ssh (cmd_hops p creds host user))) (\<lambda>_ t. opens t = opn)" for host ssh
    using releasesD [OF close_client_releases, of opn "cmd_hops p creds host user" ssh] by simp
  show "triple (\<lambda>t. opens t = opn) (cmd_node_Exec p creds user cfg c node command) (\<lambda>_ t. opens t = opn)"
    unfolding cmd_node_Exec_def
    by (rule triple_bind [OF ip], rule triple_sum, rule triple_ret, assumption, rule triple_bind [OF client], rule triple_option)
      (simp_all, rule triple_finally [OF triple_quiet closed], auto intro!: calls_intros triple_ret)
qed

lemma cmd_test_cluster_acquires: "acquires (cmd_ConnectTestCluster p c)"
proof (rule acquires_pre)
  fix opn :: "string \<Rightarrow> int"
  have master: "triple (held opn (\<lambda>_. 0)) (resolveMaster p c') (\<lambda>_. held opn (\<lambda>_. 0))" for c'
    using triple_quiet [OF only_calls_mono [OF resolveMaster_get get_event_quiet], of opn p c'] by simp
  have conn: "triple (held opn (\<lambda>_. 0)) (connector_Connect p creds c') (acquired opn)" for creds c'
    using connector_acquires [of p creds c'] by (simp add: acquires_def)
  have use: "triple (acquired opn (Inr (cfg, cl))) (case cp_clientset p cfg of
        Some e \<Rightarrow> io_bind cl (\<lambda>_. io_ret (Inl (wrapf ''build clientset for node address lookups: '' e)))
      | None \<Rightarrow> io_ret (Inr (\<lparr>kt_RESTConfig = cfg, kt_Exec = cmd_node_Exec p creds user cfg\<rparr>, cl))) (acquired opn)" for cfg cl creds user
  proof (cases "cp_clientset p cfg")
    case (Some e)
    have "triple (held opn d) cl (\<lambda>_ t. opens t = opn)" if "releases d cl" for d using releasesD [OF that] .
    then have "triple (acquired opn (Inr (cfg, cl))) cl (\<lambda>_ t. opens t = opn)"
      unfolding triple_def by (auto simp: acquired_def)
    then show ?thesis by (auto simp: Some intro!: triple_bind triple_ret)
  qed (auto intro!: triple_ret)
  have after: "triple (acquired opn r) (case r of
        Inl e \<Rightarrow> io_ret (Inl (wrapf ''connect to the commander cluster: '' e))
      | Inr (cfg, cl) \<Rightarrow> (case cp_clientset p cfg of
          Some e \<Rightarrow> io_bind cl (\<lambda>_. io_ret (Inl (wrapf ''build clientset for node address lookups: '' e)))
        | None \<Rightarrow> io_ret (Inr (\<lparr>kt_RESTConfig = cfg, kt_Exec = cmd_node_Exec p creds user cfg\<rparr>, cl)))) (acquired opn)" for r creds user
    by (cases r) (auto intro!: use triple_ret)
  show "triple (held opn (\<lambda>_. 0)) (cmd_ConnectTestCluster p c) (acquired opn)"
    unfolding cmd_ConnectTestCluster_def Let_def
    by (rule triple_sum, rule triple_ret, simp, rule triple_bind [OF master], rule triple_sum, rule triple_ret, simp,
        rule triple_prod, rule triple_bind [OF conn], rule after)
qed

text \<open>
  The Commander provider loses no connection. A failed \<^verbatim>\<open>Connect\<close> or \<^verbatim>\<open>ConnectTestCluster\<close> leaves the same SSH
  clients and tunnels open as before it; after a successful one, the clean-up function it returned closes, whenever
  it is run, exactly what was opened. Bootstrap, and a command on a node, close whatever they open, on every path.\<close>

lemma commander_connections_accounted:
  "(cmd_Connect p c w = Some (r1, w1) \<longrightarrow> (case r1 of Inl _ \<Rightarrow> opens (tr w1) = opens (tr w)
      | Inr (cfg, cleanup) \<Rightarrow> \<forall>v y v' n. cleanup v = Some (y, v') \<longrightarrow>
          opens (tr v') n = opens (tr v) n - (opens (tr w1) n - opens (tr w) n))) \<and>
   (cmd_ConnectTestCluster p c w = Some (r2, w2) \<longrightarrow> (case r2 of Inl _ \<Rightarrow> opens (tr w2) = opens (tr w)
      | Inr (cluster, cleanup) \<Rightarrow> \<forall>v y v' n. cleanup v = Some (y, v') \<longrightarrow>
          opens (tr v') n = opens (tr v) n - (opens (tr w2) n - opens (tr w) n))) \<and>
   (cmd_Bootstrap p c w = Some (r3, w3) \<longrightarrow> opens (tr w3) = opens (tr w)) \<and>
   (cmd_node_Exec p creds user cfg c node command w = Some (r4, w4) \<longrightarrow> opens (tr w4) = opens (tr w))"
  using acquires_account [OF cmd_Connect_acquires] acquires_account [OF cmd_test_cluster_acquires]
    balancedD [OF cmd_Bootstrap_balanced] balancedD [OF cmd_node_Exec_balanced]
  by (intro conjI impI) blast+


section \<open>Bootstrap\<close>

text \<open>
  What the requests and answers of \<^verbatim>\<open>Bootstrap\<close> say. A list was read in which no cluster has the name; a request
  creates a cluster of that name, with the name as the value of \<^verbatim>\<open>prefix\<close>; an answer shows the cluster Ready.
\<close>

definition unlisted :: "('e, 'a, 'c) commander_provider \<Rightarrow> string \<Rightarrow> event \<Rightarrow> bool" where
  "unlisted p name ev \<longleftrightarrow> (\<exists>resp xs. ev = Http (request_of (cp_http p) (cp_client p) ''GET'' ''/clusters'' None) (Inr resp) \<and>
     rs_status resp = 200 \<and> rs_readErr resp = None \<and> decode_clusters (cp_js p) (rs_body resp) = Inr xs \<and> name \<notin> cr_Name ` set xs)"

definition creates :: "('e, 'a, 'c) commander_provider \<Rightarrow> string \<Rightarrow> event \<Rightarrow> bool" where
  "creates p name ev \<longleftrightarrow> (\<exists>(q :: create_request) body r.
     ev = Http (request_of (cp_http p) (cp_client p) ''POST'' ''/clusters'' (Some body)) r \<and>
     jl_marshalCreate (cp_js p) q = Inr body \<and> cq_Name q = name \<and> map_of (cq_Values q) ''prefix'' = Some (JStr name))"

definition shown_ready :: "('e, 'a, 'c) commander_provider \<Rightarrow> string \<Rightarrow> event \<Rightarrow> bool" where
  "shown_ready p name ev \<longleftrightarrow>
     (\<exists>x. listed (cp_http p) (cp_js p) (cp_client p) name x ev \<and> mapStatusToPhase (cr_Status x) = ClusterPhaseReady) \<or>
     (\<exists>resp (x :: cluster_response) rq. creates p name ev \<and> ev = Http rq (Inr resp) \<and> rs_status resp \<in> {200, 201} \<and>
        jl_decodeCluster (cp_js p) resp = Inr x \<and> (if cr_Status x = [] then cr_Phase x else cr_Status x) = ClusterPhaseReady)"

text \<open>Only reads, or reads with one creation among them that follows a list without the name.\<close>

definition created_once :: "('e, 'a, 'c) commander_provider \<Rightarrow> string \<Rightarrow> event list \<Rightarrow> bool" where
  "created_once p name u \<longleftrightarrow> list_all get_event u \<or>
     (\<exists>g post g'. u = g @ post # g' \<and> list_all get_event g \<and> list_ex (unlisted p name) g \<and> creates p name post \<and> list_all get_event g')"

text \<open>The error \<^verbatim>\<open>ErrClusterNotFound\<close> is made by the client only.\<close>

definition lookup_is_ours :: "'e http_lib \<Rightarrow> bool" where
  "lookup_is_ours lib \<longleftrightarrow>
     (\<forall>verb url e. hl_newRequest lib verb url = Some e \<longrightarrow> \<not> errors_is e ErrClusterNotFound) \<and>
     (\<forall>hc c rq s e s'. hl_Do lib hc c rq s = (Inl e, s') \<longrightarrow> \<not> errors_is e ErrClusterNotFound) \<and>
     (\<forall>hc c rq s resp s' e. hl_Do lib hc c rq s = (Inr resp, s') \<longrightarrow> rs_readErr resp = Some e \<longrightarrow> \<not> errors_is e ErrClusterNotFound)"

lemma not_found_simps [simp]:
  "errors_is (wrapf pre e) ErrClusterNotFound = errors_is e ErrClusterNotFound"
  "\<not> errors_is (unexpected_status resp) ErrClusterNotFound" "\<not> errors_is (ErrText s) ErrClusterNotFound"
  by (simp_all add: errors_is_def ErrClusterNotFound_def unexpected_status_def)

lemma decode_clusters_error: "decode_clusters js body = Inl e \<Longrightarrow> \<not> errors_is e ErrClusterNotFound"
  by (auto simp: decode_clusters_def split: sum.splits)

lemma GetClusterByName_absent:
  assumes ours: "lookup_is_ours (cp_http p)"
    and run: "GetClusterByName (cp_http p) (cp_js p) (cp_client p) c name w = Some (Inl e, w')" and "errors_is e ErrClusterNotFound"
  shows "\<exists>ev. tr w' = tr w @ [ev] \<and> unlisted p name ev"
proof -
  let ?rq = "request_of (cp_http p) (cp_client p) ''GET'' ''/clusters'' None"
  from run obtain r where r: "send (cp_http p) (cp_client p) c ''GET'' ''/clusters'' None w = Some (r, w')"
    and e: "(case r of Inl e' \<Rightarrow> Inl (wrapf ''failed to list clusters: '' e')
       | Inr resp \<Rightarrow> (case list_response (decode_clusters (cp_js p)) resp of Inl e' \<Rightarrow> Inl (wrapf ''failed to list clusters: '' e')
         | Inr xs \<Rightarrow> (case find (\<lambda>x. cr_Name x = name) xs of Some x \<Rightarrow> Inr x | None \<Rightarrow> Inl ErrClusterNotFound))) = Inl e"
    unfolding GetClusterByName_def ListClustersAPI_def by (auto simp: io_simps split: option.splits sum.splits)
  note own = ours [unfolded lookup_is_ours_def]
  from r show ?thesis
  proof (cases rule: send_cases)
    case (unsent e')
    with r e assms(3) own show ?thesis by (auto simp: send_def io_simps wrap_left_def split: option.splits sum.splits) (metis prod.collapse)
  next
    case (sent r0 s')
    then obtain resp where resp: "r0 = Inr resp" "r = Inr resp"
      using e assms(3) own by (cases r0) (auto simp: wrap_left_def, blast)
    have "\<not> errors_is e' ErrClusterNotFound" if "list_response (decode_clusters (cp_js p)) resp = Inl e'" for e'
      using that own sent(1) resp(1) by (auto simp: list_response_def split: if_splits option.splits dest: decode_clusters_error) blast
    with e resp assms(3) obtain xs where "list_response (decode_clusters (cp_js p)) resp = Inr xs" "find (\<lambda>x. cr_Name x = name) xs = None"
      by (auto split: sum.splits option.splits)
    with sent(2) resp(1) show ?thesis by (auto simp: unlisted_def list_response_def find_None_iff split: if_splits option.splits)
  qed
qed

lemma buildValues_prefix: "buildValues p name = Inr vs \<Longrightarrow> map_of vs ''prefix'' = Some (JStr name)"
  by (auto simp: buildValues_def update_conv' split: if_splits sum.splits option.splits)

lemma resolveRegistry_get: "only_calls get_event (resolveRegistry p c)"
  unfolding resolveRegistry_def Let_def by (intro calls_intros reads_get)

lemma create_request_run:
  assumes "CreateClusterFromTemplate (cp_http p) (cp_js p) (cp_client p) c name vid rid vs w = Some (r, w')"
    and prefix: "map_of vs ''prefix'' = Some (JStr name)"
  shows "tr w' = tr w \<and> (\<exists>e. r = Inl e) \<or> (\<exists>post. tr w' = tr w @ [post] \<and> creates p name post \<and>
     (\<forall>x. r = Inr x \<longrightarrow> (if cr_Status x = [] then cr_Phase x else cr_Status x) = ClusterPhaseReady \<longrightarrow> shown_ready p name post))"
proof -
  let ?q = "\<lparr>cq_Name = name, cq_ClusterTemplateVersionID = vid, cq_RegistryID = rid, cq_Values = vs\<rparr>"
  have made: "creates p name (Http (request_of (cp_http p) (cp_client p) ''POST'' ''/clusters'' (Some body)) r0)"
    if "jl_marshalCreate (cp_js p) ?q = Inr body" for body r0
    unfolding creates_def using that prefix by (intro exI [of _ ?q]) auto
  show ?thesis
  proof (cases "jl_marshalCreate (cp_js p) ?q")
    case (Inl e)
    with assms(1) show ?thesis by (auto simp: CreateClusterFromTemplate_def io_simps)
  next
    case (Inr body)
    let ?ev = "Http (request_of (cp_http p) (cp_client p) ''POST'' ''/clusters'' (Some body))"
    from assms(1) Inr obtain r0 where r0: "send (cp_http p) (cp_client p) c ''POST'' ''/clusters'' (Some body) w = Some (r0, w')"
      and r: "r = (case r0 of Inl e \<Rightarrow> Inl e | Inr resp \<Rightarrow> if rs_status resp \<noteq> 201 \<and> rs_status resp \<noteq> 200 then Inl (unexpected_status resp)
          else wrap_left ''failed to decode response: '' (jl_decodeCluster (cp_js p) resp))"
      by (auto simp: CreateClusterFromTemplate_def io_simps split: option.splits sum.splits)
    from r0 show ?thesis
    proof (cases rule: send_cases)
      case (sent r1 s')
      have "shown_ready p name (?ev r1)" if x: "r = Inr x" "(if cr_Status x = [] then cr_Phase x else cr_Status x) = ClusterPhaseReady" for x
      proof -
        obtain resp where "r1 = Inr resp" "rs_status resp \<in> {200, 201}" "jl_decodeCluster (cp_js p) resp = Inr x"
          using x(1) r sent(3) by (auto split: sum.splits if_splits)
        with made [OF Inr, of r1] x(2) show ?thesis unfolding shown_ready_def by blast
      qed
      with sent(2) made [OF Inr, of r1] show ?thesis by (intro disjI2 exI [of _ "?ev r1"]) simp
    qed (use r in simp)
  qed
qed

text \<open>After the creation of the cluster was tried: only reads and an error, or reads and then one creation.\<close>

definition tried :: "('e, 'a, 'c) commander_provider \<Rightarrow> string \<Rightarrow> event list \<Rightarrow> goerr + cluster_status \<Rightarrow> event list \<Rightarrow> bool" where
  "tried p name t0 r t \<longleftrightarrow> (since t0 (list_all get_event) t \<and> (\<exists>e. r = Inl e)) \<or>
     since t0 (\<lambda>u. \<exists>g post. u = g @ [post] \<and> list_all get_event g \<and> creates p name post \<and>
       (\<forall>st. r = Inr st \<longrightarrow> cs_Phase st = ClusterPhaseReady \<longrightarrow> shown_ready p name post)) t"

lemma triple_gets: "only_calls get_event m \<Longrightarrow> triple (since t0 (list_all get_event)) m (\<lambda>_. since t0 (list_all get_event))"
  by (rule tripleI) (fastforce simp: since_def dest: only_callsD)

lemma createCluster_run: "triple (since t0 (list_all get_event)) (createCluster p c name) (tried p name t0)"
proof -
  have err: "triple (since t0 (list_all get_event)) (io_ret (Inl e)) (tried p name t0)" for e
    by (rule triple_ret) (simp add: tried_def)
  have create: "triple (since t0 (list_all get_event))
      (io_try (CreateClusterFromTemplate (cp_http p) (cp_js p) (cp_client p) c name vid rid vs) (\<lambda>e. e) (\<lambda>resp.
         io_ret (Inr \<lparr>cs_Phase = (if cr_Status resp = [] then cr_Phase resp else cr_Status resp), cs_Message = cr_Message resp, cs_APIEndpoint = []\<rparr>)))
      (tried p name t0)" if prefix: "map_of vs ''prefix'' = Some (JStr name)" for vid rid vs
  proof (rule tripleI)
    fix w r w'
    assume t: "since t0 (list_all get_event) (tr w)"
      and "io_try (CreateClusterFromTemplate (cp_http p) (cp_js p) (cp_client p) c name vid rid vs) (\<lambda>e. e) (\<lambda>resp.
        io_ret (Inr \<lparr>cs_Phase = (if cr_Status resp = [] then cr_Phase resp else cr_Status resp), cs_Message = cr_Message resp, cs_APIEndpoint = []\<rparr>)) w
        = Some (r, w')"
    then obtain x where x: "CreateClusterFromTemplate (cp_http p) (cp_js p) (cp_client p) c name vid rid vs w = Some (x, w')"
      and r: "r = (case x of Inl e \<Rightarrow> Inl e | Inr resp \<Rightarrow> Inr \<lparr>cs_Phase = (if cr_Status resp = [] then cr_Phase resp else cr_Status resp),
        cs_Message = cr_Message resp, cs_APIEndpoint = []\<rparr>)"
      by (auto simp: io_simps split: option.splits sum.splits)
    from create_request_run [OF x prefix] t r show "tried p name t0 r (tr w')"
      unfolding tried_def since_def by (cases x) auto
  qed
  note get = triple_gets [OF reads_get(3)] triple_gets [OF resolveRegistry_get]
  show ?thesis
    unfolding createCluster_def io_try_def [of "GetClusterTemplateByName _ _ _ _ _"] io_try_def [of "resolveRegistry _ _"]
    by (rule triple_if, rule err, rule triple_bind [OF get(1)], rule triple_sum, rule err, rule triple_sum, rule err,
        rule triple_bind [OF get(2)], rule triple_sum, rule err, rule triple_sum, rule err, rule create) (erule buildValues_prefix)
qed

lemma ensure_run:
  assumes "lookup_is_ours (cp_http p)" and "ensure_cluster p c name w = Some (r, w')"
  shows "\<exists>u. tr w' = tr w @ u \<and> created_once p name u \<and>
    (\<forall>st. r = Inr st \<longrightarrow> cs_Phase st = ClusterPhaseReady \<longrightarrow> list_ex (shown_ready p name) u)"
proof -
  from assms(2) obtain g w1 where g: "GetClusterByName (cp_http p) (cp_js p) (cp_client p) c name w = Some (g, w1)"
    and rest: "(case g of Inr x \<Rightarrow> io_ret (Inr (cc_Status (to_cluster x))) | Inl err \<Rightarrow>
         if errors_is err ErrClusterNotFound
         then io_try (createCluster p c name) (wrapf (''create cluster '' @ go_quote name @ '': '')) (\<lambda>st. io_ret (Inr st))
         else io_ret (Inl (wrapf (''look up cluster '' @ go_quote name @ '' in Commander: '') err))) w1 = Some (r, w')"
    unfolding ensure_cluster_def GetCluster_def by (auto simp: io_simps split: option.splits sum.splits)
  from only_callsD [OF reads_get(1) g] obtain u where u: "tr w1 = tr w @ u" "list_all get_event u" by blast
  show ?thesis
  proof (cases "\<exists>err. g = Inl err \<and> errors_is err ErrClusterNotFound")
    case True
    then obtain err where err: "g = Inl err" "errors_is err ErrClusterNotFound" by blast
    from GetClusterByName_absent [OF assms(1) g [unfolded err(1)] err(2)] u obtain ev where ev: "u = [ev]" "unlisted p name ev" by auto
    from rest err obtain r0 where r0: "createCluster p c name w1 = Some (r0, w')"
      and r: "r = (case r0 of Inl e \<Rightarrow> Inl (wrapf (''create cluster '' @ go_quote name @ '': '') e) | Inr st \<Rightarrow> Inr st)"
      by (auto simp: io_simps split: option.splits sum.splits)
    have "tried p name (tr w1) r0 (tr w')"
      by (rule tripleD [OF createCluster_run r0]) (simp add: since_def)
    then consider g where "tr w' = tr w @ ev # g" "list_all get_event g" "\<exists>e. r0 = Inl e"
      | g post where "tr w' = tr w @ ev # g @ [post]" "list_all get_event g" "creates p name post"
          "\<forall>st. r0 = Inr st \<longrightarrow> cs_Phase st = ClusterPhaseReady \<longrightarrow> shown_ready p name post"
      using u(1) ev(1) unfolding tried_def since_def by auto
    then show ?thesis
    proof cases
      case (1 g)
      with u ev(1) r show ?thesis by (intro exI [of _ "ev # g"]) (auto simp: created_once_def)
    next
      case (2 g post)
      have "created_once p name (ev # g @ [post])" unfolding created_once_def
        by (intro disjI2 exI [of _ "ev # g"] exI [of _ post] exI [of _ "[]"]) (use 2 u ev in auto)
      with 2 r show ?thesis by (intro exI [of _ "ev # g @ [post]"]) (auto split: sum.splits)
    qed
  next
    case False
    with rest have "tr w' = tr w1" "\<forall>st. r = Inr st \<longrightarrow> (\<exists>x. g = Inr x \<and> st = cc_Status (to_cluster x))"
      by (auto simp: io_simps split: sum.splits if_splits)
    moreover have "list_ex (shown_ready p name) u" if "g = Inr x" "mapStatusToPhase (cr_Status x) = ClusterPhaseReady" for x
      using GetClusterByName_read [of "cp_http p"] g that u(1) unfolding shown_ready_def by fastforce
    ultimately show ?thesis using u by (intro exI [of _ u]) (auto simp: created_once_def to_cluster_def)
  qed
qed

lemma wait_ready_run:
  assumes "WaitForClusterReady (cp_http p) (cp_js p) (cp_client p) c name timeout w = Some (r, w')" and "r = Inr cluster"
  shows "\<exists>u. tr w' = tr w @ u \<and> list_ex (shown_ready p name) u"
  using assms unfolding WaitForClusterReady_def
proof (induction rule: loop_induct)
  case (stop s w r w')
  then obtain w1 x where x: "GetClusterByName (cp_http p) (cp_js p) (cp_client p) c name w1 = Some (Inr x, w')"
    "mapStatusToPhase (cr_Status x) = ClusterPhaseReady" "tr w1 = tr w @ [Waited c (10 * second)]"
    unfolding wait_ready_body_def by (auto simp: io_simps split: option.splits select3.splits sum.splits if_splits)
  from GetClusterByName_read [OF x(1)] x show ?case by (auto simp: shown_ready_def)
next
  case (step s w s1 w1 r w')
  from step.IH [OF step.prems] only_callsD [OF wait_body_get step.hyps(1)] show ?case by fastforce
qed


text \<open>Events that write no module and send no request that changes something.\<close>

definition harmless :: "event \<Rightarrow> bool" where
  "harmless ev \<longleftrightarrow> module_written ev = None \<and> (\<forall>rq r. ev = Http rq r \<longrightarrow> rq_method rq = ''GET'')"

lemma harmless_simps [simp]:
  "harmless (Waited c d)" "harmless (Opened n r)" "harmless (Closed n)" "harmless (Exec ip cmd x)" "harmless (KubeOp what args e)"
  by (simp_all add: harmless_def)

lemma get_harmless: "get_event ev \<Longrightarrow> harmless ev"
  by (cases ev) (auto simp: get_event_def harmless_def)

lemma close_harmless: "only_calls harmless (ignore_err (client_Close ssh hops))" "only_calls harmless (ignore_err (tunnel_Close ssh hops))"
  "only_calls harmless (tunnel_Close ssh hops)"
  unfolding ignore_err_def client_Close_def tunnel_Close_def by (intro calls_intros; simp)+

lemma cmd_client_harmless: "only_calls harmless (cmd_buildSSHClient p creds c host user)"
  unfolding cmd_buildSSHClient_def Let_def NewWithRetry_def retry_connect_def ssh_New_def by (intro calls_intros; simp)

lemma tunnel_harmless: "only_calls harmless (TunnelRestConfig ssh cc c hops k port)"
  unfolding TunnelRestConfig_def OpenTunnel_def by (intro calls_intros close_harmless; simp)

lemma connector_harmless: "only_calls harmless (connector_Connect p creds c)"
  unfolding connector_Connect_def Let_def FetchKubeconfig_def
  by (intro calls_intros only_calls_mono [OF resolveMaster_get get_harmless] cmd_client_harmless tunnel_harmless run_cleanups_calls)
    (auto simp: close_harmless split: prod.splits intro!: calls_intros)

lemma tunnel_close: "TunnelRestConfig ssh cc c hops k port w = Some (Inr (cfg, cl), w') \<Longrightarrow> cl = tunnel_Close ssh hops"
  by (auto simp: TunnelRestConfig_def io_simps split: option.splits sum.splits)

lemma connector_cleanup_harmless:
  assumes "connector_Connect p creds c w = Some (Inr (cfg, cl), w')"
  shows "only_calls harmless cl"
proof -
  from assms obtain hops k w1 w2 ct where t: "TunnelRestConfig (cp_ssh p) (cp_clientcmd p) c hops k cmd_apiServerRemotePort w1 = Some (Inr (cfg, ct), w2)"
    and cl: "cl = runCleanups [ignore_err (client_Close (cp_ssh p) hops), ignore_err ct]"
    unfolding connector_Connect_def Let_def by (auto simp: io_simps split: option.splits sum.splits)
  show ?thesis unfolding cl tunnel_close [OF t] by (rule run_cleanups_calls) (simp add: close_harmless)
qed

text \<open>What is stored and settled stays so when harmless events surround it.\<close>

lemma module_stored_frame: "module_stored m repo u \<Longrightarrow> module_stored m repo (a @ u @ b)"
  by (auto simp: module_stored_def)

lemma module_settled_frame:
  assumes "module_settled phase repo m u" and "list_all harmless b"
  shows "module_settled phase repo m (a @ u @ b)"
proof -
  from assms(1) obtain x ev y where u: "u = x @ ev # y" "module_stored m repo x" "seen_ready phase (mc_Name m) ev"
    "\<forall>z \<in> set y. module_written z \<noteq> Some (mc_Name m)" unfolding module_settled_def by blast
  show ?thesis unfolding module_settled_def
    by (intro exI [of _ "a @ x"] exI [of _ ev] exI [of _ "y @ b"])
      (use u assms(2) module_stored_frame [OF u(2), of a "[]"] in \<open>auto simp: list_all_iff harmless_def\<close>)
qed

text \<open>The modules of the definition are written in the order of their dependencies.\<close>

definition modules_ordered :: "string \<Rightarrow> cluster_definition \<Rightarrow> event list \<Rightarrow> bool" where
  "modules_ordered phase def u \<longleftrightarrow> (\<forall>a ev b n. u = a @ ev # b \<longrightarrow> module_written ev = Some n \<longrightarrow>
     (\<exists>m. Some m \<in> set (Modules (DKPParameters def)) \<and> mc_Name m = n \<and>
        (\<forall>d. Some d \<in> set (Modules (DKPParameters def)) \<longrightarrow> mc_Enabled d \<longrightarrow> mc_Name d \<in> set (mc_Dependencies m) \<longrightarrow>
           module_settled phase (RegistryRepo (DKPParameters def)) d a)))"

definition modules_done :: "string \<Rightarrow> cluster_definition \<Rightarrow> event list \<Rightarrow> bool" where
  "modules_done phase def u \<longleftrightarrow> (\<forall>m. Some m \<in> set (Modules (DKPParameters def)) \<longrightarrow>
     module_stored m (RegistryRepo (DKPParameters def)) u \<and> (mc_Enabled m \<longrightarrow> module_settled phase (RegistryRepo (DKPParameters def)) m u))"

lemma modules_frame:
  assumes "list_all harmless a" "list_all harmless b"
  shows "modules_ordered phase def u \<Longrightarrow> modules_ordered phase def (a @ u @ b)" "modules_done phase def u \<Longrightarrow> modules_done phase def (a @ u @ b)"
proof -
  show "modules_done phase def u \<Longrightarrow> modules_done phase def (a @ u @ b)"
    unfolding modules_done_def using module_stored_frame module_settled_frame [OF _ assms(2)] by blast
  assume ord: "modules_ordered phase def u"
  show "modules_ordered phase def (a @ u @ b)"
    unfolding modules_ordered_def
  proof (intro allI impI)
    fix x ev y n
    assume split: "a @ u @ b = x @ ev # y" and wr: "module_written ev = Some n"
    have "ev \<notin> set a" "ev \<notin> set b" using assms wr by (auto simp: list_all_iff harmless_def)
    with split obtain x' y' where u: "u = x' @ ev # y'" "x = a @ x'" "y = y' @ b"
      by (fastforce simp: append_eq_append_conv2 append_eq_Cons_conv Cons_eq_append_conv)
    show "\<exists>m. Some m \<in> set (Modules (DKPParameters def)) \<and> mc_Name m = n \<and>
        (\<forall>d. Some d \<in> set (Modules (DKPParameters def)) \<longrightarrow> mc_Enabled d \<longrightarrow> mc_Name d \<in> set (mc_Dependencies m) \<longrightarrow>
           module_settled phase (RegistryRepo (DKPParameters def)) d x)"
      using ord [unfolded modules_ordered_def, rule_format, OF u(1) wr] module_settled_frame [of phase _ _ x' "[]" a] u(2) by fastforce
  qed
qed


lemma enable_modules_run:
  assumes names: "\<And>cfg. api_names (ka_deckhouse (cp_api p cfg))"
    and def: "cp_loadDefinition p (cc_ClusterBootstrapConfigPath (cp_cfg p)) = Inr def"
    and dist: "distinct (map mc_Name (present (Modules (DKPParameters def))))"
    and run: "cmd_enableModules p c w = Some (r, w')"
  shows "\<exists>u cfg. tr w' = tr w @ u \<and> list_all (\<lambda>ev. \<forall>rq x. ev = Http rq x \<longrightarrow> rq_method rq = ''GET'') u \<and>
    modules_ordered (da_phaseReady (ka_deckhouse (cp_api p cfg))) def u \<and>
    (r = None \<longrightarrow> modules_done (da_phaseReady (ka_deckhouse (cp_api p cfg))) def u)"
    (is "\<exists>u cfg. ?post u cfg")
proof -
  have calm: "\<exists>u cfg. ?post u cfg" if "tr w' = tr w @ u" "list_all harmless u" "r \<noteq> None" for u
    using that modules_frame(1) [of u "[]" _ def "[]"]
    by (intro exI [of _ u]) (auto simp: list_all_iff harmless_def modules_ordered_def)
  show ?thesis
  proof (cases "cmd_Resolve (cp_os p) (cp_conf p)")
    case (Inl e)
    with run def show ?thesis by (intro calm [of "[]"]) (auto simp: cmd_enableModules_def io_simps)
  next
    case (Inr creds)
    with run def obtain k w1 where k: "connector_Connect p creds c w = Some (k, w1)" and rest: "(case k of
          Inl e \<Rightarrow> io_ret (Some (wrapf ''connect to cluster for module enablement: '' e))
        | Inr (cfg, cleanup) \<Rightarrow> io_finally (enable_on p c def cfg) cleanup) w1 = Some (r, w')"
      by (auto simp: cmd_enableModules_def io_bind_apply split: option.splits)
    from only_callsD [OF connector_harmless k] obtain a where a: "tr w1 = tr w @ a" "list_all harmless a" by blast
    show ?thesis
    proof (cases k)
      case (Inl e)
      with rest a show ?thesis by (intro calm [of a]) (auto simp: io_simps)
    next
      case (Inr kc)
      then obtain cfg cl where kc: "k = Inr (cfg, cl)" by (cases kc) simp
      with rest obtain w2 where on: "enable_on p c def cfg w1 = Some (r, w2)" and cl: "cl w2 = Some ((), w')"
        by (auto simp: io_simps split: option.splits)
      from only_callsD [OF connector_cleanup_harmless [OF k [unfolded kc]] cl] obtain b where b: "tr w' = tr w2 @ b" "list_all harmless b" by blast
      from on obtain d w3 where d: "waitForModuleConfigAPI p c cfg moduleConfigAPITimeout w1 = Some (d, w3)"
        and rest2: "(case d of Some err \<Rightarrow> io_ret (Some err)
          | None \<Rightarrow> io_bind (EnableAndConfigureModules (cp_rt p) (cp_order p) (ka_deckhouse (cp_api p cfg)) c
              (Modules (DKPParameters def)) (RegistryRepo (DKPParameters def))) (\<lambda>e. io_ret (map_option (wrapf ''enable and configure modules: '') e))) w3
          = Some (r, w2)"
        unfolding enable_on_def by (auto simp: io_bind_apply split: option.splits)
      from only_callsD [OF only_calls_mono [OF discovery_calls, of harmless] d] obtain a' where a': "tr w3 = tr w1 @ a'" "list_all harmless a'"
        by fastforce
      show ?thesis
      proof (cases d)
        case (Some err)
        with rest2 a a' b show ?thesis by (intro calm [of "a @ a' @ b"]) (auto simp: io_simps)
      next
        case None
        with rest2 obtain e where e: "EnableAndConfigureModules (cp_rt p) (cp_order p) (ka_deckhouse (cp_api p cfg)) c
            (Modules (DKPParameters def)) (RegistryRepo (DKPParameters def)) w3 = Some (e, w2)" and r: "r = None \<longleftrightarrow> e = None"
          by (auto simp: io_simps split: option.splits)
        from configured_run [OF names dist e] obtain u where u: "tr w2 = tr w3 @ u"
          "modules_ordered (da_phaseReady (ka_deckhouse (cp_api p cfg))) def u"
          "e = None \<longrightarrow> modules_done (da_phaseReady (ka_deckhouse (cp_api p cfg))) def u"
          unfolding modules_ordered_def modules_done_def by blast
        have calls: "list_all module_event u" using only_callsD [OF enable_and_configure_calls e] u(1) by auto
        have outer: "list_all harmless (a @ a')" "list_all harmless b" using a a' b by simp_all
        have "list_all (\<lambda>ev. \<forall>rq x. ev = Http rq x \<longrightarrow> rq_method rq = ''GET'') ((a @ a') @ u @ b)"
          using outer calls by (fastforce simp: list_all_iff harmless_def module_event_def)
        with a a' b u r modules_frame [OF outer] show ?thesis by (intro exI [of _ "(a @ a') @ u @ b"] exI [of _ cfg]) simp
      qed
    qed
  qed
qed

text \<open>What happens until the cluster is Ready, and where the modules begin.\<close>

lemma until_ready_run:
  assumes ours: "lookup_is_ours (cp_http p)" and run: "cmd_Bootstrap p c w = Some (r, w')"
  shows "\<exists>a w2. tr w2 = tr w @ a \<and> created_once p (cf_ClusterName (cp_conf p)) a \<and>
    (w' = w2 \<and> r \<noteq> None \<or> list_ex (shown_ready p (cf_ClusterName (cp_conf p))) a \<and> cmd_enableModules p c w2 = Some (r, w'))"
proof -
  let ?name = "cf_ClusterName (cp_conf p)"
  from run obtain s w1 where s: "ensure_cluster p c ?name w = Some (s, w1)" and rest: "(case s of
        Inl e \<Rightarrow> io_ret (Some e)
      | Inr status \<Rightarrow>
          if cs_Phase status = ClusterPhaseReady then cmd_enableModules p c
          else io_bind (WaitForClusterReady (cp_http p) (cp_js p) (cp_client p) c ?name (cf_WaitTimeout (cp_conf p))) (\<lambda>w. case w of
            Inl e \<Rightarrow> io_ret (Some (wrapf (''wait for cluster '' @ go_quote ?name @ '' to become Ready: '') e))
          | Inr _ \<Rightarrow> cmd_enableModules p c)) w1 = Some (r, w')"
    by (auto simp: cmd_Bootstrap_def io_bind_apply Let_def split: option.splits)
  from ensure_run [OF ours s] obtain a where a: "tr w1 = tr w @ a" "created_once p ?name a"
    "\<forall>st. s = Inr st \<longrightarrow> cs_Phase st = ClusterPhaseReady \<longrightarrow> list_ex (shown_ready p ?name) a" by blast
  show ?thesis
  proof (cases "\<exists>st. s = Inr st \<and> cs_Phase st \<noteq> ClusterPhaseReady")
    case False
    with rest a show ?thesis by (intro exI [of _ a] exI [of _ w1]) (cases s, auto simp: io_simps)
  next
    case True
    with rest obtain x w2 where x: "WaitForClusterReady (cp_http p) (cp_js p) (cp_client p) c ?name (cf_WaitTimeout (cp_conf p)) w1 = Some (x, w2)"
      and failed: "\<And>e. x = Inl e \<Longrightarrow> w' = w2 \<and> r \<noteq> None"
      and ready: "\<And>cluster. x = Inr cluster \<Longrightarrow> cmd_enableModules p c w2 = Some (r, w')"
      by (auto simp: io_simps split: option.splits sum.splits)
    from only_callsD [OF waits_get x] obtain g where g: "tr w2 = tr w1 @ g" "list_all get_event g" by blast
    have once: "created_once p ?name (a @ g)"
      using a(2) g(2) unfolding created_once_def by (elim disjE exE conjE) (simp, fastforce)
    have "list_ex (shown_ready p ?name) (a @ g)" if "x = Inr cluster" for cluster
      using wait_ready_run [OF x that] g(1) by auto
    with failed ready a(1) g(1) once show ?thesis
      by (intro exI [of _ "a @ g"] exI [of _ w2]) (cases x, simp_all)
  qed
qed

text \<open>
  C9. \<^verbatim>\<open>Bootstrap\<close> of the Commander provider, for a definition whose modules have distinct names, when no error of the HTTP library
  is taken for \<^verbatim>\<open>ErrClusterNotFound\<close> and the API reads the module it was asked for. Whatever else the server and the cluster answer, its requests fall in two parts. In
  the first it only reads, but for at most one creation, which follows a list of clusters without the configured
  name and asks for a cluster of that name; the second begins only after an answer showed the cluster Ready, sends
  Commander nothing but reads, and writes the modules of the definition in the order of their dependencies. Success
  means that the cluster was shown Ready and every module was stored, and every enabled one then seen Ready.\<close>

theorem commander_bootstrap:
  assumes ours: "lookup_is_ours (cp_http p)" and names: "\<And>cfg. api_names (ka_deckhouse (cp_api p cfg))"
    and def: "cp_loadDefinition p (cc_ClusterBootstrapConfigPath (cp_cfg p)) = Inr def"
    and dist: "distinct (map mc_Name (present (Modules (DKPParameters def))))"
    and run: "cmd_Bootstrap p c w = Some (r, w')"
  shows "\<exists>a b cfg. tr w' = tr w @ a @ b \<and> created_once p (cf_ClusterName (cp_conf p)) a \<and>
    ((b \<noteq> [] \<or> r = None) \<longrightarrow> list_ex (shown_ready p (cf_ClusterName (cp_conf p))) a) \<and>
    list_all (\<lambda>ev. \<forall>rq x. ev = Http rq x \<longrightarrow> rq_method rq = ''GET'') b \<and>
    modules_ordered (da_phaseReady (ka_deckhouse (cp_api p cfg))) def b \<and>
    (r = None \<longrightarrow> modules_done (da_phaseReady (ka_deckhouse (cp_api p cfg))) def b)"
proof -
  from until_ready_run [OF ours run] obtain a w2 where a: "tr w2 = tr w @ a" "created_once p (cf_ClusterName (cp_conf p)) a"
    "w' = w2 \<and> r \<noteq> None \<or> list_ex (shown_ready p (cf_ClusterName (cp_conf p))) a \<and> cmd_enableModules p c w2 = Some (r, w')" by blast
  from a(3) show ?thesis
  proof
    assume "w' = w2 \<and> r \<noteq> None"
    with a(1,2) show ?thesis by - (rule exI [of _ a], rule exI [of _ "[]"], auto simp: modules_ordered_def)
  next
    assume ready: "list_ex (shown_ready p (cf_ClusterName (cp_conf p))) a \<and> cmd_enableModules p c w2 = Some (r, w')"
    with enable_modules_run [OF names def dist] a(1) obtain b cfg where "tr w' = tr w @ a @ b"
      "list_all (\<lambda>ev. \<forall>rq x. ev = Http rq x \<longrightarrow> rq_method rq = ''GET'') b"
      "modules_ordered (da_phaseReady (ka_deckhouse (cp_api p cfg))) def b"
      "r = None \<longrightarrow> modules_done (da_phaseReady (ka_deckhouse (cp_api p cfg))) def b" by fastforce
    with a(2) ready show ?thesis by blast
  qed
qed

section \<open>Removal\<close>

lemma send_error:
  assumes "lookup_is_ours lib" and "send lib cl c verb path body w = Some (r, w')" and "r = Inl e"
  shows "\<not> errors_is e ErrClusterNotFound"
  using assms unfolding send_def lookup_is_ours_def
  by (auto simp: io_simps wrap_left_def split: option.splits sum.splits) (metis prod.collapse)

lemma unlisted_absent:
  assumes "GetClusterByName (cp_http p) (cp_js p) (cp_client p) c name w = Some (Inl e, w')" and "tr w' = tr w @ u" and "list_ex (unlisted p name) u"
  shows "errors_is e ErrClusterNotFound"
proof -
  have none: "find (\<lambda>x. cr_Name x = name) xs = None" if "name \<notin> cr_Name ` set xs" for xs
    using that by (auto simp: find_None_iff)
  from assms none show ?thesis
    unfolding GetClusterByName_def ListClustersAPI_def list_response_def
    by (auto simp: io_simps unlisted_def wrap_left_def errors_is_def ErrClusterNotFound_def split: option.splits sum.splits if_splits elim!: send_cases)
qed

text \<open>
  \<^verbatim>\<open>Remove\<close> of the Commander provider deletes nothing but the cluster that the list shows under the configured name.
  It sends at most one deletion, of that identifier, directly after the list. It succeeds exactly when the list
  has no cluster of the name, or the server accepted the deletion.\<close>

lemma commander_remove:
  assumes ours: "lookup_is_ours (cp_http p)" and run: "cmd_Remove p c w = Some (r, w')"
  shows "\<exists>u. tr w' = tr w @ u \<and>
    (list_all get_event u \<and> (r = None \<longleftrightarrow> list_ex (unlisted p (cf_ClusterName (cp_conf p))) u) \<or>
     (\<exists>ev x. listed (cp_http p) (cp_js p) (cp_client p) (cf_ClusterName (cp_conf p)) x ev \<and>
        (u = [ev] \<and> r \<noteq> None \<or>
         (\<exists>a. u = [ev, Http (request_of (cp_http p) (cp_client p) ''DELETE'' (''/clusters/'' @ cr_ID x) None) a] \<and>
            (r = None \<longleftrightarrow> (\<exists>resp. a = Inr resp \<and> rs_status resp \<in> {200, 202, 204}))))))"
proof -
  let ?name = "cf_ClusterName (cp_conf p)" and ?lib = "cp_http p" and ?cl = "cp_client p"
  from run obtain e where e: "DeleteCluster ?lib (cp_js p) ?cl c ?name w = Some (e, w')"
    and r: "r = None \<longleftrightarrow> (case e of None \<Rightarrow> True | Some err \<Rightarrow> errors_is err ErrClusterNotFound)"
    unfolding cmd_Remove_def Let_def by (auto simp: io_simps split: option.splits if_splits)
  then obtain g w1 where g: "GetClusterByName ?lib (cp_js p) ?cl c ?name w = Some (g, w1)"
    and failed: "\<And>err. g = Inl err \<Longrightarrow> w' = w1 \<and> e = Some (wrapf (''failed to find cluster '' @ [squote] @ ?name @ [squote] @ '': '') err)"
    and found: "\<And>x. g = Inr x \<Longrightarrow> DeleteClusterByID ?lib ?cl c (cr_ID x) w1 = Some (e, w')"
    unfolding DeleteCluster_def by (auto simp: io_simps split: option.splits sum.splits)
  from only_callsD [OF reads_get(1) g] obtain u where u: "tr w1 = tr w @ u" "list_all get_event u" by blast
  show ?thesis
  proof (cases g)
    case (Inl err)
    have "list_ex (unlisted p ?name) u \<Longrightarrow> errors_is err ErrClusterNotFound"
      using unlisted_absent [OF g [unfolded Inl] u(1)] .
    with GetClusterByName_absent [OF ours g [unfolded Inl]] u(1) failed [OF Inl] r
    have "r = None \<longleftrightarrow> list_ex (unlisted p ?name) u" "tr w' = tr w @ u" by auto
    with u(2) show ?thesis by blast
  next
    case (Inr x)
    from GetClusterByName_read [OF g [unfolded Inr]] u(1) obtain ev where ev: "u = [ev]" "listed ?lib (cp_js p) ?cl ?name x ev" by auto
    from found [OF Inr] obtain d where d: "send ?lib ?cl c ''DELETE'' (''/clusters/'' @ cr_ID x) None w1 = Some (d, w')"
      and e: "e = (case d of Inl e \<Rightarrow> Some e
        | Inr resp \<Rightarrow> if rs_status resp \<noteq> 200 \<and> rs_status resp \<noteq> 204 \<and> rs_status resp \<noteq> 202 then Some (unexpected_status resp) else None)"
      unfolding DeleteClusterByID_def by (auto simp: io_simps split: option.splits)
    from send_error [OF ours d] have own: "d = Inl e' \<Longrightarrow> \<not> errors_is e' ErrClusterNotFound" for e' .
    from d show ?thesis
    proof (cases rule: send_cases)
      case (unsent e')
      with own e r ev u show ?thesis by auto
    next
      case (sent a s')
      have "r = None \<longleftrightarrow> (\<exists>resp. a = Inr resp \<and> rs_status resp \<in> {200, 202, 204})"
        using r e own sent(3) by (cases a) (auto simp: wrap_left_def)
      with sent(2) ev u(1) show ?thesis
        by (intro exI [of _ "u @ [Http (request_of ?lib ?cl ''DELETE'' (''/clusters/'' @ cr_ID x) None) a]"] conjI disjI2 exI [of _ ev] exI [of _ x]) auto
    qed
  qed
qed


section \<open>A run\<close>

text \<open>
  A server without clusters (state 0) that creates cluster \<^verbatim>\<open>n\<close> (state 1), shows it as \<^verbatim>\<open>in_sync\<close> in the next list, and knows its
  master; the cluster of \<open>Module_Enable\<close> behind it.
\<close>

definition shop_cluster :: cluster_response where
  "shop_cluster = (demo_cluster 8 ''in_sync'')\<lparr>cr_SSHHost := ''10.0.0.1'', cr_SSHUser := ''u''\<rparr>"

definition shop_Do :: "http_request \<Rightarrow> nat \<Rightarrow> (goerr + http_response) \<times> nat" where
  "shop_Do rq s =
     (if rq_method rq = ''POST'' then (reply 201 ''created'', 1)
      else if rq_method rq = ''DELETE'' then (reply 204 [], 0)
      else if rq_url rq = ''http://c/api/v1/clusters'' then (reply 200 (if s = 0 then ''none'' else ''one''), s)
      else if rq_url rq = ''http://c/api/v1/cluster_templates'' then (reply 200 ''templates'', s)
      else (reply 200 ''kubeconfig'', s))"

definition shop_lib :: "nat http_lib" where "shop_lib = demo_lib\<lparr>hl_Do := (\<lambda>_ _. shop_Do)\<rparr>"

definition shop_template :: cluster_template where
  "shop_template = \<lparr>ct_ID = ''t1'', ct_Name = ''t'', ct_CurrentVersionID = ''v1'', ct_ClusterTemplateVersions = [], ct_Versions = []\<rparr>"

definition shop_js :: json_lib where
  "shop_js = (demo_js [])\<lparr>jl_decodeCluster := (\<lambda>_. Inr zero_cluster), jl_clusters := (\<lambda>body. Inr (if body = ''none'' then [] else [shop_cluster])),
     jl_templates := (\<lambda>_. Inr [shop_template]), jl_marshalCreate := (\<lambda>q. Inr (cq_Name q))\<rparr>"

definition shop_conf :: commander_config where
  "shop_conf = \<lparr>cf_URL = ''http://c'', cf_Token = ''t'', cf_ClusterName = ''n'', cf_TemplateName = ''t'', cf_TemplateVersion = [], cf_RegistryName = [],
     cf_InputValues = [], cf_AuthMethod = [], cf_AuthUser = [], cf_APIPrefix = [], cf_InsecureSkipTLSVerify = False, cf_CACertPath = [],
     cf_WaitTimeout = 30 * minute, cf_SSHUser = [], cf_SSHPassphrase = [], cf_SSHKeyPath = [], cf_SSHKeyContent = ''KEY'', cf_SSHJumpHost = [],
     cf_SSHJumpUser = [], cf_SSHJumpPassphrase = [], cf_SSHJumpKeyPath = [], cf_SSHJumpKeyContent = []\<rparr>"

definition shop_provider :: "(nat, unit, unit) commander_provider" where
  "shop_provider = \<lparr>cp_http = shop_lib, cp_js = shop_js, cp_rt = sample_rt,
     cp_ssh = sample_ssh\<lparr>sl_Exec := (\<lambda>hops c cmd s. ((empty_result\<lparr>er_stdout := ''kubeconfig''\<rparr>, None), s))\<rparr>,
     cp_clientcmd = cn_clientcmd sample_connector, cp_api = (\<lambda>_. healing_kube\<lparr>ka_deckhouse := sample_deckhouse\<rparr>),
     cp_discovery = (\<lambda>_. None), cp_resources = (\<lambda>_ s. (([Some (''deckhouse.io/v1alpha1'', [''moduleconfigs''])], None), s)),
     cp_clientset = (\<lambda>_. None), cp_nodeAddresses = (\<lambda>_ _ _ s. (Inr [(''InternalIP'', ''10.0.0.9'')], s)),
     cp_os = \<lparr>os_getenv = (\<lambda>_. []), os_readFile = (\<lambda>_. Inl (ErrText ''no file''))\<rparr>, cp_loadDefinition = (\<lambda>_. Inr sample_cluster),
     cp_order = (\<lambda>_ _. 0), cp_cfg = \<lparr>cc_ClusterProvider = ''commander'', cc_ClusterBootstrapConfigPath = ''c.yaml''\<rparr>, cp_conf = shop_conf, cp_client = demo_client\<rparr>"


lemma shop_sels [simp]:
  "cp_http shop_provider = shop_lib" "cp_js shop_provider = shop_js" "cp_client shop_provider = demo_client" "cp_conf shop_provider = shop_conf"
  "cp_rt shop_provider = sample_rt" "ka_deckhouse (cp_api shop_provider cfg) = sample_deckhouse" "cp_clientset shop_provider cfg = None"
  "cp_loadDefinition shop_provider path = Inr sample_cluster" "cf_ClusterName shop_conf = ''n''"
  "cmd_Resolve (cp_os shop_provider) shop_conf = Inr \<lparr>cd_SSHKey = ''KEY'', cd_JumpKey = []\<rparr>"
  by (simp_all add: shop_provider_def shop_conf_def cmd_Resolve_def cmd_resolveBytes_def cmd_JumpHostConfigured_def)

lemma shop_ours: "lookup_is_ours shop_lib"
  by (auto simp: lookup_is_ours_def shop_lib_def demo_lib_def shop_Do_def reply_def split: if_splits)

lemmas shop_defs = send_def io_simps shop_lib_def demo_lib_def shop_js_def demo_js_def shop_Do_def demo_client_def request_of_def api_url_def
  reply_def wrap_left_def list_response_def

lemma shop_list: "yields s (GetClusterByName shop_lib shop_js demo_client c ''n'') (if s = 0 then Inl ErrClusterNotFound else Inr shop_cluster) s"
  by (simp add: yields_def GetClusterByName_def ListClustersAPI_def decode_clusters_def shop_cluster_def demo_cluster_def shop_defs)

lemma shop_create: "yields s (createCluster shop_provider c ''n'') (Inr \<lparr>cs_Phase = [], cs_Message = [], cs_APIEndpoint = []\<rparr>) 1"
  by (simp add: yields_def createCluster_def shop_conf_def GetClusterTemplateByName_def ListClusterTemplates_def decode_list_def shop_template_def
      resolveTemplateVersionID_def resolveRegistry_def buildValues_def CreateClusterFromTemplate_def zero_cluster_def shop_defs)

lemma yields_loop: "yields s (body z) (Inl r) s' \<Longrightarrow> yields s (loop body z) r s'"
  unfolding yields_def by (metis loop_stop)

lemma shop_wait: "\<exists>x. yields 1 (WaitForClusterReady shop_lib shop_js demo_client c ''n'' d) (Inr x) 1"
proof -
  have ready: "mapStatusToPhase (cr_Status shop_cluster) = ClusterPhaseReady" by code_simp
  have "\<exists>x. yields 1 (wait_ready_body shop_lib shop_js demo_client c ''n'' d []) (Inl (Inr x)) 1"
    unfolding wait_ready_body_def
    by (rule exI, rule yields_bind, rule yields_call [where r = SelectTick and s' = 1], simp add: shop_lib_def demo_lib_def,
        simp only: select3.case, rule yields_bind [OF shop_list]) (simp add: ready, rule yields_ret)
  then obtain x where "yields 1 (wait_ready_body shop_lib shop_js demo_client c ''n'' d []) (Inl (Inr x)) 1" ..
  then have "yields 1 (loop (wait_ready_body shop_lib shop_js demo_client c ''n'' d) []) (Inr x) 1" by (rule yields_loop)
  then show ?thesis unfolding WaitForClusterReady_def ..
qed

lemma shop_master: "yields 1 (resolveMaster shop_provider c) (Inr (''10.0.0.1'', ''u'')) 1"
proof -
  have "yields 1 (GetClusterConnectionInfo shop_lib shop_js demo_client c ''n'') (Inr (connection_of shop_cluster ''kubeconfig'')) 1"
    unfolding GetClusterConnectionInfo_def io_try_def
    by (rule yields_bind [OF shop_list])
      (simp add: yields_def GetClusterKubeconfigByID_def kubeconfig_of_body_def trimSpace_def is_space_def hasPrefix_def shop_cluster_def demo_cluster_def
        shop_defs)
  moreover have "ci_SSHHost (connection_of shop_cluster ''kubeconfig'') = ''10.0.0.1''" "ci_SSHUser (connection_of shop_cluster ''kubeconfig'') = ''u''"
    by code_simp+
  ultimately show ?thesis unfolding resolveMaster_def io_try_def Let_def
    by simp (rule yields_bind, assumption, simp add: shop_conf_def yields_ret)
qed

lemma shop_discovery: "yields s (waitForModuleConfigAPI shop_provider c cfg d) None s"
  by (simp add: yields_def waitForModuleConfigAPI_def loop_stop discovery_round_def shop_provider_def servesModuleConfigs_def
      moduleConfigGroupVersion_def moduleConfigResource_def io_simps sample_rt_def Let_def)


abbreviation shop_creds :: commander_creds where "shop_creds \<equiv> \<lparr>cd_SSHKey = ''KEY'', cd_JumpKey = []\<rparr>"

definition shop_cleanup :: "(nat, unit) act" where
  "shop_cleanup = runCleanups [ignore_err (client_Close (cp_ssh shop_provider) (cmd_hops shop_provider shop_creds ''10.0.0.1'' ''u'')),
     ignore_err (tunnel_Close (cp_ssh shop_provider) (cmd_hops shop_provider shop_creds ''10.0.0.1'' ''u''))]"

abbreviation shop_config :: "unit rest_config" where
  "shop_config \<equiv> configureTunnelTimeouts \<lparr>rc_base = (), WrapTransport = None\<rparr>"

lemma shop_connect:
  "yields 1 (connector_Connect shop_provider shop_creds c) (Inr (shop_config, shop_cleanup)) 1" "yields s shop_cleanup () s"
proof -
  let ?hops = "cmd_hops shop_provider shop_creds ''10.0.0.1'' ''u''" and ?ssh = "cp_ssh shop_provider"
  have dial: "yields s (cmd_buildSSHClient shop_provider shop_creds c ''10.0.0.1'' ''u'') None s" for s
    unfolding cmd_buildSSHClient_def Let_def
    by (rule yields_bind [where x = None])
      (simp_all add: yields_def NewWithRetry_def loop_stop retry_connect_def ssh_New_def io_simps shop_provider_def sample_ssh_def)
  have fetch: "yields s (FetchKubeconfig c (\<lambda>c cmd. call (Exec ''10.0.0.1'' cmd) (sl_Exec ?ssh ?hops c cmd))) (Inr ''kubeconfig'') s" for s
    by (simp add: yields_def FetchKubeconfig_def io_simps shop_provider_def)
  have tunnel: "yields s (TunnelRestConfig ?ssh (cp_clientcmd shop_provider) c ?hops ''kubeconfig'' port) (Inr (shop_config, tunnel_Close ?ssh ?hops)) s" for s port
    by (simp add: yields_def TunnelRestConfig_def OpenTunnel_def io_simps shop_provider_def sample_ssh_def sample_connector_def BuildRestConfig_def
        buildRestConfig_def)
  show "yields 1 (connector_Connect shop_provider shop_creds c) (Inr (shop_config, shop_cleanup)) 1"
    unfolding connector_Connect_def Let_def
    by (rule yields_bind [OF shop_master], simp only: sum.case prod.case, rule yields_bind [OF dial], simp only: option.case,
        rule yields_bind [OF fetch], simp only: sum.case, rule yields_bind [OF tunnel]) (simp only: sum.case prod.case shop_cleanup_def yields_ret)
  show "yields s shop_cleanup () s" for s
    by (simp add: yields_def shop_cleanup_def runCleanups_def ignore_err_def client_Close_def tunnel_Close_def io_simps shop_provider_def sample_ssh_def)
qed

lemma shop_enable: "yields 1 (cmd_enableModules shop_provider c) None 1"
proof -
  have two: "Modules (DKPParameters sample_cluster) = sample_two" "RegistryRepo (DKPParameters sample_cluster) = ''r''"
    by (simp_all add: sample_cluster_def sample_two_def sample_def_tmp_def)
  have order: "cp_order shop_provider = (\<lambda>_ _. 0)" by (simp add: shop_provider_def)
  have "yields 1 (enable_on shop_provider c sample_cluster cfg) None 1" for cfg
    unfolding enable_on_def shop_sels two order
    by (rule yields_bind [OF shop_discovery], simp only: option.case, rule yields_bind [OF sample_run]) (simp add: yields_ret)
  then show ?thesis unfolding cmd_enableModules_def Let_def shop_sels sum.case
    by (intro yields_bind [OF shop_connect(1)]) (simp only: sum.case prod.case, rule yields_finally [OF _ shop_connect(2)])
qed

lemma shop_bootstrap: "yields 0 (cmd_Bootstrap shop_provider c) None 1"
proof -
  have ensure: "yields 0 (ensure_cluster shop_provider c ''n'') (Inr \<lparr>cs_Phase = [], cs_Message = [], cs_APIEndpoint = []\<rparr>) 1"
    unfolding ensure_cluster_def GetCluster_def io_try_def shop_sels
    by (rule yields_bind, rule yields_bind [OF shop_list], simp, rule yields_ret, simp add: errors_is_def ErrClusterNotFound_def,
        rule yields_bind [OF shop_create]) (simp add: yields_ret)
  obtain x where "yields 1 (WaitForClusterReady shop_lib shop_js demo_client c ''n'' (cf_WaitTimeout shop_conf)) (Inr x) 1" using shop_wait by blast
  then show ?thesis unfolding cmd_Bootstrap_def Let_def shop_sels
    by (intro yields_bind [OF ensure]) (simp add: ClusterPhaseReady_def, rule yields_bind, assumption, simp add: shop_enable [simplified])
qed


theorem commander_bootstrap_witness:
  "lookup_is_ours (cp_http shop_provider) \<and> (\<forall>cfg. api_names (ka_deckhouse (cp_api shop_provider cfg))) \<and>
   cp_loadDefinition shop_provider (cc_ClusterBootstrapConfigPath (cp_cfg shop_provider)) = Inr sample_cluster \<and>
   distinct (map mc_Name (present (Modules (DKPParameters sample_cluster)))) \<and>
   (\<exists>a b. cmd_Bootstrap shop_provider CtxRoot \<lparr>tr = [], est = 0\<rparr> = Some (None, \<lparr>tr = a @ b, est = 1\<rparr>) \<and>
     created_once shop_provider ''n'' a \<and> list_ex (shown_ready shop_provider ''n'') a \<and>
     modules_ordered ''Ready'' sample_cluster b \<and> modules_done ''Ready'' sample_cluster b)"
proof -
  obtain u where run: "cmd_Bootstrap shop_provider CtxRoot \<lparr>tr = [], est = 0\<rparr> = Some (None, \<lparr>tr = u, est = 1\<rparr>)"
    using shop_bootstrap [of CtxRoot] unfolding yields_def by (metis append_Nil)
  have ours: "lookup_is_ours (cp_http shop_provider)" using shop_ours by simp
  have names: "\<And>cfg. api_names (ka_deckhouse (cp_api shop_provider cfg))" by (simp add: api_names_def sample_deckhouse_def)
  have def: "cp_loadDefinition shop_provider (cc_ClusterBootstrapConfigPath (cp_cfg shop_provider)) = Inr sample_cluster" by simp
  have dist: "distinct (map mc_Name (present (Modules (DKPParameters sample_cluster))))" by code_simp
  from commander_bootstrap [OF ours names def dist run] obtain a b where "u = a @ b" "created_once shop_provider ''n'' a"
    "list_ex (shown_ready shop_provider ''n'') a" "modules_ordered ''Ready'' sample_cluster b" "modules_done ''Ready'' sample_cluster b"
    unfolding shop_sels sample_deckhouse_sels world.select_convs append_Nil by blast
  with ours names def dist run show ?thesis by blast
qed

end
