(* ===== verification/Suite.thy ===== *)
theory Suite
  imports Lease_Lock Provider Commander_Provider
begin

text \<open>
  The entry points: \<^verbatim>\<open>pkg/e2e\<close> (\<^verbatim>\<open>Connect\<close>, the \<^verbatim>\<open>Cluster\<close> handle and its \<^verbatim>\<open>Close\<close>, the
  health check), the \<^verbatim>\<open>Provider\<close> interface and the \<^verbatim>\<open>Cluster\<close> it returns of
  \<^verbatim>\<open>pkg/clusterprovider\<close>, the registry of providers, and the two commands that bootstrap and remove
  a cluster. A pointer or interface that may be nil is an option; calling a nil function is a panic.
\<close>

section \<open>The provider interface\<close>

definition ErrConnectUnsupported :: goerr where
  "ErrConnectUnsupported = ErrSentinel ''cluster provider does not support connecting to the test cluster''"

text \<open>\<^verbatim>\<open>clusterprovider.DiskManager\<close> and \<^verbatim>\<open>clusterprovider.NodeExecutor\<close>.\<close>

record 'e disk_ops =
  do_CreateDisk :: "ctx \<Rightarrow> disk_spec \<Rightarrow> ('e, goerr + disk) act"
  do_DeleteDisk :: "ctx \<Rightarrow> string \<Rightarrow> ('e, goerr option) act"
  do_AttachDisk :: "ctx \<Rightarrow> string \<Rightarrow> string \<Rightarrow> ('e, goerr option) act"
  do_DetachDisk :: "ctx \<Rightarrow> string \<Rightarrow> string \<Rightarrow> ('e, goerr option) act"
  do_ResizeDisk :: "ctx \<Rightarrow> string \<Rightarrow> quantity \<Rightarrow> ('e, goerr option) act"

type_synonym 'e node_executor = "ctx \<Rightarrow> string \<Rightarrow> string \<Rightarrow> ('e, exec_result \<times> goerr option) act"

record ('e, 'c) cp_cluster =
  cl_RESTConfig :: "'c rest_config option"
  cl_Nodes :: "'e node_executor option"
  cl_Disks :: "'e disk_ops option"
  cl_Cleanup :: "('e, unit) act option"

record ('e, 'c) cluster_provider =
  pv_Name :: string
  pv_Bootstrap :: "ctx \<Rightarrow> ('e, goerr option) act"
  pv_Remove :: "ctx \<Rightarrow> ('e, goerr option) act"
  pv_ConnectTestCluster :: "ctx \<Rightarrow> ('e, goerr + ('e, 'c) cp_cluster) act"

text \<open>The two providers as values of the interface.\<close>

definition dvp_disk_ops :: "'e dvp_disk_manager \<Rightarrow> 'e disk_ops" where
  "dvp_disk_ops m = \<lparr>do_CreateDisk = CreateDisk m, do_DeleteDisk = DeleteDisk m, do_AttachDisk = AttachDisk m,
     do_DetachDisk = DetachDisk m, do_ResizeDisk = ResizeDisk m\<rparr>"

definition dvp_cluster :: "('e, 'c) test_cluster \<times> ('e, unit) act \<Rightarrow> ('e, 'c) cp_cluster" where
  "dvp_cluster = (\<lambda>(tc, cleanup). \<lparr>cl_RESTConfig = Some (tc_RESTConfig tc), cl_Nodes = Some (tc_Exec tc),
     cl_Disks = Some (dvp_disk_ops (tc_Disks tc)), cl_Cleanup = Some cleanup\<rparr>)"

definition dvp_as_provider :: "('e, 'a, 'c, 'k) provider \<Rightarrow> ('e, 'c) cluster_provider" where
  "dvp_as_provider p = \<lparr>pv_Name = ModeDVP, pv_Bootstrap = Bootstrap p, pv_Remove = Remove p,
     pv_ConnectTestCluster = (\<lambda>c. io_bind (ConnectTestCluster p c) (\<lambda>r. io_ret (map_sum id dvp_cluster r)))\<rparr>"

definition commander_cluster :: "('e, 'c) commander_test_cluster \<times> ('e, unit) act \<Rightarrow> ('e, 'c) cp_cluster" where
  "commander_cluster = (\<lambda>(kt, cleanup). \<lparr>cl_RESTConfig = Some (kt_RESTConfig kt), cl_Nodes = Some (kt_Exec kt),
     cl_Disks = None, cl_Cleanup = Some cleanup\<rparr>)"

definition commander_as_provider :: "('e, 'a, 'c) commander_provider \<Rightarrow> ('e, 'c) cluster_provider" where
  "commander_as_provider p = \<lparr>pv_Name = ModeCommander, pv_Bootstrap = cmd_Bootstrap p, pv_Remove = cmd_Remove p,
     pv_ConnectTestCluster = (\<lambda>c. io_bind (cmd_ConnectTestCluster p c) (\<lambda>r. io_ret (map_sum id commander_cluster r)))\<rparr>"

section \<open>The registry\<close>

text \<open>
  \<^verbatim>\<open>Registry\<close>: the map of constructors; its mutex makes each operation atomic.
\<close>

type_synonym ('e, 'c) constructor = "cluster_config \<Rightarrow> goerr + ('e, 'c) cluster_provider"
type_synonym ('e, 'c) registry = "string \<rightharpoonup> ('e, 'c) constructor"

definition NewRegistry :: "('e, 'c) constructor \<Rightarrow> ('e, 'c) constructor \<Rightarrow> ('e, 'c) registry" where
  "NewRegistry newDVPProvider newCommanderProvider =
     [ModeDVP \<mapsto> newDVPProvider, ModeCommander \<mapsto> newCommanderProvider]"

definition Register :: "('e, 'c) registry \<Rightarrow> string \<Rightarrow> ('e, 'c) constructor \<Rightarrow> ('e, 'c) registry" where
  "Register r name c = r(name \<mapsto> c)"

definition registry_Get :: "('e, 'c) registry \<Rightarrow> string \<Rightarrow> goerr + ('e, 'c) constructor" where
  "registry_Get r name = (case r (mode_String name) of
     None \<Rightarrow> Inl (ErrText (''provider '' @ go_quote name @ '' is not registered''))
   | Some c \<Rightarrow> Inr c)"

text \<open>The constructors of the built-in providers, with what they read of the process.\<close>

definition dvp_constructor ::
  "((string \<rightharpoonup> string) \<Rightarrow> goerr + dvp_config) \<Rightarrow> (string \<rightharpoonup> string) \<Rightarrow> os_env
   \<Rightarrow> ('e, 'a, 'c, 'k) provider \<Rightarrow> ('e, 'c) constructor" where
  "dvp_constructor parse environ os base cfg =
     map_sum id dvp_as_provider (NewDVPProvider parse environ os (base\<lparr>dp_cfg := cfg\<rparr>))"

definition commander_constructor ::
  "(goerr + commander_config) \<Rightarrow> ('e, 'a, 'c) commander_provider \<Rightarrow> ('e, 'c) constructor" where
  "commander_constructor parsed base cfg =
     map_sum id commander_as_provider (NewCommanderProvider parsed (base\<lparr>cp_cfg := cfg\<rparr>))"

section \<open>Options\<close>

definition defaultHealthCheckTimeout :: int where "defaultHealthCheckTimeout = 10 * minute"
definition healthCheckPollInterval :: int where "healthCheckPollInterval = 5 * second"

record connect_options =
  co_testName :: string
  co_acquireLock :: bool
  co_healthCheck :: bool
  co_healthCheckTimeout :: int

type_synonym connect_option = "connect_options \<Rightarrow> connect_options"

definition WithTestName :: "string \<Rightarrow> connect_option" where "WithTestName name opts = opts\<lparr>co_testName := name\<rparr>"
definition WithoutLock :: connect_option where "WithoutLock opts = opts\<lparr>co_acquireLock := False\<rparr>"
definition WithoutHealthCheck :: connect_option where "WithoutHealthCheck opts = opts\<lparr>co_healthCheck := False\<rparr>"
definition WithHealthCheckTimeout :: "int \<Rightarrow> connect_option" where
  "WithHealthCheckTimeout d opts = opts\<lparr>co_healthCheckTimeout := d\<rparr>"

text \<open>\<^verbatim>\<open>filepath.Base\<close>.\<close>

definition filepath_Base :: "string \<Rightarrow> string" where
  "filepath_Base path = (if path = [] then ''.'' else
     let q = trimRight (CHR ''/'') path in if q = [] then ''/'' else last (split_on (CHR ''/'') q))"

definition newConnectOptions :: "string \<Rightarrow> connect_option list \<Rightarrow> connect_options" where
  "newConnectOptions arg0 opts = fold (\<lambda>opt. opt) opts
     \<lparr>co_testName = filepath_Base arg0, co_acquireLock = True, co_healthCheck = True,
      co_healthCheckTimeout = defaultHealthCheckTimeout\<rparr>"

section \<open>The health check\<close>

text \<open>
  \<^verbatim>\<open>health.go\<close> repeats the check of the dvp installation (\<^verbatim>\<open>checkClusterHealth\<close> is
  \<^verbatim>\<open>checkHealth\<close> there, line by line), but passes the bounded context to it.
\<close>

abbreviation checkClusterHealth :: "'e kube_api \<Rightarrow> ctx \<Rightarrow> ('e, goerr option) act" where
  "checkClusterHealth \<equiv> checkHealthClient"

definition healthy_body ::
  "'e runtime \<Rightarrow> 'e kube_api \<Rightarrow> ctx \<Rightarrow> int \<Rightarrow> goerr \<Rightarrow> ('e, goerr option + goerr) act" where
  "healthy_body rt cs c timeout lastErr =
     io_bind (waitFor rt c healthCheckPollInterval) (\<lambda>d. case d of
       Some ctxe \<Rightarrow> io_ret (Inl (Some (ErrWrap2
         (''waiting for cluster to become healthy within '' @ dur_str timeout @ '': '') ctxe '' (last check: '' lastErr '')'')))
     | None \<Rightarrow> io_bind (checkClusterHealth cs c) (\<lambda>e. io_ret (case e of
         None \<Rightarrow> Inl None
       | Some err \<Rightarrow> Inr err)))"

definition e2e_waitClusterHealthy :: "'e runtime \<Rightarrow> 'e kube_api \<Rightarrow> ctx \<Rightarrow> int \<Rightarrow> ('e, goerr option) act" where
  "e2e_waitClusterHealthy rt cs c0 timeout =
     (let c = CtxTimeout c0 timeout in
      io_bind (checkClusterHealth cs c) (\<lambda>e. case e of
        None \<Rightarrow> io_ret None
      | Some lastErr \<Rightarrow> loop (healthy_body rt cs c timeout) lastErr))"

section \<open>The cluster handle\<close>

text \<open>
  What a \<^verbatim>\<open>rest.Config\<close> gives access to, and the process. \<open>ec_closed\<close> says that \<^verbatim>\<open>closeOnce\<close> has run.
\<close>

record ('e, 'c) suite_env =
  su_rt :: "'e runtime"
  su_os :: Lease_Lock.os_env
  su_api :: "'c rest_config \<Rightarrow> 'e kube_api"
  su_leases :: "'c rest_config \<Rightarrow> 'e lease_api"

record ('e, 'c) e2e_cluster =
  ec_provider :: string
  ec_conn :: "('e, 'c) cp_cluster"
  ec_clientset :: "'e kube_api"
  ec_dynamic :: "'e kube_api"
  ec_lock :: "(lease_lock \<times> 'e lease_api) option"
  ec_closed :: bool
  ec_closeErr :: "goerr option"

definition unsupportedDiskManager :: "string \<Rightarrow> 'e disk_ops" where
  "unsupportedDiskManager u = \<lparr>do_CreateDisk = unsupported_CreateDisk u, do_DeleteDisk = unsupported_DeleteDisk u,
     do_AttachDisk = unsupported_AttachDisk u, do_DetachDisk = unsupported_DetachDisk u, do_ResizeDisk = unsupported_ResizeDisk u\<rparr>"

text \<open>
  \<^verbatim>\<open>newCluster\<close> fills in the defaults through the pointer it was given, so the connection it leaves is part of
  its result.
\<close>

definition newCluster ::
  "('e, 'c) suite_env \<Rightarrow> string \<Rightarrow> ('e, 'c) cp_cluster \<Rightarrow> ('e, (goerr + ('e, 'c) e2e_cluster) \<times> ('e, 'c) cp_cluster) act" where
  "newCluster env provider conn0 = (case cl_RESTConfig conn0 of
     None \<Rightarrow> io_ret (Inl (ErrText (''provider '' @ go_quote provider @ '' returned a cluster without a rest.Config'')), conn0)
   | Some cfg \<Rightarrow> if cl_Nodes conn0 = None
     then io_ret (Inl (ErrText (''provider '' @ go_quote provider @ '' returned a cluster without a NodeExecutor'')), conn0)
     else let conn1 = (if cl_Cleanup conn0 = None then conn0\<lparr>cl_Cleanup := Some (io_ret ())\<rparr> else conn0);
              conn = (if cl_Disks conn1 = None then conn1\<lparr>cl_Disks := Some (unsupportedDiskManager provider)\<rparr> else conn1);
              api = su_api env cfg in
     io_bind (call (Opened ''clientset'') (ka_newForConfig api)) (\<lambda>e. case e of
       Some err \<Rightarrow> io_ret (Inl (wrapf (''provider '' @ go_quote provider @ '': build clientset: '') err), conn)
     | None \<Rightarrow> io_bind (call (Opened ''dynamic client'') (ka_newDynamic api)) (\<lambda>e. case e of
         Some err \<Rightarrow> io_ret (Inl (wrapf (''provider '' @ go_quote provider @ '': build dynamic client: '') err), conn)
       | None \<Rightarrow> io_ret (Inr \<lparr>ec_provider = provider, ec_conn = conn, ec_clientset = api, ec_dynamic = api,
           ec_lock = None, ec_closed = False, ec_closeErr = None\<rparr>, conn))))"

definition nil_call_panic :: goerr where
  "nil_call_panic = ErrText ''panic: runtime error: invalid memory address or nil pointer dereference''"

definition run_Cleanup :: "('e, 'c) cp_cluster \<Rightarrow> ('e, goerr option) act" where
  "run_Cleanup conn = (case cl_Cleanup conn of
     None \<Rightarrow> io_ret (Some nil_call_panic)
   | Some f \<Rightarrow> io_bind f (\<lambda>_. io_ret None))"

text \<open>\<^verbatim>\<open>conn.Cleanup(); return nil, err\<close>.\<close>

definition abandon :: "('e, 'c) cp_cluster \<Rightarrow> goerr \<Rightarrow> ('e, goerr + 'x) act" where
  "abandon conn err = io_bind (run_Cleanup conn) (\<lambda>p. io_ret (Inl (case p of None \<Rightarrow> err | Some panic \<Rightarrow> panic)))"

text \<open>\<^verbatim>\<open>clusterlock.AcquireLease\<close>. The lock keeps the clientset it was acquired with.\<close>

definition AcquireLease ::
  "('e, 'c) suite_env \<Rightarrow> ctx \<Rightarrow> 'c rest_config option \<Rightarrow> string \<Rightarrow> ('e, goerr + (lease_lock \<times> 'e lease_api)) act" where
  "AcquireLease env c kubeconfig testName = (case kubeconfig of
     None \<Rightarrow> io_ret (Inl nil_call_panic)
   | Some cfg \<Rightarrow> io_bind (NewClientsetWithRetry (su_rt env) (su_api env cfg) c) (\<lambda>e. case e of
       Some err \<Rightarrow> io_ret (Inl (wrapf ''failed to create kubernetes clientset: '' err))
     | None \<Rightarrow> io_bind (acquireLease (su_os env) (su_rt env) (su_leases env cfg) c testName DefaultLeaseDuration)
         (\<lambda>r. io_ret (map_sum id (\<lambda>lock. (lock, su_leases env cfg)) r))))"

text \<open>
  The second half of \<^verbatim>\<open>connectWithProvider\<close>, on the cluster that \<^verbatim>\<open>newCluster\<close> has built; \<^verbatim>\<open>conn\<close> is the connection it
  points to.
\<close>

definition health_and_lock ::
  "('e, 'c) suite_env \<Rightarrow> ctx \<Rightarrow> connect_options \<Rightarrow> ('e, 'c) e2e_cluster \<Rightarrow> ('e, goerr + ('e, 'c) e2e_cluster) act" where
  "health_and_lock env c opts cluster = (let conn = ec_conn cluster in
     io_bind (if co_healthCheck opts
              then e2e_waitClusterHealthy (su_rt env) (ec_clientset cluster) c (co_healthCheckTimeout opts)
              else io_ret None) (\<lambda>h. case h of
       Some err \<Rightarrow> abandon conn (wrapf ''cluster health check: '' err)
     | None \<Rightarrow> if co_acquireLock opts
         then io_bind (AcquireLease env c (cl_RESTConfig conn) (co_testName opts)) (\<lambda>l. case l of
           Inl err \<Rightarrow> abandon conn err
         | Inr lock \<Rightarrow> io_ret (Inr (cluster\<lparr>ec_lock := Some lock\<rparr>)))
         else io_ret (Inr cluster)))"

definition connectWithProvider ::
  "('e, 'c) suite_env \<Rightarrow> ctx \<Rightarrow> ('e, 'c) cluster_provider \<Rightarrow> connect_options \<Rightarrow> ('e, goerr + ('e, 'c) e2e_cluster) act" where
  "connectWithProvider env c provider opts =
     io_bind (pv_ConnectTestCluster provider c) (\<lambda>r. case r of
       Inl err \<Rightarrow> io_ret (Inl (wrapf (''connect test cluster on provider '' @ go_quote (pv_Name provider) @ '': '') err))
     | Inr conn0 \<Rightarrow>
     io_bind (newCluster env (pv_Name provider) conn0) (\<lambda>(r, conn). case r of
       Inl err \<Rightarrow> abandon conn err
     | Inr cluster \<Rightarrow> health_and_lock env c opts cluster))"

definition e2e_Connect ::
  "('e, 'c) suite_env \<Rightarrow> ((string \<Rightarrow> goerr option \<times> string) \<Rightarrow> goerr + cluster_config) \<Rightarrow> ('e, 'c) registry
   \<Rightarrow> string \<Rightarrow> ctx \<Rightarrow> connect_option list \<Rightarrow> ('e, goerr + ('e, 'c) e2e_cluster) act" where
  "e2e_Connect env parse defaultRegistry arg0 c opts = (case NewClusterConfig parse of
     Inl err \<Rightarrow> io_ret (Inl (wrapf ''read cluster provider config: '' err))
   | Inr cfg \<Rightarrow> (case registry_Get defaultRegistry (cc_ClusterProvider cfg) of
       Inl err \<Rightarrow> io_ret (Inl err)
     | Inr newProvider \<Rightarrow> (case newProvider cfg of
         Inl err \<Rightarrow> io_ret (Inl (wrapf (''build provider '' @ go_quote (cc_ClusterProvider cfg) @ '': '') err))
       | Inr provider \<Rightarrow> connectWithProvider env c provider (newConnectOptions arg0 opts))))"

definition e2e_Close :: "'e runtime \<Rightarrow> ctx \<Rightarrow> ('e, 'c) e2e_cluster \<Rightarrow> ('e, goerr option \<times> ('e, 'c) e2e_cluster) act" where
  "e2e_Close rt c cl = (if ec_closed cl then io_ret (ec_closeErr cl, cl)
     else io_bind (case ec_lock cl of
         None \<Rightarrow> io_ret (ec_closeErr cl, None)
       | Some (lock, api) \<Rightarrow> io_bind (Release rt api c lock) (\<lambda>(err, lock'). io_ret (err, Some (lock', api)))) (\<lambda>(err, lock').
       io_bind (run_Cleanup (ec_conn cl)) (\<lambda>p.
         io_ret (case p of Some panic \<Rightarrow> Some panic | None \<Rightarrow> err,
                 cl\<lparr>ec_lock := lock', ec_closed := True, ec_closeErr := err\<rparr>))))"

section \<open>The commands\<close>

text \<open>
  \<^verbatim>\<open>cmd/bootstrap-cluster\<close> and \<^verbatim>\<open>cmd/remove-cluster\<close>; \<^verbatim>\<open>log.Fatalf\<close> is the error the command ends with.
\<close>

definition with_provider ::
  "((string \<Rightarrow> goerr option \<times> string) \<Rightarrow> goerr + cluster_config) \<Rightarrow> ('e, 'c) registry
   \<Rightarrow> (('e, 'c) cluster_provider \<Rightarrow> ('e, goerr option) act) \<Rightarrow> ('e, goerr option) act" where
  "with_provider parse defaultRegistry run = (case NewClusterConfig parse of
     Inl err \<Rightarrow> io_ret (Some (wrapf ''failed to initialize config: '' err))
   | Inr cfg \<Rightarrow> (case registry_Get defaultRegistry (cc_ClusterProvider cfg) of
       Inl err \<Rightarrow> io_ret (Some (wrapf ''failed to get provider: '' err))
     | Inr newProvider \<Rightarrow> (case newProvider cfg of
         Inl err \<Rightarrow> io_ret (Some (wrapf ''failed to build provider: '' err))
       | Inr provider \<Rightarrow> run provider)))"

definition bootstrap_main ::
  "((string \<Rightarrow> goerr option \<times> string) \<Rightarrow> goerr + cluster_config) \<Rightarrow> ('e, 'c) registry \<Rightarrow> ('e, goerr option) act" where
  "bootstrap_main parse defaultRegistry = with_provider parse defaultRegistry (\<lambda>provider.
     io_bind (pv_Bootstrap provider (CtxTimeout CtxRoot (75 * minute))) (\<lambda>e.
       io_ret (map_option (wrapf ''failed to bootstrap cluster: '') e)))"

definition remove_main ::
  "((string \<Rightarrow> goerr option \<times> string) \<Rightarrow> goerr + cluster_config) \<Rightarrow> ('e, 'c) registry \<Rightarrow> ('e, goerr option) act" where
  "remove_main parse defaultRegistry = with_provider parse defaultRegistry (\<lambda>provider.
     io_bind (pv_Remove provider (CtxTimeout CtxRoot (30 * minute))) (\<lambda>e.
       io_ret (map_option (wrapf ''failed to tear down cluster: '') e)))"

section \<open>What connecting hands out\<close>

text \<open>
  \<open>hands_out P m\<close>: a function that returns a clean-up function makes only calls of the kind \<open>P\<close>, and so
  does the clean-up function.
\<close>

definition hands_out :: "(event \<Rightarrow> bool) \<Rightarrow> ('e, goerr + 'x \<times> ('e, 'y) act) act \<Rightarrow> bool" where
  "hands_out P m \<longleftrightarrow> (\<forall>w r w'. m w = Some (r, w') \<longrightarrow>
     (\<exists>t. tr w' = tr w @ t \<and> list_all P t) \<and> (\<forall>x cl. r = Inr (x, cl) \<longrightarrow> only_calls P cl))"

lemma hands_outI:
  "only_calls P m \<Longrightarrow> (\<And>w x cl w'. m w = Some (Inr (x, cl), w') \<Longrightarrow> only_calls P cl) \<Longrightarrow> hands_out P m"
  by (auto simp: hands_out_def only_calls_def)

lemma hands_outD:
  "hands_out P m \<Longrightarrow> m w = Some (r, w') \<Longrightarrow> \<exists>t. tr w' = tr w @ t \<and> list_all P t"
  "hands_out P m \<Longrightarrow> m w = Some (Inr (x, cl), w') \<Longrightarrow> only_calls P cl"
  by (auto simp: hands_out_def)

lemma hands_out_ret: "(\<And>x cl. r = Inr (x, cl) \<Longrightarrow> only_calls P cl) \<Longrightarrow> hands_out P (io_ret r)"
  by (auto simp: hands_out_def io_ret_apply)

lemma hands_out_bind:
  assumes m: "only_calls P m" and k: "\<And>x. hands_out P (k x)"
  shows "hands_out P (io_bind m k)"
proof (rule hands_outI)
  show "only_calls P (io_bind m k)"
    using k by (intro only_calls_bind m) (auto simp: hands_out_def only_calls_def)
  fix w x cl w'
  assume "io_bind m k w = Some (Inr (x, cl), w')"
  then show "only_calls P cl" using k unfolding hands_out_def io_bind_apply by (auto split: option.splits)
qed

lemma hands_out_use:
  assumes m: "hands_out P m" and k: "\<And>r. (\<And>x cl. r = Inr (x, cl) \<Longrightarrow> only_calls P cl) \<Longrightarrow> hands_out P (k r)"
  shows "hands_out P (io_bind m k)"
  unfolding hands_out_def
proof (intro allI impI)
  fix w r w'
  assume "io_bind m k w = Some (r, w')"
  then obtain r1 w1 where r1: "m w = Some (r1, w1)" and r: "k r1 w1 = Some (r, w')"
    by (auto simp: io_bind_apply split: option.splits)
  have cl: "only_calls P cl" if "r1 = Inr (x, cl)" for x cl using hands_outD(2) [OF m] r1 that by simp
  then have k1: "hands_out P (k r1)" by (rule k)
  obtain t u where "tr w1 = tr w @ t" "list_all P t" "tr w' = tr w1 @ u" "list_all P u"
    using hands_outD(1) [OF m r1] hands_outD(1) [OF k1 r] by blast
  moreover have "only_calls P cl" if "r = Inr (x, cl)" for x cl using hands_outD(2) [OF k1] r that by simp
  ultimately show "(\<exists>t. tr w' = tr w @ t \<and> list_all P t) \<and> (\<forall>x cl. r = Inr (x, cl) \<longrightarrow> only_calls P cl)" by simp
qed

definition lockless :: "event \<Rightarrow> bool" where
  "lockless ev = (case ev of LeaseGet _ \<Rightarrow> False | LeaseCreate _ _ \<Rightarrow> False | LeaseUpdate _ _ \<Rightarrow> False
     | LeaseDelete _ _ \<Rightarrow> False | _ \<Rightarrow> True)"

lemma lockless_simps [simp]:
  "lockless (Waited c d)" "lockless (Opened n r)" "lockless (Closed n)" "lockless (Exec ip cmd x)" "lockless (KubeOp what args e)"
  "lockless (VMGet ns n m)" "lockless (NodesList ns')" "lockless (DeploymentGet a b x')"
  "\<not> lockless (LeaseGet g)" "\<not> lockless (LeaseCreate l e)" "\<not> lockless (LeaseUpdate l e)" "\<not> lockless (LeaseDelete u e)"
  by (simp_all add: lockless_def)

lemma get_lockless: "get_event ev \<Longrightarrow> lockless ev"
  by (cases ev) (auto simp: get_event_def lockless_def)

lemma close_lockless [calls_intros]:
  "only_calls lockless (client_Close ssh hops)" "only_calls lockless (tunnel_Close ssh hops)"
  unfolding client_Close_def tunnel_Close_def by (intro calls_intros; simp)+

lemma client_lockless [calls_intros]:
  "only_calls lockless (NewWithRetry ssh c hops every timeout opts)" "only_calls lockless (OpenTunnel ssh hops c port)"
  "only_calls lockless (ssh_New ssh c hops opts)"
  unfolding NewWithRetry_def retry_connect_def ssh_New_def OpenTunnel_def by (intro calls_intros; simp)+

lemma ignore_lockless [calls_intros]: "only_calls P m \<Longrightarrow> only_calls P (ignore_err m)"
  unfolding ignore_err_def by (intro calls_intros)

lemma tunnel_lockless [calls_intros]: "only_calls lockless (TunnelRestConfig ssh cc c hops k port)"
  unfolding TunnelRestConfig_def by (intro calls_intros)

text \<open>A tunnel and the client it runs over, as both connectors hand them out.\<close>

lemma tunnel_hands_out:
  "hands_out lockless (io_bind (TunnelRestConfig ssh cc c hops k port) (\<lambda>r. case r of
      Inl err \<Rightarrow> io_bind (runCleanups [ignore_err (client_Close ssh hops')]) (\<lambda>_. io_ret (Inl err))
    | Inr (restConfig, closeTunnel) \<Rightarrow>
        io_ret (Inr (restConfig, runCleanups [ignore_err (client_Close ssh hops'), ignore_err closeTunnel]))))"
proof (rule hands_outI)
  let ?k = "\<lambda>r. case r of
      Inl err \<Rightarrow> io_bind (runCleanups [ignore_err (client_Close ssh hops')]) (\<lambda>_. io_ret (Inl err))
    | Inr (restConfig, closeTunnel) \<Rightarrow>
        io_ret (Inr (restConfig, runCleanups [ignore_err (client_Close ssh hops'), ignore_err closeTunnel]))"
  show "only_calls lockless (io_bind (TunnelRestConfig ssh cc c hops k port) ?k)"
    by (intro calls_intros run_cleanups_calls) (auto intro!: calls_intros split: prod.splits)
  fix w x cl w'
  assume "io_bind (TunnelRestConfig ssh cc c hops k port) ?k w = Some (Inr (x, cl), w')"
  then obtain ct w1 where "TunnelRestConfig ssh cc c hops k port w = Some (Inr (x, ct), w1)"
    and "cl = runCleanups [ignore_err (client_Close ssh hops'), ignore_err ct]"
    by (auto simp: io_simps split: option.splits sum.splits)
  then show "only_calls lockless cl"
    using tunnel_close [of ssh cc c hops k port w x ct w1] by (auto intro!: run_cleanups_calls calls_intros)
qed

lemma Connect_lockless: "hands_out lockless (Connect cn c)"
proof -
  have "hands_out lockless (connect_tunnel cn c)"
    unfolding connect_tunnel_def Let_def buildSSHClient_def
    by (rule hands_out_bind, intro calls_intros)
      (auto intro: hands_out_ret tunnel_hands_out split: option.splits)
  moreover have "only_calls lockless (DirectReachable api c)" for api
    unfolding DirectReachable_def by (intro calls_intros; simp)
  ultimately show ?thesis
    unfolding Connect_def by (auto intro!: hands_out_bind hands_out_ret calls_intros split: sum.splits)
qed

lemma vm_tunnel_lockless: "hands_out lockless (openTunnelToVM cn c ip port)"
  unfolding openTunnelToVM_def connect_vm_def Let_def
  by (rule hands_out_bind; (intro calls_intros)?)
    (auto intro!: hands_out_bind hands_out_ret calls_intros split: sum.splits option.splits)

lemma connectToMaster_lockless: "hands_out lockless (connectToMaster cn c ip)"
  unfolding connectToMaster_def VMExecutor_def connect_vm_def FetchKubeconfig_def Let_def io_bind_assoc io_bind_ret_left
  by (rule hands_out_bind; (intro calls_intros)?)
    (auto intro!: hands_out_bind hands_out_use [OF vm_tunnel_lockless] hands_out_ret calls_intros
      split: sum.splits option.splits prod.splits)

lemma resolveMaster_lockless: "only_calls lockless (resolveMaster p c)"
  by (rule only_calls_mono [OF resolveMaster_get get_lockless])

lemma connector_lockless: "hands_out lockless (connector_Connect p creds c)"
  unfolding connector_Connect_def Let_def cmd_buildSSHClient_def FetchKubeconfig_def
  by (rule hands_out_bind [OF resolveMaster_lockless])
    (auto intro!: tunnel_hands_out hands_out_bind calls_intros hands_out_ret run_cleanups_calls split: sum.splits option.splits prod.splits)

lemma dvp_connect_lockless: "hands_out lockless (ConnectTestCluster p c)"
proof -
  have virt: "only_calls lockless (virt_New p c' kube)" for c' kube
    unfolding virt_New_def virt_NewClient_def by (intro calls_intros; simp)
  have ip: "only_calls lockless (vmIP_Resolve vc ns c' host)" for vc ns c' host
    unfolding vmIP_Resolve_def VM_Get_def by (intro calls_intros; simp)
  have use: "hands_out lockless (io_bind (virt_New p c' kube) (\<lambda>v. case v of
        Inl e \<Rightarrow> io_bind (runCleanups [cl]) (\<lambda>_. io_ret (Inl (f1 e)))
      | Inr vc \<Rightarrow> io_bind (vmIP_Resolve vc ns c' host) (\<lambda>m. case m of
        Inl e \<Rightarrow> io_bind (runCleanups [cl]) (\<lambda>_. io_ret (Inl (f2 e)))
      | Inr masterIP \<Rightarrow> io_bind (connectToMaster cn c' masterIP) (\<lambda>t. case t of
        Inl e \<Rightarrow> io_bind (runCleanups [cl]) (\<lambda>_. io_ret (Inl (f3 masterIP e)))
      | Inr (target, mcl) \<Rightarrow> io_ret (Inr (g vc target, runCleanups [cl, mcl]))))))"
    if cl: "only_calls lockless cl" for c' kube cl ns host cn f1 f2 f3 g
    by (intro hands_out_bind virt)
      (auto intro!: hands_out_bind [OF ip] hands_out_use [OF connectToMaster_lockless] hands_out_bind [OF run_cleanups_calls]
        hands_out_ret run_cleanups_calls cl split: sum.splits)
  show ?thesis
    unfolding ConnectTestCluster_def Let_def
    by (auto intro!: hands_out_ret hands_out_use [OF Connect_lockless] use split: sum.splits list.splits)
qed

lemma commander_connect_lockless: "hands_out lockless (cmd_ConnectTestCluster p c)"
  unfolding cmd_ConnectTestCluster_def Let_def
  by (auto intro!: hands_out_ret hands_out_bind [OF resolveMaster_lockless]
      hands_out_use [OF connector_lockless] hands_out_bind split: sum.splits option.splits)

section \<open>The contract of a provider\<close>

text \<open>
  What the suite relies on: a failed \<^verbatim>\<open>ConnectTestCluster\<close> leaves nothing open; a successful one returns a complete
  connection, whose \<^verbatim>\<open>Cleanup\<close> closes exactly what was opened; neither of the two touches the cluster lock.
\<close>

definition conn_acquired :: "(string \<Rightarrow> int) \<Rightarrow> ('e, 'c) cp_cluster \<Rightarrow> event list \<Rightarrow> bool" where
  "conn_acquired opn conn t \<longleftrightarrow> (\<exists>d cl. cl_Cleanup conn = Some cl \<and> opens t = (\<lambda>n. opn n + d n) \<and>
     releases d cl \<and> only_calls lockless cl)"

definition conn_complete :: "('e, 'c) cp_cluster \<Rightarrow> bool" where
  "conn_complete conn \<longleftrightarrow> cl_RESTConfig conn \<noteq> None \<and> cl_Nodes conn \<noteq> None"

locale test_provider =
  fixes provider :: "('e, 'c) cluster_provider"
  assumes connect_accounted: "triple (\<lambda>t. opens t = opn) (pv_ConnectTestCluster provider c) (\<lambda>r t. case r of
      Inl _ \<Rightarrow> opens t = opn | Inr conn \<Rightarrow> conn_complete conn \<and> conn_acquired opn conn t)"
    and connect_lockless: "only_calls lockless (pv_ConnectTestCluster provider c)"

lemma adapted_provider:
  assumes acq: "\<And>c. acquires (m c)" and out: "\<And>c. hands_out lockless (m c)"
    and f: "\<And>x cl. conn_complete (f (x, cl)) \<and> cl_Cleanup (f (x, cl)) = Some cl"
    and p: "pv_ConnectTestCluster provider = (\<lambda>c. io_bind (m c) (\<lambda>r. io_ret (map_sum id f r)))"
  shows "test_provider provider"
proof
  fix opn c
  show "triple (\<lambda>t. opens t = opn) (pv_ConnectTestCluster provider c) (\<lambda>r t. case r of
      Inl _ \<Rightarrow> opens t = opn | Inr conn \<Rightarrow> conn_complete conn \<and> conn_acquired opn conn t)"
  proof (rule tripleI)
    fix w r w'
    assume o: "opens (tr w) = opn" and "pv_ConnectTestCluster provider c w = Some (r, w')"
    then obtain r0 where r0: "m c w = Some (r0, w')" and r: "r = map_sum id f r0"
      by (auto simp: p io_simps split: option.splits)
    have acq: "acquired opn r0 (tr w')"
      using tripleD [OF acq [unfolded acquires_def, rule_format] r0] o by simp
    show "case r of Inl _ \<Rightarrow> opens (tr w') = opn | Inr conn \<Rightarrow> conn_complete conn \<and> conn_acquired opn conn (tr w')"
    proof (cases r0)
      case (Inr y)
      obtain x cl where y: "y = (x, cl)" by (cases y)
      show ?thesis using acq hands_outD(2) [OF out] r0 f [of x cl] unfolding r Inr y by (auto simp: conn_acquired_def)
    qed (use acq r in simp)
  qed
  show "only_calls lockless (pv_ConnectTestCluster provider c)"
    unfolding p using out by (intro calls_intros) (auto simp: hands_out_def only_calls_def)
qed

interpretation dvp: test_provider "dvp_as_provider p" for p :: "('e, 'a, 'c, 'k) provider"
  by (rule adapted_provider [OF connect_test_acquires dvp_connect_lockless, of dvp_cluster])
    (simp_all add: dvp_as_provider_def dvp_cluster_def conn_complete_def)

interpretation commander: test_provider "commander_as_provider p" for p :: "('e, 'a, 'c) commander_provider"
  by (rule adapted_provider [OF cmd_test_cluster_acquires commander_connect_lockless, of commander_cluster])
    (simp_all add: commander_as_provider_def commander_cluster_def conn_complete_def)

section \<open>Connecting and closing\<close>

text \<open>An open handle: what closing it will release.\<close>

definition handle_open :: "(string \<Rightarrow> int) \<Rightarrow> ('e, 'c) e2e_cluster \<Rightarrow> event list \<Rightarrow> bool" where
  "handle_open opn cl t \<longleftrightarrow> \<not> ec_closed cl \<and> conn_acquired opn (ec_conn cl) t"

lemma conn_acquired_defaults [simp]:
  "conn_acquired opn (conn\<lparr>cl_Disks := d\<rparr>) t = conn_acquired opn conn t"
  by (simp add: conn_acquired_def)

lemma conn_acquired_quiet: "conn_acquired opn conn t \<Longrightarrow> quiet ev \<Longrightarrow> conn_acquired opn conn (t @ [ev])"
  by (auto simp: conn_acquired_def opens_snoc quiet_def)

lemma triple_conn_quiet: "only_calls quiet m \<Longrightarrow> triple (conn_acquired opn conn) m (\<lambda>_. conn_acquired opn conn)"
  by (erule triple_keeps) (rule conn_acquired_quiet)

lemma run_Cleanup_triple: "triple (conn_acquired opn conn) (run_Cleanup conn) (\<lambda>e t. e = None \<and> opens t = opn)"
proof (rule tripleI)
  fix w e w'
  assume acq: "conn_acquired opn conn (tr w)" and run: "run_Cleanup conn w = Some (e, w')"
  from acq obtain d cl where cl: "cl_Cleanup conn = Some cl" "opens (tr w) = (\<lambda>n. opn n + d n)" "releases d cl"
    by (auto simp: conn_acquired_def)
  with run have "e = None" and "\<exists>y. cl w = Some (y, w')" by (auto simp: run_Cleanup_def io_simps split: option.splits)
  with tripleD [OF releasesD [OF cl(3)]] cl(2) show "e = None \<and> opens (tr w') = opn" by blast
qed

lemma abandon_triple: "triple (conn_acquired opn conn) (abandon conn err) (\<lambda>r t. r = Inl err \<and> opens t = opn)"
  unfolding abandon_def by (rule triple_bind [OF run_Cleanup_triple], rule triple_ret) simp

lemma newCluster_triple:
  assumes "conn_complete conn0"
  shows "triple (conn_acquired opn conn0) (newCluster env name conn0) (\<lambda>x t. conn_acquired opn (snd x) t \<and>
     (\<forall>cl. fst x = Inr cl \<longrightarrow> handle_open opn cl t \<and> ec_conn cl = snd x \<and> ec_lock cl = None))"
proof (rule tripleI)
  fix w x w'
  assume acq: "conn_acquired opn conn0 (tr w)" and run: "newCluster env name conn0 w = Some (x, w')"
  then have "cl_Cleanup conn0 \<noteq> None" by (auto simp: conn_acquired_def)
  moreover have "conn_acquired opn conn0 (tr w @ [Opened ''clientset'' e])" "conn_acquired opn conn0 (tr w @ [Opened ''clientset'' e, Opened ''dynamic client'' e'])" for e e'
    using conn_acquired_quiet [OF acq, of "Opened ''clientset'' e"]
      conn_acquired_quiet [OF conn_acquired_quiet [OF acq, of "Opened ''clientset'' e"], of "Opened ''dynamic client'' e'"] by simp_all
  ultimately show "conn_acquired opn (snd x) (tr w') \<and>
     (\<forall>cl. fst x = Inr cl \<longrightarrow> handle_open opn cl (tr w') \<and> ec_conn cl = snd x \<and> ec_lock cl = None)"
    using run assms by (auto simp: newCluster_def conn_complete_def io_simps handle_open_def Let_def split: option.splits if_splits prod.splits)
qed

lemma health_quiet: "only_calls quiet (e2e_waitClusterHealthy rt cs c timeout)"
  unfolding e2e_waitClusterHealthy_def healthy_body_def checkHealthClient_def Let_def by (intro calls_intros; simp)

lemma lease_quiet [simp]:
  "quiet (LeaseGet g)" "quiet (LeaseCreate l e)" "quiet (LeaseUpdate l e)" "quiet (LeaseDelete u e)"
  by (simp_all add: quiet_def conn_delta_def)

lemma acquire_quiet: "only_calls quiet (AcquireLease env c cfg testName)"
  unfolding AcquireLease_def acquireLease_def tryAcquireLease_def lockedError_def lease_call_defs Let_def
  by (intro calls_intros; simp)

lemma release_quiet: "only_calls quiet (Release rt api c lock)"
  unfolding Release_def releaseAttempt_def lease_call_defs by (intro calls_intros; simp)

lemma close_accounted:
  "triple (handle_open opn cl) (e2e_Close rt c cl)
     (\<lambda>x t. opens t = opn \<and> ec_closed (snd x) \<and> ec_closeErr (snd x) = fst x)"
proof -
  have rel: "triple (conn_acquired opn (ec_conn cl)) (case ec_lock cl of
         None \<Rightarrow> io_ret (ec_closeErr cl, None)
       | Some (lock, api) \<Rightarrow> io_bind (Release rt api c lock) (\<lambda>(err, lock'). io_ret (err, Some (lock', api))))
     (\<lambda>_. conn_acquired opn (ec_conn cl))"
    by (rule triple_conn_quiet) (intro calls_intros release_quiet)
  show ?thesis
    unfolding handle_open_def e2e_Close_def
    by (rule triple_assume, simp, rule triple_bind [OF rel], rule triple_prod, rule triple_bind [OF run_Cleanup_triple], rule triple_ret)
      auto
qed

lemma close_again: "ec_closed cl \<Longrightarrow> e2e_Close rt c cl w = Some ((ec_closeErr cl, cl), w)"
  by (simp add: e2e_Close_def io_simps)

lemma Release_guarded: "emits (deletes_guarded (ll_holder l)) (Release rt api c l)"
  unfolding Release_def
  by (auto intro!: emits_bind emits_ret emits_DoVoid deletes_guarded_closed emits_releaseAttempt)
    (auto simp: deletes_guarded_def)

text \<open>The requests of \<^verbatim>\<open>Close\<close>: those of the lock's release come first, and those of the clean-up after them.\<close>

lemma close_order:
  assumes "handle_open opn cl (tr w)" and "e2e_Close rt c cl w = Some ((e, cl'), w')"
  shows "\<exists>rel cln. tr w' = tr w @ rel @ cln \<and> list_all quiet rel \<and> list_all lockless cln \<and>
    (case ec_lock cl of None \<Rightarrow> rel = [] | Some (lock, _) \<Rightarrow> deletes_guarded (ll_holder lock) rel)"
proof -
  from assms(1) obtain f where f: "cl_Cleanup (ec_conn cl) = Some f" "only_calls lockless f" "\<not> ec_closed cl"
    by (auto simp: handle_open_def conn_acquired_def)
  have cln: "\<exists>cln. tr w' = tr w1 @ cln \<and> list_all lockless cln" if "f w1 = Some (y, w')" for w1 y
    using only_callsD [OF f(2) that] .
  show ?thesis
  proof (cases "ec_lock cl")
    case None
    then show ?thesis using assms(2) f cln by (fastforce simp: e2e_Close_def run_Cleanup_def io_simps split: option.splits)
  next
    case (Some x)
    obtain lock api where x: "x = (lock, api)" by (cases x)
    from assms(2) f(1,3) obtain r w1 y where r: "Release rt api c lock w = Some (r, w1)" and y: "f w1 = Some (y, w')"
      unfolding e2e_Close_def by (auto simp: run_Cleanup_def Some x io_simps split: option.splits)
    obtain rel where "tr w1 = tr w @ rel" "list_all quiet rel" "deletes_guarded (ll_holder lock) rel"
      using only_callsD [OF release_quiet r] emitsD [OF Release_guarded r] by auto
    with cln [OF y] show ?thesis by (auto simp: Some x)
  qed
qed

section \<open>The lock is taken on a healthy cluster\<close>

text \<open>
  Every request on the lock comes after a check that saw the cluster healthy; and a request that made this holder the
  lock's owner.
\<close>

definition lock_guarded :: "event list \<Rightarrow> bool" where
  "lock_guarded u \<longleftrightarrow> list_all lockless u \<or> (\<exists>a b. u = a @ b \<and> list_all lockless a \<and> healthy_pair a)"

definition takes_lock :: "string \<Rightarrow> event \<Rightarrow> bool" where
  "takes_lock holder ev \<longleftrightarrow> (\<exists>l. (ev = LeaseCreate l None \<or> ev = LeaseUpdate l None) \<and> holderOf l = holder)"

definition tidy :: "('e, 'c) cp_cluster \<Rightarrow> bool" where
  "tidy conn \<longleftrightarrow> (\<exists>cl. cl_Cleanup conn = Some cl \<and> only_calls lockless cl)"

lemma lock_guarded_step: "lock_guarded u \<Longrightarrow> \<not> list_all lockless u \<Longrightarrow> lock_guarded (u @ v)"
  unfolding lock_guarded_def by (metis append_assoc)

lemma triple_lockless: "only_calls lockless m \<Longrightarrow> triple (since t0 (list_all lockless)) m (\<lambda>_. since t0 (list_all lockless))"
  by (erule triple_keeps) (erule since_step, simp)

lemma abandon_lockless: "tidy conn \<Longrightarrow> only_calls lockless (abandon conn err)"
  unfolding abandon_def run_Cleanup_def tidy_def by (auto intro!: calls_intros)

lemma check_health_since:
  "triple (since t0 (list_all lockless)) (checkHealthClient api c)
     (\<lambda>e. since t0 (\<lambda>u. list_all lockless u \<and> (e = None \<longrightarrow> healthy_pair u)))"
proof (rule tripleI)
  fix w e w'
  assume s: "since t0 (list_all lockless) (tr w)" and run: "checkHealthClient api c w = Some (e, w')"
  have calls: "only_calls lockless (checkHealthClient api c)"
    unfolding checkHealthClient_def by (intro calls_intros; simp)
  obtain u v where u: "tr w = t0 @ u" "list_all lockless u" "tr w' = tr w @ v" "list_all lockless v"
    using s only_callsD [OF calls run] by (auto simp: since_def)
  have "healthy_pair (u @ v)" if "e = None"
  proof -
    from run u(3) that obtain nodes dep cp where "v = [NodesList (Inr nodes), DeploymentGet deckhouseNamespace deckhouseDeploymentName (Inr dep)]"
      "check_control_plane nodes 0 = Inr cp" "cp > 0" "isDeploymentAvailable dep"
      by (auto simp: checkHealthClient_def io_simps split: sum.splits if_splits)
    with check_control_plane_ok [of nodes 0 cp] show ?thesis by (auto simp: healthy_pair_def filter_empty_conv)
  qed
  with u show "since t0 (\<lambda>u. list_all lockless u \<and> (e = None \<longrightarrow> healthy_pair u)) (tr w')" by (auto simp: since_def)
qed

lemma wait_healthy_since:
  "triple (since t0 (list_all lockless)) (e2e_waitClusterHealthy rt cs c timeout)
     (\<lambda>e. since t0 (\<lambda>u. list_all lockless u \<and> (e = None \<longrightarrow> healthy_pair u)))"
proof -
  have "triple (since t0 (list_all lockless)) (loop (healthy_body rt cs c' timeout) err)
     (\<lambda>e. since t0 (\<lambda>u. list_all lockless u \<and> (e = None \<longrightarrow> healthy_pair u)))" for c' err
  proof (rule triple_loop [where I = "\<lambda>_. since t0 (list_all lockless)"])
    fix err
    have wait: "triple (since t0 (list_all lockless)) (waitFor rt c' d) (\<lambda>_. since t0 (list_all lockless))" for d
      by (rule triple_lockless) (intro calls_intros, simp)
    show "triple (since t0 (list_all lockless)) (healthy_body rt cs c' timeout err)
        (\<lambda>x t. case x of Inl e \<Rightarrow> since t0 (\<lambda>u. list_all lockless u \<and> (e = None \<longrightarrow> healthy_pair u)) t
          | Inr _ \<Rightarrow> since t0 (list_all lockless) t)"
      unfolding healthy_body_def
      by (rule triple_bind [OF wait], rule triple_option, rule triple_bind [OF check_health_since], rule triple_ret)
        (auto intro!: triple_ret elim: since_imp split: option.splits)
  qed
  then show ?thesis
    unfolding e2e_waitClusterHealthy_def Let_def
    by (intro triple_bind [OF check_health_since] triple_option)
      (auto intro!: triple_ret elim: triple_pre elim: since_imp)
qed

lemma map_sum_Inr: "map_sum id f x = Inr y \<longleftrightarrow> (\<exists>z. x = Inr z \<and> y = f z)"
  by (cases x) auto

lemma abandon_fails: "triple (\<lambda>_. True) (abandon conn err) (\<lambda>r _. \<exists>e. r = Inl e)"
  unfolding abandon_def by (rule triple_bind [where R = "\<lambda>_ _. True"]) (auto simp: triple_def io_simps)

lemma acquire_takes:
  "triple (\<lambda>_. True) (AcquireLease env c cfg testName)
     (\<lambda>r t. \<forall>lock api. r = Inr (lock, api) \<longrightarrow> ll_holder lock = holderIdentity (su_os env) \<and> \<not> ll_released lock \<and>
        (\<exists>s ev. t = s @ [ev] \<and> takes_lock (holderIdentity (su_os env)) ev))"
proof -
  let ?h = "holderIdentity (su_os env)"
  let ?T = "\<lambda>t. \<exists>s ev. t = s @ [ev] \<and> takes_lock ?h ev"
  have attempt: "triple (\<lambda>_. True) (tryAcquireLease (su_os env) (su_rt env) api c ?h testName d) (nil_or ?T (\<lambda>_. True))" for api d
  proof (rule tripleI)
    fix w r w'
    assume "tryAcquireLease (su_os env) (su_rt env) api c ?h testName d w = Some (r, w')"
    note spec = acquire_attempt_spec [OF this]
    show "nil_or ?T (\<lambda>_. True) r (tr w')"
    proof (cases r)
      case None
      with spec obtain g ev where "tr w' = (tr w @ [LeaseGet g]) @ [ev]" "takes_lock ?h ev"
        by (auto simp: Let_def takes_lock_def)
      then show ?thesis unfolding None outcome_simps by blast
    qed simp
  qed
  have "triple (\<lambda>_. True) (acquireLease (su_os env) (su_rt env) api c testName d)
     (\<lambda>r t. \<forall>lock. r = Inr lock \<longrightarrow> ll_holder lock = ?h \<and> \<not> ll_released lock \<and> ?T t)" for api d
    unfolding acquireLease_def Let_def
    by (rule triple_bind [OF triple_DoVoid [OF attempt]]) (auto intro!: triple_option triple_ret simp: DefaultConfig_def)
  note acq = this
  show ?thesis
    unfolding AcquireLease_def
    apply (rule triple_option, rule triple_ret, simp)
    apply (rule triple_bind [where R = "\<lambda>_ _. True"], simp add: triple_def)
    apply (rule triple_option, rule triple_bind [OF acq], rule triple_ret)
     apply (auto intro!: triple_ret simp: map_sum_Inr)
    done
qed

lemma health_and_lock_order:
  assumes tidy: "tidy (ec_conn cl)" and check: "co_healthCheck opts"
  shows "triple (since t0 (list_all lockless)) (health_and_lock env c opts cl)
    (\<lambda>r t. since t0 lock_guarded t \<and> (\<forall>cl'. r = Inr cl' \<longrightarrow> since t0 (\<lambda>u. \<exists>a b. u = a @ b \<and> list_all lockless a \<and> healthy_pair a) t \<and>
       (if co_acquireLock opts then \<exists>lock api s ev. ec_lock cl' = Some (lock, api) \<and> ll_holder lock = holderIdentity (su_os env) \<and>
          \<not> ll_released lock \<and> t = s @ [ev] \<and> takes_lock (holderIdentity (su_os env)) ev
        else ec_lock cl' = ec_lock cl)))" (is "triple _ _ ?Q")
proof -
  let ?H = "\<lambda>u. \<exists>a b. u = a @ b \<and> list_all lockless a \<and> healthy_pair a"
  have H: "triple (since t0 ?H) m (\<lambda>_. since t0 ?H)" if "appends m" for m :: "('a, 'x) act"
    by (rule triple_keeps [OF that], erule since_step) (metis append_assoc)
  have fail: "triple (since t0 (list_all lockless)) (abandon (ec_conn cl) err) ?Q" for err
    unfolding abandon_def
    by (rule triple_bind, rule triple_lockless) (use tidy in \<open>auto simp: tidy_def run_Cleanup_def lock_guarded_def
        intro!: calls_intros triple_ret elim: since_imp\<close>)
  have Hg: "since t0 ?H t \<Longrightarrow> since t0 lock_guarded t" for t by (erule since_imp) (simp add: lock_guarded_def)
  have "appends (abandon (ec_conn cl) err :: ('a, goerr + ('a, 'b) e2e_cluster) act)" for err
    by (rule only_calls_mono [OF abandon_lockless [OF tidy]]) simp
  from triple_conj [OF H [OF this] abandon_fails] have fail_H: "triple (since t0 ?H) (abandon (ec_conn cl) err) ?Q" for err
    by (rule triple_conseq) (auto intro: Hg)
  have "appends (AcquireLease env c cfg testName)" for cfg testName by (rule only_calls_mono [OF acquire_quiet]) simp
  from triple_conj [OF H [OF this] acquire_takes]
  have acq: "triple (since t0 ?H) (AcquireLease env c cfg testName) (\<lambda>r t. since t0 ?H t \<and>
      (\<forall>lock api. r = Inr (lock, api) \<longrightarrow> ll_holder lock = holderIdentity (su_os env) \<and> \<not> ll_released lock \<and>
        (\<exists>s ev. t = s @ [ev] \<and> takes_lock (holderIdentity (su_os env)) ev)))" for cfg testName
    by (rule triple_pre) simp
  have lock: "triple (since t0 ?H) (io_bind (AcquireLease env c cfg (co_testName opts)) (\<lambda>l. case l of
           Inl err \<Rightarrow> abandon (ec_conn cl) err | Inr lock \<Rightarrow> io_ret (Inr (cl\<lparr>ec_lock := Some lock\<rparr>)))) ?Q" if "co_acquireLock opts" for cfg
    by (rule triple_bind [OF acq], rule triple_sum, rule triple_pre [OF fail_H])
      (auto intro!: triple_ret Hg simp: that)
  show ?thesis
    unfolding health_and_lock_def Let_def
    apply (simp only: check if_True, rule triple_bind [OF wait_healthy_since], rule triple_option)
     apply (rule triple_if)
      apply (rule triple_pre [OF lock], assumption, force elim: since_imp intro: exI [of _ "[]"])
     apply (rule triple_ret, auto elim!: since_imp simp: lock_guarded_def)[1]
    apply (rule triple_pre [OF fail], auto elim: since_imp)
    done
qed

lemma health_and_lock_accounted:
  "triple (handle_open opn cl) (health_and_lock env c opts cl)
     (\<lambda>r t. case r of Inl _ \<Rightarrow> opens t = opn | Inr cl \<Rightarrow> handle_open opn cl t)" (is "triple _ _ ?Q")
proof -
  have fail: "triple (handle_open opn cl) (abandon (ec_conn cl) err) ?Q" for err
    unfolding handle_open_def by (rule triple_assume, rule triple_post [OF abandon_triple]) auto
  have keep: "triple (handle_open opn cl) m (\<lambda>_. handle_open opn cl)" if "only_calls quiet m" for m :: "('a, 'x) act"
    unfolding handle_open_def by (rule triple_assume, rule triple_post [OF triple_conn_quiet [OF that]]) simp
  have opened: "handle_open opn cl t \<Longrightarrow> handle_open opn (cl\<lparr>ec_lock := l\<rparr>) t" for l t by (simp add: handle_open_def)
  show ?thesis
    unfolding health_and_lock_def Let_def
    by (rule triple_bind, rule keep, intro calls_intros health_quiet, rule triple_option, rule triple_if,
        rule triple_bind [OF keep [OF acquire_quiet]], rule triple_sum, rule fail)
      (auto intro!: triple_ret fail opened)
qed

context test_provider
begin

lemma suite_connect_accounted:
  "triple (\<lambda>t. opens t = opn) (connectWithProvider env c provider opts)
     (\<lambda>r t. case r of Inl _ \<Rightarrow> opens t = opn | Inr cl \<Rightarrow> handle_open opn cl t)" (is "triple _ _ ?Q")
proof -
  have fail: "triple (conn_acquired opn conn) (abandon conn err) ?Q" for conn err
    by (rule triple_post [OF abandon_triple]) auto
  show ?thesis
    unfolding connectWithProvider_def
    by (rule triple_bind [OF connect_accounted], rule triple_sum, rule triple_ret, simp, hypsubst, simp only: sum.case,
        rule triple_assume, rule triple_bind, erule newCluster_triple, rule triple_prod, hypsubst, simp only: fst_conv snd_conv,
        rule triple_sum)
      (auto intro!: triple_pre [OF fail] triple_pre [OF health_and_lock_accounted])
qed

end

lemma newCluster_lockless: "only_calls lockless (newCluster env name conn)"
  unfolding newCluster_def Let_def by (intro calls_intros; simp)

lemma newCluster_tidy:
  assumes "tidy conn0" and "newCluster env name conn0 w = Some ((r, conn), w')"
  shows "tidy conn \<and> (\<forall>cl. r = Inr cl \<longrightarrow> ec_conn cl = conn)"
  using assms by (auto simp: newCluster_def tidy_def io_simps Let_def split: option.splits if_splits)

context test_provider
begin

lemma connect_tidy:
  assumes "pv_ConnectTestCluster provider c w = Some (Inr conn, w')"
  shows "tidy conn"
  using tripleD [OF connect_accounted assms refl] by (auto simp: tidy_def conn_acquired_def)

lemma suite_connect_order:
  assumes check: "co_healthCheck opts" and run: "connectWithProvider env c provider opts w = Some (r, w')"
  shows "\<exists>u. tr w' = tr w @ u \<and> lock_guarded u \<and> (\<forall>cl. r = Inr cl \<longrightarrow>
    (\<exists>a b. u = a @ b \<and> list_all lockless a \<and> healthy_pair a) \<and>
    (co_acquireLock opts \<longrightarrow> (\<exists>lock api. ec_lock cl = Some (lock, api) \<and> ll_holder lock = holderIdentity (su_os env) \<and>
       \<not> ll_released lock \<and> takes_lock (holderIdentity (su_os env)) (last u))))"
proof -
  from run obtain r0 w0 where r0: "pv_ConnectTestCluster provider c w = Some (r0, w0)"
    by (auto simp: connectWithProvider_def io_simps split: option.splits)
  obtain a where a: "tr w0 = tr w @ a" "list_all lockless a" using only_callsD [OF connect_lockless r0] by blast
  show ?thesis
  proof (cases r0)
    case (Inl e)
    with run r0 a show ?thesis by (auto simp: connectWithProvider_def io_simps lock_guarded_def)
  next
    case (Inr conn0)
    from run r0 obtain x conn w1 where x: "newCluster env (pv_Name provider) conn0 w0 = Some ((x, conn), w1)"
      by (auto simp: connectWithProvider_def io_simps Inr split: option.splits)
    obtain b where b: "tr w1 = tr w0 @ b" "list_all lockless b" using only_callsD [OF newCluster_lockless x] by blast
    have tidy: "tidy conn" "\<And>cl. x = Inr cl \<Longrightarrow> ec_conn cl = conn"
      using newCluster_tidy [OF connect_tidy [OF r0 [unfolded Inr]] x] by auto
    have s: "since (tr w) (list_all lockless) (tr w1)" using a b by (auto simp: since_def)
    show ?thesis
    proof (cases x)
      case (Inl e)
      with run r0 x have ab: "abandon conn e w1 = Some (r, w')" by (auto simp: connectWithProvider_def io_simps Inr)
      have "\<exists>e. r = Inl e" by (rule tripleD [OF abandon_fails ab]) simp
      with tripleD [OF triple_lockless [OF abandon_lockless [OF tidy(1)]] ab s] show ?thesis
        by (auto simp: since_def lock_guarded_def)
    next
      case (Inr cl)
      with run r0 x have h: "health_and_lock env c opts cl w1 = Some (r, w')"
        by (auto simp: connectWithProvider_def io_simps \<open>r0 = Inr conn0\<close>)
      have "tidy (ec_conn cl)" using tidy Inr by simp
      note post = tripleD [OF health_and_lock_order [OF this check] h s]
      then obtain u where u: "tr w' = tr w @ u" "lock_guarded u" by (auto simp: since_def)
      have ok: "\<exists>a b. u = a @ b \<and> list_all lockless a \<and> healthy_pair a" if "r = Inr cl'" for cl'
        using post that u(1) by (auto simp: since_def)
      have lock: "\<exists>lock api s ev. ec_lock cl' = Some (lock, api) \<and> ll_holder lock = holderIdentity (su_os env) \<and>
          \<not> ll_released lock \<and> tr w' = s @ [ev] \<and> takes_lock (holderIdentity (su_os env)) ev"
        if "r = Inr cl'" "co_acquireLock opts" for cl' using post that by auto
      have "u \<noteq> []" if "r = Inr cl'" for cl' using ok [OF that] by (auto simp: healthy_pair_def)
      then have "last u = ev" if "r = Inr cl'" "tr w' = s @ [ev]" for cl' s ev
        using that u(1) by (metis last_appendR last_snoc)
      with u ok lock show ?thesis by (intro exI [of _ u]) fastforce
    qed
  qed
qed

end

section \<open>The suite with the built-in providers\<close>

lemma builtin_provider:
  assumes "registry_Get (NewRegistry (dvp_constructor dparse environ os dbase) (commander_constructor parsed cbase)) name = Inr new"
    and "new cfg = Inr p"
  shows "test_provider p"
  using assms dvp.test_provider_axioms commander.test_provider_axioms
  by (auto simp: registry_Get_def NewRegistry_def mode_String_def dvp_constructor_def commander_constructor_def map_sum_Inr
      split: option.splits if_splits)

text \<open>
  A mode that parses has a constructor in the default registry; \<^verbatim>\<open>Register\<close> replaces one entry and keeps the others.
\<close>

lemma parsed_mode_registered:
  "UnmarshalText text [] = (None, mode) \<Longrightarrow> \<exists>new. registry_Get (NewRegistry d k) mode = Inr new"
  by (auto simp: UnmarshalText_def registry_Get_def NewRegistry_def mode_String_def split: if_splits)

lemma registry_Get_Register:
  "registry_Get (Register reg name new) n = (if n = name then Inr new else registry_Get reg n)"
  by (simp add: registry_Get_def Register_def mode_String_def)

text \<open>
  The clean-up after a connection without a \<^verbatim>\<open>rest.Config\<close> calls \<^verbatim>\<open>conn.Cleanup\<close> before its default has been filled in.
\<close>

lemma incomplete_connection_panics:
  assumes "pv_ConnectTestCluster p c w = Some (Inr conn, w')" "cl_RESTConfig conn = None" "cl_Cleanup conn = None"
  shows "connectWithProvider env c p opts w = Some (Inl nil_call_panic, w')"
  using assms by (simp add: connectWithProvider_def newCluster_def abandon_def run_Cleanup_def io_simps)

lemma handle_open_later:
  "handle_open opn cl t \<Longrightarrow> handle_open (\<lambda>n. opens t' n - (opens t n - opn n)) cl t'"
  unfolding handle_open_def conn_acquired_def by (elim conjE exE, intro conjI, assumption) (rule exI, rule exI, auto)

lemma e2e_ConnectD:
  assumes "e2e_Connect env parse reg arg0 c opts w = Some (r, w')"
  shows "(w' = w \<and> (\<exists>e. r = Inl e)) \<or> (\<exists>cfg new p. registry_Get reg (cc_ClusterProvider cfg) = Inr new \<and> new cfg = Inr p \<and>
     connectWithProvider env c p (newConnectOptions arg0 opts) w = Some (r, w'))"
  using assms by (auto simp: e2e_Connect_def io_simps split: sum.splits)

text \<open>
  C5. A suite leaks no connection, whichever built-in provider the environment selects. If \<^verbatim>\<open>e2e.Connect\<close> fails, at
  any step, the SSH clients and tunnels that are open are those that were open before it. If it succeeds, \<^verbatim>\<open>Close\<close>,
  whenever it is called, first releases the lock, deleting only a lease that a read has just shown to be held by this
  run, and then closes exactly the connections that \<^verbatim>\<open>Connect\<close> opened, without touching the lock any more; every
  further \<^verbatim>\<open>Close\<close> makes no request at all and returns the first result.\<close>

theorem suite_keeps_no_connection:
  assumes "e2e_Connect env parse (NewRegistry (dvp_constructor dparse environ os dbase) (commander_constructor parsed cbase))
      arg0 c opts w = Some (r, w')"
  shows "case r of Inl _ \<Rightarrow> opens (tr w') = opens (tr w)
    | Inr cl \<Rightarrow> \<forall>rt c1 v e cl' v'. e2e_Close rt c1 cl v = Some ((e, cl'), v') \<longrightarrow>
        (\<exists>rel cln. tr v' = tr v @ rel @ cln \<and> list_all quiet rel \<and> list_all lockless cln \<and>
           (case ec_lock cl of None \<Rightarrow> rel = [] | Some (lock, _) \<Rightarrow> deletes_guarded (ll_holder lock) rel)) \<and>
        (\<forall>n. opens (tr v') n = opens (tr v) n - (opens (tr w') n - opens (tr w) n)) \<and>
        (\<forall>c2 v2. e2e_Close rt c2 cl' v2 = Some ((e, cl'), v2))"
proof -
  have acc: "case r of Inl _ \<Rightarrow> opens (tr w') = opens (tr w) | Inr cl \<Rightarrow> handle_open (opens (tr w)) cl (tr w')"
    using e2e_ConnectD [OF assms]
  proof (elim disjE exE conjE)
    fix cfg new p
    assume "registry_Get (NewRegistry (dvp_constructor dparse environ os dbase) (commander_constructor parsed cbase))
        (cc_ClusterProvider cfg) = Inr new" "new cfg = Inr p"
    then have "test_provider p" by (rule builtin_provider)
    from test_provider.suite_connect_accounted [OF this]
    have t: "triple (\<lambda>t. opens t = opens (tr w)) (connectWithProvider env c p (newConnectOptions arg0 opts))
        (\<lambda>r t. case r of Inl _ \<Rightarrow> opens t = opens (tr w) | Inr cl \<Rightarrow> handle_open (opens (tr w)) cl t)" .
    assume "connectWithProvider env c p (newConnectOptions arg0 opts) w = Some (r, w')"
    from tripleD [OF t this] show ?thesis by simp
  qed auto
  show ?thesis
  proof (cases r)
    case (Inr cl)
    with acc have h: "handle_open (opens (tr w)) cl (tr w')" by simp
    have "(\<exists>rel cln. tr v' = tr v @ rel @ cln \<and> list_all quiet rel \<and> list_all lockless cln \<and>
           (case ec_lock cl of None \<Rightarrow> rel = [] | Some (lock, _) \<Rightarrow> deletes_guarded (ll_holder lock) rel)) \<and>
        (\<forall>n. opens (tr v') n = opens (tr v) n - (opens (tr w') n - opens (tr w) n)) \<and>
        (\<forall>c2 v2. e2e_Close rt c2 cl' v2 = Some ((e, cl'), v2))"
      if run: "e2e_Close rt c1 cl v = Some ((e, cl'), v')" for rt c1 v e cl' v'
      using close_order [OF handle_open_later [OF h] run] tripleD [OF close_accounted run handle_open_later [OF h]] close_again [of cl' rt]
      by auto
    then show ?thesis unfolding Inr by simp
  qed (use acc in simp)
qed

text \<open>
  C6. The cluster lock is only ever taken on a cluster that was seen healthy. While \<^verbatim>\<open>e2e.Connect\<close> runs with its
  health check, no request touches the lock before a check has read, in this order, a list of nodes with at least one
  control-plane node, all control-plane nodes Ready, and the Deckhouse deployment Available. If \<^verbatim>\<open>Connect\<close> succeeds
  there has been such a check; and if it was asked to lock, its last request created or took over the lease in the
  name of this process, and the handle holds that lock.\<close>

theorem suite_locks_healthy_cluster:
  assumes "e2e_Connect env parse (NewRegistry (dvp_constructor dparse environ os dbase) (commander_constructor parsed cbase))
      arg0 c opts w = Some (r, w')" and "co_healthCheck (newConnectOptions arg0 opts)"
  shows "\<exists>u. tr w' = tr w @ u \<and> lock_guarded u \<and> (\<forall>cl. r = Inr cl \<longrightarrow>
    (\<exists>a b. u = a @ b \<and> list_all lockless a \<and> healthy_pair a) \<and>
    (co_acquireLock (newConnectOptions arg0 opts) \<longrightarrow> (\<exists>lock api. ec_lock cl = Some (lock, api) \<and>
       ll_holder lock = holderIdentity (su_os env) \<and> \<not> ll_released lock \<and> takes_lock (holderIdentity (su_os env)) (last u))))"
  using e2e_ConnectD [OF assms(1)]
proof (elim disjE exE conjE)
  fix cfg new p
  assume "registry_Get (NewRegistry (dvp_constructor dparse environ os dbase) (commander_constructor parsed cbase))
      (cc_ClusterProvider cfg) = Inr new" "new cfg = Inr p"
  then have "test_provider p" by (rule builtin_provider)
  moreover assume "connectWithProvider env c p (newConnectOptions arg0 opts) w = Some (r, w')"
  ultimately show ?thesis by (rule test_provider.suite_connect_order [OF _ assms(2)])
qed (auto simp: lock_guarded_def)

section \<open>A run\<close>

definition idle_provider :: "(nat, unit, unit, unit) provider" where
  "idle_provider =
    \<lparr>dp_rt = sample_rt, dp_connector = sample_connector, dp_readFile = (\<lambda>p. Inr []), dp_parse = (\<lambda>t. Inl (ErrText ''no definition'')),
     dp_lookupEnv = (\<lambda>_. None), dp_yaml = \<lparr>yl_sshConfig = (\<lambda>_. Inr []), yl_sshHost = (\<lambda>_. Inr [])\<rparr>, dp_tmpl = [],
     dp_keys = \<lparr>kl_ParsePrivateKey = (\<lambda>_. Inr ()), kl_passphraseMissing = (\<lambda>_. False),
       kl_ParsePrivateKeyWithPassphrase = (\<lambda>_ _. Inr ()), kl_MarshalAuthorizedKey = (\<lambda>_. [])\<rparr>,
     dp_qa = pr_qa sample_prov, dp_poll = (\<lambda>c d cond. io_ret None), dp_cfg = \<lparr>cc_ClusterProvider = [], cc_ClusterBootstrapConfigPath = []\<rparr>\<rparr>"

definition shop_env :: "(nat, unit) suite_env" where
  "shop_env = \<lparr>su_rt = sample_rt, su_os = Lease_Lock.sample_os, su_api = (\<lambda>_. healing_kube), su_leases = (\<lambda>_. sample_lease_api)\<rparr>"

definition shop_registry :: "(nat, unit) registry" where
  "shop_registry = NewRegistry (dvp_constructor (\<lambda>_. Inl ErrEOF) (\<lambda>_. None) Dvp_Config.sample_os idle_provider)
     (commander_constructor (Inr shop_conf) shop_provider)"

definition shop_parse :: "(string \<Rightarrow> goerr option \<times> string) \<Rightarrow> goerr + cluster_config" where
  "shop_parse unmarshal = (case unmarshal ''commander'' of
     (Some e, _) \<Rightarrow> Inl e | (None, mode) \<Rightarrow> Inr \<lparr>cc_ClusterProvider = mode, cc_ClusterBootstrapConfigPath = ''c.yaml''\<rparr>)"

lemma shop_built: "commander_constructor (Inr shop_conf) shop_provider \<lparr>cc_ClusterProvider = ''commander'', cc_ClusterBootstrapConfigPath = ''c.yaml''\<rparr>
    = Inr (commander_as_provider shop_provider)"
proof -
  have "newAPIClient shop_lib shop_conf = Inr demo_client"
    by (simp add: newAPIClient_def NewClientWithOptions_def loadRootCAs_def shop_conf_def demo_client_def wrap_left_def trimSuffix_def hasSuffix_def
        AuthMethodXAuthToken_def)
  then show ?thesis by (simp add: commander_constructor_def NewCommanderProvider_def shop_provider_def)
qed

definition shop_conn :: "(nat, unit) cp_cluster" where
  "shop_conn = commander_cluster (\<lparr>kt_RESTConfig = shop_config, kt_Exec = cmd_node_Exec shop_provider shop_creds ''u'' shop_config\<rparr>, shop_cleanup)"

lemma shop_attach: "yields 1 (pv_ConnectTestCluster (commander_as_provider shop_provider) c) (Inr shop_conn) 1"
proof -
  have "yields 1 (cmd_ConnectTestCluster shop_provider c)
      (Inr (\<lparr>kt_RESTConfig = shop_config, kt_Exec = cmd_node_Exec shop_provider shop_creds ''u'' shop_config\<rparr>, shop_cleanup)) 1"
    unfolding cmd_ConnectTestCluster_def Let_def shop_sels sum.case
    by (rule yields_bind [OF shop_master], simp only: sum.case prod.case, rule yields_bind [OF shop_connect(1)])
      (simp only: sum.case prod.case shop_sels option.case yields_ret)
  then show ?thesis unfolding commander_as_provider_def cluster_provider.simps
    by (rule yields_bind) (simp add: shop_conn_def yields_ret)
qed

definition shop_handle :: "(nat, unit) e2e_cluster" where
  "shop_handle = \<lparr>ec_provider = ModeCommander, ec_conn = shop_conn\<lparr>cl_Disks := Some (unsupportedDiskManager ModeCommander)\<rparr>,
     ec_clientset = healing_kube, ec_dynamic = healing_kube, ec_lock = Some (\<lparr>ll_holder = holderIdentity Lease_Lock.sample_os,
       ll_duration = DefaultLeaseDuration, ll_renewCancelled = False, ll_released = False, ll_releaseErr = None\<rparr>, sample_lease_api),
     ec_closed = False, ec_closeErr = None\<rparr>"

lemma shop_suite: "yields 1 (e2e_Connect shop_env shop_parse shop_registry ''/bin/suite'' c []) (Inr shop_handle) 1"
proof -
  have new: "yields 1 (newCluster shop_env ModeCommander shop_conn) (Inr (shop_handle\<lparr>ec_lock := None\<rparr>), ec_conn shop_handle) 1"
    by (simp add: yields_def newCluster_def shop_conn_def commander_cluster_def shop_env_def shop_handle_def healing_kube_def io_simps Let_def)
  have health: "yields 1 (e2e_waitClusterHealthy sample_rt healing_kube c d) None 1" for d
  proof -
    have "yields 1 (checkHealthClient healing_kube c') None 1" for c'
      by (simp add: yields_def checkHealthClient_def healing_kube_def master_node_def available_def io_simps isControlPlaneNode_def
          controlPlaneNodeLabels_def isNodeReady_def isDeploymentAvailable_def)
    then show ?thesis unfolding e2e_waitClusterHealthy_def Let_def by (rule yields_bind) (simp add: yields_ret)
  qed
  have client: "yields s (NewClientsetWithRetry sample_rt healing_kube c) None s" for s
    unfolding NewClientsetWithRetry_def
    by (rule yields_bind, rule yields_Do [where x = "()"]) (auto simp: yields_def io_simps healing_kube_def DefaultConfig_def)
  have attempt: "yields s (tryAcquireLease Lease_Lock.sample_os sample_rt sample_lease_api c h tn d) None s" for s h tn d
    by (simp add: yields_def tryAcquireLease_def lease_call_defs sample_lease_api_def sample_rt_def Lease_Lock.not_found_def has_reason_def io_simps)
  have lock: "yields s (AcquireLease shop_env c (cl_RESTConfig (ec_conn shop_handle)) tn)
      (Inr (\<lparr>ll_holder = holderIdentity Lease_Lock.sample_os, ll_duration = DefaultLeaseDuration, ll_renewCancelled = False,
        ll_released = False, ll_releaseErr = None\<rparr>, sample_lease_api)) s" for s tn
  proof -
    have "yields s (DoVoid sample_rt c DefaultConfig (tryAcquireLease Lease_Lock.sample_os sample_rt sample_lease_api c h tn d)) None s" for h d
      by (rule yields_DoVoid [OF attempt])
    then have "yields s (acquireLease Lease_Lock.sample_os sample_rt sample_lease_api c tn d)
      (Inr \<lparr>ll_holder = holderIdentity Lease_Lock.sample_os, ll_duration = d, ll_renewCancelled = False,
        ll_released = False, ll_releaseErr = None\<rparr>) s" for d
      unfolding acquireLease_def Let_def by (rule yields_bind) (simp add: yields_ret)
    moreover have "cl_RESTConfig (ec_conn shop_handle) = Some shop_config" "su_rt shop_env = sample_rt" "su_os shop_env = Lease_Lock.sample_os"
      "\<And>cfg. su_api shop_env cfg = healing_kube" "\<And>cfg. su_leases shop_env cfg = sample_lease_api"
      by (simp_all add: shop_handle_def shop_conn_def commander_cluster_def shop_env_def)
    ultimately show ?thesis unfolding AcquireLease_def
      by (simp only: option.case) (rule yields_bind [OF client], simp only: option.case, rule yields_bind, assumption, simp add: yields_ret)
  qed
  have opts: "newConnectOptions ''/bin/suite'' [] = \<lparr>co_testName = ''suite'', co_acquireLock = True, co_healthCheck = True,
      co_healthCheckTimeout = defaultHealthCheckTimeout\<rparr>" by code_simp
  have locked: "yields 1 (health_and_lock shop_env c (newConnectOptions ''/bin/suite'' []) (shop_handle\<lparr>ec_lock := None\<rparr>)) (Inr shop_handle) 1"
  proof -
    have sels: "su_rt shop_env = sample_rt" "ec_clientset (shop_handle\<lparr>ec_lock := None\<rparr>) = healing_kube"
      "ec_conn (shop_handle\<lparr>ec_lock := None\<rparr>) = ec_conn shop_handle" by (simp_all add: shop_env_def shop_handle_def)
    show ?thesis unfolding health_and_lock_def opts connect_options.simps if_True Let_def sels
      by (rule yields_bind [OF health], simp only: option.case, rule yields_bind [OF lock])
        (simp add: shop_handle_def yields_ret)
  qed
  have conf: "NewClusterConfig shop_parse = Inr \<lparr>cc_ClusterProvider = ''commander'', cc_ClusterBootstrapConfigPath = ''c.yaml''\<rparr>"
    and reg: "registry_Get shop_registry ''commander'' = Inr (commander_constructor (Inr shop_conf) shop_provider)"
    and name: "pv_Name (commander_as_provider shop_provider) = ModeCommander"
    by (simp_all add: NewClusterConfig_def shop_parse_def UnmarshalText_def ModeCommander_def ModeDVP_def shop_registry_def registry_Get_def
        NewRegistry_def mode_String_def commander_as_provider_def)
  show ?thesis
    unfolding e2e_Connect_def conf sum.case cluster_config.simps reg shop_built connectWithProvider_def name
    by (rule yields_bind [OF shop_attach], simp only: sum.case, rule yields_bind [OF new], simp only: prod.case sum.case, rule locked)
qed

lemma shop_release:
  assumes "\<not> ll_released l"
  shows "yields s (Release sample_rt sample_lease_api c l) (None, l\<lparr>ll_renewCancelled := True, ll_released := True, ll_releaseErr := None\<rparr>) s"
proof -
  have "yields s (releaseAttempt sample_lease_api c h) None s" for h
    by (simp add: yields_def releaseAttempt_def lease_call_defs sample_lease_api_def Lease_Lock.not_found_def has_reason_def io_simps)
  then have "yields s (DoVoid sample_rt c DefaultConfig (releaseAttempt sample_lease_api c h)) None s" for h
    by (rule yields_DoVoid)
  then show ?thesis using assms unfolding Release_def by (auto intro: yields_bind yields_ret)
qed

lemma shop_close: "\<exists>x. yields s (e2e_Close sample_rt c shop_handle) x s"
proof -
  have "yields s (run_Cleanup (ec_conn shop_handle)) None s"
    unfolding run_Cleanup_def shop_handle_def shop_conn_def commander_cluster_def
    by (simp, rule yields_bind [OF shop_connect(2) yields_ret])
  note clean = this
  obtain l where l: "ec_lock shop_handle = Some (l, sample_lease_api)" "\<not> ll_released l" "ec_closed shop_handle = False"
    by (simp add: shop_handle_def)
  show ?thesis
    unfolding e2e_Close_def l(1,3) option.case prod.case if_False
    by (rule exI, rule yields_bind, rule yields_bind [OF shop_release [OF l(2)]], simp only: prod.case, rule yields_ret,
        simp only: prod.case, rule yields_bind [OF clean], rule yields_ret)
qed

theorem suite_keeps_no_connection_witness:
  "\<exists>w1 e cl w2. e2e_Connect shop_env shop_parse shop_registry ''/bin/suite'' CtxRoot [] \<lparr>tr = [], est = 1\<rparr> = Some (Inr shop_handle, w1) \<and>
     e2e_Close sample_rt CtxRoot shop_handle w1 = Some ((e, cl), w2) \<and> (\<forall>n. opens (tr w2) n = 0)"
proof -
  obtain u where run: "e2e_Connect shop_env shop_parse shop_registry ''/bin/suite'' CtxRoot [] \<lparr>tr = [], est = 1\<rparr> = Some (Inr shop_handle, \<lparr>tr = [] @ u, est = 1\<rparr>)"
    (is "_ = Some (_, ?w1)")
    using shop_suite [of CtxRoot] unfolding yields_def by blast
  obtain e cl w2 where close: "e2e_Close sample_rt CtxRoot shop_handle ?w1 = Some ((e, cl), w2)"
    using shop_close [of 1 CtxRoot] unfolding yields_def by (metis prod.exhaust)
  note spec = suite_keeps_no_connection [OF run [unfolded shop_registry_def], unfolded sum.case, rule_format, OF close]
  then have "opens (tr w2) n = 0" for n using conjunct1 [OF conjunct2 [OF spec], rule_format, of n] by (simp add: opens_def)
  with run close show ?thesis by blast
qed

theorem suite_locks_healthy_cluster_witness:
  "\<exists>u. e2e_Connect shop_env shop_parse shop_registry ''/bin/suite'' CtxRoot [] \<lparr>tr = [], est = 1\<rparr> = Some (Inr shop_handle, \<lparr>tr = u, est = 1\<rparr>) \<and>
     (\<exists>a b. u = a @ b \<and> list_all lockless a \<and> healthy_pair a) \<and> takes_lock (holderIdentity Lease_Lock.sample_os) (last u)"
proof -
  obtain u where run: "e2e_Connect shop_env shop_parse shop_registry ''/bin/suite'' CtxRoot [] \<lparr>tr = [], est = 1\<rparr> = Some (Inr shop_handle, \<lparr>tr = u, est = 1\<rparr>)"
    using shop_suite [of CtxRoot] unfolding yields_def by (metis append_Nil)
  have "co_healthCheck (newConnectOptions ''/bin/suite'' [])" "co_acquireLock (newConnectOptions ''/bin/suite'' [])" by code_simp+
  with suite_locks_healthy_cluster [OF run [unfolded shop_registry_def]] run show ?thesis
    by (auto simp: shop_env_def)
qed

end
