(* ===== verification/SSH_Conn.thy ===== *)
theory SSH_Conn
  imports Hoare_IO
begin

text \<open>
  The self-healing connection of \<^verbatim>\<open>internal/infrastructure/ssh/v2\<close>: \<^verbatim>\<open>errors.go\<close>, \<^verbatim>\<open>conn.go\<close> and \<^verbatim>\<open>exec.go\<close>. The
  sections under the mutex are functions on the fields of \<^verbatim>\<open>conn\<close>; the goroutines that run them
  (reconnects, the keepalive loop, \<^verbatim>\<open>Close\<close>) are a step relation. A connection that was dialed is a
  number: its client, and the closer of its chain of hops.
\<close>

section \<open>Errors\<close>

definition errClosed :: goerr where "errClosed = ErrSentinel ''ssh: client is closed''"

definition ErrUnexpectedEOF :: goerr where "ErrUnexpectedEOF = ErrSentinel ''unexpected EOF''"
definition ErrNetClosed :: goerr where "ErrNetClosed = ErrSentinel ''use of closed network connection''"

text \<open>The \<^verbatim>\<open>syscall.Errno\<close>s of \<^verbatim>\<open>isTransient\<close>, by their names.\<close>

definition transient_errnos :: "goerr list" where
  "transient_errnos = map ErrSentinel
     [''ECONNRESET'', ''ECONNREFUSED'', ''ECONNABORTED'', ''EPIPE'', ''ETIMEDOUT'', ''EHOSTUNREACH'', ''ENETUNREACH'']"

text \<open>
  \<^verbatim>\<open>isTransient\<close>. Which errors implement \<^verbatim>\<open>net.Error\<close>, and what their \<^verbatim>\<open>Timeout\<close> answers, is the parameter
  \<open>net_err\<close>; \<^verbatim>\<open>errors.AsType\<close> finds the first of them in the tree.
\<close>

definition isTransient :: "(goerr \<Rightarrow> bool option) \<Rightarrow> goerr \<Rightarrow> bool" where
  "isTransient net_err e =
     (if errors_is e ErrCanceled \<or> errors_is e ErrDeadline then False
      else if errors_is e ErrEOF \<or> errors_is e ErrUnexpectedEOF then True
      else if errors_is e ErrNetClosed then True
      else if list_ex (errors_is e) transient_errnos then True
      else (case find (\<lambda>x. net_err x \<noteq> None) (unwrapped e) of
          Some x \<Rightarrow> net_err x = Some True | None \<Rightarrow> False))"

section \<open>The connection\<close>

type_synonym generation = "64 word"

record conn =
  conn_client :: "nat option"
  conn_closer :: "nat option"
  conn_gen :: generation
  conn_closed :: bool

definition newConn :: "nat \<Rightarrow> conn" where
  "newConn n = \<lparr>conn_client = Some n, conn_closer = Some n, conn_gen = 1, conn_closed = False\<rparr>"

definition snapshot :: "conn \<Rightarrow> nat option \<times> generation" where
  "snapshot c = (conn_client c, conn_gen c)"

datatype refresh_check = RefreshClosed | Healed "nat option" generation | MustDial

text \<open>The first section of \<^verbatim>\<open>refresh\<close>: is there anything to heal?\<close>

definition refresh_begin :: "conn \<Rightarrow> generation \<Rightarrow> refresh_check" where
  "refresh_begin c failedGen =
     (if conn_closed c then RefreshClosed
      else if conn_gen c \<noteq> failedGen then Healed (conn_client c) (conn_gen c)
      else MustDial)"

text \<open>Its second section: the new connection replaces the old closer, unless \<^verbatim>\<open>Close\<close> came first.\<close>

definition refresh_install :: "conn \<Rightarrow> nat \<Rightarrow> (conn \<times> nat option) option" where
  "refresh_install c n =
     (if conn_closed c then None
      else Some (c\<lparr>conn_client := Some n, conn_closer := Some n, conn_gen := conn_gen c + 1\<rparr>, conn_closer c))"

text \<open>The section of \<^verbatim>\<open>Close\<close>, with the closer it takes out.\<close>

definition close_begin :: "conn \<Rightarrow> (conn \<times> nat option) option" where
  "close_begin c =
     (if conn_closed c then None
      else Some (c\<lparr>conn_closed := True, conn_client := None, conn_closer := None\<rparr>, conn_closer c))"

section \<open>The goroutines\<close>

text \<open>
  A flight of the \<^verbatim>\<open>singleflight.Group\<close> is a running reconnect; its key is the generation that failed, and
  while it runs, other calls with this key wait for it. Any goroutine may ask for a refresh of any
  generation at any time, so the callers are not part of the state. \<open>Discarding\<close>: the flight is about to
  close a connection, the old one, or its own if the client was closed meanwhile.
\<close>

datatype flight = Dialing | Dialed nat | Discarding nat

datatype keepalive = KeepIdle | Probing generation | Healing generation | KeepDone

text \<open>
  \<open>sy_closing\<close>: \<^verbatim>\<open>Close\<close> is between its section (after which the life of the connection is cancelled) and its
  return, and has this closer left to close. \<open>sy_closes\<close> counts how often each connection was closed.
\<close>

record sys =
  sy_conn :: conn
  sy_flights :: "generation \<rightharpoonup> flight"
  sy_keep :: keepalive
  sy_closing :: "nat option option"
  sy_closes :: "nat \<Rightarrow> nat"
  sy_next :: nat

definition close_it :: "nat option \<Rightarrow> (nat \<Rightarrow> nat) \<Rightarrow> nat \<Rightarrow> nat" where
  "close_it closer cs = (case closer of None \<Rightarrow> cs | Some n \<Rightarrow> cs(n := cs n + 1))"

definition installed :: "sys \<Rightarrow> generation \<Rightarrow> nat \<Rightarrow> sys" where
  "installed s g n = (case refresh_install (sy_conn s) n of
     None \<Rightarrow> s\<lparr>sy_flights := (sy_flights s)(g \<mapsto> Discarding n)\<rparr>
   | Some (c, old) \<Rightarrow> s\<lparr>sy_conn := c, sy_flights := (sy_flights s)(g := map_option Discarding old)\<rparr>)"

inductive cstep :: "sys \<Rightarrow> sys \<Rightarrow> bool" where
  start: "sy_flights s g = None \<Longrightarrow> refresh_begin (sy_conn s) g = MustDial
    \<Longrightarrow> cstep s (s\<lparr>sy_flights := (sy_flights s)(g \<mapsto> Dialing)\<rparr>)"
| dial_fails: "sy_flights s g = Some Dialing \<Longrightarrow> cstep s (s\<lparr>sy_flights := (sy_flights s)(g := None)\<rparr>)"
| dial_works: "sy_flights s g = Some Dialing
    \<Longrightarrow> cstep s (s\<lparr>sy_flights := (sy_flights s)(g \<mapsto> Dialed (sy_next s)), sy_next := Suc (sy_next s)\<rparr>)"
| install: "sy_flights s g = Some (Dialed n) \<Longrightarrow> cstep s (installed s g n)"
| discard: "sy_flights s g = Some (Discarding n)
    \<Longrightarrow> cstep s (s\<lparr>sy_flights := (sy_flights s)(g := None), sy_closes := close_it (Some n) (sy_closes s)\<rparr>)"
| close_starts: "close_begin (sy_conn s) = Some (c, closer)
    \<Longrightarrow> cstep s (s\<lparr>sy_conn := c, sy_closing := Some closer\<rparr>)"
| close_ends: "sy_closing s = Some closer \<Longrightarrow> sy_keep s = KeepDone
    \<Longrightarrow> cstep s (s\<lparr>sy_closing := None, sy_closes := close_it closer (sy_closes s)\<rparr>)"
| keep_tick: "sy_keep s = KeepIdle \<Longrightarrow> snapshot (sy_conn s) = (Some n, g) \<Longrightarrow> cstep s (s\<lparr>sy_keep := Probing g\<rparr>)"
| keep_alive: "sy_keep s = Probing g \<Longrightarrow> cstep s (s\<lparr>sy_keep := KeepIdle\<rparr>)"
| keep_heals: "sy_keep s = Probing g \<Longrightarrow> cstep s (s\<lparr>sy_keep := Healing g\<rparr>)"
| keep_healed: "sy_keep s = Healing g \<Longrightarrow> sy_flights s g = None \<Longrightarrow> cstep s (s\<lparr>sy_keep := KeepIdle\<rparr>)"
| keep_stops: "sy_closing s \<noteq> None \<Longrightarrow> (\<And>g. sy_keep s = Healing g \<Longrightarrow> sy_flights s g = None)
    \<Longrightarrow> cstep s (s\<lparr>sy_keep := KeepDone\<rparr>)"

text \<open>A client begins with one connection, with or without a keepalive loop.\<close>

definition conn_init :: "bool \<Rightarrow> sys" where
  "conn_init keep = \<lparr>sy_conn = newConn 0, sy_flights = Map.empty, sy_keep = (if keep then KeepIdle else KeepDone),
     sy_closing = None, sy_closes = (\<lambda>_. 0), sy_next = 1\<rparr>"

inductive creach :: "bool \<Rightarrow> sys \<Rightarrow> bool" for keep where
  creach_init: "creach keep (conn_init keep)"
| creach_step: "creach keep s \<Longrightarrow> cstep s s' \<Longrightarrow> creach keep s'"

inductive_cases cstep_elim: "cstep s s'"

section \<open>Who closes what\<close>

datatype owner = OConn | OFlight generation | OClosing

fun flight_conn :: "flight \<Rightarrow> nat option" where
  "flight_conn Dialing = None"
| "flight_conn (Dialed n) = Some n"
| "flight_conn (Discarding n) = Some n"

fun owned :: "sys \<Rightarrow> owner \<Rightarrow> nat option" where
  "owned s OConn = conn_closer (sy_conn s)"
| "owned s (OFlight g) = Option.bind (sy_flights s g) flight_conn"
| "owned s OClosing = Option.bind (sy_closing s) (\<lambda>c. c)"

definition alive :: "sys \<Rightarrow> nat \<Rightarrow> bool" where
  "alive s n \<longleftrightarrow> n < sy_next s \<and> sy_closes s n = 0"

definition reconnecting :: "sys \<Rightarrow> generation \<Rightarrow> bool" where
  "reconnecting s g \<longleftrightarrow> sy_flights s g = Some Dialing \<or> (\<exists>n. sy_flights s g = Some (Dialed n))"

text \<open>Every live connection has exactly one owner, who will close it.\<close>

definition accounted :: "(owner \<Rightarrow> nat option) \<Rightarrow> (nat \<Rightarrow> bool) \<Rightarrow> bool" where
  "accounted own al \<longleftrightarrow> (\<forall>w n. own w = Some n \<longrightarrow> al n) \<and>
     (\<forall>w w' n. own w = Some n \<longrightarrow> own w' = Some n \<longrightarrow> w = w') \<and> (\<forall>n. al n \<longrightarrow> (\<exists>w. own w = Some n))"

definition cinv :: "sys \<Rightarrow> bool" where
  "cinv s \<longleftrightarrow> accounted (owned s) (alive s) \<and>
     (\<forall>n. sy_closes s n \<le> 1) \<and> (\<forall>n. 0 < sy_closes s n \<longrightarrow> n < sy_next s) \<and>
     conn_client (sy_conn s) = conn_closer (sy_conn s) \<and>
     (conn_closed (sy_conn s) \<longleftrightarrow> conn_closer (sy_conn s) = None) \<and>
     (sy_closing s \<noteq> None \<longrightarrow> conn_closed (sy_conn s)) \<and>
     (\<forall>g. reconnecting s g \<longrightarrow> g = conn_gen (sy_conn s))"

lemma accounted_swap: "accounted own al \<Longrightarrow> accounted (own(w := own w', w' := own w)) al"
  unfolding accounted_def by (smt (verit, best) fun_upd_apply)

lemma accounted_add:
  "accounted own al \<Longrightarrow> own w = None \<Longrightarrow> \<not> al n \<Longrightarrow> accounted (own(w \<mapsto> n)) (\<lambda>m. al m \<or> m = n)"
  unfolding accounted_def by (smt (verit, best) fun_upd_apply option.distinct(1) option.inject)

lemma accounted_drop:
  "accounted own al \<Longrightarrow> own w = Some n \<Longrightarrow> accounted (own(w := None)) (\<lambda>m. al m \<and> m \<noteq> n)"
proof -
  assume acc: "accounted own al" and w: "own w = Some n"
  have inj: "own w' = Some n \<Longrightarrow> w' = w" and all: "al m \<Longrightarrow> \<exists>w. own w = Some m" for w' m
    using acc w unfolding accounted_def by blast+
  have "\<exists>w'. (own(w := None)) w' = Some m" if m: "al m" "m \<noteq> n" for m
  proof -
    from all [OF m(1)] obtain w' where "own w' = Some m" by blast
    with w m(2) have "(own(w := None)) w' = Some m" by auto
    then show ?thesis by blast
  qed
  with acc inj show ?thesis unfolding accounted_def by (auto split: if_splits)
qed

lemma owned_eqI:
  assumes "own OConn = conn_closer (sy_conn s)" "\<And>g. own (OFlight g) = Option.bind (sy_flights s g) flight_conn"
    "own OClosing = Option.bind (sy_closing s) (\<lambda>c. c)"
  shows "owned s = own"
proof
  show "owned s w = own w" for w using assms by (cases w) simp_all
qed

lemma alive_simps [simp]:
  "alive (s\<lparr>sy_flights := f\<rparr>) = alive s" "alive (s\<lparr>sy_conn := c\<rparr>) = alive s" "alive (s\<lparr>sy_keep := k\<rparr>) = alive s"
  "alive (s\<lparr>sy_closing := x\<rparr>) = alive s"
  by (simp_all add: alive_def fun_eq_iff)

text \<open>Steps that do not change the fields of the connection.\<close>

lemma cinv_frame:
  assumes "cinv s" "accounted (owned s') (alive s')" "\<forall>n. sy_closes s' n \<le> 1" "\<forall>n. 0 < sy_closes s' n \<longrightarrow> n < sy_next s'"
    "sy_conn s' = sy_conn s" "sy_closing s' = sy_closing s \<or> sy_closing s' = None"
    "\<And>g. reconnecting s' g \<Longrightarrow> reconnecting s g \<or> g = conn_gen (sy_conn s)"
  shows "cinv s'"
  using assms unfolding cinv_def by metis

lemma cinv_same:
  assumes "cinv s" "owned s' = owned s" "alive s' = alive s" "sy_closes s' = sy_closes s" "sy_next s' = sy_next s"
    "sy_conn s' = sy_conn s" "sy_closing s' = sy_closing s \<or> sy_closing s' = None"
    "\<And>g. reconnecting s' g \<Longrightarrow> reconnecting s g \<or> g = conn_gen (sy_conn s)"
  shows "cinv s'"
  by (rule cinv_frame [OF assms(1)]) (use assms in \<open>auto simp: cinv_def\<close>)

lemma reconnecting_upd:
  "reconnecting (s\<lparr>sy_flights := (sy_flights s)(g := f)\<rparr>) g' \<longleftrightarrow>
     (if g' = g then f = Some Dialing \<or> (\<exists>n. f = Some (Dialed n)) else reconnecting s g')"
  by (simp add: reconnecting_def)

lemma owned_flight:
  assumes "Option.bind f flight_conn = own"
  shows "owned (s\<lparr>sy_flights := (sy_flights s)(g := f)\<rparr>) = (owned s)(OFlight g := own)"
  by (rule owned_eqI) (use assms in auto)

lemma cinv_init: "cinv (conn_init keep)"
proof -
  have "owned (conn_init keep) = (\<lambda>w. None)(OConn \<mapsto> 0)"
    by (rule owned_eqI) (simp_all add: conn_init_def newConn_def)
  moreover have "alive (conn_init keep) = (\<lambda>m. False \<or> m = 0)" by (auto simp: alive_def conn_init_def fun_eq_iff)
  moreover have "accounted (\<lambda>w. None) (\<lambda>_. False)" by (simp add: accounted_def)
  ultimately have "accounted (owned (conn_init keep)) (alive (conn_init keep))" by (simp only:) (rule accounted_add, simp_all)
  then show ?thesis by (simp add: cinv_def conn_init_def newConn_def reconnecting_def)
qed

lemma cinv_start:
  assumes "cinv s" "sy_flights s g = None" "refresh_begin (sy_conn s) g = MustDial"
  shows "cinv (s\<lparr>sy_flights := (sy_flights s)(g \<mapsto> Dialing)\<rparr>)"
  using assms
  by (intro cinv_same [OF assms(1)])
    (auto simp: owned_flight reconnecting_upd refresh_begin_def fun_upd_idem split: if_splits)

lemma cinv_dial_fails:
  assumes "cinv s" "sy_flights s g = Some Dialing"
  shows "cinv (s\<lparr>sy_flights := (sy_flights s)(g := None)\<rparr>)"
  using assms
  by (intro cinv_same [OF assms(1)]) (auto simp: owned_flight reconnecting_upd fun_upd_idem split: if_splits)

lemma cinv_dial_works:
  assumes "cinv s" "sy_flights s g = Some Dialing"
  shows "cinv (s\<lparr>sy_flights := (sy_flights s)(g \<mapsto> Dialed (sy_next s)), sy_next := Suc (sy_next s)\<rparr>)" (is "cinv ?s")
proof (rule cinv_frame [OF assms(1)])
  have "owned ?s = (owned s)(OFlight g \<mapsto> sy_next s)" by (rule owned_eqI) simp_all
  moreover have "alive ?s = (\<lambda>m. alive s m \<or> m = sy_next s)"
    using assms(1) by (auto simp: cinv_def alive_def fun_eq_iff less_Suc_eq)
  moreover have "accounted ((owned s)(OFlight g \<mapsto> sy_next s)) (\<lambda>m. alive s m \<or> m = sy_next s)"
    by (rule accounted_add) (use assms in \<open>simp_all add: cinv_def alive_def [of s "sy_next s"]\<close>)
  ultimately show "accounted (owned ?s) (alive ?s)" by simp
  show "reconnecting ?s g' \<Longrightarrow> reconnecting s g' \<or> g' = conn_gen (sy_conn s)" for g'
    using assms(2) by (auto simp: reconnecting_def split: if_splits)
qed (use assms(1) in \<open>auto simp: cinv_def less_Suc_eq\<close>)

lemma cinv_install:
  assumes "cinv s" "sy_flights s g = Some (Dialed n)"
  shows "cinv (installed s g n)"
proof (cases "conn_closed (sy_conn s)")
  case True
  have "cinv (s\<lparr>sy_flights := (sy_flights s)(g \<mapsto> Discarding n)\<rparr>)"
    using assms(2) by (intro cinv_same [OF assms(1)]) (auto simp: owned_flight reconnecting_upd fun_upd_idem split: if_splits)
  with True show ?thesis by (simp add: installed_def refresh_install_def)
next
  case False
  let ?c = "sy_conn s"
  let ?s = "s\<lparr>sy_conn := ?c\<lparr>conn_client := Some n, conn_closer := Some n, conn_gen := conn_gen ?c + 1\<rparr>,
    sy_flights := (sy_flights s)(g := map_option Discarding (conn_closer ?c))\<rparr>"
  have "\<And>g'. reconnecting s g' \<Longrightarrow> g' = conn_gen ?c" using assms(1) by (simp add: cinv_def)
  moreover have "reconnecting s g" using assms(2) by (simp add: reconnecting_def)
  ultimately have only: "reconnecting s g' \<Longrightarrow> g' = g" for g' by metis
  have "Option.bind (map_option Discarding x) flight_conn = x" for x by (cases x) simp_all
  then have "owned ?s = (owned s)(OConn := owned s (OFlight g), OFlight g := owned s OConn)"
    by (intro owned_eqI) (auto simp: assms(2))
  moreover have "\<not> reconnecting ?s g'" for g'
    using only [of g'] by (cases "conn_closer ?c") (auto simp: reconnecting_def split: if_splits)
  ultimately have "cinv ?s"
    using assms False accounted_swap [of "owned s" "alive s" OConn "OFlight g"] by (auto simp: cinv_def)
  with False show ?thesis by (simp add: installed_def refresh_install_def)
qed

lemma accounted_closes:
  assumes "cinv s" "owned s w = Some n" "owned s' = (owned s)(w := None)"
    "sy_closes s' = close_it (Some n) (sy_closes s)" "sy_next s' = sy_next s"
  shows "accounted (owned s') (alive s')" "\<forall>m. sy_closes s' m \<le> 1" "\<forall>m. 0 < sy_closes s' m \<longrightarrow> m < sy_next s'"
proof -
  have n: "alive s n" using assms(1,2) by (auto simp: cinv_def accounted_def)
  then have "alive s' = (\<lambda>m. alive s m \<and> m \<noteq> n)" using assms(4,5) by (auto simp: alive_def close_it_def fun_eq_iff)
  moreover have "accounted ((owned s)(w := None)) (\<lambda>m. alive s m \<and> m \<noteq> n)"
    using assms(1,2) by (intro accounted_drop) (auto simp: cinv_def)
  ultimately show "accounted (owned s') (alive s')" "\<forall>m. sy_closes s' m \<le> 1" "\<forall>m. 0 < sy_closes s' m \<longrightarrow> m < sy_next s'"
    using assms n by (auto simp: cinv_def alive_def close_it_def)
qed

lemma cinv_discard:
  assumes "cinv s" "sy_flights s g = Some (Discarding n)"
  shows "cinv (s\<lparr>sy_flights := (sy_flights s)(g := None), sy_closes := close_it (Some n) (sy_closes s)\<rparr>)" (is "cinv ?s")
proof -
  have own: "owned s (OFlight g) = Some n" "owned ?s = (owned s)(OFlight g := None)"
    using assms(2) by (simp_all add: owned_eqI)
  show ?thesis
    by (rule cinv_frame [OF assms(1) accounted_closes [OF assms(1) own]]) (auto simp: reconnecting_def split: if_splits)
qed

lemma cinv_close_starts:
  assumes "cinv s" "close_begin (sy_conn s) = Some (c, closer)"
  shows "cinv (s\<lparr>sy_conn := c, sy_closing := Some closer\<rparr>)" (is "cinv ?s")
proof -
  have c: "\<not> conn_closed (sy_conn s)" "closer = conn_closer (sy_conn s)"
    "c = (sy_conn s)\<lparr>conn_closed := True, conn_client := None, conn_closer := None\<rparr>"
    using assms(2) by (auto simp: close_begin_def split: if_splits)
  with assms(1) have "sy_closing s = None" by (auto simp: cinv_def)
  then have "owned ?s = (owned s)(OConn := owned s OClosing, OClosing := owned s OConn)"
    by (intro owned_eqI) (simp_all add: c)
  then show ?thesis
    using assms(1) accounted_swap [of "owned s" "alive s" OConn OClosing] by (auto simp: cinv_def reconnecting_def c)
qed

lemma cinv_close_ends:
  assumes "cinv s" "sy_closing s = Some closer"
  shows "cinv (s\<lparr>sy_closing := None, sy_closes := close_it closer (sy_closes s)\<rparr>)" (is "cinv ?s")
proof (cases closer)
  case None
  with assms(2) have "owned ?s = owned s" by (intro owned_eqI) simp_all
  then show ?thesis
    by (intro cinv_same [OF assms(1)]) (auto simp: None close_it_def reconnecting_def)
next
  case (Some n)
  with assms(2) have own: "owned s OClosing = Some n" "owned ?s = (owned s)(OClosing := None)" by (simp_all add: owned_eqI)
  show ?thesis
    by (rule cinv_frame [OF assms(1) accounted_closes [OF assms(1) own]]) (auto simp: Some reconnecting_def)
qed

lemma cinv_keep: "cinv s \<Longrightarrow> cinv (s\<lparr>sy_keep := k\<rparr>)"
  by (rule cinv_same) (auto simp: reconnecting_def intro: owned_eqI)

lemma cinv_step: "cstep s s' \<Longrightarrow> cinv s \<Longrightarrow> cinv s'"
  by (induction rule: cstep.induct)
    (simp_all add: cinv_start cinv_dial_fails cinv_dial_works cinv_install cinv_discard cinv_close_starts cinv_close_ends cinv_keep)

lemma cinv_reach: "creach keep s \<Longrightarrow> cinv s"
  by (induction rule: creach.induct) (auto intro: cinv_init cinv_step)

section \<open>What the invariant gives\<close>

text \<open>
  C12. Reconnects, the keepalive loop and \<^verbatim>\<open>Close\<close> never lose or reuse a connection, in any interleaving. No
  connection is closed twice, and each one that is not closed yet belongs to exactly one place that
  will close it: the client, a running reconnect, or \<^verbatim>\<open>Close\<close>. At most one reconnect dials at a time, and
  the connection it installs replaces the generation that failed, never a healthy one, although the
  code does not look at the generation again after the dial. Unless it is closed, the client has a
  connection that is open; when nothing is running, that is the only one.\<close>

theorem conn_one_owner:
  assumes "creach keep s"
  shows "(\<forall>n. sy_closes s n \<le> 1) \<and> (\<forall>n. alive s n \<longrightarrow> (\<exists>!w. owned s w = Some n)) \<and>
    (\<forall>g g'. reconnecting s g \<longrightarrow> reconnecting s g' \<longrightarrow> g = g') \<and>
    (\<forall>g n. sy_flights s g = Some (Dialed n) \<longrightarrow> g = conn_gen (sy_conn s)) \<and>
    (conn_closed (sy_conn s) \<longleftrightarrow> conn_client (sy_conn s) = None) \<and>
    (\<forall>n. conn_client (sy_conn s) = Some n \<longrightarrow> alive s n) \<and>
    (sy_flights s = Map.empty \<and> sy_closing s = None \<longrightarrow> {n. alive s n} = set_option (conn_client (sy_conn s)))"
proof -
  note inv = cinv_reach [OF assms, unfolded cinv_def accounted_def]
  have conn: "owned s OConn = conn_client (sy_conn s)" using inv by simp
  have quiet: "{n. alive s n} = set_option (conn_client (sy_conn s))" if "sy_flights s = Map.empty" "sy_closing s = None"
  proof -
    have "owned s w = None" if "w \<noteq> OConn" for w using that \<open>sy_flights s = _\<close> \<open>sy_closing s = _\<close> by (cases w) simp_all
    then have "alive s n \<longleftrightarrow> owned s OConn = Some n" for n using inv by (metis option.distinct(1))
    then show ?thesis unfolding conn by auto
  qed
  have "reconnecting s g" if "sy_flights s g = Some (Dialed n)" for g n using that by (simp add: reconnecting_def)
  then show ?thesis using inv quiet conn by (intro conjI) metis+
qed

text \<open>What is left to do once the client is closed: every step but an idle one brings it down.\<close>

fun flight_work :: "flight option \<Rightarrow> nat" where
  "flight_work None = 0"
| "flight_work (Some (Discarding n)) = 1"
| "flight_work (Some (Dialed n)) = 2"
| "flight_work (Some Dialing) = 3"

fun keep_work :: "keepalive \<Rightarrow> nat" where
  "keep_work KeepDone = 0"
| "keep_work KeepIdle = 1"
| "keep_work (Healing g) = 2"
| "keep_work (Probing g) = 3"

definition work_left :: "sys \<Rightarrow> nat" where
  "work_left s = (\<Sum>g\<in>UNIV. flight_work (sy_flights s g)) + keep_work (sy_keep s) + (if sy_closing s = None then 0 else 1)"

lemma flight_work_upd:
  "(\<Sum>h\<in>UNIV. flight_work (if h = g then x else fl h)) + flight_work (fl g) = (\<Sum>h\<in>UNIV. flight_work (fl h)) + flight_work x"
  for g :: generation
proof -
  have "(\<Sum>h\<in>UNIV. flight_work (if h = g then x else fl h)) = flight_work x + (\<Sum>h\<in>UNIV - {g}. flight_work (fl h))"
    by (subst sum.remove [of UNIV g]) (auto intro: sum.cong)
  moreover have "(\<Sum>h\<in>UNIV. flight_work (fl h)) = flight_work (fl g) + (\<Sum>h\<in>UNIV - {g}. flight_work (fl h))"
    by (rule sum.remove) simp_all
  ultimately show ?thesis by simp
qed

lemma flight_work_less:
  "flight_work x < flight_work (fl g) \<Longrightarrow> (\<Sum>h\<in>UNIV. flight_work ((fl(g := x)) h)) < (\<Sum>h\<in>UNIV. flight_work (fl h))"
  for g :: generation
  using flight_work_upd [of g x fl] by (simp add: fun_upd_def)

lemma closed_stays: "cstep s s' \<Longrightarrow> conn_closed (sy_conn s) \<Longrightarrow> conn_closed (sy_conn s')"
  by (cases rule: cstep.cases) (auto simp: installed_def refresh_install_def close_begin_def)

lemma work_goes_down:
  assumes "cstep s s'" and closed: "conn_closed (sy_conn s)" "conn_client (sy_conn s) = None" and "s' \<noteq> s"
  shows "work_left s' < work_left s"
  using assms(1)
proof (cases rule: cstep.cases)
  case (keep_stops)
  then have "sy_keep s \<noteq> KeepDone" using assms(4) by auto
  then have "0 < keep_work (sy_keep s)" by (cases "sy_keep s") simp_all
  then show ?thesis using keep_stops by (simp add: work_left_def)
qed (use closed in \<open>auto simp: work_left_def installed_def refresh_install_def refresh_begin_def close_begin_def snapshot_def
    simp del: fun_upd_apply intro!: flight_work_less\<close>)

definition at_rest :: "sys \<Rightarrow> bool" where
  "at_rest s \<longleftrightarrow> (\<forall>s'. cstep s s' \<longrightarrow> s' = s)"

lemma at_rest_closed:
  assumes "at_rest s" and "conn_closed (sy_conn s)"
  shows "sy_flights s = Map.empty \<and> sy_closing s = None"
proof -
  have quiet: "sy_flights s g = None" for g
  proof (rule ccontr)
    assume "sy_flights s g \<noteq> None"
    then obtain f where f: "sy_flights s g = Some f" by blast
    have "\<exists>s'. cstep s s' \<and> sy_flights s' g \<noteq> Some f"
    proof (cases f)
      case Dialing
      with dial_fails [of s g] f show ?thesis by fastforce
    next
      case (Dialed n)
      with install [of s g n] f assms(2) show ?thesis by (fastforce simp: installed_def refresh_install_def)
    next
      case (Discarding n)
      with discard [of s g n] f show ?thesis by fastforce
    qed
    then obtain s' where "cstep s s'" "sy_flights s' g \<noteq> sy_flights s g" using f by auto
    with assms(1) show False by (auto simp: at_rest_def)
  qed
  moreover have "sy_closing s = None"
  proof (rule ccontr)
    assume "sy_closing s \<noteq> None"
    then obtain closer where c: "sy_closing s = Some closer" by blast
    have "cstep s (s\<lparr>sy_keep := KeepDone\<rparr>)" by (rule keep_stops) (simp_all add: c quiet)
    with assms(1) have "s\<lparr>sy_keep := KeepDone\<rparr> = s" by (simp add: at_rest_def)
    then have "sy_keep s = KeepDone" by (metis sys.ext_inject sys.surjective sys.update_convs(3))
    from close_ends [OF c this] assms(1) have "s = s\<lparr>sy_closing := None, sy_closes := close_it closer (sy_closes s)\<rparr>"
      unfolding at_rest_def by metis
    then have "sy_closing s = sy_closing (s\<lparr>sy_closing := None, sy_closes := close_it closer (sy_closes s)\<rparr>)" by (rule arg_cong)
    with c show False by simp
  qed
  ultimately show ?thesis by auto
qed

lemma steps_reach: "cstep\<^sup>*\<^sup>* s s' \<Longrightarrow> creach keep s \<Longrightarrow> creach keep s'"
  by (induction rule: rtranclp_induct) (auto intro: creach_step)

lemma steps_closed: "cstep\<^sup>*\<^sup>* s s' \<Longrightarrow> conn_closed (sy_conn s) \<Longrightarrow> conn_closed (sy_conn s')"
  by (induction rule: rtranclp_induct) (auto dest: closed_stays)

text \<open>
  C13. Closing a client comes to an end. Once \<^verbatim>\<open>Close\<close> was called, whatever reconnects and probes are running,
  the goroutines have only finitely many steps left, in every interleaving, and they can rest only when
  no reconnect is running, \<^verbatim>\<open>Close\<close> has returned, and every connection that was ever dialed has been closed exactly once.\<close>

theorem conn_close_finishes:
  assumes "creach keep s" and "conn_closed (sy_conn s)"
  shows "wf {(s2, s1). cstep\<^sup>*\<^sup>* s s1 \<and> cstep s1 s2 \<and> s2 \<noteq> s1} \<and>
    (\<forall>s'. cstep\<^sup>*\<^sup>* s s' \<longrightarrow> at_rest s' \<longrightarrow> sy_flights s' = Map.empty \<and> sy_closing s' = None \<and> (\<forall>n < sy_next s'. sy_closes s' n = 1))"
proof (intro conjI allI impI)
  have later: "cinv s' \<and> conn_closed (sy_conn s')" if "cstep\<^sup>*\<^sup>* s s'" for s'
    using that assms by (meson cinv_reach steps_reach steps_closed)
  have "work_left s2 < work_left s1" if "cstep\<^sup>*\<^sup>* s s1" "cstep s1 s2" "s2 \<noteq> s1" for s1 s2
    using work_goes_down [OF that(2) _ _ that(3)] later [OF that(1)] by (auto simp: cinv_def)
  then show "wf {(s2, s1). cstep\<^sup>*\<^sup>* s s1 \<and> cstep s1 s2 \<and> s2 \<noteq> s1}"
    by (intro wf_subset [OF wf_measure [of work_left]]) auto
  fix s' assume s': "cstep\<^sup>*\<^sup>* s s'" "at_rest s'"
  then show rest: "sy_flights s' = Map.empty" "sy_closing s' = None" using at_rest_closed later by blast+
  have "owned s' w = None" for w
    using later [OF s'(1)] rest by (cases w) (auto simp: cinv_def)
  then show "sy_closes s' n = 1" if "n < sy_next s'" for n
    using that later [OF s'(1)] unfolding cinv_def accounted_def alive_def by (metis le_neq_implies_less less_one option.distinct(1))
qed

text \<open>A run for the witnesses: the first connection fails, is replaced, and the client is closed.\<close>

definition healed_sys :: sys where
  "healed_sys = (conn_init False)\<lparr>sy_conn := (newConn 0)\<lparr>conn_client := Some 1, conn_closer := Some 1, conn_gen := 2\<rparr>,
     sy_flights := [1 \<mapsto> Discarding 0], sy_next := 2\<rparr>"

lemma healed_reach: "creach False healed_sys"
proof -
  let ?s0 = "conn_init False"
  let ?s1 = "?s0\<lparr>sy_flights := [1 \<mapsto> Dialing]\<rparr>"
  let ?s2 = "?s0\<lparr>sy_flights := [1 \<mapsto> Dialed 1], sy_next := 2\<rparr>"
  have "cstep ?s0 ?s1" using start [of ?s0 1] by (simp add: conn_init_def refresh_begin_def newConn_def)
  moreover have "cstep ?s1 ?s2" using dial_works [of ?s1 1] by (simp add: conn_init_def numeral_2_eq_2)
  moreover have "installed ?s2 1 1 = healed_sys" by (simp add: installed_def refresh_install_def conn_init_def newConn_def healed_sys_def)
  then have "cstep ?s2 healed_sys" using install [of ?s2 1 1] by simp
  ultimately show ?thesis by (meson creach.intros)
qed

theorem conn_one_owner_witness: "alive healed_sys 1 \<and> (\<exists>!w. owned healed_sys w = Some 0)"
proof -
  have "alive healed_sys 0" "conn_client (sy_conn healed_sys) = Some 1" by (simp_all add: alive_def healed_sys_def conn_init_def)
  with conn_one_owner [OF healed_reach] show ?thesis by blast
qed

definition closing_sys :: sys where
  "closing_sys = healed_sys\<lparr>sy_conn := \<lparr>conn_client = None, conn_closer = None, conn_gen = 2, conn_closed = True\<rparr>, sy_closing := Some (Some 1)\<rparr>"

definition rested_sys :: sys where
  "rested_sys = closing_sys\<lparr>sy_flights := Map.empty, sy_closing := None, sy_closes := (\<lambda>_. 0)(0 := 1, 1 := 1)\<rparr>"

lemma closing_run: "creach False closing_sys" "cstep\<^sup>*\<^sup>* closing_sys rested_sys" "at_rest rested_sys"
proof -
  show "creach False closing_sys"
    using creach_step [OF healed_reach close_starts] by (simp add: closing_sys_def close_begin_def healed_sys_def newConn_def)
  let ?s = "closing_sys\<lparr>sy_flights := Map.empty, sy_closes := (\<lambda>_. 0)(0 := 1)\<rparr>"
  have "cstep closing_sys ?s"
    using discard [of closing_sys 1 0] by (simp add: closing_sys_def healed_sys_def conn_init_def close_it_def)
  moreover have "cstep ?s rested_sys"
    using close_ends [of ?s "Some 1"] by (simp add: closing_sys_def rested_sys_def healed_sys_def conn_init_def close_it_def)
  ultimately show "cstep\<^sup>*\<^sup>* closing_sys rested_sys" by (meson converse_rtranclp_into_rtranclp r_into_rtranclp)
  show "at_rest rested_sys"
    by (auto simp: at_rest_def rested_sys_def closing_sys_def healed_sys_def conn_init_def refresh_begin_def close_begin_def elim!: cstep_elim)
qed

theorem conn_close_finishes_witness:
  "wf {(s2, s1). cstep\<^sup>*\<^sup>* closing_sys s1 \<and> cstep s1 s2 \<and> s2 \<noteq> s1} \<and> cstep\<^sup>*\<^sup>* closing_sys rested_sys \<and> at_rest rested_sys \<and>
    sy_next rested_sys = 2 \<and> sy_closes rested_sys 0 = 1 \<and> sy_closes rested_sys 1 = 1"
proof -
  have "conn_closed (sy_conn closing_sys)" and n: "sy_next rested_sys = 2"
    by (simp_all add: rested_sys_def closing_sys_def healed_sys_def)
  with conn_close_finishes [OF closing_run(1)] closing_run show ?thesis by simp
qed

section \<open>Operations on a connection\<close>

text \<open>
  What \<^verbatim>\<open>withConn\<close> and \<^verbatim>\<open>Exec\<close> use. \<open>sn_snapshot\<close> and \<open>sn_refresh\<close> answer as the connection above does, among its
  other users; \<open>sn_wait\<close> is the \<^verbatim>\<open>select\<close> of \<^verbatim>\<open>runWithContext\<close>: the context is done, or the command has ended.
\<close>

record 'e session_lib =
  sn_ctxErr :: "ctx \<Rightarrow> 'e \<Rightarrow> goerr option \<times> 'e"
  sn_snapshot :: "'e \<Rightarrow> (nat option \<times> generation) \<times> 'e"
  sn_refresh :: "ctx \<Rightarrow> generation \<Rightarrow> 'e \<Rightarrow> (goerr + (nat option \<times> generation)) \<times> 'e"
  sn_newSession :: "nat \<Rightarrow> 'e \<Rightarrow> goerr option \<times> 'e"
  sn_start :: "string \<Rightarrow> 'e \<Rightarrow> goerr option \<times> 'e"
  sn_wait :: "ctx \<Rightarrow> 'e \<Rightarrow> (goerr + goerr option) \<times> 'e"
  sn_output :: "'e \<Rightarrow> (string \<times> string) \<times> 'e"
  sn_netErr :: "goerr \<Rightarrow> bool option"

datatype ssh_event = Refreshed generation "goerr option" | OpenedSession nat "goerr option" | Started string "goerr option"
  | Ended "goerr + goerr option" | Killed | ClosedSession

type_synonym ('e, 'a) sact = "(ssh_event, 'e, 'a) io"

text \<open>\<^verbatim>\<open>withConn\<close>: the operation, and a refresh before every further attempt.\<close>

function withConn_loop ::
  "'e session_lib \<Rightarrow> ctx \<Rightarrow> int \<Rightarrow> (nat \<Rightarrow> ('e, goerr + 'a) sact) \<Rightarrow> int \<Rightarrow> nat option \<Rightarrow> generation \<Rightarrow> ('e, goerr + 'a) sact" where
  "withConn_loop lib c retries op attempt client gen =
     io_bind (ask (sn_ctxErr lib c)) (\<lambda>ce. case ce of
       Some e \<Rightarrow> io_ret (Inl e)
     | None \<Rightarrow> (case client of
         None \<Rightarrow> io_ret (Inl errClosed)
       | Some n \<Rightarrow> io_bind (op n) (\<lambda>r. case r of
           Inr x \<Rightarrow> io_ret (Inr x)
         | Inl err \<Rightarrow> io_bind (ask (sn_ctxErr lib c)) (\<lambda>ce. case ce of
             Some e \<Rightarrow> io_ret (Inl e)
           | None \<Rightarrow>
               if \<not> isTransient (sn_netErr lib) err then io_ret (Inl err)
               else if attempt \<ge> retries then io_ret (Inl (wrapf (''after '' @ itoa (attempt + 1) @ '' attempt(s): '') err))
               else io_bind (call (\<lambda>r. Refreshed gen (case r of Inl e \<Rightarrow> Some e | Inr _ \<Rightarrow> None)) (sn_refresh lib c gen)) (\<lambda>r. case r of
                 Inl e \<Rightarrow> io_ret (Inl (wrapf ''heal connection: '' e))
               | Inr (client', gen') \<Rightarrow> withConn_loop lib c retries op (attempt + 1) client' gen')))))"
  by pat_completeness auto
termination
  by (relation "measure (\<lambda>(lib, c, retries, op, attempt, client, gen). nat (retries - attempt))") auto

declare withConn_loop.simps [simp del]

definition withConn :: "'e session_lib \<Rightarrow> ctx \<Rightarrow> int \<Rightarrow> (nat \<Rightarrow> ('e, goerr + 'a) sact) \<Rightarrow> ('e, goerr + 'a) sact" where
  "withConn lib c retries op = io_bind (ask (sn_snapshot lib)) (\<lambda>(client, gen). withConn_loop lib c retries op 0 client gen)"

definition openSession :: "'e session_lib \<Rightarrow> nat \<Rightarrow> ('e, goerr + unit) sact" where
  "openSession lib n = io_bind (call (OpenedSession n) (sn_newSession lib n)) (\<lambda>e. io_ret (case e of
     Some err \<Rightarrow> Inl (wrapf ''open ssh session: '' err) | None \<Rightarrow> Inr ()))"

definition runWithContext :: "'e session_lib \<Rightarrow> ctx \<Rightarrow> string \<Rightarrow> ('e, goerr option) sact" where
  "runWithContext lib c cmd =
     io_bind (call (Started cmd) (sn_start lib cmd)) (\<lambda>e. case e of
       Some err \<Rightarrow> io_ret (Some (wrapf ''start command: '' err))
     | None \<Rightarrow> io_bind (call Ended (sn_wait lib c)) (\<lambda>r. case r of
         Inl ctxe \<Rightarrow> io_bind (call (\<lambda>_. Killed) (\<lambda>s. ((), s))) (\<lambda>_. io_bind (call (\<lambda>_. ClosedSession) (\<lambda>s. ((), s))) (\<lambda>_. io_ret (Some ctxe)))
       | Inr None \<Rightarrow> io_ret None
       | Inr (Some err) \<Rightarrow> io_ret (Some (wrapf (''command '' @ go_quote cmd @ '' failed: '') err))))"

text \<open>\<^verbatim>\<open>errors.As(runErr, &exitErr)\<close>.\<close>

fun exit_leaf :: "goerr \<Rightarrow> int option" where
  "exit_leaf (ErrExit n t) = Some n"
| "exit_leaf e = None"

definition exit_status :: "goerr option \<Rightarrow> int" where
  "exit_status e = (case e of None \<Rightarrow> 0 | Some err \<Rightarrow>
     (case List.map_filter exit_leaf (unwrapped err) of [] \<Rightarrow> 0 | n # _ \<Rightarrow> n))"

definition ssh_Exec :: "'e session_lib \<Rightarrow> ctx \<Rightarrow> int \<Rightarrow> string \<Rightarrow> ('e, exec_result \<times> goerr option) sact" where
  "ssh_Exec lib c retries cmd =
     io_bind (withConn lib c retries (openSession lib)) (\<lambda>r. case r of
       Inl e \<Rightarrow> io_ret (\<lparr>er_stdout = [], er_stderr = [], er_exitCode = 0\<rparr>, Some e)
     | Inr _ \<Rightarrow> io_finally
         (io_bind (runWithContext lib c cmd) (\<lambda>runErr. io_bind (ask (sn_output lib)) (\<lambda>(out, err).
            io_ret (\<lparr>er_stdout = out, er_stderr = err, er_exitCode = exit_status runErr\<rparr>, runErr))))
         (call (\<lambda>_. ClosedSession) (\<lambda>s. ((), s))))"

section \<open>A command runs once\<close>

text \<open>
  The ways the opening of a session can go, with \<open>k\<close> retries left: only a transient failure is followed by
  a refresh, and only a refresh that worked by another attempt. The flag says that a session is open.
\<close>

inductive attempts :: "(goerr \<Rightarrow> bool option) \<Rightarrow> nat \<Rightarrow> ssh_event list \<Rightarrow> bool \<Rightarrow> bool" for ne where
  no_attempt: "attempts ne k [] False"
| opened: "attempts ne k [OpenedSession n None] True"
| failed: "attempts ne k [OpenedSession n (Some e)] False"
| not_healed: "isTransient ne (wrapf ''open ssh session: '' e) \<Longrightarrow> attempts ne (Suc k) [OpenedSession n (Some e), Refreshed g (Some e')] False"
| healed: "isTransient ne (wrapf ''open ssh session: '' e) \<Longrightarrow> attempts ne k u ok
    \<Longrightarrow> attempts ne (Suc k) (OpenedSession n (Some e) # Refreshed g None # u) ok"

definition is_opening :: "ssh_event \<Rightarrow> bool" where
  "is_opening ev = (case ev of OpenedSession n r \<Rightarrow> True | _ \<Rightarrow> False)"

definition is_start :: "ssh_event \<Rightarrow> bool" where
  "is_start ev = (case ev of Started cmd r \<Rightarrow> True | _ \<Rightarrow> False)"

lemma attempts_facts:
  "attempts ne k u ok \<Longrightarrow> length (filter is_opening u) \<le> k + 1 \<and> filter is_start u = [] \<and>
     (ok \<longleftrightarrow> list_ex (\<lambda>ev. \<exists>n. ev = OpenedSession n None) u)"
  by (induction rule: attempts.induct) (auto simp: is_opening_def is_start_def)

lemma withConn_attempts:
  "withConn_loop lib c retries (openSession lib) a client gen w = Some (r, w') \<Longrightarrow>
   \<exists>u. tr w' = tr w @ u \<and> attempts (sn_netErr lib) (nat (retries - a)) u (r = Inr ())"
proof (induction "nat (retries - a)" arbitrary: a client gen w)
  case 0
  then show ?case
    by (subst (asm) withConn_loop.simps)
      (auto simp: io_simps openSession_def split: option.splits sum.splits if_splits prod.splits intro: attempts.intros)
next
  case (Suc k)
  have k: "k = nat (retries - (a + 1))" "nat (retries - a) = Suc k" using Suc.hyps(2) by auto
  note again = Suc.hyps(1) [OF k(1), folded k(1)]
  from Suc.prems show ?case
    by (subst (asm) withConn_loop.simps)
      (auto simp: io_simps openSession_def k(2) split: option.splits sum.splits if_splits prod.splits
        dest!: again intro: attempts.intros)
qed


lemma exit_status_None [simp]: "exit_status None = 0"
  by (simp add: exit_status_def)

text \<open>The events of the session once it is open, with the outcome they leave.\<close>

inductive session_run :: "string \<Rightarrow> ssh_event list \<Rightarrow> int \<Rightarrow> goerr option \<Rightarrow> bool" for cmd where
  not_started: "session_run cmd [Started cmd (Some e), ClosedSession] (exit_status (Some (wrapf ''start command: '' e))) (Some (wrapf ''start command: '' e))"
| cancelled: "session_run cmd [Started cmd None, Ended (Inl e), Killed, ClosedSession, ClosedSession] (exit_status (Some e)) (Some e)"
| succeeded: "session_run cmd [Started cmd None, Ended (Inr None), ClosedSession] 0 None"
| ran_and_failed: "err = wrapf (''command '' @ go_quote cmd @ '' failed: '') e
    \<Longrightarrow> n = exit_status (Some err) \<Longrightarrow> session_run cmd [Started cmd None, Ended (Inr (Some e)), ClosedSession] n (Some err)"

lemma session_run_started_once:
  "session_run cmd v n err \<Longrightarrow> (\<exists>r. filter is_start v = [Started cmd r]) \<and> last v = ClosedSession \<and> filter is_opening v = []"
  by (cases rule: session_run.cases) (auto simp: is_start_def is_opening_def)

lemma session_run_body:
  "io_finally
     (io_bind (runWithContext lib c cmd) (\<lambda>runErr. io_bind (ask (sn_output lib)) (\<lambda>(out, err).
        io_ret (\<lparr>er_stdout = out, er_stderr = err, er_exitCode = exit_status runErr\<rparr>, runErr))))
     (call (\<lambda>_. ClosedSession) (\<lambda>s. ((), s))) w = Some ((res, err), w')
   \<Longrightarrow> \<exists>v. tr w' = tr w @ v \<and> session_run cmd v (er_exitCode res) err"
  by (auto simp: io_simps runWithContext_def split: option.splits sum.splits prod.splits intro!: session_run.intros)


text \<open>
  C14. \<^verbatim>\<open>Client.Exec\<close> repeats only the opening of a session. With \<open>retries\<close> retries at most \<open>retries + 1\<close>
  sessions are tried, a further one only after a transient failure and a refresh that worked; once a session
  is open nothing is repeated: the command is sent exactly once, the session is closed last, and the exit code and the
  error returned are those of that one run. With no session open the command is never sent and an error comes back.\<close>

theorem exec_runs_once:
  assumes run: "ssh_Exec lib c retries cmd w = Some ((res, err), w')"
  shows "\<exists>u ok. attempts (sn_netErr lib) (nat retries) u ok \<and> length (filter is_opening u) \<le> nat retries + 1 \<and> filter is_start u = [] \<and>
    (if ok then \<exists>v. tr w' = tr w @ u @ v \<and> session_run cmd v (er_exitCode res) err \<and> (\<exists>r. filter is_start v = [Started cmd r])
     else tr w' = tr w @ u \<and> err \<noteq> None)"
proof -
  obtain r w1 where opened: "withConn lib c retries (openSession lib) w = Some (r, w1)"
    using run by (auto simp: ssh_Exec_def io_bind_def split: option.splits prod.splits)
  then obtain client gen w0 where "withConn_loop lib c retries (openSession lib) 0 client gen w0 = Some (r, w1)" and w0: "tr w0 = tr w"
    by (auto simp: withConn_def io_simps split: prod.splits)
  from withConn_attempts [OF this(1)] obtain u where u: "tr w1 = tr w @ u" "attempts (sn_netErr lib) (nat retries) u (r = Inr ())"
    using w0 by auto
  have after: "if r = Inr () then \<exists>v. tr w' = tr w @ u @ v \<and> session_run cmd v (er_exitCode res) err else tr w' = tr w @ u \<and> err \<noteq> None"
  proof (cases r)
    case (Inl e)
    with run opened u(1) show ?thesis by (auto simp: ssh_Exec_def io_bind_def io_ret_def)
  next
    case (Inr x)
    with run opened have "io_finally
       (io_bind (runWithContext lib c cmd) (\<lambda>runErr. io_bind (ask (sn_output lib)) (\<lambda>(out, err).
          io_ret (\<lparr>er_stdout = out, er_stderr = err, er_exitCode = exit_status runErr\<rparr>, runErr))))
       (call (\<lambda>_. ClosedSession) (\<lambda>s. ((), s))) w1 = Some ((res, err), w')"
      by (simp add: ssh_Exec_def io_bind_def [of "withConn lib c retries (openSession lib)"])
    from session_run_body [OF this] u(1) Inr show ?thesis by auto
  qed
  from attempts_facts [OF u(2)] u(2) after show ?thesis
    by (intro exI [of _ u] exI [of _ "r = Inr ()"]) (auto split: if_splits dest: session_run_started_once)
qed

text \<open>A client whose first session attempt meets the end of the stream; the refreshed connection runs the command.\<close>

definition one_drop_lib :: "nat session_lib" where
  "one_drop_lib = \<lparr>sn_ctxErr = (\<lambda>c s. (None, s)), sn_snapshot = (\<lambda>s. ((Some 0, 0), s)),
     sn_refresh = (\<lambda>c g s. (Inr (Some 1, g + 1), s)),
     sn_newSession = (\<lambda>n s. (if n = 0 then Some ErrUnexpectedEOF else None, s)), sn_start = (\<lambda>cmd s. (None, s + 1)),
     sn_wait = (\<lambda>c s. (Inr (Some (ErrExit 3 ''exit'')), s)), sn_output = (\<lambda>s. (('''', ''no such file''), s)), sn_netErr = (\<lambda>e. None)\<rparr>"

definition one_drop_trace :: "string \<Rightarrow> ssh_event list" where
  "one_drop_trace cmd = [OpenedSession 0 (Some ErrUnexpectedEOF), Refreshed 0 None, OpenedSession 1 None, Started cmd None,
     Ended (Inr (Some (ErrExit 3 ''exit''))), ClosedSession]"

lemma one_drop_run:
  "ssh_Exec one_drop_lib c 2 cmd \<lparr>tr = [], est = 0\<rparr> =
     Some ((\<lparr>er_stdout = [], er_stderr = ''no such file'', er_exitCode = 3\<rparr>,
       Some (wrapf (''command '' @ go_quote cmd @ '' failed: '') (ErrExit 3 ''exit''))), \<lparr>tr = one_drop_trace cmd, est = 1\<rparr>)"
  apply (simp add: ssh_Exec_def withConn_def io_simps one_drop_lib_def)
  apply (subst withConn_loop.simps)
  apply (simp add: io_simps openSession_def isTransient_def errors_is_def ErrUnexpectedEOF_def)
  apply (subst withConn_loop.simps)
  apply (simp add: io_simps openSession_def runWithContext_def exit_status_def List.map_filter_def one_drop_trace_def ErrUnexpectedEOF_def)
  done

theorem exec_runs_once_witness:
  "\<exists>u v. attempts (sn_netErr one_drop_lib) 2 u True \<and> length (filter is_opening u) \<le> 3 \<and> one_drop_trace ''cat /x'' = u @ v \<and>
     session_run ''cat /x'' v 3 (Some (wrapf (''command '' @ go_quote ''cat /x'' @ '' failed: '') (ErrExit 3 ''exit'')))"
proof -
  have "\<not> (one_drop_trace ''cat /x'' = u \<and> filter is_start u = [])" for u
    by (auto simp: one_drop_trace_def is_start_def)
  with exec_runs_once [OF one_drop_run [of CtxRoot "''cat /x''"]] show ?thesis
    by (force split: if_splits)
qed

end
