(* ===== verification/SSH_Dial.thy ===== *)
theory SSH_Dial
  imports SSH_Conn Connector
begin

text \<open>
  How the SSH library of \<^verbatim>\<open>internal/infrastructure/ssh/v2\<close> connects: \<^verbatim>\<open>dialer.go\<close> (a route of hops, the chain of
  closers), \<^verbatim>\<open>endpoint.go\<close> (credentials, the agent), \<^verbatim>\<open>options.go\<close> and \<^verbatim>\<open>client.go\<close>. A hop of a route is known by its
  position; a resource is the connection to the agent, or the network connection, that was made for a hop. The client
  of a hop owns its network connection, so that closing the client closes it.
\<close>

section \<open>Options\<close>

definition defaultKeepaliveTimeout :: int where "defaultKeepaliveTimeout = 10 * second"

definition resolveKeepaliveTimeout :: "int \<Rightarrow> int \<Rightarrow> int" where
  "resolveKeepaliveTimeout interval configured =
     (if configured > 0 then configured
      else if interval < defaultKeepaliveTimeout then interval
      else defaultKeepaliveTimeout)"

definition WithKeepaliveTimeout :: "int \<Rightarrow> ssh_options \<Rightarrow> ssh_options" where
  "WithKeepaliveTimeout d opts = (if d > 0 then opts\<lparr>so_keepaliveTimeout := d\<rparr> else opts)"

definition WithRetries :: "int \<Rightarrow> ssh_options \<Rightarrow> ssh_options" where
  "WithRetries n opts = opts\<lparr>so_retries := if n < 0 then 0 else n\<rparr>"

section \<open>What dialing uses\<close>

datatype resource = AgentConn nat | HopConn nat

datatype hop_event =
    Acquired resource "goerr option"
  | Dropped resource "goerr option"
  | AgentKeys nat "goerr option"
  | Handshake nat "goerr option"

type_synonym ('e, 'a) dact = "(hop_event, 'e, 'a) io"

record 'h hop = endpoint +
  hop_HostKey :: "'h option"

abbreviation hop_label :: "'h hop \<Rightarrow> string" where "hop_label h \<equiv> endpoint_label (endpoint.truncate h)"
abbreviation hop_addr :: "'h hop \<Rightarrow> string" where "hop_addr h \<equiv> endpoint_addr (endpoint.truncate h)"

text \<open>\<^verbatim>\<open>ssh.ClientConfig\<close>.\<close>

record ('k, 'h) client_config =
  cc_User :: string
  cc_Auth :: "'k list"
  cc_HostKeyCallback :: "'h option"
  cc_Timeout :: int

text \<open>
  The outcome of the \<^verbatim>\<open>select\<close> of \<^verbatim>\<open>dialThroughJump\<close> (and \<^verbatim>\<open>dialChannel\<close>): the dial has answered, or the context has ended
  first, and the dial answers later to the goroutine that waits for it.
\<close>

datatype jump_result = JumpDialed "goerr option" | JumpCancelled goerr "goerr option"

text \<open>
  The operations of \<^verbatim>\<open>net\<close>, \<^verbatim>\<open>golang.org/x/crypto/ssh\<close> and its agent; the deadline that \<^verbatim>\<open>handshakeOver\<close> sets is that of the
  context.
\<close>

record ('e, 'k, 'h) dial_lib =
  dl_keys :: "'k key_lib"
  dl_authSock :: string
  dl_dialAgent :: "ctx \<Rightarrow> string \<Rightarrow> 'e \<Rightarrow> goerr option \<times> 'e"
  dl_signers :: "nat \<Rightarrow> 'e \<Rightarrow> (goerr + 'k list) \<times> 'e"
  dl_dial :: "ctx \<Rightarrow> string \<Rightarrow> 'e \<Rightarrow> goerr option \<times> 'e"
  dl_jump :: "ctx \<Rightarrow> nat \<Rightarrow> string \<Rightarrow> 'e \<Rightarrow> jump_result \<times> 'e"
  dl_handshake :: "ctx \<Rightarrow> nat \<Rightarrow> string \<Rightarrow> ('k, 'h) client_config \<Rightarrow> 'e \<Rightarrow> goerr option \<times> 'e"
  dl_close :: "resource \<Rightarrow> 'e \<Rightarrow> goerr option \<times> 'e"
  dl_netErr :: "goerr \<Rightarrow> bool option"

definition res_Close :: "('e, 'k, 'h) dial_lib \<Rightarrow> resource \<Rightarrow> ('e, goerr option) dact" where
  "res_Close lib r = call (Dropped r) (dl_close lib r)"

section \<open>Credentials\<close>

text \<open>A key that needs a passphrase is skipped when there is none.\<close>

definition parseSigner :: "'k key_lib \<Rightarrow> string \<Rightarrow> string \<Rightarrow> goerr + 'k option" where
  "parseSigner kl raw passphrase = (case kl_ParsePrivateKey kl raw of
     Inr signer \<Rightarrow> Inr (Some signer)
   | Inl err \<Rightarrow>
       if \<not> kl_passphraseMissing kl err then Inl err
       else if passphrase = [] then Inr None
       else (case kl_ParsePrivateKeyWithPassphrase kl raw passphrase of
         Inl err \<Rightarrow> Inl (wrapf ''decrypt private key with passphrase: '' err)
       | Inr signer \<Rightarrow> Inr (Some signer)))"

definition own_signers :: "('e, 'k, 'h) dial_lib \<Rightarrow> 'h hop \<Rightarrow> goerr + 'k list" where
  "own_signers lib e = (if ep_KeyData e = [] then Inr [] else
     case parseSigner (dl_keys lib) (ep_KeyData e) (ep_Passphrase e) of
       Inl err \<Rightarrow> Inl (wrapf (''parse private key for '' @ hop_label e @ '': '') err)
     | Inr None \<Rightarrow> Inr []
     | Inr (Some signer) \<Rightarrow> Inr [signer])"

definition agent_signers :: "('e, 'k, 'h) dial_lib \<Rightarrow> ctx \<Rightarrow> nat \<Rightarrow> ('e, 'k list \<times> resource option) dact" where
  "agent_signers lib c i = (if dl_authSock lib = [] then io_ret ([], None) else
     io_bind (call (Acquired (AgentConn i)) (dl_dialAgent lib c (dl_authSock lib))) (\<lambda>e. case e of
       Some _ \<Rightarrow> io_ret ([], None)
     | None \<Rightarrow> io_bind (call (\<lambda>r. AgentKeys i (case r of Inl e \<Rightarrow> Some e | Inr _ \<Rightarrow> None)) (dl_signers lib i)) (\<lambda>r.
         io_ret (case r of Inl _ \<Rightarrow> [] | Inr keys \<Rightarrow> keys, Some (AgentConn i)))))"

definition clientConfig ::
  "('e, 'k, 'h) dial_lib \<Rightarrow> ctx \<Rightarrow> 'h option \<Rightarrow> nat \<Rightarrow> 'h hop \<Rightarrow> ('e, goerr + (('k, 'h) client_config \<times> resource option)) dact" where
  "clientConfig lib c defaultHostKey i e = (case own_signers lib e of
     Inl err \<Rightarrow> io_ret (Inl err)
   | Inr signers \<Rightarrow> io_bind (agent_signers lib c i) (\<lambda>(agentSigners, agentCloser).
       let signers = signers @ agentSigners in
       if signers = []
       then io_ret (Inl (ErrText (''no usable credentials for '' @ hop_label e @ '': set KeyData or start an ssh-agent'')))
       else io_ret (Inr (\<lparr>cc_User = ep_User e, cc_Auth = signers,
         cc_HostKeyCallback = (case hop_HostKey e of None \<Rightarrow> defaultHostKey | Some cb \<Rightarrow> Some cb),
         cc_Timeout = defaultDialTimeout\<rparr>, agentCloser))))"

section \<open>The chain of closers\<close>

definition chain_add :: "resource list \<Rightarrow> resource option \<Rightarrow> resource list" where
  "chain_add closers c = (case c of None \<Rightarrow> closers | Some r \<Rightarrow> closers @ [r])"

fun close_each :: "('e, 'k, 'h) dial_lib \<Rightarrow> resource list \<Rightarrow> goerr list \<Rightarrow> ('e, goerr list) dact" where
  "close_each lib [] errs = io_ret errs"
| "close_each lib (r # rs) errs = io_bind (res_Close lib r) (\<lambda>e. close_each lib rs (case e of
     Some err \<Rightarrow> if isTransient (dl_netErr lib) err then errs else errs @ [err]
   | None \<Rightarrow> errs))"

definition chain_Close :: "('e, 'k, 'h) dial_lib \<Rightarrow> resource list \<Rightarrow> ('e, goerr option) dact" where
  "chain_Close lib closers = io_bind (close_each lib (rev closers) []) (\<lambda>errs.
     io_ret (if errs = [] then None else Some (wrapf ''close ssh chain: '' (ErrJoin errs))))"

section \<open>Dialing a route\<close>

definition handshakeOver :: "('e, 'k, 'h) dial_lib \<Rightarrow> ctx \<Rightarrow> nat \<Rightarrow> string \<Rightarrow> ('k, 'h) client_config \<Rightarrow> ('e, goerr option) dact" where
  "handshakeOver lib c i addr cfg = call (Handshake i) (dl_handshake lib c i addr cfg)"

text \<open>A failed handshake closes the connection it was tried on.\<close>

definition handshake_or_close :: "('e, 'k, 'h) dial_lib \<Rightarrow> ctx \<Rightarrow> nat \<Rightarrow> string \<Rightarrow> ('k, 'h) client_config \<Rightarrow> ('e, goerr option) dact" where
  "handshake_or_close lib c i addr cfg = io_bind (handshakeOver lib c i addr cfg) (\<lambda>e. case e of
     None \<Rightarrow> io_ret None
   | Some err \<Rightarrow> io_bind (res_Close lib (HopConn i)) (\<lambda>_. io_ret (Some err)))"

definition dialSSH :: "('e, 'k, 'h) dial_lib \<Rightarrow> ctx \<Rightarrow> nat \<Rightarrow> string \<Rightarrow> ('k, 'h) client_config \<Rightarrow> ('e, goerr option) dact" where
  "dialSSH lib c i addr cfg = io_bind (call (Acquired (HopConn i)) (dl_dial lib c addr)) (\<lambda>e. case e of
     Some err \<Rightarrow> io_ret (Some err)
   | None \<Rightarrow> handshake_or_close lib c i addr cfg)"

text \<open>The goroutine that closes a connection which comes too late is run at once.\<close>

definition dialThroughJump :: "('e, 'k, 'h) dial_lib \<Rightarrow> ctx \<Rightarrow> nat \<Rightarrow> string \<Rightarrow> ('e, goerr option) dact" where
  "dialThroughJump lib c i addr =
     io_bind (call (\<lambda>r. Acquired (HopConn i) (case r of JumpDialed e \<Rightarrow> e | JumpCancelled _ e \<Rightarrow> e)) (dl_jump lib c (i - 1) addr)) (\<lambda>r. case r of
       JumpDialed e \<Rightarrow> io_ret e
     | JumpCancelled ctxe (Some _) \<Rightarrow> io_ret (Some ctxe)
     | JumpCancelled ctxe None \<Rightarrow> io_bind (res_Close lib (HopConn i)) (\<lambda>_. io_ret (Some ctxe)))"

text \<open>
  One hop, once its configuration is built: the first is dialed directly, the others through the client of the hop before. The
  errors name the hop; a failed dial of a later hop names the first one too.
\<close>

definition dial_hop ::
  "('e, 'k, 'h) dial_lib \<Rightarrow> ctx \<Rightarrow> 'h hop \<Rightarrow> nat \<Rightarrow> 'h hop \<Rightarrow> ('k, 'h) client_config \<Rightarrow> ('e, goerr option) dact" where
  "dial_hop lib c firstHop i hop cfg = (if i = 0
     then io_bind (dialSSH lib c i (hop_addr hop) cfg) (\<lambda>e. io_ret (map_option (wrapf (''dial '' @ hop_label hop @ '': '')) e))
     else io_bind (dialThroughJump lib c i (hop_addr hop)) (\<lambda>e. case e of
       Some err \<Rightarrow> io_ret (Some (wrapf (''dial '' @ hop_label hop @ '' via '' @ hop_label firstHop @ '': '') err))
     | None \<Rightarrow> io_bind (handshake_or_close lib c i (hop_addr hop) cfg) (\<lambda>e.
         io_ret (map_option (wrapf (''handshake to '' @ hop_label hop @ '': '')) e))))"

text \<open>The hops one after the other, with the chain as it is when the function returns.\<close>

fun dial_hops ::
  "('e, 'k, 'h) dial_lib \<Rightarrow> ctx \<Rightarrow> 'h option \<Rightarrow> 'h hop \<Rightarrow> nat \<Rightarrow> 'h hop list \<Rightarrow> resource list
   \<Rightarrow> ('e, (goerr + nat) \<times> resource list) dact" where
  "dial_hops lib c dhk firstHop i [] chain = io_ret (Inr (i - 1), chain)"
| "dial_hops lib c dhk firstHop i (hop # hops) chain =
     io_bind (clientConfig lib c dhk i hop) (\<lambda>r. case r of
       Inl err \<Rightarrow> io_ret (Inl (wrapf (''build config for '' @ hop_label hop @ '': '') err), chain)
     | Inr (cfg, agentCloser) \<Rightarrow> let chain1 = chain_add chain agentCloser in
     io_bind (dial_hop lib c firstHop i hop cfg) (\<lambda>e. case e of
       Some err \<Rightarrow> io_ret (Inl err, chain1)
     | None \<Rightarrow> dial_hops lib c dhk firstHop (i + 1) hops (chain1 @ [HopConn i])))"

text \<open>\<^verbatim>\<open>route.Dial\<close>: the deferred function closes the chain when there is an error. The client is the last hop's.\<close>

definition route_Dial ::
  "('e, 'k, 'h) dial_lib \<Rightarrow> ctx \<Rightarrow> 'h option \<Rightarrow> 'h hop \<Rightarrow> 'h hop list \<Rightarrow> ('e, goerr + (nat \<times> resource list)) dact" where
  "route_Dial lib c dhk firstHop moreHops = io_bind (dial_hops lib c dhk firstHop 0 (firstHop # moreHops) []) (\<lambda>(r, chain). case r of
     Inl err \<Rightarrow> io_bind (chain_Close lib chain) (\<lambda>_. io_ret (Inl err))
   | Inr client \<Rightarrow> io_ret (Inr (client, chain)))"

text \<open>
  \<^verbatim>\<open>New\<close>: the default host key of the route is that of the options (\<open>None\<close> stands for \<^verbatim>\<open>InsecureIgnoreHostKey\<close>); the
  keepalive loop is started with the given interval and probe timeout.
\<close>

record client =
  ct_conn :: conn
  ct_closers :: "resource list"
  ct_retries :: int
  ct_keepalive :: "(int \<times> int) option"

definition ssh_client_New ::
  "('e, 'k, 'h) dial_lib \<Rightarrow> ctx \<Rightarrow> ('h hop \<times> 'h hop list) option \<Rightarrow> 'h option \<Rightarrow> (ssh_options \<Rightarrow> ssh_options) list \<Rightarrow> ('e, goerr + client) dact" where
  "ssh_client_New lib c d hostKey opts = (case d of
     None \<Rightarrow> io_ret (Inl (ErrText ''ssh: nil dialer''))
   | Some (firstHop, moreHops) \<Rightarrow> let os = fold (\<lambda>opt. opt) opts defaultOptions in
     io_bind (route_Dial lib c hostKey firstHop moreHops) (\<lambda>r. io_ret (case r of
       Inl err \<Rightarrow> Inl (wrapf (''connect to '' @ Describe (map endpoint.truncate (firstHop # moreHops)) @ '': '') err)
     | Inr (cl, closers) \<Rightarrow> Inr \<lparr>ct_conn = newConn cl, ct_closers = closers, ct_retries = so_retries os,
         ct_keepalive = (if so_keepalive os > 0
           then Some (so_keepalive os, resolveKeepaliveTimeout (so_keepalive os) (so_keepaliveTimeout os)) else None)\<rparr>)))"

section \<open>The account of a dial\<close>

text \<open>How often a resource has been acquired and not dropped.\<close>

definition open_delta :: "resource \<Rightarrow> hop_event \<Rightarrow> int" where
  "open_delta r ev = (case ev of Acquired q None \<Rightarrow> if q = r then 1 else 0 | Dropped q _ \<Rightarrow> if q = r then - 1 else 0 | _ \<Rightarrow> 0)"

definition open_count :: "hop_event list \<Rightarrow> resource \<Rightarrow> int" where
  "open_count t r = sum_list (map (open_delta r) t)"

abbreviation listed_once :: "resource list \<Rightarrow> resource \<Rightarrow> int" where
  "listed_once rs r \<equiv> int (count_list rs r)"

lemma open_append [simp]: "open_count (s @ t) r = open_count s r + open_count t r"
  by (simp add: open_count_def)

lemma open_simps [simp]:
  "open_count [] r = 0" "open_count (Acquired q None # t) r = (if q = r then 1 else 0) + open_count t r"
  "open_count (Acquired q (Some e) # t) r = open_count t r" "open_count (Dropped q x # t) r = (if q = r then - 1 else 0) + open_count t r"
  "open_count (AgentKeys i y # t) r = open_count t r" "open_count (Handshake i y # t) r = open_count t r"
  by (simp_all add: open_count_def open_delta_def)

definition account :: "hop_event list \<Rightarrow> (resource \<Rightarrow> int) \<Rightarrow> hop_event list \<Rightarrow> bool" where
  "account t0 f t \<longleftrightarrow> (\<forall>r. open_count t r = open_count t0 r + f r)"

lemma account_cong: "account t0 f t \<Longrightarrow> (\<And>r. f r = g r) \<Longrightarrow> account t0 g t"
  by (simp add: account_def)

lemma res_Close_triple: "triple (account t0 f) (res_Close lib q) (\<lambda>_. account t0 (\<lambda>r. f r - listed_once [q] r))"
  unfolding res_Close_def by (rule triple_call) (simp add: account_def)

lemma close_each_triple: "triple (account t0 f) (close_each lib rs errs) (\<lambda>_. account t0 (\<lambda>r. f r - listed_once rs r))"
proof (induction rs arbitrary: f errs)
  case (Cons q rs)
  show ?case
    unfolding close_each.simps
    by (rule triple_bind [OF res_Close_triple], rule triple_post [OF Cons]) (auto elim: account_cong)
qed (auto intro!: triple_ret elim: account_cong)

lemma chain_Close_triple: "triple (account t0 f) (chain_Close lib rs) (\<lambda>_. account t0 (\<lambda>r. f r - listed_once rs r))"
  unfolding chain_Close_def by (rule triple_bind [OF close_each_triple], rule triple_ret) (simp add: count_list_rev)

lemma agent_triple:
  "triple (account t0 f) (agent_signers lib c i)
     (\<lambda>x. account t0 (\<lambda>r. f r + (case snd x of None \<Rightarrow> 0 | Some q \<Rightarrow> listed_once [q] r)))"
proof (rule tripleI)
  fix w x w'
  assume "account t0 f (tr w)" and "agent_signers lib c i w = Some (x, w')"
  then show "account t0 (\<lambda>r. f r + (case snd x of None \<Rightarrow> 0 | Some q \<Rightarrow> listed_once [q] r)) (tr w')"
    by (auto simp: agent_signers_def io_simps account_def split: if_splits option.splits)
qed

text \<open>
  What \<^verbatim>\<open>clientConfig\<close> leaves open: the connection to the agent that it returns; or, when it finds no credentials at all, a
  connection to the agent that nobody will close.
\<close>

lemma clientConfig_triple:
  "triple (account t0 f) (clientConfig lib c dhk i e) (\<lambda>r t. case r of
     Inl _ \<Rightarrow> account t0 f t \<or> (own_signers lib e = Inr [] \<and> dl_authSock lib \<noteq> [] \<and> account t0 (\<lambda>r. f r + listed_once [AgentConn i] r) t)
   | Inr (cfg, cl) \<Rightarrow> cc_Auth cfg \<noteq> [] \<and> account t0 (\<lambda>r. f r + listed_once (chain_add [] cl) r) t)"
proof (rule tripleI)
  fix w x w'
  assume acc: "account t0 f (tr w)" and run: "clientConfig lib c dhk i e w = Some (x, w')"
  show "case x of Inl _ \<Rightarrow> account t0 f (tr w') \<or> (own_signers lib e = Inr [] \<and> dl_authSock lib \<noteq> [] \<and> account t0 (\<lambda>r. f r + listed_once [AgentConn i] r) (tr w'))
    | Inr (cfg, cl) \<Rightarrow> cc_Auth cfg \<noteq> [] \<and> account t0 (\<lambda>r. f r + listed_once (chain_add [] cl) r) (tr w')"
  proof (cases "own_signers lib e")
    case (Inr own)
    from run obtain keys cl where ag: "agent_signers lib c i w = Some ((keys, cl), w')"
      by (auto simp: clientConfig_def Inr io_simps Let_def split: option.splits if_splits)
    have cl: "cl = None \<or> (cl = Some (AgentConn i) \<and> dl_authSock lib \<noteq> [])"
      using ag by (auto simp: agent_signers_def io_simps split: if_splits option.splits)
    from run ag have x: "x = Inl (ErrText (''no usable credentials for '' @ hop_label e @ '': set KeyData or start an ssh-agent'')) \<and> own = [] \<or>
        (\<exists>cfg. x = Inr (cfg, cl) \<and> cc_Auth cfg \<noteq> [])"
      by (auto simp: clientConfig_def Inr io_simps Let_def split: if_splits)
    from tripleD [OF agent_triple ag acc]
    have "account t0 (\<lambda>r. f r + (case cl of None \<Rightarrow> 0 | Some q \<Rightarrow> listed_once [q] r)) (tr w')" by simp
    with x cl show ?thesis by (auto simp: Inr chain_add_def)
  qed (use run acc in \<open>auto simp: clientConfig_def io_simps\<close>)
qed

lemma handshake_triple:
  "triple (account t0 (\<lambda>r. f r + listed_once [HopConn i] r)) (handshake_or_close lib c i addr cfg)
     (\<lambda>e. account t0 (\<lambda>r. f r + (if e = None then listed_once [HopConn i] r else 0)))"
  unfolding handshake_or_close_def handshakeOver_def
  by (rule triple_bind [OF triple_call [where Q = "\<lambda>_. account t0 (\<lambda>r. f r + listed_once [HopConn i] r)"]])
    (auto intro!: triple_option triple_ret triple_bind [OF res_Close_triple] simp: account_def)

lemma dialSSH_triple:
  "triple (account t0 f) (dialSSH lib c i addr cfg) (\<lambda>e. account t0 (\<lambda>r. f r + (if e = None then listed_once [HopConn i] r else 0)))"
  unfolding dialSSH_def
  by (rule triple_bind [OF triple_call [where Q = "\<lambda>e. account t0 (\<lambda>r. f r + (if e = None then listed_once [HopConn i] r else 0))"]])
    (auto intro!: triple_option triple_ret triple_pre [OF handshake_triple] simp: account_def split: if_splits)

lemma jump_triple:
  "triple (account t0 f) (dialThroughJump lib c i addr) (\<lambda>e. account t0 (\<lambda>r. f r + (if e = None then listed_once [HopConn i] r else 0)))"
proof (rule tripleI)
  fix w e w'
  assume "account t0 f (tr w)" and "dialThroughJump lib c i addr w = Some (e, w')"
  then show "account t0 (\<lambda>r. f r + (if e = None then listed_once [HopConn i] r else 0)) (tr w')"
    by (auto simp: dialThroughJump_def res_Close_def io_simps account_def split: jump_result.splits option.splits)
qed

fun is_hop :: "resource \<Rightarrow> bool" where
  "is_hop (HopConn _) = True"
| "is_hop (AgentConn _) = False"

text \<open>
  The outcome of a dial from hop \<open>i\<close> on: the chain lists what is open, except for one connection to the agent when a hop has no
  credentials; and on success it has the connections of all the hops, in their order.
\<close>

definition leaked_agent :: "('e, 'k, 'h) dial_lib \<Rightarrow> 'h hop list \<Rightarrow> nat \<Rightarrow> bool" where
  "leaked_agent lib hops j \<longleftrightarrow> j < length hops \<and> own_signers lib (hops ! j) = Inr [] \<and> dl_authSock lib \<noteq> []"

definition dial_outcome ::
  "('e, 'k, 'h) dial_lib \<Rightarrow> 'h hop list \<Rightarrow> hop_event list \<Rightarrow> (goerr + nat) \<times> resource list \<Rightarrow> hop_event list \<Rightarrow> bool" where
  "dial_outcome lib hops t0 x t \<longleftrightarrow> (case fst x of
     Inl _ \<Rightarrow> account t0 (listed_once (snd x)) t \<or>
       (\<exists>j. leaked_agent lib hops j \<and> account t0 (\<lambda>r. listed_once (snd x) r + listed_once [AgentConn j] r) t)
   | Inr client \<Rightarrow> account t0 (listed_once (snd x)) t \<and> client = length hops - 1 \<and>
       filter is_hop (snd x) = map HopConn [0..<length hops])"

lemma listed_chain_add: "listed_once (chain_add rs q) r = listed_once rs r + listed_once (chain_add [] q) r"
  by (simp add: chain_add_def split: option.splits)

lemma is_hop_agent:
  "clientConfig lib c dhk i e w = Some (Inr (cfg, q), w') \<Longrightarrow> filter is_hop (chain_add rs q) = filter is_hop rs"
  by (auto simp: clientConfig_def agent_signers_def chain_add_def io_simps Let_def split: sum.splits if_splits option.splits)

lemma dial_hop_triple:
  "triple (account t0 f) (dial_hop lib c firstHop i hop cfg) (\<lambda>e. account t0 (\<lambda>r. f r + (if e = None then listed_once [HopConn i] r else 0)))"
  unfolding dial_hop_def
  by (rule triple_if; rule triple_bind, rule dialSSH_triple jump_triple)
    (auto intro!: triple_option triple_ret triple_bind triple_pre [OF handshake_triple])

lemma dial_hops_outcome:
  assumes "filter is_hop chain = map HopConn [0..<length done_hops]"
  shows "triple (account t0 (listed_once chain)) (dial_hops lib c dhk firstHop (length done_hops) hops chain)
    (dial_outcome lib (done_hops @ hops) t0)"
  using assms
proof (induction hops arbitrary: done_hops chain)
  case (Cons hop hops)
  let ?i = "length done_hops" and ?hops = "done_hops @ hop # hops"
  show ?case
  proof (rule tripleI)
    fix w x w'
    assume acc: "account t0 (listed_once chain) (tr w)"
      and run: "dial_hops lib c dhk firstHop ?i (hop # hops) chain w = Some (x, w')"
    then obtain r w1 where r: "clientConfig lib c dhk ?i hop w = Some (r, w1)"
      by (auto simp: io_bind_apply split: option.splits)
    note conf = tripleD [OF clientConfig_triple r acc]
    show "dial_outcome lib ?hops t0 x (tr w')"
    proof (cases r)
      case (Inl e)
      have leak: "leaked_agent lib ?hops ?i" if "own_signers lib hop = Inr []" "dl_authSock lib \<noteq> []"
        using that by (simp add: leaked_agent_def)
      from run r Inl have "w' = w1" "snd x = chain" "\<exists>err. fst x = Inl err" by (auto simp: io_simps)
      with conf leak show ?thesis unfolding Inl by (auto simp: dial_outcome_def)
    next
      case (Inr y)
      obtain cfg q where y: "y = (cfg, q)" by (cases y)
      let ?chain = "chain_add chain q"
      have acc1: "account t0 (listed_once ?chain) (tr w1)"
        using conf by (auto simp: Inr y listed_chain_add [of chain] elim: account_cong)
      from run r obtain e w2 where e: "dial_hop lib c firstHop ?i hop cfg w1 = Some (e, w2)"
        by (auto simp: io_bind_apply Inr y Let_def split: option.splits)
      note dialed = tripleD [OF dial_hop_triple e acc1]
      show ?thesis
      proof (cases e)
        case (Some err)
        with run r e dialed show ?thesis by (auto simp: io_simps Inr y Let_def dial_outcome_def)
      next
        case None
        with run r e have rest: "dial_hops lib c dhk firstHop (length (done_hops @ [hop])) hops (?chain @ [HopConn ?i]) w2 = Some (x, w')"
          by (auto simp: io_bind_apply Inr y Let_def split: option.splits)
        have ih: "triple (account t0 (listed_once (?chain @ [HopConn ?i])))
            (dial_hops lib c dhk firstHop (length (done_hops @ [hop])) hops (?chain @ [HopConn ?i]))
            (dial_outcome lib ((done_hops @ [hop]) @ hops) t0)"
          by (rule Cons.IH) (use is_hop_agent [OF r [unfolded Inr y], of chain] Cons.prems in simp)
        from dialed have "account t0 (listed_once (?chain @ [HopConn ?i])) (tr w2)" by (auto simp: None elim: account_cong)
        from tripleD [OF ih rest this] show ?thesis by simp
      qed
    qed
  qed
qed (auto intro!: triple_ret simp: dial_outcome_def)

lemma close_each_trace:
  "close_each lib rs errs w = Some (x, w') \<Longrightarrow> \<exists>es. length es = length rs \<and> tr w' = tr w @ map2 Dropped rs es"
proof (induction rs arbitrary: errs w)
  case (Cons q rs)
  let ?e = "fst (dl_close lib q (est w))"
  from Cons.prems obtain errs' where "close_each lib rs errs' (w\<lparr>tr := tr w @ [Dropped q ?e], est := snd (dl_close lib q (est w))\<rparr>) = Some (x, w')"
    by (auto simp: res_Close_def io_simps)
  from Cons.IH [OF this] obtain es where "length es = length rs" "tr w' = tr w @ Dropped q ?e # map2 Dropped rs es" by auto
  then show ?case by (intro exI [of _ "?e # es"]) simp
qed (simp add: io_ret_apply)

lemma chain_Close_trace:
  "chain_Close lib chain w = Some (e, w') \<Longrightarrow> \<exists>es. length es = length chain \<and> tr w' = tr w @ map2 Dropped (rev chain) es"
  using close_each_trace [of lib "rev chain"] by (fastforce simp: chain_Close_def io_simps split: option.splits)

text \<open>
  C7. A dial through any number of jump hosts is all or nothing. If \<^verbatim>\<open>Dial\<close> fails at any hop, every network connection it
  made has been closed again, also one that a jump host delivers after the context has ended; at most one connection
  to the SSH agent stays open, that of a hop which has no usable key of its own (the agent having offered none). If it
  succeeds, the chain it returns lists exactly what is open, with the connection of every hop in order; closing it closes
  each of them once, the last first, even when some of them report errors.\<close>

theorem dial_all_or_nothing:
  assumes "route_Dial lib c dhk firstHop moreHops w = Some (res, w')"
  shows "case res of
      Inl _ \<Rightarrow> (\<forall>r. open_count (tr w') r = open_count (tr w) r) \<or>
        (\<exists>j. leaked_agent lib (firstHop # moreHops) j \<and>
           (\<forall>r. open_count (tr w') r = open_count (tr w) r + (if r = AgentConn j then 1 else 0)))
    | Inr (client, chain) \<Rightarrow> client = length moreHops \<and> filter is_hop chain = map HopConn [0..<Suc (length moreHops)] \<and>
        (\<forall>r. open_count (tr w') r = open_count (tr w) r + int (count_list chain r)) \<and>
        (\<forall>v e v'. chain_Close lib chain v = Some (e, v') \<longrightarrow>
           (\<exists>errs. length errs = length chain \<and> tr v' = tr v @ map2 Dropped (rev chain) errs))"
proof -
  let ?hops = "firstHop # moreHops"
  from assms obtain x w1 where x: "dial_hops lib c dhk firstHop 0 ?hops [] w = Some (x, w1)"
    by (auto simp: route_Dial_def io_bind_apply split: option.splits simp del: dial_hops.simps)
  have "triple (account (tr w) (listed_once [])) (dial_hops lib c dhk firstHop 0 ?hops []) (dial_outcome lib ?hops (tr w))"
    using dial_hops_outcome [of "[]" "[]" "tr w" lib c dhk firstHop ?hops] by (simp del: dial_hops.simps)
  from tripleD [OF this x] have out: "dial_outcome lib ?hops (tr w) x (tr w1)" by (simp add: account_def)
  obtain r chain where rc: "x = (r, chain)" by (cases x)
  show ?thesis
  proof (cases r)
    case (Inl err)
    with assms x rc obtain e where cl: "chain_Close lib chain w1 = Some (e, w')" and res: "res = Inl err"
      by (auto simp: route_Dial_def io_simps split: option.splits simp del: dial_hops.simps)
    have close: "account (tr w) (\<lambda>r. f r - listed_once chain r) (tr w')" if "account (tr w) f (tr w1)" for f
      by (rule tripleD [OF chain_Close_triple cl that])
    from out consider "account (tr w) (listed_once chain) (tr w1)"
      | j where "leaked_agent lib ?hops j" "account (tr w) (\<lambda>r. listed_once chain r + listed_once [AgentConn j] r) (tr w1)"
      by (auto simp: dial_outcome_def rc Inl)
    then show ?thesis
    proof cases
      case 1
      from close [OF this] show ?thesis by (simp add: account_def res)
    next
      case (2 j)
      from close [OF 2(2)] have "\<forall>r. open_count (tr w') r = open_count (tr w) r + (if r = AgentConn j then 1 else 0)"
        by (simp add: account_def)
      with 2(1) show ?thesis unfolding res by auto
    qed
  next
    case (Inr client)
    with assms x rc have "res = Inr (client, chain)" "w' = w1"
      by (auto simp: route_Dial_def io_simps simp del: dial_hops.simps)
    with out show ?thesis unfolding dial_outcome_def rc Inr by (auto simp: account_def dest: chain_Close_trace)
  qed
qed

text \<open>
  The timeouts handed to the keepalive loop are positive, so that its ticker and timers are well-formed; the probe is bounded
  by what was configured, or by the interval and ten seconds.
\<close>

lemma keepalive_timeout_ok:
  "0 < interval \<Longrightarrow> 0 < resolveKeepaliveTimeout interval configured \<and>
     (configured \<le> 0 \<longrightarrow> resolveKeepaliveTimeout interval configured = min interval defaultKeepaliveTimeout)"
  by (simp add: resolveKeepaliveTimeout_def defaultKeepaliveTimeout_def second_def)

lemma retries_ok: "0 \<le> so_retries (WithRetries n opts)"
  by (simp add: WithRetries_def)

lemma client_keepalive_ok:
  "ssh_client_New lib c d hk opts w = Some (Inr cl, w') \<Longrightarrow> ct_keepalive cl = Some (iv, pt) \<Longrightarrow> 0 < iv \<and> 0 < pt"
  by (auto simp: ssh_client_New_def io_simps Let_def keepalive_timeout_ok split: option.splits sum.splits if_splits)

section \<open>A route through a jump host\<close>

definition jump_keys :: "nat key_lib" where
  "jump_keys = \<lparr>kl_ParsePrivateKey = (\<lambda>raw. if raw = ''KEY'' then Inr 1 else Inl (ErrText ''bad'')), kl_passphraseMissing = (\<lambda>_. False),
     kl_ParsePrivateKeyWithPassphrase = (\<lambda>_ _. Inr 1), kl_MarshalAuthorizedKey = (\<lambda>_. [])\<rparr>"

definition jump_lib :: "(nat, nat, unit) dial_lib" where
  "jump_lib = \<lparr>dl_keys = jump_keys, dl_authSock = ''/agent'', dl_dialAgent = (\<lambda>c a s. (None, s)), dl_signers = (\<lambda>i s. (Inr [], s)),
     dl_dial = (\<lambda>c a s. (None, s)), dl_jump = (\<lambda>c i a s. (JumpDialed None, s)),
     dl_handshake = (\<lambda>c i a cfg s. (if i = s then Some ErrEOF else None, s)), dl_close = (\<lambda>r s. (None, s)), dl_netErr = (\<lambda>_. None)\<rparr>"

definition jump_hop :: "string \<Rightarrow> unit hop" where
  "jump_hop a = \<lparr>ep_User = ''u'', ep_Addr = a, ep_KeyData = ''KEY'', ep_Passphrase = [], hop_HostKey = None\<rparr>"

theorem dial_all_or_nothing_witness:
  "\<exists>chain w1 e w2. route_Dial jump_lib CtxRoot None (jump_hop ''bastion'') [jump_hop ''master''] \<lparr>tr = [], est = 7\<rparr> = Some (Inr (1, chain), w1) \<and>
     filter is_hop chain = [HopConn 0, HopConn 1] \<and> (\<forall>r. open_count (tr w1) r = int (count_list chain r)) \<and>
     route_Dial jump_lib CtxRoot None (jump_hop ''bastion'') [jump_hop ''master''] \<lparr>tr = [], est = 1\<rparr> = Some (Inl e, w2) \<and>
     (\<forall>r. open_count (tr w2) r = 0)"
proof -
  have own: "own_signers jump_lib (jump_hop a) = Inr [1]" for a
    by (simp add: own_signers_def jump_lib_def jump_hop_def parseSigner_def jump_keys_def)
  have sels: "dl_authSock jump_lib = ''/agent''" "dl_dialAgent jump_lib c a s = (None, s)" "dl_signers jump_lib i s = (Inr [], s)"
    "dl_dial jump_lib c a s = (None, s)" "dl_jump jump_lib c i a s = (JumpDialed None, s)"
    "dl_handshake jump_lib c i a cfg s = (if i = s then Some ErrEOF else None, s)" "dl_close jump_lib r s = (None, s)" for c a s i r cfg
    by (simp_all add: jump_lib_def)
  have run: "\<exists>chain w1. route_Dial jump_lib CtxRoot None (jump_hop ''bastion'') [jump_hop ''master''] \<lparr>tr = [], est = 7\<rparr> = Some (Inr (1, chain), w1)"
    "\<exists>e w2. route_Dial jump_lib CtxRoot None (jump_hop ''bastion'') [jump_hop ''master''] \<lparr>tr = [], est = 1\<rparr> = Some (Inl e, w2)"
    by (simp_all add: route_Dial_def clientConfig_def own agent_signers_def dial_hop_def dialSSH_def dialThroughJump_def handshake_or_close_def
        handshakeOver_def res_Close_def chain_Close_def chain_add_def io_simps Let_def sels)
  have "leaked_agent jump_lib [jump_hop ''bastion'', jump_hop ''master''] j \<Longrightarrow> False" for j
    using own by (cases j) (auto simp: leaked_agent_def)
  with run dial_all_or_nothing [of jump_lib CtxRoot None "jump_hop ''bastion''" "[jump_hop ''master'']"] show ?thesis
    by (fastforce simp: upt_rec)
qed

end
