(* ===== verification/SSH_Tunnel.thy ===== *)
theory SSH_Tunnel
  imports SSH_Dial
begin

text \<open>
  A tunnel of the SSH library (\<^verbatim>\<open>tunnel.go\<close>): \<^verbatim>\<open>OpenTunnel\<close>, and a step relation for the goroutines of a tunnel: the accept loop \<^verbatim>\<open>serve\<close>,
  one \<^verbatim>\<open>handle\<close> for each accepted connection with the goroutines it starts (the two copies, the watcher of the context, and for each attempt to
  dial the goroutine in \<^verbatim>\<open>client.Dial\<close> and, when it is abandoned, the one that drains its result), and \<^verbatim>\<open>Close\<close>. A goroutine moves from one
  point at which it can wait to the next in one step; accepts, dials and copies may end at any time.
\<close>

section \<open>The tunnel\<close>

definition acceptDeadline :: int where "acceptDeadline = 500000000"

text \<open>
  \<open>ServeLoop\<close>: at the head of the loop, about to look at the context. \<open>ServeAccept\<close>: in \<^verbatim>\<open>Accept\<close>. \<open>ServeLeave\<close>: returning, with
  the deferred close of the listener still to run.
\<close>

datatype serve_state = ServeLoop | ServeAccept | ServeLeave | ServeDone

text \<open>
  The goroutine of \<^verbatim>\<open>handle\<close>. \<open>HandleConn\<close>: in \<^verbatim>\<open>withConn\<close>, between two attempts. \<open>HandleDial\<close>: in \<^verbatim>\<open>dialChannel\<close>, with what has been sent on its
  channel, if anything: whether there is a connection. \<open>HandleCopy\<close>: both connections are copied, and the first end of a direction is awaited.
  \<open>HandleDrain\<close>: the other direction is awaited. \<open>HandleDone\<close>: it has left the wait group.
\<close>

datatype handle_state = HandleConn | HandleDial "bool option" | HandleCopy | HandleDrain | HandleDone

datatype conn_state = NoConn | ConnOpen | ConnClosed

text \<open>The watcher: waiting, between its two closes, or ended.\<close>

datatype watch_state = NoWatch | Watching | WatchLocal | WatchDone

text \<open>
  \<open>h_left\<close>: the attempts that \<^verbatim>\<open>withConn\<close> has left. \<open>h_copies\<close>: the copies that are running. \<open>h_pending\<close>: the abandoned calls of
  \<^verbatim>\<open>client.Dial\<close> that have not returned, each with a goroutine that waits for the result. \<open>h_late\<close>: the connections that such calls have
  delivered and that are still to be closed by that goroutine.
\<close>

record handler =
  h_state :: handle_state
  h_left :: nat
  h_local :: conn_state
  h_remote :: conn_state
  h_copies :: nat
  h_watch :: watch_state
  h_pending :: nat
  h_late :: nat

datatype close_state = CloseNotCalled | CloseCancelled | CloseWaiting | CloseReturned

record tunnel =
  LocalPort :: int
  RemotePort :: int
  tn_cancelled :: bool
  tn_lnClosed :: bool
  tn_lnCloses :: nat
  tn_serve :: serve_state
  tn_handles :: "handler list"
  tn_retries :: int
  tn_close :: close_state

definition tunnel_init :: "int \<Rightarrow> int \<Rightarrow> int \<Rightarrow> tunnel" where
  "tunnel_init localPort remotePort retries = \<lparr>LocalPort = localPort, RemotePort = remotePort, tn_cancelled = False, tn_lnClosed = False,
     tn_lnCloses = 0, tn_serve = ServeLoop, tn_handles = [], tn_retries = retries, tn_close = CloseNotCalled\<rparr>"

definition tunnel_LocalAddr :: "tunnel \<Rightarrow> string" where
  "tunnel_LocalAddr t = ''127.0.0.1:'' @ itoa (LocalPort t)"

text \<open>\<^verbatim>\<open>closeListener\<close>: the first call closes the listener.\<close>

definition closeListener :: "tunnel \<Rightarrow> tunnel" where
  "closeListener t = (if tn_lnClosed t then t else t\<lparr>tn_lnClosed := True, tn_lnCloses := tn_lnCloses t + 1\<rparr>)"

text \<open>
  \<^verbatim>\<open>OpenTunnel\<close>. A listener has an address (its port, if it is a TCP address). \<open>retries\<close> are those of the client. The result is the tunnel with \<^verbatim>\<open>serve\<close> started.
\<close>

datatype tunnel_event = Listened "goerr option" | ListenerClosed "goerr option"

record 'e tunnel_lib =
  tl_ctxErr :: "ctx \<Rightarrow> 'e \<Rightarrow> goerr option \<times> 'e"
  tl_listen :: "ctx \<Rightarrow> string \<Rightarrow> 'e \<Rightarrow> (goerr + (string + int)) \<times> 'e"
  tl_closeListener :: "'e \<Rightarrow> goerr option \<times> 'e"

definition client_OpenTunnel :: "'e tunnel_lib \<Rightarrow> int \<Rightarrow> ctx \<Rightarrow> int \<Rightarrow> (tunnel_event, 'e, goerr + tunnel) io" where
  "client_OpenTunnel lib retries c remotePort = io_bind (ask (tl_ctxErr lib c)) (\<lambda>e. case e of
     Some err \<Rightarrow> io_ret (Inl (wrapf ''tunnel setup: '' err))
   | None \<Rightarrow> io_bind (call (\<lambda>r. Listened (case r of Inl e \<Rightarrow> Some e | Inr _ \<Rightarrow> None)) (tl_listen lib c ''127.0.0.1:0'')) (\<lambda>r. case r of
       Inl err \<Rightarrow> io_ret (Inl (wrapf ''listen on local port: '' err))
     | Inr (Inl ty) \<Rightarrow> io_bind (call ListenerClosed (tl_closeListener lib)) (\<lambda>_.
         io_ret (Inl (ErrText (''unexpected listener address type '' @ ty))))
     | Inr (Inr localPort) \<Rightarrow> io_ret (Inr (tunnel_init localPort remotePort retries))))"

section \<open>The goroutines\<close>

definition in_group :: "tunnel \<Rightarrow> nat" where
  "in_group t = (if tn_serve t = ServeDone then 0 else 1) + length (filter (\<lambda>h. h_state h \<noteq> HandleDone) (tn_handles t))"

definition new_handler :: "int \<Rightarrow> handler" where
  "new_handler retries = \<lparr>h_state = HandleConn, h_left = nat retries + 1, h_local = ConnOpen, h_remote = NoConn, h_copies = 0,
     h_watch = NoWatch, h_pending = 0, h_late = 0\<rparr>"

text \<open>\<^verbatim>\<open>Close\<close> of the remote connection, if there is one.\<close>

definition close_remote :: "handler \<Rightarrow> handler" where
  "close_remote h = (if h_remote h = NoConn then h else h\<lparr>h_remote := ConnClosed\<rparr>)"

text \<open>
  The steps of one handler, given whether the context has ended. The \<^verbatim>\<open>select\<close> of \<^verbatim>\<open>dialChannel\<close> may take the end of the context although the result is there;
  the result is then left to the draining goroutine. \<open>conn_failed\<close>: \<^verbatim>\<open>withConn\<close> returns an error. The deferred closes of \<^verbatim>\<open>handle\<close> run when it
  returns.
\<close>

inductive hstep :: "bool \<Rightarrow> handler \<Rightarrow> handler \<Rightarrow> bool" for cancelled where
  dial_start: "h_state h = HandleConn \<Longrightarrow> \<not> cancelled \<Longrightarrow> h_left h = Suc n \<Longrightarrow> hstep cancelled h (h\<lparr>h_state := HandleDial None, h_left := n\<rparr>)"
| conn_failed: "h_state h = HandleConn \<Longrightarrow> hstep cancelled h (h\<lparr>h_state := HandleDone, h_local := ConnClosed\<rparr>)"
| dial_returns: "h_state h = HandleDial None \<Longrightarrow> hstep cancelled h (h\<lparr>h_state := HandleDial (Some ok)\<rparr>)"
| dialed: "h_state h = HandleDial (Some True) \<Longrightarrow>
    hstep cancelled h (h\<lparr>h_state := HandleCopy, h_remote := ConnOpen, h_copies := 2, h_watch := Watching\<rparr>)"
| dial_failed: "h_state h = HandleDial (Some False) \<Longrightarrow> hstep cancelled h (h\<lparr>h_state := HandleConn\<rparr>)"
| dial_abandoned: "h_state h = HandleDial r \<Longrightarrow> cancelled \<Longrightarrow> hstep cancelled h (h\<lparr>h_state := HandleConn,
    h_pending := h_pending h + (if r = None then 1 else 0), h_late := h_late h + (if r = Some True then 1 else 0)\<rparr>)"
| late_connection: "h_pending h = Suc n \<Longrightarrow> hstep cancelled h (h\<lparr>h_pending := n, h_late := h_late h + 1\<rparr>)"
| late_failure: "h_pending h = Suc n \<Longrightarrow> hstep cancelled h (h\<lparr>h_pending := n\<rparr>)"
| late_closed: "h_late h = Suc n \<Longrightarrow> hstep cancelled h (h\<lparr>h_late := n\<rparr>)"
| copy_ends: "h_copies h = Suc n \<Longrightarrow> hstep cancelled h (h\<lparr>h_copies := n\<rparr>)"
| half_done: "h_state h = HandleCopy \<Longrightarrow> h_copies h \<le> 1 \<Longrightarrow> hstep cancelled h ((close_remote h)\<lparr>h_state := HandleDrain, h_local := ConnClosed\<rparr>)"
| handle_end: "h_state h = HandleDrain \<Longrightarrow> h_copies h = 0 \<Longrightarrow> hstep cancelled h ((close_remote h)\<lparr>h_state := HandleDone, h_local := ConnClosed\<rparr>)"
| watch_local: "h_watch h = Watching \<Longrightarrow> cancelled \<Longrightarrow> hstep cancelled h (h\<lparr>h_watch := WatchLocal, h_local := ConnClosed\<rparr>)"
| watch_remote: "h_watch h = WatchLocal \<Longrightarrow> hstep cancelled h ((close_remote h)\<lparr>h_watch := WatchDone\<rparr>)"
| watch_stop: "h_watch h = Watching \<Longrightarrow> h_state h = HandleDone \<Longrightarrow> hstep cancelled h (h\<lparr>h_watch := WatchDone\<rparr>)"

text \<open>
  \<open>parent\<close>: the context given to \<^verbatim>\<open>OpenTunnel\<close> ends. \<open>accept_retry\<close>: the accept deadline passed. \<open>accept_failed\<close>: any other error of
  \<^verbatim>\<open>Accept\<close>, or any error after the context has ended; a closed listener accepts nothing. \<open>wait_done\<close>: \<^verbatim>\<open>wg.Wait\<close> returns, which waits for \<^verbatim>\<open>serve\<close> and the
  goroutines of \<^verbatim>\<open>handle\<close>, but not for watchers and abandoned dials.
\<close>

inductive tstep :: "tunnel \<Rightarrow> tunnel \<Rightarrow> bool" where
  parent: "\<not> tn_cancelled t \<Longrightarrow> tstep t (t\<lparr>tn_cancelled := True\<rparr>)"
| loop_go: "tn_serve t = ServeLoop \<Longrightarrow> \<not> tn_cancelled t \<Longrightarrow> tstep t (t\<lparr>tn_serve := ServeAccept\<rparr>)"
| loop_stop: "tn_serve t = ServeLoop \<Longrightarrow> tn_cancelled t \<Longrightarrow> tstep t (t\<lparr>tn_serve := ServeLeave\<rparr>)"
| accepted: "tn_serve t = ServeAccept \<Longrightarrow> \<not> tn_lnClosed t \<Longrightarrow>
    tstep t (t\<lparr>tn_serve := ServeLoop, tn_handles := tn_handles t @ [new_handler (tn_retries t)]\<rparr>)"
| accept_retry: "tn_serve t = ServeAccept \<Longrightarrow> \<not> tn_cancelled t \<Longrightarrow> \<not> tn_lnClosed t \<Longrightarrow> tstep t (t\<lparr>tn_serve := ServeLoop\<rparr>)"
| accept_failed: "tn_serve t = ServeAccept \<Longrightarrow> tstep t (t\<lparr>tn_serve := ServeLeave\<rparr>)"
| serve_end: "tn_serve t = ServeLeave \<Longrightarrow> tstep t ((closeListener t)\<lparr>tn_serve := ServeDone\<rparr>)"
| handling: "i < length (tn_handles t) \<Longrightarrow> hstep (tn_cancelled t) (tn_handles t ! i) h \<Longrightarrow> tstep t (t\<lparr>tn_handles := (tn_handles t)[i := h]\<rparr>)"
| close_cancel: "tn_close t = CloseNotCalled \<Longrightarrow> tstep t (t\<lparr>tn_close := CloseCancelled, tn_cancelled := True\<rparr>)"
| close_listener: "tn_close t = CloseCancelled \<Longrightarrow> tstep t ((closeListener t)\<lparr>tn_close := CloseWaiting\<rparr>)"
| wait_done: "tn_close t = CloseWaiting \<Longrightarrow> in_group t = 0 \<Longrightarrow> tstep t (t\<lparr>tn_close := CloseReturned\<rparr>)"

section \<open>What Close guarantees\<close>

text \<open>What the state of a handler says about its connections and goroutines.\<close>

definition handler_inv :: "handler \<Rightarrow> bool" where
  "handler_inv h \<longleftrightarrow>
     (h_state h \<in> {HandleDrain, HandleDone} \<longrightarrow> h_local h = ConnClosed \<and> h_remote h \<noteq> ConnOpen) \<and>
     (h_state h = HandleDone \<longrightarrow> h_copies h = 0) \<and>
     (h_state h = HandleConn \<or> (\<exists>r. h_state h = HandleDial r) \<longrightarrow> h_copies h = 0 \<and> h_remote h = NoConn \<and> h_watch h = NoWatch)"

lemma close_remote_sels [simp]:
  "h_state (close_remote h) = h_state h" "h_left (close_remote h) = h_left h" "h_local (close_remote h) = h_local h"
  "h_copies (close_remote h) = h_copies h" "h_watch (close_remote h) = h_watch h" "h_pending (close_remote h) = h_pending h"
  "h_late (close_remote h) = h_late h" "h_remote (close_remote h) \<noteq> ConnOpen"
  by (simp_all add: close_remote_def)

lemma handler_inv_step:
  assumes "hstep c h h'" "handler_inv h"
  shows "handler_inv h' \<and> (h_state h = HandleDone \<longrightarrow> h_state h' = HandleDone)"
  using assms by cases (auto simp: handler_inv_def close_remote_def split: if_splits)

lemma new_handler_inv: "handler_inv (new_handler r)" "h_state (new_handler r) \<noteq> HandleDone"
  by (simp_all add: handler_inv_def new_handler_def)

definition tunnel_inv :: "tunnel \<Rightarrow> bool" where
  "tunnel_inv t \<longleftrightarrow> tn_lnCloses t = (if tn_lnClosed t then 1 else 0) \<and>
     (tn_serve t = ServeDone \<longrightarrow> tn_lnClosed t) \<and>
     (tn_close t \<noteq> CloseNotCalled \<longrightarrow> tn_cancelled t) \<and>
     (tn_close t \<in> {CloseWaiting, CloseReturned} \<longrightarrow> tn_lnClosed t) \<and>
     (tn_close t = CloseReturned \<longrightarrow> in_group t = 0) \<and>
     list_all handler_inv (tn_handles t)"

lemma closeListener_simps [simp]:
  "tn_lnClosed (closeListener t)" "tn_cancelled (closeListener t) = tn_cancelled t" "tn_serve (closeListener t) = tn_serve t"
  "tn_handles (closeListener t) = tn_handles t" "tn_close (closeListener t) = tn_close t" "in_group (closeListener t) = in_group t"
  "tn_retries (closeListener t) = tn_retries t"
  by (simp_all add: closeListener_def in_group_def)

lemma closeListener_closes: "tunnel_inv t \<Longrightarrow> tn_lnCloses (closeListener t) = 1"
  by (simp add: closeListener_def tunnel_inv_def)

lemma in_group_zero: "in_group t = 0 \<longleftrightarrow> tn_serve t = ServeDone \<and> list_all (\<lambda>h. h_state h = HandleDone) (tn_handles t)"
  by (auto simp: in_group_def filter_empty_conv list_all_iff)

lemma busy_not_returned: "tunnel_inv t \<Longrightarrow> tn_serve t \<noteq> ServeDone \<Longrightarrow> tn_close t \<noteq> CloseReturned"
  by (auto simp: tunnel_inv_def in_group_zero)

lemma list_all_update: "list_all P xs \<Longrightarrow> P x \<Longrightarrow> list_all P (xs[i := x])"
  by (auto simp: list_all_iff dest: set_update_subset_insert [THEN subsetD])

lemma inv_handling:
  assumes inv: "tunnel_inv t" and i: "i < length (tn_handles t)" and step: "hstep (tn_cancelled t) (tn_handles t ! i) h"
  shows "tunnel_inv (t\<lparr>tn_handles := (tn_handles t)[i := h]\<rparr>)"
proof -
  have "handler_inv (tn_handles t ! i)" using inv i by (simp add: tunnel_inv_def list_all_length)
  note h = handler_inv_step [OF step this]
  have "in_group (t\<lparr>tn_handles := (tn_handles t)[i := h]\<rparr>) = 0" if "in_group t = 0"
  proof -
    from that i have "h_state (tn_handles t ! i) = HandleDone" by (simp add: in_group_zero list_all_length)
    with h that show ?thesis by (simp add: in_group_zero list_all_update)
  qed
  with inv h show ?thesis by (simp add: tunnel_inv_def list_all_update)
qed

lemma inv_serve:
  assumes "tunnel_inv t" "tn_serve t \<noteq> ServeDone" "st \<noteq> ServeDone"
  shows "tunnel_inv (t\<lparr>tn_serve := st\<rparr>)"
    "tunnel_inv (t\<lparr>tn_serve := st, tn_handles := tn_handles t @ [new_handler r]\<rparr>)"
proof -
  have "tn_close t \<noteq> CloseReturned" using assms(1,2) by (rule busy_not_returned)
  with assms show "tunnel_inv (t\<lparr>tn_serve := st\<rparr>)" "tunnel_inv (t\<lparr>tn_serve := st, tn_handles := tn_handles t @ [new_handler r]\<rparr>)"
    by (simp_all add: tunnel_inv_def new_handler_inv)
qed

lemma inv_leave:
  assumes "tunnel_inv t" "tn_serve t \<noteq> ServeDone"
  shows "tunnel_inv ((closeListener t)\<lparr>tn_serve := ServeDone\<rparr>)"
proof -
  have "tn_close t \<noteq> CloseReturned" using assms by (rule busy_not_returned)
  with assms(1) show ?thesis by (simp add: tunnel_inv_def closeListener_closes [OF assms(1)])
qed

lemma inv_close_listener:
  assumes "tunnel_inv t" "tn_close t = CloseCancelled"
  shows "tunnel_inv ((closeListener t)\<lparr>tn_close := CloseWaiting\<rparr>)"
  using assms by (simp add: tunnel_inv_def closeListener_closes [OF assms(1)])

lemma tunnel_inv_step: "tstep t t' \<Longrightarrow> tunnel_inv t \<Longrightarrow> tunnel_inv t'"
proof (induction rule: tstep.induct)
  case (parent t) then show ?case by (simp add: tunnel_inv_def in_group_def)
next
  case (close_cancel t) then show ?case by (simp add: tunnel_inv_def)
next
  case (wait_done t) then show ?case by (simp add: tunnel_inv_def in_group_def)
next
  case (handling i t h) then show ?case by (blast intro: inv_handling)
qed (simp_all add: inv_serve inv_leave inv_close_listener)

lemma tunnel_inv_reach: "tstep\<^sup>*\<^sup>* (tunnel_init lp rp r) t \<Longrightarrow> tunnel_inv t"
proof (induction rule: rtranclp_induct)
  case base
  show ?case by (simp add: tunnel_inv_def tunnel_init_def)
qed (rule tunnel_inv_step)

section \<open>Everything comes to an end\<close>

text \<open>
  The work left once \<^verbatim>\<open>Close\<close> has been called. A connection accepted in the meantime costs the accept loop more than the
  handler it starts.
\<close>

fun watch_work :: "watch_state \<Rightarrow> nat" where
  "watch_work Watching = 2"
| "watch_work WatchLocal = 1"
| "watch_work _ = 0"

fun state_work :: "nat \<Rightarrow> handle_state \<Rightarrow> nat" where
  "state_work n HandleConn = 6 * n + 8"
| "state_work n (HandleDial None) = 6 * n + 13"
| "state_work n (HandleDial (Some b)) = 6 * n + 12"
| "state_work n HandleCopy = 2"
| "state_work n HandleDrain = 1"
| "state_work n HandleDone = 0"

definition handler_work :: "handler \<Rightarrow> nat" where
  "handler_work h = state_work (h_left h) (h_state h) + h_copies h + watch_work (h_watch h) + 2 * h_pending h + h_late h"

fun serve_work :: "int \<Rightarrow> serve_state \<Rightarrow> nat" where
  "serve_work r ServeAccept = handler_work (new_handler r) + 3"
| "serve_work r ServeLoop = 2"
| "serve_work r ServeLeave = 1"
| "serve_work r ServeDone = 0"

fun close_work :: "close_state \<Rightarrow> nat" where
  "close_work CloseNotCalled = 3"
| "close_work CloseCancelled = 2"
| "close_work CloseWaiting = 1"
| "close_work CloseReturned = 0"

definition tunnel_work :: "tunnel \<Rightarrow> nat" where
  "tunnel_work t = serve_work (tn_retries t) (tn_serve t) + sum_list (map handler_work (tn_handles t)) + close_work (tn_close t)"

lemma handler_work_decreases: "hstep c h h' \<Longrightarrow> handler_inv h \<Longrightarrow> handler_work h' < handler_work h"
  by (induction rule: hstep.induct) (auto simp: handler_work_def handler_inv_def split: option.splits)

lemma sum_list_handles:
  "i < length hs \<Longrightarrow> sum_list (map handler_work (hs[i := h])) + handler_work (hs ! i) = sum_list (map handler_work hs) + handler_work h"
proof (induction hs arbitrary: i)
  case (Cons x hs)
  then show ?case by (cases i) auto
qed simp

lemma handling_decreases:
  assumes inv: "tunnel_inv t" and i: "i < length (tn_handles t)" and step: "hstep (tn_cancelled t) (tn_handles t ! i) h"
  shows "tunnel_work (t\<lparr>tn_handles := (tn_handles t)[i := h]\<rparr>) < tunnel_work t"
proof -
  have "handler_inv (tn_handles t ! i)" using inv i by (simp add: tunnel_inv_def list_all_length)
  from handler_work_decreases [OF step this] sum_list_handles [OF i, of h] show ?thesis by (simp add: tunnel_work_def)
qed

lemma work_decreases:
  assumes "tstep t t'" "tn_close t \<noteq> CloseNotCalled" "tunnel_inv t"
  shows "tunnel_work t' < tunnel_work t \<and> tn_close t' \<noteq> CloseNotCalled"
proof -
  have c: "tn_cancelled t" using assms(2,3) by (simp add: tunnel_inv_def)
  from assms(1) show ?thesis
  proof cases
    case (handling i h) then show ?thesis using assms(2) handling_decreases [OF assms(3)] by simp
  qed (use c assms(2) in \<open>simp_all add: tunnel_work_def\<close>)
qed

lemma relpowp_work:
  "(tstep ^^ k) t t' \<Longrightarrow> tn_close t \<noteq> CloseNotCalled \<Longrightarrow> tunnel_inv t \<Longrightarrow> k + tunnel_work t' \<le> tunnel_work t"
proof (induction k arbitrary: t')
  case (Suc k)
  from Suc.prems(1) obtain u where u: "(tstep ^^ k) t u" "tstep u t'" by auto
  have "tn_close u \<noteq> CloseNotCalled \<and> tunnel_inv u" using u(1) Suc.prems(2,3)
    by (induction k arbitrary: u) (auto dest: work_decreases tunnel_inv_step)
  then have "tunnel_work t' < tunnel_work u" using work_decreases [OF u(2)] by simp
  with Suc.IH [OF u(1) Suc.prems(2,3)] show ?case by simp
qed simp

text \<open>A handler with a goroutine left can take a step, given that calls of \<^verbatim>\<open>client.Dial\<close> and copies end.\<close>

definition handler_ended :: "handler \<Rightarrow> bool" where
  "handler_ended h \<longleftrightarrow> h_state h = HandleDone \<and> h_local h = ConnClosed \<and> h_remote h \<noteq> ConnOpen \<and> h_copies h = 0 \<and>
     h_watch h \<in> {NoWatch, WatchDone} \<and> h_pending h = 0 \<and> h_late h = 0"

lemma handler_can_move:
  assumes inv: "handler_inv h" and busy: "\<not> handler_ended h"
  shows "\<exists>h'. hstep c h h'"
proof (cases "h_state h")
  case (HandleDial r)
  then show ?thesis by (cases r) (auto intro: hstep.dial_returns hstep.dialed hstep.dial_failed split: bool.splits, metis (full_types) hstep.dialed hstep.dial_failed)
next
  case HandleCopy
  then show ?thesis by (cases "h_copies h") (metis hstep.half_done le0, blast intro: hstep.copy_ends)
next
  case HandleDrain
  then show ?thesis by (cases "h_copies h") (auto intro: hstep.handle_end hstep.copy_ends)
next
  case HandleDone
  with inv busy consider "h_watch h = Watching" | "h_watch h = WatchLocal" | n where "h_pending h = Suc n" | n where "h_late h = Suc n"
    by (auto simp: handler_inv_def handler_ended_def) (metis watch_state.exhaust, (metis gr0_implies_Suc)+)
  then show ?thesis using HandleDone by cases (blast intro: hstep.intros)+
qed (blast intro: hstep.conn_failed)

lemma tunnel_can_move:
  assumes inv: "tunnel_inv t" and busy: "tn_close t \<noteq> CloseReturned \<or> \<not> list_all handler_ended (tn_handles t)"
  shows "\<exists>t'. tstep t t'"
proof (cases "list_all handler_ended (tn_handles t)")
  case False
  then obtain i where i: "i < length (tn_handles t)" "\<not> handler_ended (tn_handles t ! i)" by (auto simp: list_all_length)
  with inv have "handler_inv (tn_handles t ! i)" by (simp add: tunnel_inv_def list_all_length)
  from handler_can_move [OF this i(2)] i(1) show ?thesis by (blast intro: tstep.handling)
next
  case True
  then have ended: "list_all (\<lambda>h. h_state h = HandleDone) (tn_handles t)" by (auto simp: list_all_iff handler_ended_def)
  show ?thesis
  proof (cases "tn_serve t = ServeDone")
    case False
    then show ?thesis by (cases "tn_serve t") (blast intro: tstep.intros)+
  next
    case True
    with ended have "in_group t = 0" by (simp add: in_group_zero)
    with busy \<open>list_all handler_ended (tn_handles t)\<close> show ?thesis by (cases "tn_close t") (auto intro: tstep.intros)
  qed
qed

text \<open>
  C8. The \<^verbatim>\<open>Close\<close> of a tunnel, however its goroutines interleave. The listener is never closed twice. When \<^verbatim>\<open>Close\<close> has returned, the listener was
  closed, the accept loop has ended, and every handler has ended with its local connection, the remote one it was given and both
  copies. What may still run then are watchers and abandoned dials, which the wait group does not count. From the call of \<^verbatim>\<open>Close\<close> on, all
  goroutines together can take only a bounded number of steps, whatever is still accepted; and when no step is left, \<^verbatim>\<open>Close\<close> has
  returned, no goroutine is left, and every connection of every handler, a late one included, is closed.\<close>

theorem tunnel_close_complete:
  assumes "tstep\<^sup>*\<^sup>* (tunnel_init lp rp r) t"
  shows "tn_lnCloses t \<le> 1 \<and>
    (tn_close t = CloseReturned \<longrightarrow> tn_lnCloses t = 1 \<and> tn_serve t = ServeDone \<and>
       list_all (\<lambda>h. h_state h = HandleDone \<and> h_local h = ConnClosed \<and> h_remote h \<noteq> ConnOpen \<and> h_copies h = 0) (tn_handles t)) \<and>
    (tn_close t \<noteq> CloseNotCalled \<longrightarrow> (\<forall>k t'. (tstep ^^ k) t t' \<longrightarrow> k \<le> tunnel_work t)) \<and>
    (tn_close t \<noteq> CloseNotCalled \<and> (\<forall>t'. \<not> tstep t t') \<longrightarrow> tn_close t = CloseReturned \<and> list_all handler_ended (tn_handles t))"
proof -
  note inv = tunnel_inv_reach [OF assms]
  have "tn_lnCloses t = 1 \<and> tn_serve t = ServeDone \<and>
      list_all (\<lambda>h. h_state h = HandleDone \<and> h_local h = ConnClosed \<and> h_remote h \<noteq> ConnOpen \<and> h_copies h = 0) (tn_handles t)"
    if "tn_close t = CloseReturned"
    using inv that by (auto simp: tunnel_inv_def in_group_zero list_all_iff handler_inv_def)
  moreover have "tn_lnCloses t \<le> 1" using inv by (simp add: tunnel_inv_def)
  moreover have "k \<le> tunnel_work t" if "tn_close t \<noteq> CloseNotCalled" "(tstep ^^ k) t t'" for k t'
    using relpowp_work [OF that(2,1) inv] by simp
  ultimately show ?thesis using tunnel_can_move [OF inv] by blast
qed

section \<open>A run\<close>

text \<open>A connection is accepted and its remote side is being dialed when \<^verbatim>\<open>Close\<close> is called. The dial is abandoned, \<^verbatim>\<open>Close\<close> returns, and the connection that comes late is closed.\<close>

definition dialing_tunnel :: tunnel where
  "dialing_tunnel = (tunnel_init 40001 6443 0)\<lparr>tn_serve := ServeLoop, tn_handles := [(new_handler 0)\<lparr>h_state := HandleDial None, h_left := 0\<rparr>]\<rparr>"

definition outlived_tunnel :: tunnel where
  "outlived_tunnel = (tunnel_init 40001 6443 0)\<lparr>tn_serve := ServeDone, tn_cancelled := True, tn_close := CloseReturned, tn_lnClosed := True, tn_lnCloses := 1,
     tn_handles := [(new_handler 0)\<lparr>h_state := HandleDone, h_left := 0, h_local := ConnClosed, h_pending := 1\<rparr>]\<rparr>"

definition ended_tunnel :: tunnel where
  "ended_tunnel = outlived_tunnel\<lparr>tn_handles := [(new_handler 0)\<lparr>h_state := HandleDone, h_left := 0, h_local := ConnClosed\<rparr>]\<rparr>"

lemma dialing_reach: "tstep\<^sup>*\<^sup>* (tunnel_init 40001 6443 0) dialing_tunnel"
proof -
  let ?t0 = "tunnel_init 40001 6443 0"
  have "tstep ?t0 (?t0\<lparr>tn_serve := ServeAccept\<rparr>)" by (rule tstep.loop_go) (simp_all add: tunnel_init_def)
  moreover have "tstep (?t0\<lparr>tn_serve := ServeAccept\<rparr>) (?t0\<lparr>tn_serve := ServeLoop, tn_handles := [new_handler 0]\<rparr>)" (is "tstep ?a ?b")
    using tstep.accepted [of ?a] by (simp add: tunnel_init_def)
  moreover have "tstep ?b dialing_tunnel"
    using tstep.handling [of 0 ?b, OF _ hstep.dial_start [of _ _ 0]] by (simp add: tunnel_init_def new_handler_def dialing_tunnel_def)
  ultimately show ?thesis by (meson converse_rtranclp_into_rtranclp r_into_rtranclp)
qed

lemma outlived_reach: "tstep\<^sup>*\<^sup>* dialing_tunnel outlived_tunnel"
proof -
  let ?c = "dialing_tunnel\<lparr>tn_cancelled := True, tn_close := CloseCancelled\<rparr>"
  let ?h = "(new_handler 0)\<lparr>h_left := 0, h_pending := 1\<rparr>"
  let ?d = "?c\<lparr>tn_handles := [?h]\<rparr>" and ?e = "?c\<lparr>tn_handles := [?h\<lparr>h_state := HandleDone, h_local := ConnClosed\<rparr>]\<rparr>"
  let ?f = "?e\<lparr>tn_serve := ServeLeave\<rparr>" and ?g = "?e\<lparr>tn_serve := ServeDone, tn_lnClosed := True, tn_lnCloses := 1\<rparr>"
  have "tstep dialing_tunnel ?c"
    using tstep.close_cancel [of dialing_tunnel] by (simp add: dialing_tunnel_def tunnel_init_def)
  moreover have "tstep ?c ?d"
    using tstep.handling [of 0 ?c, OF _ hstep.dial_abandoned [of _ None]] by (simp add: dialing_tunnel_def tunnel_init_def new_handler_def)
  moreover have "tstep ?d ?e"
    using tstep.handling [of 0 ?d, OF _ hstep.conn_failed] by (simp add: dialing_tunnel_def tunnel_init_def new_handler_def)
  moreover have "tstep ?e ?f"
    using tstep.loop_stop [of ?e] by (simp add: dialing_tunnel_def tunnel_init_def)
  moreover have "tstep ?f ?g"
    using tstep.serve_end [of ?f] by (simp add: dialing_tunnel_def tunnel_init_def closeListener_def)
  moreover have "tstep ?g (?g\<lparr>tn_close := CloseWaiting\<rparr>)"
    using tstep.close_listener [of ?g] by (simp add: dialing_tunnel_def tunnel_init_def closeListener_def)
  moreover have "tstep (?g\<lparr>tn_close := CloseWaiting\<rparr>) outlived_tunnel"
    using tstep.wait_done [of "?g\<lparr>tn_close := CloseWaiting\<rparr>"]
    by (simp add: dialing_tunnel_def tunnel_init_def outlived_tunnel_def in_group_def new_handler_def)
  ultimately show ?thesis by (meson converse_rtranclp_into_rtranclp r_into_rtranclp)
qed

lemma ended_reach: "tstep\<^sup>*\<^sup>* outlived_tunnel ended_tunnel" "\<not> tstep ended_tunnel t"
proof -
  let ?l = "outlived_tunnel\<lparr>tn_handles := [(new_handler 0)\<lparr>h_state := HandleDone, h_left := 0, h_local := ConnClosed, h_late := 1\<rparr>]\<rparr>"
  have "tstep outlived_tunnel ?l"
    using tstep.handling [of 0 outlived_tunnel, OF _ hstep.late_connection [of _ 0]] by (simp add: outlived_tunnel_def new_handler_def)
  moreover have "tstep ?l ended_tunnel"
    using tstep.handling [of 0 ?l, OF _ hstep.late_closed [of _ 0]] by (simp add: ended_tunnel_def outlived_tunnel_def new_handler_def)
  ultimately show "tstep\<^sup>*\<^sup>* outlived_tunnel ended_tunnel" by (meson converse_rtranclp_into_rtranclp r_into_rtranclp)
  show "\<not> tstep ended_tunnel t"
    by (auto simp: ended_tunnel_def outlived_tunnel_def tunnel_init_def new_handler_def elim!: tstep.cases hstep.cases)
qed

theorem tunnel_close_complete_witness:
  "tstep\<^sup>*\<^sup>* (tunnel_init 40001 6443 0) outlived_tunnel \<and> tn_close outlived_tunnel = CloseReturned \<and>
   map h_pending (tn_handles outlived_tunnel) = [1] \<and> map h_local (tn_handles outlived_tunnel) = [ConnClosed] \<and>
   tstep\<^sup>*\<^sup>* outlived_tunnel ended_tunnel \<and> (\<forall>t'. \<not> tstep ended_tunnel t') \<and> list_all handler_ended (tn_handles ended_tunnel)"
proof -
  note reach = rtranclp_trans [OF dialing_reach outlived_reach]
  have returned: "tn_close outlived_tunnel = CloseReturned" "tn_close ended_tunnel = CloseReturned" "map h_pending (tn_handles outlived_tunnel) = [1]"
    "length (tn_handles outlived_tunnel) = 1"
    by (simp_all add: outlived_tunnel_def ended_tunnel_def)
  have "map h_local (tn_handles outlived_tunnel) = [ConnClosed]"
    using tunnel_close_complete [OF reach] returned(1,4) by (auto simp: length_Suc_conv)
  moreover have "list_all handler_ended (tn_handles ended_tunnel)"
    using tunnel_close_complete [OF rtranclp_trans [OF reach ended_reach(1)]] returned(2) ended_reach(2) by simp
  ultimately show ?thesis using reach returned ended_reach by blast
qed

end
