(* ===== verification/Kube_Helpers.thy ===== *)
theory Kube_Helpers
  imports Install
begin

text \<open>
  The helpers of \<^verbatim>\<open>pkg/kubernetes\<close> that test suites call on a cluster: the generic waits of \<^verbatim>\<open>poll.go\<close>, \<^verbatim>\<open>nodes.go\<close>, \<^verbatim>\<open>pvc.go\<close>
  and \<^verbatim>\<open>pod.go\<close>; and the deprecated ConfigMap lock of \<^verbatim>\<open>pkg/cluster/lock.go\<close>. The log lines are left out; the clock that
  only they read is left out with them.
\<close>

section \<open>The API\<close>

record 'e helper_api =
  ha_kube :: "'e kube_api"
  ha_getNode :: "ctx \<Rightarrow> string \<Rightarrow> 'e \<Rightarrow> (goerr + knode) \<times> 'e"
  ha_updateNode :: "ctx \<Rightarrow> knode \<Rightarrow> 'e \<Rightarrow> goerr option \<times> 'e"
  ha_listPods :: "ctx \<Rightarrow> string \<Rightarrow> string \<Rightarrow> 'e \<Rightarrow> (goerr + kpod list) \<times> 'e"
  ha_listPVCs :: "ctx \<Rightarrow> string \<Rightarrow> string \<Rightarrow> 'e \<Rightarrow> (goerr + kpvc list) \<times> 'e"
  ha_getPVC :: "ctx \<Rightarrow> string \<Rightarrow> string \<Rightarrow> 'e \<Rightarrow> (goerr + kpvc) \<times> 'e"
  ha_patchPVC :: "ctx \<Rightarrow> string \<Rightarrow> string \<Rightarrow> string \<Rightarrow> 'e \<Rightarrow> goerr option \<times> 'e"
  ha_getObj :: "ctx \<Rightarrow> string \<Rightarrow> string \<Rightarrow> string \<Rightarrow> 'e \<Rightarrow> (goerr + uobj) \<times> 'e"
  ha_getCM :: "ctx \<Rightarrow> string \<Rightarrow> string \<Rightarrow> 'e \<Rightarrow> (goerr + kconfigmap) \<times> 'e"
  ha_createCM :: "ctx \<Rightarrow> kconfigmap \<Rightarrow> 'e \<Rightarrow> goerr option \<times> 'e"
  ha_deleteCM :: "ctx \<Rightarrow> string \<Rightarrow> string \<Rightarrow> 'e \<Rightarrow> goerr option \<times> 'e"
  ha_parseQuantity :: "string \<Rightarrow> goerr + quantity"

text \<open>\<^verbatim>\<open>clientset, err := NewClientsetWithRetry(ctx, kubeconfig)\<close> and its error, which most helpers start with.\<close>

definition with_new_clientset ::
  "'e runtime \<Rightarrow> 'e helper_api \<Rightarrow> ctx \<Rightarrow> string \<Rightarrow> (goerr \<Rightarrow> 'r) \<Rightarrow> ('e, 'r) act \<Rightarrow> ('e, 'r) act" where
  "with_new_clientset rt api c pre fail k = io_bind (NewClientsetWithRetry rt (ha_kube api) c) (\<lambda>e. case e of
     Some err \<Rightarrow> io_ret (fail (wrapf pre err)) | None \<Rightarrow> k)"

section \<open>Waiting for an object\<close>

definition PollGetTimeout :: int where "PollGetTimeout = 30 * second"
definition PollTickInterval :: int where "PollTickInterval = 5 * second"
definition PollGoneProgressEvery :: int where "PollGoneProgressEvery = 30 * second"

definition formatRef :: "string \<Rightarrow> string \<Rightarrow> string" where
  "formatRef namespace name = (if namespace = [] then name else namespace @ ''/'' @ name)"

definition errIfTerminating :: "uobj \<Rightarrow> string \<Rightarrow> string \<Rightarrow> goerr option" where
  "errIfTerminating obj kind ref = (case uo_deletionTimestamp obj of
     None \<Rightarrow> None
   | Some dt \<Rightarrow> Some (ErrText (kind @ '' '' @ ref @ '' exists but is being deleted (deletionTimestamp='' @ dt @ '', finalizers='' @
       go_list (uo_finalizers obj) @ ''); wait for it to disappear or remove finalizers manually before re-running'')))"

fun same_from :: "nat \<Rightarrow> string list \<Rightarrow> string list \<Rightarrow> bool" where
  "same_from 0 a b = True"
| "same_from (Suc n) a b = (a ! (length a - Suc n) = b ! (length a - Suc n) \<and> same_from n a b)"

definition sameFinalizers :: "string list \<Rightarrow> string list \<Rightarrow> bool" where
  "sameFinalizers a b \<longleftrightarrow> length a = length b \<and> same_from (length a) a b"

definition getWithTimeout ::
  "'e helper_api \<Rightarrow> ctx \<Rightarrow> string \<Rightarrow> string \<Rightarrow> string \<Rightarrow> int \<Rightarrow> ('e, goerr + uobj) act" where
  "getWithTimeout api parent gvr namespace name perCallTimeout =
     call (ObjGet gvr namespace name) (ha_getObj api (CtxTimeout parent perCallTimeout) gvr namespace name)"

text \<open>
  What a poll makes of an answer. The counter of consecutive errors, which selects the log level, is the closure's variable.
\<close>

definition ready_cond ::
  "string \<Rightarrow> string \<Rightarrow> (uobj \<Rightarrow> bool) \<Rightarrow> nat \<Rightarrow> goerr + uobj \<Rightarrow> ('e, (goerr + bool) \<times> nat) act" where
  "ready_cond label ref isReady errs g = io_ret (case g of
     Inr obj \<Rightarrow> ((case uo_deletionTimestamp obj of
         Some dt \<Rightarrow> Inl (ErrText (label @ '' '' @ ref @ '' is being deleted (deletionTimestamp='' @ dt @ '', finalizers='' @
           go_list (uo_finalizers obj) @ ''); refusing to wait for Ready on a Terminating object''))
       | None \<Rightarrow> Inr (isReady obj)), 0)
   | Inl err \<Rightarrow> (Inr False, if has_reason NotFound err then 0 else errs + 1))"

text \<open>\<^verbatim>\<open>isReady\<close> may be nil; its reason is only logged.\<close>

definition pollResourceUntilReady ::
  "'e runtime \<Rightarrow> 'e helper_api \<Rightarrow> ctx \<Rightarrow> string \<Rightarrow> string \<Rightarrow> string \<Rightarrow> int \<Rightarrow> int \<Rightarrow> string \<Rightarrow> (uobj \<Rightarrow> bool) option
   \<Rightarrow> ('e, goerr option) act" where
  "pollResourceUntilReady rt api c gvr namespace name readyTimeout tickInterval label isReady =
     (if name = [] then io_ret (Some (ErrText ''name is required''))
      else case isReady of None \<Rightarrow> io_ret (Some (ErrText ''isReady is required''))
      | Some ready \<Rightarrow>
      let tick = (if tickInterval \<le> 0 then PollTickInterval else tickInterval); ref = formatRef namespace name;
          deadlineCtx = CtxTimeout c readyTimeout in
      io_bind (NewDynamicClientWithRetry rt (ha_kube api) c) (\<lambda>e. case e of
        Some err \<Rightarrow> io_ret (Some (wrapf ''failed to create dynamic client: '' err))
      | None \<Rightarrow> io_bind (poll_loop rt deadlineCtx tick
            (\<lambda>ctxe _. wrapf (''timeout waiting for '' @ label @ '' '' @ ref @ '': '') ctxe)
            (getWithTimeout api deadlineCtx gvr namespace name PollGetTimeout) (ready_cond label ref ready) 0) (\<lambda>(e, _). io_ret e)))"

text \<open>
  The variables of \<^verbatim>\<open>pollResourceUntilGone\<close>: when it last reported, and the finalizers and the deletion timestamp it reported.
\<close>

record gone_vars =
  gv_errs :: nat
  gv_lastProgress :: "int option"
  gv_lastFinalizers :: "string list"
  gv_lastDeletionTS :: string

definition gone_cond :: "'e runtime \<Rightarrow> gone_vars \<Rightarrow> goerr + uobj \<Rightarrow> ('e, (goerr + bool) \<times> gone_vars) act" where
  "gone_cond rt v g = (case g of
     Inl err \<Rightarrow> io_ret (if has_reason NotFound err then (Inr True, v) else (Inr False, v\<lparr>gv_errs := gv_errs v + 1\<rparr>))
   | Inr obj \<Rightarrow> io_bind (timeNow rt) (\<lambda>now.
       let finalizers = uo_finalizers obj;
           deletionTS = (case uo_deletionTimestamp obj of None \<Rightarrow> [] | Some dt \<Rightarrow> dt);
           stateChanged = (deletionTS \<noteq> gv_lastDeletionTS v \<or> \<not> sameFinalizers finalizers (gv_lastFinalizers v));
           due = (case gv_lastProgress v of None \<Rightarrow> True | Some t \<Rightarrow> now - t \<ge> PollGoneProgressEvery) in
       if stateChanged \<or> due
       then io_bind (timeNow rt) (\<lambda>now'. io_ret (Inr False, v\<lparr>gv_errs := 0, gv_lastProgress := Some now',
         gv_lastFinalizers := finalizers, gv_lastDeletionTS := deletionTS\<rparr>))
       else io_ret (Inr False, v\<lparr>gv_errs := 0\<rparr>)))"

definition last_seen :: "gone_vars \<Rightarrow> string" where
  "last_seen v = (if gv_lastDeletionTS v \<noteq> [] \<or> gv_lastFinalizers v \<noteq> []
     then ''deletionTimestamp='' @ go_quote (gv_lastDeletionTS v) @ '', finalizers='' @ go_list (gv_lastFinalizers v)
     else ''no observation yet'')"

definition pollResourceUntilGone ::
  "'e runtime \<Rightarrow> 'e helper_api \<Rightarrow> ctx \<Rightarrow> string \<Rightarrow> string \<Rightarrow> string \<Rightarrow> int \<Rightarrow> int \<Rightarrow> string \<Rightarrow> ('e, goerr option) act" where
  "pollResourceUntilGone rt api c gvr namespace name goneTimeout tickInterval label =
     (if name = [] then io_ret (Some (ErrText ''name is required''))
      else let tick = (if tickInterval \<le> 0 then PollTickInterval else tickInterval); ref = formatRef namespace name;
          deadlineCtx = CtxTimeout c goneTimeout in
      io_bind (NewDynamicClientWithRetry rt (ha_kube api) c) (\<lambda>e. case e of
        Some err \<Rightarrow> io_ret (Some (wrapf ''failed to create dynamic client: '' err))
      | None \<Rightarrow> io_bind (poll_loop rt deadlineCtx tick (\<lambda>ctxe _. ctxe)
            (getWithTimeout api deadlineCtx gvr namespace name PollGetTimeout) (gone_cond rt)
            \<lparr>gv_errs = 0, gv_lastProgress = None, gv_lastFinalizers = [], gv_lastDeletionTS = []\<rparr>) (\<lambda>(e, v).
          io_ret (map_option (wrapf (''timeout waiting for '' @ label @ '' '' @ ref @ '' to be gone ('' @ last_seen v @ ''): '')) e))))"

section \<open>Nodes\<close>

definition nodeLabelPollInterval :: int where "nodeLabelPollInterval = 10 * second"

definition GetNodes :: "'e runtime \<Rightarrow> 'e helper_api \<Rightarrow> ctx \<Rightarrow> ('e, goerr + knode list) act" where
  "GetNodes rt api c = with_new_clientset rt api c ''failed to create clientset: '' Inl
     (get_op ''failed to list nodes: '' NodesList (ka_nodes (ha_kube api) c))"

definition isWorker :: "knode \<Rightarrow> bool" where
  "isWorker node \<longleftrightarrow> node_labels node ''node-role.kubernetes.io/control-plane'' = None \<and>
     node_labels node ''node-role.kubernetes.io/master'' = None"

definition GetWorkerNodes :: "'e runtime \<Rightarrow> 'e helper_api \<Rightarrow> ctx \<Rightarrow> ('e, goerr + knode list) act" where
  "GetWorkerNodes rt api c = io_bind (GetNodes rt api c) (\<lambda>r. io_ret (map_sum id (filter isWorker) r))"

definition label_retries :: nat where "label_retries = 5"

abbreviation getNode :: "'e helper_api \<Rightarrow> ctx \<Rightarrow> string \<Rightarrow> ('e, goerr + knode) act" where
  "getNode api c name \<equiv> call (NodeGet name) (ha_getNode api c name)"

text \<open>The attempts to label one node, as many as are left, with the error of the last one.\<close>

fun label_attempts ::
  "'e helper_api \<Rightarrow> ctx \<Rightarrow> string \<Rightarrow> string \<Rightarrow> string \<Rightarrow> nat \<Rightarrow> goerr option \<Rightarrow> ('e, goerr option) act" where
  "label_attempts api c name key val 0 lastErr = io_ret (map_option
     (wrapf (''failed to label node '' @ name @ '' after '' @ nat_str label_retries @ '' attempts: '')) lastErr)"
| "label_attempts api c name key val (Suc n) lastErr =
     io_bind (getNode api c name) (\<lambda>g. case g of
       Inl err \<Rightarrow> io_ret (Some (wrapf (''failed to get node '' @ name @ '': '') err))
     | Inr node \<Rightarrow> if node_labels node key = Some val then io_ret None
       else io_bind (call (NodeUpdate (node\<lparr>node_labels := (node_labels node)(key \<mapsto> val)\<rparr>))
           (ha_updateNode api c (node\<lparr>node_labels := (node_labels node)(key \<mapsto> val)\<rparr>))) (\<lambda>e. case e of
         None \<Rightarrow> io_ret None
       | Some err \<Rightarrow> if has_reason Conflict err then label_attempts api c name key val n (Some err)
           else io_ret (Some (wrapf (''failed to label node '' @ name @ '': '') err))))"

fun label_each :: "'e helper_api \<Rightarrow> ctx \<Rightarrow> string \<Rightarrow> string \<Rightarrow> string list \<Rightarrow> ('e, goerr option) act" where
  "label_each api c key val [] = io_ret None"
| "label_each api c key val (name # names) =
     io_bind (label_attempts api c name key val label_retries None) (\<lambda>e. case e of
       Some err \<Rightarrow> io_ret (Some err) | None \<Rightarrow> label_each api c key val names)"

definition LabelNodes ::
  "'e runtime \<Rightarrow> 'e helper_api \<Rightarrow> ctx \<Rightarrow> string list \<Rightarrow> string \<Rightarrow> string \<Rightarrow> ('e, goerr option) act" where
  "LabelNodes rt api c nodeNames key val = (if nodeNames = [] then io_ret None
     else with_new_clientset rt api c ''failed to create clientset: '' Some (label_each api c key val nodeNames))"

definition GetNodeTaints :: "'e runtime \<Rightarrow> 'e helper_api \<Rightarrow> ctx \<Rightarrow> string \<Rightarrow> ('e, goerr + taint list) act" where
  "GetNodeTaints rt api c nodeName = with_new_clientset rt api c ''failed to create clientset: '' Inl
     (io_bind (getNode api c nodeName) (\<lambda>g. io_ret (case g of
       Inl err \<Rightarrow> Inl (wrapf (''failed to get node '' @ nodeName @ '': '') err) | Inr node \<Rightarrow> Inr (node_taints node))))"

definition IsNodeCordoned :: "'e runtime \<Rightarrow> 'e helper_api \<Rightarrow> ctx \<Rightarrow> string \<Rightarrow> ('e, goerr + bool) act" where
  "IsNodeCordoned rt api c nodeName = io_bind (GetNodeTaints rt api c nodeName) (\<lambda>r. io_ret (map_sum id
     (list_ex (\<lambda>t. tt_effect t = ''NoSchedule'' \<or> tt_effect t = ''NoExecute'')) r))"

definition labeled_body ::
  "'e runtime \<Rightarrow> 'e helper_api \<Rightarrow> ctx \<Rightarrow> string \<Rightarrow> string \<Rightarrow> string \<Rightarrow> unit \<Rightarrow> ('e, goerr option + unit) act" where
  "labeled_body rt api c key val name u = io_bind (waitFor rt c nodeLabelPollInterval) (\<lambda>d. case d of
     Some ctxe \<Rightarrow> io_ret (Inl (Some (wrapf ''timeout waiting for label: '' ctxe)))
   | None \<Rightarrow> io_bind (getNode api c name) (\<lambda>g. io_ret (case g of
       Inl _ \<Rightarrow> Inr ()
     | Inr node \<Rightarrow> if node_labels node key = Some val then Inl None else Inr ())))"

text \<open>The goroutine of every node puts its result into the channel, so that all of them are collected, in the order of arrival.\<close>

definition WaitForNodesLabeled ::
  "'e runtime \<Rightarrow> 'e helper_api \<Rightarrow> ctx \<Rightarrow> string list \<Rightarrow> string \<Rightarrow> string \<Rightarrow> ('e, goerr option) act" where
  "WaitForNodesLabeled rt api c nodeNames key val = (if nodeNames = [] then io_ret None
     else with_new_clientset rt api c ''failed to create Kubernetes client: '' Some
       (io_bind (errgroup_results rt (\<lambda>name. io_bind (loop (labeled_body rt api c key val name) ()) (\<lambda>e. io_ret (e, e))) nodeNames) (\<lambda>(_, rs).
          let errors = [wrapf (''node '' @ name @ '': '') err. (name, Some err) \<leftarrow> rs] in
          io_ret (if errors = [] then None
            else Some (ErrText (''failed to wait for nodes to be labeled: '' @ go_list (map error_text errors)))))))"

section \<open>Volume claims\<close>

abbreviation list_PVCs :: "'e helper_api \<Rightarrow> ctx \<Rightarrow> string \<Rightarrow> string \<Rightarrow> ('e, goerr + kpvc list) act" where
  "list_PVCs api c namespace selector \<equiv> call (PVCList namespace selector) (ha_listPVCs api c namespace selector)"

text \<open>
  One round of \<^verbatim>\<open>WaitForPVCsBound\<close>, on the counter of attempts. The error of the context is returned as it is.
\<close>

definition next_round :: "'e runtime \<Rightarrow> ctx \<Rightarrow> int \<Rightarrow> (goerr \<Rightarrow> goerr) \<Rightarrow> int \<Rightarrow> ('e, goerr option + int) act" where
  "next_round rt c interval ctx_err attempt = io_bind (waitFor rt c interval) (\<lambda>d. io_ret (case d of
     Some ctxe \<Rightarrow> Inl (Some (ctx_err ctxe)) | None \<Rightarrow> Inr attempt))"

definition count_of :: "('a \<Rightarrow> bool) \<Rightarrow> 'a list \<Rightarrow> int" where
  "count_of P xs = int (length (filter P xs))"

definition bound_body ::
  "'e runtime \<Rightarrow> 'e helper_api \<Rightarrow> ctx \<Rightarrow> string \<Rightarrow> string \<Rightarrow> int \<Rightarrow> int \<Rightarrow> int \<Rightarrow> int \<Rightarrow> ('e, goerr option + int) act" where
  "bound_body rt api c namespace selector expectedCount maxAttempts interval attempt =
     io_bind (list_PVCs api c namespace selector) (\<lambda>g. case g of
       Inl err \<Rightarrow> io_ret (Inl (Some err))
     | Inr pvcs \<Rightarrow>
       let boundCount = count_of (\<lambda>pvc. pvc_phase pvc = ''Bound'') pvcs;
           attempt' = (if boundCount > 0 then attempt + 1 else attempt) in
       if boundCount \<ge> expectedCount then io_ret (Inl None)
       else if maxAttempts > 0 \<and> attempt' \<ge> maxAttempts
       then io_ret (Inl (Some (ErrText (''timeout waiting for PVCs to be bound: '' @ itoa boundCount @ ''/'' @ itoa expectedCount @
         '' bound after '' @ itoa maxAttempts @ '' attempts''))))
       else next_round rt c interval id attempt')"

definition WaitForPVCsBound ::
  "'e runtime \<Rightarrow> 'e helper_api \<Rightarrow> ctx \<Rightarrow> string \<Rightarrow> string \<Rightarrow> int \<Rightarrow> int \<Rightarrow> int \<Rightarrow> ('e, goerr option) act" where
  "WaitForPVCsBound rt api c namespace selector expectedCount maxAttempts interval =
     loop (bound_body rt api c namespace selector expectedCount maxAttempts interval) 0"

abbreviation get_PVC :: "'e helper_api \<Rightarrow> ctx \<Rightarrow> string \<Rightarrow> string \<Rightarrow> ('e, goerr + kpvc) act" where
  "get_PVC api c namespace name \<equiv> call (PVCGet namespace name) (ha_getPVC api c namespace name)"

definition has_size :: "quantity \<Rightarrow> kpvc \<Rightarrow> bool" where
  "has_size target pvc = (case pvc_capacity pvc of
     Some capacity \<Rightarrow> (case capacity ''storage'' of Some currentSize \<Rightarrow> q_val currentSize = q_val target | None \<Rightarrow> False)
   | None \<Rightarrow> False)"

text \<open>The claims of the list that have the target size; the first claim that cannot be read ends the round.\<close>

fun count_resized :: "'e helper_api \<Rightarrow> ctx \<Rightarrow> string \<Rightarrow> quantity \<Rightarrow> string list \<Rightarrow> int \<Rightarrow> ('e, goerr + int) act" where
  "count_resized api c namespace target [] n = io_ret (Inr n)"
| "count_resized api c namespace target (name # names) n =
     io_bind (get_PVC api c namespace name) (\<lambda>g. case g of
       Inl err \<Rightarrow> io_ret (Inl err)
     | Inr pvc \<Rightarrow> count_resized api c namespace target names (if has_size target pvc then n + 1 else n))"

definition resized_body ::
  "'e runtime \<Rightarrow> 'e helper_api \<Rightarrow> ctx \<Rightarrow> string \<Rightarrow> string list \<Rightarrow> quantity \<Rightarrow> int \<Rightarrow> int \<Rightarrow> int \<Rightarrow> ('e, goerr option + int) act" where
  "resized_body rt api c namespace pvcNames target maxAttempts interval attempt =
     io_bind (count_resized api c namespace target pvcNames 0) (\<lambda>g. case g of
       Inl err \<Rightarrow> io_ret (Inl (Some err))
     | Inr resizedCount \<Rightarrow>
       let attempt' = (if resizedCount > 0 then attempt + 1 else attempt) in
       if resizedCount = int (length pvcNames) then io_ret (Inl None)
       else if maxAttempts > 0 \<and> attempt' \<ge> maxAttempts
       then io_ret (Inl (Some (ErrText (''timeout waiting for PVCs to be resized: '' @ itoa resizedCount @ ''/'' @
         nat_str (length pvcNames) @ '' resized after '' @ itoa maxAttempts @ '' attempts''))))
       else next_round rt c interval id attempt')"

definition WaitForPVCsResized ::
  "'e runtime \<Rightarrow> 'e helper_api \<Rightarrow> ctx \<Rightarrow> string \<Rightarrow> string list \<Rightarrow> string \<Rightarrow> int \<Rightarrow> int \<Rightarrow> ('e, goerr option) act" where
  "WaitForPVCsResized rt api c namespace pvcNames targetSize maxAttempts interval = (case ha_parseQuantity api targetSize of
     Inl err \<Rightarrow> io_ret (Some (wrapf (''invalid target size '' @ targetSize @ '': '') err))
   | Inr target \<Rightarrow> loop (resized_body rt api c namespace pvcNames target maxAttempts interval) 0)"

text \<open>
  The JSON patch replaces \<^verbatim>\<open>/spec/resources/requests/storage\<close>; the API gets the new value. Marshalling a map of strings cannot fail.
\<close>

definition ResizeList :: "'e runtime \<Rightarrow> 'e helper_api \<Rightarrow> ctx \<Rightarrow> string \<Rightarrow> string list \<Rightarrow> string \<Rightarrow> ('e, goerr option) act" where
  "ResizeList rt api c namespace pvcNames newSize = errgroup rt (\<lambda>pvcName.
     put_op (''failed to resize PVC '' @ pvcName @ '': '') (PVCPatch namespace pvcName newSize)
       (ha_patchPVC api c namespace pvcName newSize)) pvcNames"

section \<open>Pods\<close>

abbreviation list_pods :: "'e helper_api \<Rightarrow> ctx \<Rightarrow> string \<Rightarrow> string \<Rightarrow> ('e, goerr + kpod list) act" where
  "list_pods api c namespace selector \<equiv> call (PodList namespace selector) (ha_listPods api c namespace selector)"

text \<open>\<^verbatim>\<open>time.Sleep\<close>: a wait that no context ends.\<close>

definition sleep :: "'e runtime \<Rightarrow> int \<Rightarrow> ('e, 'r + unit) act" where
  "sleep rt d = io_bind (waitFor rt CtxRoot d) (\<lambda>_. io_ret (Inr ()))"

definition pod_ready :: "kpod \<Rightarrow> bool" where
  "pod_ready pod \<longleftrightarrow> pod_phase pod = ''Succeeded'' \<or>
     pod_phase pod = ''Running'' \<and> \<not> list_ex (\<lambda>cond. cond_type cond = ''Ready'' \<and> cond_status cond \<noteq> ''True'') (pod_conditions pod)"

definition all_ready_body ::
  "'e runtime \<Rightarrow> 'e helper_api \<Rightarrow> ctx \<Rightarrow> string \<Rightarrow> int \<Rightarrow> unit \<Rightarrow> ('e, goerr option + unit) act" where
  "all_ready_body rt api c namespace deadline u =
     io_bind (ctxErr rt c) (\<lambda>d. case d of
       Some ctxe \<Rightarrow> io_ret (Inl (Some ctxe))
     | None \<Rightarrow> io_bind (timeNow rt) (\<lambda>now.
       if now > deadline then io_ret (Inl (Some (ErrText (''timeout waiting for all pods to be ready in namespace '' @ namespace))))
       else io_bind (list_pods api c namespace []) (\<lambda>g. case g of
         Inl err \<Rightarrow> sleep rt (2 * second)
       | Inr pods \<Rightarrow> if pods = [] then sleep rt (2 * second)
         else if list_all pod_ready pods then io_ret (Inl None)
         else sleep rt (2 * second))))"

definition WaitForAllPodsReadyInNamespace ::
  "'e runtime \<Rightarrow> 'e helper_api \<Rightarrow> ctx \<Rightarrow> string \<Rightarrow> int \<Rightarrow> ('e, goerr option) act" where
  "WaitForAllPodsReadyInNamespace rt api c namespace timeout = with_new_clientset rt api c ''failed to create clientset: '' Some
     (io_bind (timeNow rt) (\<lambda>now. loop (all_ready_body rt api c namespace (now + timeout)) ()))"

definition in_status :: "string \<Rightarrow> kpod \<Rightarrow> bool" where
  "in_status status pod \<longleftrightarrow> pod_phase pod = status \<or> status = ''Completed'' \<and> pod_phase pod = ''Succeeded''"

definition pod_failed :: "string \<Rightarrow> kpod \<Rightarrow> bool" where
  "pod_failed status pod \<longleftrightarrow> \<not> in_status status pod \<and> (pod_phase pod = ''Failed'' \<or> pod_phase pod = ''Error'')"

definition pod_pending :: "string \<Rightarrow> kpod \<Rightarrow> bool" where
  "pod_pending status pod \<longleftrightarrow> \<not> in_status status pod \<and> \<not> pod_failed status pod \<and> pod_phase pod = ''Pending''"

definition status_cancelled :: "string \<Rightarrow> goerr \<Rightarrow> goerr" where
  "status_cancelled status = wrapf (''context cancelled while waiting for pods status '' @ status @ '': '')"

definition status_body ::
  "'e runtime \<Rightarrow> 'e helper_api \<Rightarrow> ctx \<Rightarrow> string \<Rightarrow> string \<Rightarrow> string \<Rightarrow> int \<Rightarrow> int \<Rightarrow> int \<Rightarrow> int \<Rightarrow> ('e, goerr option + int) act" where
  "status_body rt api c namespace selector status expectedCount maxAttempts interval attempt =
     io_bind (ctxErr rt c) (\<lambda>d. case d of
       Some ctxe \<Rightarrow> io_ret (Inl (Some (status_cancelled status ctxe)))
     | None \<Rightarrow> io_bind (list_pods api c namespace selector) (\<lambda>g. case g of
       Inl err \<Rightarrow> io_ret (Inl (Some (wrapf ''failed to list pods: '' err)))
     | Inr pods \<Rightarrow>
       let readyCount = count_of (in_status status) pods;
           failedPods = map (\<lambda>pod. pod_name pod @ '' (reason: '' @ pod_reason pod @ '')'') (filter (pod_failed status) pods);
           failed = int (length failedPods) in
       if readyCount \<ge> expectedCount then io_ret (Inl None)
       else if failed > 0 \<and> failed > go_div expectedCount 10
       then io_ret (Inl (Some (ErrText (''too many pods failed ('' @ itoa failed @ '' failed): '' @ go_list failedPods))))
       else if maxAttempts > 0 \<and> attempt + 1 \<ge> maxAttempts
       then io_ret (Inl (Some (ErrText (''timeout waiting for pods status '' @ status @ '': '' @ itoa readyCount @ ''/'' @
         itoa expectedCount @ '' ready after '' @ itoa maxAttempts @ '' attempts (failed: '' @ itoa failed @ '', pending: '' @
         itoa (count_of (pod_pending status) pods) @ '')''))))
       else next_round rt c interval (status_cancelled status) (attempt + 1)))"

definition WaitForPodsStatus ::
  "'e runtime \<Rightarrow> 'e helper_api \<Rightarrow> ctx \<Rightarrow> string \<Rightarrow> string \<Rightarrow> string \<Rightarrow> int \<Rightarrow> int \<Rightarrow> int \<Rightarrow> ('e, goerr option) act" where
  "WaitForPodsStatus rt api c namespace selector status expectedCount maxAttempts interval =
     loop (status_body rt api c namespace selector status expectedCount maxAttempts interval) 0"


section \<open>What the waits for an object show\<close>

lemma same_from_iff:
  "n \<le> length a \<Longrightarrow> length a = length b \<Longrightarrow> same_from n a b \<longleftrightarrow> drop (length a - n) a = drop (length a - n) b"
proof (induction n)
  case (Suc n)
  then have "drop (length a - Suc n) x = x ! (length a - Suc n) # drop (length a - n) x" if "length x = length a" for x :: "string list"
    using that Cons_nth_drop_Suc [of "length a - Suc n" x] by (simp add: Suc_diff_Suc)
  with Suc show ?case by simp
qed simp

lemma sameFinalizers_eq: "sameFinalizers a b \<longleftrightarrow> a = b"
  unfolding sameFinalizers_def using same_from_iff [of "length a" a b] by auto

definition terminating_get :: "event \<Rightarrow> bool" where
  "terminating_get ev = (case ev of ObjGet _ _ _ (Inr obj) \<Rightarrow> uo_deletionTimestamp obj \<noteq> None | _ \<Rightarrow> False)"

definition missing_get :: "event \<Rightarrow> bool" where
  "missing_get ev = (case ev of ObjGet _ _ _ (Inl err) \<Rightarrow> has_reason NotFound err | _ \<Rightarrow> False)"

lemmas get_defs = terminating_get_def missing_get_def

lemma dynamic_client_gets_nothing:
  "only_calls (\<lambda>ev. \<not> terminating_get ev \<and> \<not> missing_get ev) (NewDynamicClientWithRetry rt api c)"
  unfolding NewDynamicClientWithRetry_def by (intro calls_intros only_calls_case_prod) (simp_all add: get_defs)

text \<open>\<open>ended_by A t0 P t\<close>: since \<open>t0\<close> nothing satisfied \<open>A\<close> before the last event, which satisfies \<open>P\<close>.\<close>

definition ended_by :: "('ev \<Rightarrow> bool) \<Rightarrow> 'ev list \<Rightarrow> ('ev \<Rightarrow> bool) \<Rightarrow> 'ev list \<Rightarrow> bool" where
  "ended_by A t0 P t \<longleftrightarrow> (\<exists>u ev. t = t0 @ u @ [ev] \<and> \<not> list_ex A u \<and> P ev)"

abbreviation none_since :: "('ev \<Rightarrow> bool) \<Rightarrow> 'ev list \<Rightarrow> 'ev list \<Rightarrow> bool" where
  "none_since A t0 \<equiv> since t0 (\<lambda>u. \<not> list_ex A u)"

lemma ended_byI: "none_since A t0 t \<Longrightarrow> P ev \<Longrightarrow> ended_by A t0 P (t @ [ev])"
  by (auto simp: since_def ended_by_def)

lemma ended_by_none_since: "ended_by A t0 P t \<Longrightarrow> (\<And>ev. P ev \<Longrightarrow> \<not> A ev) \<Longrightarrow> none_since A t0 t"
  by (auto simp: since_def ended_by_def)

lemma none_since_step: "none_since A t0 t \<Longrightarrow> \<not> A ev \<Longrightarrow> none_since A t0 (t @ [ev])"
  by (auto simp: since_def)

lemma triple_none_since:
  assumes "only_calls (\<lambda>ev. \<not> A ev) m"
  shows "triple (none_since A t0) m (\<lambda>_. none_since A t0)"
  by (rule triple_keeps [OF assms]) (rule none_since_step)

lemma ready_poll_triple:
  "triple (none_since terminating_get t0) (poll_loop rt c tick done_err (getWithTimeout api c' gvr namespace name T) (ready_cond label ref ready) n)
     (\<lambda>x t. fst x = None \<longrightarrow> ended_by terminating_get t0
        (\<lambda>ev. \<exists>obj. ev = ObjGet gvr namespace name (Inr obj) \<and> uo_deletionTimestamp obj = None \<and> ready obj) t)"
proof (rule triple_post)
  let ?J = "\<lambda>(s :: nat) g. ended_by terminating_get t0 (\<lambda>ev. ev = ObjGet gvr namespace name g)"
  let ?Q = "\<lambda>(s :: nat). ended_by terminating_get t0
        (\<lambda>ev. \<exists>obj. ev = ObjGet gvr namespace name (Inr obj) \<and> uo_deletionTimestamp obj = None \<and> ready obj)"
  show "triple (none_since terminating_get t0)
     (poll_loop rt c tick done_err (getWithTimeout api c' gvr namespace name T) (ready_cond label ref ready) n)
     (\<lambda>x t. if fst x = None then ?Q (snd x) t else True)"
  proof (rule any_poll.poll_triple [where I = "\<lambda>_. none_since terminating_get t0" and J = ?J and Q = ?Q and K = "\<lambda>_ _. True"])
    fix s
    show "triple (none_since terminating_get t0) (getWithTimeout api c' gvr namespace name T) (?J s)"
      unfolding getWithTimeout_def by (rule triple_call, rule ended_byI) simp_all
  next
    fix s g
    show "triple (?J s g) (ready_cond label ref ready s g) (\<lambda>y t. case fst y of Inl e \<Rightarrow> True
        | Inr b \<Rightarrow> if b then ?Q (snd y) t else none_since terminating_get t0 t)"
      unfolding ready_cond_def
      by (rule triple_ret) (auto simp: get_defs ended_by_def since_def split: sum.splits option.splits)
  qed (auto intro: none_since_step simp: get_defs)
qed simp

lemma gone_poll_triple:
  "triple (none_since missing_get t0) (poll_loop rt c tick done_err (getWithTimeout api c' gvr namespace name T) (gone_cond rt') v)
     (\<lambda>x t. fst x = None \<longrightarrow> ended_by missing_get t0
        (\<lambda>ev. \<exists>err. ev = ObjGet gvr namespace name (Inl err) \<and> has_reason NotFound err) t)"
proof (rule triple_post)
  let ?J = "\<lambda>(s :: gone_vars) g. ended_by missing_get t0 (\<lambda>ev. ev = ObjGet gvr namespace name g)"
  let ?Q = "\<lambda>(s :: gone_vars). ended_by missing_get t0 (\<lambda>ev. \<exists>err. ev = ObjGet gvr namespace name (Inl err) \<and> has_reason NotFound err)"
  show "triple (none_since missing_get t0)
     (poll_loop rt c tick done_err (getWithTimeout api c' gvr namespace name T) (gone_cond rt') v)
     (\<lambda>x t. if fst x = None then ?Q (snd x) t else True)"
  proof (rule any_poll.poll_triple [where I = "\<lambda>_. none_since missing_get t0" and J = ?J and Q = ?Q and K = "\<lambda>_ _. True"])
    fix s
    show "triple (none_since missing_get t0) (getWithTimeout api c' gvr namespace name T) (?J s)"
      unfolding getWithTimeout_def by (rule triple_call, rule ended_byI) simp_all
  next
    fix s g
    show "triple (?J s g) (gone_cond rt' s g) (\<lambda>y t. case fst y of Inl e \<Rightarrow> True
        | Inr b \<Rightarrow> if b then ?Q (snd y) t else none_since missing_get t0 t)"
    proof (cases g)
      case (Inl err)
      then show ?thesis unfolding gone_cond_def
        by (auto intro!: triple_ret simp: get_defs ended_by_def since_def)
    next
      case (Inr obj)
      have none: "none_since missing_get t0 t" if "?J s g t" for t
        using that Inr by (auto simp: get_defs ended_by_def since_def)
      have now: "triple (none_since missing_get t0) (timeNow rt') (\<lambda>_. none_since missing_get t0)"
        by (rule triple_timeNow)
      show ?thesis unfolding gone_cond_def Inr Let_def sum.case
        by (rule triple_bind [OF triple_pre [OF now none [unfolded Inr]]], assumption)
          (intro triple_intros triple_bind [OF now] triple_ret, simp_all)
    qed
  qed (auto intro: none_since_step simp: get_defs)
qed simp


text \<open>
  C21. The two waits for an object stop on what they wait for. When \<^verbatim>\<open>pollResourceUntilReady\<close> returns nil, the last call it made was
  the read of an object that is ready and not being deleted, and no earlier read of the run showed an object being deleted: such
  an object ends the wait with an error. When \<^verbatim>\<open>pollResourceUntilGone\<close> returns nil, its last call was the first read that the API
  answered with NotFound; a network error, or any other error, is never taken for the absence of the object.
\<close>

theorem object_waits_sound:
  "(pollResourceUntilReady rt api c gvr namespace name readyTimeout tick label isReady w = Some (None, w') \<longrightarrow>
     ended_by terminating_get (tr w) (\<lambda>ev. \<exists>obj. ev = ObjGet gvr namespace name (Inr obj) \<and>
       uo_deletionTimestamp obj = None \<and> (\<exists>ready. isReady = Some ready \<and> ready obj)) (tr w')) \<and>
   (pollResourceUntilGone rt api c gvr namespace name goneTimeout tick label w = Some (None, w') \<longrightarrow>
     ended_by missing_get (tr w) (\<lambda>ev. \<exists>err. ev = ObjGet gvr namespace name (Inl err) \<and> has_reason NotFound err) (tr w'))"
proof (intro conjI impI)
  have client: "triple (none_since A (tr w)) (NewDynamicClientWithRetry rt (ha_kube api) c) (\<lambda>_. none_since A (tr w))"
    if "A = terminating_get \<or> A = missing_get" for A
    using that by (auto intro!: triple_none_since only_calls_mono [OF dynamic_client_gets_nothing])
  assume run: "pollResourceUntilReady rt api c gvr namespace name readyTimeout tick label isReady w = Some (None, w')"
  then obtain ready where ready: "isReady = Some ready" by (cases isReady) (auto simp: pollResourceUntilReady_def io_simps split: if_splits)
  let ?Q = "ended_by terminating_get (tr w) (\<lambda>ev. \<exists>obj. ev = ObjGet gvr namespace name (Inr obj) \<and> uo_deletionTimestamp obj = None \<and> ready obj)"
  have "triple (none_since terminating_get (tr w))
      (pollResourceUntilReady rt api c gvr namespace name readyTimeout tick label isReady) (\<lambda>e t. e = None \<longrightarrow> ?Q t)"
    unfolding pollResourceUntilReady_def ready Let_def option.case
    by (intro triple_intros triple_ret triple_bind [OF client] triple_bind [OF ready_poll_triple]) simp_all
  from tripleD [OF this run] show "ended_by terminating_get (tr w) (\<lambda>ev. \<exists>obj. ev = ObjGet gvr namespace name (Inr obj) \<and>
       uo_deletionTimestamp obj = None \<and> (\<exists>ready. isReady = Some ready \<and> ready obj)) (tr w')"
    by (simp add: since_def ready)
next
  let ?Q = "ended_by missing_get (tr w) (\<lambda>ev. \<exists>err. ev = ObjGet gvr namespace name (Inl err) \<and> has_reason NotFound err)"
  have client: "triple (none_since missing_get (tr w)) (NewDynamicClientWithRetry rt (ha_kube api) c) (\<lambda>_. none_since missing_get (tr w))"
    by (rule triple_none_since, rule only_calls_mono [OF dynamic_client_gets_nothing]) simp
  assume run: "pollResourceUntilGone rt api c gvr namespace name goneTimeout tick label w = Some (None, w')"
  have "triple (none_since missing_get (tr w)) (pollResourceUntilGone rt api c gvr namespace name goneTimeout tick label) (\<lambda>e t. e = None \<longrightarrow> ?Q t)"
    unfolding pollResourceUntilGone_def Let_def
    by (intro triple_intros triple_ret triple_bind [OF client] triple_bind [OF gone_poll_triple]) simp_all
  from tripleD [OF this run] show "?Q (tr w')" by (simp add: since_def)
qed

section \<open>What labelling a node writes\<close>

definition with_label :: "string \<Rightarrow> string \<Rightarrow> knode \<Rightarrow> knode" where
  "with_label key val node = node\<lparr>node_labels := (node_labels node)(key \<mapsto> val)\<rparr>"

definition is_node_update :: "event \<Rightarrow> bool" where
  "is_node_update ev = (case ev of NodeUpdate _ _ \<Rightarrow> True | _ \<Rightarrow> False)"

text \<open>A write follows a read of the node without the label, and changes nothing else.\<close>

definition label_write_ok :: "string list \<Rightarrow> string \<Rightarrow> string \<Rightarrow> event list \<Rightarrow> event \<Rightarrow> bool" where
  "label_write_ok names key val before ev \<longleftrightarrow> is_node_update ev \<longrightarrow>
     (\<exists>a name node r. before = a @ [NodeGet name (Inr node)] \<and> name \<in> set names \<and> node_labels node key \<noteq> Some val \<and>
        ev = NodeUpdate (with_label key val node) r)"

definition labelled_in :: "string \<Rightarrow> string \<Rightarrow> string \<Rightarrow> event list \<Rightarrow> bool" where
  "labelled_in key val name u \<longleftrightarrow> (\<exists>node. NodeGet name (Inr node) \<in> set u \<and>
     (node_labels node key = Some val \<or> NodeUpdate (with_label key val node) None \<in> set u))"

text \<open>The writes of one node: those that directly follow a read of it.\<close>

definition writes_of :: "string \<Rightarrow> event list \<Rightarrow> nat" where
  "writes_of name u = length (filter (\<lambda>k. is_node_update (u ! Suc k) \<and> (\<exists>g. u ! k = NodeGet name g)) [0..<length u - 1])"

lemma writes_of_Nil [simp]: "writes_of name [] = 0"
  by (simp add: writes_of_def)

lemma writes_of_snoc:
  "writes_of name (u @ [ev]) = writes_of name u + (if is_node_update ev \<and> u \<noteq> [] \<and> (\<exists>g. last u = NodeGet name g) then 1 else 0)"
proof (cases u rule: rev_cases)
  case (snoc v x)
  have "filter (\<lambda>k. is_node_update ((v @ [x, ev]) ! Suc k) \<and> (\<exists>g. (v @ [x, ev]) ! k = NodeGet name g)) [0..<length v] =
      filter (\<lambda>k. is_node_update ((v @ [x]) ! Suc k) \<and> (\<exists>g. (v @ [x]) ! k = NodeGet name g)) [0..<length v]"
    by (rule filter_cong) (auto simp: nth_append less_Suc_eq)
  with snoc show ?thesis by (simp add: writes_of_def nth_append)
qed (simp add: writes_of_def)

definition label_inv :: "string list \<Rightarrow> string \<Rightarrow> string \<Rightarrow> (string \<Rightarrow> nat) \<Rightarrow> string set \<Rightarrow> event list \<Rightarrow> bool" where
  "label_inv names key val b D u \<longleftrightarrow> history (label_write_ok names key val) u \<and>
     (\<forall>name. writes_of name u \<le> b name) \<and> (\<forall>name \<in> D. labelled_in key val name u)"

lemma labelled_in_step: "labelled_in key val name u \<Longrightarrow> labelled_in key val name (u @ [ev])"
  by (auto simp: labelled_in_def)

lemma label_inv_mono:
  "label_inv names key val b D u \<Longrightarrow> (\<And>name. b name \<le> b' name) \<Longrightarrow> D' \<subseteq> D \<Longrightarrow> label_inv names key val b' D' u"
  by (auto simp: label_inv_def intro: order_trans)

lemma label_inv_read:
  "label_inv names key val b D u \<Longrightarrow> \<not> is_node_update ev \<Longrightarrow> label_inv names key val b D (u @ [ev])"
  by (auto simp: label_inv_def label_write_ok_def labelled_in_step writes_of_snoc)

definition bump :: "(string \<Rightarrow> nat) \<Rightarrow> string \<Rightarrow> nat \<Rightarrow> string \<Rightarrow> nat" where
  "bump b name n x = b x + (if x = name then n else 0)"

lemma bump_simps: "bump (bump b name k) name n = bump b name (k + n)" "bump b name 0 = b" "b x \<le> bump b name n x"
  "m \<le> n \<Longrightarrow> bump b name m x \<le> bump b name n x"
  by (auto simp: bump_def fun_eq_iff)

lemma label_inv_write:
  assumes "label_inv names key val b D u" "u = a @ [NodeGet name (Inr node)]" "name \<in> set names" "node_labels node key \<noteq> Some val"
  shows "label_inv names key val (bump b name 1) D (u @ [NodeUpdate (with_label key val node) r])"
    "r = None \<Longrightarrow> label_inv names key val (bump b name 1) (insert name D) (u @ [NodeUpdate (with_label key val node) r])"
proof -
  have ok: "label_write_ok names key val u (NodeUpdate (with_label key val node) r)"
    using assms by (auto simp: label_write_ok_def)
  have "last u = NodeGet name (Inr node)" "writes_of n u \<le> b n" for n using assms(1,2) by (simp_all add: label_inv_def)
  then have "writes_of n (u @ [NodeUpdate (with_label key val node) r]) \<le> bump b name 1 n" for n
    by (auto simp: writes_of_snoc bump_def intro: le_SucI)
  with assms(1) ok show "label_inv names key val (bump b name 1) D (u @ [NodeUpdate (with_label key val node) r])"
    by (auto simp: label_inv_def labelled_in_step)
  moreover assume "r = None"
  with assms(2) have "labelled_in key val name (u @ [NodeUpdate (with_label key val node) r])"
    unfolding labelled_in_def by (intro exI [of _ node]) simp
  ultimately show "label_inv names key val (bump b name 1) (insert name D) (u @ [NodeUpdate (with_label key val node) r])"
    by (auto simp: label_inv_def)
qed

lemma label_attempts_triple:
  "name \<in> set names \<Longrightarrow> n > 0 \<or> lastErr \<noteq> None \<Longrightarrow>
   triple (since t0 (label_inv names key val b D)) (label_attempts api c name key val n lastErr)
     (\<lambda>e. since t0 (label_inv names key val (bump b name n) (if e = None then insert name D else D)))"
proof (induction n arbitrary: b lastErr)
  case 0
  then show ?case by (auto simp: bump_simps intro!: triple_ret)
next
  case (Suc n)
  let ?R = "\<lambda>g. since t0 (\<lambda>u. label_inv names key val b D u \<and> (\<exists>a. u = a @ [NodeGet name g]))"
  have get: "triple (since t0 (label_inv names key val b D)) (getNode api c name) ?R"
    by (rule triple_call, erule since_step) (simp add: label_inv_read is_node_update_def)
  have put: "triple (?R (Inr node)) (call (NodeUpdate (with_label key val node)) f)
      (\<lambda>r. since t0 (label_inv names key val (bump b name 1) (if r = None then insert name D else D)))"
    if "node_labels node key \<noteq> Some val" for node f
    by (rule triple_call, erule since_step) (use Suc.prems(1) that label_inv_write in \<open>auto simp del: One_nat_def\<close>)
  have again: "triple (since t0 (label_inv names key val (bump b name 1) D)) (label_attempts api c name key val n (Some err))
     (\<lambda>e. since t0 (label_inv names key val (bump b name (Suc n)) (if e = None then insert name D else D)))" for err
    using Suc.IH [of "Some err" "bump b name 1"] Suc.prems(1) by (simp add: bump_simps)
  show ?case unfolding label_attempts.simps with_label_def [symmetric]
    apply (rule triple_bind [OF get], intro triple_intros triple_ret)
      apply (erule since_imp, simp, erule conjE, erule label_inv_mono, simp add: bump_simps, simp)
     apply (simp, erule since_imp, rule label_inv_mono [where b = b and D = "insert name D"], fastforce simp: label_inv_def labelled_in_def, simp add: bump_simps, simp)
    apply (simp, rule triple_bind [OF put], assumption, intro triple_intros triple_ret)
      apply (simp, erule since_imp, erule label_inv_mono, simp add: bump_simps, simp)
     apply (simp, rule again [simplified])
    apply (simp, erule since_imp, erule label_inv_mono, simp add: bump_simps, simp)
    done
qed

lemma label_each_triple:
  "set ns \<subseteq> set names \<Longrightarrow>
   triple (since t0 (label_inv names key val b D)) (label_each api c key val ns)
     (\<lambda>e. since t0 (label_inv names key val (\<lambda>n. b n + 5 * count_list ns n) (if e = None then D \<union> set ns else {})))"
proof (induction ns arbitrary: b D)
  case Nil
  show ?case by (auto intro!: triple_ret)
next
  case (Cons name ns)
  have first: "triple (since t0 (label_inv names key val b D)) (label_attempts api c name key val label_retries None)
     (\<lambda>e. since t0 (label_inv names key val (bump b name 5) (if e = None then insert name D else D)))"
    using label_attempts_triple [of name names label_retries None] Cons.prems by (simp add: label_retries_def)
  have rest: "triple (since t0 (label_inv names key val (bump b name 5) (insert name D))) (label_each api c key val ns)
     (\<lambda>e. since t0 (label_inv names key val (\<lambda>n. b n + 5 * count_list (name # ns) n) (if e = None then D \<union> set (name # ns) else {})))"
    by (rule triple_post [OF Cons.IH [of "bump b name 5" "insert name D"]])
      (use Cons.prems in \<open>auto simp: bump_def elim!: since_imp label_inv_mono\<close>)
  show ?case unfolding label_each.simps
    apply (rule triple_bind [OF first], intro triple_intros triple_ret)
     apply (rule triple_pre [OF rest], simp)
    apply (simp, erule since_imp, erule label_inv_mono, simp add: bump_def, simp)
    done
qed

lemma clientset_updates_nothing: "only_calls (\<lambda>ev. \<not> is_node_update ev) (NewClientsetWithRetry rt api c)"
  unfolding NewClientsetWithRetry_def by (intro calls_intros only_calls_case_prod) (simp_all add: is_node_update_def)

lemma label_inv_quiet:
  "only_calls (\<lambda>ev. \<not> is_node_update ev) m \<Longrightarrow>
     triple (since t0 (label_inv names key val b D)) m (\<lambda>_. since t0 (label_inv names key val b D))"
  by (erule triple_keeps) (auto elim!: since_step intro: label_inv_read)

text \<open>
  C22. \<^verbatim>\<open>LabelNodes\<close>, whatever the API answers and however it returns: every node it writes is one of the given nodes, exactly as it was
  read by the call just before, with the one label added, and it is only written when the label was missing or had another
  value; each node is written at most five times, for each time it is in the list. When it returns nil, every node of the list was seen with the label or
  was written with it.
\<close>

theorem label_nodes_writes:
  assumes "LabelNodes rt api c nodeNames key val w = Some (e, w')"
  shows "\<exists>u. tr w' = tr w @ u \<and> history (label_write_ok nodeNames key val) u \<and>
    (\<forall>name. writes_of name u \<le> 5 * count_list nodeNames name) \<and>
    (e = None \<longrightarrow> (\<forall>name \<in> set nodeNames. labelled_in key val name u))"
proof -
  let ?post = "\<lambda>e. since (tr w) (label_inv nodeNames key val (\<lambda>n. 5 * count_list nodeNames n) (if e = None then set nodeNames else {}))"
  let ?pre = "since (tr w) (label_inv nodeNames key val (\<lambda>_. 0) {})"
  have run: "triple ?pre (label_each api c key val nodeNames) ?post"
    by (rule triple_post [OF label_each_triple [of nodeNames nodeNames "tr w" key val "\<lambda>_. 0" "{}"]]) auto
  have "triple ?pre (LabelNodes rt api c nodeNames key val) ?post"
    unfolding LabelNodes_def with_new_clientset_def
    by (intro triple_intros triple_ret triple_bind [OF label_inv_quiet [OF clientset_updates_nothing]])
      (auto intro: run elim!: since_imp label_inv_mono)
  from tripleD [OF this assms] show ?thesis
    by (auto simp: since_def label_inv_def)
qed

section \<open>How often the waits ask\<close>

definition is_list :: "event \<Rightarrow> bool" where
  "is_list ev = (case ev of PodList _ _ _ \<Rightarrow> True | PVCList _ _ _ \<Rightarrow> True | _ \<Rightarrow> False)"

definition asked :: "int \<Rightarrow> event list \<Rightarrow> bool" where
  "asked n u \<longleftrightarrow> int (length (filter is_list u)) \<le> n"

lemma asked_wait: "asked n u \<Longrightarrow> \<not> is_list ev \<Longrightarrow> asked n (u @ [ev])"
  by (simp add: asked_def)

lemma asked_list: "asked n u \<Longrightarrow> asked (n + 1) (u @ [ev])"
  by (simp add: asked_def)

lemma asked_mono: "asked n u \<Longrightarrow> n \<le> m \<Longrightarrow> asked m u"
  by (simp add: asked_def)

lemma next_round_triple:
  "(\<And>u ev. P u \<Longrightarrow> \<not> is_list ev \<Longrightarrow> P (u @ [ev])) \<Longrightarrow> triple (since t0 P) (next_round rt c interval f attempt)
     (\<lambda>x t. since t0 P t \<and> (\<forall>a. x = Inr a \<longrightarrow> a = attempt))"
  unfolding next_round_def
  by (rule triple_bind [where R = "\<lambda>_. since t0 P"], rule triple_waitFor)
    (auto simp: is_list_def elim!: since_step intro!: triple_ret split: option.splits)

lemma status_rounds:
  assumes "0 < maxAttempts"
  shows "triple (since t0 (asked 0)) (WaitForPodsStatus rt api c namespace selector status expectedCount maxAttempts interval)
    (\<lambda>e. since t0 (asked maxAttempts))"
proof -
  let ?I = "\<lambda>attempt t. attempt < maxAttempts \<and> since t0 (asked attempt) t"
  let ?body = "status_body rt api c namespace selector status expectedCount maxAttempts interval"
  have round: "triple (since t0 (asked (attempt + 1))) (next_round rt c interval f (attempt + 1))
      (\<lambda>x t. case x of Inl e \<Rightarrow> since t0 (asked maxAttempts) t | Inr a \<Rightarrow> ?I a t)" if "attempt + 1 < maxAttempts" for attempt f
    by (rule triple_post [OF next_round_triple])
      (use that in \<open>auto intro: asked_wait elim!: since_imp asked_mono split: sum.splits\<close>)
  have ask: "triple (since t0 (asked attempt)) (list_pods api c namespace selector) (\<lambda>_. since t0 (asked (attempt + 1)))" for attempt
    by (rule triple_call, erule since_step) (rule asked_list)
  have "triple (?I attempt) (?body attempt) (\<lambda>x t. case x of Inl e \<Rightarrow> since t0 (asked maxAttempts) t | Inr a \<Rightarrow> ?I a t)" for attempt
    unfolding status_body_def Let_def using assms
    by (intro triple_assume)
      (intro triple_intros triple_ret triple_bind [OF triple_ctxErr [where Q = "\<lambda>_. since t0 (asked attempt)"]]
         triple_bind [OF ask] round;
       auto elim!: since_imp asked_mono)
  from triple_loop [where I = ?I, OF this, of 0] assms show ?thesis
    unfolding WaitForPodsStatus_def by simp
qed

lemma status_body_cases:
  assumes "0 < maxAttempts"
  shows "(\<exists>r w'. status_body rt api c namespace selector status expectedCount maxAttempts interval attempt w = Some (Inl r, w')) \<or>
    (\<exists>w'. status_body rt api c namespace selector status expectedCount maxAttempts interval attempt w = Some (Inr (attempt + 1), w') \<and>
       attempt + 1 < maxAttempts)"
  unfolding status_body_def next_round_def Let_def using assms
  by (simp add: io_simps split: option.splits sum.splits)

text \<open>
  \<^verbatim>\<open>WaitForPodsStatus\<close> with a positive limit always returns, whatever the API answers and even if the context never ends, and it
  lists the pods at most as often as the limit says.
\<close>

lemma pods_wait_limited:
  assumes "0 < maxAttempts"
  shows "\<exists>e w' u. WaitForPodsStatus rt api c namespace selector status expectedCount maxAttempts interval w = Some (e, w') \<and>
    tr w' = tr w @ u \<and> int (length (filter is_list u)) \<le> maxAttempts"
proof -
  have "\<exists>e w'. WaitForPodsStatus rt api c namespace selector status expectedCount maxAttempts interval w = Some (e, w')"
    unfolding WaitForPodsStatus_def
  proof (rule loop_terminates [where I = "\<lambda>_ _. True" and f = "\<lambda>attempt _. nat (maxAttempts - attempt)"])
    fix attempt and w :: "(event, 'a) world"
    let ?body = "status_body rt api c namespace selector status expectedCount maxAttempts interval attempt w"
    from status_body_cases [OF assms, of rt api c namespace selector status expectedCount interval attempt w]
    show "(\<exists>r w'. ?body = Some (Inl r, w')) \<or>
      (\<exists>a w'. ?body = Some (Inr a, w') \<and> True \<and> nat (maxAttempts - a) < nat (maxAttempts - attempt))"
      by force
  qed simp
  then obtain e w' where run: "WaitForPodsStatus rt api c namespace selector status expectedCount maxAttempts interval w = Some (e, w')" by blast
  from tripleD [OF status_rounds [OF assms] this, of "tr w"] obtain u where "tr w' = tr w @ u" "asked maxAttempts u"
    by (auto simp: since_def asked_def)
  with run show ?thesis by (auto simp: asked_def)
qed

definition saw_bound :: "event \<Rightarrow> bool" where
  "saw_bound ev = (case ev of PVCList _ _ (Inr pvcs) \<Rightarrow> \<exists>pvc \<in> set pvcs. pvc_phase pvc = ''Bound'' | _ \<Rightarrow> False)"

definition bound_rounds :: "event list \<Rightarrow> int" where
  "bound_rounds u = int (length (filter saw_bound u))"

lemma bound_rounds_snoc: "bound_rounds (u @ [ev]) = bound_rounds u + (if saw_bound ev then 1 else 0)"
  by (simp add: bound_rounds_def)

lemma saw_bound_list: "saw_bound (PVCList ns sel (Inr pvcs)) \<longleftrightarrow> 0 < count_of (\<lambda>pvc. pvc_phase pvc = ''Bound'') pvcs"
  by (auto simp: saw_bound_def count_of_def filter_empty_conv)

text \<open>How the wait ended: with enough bound claims in the last list, or with an error; right after an answered list, that is the limit.\<close>

definition bound_outcome :: "int \<Rightarrow> int \<Rightarrow> goerr option \<Rightarrow> event list \<Rightarrow> bool" where
  "bound_outcome expectedCount maxAttempts e u \<longleftrightarrow> bound_rounds u \<le> maxAttempts \<and>
     (e = None \<longrightarrow> (\<exists>a ns sel pvcs. u = a @ [PVCList ns sel (Inr pvcs)] \<and> expectedCount \<le> count_of (\<lambda>pvc. pvc_phase pvc = ''Bound'') pvcs)) \<and>
     (\<forall>a ns sel pvcs. e \<noteq> None \<and> u = a @ [PVCList ns sel (Inr pvcs)] \<longrightarrow> bound_rounds u = maxAttempts)"

lemma bound_wait_triple:
  assumes pos: "0 < maxAttempts"
  shows "triple (since t0 (\<lambda>u. u = [])) (WaitForPVCsBound rt api c namespace selector expectedCount maxAttempts interval)
    (\<lambda>e. since t0 (bound_outcome expectedCount maxAttempts e))"
proof -
  let ?I = "\<lambda>attempt t. attempt < maxAttempts \<and> since t0 (\<lambda>u. bound_rounds u = attempt) t"
  let ?post = "\<lambda>x t. case x of Inl e \<Rightarrow> since t0 (bound_outcome expectedCount maxAttempts e) t | Inr a \<Rightarrow> ?I a t"
  let ?listed = "\<lambda>attempt g. since t0 (\<lambda>u. \<exists>a. u = a @ [PVCList namespace selector g] \<and> bound_rounds a = attempt)"
  let ?n = "count_of (\<lambda>pvc. pvc_phase pvc = ''Bound'')"
  have ask: "triple (?I attempt) (list_PVCs api c namespace selector) (\<lambda>g t. attempt < maxAttempts \<and> ?listed attempt g t)" for attempt
    by (rule triple_call) (auto elim!: since_step)
  have round: "triple (\<lambda>t. attempt < maxAttempts \<and> since t0 (\<lambda>u. bound_rounds u = attempt) t) (next_round rt c interval id attempt) ?post" for attempt
    unfolding next_round_def
    by (rule triple_bind [where R = "\<lambda>_ t. attempt < maxAttempts \<and> since t0 (\<lambda>u. \<exists>a. u = a @ [Waited c interval] \<and> bound_rounds u = attempt) t"],
        rule triple_waitFor)
      (auto simp: bound_rounds_snoc saw_bound_def bound_outcome_def elim!: since_step since_imp intro!: triple_ret split: option.splits)
  have "triple (?I attempt) (bound_body rt api c namespace selector expectedCount maxAttempts interval attempt) ?post" for attempt
    unfolding bound_body_def Let_def
    apply (rule triple_bind [OF ask], intro triple_intros triple_ret)
       apply (auto simp: bound_outcome_def bound_rounds_snoc saw_bound_def elim!: since_imp) [1]
      apply (fastforce simp: bound_outcome_def bound_rounds_snoc saw_bound_list elim!: since_imp)
     apply (fastforce simp: bound_outcome_def bound_rounds_snoc saw_bound_list elim!: since_imp split: if_splits)
    apply (rule triple_pre [OF round])
    apply (use pos in \<open>auto simp: bound_rounds_snoc saw_bound_list elim!: since_imp split: if_splits\<close>)
    done
  from triple_loop [where I = ?I, OF this, of 0] pos show ?thesis
    unfolding WaitForPVCsBound_def
    by (elim triple_pre) (auto simp: bound_rounds_def elim!: since_imp)
qed

text \<open>
  C35. The limit of \<^verbatim>\<open>WaitForPVCsBound\<close> counts the rounds that saw a bound claim, and only those. Whatever the API answers, a wait with a positive limit
  has at most that many of them; it succeeds on a list with enough bound claims, and when it gives up after a list, it has had exactly as many as
  the limit says. So it returns when every list shows a bound claim, after at most as many lists as the limit; but while no claim is bound, and the API answers and the
  context does not end, it goes on for ever, whatever the limit.
\<close>

theorem pvc_wait_limit:
  "(0 < maxAttempts \<and> WaitForPVCsBound rt api c namespace selector expectedCount maxAttempts interval w = Some (e, w')
     \<longrightarrow> (\<exists>u. tr w' = tr w @ u \<and> bound_outcome expectedCount maxAttempts e u)) \<and>
   ((\<forall>s pvcs s'. ha_listPVCs api c namespace selector s = (Inr pvcs, s') \<longrightarrow> (\<exists>pvc \<in> set pvcs. pvc_phase pvc = ''Bound'')) \<and> 0 < maxAttempts
     \<longrightarrow> (\<exists>e w'. WaitForPVCsBound rt api c namespace selector expectedCount maxAttempts interval w = Some (e, w'))) \<and>
   ((\<forall>s. \<exists>pvcs s'. ha_listPVCs api c namespace selector s = (Inr pvcs, s') \<and> (\<forall>pvc \<in> set pvcs. pvc_phase pvc \<noteq> ''Bound'')) \<and>
    0 < expectedCount \<and> (\<forall>s. fst (rt_select rt c interval s) = None)
     \<longrightarrow> WaitForPVCsBound rt api c namespace selector expectedCount limit interval w = None)"
proof (intro conjI impI; (elim conjE)?)
  assume "0 < maxAttempts" and "WaitForPVCsBound rt api c namespace selector expectedCount maxAttempts interval w = Some (e, w')"
  from tripleD [OF bound_wait_triple [OF this(1)] this(2), of "tr w"]
  show "\<exists>u. tr w' = tr w @ u \<and> bound_outcome expectedCount maxAttempts e u" by (auto simp: since_def)
next
  assume bound: "\<forall>s pvcs s'. ha_listPVCs api c namespace selector s = (Inr pvcs, s') \<longrightarrow> (\<exists>pvc \<in> set pvcs. pvc_phase pvc = ''Bound'')"
    and pos: "0 < maxAttempts"
  show "\<exists>e w'. WaitForPVCsBound rt api c namespace selector expectedCount maxAttempts interval w = Some (e, w')"
    unfolding WaitForPVCsBound_def
  proof (rule loop_terminates [where I = "\<lambda>_ _. True" and f = "\<lambda>attempt _. nat (maxAttempts - attempt)"])
    fix attempt and w :: "(event, 'a) world"
    obtain g s' where g: "ha_listPVCs api c namespace selector (est w) = (g, s')" by fastforce
    have "0 < count_of (\<lambda>pvc. pvc_phase pvc = ''Bound'') pvcs" if "g = Inr pvcs" for pvcs
      using bound g that by (auto simp: count_of_def filter_empty_conv)
    then show "(\<exists>r w'. bound_body rt api c namespace selector expectedCount maxAttempts interval attempt w = Some (Inl r, w')) \<or>
      (\<exists>a w'. bound_body rt api c namespace selector expectedCount maxAttempts interval attempt w = Some (Inr a, w') \<and> True \<and>
         nat (maxAttempts - a) < nat (maxAttempts - attempt))"
      using pos unfolding bound_body_def next_round_def Let_def
      by (auto simp: io_simps g split: option.splits sum.splits)
  qed simp
next
  assume none: "\<forall>s. \<exists>pvcs s'. ha_listPVCs api c namespace selector s = (Inr pvcs, s') \<and> (\<forall>pvc \<in> set pvcs. pvc_phase pvc \<noteq> ''Bound'')"
    and pos: "0 < expectedCount" and ticks: "\<forall>s. fst (rt_select rt c interval s) = None"
  have "attempt = 0 \<Longrightarrow> False"
    if "loop (bound_body rt api c namespace selector expectedCount limit interval) attempt w = Some (r, w')" for attempt r w w'
    using that
  proof (induction rule: loop_induct)
    case (stop attempt w r w')
    from none obtain pvcs s' where l: "ha_listPVCs api c namespace selector (est w) = (Inr pvcs, s')"
      "\<forall>pvc \<in> set pvcs. pvc_phase pvc \<noteq> ''Bound''" by metis
    then have "count_of (\<lambda>pvc. pvc_phase pvc = ''Bound'') pvcs = 0" by (simp add: count_of_def)
    with stop l(1) pos ticks show ?case by (simp add: bound_body_def next_round_def io_simps split: if_splits)
  next
    case (step attempt w a1 w1 r w')
    from none obtain pvcs s' where l: "ha_listPVCs api c namespace selector (est w) = (Inr pvcs, s')"
      "\<forall>pvc \<in> set pvcs. pvc_phase pvc \<noteq> ''Bound''" by metis
    then have "count_of (\<lambda>pvc. pvc_phase pvc = ''Bound'') pvcs = 0" by (simp add: count_of_def)
    with step l(1) pos ticks show ?case by (simp add: bound_body_def next_round_def io_simps split: if_splits)
  qed
  then show "WaitForPVCsBound rt api c namespace selector expectedCount limit interval w = None"
    unfolding WaitForPVCsBound_def by (metis option.exhaust surj_pair)
qed


section \<open>A small cluster\<close>

text \<open>
  The outside counts down with every read of an object: it is pending, then ready, then gone. The first write of a node meets a
  conflict.
\<close>

definition gone_status :: goerr where
  "gone_status = ErrStatus \<lparr>st_code = 404, st_reason = NotFound, st_retryAfter = None, st_text = []\<rparr>"

definition conflict_status :: goerr where
  "conflict_status = ErrStatus \<lparr>st_code = 409, st_reason = Conflict, st_retryAfter = None, st_text = []\<rparr>"

definition some_obj :: "nat \<Rightarrow> uobj" where
  "some_obj n = \<lparr>uo_resourceVersion = [], uo_deletionTimestamp = None, uo_finalizers = [], uo_strings = [[''status'', ''phase''] \<mapsto> if n = 1 then ''Ready'' else ''Pending'']\<rparr>"

definition some_pvc :: kpvc where
  "some_pvc = \<lparr>pvc_name = ''data'', pvc_phase = ''Bound'', pvc_capacity = None\<rparr>"

definition small_helper :: "kpvc list \<Rightarrow> nat helper_api" where
  "small_helper pvcs = \<lparr>ha_kube = healing_kube, ha_getNode = (\<lambda>c n s. (Inr (master_node True), s)),
     ha_updateNode = (\<lambda>c n s. (if s = 0 then None else Some conflict_status, s - 1)),
     ha_listPods = (\<lambda>c ns sel s. (Inr [], s)), ha_listPVCs = (\<lambda>c ns sel s. (Inr pvcs, s)), ha_getPVC = (\<lambda>c ns n s. (Inr some_pvc, s)),
     ha_patchPVC = (\<lambda>c ns n v s. (None, s)),
     ha_getObj = (\<lambda>c gvr ns n s. (if s = 0 then Inl gone_status else Inr (some_obj s), s - 1)),
     ha_getCM = (\<lambda>c ns n s. (Inl gone_status, s)), ha_createCM = (\<lambda>c cm s. (None, s)), ha_deleteCM = (\<lambda>c ns n s. (None, s)),
     ha_parseQuantity = (\<lambda>t. Inr \<lparr>q_val = 0, q_text = t\<rparr>)\<rparr>"

definition phase_ready :: "uobj \<Rightarrow> bool" where
  "phase_ready obj \<longleftrightarrow> uo_strings obj [''status'', ''phase''] = Some ''Ready''"

lemma small_dynamic: "yields s (NewDynamicClientWithRetry sample_rt healing_kube c) None s"
  unfolding NewDynamicClientWithRetry_def
  by (rule yields_bind, rule yields_Do [where x = "()"]) (auto simp: yields_def io_simps healing_kube_def DefaultConfig_def)

lemma small_clientset: "yields s (NewClientsetWithRetry sample_rt healing_kube c) None s"
  unfolding NewClientsetWithRetry_def
  by (rule yields_bind, rule yields_Do [where x = "()"]) (auto simp: yields_def io_simps healing_kube_def DefaultConfig_def)

lemma yields_runs: "yields s m r s' \<Longrightarrow> \<exists>w'. m \<lparr>tr = [], est = s\<rparr> = Some (r, w')"
  unfolding yields_def by blast

abbreviation small_ready :: "(nat, goerr option) act" where
  "small_ready \<equiv> pollResourceUntilReady sample_rt (small_helper []) CtxRoot ''pods'' ''ns'' ''p'' second 0 ''Pod'' (Some phase_ready)"

abbreviation small_gone :: "(nat, goerr option) act" where
  "small_gone \<equiv> pollResourceUntilGone sample_rt (small_helper []) CtxRoot ''pods'' ''ns'' ''p'' second 0 ''Pod''"

lemmas small_poll_defs = poll_loop_def PollTickInterval_def second_def loop_unfold poll_body_def getWithTimeout_def ready_cond_def gone_cond_def
  small_helper_def phase_ready_def some_obj_def io_simps sample_rt_def timeNow_def gone_status_def has_reason_def Let_def

lemma small_kube: "ha_kube (small_helper pvcs) = healing_kube"
  by (simp add: small_helper_def)

lemma small_poll_ready: "yields 2 small_ready None 0"
  unfolding pollResourceUntilReady_def Let_def
  apply (simp only: list.distinct if_False option.case order_refl if_True small_kube)
  apply (rule yields_bind [OF small_dynamic])
  apply (simp add: yields_def small_poll_defs)
  done

lemma small_poll_gone: "yields 1 small_gone None 0"
  unfolding pollResourceUntilGone_def Let_def
  apply (simp only: list.distinct if_False option.case order_refl if_True small_kube)
  apply (rule yields_bind [OF small_dynamic])
  apply (simp add: yields_def small_poll_defs)
  done

lemma small_label: "yields 1 (LabelNodes sample_rt (small_helper []) CtxRoot [''m''] ''role'' ''storage'') None 0"
  unfolding LabelNodes_def with_new_clientset_def
  apply (simp only: list.distinct if_False small_kube)
  apply (rule yields_bind [OF small_clientset])
  apply (simp add: yields_def label_retries_def eval_nat_numeral small_helper_def master_node_def io_simps conflict_status_def has_reason_def)
  done

theorem object_waits_sound_witness:
  "\<exists>w' w''. small_ready \<lparr>tr = [], est = 2\<rparr> = Some (None, w') \<and> small_gone \<lparr>tr = [], est = 1\<rparr> = Some (None, w'') \<and>
     (\<exists>obj. last (tr w') = ObjGet ''pods'' ''ns'' ''p'' (Inr obj) \<and> phase_ready obj) \<and>
     (\<exists>err. last (tr w'') = ObjGet ''pods'' ''ns'' ''p'' (Inl err) \<and> has_reason NotFound err)"
proof -
  from yields_runs [OF small_poll_ready] obtain w' where r: "small_ready \<lparr>tr = [], est = 2\<rparr> = Some (None, w')" ..
  from yields_runs [OF small_poll_gone] obtain w'' where g: "small_gone \<lparr>tr = [], est = 1\<rparr> = Some (None, w'')" ..
  from object_waits_sound [THEN conjunct1, rule_format, OF r] object_waits_sound [THEN conjunct2, rule_format, OF g] r g
  show ?thesis by (fastforce simp: ended_by_def)
qed

theorem label_nodes_writes_witness:
  "\<exists>w'. LabelNodes sample_rt (small_helper []) CtxRoot [''m''] ''role'' ''storage'' \<lparr>tr = [], est = 1\<rparr> = Some (None, w') \<and>
     labelled_in ''role'' ''storage'' ''m'' (tr w')"
proof -
  from yields_runs [OF small_label] obtain w' where
    "LabelNodes sample_rt (small_helper []) CtxRoot [''m''] ''role'' ''storage'' \<lparr>tr = [], est = 1\<rparr> = Some (None, w')" ..
  with label_nodes_writes [OF this] show ?thesis by simp
qed

lemma pods_wait_limited_run:
  "\<exists>e w' u. WaitForPodsStatus sample_rt (small_helper []) CtxRoot ''ns'' ''app=x'' ''Running'' 1 3 second \<lparr>tr = [], est = 0\<rparr> = Some (e, w') \<and>
     tr w' = [] @ u \<and> int (length (filter is_list u)) \<le> 3"
  using pods_wait_limited [of 3 sample_rt "small_helper []" CtxRoot "''ns''" "''app=x''" "''Running''" 1 second "\<lparr>tr = [], est = 0\<rparr>"] by simp

theorem pvc_wait_limit_witness:
  "(\<exists>e w'. WaitForPVCsBound sample_rt (small_helper [some_pvc]) CtxRoot ''ns'' ''app=x'' 2 3 second \<lparr>tr = [], est = 0\<rparr> = Some (e, w')
     \<and> bound_outcome 2 3 e (tr w')) \<and>
   WaitForPVCsBound sample_rt (small_helper []) CtxRoot ''ns'' ''app=x'' 2 3 second \<lparr>tr = [], est = 0\<rparr> = None"
proof
  obtain e w' where run: "WaitForPVCsBound sample_rt (small_helper [some_pvc]) CtxRoot ''ns'' ''app=x'' 2 3 second \<lparr>tr = [], est = 0\<rparr> = Some (e, w')"
    using pvc_wait_limit [THEN conjunct2, THEN conjunct1, of "small_helper [some_pvc]" CtxRoot "''ns''" "''app=x''" 3 sample_rt 2 second "\<lparr>tr = [], est = 0\<rparr>"]
    by (auto simp: small_helper_def some_pvc_def)
  with pvc_wait_limit [THEN conjunct1, rule_format, OF conjI [OF _ run]]
  show "\<exists>e w'. WaitForPVCsBound sample_rt (small_helper [some_pvc]) CtxRoot ''ns'' ''app=x'' 2 3 second \<lparr>tr = [], est = 0\<rparr> = Some (e, w')
     \<and> bound_outcome 2 3 e (tr w')" by auto
  show "WaitForPVCsBound sample_rt (small_helper []) CtxRoot ''ns'' ''app=x'' 2 3 second \<lparr>tr = [], est = 0\<rparr> = None"
    by (rule pvc_wait_limit [THEN conjunct2, THEN conjunct2, rule_format]) (simp add: small_helper_def sample_rt_def)
qed

end
