(* ===== verification/Legacy_Lock.thy ===== *)
theory Legacy_Lock
  imports Kube_Helpers Lease_Lock
begin

text \<open>
  The deprecated cluster lock of \<^verbatim>\<open>pkg/cluster/lock.go\<close>: a ConfigMap that exists while a test suite uses the cluster. Unlike the
  Lease of \<^verbatim>\<open>clusterlock\<close> it does not expire. The theorems show that a successful acquisition created the ConfigMap after
  finding none, that nothing is ever overwritten, and that what is stored says who holds the lock.
\<close>

section \<open>The ConfigMap\<close>

definition ClusterLockNamespace :: string where "ClusterLockNamespace = ''default''"
definition ClusterLockConfigMapName :: string where "ClusterLockConfigMapName = ''e2e-cluster-lock''"
definition lockKeyTestName :: string where "lockKeyTestName = ''test-name''"
definition lockKeyLockedAt :: string where "lockKeyLockedAt = ''locked-at''"
definition lockKeyLockedBy :: string where "lockKeyLockedBy = ''locked-by''"
definition lockKeyHostname :: string where "lockKeyHostname = ''hostname''"
definition lockKeyPID :: string where "lockKeyPID = ''pid''"

lemmas lock_key_defs = lockKeyTestName_def lockKeyLockedAt_def lockKeyLockedBy_def lockKeyHostname_def lockKeyPID_def

record cluster_lock_info =
  TestName :: string
  LockedAt :: int
  LockedBy :: string
  Hostname :: string
  PID :: int

definition lock_user :: "os_env \<Rightarrow> string" where
  "lock_user os = (let user = os_getenv os ''USER''; user = (if user = [] then os_getenv os ''USERNAME'' else user) in
     if user = [] then ''unknown'' else user)"

text \<open>\<open>utc\<close> is \<^verbatim>\<open>t.UTC().Format(time.RFC3339)\<close>, and \<open>parse\<close> is \<^verbatim>\<open>time.Parse(time.RFC3339, s)\<close>.\<close>

definition lockConfigMap :: "os_env \<Rightarrow> (int \<Rightarrow> string) \<Rightarrow> string \<Rightarrow> int \<Rightarrow> kconfigmap" where
  "lockConfigMap os utc testName now = \<lparr>cm_name = ClusterLockConfigMapName, cm_namespace = ClusterLockNamespace,
     cm_labels = [''app.kubernetes.io/managed-by'' \<mapsto> ''storage-e2e'', ''app.kubernetes.io/component'' \<mapsto> ''cluster-lock''],
     cm_data = [lockKeyTestName \<mapsto> testName, lockKeyLockedAt \<mapsto> utc now, lockKeyLockedBy \<mapsto> lock_user os,
       lockKeyHostname \<mapsto> os_hostname os, lockKeyPID \<mapsto> itoa (os_pid os)]\<rparr>"

text \<open>
  \<^verbatim>\<open>fmt.Sscanf(s, "%d", &pid)\<close> on a variable that is 0: blanks are skipped, then a sign and the digits that follow are read; without
  digits, or when the number does not fit 64 bits, the variable keeps its value.
\<close>

definition is_digit :: "char \<Rightarrow> bool" where
  "is_digit ch \<longleftrightarrow> 48 \<le> (of_char ch :: nat) \<and> (of_char ch :: nat) \<le> 57"

definition digits_val :: "string \<Rightarrow> nat" where
  "digits_val ds = foldl (\<lambda>n ch. 10 * n + (of_char ch - 48)) 0 ds"

definition sscanf_d :: "string \<Rightarrow> int" where
  "sscanf_d text =
     (let s = dropWhile (\<lambda>ch. ch = CHR '' '' \<or> ch = CHR 0x09) text;
          neg = (s \<noteq> [] \<and> hd s = CHR ''-'');
          ds = takeWhile is_digit (if neg \<or> s \<noteq> [] \<and> hd s = CHR ''+'' then tl s else s);
          n = (if neg then - int (digits_val ds) else int (digits_val ds)) in
      if ds = [] \<or> n < - (2 ^ 63) \<or> n \<ge> 2 ^ 63 then 0 else n)"

text \<open>The zero \<^verbatim>\<open>time.Time\<close>, January 1 of the year 1, in nanoseconds from 1970.\<close>

definition zero_time :: int where "zero_time = - 62135596800 * second"

definition data_of :: "kconfigmap \<Rightarrow> string \<Rightarrow> string" where
  "data_of cm k = (case cm_data cm k of None \<Rightarrow> [] | Some v \<Rightarrow> v)"

definition lock_info :: "(string \<Rightarrow> int option) \<Rightarrow> kconfigmap \<Rightarrow> cluster_lock_info" where
  "lock_info parse cm = \<lparr>TestName = data_of cm lockKeyTestName,
     LockedAt = (case parse (data_of cm lockKeyLockedAt) of Some t \<Rightarrow> t | None \<Rightarrow> zero_time),
     LockedBy = data_of cm lockKeyLockedBy, Hostname = data_of cm lockKeyHostname,
     PID = (case cm_data cm lockKeyPID of Some pidStr \<Rightarrow> sscanf_d pidStr | None \<Rightarrow> 0)\<rparr>"

section \<open>Operations\<close>

abbreviation getLock :: "'e helper_api \<Rightarrow> ctx \<Rightarrow> ('e, goerr + kconfigmap) act" where
  "getLock api c \<equiv> call (CMGet ClusterLockNamespace ClusterLockConfigMapName) (ha_getCM api c ClusterLockNamespace ClusterLockConfigMapName)"

definition GetClusterLockInfo ::
  "'e runtime \<Rightarrow> 'e helper_api \<Rightarrow> (string \<Rightarrow> int option) \<Rightarrow> ctx \<Rightarrow> ('e, goerr + cluster_lock_info) act" where
  "GetClusterLockInfo rt api parse c = with_new_clientset rt api c ''failed to create kubernetes clientset: '' Inl
     (io_bind (getLock api c) (\<lambda>g. io_ret (case g of
       Inl err \<Rightarrow> Inl (wrapf ''cluster is not locked or lock info unavailable: '' err)
     | Inr cm \<Rightarrow> Inr (lock_info parse cm))))"

definition already_locked :: "(int \<Rightarrow> string) \<Rightarrow> goerr + cluster_lock_info \<Rightarrow> goerr" where
  "already_locked fmt r = (case r of
     Inl infoErr \<Rightarrow> ErrText (''cluster is already locked by another test (could not retrieve lock details: '' @ error_text infoErr @ '')'')
   | Inr i \<Rightarrow> ErrText (''cluster is already locked: test='' @ TestName i @ '', locked_at='' @ fmt (LockedAt i) @ '', locked_by='' @
       LockedBy i @ '', hostname='' @ Hostname i @ '', pid='' @ itoa (PID i)))"

text \<open>One attempt. A time that was parsed from UTC, or is zero, prints in UTC.\<close>

definition acquire_once ::
  "'e runtime \<Rightarrow> 'e helper_api \<Rightarrow> (int \<Rightarrow> string) \<Rightarrow> (string \<Rightarrow> int option) \<Rightarrow> ctx \<Rightarrow> kconfigmap \<Rightarrow> ('e, goerr option) act" where
  "acquire_once rt api utc parse c cm = io_bind (getLock api c) (\<lambda>g. case g of
     Inr _ \<Rightarrow> io_bind (GetClusterLockInfo rt api parse c) (\<lambda>r. io_ret (Some (already_locked utc r)))
   | Inl err \<Rightarrow> if \<not> has_reason NotFound err
       then io_ret (Some (wrapf ''failed to check for existing cluster lock: '' err))
       else put_op ''failed to create cluster lock: '' (CMCreate cm) (ha_createCM api c cm))"

definition AcquireClusterLock ::
  "os_env \<Rightarrow> 'e runtime \<Rightarrow> 'e helper_api \<Rightarrow> (int \<Rightarrow> string) \<Rightarrow> (string \<Rightarrow> int option) \<Rightarrow> ctx \<Rightarrow> string \<Rightarrow> ('e, goerr option) act" where
  "AcquireClusterLock os rt api utc parse c testName =
     with_new_clientset rt api c ''failed to create kubernetes clientset: '' Some
       (io_bind (timeNow rt) (\<lambda>now. DoVoid rt c DefaultConfig (acquire_once rt api utc parse c (lockConfigMap os utc testName now))))"

definition ReleaseClusterLock :: "'e runtime \<Rightarrow> 'e helper_api \<Rightarrow> ctx \<Rightarrow> ('e, goerr option) act" where
  "ReleaseClusterLock rt api c = with_new_clientset rt api c ''failed to create kubernetes clientset: '' Some
     (DoVoid rt c DefaultConfig (io_bind
       (call (CMDelete ClusterLockNamespace ClusterLockConfigMapName) (ha_deleteCM api c ClusterLockNamespace ClusterLockConfigMapName)) (\<lambda>e.
         io_ret (case e of
           None \<Rightarrow> None
         | Some err \<Rightarrow> if has_reason NotFound err then None else Some (wrapf ''failed to release cluster lock: '' err)))))"

definition IsClusterLocked :: "'e runtime \<Rightarrow> 'e helper_api \<Rightarrow> ctx \<Rightarrow> ('e, goerr + bool) act" where
  "IsClusterLocked rt api c = with_new_clientset rt api c ''failed to create kubernetes clientset: '' Inl
     (io_bind (getLock api c) (\<lambda>g. io_ret (case g of
       Inr _ \<Rightarrow> Inr True
     | Inl err \<Rightarrow> if has_reason NotFound err then Inr False else Inl (wrapf ''failed to check cluster lock: '' err))))"

definition ForceReleaseClusterLock :: "'e runtime \<Rightarrow> 'e helper_api \<Rightarrow> ctx \<Rightarrow> ('e, goerr option) act" where
  "ForceReleaseClusterLock rt api c = ReleaseClusterLock rt api c"


section \<open>Who holds the lock\<close>

lemma is_digit_char [simp]: "d < 10 \<Longrightarrow> is_digit (digit_char d)"
  by (simp add: is_digit_def digit_char_def of_char_of)

lemma digit_char_val: "d < 10 \<Longrightarrow> (of_char (digit_char d) :: nat) - 48 = d"
  by (simp add: digit_char_def of_char_of)

lemma digits_val_snoc [simp]: "digits_val (ds @ [ch]) = 10 * digits_val ds + (of_char ch - 48)"
  by (simp add: digits_val_def)

lemma nat_str_digits: "list_all is_digit (nat_str n) \<and> nat_str n \<noteq> [] \<and> digits_val (nat_str n) = n"
proof (induction n rule: nat_str.induct)
  case (1 n)
  show ?case
  proof (cases "n < 10")
    case True
    then show ?thesis by (simp add: nat_str.simps [of n] digits_val_def digit_char_val)
  next
    case False
    with 1 show ?thesis by (simp add: nat_str.simps [of n] digit_char_val)
  qed
qed

lemma not_digit: "\<not> is_digit (CHR '' '')" "\<not> is_digit (CHR 0x09)" "\<not> is_digit (CHR ''-'')" "\<not> is_digit (CHR ''+'')"
  by (simp_all add: is_digit_def)

text \<open>The process id that was printed is read back.\<close>

lemma sscanf_itoa:
  assumes "0 \<le> n" "n < 2 ^ 63"
  shows "sscanf_d (itoa n) = n"
proof -
  obtain ch ds where s: "nat_str (nat n) = ch # ds" "is_digit ch"
    using nat_str_digits [of "nat n"] by (cases "nat_str (nat n)") auto
  have start: "dropWhile (\<lambda>ch. ch = CHR '' '' \<or> ch = CHR 0x09) (nat_str (nat n)) = nat_str (nat n)"
    "hd (nat_str (nat n)) \<noteq> CHR ''-''" "hd (nat_str (nat n)) \<noteq> CHR ''+''"
    using s not_digit by auto
  have digits: "takeWhile is_digit (nat_str (nat n)) = nat_str (nat n)"
    using nat_str_digits [of "nat n"] by (simp add: takeWhile_eq_all_conv list_all_iff)
  show ?thesis using assms nat_str_digits [of "nat n"] by (simp add: sscanf_d_def itoa_def Let_def start digits)
qed

text \<open>
  What the lock says about its holder is what the holder wrote: \<^verbatim>\<open>GetClusterLockInfo\<close> that reads the ConfigMap of
  \<^verbatim>\<open>AcquireClusterLock\<close> returns the name of the test, the user, the host and the process id of the process that acquired the lock, and
  the time it did, to the second. RFC 3339 has no fraction of a second; a process id is not negative.
\<close>

lemma lock_info_roundtrip:
  assumes "parse (utc now) = Some (now - now mod second)"
    and "0 \<le> os_pid os" "os_pid os < 2 ^ 63"
    and "GetClusterLockInfo rt api parse c w = Some (r, w')"
    and "tr w' = tr w @ u @ [CMGet ClusterLockNamespace ClusterLockConfigMapName (Inr (lockConfigMap os utc testName now))]"
  shows "r = Inr \<lparr>TestName = testName, LockedAt = now - now mod second, LockedBy = lock_user os, Hostname = os_hostname os,
    PID = os_pid os\<rparr>"
proof -
  let ?cm = "lockConfigMap os utc testName now"
  let ?ev = "CMGet ClusterLockNamespace ClusterLockConfigMapName"
  have quiet: "only_calls (\<lambda>ev. \<forall>g. ev \<noteq> ?ev g) (NewClientsetWithRetry rt (ha_kube api) c)"
    unfolding NewClientsetWithRetry_def by (intro calls_intros only_calls_case_prod) simp_all
  have info: "lock_info parse ?cm = \<lparr>TestName = testName, LockedAt = now - now mod second, LockedBy = lock_user os,
      Hostname = os_hostname os, PID = os_pid os\<rparr>"
    using assms(1,2,3) by (simp add: lock_info_def data_of_def lockConfigMap_def lock_key_defs sscanf_itoa)
  from assms(4) obtain e w1 where client: "NewClientsetWithRetry rt (ha_kube api) c w = Some (e, w1)"
    by (auto simp: GetClusterLockInfo_def with_new_clientset_def io_bind_apply split: option.splits)
  show ?thesis
  proof (cases e)
    case None
    with assms(4,5) client info show ?thesis
      by (auto simp: GetClusterLockInfo_def with_new_clientset_def io_simps split: sum.splits)
  next
    case (Some err)
    with assms(4) client have "w' = w1" by (simp add: GetClusterLockInfo_def with_new_clientset_def io_simps)
    with only_callsD [OF quiet client] assms(5) show ?thesis by auto
  qed
qed

section \<open>What an acquisition writes\<close>

definition lock_created :: "event \<Rightarrow> bool" where
  "lock_created ev = (case ev of CMCreate _ None \<Rightarrow> True | _ \<Rightarrow> False)"

definition lock_write :: "event \<Rightarrow> bool" where
  "lock_write ev = (case ev of CMCreate _ _ \<Rightarrow> True | CMDelete _ _ _ \<Rightarrow> True | _ \<Rightarrow> False)"

text \<open>A write is a creation, right after a read that found no ConfigMap.\<close>

definition lock_write_ok :: "kconfigmap set \<Rightarrow> event list \<Rightarrow> event \<Rightarrow> bool" where
  "lock_write_ok cms before ev \<longleftrightarrow> lock_write ev \<longrightarrow>
     (\<exists>a err cm r. before = a @ [CMGet ClusterLockNamespace ClusterLockConfigMapName (Inl err)] \<and> has_reason NotFound err \<and>
        cm \<in> cms \<and> ev = CMCreate cm r)"

definition lock_run :: "kconfigmap set \<Rightarrow> event list \<Rightarrow> bool" where
  "lock_run cms u \<longleftrightarrow> history (lock_write_ok cms) u \<and> \<not> list_ex lock_created u"

definition lock_won :: "kconfigmap set \<Rightarrow> event list \<Rightarrow> bool" where
  "lock_won cms u \<longleftrightarrow> history (lock_write_ok cms) u \<and> (\<exists>a cm. u = a @ [CMCreate cm None] \<and> \<not> list_ex lock_created a)"

lemma lock_run_quiet: "lock_run cms u \<Longrightarrow> \<not> lock_write ev \<Longrightarrow> lock_run cms (u @ [ev])"
  by (auto simp: lock_run_def lock_write_ok_def lock_write_def lock_created_def split: event.splits option.splits)

lemma lock_run_create:
  assumes "lock_run cms u" "\<exists>a. u = a @ [CMGet ClusterLockNamespace ClusterLockConfigMapName (Inl err)]" "has_reason NotFound err" "cm \<in> cms"
  shows "if r = None then lock_won cms (u @ [CMCreate cm r]) else lock_run cms (u @ [CMCreate cm r])"
proof -
  have "lock_write_ok cms u (CMCreate cm r)" using assms(2,3,4) unfolding lock_write_ok_def by metis
  with assms(1) show ?thesis by (auto simp: lock_run_def lock_won_def lock_created_def)
qed

lemma lock_run_keeps:
  "only_calls (\<lambda>ev. \<not> lock_write ev) m \<Longrightarrow> triple (since t0 (lock_run cms)) m (\<lambda>_. since t0 (lock_run cms))"
  by (erule triple_keeps) (auto elim!: since_step intro: lock_run_quiet)

lemma lock_reads_only:
  "only_calls (\<lambda>ev. \<not> lock_write ev) (NewClientsetWithRetry rt kube c)"
  "only_calls (\<lambda>ev. \<not> lock_write ev) (GetClusterLockInfo rt api parse c)"
  unfolding GetClusterLockInfo_def with_new_clientset_def NewClientsetWithRetry_def
  by (intro calls_intros only_calls_case_prod; simp add: lock_write_def)+

lemma acquire_once_triple:
  assumes "cm \<in> cms"
  shows "triple (since t0 (lock_run cms)) (acquire_once rt api utc parse c cm)
    (nil_or (since t0 (lock_won cms)) (since t0 (lock_run cms)))"
proof -
  let ?R = "\<lambda>g. since t0 (\<lambda>u. lock_run cms u \<and> (\<exists>a. u = a @ [CMGet ClusterLockNamespace ClusterLockConfigMapName g]))"
  have get: "triple (since t0 (lock_run cms)) (getLock api c) ?R"
    by (rule triple_call, erule since_step) (simp add: lock_run_quiet lock_write_def)
  have run: "since t0 (lock_run cms) t" if "?R g t" for g t
    using that by (auto elim: since_imp)
  have put: "triple (?R (Inl err)) (put_op pre (CMCreate cm) f) (nil_or (since t0 (lock_won cms)) (since t0 (lock_run cms)))"
    if "has_reason NotFound err" for pre f err
  proof (rule triple_put_op)
    fix t r assume "?R (Inl err) t"
    then show "nil_or (since t0 (lock_won cms)) (since t0 (lock_run cms)) (map_option (wrapf pre) r) (t @ [CMCreate cm r])"
      using lock_run_create [OF _ _ that assms, of _ r] by (cases r) (auto elim!: since_step)
  qed
  show ?thesis unfolding acquire_once_def
    by (rule triple_bind [OF get], intro triple_intros put triple_ret
        triple_bind [OF triple_pre [OF lock_run_keeps [OF lock_reads_only(2)] run]]) (auto dest: run intro: put)
qed

text \<open>
  C37. \<^verbatim>\<open>AcquireClusterLock\<close>, whatever the API answers: it deletes and overwrites nothing; every ConfigMap it creates is the one that
  names this process, and it is created right after a read that found none. It returns nil exactly when a creation succeeded,
  which is then the last call it made; it never makes a second one.
\<close>

theorem configmap_lock_acquired:
  assumes "AcquireClusterLock os rt api utc parse c testName w = Some (e, w')"
  shows "\<exists>u. tr w' = tr w @ u \<and> history (lock_write_ok (range (lockConfigMap os utc testName))) u \<and>
    (if e = None then \<exists>a cm. u = a @ [CMCreate cm None] \<and> \<not> list_ex lock_created a else \<not> list_ex lock_created u)"
proof -
  let ?cms = "range (lockConfigMap os utc testName)"
  let ?I = "since (tr w) (lock_run ?cms)" and ?Q = "since (tr w) (lock_won ?cms)"
  have wait: "?I (t @ [Waited c d])" if "?I t" for t d
    using that by (rule since_step) (simp add: lock_run_quiet lock_write_def)
  have do: "triple ?I (DoVoid rt c DefaultConfig (acquire_once rt api utc parse c (lockConfigMap os utc testName now))) (nil_or ?Q ?I)" for now
    by (rule triple_DoVoid [OF acquire_once_triple wait]) (simp_all add: DefaultConfig_def)
  have "triple ?I (AcquireClusterLock os rt api utc parse c testName) (nil_or ?Q ?I)"
    unfolding AcquireClusterLock_def with_new_clientset_def
    by (intro triple_intros triple_ret do triple_bind [OF lock_run_keeps [OF lock_reads_only(1)]]
        triple_bind [OF triple_timeNow [where Q = "\<lambda>_. ?I"]]) simp_all
  from tripleD [OF this assms] show ?thesis
    by (cases e) (auto simp: since_def lock_run_def lock_won_def)
qed

section \<open>A free cluster\<close>

text \<open>The outside is the ConfigMap that is stored, if any.\<close>

definition lock_helper :: "kconfigmap option helper_api" where
  "lock_helper = \<lparr>ha_kube = \<lparr>ka_newForConfig = (\<lambda>s. (None, s)), ka_serverVersion = (\<lambda>s. (None, s)), ka_newDynamic = (\<lambda>s. (None, s)),
       ka_getVersion = (\<lambda>c s. (None, s)), ka_getNamespace = (\<lambda>c n s. (None, s)), ka_createNamespace = (\<lambda>c n s. (None, s)),
       ka_deleteNamespace = (\<lambda>c n s. (None, s)), ka_getNodeGroup = (\<lambda>c n s. (None, s)), ka_createNodeGroup = (\<lambda>c n ty s. (None, s)),
       ka_nodes = (\<lambda>c s. (Inr [], s)), ka_secret = (\<lambda>c ns n s. (Inr Map.empty, s)), ka_deployment = (\<lambda>c ns n s. (Inr [], s)),
       ka_virt = no_virt, ka_deckhouse = no_deckhouse\<rparr>,
     ha_getNode = (\<lambda>c n s. (Inr (master_node True), s)), ha_updateNode = (\<lambda>c n s. (None, s)),
     ha_listPods = (\<lambda>c ns sel s. (Inr [], s)), ha_listPVCs = (\<lambda>c ns sel s. (Inr [], s)), ha_getPVC = (\<lambda>c ns n s. (Inr some_pvc, s)),
     ha_patchPVC = (\<lambda>c ns n v s. (None, s)), ha_getObj = (\<lambda>c gvr ns n s. (Inl gone_status, s)),
     ha_getCM = (\<lambda>c ns n s. (case s of None \<Rightarrow> Inl gone_status | Some cm \<Rightarrow> Inr cm, s)),
     ha_createCM = (\<lambda>c cm s. case s of None \<Rightarrow> (None, Some cm) | Some _ \<Rightarrow> (Some conflict_status, s)),
     ha_deleteCM = (\<lambda>c ns n s. (None, None)), ha_parseQuantity = (\<lambda>t. Inr \<lparr>q_val = 0, q_text = t\<rparr>)\<rparr>"

lemma lock_clientset: "yields s (NewClientsetWithRetry sample_rt (ha_kube lock_helper) c) None s"
  unfolding NewClientsetWithRetry_def
  by (rule yields_bind, rule yields_Do [where x = "()"]) (auto simp: yields_def io_simps lock_helper_def DefaultConfig_def)

text \<open>A clock that prints and reads times as numbers of seconds.\<close>

definition utc_seconds :: "int \<Rightarrow> string" where "utc_seconds t = itoa (t div second)"

definition lock_os :: os_env where
  "lock_os = \<lparr>os_hostname = ''host'', os_getenv = (\<lambda>k. if k = ''USER'' then ''ci'' else []), os_pid = 7, os_rfc3339 = (\<lambda>t. [])\<rparr>"

lemma lock_yields:
  "yields None (AcquireClusterLock lock_os sample_rt lock_helper utc parse CtxRoot ''suite'') None (Some (lockConfigMap lock_os utc ''suite'' 0))"
  unfolding AcquireClusterLock_def with_new_clientset_def DoVoid_def
  apply (rule yields_bind [OF lock_clientset], simp only: option.case)
  apply (rule yields_bind [where x = 0], simp add: yields_def sample_rt_def timeNow_def io_simps)
  apply (rule yields_bind, rule yields_Do [where x = "()"], rule yields_bind [where x = None])
  apply (simp_all add: yields_def acquire_once_def lock_helper_def gone_status_def has_reason_def io_simps DefaultConfig_def)
  done

theorem configmap_lock_acquired_witness:
  "\<exists>w'. AcquireClusterLock lock_os sample_rt lock_helper utc_seconds (\<lambda>_. None) CtxRoot ''suite'' \<lparr>tr = [], est = None\<rparr> = Some (None, w') \<and>
     (\<exists>a cm. tr w' = a @ [CMCreate cm None])"
proof -
  from yields_runs [OF lock_yields] obtain w' where
    "AcquireClusterLock lock_os sample_rt lock_helper utc_seconds (\<lambda>_. None) CtxRoot ''suite'' \<lparr>tr = [], est = None\<rparr> = Some (None, w')" by blast
  with configmap_lock_acquired [OF this] show ?thesis by auto
qed

definition seconds_of :: "string \<Rightarrow> int option" where
  "seconds_of text = Some (sscanf_d text * second)"

lemma info_run:
  "\<exists>r w' u. GetClusterLockInfo sample_rt lock_helper parse CtxRoot \<lparr>tr = [], est = Some cm\<rparr> = Some (r, w') \<and>
     tr w' = u @ [CMGet ClusterLockNamespace ClusterLockConfigMapName (Inr cm)]"
proof -
  from lock_clientset [of "Some cm" CtxRoot] obtain u where
    "NewClientsetWithRetry sample_rt (ha_kube lock_helper) CtxRoot \<lparr>tr = [], est = Some cm\<rparr> = Some (None, \<lparr>tr = u, est = Some cm\<rparr>)"
    unfolding yields_def by (metis append_Nil)
  then show ?thesis by (simp add: GetClusterLockInfo_def with_new_clientset_def io_simps) (simp add: lock_helper_def)
qed

lemma lock_info_roundtrip_run:
  "\<exists>w'. GetClusterLockInfo sample_rt lock_helper seconds_of CtxRoot
       \<lparr>tr = [], est = Some (lockConfigMap lock_os utc_seconds ''suite'' (5 * second + 3))\<rparr>
     = Some (Inr \<lparr>TestName = ''suite'', LockedAt = 5 * second, LockedBy = ''ci'', Hostname = ''host'', PID = 7\<rparr>, w')"
proof -
  let ?now = "5 * second + 3"
  have parse: "seconds_of (utc_seconds ?now) = Some (?now - ?now mod second)"
    by (simp add: seconds_of_def utc_seconds_def sscanf_itoa second_def)
  from info_run obtain r w' u where run: "GetClusterLockInfo sample_rt lock_helper seconds_of CtxRoot
       \<lparr>tr = [], est = Some (lockConfigMap lock_os utc_seconds ''suite'' ?now)\<rparr> = Some (r, w')"
    "tr w' = u @ [CMGet ClusterLockNamespace ClusterLockConfigMapName (Inr (lockConfigMap lock_os utc_seconds ''suite'' ?now))]" by blast
  have "r = Inr \<lparr>TestName = ''suite'', LockedAt = ?now - ?now mod second, LockedBy = lock_user lock_os, Hostname = os_hostname lock_os,
      PID = os_pid lock_os\<rparr>"
    by (rule lock_info_roundtrip [where os = lock_os and utc = utc_seconds and testName = "''suite''" and u = u, OF parse _ _ run(1)])
      (simp_all add: run(2) lock_os_def)
  with run(1) show ?thesis by (simp add: lock_user_def lock_os_def second_def Let_def)
qed

end
