(* ===== verification/Manifests.thy ===== *)
theory Manifests
  imports Hoare_IO Cluster_Config "HOL-Library.Sublist"
begin

text \<open>
  \<^verbatim>\<open>pkg/kubernetes/apply.go\<close>: manifests with several documents, environment variables in them, and the objects they describe. The YAML
  decoder, the discovery of resources and the dynamic client are parameters. The theorems show how a text is cut into documents, what the
  substitution of variables does and which writes an applied document makes.
\<close>

section \<open>Documents\<close>

text \<open>\<^verbatim>\<open>strings.Split\<close> by a separator that is not empty; \<open>acc\<close> is the beginning of the current part.\<close>

function splitOn :: "string \<Rightarrow> string \<Rightarrow> string \<Rightarrow> string list" where
  "splitOn sep acc [] = [acc]"
| "splitOn sep acc (ch # s) = (if sep \<noteq> [] \<and> hasPrefix (ch # s) sep
     then acc # splitOn sep [] (drop (length sep) (ch # s))
     else splitOn sep (acc @ [ch]) s)"
  by pat_completeness auto
termination
  by (relation "measure (\<lambda>(sep, acc, s). length s)") (auto simp: neq_Nil_conv)

definition newline :: char where "newline = CHR 0x0A"

definition docSeparator :: string where "docSeparator = [newline] @ ''---'' @ [newline]"

definition splitYAMLDocuments :: "string \<Rightarrow> string list" where
  "splitYAMLDocuments yamlContent =
     filter (\<lambda>doc. doc \<noteq> [] \<and> doc \<noteq> ''---'') (map trimSpace (splitOn docSeparator [] yamlContent))"

section \<open>Environment variables\<close>

text \<open>The references are those of \<^verbatim>\<open>envRefPattern\<close>; \<open>seen\<close> are the names that were looked at.\<close>

fun find_unset :: "(string \<Rightarrow> string) \<Rightarrow> string list \<Rightarrow> string set \<Rightarrow> string list" where
  "find_unset getenv [] seen = []"
| "find_unset getenv (varName # names) seen =
     (if varName \<in> seen then find_unset getenv names seen
      else if getenv varName = [] then varName # find_unset getenv names (insert varName seen)
      else find_unset getenv names (insert varName seen))"

definition FindUnsetEnvVars :: "(string \<Rightarrow> string) \<Rightarrow> string \<Rightarrow> string list" where
  "FindUnsetEnvVars getenv content = find_unset getenv (ref_names content) {}"

text \<open>\<^verbatim>\<open>os.Expand\<close> of the standard library. \<open>getShellName\<close> gets what follows a dollar sign, at least one character.\<close>

definition isShellSpecialVar :: "char \<Rightarrow> bool" where
  "isShellSpecialVar ch \<longleftrightarrow> ch \<in> set ''*#$@!?-'' \<or> char_in (CHR ''0'') (CHR ''9'') ch"

definition getShellName :: "string \<Rightarrow> string \<times> nat" where
  "getShellName s =
     (if hd s = CHR ''{'' then
        (if length s > 2 \<and> isShellSpecialVar (s ! 1) \<and> s ! 2 = CHR ''}'' then ([s ! 1], 3)
         else let name = takeWhile (\<lambda>ch. ch \<noteq> CHR ''}'') (tl s) in
           if length name = length (tl s) then ([], 1)
           else if name = [] then ([], 2) else (name, length name + 2))
      else if isShellSpecialVar (hd s) then ([hd s], 1)
      else let name = takeWhile name_char s in (name, length name))"

function os_Expand :: "(string \<Rightarrow> string) \<Rightarrow> string \<Rightarrow> string" where
  "os_Expand mapping [] = []"
| "os_Expand mapping (ch # s) =
     (if ch = CHR ''$'' \<and> s \<noteq> [] then
        (case getShellName s of (name, w) \<Rightarrow>
           (if name = [] \<and> w > 0 then [] else if name = [] then [ch] else mapping name) @ os_Expand mapping (drop w s))
      else ch # os_Expand mapping s)"
  by pat_completeness auto
termination
  by (relation "measure (\<lambda>(f, s). length s)") auto

section \<open>The client\<close>

text \<open>
  A closure that assigns a variable of its function: the variable is kept beside the state of the outside while the closure runs.
\<close>

definition lift_out :: "('e \<Rightarrow> 'r \<times> 'e) \<Rightarrow> 'e \<times> 's \<Rightarrow> 'r \<times> ('e \<times> 's)" where
  "lift_out f = (\<lambda>(e, s). case f e of (r, e') \<Rightarrow> (r, (e', s)))"

definition lift_rt :: "'e runtime \<Rightarrow> ('e \<times> 's) runtime" where
  "lift_rt rt = \<lparr>rt_now = lift_out (rt_now rt), rt_ctxErr = (\<lambda>c. lift_out (rt_ctxErr rt c)),
     rt_select = (\<lambda>c d. lift_out (rt_select rt c d)), rt_order = (\<lambda>(e, s). rt_order rt e)\<rparr>"

definition get_var :: "('e \<times> 's, 's) act" where "get_var = ask (\<lambda>(e, s). (s, (e, s)))"
definition set_var :: "'s \<Rightarrow> ('e \<times> 's, unit) act" where "set_var v = ask (\<lambda>(e, s). ((), (e, v)))"

definition with_var :: "'s \<Rightarrow> ('e \<times> 's, 'r) act \<Rightarrow> ('e, 'r) act" where
  "with_var s m = (\<lambda>w. case m \<lparr>tr = tr w, est = (est w, s)\<rparr> of
     None \<Rightarrow> None | Some (r, w') \<Rightarrow> Some (r, \<lparr>tr = tr w', est = fst (est w')\<rparr>))"

text \<open>\<open>'m\<close> is the type of REST mappers. A mapping is the resource and the name of its scope.\<close>

record ('e, 'm) apply_api =
  ap_newDynamic :: "'e \<Rightarrow> goerr option \<times> 'e"
  ap_newDiscovery :: "'e \<Rightarrow> goerr option \<times> 'e"
  ap_decode :: "string \<Rightarrow> goerr + kmanifest"
  ap_groupResources :: "'e \<Rightarrow> (goerr + 'm) \<times> 'e"
  ap_restMapping :: "'m \<Rightarrow> string \<Rightarrow> string \<Rightarrow> string \<Rightarrow> goerr + (string \<times> string)"
  ap_get :: "ctx \<Rightarrow> string \<Rightarrow> string \<Rightarrow> string \<Rightarrow> 'e \<Rightarrow> (goerr + uobj) \<times> 'e"
  ap_create :: "ctx \<Rightarrow> string \<Rightarrow> string \<Rightarrow> kmanifest \<Rightarrow> 'e \<Rightarrow> goerr option \<times> 'e"
  ap_update :: "ctx \<Rightarrow> string \<Rightarrow> string \<Rightarrow> kmanifest \<Rightarrow> 'e \<Rightarrow> goerr option \<times> 'e"

definition NewApplyClient :: "'e runtime \<Rightarrow> ('e, 'm) apply_api \<Rightarrow> ('e, goerr option) act" where
  "NewApplyClient rt api = io_bind (Do () rt CtxRoot DefaultConfig
     (io_bind (call (Opened ''dynamic client'') (ap_newDynamic api)) (\<lambda>e. case e of
        Some err \<Rightarrow> io_ret ((), Some (wrapf ''failed to create dynamic client: '' err))
      | None \<Rightarrow> io_bind (call (Opened ''discovery client'') (ap_newDiscovery api)) (\<lambda>e.
          io_ret ((), map_option (wrapf ''failed to create discovery client: '') e))))) (\<lambda>(_, e). io_ret e)"

text \<open>
  The first half of both \<^verbatim>\<open>applyDocument\<close> and \<^verbatim>\<open>createDocument\<close>: the object with its namespace, and the resource and the namespace
  its requests go to. An empty namespace is that of a cluster-scoped resource.
\<close>

definition locate_document ::
  "('e, 'm) apply_api \<Rightarrow> string \<Rightarrow> string \<Rightarrow> ('e, goerr + (kmanifest \<times> string \<times> string)) act" where
  "locate_document api yamlDoc defaultNamespace = (case ap_decode api yamlDoc of
     Inl err \<Rightarrow> io_ret (Inl (wrapf ''failed to decode YAML: '' err))
   | Inr obj0 \<Rightarrow>
     let obj = (if km_namespace obj0 = [] \<and> defaultNamespace \<noteq> [] then obj0\<lparr>km_namespace := defaultNamespace\<rparr> else obj0) in
     if km_group obj = [] \<and> km_version obj = [] \<and> km_kind obj = []
     then io_ret (Inl (ErrText (''GroupVersionKind is empty for object: '' @ km_name obj)))
     else io_bind (call (\<lambda>r. KubeOp ''api group resources'' [] (case r of Inl err \<Rightarrow> Some err | Inr _ \<Rightarrow> None)) (ap_groupResources api)) (\<lambda>g. io_ret (case g of
       Inl err \<Rightarrow> Inl (wrapf ''failed to get API group resources: '' err)
     | Inr groupResources \<Rightarrow> (case ap_restMapping api groupResources (km_group obj) (km_kind obj) (km_version obj) of
         Inl err \<Rightarrow> Inl (wrapf (''failed to get REST mapping for '' @ km_group obj @ ''/'' @ km_version obj @ '', Kind='' @ km_kind obj @ '': '') err)
       | Inr (resource, scope) \<Rightarrow> Inr (obj, resource, if scope = ''namespace''
           then (if km_namespace obj = [] then ''default'' else km_namespace obj) else [])))))"

abbreviation km_ref :: "kmanifest \<Rightarrow> string" where
  "km_ref obj \<equiv> km_kind obj @ ''/'' @ km_name obj"

text \<open>
  One attempt of \<^verbatim>\<open>applyDocument\<close>. The object is shared by the attempts, and \<^verbatim>\<open>SetResourceVersion\<close> changes it: the variable is its
  resource version.
\<close>

definition apply_once :: "('e, 'm) apply_api \<Rightarrow> ctx \<Rightarrow> kmanifest \<Rightarrow> string \<Rightarrow> string \<Rightarrow> ('e \<times> string, goerr option) act" where
  "apply_once api c obj resource ns =
     io_bind (call (ObjGet resource ns (km_name obj)) (lift_out (ap_get api c resource ns (km_name obj)))) (\<lambda>g. case g of
       Inr existing \<Rightarrow>
         (let obj' = obj\<lparr>km_resourceVersion := uo_resourceVersion existing\<rparr> in
          io_bind (set_var (uo_resourceVersion existing)) (\<lambda>_. put_op (''failed to update '' @ km_ref obj @ '': '') (ObjUpdate resource ns obj')
            (lift_out (ap_update api c resource ns obj'))))
     | Inl _ \<Rightarrow> io_bind get_var (\<lambda>rv. let obj' = obj\<lparr>km_resourceVersion := rv\<rparr> in
         put_op (''failed to create '' @ km_ref obj @ '': '') (ObjCreate resource ns obj') (lift_out (ap_create api c resource ns obj'))))"

definition applyDocument :: "'e runtime \<Rightarrow> ('e, 'm) apply_api \<Rightarrow> ctx \<Rightarrow> string \<Rightarrow> string \<Rightarrow> ('e, goerr option) act" where
  "applyDocument rt api c yamlDoc defaultNamespace =
     io_bind (locate_document api yamlDoc defaultNamespace) (\<lambda>l. case l of
       Inl err \<Rightarrow> io_ret (Some err)
     | Inr (obj, resource, ns) \<Rightarrow> with_var (km_resourceVersion obj)
         (DoVoid (lift_rt rt) c DefaultConfig (apply_once api c obj resource ns)))"

definition createDocument :: "'e runtime \<Rightarrow> ('e, 'm) apply_api \<Rightarrow> ctx \<Rightarrow> string \<Rightarrow> string \<Rightarrow> ('e, goerr option) act" where
  "createDocument rt api c yamlDoc defaultNamespace =
     io_bind (locate_document api yamlDoc defaultNamespace) (\<lambda>l. case l of
       Inl err \<Rightarrow> io_ret (Some err)
     | Inr (obj, resource, ns) \<Rightarrow> DoVoid rt c DefaultConfig
         (put_op (''failed to create '' @ km_ref obj @ '': '') (ObjCreate resource ns obj) (ap_create api c resource ns obj)))"

text \<open>
  The loop over the documents; the errors are the argument of \<^verbatim>\<open>errors.NewAggregate\<close>, which is nil when there is none.
\<close>

fun each_document :: "(string \<Rightarrow> ('e, goerr option) act) \<Rightarrow> nat \<Rightarrow> string list \<Rightarrow> ('e, goerr list) act" where
  "each_document f i [] = io_ret []"
| "each_document f i (doc0 # docs) = (let doc = trimSpace doc0 in
     if doc = [] then each_document f (i + 1) docs
     else io_bind (f doc) (\<lambda>e. io_bind (each_document f (i + 1) docs) (\<lambda>errs.
       io_ret (case e of None \<Rightarrow> errs | Some err \<Rightarrow> wrapf (''document '' @ nat_str (i + 1) @ '': '') err # errs))))"

definition ApplyYAML :: "'e runtime \<Rightarrow> ('e, 'm) apply_api \<Rightarrow> ctx \<Rightarrow> string \<Rightarrow> string \<Rightarrow> ('e, goerr list) act" where
  "ApplyYAML rt api c yamlContent namespace =
     each_document (\<lambda>doc. applyDocument rt api c doc namespace) 0 (splitYAMLDocuments yamlContent)"

definition CreateYAML :: "'e runtime \<Rightarrow> ('e, 'm) apply_api \<Rightarrow> ctx \<Rightarrow> string \<Rightarrow> string \<Rightarrow> ('e, goerr list) act" where
  "CreateYAML rt api c yamlContent namespace =
     each_document (\<lambda>doc. createDocument rt api c doc namespace) 0 (splitYAMLDocuments yamlContent)"

definition CreateYAMLFromFileWithEnvvars ::
  "'e runtime \<Rightarrow> ('e, 'm) apply_api \<Rightarrow> (string \<Rightarrow> goerr + string) \<Rightarrow> (string \<Rightarrow> string) \<Rightarrow> ctx \<Rightarrow> string \<Rightarrow> string \<Rightarrow> ('e, goerr list) act" where
  "CreateYAMLFromFileWithEnvvars rt api readFile getenv c filePath namespace = (case readFile filePath of
     Inl err \<Rightarrow> io_ret [wrapf (''failed to read file '' @ filePath @ '': '') err]
   | Inr yamlContent \<Rightarrow>
     let unsetVars = FindUnsetEnvVars getenv yamlContent in
     if unsetVars \<noteq> [] then io_ret [ErrText (''environment variables not set: '' @ go_list unsetVars)]
     else CreateYAML rt api c (os_Expand getenv yamlContent) namespace)"


section \<open>Cutting a text into documents\<close>

lemma splitOn_plain:
  "\<not> str_contains d sep \<Longrightarrow> sep \<noteq> [] \<Longrightarrow> splitOn sep acc d = [acc @ d]"
proof (induction d arbitrary: acc)
  case (Cons ch d)
  then show ?case by (simp add: Cons.IH)
qed simp

lemma splitOn_cut:
  "(\<And>x y. d = y @ x \<Longrightarrow> x \<noteq> [] \<Longrightarrow> \<not> hasPrefix (x @ sep @ s) sep) \<Longrightarrow> sep \<noteq> []
   \<Longrightarrow> splitOn sep acc (d @ sep @ s) = (acc @ d) # splitOn sep [] s"
proof (induction d arbitrary: acc)
  case Nil
  obtain ch t where sep: "sep = ch # t" using Nil.prems(2) by (cases sep) auto
  have "hasPrefix (ch # t @ s) sep" by (simp add: hasPrefix_def sep)
  then show ?case by (simp add: sep)
next
  case (Cons ch d)
  have "\<not> hasPrefix (ch # d @ sep @ s) sep" using Cons.prems(1) [of "[]" "ch # d"] by simp
  moreover have "splitOn sep (acc @ [ch]) (d @ sep @ s) = ((acc @ [ch]) @ d) # splitOn sep [] s"
    by (rule Cons.IH) (use Cons.prems in \<open>force+\<close>)
  ultimately show ?case by simp
qed

text \<open>A separator that begins inside a document and ends after it begins a line of the document that is \<^verbatim>\<open>---\<close>.\<close>

lemma docSeparator_overlap:
  assumes "x \<noteq> []" "hasPrefix (x @ docSeparator @ s) docSeparator"
  shows "hasPrefix (x @ [newline]) docSeparator"
proof -
  consider a where "x = [a]" | a b where "x = [a, b]" | a b d where "x = [a, b, d]" | a b d e where "x = [a, b, d, e]"
    | a b d e f y where "x = a # b # d # e # f # y"
    using assms(1) by (metis list.exhaust)
  then show ?thesis using assms(2) by cases (auto simp: hasPrefix_def docSeparator_def newline_def)
qed

definition plain_document :: "string \<Rightarrow> bool" where
  "plain_document d \<longleftrightarrow> d \<noteq> [] \<and> trimSpace d = d \<and> \<not> str_contains (newline # d @ [newline]) docSeparator"

lemma plain_no_separator: "plain_document d \<Longrightarrow> \<not> str_contains d docSeparator"
  unfolding plain_document_def using str_contains_mono [of d docSeparator "[newline]" "[newline]"] by auto

lemma plain_cut:
  assumes "plain_document d"
  shows "splitOn docSeparator acc (d @ docSeparator @ s) = (acc @ d) # splitOn docSeparator [] s"
proof (rule splitOn_cut)
  fix x y assume d: "d = y @ x" "x \<noteq> []"
  show "\<not> hasPrefix (x @ docSeparator @ s) docSeparator"
  proof
    assume "hasPrefix (x @ docSeparator @ s) docSeparator"
    from docSeparator_overlap [OF d(2) this] obtain t where "x @ [newline] = docSeparator @ t" by (auto simp: hasPrefix_iff)
    then have "newline # d @ [newline] = (newline # y) @ docSeparator @ t" by (simp add: d(1))
    with assms show False unfolding plain_document_def str_contains_iff by blast
  qed
qed (simp add: docSeparator_def)

lemma plain_not_dashes: "plain_document d \<Longrightarrow> d \<noteq> ''---''"
  by (auto simp: plain_document_def docSeparator_def hasPrefix_def)

text \<open>
  \<^verbatim>\<open>splitYAMLDocuments\<close> recovers the documents of a text that was made by putting \<^verbatim>\<open>---\<close> lines between them, in their order, when
  the documents are not empty, have no white space around them and contain no line \<^verbatim>\<open>---\<close> themselves.
\<close>

lemma yaml_documents_roundtrip:
  assumes "list_all plain_document docs"
  shows "splitYAMLDocuments (str_join docSeparator docs) = docs"
proof (cases "docs = []")
  case True
  then show ?thesis by (simp add: splitYAMLDocuments_def trimSpace_def trimRight_def)
next
  case False
  have split: "splitOn docSeparator [] (str_join docSeparator docs) = docs"
    using assms False
  proof (induction docs rule: induct_list012)
    case (2 d)
    then show ?case using splitOn_plain [OF plain_no_separator] by (simp add: docSeparator_def)
  next
    case (3 d e ds)
    then show ?case using plain_cut [of d "[]"] by simp
  qed simp
  have "trimSpace d = d \<and> d \<noteq> [] \<and> d \<noteq> ''---''" if "d \<in> set docs" for d
    using that assms plain_not_dashes by (auto simp: list_all_iff plain_document_def)
  then show ?thesis unfolding splitYAMLDocuments_def split by (simp add: map_idI filter_id_conv)
qed

section \<open>Substituting variables\<close>

lemma find_unset_spec:
  "set (find_unset getenv names seen) = {n \<in> set names. n \<notin> seen \<and> getenv n = []} \<and> distinct (find_unset getenv names seen)"
proof (induction names arbitrary: seen)
  case (Cons n names)
  then show ?case using Cons.IH [of seen] Cons.IH [of "insert n seen"] by auto
qed simp

lemma name_char_not: "name_char ch \<Longrightarrow> ch \<noteq> CHR ''}''" "name_start ch \<Longrightarrow> \<not> isShellSpecialVar ch" "name_char ch \<Longrightarrow> ch \<noteq> CHR ''$''"
    "name_start ch \<Longrightarrow> ch \<noteq> CHR ''{''"
  by (auto simp: name_char_def name_start_def isShellSpecialVar_def char_in_def)

text \<open>
  The name of a variable, a braced reference to it somewhere in a text, and texts made of plain parts and references. A bare reference
  ends before the first character that cannot continue its name.
\<close>

definition var_name :: "string \<Rightarrow> bool" where
  "var_name n \<longleftrightarrow> n \<noteq> [] \<and> name_start (hd n) \<and> (\<forall>x \<in> set n. name_char x)"

definition braced_in :: "string \<Rightarrow> string \<Rightarrow> bool" where
  "braced_in n content \<longleftrightarrow> var_name n \<and> (\<exists>y z. content = y @ ''${'' @ n @ ''}'' @ z)"

datatype segment = Plain string | Braced string | Bare string

fun segment_text :: "segment \<Rightarrow> string" where
  "segment_text (Plain x) = x"
| "segment_text (Braced n) = ''${'' @ n @ ''}''"
| "segment_text (Bare n) = ''$'' @ n"

fun segment_value :: "(string \<Rightarrow> string) \<Rightarrow> segment \<Rightarrow> string" where
  "segment_value getenv (Plain x) = x"
| "segment_value getenv (Braced n) = getenv n"
| "segment_value getenv (Bare n) = getenv n"

definition template_text :: "segment list \<Rightarrow> string" where
  "template_text ts = concat (map segment_text ts)"

fun well_formed_template :: "segment list \<Rightarrow> bool" where
  "well_formed_template [] \<longleftrightarrow> True"
| "well_formed_template (Plain x # ts) \<longleftrightarrow> CHR ''$'' \<notin> set x \<and> well_formed_template ts"
| "well_formed_template (Braced n # ts) \<longleftrightarrow> var_name n \<and> well_formed_template ts"
| "well_formed_template (Bare n # ts) \<longleftrightarrow> var_name n \<and> well_formed_template ts \<and>
     (template_text ts = [] \<or> \<not> name_char (hd (template_text ts)))"

lemma match_ref_shape:
  assumes "match_ref (ch # s) = Some (n, rest)"
  shows "ch = CHR ''$'' \<and> s = CHR ''{'' # n @ CHR ''}'' # rest \<and> n \<noteq> [] \<and> name_start (hd n) \<and> (\<forall>x \<in> set n. name_char x)"
proof -
  let ?body = "drop 2 (ch # s)"
  from assms have p: "hasPrefix (ch # s) ref_start" and n: "n = takeWhile name_char ?body" "n \<noteq> []" "name_start (hd n)"
    and r: "dropWhile name_char ?body \<noteq> []" "hd (dropWhile name_char ?body) = CHR ''}''" "rest = tl (dropWhile name_char ?body)"
    by (auto simp: match_ref_def Let_def split: if_splits)
  from p obtain t where t: "ch = CHR ''$''" "s = CHR ''{'' # t" by (auto simp: hasPrefix_iff ref_start_def)
  then have "t = n @ CHR ''}'' # rest" using n(1) r takeWhile_dropWhile_id [of name_char t] by (cases "dropWhile name_char t") auto
  with t n show ?thesis by (auto dest: set_takeWhileD)
qed

lemma getShellName_ref:
  assumes "n \<noteq> []" "name_start (hd n)" "\<forall>x \<in> set n. name_char x"
  shows "getShellName (CHR ''{'' # n @ CHR ''}'' # rest) = (n, length n + 2)"
proof -
  have "takeWhile (\<lambda>ch. ch \<noteq> CHR ''}'') (n @ CHR ''}'' # rest) = n"
    using assms(3) name_char_not(1) by (subst takeWhile_append2) auto
  moreover have "\<not> isShellSpecialVar (hd n)" using assms(2) by (rule name_char_not(2))
  ultimately show ?thesis using assms(1) by (cases n) (simp_all add: getShellName_def Let_def)
qed

lemma os_Expand_ref:
  assumes "match_ref (ch # s) = Some (n, rest)"
  shows "os_Expand f (ch # s) = f n @ os_Expand f rest"
  using match_ref_shape [OF assms] getShellName_ref [of n rest] by simp

lemma match_ref_braced:
  assumes "var_name n"
  shows "match_ref (CHR ''$'' # CHR ''{'' # n @ CHR ''}'' # rest) = Some (n, rest)"
proof -
  have brace: "\<not> name_char (CHR ''}'')" using name_char_not(1) by blast
  then have "takeWhile name_char (n @ CHR ''}'' # rest) = n" "dropWhile name_char (n @ CHR ''}'' # rest) = CHR ''}'' # rest"
    using assms by (simp_all add: var_name_def)
  then show ?thesis using assms brace by (simp add: match_ref_def hasPrefix_def ref_start_def var_name_def)
qed

text \<open>The references that \<^verbatim>\<open>FindAllStringSubmatch\<close> finds are all the places where one is written: two of them cannot overlap.\<close>

lemma ref_names_iff: "n \<in> set (ref_names s) \<longleftrightarrow> braced_in n s"
proof
  show "n \<in> set (ref_names s) \<Longrightarrow> braced_in n s"
  proof (induction s rule: ref_names.induct)
    case (2 ch s)
    show ?case
    proof (cases "match_ref (ch # s)")
      case None
      with 2 obtain y z where "s = y @ ''${'' @ n @ ''}'' @ z" "var_name n" by (auto simp: braced_in_def)
      then show ?thesis unfolding braced_in_def by (metis append_Cons)
    next
      case (Some p)
      then obtain m rest where p: "match_ref (ch # s) = Some (m, rest)" by (cases p) auto
      note shape = match_ref_shape [OF p]
      show ?thesis
      proof (cases "n = m")
        case True
        with shape have "ch # s = [] @ ''${'' @ n @ ''}'' @ rest" "var_name n" by (auto simp: var_name_def)
        then show ?thesis unfolding braced_in_def by blast
      next
        case False
        with 2 p have "braced_in n rest" by auto
        then obtain y z where yz: "rest = y @ ''${'' @ n @ ''}'' @ z" "var_name n" unfolding braced_in_def by blast
        with shape have "ch # s = (''${'' @ m @ ''}'' @ y) @ ''${'' @ n @ ''}'' @ z" by simp
        with yz(2) show ?thesis unfolding braced_in_def by blast
      qed
    qed
  qed simp
next
  assume "braced_in n s"
  then obtain y z where s: "s = y @ ''${'' @ n @ ''}'' @ z" and n: "var_name n" unfolding braced_in_def by blast
  from s show "n \<in> set (ref_names s)"
  proof (induction s arbitrary: y rule: ref_names.induct)
    case (2 ch s)
    show ?case
    proof (cases y)
      case Nil
      then show ?thesis using 2(3) match_ref_braced [OF n, of z] by (simp del: ref_names.simps add: ref_names.simps(2))
    next
      case (Cons a y')
      show ?thesis
      proof (cases "match_ref (ch # s)")
        case None
        with 2 Cons show ?thesis by simp
      next
        case (Some p)
        then obtain m rest where p: "match_ref (ch # s) = Some (m, rest)" by (cases p) auto
        have "(CHR ''{'' # m @ [CHR ''}'']) @ rest = y' @ CHR ''$'' # (CHR ''{'' # n @ CHR ''}'' # z)"
          using match_ref_shape [OF p] 2(3) Cons by simp
        moreover have "CHR ''$'' \<notin> set (CHR ''{'' # m @ [CHR ''}''])"
          using match_ref_shape [OF p] name_char_not(3) by auto
        ultimately obtain y'' where "rest = y'' @ ''${'' @ n @ ''}'' @ z"
          by (auto simp: append_eq_append_conv2 Cons_eq_append_conv append_eq_Cons_conv)
        with 2(2) [OF p] p show ?thesis by simp
      qed
    qed
  qed simp
qed

lemma os_Expand_plain: "CHR ''$'' \<notin> set x \<Longrightarrow> os_Expand f (x @ s) = x @ os_Expand f s"
  by (induction x) auto

lemma ref_names_plain: "CHR ''$'' \<notin> set x \<Longrightarrow> ref_names (x @ s) = ref_names s"
  by (induction x) (auto simp: match_ref_def hasPrefix_def ref_start_def)

lemma expand_bare:
  assumes "var_name n" "s = [] \<or> \<not> name_char (hd s)"
  shows "os_Expand f (CHR ''$'' # n @ s) = f n @ os_Expand f s" "ref_names (CHR ''$'' # n @ s) = ref_names s"
proof -
  obtain a m where n: "n = a # m" using assms(1) by (cases n) (auto simp: var_name_def)
  have a: "a \<noteq> CHR ''{''" "\<not> isShellSpecialVar a" using assms(1) n name_char_not by (auto simp: var_name_def)
  have "takeWhile name_char (n @ s) = n"
    using assms by (cases s) (auto simp: var_name_def)
  then have "getShellName (n @ s) = (n, length n)" using a by (simp add: getShellName_def n)
  then show "os_Expand f (CHR ''$'' # n @ s) = f n @ os_Expand f s" by (simp add: n)
  have "CHR ''$'' \<notin> set n" using assms(1) name_char_not(3) by (auto simp: var_name_def)
  moreover have "match_ref (CHR ''$'' # n @ s) = None" using a(1) by (simp add: n match_ref_def hasPrefix_def ref_start_def)
  ultimately show "ref_names (CHR ''$'' # n @ s) = ref_names s" by (simp add: ref_names_plain)
qed

lemma template_expand:
  "well_formed_template ts \<Longrightarrow> os_Expand f (template_text ts) = concat (map (segment_value f) ts)"
proof (induction ts)
  case (Cons seg ts)
  show ?case
  proof (cases seg)
    case (Plain x)
    with Cons show ?thesis by (simp add: template_text_def os_Expand_plain)
  next
    case (Braced n)
    with Cons os_Expand_ref [OF match_ref_braced, of n f] show ?thesis by (simp add: template_text_def del: os_Expand.simps)
  next
    case (Bare n)
    with Cons expand_bare(1) [of n "template_text ts" f] show ?thesis by (simp add: template_text_def del: os_Expand.simps)
  qed
qed (simp add: template_text_def)

lemma template_names:
  "well_formed_template ts \<Longrightarrow> set (ref_names (template_text ts)) = {n. Braced n \<in> set ts}"
proof (induction ts)
  case (Cons seg ts)
  show ?case
  proof (cases seg)
    case (Plain x)
    with Cons show ?thesis by (simp add: template_text_def ref_names_plain)
  next
    case (Braced n)
    with Cons match_ref_braced [of n "template_text ts"] show ?thesis by (auto simp: template_text_def)
  next
    case (Bare n)
    with Cons expand_bare(2) [of n "template_text ts"] show ?thesis by (simp add: template_text_def del: ref_names.simps)
  qed
qed (simp add: template_text_def)

text \<open>
  C39. What \<^verbatim>\<open>CreateYAMLFromFileWithEnvvars\<close> does with the variables of a file. A file that cannot be read is its one error, without
  any call. The names that are written as \<^verbatim>\<open>${NAME}\<close> anywhere in the text and have no value are reported, each of them once, in an error
  without any call; when there is none, the documents are created from the substituted text. For a text made of plain parts, braced
  references and bare references \<^verbatim>\<open>$NAME\<close>, the names that are checked are those of the braced references only, and the substituted text has
  the value of its variable in the place of each reference of both kinds. So a bare reference without a value passes the check and is
  replaced by nothing.
\<close>

theorem manifest_variables:
  "let run = CreateYAMLFromFileWithEnvvars rt api readFile getenv c filePath namespace in
    (readFile filePath = Inl err \<longrightarrow> run w = Some ([wrapf (''failed to read file '' @ filePath @ '': '') err], w)) \<and>
    (readFile filePath = Inr content \<longrightarrow>
      (\<exists>unset. distinct unset \<and> set unset = {n. braced_in n content \<and> getenv n = []} \<and>
         (unset \<noteq> [] \<longrightarrow> run w = Some ([ErrText (''environment variables not set: '' @ go_list unset)], w)) \<and>
         (unset = [] \<longrightarrow> run w = CreateYAML rt api c (os_Expand getenv content) namespace w) \<and>
         (well_formed_template ts \<and> content = template_text ts \<longrightarrow>
            set unset = {n. Braced n \<in> set ts \<and> getenv n = []} \<and>
            os_Expand getenv content = concat (map (segment_value getenv) ts))))"
proof -
  define run where "run = CreateYAMLFromFileWithEnvvars rt api readFile getenv c filePath namespace"
  have "(\<exists>unset. distinct unset \<and> set unset = {n. braced_in n content \<and> getenv n = []} \<and>
         (unset \<noteq> [] \<longrightarrow> run w = Some ([ErrText (''environment variables not set: '' @ go_list unset)], w)) \<and>
         (unset = [] \<longrightarrow> run w = CreateYAML rt api c (os_Expand getenv content) namespace w) \<and>
         (well_formed_template ts \<and> content = template_text ts \<longrightarrow>
            set unset = {n. Braced n \<in> set ts \<and> getenv n = []} \<and>
            os_Expand getenv content = concat (map (segment_value getenv) ts)))" if "readFile filePath = Inr content"
  proof (intro exI conjI)
    show "distinct (FindUnsetEnvVars getenv content)"
      and "set (FindUnsetEnvVars getenv content) = {n. braced_in n content \<and> getenv n = []}"
      using find_unset_spec [of getenv "ref_names content" "{}"] by (auto simp: FindUnsetEnvVars_def ref_names_iff)
    show "well_formed_template ts \<and> content = template_text ts \<longrightarrow>
        set (FindUnsetEnvVars getenv content) = {n. Braced n \<in> set ts \<and> getenv n = []} \<and>
        os_Expand getenv content = concat (map (segment_value getenv) ts)"
      using find_unset_spec [of getenv "ref_names content" "{}"] template_names [of ts] template_expand [of ts getenv]
      by (auto simp: FindUnsetEnvVars_def)
  qed (simp_all add: run_def CreateYAMLFromFileWithEnvvars_def that io_ret_def)
  moreover have "run w = Some ([wrapf (''failed to read file '' @ filePath @ '': '') err], w)" if "readFile filePath = Inl err"
    by (simp add: run_def CreateYAMLFromFileWithEnvvars_def io_ret_def that)
  ultimately show ?thesis unfolding run_def [symmetric] Let_def by blast
qed

section \<open>What applying a manifest writes\<close>

lemma triple_with_var: "triple P m Q \<Longrightarrow> triple P (with_var s m) Q"
proof (rule tripleI)
  fix w r w' assume m: "triple P m Q" and P: "P (tr w)" and run: "with_var s m w = Some (r, w')"
  from run obtain w1 where "m \<lparr>tr = tr w, est = (est w, s)\<rparr> = Some (r, w1)" "tr w' = tr w1"
    by (auto simp: with_var_def split: option.splits)
  with tripleD [OF m this(1)] P show "Q r (tr w')" by simp
qed

lemma only_calls_with_var [calls_intros]: "only_calls P m \<Longrightarrow> only_calls P (with_var s m)"
  unfolding with_var_def only_calls_def by (auto split: option.splits) fastforce

text \<open>
  An update carries the resource version of the object that the call before it read; a creation follows a read that failed.
\<close>

definition apply_write_ok :: "event list \<Rightarrow> event \<Rightarrow> bool" where
  "apply_write_ok before ev = (case ev of
     ObjUpdate resource ns obj r \<Rightarrow> \<exists>a existing. before = a @ [ObjGet resource ns (km_name obj) (Inr existing)] \<and>
       km_resourceVersion obj = uo_resourceVersion existing
   | ObjCreate resource ns obj r \<Rightarrow> \<exists>a err. before = a @ [ObjGet resource ns (km_name obj) (Inl err)]
   | _ \<Rightarrow> True)"

definition object_of :: "('e, 'm) apply_api \<Rightarrow> string \<Rightarrow> string \<Rightarrow> kmanifest \<Rightarrow> bool" where
  "object_of api doc namespace obj \<longleftrightarrow> (\<exists>obj0. ap_decode api doc = Inr obj0 \<and>
     obj = (if km_namespace obj0 = [] \<and> namespace \<noteq> [] then obj0\<lparr>km_namespace := namespace\<rparr> else obj0))"

text \<open>The document was stored: its object, with some resource version, was created or replaced an older one.\<close>

definition stored_in :: "('e, 'm) apply_api \<Rightarrow> string \<Rightarrow> event list \<Rightarrow> string \<Rightarrow> bool" where
  "stored_in api namespace u doc \<longleftrightarrow> (\<exists>obj resource ns rv. object_of api doc namespace obj \<and>
     (ObjCreate resource ns (obj\<lparr>km_resourceVersion := rv\<rparr>) None \<in> set u \<or> ObjUpdate resource ns (obj\<lparr>km_resourceVersion := rv\<rparr>) None \<in> set u))"

lemma stored_in_step: "stored_in api namespace u doc \<Longrightarrow> stored_in api namespace (u @ [ev]) doc"
  unfolding stored_in_def by auto

definition applied :: "('e, 'm) apply_api \<Rightarrow> string \<Rightarrow> string list \<Rightarrow> event list \<Rightarrow> bool" where
  "applied api namespace docs u \<longleftrightarrow> history apply_write_ok u \<and> list_all (stored_in api namespace u) docs"

lemma applied_read:
  "applied api namespace docs u \<Longrightarrow> (\<And>x. apply_write_ok x ev) \<Longrightarrow> applied api namespace docs (u @ [ev])"
  by (auto simp: applied_def list_all_iff stored_in_step)

lemma applied_write:
  assumes "applied api namespace docs u" "object_of api doc namespace obj"
    "ev r = ObjCreate resource ns (obj\<lparr>km_resourceVersion := rv\<rparr>) r \<or> ev r = ObjUpdate resource ns (obj\<lparr>km_resourceVersion := rv\<rparr>) r"
    "apply_write_ok u (ev r)"
  shows "applied api namespace (if r = None then doc # docs else docs) (u @ [ev r])"
proof -
  have "stored_in api namespace (u @ [ev r]) doc" if "r = None"
    using assms(2,3) that unfolding stored_in_def
    by (intro exI [of _ obj] exI [of _ resource] exI [of _ ns] exI [of _ rv]) auto
  with assms(1,4) show ?thesis by (auto simp: applied_def list_all_iff stored_in_step)
qed

lemma apply_once_triple:
  assumes "object_of api doc namespace obj"
  shows "triple (since t0 (applied api namespace docs)) (apply_once api c obj resource ns)
    (nil_or (since t0 (applied api namespace (doc # docs))) (since t0 (applied api namespace docs)))"
proof -
  let ?R = "\<lambda>g. since t0 (\<lambda>u. applied api namespace docs u \<and> (\<exists>a. u = a @ [ObjGet resource ns (km_name obj) g]))"
  have get: "triple (since t0 (applied api namespace docs)) (call (ObjGet resource ns (km_name obj)) f) ?R" for f
    by (rule triple_call, erule since_step) (simp add: applied_read apply_write_ok_def)
  have put: "triple (?R g) (put_op pre ev f) (nil_or (since t0 (applied api namespace (doc # docs))) (since t0 (applied api namespace docs)))"
    if "\<And>r. ev r = ObjCreate resource ns (obj\<lparr>km_resourceVersion := rv\<rparr>) r \<or> ev r = ObjUpdate resource ns (obj\<lparr>km_resourceVersion := rv\<rparr>) r"
      and "\<And>u r. \<exists>a. u = a @ [ObjGet resource ns (km_name obj) g] \<Longrightarrow> apply_write_ok u (ev r)" for g pre ev rv f
  proof (rule triple_put_op)
    fix t r assume "?R g t"
    then have "since t0 (applied api namespace (if r = None then doc # docs else docs)) (t @ [ev r])"
      by (rule since_step, elim conjE) (rule applied_write [OF _ assms that(1) that(2)])
    then show "nil_or (since t0 (applied api namespace (doc # docs))) (since t0 (applied api namespace docs)) (map_option (wrapf pre) r) (t @ [ev r])"
      by (cases r) auto
  qed
  have set: "triple P (set_var v) (\<lambda>_. P)" and var: "triple P get_var (\<lambda>_. P)" for P :: "event list \<Rightarrow> bool" and v
    by (simp_all add: set_var_def get_var_def triple_ask)
  show ?thesis unfolding apply_once_def Let_def
    by (rule triple_bind [OF get], intro triple_intros triple_bind [OF set] triple_bind [OF var] put) (auto simp: apply_write_ok_def)
qed


lemma locate_document_triple:
  "triple (since t0 (applied api namespace docs)) (locate_document api doc namespace)
     (\<lambda>l t. (\<forall>obj resource ns. l = Inr (obj, resource, ns) \<longrightarrow> object_of api doc namespace obj) \<and> since t0 (applied api namespace docs) t)"
proof -
  have ask: "triple (since t0 (applied api namespace docs)) (call (\<lambda>r. KubeOp what args (ev r)) f) (\<lambda>_. since t0 (applied api namespace docs))"
    for what args ev and f :: "'a \<Rightarrow> 'r \<times> 'a"
    by (rule triple_call, erule since_step) (simp add: applied_read apply_write_ok_def)
  show ?thesis unfolding locate_document_def Let_def
    by (intro triple_intros triple_ret triple_bind [OF ask]) (auto simp: object_of_def split: sum.splits if_splits)
qed

lemma applyDocument_triple:
  "triple (since t0 (applied api namespace docs)) (applyDocument rt api c doc namespace)
     (nil_or (since t0 (applied api namespace (doc # docs))) (since t0 (applied api namespace docs)))"
proof -
  have wait: "since t0 (applied api namespace docs) (t @ [Waited c d])" if "since t0 (applied api namespace docs) t" for t d
    using that by (rule since_step) (simp add: applied_read apply_write_ok_def)
  have once: "triple (since t0 (applied api namespace docs)) (with_var s (DoVoid (lift_rt rt) c DefaultConfig (apply_once api c obj resource ns)))
     (nil_or (since t0 (applied api namespace (doc # docs))) (since t0 (applied api namespace docs)))"
    if "object_of api doc namespace obj" for s obj resource ns
    by (intro triple_with_var triple_DoVoid [OF apply_once_triple [OF that] wait]) (simp_all add: DefaultConfig_def)
  show ?thesis unfolding applyDocument_def
    by (rule triple_bind [OF locate_document_triple], intro triple_assume triple_intros triple_ret once) auto
qed

text \<open>Of the documents that are not blank, those without an error were handled; every other one has its error.\<close>

abbreviation nonblank :: "string list \<Rightarrow> string list" where
  "nonblank docs \<equiv> filter (\<lambda>d. d \<noteq> []) (map trimSpace docs)"

lemma each_document_triple:
  assumes f: "\<And>doc D. triple (I D) (f doc) (nil_or (I (doc # D)) (I D))"
  shows "triple (I D) (each_document f i docs)
    (\<lambda>errs t. \<exists>ok. I (rev ok @ D) t \<and> subseq ok (nonblank docs) \<and> length ok + length errs = length (nonblank docs))"
proof (induction docs arbitrary: i D)
  case Nil
  show ?case by (auto intro!: triple_ret)
next
  case (Cons doc docs)
  let ?all = "trimSpace doc # nonblank docs"
  let ?Q = "\<lambda>errs t. \<exists>ok. I (rev ok @ D) t \<and> subseq ok ?all \<and> length ok + length errs = length ?all"
  show ?case
  proof (cases "trimSpace doc = []")
    case True
    with Cons.IH [of D "i + 1"] show ?thesis by simp
  next
    case False
    have nil: "triple (I (trimSpace doc # D)) (io_bind (each_document f (i + 1) docs) io_ret) ?Q"
    proof (rule triple_bind [OF Cons.IH], rule triple_ret)
      fix errs t
      assume "\<exists>ok. I (rev ok @ trimSpace doc # D) t \<and> subseq ok (nonblank docs) \<and> length ok + length errs = length (nonblank docs)"
      then obtain ok where "I (rev ok @ trimSpace doc # D) t" "subseq ok (nonblank docs)" "length ok + length errs = length (nonblank docs)"
        by blast
      with False show "?Q errs t" by (intro exI [of _ "trimSpace doc # ok"]) auto
    qed
    have failed: "triple (I D) (io_bind (each_document f (i + 1) docs) (\<lambda>errs. io_ret (err # errs))) ?Q" for err
      by (rule triple_bind [OF Cons.IH], rule triple_ret) (use False in \<open>force intro: list_emb_Cons\<close>)
    have rest: "triple (nil_or (I (trimSpace doc # D)) (I D) e) (io_bind (each_document f (i + 1) docs) (\<lambda>errs.
        io_ret (case e of None \<Rightarrow> errs | Some err \<Rightarrow> wrapf pre err # errs))) ?Q" for e pre
    proof (cases e)
      case None
      have "nil_or (I (trimSpace doc # D)) (I D) None = I (trimSpace doc # D)" by (simp add: nil_or_def fun_eq_iff)
      with nil show ?thesis unfolding None option.case by simp
    next
      case (Some err)
      have "nil_or (I (trimSpace doc # D)) (I D) (Some err) = I D" by (simp add: nil_or_def fun_eq_iff)
      with failed show ?thesis unfolding Some option.case by simp
    qed
    have all: "nonblank (doc # docs) = ?all" using False by simp
    show ?thesis unfolding each_document.simps Let_def all if_not_P [OF False] by (rule triple_bind [OF f rest])
  qed
qed

text \<open>
  C38. \<^verbatim>\<open>ApplyYAML\<close>, whatever the API answers: an object is only replaced with the resource version that the call before read, and only
  created after a read that failed. Every document is tried: those that were stored, in the given namespace if the
  manifest has none, and the errors add up to all documents; so without an error all of them were stored.
\<close>

theorem apply_yaml_writes:
  assumes "ApplyYAML rt api c yamlContent namespace w = Some (errs, w')"
  shows "\<exists>u ok. tr w' = tr w @ u \<and> history apply_write_ok u \<and> list_all (stored_in api namespace u) ok \<and>
    subseq ok (splitYAMLDocuments yamlContent) \<and> length ok + length errs = length (splitYAMLDocuments yamlContent)"
proof -
  let ?docs = "splitYAMLDocuments yamlContent"
  have "trimSpace d = d \<and> d \<noteq> []" if "d \<in> set ?docs" for d
    using that by (auto simp: splitYAMLDocuments_def trimSpace_idem)
  then have "nonblank ?docs = ?docs" by (simp add: map_idI filter_id_conv)
  with tripleD [OF each_document_triple [where I = "\<lambda>D. since (tr w) (applied api namespace D)", OF applyDocument_triple] assms [unfolded ApplyYAML_def], of "[]"]
  obtain ok u where "tr w' = tr w @ u" "applied api namespace (rev ok) u" "subseq ok ?docs" "length ok + length errs = length ?docs"
    by (auto simp: since_def applied_def)
  then show ?thesis by (auto simp: applied_def)
qed


text \<open>\<^verbatim>\<open>CreateYAML\<close> reads and replaces nothing.\<close>

lemma create_yaml_only_creates:
  "only_calls (\<lambda>ev. \<forall>resource ns obj name r g. ev \<noteq> ObjUpdate resource ns obj r \<and> ev \<noteq> ObjGet resource ns name g)
     (CreateYAML rt api c yamlContent namespace)"
proof -
  let ?P = "\<lambda>ev. \<forall>resource ns obj name r g. ev \<noteq> ObjUpdate resource ns obj r \<and> ev \<noteq> ObjGet resource ns name g"
  have "only_calls ?P (createDocument rt api c doc namespace)" for doc
    unfolding createDocument_def locate_document_def Let_def
    by (intro calls_intros only_calls_case_prod; simp)
  then have "only_calls ?P (each_document (\<lambda>doc. createDocument rt api c doc namespace) i docs)" for i docs
    by (induction docs arbitrary: i) (auto simp: Let_def intro!: calls_intros)
  then show ?thesis by (simp add: CreateYAML_def)
qed

section \<open>A manifest of two documents\<close>

text \<open>The name of an object is the last letter of its document; the first one exists already.\<close>

definition two_docs :: "string list" where "two_docs = [''kind: A'', ''kind: B'']"

definition doc_obj :: "string \<Rightarrow> kmanifest" where
  "doc_obj doc = \<lparr>km_group = [], km_version = ''v1'', km_kind = ''ConfigMap'', km_name = [last doc], km_namespace = [],
     km_resourceVersion = [], km_body = doc\<rparr>"

definition user_file :: "segment list" where
  "user_file = [Plain ''user: '', Braced ''USER'', Bare ''SUFFIX'']"

definition user_env :: "string \<Rightarrow> string" where "user_env n = (if n = ''USER'' then ''admin'' else [])"

definition empty_env :: "string \<Rightarrow> string" where "empty_env n = []"

definition doc_api :: "(unit, unit) apply_api" where
  "doc_api = \<lparr>ap_newDynamic = (\<lambda>s. (None, s)), ap_newDiscovery = (\<lambda>s. (None, s)),
     ap_decode = (\<lambda>doc. Inr (doc_obj doc)),
     ap_groupResources = (\<lambda>s. (Inr (), s)), ap_restMapping = (\<lambda>m g k v. Inr (''configmaps'', ''namespace'')),
     ap_get = (\<lambda>c res ns n s. (if n = ''A'' then Inr \<lparr>uo_resourceVersion = ''7'', uo_deletionTimestamp = None, uo_finalizers = [], uo_strings = Map.empty\<rparr>
       else Inl ErrEOF, s)),
     ap_create = (\<lambda>c res ns obj s. (None, s)), ap_update = (\<lambda>c res ns obj s. (None, s))\<rparr>"

lemma two_docs_plain: "list_all plain_document two_docs"
  by code_simp

lemma two_docs_split:
  "splitYAMLDocuments (str_join docSeparator two_docs) = two_docs"
  by (rule yaml_documents_roundtrip) (rule two_docs_plain)

lemma lift_sample: "lift_rt sample_rt = sample_rt"
  by (simp add: lift_rt_def sample_rt_def lift_out_def fun_eq_iff split_beta)

lemma yields_with_var: "yields (e, s) m r (e', s') \<Longrightarrow> yields e (with_var s m) r e'"
  unfolding yields_def
proof
  fix t assume "\<forall>t. \<exists>u. m \<lparr>tr = t, est = (e, s)\<rparr> = Some (r, \<lparr>tr = t @ u, est = (e', s')\<rparr>)"
  then obtain u where "m \<lparr>tr = t, est = (e, s)\<rparr> = Some (r, \<lparr>tr = t @ u, est = (e', s')\<rparr>)" by blast
  then show "\<exists>u. with_var s m \<lparr>tr = t, est = e\<rparr> = Some (r, \<lparr>tr = t @ u, est = e'\<rparr>)" by (simp add: with_var_def)
qed

lemma doc_applied: "yields () (applyDocument sample_rt doc_api CtxRoot doc ''ns'') None ()"
proof -
  let ?obj = "(doc_obj doc)\<lparr>km_namespace := ''ns''\<rparr>"
  have l: "yields () (locate_document doc_api doc ''ns'') (Inr (?obj, ''configmaps'', ''ns'')) ()"
    by (simp add: locate_document_def doc_api_def doc_obj_def yields_def io_simps Let_def)
  have "\<exists>s'. yields ((), s) (apply_once doc_api CtxRoot ?obj ''configmaps'' ''ns'') None ((), s')" for s
    by (auto simp: apply_once_def doc_api_def yields_def lift_out_def set_var_def get_var_def io_simps)
  then obtain s' where "yields ((), km_resourceVersion ?obj) (apply_once doc_api CtxRoot ?obj ''configmaps'' ''ns'') None ((), s')" by blast
  then have "yields ((), km_resourceVersion ?obj) (DoVoid sample_rt CtxRoot DefaultConfig (apply_once doc_api CtxRoot ?obj ''configmaps'' ''ns'')) None ((), s')"
    by (rule yields_DoVoid)
  then show ?thesis unfolding applyDocument_def lift_sample
    by (intro yields_bind [OF l]) (simp add: yields_with_var)
qed

lemma docs_applied: "yields () (each_document (\<lambda>doc. applyDocument sample_rt doc_api CtxRoot doc ''ns'') i docs) [] ()"
proof (induction docs arbitrary: i)
  case (Cons doc docs)
  have "yields () (io_bind (each_document (\<lambda>doc. applyDocument sample_rt doc_api CtxRoot doc ''ns'') (i + 1) docs) io_ret) [] ()"
    by (rule yields_bind [OF Cons.IH yields_ret])
  with Cons.IH show ?case unfolding each_document.simps Let_def
    by (cases "trimSpace doc = []") (auto intro: yields_bind [OF doc_applied])
qed (simp add: yields_ret)

theorem apply_yaml_writes_witness:
  "\<exists>w'. ApplyYAML sample_rt doc_api CtxRoot (str_join docSeparator two_docs) ''ns'' \<lparr>tr = [], est = ()\<rparr> = Some ([], w') \<and>
     list_all (stored_in doc_api ''ns'' (tr w')) two_docs"
proof -
  have docs: "splitYAMLDocuments (str_join docSeparator two_docs) = two_docs" by (rule two_docs_split)
  obtain w' where "ApplyYAML sample_rt doc_api CtxRoot (str_join docSeparator two_docs) ''ns'' \<lparr>tr = [], est = ()\<rparr> = Some ([], w')"
    using docs_applied [of 0] unfolding ApplyYAML_def yields_def by blast
  with apply_yaml_writes [OF this] show ?thesis unfolding docs by (fastforce dest: subseq_same_length)
qed

lemma user_file_created:
  "CreateYAML sample_rt doc_api CtxRoot ''user: admin'' ''ns'' w =
     Some ([], w\<lparr>tr := tr w @ [KubeOp ''api group resources'' [] None, ObjCreate ''configmaps'' ''ns'' ((doc_obj ''user: admin'')\<lparr>km_namespace := ''ns''\<rparr>) None]\<rparr>)"
proof -
  have "splitYAMLDocuments ''user: admin'' = [''user: admin'']" "trimSpace ''user: admin'' = ''user: admin''" by code_simp+
  then show ?thesis
    by (simp add: CreateYAML_def createDocument_def locate_document_def doc_api_def doc_obj_def DoVoid_def Do_def do_loop.simps DefaultConfig_def
        sample_rt_def put_op_def Let_def io_simps)
qed

theorem manifest_variables_witness:
  "well_formed_template user_file \<and> template_text user_file = ''user: ${USER}$SUFFIX'' \<and>
   CreateYAMLFromFileWithEnvvars sample_rt doc_api (\<lambda>_. Inr (template_text user_file)) user_env CtxRoot ''f'' ''ns'' \<lparr>tr = [], est = ()\<rparr> =
     Some ([], \<lparr>tr = [KubeOp ''api group resources'' [] None,
       ObjCreate ''configmaps'' ''ns'' ((doc_obj ''user: admin'')\<lparr>km_namespace := ''ns''\<rparr>) None], est = ()\<rparr>) \<and>
   CreateYAMLFromFileWithEnvvars sample_rt doc_api (\<lambda>_. Inr (template_text user_file)) empty_env CtxRoot ''f'' ''ns'' \<lparr>tr = [], est = ()\<rparr> =
     Some ([ErrText ''environment variables not set: [USER]''], \<lparr>tr = [], est = ()\<rparr>)"
proof -
  have wf: "well_formed_template user_file" "template_text user_file = ''user: ${USER}$SUFFIX''" by code_simp+
  have filled: "concat (map (segment_value user_env) user_file) = ''user: admin''" by code_simp
  have names: "{n. Braced n \<in> set user_file \<and> user_env n = []} = {}" "{n. Braced n \<in> set user_file \<and> empty_env n = []} = {''USER''}"
    by (auto simp: user_file_def user_env_def empty_env_def)
  let ?f = "\<lambda>_ :: string. Inr (template_text user_file) :: goerr + string" and ?w = "\<lparr>tr = [], est = ()\<rparr>"
  note use = manifest_variables [where readFile = ?f and filePath = "''f''" and rt = sample_rt and api = doc_api and c = CtxRoot
      and namespace = "''ns''" and w = ?w and content = "template_text user_file" and ts = user_file, unfolded Let_def, THEN conjunct2, rule_format, OF refl]
  obtain unset where u: "unset = [] \<longrightarrow> CreateYAMLFromFileWithEnvvars sample_rt doc_api ?f user_env CtxRoot ''f'' ''ns'' ?w =
       CreateYAML sample_rt doc_api CtxRoot (os_Expand user_env (template_text user_file)) ''ns'' ?w"
    "well_formed_template user_file \<and> template_text user_file = template_text user_file \<longrightarrow>
       set unset = {n. Braced n \<in> set user_file \<and> user_env n = []} \<and>
       os_Expand user_env (template_text user_file) = concat (map (segment_value user_env) user_file)"
    using use [of user_env] by (elim exE conjE) (rule that)
  obtain unset' where u': "distinct unset'"
    "unset' \<noteq> [] \<longrightarrow> CreateYAMLFromFileWithEnvvars sample_rt doc_api ?f empty_env CtxRoot ''f'' ''ns'' ?w =
       Some ([ErrText (''environment variables not set: '' @ go_list unset')], ?w)"
    "well_formed_template user_file \<and> template_text user_file = template_text user_file \<longrightarrow>
       set unset' = {n. Braced n \<in> set user_file \<and> empty_env n = []} \<and>
       os_Expand empty_env (template_text user_file) = concat (map (segment_value empty_env) user_file)"
    using use [of empty_env] by (elim exE conjE) (rule that)
  from u(2) wf(1) names(1) filled have "unset = []" "os_Expand user_env (template_text user_file) = ''user: admin''" by simp_all
  with u(1) have run: "CreateYAMLFromFileWithEnvvars sample_rt doc_api ?f user_env CtxRoot ''f'' ''ns'' ?w = CreateYAML sample_rt doc_api CtxRoot ''user: admin'' ''ns'' ?w"
    by simp
  from u'(3) wf(1) names(2) have "set unset' = {''USER''}" by simp
  with u'(1) have "unset' = [''USER'']" by (cases unset'; cases "tl unset'") auto
  moreover have "go_list [''USER''] = ''[USER]''" by code_simp
  ultimately have "CreateYAMLFromFileWithEnvvars sample_rt doc_api ?f empty_env CtxRoot ''f'' ''ns'' ?w =
       Some ([ErrText ''environment variables not set: [USER]''], ?w)" using u'(2) by simp
  with run show ?thesis using wf user_file_created [of ?w] by simp
qed

end
