(* ===== verification/Storage_Helpers.thy ===== *)
theory Storage_Helpers
  imports Kube_Helpers Module_Enable Virtualization
begin

text \<open>
  Disks and storage classes for test suites: \<^verbatim>\<open>virtualdisk.go\<close> and \<^verbatim>\<open>storageclass.go\<close> of \<^verbatim>\<open>pkg/kubernetes\<close>. The log lines are left out. The theorems
  show what is created and deleted, in which order, and which settings of the global module configuration a new default class
  keeps.
\<close>

section \<open>Virtual disks\<close>

record disk_attachment_config =
  dac_VMName :: string
  dac_Namespace :: string
  dac_DiskName :: string
  dac_DiskSize :: string
  dac_StorageClassName :: string

record disk_attachment_result =
  dar_DiskName :: string
  dar_AttachmentName :: string

record disk_reattachment_config =
  drc_AttachmentName :: string
  drc_VMName :: string
  drc_Namespace :: string
  drc_DiskName :: string

definition with_virt :: "'e runtime \<Rightarrow> 'e helper_api \<Rightarrow> ctx \<Rightarrow> string \<Rightarrow> (goerr \<Rightarrow> 'r) \<Rightarrow> ('e, 'r) act \<Rightarrow> ('e, 'r) act" where
  "with_virt rt api c pre fail k = io_bind (virt_NewClient rt (ka_virt (ha_kube api)) c) (\<lambda>e. case e of
     Some err \<Rightarrow> io_ret (fail (wrapf pre err)) | None \<Rightarrow> k)"

definition blank_disk :: "string \<Rightarrow> string \<Rightarrow> quantity \<Rightarrow> string \<Rightarrow> vdisk" where
  "blank_disk namespace diskName diskSize storageClass = \<lparr>vd_meta = \<lparr>om_name = diskName, om_namespace = namespace, om_labels = Map.empty\<rparr>,
     vd_size = Some diskSize, vd_storageClass = Some storageClass, vd_sourceCVI = None, vd_phase = DiskOther, vd_phaseText = [],
     vd_capacity = [], vd_conditions = []\<rparr>"

definition disk_attachment :: "string \<Rightarrow> string \<Rightarrow> string \<Rightarrow> string \<Rightarrow> vmbda" where
  "disk_attachment namespace attachmentName vmName diskName =
     \<lparr>ba_meta = \<lparr>om_name = attachmentName, om_namespace = namespace, om_labels = Map.empty\<rparr>, ba_vmName = vmName,
      ba_refKind = RefVirtualDisk, ba_refName = diskName, ba_phase = AttachOther, ba_phaseText = []\<rparr>"

text \<open>\<^verbatim>\<open>Create\<close> of the attachment, with which both functions end.\<close>

definition create_attachment ::
  "'e helper_api \<Rightarrow> ctx \<Rightarrow> string \<Rightarrow> string \<Rightarrow> string \<Rightarrow> string \<Rightarrow> ('e, goerr + disk_attachment_result) act" where
  "create_attachment api c namespace attachmentName vmName diskName =
     io_bind (BA_Create (ka_virt (ha_kube api)) c (disk_attachment namespace attachmentName vmName diskName)) (\<lambda>e. io_ret (case e of
       Some err \<Rightarrow> Inl (wrapf (''failed to create VirtualMachineBlockDeviceAttachment '' @ attachmentName @ '': '') err)
     | None \<Rightarrow> Inr \<lparr>dar_DiskName = diskName, dar_AttachmentName = attachmentName\<rparr>))"

definition attach_new_disk ::
  "'e runtime \<Rightarrow> 'e helper_api \<Rightarrow> ctx \<Rightarrow> disk_attachment_config \<Rightarrow> string \<Rightarrow> ('e, goerr + disk_attachment_result) act" where
  "attach_new_disk rt api c config diskName =
     with_virt rt api c ''failed to create virtualization client: '' Inl
       (case ha_parseQuantity api (dac_DiskSize config) of
          Inl err \<Rightarrow> io_ret (Inl (wrapf (''failed to parse disk size '' @ go_quote (dac_DiskSize config) @ '': '') err))
        | Inr diskSize \<Rightarrow>
          io_bind (VD_Create (ka_virt (ha_kube api)) c (blank_disk (dac_Namespace config) diskName diskSize (dac_StorageClassName config)))
            (\<lambda>e. case e of
               Some err \<Rightarrow> io_ret (Inl (wrapf (''failed to create VirtualDisk '' @ diskName @ '': '') err))
             | None \<Rightarrow> create_attachment api c (dac_Namespace config) (diskName @ ''-attachment'') (dac_VMName config) diskName))"

definition AttachVirtualDiskToVM ::
  "'e runtime \<Rightarrow> 'e helper_api \<Rightarrow> ctx \<Rightarrow> disk_attachment_config \<Rightarrow> ('e, goerr + disk_attachment_result) act" where
  "AttachVirtualDiskToVM rt api c config =
     (if dac_VMName config = [] then io_ret (Inl (ErrText ''VMName is required''))
      else if dac_Namespace config = [] then io_ret (Inl (ErrText ''Namespace is required''))
      else if dac_DiskSize config = [] then io_ret (Inl (ErrText ''DiskSize is required''))
      else if dac_StorageClassName config = [] then io_ret (Inl (ErrText ''StorageClassName is required''))
      else attach_new_disk rt api c config (if dac_DiskName config = [] then dac_VMName config @ ''-data-disk'' else dac_DiskName config))"

definition ReattachVirtualDiskToVM ::
  "'e runtime \<Rightarrow> 'e helper_api \<Rightarrow> ctx \<Rightarrow> disk_reattachment_config \<Rightarrow> ('e, goerr + disk_attachment_result) act" where
  "ReattachVirtualDiskToVM rt api c config =
     (if drc_AttachmentName config = [] then io_ret (Inl (ErrText ''AttachmentName is required''))
      else if drc_VMName config = [] then io_ret (Inl (ErrText ''VMName is required''))
      else if drc_Namespace config = [] then io_ret (Inl (ErrText ''Namespace is required''))
      else if drc_DiskName config = [] then io_ret (Inl (ErrText ''DiskName is required''))
      else with_virt rt api c ''failed to create virtualization client: '' Inl
        (create_attachment api c (drc_Namespace config) (drc_AttachmentName config) (drc_VMName config) (drc_DiskName config)))"

definition attached_body ::
  "'e runtime \<Rightarrow> 'e helper_api \<Rightarrow> ctx \<Rightarrow> string \<Rightarrow> string \<Rightarrow> int \<Rightarrow> unit \<Rightarrow> ('e, goerr option + unit) act" where
  "attached_body rt api c namespace attachmentName pollInterval u =
     io_bind (waitFor rt c pollInterval) (\<lambda>d. case d of
       Some ctxe \<Rightarrow> io_ret (Inl (Some (wrapf ''context cancelled while waiting for disk attachment: '' ctxe)))
     | None \<Rightarrow> io_bind (BA_Get (ka_virt (ha_kube api)) c namespace attachmentName) (\<lambda>g. io_ret (case g of
         Inl _ \<Rightarrow> Inr ()
       | Inr attachment \<Rightarrow> (case ba_phase attachment of
           AttachAttached \<Rightarrow> Inl None
         | AttachFailed \<Rightarrow> Inl (Some (ErrText (''disk attachment failed: attachment '' @ nn namespace attachmentName @ '' is in Failed phase'')))
         | AttachOther \<Rightarrow> Inr ()))))"

definition WaitForVirtualDiskAttached ::
  "'e runtime \<Rightarrow> 'e helper_api \<Rightarrow> ctx \<Rightarrow> string \<Rightarrow> string \<Rightarrow> int \<Rightarrow> ('e, goerr option) act" where
  "WaitForVirtualDiskAttached rt api c namespace attachmentName pollInterval =
     with_virt rt api c ''failed to create virtualization client: '' Some
       (if pollInterval \<le> 0 then io_ret (Some ticker_panic)
        else loop (attached_body rt api c namespace attachmentName pollInterval) ())"

definition ListVirtualMachineNames :: "'e runtime \<Rightarrow> 'e helper_api \<Rightarrow> ctx \<Rightarrow> string \<Rightarrow> ('e, goerr + string list) act" where
  "ListVirtualMachineNames rt api c namespace = with_virt rt api c ''failed to create virtualization client: '' Inl
     (io_bind (VM_List (ka_virt (ha_kube api)) c namespace) (\<lambda>g. io_ret (case g of
       Inl err \<Rightarrow> Inl (wrapf (''failed to list VirtualMachines in '' @ namespace @ '': '') err)
     | Inr vms \<Rightarrow> Inr (map (\<lambda>vm. om_name (vm_meta vm)) vms))))"

definition GetVMIPFromBaseCluster :: "'e runtime \<Rightarrow> 'e helper_api \<Rightarrow> ctx \<Rightarrow> string \<Rightarrow> string \<Rightarrow> ('e, goerr + string) act" where
  "GetVMIPFromBaseCluster rt api c namespace vmName = with_virt rt api c ''create virtualization client: '' Inl
     (io_bind (VM_Get (ka_virt (ha_kube api)) c namespace vmName) (\<lambda>g. io_ret (case g of
       Inl err \<Rightarrow> Inl (wrapf (''get VM '' @ nn namespace vmName @ '': '') err)
     | Inr vm \<Rightarrow> if vm_ipAddress vm = [] then Inl (ErrText (''VM '' @ nn namespace vmName @ '' has no IP in status yet''))
         else Inr (vm_ipAddress vm))))"

text \<open>The errors of the two deletions are logged only.\<close>

definition DetachAndDeleteVirtualDisk ::
  "'e runtime \<Rightarrow> 'e helper_api \<Rightarrow> ctx \<Rightarrow> string \<Rightarrow> string \<Rightarrow> string \<Rightarrow> ('e, goerr option) act" where
  "DetachAndDeleteVirtualDisk rt api c namespace attachmentName diskName =
     with_virt rt api c ''failed to create virtualization client: '' Some
       (io_bind (if attachmentName \<noteq> [] then BA_Delete (ka_virt (ha_kube api)) c namespace attachmentName else io_ret None) (\<lambda>_.
        io_bind (if diskName \<noteq> [] then VD_Delete (ka_virt (ha_kube api)) c namespace diskName else io_ret None) (\<lambda>_. io_ret None)))"

section \<open>Storage classes\<close>

record 'e storage_api =
  sa_helper :: "'e helper_api"
  sa_getSC :: "ctx \<Rightarrow> string \<Rightarrow> 'e \<Rightarrow> (goerr + kstorageclass) \<times> 'e"
  sa_listSC :: "ctx \<Rightarrow> 'e \<Rightarrow> (goerr + kstorageclass list) \<times> 'e"
  sa_createSC :: "ctx \<Rightarrow> kstorageclass \<Rightarrow> 'e \<Rightarrow> goerr option \<times> 'e"

definition WaitForStorageClass :: "'e runtime \<Rightarrow> 'e storage_api \<Rightarrow> ctx \<Rightarrow> string \<Rightarrow> int \<Rightarrow> ('e, goerr option) act" where
  "WaitForStorageClass rt api c0 storageClassName timeout =
     with_new_clientset rt (sa_helper api) c0 ''failed to create clientset: '' Some
       (let c = CtxTimeout c0 timeout in
        io_bind (poll_loop rt c (5 * second) (\<lambda>ctxe _. wrapf (''timeout waiting for StorageClass '' @ storageClassName @ '': '') ctxe)
            (call (SCGet storageClassName) (sa_getSC api c storageClassName))
            (\<lambda>u g. io_ret (Inr (case g of Inl _ \<Rightarrow> False | Inr _ \<Rightarrow> True), u)) ()) (\<lambda>(e, _). io_ret e))"

text \<open>The goroutines put their results into one map; for a name that is given twice the last one stays.\<close>

definition WaitForStorageClasses ::
  "'e runtime \<Rightarrow> 'e storage_api \<Rightarrow> ctx \<Rightarrow> string list \<Rightarrow> int \<Rightarrow> ('e, string \<rightharpoonup> goerr option) act" where
  "WaitForStorageClasses rt api c storageClassNames timeout =
     io_bind (errgroup_results rt (\<lambda>name. io_bind (WaitForStorageClass rt api c name timeout) (\<lambda>e. io_ret (e, e))) storageClassNames) (\<lambda>(_, rs).
       io_ret (foldl (\<lambda>results (name, err). results(name \<mapsto> err)) Map.empty rs))"

definition defaultClassAnnotation :: string where "defaultClassAnnotation = ''storageclass.kubernetes.io/is-default-class''"
definition betaDefaultClassAnnotation :: string where "betaDefaultClassAnnotation = ''storageclass.beta.kubernetes.io/is-default-class''"

definition GetDefaultStorageClassName :: "'e runtime \<Rightarrow> 'e storage_api \<Rightarrow> ctx \<Rightarrow> ('e, goerr + string) act" where
  "GetDefaultStorageClassName rt api c = with_new_clientset rt (sa_helper api) c ''failed to create clientset: '' Inl
     (io_bind (call SCList (sa_listSC api c)) (\<lambda>g. io_ret (case g of
       Inl err \<Rightarrow> Inl (wrapf ''failed to list StorageClasses: '' err)
     | Inr classes \<Rightarrow> Inr (case find (\<lambda>sc. sc_annotations sc defaultClassAnnotation = Some ''true'') classes of
         Some sc \<Rightarrow> sc_name sc | None \<Rightarrow> []))))"

definition GetStorageClass :: "'e runtime \<Rightarrow> 'e storage_api \<Rightarrow> ctx \<Rightarrow> string \<Rightarrow> ('e, goerr + kstorageclass option) act" where
  "GetStorageClass rt api c name = with_new_clientset rt (sa_helper api) c ''failed to create clientset: '' Inl
     (io_bind (call (SCGet name) (sa_getSC api c name)) (\<lambda>g. io_ret (case g of
       Inl err \<Rightarrow> if has_reason NotFound err then Inr None else Inl (wrapf (''failed to get StorageClass '' @ name @ '': '') err)
     | Inr sc \<Rightarrow> Inr (Some sc))))"

text \<open>
  The settings of a \<^verbatim>\<open>ModuleConfig\<close> are an association list with distinct keys. A nil \<^verbatim>\<open>spec.enabled\<close> of the object that was read is written as
  true.
\<close>

definition set_setting :: "string \<Rightarrow> json \<Rightarrow> (string \<times> json) list \<Rightarrow> (string \<times> json) list" where
  "set_setting k v settings = (if k \<in> fst ` set settings then map (\<lambda>(k', v'). (k', if k' = k then v else v')) settings
     else settings @ [(k, v)])"

definition default_class_spec :: "mc_spec \<Rightarrow> string \<Rightarrow> mc_spec" where
  "default_class_spec spec storageClassName =
     \<lparr>mcs_version = mcs_version spec,
      mcs_enabled = Some (case mcs_enabled spec of None \<Rightarrow> True | Some enabled \<Rightarrow> enabled),
      mcs_settings = set_setting ''storageClass'' (JStr storageClassName) (mcs_settings spec)\<rparr>"

definition SetGlobalDefaultStorageClass :: "'e runtime \<Rightarrow> 'e storage_api \<Rightarrow> ctx \<Rightarrow> string \<Rightarrow> ('e, goerr option) act" where
  "SetGlobalDefaultStorageClass rt api c storageClassName =
     (let dh = ka_deckhouse (ha_kube (sa_helper api)) in
      io_bind (GetModuleConfig rt dh c ''global'') (\<lambda>g. case g of
        Inl err \<Rightarrow> if has_reason NotFound err
          then CreateModuleConfig rt dh c ''global''
            \<lparr>mcs_version = 1, mcs_enabled = Some True, mcs_settings = [(''storageClass'', JStr storageClassName)]\<rparr>
          else io_ret (Some (wrapf ''failed to get global ModuleConfig: '' err))
      | Inr mc \<Rightarrow> UpdateModuleConfig rt dh c ''global'' (default_class_spec (mco_spec mc) storageClassName)))"

record sc_create_config =
  scc_Name :: string
  scc_Provisioner :: string
  scc_Parameters :: "string \<rightharpoonup> string"
  scc_VolumeBindingMode :: string
  scc_ReclaimPolicy :: string
  scc_AllowExpansion :: bool
  scc_MakeDefault :: bool
  scc_AdditionalLabels :: "string \<rightharpoonup> string"
  scc_AdditionalAnnot :: "string \<rightharpoonup> string"

definition new_storage_class :: "sc_create_config \<Rightarrow> kstorageclass" where
  "new_storage_class cfg = \<lparr>sc_name = scc_Name cfg, sc_labels = scc_AdditionalLabels cfg,
     sc_annotations = (if scc_MakeDefault cfg
       then (scc_AdditionalAnnot cfg)(defaultClassAnnotation \<mapsto> ''true'', betaDefaultClassAnnotation \<mapsto> ''true'') else scc_AdditionalAnnot cfg),
     sc_provisioner = scc_Provisioner cfg, sc_parameters = scc_Parameters cfg, sc_reclaimPolicy = scc_ReclaimPolicy cfg,
     sc_allowExpansion = scc_AllowExpansion cfg, sc_bindingMode = scc_VolumeBindingMode cfg\<rparr>"

definition CreateStorageClass :: "'e runtime \<Rightarrow> 'e storage_api \<Rightarrow> ctx \<Rightarrow> sc_create_config \<Rightarrow> ('e, goerr option) act" where
  "CreateStorageClass rt api c cfg =
     (if scc_Name cfg = [] then io_ret (Some (ErrText ''storage class name is required''))
      else if scc_Provisioner cfg = [] then io_ret (Some (ErrText ''provisioner is required''))
      else with_new_clientset rt (sa_helper api) c ''failed to create clientset: '' Some
        (io_bind (call (SCCreate (new_storage_class cfg)) (sa_createSC api c (new_storage_class cfg))) (\<lambda>e. io_ret (case e of
           None \<Rightarrow> None
         | Some err \<Rightarrow> if has_reason AlreadyExists err then None
             else Some (wrapf (''failed to create StorageClass '' @ scc_Name cfg @ '': '') err)))))"


section \<open>What attaching a disk creates\<close>

definition disk_write :: "event \<Rightarrow> bool" where
  "disk_write ev = (case ev of VDCreate _ _ \<Rightarrow> True | VDDelete _ _ _ \<Rightarrow> True | BACreate _ _ \<Rightarrow> True | BADelete _ _ _ \<Rightarrow> True | _ \<Rightarrow> False)"

lemma virt_client_writes_nothing: "only_calls (\<lambda>ev. \<not> disk_write ev) (virt_NewClient rt api c)"
  unfolding virt_NewClient_def by (intro calls_intros only_calls_case_prod) (simp_all add: disk_write_def)

lemma with_virt_run:
  assumes "with_virt rt api c pre fail k w = Some (r, w')"
  obtains (failed) q err where "tr w' = tr w @ q" "\<not> list_ex disk_write q" "r = fail err"
  | (opened) q w1 where "tr w1 = tr w @ q" "\<not> list_ex disk_write q" "k w1 = Some (r, w')"
proof -
  from assms obtain e w1 where run: "virt_NewClient rt (ka_virt (ha_kube api)) c w = Some (e, w1)"
    by (auto simp: with_virt_def io_bind_apply split: option.splits)
  from only_callsD [OF virt_client_writes_nothing run] obtain q where q: "tr w1 = tr w @ q" "\<not> list_ex disk_write q"
    by (auto simp: list_ex_iff list_all_iff)
  from assms run q show thesis
    by (cases e) (auto simp: with_virt_def io_simps intro: failed opened)
qed

text \<open>
  The disk is created before its attachment; both are created once, nothing is deleted. A disk whose attachment could not be created stays.
\<close>

lemma attach_new_disk_run:
  assumes "attach_new_disk rt api c config name w = Some (r, w')"
  shows "\<exists>q v n. tr w' = tr w @ q @ v \<and> \<not> list_ex disk_write q \<and>
    (case r of
       Inr x \<Rightarrow> v = [VDCreate (blank_disk (dac_Namespace config) name n (dac_StorageClassName config)) None,
           BACreate (disk_attachment (dac_Namespace config) (name @ ''-attachment'') (dac_VMName config) name) None] \<and>
         dar_DiskName x = name \<and> dar_AttachmentName x = name @ ''-attachment''
     | Inl _ \<Rightarrow> v = [] \<or> (\<exists>err. v = [VDCreate (blank_disk (dac_Namespace config) name n (dac_StorageClassName config)) (Some err)] \<or>
         v = [VDCreate (blank_disk (dac_Namespace config) name n (dac_StorageClassName config)) None,
           BACreate (disk_attachment (dac_Namespace config) (name @ ''-attachment'') (dac_VMName config) name) (Some err)]))"
  using assms unfolding attach_new_disk_def
proof (cases rule: with_virt_run)
  case (failed q err)
  show ?thesis by (rule exI [of _ q], rule exI [of _ "[]"]) (use failed in simp)
next
  case (opened q w1)
  show ?thesis
    by (rule exI [of _ q]) (use opened in \<open>auto simp: virt_ops create_attachment_def io_simps split: sum.splits option.splits\<close>)
qed

lemma virtual_disk_attached:
  assumes "AttachVirtualDiskToVM rt api c config w = Some (r, w')"
  shows "\<exists>q v disk att. tr w' = tr w @ q @ v \<and> \<not> list_ex disk_write q \<and>
    om_namespace (vd_meta disk) = dac_Namespace config \<and> vd_storageClass disk = Some (dac_StorageClassName config) \<and>
    ba_vmName att = dac_VMName config \<and> ba_refName att = om_name (vd_meta disk) \<and>
    (case r of
       Inr x \<Rightarrow> v = [VDCreate disk None, BACreate att None] \<and> dar_DiskName x = om_name (vd_meta disk) \<and> dar_AttachmentName x = om_name (ba_meta att)
     | Inl _ \<Rightarrow> v = [] \<or> (\<exists>err. v = [VDCreate disk (Some err)] \<or> v = [VDCreate disk None, BACreate att (Some err)]))"
proof -
  let ?disk = "\<lambda>name n. blank_disk (dac_Namespace config) name n (dac_StorageClassName config)"
  let ?att = "\<lambda>name. disk_attachment (dac_Namespace config) (name @ ''-attachment'') (dac_VMName config) name"
  from assms consider (invalid) err where "w' = w" "r = Inl err" | (run) name where "attach_new_disk rt api c config name w = Some (r, w')"
    by (auto simp: AttachVirtualDiskToVM_def io_simps split: if_splits)
  then show ?thesis
  proof cases
    case (invalid err)
    show ?thesis
      by (rule exI [of _ "[]"], rule exI [of _ "[]"], rule exI [of _ "?disk [] \<lparr>q_val = 0, q_text = []\<rparr>"], rule exI [of _ "?att []"])
        (use invalid in \<open>simp add: blank_disk_def disk_attachment_def\<close>)
  next
    case (run name)
    from attach_new_disk_run [OF this] obtain q v n where qv: "tr w' = tr w @ q @ v" "\<not> list_ex disk_write q"
      "case r of Inr x \<Rightarrow> v = [VDCreate (?disk name n) None, BACreate (?att name) None] \<and> dar_DiskName x = name \<and> dar_AttachmentName x = name @ ''-attachment''
       | Inl _ \<Rightarrow> v = [] \<or> (\<exists>err. v = [VDCreate (?disk name n) (Some err)] \<or> v = [VDCreate (?disk name n) None, BACreate (?att name) (Some err)])"
      by blast
    show ?thesis
      by (rule exI [of _ q], rule exI [of _ v], rule exI [of _ "?disk name n"], rule exI [of _ "?att name"])
        (use qv in \<open>simp add: blank_disk_def disk_attachment_def split: sum.splits\<close>)
  qed
qed


section \<open>What a new default class changes\<close>

lemma set_setting_map: "map_of (set_setting k v settings) = (map_of settings)(k \<mapsto> v)"
proof (cases "k \<in> fst ` set settings")
  case True
  have "map_of (map (\<lambda>(k', v'). (k', if k' = k then v else v')) xs) = (\<lambda>x. if x = k \<and> x \<in> fst ` set xs then Some v else map_of xs x)" for xs
    by (induction xs) (auto simp: fun_eq_iff)
  with True show ?thesis by (auto simp: set_setting_def fun_eq_iff)
next
  case False
  then have "map_of settings k = None" by (simp add: map_of_eq_None_iff)
  with False show ?thesis by (auto simp: set_setting_def map_add_def fun_eq_iff split: option.splits)
qed

definition mc_quiet :: "event \<Rightarrow> bool" where
  "mc_quiet ev = (case ev of Opened _ _ \<Rightarrow> True | Waited _ _ \<Rightarrow> True | MCGet n _ \<Rightarrow> n = ''global'' | _ \<Rightarrow> False)"

text \<open>
  The one object written is \<^verbatim>\<open>global\<close>: it is created with nothing but the class, or replaced by what an earlier read showed, with the class, on top of
  the version that the last call read.
\<close>

definition class_write_ok :: "string \<Rightarrow> event list \<Rightarrow> event \<Rightarrow> bool" where
  "class_write_ok name before ev = (case ev of
     MCCreate obj r \<Rightarrow> obj = \<lparr>mco_name = ''global'', mco_resourceVersion = [],
       mco_spec = \<lparr>mcs_version = 1, mcs_enabled = Some True, mcs_settings = [(''storageClass'', JStr name)]\<rparr>\<rparr>
   | MCUpdate obj r \<Rightarrow> \<exists>mc mc' a. MCGet ''global'' (Inr mc) \<in> set a \<and> before = a @ [MCGet ''global'' (Inr mc')] \<and>
       mco_name obj = mco_name mc' \<and> mco_resourceVersion obj = mco_resourceVersion mc' \<and>
       mcs_version (mco_spec obj) = mcs_version (mco_spec mc) \<and>
       mcs_enabled (mco_spec obj) = Some (mcs_enabled (mco_spec mc) \<noteq> Some False) \<and>
       map_of (mcs_settings (mco_spec obj)) = (map_of (mcs_settings (mco_spec mc)))(''storageClass'' \<mapsto> JStr name)
   | _ \<Rightarrow> mc_quiet ev)"

lemma class_write_quiet: "mc_quiet ev \<Longrightarrow> class_write_ok name u ev"
  by (auto simp: class_write_ok_def mc_quiet_def split: event.splits)

lemma class_write_update:
  assumes "\<exists>a. MCGet ''global'' (Inr mc) \<in> set a \<and> u = a @ [MCGet ''global'' (Inr mc')]"
  shows "class_write_ok name u (MCUpdate (mc'\<lparr>mco_spec := default_class_spec (mco_spec mc) name\<rparr>) r)"
proof -
  from assms obtain a where a: "MCGet ''global'' (Inr mc) \<in> set a" "u = a @ [MCGet ''global'' (Inr mc')]" by blast
  show ?thesis unfolding class_write_ok_def event.case
    by (rule exI [of _ mc], rule exI [of _ mc'], rule exI [of _ a]) (simp add: a set_setting_map default_class_spec_def split: option.splits)
qed

lemma deckhouse_client_writes_nothing: "only_calls (\<lambda>ev. mc_quiet ev) (deckhouse_NewClient rt api c)"
  unfolding deckhouse_NewClient_def by (intro calls_intros only_calls_case_prod) (simp_all add: mc_quiet_def)

definition class_stored :: "event list \<Rightarrow> bool" where
  "class_stored u \<longleftrightarrow> (\<exists>obj. MCCreate obj None \<in> set u \<or> MCUpdate obj None \<in> set u)"

lemma class_stored_write: "class_stored (u @ [MCCreate obj None])" "class_stored (u @ [MCUpdate obj None])"
  by (auto simp: class_stored_def)

abbreviation class_history :: "string \<Rightarrow> (event list \<Rightarrow> bool) \<Rightarrow> event list \<Rightarrow> event list \<Rightarrow> bool" where
  "class_history name P t0 \<equiv> since t0 (\<lambda>u. history (class_write_ok name) u \<and> P u)"

lemma class_client:
  assumes "\<And>u ev. P u \<Longrightarrow> P (u @ [ev])"
  shows "triple (class_history name P t0) (deckhouse_NewClient rt api c) (\<lambda>_. class_history name P t0)"
  by (rule triple_keeps [OF deckhouse_client_writes_nothing]) (auto elim!: since_step intro: class_write_quiet assms)

text \<open>
  C40. \<^verbatim>\<open>SetGlobalDefaultStorageClass\<close> writes nothing but the module configuration \<^verbatim>\<open>global\<close>. It creates it with the class as its only setting, or it
  updates it: with the version and all other settings as the first read showed them, enabled unless that read showed it disabled, and the class set. When it returns
  nil, such a write was accepted. The update is on top of the object that a second read showed, so a setting that changed between the two reads
  is put back.
\<close>

theorem default_class_written:
  assumes "SetGlobalDefaultStorageClass rt api c name w = Some (e, w')"
  shows "\<exists>u. tr w' = tr w @ u \<and> history (class_write_ok name) u \<and> (e = None \<longrightarrow> class_stored u)"
proof -
  let ?dh = "ka_deckhouse (ha_kube (sa_helper api))"
  let ?H = "\<lambda>P. class_history name P (tr w)"
  let ?read = "\<lambda>mc u. MCGet ''global'' (Inr mc) \<in> set u"
  let ?post = "\<lambda>e. ?H (\<lambda>u. e = None \<longrightarrow> class_stored u)"
  have get: "triple (?H (\<lambda>_. True)) (GetModuleConfig rt ?dh c ''global'')
      (\<lambda>g. case g of Inl _ \<Rightarrow> ?H (\<lambda>_. True) | Inr mc \<Rightarrow> ?H (?read mc))"
    unfolding GetModuleConfig_def with_client_def
    apply (rule triple_bind [OF class_client], simp, intro triple_intros triple_ret)
     apply (rule triple_bind [where R = "\<lambda>g. ?H (\<lambda>u. \<forall>mc. g = Inr mc \<longrightarrow> ?read mc u)"], rule triple_call)
      apply (erule since_step, simp add: class_write_quiet mc_quiet_def)
     apply (rule triple_ret, auto simp: wrap_left_def elim!: since_imp split: sum.splits)
    done
  have create: "triple (?H (\<lambda>_. True)) (CreateModuleConfig rt ?dh c ''global'' \<lparr>mcs_version = 1, mcs_enabled = Some True, mcs_settings = [(''storageClass'', JStr name)]\<rparr>) ?post"
    unfolding CreateModuleConfig_def with_client_def Let_def
    apply (rule triple_bind [OF class_client], simp, intro triple_intros triple_ret)
     apply (rule triple_bind [where R = ?post], rule triple_call, erule since_step)
      apply (simp add: class_write_ok_def class_stored_write)
     apply (rule triple_ret, auto elim!: since_imp)
    done
  have update: "triple (?H (?read mc)) (UpdateModuleConfig rt ?dh c ''global'' (default_class_spec (mco_spec mc) name)) ?post" for mc
    unfolding UpdateModuleConfig_def with_client_def Let_def
    apply (rule triple_bind [OF class_client], simp, intro triple_intros triple_ret)
     apply (rule triple_bind [where R = "\<lambda>g. ?H (\<lambda>u. \<exists>a. ?read mc a \<and> u = a @ [MCGet ''global'' g])"], rule triple_call, erule since_step)
      apply (simp add: class_write_quiet mc_quiet_def)
     apply (intro triple_intros triple_ret, erule since_imp, simp)
     apply (rule triple_bind [where R = ?post], rule triple_call, erule since_step)
      apply (simp add: class_write_update class_stored_write)
     apply (rule triple_ret, auto elim!: since_imp)
    done
  have "triple (?H (\<lambda>_. True)) (SetGlobalDefaultStorageClass rt api c name) ?post"
    unfolding SetGlobalDefaultStorageClass_def Let_def
    apply (rule triple_bind [OF get], rule triple_sum)
     apply (rule triple_if, rule triple_pre [OF create], simp, rule triple_ret, simp)
    apply (rule triple_pre [OF update], simp)
    done
  from tripleD [OF this assms] show ?thesis by (auto simp: since_def)
qed

section \<open>A setting that changes in between\<close>

text \<open>
  The first read shows the log level 1; another writer has set it to 2 when the second read is made. The update sets it back to 1. The outside counts the
  reads.
\<close>

definition leveled :: "string \<Rightarrow> mc_object" where
  "leveled v = \<lparr>mco_name = ''global'', mco_resourceVersion = v, mco_spec = \<lparr>mcs_version = 1, mcs_enabled = None, mcs_settings = [(''level'', JStr v)]\<rparr>\<rparr>"

definition race_api :: "nat storage_api" where
  "race_api = \<lparr>sa_helper = (small_helper [])\<lparr>ha_kube := healing_kube\<lparr>ka_deckhouse := no_deckhouse\<lparr>
       da_getMC := (\<lambda>c n s. (Inr (leveled (if s = 0 then ''1'' else ''2'')), s + 1)), da_updateMC := (\<lambda>c obj s. (None, s))\<rparr>\<rparr>\<rparr>,
     sa_getSC = (\<lambda>c n s. (Inl gone_status, s)), sa_listSC = (\<lambda>c s. (Inr [], s)), sa_createSC = (\<lambda>c sc s. (None, s))\<rparr>"

abbreviation race_update :: event where
  "race_update \<equiv> MCUpdate ((leveled ''2'')\<lparr>mco_spec := \<lparr>mcs_version = 1, mcs_enabled = Some True,
     mcs_settings = [(''level'', JStr ''1''), (''storageClass'', JStr ''fast'')]\<rparr>\<rparr>) None"

lemma race_client:
  "\<exists>u. deckhouse_NewClient sample_rt (ka_deckhouse (ha_kube (sa_helper race_api))) c \<lparr>tr = t, est = s\<rparr> = Some (None, \<lparr>tr = t @ u, est = s\<rparr>)"
proof -
  have "yields s (deckhouse_NewClient sample_rt (ka_deckhouse (ha_kube (sa_helper race_api))) c) None s"
    unfolding deckhouse_NewClient_def
    by (rule yields_bind, rule yields_Do [where x = "()"]) (auto simp: yields_def io_simps race_api_def no_deckhouse_def DefaultConfig_def)
  then show ?thesis unfolding yields_def by blast
qed

lemma race_run:
  "\<exists>u. SetGlobalDefaultStorageClass sample_rt race_api CtxRoot ''fast'' \<lparr>tr = [], est = 0\<rparr> = Some (None, \<lparr>tr = u @ [race_update], est = 2\<rparr>)"
proof -
  let ?dh = "ka_deckhouse (ha_kube (sa_helper race_api))"
  obtain u1 where u1: "deckhouse_NewClient sample_rt ?dh CtxRoot \<lparr>tr = [], est = 0\<rparr> = Some (None, \<lparr>tr = u1, est = 0\<rparr>)"
    using race_client [of CtxRoot "[]" 0] by auto
  let ?t1 = "u1 @ [MCGet ''global'' (Inr (leveled ''1''))]"
  obtain u2 where u2: "deckhouse_NewClient sample_rt ?dh CtxRoot \<lparr>tr = ?t1, est = Suc 0\<rparr> = Some (None, \<lparr>tr = ?t1 @ u2, est = Suc 0\<rparr>)"
    using race_client [of CtxRoot ?t1 "Suc 0"] by auto
  have api: "da_getMC ?dh c n s = (Inr (leveled (if s = 0 then ''1'' else ''2'')), s + 1)" "da_updateMC ?dh c obj s = (None, s)" for c n s obj
    by (simp_all add: race_api_def)
  have settings: "default_class_spec (mco_spec (leveled ''1'')) ''fast'' = \<lparr>mcs_version = 1, mcs_enabled = Some True,
      mcs_settings = [(''level'', JStr ''1''), (''storageClass'', JStr ''fast'')]\<rparr>"
    by (simp add: default_class_spec_def set_setting_def leveled_def)
  show ?thesis
    by (simp add: SetGlobalDefaultStorageClass_def GetModuleConfig_def UpdateModuleConfig_def with_client_def wrap_left_def Let_def
        io_simps u1 u2 [simplified] api settings numeral_2_eq_2)
qed

theorem default_class_written_witness:
  "\<exists>u. SetGlobalDefaultStorageClass sample_rt race_api CtxRoot ''fast'' \<lparr>tr = [], est = 0\<rparr> = Some (None, \<lparr>tr = u @ [race_update], est = 2\<rparr>) \<and>
     history (class_write_ok ''fast'') (u @ [race_update])"
  using race_run default_class_written by fastforce

end
