(* ===== verification/Environment.thy ===== *)
theory Environment
  imports Prelude
begin

text \<open>
  The settings of a test suite, \<^verbatim>\<open>internal/config/env.go\<close>: package variables that are read from the process environment when the
  program starts, and \<^verbatim>\<open>ValidateEnvironment\<close>, which fills in defaults and refuses what a suite cannot run with. The package variables are a
  store from the variables to their text. The theorems say exactly which environments are accepted and what the settings are
  afterwards.
\<close>

section \<open>The package variables\<close>

definition ClusterCreateModeAlwaysUseExisting :: string where "ClusterCreateModeAlwaysUseExisting = ''alwaysUseExisting''"
definition ClusterCreateModeAlwaysCreateNew :: string where "ClusterCreateModeAlwaysCreateNew = ''alwaysCreateNew''"
definition ClusterCreateModeCommander :: string where "ClusterCreateModeCommander = ''commander''"
definition ImagePullPolicyAlways :: string where "ImagePullPolicyAlways = ''Always''"
definition ImagePullPolicyIfNotExists :: string where "ImagePullPolicyIfNotExists = ''IfNotExists''"
definition LogLevelDebug :: string where "LogLevelDebug = ''debug''"
definition LogLevelInfo :: string where "LogLevelInfo = ''info''"
definition LogLevelWarn :: string where "LogLevelWarn = ''warn''"
definition LogLevelError :: string where "LogLevelError = ''error''"

lemmas setting_value_defs = ClusterCreateModeAlwaysUseExisting_def ClusterCreateModeAlwaysCreateNew_def ClusterCreateModeCommander_def
  ImagePullPolicyAlways_def ImagePullPolicyIfNotExists_def LogLevelDebug_def LogLevelInfo_def LogLevelWarn_def LogLevelError_def

datatype setting =
    YAMLConfigFilename
  | SSHPassphrase | SSHUser | SSHPrivateKey | SSHPublicKey | SSHHost
  | SSHJumpHost | SSHJumpUser | SSHJumpKeyPath
  | VMSSHUser | VMSSHPassword
  | KubeConfigPath
  | TestClusterCreateMode | TestClusterCleanup | TestClusterNamespace | TestClusterResume | TestClusterStorageClass
  | TestClusterVirtualMachineClassName
  | DKPLicenseKey | RegistryDockerCfg | ImagePullPolicy
  | LogLevel | LogFilePath
  | CommanderURL | CommanderToken | CommanderClusterName | CommanderTemplateName | CommanderTemplateVersion
  | CommanderRegistryName | CommanderCreateIfNotExists | CommanderWaitTimeout | CommanderInsecureSkipTLSVerify
  | CommanderCACert | CommanderAuthMethod | CommanderAuthUser | CommanderAPIPrefix | CommanderInputValues
  | StressTestPVCSize | StressTestPodsCount | StressTestPVCSizeAfterResize | StressTestPVCSizeAfterResizeStage2
  | StressTestSnapshotsPerPVC | StressTestMaxAttempts | StressTestInterval | StressTestCleanup
  | LogTimetampsEnabled

type_synonym settings = "setting \<Rightarrow> string"

primrec env_key :: "setting \<Rightarrow> string" where
  "env_key YAMLConfigFilename = ''YAML_CONFIG_FILENAME''"
| "env_key SSHPassphrase = ''SSH_PASSPHRASE''"
| "env_key SSHUser = ''SSH_USER''"
| "env_key SSHPrivateKey = ''SSH_PRIVATE_KEY''"
| "env_key SSHPublicKey = ''SSH_PUBLIC_KEY''"
| "env_key SSHHost = ''SSH_HOST''"
| "env_key SSHJumpHost = ''SSH_JUMP_HOST''"
| "env_key SSHJumpUser = ''SSH_JUMP_USER''"
| "env_key SSHJumpKeyPath = ''SSH_JUMP_KEY_PATH''"
| "env_key VMSSHUser = ''SSH_VM_USER''"
| "env_key VMSSHPassword = ''SSH_VM_PASSWORD''"
| "env_key KubeConfigPath = ''KUBE_CONFIG_PATH''"
| "env_key TestClusterCreateMode = ''TEST_CLUSTER_CREATE_MODE''"
| "env_key TestClusterCleanup = ''TEST_CLUSTER_CLEANUP''"
| "env_key TestClusterNamespace = ''TEST_CLUSTER_NAMESPACE''"
| "env_key TestClusterResume = ''TEST_CLUSTER_RESUME''"
| "env_key TestClusterStorageClass = ''TEST_CLUSTER_STORAGE_CLASS''"
| "env_key TestClusterVirtualMachineClassName = ''TEST_CLUSTER_VIRTUAL_MACHINE_CLASS_NAME''"
| "env_key DKPLicenseKey = ''DKP_LICENSE_KEY''"
| "env_key RegistryDockerCfg = ''REGISTRY_DOCKER_CFG''"
| "env_key ImagePullPolicy = ''IMAGE_PULL_POLICY''"
| "env_key LogLevel = ''LOG_LEVEL''"
| "env_key LogFilePath = ''LOG_FILE_PATH''"
| "env_key CommanderURL = ''COMMANDER_URL''"
| "env_key CommanderToken = ''COMMANDER_TOKEN''"
| "env_key CommanderClusterName = ''COMMANDER_CLUSTER_NAME''"
| "env_key CommanderTemplateName = ''COMMANDER_TEMPLATE_NAME''"
| "env_key CommanderTemplateVersion = ''COMMANDER_TEMPLATE_VERSION''"
| "env_key CommanderRegistryName = ''COMMANDER_REGISTRY_NAME''"
| "env_key CommanderCreateIfNotExists = ''COMMANDER_CREATE_IF_NOT_EXISTS''"
| "env_key CommanderWaitTimeout = ''COMMANDER_WAIT_TIMEOUT''"
| "env_key CommanderInsecureSkipTLSVerify = ''COMMANDER_INSECURE_SKIP_TLS_VERIFY''"
| "env_key CommanderCACert = ''COMMANDER_CA_CERT''"
| "env_key CommanderAuthMethod = ''COMMANDER_AUTH_METHOD''"
| "env_key CommanderAuthUser = ''COMMANDER_AUTH_USER''"
| "env_key CommanderAPIPrefix = ''COMMANDER_API_PREFIX''"
| "env_key CommanderInputValues = ''COMMANDER_VALUES''"
| "env_key StressTestPVCSize = ''STRESS_TEST_PVC_SIZE''"
| "env_key StressTestPodsCount = ''STRESS_TEST_PODS_COUNT''"
| "env_key StressTestPVCSizeAfterResize = ''STRESS_TEST_PVC_SIZE_AFTER_RESIZE''"
| "env_key StressTestPVCSizeAfterResizeStage2 = ''STRESS_TEST_PVC_SIZE_AFTER_RESIZE_STAGE2''"
| "env_key StressTestSnapshotsPerPVC = ''STRESS_TEST_SNAPSHOTS_PER_PVC''"
| "env_key StressTestMaxAttempts = ''STRESS_TEST_MAX_ATTEMPTS''"
| "env_key StressTestInterval = ''STRESS_TEST_INTERVAL''"
| "env_key StressTestCleanup = ''STRESS_TEST_CLEANUP''"
| "env_key LogTimetampsEnabled = ''LOG_TIMESTAMPS_ENABLED''"

text \<open>The variables \<^verbatim>\<open><name>DefaultValue\<close>; a setting that has none is left empty.\<close>

definition DefaultValue :: "setting \<Rightarrow> string" where
  "DefaultValue s = (case s of
       YAMLConfigFilename \<Rightarrow> ''cluster_config.yml''
     | SSHPrivateKey \<Rightarrow> ''~/.ssh/id_rsa''
     | SSHPublicKey \<Rightarrow> ''~/.ssh/id_rsa.pub''
     | VMSSHUser \<Rightarrow> ''cloud''
     | TestClusterCleanup \<Rightarrow> ''false''
     | TestClusterNamespace \<Rightarrow> ''e2e-test-cluster''
     | TestClusterVirtualMachineClassName \<Rightarrow> ''generic''
     | ImagePullPolicy \<Rightarrow> ImagePullPolicyIfNotExists
     | LogLevel \<Rightarrow> LogLevelDebug
     | CommanderClusterName \<Rightarrow> ''e2e-test-cluster''
     | CommanderCreateIfNotExists \<Rightarrow> ''false''
     | CommanderWaitTimeout \<Rightarrow> ''30m''
     | CommanderInsecureSkipTLSVerify \<Rightarrow> ''false''
     | CommanderAuthMethod \<Rightarrow> ''x-auth-token''
     | CommanderAPIPrefix \<Rightarrow> ''/api/v1''
     | StressTestPVCSize \<Rightarrow> ''100Mi''
     | StressTestPodsCount \<Rightarrow> ''100''
     | StressTestPVCSizeAfterResize \<Rightarrow> ''200Mi''
     | StressTestPVCSizeAfterResizeStage2 \<Rightarrow> ''300Mi''
     | StressTestSnapshotsPerPVC \<Rightarrow> ''2''
     | StressTestMaxAttempts \<Rightarrow> ''360''
     | StressTestInterval \<Rightarrow> ''5''
     | StressTestCleanup \<Rightarrow> ''true''
     | LogTimetampsEnabled \<Rightarrow> ''true''
     | _ \<Rightarrow> [])"

text \<open>The initial values, \<^verbatim>\<open>os.Getenv\<close> of each: an unset variable reads as the empty text.\<close>

definition initial_settings :: "(string \<rightharpoonup> string) \<Rightarrow> settings" where
  "initial_settings environ s = (case environ (env_key s) of None \<Rightarrow> [] | Some v \<Rightarrow> v)"

definition EffectiveVirtualMachineClassName :: "settings \<Rightarrow> string" where
  "EffectiveVirtualMachineClassName e =
     (let n = trimSpace (e TestClusterVirtualMachineClassName) in
      if n = [] then DefaultValue TestClusterVirtualMachineClassName else n)"

section \<open>ValidateEnvironment\<close>

text \<open>
  A statement of the function takes the store and returns it with the error it returns, if it returns one. The statements before an
  error have taken effect.
\<close>

type_synonym stmt = "settings \<Rightarrow> settings \<times> goerr option"

primrec stmts :: "stmt list \<Rightarrow> stmt" where
  "stmts [] e = (e, None)"
| "stmts (f # fs) e = (case f e of (e', None) \<Rightarrow> stmts fs e' | (e', Some err) \<Rightarrow> (e', Some err))"

definition default_if_empty :: "setting \<Rightarrow> stmt" where
  "default_if_empty s e = ((if e s = [] then e(s := DefaultValue s) else e), None)"

definition fail_if :: "(settings \<Rightarrow> bool) \<Rightarrow> (settings \<Rightarrow> string) \<Rightarrow> stmt" where
  "fail_if bad msg e = (e, if bad e then Some (ErrText (msg e)) else None)"

definition fail_if_unset :: "setting \<Rightarrow> stmt" where
  "fail_if_unset s = fail_if (\<lambda>e. e s = []) (\<lambda>e. env_key s @ '' environment variable is required but not set'')"

definition quoted :: "string \<Rightarrow> string" where
  "quoted s = squote # s @ [squote]"

definition default_cleanup :: stmt where
  "default_cleanup e = ((if e TestClusterCleanup = [] \<or> e TestClusterCleanup \<noteq> ''true'' \<and> e TestClusterCleanup \<noteq> ''True''
     then e(TestClusterCleanup := DefaultValue TestClusterCleanup) else e), None)"

text \<open>\<open>isDNS\<close> is \<^verbatim>\<open>validation.IsDNS1123Subdomain\<close> of apimachinery: the problems of a name.\<close>

definition class_name_stmts :: "(string \<Rightarrow> string list) \<Rightarrow> stmt list" where
  "class_name_stmts isDNS =
    [\<lambda>e. (e(TestClusterVirtualMachineClassName := trimSpace (e TestClusterVirtualMachineClassName)), None),
     default_if_empty TestClusterVirtualMachineClassName,
     fail_if (\<lambda>e. e TestClusterVirtualMachineClassName \<noteq> DefaultValue TestClusterVirtualMachineClassName
           \<and> isDNS (e TestClusterVirtualMachineClassName) \<noteq> [])
       (\<lambda>e. ''TEST_CLUSTER_VIRTUAL_MACHINE_CLASS_NAME '' @ go_quote (e TestClusterVirtualMachineClassName)
           @ '' is not a valid Kubernetes DNS-1123 subdomain name: '' @ go_list (isDNS (e TestClusterVirtualMachineClassName)))]"

definition mode_stmts :: "stmt list" where
  "mode_stmts =
    [fail_if (\<lambda>e. e TestClusterCreateMode = [])
       (\<lambda>e. ''TEST_CLUSTER_CREATE_MODE environment variable is required but not set; please set it to ''
           @ quoted ClusterCreateModeAlwaysUseExisting @ '', '' @ quoted ClusterCreateModeAlwaysCreateNew @ '', or ''
           @ quoted ClusterCreateModeCommander),
     fail_if (\<lambda>e. e TestClusterCreateMode \<noteq> ClusterCreateModeAlwaysUseExisting
           \<and> e TestClusterCreateMode \<noteq> ClusterCreateModeAlwaysCreateNew \<and> e TestClusterCreateMode \<noteq> ClusterCreateModeCommander)
       (\<lambda>e. ''TEST_CLUSTER_CREATE_MODE has invalid value '' @ quoted (e TestClusterCreateMode) @ ''; must be ''
           @ quoted ClusterCreateModeAlwaysUseExisting @ '', '' @ quoted ClusterCreateModeAlwaysCreateNew @ '', or ''
           @ quoted ClusterCreateModeCommander)]"

definition required_for_commander :: "setting \<Rightarrow> stmt" where
  "required_for_commander s = fail_if (\<lambda>e. e s = [])
     (\<lambda>e. env_key s @ '' environment variable is required when TEST_CLUSTER_CREATE_MODE is '' @ quoted ClusterCreateModeCommander)"

definition commander_stmts :: "stmt list" where
  "commander_stmts =
    [required_for_commander CommanderURL,
     required_for_commander CommanderToken,
     default_if_empty CommanderClusterName,
     default_if_empty CommanderCreateIfNotExists,
     default_if_empty CommanderWaitTimeout,
     fail_if (\<lambda>e. e CommanderCreateIfNotExists = ''true'' \<and> e CommanderTemplateName = [])
       (\<lambda>e. ''COMMANDER_TEMPLATE_NAME environment variable is required when COMMANDER_CREATE_IF_NOT_EXISTS is '' @ quoted ''true'')]"

definition when_commander :: stmt where
  "when_commander e = (if e TestClusterCreateMode = ClusterCreateModeCommander then stmts commander_stmts e else (e, None))"

definition pull_policy_stmts :: "stmt list" where
  "pull_policy_stmts =
    [default_if_empty ImagePullPolicy,
     fail_if (\<lambda>e. e ImagePullPolicy \<noteq> ImagePullPolicyAlways \<and> e ImagePullPolicy \<noteq> ImagePullPolicyIfNotExists)
       (\<lambda>e. ''IMAGE_PULL_POLICY has invalid value '' @ quoted (e ImagePullPolicy) @ ''; must be either ''
           @ quoted ImagePullPolicyAlways @ '' or '' @ quoted ImagePullPolicyIfNotExists)]"

definition log_stmts :: "stmt list" where
  "log_stmts =
    [default_if_empty LogLevel,
     fail_if (\<lambda>e. e LogLevel \<noteq> LogLevelDebug \<and> e LogLevel \<noteq> LogLevelInfo \<and> e LogLevel \<noteq> LogLevelWarn \<and> e LogLevel \<noteq> LogLevelError)
       (\<lambda>e. ''LOG_LEVEL has invalid value '' @ quoted (e LogLevel) @ ''; must be either '' @ quoted LogLevelDebug @ '' or ''
           @ quoted LogLevelInfo @ '' or '' @ quoted LogLevelWarn @ '' or '' @ quoted LogLevelError),
     default_if_empty LogTimetampsEnabled,
     fail_if (\<lambda>e. e LogTimetampsEnabled \<noteq> ''true'' \<and> e LogTimetampsEnabled \<noteq> ''false'')
       (\<lambda>e. ''LOG_TIMESTAMPS_ENABLED has invalid value '' @ quoted (e LogTimetampsEnabled) @ ''; must be either ''
           @ quoted ''true'' @ '' or '' @ quoted ''false'')]"

definition ValidateEnvironment :: "(string \<Rightarrow> string list) \<Rightarrow> stmt" where
  "ValidateEnvironment isDNS = stmts
    ([default_if_empty YAMLConfigFilename,
      default_cleanup,
      default_if_empty SSHPrivateKey,
      default_if_empty VMSSHUser,
      default_if_empty SSHPublicKey,
      default_if_empty TestClusterNamespace]
     @ class_name_stmts isDNS
     @ [fail_if_unset SSHUser,
      fail_if_unset SSHHost,
      fail_if_unset TestClusterStorageClass,
      fail_if_unset DKPLicenseKey,
      fail_if_unset RegistryDockerCfg]
     @ pull_policy_stmts
     @ mode_stmts
     @ [when_commander]
     @ log_stmts)"

section \<open>Which environments are accepted\<close>

text \<open>A reference that does not mention the order of the statements.\<close>

definition requiredSettings :: "setting list" where
  "requiredSettings = [SSHUser, SSHHost, TestClusterStorageClass, DKPLicenseKey, RegistryDockerCfg]"

definition commander_ready :: "settings \<Rightarrow> bool" where
  "commander_ready e \<longleftrightarrow> e CommanderURL \<noteq> [] \<and> e CommanderToken \<noteq> []
     \<and> (e CommanderCreateIfNotExists = ''true'' \<longrightarrow> e CommanderTemplateName \<noteq> [])"

definition class_name_ok :: "(string \<Rightarrow> string list) \<Rightarrow> settings \<Rightarrow> bool" where
  "class_name_ok isDNS e \<longleftrightarrow>
     EffectiveVirtualMachineClassName e = ''generic'' \<or> isDNS (EffectiveVirtualMachineClassName e) = []"

definition acceptable :: "(string \<Rightarrow> string list) \<Rightarrow> settings \<Rightarrow> bool" where
  "acceptable isDNS e \<longleftrightarrow>
     class_name_ok isDNS e \<and> list_all (\<lambda>s. e s \<noteq> []) requiredSettings
     \<and> e ImagePullPolicy \<in> {[], ''Always'', ''IfNotExists''}
     \<and> e TestClusterCreateMode \<in> {''alwaysUseExisting'', ''alwaysCreateNew'', ''commander''}
     \<and> (e TestClusterCreateMode = ''commander'' \<longrightarrow> commander_ready e)
     \<and> e LogLevel \<in> {[], ''debug'', ''info'', ''warn'', ''error''}
     \<and> e LogTimetampsEnabled \<in> {[], ''true'', ''false''}"

definition always_defaulted :: "setting list" where
  "always_defaulted = [YAMLConfigFilename, SSHPrivateKey, VMSSHUser, SSHPublicKey, TestClusterNamespace, ImagePullPolicy, LogLevel,
     LogTimetampsEnabled]"

definition commander_defaulted :: "setting list" where
  "commander_defaulted = [CommanderClusterName, CommanderCreateIfNotExists, CommanderWaitTimeout]"

definition completed :: "settings \<Rightarrow> settings" where
  "completed e s =
     (if s = TestClusterCleanup then (if e s = ''true'' \<or> e s = ''True'' then e s else ''false'')
      else if s = TestClusterVirtualMachineClassName then EffectiveVirtualMachineClassName e
      else if e s = [] \<and> (s \<in> set always_defaulted
             \<or> e TestClusterCreateMode = ''commander'' \<and> s \<in> set commander_defaulted) then DefaultValue s
      else e s)"

definition passes :: "stmt list \<Rightarrow> settings \<Rightarrow> bool" where
  "passes fs e \<longleftrightarrow> snd (stmts fs e) = None"

lemma stmts_append:
  "stmts (fs @ gs) e = (case stmts fs e of (e', None) \<Rightarrow> stmts gs e' | (e', Some err) \<Rightarrow> (e', Some err))"
  by (induction fs arbitrary: e) (auto split: prod.splits option.splits)

definition or_default :: "setting \<Rightarrow> string \<Rightarrow> string" where
  "or_default s v = (if v = [] then DefaultValue s else v)"

lemma stmts_steps:
  "stmts (default_if_empty s # fs) e = stmts fs (e(s := or_default s (e s)))"
  "stmts (fail_if bad msg # fs) e = (if bad e then (e, Some (ErrText (msg e))) else stmts fs e)"
  "stmts (fail_if_unset s # fs) e = stmts (fail_if (\<lambda>e. e s = [])
     (\<lambda>e. env_key s @ '' environment variable is required but not set'') # fs) e"
  "stmts (required_for_commander s # fs) e = stmts (fail_if (\<lambda>e. e s = []) (\<lambda>e. env_key s
     @ '' environment variable is required when TEST_CLUSTER_CREATE_MODE is '' @ quoted ClusterCreateModeCommander) # fs) e"
  "stmts (default_cleanup # fs) e = stmts fs (e(TestClusterCleanup :=
     (if e TestClusterCleanup = ''true'' \<or> e TestClusterCleanup = ''True'' then e TestClusterCleanup else ''false'')))"
  "stmts ((\<lambda>e. (upd e, None)) # fs) e = stmts fs (upd e)"
  by (simp_all add: default_if_empty_def fail_if_def fail_if_unset_def required_for_commander_def default_cleanup_def or_default_def
      DefaultValue_def fun_upd_idem split: prod.splits)

lemma passes_steps:
  "passes [] e"
  "passes (default_if_empty s # fs) e = passes fs (e(s := or_default s (e s)))"
  "passes (fail_if bad msg # fs) e \<longleftrightarrow> \<not> bad e \<and> passes fs e"
  "passes (fail_if_unset s # fs) e \<longleftrightarrow> e s \<noteq> [] \<and> passes fs e"
  "passes (required_for_commander s # fs) e \<longleftrightarrow> e s \<noteq> [] \<and> passes fs e"
  "passes (default_cleanup # fs) e = passes fs (e(TestClusterCleanup :=
     (if e TestClusterCleanup = ''true'' \<or> e TestClusterCleanup = ''True'' then e TestClusterCleanup else ''false'')))"
  "passes ((\<lambda>e. (upd e, None)) # fs) e = passes fs (upd e)"
  by (simp_all add: passes_def stmts_steps del: stmts.simps(2))

lemma stmts_when_commander:
  "stmts (when_commander # fs) e =
     (if e TestClusterCreateMode = ''commander'' then stmts (commander_stmts @ fs) e else stmts fs e)"
  by (simp add: when_commander_def stmts_append setting_value_defs)

lemma passes_when_commander:
  "passes (when_commander # fs) e \<longleftrightarrow>
     (if e TestClusterCreateMode = ''commander'' then passes (commander_stmts @ fs) e else passes fs e)"
  by (simp add: passes_def stmts_when_commander del: stmts.simps(2))

lemma or_default_in:
  "or_default ImagePullPolicy v \<noteq> ''Always'' \<and> or_default ImagePullPolicy v \<noteq> ''IfNotExists'' \<longleftrightarrow>
     v \<notin> {[], ''Always'', ''IfNotExists''}"
  "or_default LogLevel v \<noteq> ''debug'' \<and> or_default LogLevel v \<noteq> ''info'' \<and> or_default LogLevel v \<noteq> ''warn'' \<and> or_default LogLevel v \<noteq> ''error''
     \<longleftrightarrow> v \<notin> {[], ''debug'', ''info'', ''warn'', ''error''}"
  "or_default LogTimetampsEnabled v \<noteq> ''true'' \<and> or_default LogTimetampsEnabled v \<noteq> ''false'' \<longleftrightarrow> v \<notin> {[], ''true'', ''false''}"
  "or_default CommanderCreateIfNotExists v = ''true'' \<longleftrightarrow> v = ''true''"
  "or_default TestClusterVirtualMachineClassName (trimSpace (e TestClusterVirtualMachineClassName)) = EffectiveVirtualMachineClassName e"
  "DefaultValue TestClusterVirtualMachineClassName = ''generic''"
  by (auto simp: or_default_def DefaultValue_def setting_value_defs EffectiveVirtualMachineClassName_def Let_def)

lemma passes_log:
  "passes log_stmts e \<longleftrightarrow> e LogLevel \<in> {[], ''debug'', ''info'', ''warn'', ''error''} \<and> e LogTimetampsEnabled \<in> {[], ''true'', ''false''}"
  unfolding log_stmts_def passes_steps setting_value_defs
  by (simp only: passes_steps(1) or_default_in fun_upd_apply setting.distinct if_True if_False simp_thms)

text \<open>Each block of statements: what it requires, and the store it leaves to the rest.\<close>

definition with_class_name :: "settings \<Rightarrow> settings" where
  "with_class_name e = e(TestClusterVirtualMachineClassName := EffectiveVirtualMachineClassName e)"

definition with_commander_defaults :: "settings \<Rightarrow> settings" where
  "with_commander_defaults e = e(CommanderClusterName := or_default CommanderClusterName (e CommanderClusterName),
     CommanderCreateIfNotExists := or_default CommanderCreateIfNotExists (e CommanderCreateIfNotExists),
     CommanderWaitTimeout := or_default CommanderWaitTimeout (e CommanderWaitTimeout))"

lemma class_name_block:
  "passes (class_name_stmts isDNS @ fs) e \<longleftrightarrow> class_name_ok isDNS e \<and> passes fs (with_class_name e)"
  "class_name_ok isDNS e \<Longrightarrow> stmts (class_name_stmts isDNS @ fs) e = stmts fs (with_class_name e)"
  unfolding class_name_stmts_def append_Cons append_Nil passes_steps stmts_steps
  by (auto simp: or_default_in class_name_ok_def with_class_name_def)

lemma required_block:
  "passes (map fail_if_unset ss @ fs) e \<longleftrightarrow> list_all (\<lambda>s. e s \<noteq> []) ss \<and> passes fs e"
  "list_all (\<lambda>s. e s \<noteq> []) ss \<Longrightarrow> stmts (map fail_if_unset ss @ fs) e = stmts fs e"
  by (induction ss) (auto simp: passes_steps stmts_steps simp del: stmts.simps(2))

lemma pull_policy_block:
  "passes (pull_policy_stmts @ fs) e \<longleftrightarrow> e ImagePullPolicy \<in> {[], ''Always'', ''IfNotExists''}
     \<and> passes fs (e(ImagePullPolicy := or_default ImagePullPolicy (e ImagePullPolicy)))"
  "e ImagePullPolicy \<in> {[], ''Always'', ''IfNotExists''} \<Longrightarrow>
     stmts (pull_policy_stmts @ fs) e = stmts fs (e(ImagePullPolicy := or_default ImagePullPolicy (e ImagePullPolicy)))"
  unfolding pull_policy_stmts_def append_Cons append_Nil passes_steps stmts_steps setting_value_defs
  by (simp_all only: or_default_in fun_upd_same simp_thms if_False)

lemma mode_block:
  "passes (mode_stmts @ fs) e \<longleftrightarrow> e TestClusterCreateMode \<in> {''alwaysUseExisting'', ''alwaysCreateNew'', ''commander''} \<and> passes fs e"
  "e TestClusterCreateMode \<in> {''alwaysUseExisting'', ''alwaysCreateNew'', ''commander''} \<Longrightarrow> stmts (mode_stmts @ fs) e = stmts fs e"
  unfolding mode_stmts_def append_Cons append_Nil passes_steps stmts_steps setting_value_defs
  by auto

lemma commander_block:
  "passes (commander_stmts @ fs) e \<longleftrightarrow> commander_ready e \<and> passes fs (with_commander_defaults e)"
  "commander_ready e \<Longrightarrow> stmts (commander_stmts @ fs) e = stmts fs (with_commander_defaults e)"
  unfolding commander_stmts_def append_Cons append_Nil passes_steps stmts_steps
  by (auto simp: or_default_in commander_ready_def with_commander_defaults_def)

definition with_first_defaults :: "settings \<Rightarrow> settings" where
  "with_first_defaults e = e(YAMLConfigFilename := or_default YAMLConfigFilename (e YAMLConfigFilename),
     TestClusterCleanup := (if e TestClusterCleanup = ''true'' \<or> e TestClusterCleanup = ''True'' then e TestClusterCleanup else ''false''),
     SSHPrivateKey := or_default SSHPrivateKey (e SSHPrivateKey), VMSSHUser := or_default VMSSHUser (e VMSSHUser),
     SSHPublicKey := or_default SSHPublicKey (e SSHPublicKey), TestClusterNamespace := or_default TestClusterNamespace (e TestClusterNamespace))"

definition with_log_defaults :: "settings \<Rightarrow> settings" where
  "with_log_defaults e = e(LogLevel := or_default LogLevel (e LogLevel), LogTimetampsEnabled := or_default LogTimetampsEnabled (e LogTimetampsEnabled))"

definition log_ok :: "settings \<Rightarrow> bool" where
  "log_ok e \<longleftrightarrow> e LogLevel \<in> {[], ''debug'', ''info'', ''warn'', ''error''} \<and> e LogTimetampsEnabled \<in> {[], ''true'', ''false''}"

lemma first_block:
  "stmts (default_if_empty YAMLConfigFilename # default_cleanup # default_if_empty SSHPrivateKey # default_if_empty VMSSHUser
     # default_if_empty SSHPublicKey # default_if_empty TestClusterNamespace # fs) e = stmts fs (with_first_defaults e)"
  by (simp only: stmts_steps with_first_defaults_def fun_upd_apply setting.distinct if_False)

lemma log_block: "log_ok e \<Longrightarrow> stmts log_stmts e = (with_log_defaults e, None)"
  unfolding log_stmts_def stmts_steps setting_value_defs log_ok_def with_log_defaults_def
  by (simp only: stmts.simps(1) or_default_in fun_upd_apply setting.distinct if_True if_False simp_thms)

lemma when_commander_block:
  "passes (when_commander # log_stmts) e \<longleftrightarrow> (e TestClusterCreateMode = ''commander'' \<longrightarrow> commander_ready e) \<and> log_ok e"
  "log_ok e \<Longrightarrow> e TestClusterCreateMode = ''commander'' \<longrightarrow> commander_ready e \<Longrightarrow> stmts (when_commander # log_stmts) e =
     (with_log_defaults (if e TestClusterCreateMode = ''commander'' then with_commander_defaults e else e), None)"
proof -
  have ok: "log_ok (with_commander_defaults e) = log_ok e" by (simp add: log_ok_def with_commander_defaults_def)
  show "passes (when_commander # log_stmts) e \<longleftrightarrow> (e TestClusterCreateMode = ''commander'' \<longrightarrow> commander_ready e) \<and> log_ok e"
    using ok by (auto simp: passes_when_commander commander_block passes_log log_ok_def)
  show "stmts (when_commander # log_stmts) e =
     (with_log_defaults (if e TestClusterCreateMode = ''commander'' then with_commander_defaults e else e), None)"
    if "log_ok e" "e TestClusterCreateMode = ''commander'' \<longrightarrow> commander_ready e"
    using that ok by (cases "e TestClusterCreateMode = ''commander''")
      (simp_all only: stmts_when_commander commander_block log_block if_True if_False simp_thms)
qed

definition prepared :: "settings \<Rightarrow> settings" where
  "prepared e = (with_class_name (with_first_defaults e))(ImagePullPolicy := or_default ImagePullPolicy (e ImagePullPolicy))"

lemma prepared_frame:
  "s \<notin> set [YAMLConfigFilename, TestClusterCleanup, SSHPrivateKey, VMSSHUser, SSHPublicKey, TestClusterNamespace,
     TestClusterVirtualMachineClassName, ImagePullPolicy] \<Longrightarrow> prepared e s = e s"
  by (simp add: prepared_def with_class_name_def with_first_defaults_def)

lemma first_defaults_frame:
  "class_name_ok isDNS (with_first_defaults e) = class_name_ok isDNS e"
  "EffectiveVirtualMachineClassName (with_first_defaults e) = EffectiveVirtualMachineClassName e"
  by (simp_all add: class_name_ok_def EffectiveVirtualMachineClassName_def with_first_defaults_def)

lemma class_name_frame:
  "s \<notin> set [YAMLConfigFilename, TestClusterCleanup, SSHPrivateKey, VMSSHUser, SSHPublicKey, TestClusterNamespace,
     TestClusterVirtualMachineClassName] \<Longrightarrow> with_class_name (with_first_defaults e) s = e s"
  by (simp add: with_class_name_def with_first_defaults_def)

lemma acceptable_blocks:
  "acceptable isDNS e \<longleftrightarrow> class_name_ok isDNS e \<and> list_all (\<lambda>s. e s \<noteq> []) requiredSettings
     \<and> e ImagePullPolicy \<in> {[], ''Always'', ''IfNotExists''}
     \<and> e TestClusterCreateMode \<in> {''alwaysUseExisting'', ''alwaysCreateNew'', ''commander''}
     \<and> (e TestClusterCreateMode = ''commander'' \<longrightarrow> commander_ready e) \<and> log_ok e"
  by (simp only: acceptable_def log_ok_def)

lemma validate_blocks:
  "ValidateEnvironment isDNS e = stmts (class_name_stmts isDNS @ map fail_if_unset requiredSettings @ pull_policy_stmts @ mode_stmts
     @ when_commander # log_stmts) (with_first_defaults e)"
  by (simp only: ValidateEnvironment_def append_Cons append_Nil first_block requiredSettings_def list.map)

lemma validate_accepts: "snd (ValidateEnvironment isDNS e) = None \<longleftrightarrow> acceptable isDNS e"
proof -
  have required: "list_all (\<lambda>s. with_class_name (with_first_defaults e) s \<noteq> []) requiredSettings = list_all (\<lambda>s. e s \<noteq> []) requiredSettings"
    by (simp add: requiredSettings_def class_name_frame)
  have ready: "commander_ready (prepared e) = commander_ready e" "log_ok (prepared e) = log_ok e"
    by (simp_all add: commander_ready_def log_ok_def prepared_frame)
  have prep: "(with_class_name (with_first_defaults e))(ImagePullPolicy := or_default ImagePullPolicy (e ImagePullPolicy)) = prepared e"
    by (simp add: prepared_def)
  have same: "with_class_name (with_first_defaults e) ImagePullPolicy = e ImagePullPolicy"
    "prepared e TestClusterCreateMode = e TestClusterCreateMode"
    by (simp_all add: prepared_frame class_name_frame)
  show ?thesis
    unfolding validate_blocks passes_def [symmetric] class_name_block required_block pull_policy_block mode_block
      when_commander_block first_defaults_frame required same prep ready acceptable_blocks ..
qed

lemma completed_blocks:
  "with_log_defaults (if prepared e TestClusterCreateMode = ''commander'' then with_commander_defaults (prepared e) else prepared e)
   = completed e"
proof
  fix s
  show "with_log_defaults (if prepared e TestClusterCreateMode = ''commander'' then with_commander_defaults (prepared e) else prepared e) s
   = completed e s"
  proof (cases "s = TestClusterVirtualMachineClassName")
    case True
    then show ?thesis
      by (simp add: with_log_defaults_def with_commander_defaults_def prepared_def with_class_name_def first_defaults_frame completed_def)
  next
    case False
    then show ?thesis
      by (cases s) (simp_all add: with_log_defaults_def with_commander_defaults_def prepared_def with_class_name_def
          with_first_defaults_def completed_def always_defaulted_def commander_defaulted_def or_default_def)
  qed
qed

lemma validate_completes:
  assumes "acceptable isDNS e"
  shows "ValidateEnvironment isDNS e = (completed e, None)"
proof -
  note ok = assms [unfolded acceptable_blocks]
  have required: "list_all (\<lambda>s. with_class_name (with_first_defaults e) s \<noteq> []) requiredSettings"
    using ok by (simp add: requiredSettings_def class_name_frame)
  have ready: "prepared e TestClusterCreateMode = ''commander'' \<longrightarrow> commander_ready (prepared e)" "log_ok (prepared e)"
    using ok by (simp_all add: commander_ready_def log_ok_def prepared_frame)
  have policy: "with_class_name (with_first_defaults e) ImagePullPolicy = e ImagePullPolicy"
    and mode: "prepared e TestClusterCreateMode = e TestClusterCreateMode"
    by (simp_all add: prepared_frame class_name_frame)
  have "ValidateEnvironment isDNS e = stmts (map fail_if_unset requiredSettings @ pull_policy_stmts @ mode_stmts @ when_commander # log_stmts)
      (with_class_name (with_first_defaults e))"
    unfolding validate_blocks using ok by (intro class_name_block) (simp add: first_defaults_frame)
  also have "\<dots> = stmts (pull_policy_stmts @ mode_stmts @ when_commander # log_stmts) (with_class_name (with_first_defaults e))"
    by (rule required_block) (rule required)
  also have "\<dots> = stmts (mode_stmts @ when_commander # log_stmts) (prepared e)"
    unfolding prepared_def using ok by (subst pull_policy_block) (simp_all only: policy)
  also have "\<dots> = stmts (when_commander # log_stmts) (prepared e)"
    using ok by (intro mode_block) (simp only: mode)
  also have "\<dots> = (completed e, None)"
    by (simp only: when_commander_block(2) [OF ready(2,1)] completed_blocks)
  finally show ?thesis .
qed




lemma environment_completed: "ValidateEnvironment isDNS e = (e', None) \<Longrightarrow> acceptable isDNS e \<and> e' = completed e"
  using validate_accepts [of isDNS e] validate_completes [of isDNS e] by auto


end
