(* ===== verification/Logging.thy ===== *)
theory Logging
  imports Environment Dvp_Config
begin

text \<open>
  The logger, \<^verbatim>\<open>internal/logger\<close>, and \<^verbatim>\<open>Initialize\<close> of \<^verbatim>\<open>pkg/storage-e2e/setup.go\<close>, which sets it up and then validates the environment. A handler is
  one of the two leaves, the console and the JSON file, or several handlers behind one. The theorems say which lines a record puts into which
  output, and with which settings the logger of a suite runs: those before the defaults were filled in.
\<close>

section \<open>Levels\<close>

type_synonym slog_level = int

definition LevelDebug :: slog_level where "LevelDebug = - 4"
definition LevelInfo :: slog_level where "LevelInfo = 0"
definition LevelWarn :: slog_level where "LevelWarn = 4"
definition LevelError :: slog_level where "LevelError = 8"

lemmas level_defs = LevelDebug_def LevelInfo_def LevelWarn_def LevelError_def

definition ParseLevel :: "string \<Rightarrow> slog_level" where
  "ParseLevel level =
     (let l = toLower (trimSpace level) in
      if l = ''debug'' then LevelDebug
      else if l = ''info'' then LevelInfo
      else if l = ''warn'' \<or> l = ''warning'' then LevelWarn
      else if l = ''error'' then LevelError
      else LevelInfo)"

definition LevelToString :: "slog_level \<Rightarrow> string" where
  "LevelToString level =
     (if level = LevelDebug then ''DEBUG''
      else if level = LevelInfo then ''INFO''
      else if level = LevelWarn then ''WARN''
      else if level = LevelError then ''ERROR''
      else ''INFO'')"

section \<open>Handlers\<close>

text \<open>The value of an attribute is kept as the text that \<^verbatim>\<open>%v\<close> gives.\<close>

record slog_attr =
  at_key :: string
  at_value :: string

record slog_record =
  lr_time :: int
  lr_level :: slog_level
  lr_message :: string
  lr_attrs :: "slog_attr list"

datatype log_sink = Stdout | LogFile nat

record console_options =
  co_Level :: slog_level
  co_UseColors :: bool
  co_TimeFormat :: string

record console_handler =
  ch_opts :: console_options
  ch_writer :: log_sink
  ch_attrs :: "slog_attr list"
  ch_groups :: "string list"

text \<open>\<^verbatim>\<open>slog.JSONHandler\<close> of the standard library: it drops records below its level, and writes one line for each other one.\<close>

record json_handler =
  jh_writer :: log_sink
  jh_level :: slog_level
  jh_attrs :: "slog_attr list"
  jh_groups :: "string list"

datatype slog_handler =
    ConsoleHandler console_handler
  | JSONHandler json_handler
  | MultiHandler "slog_handler list"

datatype log_event =
    LogWrote log_sink string "goerr option"
  | LogMkdirAll string "goerr option"
  | LogOpened string "goerr + nat"
  | LogClosed nat "goerr option"

text \<open>
  Package \<^verbatim>\<open>os\<close> and what the standard library does with a record: \<open>lo_format\<close> is \<^verbatim>\<open>Time.Format\<close> of a layout, and \<open>lo_json\<close> the line of the JSON handler.
\<close>

record 'e log_os =
  lo_write :: "log_sink \<Rightarrow> string \<Rightarrow> 'e \<Rightarrow> goerr option \<times> 'e"
  lo_mkdirAll :: "string \<Rightarrow> 'e \<Rightarrow> goerr option \<times> 'e"
  lo_openFile :: "string \<Rightarrow> 'e \<Rightarrow> (goerr + nat) \<times> 'e"
  lo_close :: "nat \<Rightarrow> 'e \<Rightarrow> goerr option \<times> 'e"
  lo_format :: "string \<Rightarrow> int \<Rightarrow> string"
  lo_json :: "json_handler \<Rightarrow> slog_record \<Rightarrow> string"

type_synonym ('e, 'a) log_io = "(log_event, 'e, 'a) io"

definition log_write :: "'e log_os \<Rightarrow> log_sink \<Rightarrow> string \<Rightarrow> ('e, goerr option) log_io" where
  "log_write os sink line = call (LogWrote sink line) (lo_write os sink line)"

definition NewConsoleHandler :: "log_sink \<Rightarrow> console_options option \<Rightarrow> console_handler" where
  "NewConsoleHandler w opts =
     (let opts = (case opts of None \<Rightarrow> \<lparr>co_Level = LevelInfo, co_UseColors = True, co_TimeFormat = []\<rparr> | Some opts \<Rightarrow> opts) in
      \<lparr>ch_opts = opts, ch_writer = w, ch_attrs = [], ch_groups = []\<rparr>)"

definition esc_code :: "string \<Rightarrow> string" where
  "esc_code code = CHR 0x1B # ''['' @ code @ ''m''"

definition colorizeLevel :: "slog_level \<Rightarrow> string" where
  "colorizeLevel level =
     (if level = LevelDebug then esc_code ''90'' @ ''[DEBUG]'' @ esc_code ''0'' @ '' ''
      else if level = LevelInfo then esc_code ''34'' @ ''[INFO]'' @ esc_code ''0'' @ ''  ''
      else if level = LevelWarn then esc_code ''33'' @ ''[WARN]'' @ esc_code ''0'' @ ''  ''
      else if level = LevelError then esc_code ''31'' @ ''[ERROR]'' @ esc_code ''0'' @ '' ''
      else ''[INFO]  '')"

definition attrs_text :: "slog_attr list \<Rightarrow> string" where
  "attrs_text attrs = (if attrs = [] then []
     else '' ['' @ str_join '', '' (map (\<lambda>a. at_key a @ ''='' @ at_value a) attrs) @ '']'')"

definition console_line :: "'e log_os \<Rightarrow> console_handler \<Rightarrow> slog_record \<Rightarrow> string" where
  "console_line os h r =
     (let opts = ch_opts h in
      (if co_TimeFormat opts = [] then [] else ''['' @ lo_format os (co_TimeFormat opts) (lr_time r) @ ''] '')
      @ (if co_UseColors opts then colorizeLevel (lr_level r) else ''['' @ LevelToString (lr_level r) @ ''] '')
      @ lr_message r
      @ attrs_text (filter (\<lambda>a. at_key a \<noteq> ''type'') (lr_attrs r) @ ch_attrs h)
      @ [nl])"

definition console_Handle :: "'e log_os \<Rightarrow> console_handler \<Rightarrow> slog_record \<Rightarrow> ('e, goerr option) log_io" where
  "console_Handle os h r = log_write os (ch_writer h) (console_line os h r)"

definition json_Handle :: "'e log_os \<Rightarrow> json_handler \<Rightarrow> slog_record \<Rightarrow> ('e, goerr option) log_io" where
  "json_Handle os h r = log_write os (jh_writer h) (lo_json os h r)"

fun handler_Enabled :: "slog_handler \<Rightarrow> slog_level \<Rightarrow> bool" where
  "handler_Enabled (ConsoleHandler h) level \<longleftrightarrow> level \<ge> co_Level (ch_opts h)"
| "handler_Enabled (JSONHandler h) level \<longleftrightarrow> level \<ge> jh_level h"
| "handler_Enabled (MultiHandler hs) level \<longleftrightarrow> list_ex (\<lambda>h. handler_Enabled h level) hs"

fun handler_Handle :: "'e log_os \<Rightarrow> slog_handler \<Rightarrow> slog_record \<Rightarrow> ('e, goerr option) log_io"
  and handlers_Handle :: "'e log_os \<Rightarrow> slog_handler list \<Rightarrow> slog_record \<Rightarrow> ('e, goerr option) log_io" where
  "handler_Handle os (ConsoleHandler h) r = console_Handle os h r"
| "handler_Handle os (JSONHandler h) r = json_Handle os h r"
| "handler_Handle os (MultiHandler hs) r = handlers_Handle os hs r"
| "handlers_Handle os [] r = io_ret None"
| "handlers_Handle os (h # hs) r =
     (if handler_Enabled h (lr_level r)
      then io_bind (handler_Handle os h r) (\<lambda>err. case err of Some e \<Rightarrow> io_ret (Some e) | None \<Rightarrow> handlers_Handle os hs r)
      else handlers_Handle os hs r)"

fun handler_WithAttrs :: "slog_attr list \<Rightarrow> slog_handler \<Rightarrow> slog_handler" where
  "handler_WithAttrs attrs (ConsoleHandler h) = ConsoleHandler (h\<lparr>ch_attrs := ch_attrs h @ attrs\<rparr>)"
| "handler_WithAttrs attrs (JSONHandler h) = JSONHandler (h\<lparr>jh_attrs := jh_attrs h @ attrs\<rparr>)"
| "handler_WithAttrs attrs (MultiHandler hs) = MultiHandler (map (handler_WithAttrs attrs) hs)"

fun handler_WithGroup :: "string \<Rightarrow> slog_handler \<Rightarrow> slog_handler" where
  "handler_WithGroup name (ConsoleHandler h) = ConsoleHandler (h\<lparr>ch_groups := ch_groups h @ [name]\<rparr>)"
| "handler_WithGroup name (JSONHandler h) = JSONHandler (h\<lparr>jh_groups := jh_groups h @ [name]\<rparr>)"
| "handler_WithGroup name (MultiHandler hs) = MultiHandler (map (handler_WithGroup name) hs)"

section \<open>The logger of the process\<close>

record logger_state =
  ls_defaultLogger :: "slog_handler option"
  ls_logFile :: "nat option"

definition console_for :: "settings \<Rightarrow> slog_handler" where
  "console_for e = ConsoleHandler (NewConsoleHandler Stdout (Some \<lparr>co_Level = ParseLevel (e LogLevel), co_UseColors = True,
     co_TimeFormat = (if e LogTimetampsEnabled = ''true'' then ''15:04:05'' else [])\<rparr>))"

definition file_handler :: "settings \<Rightarrow> nat \<Rightarrow> slog_handler" where
  "file_handler e f = JSONHandler \<lparr>jh_writer = LogFile f, jh_level = ParseLevel (e LogLevel), jh_attrs = [], jh_groups = []\<rparr>"

text \<open>\<^verbatim>\<open>os.OpenFile\<close> assigns to \<^verbatim>\<open>logFile\<close> also when it fails: the variable is nil then.\<close>

definition logger_Initialize :: "'e log_os \<Rightarrow> settings \<Rightarrow> logger_state \<Rightarrow> ('e, goerr option \<times> logger_state) log_io" where
  "logger_Initialize os e st =
     (let path = e LogFilePath; logDir = path_Dir path in
      if path = [] then io_ret (None, st\<lparr>ls_defaultLogger := Some (MultiHandler [console_for e])\<rparr>)
      else io_bind (if logDir \<noteq> [] \<and> logDir \<noteq> ''.'' then call (LogMkdirAll logDir) (lo_mkdirAll os logDir) else io_ret None) (\<lambda>err.
      case err of
        Some x \<Rightarrow> io_ret (Some (wrapf (''failed to create log directory '' @ logDir @ '': '') x), st)
      | None \<Rightarrow> io_bind (call (LogOpened path) (lo_openFile os path)) (\<lambda>r.
      case r of
        Inl x \<Rightarrow> io_ret (Some (wrapf (''failed to open log file '' @ path @ '': '') x), st\<lparr>ls_logFile := None\<rparr>)
      | Inr f \<Rightarrow> io_ret (None, \<lparr>ls_defaultLogger = Some (MultiHandler [console_for e, file_handler e f]), ls_logFile = Some f\<rparr>))))"

definition logger_Close :: "'e log_os \<Rightarrow> logger_state \<Rightarrow> ('e, goerr option \<times> logger_state) log_io" where
  "logger_Close os st = (case ls_logFile st of
     None \<Rightarrow> io_ret (None, st)
   | Some f \<Rightarrow> io_bind (call (LogClosed f) (lo_close os f)) (\<lambda>err. case err of
       Some x \<Rightarrow> io_ret (Some (wrapf ''failed to close log file: '' x), st)
     | None \<Rightarrow> io_ret (None, st\<lparr>ls_logFile := None\<rparr>)))"

text \<open>\<open>slogDefault\<close> is the handler behind \<^verbatim>\<open>slog.Default()\<close>.\<close>

definition GetLogger :: "slog_handler \<Rightarrow> logger_state \<Rightarrow> slog_handler" where
  "GetLogger slogDefault st = (case ls_defaultLogger st of None \<Rightarrow> slogDefault | Some h \<Rightarrow> h)"

definition SetLogger :: "slog_handler option \<Rightarrow> logger_state \<Rightarrow> logger_state" where
  "SetLogger logger st = st\<lparr>ls_defaultLogger := logger\<rparr>"

definition WithField :: "slog_handler \<Rightarrow> logger_state \<Rightarrow> string \<Rightarrow> string \<Rightarrow> slog_handler" where
  "WithField slogDefault st key val = handler_WithAttrs [\<lparr>at_key = key, at_value = val\<rparr>] (GetLogger slogDefault st)"

text \<open>\<open>kvs\<close> is the map in the order in which \<^verbatim>\<open>range\<close> visits it. \<^verbatim>\<open>Logger.With\<close> without arguments returns the logger itself.\<close>

definition WithFields :: "slog_handler \<Rightarrow> logger_state \<Rightarrow> (string \<times> string) list \<Rightarrow> slog_handler" where
  "WithFields slogDefault st kvs =
     (if kvs = [] then GetLogger slogDefault st
      else handler_WithAttrs (map (\<lambda>(k, v). \<lparr>at_key = k, at_value = v\<rparr>) kvs) (GetLogger slogDefault st))"

definition NewTestLogger :: "log_sink \<Rightarrow> slog_level \<Rightarrow> slog_handler" where
  "NewTestLogger w level = ConsoleHandler (NewConsoleHandler w (Some \<lparr>co_Level = level, co_UseColors = False, co_TimeFormat = []\<rparr>))"

text \<open>\<^verbatim>\<open>Logger.Info\<close> and the like: a record that no handler wants is not made, and the error of the handler is dropped.\<close>

definition logger_log :: "'e log_os \<Rightarrow> slog_handler \<Rightarrow> slog_record \<Rightarrow> ('e, unit) log_io" where
  "logger_log os h r = (if handler_Enabled h (lr_level r) then io_bind (handler_Handle os h r) (\<lambda>_. io_ret ()) else io_ret ())"

section \<open>What the program logs\<close>

text \<open>The functions of the package; the formatted message is an argument, and the emojis are their bytes in UTF-8.\<close>

datatype log_call = Step int | StepComplete int | Success | Info | Warn | Error | Debug | Progress | Skip | Delete

definition addEmoji :: "bool \<Rightarrow> string \<Rightarrow> string \<Rightarrow> string" where
  "addEmoji useEmojis emoji msg = (if useEmojis then emoji @ '' '' @ msg else msg)"

definition typed_record :: "int \<Rightarrow> slog_level \<Rightarrow> string \<Rightarrow> string \<Rightarrow> slog_record" where
  "typed_record now level msg type = \<lparr>lr_time = now, lr_level = level, lr_message = msg, lr_attrs = [\<lparr>at_key = ''type'', at_value = type\<rparr>]\<rparr>"

primrec log_record :: "bool \<Rightarrow> int \<Rightarrow> string \<Rightarrow> log_call \<Rightarrow> slog_record" where
  "log_record ue now msg (Step n) = typed_record now LevelInfo (addEmoji ue [CHR 0xE2, CHR 0x96, CHR 0xB6, CHR 0xEF, CHR 0xB8, CHR 0x8F] (''Step '' @ itoa n @ '': '' @ msg)) ''step''"
| "log_record ue now msg (StepComplete n) =
     typed_record now LevelInfo (addEmoji ue [CHR 0xE2, CHR 0x9C, CHR 0x85] (''Step '' @ itoa n @ '' Complete: '' @ msg)) ''step_complete''"
| "log_record ue now msg Success = typed_record now LevelDebug (addEmoji ue [CHR 0xE2, CHR 0x9C, CHR 0x85] msg) ''success''"
| "log_record ue now msg Info = typed_record now LevelInfo (addEmoji ue [CHR 0xE2, CHR 0x84, CHR 0xB9, CHR 0xEF, CHR 0xB8, CHR 0x8F] msg) ''info''"
| "log_record ue now msg Warn = typed_record now LevelWarn (addEmoji ue [CHR 0xE2, CHR 0x9A, CHR 0xA0, CHR 0xEF, CHR 0xB8, CHR 0x8F] msg) ''warning''"
| "log_record ue now msg Error = typed_record now LevelError (addEmoji ue [CHR 0xE2, CHR 0x9D, CHR 0x8C] msg) ''error''"
| "log_record ue now msg Debug = typed_record now LevelDebug (addEmoji ue [CHR 0xF0, CHR 0x9F, CHR 0x94, CHR 0xA7] msg) ''debug''"
| "log_record ue now msg Progress = typed_record now LevelDebug (addEmoji ue [CHR 0xE2, CHR 0x8F, CHR 0xB3] msg) ''progress''"
| "log_record ue now msg Skip = typed_record now LevelDebug (addEmoji ue [CHR 0xE2, CHR 0x8F, CHR 0xAD, CHR 0xEF, CHR 0xB8, CHR 0x8F] msg) ''skip''"
| "log_record ue now msg Delete = typed_record now LevelDebug (addEmoji ue [CHR 0xF0, CHR 0x9F, CHR 0x97, CHR 0x91, CHR 0xEF, CHR 0xB8, CHR 0x8F] msg) ''delete''"

section \<open>Initialize of a suite\<close>

definition suite_Initialize ::
  "'e log_os \<Rightarrow> (string \<Rightarrow> string list) \<Rightarrow> settings \<Rightarrow> logger_state \<Rightarrow> ('e, goerr option \<times> settings \<times> logger_state) log_io" where
  "suite_Initialize os isDNS e st =
     io_bind (logger_Initialize os e st) (\<lambda>(err, st). case err of
       Some x \<Rightarrow> io_ret (Some (wrapf ''logger initialization: '' x), e, st)
     | None \<Rightarrow> (case ValidateEnvironment isDNS e of
         (e', Some x) \<Rightarrow> io_ret (Some (wrapf ''environment validation: '' x), e', st)
       | (e', None) \<Rightarrow> io_ret (None, e', st)))"

section \<open>Which lines are written\<close>

text \<open>The leaves of a handler that want a record, with the line each of them writes.\<close>

fun wanted_lines :: "'e log_os \<Rightarrow> slog_record \<Rightarrow> slog_handler \<Rightarrow> (log_sink \<times> string) list" where
  "wanted_lines os r (ConsoleHandler h) =
     (if handler_Enabled (ConsoleHandler h) (lr_level r) then [(ch_writer h, console_line os h r)] else [])"
| "wanted_lines os r (JSONHandler h) = (if handler_Enabled (JSONHandler h) (lr_level r) then [(jh_writer h, lo_json os h r)] else [])"
| "wanted_lines os r (MultiHandler hs) = concat (map (wanted_lines os r) hs)"

primrec write_until_error :: "'e log_os \<Rightarrow> (log_sink \<times> string) list \<Rightarrow> ('e, goerr option) log_io" where
  "write_until_error os [] = io_ret None"
| "write_until_error os (l # ls) =
     io_bind (log_write os (fst l) (snd l)) (\<lambda>err. case err of Some e \<Rightarrow> io_ret (Some e) | None \<Rightarrow> write_until_error os ls)"

lemma write_until_error_append:
  "write_until_error os (ls @ ms) =
     io_bind (write_until_error os ls) (\<lambda>err. case err of Some e \<Rightarrow> io_ret (Some e) | None \<Rightarrow> write_until_error os ms)"
  by (induction ls) (auto simp: io_bind_ret_left io_bind_assoc fun_eq_iff io_simps split: option.splits intro!: arg_cong2 [where f = io_bind])

lemma no_lines: "\<not> handler_Enabled h (lr_level r) \<Longrightarrow> wanted_lines os r h = []"
  by (induction os r h rule: wanted_lines.induct) (auto simp: list_ex_iff)

lemma handle_is_write:
  "handler_Enabled h (lr_level r) \<or> (\<exists>hs. h = MultiHandler hs) \<Longrightarrow> handler_Handle os h r = write_until_error os (wanted_lines os r h)"
  "handlers_Handle os hs r = write_until_error os (concat (map (wanted_lines os r) hs))"
proof (induction os h r and os hs r rule: handler_Handle_handlers_Handle.induct)
  case (5 os h hs r)
  then show ?case by (cases "handler_Enabled h (lr_level r)") (simp_all add: write_until_error_append no_lines)
qed (auto simp: console_Handle_def json_Handle_def fun_eq_iff io_simps split: option.splits)

text \<open>
  A record goes to exactly the leaves whose level admits it, in their order, up to the first write that fails; nothing is written when
  there are none.
\<close>

theorem log_lines_written:
  "logger_log os h r = io_bind (write_until_error os (wanted_lines os r h)) (\<lambda>_. io_ret ())"
  by (cases "handler_Enabled h (lr_level r)") (simp_all add: logger_log_def handle_is_write(1) no_lines io_bind_ret_left)

lemma with_keeps_level [simp]:
  "handler_Enabled (handler_WithAttrs attrs h) level = handler_Enabled h level"
  "handler_Enabled (handler_WithGroup name h) level = handler_Enabled h level"
  by (induction h) (auto simp: list_ex_iff)

lemma close_once:
  assumes "logger_Close os st w = Some ((None, st'), w')"
  shows "ls_logFile st' = None \<and> logger_Close os st' w' = Some ((None, st'), w')"
  using assms by (auto simp: logger_Close_def io_simps split: option.splits prod.splits)

section \<open>The settings the logger runs with\<close>

lemma parse_level_known:
  "ParseLevel [] = LevelInfo" "ParseLevel ''debug'' = LevelDebug" "ParseLevel ''info'' = LevelInfo" "ParseLevel ''warn'' = LevelWarn"
  "ParseLevel ''error'' = LevelError" "ParseLevel '' Warning'' = LevelWarn"
  by code_simp+

lemma logger_initialized:
  assumes "logger_Initialize os e st w = Some ((None, st'), w')"
  obtains hs where "ls_defaultLogger st' = Some (MultiHandler (console_for e # hs))"
    and "\<And>level. handler_Enabled (MultiHandler (console_for e # hs)) level \<longleftrightarrow> level \<ge> ParseLevel (e LogLevel)"
    and "hs = [] \<longleftrightarrow> e LogFilePath = []"
proof -
  have level: "handler_Enabled (console_for e) l \<longleftrightarrow> l \<ge> ParseLevel (e LogLevel)"
    "handler_Enabled (file_handler e f) l \<longleftrightarrow> l \<ge> ParseLevel (e LogLevel)" for l f
    by (simp_all add: console_for_def file_handler_def NewConsoleHandler_def)
  show thesis
  proof (cases "e LogFilePath = []")
    case True
    with assms show thesis by (intro that [of "[]"]) (auto simp: logger_Initialize_def io_simps level)
  next
    case False
    with assms obtain f where "ls_defaultLogger st' = Some (MultiHandler [console_for e, file_handler e f])"
      by (auto simp: logger_Initialize_def Let_def io_simps split: option.splits prod.splits sum.splits if_splits)
    with False show thesis by (intro that [of "[file_handler e f]"]) (auto simp: level)
  qed
qed

text \<open>
  After \<^verbatim>\<open>Initialize\<close> of a suite the settings have their defaults, but the logger was set up before: with \<^verbatim>\<open>LOG_LEVEL\<close> unset the setting reads
  \<^verbatim>\<open>debug\<close> while records of that level are dropped, and with \<^verbatim>\<open>LOG_TIMESTAMPS_ENABLED\<close> unset it reads \<^verbatim>\<open>true\<close> while the console has no timestamps.
\<close>

theorem suite_logs_before_defaults:
  assumes "suite_Initialize os isDNS e st w = Some ((None, e', st'), w')"
  shows "e' = completed e \<and> (\<exists>hs. ls_defaultLogger st' = Some (MultiHandler (console_for e # hs))
    \<and> (e LogLevel = [] \<longrightarrow> e' LogLevel = ''debug''
        \<and> (\<forall>r. lr_level r = LevelDebug \<longrightarrow> logger_log os (MultiHandler (console_for e # hs)) r = io_ret ()))
    \<and> (e LogTimetampsEnabled = [] \<longrightarrow> e' LogTimetampsEnabled = ''true'' \<and> console_for e \<noteq> console_for e'))"
proof -
  obtain w1 where init: "logger_Initialize os e st w = Some ((None, st'), w1)" and valid: "ValidateEnvironment isDNS e = (e', None)"
    using assms by (auto simp: suite_Initialize_def io_simps split: option.splits prod.splits)
  from valid have e': "e' = completed e" using environment_completed by metis
  obtain hs where hs: "ls_defaultLogger st' = Some (MultiHandler (console_for e # hs))"
    and level: "\<And>l. handler_Enabled (MultiHandler (console_for e # hs)) l \<longleftrightarrow> l \<ge> ParseLevel (e LogLevel)"
    using logger_initialized [OF init] by metis
  have quiet: "logger_log os (MultiHandler (console_for e # hs)) r = io_ret ()" if "e LogLevel = []" "lr_level r = LevelDebug" for r
    using level [of LevelDebug] that by (simp only: logger_log_def parse_level_known level_defs) simp
  have defaults: "e LogLevel = [] \<Longrightarrow> e' LogLevel = ''debug''" "e LogTimetampsEnabled = [] \<Longrightarrow> e' LogTimetampsEnabled = ''true''"
    by (simp_all add: e' completed_def always_defaulted_def DefaultValue_def setting_value_defs)
  have "console_for e \<noteq> console_for e'" if "e LogTimetampsEnabled = []"
    using that defaults(2) by (simp add: console_for_def NewConsoleHandler_def)
  with e' hs quiet defaults show ?thesis by blast
qed

text \<open>Such a run: the required settings are set, and nothing else.\<close>

definition least_settings :: settings where
  "least_settings s = (if s = TestClusterCreateMode then ''alwaysUseExisting'' else if s \<in> set requiredSettings then ''x'' else [])"

definition quiet_os :: "unit log_os" where
  "quiet_os = \<lparr>lo_write = (\<lambda>_ _ u. (None, u)), lo_mkdirAll = (\<lambda>_ u. (None, u)), lo_openFile = (\<lambda>_ u. (Inr 0, u)), lo_close = (\<lambda>_ u. (None, u)),
     lo_format = (\<lambda>l _. l), lo_json = (\<lambda>_ r. lr_message r)\<rparr>"

lemma least_settings_run:
  "\<exists>st'. suite_Initialize quiet_os (\<lambda>_. []) least_settings \<lparr>ls_defaultLogger = None, ls_logFile = None\<rparr> w = Some ((None, completed least_settings, st'), w)"
proof -
  have "acceptable (\<lambda>_. []) least_settings"
    by (simp add: acceptable_def class_name_ok_def requiredSettings_def least_settings_def)
  then have valid: "ValidateEnvironment (\<lambda>_. []) least_settings = (completed least_settings, None)" by (rule validate_completes)
  have path: "least_settings LogFilePath = []" by (simp add: least_settings_def requiredSettings_def)
  show ?thesis by (simp add: suite_Initialize_def logger_Initialize_def path valid io_simps)
qed

end
