(* ===== verification/Spec2Isabelle.thy ===== *)
theory Spec2Isabelle
  imports Lease_Protocol Provider_Runs Suite SSH_Tunnel Legacy_Lock Manifests Storage_Helpers Logging
begin

text \<open>
  \<^bold>\<open>Verification of storage-e2e.\<close> The program prepares clusters for end-to-end tests of storage modules. A
  \<^emph>\<open>provider\<close> creates virtual machines on a base cluster, bootstraps Deckhouse on the first master with
  dhctl, joins the other nodes, enables modules, and hands the cluster to a test suite; another one obtains
  the cluster from Deckhouse Commander; a lock keeps two suites off the same cluster. The library models the
  providers \<^verbatim>\<open>dvp\<close> and \<^verbatim>\<open>commander\<close> from their configuration to their clean-up, the lock, the entry points of a suite
  that put the two together, and the waits that suites use on the cluster.

  \<^bold>\<open>The parts and their theories\<close> (paths under \<^verbatim>\<open>src/\<close>).

  \<^item> \<open>Prelude\<close>: Go strings, errors as a datatype with the behaviour of \<^verbatim>\<open>errors.Is\<close> and \<^verbatim>\<open>errors.As\<close>, and the
    effect \<open>io\<close>: a function from a world (the trace of the calls so far and the state of the outside) to
    \<^verbatim>\<open>None\<close> (it does not return) or a result. Loops are \<open>loop\<close>, a \<^theory_text>\<open>partial_function\<close>; a claim that one returns
    is proved as such.
  \<^item> \<open>Cluster_API\<close>: the objects of the cluster, the datatype of events, contexts and the runtime (clock,
    context errors, \<^verbatim>\<open>select\<close>, order of goroutines). \<open>Concurrency\<close>: errgroups. \<open>Hoare_IO\<close>: triples over traces.
  \<^item> \<open>Retry\<close>: \<^verbatim>\<open>pkg/retry/retry.go\<close>.
  \<^item> \<open>Lease_Lock\<close>, \<open>Lease_Protocol\<close>: \<^verbatim>\<open>internal/kubernetes/clusterlock/lease.go\<close>; the second interleaves the requests of
    any number of runs as a step relation and shows that the functions of the first take its steps.
  \<^item> \<open>Cluster_Config\<close>: \<^verbatim>\<open>internal/config\<close>, the definition of a cluster. \<open>Naming\<close>: names derived from URLs and pairs.
  \<^item> \<open>Module_Levels\<close>, \<open>Module_Enable\<close>: the order of modules and their enabling, \<^verbatim>\<open>internal/provisioning/dvp/modules.go\<close>,
    \<^verbatim>\<open>pkg/kubernetes/modules.go\<close>, \<^verbatim>\<open>internal/kubernetes/deckhouse\<close>.
  \<^item> \<open>Module_Configure\<close>: the other way to enable modules, in \<^verbatim>\<open>pkg/kubernetes/modules.go\<close>, with retry loops of its own.
  \<^item> \<open>Virtualization\<close>, \<open>VM_Provision\<close>, \<open>Disks\<close>: the virtualization client, the fleet of machines in \<^verbatim>\<open>dvp/vm\<close>, and the
    disk manager in \<^verbatim>\<open>dvp/disks.go\<close>.
  \<^item> \<open>Dvp_Config\<close>, \<open>Bootstrap\<close>: \<^verbatim>\<open>dvp/config.go\<close>, \<^verbatim>\<open>dvp/kubeconfig.go\<close> and \<^verbatim>\<open>dvp/bootstrap.go\<close>.
  \<^item> \<open>Kube_Access\<close>: \<^verbatim>\<open>internal/kubernetes/kubeaccess\<close> and the clients, namespaces and node groups of \<^verbatim>\<open>pkg/kubernetes\<close>.
  \<^item> \<open>Install\<close>, \<open>Node_Join\<close>, \<open>Dhctl\<close>: \<^verbatim>\<open>dvp/install.go\<close>, \<^verbatim>\<open>dvp/setupnode.go\<close>, \<^verbatim>\<open>dvp/nodes.go\<close>, \<^verbatim>\<open>dvp/dhctl.go\<close>.
  \<^item> \<open>Connector\<close>: \<^verbatim>\<open>dvp/connect.go\<close>, the node executor, and the parts of \<^verbatim>\<open>internal/infrastructure/ssh/v2\<close> they use.
  \<^item> \<open>SSH_Conn\<close>: \<^verbatim>\<open>ssh/v2/conn.go\<close>, \<^verbatim>\<open>errors.go\<close> and \<^verbatim>\<open>exec.go\<close>: the connection that heals itself, as a step relation over
    reconnects, the keepalive loop and \<^verbatim>\<open>Close\<close>, and a command run on it. \<open>SSH_Dial\<close>: \<^verbatim>\<open>dialer.go\<close>, \<^verbatim>\<open>endpoint.go\<close> and \<^verbatim>\<open>client.go\<close>: the
    credentials of an endpoint and the dialing of a route hop by hop. \<open>SSH_Tunnel\<close>: \<^verbatim>\<open>tunnel.go\<close>, its goroutines as a step relation.
  \<^item> \<open>Provider\<close>, \<open>Provider_Runs\<close>: \<^verbatim>\<open>dvp/provider.go\<close>, \<^verbatim>\<open>dvp/deps.go\<close>, \<^verbatim>\<open>dvp/connect_test_cluster.go\<close>; whole runs.
  \<^item> \<open>Commander_Client\<close>, \<open>Commander_Update\<close>: \<^verbatim>\<open>internal/kubernetes/commander\<close>, its requests and the update of input values.
    \<open>Commander_Provider\<close>: \<^verbatim>\<open>internal/provisioning/commander\<close>, on top of them, of \<open>Connector\<close> and of \<open>Module_Configure\<close>.
  \<^item> \<open>Suite\<close>: \<^verbatim>\<open>pkg/e2e\<close>, \<^verbatim>\<open>pkg/clusterprovider\<close> with its registry, and the commands \<^verbatim>\<open>cmd/bootstrap-cluster\<close> and \<^verbatim>\<open>cmd/remove-cluster\<close>: a provider
    behind its interface, \<^verbatim>\<open>Connect\<close> with the health check and the lock, and \<^verbatim>\<open>Close\<close>.
  \<^item> \<open>Kube_Helpers\<close>: \<^verbatim>\<open>poll.go\<close>, \<^verbatim>\<open>nodes.go\<close>, \<^verbatim>\<open>pvc.go\<close> and \<^verbatim>\<open>pod.go\<close> of \<^verbatim>\<open>pkg/kubernetes\<close>.
    \<open>Storage_Helpers\<close>: its \<^verbatim>\<open>virtualdisk.go\<close> and \<^verbatim>\<open>storageclass.go\<close>. \<open>Manifests\<close>: its \<^verbatim>\<open>apply.go\<close>, documents, variables and objects. \<open>Legacy_Lock\<close>: \<^verbatim>\<open>pkg/cluster/lock.go\<close>, the ConfigMap that was the lock
    before the Lease.
  \<^item> \<open>Environment\<close>: \<^verbatim>\<open>internal/config/env.go\<close>, the settings of a suite as a store over the package variables. \<open>Logging\<close>: \<^verbatim>\<open>internal/logger\<close>, its levels,
    handlers and set-up, and \<^verbatim>\<open>pkg/storage-e2e/setup.go\<close>, which sets it up and then validates the environment.

  \<^bold>\<open>How code becomes definitions.\<close> A function of the program is a definition of the same name; a struct is a
  record, an error a value. Calls that leave the program are fields of records of functions
  (\<open>lease_api\<close>, \<open>virt_api\<close>, \<open>deckhouse_api\<close>, \<open>kube_api\<close>, \<open>ssh_lib\<close>, \<open>key_lib\<close>, \<open>clientcmd\<close>, \<open>http_lib\<close>, \<open>json_lib\<close>, \<open>dial_lib\<close>, \<open>helper_api\<close>, \<open>storage_api\<close>, \<open>apply_api\<close>, \<open>log_os\<close>), so every theorem
  holds for every behaviour of the outside; each call appends an event with its arguments and its
  answer. Durations are nanoseconds in \<^typ>\<open>int\<close>; sizes of disks are computed in 64 bits. The calls that log are left out.

  \<^bold>\<open>Interfaces\<close> are locales: \<open>error_classifier\<close> (what wrapping must not hide), \<open>poller\<close> (loops that check and
  wait), \<open>dep_graph\<close> (what an order of modules is computed from), \<open>module_applier\<close> (what applying a module does;
  both ways of enabling are instances),
  \<open>absent_creator\<close> (creation after a read), \<open>disk_manager\<close> (the operations on disks), \<open>label_maker\<close> (names),
  \<open>base_connector\<close> and \<open>master_connector\<close> (how machines are reached), \<open>test_provider\<close> (what a suite relies on when it connects
  through a provider; both providers are instances). Each is interpreted on the definitions of the
  program, and the lemmas proved inside it are used through that interpretation.

  \<^bold>\<open>What is shown.\<close>
  \<^item> The lock: under all interleavings no two runs rely on it at once, if a delete is sent in time; a run in
    which it is not shows why. Acquisition, renewal and release, with its retries, refine the protocol.
  \<^item> The retry engine: attempts, waits and outcome of every call, its termination and its bounds.
  \<^item> A definition that is loaded is valid; the modules of a definition are ordered by both algorithms
    alike, completely, and enabled in that order.
  \<^item> The fleet: provisioning creates only what it has just read as absent, with the label, and ends with
    the addresses it read; teardown deletes only labelled objects. Disks only grow, and their operations
    return when the state they ask for was seen.
  \<^item> The bootstrap: the internal network of the machines, the words the shell makes of the command, files
    written losslessly, the guard around a master that is already installed, dhctl against just this master (with a passphrase, through the
    connection configuration written before it), sound and returning waits,
    joins that are justified by what was read.
  \<^item> The ssh client: in every interleaving each connection has one owner and is closed once, closing comes
    to an end, and a command is sent at most once however often a session is opened again.
  \<^item> The provider \<^verbatim>\<open>dvp\<close>: all phases in order; every connection that is opened is closed on every branch.
  \<^item> The provider \<^verbatim>\<open>commander\<close>: a cluster is created at most once and only when the list does not show it, used only
    after it was shown Ready, and only the listed one is deleted; its connections are closed on every branch. An
    update of input values loses no concurrent change, and the wait for its effect ends as it should.
  \<^item> The suite: with both providers a failed \<^verbatim>\<open>Connect\<close> leaves nothing open and \<^verbatim>\<open>Close\<close> closes everything; the lock is only
    requested on a cluster that was seen healthy.
  \<^item> Dialing is all or nothing, up to a leaked connection to the agent, and when the \<^verbatim>\<open>Close\<close> of a tunnel has returned, its listener, its accept loop
    and its handlers with their connections are finished; the watchers and abandoned dials that it does not wait for come to an end as well, with every late connection closed.
  \<^item> The helpers: the waits for an object stop on what they wait for; labelling adds one label to nodes as they were read; which of the
    waits their limit bounds, and one that it does not. Documents are cut apart losslessly, objects are only replaced with the version
    that was just read, and which variables of a manifest are checked and which are substituted; what a new default storage class keeps of the settings. The ConfigMap lock is created only where there was none.
  \<^item> The settings: which environments are accepted and what they become. The logger: which lines a record puts where, and that a suite
    logs with the settings from before the defaults.

  \<^bold>\<open>Bounds.\<close> There is no fuel. A recursion that is not structural has a termination proof; \<^verbatim>\<open>for\<close> loops without
  a bound are \<open>loop\<close>, whose value is \<^verbatim>\<open>None\<close> when it never ends. Goroutines of a group run one after the other
  in an arbitrary order; they work on objects of their own.

  \<^bold>\<open>Not modelled.\<close> The bytes that a tunnel copies; the former suite in \<^verbatim>\<open>pkg/cluster\<close> (but for its lock) and \<^verbatim>\<open>internal/cluster\<close>, and the
  former SSH client, which the providers replace; the helpers of \<^verbatim>\<open>pkg/kubernetes\<close> for Ceph, LVM, snapshots, secrets and commands in pods, and the scenarios in
  \<^verbatim>\<open>pkg/testkit\<close>, which are sequences of single requests; what the parts of the program log.
\<close>

end
